(* ===== verification/Bv_Prelude.thy ===== *)
theory Bv_Prelude
  imports Main "HOL-Library.Word"
begin

unbundle bit_operations_syntax

text \<open>
  The vocabulary every other theory shares: the machine integer types of the C code, byte
  arrays as total functions from an offset to a byte, little-endian loads and stores on such
  arrays (x86 stores the least significant byte first), and the \<open>memcpy\<close> of the code.
  A C object of \<open>n\<close> bytes is a function of which only the offsets below \<open>n\<close> mean anything;
  a physical memory is a function of the 64-bit physical address.
\<close>

type_synonym u8 = "8 word"
type_synonym u16 = "16 word"
type_synonym u32 = "32 word"
type_synonym u64 = "64 word"

type_synonym bytes = "nat \<Rightarrow> u8"
type_synonym physmem = "u64 \<Rightarrow> u8"

abbreviation PAGESIZE :: u64 where "PAGESIZE \<equiv> 0x1000"
abbreviation PAGESIZE_MASK :: u64 where "PAGESIZE_MASK \<equiv> 0xFFF"
abbreviation PAGESIZE2M :: u64 where "PAGESIZE2M \<equiv> 0x200000"
abbreviation PAGESIZE2M_MASK :: u64 where "PAGESIZE2M_MASK \<equiv> 0x1FFFFF"

named_theorems bytes_simps \<open>reads over writes of byte arrays\<close>

section \<open>Words as natural numbers\<close>

text \<open>Masks and shifts of addresses, read as remainders and quotients.\<close>

lemma and_not_mask_sub: "a AND NOT (mask n) = a - take_bit n a" for a :: "'a::len word"
proof -
  have "a AND NOT (mask n) = push_bit n (drop_bit n a)"
    by (rule bit_word_eqI) (auto simp: bit_simps)
  then show ?thesis using bits_ident [of n a] by (metis add_diff_cancel_right')
qed

lemma unat_take_bit: "unat (take_bit n a) = unat a mod 2 ^ n" for a :: "'a::len word"
  by (simp add: unsigned_take_bit_eq take_bit_eq_mod [of n "unat a"])

lemma unat_and_mask: "unat (a AND mask n) = unat a mod 2 ^ n" for a :: "'a::len word"
  by (simp add: take_bit_eq_mask [symmetric] unat_take_bit)

lemma unat_and_not_mask:
  "unat (a AND NOT (mask n)) = unat a div 2 ^ n * 2 ^ n" for a :: "'a::len word"
proof -
  have "take_bit n a \<le> a" by (simp add: word_le_nat_alt unat_take_bit)
  then have "unat (a AND NOT (mask n)) = unat a - unat a mod 2 ^ n"
    by (simp add: and_not_mask_sub unat_sub unat_take_bit)
  then show ?thesis by (simp add: minus_mod_eq_div_mult)
qed

lemma unat_drop_bit: "unat (drop_bit n a) = unat a div 2 ^ n" for a :: "'a::len word"
  by (simp add: unat_drop_bit_eq drop_bit_eq_div [of n "unat a"])

lemma unat_lt_64 [simp]: "unat (a :: u64) < 18446744073709551616"
  using unsigned_less [of a] by simp

lemma unat_lt_32 [simp]: "unat (a :: u32) < 4294967296"
  using unsigned_less [of a] by simp

lemma unat_ucast_32_64: "unat (ucast (a :: u32) :: u64) = unat a"
proof -
  have "unat a < 2 ^ 64" by (rule less_trans [OF unat_lt_32]) simp
  then show ?thesis by (simp add: unsigned_ucast_eq take_bit_nat_eq_self)
qed

lemma unat_sub64: "unat (a - b :: u64) = (if unat b \<le> unat a then unat a - unat b else unat a + 2 ^ 64 - unat b)"
  by (simp add: unat_sub_if')

lemma unat_add64: "unat (a + b :: u64) = (if unat a + unat b < 2 ^ 64 then unat a + unat b else unat a + unat b - 2 ^ 64)"
  by (simp add: unat_plus_if')

lemma unat_of_nat64: "n < 2 ^ 64 \<Longrightarrow> unat (of_nat n :: u64) = n"
  by (simp add: unat_of_nat take_bit_nat_eq_self)

lemma unat_of_nat32: "n < 2 ^ 32 \<Longrightarrow> unat (of_nat n :: u32) = n"
  by (simp add: unat_of_nat take_bit_nat_eq_self)

lemma unat_eqI: "unat a = unat b \<Longrightarrow> a = b" for a b :: "'a::len word"
  by (rule unsigned_word_eqI)

lemma page_masks: "PAGESIZE_MASK = mask 12" "PAGESIZE2M_MASK = mask 21"
  by (simp_all add: mask_eq_exp_minus_1)

section \<open>Little-endian accesses to a byte array\<close>

definition store_le :: "nat \<Rightarrow> nat \<Rightarrow> 'a::len word \<Rightarrow> bytes \<Rightarrow> bytes" where
  "store_le n off v b =
     (\<lambda>i. if off \<le> i \<and> i < off + n then ucast (drop_bit (8 * (i - off)) v) else b i)"

fun load_le :: "nat \<Rightarrow> nat \<Rightarrow> bytes \<Rightarrow> 'a::len word" where
  "load_le 0 off b = 0"
| "load_le (Suc n) off b = (ucast (b off)) OR (push_bit 8 (load_le n (Suc off) b))"

definition store16 :: "nat \<Rightarrow> u16 \<Rightarrow> bytes \<Rightarrow> bytes" where
  "store16 = store_le 2"

definition store32 :: "nat \<Rightarrow> u32 \<Rightarrow> bytes \<Rightarrow> bytes" where
  "store32 = store_le 4"

definition store64 :: "nat \<Rightarrow> u64 \<Rightarrow> bytes \<Rightarrow> bytes" where
  "store64 = store_le 8"

definition load16 :: "nat \<Rightarrow> bytes \<Rightarrow> u16" where
  "load16 = load_le 2"

definition load32 :: "nat \<Rightarrow> bytes \<Rightarrow> u32" where
  "load32 = load_le 4"

definition load64 :: "nat \<Rightarrow> bytes \<Rightarrow> u64" where
  "load64 = load_le 8"

lemma bit_load_le:
  "bit (load_le n off b :: 'a::len word) i \<longleftrightarrow>
     i < LENGTH('a) \<and> i div 8 < n \<and> bit (b (off + i div 8)) (i mod 8)"
proof (induction n arbitrary: off i)
  case 0
  then show ?case by simp
next
  case (Suc n)
  show ?case
  proof (cases "i < 8")
    case True
    then show ?thesis
      by (auto simp: bit_or_iff bit_push_bit_iff bit_ucast_iff)
  next
    case False
    then have d: "i div 8 = Suc ((i - 8) div 8)" and m: "i mod 8 = (i - 8) mod 8"
      by (auto simp: le_div_geq le_mod_geq)
    have "\<not> bit (ucast (b off) :: 'a word) i"
      using False by (auto simp: bit_ucast_iff dest: bit_imp_le_length)
    then show ?thesis
      using False Suc.IH [of "Suc off" "i - 8"] d m
      by (auto simp: bit_or_iff bit_push_bit_iff)
  qed
qed

lemma load_store_same:
  assumes "LENGTH('a::len) = 8 * n"
  shows "load_le n off (store_le n off (v :: 'a word) b) = v"
proof (rule bit_word_eqI)
  fix i assume i: "i < LENGTH('a)"
  then have "i div 8 < n" using assms by auto
  then show "bit (load_le n off (store_le n off v b) :: 'a word) i = bit v i"
    using i by (simp add: bit_load_le store_le_def bit_ucast_iff bit_drop_bit_eq)
qed

lemma load_store_other:
  assumes "off + n \<le> off' \<or> off' + m \<le> off"
  shows "load_le n off (store_le m off' v b) = (load_le n off b :: 'b::len word)"
proof (rule bit_word_eqI)
  fix i assume "i < LENGTH('b)"
  then show "bit (load_le n off (store_le m off' v b) :: 'b word) i = bit (load_le n off b :: 'b word) i"
    using assms by (auto simp: bit_load_le store_le_def)
qed

lemma load_le_cong:
  assumes "\<And>i. off \<le> i \<Longrightarrow> i < off + n \<Longrightarrow> b i = b' i"
  shows "load_le n off b = load_le n off b'"
  using assms by (induction n arbitrary: off) auto

lemma load_store_simps [bytes_simps]:
  "load16 o1 (store16 o1 v16 b) = v16"
  "load32 o1 (store32 o1 v32 b) = v32"
  "load64 o1 (store64 o1 v64 b) = v64"
  "o1 + 2 \<le> o2 \<or> o2 + 2 \<le> o1 \<Longrightarrow> load16 o1 (store16 o2 v16 b) = load16 o1 b"
  "o1 + 2 \<le> o2 \<or> o2 + 8 \<le> o1 \<Longrightarrow> load16 o1 (store64 o2 v64 b) = load16 o1 b"
  "o1 + 4 \<le> o2 \<or> o2 + 4 \<le> o1 \<Longrightarrow> load32 o1 (store32 o2 v32 b) = load32 o1 b"
  "o1 + 4 \<le> o2 \<or> o2 + 8 \<le> o1 \<Longrightarrow> load32 o1 (store64 o2 v64 b) = load32 o1 b"
  "o1 + 8 \<le> o2 \<or> o2 + 2 \<le> o1 \<Longrightarrow> load64 o1 (store16 o2 v16 b) = load64 o1 b"
  "o1 + 8 \<le> o2 \<or> o2 + 4 \<le> o1 \<Longrightarrow> load64 o1 (store32 o2 v32 b) = load64 o1 b"
  "o1 + 8 \<le> o2 \<or> o2 + 8 \<le> o1 \<Longrightarrow> load64 o1 (store64 o2 v64 b) = load64 o1 b"
  by (simp_all add: load16_def load32_def load64_def store16_def store32_def store64_def
      load_store_same load_store_other)

lemma store_le_outside [bytes_simps]:
  "i < o1 \<or> o1 + 2 \<le> i \<Longrightarrow> store16 o1 v16 b i = b i"
  "i < o1 \<or> o1 + 4 \<le> i \<Longrightarrow> store32 o1 v32 b i = b i"
  "i < o1 \<or> o1 + 8 \<le> i \<Longrightarrow> store64 o1 v64 b i = b i"
  by (auto simp: store16_def store32_def store64_def store_le_def)

section \<open>Copies between byte arrays and physical memory\<close>

text \<open>\<open>memcpy\<close> into physical memory at \<open>dst\<close>, of \<open>n\<close> bytes of an array.\<close>

definition write_phys :: "u64 \<Rightarrow> nat \<Rightarrow> bytes \<Rightarrow> physmem \<Rightarrow> physmem" where
  "write_phys dst n src m = (\<lambda>a. if unat (a - dst) < n then src (unat (a - dst)) else m a)"

text \<open>\<open>memcpy\<close> out of physical memory at \<open>src\<close>, of \<open>n\<close> bytes into an array.\<close>

definition read_phys :: "u64 \<Rightarrow> nat \<Rightarrow> physmem \<Rightarrow> bytes \<Rightarrow> bytes" where
  "read_phys src n m b = (\<lambda>i. if i < n then m (src + of_nat i) else b i)"

text \<open>\<open>memcpy\<close> between two arrays, from offset \<open>off\<close> of the source.\<close>

definition copy_bytes :: "nat \<Rightarrow> nat \<Rightarrow> bytes \<Rightarrow> bytes \<Rightarrow> bytes" where
  "copy_bytes off n src dst = (\<lambda>i. if i < n then src (off + i) else dst i)"

lemma unat_diff_in_range:
  fixes a d :: u64
  assumes "unat d + n \<le> 2 ^ 64"
  shows "unat (a - d) < n \<longleftrightarrow> unat d \<le> unat a \<and> unat a < unat d + n"
proof (cases "unat d \<le> unat a")
  case True
  then have "unat (a - d) = unat a - unat d"
    by (simp add: unat_sub word_le_nat_alt)
  with True show ?thesis by auto
next
  case False
  have "unat (a - d) = unat a + 2 ^ 64 - unat d"
    using False by (simp add: unat_sub_if_size word_size)
  with False assms show ?thesis by simp
qed

lemma write_phys_read_phys:
  assumes "n \<le> 2 ^ 64"
  shows "write_phys p n (read_phys p n src b) dst a =
     (if unat (a - p) < n then src a else dst a)"
  by (simp add: write_phys_def read_phys_def)

end
