(* ===== verification/Mem_Layout.thy ===== *)
theory Mem_Layout
  imports Bv_Prelude
begin

text \<open>
  The physical memory layout both sides of a migration share: the table of usable areas of the
  source machine (\<open>bitvisor_client/ip/echo-client.c\<close>) and of the destination machine
  (\<open>bitvisor_server/ip/echo-server.c\<close>), the part of it that is cut into whole 32KB blocks
  (\<open>usable_mem_list_gran\<close>), the rest (\<open>margin_list\<close>), the selection of the area an address
  lies in, and the walk of the background copy over the blocks.  The lemmas show that blocks and
  margins together are exactly the usable memory and that the walk visits every block once.
\<close>

record mem_area =
  area_start :: u64
  area_end :: u64

abbreviation area :: "u64 \<Rightarrow> u64 \<Rightarrow> mem_area" where
  "area s e \<equiv> \<lparr>area_start = s, area_end = e\<rparr>"

section \<open>Constants of the 32KB granularity\<close>

definition mig_unit :: nat where "mig_unit = 15"
definition shift :: nat where "shift = mig_unit + 6"
definition bitarray_words :: nat where "bitarray_words = 2 ^ (34 - mig_unit - 6) + 1024"
definition array_multiplier :: u64 where "array_multiplier = push_bit mig_unit 1"
definition addr_offset :: u64 where "addr_offset = array_multiplier"
definition margin_offset :: u64 where "margin_offset = addr_offset - 1"
definition request_mask :: u64 where "request_mask = NOT margin_offset"
definition batch_size :: nat where "batch_size = 32"
definition num_of_mem_area :: nat where "num_of_mem_area = 7"

definition no_addr :: u64 where "no_addr = 0xffffffffffffffff"

lemmas mig_consts =
  mig_unit_def shift_def bitarray_words_def batch_size_def num_of_mem_area_def

lemma mig_word_consts:
  "array_multiplier = 0x8000" "addr_offset = 0x8000" "margin_offset = 0x7fff"
  "request_mask = 0xffffffffffff8000"
  by (simp_all add: array_multiplier_def addr_offset_def margin_offset_def request_mask_def
      mig_unit_def push_bit_eq_mult)

lemmas addr_offset_simp [simp] = mig_word_consts(1,2)

section \<open>The tables\<close>

definition usable_mem_list :: "mem_area list" where
  "usable_mem_list =
     [area 0x0000 0x9c6f9,
      area 0x100000 0x3fffffff,
      area 0x60000000 0x7e7fffff,
      area 0x86b47000 0x86b9bfff,
      area 0x86fbf000 0x86fd4fff,
      area 0x87fcd000 0x87ffffff,
      area 0x100000000 0x4767fffff]"

definition usable_mem_list_gran :: "mem_area list" where
  "usable_mem_list_gran =
     [area 0x0000 0x97fff,
      area 0x100000 0x3fffffff,
      area 0x60000000 0x7e7fffff,
      area 0x86b48000 0x86b97fff,
      area 0x86fc0000 0x86fcffff,
      area 0x87fd0000 0x87ffffff,
      area 0x100000000 0x4767fffff]"

definition margin_list :: "mem_area list" where
  "margin_list =
     [area 0x98000 0x9c3ff,
      area 0x86b47000 0x86b47fff,
      area 0x86b98000 0x86b9bfff,
      area 0x86fbf000 0x86fbffff,
      area 0x86fd0000 0x86fd4fff,
      area 0x87fcd000 0x87fcffff,
      area 0x9c400 0x9c6f9]"

text \<open>The table of the destination machine, as \<open>echo-server.c\<close> writes it.\<close>

definition server_usable_mem_list :: "mem_area list" where
  "server_usable_mem_list =
     [area 0x0000 0x9c6f9,
      area 0x100000 0x3fffffff,
      area 0x60000000 0x7e7fffff,
      area 0x86b47000 0x86b9bfff,
      area 0x86fbf000 0x86fd4fff,
      area 0x87fcd000 0x87ffffff,
      area 0x100000000 0x4767fffff]"

definition in_area :: "u64 \<Rightarrow> mem_area \<Rightarrow> bool" where
  "in_area a r \<longleftrightarrow> area_start r \<le> a \<and> a \<le> area_end r"

definition in_areas :: "u64 \<Rightarrow> mem_area list \<Rightarrow> bool" where
  "in_areas a rs \<longleftrightarrow> list_ex (in_area a) rs"

section \<open>Selecting the area of an address\<close>

text \<open>The decision list of \<open>select_mem_area\<close> and \<open>set_mem_area_num\<close>.\<close>

definition area_num :: "mem_area list \<Rightarrow> u64 \<Rightarrow> nat" where
  "area_num t a =
     (if a \<ge> area_start (t ! 6) then 6
      else if a \<le> area_end (t ! 0) then 0
      else if a \<le> area_end (t ! 1) then 1
      else if a \<le> area_end (t ! 2) then 2
      else if a \<le> area_end (t ! 3) then 3
      else if a \<le> area_end (t ! 4) then 4
      else 5)"

text \<open>
  \<open>select_mem_area\<close> of the source machine: from the requested address, the area number, the
  address of its block and the offset of the block in the area.
\<close>

definition select_mem_area :: "u64 \<Rightarrow> nat \<times> u64 \<times> u64" where
  "select_mem_area requested =
     (let num = area_num usable_mem_list requested;
          addr = requested AND request_mask;
          offset = addr - area_start (usable_mem_list ! num)
      in (num, addr, offset))"

definition set_mem_area_num :: "u64 \<Rightarrow> nat" where
  "set_mem_area_num recved_addr = area_num server_usable_mem_list recved_addr"

section \<open>The walk of the background copy\<close>

definition get_next_addr :: "u64 \<Rightarrow> u64" where
  "get_next_addr start =
     (let a = start + addr_offset; g = usable_mem_list_gran in
      if a = area_end (g ! 0) + 1 then area_start (g ! 1)
      else if a = area_end (g ! 1) + 1 then area_start (g ! 2)
      else if a = area_end (g ! 2) + 1 then area_start (g ! 3)
      else if a = area_end (g ! 3) + 1 then area_start (g ! 4)
      else if a = area_end (g ! 4) + 1 then area_start (g ! 5)
      else if a = area_end (g ! 5) + 1 then area_start (g ! 6)
      else if a = area_end (g ! 6) + 1 then no_addr
      else a)"

text \<open>The blocks the background copy is to send: aligned addresses inside the gran table.\<close>

definition gran_block :: "u64 \<Rightarrow> bool" where
  "gran_block a \<longleftrightarrow> a AND margin_offset = 0 \<and> in_areas a usable_mem_list_gran"

section \<open>Addresses as natural numbers\<close>

lemma request_mask_eq: "request_mask = NOT (mask 15)"
  unfolding mig_word_consts by code_simp

lemma margin_offset_eq: "margin_offset = mask 15"
  unfolding mig_word_consts by code_simp

lemma block_base_nat: "unat (a AND request_mask) = unat a div 0x8000 * 0x8000"
  unfolding request_mask_eq unat_and_not_mask by simp

lemma block_rest_nat: "unat (a AND margin_offset) = unat a mod 0x8000"
  unfolding margin_offset_eq unat_and_mask by simp

lemma aligned_iff: "a AND margin_offset = 0 \<longleftrightarrow> unat a mod 0x8000 = 0"
  using block_rest_nat [of a] by (metis unat_eq_zero)

lemma in_area_nat:
  "in_area a r \<longleftrightarrow> unat (area_start r) \<le> unat a \<and> unat a \<le> unat (area_end r)"
  by (simp add: in_area_def word_le_nat_alt)

lemmas table_defs =
  usable_mem_list_def usable_mem_list_gran_def margin_list_def server_usable_mem_list_def

lemma area_num_nat:
  "area_num usable_mem_list a =
     (if unat a \<ge> 0x100000000 then 6
      else if unat a \<le> 0x9c6f9 then 0
      else if unat a \<le> 0x3fffffff then 1
      else if unat a \<le> 0x7e7fffff then 2
      else if unat a \<le> 0x86b9bfff then 3
      else if unat a \<le> 0x86fd4fff then 4
      else 5)"
  by (simp add: area_num_def usable_mem_list_def word_le_nat_alt)

lemma in_usable_nat:
  "in_areas a usable_mem_list \<longleftrightarrow>
     unat a \<le> 0x9c6f9 \<or>
     0x100000 \<le> unat a \<and> unat a \<le> 0x3fffffff \<or>
     0x60000000 \<le> unat a \<and> unat a \<le> 0x7e7fffff \<or>
     0x86b47000 \<le> unat a \<and> unat a \<le> 0x86b9bfff \<or>
     0x86fbf000 \<le> unat a \<and> unat a \<le> 0x86fd4fff \<or>
     0x87fcd000 \<le> unat a \<and> unat a \<le> 0x87ffffff \<or>
     0x100000000 \<le> unat a \<and> unat a \<le> 0x4767fffff"
  by (simp add: in_areas_def in_area_nat usable_mem_list_def)

lemma in_gran_nat:
  "in_areas a usable_mem_list_gran \<longleftrightarrow>
     unat a \<le> 0x97fff \<or>
     0x100000 \<le> unat a \<and> unat a \<le> 0x3fffffff \<or>
     0x60000000 \<le> unat a \<and> unat a \<le> 0x7e7fffff \<or>
     0x86b48000 \<le> unat a \<and> unat a \<le> 0x86b97fff \<or>
     0x86fc0000 \<le> unat a \<and> unat a \<le> 0x86fcffff \<or>
     0x87fd0000 \<le> unat a \<and> unat a \<le> 0x87ffffff \<or>
     0x100000000 \<le> unat a \<and> unat a \<le> 0x4767fffff"
  by (simp add: in_areas_def in_area_nat usable_mem_list_gran_def)

lemma in_margin_nat:
  "in_areas a margin_list \<longleftrightarrow>
     0x98000 \<le> unat a \<and> unat a \<le> 0x9c3ff \<or>
     0x86b47000 \<le> unat a \<and> unat a \<le> 0x86b47fff \<or>
     0x86b98000 \<le> unat a \<and> unat a \<le> 0x86b9bfff \<or>
     0x86fbf000 \<le> unat a \<and> unat a \<le> 0x86fbffff \<or>
     0x86fd0000 \<le> unat a \<and> unat a \<le> 0x86fd4fff \<or>
     0x87fcd000 \<le> unat a \<and> unat a \<le> 0x87fcffff \<or>
     0x9c400 \<le> unat a \<and> unat a \<le> 0x9c6f9"
  by (simp add: in_areas_def in_area_nat margin_list_def)

lemma gran_block_nat:
  "gran_block a \<longleftrightarrow> unat a mod 0x8000 = 0 \<and>
     (unat a \<le> 0x97fff \<or>
     0x100000 \<le> unat a \<and> unat a \<le> 0x3fffffff \<or>
     0x60000000 \<le> unat a \<and> unat a \<le> 0x7e7fffff \<or>
     0x86b48000 \<le> unat a \<and> unat a \<le> 0x86b97fff \<or>
     0x86fc0000 \<le> unat a \<and> unat a \<le> 0x86fcffff \<or>
     0x87fd0000 \<le> unat a \<and> unat a \<le> 0x87ffffff \<or>
     0x100000000 \<le> unat a \<and> unat a \<le> 0x4767fffff)"
  by (simp only: gran_block_def aligned_iff in_gran_nat)

lemma unat_plus_lt:
  "unat a + unat b < 2 ^ 64 \<Longrightarrow> unat (a + b) = unat a + unat b" for a b :: u64
  by (simp add: unat_word_ariths)

lemma get_next_addr_nat:
  assumes "unat a \<le> 0x4767fffff"
  shows "unat (get_next_addr a) =
     (let n = unat a + 0x8000 in
      if n = 0x98000 then 0x100000
      else if n = 0x40000000 then 0x60000000
      else if n = 0x7e800000 then 0x86b48000
      else if n = 0x86b98000 then 0x86fc0000
      else if n = 0x86fd0000 then 0x87fd0000
      else if n = 0x88000000 then 0x100000000
      else if n = 0x476800000 then 0xffffffffffffffff
      else n)"
proof -
  have u: "unat (a + 0x8000) = unat a + 0x8000"
    using assms by (subst unat_plus_lt) auto
  have e: "a + 0x8000 = w \<longleftrightarrow> unat a + 0x8000 = unat w" for w
    using u by (metis unat_eqI)
  show ?thesis
    by (simp add: get_next_addr_def usable_mem_list_gran_def no_addr_def e u Let_def)
qed

lemma div_mult_le_64: "unat (a :: u64) div 0x8000 * 0x8000 \<le> 18446744073709518848"
proof -
  have "unat a div 0x8000 < 562949953421312"
    using unat_lt_64 [of a] by (simp add: less_mult_imp_div_less)
  then show ?thesis by simp
qed

lemma block_base_le: "a AND request_mask \<le> a"
  unfolding word_le_nat_alt block_base_nat by simp

lemma block_base_upper: "a \<le> (a AND request_mask) + margin_offset"
proof -
  have "unat (a AND request_mask) + unat margin_offset < 2 ^ 64"
    unfolding block_base_nat using div_mult_le_64 [of a] by (simp add: mig_word_consts)
  from unat_plus_lt [OF this] show ?thesis
    unfolding word_le_nat_alt block_base_nat by (simp add: mig_word_consts)
qed

lemma block_base_aligned: "(a AND request_mask) AND margin_offset = 0"
  by (simp only: aligned_iff block_base_nat mod_mult_self2_is_0)

lemma area_num_contains:
  assumes "in_areas a usable_mem_list"
  shows "area_num usable_mem_list a < num_of_mem_area
     \<and> in_area a (usable_mem_list ! area_num usable_mem_list a)"
proof -
  have "in_area a (usable_mem_list ! area_num usable_mem_list a)"
    using assms unfolding in_usable_nat area_num_nat
    by (auto simp: usable_mem_list_def in_area_nat)
  then show ?thesis by (simp add: area_num_def num_of_mem_area_def)
qed

lemma area_num_base:
  assumes "in_areas a usable_mem_list"
  shows "area_num usable_mem_list (a AND request_mask) = area_num usable_mem_list a"
proof -
  define q where "q = unat a div 0x8000"
  have "unat (a AND request_mask) = 0x8000 * q" "0x8000 * q \<le> unat a" "unat a < 0x8000 * q + 0x8000"
    unfolding block_base_nat q_def by (simp_all add: dividend_less_times_div)
  then show ?thesis
    using assms unfolding in_usable_nat area_num_nat by (simp split: if_split) linarith
qed

text \<open>Blocks by number: \<open>gran_num q\<close> when block \<open>q\<close> is one of the table.\<close>

definition gran_num :: "nat \<Rightarrow> bool" where
  "gran_num q \<longleftrightarrow> q < 0x13 \<or> 0x20 \<le> q \<and> q < 0x8000 \<or> 0xc000 \<le> q \<and> q < 0xfd00
     \<or> 0x10d69 \<le> q \<and> q < 0x10d73 \<or> 0x10df8 \<le> q \<and> q < 0x10dfa
     \<or> 0x10ffa \<le> q \<and> q < 0x11000 \<or> 0x20000 \<le> q \<and> q < 0x8ed00"

definition next_num :: "nat \<Rightarrow> nat" where
  "next_num q =
     (if q = 0x12 then 0x20 else if q = 0x7fff then 0xc000 else if q = 0xfcff then 0x10d69
      else if q = 0x10d72 then 0x10df8 else if q = 0x10df9 then 0x10ffa
      else if q = 0x10fff then 0x20000 else Suc q)"

lemma scaled_bounds:
  "0x8000 * q \<le> 0x97fff \<longleftrightarrow> q < 0x13" "0x100000 \<le> 0x8000 * q \<longleftrightarrow> 0x20 \<le> q"
  "0x8000 * q \<le> 0x3fffffff \<longleftrightarrow> q < 0x8000" "0x60000000 \<le> 0x8000 * q \<longleftrightarrow> 0xc000 \<le> q"
  "0x8000 * q \<le> 0x7e7fffff \<longleftrightarrow> q < 0xfd00" "0x86b48000 \<le> 0x8000 * q \<longleftrightarrow> 0x10d69 \<le> q"
  "0x8000 * q \<le> 0x86b97fff \<longleftrightarrow> q < 0x10d73" "0x86fc0000 \<le> 0x8000 * q \<longleftrightarrow> 0x10df8 \<le> q"
  "0x8000 * q \<le> 0x86fcffff \<longleftrightarrow> q < 0x10dfa" "0x87fd0000 \<le> 0x8000 * q \<longleftrightarrow> 0x10ffa \<le> q"
  "0x8000 * q \<le> 0x87ffffff \<longleftrightarrow> q < 0x11000" "0x100000000 \<le> 0x8000 * q \<longleftrightarrow> 0x20000 \<le> q"
  "0x8000 * q \<le> 0x4767fffff \<longleftrightarrow> q < 0x8ed00"
  for q :: nat
  by linarith+

lemma gran_block_num:
  "gran_block a \<longleftrightarrow> (\<exists>q. unat a = 0x8000 * q \<and> gran_num q)"
proof
  assume g: "gran_block a"
  then have "unat a mod 0x8000 = 0" by (simp only: gran_block_nat)
  then obtain q where q: "unat a = 0x8000 * q" by (metis mod_0_imp_dvd dvdE)
  then show "\<exists>q. unat a = 0x8000 * q \<and> gran_num q"
    using g unfolding gran_block_nat q scaled_bounds gran_num_def by blast
next
  assume "\<exists>q. unat a = 0x8000 * q \<and> gran_num q"
  then obtain q where q: "unat a = 0x8000 * q" "gran_num q" by blast
  then show "gran_block a"
    unfolding gran_block_nat q(1) scaled_bounds gran_num_def by simp
qed

lemma get_next_addr_num:
  assumes "unat a = 0x8000 * q" "gran_num q"
  shows "unat (get_next_addr a) =
     (if q = 0x8ecff then 0xffffffffffffffff else 0x8000 * next_num q)"
proof -
  have "q < 0x8ed00" using assms(2) unfolding gran_num_def by linarith
  then have "unat a \<le> 0x4767fffff" using assms(1) by simp
  from get_next_addr_nat [OF this] show ?thesis
    using assms(1) by (simp add: next_num_def)
qed

lemma next_num_gran:
  "gran_num q \<Longrightarrow> q \<noteq> 0x8ecff \<Longrightarrow> gran_num (next_num q)"
  unfolding gran_num_def next_num_def by (elim disjE conjE; simp; linarith)

lemma next_num_least:
  "gran_num q \<Longrightarrow> q < k \<Longrightarrow> k < next_num q \<Longrightarrow> \<not> gran_num k"
  unfolding gran_num_def next_num_def by (simp split: if_split_asm)

lemma gran_num_last: "0x8ecff < k \<Longrightarrow> \<not> gran_num k"
  unfolding gran_num_def by simp

lemma next_num_greater: "q < next_num q"
  unfolding next_num_def by simp

lemma get_next_addr_step:
  assumes "gran_block a"
  shows "a < get_next_addr a
     \<and> (get_next_addr a = no_addr \<or> gran_block (get_next_addr a))
     \<and> (\<forall>b. a < b \<and> b < get_next_addr a \<longrightarrow> \<not> gran_block b)"
proof -
  obtain q where q: "unat a = 0x8000 * q" "gran_num q"
    using assms gran_block_num by blast
  note nx = get_next_addr_num [OF q]
  have q_le: "q \<le> 0x8ecff" using q(2) gran_num_last not_le by blast
  have "a < get_next_addr a"
    unfolding word_less_nat_alt nx q(1) using q_le next_num_greater [of q] by simp
  moreover have "get_next_addr a = no_addr \<or> gran_block (get_next_addr a)"
  proof (cases "q = 0x8ecff")
    case True
    then show ?thesis using nx by (simp add: no_addr_def unat_eqI)
  next
    case False
    then show ?thesis using nx next_num_gran [OF q(2)] gran_block_num by auto
  qed
  moreover have "\<not> gran_block b" if "a < b" "b < get_next_addr a" for b
  proof
    assume "gran_block b"
    then obtain k where k: "unat b = 0x8000 * k" "gran_num k"
      using gran_block_num by blast
    have "q < k" using that(1) q(1) k(1) by (simp add: word_less_nat_alt)
    then show False
      using that(2) nx k next_num_least [OF q(2)] gran_num_last [of k]
      by (auto simp: word_less_nat_alt split: if_splits)
  qed
  ultimately show ?thesis by blast
qed

lemma gran_block_zero: "gran_block 0"
  by (simp add: gran_block_nat)

lemma no_addr_max: "a \<le> no_addr"
proof -
  have "unat no_addr = 18446744073709551615" by (simp add: no_addr_def)
  then show ?thesis unfolding word_le_nat_alt using unat_lt_64 [of a] by linarith
qed

lemma gran_block_not_no_addr: "gran_block a \<Longrightarrow> a \<noteq> no_addr"
  by (auto simp: gran_block_nat no_addr_def)

lemma gran_block_predecessor:
  assumes "gran_block b" "b \<noteq> 0"
  obtains a where "gran_block a" "a < b" "get_next_addr a = b"
proof -
  define S where "S = {c. gran_block c \<and> c < b}"
  have "0 < b" using assms(2) by (simp add: word_neq_0_conv)
  then have fin: "finite S" and ne: "S \<noteq> {}"
    unfolding S_def using gran_block_zero by auto
  obtain c where c: "c \<in> S" "\<And>d. d \<in> S \<Longrightarrow> d \<le> c"
    using Max_in [OF fin ne] Max_ge [OF fin] by blast
  then have g: "gran_block c" "c < b" by (auto simp: S_def)
  note st = get_next_addr_step [OF g(1), THEN conjunct1]
    get_next_addr_step [OF g(1), THEN conjunct2, THEN conjunct1]
    get_next_addr_step [OF g(1), THEN conjunct2, THEN conjunct2]
  have "\<not> b < get_next_addr c" using st(3) g(2) assms(1) by blast
  moreover have "\<not> get_next_addr c < b"
  proof
    assume lt: "get_next_addr c < b"
    have "get_next_addr c \<noteq> no_addr"
      using less_le_trans [OF lt no_addr_max] by (rule less_imp_neq)
    with st(2) have "gran_block (get_next_addr c)" by blast
    then have "get_next_addr c \<in> S" unfolding S_def using lt by blast
    from c(2) [OF this] st(1) show False by (simp add: leD)
  qed
  ultimately have "get_next_addr c = b" using less_linear by blast
  then show thesis using that [OF g] by blast
qed

section \<open>Addressing through 64-bit words\<close>

definition aligned8 :: "u64 \<Rightarrow> bool" where
  "aligned8 a \<longleftrightarrow> unat a mod 8 = 0"

lemma unat_add_mod8: "unat (a + b) mod 8 = (unat a + unat b) mod 8" for a b :: u64
  by (simp add: unat_word_ariths mod_mod_cancel)

lemma aligned8_add: "aligned8 a \<Longrightarrow> aligned8 b \<Longrightarrow> aligned8 (a + b)"
  unfolding aligned8_def unat_add_mod8 by presburger

lemma aligned8_diff: "aligned8 a \<Longrightarrow> aligned8 b \<Longrightarrow> aligned8 (a - b)"
  using unat_add_mod8 [of "a - b" b] unfolding aligned8_def by simp presburger

lemma aligned8_mul8: "drop_bit 3 x * 8 = x" if "aligned8 x"
proof -
  have "take_bit 3 x = 0"
    using that by (intro unat_eqI) (simp add: unat_take_bit aligned8_def)
  moreover have "drop_bit 3 x * 8 = push_bit 3 (drop_bit 3 x)" by (simp add: push_bit_eq_mult)
  ultimately show ?thesis using bits_ident [of 3 x] by simp
qed

text \<open>
  \<open>usable_vmem_list[num] + offset\<close>, an index into an array of 64-bit words, is the address itself.
\<close>

lemma mapped_address:
  "aligned8 a \<Longrightarrow> aligned8 s \<Longrightarrow> aligned8 k \<Longrightarrow> s + drop_bit 3 (a - s + k) * 8 = a + k"
  by (simp add: aligned8_mul8 aligned8_add aligned8_diff)

lemma aligned8_block_base: "aligned8 (a AND request_mask)"
proof -
  have "unat (a AND request_mask) = 8 * (unat a div 0x8000 * 0x1000)"
    unfolding block_base_nat by simp
  then show ?thesis by (simp add: aligned8_def)
qed

lemma less_7E:
  assumes "i < (7 :: nat)"
  obtains "i = 0" | "i = 1" | "i = 2" | "i = 3" | "i = 4" | "i = 5" | "i = 6"
  using assms by linarith

lemma aligned8_area_start: "i < num_of_mem_area \<Longrightarrow> aligned8 (area_start (usable_mem_list ! i))"
  unfolding num_of_mem_area_def aligned8_def usable_mem_list_def
  by (elim less_7E; simp)

lemma aligned8_packet: "n < 2 ^ 20 \<Longrightarrow> aligned8 (of_nat (n * 1024))"
proof -
  assume n: "n < 2 ^ 20"
  then have "unat (of_nat (n * 1024) :: u64) = 8 * (n * 128)"
    by (subst unat_of_nat64) simp_all
  then show ?thesis by (simp add: aligned8_def)
qed

section \<open>Properties of the layout\<close>

text \<open>
  C19: The blocks of the background copy and the margins are together exactly the usable memory,
  no address is both in a block and in a margin, and both machines use the same table.
\<close>

theorem usable_memory_split:
  "(in_areas a usable_mem_list \<longleftrightarrow>
      in_areas a usable_mem_list_gran \<or> in_areas a margin_list)
   \<and> \<not> (in_areas a usable_mem_list_gran \<and> in_areas a margin_list)
   \<and> usable_mem_list = server_usable_mem_list"
proof (intro conjI)
  show "in_areas a usable_mem_list \<longleftrightarrow>
      in_areas a usable_mem_list_gran \<or> in_areas a margin_list"
    unfolding in_usable_nat in_gran_nat in_margin_nat by presburger
  show "\<not> (in_areas a usable_mem_list_gran \<and> in_areas a margin_list)"
    unfolding in_gran_nat in_margin_nat by presburger
qed (simp add: usable_mem_list_def server_usable_mem_list_def)

text \<open>
  For an address of the usable memory the area selected contains it, and the offset computed
  by the source machine is that of the block base from the start of the area.
\<close>

theorem select_mem_area_correct:
  assumes "in_areas a usable_mem_list" and "select_mem_area a = (num, base, off)"
  shows "num < num_of_mem_area \<and> in_area a (usable_mem_list ! num)
     \<and> base \<le> a \<and> a \<le> base + margin_offset \<and> base AND margin_offset = 0
     \<and> area_start (usable_mem_list ! num) + off = base \<and> set_mem_area_num base = num"
proof -
  have "num = area_num usable_mem_list a" "base = a AND request_mask"
    "off = base - area_start (usable_mem_list ! num)"
    using assms(2) by (auto simp: select_mem_area_def Let_def)
  moreover have "set_mem_area_num (a AND request_mask) = area_num usable_mem_list a"
    using area_num_base [OF assms(1)]
    by (simp add: set_mem_area_num_def server_usable_mem_list_def usable_mem_list_def)
  ultimately show ?thesis
    using area_num_contains [OF assms(1)] block_base_le [of a] block_base_upper [of a]
      block_base_aligned [of a]
    by simp
qed

lemma select_mem_area_correct_witness:
  "in_area 0x86b4a123 (usable_mem_list ! 3) \<and> set_mem_area_num 0x86b48000 = 3"
proof -
  have "in_areas 0x86b4a123 usable_mem_list"
    by (simp add: in_usable_nat)
  moreover have "select_mem_area 0x86b4a123 = (3, 0x86b48000, 0x1000)"
    by (simp add: select_mem_area_def area_num_def usable_mem_list_def mig_word_consts)
  ultimately show ?thesis
    using select_mem_area_correct [of "0x86b4a123" 3 "0x86b48000" "0x1000"] by blast
qed

text \<open>
  C18: Iterating \<open>get_next_addr\<close> from address 0 reaches every block of the table, and everything
  it passes before the end mark is a block, with addresses that only grow: the background copy
  visits each block of the migrated memory exactly once.
\<close>

theorem get_next_addr_walk:
  "(gran_block b \<longleftrightarrow> (\<exists>k. (get_next_addr ^^ k) 0 = b \<and> (\<forall>j\<le>k. (get_next_addr ^^ j) 0 \<noteq> no_addr)))
   \<and> (gran_block b \<longrightarrow> b < get_next_addr b)"
proof (intro conjI impI iffI)
  assume "gran_block b"
  then show "\<exists>k. (get_next_addr ^^ k) 0 = b \<and> (\<forall>j\<le>k. (get_next_addr ^^ j) 0 \<noteq> no_addr)"
  proof (induction "unat b" arbitrary: b rule: less_induct)
    case less
    show ?case
    proof (cases "b = 0")
      case True
      then show ?thesis by (intro exI [of _ 0]) (simp add: no_addr_def)
    next
      case False
      then obtain a where a: "gran_block a" "a < b" "get_next_addr a = b"
        using gran_block_predecessor less.prems by blast
      then obtain k where k: "(get_next_addr ^^ k) 0 = a"
          "\<forall>j\<le>k. (get_next_addr ^^ j) 0 \<noteq> no_addr"
        using less.hyps [of a] by (auto simp: word_less_nat_alt)
      then show ?thesis
        using a gran_block_not_no_addr [OF less.prems]
        by (intro exI [of _ "Suc k"]) (auto simp: le_Suc_eq)
    qed
  qed
next
  assume "\<exists>k. (get_next_addr ^^ k) 0 = b \<and> (\<forall>j\<le>k. (get_next_addr ^^ j) 0 \<noteq> no_addr)"
  then obtain k where k: "(get_next_addr ^^ k) 0 = b" "\<forall>j\<le>k. (get_next_addr ^^ j) 0 \<noteq> no_addr"
    by blast
  have "gran_block ((get_next_addr ^^ j) 0)" if "j \<le> k" for j
    using that
  proof (induction j)
    case 0
    then show ?case by (simp add: gran_block_zero)
  next
    case (Suc j)
    then have "gran_block ((get_next_addr ^^ j) 0)" "(get_next_addr ^^ Suc j) 0 \<noteq> no_addr"
      using k(2) by auto
    then show ?case using get_next_addr_step by auto
  qed
  with k(1) show "gran_block b" by blast
qed (simp add: get_next_addr_step)

lemma get_next_addr_walk_witness:
  "0x90000 < get_next_addr 0x90000"
proof -
  have "gran_block 0x90000" by (simp add: gran_block_nat)
  then show ?thesis using get_next_addr_walk [of "0x90000"] by blast
qed

end
