(* ===== verification/Bit_Array.thy ===== *)
theory Bit_Array
  imports Mem_Layout
begin

text \<open>
  The bit arrays of both machines: one bit per 32KB block, packed in 64-bit words.  A bit of the
  source machine means that the block has been handed to the network, a bit of the destination
  that it has been received.  The array is a function from the index to its word; that every
  index the code uses lies inside \<open>u64 bitarray[BITARRAY]\<close> is one of the theorems.

  \<open>block_set\<close> states what the rest of the code relies on: a set of blocks, of which an
  insertion changes one element.  Both machines' operations are interpretations of it.
\<close>

type_synonym bitarray = "nat \<Rightarrow> u64"

definition bitarray_zero :: bitarray where
  "bitarray_zero = (\<lambda>_. 0)"

section \<open>The operations of the source machine\<close>

definition get_bitarray :: "bitarray \<Rightarrow> u64 \<Rightarrow> u32" where
  "get_bitarray b gphys =
     (let pos = drop_bit shift gphys
      in ucast (drop_bit (unat (drop_bit mig_unit gphys AND 0x3f)) (b (unat pos)) AND 1))"

definition set_bitarray :: "u64 \<Rightarrow> bitarray \<Rightarrow> bitarray" where
  "set_bitarray gphys b =
     (let pos = ucast (drop_bit shift gphys) :: u32
      in b(unat pos := b (unat pos) OR push_bit (unat (drop_bit mig_unit gphys AND 0x3f)) 1))"

definition set_multiple_bitarray :: "u64 \<Rightarrow> u64 \<Rightarrow> bitarray \<Rightarrow> bitarray" where
  "set_multiple_bitarray start_addr end_addr b =
     (let size_area = drop_bit mig_unit (end_addr - start_addr + 1)
      in fold (\<lambda>i. set_bitarray ((start_addr AND 0xfffffffffffe0000) + of_nat i * array_multiplier))
           [0..<unat size_area] b)"

section \<open>The operations of the destination machine\<close>

definition server_get_bitarray :: "bitarray \<Rightarrow> u64 \<Rightarrow> u32" where
  "server_get_bitarray b gphys =
     (let pos = ucast (drop_bit shift gphys) :: u32
      in ucast (drop_bit (unat (drop_bit mig_unit gphys AND 0x3f)) (b (unat pos)) AND 1))"

definition server_set_bitarray :: "u64 \<Rightarrow> bitarray \<Rightarrow> bitarray" where
  "server_set_bitarray gphys b =
     (let pos = ucast (drop_bit shift gphys) :: u32
      in b(unat pos := b (unat pos) OR push_bit (unat (drop_bit mig_unit gphys AND 0x3f)) 1))"

definition server_set_multiple_bitarray :: "u64 \<Rightarrow> u64 \<Rightarrow> bitarray \<Rightarrow> bitarray" where
  "server_set_multiple_bitarray start_addr end_addr b =
     (let size_area = drop_bit mig_unit (end_addr - start_addr + 1)
      in fold (\<lambda>i. server_set_bitarray ((start_addr AND 0xfffffffffffe0000) + of_nat i * array_multiplier))
           [0..<unat size_area] b)"

section \<open>The contract: a set of blocks\<close>

locale block_set =
  fixes member :: "'s \<Rightarrow> u64 \<Rightarrow> bool"
    and insert_block :: "u64 \<Rightarrow> 's \<Rightarrow> 's"
    and block :: "u64 \<Rightarrow> 'k"
    and valid :: "u64 \<Rightarrow> bool"
  assumes member_insert:
    "\<lbrakk>valid a; valid b\<rbrakk> \<Longrightarrow> member (insert_block a s) b \<longleftrightarrow> block b = block a \<or> member s b"
begin

lemma member_self: "valid a \<Longrightarrow> member (insert_block a s) a"
  by (simp add: member_insert)

lemma member_mono: "valid a \<Longrightarrow> valid b \<Longrightarrow> member s b \<Longrightarrow> member (insert_block a s) b"
  by (simp add: member_insert)

lemma member_other:
  "valid a \<Longrightarrow> valid b \<Longrightarrow> block b \<noteq> block a \<Longrightarrow> member (insert_block a s) b \<longleftrightarrow> member s b"
  by (simp add: member_insert)

lemma member_fold:
  "(\<And>a. a \<in> set as \<Longrightarrow> valid a) \<Longrightarrow> valid b \<Longrightarrow>
     member (fold insert_block as s) b \<longleftrightarrow> block b \<in> block ` set as \<or> member s b"
  by (induction as arbitrary: s) (auto simp: member_insert)

end

text \<open>A set of blocks that can be emptied.\<close>

locale block_set_empty = block_set +
  fixes empty :: 's
  assumes member_empty: "\<not> member empty a"
begin

lemma member_fold_empty:
  "(\<And>a. a \<in> set as \<Longrightarrow> valid a) \<Longrightarrow> valid b \<Longrightarrow>
     member (fold insert_block as empty) b \<longleftrightarrow> block b \<in> block ` set as"
  by (simp add: member_fold member_empty)

end

section \<open>The interpretations\<close>

text \<open>
  The number of the block of an address, and the addresses whose array index survives the
  conversion to the 32-bit \<open>pos\<close> of \<open>set_bitarray\<close>.
\<close>

definition block_num :: "u64 \<Rightarrow> nat" where
  "block_num a = unat a div 0x8000"

definition indexable :: "u64 \<Rightarrow> bool" where
  "indexable a \<longleftrightarrow> unat a < 2 ^ 53"

lemma word_index_nat: "unat (drop_bit shift a) = block_num a div 64" for a :: u64
  by (simp add: unat_drop_bit mig_consts block_num_def div_mult2_eq [symmetric])

lemma bit_index_nat: "unat (drop_bit mig_unit a AND 0x3f) = block_num a mod 64" for a :: u64
proof -
  have m: "(0x3f :: u64) = mask 6" by code_simp
  show ?thesis
    unfolding m unat_and_mask by (simp add: unat_drop_bit mig_consts block_num_def)
qed

lemma word_index_u32:
  "indexable a \<Longrightarrow> unat (ucast (drop_bit shift a) :: u32) = block_num a div 64" for a :: u64
proof -
  assume "indexable a"
  then have "block_num a div 64 < 2 ^ 32"
    unfolding indexable_def block_num_def by (simp add: less_mult_imp_div_less)
  then show ?thesis by (simp add: unsigned_ucast_eq take_bit_nat_eq_self word_index_nat)
qed

lemma block_num_eq: "block_num a = block_num b \<longleftrightarrow>
    block_num a div 64 = block_num b div 64 \<and> block_num a mod 64 = block_num b mod 64"
  by (metis div_mult_mod_eq)

lemma bit_test: "ucast (drop_bit n w AND 1) \<noteq> (0 :: u32) \<longleftrightarrow> bit w n" for w :: u64
proof -
  have "drop_bit n w AND 1 = of_bool (bit w n)"
    by (simp add: and_one_eq bit_iff_odd_drop_bit mod_2_eq_odd)
  then show ?thesis by simp
qed

lemma get_bitarray_bit:
  "get_bitarray s a \<noteq> 0 \<longleftrightarrow> bit (s (block_num a div 64)) (block_num a mod 64)"
  by (simp only: get_bitarray_def Let_def bit_test word_index_nat bit_index_nat)

lemma server_get_bitarray_bit:
  "indexable a \<Longrightarrow>
     server_get_bitarray s a \<noteq> 0 \<longleftrightarrow> bit (s (block_num a div 64)) (block_num a mod 64)"
  by (simp only: server_get_bitarray_def Let_def bit_test word_index_u32 bit_index_nat)

lemma set_bitarray_words:
  "indexable a \<Longrightarrow> set_bitarray a s =
     s(block_num a div 64 := s (block_num a div 64) OR push_bit (block_num a mod 64) 1)"
  by (simp only: set_bitarray_def Let_def word_index_u32 bit_index_nat)

lemma server_set_bitarray_words:
  "indexable a \<Longrightarrow> server_set_bitarray a s =
     s(block_num a div 64 := s (block_num a div 64) OR push_bit (block_num a mod 64) 1)"
  by (simp only: server_set_bitarray_def Let_def word_index_u32 bit_index_nat)

lemma bit_of_one: "n < 64 \<Longrightarrow> m < 64 \<Longrightarrow> bit (push_bit n (1 :: u64)) m \<longleftrightarrow> m = n"
  by (auto simp del: push_bit_of_1 simp: bit_push_bit_iff bit_1_iff)

lemma bit_of_set_word:
  "bit ((s(block_num a div 64 := s (block_num a div 64) OR push_bit (block_num a mod 64) (1::u64)))
      (block_num b div 64)) (block_num b mod 64) \<longleftrightarrow>
     block_num b = block_num a \<or> bit (s (block_num b div 64)) (block_num b mod 64)"
proof (cases "block_num b div 64 = block_num a div 64")
  case True
  then show ?thesis
    using block_num_eq [of b a] by (auto simp only: fun_upd_same bit_or_iff bit_of_one mod_less_divisor zero_less_numeral)
next
  case False
  then show ?thesis by auto
qed

lemma client_member_insert:
  "indexable a \<Longrightarrow> indexable b \<Longrightarrow>
     get_bitarray (set_bitarray a s) b \<noteq> 0 \<longleftrightarrow> block_num b = block_num a \<or> get_bitarray s b \<noteq> 0"
  by (simp only: get_bitarray_bit set_bitarray_words bit_of_set_word)

lemma server_member_insert:
  "indexable a \<Longrightarrow> indexable b \<Longrightarrow>
     server_get_bitarray (server_set_bitarray a s) b \<noteq> 0 \<longleftrightarrow>
       block_num b = block_num a \<or> server_get_bitarray s b \<noteq> 0"
  by (simp only: server_get_bitarray_bit server_set_bitarray_words bit_of_set_word)

lemma get_bitarray_zero: "get_bitarray bitarray_zero a = 0"
  by (simp add: get_bitarray_def bitarray_zero_def)

lemma server_get_bitarray_zero: "server_get_bitarray bitarray_zero a = 0"
  by (simp add: server_get_bitarray_def bitarray_zero_def)

interpretation client_bits:
  block_set_empty "\<lambda>s a. get_bitarray s a \<noteq> 0" set_bitarray block_num indexable bitarray_zero
  by unfold_locales (simp_all add: client_member_insert get_bitarray_zero)

interpretation server_bits:
  block_set_empty "\<lambda>s a. server_get_bitarray s a \<noteq> 0" server_set_bitarray block_num indexable
    bitarray_zero
  by unfold_locales (simp_all add: server_member_insert server_get_bitarray_zero)

section \<open>Addresses of the tables\<close>

lemma usable_indexable: "unat a \<le> 0x4767fffff \<Longrightarrow> indexable a"
  by (simp add: indexable_def)

lemma block_num_base: "block_num (a AND request_mask) = block_num a"
  by (simp add: block_num_def block_base_nat)

lemma block_num_same_base: "block_num a = block_num b \<longleftrightarrow> a AND request_mask = b AND request_mask"
proof
  assume "block_num a = block_num b"
  then show "a AND request_mask = b AND request_mask"
    by (intro unat_eqI) (simp add: block_base_nat block_num_def)
next
  assume "a AND request_mask = b AND request_mask"
  then have "unat (a AND request_mask) = unat (b AND request_mask)" by simp
  then show "block_num a = block_num b"
    unfolding block_base_nat block_num_def by simp
qed

text \<open>
  C20: On both machines, after setting the bit of an address, the bit of another address reads as
  set exactly when both lie in the same 32KB block or it was set before; and no address of the
  machine's memory (up to the end of the last area) indexes outside the array.
\<close>

theorem bitarray_get_set:
  assumes "unat a \<le> 0x4767fffff" and "unat b \<le> 0x4767fffff"
  shows "(get_bitarray (set_bitarray a s) b \<noteq> 0 \<longleftrightarrow>
       a AND request_mask = b AND request_mask \<or> get_bitarray s b \<noteq> 0)
     \<and> (server_get_bitarray (server_set_bitarray a s) b \<noteq> 0 \<longleftrightarrow>
       a AND request_mask = b AND request_mask \<or> server_get_bitarray s b \<noteq> 0)
     \<and> unat (drop_bit shift a) < bitarray_words"
proof (intro conjI)
  note v = usable_indexable [OF assms(1)] usable_indexable [OF assms(2)]
  show "get_bitarray (set_bitarray a s) b \<noteq> 0 \<longleftrightarrow>
       a AND request_mask = b AND request_mask \<or> get_bitarray s b \<noteq> 0"
    unfolding client_bits.member_insert [OF v] block_num_same_base by metis
  show "server_get_bitarray (server_set_bitarray a s) b \<noteq> 0 \<longleftrightarrow>
       a AND request_mask = b AND request_mask \<or> server_get_bitarray s b \<noteq> 0"
    unfolding server_bits.member_insert [OF v] block_num_same_base by metis
  show "unat (drop_bit shift a) < bitarray_words"
    unfolding word_index_nat block_num_def bitarray_words_def mig_unit_def
    using assms(1) by (simp add: less_mult_imp_div_less)
qed

lemma bitarray_get_set_witness:
  "get_bitarray (set_bitarray 0x100000 bitarray_zero) 0x107fff \<noteq> 0
   \<and> server_get_bitarray (server_set_bitarray 0x100000 bitarray_zero) 0x107fff \<noteq> 0"
  using bitarray_get_set [of "0x100000" "0x107fff" bitarray_zero]
  by (simp add: mig_word_consts)

end
