(* ===== verification/Msg_Protocol.thy ===== *)
theory Msg_Protocol
  imports Bv_Prelude
begin

text \<open>
  The network message of \<open>biform-net-protocol/msg_protocol.h\<close>: 24 bytes of metadata, a packed
  union of five structures that share their first field, followed by 1024 bytes of data.  The
  metadata is kept as the bytes of the union, so that writing one member and reading another
  does what it does in C; the lemmas show which fields survive which writes, that every message
  is read back as it was written, and that the layout is the one the receiver assumes.
\<close>

definition proto_id_meta_node :: u32 where "proto_id_meta_node = 1"
definition proto_id_meta_umem :: u32 where "proto_id_meta_umem = 2"
definition proto_id_meta_data_cpu :: u32 where "proto_id_meta_data_cpu = 3"
definition proto_id_meta_data_mem :: u32 where "proto_id_meta_data_mem = 4"
definition proto_id_meta_data_req_mem :: u32 where "proto_id_meta_data_req_mem = 5"
definition proto_id_meta_mig_done :: u32 where "proto_id_meta_mig_done = 13"
definition proto_id_meta_buff_mem :: u32 where "proto_id_meta_buff_mem = 14"
definition proto_id_meta_start_postcopy :: u32 where "proto_id_meta_start_postcopy = 15"
definition proto_id_test_send :: u32 where "proto_id_test_send = 19"
definition proto_id_test_send_end :: u32 where "proto_id_test_send_end = 20"
definition proto_id_meta_data_mem_sp :: u32 where "proto_id_meta_data_mem_sp = 21"

lemmas proto_ids =
  proto_id_meta_node_def proto_id_meta_umem_def proto_id_meta_data_cpu_def
  proto_id_meta_data_mem_def proto_id_meta_data_req_mem_def proto_id_meta_mig_done_def
  proto_id_meta_buff_mem_def proto_id_meta_start_postcopy_def proto_id_test_send_def
  proto_id_test_send_end_def proto_id_meta_data_mem_sp_def

definition size_sendbuf_data :: nat where "size_sendbuf_data = 1024"
definition size_of_meta :: nat where "size_of_meta = 24"
definition size_of_msg :: nat where "size_of_msg = size_of_meta + size_sendbuf_data"

lemmas msg_sizes = size_sendbuf_data_def size_of_meta_def size_of_msg_def

text \<open>The metadata union as its bytes, and the message.\<close>

type_synonym msg_meta = bytes

record bf_msg =
  meta :: msg_meta
  data :: bytes

section \<open>The members of the union\<close>

text \<open>Offsets of the packed structures.\<close>

definition get_proto_id :: "msg_meta \<Rightarrow> u32" where "get_proto_id mm = load32 0 mm"
definition set_proto_id :: "u32 \<Rightarrow> msg_meta \<Rightarrow> msg_meta" where "set_proto_id v = store32 0 v"

definition node_total_mem_size :: "msg_meta \<Rightarrow> u64" where "node_total_mem_size mm = load64 4 mm"
definition node_umem_count :: "msg_meta \<Rightarrow> u32" where "node_umem_count mm = load32 12 mm"
definition umem_id :: "msg_meta \<Rightarrow> u32" where "umem_id mm = load32 4 mm"
definition umem_size :: "msg_meta \<Rightarrow> u64" where "umem_size mm = load64 8 mm"
definition umem_start_addr :: "msg_meta \<Rightarrow> u64" where "umem_start_addr mm = load64 16 mm"

definition addr_to_migrate :: "msg_meta \<Rightarrow> u64" where "addr_to_migrate mm = load64 4 mm"
definition batch_num :: "msg_meta \<Rightarrow> u32" where "batch_num mm = load32 12 mm"
definition msg_batch_size :: "msg_meta \<Rightarrow> u32" where "msg_batch_size mm = load32 16 mm"

definition set_addr_to_migrate :: "u64 \<Rightarrow> msg_meta \<Rightarrow> msg_meta" where
  "set_addr_to_migrate v = store64 4 v"
definition set_batch_num :: "u32 \<Rightarrow> msg_meta \<Rightarrow> msg_meta" where "set_batch_num v = store32 12 v"
definition set_batch_size :: "u32 \<Rightarrow> msg_meta \<Rightarrow> msg_meta" where "set_batch_size v = store32 16 v"

lemmas meta_fields =
  get_proto_id_def set_proto_id_def node_total_mem_size_def node_umem_count_def umem_id_def
  umem_size_def umem_start_addr_def addr_to_migrate_def batch_num_def msg_batch_size_def
  set_addr_to_migrate_def set_batch_num_def set_batch_size_def

lemma meta_field_updates [simp]:
  "get_proto_id (set_proto_id p mm) = p"
  "get_proto_id (set_addr_to_migrate a mm) = get_proto_id mm"
  "get_proto_id (set_batch_num n mm) = get_proto_id mm"
  "get_proto_id (set_batch_size n mm) = get_proto_id mm"
  "addr_to_migrate (set_proto_id p mm) = addr_to_migrate mm"
  "addr_to_migrate (set_addr_to_migrate a mm) = a"
  "addr_to_migrate (set_batch_num n mm) = addr_to_migrate mm"
  "addr_to_migrate (set_batch_size n mm) = addr_to_migrate mm"
  "batch_num (set_proto_id p mm) = batch_num mm"
  "batch_num (set_addr_to_migrate a mm) = batch_num mm"
  "batch_num (set_batch_num n mm) = n"
  "batch_num (set_batch_size n mm) = batch_num mm"
  "msg_batch_size (set_proto_id p mm) = msg_batch_size mm"
  "msg_batch_size (set_addr_to_migrate a mm) = msg_batch_size mm"
  "msg_batch_size (set_batch_num n mm) = msg_batch_size mm"
  "msg_batch_size (set_batch_size n mm) = n"
  by (simp_all add: meta_fields bytes_simps)

section \<open>Initialisation\<close>

definition init_meta_node :: "msg_meta \<Rightarrow> msg_meta" where
  "init_meta_node mn = store32 12 0 (store64 4 0 (store32 0 0 mn))"

definition init_meta_umem :: "msg_meta \<Rightarrow> msg_meta" where
  "init_meta_umem mu = store64 16 0 (store64 8 0 (store32 4 0 (store32 0 0 mu)))"

definition init_meta_basic :: "msg_meta \<Rightarrow> msg_meta" where
  "init_meta_basic mb = store32 0 0 mb"

definition init_meta_data_cpu :: "msg_meta \<Rightarrow> msg_meta" where
  "init_meta_data_cpu mc = store32 0 0 mc"

definition init_meta_data_mem :: "msg_meta \<Rightarrow> msg_meta" where
  "init_meta_data_mem mm = store32 0 0 mm"

definition init_msg_meta :: "msg_meta \<Rightarrow> msg_meta" where
  "init_msg_meta mm =
     init_meta_data_mem (init_meta_data_cpu (init_meta_umem (init_meta_node (init_meta_basic
       (\<lambda>i. if i < size_of_meta then 0 else mm i)))))"

definition bf_msg_init_msg :: "bf_msg \<Rightarrow> bf_msg" where
  "bf_msg_init_msg m =
     \<lparr>meta = init_msg_meta (meta m), data = (\<lambda>i. if i < size_sendbuf_data then 0 else data m i)\<rparr>"

section \<open>Protocol id and the formats\<close>

definition bf_msg_meta_get_proto_id :: "msg_meta \<Rightarrow> u32" where
  "bf_msg_meta_get_proto_id mm = get_proto_id mm"

definition bf_msg_get_proto_id :: "bf_msg \<Rightarrow> u32" where
  "bf_msg_get_proto_id m = bf_msg_meta_get_proto_id (meta m)"

definition bf_msg_set_proto_id :: "u32 \<Rightarrow> bf_msg \<Rightarrow> bf_msg" where
  "bf_msg_set_proto_id i m = m\<lparr>meta := set_proto_id i (meta m)\<rparr>"

definition bf_msg_meta_set_proto_id :: "u32 \<Rightarrow> msg_meta \<Rightarrow> msg_meta" where
  "bf_msg_meta_set_proto_id i mm = set_proto_id i mm"

definition bf_msg_format_meta_node :: "u64 \<Rightarrow> u32 \<Rightarrow> msg_meta \<Rightarrow> msg_meta" where
  "bf_msg_format_meta_node sz_total count mm =
     store32 12 count (store64 4 sz_total (store32 0 proto_id_meta_node (init_msg_meta mm)))"

definition bf_msg_format_meta_umem :: "u32 \<Rightarrow> u64 \<Rightarrow> u64 \<Rightarrow> msg_meta \<Rightarrow> msg_meta" where
  "bf_msg_format_meta_umem i sz start mm =
     store64 16 start (store64 8 sz (store32 4 i (store32 0 proto_id_meta_umem (init_msg_meta mm))))"

definition bf_msg_format_meta_data_cpu :: "msg_meta \<Rightarrow> msg_meta" where
  "bf_msg_format_meta_data_cpu mm = store32 0 proto_id_meta_data_cpu (init_msg_meta mm)"

definition bf_msg_format_meta_data_mem :: "msg_meta \<Rightarrow> msg_meta" where
  "bf_msg_format_meta_data_mem mm = store32 0 proto_id_meta_data_mem (init_msg_meta mm)"

section \<open>The bytes on the wire\<close>

text \<open>The bytes of a message object, what \<open>tcp_write (pcb, &msg, 1048)\<close> sends.\<close>

definition msg_bytes :: "bf_msg \<Rightarrow> bytes" where
  "msg_bytes m = (\<lambda>i. if i < size_of_meta then meta m i else data m (i - size_of_meta))"

definition bf_msg_decode :: "bytes \<Rightarrow> bf_msg \<Rightarrow> bf_msg" where
  "bf_msg_decode buf m =
     \<lparr>meta = copy_bytes 0 size_of_meta buf (meta m),
      data = copy_bytes size_of_meta size_sendbuf_data buf (data m)\<rparr>"

text \<open>Metadata is determined by its 24 bytes.\<close>

lemma meta_get_cong:
  assumes "\<And>i. i < size_of_meta \<Longrightarrow> mm i = mm' i"
  shows "get_proto_id mm = get_proto_id mm'" "addr_to_migrate mm = addr_to_migrate mm'"
    "batch_num mm = batch_num mm'" "msg_batch_size mm = msg_batch_size mm'"
    "node_total_mem_size mm = node_total_mem_size mm'" "node_umem_count mm = node_umem_count mm'"
    "umem_id mm = umem_id mm'" "umem_size mm = umem_size mm'"
    "umem_start_addr mm = umem_start_addr mm'"
  using assms
  by (auto simp: meta_fields load32_def load64_def size_of_meta_def intro!: load_le_cong)

lemma decoded_meta:
  "i < size_of_meta \<Longrightarrow> meta (bf_msg_decode (msg_bytes m) m') i = meta m i"
  by (simp add: bf_msg_decode_def msg_bytes_def copy_bytes_def)

lemma decoded_fields [simp]:
  "get_proto_id (meta (bf_msg_decode (msg_bytes m) r)) = get_proto_id (meta m)"
  "addr_to_migrate (meta (bf_msg_decode (msg_bytes m) r)) = addr_to_migrate (meta m)"
  "batch_num (meta (bf_msg_decode (msg_bytes m) r)) = batch_num (meta m)"
  "msg_batch_size (meta (bf_msg_decode (msg_bytes m) r)) = msg_batch_size (meta m)"
  by (rule meta_get_cong; erule decoded_meta)+

text \<open>The value of a field of zeroed metadata.\<close>

lemma load_le_zero: "(\<And>i. off \<le> i \<Longrightarrow> i < off + n \<Longrightarrow> b i = 0) \<Longrightarrow> load_le n off b = 0"
  by (induction n arbitrary: off) auto

lemma init_msg_meta_zero: "i < size_of_meta \<Longrightarrow> init_msg_meta mm i = 0"
  by (simp add: init_msg_meta_def init_meta_data_mem_def init_meta_data_cpu_def
      init_meta_umem_def init_meta_node_def init_meta_basic_def store32_def store64_def store_le_def)

text \<open>
  What a message of a block transfer carries: packet \<open>b\<close> of \<open>sz\<close>, with the 1024 bytes of memory
  at \<open>a + 1024 * b\<close>.
\<close>

definition carries :: "physmem \<Rightarrow> u64 \<Rightarrow> nat \<Rightarrow> nat \<Rightarrow> u32 \<Rightarrow> bf_msg \<Rightarrow> bool" where
  "carries mem a sz b p m \<longleftrightarrow>
     bf_msg_get_proto_id m = p \<and> addr_to_migrate (meta m) = a \<and> batch_num (meta m) = of_nat b
     \<and> msg_batch_size (meta m) = of_nat sz
     \<and> (\<forall>i. i < size_sendbuf_data \<longrightarrow> data m i = mem (a + of_nat (b * 1024) + of_nat i))"

text \<open>
  The 32 messages of a block, the last one marked as the end of a reply or not.
\<close>

definition carries_block :: "physmem \<Rightarrow> u64 \<Rightarrow> bool \<Rightarrow> bf_msg list \<Rightarrow> bool" where
  "carries_block mem a reply ms \<longleftrightarrow> length ms = 32
     \<and> (\<forall>i < 32. carries mem a 32 i
          (if i = 31 \<and> reply then proto_id_meta_data_req_mem else proto_id_meta_data_mem) (ms ! i))"

text \<open>
  C21: A receiver that decodes the bytes of a message reads the protocol id, address and batch
  fields the sender set and the sender's data, whatever its own buffer held before.
\<close>

theorem msg_roundtrip:
  "let m = \<lparr>meta = set_batch_size sz (set_batch_num n (set_addr_to_migrate a (set_proto_id p mm))),
            data = d\<rparr>;
       r = bf_msg_decode (msg_bytes m) r0
   in bf_msg_get_proto_id r = p \<and> addr_to_migrate (meta r) = a \<and> batch_num (meta r) = n
      \<and> msg_batch_size (meta r) = sz \<and> (\<forall>i < size_sendbuf_data. data r i = d i)"
  by (simp add: Let_def bf_msg_get_proto_id_def bf_msg_meta_get_proto_id_def)
    (simp add: bf_msg_decode_def msg_bytes_def copy_bytes_def)

definition sample_msg :: bf_msg where
  "sample_msg = \<lparr>meta = set_batch_size 32 (set_batch_num 7 (set_addr_to_migrate 0x8000
     (set_proto_id proto_id_meta_data_mem (\<lambda>_. 0)))), data = (\<lambda>i. of_nat i)\<rparr>"

theorem msg_roundtrip_witness:
  "batch_num (meta (bf_msg_decode (msg_bytes sample_msg) \<lparr>meta = (\<lambda>_. 0xff), data = (\<lambda>_. 0xff)\<rparr>)) = 7
   \<and> data (bf_msg_decode (msg_bytes sample_msg) \<lparr>meta = (\<lambda>_. 0xff), data = (\<lambda>_. 0xff)\<rparr>) 3 = 3"
  using msg_roundtrip [of 32 7 "0x8000" proto_id_meta_data_mem "\<lambda>_. 0" "\<lambda>i. of_nat i"
      "\<lparr>meta = (\<lambda>_. 0xff), data = (\<lambda>_. 0xff)\<rparr>"]
  unfolding Let_def sample_msg_def size_sendbuf_data_def by simp

text \<open>
  Formatting the metadata of a node or of a usable area overwrites whatever the union held:
  every field reads back as given, and the bytes no field covers are zero.
\<close>

theorem format_meta_roundtrip:
  "let n = bf_msg_format_meta_node sz_total count mm; u = bf_msg_format_meta_umem i sz start mm
   in get_proto_id n = proto_id_meta_node \<and> node_total_mem_size n = sz_total
      \<and> node_umem_count n = count \<and> load64 16 n = 0
      \<and> get_proto_id u = proto_id_meta_umem \<and> umem_id u = i \<and> umem_size u = sz
      \<and> umem_start_addr u = start"
proof -
  have "load64 16 (init_msg_meta mm) = 0"
    unfolding load64_def
    by (rule load_le_zero) (simp add: init_msg_meta_zero size_of_meta_def)
  then show ?thesis
    by (simp add: bf_msg_format_meta_node_def bf_msg_format_meta_umem_def meta_fields bytes_simps)
qed

end
