(* ===== verification/Tcp_Pcb.thy ===== *)
theory Tcp_Pcb
  imports Bv_Prelude Msg_Protocol
begin

text \<open>
  The part of an lwIP connection the migration code works with: the connection state, the free
  send buffer, the data enqueued so far and the callback installed by \<open>tcp_sent\<close>.  Of
  \<open>tcp_write\<close> the checks of \<open>tcp_write_checks\<close> and the final update of the control block are
  modelled; whether the queue length and the allocation of segments allow the write is an input
  of the model, the list \<open>queue_ok\<close>, one entry per write.
\<close>

datatype tcp_state =
  CLOSED | LISTEN | SYN_SENT | SYN_RCVD | ESTABLISHED | FIN_WAIT_1 | FIN_WAIT_2 | CLOSE_WAIT
  | CLOSING | LAST_ACK | TIME_WAIT

type_synonym err_t = int

abbreviation ERR_OK :: err_t where "ERR_OK \<equiv> 0"
abbreviation ERR_MEM :: err_t where "ERR_MEM \<equiv> - 1"
abbreviation ERR_ABRT :: err_t where "ERR_ABRT \<equiv> - 13"
abbreviation ERR_CONN :: err_t where "ERR_CONN \<equiv> - 11"

text \<open>A packet: the bytes given to \<open>tcp_write\<close> and their number.\<close>

type_synonym packet = "bytes \<times> nat"

record 'cb tcp_pcb =
  tcp_state :: tcp_state
  snd_buf :: u32
  queue_ok :: "bool list"
  outq :: "packet list"
  sent_cb :: "'cb option"

section \<open>lwIP\<close>

definition tcp_write_checks :: "'cb tcp_pcb \<Rightarrow> nat \<Rightarrow> err_t" where
  "tcp_write_checks pcb len =
     (if tcp_state pcb \<notin> {ESTABLISHED, CLOSE_WAIT, SYN_SENT, SYN_RCVD} then ERR_CONN
      else if len = 0 then ERR_OK
      else if len > unat (snd_buf pcb) then ERR_MEM
      else if queue_ok pcb \<noteq> [] \<and> \<not> hd (queue_ok pcb) then ERR_MEM
      else ERR_OK)"

definition tcp_write :: "bytes \<Rightarrow> nat \<Rightarrow> 'cb tcp_pcb \<Rightarrow> 'cb tcp_pcb \<times> err_t" where
  "tcp_write arg len pcb =
     (let err = tcp_write_checks pcb len in
      if err \<noteq> ERR_OK then (pcb\<lparr>queue_ok := tl (queue_ok pcb)\<rparr>, err)
      else (pcb\<lparr>queue_ok := tl (queue_ok pcb), snd_buf := snd_buf pcb - of_nat len,
                outq := outq pcb @ [(arg, len)]\<rparr>, ERR_OK))"

definition tcp_sent :: "'cb option \<Rightarrow> 'cb tcp_pcb \<Rightarrow> 'cb tcp_pcb" where
  "tcp_sent cb pcb = pcb\<lparr>sent_cb := cb\<rparr>"

text \<open>The window scaling build reads the free send buffer through a 16-bit cast.\<close>

definition tcp_sndbuf :: "'cb tcp_pcb \<Rightarrow> u16" where
  "tcp_sndbuf pcb = ucast (min (snd_buf pcb) 0xFFFF)"

text \<open>\<open>pcb->snd_buf += recv_acked\<close> of \<open>tcp_receive\<close>.\<close>

definition tcp_acked :: "u32 \<Rightarrow> 'cb tcp_pcb \<Rightarrow> 'cb tcp_pcb" where
  "tcp_acked n pcb = pcb\<lparr>snd_buf := snd_buf pcb + n\<rparr>"

section \<open>The availability checks\<close>

text \<open>
  \<open>SIZE_OF_SENDBUF\<close> of the source machine is the unparenthesised \<open>SEND_SIZE + 24\<close>: it is 1048
  as an argument, but \<open>tcp_sndbuf (pcb) - SIZE_OF_SENDBUF\<close> subtracts 1024 and adds 24.
\<close>

definition send_size_const :: int where "send_size_const = 1024"

definition tcp_sendbuf_available :: "'cb tcp_pcb \<Rightarrow> bool" where
  "tcp_sendbuf_available pcb = (uint (tcp_sndbuf pcb) - send_size_const + 24 \<ge> 0)"

definition server_tcp_sendbuf_available :: "'cb tcp_pcb \<Rightarrow> bool" where
  "server_tcp_sendbuf_available pcb = (uint (tcp_sndbuf pcb) - 1048 \<ge> 0)"

lemma tcp_sndbuf_nat: "unat (tcp_sndbuf pcb) = min (unat (snd_buf pcb)) 0xFFFF"
  by (auto simp: tcp_sndbuf_def min_def unsigned_ucast_eq take_bit_nat_eq_self word_le_nat_alt)

lemma tcp_sendbuf_available_nat: "tcp_sendbuf_available pcb \<longleftrightarrow> 1000 \<le> unat (snd_buf pcb)"
proof -
  have "uint (tcp_sndbuf pcb) = int (min (unat (snd_buf pcb)) 0xFFFF)"
    by (simp only: tcp_sndbuf_nat [symmetric] uint_nat)
  then show ?thesis by (auto simp: tcp_sendbuf_available_def send_size_const_def)
qed

lemma server_tcp_sendbuf_available_nat:
  "server_tcp_sendbuf_available pcb \<longleftrightarrow> 1048 \<le> unat (snd_buf pcb)"
proof -
  have "uint (tcp_sndbuf pcb) = int (min (unat (snd_buf pcb)) 0xFFFF)"
    by (simp only: tcp_sndbuf_nat [symmetric] uint_nat)
  then show ?thesis by (auto simp: server_tcp_sendbuf_available_def)
qed

text \<open>A connection that accepts every write that fits the send buffer.\<close>

definition tcp_open :: "'cb tcp_pcb \<Rightarrow> bool" where
  "tcp_open pcb \<longleftrightarrow> tcp_state pcb = ESTABLISHED \<and> queue_ok pcb = []"

text \<open>
  The send buffer is in step with the messages when what is left over after taking whole
  messages from it is below 1000 bytes; then the check is exact.
\<close>

definition in_step :: "'cb tcp_pcb \<Rightarrow> bool" where
  "in_step pcb \<longleftrightarrow> unat (snd_buf pcb) mod size_of_msg < 1000"

lemma in_step_available:
  "in_step pcb \<Longrightarrow> tcp_sendbuf_available pcb \<longleftrightarrow> size_of_msg \<le> unat (snd_buf pcb)"
  by (cases "unat (snd_buf pcb) < size_of_msg")
    (auto simp: in_step_def tcp_sendbuf_available_nat msg_sizes)

lemma unat_minus_of_nat:
  "n \<le> unat w \<Longrightarrow> unat (w - of_nat n) = unat w - n" for w :: u32
proof -
  assume n: "n \<le> unat w"
  then have "n < 2 ^ 32" using le_less_trans [OF n unat_lt_32] by simp
  then have "unat (of_nat n :: u32) = n" by (simp add: unat_of_nat take_bit_nat_eq_self)
  with n show ?thesis by (simp add: unat_sub word_le_nat_alt)
qed

lemma tcp_write_open:
  assumes "tcp_open pcb" "0 < len" "len \<le> unat (snd_buf pcb)"
  shows "tcp_write arg len pcb =
     (pcb\<lparr>snd_buf := snd_buf pcb - of_nat len, outq := outq pcb @ [(arg, len)]\<rparr>, ERR_OK)"
  using assms by (simp add: tcp_write_def tcp_write_checks_def tcp_open_def Let_def)

lemma in_step_write:
  assumes "in_step pcb" "size_of_msg \<le> unat (snd_buf pcb)"
  shows "in_step (pcb\<lparr>snd_buf := snd_buf pcb - of_nat size_of_msg, outq := q\<rparr>)"
  using assms by (simp add: in_step_def unat_minus_of_nat le_mod_geq [symmetric])

text \<open>
  While the send buffer is in step with the messages, the check of the source machine is
  exact and a message that passes it is enqueued whole, leaving the buffer in step; the fresh
  send buffer of the configured 65535 bytes is in step.
\<close>

theorem in_step_write_succeeds:
  assumes "tcp_open pcb" and "in_step pcb" and "tcp_sendbuf_available pcb"
  shows "\<exists>pcb'. tcp_write m size_of_msg pcb = (pcb', ERR_OK)
     \<and> outq pcb' = outq pcb @ [(m, size_of_msg)] \<and> tcp_open pcb' \<and> in_step pcb'
     \<and> unat (snd_buf pcb') + size_of_msg = unat (snd_buf pcb)"
proof -
  have le: "size_of_msg \<le> unat (snd_buf pcb)" using assms(2,3) in_step_available by blast
  have "0 < size_of_msg" by (simp add: msg_sizes)
  from tcp_write_open [OF assms(1) this le, of m] show ?thesis
    using assms(1) in_step_write [OF assms(2) le] unat_minus_of_nat [OF le] le
    by (simp add: tcp_open_def)
qed

definition fresh_pcb :: "'cb tcp_pcb" where
  "fresh_pcb = \<lparr>tcp_state = ESTABLISHED, snd_buf = 0xFFFF, queue_ok = [], outq = [], sent_cb = None\<rparr>"

lemma in_step_write_succeeds_witness:
  "snd (tcp_write (\<lambda>_. 0) size_of_msg (fresh_pcb :: unit tcp_pcb)) = ERR_OK"
proof -
  have "tcp_open (fresh_pcb :: unit tcp_pcb)" "in_step (fresh_pcb :: unit tcp_pcb)"
    "tcp_sendbuf_available (fresh_pcb :: unit tcp_pcb)"
    by (simp_all add: fresh_pcb_def tcp_open_def in_step_def tcp_sendbuf_available_nat msg_sizes)
  from in_step_write_succeeds [OF this, of "\<lambda>_. 0"] show ?thesis by auto
qed

text \<open>
  C22: Out of step, the check of the source machine accepts what \<open>tcp_write\<close> refuses: with 1000
  to 1047 free bytes the message passes \<open>tcp_sendbuf_available\<close> and is not enqueued, where the
  check of the destination machine would have refused it.
\<close>

theorem sendbuf_check_gap:
  assumes "tcp_open pcb" and "1000 \<le> unat (snd_buf pcb)" and "unat (snd_buf pcb) < 1048"
  shows "tcp_sendbuf_available pcb \<and> \<not> server_tcp_sendbuf_available pcb
     \<and> tcp_write m size_of_msg pcb = (pcb, ERR_MEM)"
  using assms
  by (simp add: tcp_sendbuf_available_nat server_tcp_sendbuf_available_nat tcp_write_def
      tcp_write_checks_def tcp_open_def msg_sizes Let_def)

lemma sendbuf_check_gap_witness:
  "tcp_sendbuf_available ((fresh_pcb :: unit tcp_pcb)\<lparr>snd_buf := 1040\<rparr>)
   \<and> snd (tcp_write (\<lambda>_. 0) size_of_msg ((fresh_pcb :: unit tcp_pcb)\<lparr>snd_buf := 1040\<rparr>)) = ERR_MEM"
proof -
  have "tcp_open ((fresh_pcb :: unit tcp_pcb)\<lparr>snd_buf := 1040\<rparr>)"
    by (simp add: fresh_pcb_def tcp_open_def)
  from sendbuf_check_gap [OF this, of "\<lambda>_. 0"] show ?thesis by simp
qed

end
