(* ===== verification/Echo_Client.thy ===== *)
theory Echo_Client
  imports Bit_Array Tcp_Pcb
begin

text \<open>
  The source machine of a post-copy migration, \<open>bitvisor_client/ip/echo-client.c\<close>: the file's
  static variables (those of its functions included) as one record, and one definition per
  function.  A function of the code that can fall off its end without a \<open>return\<close> yields \<open>None\<close>
  as its \<open>err_t\<close>; the loops of \<open>send_margin\<close> and \<open>get_start_addr\<close> are partial functions,
  \<open>None\<close> when they never end, and theorems show when they do.  The pointers in
  \<open>usable_vmem_list\<close> are linear mappings of physical memory and are kept as the physical address
  they map.  Locks, \<open>tcp_output\<close>, \<open>tcp_recved\<close>, time stamps and messages to the console have no
  state in the model.
\<close>

datatype margin_type =
  MARGIN00 | MARGIN01 | MARGIN02 | MARGIN03 | MARGIN04 | MARGIN05 | MARGIN06SP | MARGIN_BUFF
  | NO_MARGIN | MEMORY_AREA01 | MEMORY_AREA02 | MEMORY_AREA03 | MEMORY_AREA05

record copy_state =
  cs_start_addr :: u64
  cs_end_addr :: u64
  cs_mem_area :: nat
  cs_send_size :: u64
  cs_send_num :: u64
  cs_m_type :: margin_type
  cs_bitarray_num :: u64

text \<open>The callbacks the file installs with \<open>tcp_sent\<close>.\<close>

datatype sent_callback =
  Echo_client_sent | Cpu_recv_callback | Send_margins | Send_margin | Margins_sent
  | Postcopy_requested | Postcopy_requested_disrupted | Postcopy_requested_sent
  | Migration_done_sent

record client =
  echo_client_pcb :: bool \<comment> \<open>whether the pointer is not NULL\<close>
  pcb :: "sent_callback tcp_pcb"
  phys :: physmem
  usable_vmem_list :: "nat \<Rightarrow> u64"
  send_buf :: bytes
  init_message :: int
  msg :: bf_msg
  seq_msg :: bf_msg
  requested_addr :: u64
  requested_offset :: u64
  req_mem_area_num :: nat
  bits :: bitarray
  no_request :: bool
  is_transmitting :: bool
  seq_thread_is_transmitting :: bool
  request_recv_disrupted :: bool
  fail_to_send_seq :: bool
  fail_to_send_req :: bool
  fail_to_send_req_dis :: bool
  migration_done :: bool
  migration_done_msg_sent :: bool
  dont_start_postcopy :: bool
  postcopy_state :: copy_state
  postcopy_stat :: "nat \<Rightarrow> u64"
  virtio_recv_queue :: u32
  seq_thread :: bool \<comment> \<open>the background thread has been created and has not exited\<close>
  requested_batch :: u32 \<comment> \<open>\<open>static batch\<close> of \<open>postcopy_requested\<close>\<close>
  disrupted_batch :: u32 \<comment> \<open>\<open>static batch\<close> of \<open>postcopy_requested_disrupted\<close>\<close>
  margin_batch :: u32 \<comment> \<open>\<open>static batch\<close> of \<open>send_margin\<close>\<close>
  next_start :: u64 \<comment> \<open>\<open>static start_addr\<close> of \<open>get_start_addr\<close>\<close>
  margin_flags :: "margin_type \<Rightarrow> bool" \<comment> \<open>the \<open>static bool margin00\<close> ... of \<open>send_margins\<close>\<close>

abbreviation on_pcb :: "(sent_callback tcp_pcb \<Rightarrow> sent_callback tcp_pcb) \<Rightarrow> client \<Rightarrow> client" where
  "on_pcb f s \<equiv> s\<lparr>pcb := f (pcb s)\<rparr>"

abbreviation on_msg :: "(bf_msg \<Rightarrow> bf_msg) \<Rightarrow> client \<Rightarrow> client" where
  "on_msg f s \<equiv> s\<lparr>msg := f (msg s)\<rparr>"

abbreviation on_seq_msg :: "(bf_msg \<Rightarrow> bf_msg) \<Rightarrow> client \<Rightarrow> client" where
  "on_seq_msg f s \<equiv> s\<lparr>seq_msg := f (seq_msg s)\<rparr>"

abbreviation on_meta :: "(msg_meta \<Rightarrow> msg_meta) \<Rightarrow> bf_msg \<Rightarrow> bf_msg" where
  "on_meta f m \<equiv> m\<lparr>meta := f (meta m)\<rparr>"

abbreviation count_stat :: "nat \<Rightarrow> client \<Rightarrow> client" where
  "count_stat i s \<equiv> s\<lparr>postcopy_stat := (postcopy_stat s)(i := postcopy_stat s i + 1)\<rparr>"

abbreviation set_bit :: "u64 \<Rightarrow> client \<Rightarrow> client" where
  "set_bit a s \<equiv> s\<lparr>bits := set_bitarray a (bits s)\<rparr>"

section \<open>Sending\<close>

definition set_send_msg_for_cpu :: "bytes \<Rightarrow> client \<Rightarrow> client" where
  "set_send_msg_for_cpu mem s =
     on_msg (\<lambda>m. m\<lparr>data := copy_bytes 0 size_sendbuf_data mem (data m)\<rparr>) s"

definition tcp_send_buf :: "client \<Rightarrow> client \<times> err_t" where
  "tcp_send_buf s =
     (let (p, err) = tcp_write (send_buf s) size_sendbuf_data (pcb s);
          s = s\<lparr>pcb := p\<rparr>
      in if err \<noteq> ERR_OK then (s, - 1) else (s, err))"

definition tcp_send_msg :: "client \<Rightarrow> client \<times> err_t" where
  "tcp_send_msg s =
     (let (p, err) = tcp_write (msg_bytes (msg s)) size_of_msg (pcb s);
          s = s\<lparr>pcb := p\<rparr>
      in if err \<noteq> ERR_OK then (s, - 1) else (s, err))"

definition tcp_send_seq_msg :: "client \<Rightarrow> client \<times> err_t" where
  "tcp_send_seq_msg s =
     (let (p, err) = tcp_write (msg_bytes (seq_msg s)) size_of_msg (pcb s);
          s = s\<lparr>pcb := p\<rparr>
      in if err \<noteq> ERR_OK then (s, - 1) else (s, err))"

definition echo_client_send :: "client \<Rightarrow> client \<times> err_t" where
  "echo_client_send s =
     (if \<not> echo_client_pcb s then (s, - 1)
      else if init_message s = 0 then
        let b = (send_buf s)(0 := 0x48, 1 := 0x69, 2 := 0x0a, 3 := 0);
            (s, ret) = tcp_send_buf (s\<lparr>send_buf := b\<rparr>)
        in if ret \<noteq> ERR_OK then (s, - 1)
           else (s\<lparr>init_message := init_message s + 1\<rparr>, 0)
      else (s, 0))"

section \<open>Answering a request\<close>

text \<open>The next packet of the requested block, built in \<open>msg\<close>.\<close>

definition fill_requested :: "u32 \<Rightarrow> client \<Rightarrow> client" where
  "fill_requested batch s =
     (let offset = drop_bit 3 (requested_offset s + ucast (batch * 1024));
          src = usable_vmem_list s (req_mem_area_num s) + offset * 8
      in on_msg (\<lambda>m. m\<lparr>meta := set_batch_num batch (meta m),
                        data := read_phys src size_sendbuf_data (phys s) (data m)\<rparr>) s)"

text \<open>
  How far a batch counter is from the end of the batch, the counter at its maximum being the
  farthest: it wraps to 0 first.
\<close>

definition batch_left :: "u32 \<Rightarrow> nat" where
  "batch_left batch = (if unat batch = 0xffffffff then 33 else 32 - unat batch)"

lemma batch_left_next: "\<not> 32 \<le> batch + 1 \<Longrightarrow> batch_left (batch + 1) < batch_left batch"
proof -
  assume "\<not> 32 \<le> batch + 1"
  then have lt: "unat (batch + 1) < 32" by (simp add: word_le_nat_alt)
  show ?thesis
  proof (cases "unat batch = 0xffffffff")
    case True
    then have "unat (batch + 1) = 0" by (simp add: unat_word_ariths)
    with True show ?thesis by (simp add: batch_left_def)
  next
    case False
    then have "unat batch < 0xffffffff" using unat_lt_32 [of batch] by linarith
    then have "unat batch + 1 < 2 ^ 32" by simp
    then have "unat (batch + 1) = unat batch + 1" by (simp add: unat_word_ariths)
    with False lt show ?thesis by (simp add: batch_left_def)
  qed
qed

function postcopy_requested :: "client \<Rightarrow> client \<times> err_t option" where
  "postcopy_requested s =
     (if \<not> tcp_sendbuf_available (pcb s) then (s\<lparr>fail_to_send_req := True\<rparr>, None)
      else
        let s = fill_requested (requested_batch s) s;
            s = s\<lparr>requested_batch := requested_batch s + 1\<rparr>
        in if requested_batch s \<ge> of_nat batch_size then
             let s = s\<lparr>requested_batch := 0\<rparr>;
                 s = on_pcb (tcp_sent (Some Postcopy_requested_sent)) s;
                 s = on_msg (bf_msg_set_proto_id proto_id_meta_data_req_mem) s;
                 (s, ret) = tcp_send_msg s;
                 s = set_bit (requested_addr s) s;
                 s = s\<lparr>no_request := True\<rparr>
             in (s, Some ERR_OK)
           else
             let s = on_pcb (tcp_sent (Some Postcopy_requested)) s;
                 (s, ret) = tcp_send_msg s
             in postcopy_requested s)"
  by auto
termination
  by (relation "measure (\<lambda>s. batch_left (requested_batch s))")
    (auto simp: fill_requested_def tcp_send_msg_def Let_def batch_size_def
      intro!: batch_left_next split: prod.splits if_splits)

function postcopy_requested_disrupted :: "client \<Rightarrow> client \<times> err_t option" where
  "postcopy_requested_disrupted s =
     (if \<not> tcp_sendbuf_available (pcb s) then (s\<lparr>fail_to_send_req_dis := True\<rparr>, None)
      else
        let s = fill_requested (disrupted_batch s) s;
            s = s\<lparr>disrupted_batch := disrupted_batch s + 1\<rparr>
        in if disrupted_batch s \<ge> of_nat batch_size then
             let s = s\<lparr>disrupted_batch := 0\<rparr>;
                 s = on_pcb (tcp_sent (Some Postcopy_requested_sent)) s;
                 s = on_msg (bf_msg_set_proto_id proto_id_meta_data_req_mem) s;
                 (s, ret) = tcp_send_msg s;
                 s = set_bit (requested_addr s) s;
                 s = s\<lparr>no_request := True\<rparr>;
                 s = s\<lparr>request_recv_disrupted := False\<rparr>
             in (s, Some ERR_OK)
           else
             let s = on_pcb (tcp_sent (Some Postcopy_requested_disrupted)) s;
                 (s, ret) = tcp_send_msg s
             in postcopy_requested_disrupted s)"
  by auto
termination
  by (relation "measure (\<lambda>s. batch_left (disrupted_batch s))")
    (auto simp: fill_requested_def tcp_send_msg_def Let_def batch_size_def
      intro!: batch_left_next split: prod.splits if_splits)

declare postcopy_requested.simps [simp del] postcopy_requested_disrupted.simps [simp del]

section \<open>Margins and blocks of the background copy\<close>

definition set_send_margin :: "u64 \<Rightarrow> u64 \<Rightarrow> client \<Rightarrow> client" where
  "set_send_margin start_addr end_addr s =
     (let c = postcopy_state s;
          c = c\<lparr>cs_start_addr := start_addr, cs_end_addr := end_addr,
                cs_send_size := (end_addr - start_addr + 1) div 1024\<rparr>;
          c = (if cs_send_size c = 0 then c\<lparr>cs_send_size := 1\<rparr> else c);
          c = (case find (\<lambda>i. start_addr \<ge> area_start (Mem_Layout.usable_mem_list ! i)
                          \<and> end_addr \<le> area_end (Mem_Layout.usable_mem_list ! i))
                      [0..<num_of_mem_area] of
                 Some i \<Rightarrow> c\<lparr>cs_mem_area := i\<rparr> | None \<Rightarrow> c);
          c = c\<lparr>cs_send_num := 0, cs_bitarray_num := drop_bit mig_unit (end_addr - start_addr)\<rparr>
      in on_seq_msg (on_meta (set_batch_size (ucast (cs_send_size c)) \<circ> set_addr_to_migrate start_addr))
           (s\<lparr>postcopy_state := c\<rparr>))"

abbreviation set_m_type :: "margin_type \<Rightarrow> client \<Rightarrow> client" where
  "set_m_type t s \<equiv> s\<lparr>postcopy_state := (postcopy_state s)\<lparr>cs_m_type := t\<rparr>\<rparr>"

definition margin_batch_end :: "client \<Rightarrow> client \<times> err_t" where
  "margin_batch_end s =
     (let s = set_bit (cs_start_addr (postcopy_state s)) s;
          s = on_pcb (tcp_sent (Some Send_margins)) s;
          (s, ret) = tcp_send_seq_msg s
      in if ret \<noteq> ERR_OK then (s, - 1) else (s, ERR_OK))"

text \<open>The cases \<open>MARGIN00\<close> to \<open>MARGIN05\<close> of \<open>send_margin\<close>, which only differ in the next one.\<close>

definition send_margin_last :: "margin_type \<Rightarrow> client \<Rightarrow> client \<times> err_t option" where
  "send_margin_last next_type s =
     (let s = s\<lparr>margin_batch := 0\<rparr>;
          s = set_m_type next_type s;
          (s, ret) = margin_batch_end s
      in if ret \<noteq> ERR_OK then (s, Some (- 1)) else (s, Some ERR_OK))"

definition send_margin_last_buff :: "client \<Rightarrow> client \<times> err_t option" where
  "send_margin_last_buff s =
     (let s = s\<lparr>margin_batch := 0\<rparr>;
          s = set_m_type NO_MARGIN s;
          s = set_bit (cs_start_addr (postcopy_state s)) s;
          s = on_pcb (tcp_sent (Some Margins_sent)) s;
          s = on_seq_msg (bf_msg_set_proto_id proto_id_meta_buff_mem) s;
          (s, ret) = tcp_send_seq_msg s
      in if ret \<noteq> ERR_OK then (s, Some (- 1))
         else (s\<lparr>seq_thread := True\<rparr>, Some ERR_OK))"

definition send_margin_last_block :: "client \<Rightarrow> client \<times> err_t option" where
  "send_margin_last_block s =
     (let s = s\<lparr>margin_batch := 0\<rparr>;
          s = on_pcb (tcp_sent (Some Margins_sent)) s;
          s = (if requested_addr s = cs_start_addr (postcopy_state s)
               then on_seq_msg (bf_msg_set_proto_id proto_id_meta_data_req_mem) s else s);
          (s, ret) = tcp_send_seq_msg s
      in if ret \<noteq> ERR_OK then (s, Some (- 1))
         else (s\<lparr>is_transmitting := False, seq_thread_is_transmitting := False\<rparr>, Some ERR_OK))"

text \<open>The packet that one turn of the loop of \<open>send_margin\<close> builds.\<close>

definition fill_margin :: "client \<Rightarrow> client" where
  "fill_margin s =
     (let c = postcopy_state s;
          offset = drop_bit 3 (cs_start_addr c
                     - area_start (Mem_Layout.usable_mem_list ! cs_mem_area c)
                     + cs_send_num c * 1024);
          src = usable_vmem_list s (cs_mem_area c) + offset * 8;
          s = on_seq_msg (\<lambda>m. m\<lparr>meta := set_batch_num (margin_batch s) (meta m),
                                data := read_phys src size_sendbuf_data (phys s) (data m)\<rparr>) s
      in s\<lparr>postcopy_state := c\<lparr>cs_send_num := cs_send_num c + 1\<rparr>,
           margin_batch := margin_batch s + 1\<rparr>)"

text \<open>
  One turn of the loop of \<open>send_margin\<close>: \<open>Inl\<close> when it goes on, \<open>Inr\<close> when it returns.
\<close>

definition send_margin_turn :: "client \<Rightarrow> client + client \<times> err_t option" where
  "send_margin_turn s =
     (let s = fill_margin s; c = postcopy_state s
      in if cs_send_num c \<ge> cs_send_size c then
           (case cs_m_type c of
              MARGIN00 \<Rightarrow> Inr (send_margin_last MARGIN01 s)
            | MARGIN01 \<Rightarrow> Inr (send_margin_last MARGIN02 s)
            | MARGIN02 \<Rightarrow> Inr (send_margin_last MARGIN03 s)
            | MARGIN03 \<Rightarrow> Inr (send_margin_last MARGIN04 s)
            | MARGIN04 \<Rightarrow> Inr (send_margin_last MARGIN05 s)
            | MARGIN05 \<Rightarrow> Inr (send_margin_last MARGIN06SP s)
            | MARGIN_BUFF \<Rightarrow> Inr (send_margin_last_buff s)
            | NO_MARGIN \<Rightarrow> Inr (send_margin_last_block s)
            | _ \<Rightarrow> Inl s)
         else
           let s = on_pcb (tcp_sent (Some Send_margin)) s;
               (s, ret) = tcp_send_seq_msg s
           in if ret \<noteq> ERR_OK then Inr (s, Some (- 1)) else Inl s)"

partial_function (option) send_margin :: "client \<Rightarrow> (client \<times> err_t option) option" where
  "send_margin s =
     (if tcp_sendbuf_available (pcb s) then
        (case send_margin_turn s of Inl s' \<Rightarrow> send_margin s' | Inr r \<Rightarrow> Some r)
      else Some (s\<lparr>fail_to_send_seq := True\<rparr>, None))"

definition send_margin_less_than_1kb :: "client \<Rightarrow> client \<times> err_t option" where
  "send_margin_less_than_1kb s =
     (if tcp_sendbuf_available (pcb s) then
        let c = postcopy_state s;
            offset = drop_bit 3 (cs_start_addr c
                       - area_start (Mem_Layout.usable_mem_list ! cs_mem_area c));
            src = usable_vmem_list s (cs_mem_area c) + offset * 8;
            s = on_seq_msg (\<lambda>m. m\<lparr>data := read_phys src 762 (phys s) (data m),
                                  meta := set_batch_num 0 (meta m)\<rparr>) s;
            s = set_m_type MARGIN_BUFF s;
            s = on_pcb (tcp_sent (Some Send_margins)) s;
            (s, ret) = tcp_send_seq_msg s;
            s = on_seq_msg (bf_msg_set_proto_id proto_id_meta_data_mem) s
        in (s, Some ERR_OK)
      else (s, None))"

section \<open>The sequence of the margins\<close>

text \<open>The cases \<open>MARGIN00\<close> to \<open>MARGIN05\<close> of \<open>send_margins\<close>, for entry \<open>i\<close> of \<open>margin_list\<close>.\<close>

definition send_margin_entry :: "nat \<Rightarrow> margin_type \<Rightarrow> client \<Rightarrow> client option" where
  "send_margin_entry i t s =
     (if margin_flags s t then Some s
      else
        let s = set_send_margin (area_start (margin_list ! i)) (area_end (margin_list ! i)) s
        in case send_margin s of
             None \<Rightarrow> None
           | Some (s, _) \<Rightarrow> Some (s\<lparr>margin_flags := (margin_flags s)(t := True)\<rparr>))"

definition send_margins :: "client \<Rightarrow> client option" where
  "send_margins s =
     (case cs_m_type (postcopy_state s) of
        MARGIN00 \<Rightarrow> send_margin_entry 0 MARGIN00 s
      | MARGIN01 \<Rightarrow> send_margin_entry 1 MARGIN01 s
      | MARGIN02 \<Rightarrow> send_margin_entry 2 MARGIN02 s
      | MARGIN03 \<Rightarrow> send_margin_entry 3 MARGIN03 s
      | MARGIN04 \<Rightarrow> send_margin_entry 4 MARGIN04 s
      | MARGIN05 \<Rightarrow> send_margin_entry 5 MARGIN05 s
      | MARGIN06SP \<Rightarrow>
          if margin_flags s MARGIN06SP then Some s
          else
            let s = s\<lparr>margin_flags := (margin_flags s)(MARGIN06SP := True)\<rparr>;
                s = set_send_margin (area_start (margin_list ! 6)) (area_end (margin_list ! 6)) s;
                s = on_seq_msg (bf_msg_set_proto_id proto_id_meta_data_mem_sp) s;
                s = s\<lparr>postcopy_state := (postcopy_state s)\<lparr>cs_send_size := 1\<rparr>\<rparr>;
                s = on_seq_msg (on_meta (set_batch_size 1)) s
            in Some (fst (send_margin_less_than_1kb s))
      | MARGIN_BUFF \<Rightarrow>
          if margin_flags s MARGIN_BUFF then Some s
          else
            let virtio_queue64 = push_bit 12 (ucast (virtio_recv_queue s) :: u64) AND 0xfffe0000;
                s = set_send_margin virtio_queue64 (virtio_queue64 + 0x5ffff) s
            in (case send_margin s of
                  None \<Rightarrow> None
                | Some (s, _) \<Rightarrow> Some (s\<lparr>margin_flags := (margin_flags s)(MARGIN_BUFF := True)\<rparr>))
      | _ \<Rightarrow> Some s)"

definition cpu_recv_callback :: "client \<Rightarrow> client option" where
  "cpu_recv_callback s =
     (let s = on_msg (bf_msg_set_proto_id proto_id_meta_data_mem) s;
          s = on_seq_msg (bf_msg_set_proto_id proto_id_meta_data_mem) s;
          s = set_m_type MARGIN00 s
      in send_margins s)"

section \<open>The background copy\<close>

text \<open>The loop of \<open>get_start_addr\<close>: the first block from \<open>a\<close> on whose bit is not set.\<close>

partial_function (option) get_start_loop :: "bitarray \<Rightarrow> u64 \<Rightarrow> u64 option" where
  "get_start_loop b a =
     (if get_bitarray b a \<noteq> 0 then
        (let a = get_next_addr a in if a = no_addr then Some a else get_start_loop b a)
      else Some a)"

definition get_start_addr :: "client \<Rightarrow> (client \<times> u64) option" where
  "get_start_addr s =
     (if next_start s = no_addr then Some (s, next_start s)
      else case get_start_loop (bits s) (next_start s) of
             None \<Rightarrow> None
           | Some a \<Rightarrow>
               if a = no_addr then Some (s\<lparr>next_start := a\<rparr>, a)
               else Some (s\<lparr>next_start := get_next_addr a\<rparr>, a))"

definition select_mem_area_c :: "client \<Rightarrow> client" where
  "select_mem_area_c s =
     (case select_mem_area (requested_addr s) of
        (num, addr, offset) \<Rightarrow>
          s\<lparr>req_mem_area_num := num, requested_addr := addr, requested_offset := offset\<rparr>)"

definition send_migration_done :: "client \<Rightarrow> client \<times> err_t option" where
  "send_migration_done s =
     (if tcp_sendbuf_available (pcb s) then
        let s = on_seq_msg (bf_msg_set_proto_id proto_id_meta_mig_done) s;
            s = on_pcb (tcp_sent (Some Migration_done_sent)) s;
            (s, ret) = tcp_send_seq_msg s
        in (s, Some ERR_OK)
      else (s, None))"

text \<open>The request set up by \<open>request_recv\<close> and \<open>send_disrupted_addr\<close> before the first packet.\<close>

definition start_reply :: "client \<Rightarrow> client" where
  "start_reply s =
     (let s = select_mem_area_c s;
          s = on_msg (bf_msg_set_proto_id proto_id_meta_data_mem) s;
          s = on_msg (on_meta (set_addr_to_migrate (requested_addr s))) s;
          s = on_msg (on_meta (set_batch_size (of_nat batch_size))) s
      in s\<lparr>no_request := False\<rparr>)"

definition send_disrupted_addr :: "client \<Rightarrow> client" where
  "send_disrupted_addr s =
     (if get_bitarray (bits s) (requested_addr s) \<noteq> 0 then
        count_stat 2 (s\<lparr>request_recv_disrupted := False\<rparr>)
      else
        let s = start_reply s;
            s = on_pcb (tcp_sent (Some Postcopy_requested_disrupted)) s;
            (s, _) = postcopy_requested_disrupted s
        in count_stat 1 s)"

definition postcopy_seq_task :: "client \<Rightarrow> (client \<times> bool) option" where
  "postcopy_seq_task s =
     (case get_start_addr (s\<lparr>is_transmitting := True, seq_thread_is_transmitting := True\<rparr>) of
        None \<Rightarrow> None
      | Some (s, start_addr) \<Rightarrow>
          if start_addr = no_addr then
            let s = s\<lparr>is_transmitting := False, seq_thread_is_transmitting := False\<rparr>;
                (s, _) = send_migration_done s
            in Some (s\<lparr>migration_done := True\<rparr>, True)
          else
            let s = set_send_margin start_addr (start_addr + margin_offset) s;
                s = on_seq_msg (bf_msg_set_proto_id proto_id_meta_data_mem) s;
                s = set_bit start_addr s
            in (case send_margin s of None \<Rightarrow> None | Some (s, _) \<Rightarrow> Some (s, False)))"

text \<open>
  One turn of the endless loop of \<open>seq_transmit_thread\<close>, up to \<open>schedule\<close>; the thread exits when
  \<open>seq_thread\<close> becomes false.
\<close>

definition seq_transmit_thread :: "client \<Rightarrow> client option" where
  "seq_transmit_thread s =
     (if migration_done s then
        if \<not> migration_done_msg_sent s then Some (fst (send_migration_done s))
        else Some (s\<lparr>seq_thread := False\<rparr>)
      else if no_request s \<and> \<not> is_transmitting s then
        if request_recv_disrupted s \<and> \<not> seq_thread_is_transmitting s then
          Some (send_disrupted_addr s)
        else map_option fst (postcopy_seq_task s)
      else if no_request s \<and> is_transmitting s then
        if fail_to_send_seq s then
          map_option fst (send_margin (s\<lparr>fail_to_send_seq := False\<rparr>))
        else Some s
      else
        if request_recv_disrupted s then
          if fail_to_send_req_dis s then
            Some (fst (postcopy_requested_disrupted (s\<lparr>fail_to_send_req_dis := False\<rparr>)))
          else Some s
        else
          if fail_to_send_req s then
            Some (fst (postcopy_requested (s\<lparr>fail_to_send_req := False\<rparr>)))
          else Some s)"

section \<open>Receiving\<close>

definition request_recv :: "client \<Rightarrow> client \<times> err_t" where
  "request_recv s =
     (if get_bitarray (bits s) (requested_addr s) \<noteq> 0 then (count_stat 2 s, ERR_OK)
      else if seq_thread_is_transmitting s then
        (s\<lparr>request_recv_disrupted := True\<rparr>, ERR_OK)
      else
        let s = start_reply s;
            s = on_pcb (tcp_sent (Some Postcopy_requested)) s;
            (s, _) = postcopy_requested s
        in (count_stat 1 s, ERR_OK))"

text \<open>The payload of the received pbuf is \<open>None\<close> when the peer has closed the connection.\<close>

definition echo_client_recv :: "bytes option \<Rightarrow> err_t \<Rightarrow> client \<Rightarrow> client \<times> err_t" where
  "echo_client_recv p err s =
     (case p of
        None \<Rightarrow> (s\<lparr>echo_client_pcb := False\<rparr>, ERR_OK)
      | Some payload \<Rightarrow>
          if err \<noteq> ERR_OK then (s, err)
          else
            let recv_msg = bf_msg_decode payload \<lparr>meta = \<lambda>_. 0, data = \<lambda>_. 0\<rparr>;
                s = (if bf_msg_get_proto_id recv_msg = proto_id_meta_data_req_mem then
                       let s = s\<lparr>requested_addr := addr_to_migrate (meta recv_msg)\<rparr>;
                           s = count_stat 0 s
                       in fst (request_recv s)
                     else if bf_msg_get_proto_id recv_msg = proto_id_meta_start_postcopy then
                       s\<lparr>dont_start_postcopy := False\<rparr>
                     else s)
            in (s, ERR_OK))"

definition echo_client_send_postcopy_migration :: "bytes \<Rightarrow> client \<Rightarrow> client \<times> err_t" where
  "echo_client_send_postcopy_migration mem s =
     (if \<not> echo_client_pcb s then (s, - 1)
      else
        let s = on_pcb (tcp_sent (Some Cpu_recv_callback)) s;
            s = on_msg (bf_msg_set_proto_id proto_id_meta_data_cpu) s;
            s = set_send_msg_for_cpu mem s;
            (s, ret) = tcp_send_msg s
        in if ret \<noteq> ERR_OK then (s, - 1) else (s, 0))"

text \<open>\<open>ok\<close>: the allocation of the \<open>echo_state\<close> succeeds.\<close>

definition echo_client_connected :: "bool \<Rightarrow> err_t \<Rightarrow> client \<Rightarrow> client \<times> err_t" where
  "echo_client_connected ok err s =
     (if err = ERR_OK then
        if ok then (on_pcb (tcp_sent (Some Echo_client_sent)) s, ERR_OK) else (s, ERR_MEM)
      else (s, ERR_OK))"

text \<open>
  \<open>echo_client_init\<close>: \<open>new_pcb\<close> is what \<open>tcp_new\<close> returns and \<open>e\<close> what \<open>tcp_connect\<close> does.
\<close>

definition echo_client_init :: "sent_callback tcp_pcb option \<Rightarrow> err_t \<Rightarrow> client \<Rightarrow> client" where
  "echo_client_init new_pcb e s =
     (let s = (case new_pcb of
                 None \<Rightarrow> s
               | Some p \<Rightarrow> if e = ERR_OK then s\<lparr>pcb := p, echo_client_pcb := True\<rparr> else s);
          s = s\<lparr>usable_vmem_list := (\<lambda>i. if i < num_of_mem_area
                   then area_start (Mem_Layout.usable_mem_list ! i) else usable_vmem_list s i)\<rparr>
      in s\<lparr>requested_addr := no_addr, no_request := False, fail_to_send_seq := False,
           fail_to_send_req := False, fail_to_send_req_dis := False, migration_done := False,
           migration_done_msg_sent := False, msg := bf_msg_init_msg (msg s),
           seq_msg := bf_msg_init_msg (seq_msg s), init_message := 0,
           dont_start_postcopy := True, bits := bitarray_zero\<rparr>)"

text \<open>
  The peer acknowledges \<open>n\<close> bytes: the send buffer grows and lwIP calls the installed callback.
\<close>

definition client_acked :: "u32 \<Rightarrow> client \<Rightarrow> client option" where
  "client_acked n s =
     (let s = on_pcb (tcp_acked n) s
      in case sent_cb (pcb s) of
           None \<Rightarrow> Some s
         | Some Echo_client_sent \<Rightarrow> Some s
         | Some Cpu_recv_callback \<Rightarrow> cpu_recv_callback s
         | Some Send_margins \<Rightarrow> send_margins s
         | Some Send_margin \<Rightarrow> map_option fst (send_margin s)
         | Some Margins_sent \<Rightarrow> Some s
         | Some Postcopy_requested \<Rightarrow> Some (fst (postcopy_requested s))
         | Some Postcopy_requested_disrupted \<Rightarrow> Some (fst (postcopy_requested_disrupted s))
         | Some Postcopy_requested_sent \<Rightarrow> Some s
         | Some Migration_done_sent \<Rightarrow> Some (s\<lparr>migration_done_msg_sent := True\<rparr>))"

section \<open>The state of the statics before the first connection\<close>

definition client_statics :: "physmem \<Rightarrow> client" where
  "client_statics mem =
     \<lparr>echo_client_pcb = False,
      pcb = \<lparr>tcp_state = CLOSED, snd_buf = 0, queue_ok = [], outq = [], sent_cb = None\<rparr>,
      phys = mem, usable_vmem_list = (\<lambda>_. 0), send_buf = (\<lambda>_. 0), init_message = 0,
      msg = \<lparr>meta = \<lambda>_. 0, data = \<lambda>_. 0\<rparr>, seq_msg = \<lparr>meta = \<lambda>_. 0, data = \<lambda>_. 0\<rparr>,
      requested_addr = 0, requested_offset = 0, req_mem_area_num = 0, bits = bitarray_zero,
      no_request = False, is_transmitting = False, seq_thread_is_transmitting = False,
      request_recv_disrupted = False, fail_to_send_seq = False, fail_to_send_req = False,
      fail_to_send_req_dis = False, migration_done = False, migration_done_msg_sent = False,
      dont_start_postcopy = False,
      postcopy_state = \<lparr>cs_start_addr = 0, cs_end_addr = 0, cs_mem_area = 0, cs_send_size = 0,
        cs_send_num = 0, cs_m_type = MARGIN00, cs_bitarray_num = 0\<rparr>,
      postcopy_stat = (\<lambda>_. 0), virtio_recv_queue = 0, seq_thread = False, requested_batch = 0,
      disrupted_batch = 0, margin_batch = 0, next_start = 0, margin_flags = (\<lambda>_. False)\<rparr>"

text \<open>The state after \<open>echo_client_init\<close> with an established connection.\<close>

definition client_start :: "physmem \<Rightarrow> client" where
  "client_start mem = echo_client_init (Some fresh_pcb) ERR_OK (client_statics mem)"

end
