(* ===== verification/Batched_Send.thy ===== *)
theory Batched_Send
  imports Echo_Client
begin

text \<open>
  The contract of the loops that cut a transfer into packets: as long as the send buffer has
  room they enqueue the next packet, they stop when it is full, and the last packet ends the
  transfer.  The replies of the source machine and its background copy are interpretations of it;
  what a whole run of such a loop enqueues is proved once.
\<close>

text \<open>The packets that fit the send buffer.\<close>

definition room :: "client \<Rightarrow> nat" where
  "room s = unat (snd_buf (pcb s)) div size_of_msg"

definition link_ok :: "client \<Rightarrow> bool" where
  "link_ok s \<longleftrightarrow> tcp_open (pcb s) \<and> in_step (pcb s)"

lemma link_ok_available: "link_ok s \<Longrightarrow> tcp_sendbuf_available (pcb s) \<longleftrightarrow> 0 < room s"
  using in_step_available [of "pcb s"]
  by (auto simp: link_ok_def room_def div_greater_zero_iff msg_sizes)

text \<open>One message enqueued.\<close>

lemma tcp_send_msg_ok:
  assumes "link_ok s" "0 < room s"
  shows "tcp_send_msg s =
     (s\<lparr>pcb := (pcb s)\<lparr>snd_buf := snd_buf (pcb s) - of_nat size_of_msg,
                       outq := outq (pcb s) @ [(msg_bytes (msg s), size_of_msg)]\<rparr>\<rparr>, ERR_OK)"
proof -
  have "size_of_msg \<le> unat (snd_buf (pcb s))"
    using assms(2) by (simp add: room_def div_greater_zero_iff)
  moreover have "0 < size_of_msg" by (simp add: msg_sizes)
  ultimately show ?thesis
    using assms(1) by (simp add: tcp_send_msg_def link_ok_def tcp_write_open)
qed

lemma size_of_msg_pos: "0 < size_of_msg"
  by (simp add: msg_sizes)

lemma link_ok_after_send:
  assumes "link_ok s" "0 < room s"
    and "pcb s' = (pcb s)\<lparr>sent_cb := cb, snd_buf := snd_buf (pcb s) - of_nat size_of_msg, outq := q\<rparr>"
  shows "link_ok s' \<and> room s' = room s - 1"
proof -
  have le: "size_of_msg \<le> unat (snd_buf (pcb s))"
    using assms(2) by (simp add: room_def div_greater_zero_iff)
  have "room s' = room s - 1"
    using le_div_geq [OF _ le] by (simp add: room_def assms(3) unat_minus_of_nat [OF le] size_of_msg_pos)
  then show ?thesis
    using assms in_step_write [OF _ le] by (simp add: link_ok_def tcp_open_def in_step_def)
qed

lemma store_le_same [simp]: "store_le n off v (store_le n off w b) = store_le n off v b"
  by (auto simp: store_le_def)

lemma set_batch_num_same [simp]: "set_batch_num n (set_batch_num n' mm) = set_batch_num n mm"
  by (simp add: set_batch_num_def store32_def)

lemma read_phys_same [simp]: "read_phys p n m (read_phys p' n m' b) = read_phys p n m b"
  by (auto simp: read_phys_def)

section \<open>The contract\<close>

locale batched_send =
  fixes run :: "client \<Rightarrow> 'r"
    and batch :: "client \<Rightarrow> nat"
    and total :: "client \<Rightarrow> nat"
    and pkt :: "client \<Rightarrow> nat \<Rightarrow> packet"
    and ok :: "client \<Rightarrow> bool"
    and same :: "client \<Rightarrow> client \<Rightarrow> bool"
    and step :: "client \<Rightarrow> client"
    and finish :: "client \<Rightarrow> 'r"
    and pause :: "client \<Rightarrow> 'r"
  assumes same_refl: "same s s"
    and same_trans: "same s t \<Longrightarrow> same t u \<Longrightarrow> same s u"
    and same_keeps: "same s t \<Longrightarrow> pkt t = pkt s \<and> total t = total s"
    and run_pause: "\<not> tcp_sendbuf_available (pcb s) \<Longrightarrow> run s = pause s"
    and run_finish: "\<lbrakk>ok s; link_ok s; 0 < room s; Suc (batch s) = total s\<rbrakk> \<Longrightarrow> run s = finish s"
    and run_step: "\<lbrakk>ok s; link_ok s; 0 < room s; Suc (batch s) < total s\<rbrakk> \<Longrightarrow> run s = run (step s)"
    and step_sends: "\<lbrakk>ok s; link_ok s; 0 < room s; Suc (batch s) < total s\<rbrakk> \<Longrightarrow>
      outq (pcb (step s)) = outq (pcb s) @ [pkt s (batch s)] \<and> batch (step s) = Suc (batch s)
      \<and> ok (step s) \<and> link_ok (step s) \<and> room (step s) = room s - 1 \<and> same s (step s)"
begin

text \<open>
  Any number of packets that fit and are not the last one: the run goes on from the state after
  them.
\<close>

lemma run_packets:
  assumes "ok s" "link_ok s" "n \<le> room s" "batch s + n < total s"
  shows "\<exists>t. run s = run t \<and> batch t = batch s + n \<and> room t = room s - n
     \<and> outq (pcb t) = outq (pcb s) @ map (pkt s) [batch s..<batch s + n]
     \<and> ok t \<and> link_ok t \<and> same s t"
  using assms(3,4)
proof (induction n)
  case 0
  then show ?case using assms(1,2) same_refl by (intro exI [of _ s]) simp
next
  case (Suc n)
  then obtain t where t: "run s = run t" "batch t = batch s + n" "room t = room s - n"
    "outq (pcb t) = outq (pcb s) @ map (pkt s) [batch s..<batch s + n]"
    "ok t" "link_ok t" "same s t"
    by auto
  have k: "pkt t = pkt s" "total t = total s" using same_keeps [OF t(7)] by simp_all
  have pre: "0 < room t" "Suc (batch t) < total t" using Suc.prems t(2,3) k by linarith+
  note st = step_sends [OF t(5,6) pre]
  have "run s = run (step t)" using run_step [OF t(5,6) pre] t(1) by simp
  moreover have "outq (pcb (step t)) = outq (pcb s) @ map (pkt s) [batch s..<batch s + Suc n]"
    using st t(2,4) k by simp
  moreover have "same s (step t)" using same_trans [OF t(7)] st by blast
  ultimately show ?case using st t(2,3) by (intro exI [of _ "step t"]) simp
qed

lemma run_part:
  assumes "ok s" "link_ok s" "batch s + room s < total s"
  shows "\<exists>t. run s = pause t \<and> batch t = batch s + room s \<and> room t = 0
     \<and> outq (pcb t) = outq (pcb s) @ map (pkt s) [batch s..<batch s + room s]
     \<and> ok t \<and> link_ok t \<and> same s t"
proof -
  obtain t where t: "run s = run t" "batch t = batch s + room s" "room t = 0"
    "outq (pcb t) = outq (pcb s) @ map (pkt s) [batch s..<batch s + room s]"
    "ok t" "link_ok t" "same s t"
    using run_packets [OF assms(1,2) order_refl assms(3)] by auto
  then have "run t = pause t" by (intro run_pause) (simp add: link_ok_available)
  with t show ?thesis by (intro exI [of _ t]) simp
qed

lemma run_all:
  assumes "ok s" "link_ok s" "batch s < total s" "total s \<le> batch s + room s"
  shows "\<exists>t. run s = finish t \<and> Suc (batch t) = total s \<and> 0 < room t
     \<and> room t = room s - (total s - batch s) + 1
     \<and> outq (pcb t) = outq (pcb s) @ map (pkt s) [batch s..<total s - 1]
     \<and> ok t \<and> link_ok t \<and> same s t"
proof -
  define n where "n = total s - 1 - batch s"
  have "n \<le> room s" "batch s + n < total s" using assms(3,4) by (simp_all add: n_def)
  from run_packets [OF assms(1,2) this] obtain t where t:
    "run s = run t" "batch t = batch s + n" "room t = room s - n"
    "outq (pcb t) = outq (pcb s) @ map (pkt s) [batch s..<batch s + n]"
    "ok t" "link_ok t" "same s t"
    by blast
  have k: "total t = total s" using same_keeps [OF t(7)] by simp
  have b: "Suc (batch t) = total s" "0 < room t" "room t = room s - (total s - batch s) + 1"
    using t(2,3) assms(3,4) by (simp_all add: n_def)
  then have "run t = finish t" using t(5,6) k by (intro run_finish) simp_all
  moreover have "batch s + n = total s - 1" using assms(3) by (simp add: n_def)
  ultimately show ?thesis using t b by (intro exI [of _ t]) simp
qed

end

end
