(* ===== verification/Client_Reply.thy ===== *)
theory Client_Reply
  imports Batched_Send
begin

text \<open>
  How the source machine answers a request: \<open>postcopy_requested\<close> and its twin for requests that
  arrived during a background transfer send the 32 packets of a block, stopping when the send
  buffer is full and going on at the next acknowledgement.  Both are interpretations of
  \<open>batched_send\<close>.
\<close>

section \<open>Packets of a reply\<close>

text \<open>
  Packet \<open>b\<close> of the reply: the message as it stands, with the packet number and the data of the
  block; the last one carries the protocol id of a reply.
\<close>

definition reply_msg :: "client \<Rightarrow> nat \<Rightarrow> bf_msg" where
  "reply_msg s b =
     (let m = msg (fill_requested (of_nat b) s)
      in if Suc b < batch_size then m else bf_msg_set_proto_id proto_id_meta_data_req_mem m)"

definition reply_packet :: "client \<Rightarrow> nat \<Rightarrow> packet" where
  "reply_packet s b = (msg_bytes (reply_msg s b), size_of_msg)"

lemma fill_requested_fields:
  "fill_requested b s = s\<lparr>msg := msg (fill_requested b s)\<rparr>"
  by (simp add: fill_requested_def Let_def)

lemma fill_requested_cong:
  assumes "msg s' = msg s \<or> (\<exists>n. msg s' = msg (fill_requested n s))"
    and "usable_vmem_list s' = usable_vmem_list s" "req_mem_area_num s' = req_mem_area_num s"
    and "requested_offset s' = requested_offset s" "phys s' = phys s"
  shows "msg (fill_requested b s') = msg (fill_requested b s)"
  using assms by (auto simp: fill_requested_def Let_def)

text \<open>What a turn leaves alone.\<close>

definition rest_of :: "client \<Rightarrow> physmem \<times> (nat \<Rightarrow> u64) \<times> copy_state \<times> u32 \<times> u64 \<times> bool \<times> bool" where
  "rest_of s = (phys s, usable_vmem_list s, postcopy_state s, margin_batch s, next_start s,
     is_transmitting s, seq_thread_is_transmitting s)"

lemma rest_of_updates [simp]:
  "rest_of (s\<lparr>pcb := p\<rparr>) = rest_of s" "rest_of (s\<lparr>fail_to_send_req := f\<rparr>) = rest_of s"
  "rest_of (s\<lparr>fail_to_send_req_dis := f\<rparr>) = rest_of s" "rest_of (s\<lparr>postcopy_stat := st\<rparr>) = rest_of s"
  by (simp_all add: rest_of_def)

definition same_request :: "client \<Rightarrow> client \<Rightarrow> bool" where
  "same_request s s' \<longleftrightarrow> reply_packet s' = reply_packet s \<and> requested_addr s' = requested_addr s
     \<and> bits s' = bits s \<and> no_request s' = no_request s \<and> rest_of s' = rest_of s"

section \<open>Both loops keep the contract\<close>

definition requested_step :: "client \<Rightarrow> client" where
  "requested_step s =
     (let s = fill_requested (requested_batch s) s;
          s = s\<lparr>requested_batch := requested_batch s + 1\<rparr>;
          s = on_pcb (tcp_sent (Some Postcopy_requested)) s
      in fst (tcp_send_msg s))"

definition requested_finish :: "client \<Rightarrow> client" where
  "requested_finish s =
     (let s = fill_requested (requested_batch s) s;
          s = s\<lparr>requested_batch := 0\<rparr>;
          s = on_pcb (tcp_sent (Some Postcopy_requested_sent)) s;
          s = on_msg (bf_msg_set_proto_id proto_id_meta_data_req_mem) s;
          s = fst (tcp_send_msg s)
      in set_bit (requested_addr s) s\<lparr>no_request := True\<rparr>)"

lemma batch_suc: "unat b < 31 \<Longrightarrow> unat (b + 1) = Suc (unat b)" for b :: u32
  by (simp add: unat_word_ariths)

lemma requested_run_step:
  assumes "tcp_sendbuf_available (pcb s)" "unat (requested_batch s) < 31"
  shows "postcopy_requested s = postcopy_requested (requested_step s)"
proof -
  have "\<not> of_nat batch_size \<le> requested_batch s + 1"
    using batch_suc [OF assms(2)] assms(2) by (simp add: batch_size_def word_le_nat_alt)
  then show ?thesis
    using assms(1)
    by (subst postcopy_requested.simps)
      (simp add: requested_step_def Let_def fill_requested_def split: prod.split)
qed

lemma requested_run_finish:
  assumes "tcp_sendbuf_available (pcb s)" "unat (requested_batch s) = 31"
  shows "postcopy_requested s = (requested_finish s, Some ERR_OK)"
proof -
  have "requested_batch s = 31" using assms(2) by (intro unat_eqI) simp
  then show ?thesis
    using assms(1)
    by (subst postcopy_requested.simps)
      (simp add: requested_finish_def Let_def batch_size_def fill_requested_def
        split: prod.split)
qed

definition disrupted_step :: "client \<Rightarrow> client" where
  "disrupted_step s =
     (let s = fill_requested (disrupted_batch s) s;
          s = s\<lparr>disrupted_batch := disrupted_batch s + 1\<rparr>;
          s = on_pcb (tcp_sent (Some Postcopy_requested_disrupted)) s
      in fst (tcp_send_msg s))"

definition disrupted_finish :: "client \<Rightarrow> client" where
  "disrupted_finish s =
     (let s = fill_requested (disrupted_batch s) s;
          s = s\<lparr>disrupted_batch := 0\<rparr>;
          s = on_pcb (tcp_sent (Some Postcopy_requested_sent)) s;
          s = on_msg (bf_msg_set_proto_id proto_id_meta_data_req_mem) s;
          s = fst (tcp_send_msg s)
      in set_bit (requested_addr s) s\<lparr>no_request := True, request_recv_disrupted := False\<rparr>)"

lemma disrupted_run_step:
  assumes "tcp_sendbuf_available (pcb s)" "unat (disrupted_batch s) < 31"
  shows "postcopy_requested_disrupted s = postcopy_requested_disrupted (disrupted_step s)"
proof -
  have "\<not> of_nat batch_size \<le> disrupted_batch s + 1"
    using batch_suc [OF assms(2)] assms(2) by (simp add: batch_size_def word_le_nat_alt)
  then show ?thesis
    using assms(1)
    by (subst postcopy_requested_disrupted.simps)
      (simp add: disrupted_step_def Let_def fill_requested_def split: prod.split)
qed

lemma disrupted_run_finish:
  assumes "tcp_sendbuf_available (pcb s)" "unat (disrupted_batch s) = 31"
  shows "postcopy_requested_disrupted s = (disrupted_finish s, Some ERR_OK)"
proof -
  have "disrupted_batch s = 31" using assms(2) by (intro unat_eqI) simp
  then show ?thesis
    using assms(1)
    by (subst postcopy_requested_disrupted.simps)
      (simp add: disrupted_finish_def Let_def batch_size_def fill_requested_def
        split: prod.split)
qed

lemma reply_packet_cong:
  assumes "msg s' = msg s \<or> (\<exists>n. msg s' = msg (fill_requested n s))"
    and "usable_vmem_list s' = usable_vmem_list s" "req_mem_area_num s' = req_mem_area_num s"
    and "requested_offset s' = requested_offset s" "phys s' = phys s"
  shows "reply_packet s' = reply_packet s"
  using fill_requested_cong [OF assms]
  by (simp add: fun_eq_iff reply_packet_def reply_msg_def Let_def)

lemma reply_packet_updates [simp]:
  "reply_packet (s\<lparr>fail_to_send_req := f\<rparr>) = reply_packet s"
  "reply_packet (s\<lparr>fail_to_send_req_dis := f\<rparr>) = reply_packet s"
  "reply_packet (s\<lparr>pcb := p\<rparr>) = reply_packet s"
  by (simp_all add: reply_packet_cong)

lemma send_reply:
  assumes "link_ok s" "0 < room s"
    and "pcb s1 = tcp_sent cb (pcb s)" "msg s1 = reply_msg s b"
  shows "\<exists>p. tcp_send_msg s1 = (s1\<lparr>pcb := p\<rparr>, ERR_OK)
     \<and> outq p = outq (pcb s) @ [reply_packet s b] \<and> sent_cb p = cb
     \<and> (\<forall>t. pcb t = p \<longrightarrow> link_ok t \<and> room t = room s - 1)"
proof -
  have ok1: "link_ok s1" "0 < room s1"
    using assms by (auto simp: link_ok_def room_def tcp_sent_def tcp_open_def in_step_def)
  define p where "p = (pcb s1)\<lparr>snd_buf := snd_buf (pcb s1) - of_nat size_of_msg,
                       outq := outq (pcb s1) @ [(msg_bytes (msg s1), size_of_msg)]\<rparr>"
  have "link_ok t \<and> room t = room s - 1" if "pcb t = p" for t
    by (rule link_ok_after_send [OF assms(1,2), where cb = cb])
      (simp add: that p_def assms(3) tcp_sent_def)
  moreover have "outq p = outq (pcb s) @ [reply_packet s b]"
    by (simp add: p_def assms(3,4) tcp_sent_def reply_packet_def)
  moreover have "sent_cb p = cb" by (simp add: p_def assms(3) tcp_sent_def)
  ultimately show ?thesis
    using tcp_send_msg_ok [OF ok1] by (auto simp: p_def [symmetric])
qed

lemma reply_msg_step:
  "unat n < 31 \<Longrightarrow> msg (fill_requested n s) = reply_msg s (unat n)"
  by (simp add: reply_msg_def batch_size_def)

lemma reply_msg_last:
  "unat n = 31 \<Longrightarrow> bf_msg_set_proto_id proto_id_meta_data_req_mem (msg (fill_requested n s))
     = reply_msg s 31"
proof -
  assume "unat n = 31"
  then have "n = 31" by (intro unat_eqI) simp
  then show ?thesis by (simp add: reply_msg_def batch_size_def)
qed

lemma requested_step_sends:
  assumes "link_ok s" "0 < room s" "unat (requested_batch s) < 31"
  shows "outq (pcb (requested_step s)) = outq (pcb s) @ [reply_packet s (unat (requested_batch s))]
      \<and> unat (requested_batch (requested_step s)) = Suc (unat (requested_batch s))
      \<and> link_ok (requested_step s) \<and> room (requested_step s) = room s - 1
      \<and> same_request s (requested_step s)"
proof -
  define s1 where "s1 = on_pcb (tcp_sent (Some Postcopy_requested))
     (s\<lparr>msg := msg (fill_requested (requested_batch s) s), requested_batch := requested_batch s + 1\<rparr>)"
  have s1: "pcb s1 = tcp_sent (Some Postcopy_requested) (pcb s)"
    "msg s1 = reply_msg s (unat (requested_batch s))"
    using reply_msg_step [OF assms(3), of s] by (simp_all add: s1_def)
  obtain p where p: "tcp_send_msg s1 = (s1\<lparr>pcb := p\<rparr>, ERR_OK)"
    "outq p = outq (pcb s) @ [reply_packet s (unat (requested_batch s))]"
    "\<And>t. pcb t = p \<Longrightarrow> link_ok t \<and> room t = room s - 1"
    using send_reply [OF assms(1,2) s1] by blast
  have "requested_step s = s1\<lparr>pcb := p\<rparr>"
    using p(1) by (simp add: requested_step_def s1_def fill_requested_def Let_def)
  then show ?thesis
    using p(2,3) batch_suc [OF assms(3)]
    by (auto simp: s1_def same_request_def rest_of_def intro!: reply_packet_cong)
qed

lemma requested_finish_sends:
  assumes "link_ok s" "0 < room s" "unat (requested_batch s) = 31"
  shows "outq (pcb (requested_finish s)) = outq (pcb s) @ [reply_packet s 31]
      \<and> requested_batch (requested_finish s) = 0
      \<and> link_ok (requested_finish s) \<and> room (requested_finish s) = room s - 1
      \<and> bits (requested_finish s) = set_bitarray (requested_addr s) (bits s)
      \<and> no_request (requested_finish s) \<and> rest_of (requested_finish s) = rest_of s
      \<and> sent_cb (pcb (requested_finish s)) = Some Postcopy_requested_sent"
proof -
  define s1 where "s1 = 
     s\<lparr>requested_batch := 0, pcb := tcp_sent (Some Postcopy_requested_sent) (pcb s),
       msg := bf_msg_set_proto_id proto_id_meta_data_req_mem
                (msg (fill_requested (requested_batch s) s))\<rparr>"
  have s1: "pcb s1 = tcp_sent (Some Postcopy_requested_sent) (pcb s)" "msg s1 = reply_msg s 31"
    using reply_msg_last [OF assms(3), of s] by (simp_all add: s1_def)
  obtain p where p: "tcp_send_msg s1 = (s1\<lparr>pcb := p\<rparr>, ERR_OK)"
    "outq p = outq (pcb s) @ [reply_packet s 31]" "sent_cb p = Some Postcopy_requested_sent"
    "\<And>t. pcb t = p \<Longrightarrow> link_ok t \<and> room t = room s - 1"
    using send_reply [OF assms(1,2) s1] by blast
  have "requested_finish s = set_bit (requested_addr s) (s1\<lparr>pcb := p\<rparr>)\<lparr>no_request := True\<rparr>"
    using p(1) by (simp add: requested_finish_def s1_def fill_requested_def Let_def)
  then show ?thesis using p(2-4) by (simp add: s1_def rest_of_def)
qed

lemma disrupted_step_sends:
  assumes "link_ok s" "0 < room s" "unat (disrupted_batch s) < 31"
  shows "outq (pcb (disrupted_step s)) = outq (pcb s) @ [reply_packet s (unat (disrupted_batch s))]
      \<and> unat (disrupted_batch (disrupted_step s)) = Suc (unat (disrupted_batch s))
      \<and> link_ok (disrupted_step s) \<and> room (disrupted_step s) = room s - 1
      \<and> same_request s (disrupted_step s)"
proof -
  define s1 where "s1 = on_pcb (tcp_sent (Some Postcopy_requested_disrupted))
     (s\<lparr>msg := msg (fill_requested (disrupted_batch s) s), disrupted_batch := disrupted_batch s + 1\<rparr>)"
  have s1: "pcb s1 = tcp_sent (Some Postcopy_requested_disrupted) (pcb s)"
    "msg s1 = reply_msg s (unat (disrupted_batch s))"
    using reply_msg_step [OF assms(3), of s] by (simp_all add: s1_def)
  obtain p where p: "tcp_send_msg s1 = (s1\<lparr>pcb := p\<rparr>, ERR_OK)"
    "outq p = outq (pcb s) @ [reply_packet s (unat (disrupted_batch s))]"
    "\<And>t. pcb t = p \<Longrightarrow> link_ok t \<and> room t = room s - 1"
    using send_reply [OF assms(1,2) s1] by blast
  have "disrupted_step s = s1\<lparr>pcb := p\<rparr>"
    using p(1) by (simp add: disrupted_step_def s1_def fill_requested_def Let_def)
  then show ?thesis
    using p(2,3) batch_suc [OF assms(3)]
    by (auto simp: s1_def same_request_def rest_of_def intro!: reply_packet_cong)
qed

lemma disrupted_finish_sends:
  assumes "link_ok s" "0 < room s" "unat (disrupted_batch s) = 31"
  shows "outq (pcb (disrupted_finish s)) = outq (pcb s) @ [reply_packet s 31]
      \<and> disrupted_batch (disrupted_finish s) = 0
      \<and> link_ok (disrupted_finish s) \<and> room (disrupted_finish s) = room s - 1
      \<and> bits (disrupted_finish s) = set_bitarray (requested_addr s) (bits s)
      \<and> no_request (disrupted_finish s) \<and> rest_of (disrupted_finish s) = rest_of s
      \<and> sent_cb (pcb (disrupted_finish s)) = Some Postcopy_requested_sent"
proof -
  define s1 where "s1 = 
     s\<lparr>disrupted_batch := 0, pcb := tcp_sent (Some Postcopy_requested_sent) (pcb s),
       msg := bf_msg_set_proto_id proto_id_meta_data_req_mem
                (msg (fill_requested (disrupted_batch s) s))\<rparr>"
  have s1: "pcb s1 = tcp_sent (Some Postcopy_requested_sent) (pcb s)" "msg s1 = reply_msg s 31"
    using reply_msg_last [OF assms(3), of s] by (simp_all add: s1_def)
  obtain p where p: "tcp_send_msg s1 = (s1\<lparr>pcb := p\<rparr>, ERR_OK)"
    "outq p = outq (pcb s) @ [reply_packet s 31]" "sent_cb p = Some Postcopy_requested_sent"
    "\<And>t. pcb t = p \<Longrightarrow> link_ok t \<and> room t = room s - 1"
    using send_reply [OF assms(1,2) s1] by blast
  have "disrupted_finish s = set_bit (requested_addr s) (s1\<lparr>pcb := p\<rparr>)
      \<lparr>no_request := True, request_recv_disrupted := False\<rparr>"
    using p(1) by (simp add: disrupted_finish_def s1_def fill_requested_def Let_def)
  then show ?thesis using p(2-4) by (simp add: s1_def rest_of_def)
qed

lemma requested_run_pause:
  "\<not> tcp_sendbuf_available (pcb s) \<Longrightarrow> postcopy_requested s = (s\<lparr>fail_to_send_req := True\<rparr>, None)"
  by (subst postcopy_requested.simps) simp

lemma disrupted_run_pause:
  "\<not> tcp_sendbuf_available (pcb s) \<Longrightarrow>
     postcopy_requested_disrupted s = (s\<lparr>fail_to_send_req_dis := True\<rparr>, None)"
  by (subst postcopy_requested_disrupted.simps) simp

interpretation requested_reply:
  batched_send postcopy_requested "\<lambda>s. unat (requested_batch s)" "\<lambda>_. 32" reply_packet "\<lambda>_. True"
    same_request requested_step "\<lambda>s. (requested_finish s, Some ERR_OK)"
    "\<lambda>s. (s\<lparr>fail_to_send_req := True\<rparr>, None)"
proof unfold_locales
  show "same_request s s" for s by (simp add: same_request_def)
  show "same_request s u" if "same_request s t" "same_request t u" for s t u
    using that by (simp add: same_request_def)
  show "reply_packet t = reply_packet s \<and> (32::nat) = 32" if "same_request s t" for s t
    using that by (simp add: same_request_def)
  show "postcopy_requested s = (s\<lparr>fail_to_send_req := True\<rparr>, None)" if "\<not> tcp_sendbuf_available (pcb s)" for s
    using that by (rule requested_run_pause)
  fix s
  assume s: "link_ok s" "0 < room s"
  then have av: "tcp_sendbuf_available (pcb s)" by (simp add: link_ok_available)
  show "postcopy_requested s = (requested_finish s, Some ERR_OK)" if "Suc (unat (requested_batch s)) = 32"
    using that by (intro requested_run_finish av) simp
  assume "Suc (unat (requested_batch s)) < 32"
  then have lt: "unat (requested_batch s) < 31" by simp
  show "postcopy_requested s = postcopy_requested (requested_step s)" by (rule requested_run_step [OF av lt])
  show "outq (pcb (requested_step s)) = outq (pcb s) @ [reply_packet s (unat (requested_batch s))]
      \<and> unat (requested_batch (requested_step s)) = Suc (unat (requested_batch s)) \<and> True
      \<and> link_ok (requested_step s) \<and> room (requested_step s) = room s - 1 \<and> same_request s (requested_step s)"
    using requested_step_sends [OF s lt] by blast
qed

interpretation disrupted_reply:
  batched_send postcopy_requested_disrupted "\<lambda>s. unat (disrupted_batch s)" "\<lambda>_. 32" reply_packet "\<lambda>_. True"
    same_request disrupted_step "\<lambda>s. (disrupted_finish s, Some ERR_OK)"
    "\<lambda>s. (s\<lparr>fail_to_send_req_dis := True\<rparr>, None)"
proof unfold_locales
  show "same_request s s" for s by (simp add: same_request_def)
  show "same_request s u" if "same_request s t" "same_request t u" for s t u
    using that by (simp add: same_request_def)
  show "reply_packet t = reply_packet s \<and> (32::nat) = 32" if "same_request s t" for s t
    using that by (simp add: same_request_def)
  show "postcopy_requested_disrupted s = (s\<lparr>fail_to_send_req_dis := True\<rparr>, None)" if "\<not> tcp_sendbuf_available (pcb s)" for s
    using that by (rule disrupted_run_pause)
  fix s
  assume s: "link_ok s" "0 < room s"
  then have av: "tcp_sendbuf_available (pcb s)" by (simp add: link_ok_available)
  show "postcopy_requested_disrupted s = (disrupted_finish s, Some ERR_OK)" if "Suc (unat (disrupted_batch s)) = 32"
    using that by (intro disrupted_run_finish av) simp
  assume "Suc (unat (disrupted_batch s)) < 32"
  then have lt: "unat (disrupted_batch s) < 31" by simp
  show "postcopy_requested_disrupted s = postcopy_requested_disrupted (disrupted_step s)" by (rule disrupted_run_step [OF av lt])
  show "outq (pcb (disrupted_step s)) = outq (pcb s) @ [reply_packet s (unat (disrupted_batch s))]
      \<and> unat (disrupted_batch (disrupted_step s)) = Suc (unat (disrupted_batch s)) \<and> True
      \<and> link_ok (disrupted_step s) \<and> room (disrupted_step s) = room s - 1 \<and> same_request s (disrupted_step s)"
    using disrupted_step_sends [OF s lt] by blast
qed

text \<open>A whole reply from packet \<open>b\<close> on, when there is room for the rest of it.\<close>

lemma requested_reply_all:
  assumes "link_ok s" "unat (requested_batch s) < 32" "32 \<le> unat (requested_batch s) + room s"
  shows "\<exists>s'. postcopy_requested s = (s', Some ERR_OK)
     \<and> outq (pcb s') = outq (pcb s) @ map (reply_packet s) [unat (requested_batch s)..<32]
     \<and> requested_batch s' = 0 \<and> link_ok s' \<and> rest_of s' = rest_of s
     \<and> sent_cb (pcb s') = Some Postcopy_requested_sent
     \<and> bits s' = set_bitarray (requested_addr s) (bits s) \<and> no_request s'"
proof -
  obtain t where t: "postcopy_requested s = (requested_finish t, Some ERR_OK)"
    "Suc (unat (requested_batch t)) = 32" "0 < room t"
    "outq (pcb t) = outq (pcb s) @ map (reply_packet s) [unat (requested_batch s)..<31]"
    "link_ok t" "same_request s t"
    using requested_reply.run_all [of s] assms by auto
  have "[unat (requested_batch s)..<32] = [unat (requested_batch s)..<31] @ [31]"
    using upt_Suc_append [of "unat (requested_batch s)" 31] assms(2) by simp
  then show ?thesis
    using requested_finish_sends [OF t(5,3)] t by (auto simp: same_request_def)
qed

section \<open>The contents of a reply\<close>

definition vmem_ok :: "client \<Rightarrow> bool" where
  "vmem_ok s \<longleftrightarrow> (\<forall>i < num_of_mem_area.
     usable_vmem_list s i = area_start (Mem_Layout.usable_mem_list ! i))"

lemma ucast_packet_offset:
  "b < 32 \<Longrightarrow> (ucast (of_nat b * 1024 :: u32) :: u64) = of_nat (b * 1024)"
proof (rule unat_eqI)
  assume b: "b < 32"
  then have "unat (of_nat (b * 1024) :: u32) = b * 1024" "unat (of_nat (b * 1024) :: u64) = b * 1024"
    by (subst unat_of_nat32 unat_of_nat64; simp)+
  then show "unat (ucast (of_nat b * 1024 :: u32) :: u64) = unat (of_nat (b * 1024) :: u64)"
    using b by (simp add: unsigned_ucast_eq take_bit_nat_eq_self)
qed

text \<open>After \<open>start_reply\<close> every packet of the reply carries its part of the block.\<close>

lemma start_reply_carries:
  assumes "vmem_ok s" "in_areas (requested_addr s) Mem_Layout.usable_mem_list" "b < 32"
  shows "carries (phys s) (requested_addr s AND request_mask) 32 b
     (if b = 31 then proto_id_meta_data_req_mem else proto_id_meta_data_mem)
     (reply_msg (start_reply s) b)"
proof -
  define num where "num = area_num Mem_Layout.usable_mem_list (requested_addr s)"
  define base where "base = requested_addr s AND request_mask"
  have num: "num < num_of_mem_area" using area_num_contains [OF assms(2)] by (simp add: num_def)
  then have v: "usable_vmem_list s num = area_start (Mem_Layout.usable_mem_list ! num)"
    using assms(1) by (simp add: vmem_ok_def)
  have addr: "area_start (Mem_Layout.usable_mem_list ! num)
      + drop_bit 3 (base - area_start (Mem_Layout.usable_mem_list ! num) + of_nat (b * 1024)) * 8
      = base + of_nat (b * 1024)"
    using aligned8_area_start [OF num] aligned8_block_base assms(3)
    by (intro mapped_address) (simp_all only: base_def, intro aligned8_packet, simp)
  have "select_mem_area (requested_addr s)
      = (num, base, base - area_start (Mem_Layout.usable_mem_list ! num))"
    by (simp add: select_mem_area_def num_def base_def Let_def)
  then show ?thesis
    using addr assms(3) v
    by (cases "b = 31")
      (simp_all add: carries_def reply_msg_def start_reply_def select_mem_area_c_def Let_def
        fill_requested_def ucast_packet_offset batch_size_def bf_msg_get_proto_id_def
        bf_msg_meta_get_proto_id_def bf_msg_set_proto_id_def read_phys_def base_def [symmetric])
qed

text \<open>What a state with a free connection and an idle reply loop answers.\<close>

lemma start_reply_keeps:
  "pcb (start_reply s) = pcb s" "requested_batch (start_reply s) = requested_batch s"
  "disrupted_batch (start_reply s) = disrupted_batch s" "bits (start_reply s) = bits s"
  "phys (start_reply s) = phys s" "rest_of (start_reply s) = rest_of s" "requested_addr (start_reply s) = requested_addr s AND request_mask"
  by (simp_all add: start_reply_def Let_def select_mem_area_c_def select_mem_area_def rest_of_def)

text \<open>
  A request for an address of the usable memory whose block has not been sent, arriving while the
  background copy is idle and the connection has room for a block, is answered with exactly 32
  messages carrying the 32 kilobytes of the block; the block is then marked as sent.
\<close>

lemma request_recv_sends:
  assumes "link_ok s" and "32 \<le> room s" and "requested_batch s = 0" and "vmem_ok s"
    and "in_areas (requested_addr s) Mem_Layout.usable_mem_list"
    and "get_bitarray (bits s) (requested_addr s) = 0" and "\<not> seq_thread_is_transmitting s"
  shows "\<exists>ms. outq (pcb (fst (request_recv s))) = outq (pcb s) @ map (\<lambda>m. (msg_bytes m, size_of_msg)) ms
     \<and> carries_block (phys s) (requested_addr s AND request_mask) True ms
     \<and> bits (fst (request_recv s)) = set_bitarray (requested_addr s AND request_mask) (bits s)
     \<and> no_request (fst (request_recv s)) \<and> requested_batch (fst (request_recv s)) = 0
     \<and> link_ok (fst (request_recv s)) \<and> rest_of (fst (request_recv s)) = rest_of s
     \<and> sent_cb (pcb (fst (request_recv s))) = Some Postcopy_requested_sent"
proof -
  define s1 where "s1 = on_pcb (tcp_sent (Some Postcopy_requested)) (start_reply s)"
  have pre: "link_ok s1" "requested_batch s1 = 0" "room s1 = room s"
    using assms(1,3)
    by (simp_all add: s1_def start_reply_keeps link_ok_def room_def tcp_sent_def tcp_open_def in_step_def)
  obtain s' where s': "postcopy_requested s1 = (s', Some ERR_OK)"
    "outq (pcb s') = outq (pcb s1) @ map (reply_packet s1) [0..<32]" "requested_batch s' = 0"
    "bits s' = set_bitarray (requested_addr s1) (bits s1)" "no_request s'"
    "link_ok s'" "rest_of s' = rest_of s1" "sent_cb (pcb s') = Some Postcopy_requested_sent"
    using requested_reply_all [of s1] pre assms(2) by auto
  have "request_recv s = (count_stat 1 s', ERR_OK)"
    using assms(6,7) s'(1) by (simp add: request_recv_def s1_def Let_def)
  moreover have "reply_packet s1 = (\<lambda>b. (msg_bytes (reply_msg (start_reply s) b), size_of_msg))"
    by (simp add: reply_packet_def reply_msg_def s1_def fun_eq_iff fill_requested_def Let_def)
  ultimately show ?thesis
    using s' start_reply_carries [OF assms(4,5)]
    by (intro exI [of _ "map (reply_msg (start_reply s)) [0..<32]"])
      (simp add: carries_block_def s1_def start_reply_keeps tcp_sent_def o_def link_ok_def)
qed

lemma link_ok_start: "pcb s = fresh_pcb \<Longrightarrow> link_ok s \<and> room s = 62"
  by (simp add: link_ok_def room_def fresh_pcb_def tcp_open_def in_step_def msg_sizes)

lemma client_start_simps [simp]:
  "pcb (client_start mem) = fresh_pcb" "phys (client_start mem) = mem"
  "bits (client_start mem) = bitarray_zero" "requested_batch (client_start mem) = 0"
  "seq_thread_is_transmitting (client_start mem) = False"
  by (simp_all add: client_start_def echo_client_init_def client_statics_def)

lemma vmem_ok_start: "usable_vmem_list s = usable_vmem_list (client_start mem) \<Longrightarrow> vmem_ok s"
  by (simp add: vmem_ok_def client_start_def echo_client_init_def Let_def)

text \<open>
  C16: When the send buffer has room for fewer than 32 packets, the reply stops after the packets
  that fit and leaves the flag that makes the background thread retry; called again with enough
  room it goes on with the next packet, so that the two calls together send each packet of the
  block once and in order.
\<close>

theorem postcopy_requested_resumes:
  assumes "link_ok s" and "requested_batch s = 0" and "room s < 32"
  shows "\<exists>s1. postcopy_requested s = (s1, None) \<and> fail_to_send_req s1
     \<and> outq (pcb s1) = outq (pcb s) @ map (reply_packet s) [0..<room s]
     \<and> (\<forall>n. let s2 = on_pcb (tcp_acked n) s1 in link_ok s2 \<and> 32 - room s \<le> room s2 \<longrightarrow>
          (\<exists>s3. postcopy_requested s2 = (s3, Some ERR_OK)
             \<and> outq (pcb s3) = outq (pcb s) @ map (reply_packet s) [0..<32]
             \<and> bits s3 = set_bitarray (requested_addr s) (bits s) \<and> no_request s3))"
proof -
  obtain t where t: "postcopy_requested s = (t\<lparr>fail_to_send_req := True\<rparr>, None)"
    "outq (pcb t) = outq (pcb s) @ map (reply_packet s) [0..<room s]"
    "unat (requested_batch t) = room s" "same_request s t"
    using requested_reply.run_part [of s] assms by auto
  define s1 where "s1 = t\<lparr>fail_to_send_req := True\<rparr>"
  have s1: "postcopy_requested s = (s1, None)"
    "outq (pcb s1) = outq (pcb s) @ map (reply_packet s) [0..<room s]"
    "unat (requested_batch s1) = room s" "same_request s s1" "fail_to_send_req s1"
    using t by (simp_all add: s1_def same_request_def reply_packet_cong)
  have "\<exists>s3. postcopy_requested s2 = (s3, Some ERR_OK)
             \<and> outq (pcb s3) = outq (pcb s) @ map (reply_packet s) [0..<32]
             \<and> bits s3 = set_bitarray (requested_addr s) (bits s) \<and> no_request s3"
    if s2: "s2 = on_pcb (tcp_acked n) s1" "link_ok s2" "32 - room s \<le> room s2" for n s2
  proof -
    have "same_request s s2"
      using s1(4) by (simp add: s2(1) same_request_def reply_packet_cong)
    moreover have "unat (requested_batch s2) = room s" "outq (pcb s2) = outq (pcb s1)"
      by (simp_all add: s2(1) s1(3) tcp_acked_def)
    moreover have "[0..<32] = [0..<room s] @ [room s..<32]"
      using assms(3) by (metis le_add_diff_inverse less_imp_le upt_add_eq_append zero_le)
    moreover have "32 \<le> room s + room s2" using s2(3) by linarith
    ultimately show ?thesis
      using requested_reply_all [OF s2(2)] assms(3) s1(2)
      by (auto simp: same_request_def)
  qed
  then show ?thesis using s1 by (simp add: Let_def)
qed

lemma postcopy_requested_resumes_witness:
  "fail_to_send_req (fst (postcopy_requested (client_start (\<lambda>_. 7)
     \<lparr>pcb := fresh_pcb\<lparr>snd_buf := 5240\<rparr>\<rparr>)))"
proof -
  define w where "w = client_start (\<lambda>_. 7)\<lparr>pcb := fresh_pcb\<lparr>snd_buf := 5240\<rparr>\<rparr>"
  have "link_ok w" "room w < 32" "requested_batch w = 0"
    by (simp_all add: w_def link_ok_def room_def fresh_pcb_def tcp_open_def in_step_def msg_sizes)
  then have "fail_to_send_req (fst (postcopy_requested w))"
    using postcopy_requested_resumes [of w] by auto
  then show ?thesis by (simp add: w_def)
qed

end
