(* ===== verification/Client_Margins.thy ===== *)
theory Client_Margins
  imports Client_Reply
begin

text \<open>
  The background copy and the margins: \<open>send_margin\<close> sends the packets of one margin or of one
  32KB block, \<open>get_start_addr\<close> chooses the next block that has not been sent.  \<open>send_margin\<close>
  always returns for the kinds of transfer it is called with, and is an interpretation of
  \<open>batched_send\<close>; its last packet ends a margin, the buffers or a block in its own way.
\<close>

section \<open>\<open>send_margin\<close> returns\<close>

definition sendable :: "margin_type \<Rightarrow> bool" where
  "sendable t \<longleftrightarrow> t \<in> {MARGIN00, MARGIN01, MARGIN02, MARGIN03, MARGIN04, MARGIN05, MARGIN_BUFF, NO_MARGIN}"

lemma fill_margin_keeps [simp]:
  "pcb (fill_margin s) = pcb s" "phys (fill_margin s) = phys s" "bits (fill_margin s) = bits s"
  "requested_addr (fill_margin s) = requested_addr s"
  "cs_m_type (postcopy_state (fill_margin s)) = cs_m_type (postcopy_state s)"
  "cs_send_size (postcopy_state (fill_margin s)) = cs_send_size (postcopy_state s)"
  "cs_start_addr (postcopy_state (fill_margin s)) = cs_start_addr (postcopy_state s)"
  "cs_mem_area (postcopy_state (fill_margin s)) = cs_mem_area (postcopy_state s)"
  "cs_send_num (postcopy_state (fill_margin s)) = cs_send_num (postcopy_state s) + 1"
  by (simp_all add: fill_margin_def Let_def)

lemma tcp_write_shrinks:
  assumes "tcp_write m size_of_msg p = (p', e)" "e = ERR_OK"
  shows "unat (snd_buf p') < unat (snd_buf p)"
proof -
  have le: "size_of_msg \<le> unat (snd_buf p)" and p': "snd_buf p' = snd_buf p - of_nat size_of_msg"
    using assms by (auto simp: tcp_write_def tcp_write_checks_def Let_def msg_sizes split: if_splits)
  then show ?thesis using size_of_msg_pos by (simp add: unat_minus_of_nat)
qed

lemma turn_shrinks:
  assumes "send_margin_turn s = Inl t" "sendable (cs_m_type (postcopy_state s))"
  shows "unat (snd_buf (pcb t)) < unat (snd_buf (pcb s)) \<and> sendable (cs_m_type (postcopy_state t))"
proof -
  define s1 where "s1 = on_pcb (tcp_sent (Some Send_margin)) (fill_margin s)"
  obtain p e where w: "tcp_write (msg_bytes (seq_msg s1)) size_of_msg (pcb s1) = (p, e)"
    by fastforce
  have "e = ERR_OK" "t = s1\<lparr>pcb := p\<rparr>"
    using assms w by (auto simp: send_margin_turn_def sendable_def s1_def tcp_send_seq_msg_def Let_def
        split: if_splits margin_type.splits)
  then show ?thesis
    using tcp_write_shrinks [OF w] assms(2) by (simp add: s1_def tcp_sent_def)
qed

lemma send_margin_returns:
  "sendable (cs_m_type (postcopy_state s)) \<Longrightarrow> \<exists>r. send_margin s = Some r"
proof (induction "unat (snd_buf (pcb s))" arbitrary: s rule: less_induct)
  case less
  show ?case
  proof (cases "send_margin_turn s")
    case (Inl t)
    then show ?thesis
      using turn_shrinks [OF Inl less.prems] less.hyps [of t]
      by (subst send_margin.simps) auto
  next
    case (Inr r)
    then show ?thesis by (subst send_margin.simps) auto
  qed
qed

section \<open>Packets of a margin or block\<close>

definition margin_msg :: "client \<Rightarrow> nat \<Rightarrow> bf_msg" where
  "margin_msg s i =
     (let c = postcopy_state s in
      seq_msg (fill_margin (s\<lparr>postcopy_state := c\<lparr>cs_send_num := of_nat i\<rparr>, margin_batch := of_nat i\<rparr>)))"

definition margin_packet :: "client \<Rightarrow> nat \<Rightarrow> packet" where
  "margin_packet s i = (msg_bytes (margin_msg s i), size_of_msg)"

definition in_sync :: "client \<Rightarrow> bool" where
  "in_sync s \<longleftrightarrow> unat (margin_batch s) = unat (cs_send_num (postcopy_state s))
     \<and> unat (cs_send_size (postcopy_state s)) < 2 ^ 32"

text \<open>What a turn leaves alone: everything but the counters, the message and the connection.\<close>

definition margin_frame ::
    "sent_callback tcp_pcb \<Rightarrow> bf_msg \<Rightarrow> u32 \<Rightarrow> u64 \<Rightarrow> client \<Rightarrow> client" where
  "margin_frame p m b n s = s\<lparr>pcb := p, seq_msg := m, margin_batch := b,
     postcopy_state := (postcopy_state s)\<lparr>cs_send_num := n\<rparr>\<rparr>"

definition same_margin :: "client \<Rightarrow> client \<Rightarrow> bool" where
  "same_margin s t \<longleftrightarrow> margin_msg t = margin_msg s \<and> (\<exists>p m b n. t = margin_frame p m b n s)"

lemma margin_frame_id:
  "margin_frame (pcb s) (seq_msg s) (margin_batch s) (cs_send_num (postcopy_state s)) s = s"
  by (simp add: margin_frame_def)

lemma margin_frame_frame: "margin_frame p m b n (margin_frame p' m' b' n' s) = margin_frame p m b n s"
  by (simp add: margin_frame_def)

lemma same_margin_refl: "same_margin s s"
  unfolding same_margin_def using margin_frame_id by metis

lemma same_margin_trans: "same_margin s t \<Longrightarrow> same_margin t u \<Longrightarrow> same_margin s u"
  unfolding same_margin_def using margin_frame_frame by metis

lemma same_margin_fields:
  assumes "same_margin s t"
  shows "cs_send_size (postcopy_state t) = cs_send_size (postcopy_state s)"
    "cs_m_type (postcopy_state t) = cs_m_type (postcopy_state s)"
    "cs_start_addr (postcopy_state t) = cs_start_addr (postcopy_state s)"
    "bits t = bits s" "phys t = phys s" "requested_addr t = requested_addr s"
    "next_start t = next_start s" "margin_flags t = margin_flags s" "seq_thread t = seq_thread s"
    "no_request t = no_request s" "margin_msg t = margin_msg s"
  using assms by (auto simp: same_margin_def margin_frame_def)

text \<open>The message built by a turn is the one of its number.\<close>

lemma fill_margin_msg:
  assumes "in_sync s"
  shows "seq_msg (fill_margin s) = margin_msg s (unat (cs_send_num (postcopy_state s)))"
proof -
  have "of_nat (unat (margin_batch s)) = margin_batch s"
    "of_nat (unat (cs_send_num (postcopy_state s))) = cs_send_num (postcopy_state s)" by simp_all
  then have "of_nat (unat (cs_send_num (postcopy_state s))) = margin_batch s"
    "of_nat (unat (cs_send_num (postcopy_state s))) = cs_send_num (postcopy_state s)"
    using assms by (simp_all only: in_sync_def)
  then show ?thesis by (simp add: margin_msg_def)
qed

lemma margin_msg_cong:
  assumes "seq_msg t = seq_msg s \<or> (\<exists>i. seq_msg t = margin_msg s i)"
    and "usable_vmem_list t = usable_vmem_list s" "phys t = phys s"
    and "cs_start_addr (postcopy_state t) = cs_start_addr (postcopy_state s)"
    and "cs_mem_area (postcopy_state t) = cs_mem_area (postcopy_state s)"
  shows "margin_msg t = margin_msg s"
  using assms by (intro ext) (auto simp: margin_msg_def fill_margin_def Let_def)

section \<open>One packet\<close>

definition margin_step :: "client \<Rightarrow> client" where
  "margin_step s = fst (tcp_send_seq_msg (on_pcb (tcp_sent (Some Send_margin)) (fill_margin s)))"

definition margin_finish :: "client \<Rightarrow> (client \<times> err_t option) option" where
  "margin_finish s = (case send_margin_turn s of Inl t \<Rightarrow> send_margin t | Inr r \<Rightarrow> Some r)"

definition margin_pause :: "client \<Rightarrow> (client \<times> err_t option) option" where
  "margin_pause s = Some (s\<lparr>fail_to_send_seq := True\<rparr>, None)"

lemma tcp_send_seq_msg_ok:
  assumes "link_ok s" "0 < room s" "pcb s1 = tcp_sent cb (pcb s)"
  shows "\<exists>p. tcp_send_seq_msg s1 = (s1\<lparr>pcb := p\<rparr>, ERR_OK)
     \<and> outq p = outq (pcb s) @ [(msg_bytes (seq_msg s1), size_of_msg)] \<and> sent_cb p = cb
     \<and> (\<forall>t. pcb t = p \<longrightarrow> link_ok t \<and> room t = room s - 1)"
proof -
  have ok1: "tcp_open (pcb s1)" and le: "size_of_msg \<le> unat (snd_buf (pcb s1))"
    using assms by (auto simp: link_ok_def room_def tcp_sent_def tcp_open_def div_greater_zero_iff)
  define p where "p = (pcb s1)\<lparr>snd_buf := snd_buf (pcb s1) - of_nat size_of_msg,
                       outq := outq (pcb s1) @ [(msg_bytes (seq_msg s1), size_of_msg)]\<rparr>"
  have "link_ok t \<and> room t = room s - 1" if "pcb t = p" for t
    by (rule link_ok_after_send [OF assms(1,2), where cb = cb])
      (simp add: that p_def assms(3) tcp_sent_def)
  moreover have "tcp_send_seq_msg s1 = (s1\<lparr>pcb := p\<rparr>, ERR_OK)"
    using tcp_write_open [OF ok1 size_of_msg_pos le] by (simp add: tcp_send_seq_msg_def p_def)
  ultimately show ?thesis by (intro exI [of _ p]) (simp add: p_def assms(3) tcp_sent_def)
qed

lemma send_num_suc:
  assumes "Suc (unat (cs_send_num c)) \<le> unat (cs_send_size c)"
  shows "unat (cs_send_num c + 1) = Suc (unat (cs_send_num c))"
proof -
  have "Suc (unat (cs_send_num c)) < 2 ^ 64"
    using le_less_trans [OF assms unat_lt_64] by simp
  then show ?thesis by (simp add: unat_word_ariths)
qed

lemma margin_run_step:
  assumes "link_ok s" "0 < room s"
    and "Suc (unat (cs_send_num (postcopy_state s))) < unat (cs_send_size (postcopy_state s))"
  shows "send_margin_turn s = Inl (margin_step s)"
proof -
  define s1 where "s1 = on_pcb (tcp_sent (Some Send_margin)) (fill_margin s)"
  have "\<not> cs_send_size (postcopy_state s) \<le> cs_send_num (postcopy_state s) + 1"
    using assms(3) send_num_suc [OF less_imp_le [OF assms(3)]] by (simp add: word_le_nat_alt)
  moreover obtain p where "tcp_send_seq_msg s1 = (s1\<lparr>pcb := p\<rparr>, ERR_OK)"
    using tcp_send_seq_msg_ok [OF assms(1,2), of s1 "Some Send_margin"] by (auto simp: s1_def)
  ultimately show ?thesis
    by (simp add: send_margin_turn_def margin_step_def s1_def Let_def)
qed

lemma margin_step_sends:
  assumes "in_sync s" "link_ok s" "0 < room s"
    and "Suc (unat (cs_send_num (postcopy_state s))) < unat (cs_send_size (postcopy_state s))"
  shows "outq (pcb (margin_step s))
        = outq (pcb s) @ [margin_packet s (unat (cs_send_num (postcopy_state s)))]
     \<and> unat (cs_send_num (postcopy_state (margin_step s))) = Suc (unat (cs_send_num (postcopy_state s)))
     \<and> in_sync (margin_step s) \<and> link_ok (margin_step s) \<and> room (margin_step s) = room s - 1
     \<and> same_margin s (margin_step s)"
proof -
  define s1 where "s1 = on_pcb (tcp_sent (Some Send_margin)) (fill_margin s)"
  obtain p where p: "tcp_send_seq_msg s1 = (s1\<lparr>pcb := p\<rparr>, ERR_OK)"
    "outq p = outq (pcb s) @ [(msg_bytes (seq_msg s1), size_of_msg)]"
    "\<And>t. pcb t = p \<Longrightarrow> link_ok t \<and> room t = room s - 1"
    using tcp_send_seq_msg_ok [OF assms(2,3), of s1 "Some Send_margin"] by (auto simp: s1_def)
  have st: "margin_step s = s1\<lparr>pcb := p\<rparr>" using p(1) by (simp add: margin_step_def s1_def)
  have num: "unat (cs_send_num (postcopy_state s) + 1) = Suc (unat (cs_send_num (postcopy_state s)))"
    using assms(4) by (intro send_num_suc) simp
  have "unat (margin_batch s) + 1 < 2 ^ 32" using assms(1,4) by (simp add: in_sync_def)
  then have bat: "unat (margin_batch s + 1) = Suc (unat (margin_batch s))"
    by (simp add: unat_word_ariths)
  have sync: "in_sync (margin_step s)"
    using assms(1) num bat by (simp add: st s1_def in_sync_def fill_margin_def Let_def)
  have "margin_msg (margin_step s) = margin_msg s"
    using fill_margin_msg [OF assms(1)]
    by (intro margin_msg_cong) (auto simp: st s1_def fill_margin_def Let_def)
  moreover have "margin_step s = margin_frame p (seq_msg (fill_margin s)) (margin_batch s + 1)
      (cs_send_num (postcopy_state s) + 1) s"
    by (simp add: margin_frame_def st s1_def fill_margin_def Let_def)
  ultimately have "same_margin s (margin_step s)"
    unfolding same_margin_def by blast
  then show ?thesis
    using p(2,3) num sync fill_margin_msg [OF assms(1)]
    by (simp add: st s1_def margin_packet_def)
qed

interpretation margins:
  batched_send send_margin "\<lambda>s. unat (cs_send_num (postcopy_state s))"
    "\<lambda>s. unat (cs_send_size (postcopy_state s))" margin_packet in_sync same_margin margin_step
    margin_finish margin_pause
proof unfold_locales
  show "same_margin s s" for s by (rule same_margin_refl)
  show "same_margin s u" if "same_margin s t" "same_margin t u" for s t u
    using that by (rule same_margin_trans)
  show "margin_packet t = margin_packet s
      \<and> unat (cs_send_size (postcopy_state t)) = unat (cs_send_size (postcopy_state s))"
    if "same_margin s t" for s t
    using same_margin_fields [OF that] by (simp add: margin_packet_def fun_eq_iff)
  show "send_margin s = margin_pause s" if "\<not> tcp_sendbuf_available (pcb s)" for s
    using that by (subst send_margin.simps) (simp add: margin_pause_def)
  fix s
  assume s: "in_sync s" "link_ok s" "0 < room s"
  then have av: "tcp_sendbuf_available (pcb s)" by (simp add: link_ok_available)
  then have run: "send_margin s = margin_finish s"
    by (subst send_margin.simps) (simp add: margin_finish_def)
  then show "send_margin s = margin_finish s" .
  assume lt: "Suc (unat (cs_send_num (postcopy_state s))) < unat (cs_send_size (postcopy_state s))"
  show "send_margin s = send_margin (margin_step s)"
    using run margin_run_step [OF s(2,3) lt] by (simp add: margin_finish_def)
  show "outq (pcb (margin_step s))
        = outq (pcb s) @ [margin_packet s (unat (cs_send_num (postcopy_state s)))]
     \<and> unat (cs_send_num (postcopy_state (margin_step s))) = Suc (unat (cs_send_num (postcopy_state s)))
     \<and> in_sync (margin_step s) \<and> link_ok (margin_step s) \<and> room (margin_step s) = room s - 1
     \<and> same_margin s (margin_step s)"
    by (rule margin_step_sends [OF s lt])
qed

section \<open>Choosing the next block\<close>

lemma get_start_loop_block:
  assumes "gran_block a"
  shows "\<exists>r. get_start_loop b a = Some r
     \<and> (if r = no_addr then \<forall>c. gran_block c \<and> a \<le> c \<longrightarrow> get_bitarray b c \<noteq> 0
        else gran_block r \<and> a \<le> r \<and> get_bitarray b r = 0
          \<and> (\<forall>c. gran_block c \<and> a \<le> c \<and> c < r \<longrightarrow> get_bitarray b c \<noteq> 0))"
  using assms
proof (induction "unat no_addr - unat a" arbitrary: a rule: less_induct)
  case less
  note st = get_next_addr_step [OF less.prems, THEN conjunct1]
    get_next_addr_step [OF less.prems, THEN conjunct2, THEN conjunct1]
    get_next_addr_step [OF less.prems, THEN conjunct2, THEN conjunct2]
  show ?case
  proof (cases "get_bitarray b a = 0")
    case True
    then show ?thesis
      using less.prems gran_block_not_no_addr [OF less.prems]
      by (subst get_start_loop.simps) (auto dest: leD)
  next
    case False
    define a' where "a' = get_next_addr a"
    have skip: "c = a \<or> a' \<le> c" if "gran_block c" "a \<le> c" for c
      using st(3) that a'_def by (metis le_less not_le)
    show ?thesis
    proof (cases "a' = no_addr")
      case True
      have "c = a" if "gran_block c" "a \<le> c" for c
        using skip [OF that] True no_addr_max [of c] gran_block_not_no_addr [OF that(1)] by auto
      then show ?thesis
        using False True by (subst get_start_loop.simps) (auto simp: a'_def)
    next
      case nx: False
      then have g: "gran_block a'" using st(2) by (simp add: a'_def)
      have "unat no_addr - unat a' < unat no_addr - unat a"
        using st(1) no_addr_max [of a'] unfolding a'_def word_less_nat_alt word_le_nat_alt by linarith
      from less.hyps [OF this g] obtain r where r: "get_start_loop b a' = Some r"
        "if r = no_addr then \<forall>c. gran_block c \<and> a' \<le> c \<longrightarrow> get_bitarray b c \<noteq> 0
        else gran_block r \<and> a' \<le> r \<and> get_bitarray b r = 0
          \<and> (\<forall>c. gran_block c \<and> a' \<le> c \<and> c < r \<longrightarrow> get_bitarray b c \<noteq> 0)"
        by blast
      have "get_start_loop b a = Some r"
        using False nx r(1) by (subst get_start_loop.simps) (simp add: a'_def Let_def)
      moreover have "a \<le> a'" using st(1) by (simp add: a'_def)
      ultimately show ?thesis
        using r(2) False skip by (intro exI [of _ r]) (auto split: if_splits)
    qed
  qed
qed

text \<open>Where the next block to send is kept: a block or the end mark.\<close>

definition start_ok :: "client \<Rightarrow> bool" where
  "start_ok s \<longleftrightarrow> gran_block (next_start s) \<or> next_start s = no_addr"

lemma get_start_addr_some:
  assumes "start_ok s"
  shows "\<exists>s' a. get_start_addr s = Some (s', a) \<and> start_ok s' \<and> s' = s\<lparr>next_start := next_start s'\<rparr>
     \<and> next_start s \<le> next_start s'
     \<and> (if a = no_addr
        then \<forall>c. gran_block c \<and> next_start s \<le> c \<longrightarrow> get_bitarray (bits s) c \<noteq> 0
        else gran_block a \<and> next_start s \<le> a \<and> a < next_start s' \<and> get_bitarray (bits s) a = 0
          \<and> (\<forall>c. gran_block c \<and> next_start s \<le> c \<and> c < a \<longrightarrow> get_bitarray (bits s) c \<noteq> 0)
          \<and> (\<forall>c. gran_block c \<and> a < c \<longrightarrow> next_start s' \<le> c))"
proof (cases "next_start s = no_addr")
  case True
  then have "\<not> (gran_block c \<and> next_start s \<le> c)" for c
    using no_addr_max [of c] gran_block_not_no_addr [of c] by (metis antisym)
  then show ?thesis
    using True assms by (intro exI [of _ s] exI [of _ no_addr]) (auto simp: get_start_addr_def)
next
  case False
  then have g: "gran_block (next_start s)" using assms by (simp add: start_ok_def)
  obtain r where r: "get_start_loop (bits s) (next_start s) = Some r"
    "if r = no_addr then \<forall>c. gran_block c \<and> next_start s \<le> c \<longrightarrow> get_bitarray (bits s) c \<noteq> 0
        else gran_block r \<and> next_start s \<le> r \<and> get_bitarray (bits s) r = 0
          \<and> (\<forall>c. gran_block c \<and> next_start s \<le> c \<and> c < r \<longrightarrow> get_bitarray (bits s) c \<noteq> 0)"
    using get_start_loop_block [OF g] by blast
  show ?thesis
  proof (cases "r = no_addr")
    case True
    then show ?thesis
      using r False no_addr_max by (simp add: get_start_addr_def start_ok_def)
  next
    case ra: False
    then have gr: "gran_block r" using r(2) by simp
    note st = get_next_addr_step [OF gr, THEN conjunct1]
      get_next_addr_step [OF gr, THEN conjunct2, THEN conjunct1]
      get_next_addr_step [OF gr, THEN conjunct2, THEN conjunct2]
    have "next_start s \<le> get_next_addr r"
      using order_trans [OF _ less_imp_le [OF st(1)]] r(2) ra by simp
    moreover have "get_next_addr r \<le> c" if "gran_block c" "r < c" for c
      using st(3) that not_le by blast
    ultimately show ?thesis
      using r False ra st(1,2)
      by (intro exI [of _ "s\<lparr>next_start := get_next_addr r\<rparr>"] exI [of _ r])
        (auto simp: get_start_addr_def start_ok_def)
  qed
qed

section \<open>Sending a block\<close>

lemma gran_block_area:
  assumes "gran_block a"
  shows "\<exists>i < num_of_mem_area. area_start (Mem_Layout.usable_mem_list ! i) \<le> a
     \<and> a + margin_offset \<le> area_end (Mem_Layout.usable_mem_list ! i)"
proof -
  obtain q where q: "unat a = 0x8000 * q" "gran_num q" using assms gran_block_num by blast
  have "q < 0x8ed00" using q(2) unfolding gran_num_def by linarith
  then have u: "unat (a + margin_offset) = 0x8000 * q + 0x7fff"
    using q(1) by (subst unat_plus_lt) (simp_all add: mig_word_consts)
  have ex: "\<exists>i < num_of_mem_area. P i" if "P 0 \<or> P 1 \<or> P 2 \<or> P 3 \<or> P 4 \<or> P 5 \<or> P 6" for P
    using that unfolding num_of_mem_area_def
    by - (elim disjE, rule exI [of _ 0], simp, rule exI [of _ 1], simp, rule exI [of _ 2], simp,
        rule exI [of _ 3], simp, rule exI [of _ 4], simp, rule exI [of _ 5], simp,
        rule exI [of _ 6], simp)
  show ?thesis
    using q(2) unfolding gran_num_def
    by (intro ex, elim disjE)
      (simp_all add: word_le_nat_alt u q(1) Mem_Layout.usable_mem_list_def)
qed

text \<open>The last packet of a block, marked as a reply when it answers the pending request.\<close>

definition block_last_msg :: "client \<Rightarrow> bf_msg" where
  "block_last_msg s =
     (let m = margin_msg s (unat (cs_send_size (postcopy_state s)) - 1)
      in if requested_addr s = cs_start_addr (postcopy_state s)
         then bf_msg_set_proto_id proto_id_meta_data_req_mem m else m)"

text \<open>What the transfer of a block leaves alone.\<close>

definition frame_of :: "client \<Rightarrow> physmem \<times> (nat \<Rightarrow> u64) \<times> margin_type \<times> u32" where
  "frame_of s = (phys s, usable_vmem_list s, cs_m_type (postcopy_state s), requested_batch s)"

lemma same_margin_frame: "same_margin s t \<Longrightarrow> frame_of t = frame_of s"
  by (auto simp: same_margin_def margin_frame_def frame_of_def)

lemma margin_finish_block:
  assumes "in_sync s" "link_ok s" "0 < room s" "cs_m_type (postcopy_state s) = NO_MARGIN"
    and "Suc (unat (cs_send_num (postcopy_state s))) = unat (cs_send_size (postcopy_state s))"
  shows "\<exists>t. margin_finish s = Some (t, Some ERR_OK)
     \<and> outq (pcb t) = outq (pcb s) @ [(msg_bytes (block_last_msg s), size_of_msg)]
     \<and> \<not> is_transmitting t \<and> \<not> seq_thread_is_transmitting t \<and> margin_batch t = 0
     \<and> bits t = bits s \<and> next_start t = next_start s \<and> link_ok t \<and> room t = room s - 1
     \<and> sent_cb (pcb t) = Some Margins_sent \<and> frame_of t = frame_of s"
proof -
  define s1 where "s1 = on_pcb (tcp_sent (Some Margins_sent)) (fill_margin s\<lparr>margin_batch := 0\<rparr>)"
  define s2 where "s2 = (if requested_addr s1 = cs_start_addr (postcopy_state s1)
               then on_seq_msg (bf_msg_set_proto_id proto_id_meta_data_req_mem) s1 else s1)"
  have pcb2: "pcb s2 = tcp_sent (Some Margins_sent) (pcb s)"
    by (simp add: s2_def s1_def)
  have "unat (cs_send_size (postcopy_state s)) - 1 = unat (cs_send_num (postcopy_state s))"
    using assms(5) by simp
  then have msg2: "seq_msg s2 = block_last_msg s"
    using fill_margin_msg [OF assms(1)]
    by (simp add: s2_def s1_def block_last_msg_def Let_def)
  obtain p where p: "tcp_send_seq_msg s2 = (s2\<lparr>pcb := p\<rparr>, ERR_OK)"
    "outq p = outq (pcb s) @ [(msg_bytes (seq_msg s2), size_of_msg)]" "sent_cb p = Some Margins_sent"
    "\<And>t. pcb t = p \<Longrightarrow> link_ok t \<and> room t = room s - 1"
    using tcp_send_seq_msg_ok [OF assms(2,3) pcb2] by blast
  have "cs_send_size (postcopy_state s) \<le> cs_send_num (postcopy_state s) + 1"
    using assms(5) send_num_suc [of "postcopy_state s"] by (simp add: word_le_nat_alt)
  then have "send_margin_turn s = Inr (send_margin_last_block (fill_margin s))"
    using assms(4) by (simp add: send_margin_turn_def Let_def)
  moreover have "send_margin_last_block (fill_margin s)
      = (s2\<lparr>pcb := p, is_transmitting := False, seq_thread_is_transmitting := False\<rparr>, Some ERR_OK)"
    using p(1) by (simp add: send_margin_last_block_def s2_def s1_def Let_def split: if_split_asm)
  ultimately show ?thesis
    using p(2-4) msg2
    by (simp add: margin_finish_def s2_def s1_def fill_margin_def frame_of_def Let_def)
qed

text \<open>What \<open>set_send_margin\<close> sets up for a block.\<close>

lemma set_send_margin_block:
  assumes "gran_block a"
  shows "\<exists>i < num_of_mem_area. postcopy_state (set_send_margin a (a + margin_offset) s)
      = (postcopy_state s)\<lparr>cs_start_addr := a, cs_end_addr := a + margin_offset, cs_mem_area := i,
          cs_send_size := 32, cs_send_num := 0, cs_bitarray_num := 0\<rparr>"
    and "seq_msg (set_send_margin a (a + margin_offset) s)
      = on_meta (set_batch_size 32 \<circ> set_addr_to_migrate a) (seq_msg s)"
proof -
  define P where "P = (\<lambda>i. area_start (Mem_Layout.usable_mem_list ! i) \<le> a
     \<and> a + margin_offset \<le> area_end (Mem_Layout.usable_mem_list ! i))"
  obtain i where i: "find P [0..<num_of_mem_area] = Some i" "i < num_of_mem_area"
  proof (cases "find P [0..<num_of_mem_area]")
    case None
    then show ?thesis using gran_block_area [OF assms] by (auto simp: find_None_iff P_def)
  next
    case (Some i)
    then have "i < num_of_mem_area" by (auto simp: find_Some_iff)
    then show ?thesis using that [OF Some] by blast
  qed
  have sz: "(a + margin_offset - a + 1) div 1024 = 32" "drop_bit mig_unit (a + margin_offset - a) = 0"
    by (simp_all add: mig_word_consts mig_unit_def drop_bit_eq_div)
  show "\<exists>i < num_of_mem_area. postcopy_state (set_send_margin a (a + margin_offset) s)
      = (postcopy_state s)\<lparr>cs_start_addr := a, cs_end_addr := a + margin_offset, cs_mem_area := i,
          cs_send_size := 32, cs_send_num := 0, cs_bitarray_num := 0\<rparr>"
    using i sz unfolding P_def by (intro exI [of _ i]) (simp add: set_send_margin_def Let_def)
  show "seq_msg (set_send_margin a (a + margin_offset) s)
      = on_meta (set_batch_size 32 \<circ> set_addr_to_migrate a) (seq_msg s)"
    using i sz unfolding P_def by (simp add: set_send_margin_def Let_def)
qed

text \<open>The state from which \<open>postcopy_seq_task\<close> sends block \<open>a\<close>.\<close>

definition task_start :: "u64 \<Rightarrow> client \<Rightarrow> client" where
  "task_start a s = set_bit a (on_seq_msg (bf_msg_set_proto_id proto_id_meta_data_mem)
     (set_send_margin a (a + margin_offset) s))"

lemma set_send_margin_keeps:
  "pcb (set_send_margin a b s) = pcb s" "phys (set_send_margin a b s) = phys s"
  "bits (set_send_margin a b s) = bits s" "margin_batch (set_send_margin a b s) = margin_batch s"
  "usable_vmem_list (set_send_margin a b s) = usable_vmem_list s"
  "next_start (set_send_margin a b s) = next_start s"
  "requested_addr (set_send_margin a b s) = requested_addr s"
  "requested_batch (set_send_margin a b s) = requested_batch s"
  by (simp_all add: set_send_margin_def Let_def)

lemma task_start_carries:
  assumes "gran_block a" "vmem_ok s" "i < 32"
  shows "carries (phys s) a 32 i proto_id_meta_data_mem (margin_msg (task_start a s) i)"
proof -
  obtain k where k: "k < num_of_mem_area"
    "postcopy_state (set_send_margin a (a + margin_offset) s)
      = (postcopy_state s)\<lparr>cs_start_addr := a, cs_end_addr := a + margin_offset, cs_mem_area := k,
          cs_send_size := 32, cs_send_num := 0, cs_bitarray_num := 0\<rparr>"
    using set_send_margin_block(1) [OF assms(1)] by blast
  have v: "usable_vmem_list s k = area_start (Mem_Layout.usable_mem_list ! k)"
    using assms(2) k(1) by (simp add: vmem_ok_def)
  have al: "aligned8 a"
  proof -
    obtain q where "unat a = 0x8000 * q" using assms(1) gran_block_num by blast
    then have "unat a = 8 * (0x1000 * q)" by simp
    then show ?thesis by (simp add: aligned8_def)
  qed
  have addr: "area_start (Mem_Layout.usable_mem_list ! k)
      + drop_bit 3 (a - area_start (Mem_Layout.usable_mem_list ! k) + of_nat (i * 1024)) * 8
      = a + of_nat (i * 1024)"
    using aligned8_area_start [OF k(1)] al assms(3)
    by (intro mapped_address aligned8_packet) simp_all
  then show ?thesis
    by (simp add: carries_def margin_msg_def fill_margin_def task_start_def Let_def k(2)
        set_send_margin_block(2) [OF assms(1)] set_send_margin_keeps v read_phys_def
        bf_msg_get_proto_id_def bf_msg_meta_get_proto_id_def bf_msg_set_proto_id_def)
qed

lemma task_start_run:
  assumes "gran_block a" "vmem_ok s" "link_ok s" "32 \<le> room s" "margin_batch s = 0"
    and "cs_m_type (postcopy_state s) = NO_MARGIN"
  shows "\<exists>t ms. send_margin (task_start a s) = Some (t, Some ERR_OK)
     \<and> outq (pcb t) = outq (pcb s) @ map (\<lambda>m. (msg_bytes m, size_of_msg)) ms
     \<and> carries_block (phys s) a (requested_addr s = a) ms
     \<and> \<not> is_transmitting t \<and> \<not> seq_thread_is_transmitting t \<and> margin_batch t = 0
     \<and> bits t = set_bitarray a (bits s) \<and> next_start t = next_start s
     \<and> link_ok t \<and> sent_cb (pcb t) = Some Margins_sent \<and> frame_of t = frame_of s"
proof -
  define u where "u = task_start a s"
  obtain k where ps: "postcopy_state u
      = (postcopy_state s)\<lparr>cs_start_addr := a, cs_end_addr := a + margin_offset, cs_mem_area := k,
          cs_send_size := 32, cs_send_num := 0, cs_bitarray_num := 0\<rparr>"
    using set_send_margin_block(1) [OF assms(1), of s] by (auto simp: u_def task_start_def)
  have u: "in_sync u" "link_ok u" "room u = room s" "outq (pcb u) = outq (pcb s)"
    using assms(3,5) by (simp_all add: in_sync_def ps)
      (simp_all add: u_def task_start_def set_send_margin_keeps link_ok_def room_def)
  have sz: "unat (cs_send_num (postcopy_state u)) < unat (cs_send_size (postcopy_state u))"
    "unat (cs_send_size (postcopy_state u)) \<le> unat (cs_send_num (postcopy_state u)) + room u"
    using assms(4) u(3) by (simp_all add: ps)
  obtain t where t: "send_margin u = margin_finish t" "Suc (unat (cs_send_num (postcopy_state t))) = 32"
    "0 < room t" "outq (pcb t) = outq (pcb u) @ map (margin_packet u) [0..<31]"
    "in_sync t" "link_ok t" "same_margin u t"
    using margins.run_all [OF u(1,2) sz] by (auto simp: ps)
  note sf = same_margin_fields [OF t(7)]
  obtain t' where t': "margin_finish t = Some (t', Some ERR_OK)"
    "outq (pcb t') = outq (pcb t) @ [(msg_bytes (block_last_msg t), size_of_msg)]"
    "\<not> is_transmitting t'" "\<not> seq_thread_is_transmitting t'" "margin_batch t' = 0"
    "bits t' = bits t" "next_start t' = next_start t" "link_ok t'"
    "sent_cb (pcb t') = Some Margins_sent" "frame_of t' = frame_of t"
    using margin_finish_block [OF t(5,6,3)] t(2) sf assms(6) by (auto simp: ps)
  define ms where "ms = map (margin_msg u) [0..<31] @ [block_last_msg t]"
  have last: "block_last_msg t = (if requested_addr s = a
      then bf_msg_set_proto_id proto_id_meta_data_req_mem (margin_msg u 31) else margin_msg u 31)"
    using sf by (simp add: block_last_msg_def ps)
      (simp add: u_def task_start_def set_send_margin_keeps)
  have "carries (phys s) a 32 i
      (if i = 31 \<and> requested_addr s = a then proto_id_meta_data_req_mem else proto_id_meta_data_mem)
      (ms ! i)" if "i < 32" for i
  proof (cases "i = 31")
    case True
    then show ?thesis
      using task_start_carries [OF assms(1,2), of 31] last
      by (simp add: ms_def u_def nth_append carries_def bf_msg_get_proto_id_def
          bf_msg_meta_get_proto_id_def bf_msg_set_proto_id_def)
  next
    case False
    then show ?thesis
      using task_start_carries [OF assms(1,2) that] that by (simp add: ms_def u_def nth_append)
  qed
  moreover have "outq (pcb t') = outq (pcb s) @ map (\<lambda>m. (msg_bytes m, size_of_msg)) ms"
    using t'(2) t(4) u(4) by (simp add: ms_def margin_packet_def o_def)
  moreover have "bits t' = set_bitarray a (bits s)" "next_start t' = next_start s"
    using t'(6,7) sf by (simp_all add: u_def task_start_def set_send_margin_keeps)
  moreover have "frame_of u = frame_of s"
    by (simp add: frame_of_def ps) (simp add: u_def task_start_def set_send_margin_keeps)
  then have "frame_of t' = frame_of s" using t'(10) same_margin_frame [OF t(7)] by simp
  ultimately show ?thesis
    using t(1) t' by (intro exI [of _ t'] exI [of _ ms]) (simp add: carries_block_def ms_def u_def)
qed

text \<open>
  A turn of the background copy chooses the first block, in the order of the walk and from
  where it left off, whose bit is not set, sends its 32 kilobytes in 32 messages, marks it as sent
  and is idle again; when every remaining block has been sent it reports the end of the migration.
  The last message is marked as a reply when the pending request is for that very address.
\<close>

lemma postcopy_seq_task_sends:
  assumes "start_ok s" and "vmem_ok s" and "link_ok s" and "32 \<le> room s"
    and "margin_batch s = 0" and "cs_m_type (postcopy_state s) = NO_MARGIN"
  shows "\<exists>t done. postcopy_seq_task s = Some (t, done) \<and> start_ok t
     \<and> \<not> is_transmitting t \<and> \<not> seq_thread_is_transmitting t
     \<and> (if done then migration_done t
          \<and> (\<forall>c. gran_block c \<and> next_start s \<le> c \<longrightarrow> get_bitarray (bits s) c \<noteq> 0)
        else \<exists>a ms. gran_block a \<and> next_start s \<le> a \<and> get_bitarray (bits s) a = 0
          \<and> (\<forall>c. gran_block c \<and> next_start s \<le> c \<and> c < a \<longrightarrow> get_bitarray (bits s) c \<noteq> 0)
          \<and> outq (pcb t) = outq (pcb s) @ map (\<lambda>m. (msg_bytes m, size_of_msg)) ms
          \<and> carries_block (phys s) a (requested_addr s = a) ms
          \<and> bits t = set_bitarray a (bits s) \<and> a < next_start t
          \<and> (\<forall>c. gran_block c \<and> a < c \<longrightarrow> next_start t \<le> c) \<and> margin_batch t = 0
          \<and> link_ok t \<and> sent_cb (pcb t) = Some Margins_sent \<and> frame_of t = frame_of s)"
proof -
  define s0 where "s0 = s\<lparr>is_transmitting := True, seq_thread_is_transmitting := True\<rparr>"
  have "start_ok s0" using assms(1) by (simp add: s0_def start_ok_def)
  then obtain s1 a where s1: "get_start_addr s0 = Some (s1, a)" "start_ok s1"
    "s1 = s0\<lparr>next_start := next_start s1\<rparr>"
    "if a = no_addr
        then \<forall>c. gran_block c \<and> next_start s0 \<le> c \<longrightarrow> get_bitarray (bits s0) c \<noteq> 0
        else gran_block a \<and> next_start s0 \<le> a \<and> a < next_start s1 \<and> get_bitarray (bits s0) a = 0
          \<and> (\<forall>c. gran_block c \<and> next_start s0 \<le> c \<and> c < a \<longrightarrow> get_bitarray (bits s0) c \<noteq> 0)
          \<and> (\<forall>c. gran_block c \<and> a < c \<longrightarrow> next_start s1 \<le> c)"
    using get_start_addr_some by blast
  obtain n where n: "s1 = s0\<lparr>next_start := n\<rparr>" using s1(3) by blast
  show ?thesis
  proof (cases "a = no_addr")
    case True
    define s2 where "s2 = fst (send_migration_done
       (s1\<lparr>is_transmitting := False, seq_thread_is_transmitting := False\<rparr>))"
    have "postcopy_seq_task s = Some (s2\<lparr>migration_done := True\<rparr>, True)"
      using s1(1) True by (simp add: postcopy_seq_task_def s0_def s2_def Let_def split: prod.split)
    moreover have "\<not> is_transmitting s2" "\<not> seq_thread_is_transmitting s2" "next_start s2 = n"
      by (simp_all add: s2_def n send_migration_done_def tcp_send_seq_msg_def Let_def split: prod.split)
    ultimately show ?thesis
      using s1(2,4) True by (auto simp: s0_def n start_ok_def)
  next
    case False
    then have g: "gran_block a" using s1(4) by simp
    have pre: "vmem_ok s1" "link_ok s1" "32 \<le> room s1" "margin_batch s1 = 0"
      "cs_m_type (postcopy_state s1) = NO_MARGIN"
      using assms(2-6) by (simp_all add: n s0_def vmem_ok_def link_ok_def room_def)
    have task: "postcopy_seq_task s = (case send_margin (task_start a s1) of
        None \<Rightarrow> None | Some (s, _) \<Rightarrow> Some (s, False))"
      using s1(1) False
      by (simp add: postcopy_seq_task_def s0_def [symmetric] task_start_def Let_def)
    obtain t ms where t: "send_margin (task_start a s1) = Some (t, Some ERR_OK)"
      "outq (pcb t) = outq (pcb s1) @ map (\<lambda>m. (msg_bytes m, size_of_msg)) ms"
      "carries_block (phys s1) a (requested_addr s1 = a) ms"
      "\<not> is_transmitting t" "\<not> seq_thread_is_transmitting t"
      "bits t = set_bitarray a (bits s1)" "next_start t = next_start s1" "margin_batch t = 0"
      "link_ok t" "sent_cb (pcb t) = Some Margins_sent" "frame_of t = frame_of s1"
      using task_start_run [OF g pre] by blast
    have "postcopy_seq_task s = Some (t, False)" using task t(1) by simp
    moreover have "start_ok t" using s1(2) t(7) by (simp add: start_ok_def)
    moreover have "outq (pcb s1) = outq (pcb s)" "phys s1 = phys s" "requested_addr s1 = requested_addr s"
      "bits s1 = bits s" "bits s0 = bits s" "next_start s0 = next_start s" "frame_of s1 = frame_of s"
      by (simp_all add: n s0_def frame_of_def)
    ultimately show ?thesis
      using t(2-11) s1(4) False
      by (intro exI [of _ t] exI [of _ False]) (simp, intro exI [of _ a] conjI exI [of _ ms], simp_all)
  qed
qed

text \<open>
  The flags that keep each margin from being sent twice survive \<open>echo_client_init\<close>: on a
  second connection after a migration the acknowledgement of the CPU state sends no margin, and
  since every later step waits for the acknowledgement of a margin, nothing else either.
\<close>

theorem second_migration_sends_nothing:
  assumes "margin_flags s MARGIN00"
  shows "\<exists>t. cpu_recv_callback (echo_client_init (Some p) e s) = Some t
     \<and> outq (pcb t) = outq (pcb (echo_client_init (Some p) e s))"
  using assms
  by (simp add: cpu_recv_callback_def send_margins_def send_margin_entry_def echo_client_init_def
      Let_def)

lemma second_migration_sends_nothing_witness:
  "\<exists>t. cpu_recv_callback (echo_client_init (Some fresh_pcb) ERR_OK
       ((client_statics (\<lambda>_. 0))\<lparr>margin_flags := (\<lambda>_. True)\<rparr>)) = Some t \<and> outq (pcb t) = []"
  using second_migration_sends_nothing
    [of "(client_statics (\<lambda>_. 0))\<lparr>margin_flags := (\<lambda>_. True)\<rparr>" fresh_pcb ERR_OK]
  by (simp add: echo_client_init_def fresh_pcb_def Let_def)

end
