(* ===== verification/Echo_Server.thy ===== *)
theory Echo_Server
  imports Bit_Array Tcp_Pcb
begin

text \<open>
  The destination machine of a migration, \<open>bitvisor_server/ip/echo-server.c\<close>: the TCP server that
  receives the CPU state and the memory and sends the requests for missing blocks.  The state of
  the file is one record; \<open>echo_recv\<close> is the receive callback with all its branches.  The pointers
  in \<open>usable_vmem_list\<close> and \<open>vmem_for_cpu\<close> are linear mappings of physical memory and are kept as the
  physical address they map.  A pbuf is its payload and length; counters that only measure time
  or bandwidth and messages to the console are left out.
\<close>

datatype echo_states = ES_NONE | ES_ACCEPTED | ES_RECEIVED | ES_CLOSING

datatype server_callback = Request_sent | Echo_sent

text \<open>A received pbuf.\<close>

record pbuf =
  payload :: bytes
  plen :: nat

record server =
  echo_server_pcb :: "server_callback tcp_pcb"
  sphys :: physmem
  susable_vmem_list :: "nat \<Rightarrow> u64"
  vmem_for_cpu :: u64
  mem_area_num :: nat
  sbits :: bitarray
  smsg :: bf_msg
  srecv_msg :: bf_msg
  es_state :: echo_states
  es_p :: "pbuf list" \<comment> \<open>the chain \<open>es->p\<close>, empty for NULL\<close>
  es_retries :: nat
  es_freed :: bool \<comment> \<open>the \<open>echo_state\<close> has been given back\<close>
  pcb_closed :: bool \<comment> \<open>\<open>tcp_close\<close> or \<open>tcp_abort\<close> has been called\<close>
  ept_recved :: bool
  aft_mig_in_mmio :: bool
  virtio_send_queue :: u32
  test_first :: bool \<comment> \<open>\<open>static int first\<close> of \<open>echo_recv\<close>\<close>
  test_buf :: bytes \<comment> \<open>the buffer of the network test\<close>
  ready_found :: bool \<comment> \<open>\<open>msgopen ("postcopy_ready")\<close> finds its handler\<close>
  ready_ret :: int \<comment> \<open>what the handler returns\<close>
  ready_sent :: "u64 list" \<comment> \<open>the arguments \<open>array[1]\<close> sent to the handler so far\<close>
  num_of_recv :: "nat \<Rightarrow> u64"
  total_num_of_recv :: u64

section \<open>Set up\<close>

text \<open>\<open>bound\<close>: the listening control block once \<open>tcp_new\<close> and \<open>tcp_bind\<close> have succeeded.\<close>

definition echo_server_init :: "bool \<Rightarrow> server \<Rightarrow> server" where
  "echo_server_init bound s =
     (if \<not> bound then s
      else
        let len = (\<lambda>i. area_end (server_usable_mem_list ! i) - area_start (server_usable_mem_list ! i) + 1);
            recv = (\<lambda>i. if i < num_of_mem_area then len i div 1024 else num_of_recv s i)
        in s\<lparr>vmem_for_cpu := 0x49005000,
             susable_vmem_list := (\<lambda>i. if i < num_of_mem_area
                then area_start (server_usable_mem_list ! i) else susable_vmem_list s i),
             num_of_recv := recv,
             mem_area_num := 0,
             smsg := bf_msg_init_msg (smsg s), srecv_msg := bf_msg_init_msg (srecv_msg s),
             total_num_of_recv := sum_list (map recv [0..<num_of_mem_area])\<rparr>)"

text \<open>\<open>ok\<close>: the allocation of the \<open>echo_state\<close> succeeds.\<close>

definition echo_accept :: "bool \<Rightarrow> server_callback tcp_pcb \<Rightarrow> server \<Rightarrow> server \<times> err_t" where
  "echo_accept ok newpcb s =
     (if ok then
        (s\<lparr>es_state := ES_ACCEPTED, es_retries := 0, es_p := [], es_freed := False, pcb_closed := False,
           echo_server_pcb := newpcb\<rparr>, ERR_OK)
      else (s, ERR_MEM))"

section \<open>Requests\<close>

definition echo_server_reply_request :: "u64 \<Rightarrow> server \<Rightarrow> server" where
  "echo_server_reply_request gphys s =
     (if server_get_bitarray (sbits s) gphys = 0 then
        let m = bf_msg_set_proto_id proto_id_meta_data_req_mem (smsg s);
            m = m\<lparr>meta := set_addr_to_migrate gphys (meta m)\<rparr>;
            p = tcp_sent (Some Request_sent) (echo_server_pcb s);
            (p, err) = tcp_write (msg_bytes m) size_of_msg p
        in s\<lparr>smsg := m, echo_server_pcb := p\<rparr>
      else s\<lparr>ept_recved := True\<rparr>)"

definition echo_server_postcopy_start :: "server \<Rightarrow> server" where
  "echo_server_postcopy_start s =
     (let m = bf_msg_set_proto_id proto_id_meta_start_postcopy (smsg s);
          p = tcp_sent None (echo_server_pcb s);
          (p, err) = tcp_write (msg_bytes m) size_of_msg p
      in s\<lparr>smsg := m, echo_server_pcb := p\<rparr>)"

definition echo_server_send :: "u64 \<Rightarrow> server \<Rightarrow> server \<times> int" where
  "echo_server_send req_addr s =
     (let m = bf_msg_set_proto_id proto_id_meta_data_req_mem (smsg s);
          m = m\<lparr>meta := set_addr_to_migrate req_addr (meta m)\<rparr>;
          p = tcp_sent (Some Request_sent) (echo_server_pcb s);
          (p, err) = tcp_write (msg_bytes m) size_of_msg p
      in (s\<lparr>smsg := m, echo_server_pcb := p\<rparr>, 0))"

definition server_tcp_send_msg :: "server \<Rightarrow> server \<times> err_t" where
  "server_tcp_send_msg s =
     (let (p, err) = tcp_write (msg_bytes (smsg s)) size_of_msg (echo_server_pcb s);
          s = s\<lparr>echo_server_pcb := p\<rparr>
      in if err \<noteq> ERR_OK then (s, - 1) else (s, err))"

section \<open>Storing received memory\<close>

text \<open>
  The steps every branch for memory shares: select the area, compute the word offset of the packet
  and copy \<open>n\<close> bytes of the data part to memory.
\<close>

definition store_packet :: "nat \<Rightarrow> bytes \<Rightarrow> server \<Rightarrow> server" where
  "store_packet n pl s =
     (let mm = meta (srecv_msg s);
          num = set_mem_area_num (addr_to_migrate mm);
          offset = drop_bit 3 (addr_to_migrate mm - area_start (server_usable_mem_list ! num)
                     + ucast (batch_num mm * 1024));
          dst = susable_vmem_list s num + offset * 8
      in s\<lparr>mem_area_num := num,
           sphys := write_phys dst n (\<lambda>i. pl (size_of_meta + i)) (sphys s)\<rparr>)"

abbreviation mark_received :: "u64 \<Rightarrow> server \<Rightarrow> server" where
  "mark_received a s \<equiv> s\<lparr>sbits := server_set_bitarray a (sbits s)\<rparr>"

abbreviation last_of_batch :: "server \<Rightarrow> bool" where
  "last_of_batch s \<equiv> msg_batch_size (meta (srecv_msg s)) - 1 = batch_num (meta (srecv_msg s))"

abbreviation recv_addr :: "server \<Rightarrow> u64" where
  "recv_addr s \<equiv> addr_to_migrate (meta (srecv_msg s))"

definition recv_req_mem :: "bytes \<Rightarrow> server \<Rightarrow> server" where
  "recv_req_mem pl s =
     (let s = store_packet size_sendbuf_data pl s; s = s\<lparr>ept_recved := True\<rparr>
      in mark_received (recv_addr s) s)"

definition recv_mem :: "bytes \<Rightarrow> server \<Rightarrow> server" where
  "recv_mem pl s =
     (let s = store_packet size_sendbuf_data pl s
      in if last_of_batch s then mark_received (recv_addr s) s else s)"

text \<open>\<open>Inl\<close> is the early \<open>return -1\<close> when the guest cannot be started.\<close>

definition recv_buff_mem :: "bytes \<Rightarrow> server \<Rightarrow> server + server" where
  "recv_buff_mem pl s =
     (let s = store_packet size_sendbuf_data pl s;
          s = (if last_of_batch s then
                 mark_received 0x87fcd000 (mark_received 0x86b35000 (mark_received (recv_addr s) s))
               else s)
      in if \<not> ready_found s then Inl s
         else
           let s = s\<lparr>ready_sent := ready_sent s @ [vmem_for_cpu s]\<rparr>
           in if ready_ret s \<noteq> 0 then Inl s else Inr s)"

definition recv_mem_sp :: "bytes \<Rightarrow> server \<Rightarrow> server" where
  "recv_mem_sp pl s =
     (let s = store_packet 762 pl s in mark_received (recv_addr s) s)"

section \<open>The receive callback\<close>

text \<open>The dispatch on the protocol id of a message in state \<open>ES_RECEIVED\<close>.\<close>

definition recv_dispatch :: "bytes \<Rightarrow> server \<Rightarrow> server + server" where
  "recv_dispatch pl s =
     (let proto_id = bf_msg_get_proto_id (srecv_msg s) in
      if proto_id = proto_id_meta_data_cpu then
        Inr (s\<lparr>sphys := write_phys (vmem_for_cpu s) size_sendbuf_data (\<lambda>i. pl (size_of_meta + i)) (sphys s)\<rparr>)
      else if proto_id = proto_id_meta_data_req_mem then Inr (recv_req_mem pl s)
      else if proto_id = proto_id_meta_data_mem then Inr (recv_mem pl s)
      else if proto_id = proto_id_meta_buff_mem then recv_buff_mem pl s
      else if proto_id = proto_id_meta_data_mem_sp then Inr (recv_mem_sp pl s)
      else if proto_id = proto_id_test_send then
        Inr (s\<lparr>test_first := False, test_buf := copy_bytes size_of_meta size_sendbuf_data pl (test_buf s)\<rparr>)
      else if proto_id = proto_id_test_send_end then
        Inr (s\<lparr>test_buf := copy_bytes size_of_meta size_sendbuf_data pl (test_buf s)\<rparr>)
      else if proto_id = proto_id_meta_mig_done then Inr (s\<lparr>aft_mig_in_mmio := False\<rparr>)
      else Inr s)"

definition echo_close :: "server \<Rightarrow> server" where
  "echo_close s =
     s\<lparr>echo_server_pcb := tcp_sent None (echo_server_pcb s), es_freed := True, pcb_closed := True\<rparr>"

text \<open>
  The loop of \<open>echo_send\<close>, which echoes the pending chain back: it ends when the chain is empty,
  a write fails or the first pbuf does not fit the send buffer.
\<close>

fun echo_send_loop :: "pbuf list \<Rightarrow> server_callback tcp_pcb \<Rightarrow> pbuf list \<times> server_callback tcp_pcb" where
  "echo_send_loop [] p = ([], p)"
| "echo_send_loop (b # bs) p =
     (if plen b \<le> unat (tcp_sndbuf p) then
        let (p, wr_err) = tcp_write (payload b) (plen b) p
        in if wr_err = ERR_OK then echo_send_loop bs p else (b # bs, p)
      else (b # bs, p))"

definition echo_send :: "server \<Rightarrow> server" where
  "echo_send s =
     (let (bs, p) = echo_send_loop (es_p s) (echo_server_pcb s)
      in s\<lparr>es_p := bs, echo_server_pcb := p\<rparr>)"

abbreviation server_sent :: "server_callback option \<Rightarrow> server \<Rightarrow> server" where
  "server_sent cb s \<equiv> s\<lparr>echo_server_pcb := tcp_sent cb (echo_server_pcb s)\<rparr>"

definition echo_recv_received :: "pbuf \<Rightarrow> server \<Rightarrow> server \<times> err_t" where
  "echo_recv_received p s =
     (let s = s\<lparr>es_p := es_p s @ [p]\<rparr>;
          pl = payload (hd (es_p s));
          s = s\<lparr>srecv_msg := (srecv_msg s)\<lparr>meta := copy_bytes 0 size_of_meta pl (meta (srecv_msg s))\<rparr>\<rparr>
      in case recv_dispatch pl s of
           Inl s \<Rightarrow> (s, - 1)
         | Inr s \<Rightarrow> (s\<lparr>es_p := []\<rparr>, ERR_OK))"

definition echo_recv :: "pbuf option \<Rightarrow> err_t \<Rightarrow> server \<Rightarrow> server \<times> err_t" where
  "echo_recv po err s =
     (case po of
        None \<Rightarrow>
          let s = s\<lparr>es_state := ES_CLOSING\<rparr>
          in if es_p s = [] then (echo_close s, ERR_OK)
             else (echo_send (server_sent (Some Echo_sent) s), ERR_OK)
      | Some p \<Rightarrow>
          if err \<noteq> ERR_OK then (s\<lparr>es_p := []\<rparr>, err)
          else (case es_state s of
                  ES_ACCEPTED \<Rightarrow> (s\<lparr>es_state := ES_RECEIVED, es_p := [p]\<rparr>, ERR_OK)
                | ES_RECEIVED \<Rightarrow> echo_recv_received p s
                | ES_CLOSING \<Rightarrow> (s\<lparr>es_p := []\<rparr>, ERR_OK)
                | ES_NONE \<Rightarrow> (s\<lparr>es_p := []\<rparr>, ERR_OK)))"

section \<open>The other callbacks\<close>

definition echo_error :: "server \<Rightarrow> server" where
  "echo_error s = s\<lparr>es_freed := True\<rparr>"

definition echo_poll :: "server \<Rightarrow> server \<times> err_t" where
  "echo_poll s =
     (if \<not> es_freed s then
        (if es_p s \<noteq> [] then echo_send (server_sent (Some Echo_sent) s)
         else if es_state s = ES_CLOSING then echo_close s else s, ERR_OK)
      else (s\<lparr>pcb_closed := True\<rparr>, ERR_ABRT))"

definition echo_sent :: "server \<Rightarrow> server \<times> err_t" where
  "echo_sent s =
     (let s = s\<lparr>es_retries := 0\<rparr>
      in (if es_p s \<noteq> [] then echo_send (server_sent (Some Echo_sent) s)
          else if es_state s = ES_CLOSING then echo_close s else s, ERR_OK))"

text \<open>The peer acknowledges \<open>n\<close> bytes.\<close>

definition server_acked :: "u32 \<Rightarrow> server \<Rightarrow> server" where
  "server_acked n s =
     (let s = s\<lparr>echo_server_pcb := tcp_acked n (echo_server_pcb s)\<rparr>
      in case sent_cb (echo_server_pcb s) of
           None \<Rightarrow> s
         | Some Request_sent \<Rightarrow> s
         | Some Echo_sent \<Rightarrow> fst (echo_sent s))"

section \<open>The state of the statics\<close>

definition server_statics :: "physmem \<Rightarrow> server" where
  "server_statics mem =
     \<lparr>echo_server_pcb = \<lparr>tcp_state = CLOSED, snd_buf = 0, queue_ok = [], outq = [], sent_cb = None\<rparr>,
      sphys = mem, susable_vmem_list = (\<lambda>_. 0), vmem_for_cpu = 0, mem_area_num = 0,
      sbits = bitarray_zero, smsg = \<lparr>meta = \<lambda>_. 0, data = \<lambda>_. 0\<rparr>,
      srecv_msg = \<lparr>meta = \<lambda>_. 0, data = \<lambda>_. 0\<rparr>, es_state = ES_NONE, es_p = [], es_retries = 0,
      es_freed = True, pcb_closed = False, ept_recved = False, aft_mig_in_mmio = False,
      virtio_send_queue = 0, test_first = True, test_buf = (\<lambda>_. 0), ready_found = True, ready_ret = 0,
      ready_sent = [], num_of_recv = (\<lambda>_. 0), total_num_of_recv = 0\<rparr>"

definition server_start :: "physmem \<Rightarrow> server" where
  "server_start mem = fst (echo_accept True fresh_pcb (echo_server_init True (server_statics mem)))"

end
