(* ===== verification/Server_Memory.thy ===== *)
theory Server_Memory
  imports Echo_Server
begin

text \<open>
  What the destination machine makes of the messages of a block: every packet lands at the address
  it carries, the 32 packets of a block make its memory equal to the source's on the block and
  leave the rest alone, and the block is marked as received with the last one.
\<close>

section \<open>One message\<close>

definition smem_ok :: "server \<Rightarrow> bool" where
  "smem_ok s \<longleftrightarrow> (\<forall>i < num_of_mem_area.
     susable_vmem_list s i = area_start (server_usable_mem_list ! i))"

text \<open>A connection past its first message, with nothing pending.\<close>

definition receiving :: "server \<Rightarrow> bool" where
  "receiving s \<longleftrightarrow> es_state s = ES_RECEIVED \<and> es_p s = []"

definition deliver :: "bf_msg \<Rightarrow> server \<Rightarrow> server" where
  "deliver m s = fst (echo_recv (Some \<lparr>payload = msg_bytes m, plen = size_of_msg\<rparr>) ERR_OK s)"

lemma received_meta:
  "get_proto_id (copy_bytes 0 size_of_meta (msg_bytes m) mm) = get_proto_id (meta m)"
  "addr_to_migrate (copy_bytes 0 size_of_meta (msg_bytes m) mm) = addr_to_migrate (meta m)"
  "batch_num (copy_bytes 0 size_of_meta (msg_bytes m) mm) = batch_num (meta m)"
  "msg_batch_size (copy_bytes 0 size_of_meta (msg_bytes m) mm) = msg_batch_size (meta m)"
  by (rule meta_get_cong; simp add: copy_bytes_def msg_bytes_def)+

lemma area_num_lt: "set_mem_area_num a < num_of_mem_area"
  by (simp add: set_mem_area_num_def area_num_def num_of_mem_area_def)

lemma ucast_batch: "b < 2 ^ 20 \<Longrightarrow> (ucast (of_nat b * 1024 :: u32) :: u64) = of_nat (b * 1024)"
proof (rule unat_eqI)
  assume b: "b < 2 ^ 20"
  then have "unat (of_nat (b * 1024) :: u32) = b * 1024" "unat (of_nat (b * 1024) :: u64) = b * 1024"
    by (subst unat_of_nat32 unat_of_nat64; simp)+
  then show "unat (ucast (of_nat b * 1024 :: u32) :: u64) = unat (of_nat (b * 1024) :: u64)"
    using b by (simp add: unsigned_ucast_eq take_bit_nat_eq_self)
qed

lemma store_packet_addr:
  assumes "smem_ok s" "aligned8 a" "b < 2 ^ 20"
    and "addr_to_migrate (meta (srecv_msg s)) = a" "batch_num (meta (srecv_msg s)) = of_nat b"
  shows "store_packet n pl s = s\<lparr>mem_area_num := set_mem_area_num a,
     sphys := write_phys (a + of_nat (b * 1024)) n (\<lambda>i. pl (size_of_meta + i)) (sphys s)\<rparr>"
proof -
  define num where "num = set_mem_area_num a"
  have num: "num < num_of_mem_area" by (simp add: num_def area_num_lt)
  then have v: "susable_vmem_list s num = area_start (server_usable_mem_list ! num)"
    using assms(1) by (simp add: smem_ok_def)
  have "server_usable_mem_list = usable_mem_list"
    by (simp add: server_usable_mem_list_def usable_mem_list_def)
  then have "aligned8 (area_start (server_usable_mem_list ! num))"
    using aligned8_area_start [OF num] by simp
  then have "area_start (server_usable_mem_list ! num)
      + drop_bit 3 (a - area_start (server_usable_mem_list ! num) + of_nat (b * 1024)) * 8
      = a + of_nat (b * 1024)"
    using assms(2,3) by (intro mapped_address aligned8_packet) simp_all
  then show ?thesis
    using v assms(3-5)
    by (simp add: store_packet_def Let_def num_def [symmetric] ucast_batch)
qed

lemma unat_numeral_31: "unat (31 :: u32) = 31"
  by simp

text \<open>The effect of one message that carries a packet of a block.\<close>

lemma deliver_packet:
  assumes "receiving s" "smem_ok s" "aligned8 a" "i < 32"
    and "carries mem a 32 i p m" "p = proto_id_meta_data_mem \<or> p = proto_id_meta_data_req_mem"
  shows "receiving (deliver m s) \<and> smem_ok (deliver m s)
     \<and> sphys (deliver m s) = (\<lambda>x. if unat (x - (a + of_nat (i * 1024))) < 1024 then mem x else sphys s x)
     \<and> sbits (deliver m s) = (if i = 31 \<or> p = proto_id_meta_data_req_mem
          then server_set_bitarray a (sbits s) else sbits s)
     \<and> (ept_recved (deliver m s) \<longleftrightarrow> p = proto_id_meta_data_req_mem \<or> ept_recved s)
     \<and> (aft_mig_in_mmio (deliver m s) \<longleftrightarrow> aft_mig_in_mmio s)"
proof -
  define pl where "pl = msg_bytes m"
  define s1 where "s1 = s\<lparr>es_p := [\<lparr>payload = pl, plen = size_of_msg\<rparr>],
     srecv_msg := (srecv_msg s)\<lparr>meta := copy_bytes 0 size_of_meta pl (meta (srecv_msg s))\<rparr>\<rparr>"
  define dst where "dst = a + of_nat (i * 1024)"
  have m: "get_proto_id (meta m) = p" "addr_to_migrate (meta m) = a" "batch_num (meta m) = of_nat i"
    "msg_batch_size (meta m) = of_nat 32"
    "\<And>j. j < 1024 \<Longrightarrow> data m j = mem (dst + of_nat j)"
    using assms(5)
    by (auto simp: carries_def bf_msg_get_proto_id_def bf_msg_meta_get_proto_id_def
        size_sendbuf_data_def dst_def)
  have s1: "bf_msg_get_proto_id (srecv_msg s1) = p" "addr_to_migrate (meta (srecv_msg s1)) = a"
    "batch_num (meta (srecv_msg s1)) = of_nat i" "msg_batch_size (meta (srecv_msg s1)) = of_nat 32"
    by (simp_all add: s1_def pl_def received_meta m bf_msg_get_proto_id_def
        bf_msg_meta_get_proto_id_def)
  have last: "last_of_batch s1 \<longleftrightarrow> i = 31"
  proof -
    have "unat (of_nat i :: u32) = i" using assms(4) by (intro unat_of_nat32) simp
    then have "(31 :: u32) = of_nat i \<longleftrightarrow> i = 31"
      by (metis of_nat_numeral unat_numeral_31)
    then show ?thesis by (simp add: s1)
  qed
  have wr: "write_phys dst 1024 (\<lambda>j. pl (size_of_meta + j)) (sphys s)
      = (\<lambda>x. if unat (x - dst) < 1024 then mem x else sphys s x)"
    using m(5) by (auto simp: write_phys_def pl_def msg_bytes_def fun_eq_iff)
  define s2 where "s2 = s1\<lparr>mem_area_num := set_mem_area_num a,
     sphys := (\<lambda>x. if unat (x - dst) < 1024 then mem x else sphys s x)\<rparr>"
  have "smem_ok s1" "i < 2 ^ 20" using assms(2,4) by (simp_all add: s1_def smem_ok_def)
  from store_packet_addr [OF this(1) assms(3) this(2) s1(2,3), of size_sendbuf_data pl]
  have st: "store_packet size_sendbuf_data pl s1 = s2"
    using wr by (simp add: s2_def dst_def size_sendbuf_data_def) (simp add: s1_def)
  have s2: "recv_addr s2 = a" "last_of_batch s2 \<longleftrightarrow> i = 31"
    using s1 last by (simp_all add: s2_def)
  have d: "deliver m s = (case recv_dispatch pl s1 of Inl t \<Rightarrow> t | Inr t \<Rightarrow> t\<lparr>es_p := []\<rparr>)"
    using assms(1)
    by (simp add: deliver_def receiving_def echo_recv_def echo_recv_received_def Let_def pl_def
        s1_def split: sum.split)
  have "recv_req_mem pl s1 = mark_received a (s2\<lparr>ept_recved := True\<rparr>)"
    using s2 by (simp add: recv_req_mem_def st Let_def)
  moreover have "recv_mem pl s1 = (if i = 31 then mark_received a s2 else s2)"
    using s2 by (simp add: recv_mem_def st Let_def)
  ultimately have "recv_dispatch pl s1 = Inr (if p = proto_id_meta_data_req_mem
      then mark_received a (s2\<lparr>ept_recved := True\<rparr>) else if i = 31 then mark_received a s2 else s2)"
    using assms(6) s1(1) by (auto simp: recv_dispatch_def Let_def proto_ids)
  then have dd: "deliver m s = (if p = proto_id_meta_data_req_mem
      then mark_received a (s2\<lparr>ept_recved := True\<rparr>) else if i = 31 then mark_received a s2 else s2)
      \<lparr>es_p := []\<rparr>"
    using d by simp
  have "es_state s2 = ES_RECEIVED" "smem_ok s2" "sbits s2 = sbits s" "ept_recved s2 = ept_recved s"
    "aft_mig_in_mmio s2 = aft_mig_in_mmio s" "sphys s2 = (\<lambda>x. if unat (x - dst) < 1024 then mem x else sphys s x)"
    using assms(1,2) by (simp_all add: s2_def s1_def receiving_def smem_ok_def)
  then show ?thesis
    using assms(6) by (auto simp: dd receiving_def smem_ok_def dst_def proto_ids)
qed

section \<open>A block\<close>

lemma deliver_packets:
  assumes "receiving s" "smem_ok s" "aligned8 a" "carries_block mem a reply ms" "n \<le> 32"
  shows "let t = fold deliver (take n ms) s in receiving t \<and> smem_ok t
     \<and> sphys t = (\<lambda>x. if unat (x - a) < n * 1024 then mem x else sphys s x)
     \<and> sbits t = (if n = 32 then server_set_bitarray a (sbits s) else sbits s)
     \<and> (ept_recved t \<longleftrightarrow> (n = 32 \<and> reply) \<or> ept_recved s)
     \<and> (aft_mig_in_mmio t \<longleftrightarrow> aft_mig_in_mmio s)"
  using assms(5)
proof (induction n)
  case 0
  then show ?case using assms(1,2) by (simp add: Let_def)
next
  case (Suc n)
  define t where "t = fold deliver (take n ms) s"
  have ih: "receiving t" "smem_ok t"
    "sphys t = (\<lambda>x. if unat (x - a) < n * 1024 then mem x else sphys s x)" "sbits t = sbits s"
    "ept_recved t \<longleftrightarrow> ept_recved s" "aft_mig_in_mmio t \<longleftrightarrow> aft_mig_in_mmio s"
    using Suc by (auto simp: t_def Let_def)
  define p where "p = (if n = 31 \<and> reply then proto_id_meta_data_req_mem else proto_id_meta_data_mem)"
  have n: "n < 32" "n < length ms" and c: "carries mem a 32 n p (ms ! n)"
    using Suc.prems assms(4) by (auto simp: carries_block_def p_def)
  have p: "p = proto_id_meta_data_mem \<or> p = proto_id_meta_data_req_mem"
    "p = proto_id_meta_data_req_mem \<longleftrightarrow> n = 31 \<and> reply"
    by (auto simp: p_def proto_ids)
  have step: "fold deliver (take (Suc n) ms) s = deliver (ms ! n) t"
    using n(2) by (simp add: take_Suc_conv_app_nth t_def)
  have split: "(if unat (x - (a + of_nat (n * 1024))) < 1024 then mem x
        else if unat (x - a) < n * 1024 then mem x else sphys s x)
      = (if unat (x - a) < Suc n * 1024 then mem x else sphys s x)" for x
  proof -
    have u: "unat (of_nat (n * 1024) :: u64) = n * 1024" using n(1) by (intro unat_of_nat64) simp
    have e: "x - (a + of_nat (n * 1024)) = (x - a) - of_nat (n * 1024)" by simp
    have "unat (x - (a + of_nat (n * 1024))) < 1024
        \<longleftrightarrow> n * 1024 \<le> unat (x - a) \<and> unat (x - a) < n * 1024 + 1024"
      using unat_diff_in_range [of "of_nat (n * 1024)" 1024 "x - a"] u n(1) unfolding e by simp
    then show ?thesis by auto
  qed
  note d = deliver_packet [OF ih(1,2) assms(3) n(1) c p(1)]
  have "sphys (deliver (ms ! n) t)
      = (\<lambda>x. if unat (x - a) < Suc n * 1024 then mem x else sphys s x)"
    using d ih(3) split by (simp only: fun_eq_iff) simp
  then show ?case
    unfolding step Let_def using d ih p(2) by simp
qed

text \<open>
  C17: Delivered to a connection past its first message, the 32 messages of a block make the
  memory of the destination equal to the source's on the 32 kilobytes of the block and change
  nothing else; the block is marked as received, and the waiting guest is released exactly when
  the last message is a reply.
\<close>

theorem deliver_block:
  assumes "receiving s" and "smem_ok s" and "aligned8 a" and "carries_block mem a reply ms"
  shows "let t = fold deliver ms s in receiving t \<and> smem_ok t
     \<and> (\<forall>x. sphys t x = (if unat (x - a) < 0x8000 then mem x else sphys s x))
     \<and> sbits t = server_set_bitarray a (sbits s)
     \<and> (ept_recved t \<longleftrightarrow> reply \<or> ept_recved s)"
proof -
  have "take 32 ms = ms" using assms(4) by (simp add: carries_block_def)
  then show ?thesis
    using deliver_packets [OF assms, of 32] by (simp add: Let_def)
qed

text \<open>A block as the protocol describes it, for concrete runs.\<close>

definition block_msgs :: "physmem \<Rightarrow> u64 \<Rightarrow> bool \<Rightarrow> bf_msg list" where
  "block_msgs mem a reply = map (\<lambda>b.
     \<lparr>meta = set_batch_size 32 (set_batch_num (of_nat b) (set_addr_to_migrate a (set_proto_id
        (if b = 31 \<and> reply then proto_id_meta_data_req_mem else proto_id_meta_data_mem) (\<lambda>_. 0)))),
      data = (\<lambda>i. mem (a + of_nat (b * 1024) + of_nat i))\<rparr>) [0..<32]"

lemma block_msgs_carries: "carries_block mem a reply (block_msgs mem a reply)"
  by (simp add: carries_block_def carries_def block_msgs_def bf_msg_get_proto_id_def
      bf_msg_meta_get_proto_id_def)

lemma server_start_smem_ok: "smem_ok (server_start mem)"
  by (simp add: smem_ok_def server_start_def echo_accept_def echo_server_init_def Let_def)

definition server_receiving :: "physmem \<Rightarrow> server" where
  "server_receiving mem = (server_start mem)\<lparr>es_state := ES_RECEIVED\<rparr>"

lemma server_receiving_ok [simp]:
  "receiving (server_receiving mem)" "smem_ok (server_receiving mem)"
  "sphys (server_receiving mem) = mem" "sbits (server_receiving mem) = bitarray_zero"
  "ept_recved (server_receiving mem) = False"
  using server_start_smem_ok [of mem]
  by (simp_all add: server_receiving_def receiving_def smem_ok_def)
    (simp_all add: server_start_def echo_accept_def echo_server_init_def server_statics_def Let_def)

lemma deliver_block_witness:
  "sphys (fold deliver (block_msgs (\<lambda>_. 7) 0x100000 True) (server_receiving (\<lambda>_. 0))) 0x100005 = 7"
proof -
  have "aligned8 0x100000" by (simp add: aligned8_def)
  from deliver_block [OF _ _ this block_msgs_carries, of "server_receiving (\<lambda>_. 0)" "\<lambda>_. 7" True]
  show ?thesis by (simp add: Let_def)
qed

text \<open>The pending chain is not looked at while a payload is processed.\<close>

definition chain :: "pbuf list \<Rightarrow> server \<Rightarrow> server" where
  "chain q s = s\<lparr>es_p := q\<rparr>"

lemma chain_store: "store_packet n pl (chain q s) = chain q (store_packet n pl s)"
  by (simp add: store_packet_def chain_def Let_def)

lemma chain_mark: "mark_received a (chain q s) = chain q (mark_received a s)"
  by (simp add: chain_def)

lemma chain_fields [simp]:
  "srecv_msg (chain q s) = srecv_msg s" "ready_found (chain q s) = ready_found s"
  "ready_ret (chain q s) = ready_ret s" "sbits (chain q s) = sbits s"
  "vmem_for_cpu (chain q s) = vmem_for_cpu s" "ready_sent (chain q s) = ready_sent s"
  "test_buf (chain q s) = test_buf s" "sphys (chain q s) = sphys s"
  by (simp_all add: chain_def)

lemma chain_req: "recv_req_mem pl (chain q s) = chain q (recv_req_mem pl s)"
  by (simp add: recv_req_mem_def chain_store Let_def) (simp add: chain_def)

lemma chain_mem: "recv_mem pl (chain q s) = chain q (recv_mem pl s)"
  by (simp add: recv_mem_def chain_store Let_def) (simp add: chain_def)

lemma chain_sp: "recv_mem_sp pl (chain q s) = chain q (recv_mem_sp pl s)"
  by (simp add: recv_mem_sp_def chain_store Let_def) (simp add: chain_def)

lemma chain_buff: "recv_buff_mem pl (chain q s) = map_sum (chain q) (chain q) (recv_buff_mem pl s)"
  by (simp add: recv_buff_mem_def chain_store Let_def) (simp add: chain_def)

lemma chain_cpu: "(chain q s)\<lparr>sphys := f\<rparr> = chain q (s\<lparr>sphys := f\<rparr>)"
  by (simp add: chain_def)

lemma chain_test:
  "(chain q s)\<lparr>test_first := b, test_buf := f\<rparr> = chain q (s\<lparr>test_first := b, test_buf := f\<rparr>)"
  by (simp add: chain_def)

lemma chain_test_end: "(chain q s)\<lparr>test_buf := f\<rparr> = chain q (s\<lparr>test_buf := f\<rparr>)"
  by (simp add: chain_def)

lemma chain_done: "(chain q s)\<lparr>aft_mig_in_mmio := b\<rparr> = chain q (s\<lparr>aft_mig_in_mmio := b\<rparr>)"
  by (simp add: chain_def)

lemma recv_dispatch_chain:
  "recv_dispatch pl (chain q s) = map_sum (chain q) (chain q) (recv_dispatch pl s)"
  unfolding recv_dispatch_def Let_def chain_fields chain_req chain_mem chain_sp chain_buff
  by (simp only: if_distrib [where f = "map_sum (chain q) (chain q)"] map_sum.simps chain_cpu
      chain_test chain_test_end chain_done)

text \<open>
  C24: The message that follows the first one on a connection is lost: the first is kept in
  \<open>es->p\<close> without being looked at, the next is chained behind it, and it is the payload of the
  first that is then processed; the contents of the second message have no effect at all.
\<close>

theorem second_message_lost:
  assumes "es_state s = ES_ACCEPTED"
  shows "let s1 = fst (echo_recv (Some p1) ERR_OK s) in
       s1 = s\<lparr>es_state := ES_RECEIVED, es_p := [p1]\<rparr>
     \<and> (fst (echo_recv (Some p2) ERR_OK s1))\<lparr>es_p := []\<rparr>
       = (fst (echo_recv (Some p1) ERR_OK (s1\<lparr>es_p := []\<rparr>)))\<lparr>es_p := []\<rparr>"
proof -
  define s1 where "s1 = s\<lparr>es_state := ES_RECEIVED, es_p := [p1]\<rparr>"
  have "fst (echo_recv (Some p1) ERR_OK s) = s1"
    using assms by (simp add: echo_recv_def s1_def)
  moreover have "chain [] (fst (echo_recv (Some p2) ERR_OK s1))
       = chain [] (fst (echo_recv (Some p1) ERR_OK (chain [] s1)))"
  proof -
    define u where "u = s1\<lparr>srecv_msg := (srecv_msg s1)
        \<lparr>meta := copy_bytes 0 size_of_meta (payload p1) (meta (srecv_msg s1))\<rparr>\<rparr>"
    have "echo_recv_received p2 s1
        = (case recv_dispatch (payload p1) (chain [p1, p2] u) of
             Inl t \<Rightarrow> (t, - 1) | Inr t \<Rightarrow> (t\<lparr>es_p := []\<rparr>, ERR_OK))"
      by (cases s) (simp add: echo_recv_received_def s1_def u_def Let_def chain_def)
    moreover have "echo_recv_received p1 (chain [] s1)
        = (case recv_dispatch (payload p1) (chain [p1] u) of
             Inl t \<Rightarrow> (t, - 1) | Inr t \<Rightarrow> (t\<lparr>es_p := []\<rparr>, ERR_OK))"
      by (cases s) (simp add: echo_recv_received_def s1_def u_def Let_def chain_def)
    moreover have "chain [] (chain q t) = chain [] t" "chain [] ((chain q t)\<lparr>es_p := []\<rparr>) = chain [] t"
      for q t by (simp_all add: chain_def)
    moreover have "es_state s1 = ES_RECEIVED" "es_state (chain [] s1) = ES_RECEIVED"
      by (simp_all add: s1_def chain_def)
    ultimately show ?thesis
      by (cases "recv_dispatch (payload p1) u") (simp_all add: echo_recv_def recv_dispatch_chain)
  qed
  ultimately show ?thesis by (simp add: s1_def Let_def chain_def)
qed

text \<open>An unknown message, such as the greeting of \<open>echo_client_send\<close>, changes no memory.\<close>

lemma zero_payload_ignored:
  "recv_dispatch (\<lambda>_. 0) (s\<lparr>srecv_msg := r\<lparr>meta := copy_bytes 0 size_of_meta (\<lambda>_. 0) mm\<rparr>\<rparr>)
     = Inr (s\<lparr>srecv_msg := r\<lparr>meta := copy_bytes 0 size_of_meta (\<lambda>_. 0) mm\<rparr>\<rparr>)"
proof -
  have "get_proto_id (copy_bytes 0 size_of_meta (\<lambda>_. 0) mm) = 0"
    unfolding get_proto_id_def load32_def
    by (rule load_le_zero) (simp add: copy_bytes_def size_of_meta_def)
  then show ?thesis
    by (simp add: recv_dispatch_def bf_msg_get_proto_id_def bf_msg_meta_get_proto_id_def proto_ids)
qed

lemma second_message_lost_witness:
  "sphys (fst (echo_recv (Some \<lparr>payload = msg_bytes (block_msgs (\<lambda>_. 7) 0x100000 True ! 0), plen = 1048\<rparr>) ERR_OK
     (fst (echo_recv (Some \<lparr>payload = (\<lambda>_. 0), plen = 1024\<rparr>) ERR_OK (server_start (\<lambda>_. 9))))))
   = (\<lambda>_. 9)"
proof -
  define p1 where "p1 = \<lparr>payload = (\<lambda>_. 0), plen = 1024\<rparr>"
  define p2 where "p2 = \<lparr>payload = msg_bytes (block_msgs (\<lambda>_. 7) 0x100000 True ! 0), plen = 1048\<rparr>"
  define s where "s = server_start (\<lambda>_. 9)"
  have s: "es_state s = ES_ACCEPTED" "sphys s = (\<lambda>_. 9)"
    by (simp_all add: s_def server_start_def echo_accept_def echo_server_init_def server_statics_def
        Let_def)
  define s1 where "s1 = s\<lparr>es_state := ES_RECEIVED, es_p := [p1]\<rparr>"
  note lost = second_message_lost [OF s(1), of p1 p2, unfolded Let_def s1_def [symmetric]]
  note e1 = conjunct1 [OF lost]
  note e2 = conjunct2 [OF lost, unfolded e1]
  have "sphys (fst (echo_recv (Some p2) ERR_OK s1))
      = sphys ((fst (echo_recv (Some p2) ERR_OK s1))\<lparr>es_p := []\<rparr>)" by simp
  also have "\<dots> = sphys (fst (echo_recv (Some p1) ERR_OK (s1\<lparr>es_p := []\<rparr>)))" by (simp add: e2)
  also have "\<dots> = (\<lambda>_. 9)"
    using s by (simp add: echo_recv_def s1_def p1_def echo_recv_received_def Let_def zero_payload_ignored)
  finally show ?thesis by (simp only: e1 [symmetric] p1_def p2_def s_def)
qed

end
