(* ===== verification/Migration.thy ===== *)
theory Migration
  imports Client_Margins Server_Memory
begin

text \<open>
  The two machines together.  A step of a migration is a turn of the background copy, an on-demand
  request or an acknowledgement; what the source enqueues is delivered to the destination's
  receive callback.  The steps are taken in states between two transfers with room for a whole
  block in the send buffer (a fresh buffer holds 62 messages, a block needs 32); transfers cut
  short by a full buffer are the subject of \<open>Client_Reply\<close> and \<open>Batched_Send\<close>.

  The invariant is that every usable byte of a block marked as sent is the same on both machines;
  when the background copy reports the end of the migration it covers every block.
\<close>

section \<open>Delivery\<close>

definition new_packets :: "client \<Rightarrow> client \<Rightarrow> packet list" where
  "new_packets s t = drop (length (outq (pcb s))) (outq (pcb t))"

definition deliver_bytes :: "packet \<Rightarrow> server \<Rightarrow> server" where
  "deliver_bytes pk v = fst (echo_recv (Some \<lparr>payload = fst pk, plen = snd pk\<rparr>) ERR_OK v)"

definition deliver_new :: "client \<Rightarrow> client \<Rightarrow> server \<Rightarrow> server" where
  "deliver_new s t v = fold deliver_bytes (new_packets s t) v"

lemma deliver_new_msgs:
  assumes "outq (pcb t) = outq (pcb s) @ map (\<lambda>m. (msg_bytes m, size_of_msg)) ms"
  shows "deliver_new s t v = fold deliver ms v"
proof -
  have "fold deliver_bytes (map (\<lambda>m. (msg_bytes m, size_of_msg)) ms) v = fold deliver ms v"
    by (induction ms arbitrary: v) (simp_all add: deliver_bytes_def deliver_def)
  then show ?thesis by (simp add: deliver_new_def new_packets_def assms)
qed

section \<open>The steps\<close>

inductive mig_step :: "client \<times> server \<Rightarrow> client \<times> server \<Rightarrow> bool" where
  background: "\<lbrakk>32 \<le> room s; postcopy_seq_task s = Some (t, False)\<rbrakk> \<Longrightarrow>
     mig_step (s, v) (t, deliver_new s t v)"
| on_demand: "\<lbrakk>32 \<le> room s; in_areas g Mem_Layout.usable_mem_list;
      t = fst (request_recv (s\<lparr>requested_addr := g\<rparr>))\<rbrakk> \<Longrightarrow>
     mig_step (s, v) (t, deliver_new s t v)"
| acked: "\<lbrakk>client_acked n s = Some t; link_ok t\<rbrakk> \<Longrightarrow> mig_step (s, v) (t, v)"

inductive_cases mig_stepE: "mig_step (s, v) y"

text \<open>A state between two transfers.\<close>

definition quiet :: "client \<Rightarrow> bool" where
  "quiet s \<longleftrightarrow> link_ok s \<and> vmem_ok s \<and> start_ok s \<and> margin_batch s = 0 \<and> requested_batch s = 0
     \<and> cs_m_type (postcopy_state s) = NO_MARGIN \<and> \<not> is_transmitting s
     \<and> \<not> seq_thread_is_transmitting s
     \<and> sent_cb (pcb s) \<in> {None, Some Margins_sent, Some Postcopy_requested_sent}"

text \<open>Every usable byte of a block marked as sent has arrived.\<close>

definition synced :: "client \<Rightarrow> server \<Rightarrow> bool" where
  "synced s v \<longleftrightarrow> (\<forall>x. in_areas x Mem_Layout.usable_mem_list \<and> get_bitarray (bits s) x \<noteq> 0 \<longrightarrow>
     server_get_bitarray (sbits v) x \<noteq> 0 \<and> sphys v x = phys s x)"

text \<open>Every block the background copy has passed is marked as sent.\<close>

definition swept :: "client \<Rightarrow> bool" where
  "swept s \<longleftrightarrow> (\<forall>c. gran_block c \<and> c < next_start s \<longrightarrow> get_bitarray (bits s) c \<noteq> 0)"

definition mig_inv :: "client \<times> server \<Rightarrow> bool" where
  "mig_inv y \<longleftrightarrow> (case y of (s, v) \<Rightarrow>
     quiet s \<and> receiving v \<and> smem_ok v \<and> synced s v \<and> swept s)"

section \<open>The invariant\<close>

lemma usable_le: "in_areas x Mem_Layout.usable_mem_list \<Longrightarrow> unat x \<le> 0x4767fffff"
  unfolding in_usable_nat by linarith

lemma gran_block_le: "gran_block a \<Longrightarrow> unat a \<le> 0x4767fffff"
  unfolding gran_block_nat by linarith

lemma in_block: "unat a mod 0x8000 = 0 \<Longrightarrow> block_num x = block_num a \<longleftrightarrow> unat (x - a) < 0x8000"
proof -
  assume "unat a mod 0x8000 = 0"
  then obtain q where q: "unat a = 0x8000 * q" by (metis mod_0_imp_dvd dvdE)
  have "q < 562949953421312" using q unat_lt_64 [of a] by simp
  then have "unat a + 0x8000 \<le> 2 ^ 64" using q by simp
  from unat_diff_in_range [OF this, of x]
  have "unat (x - a) < 0x8000 \<longleftrightarrow> 0x8000 * q \<le> unat x \<and> unat x < 0x8000 * q + 0x8000"
    unfolding q .
  moreover have "unat x div 0x8000 = q \<longleftrightarrow> 0x8000 * q \<le> unat x \<and> unat x < 0x8000 * q + 0x8000"
  proof
    assume "unat x div 0x8000 = q"
    then show "0x8000 * q \<le> unat x \<and> unat x < 0x8000 * q + 0x8000"
      using times_div_less_eq_dividend [of "0x8000" "unat x"] dividend_less_times_div [of "0x8000" "unat x"]
      by auto
  next
    assume "0x8000 * q \<le> unat x \<and> unat x < 0x8000 * q + 0x8000"
    then show "unat x div 0x8000 = q" by (intro div_nat_eqI) simp_all
  qed
  ultimately show ?thesis by (simp add: block_num_def q)
qed

text \<open>Delivering the block that has just been marked as sent keeps the machines in step.\<close>

lemma synced_block:
  assumes "synced s v" "receiving v" "smem_ok v"
    and a: "unat a mod 0x8000 = 0" "unat a \<le> 0x4767fffff"
    and ms: "carries_block (phys s) a r ms"
    and t: "bits t = set_bitarray a (bits s)" "phys t = phys s"
  shows "synced t (fold deliver ms v) \<and> receiving (fold deliver ms v) \<and> smem_ok (fold deliver ms v)"
proof -
  have al: "aligned8 a"
  proof -
    obtain q where "unat a = 0x8000 * q" using a(1) by (metis mod_0_imp_dvd dvdE)
    then have "unat a = 8 * (0x1000 * q)" by simp
    then show ?thesis by (simp add: aligned8_def)
  qed
  have tk: "take 32 ms = ms" using ms by (simp add: carries_block_def)
  from deliver_packets [OF assms(2,3) al ms, of 32]
  have d: "receiving (fold deliver ms v)" "smem_ok (fold deliver ms v)"
    "sphys (fold deliver ms v) = (\<lambda>x. if unat (x - a) < 0x8000 then phys s x else sphys v x)"
    "sbits (fold deliver ms v) = server_set_bitarray a (sbits v)"
    by (simp_all add: tk Let_def)
  have "server_get_bitarray (sbits (fold deliver ms v)) x \<noteq> 0 \<and> sphys (fold deliver ms v) x = phys t x"
    if x: "in_areas x Mem_Layout.usable_mem_list" "get_bitarray (bits t) x \<noteq> 0" for x
  proof -
    note ix = usable_indexable [OF a(2)] usable_indexable [OF usable_le [OF x(1)]]
    have "block_num x = block_num a \<or> get_bitarray (bits s) x \<noteq> 0"
      using x(2) unfolding t(1) client_bits.member_insert [OF ix] .
    then show ?thesis
      unfolding d(3,4) t(2) server_bits.member_insert [OF ix]
      using assms(1) x(1) in_block [OF a(1), of x] by (auto simp: synced_def)
  qed
  then show ?thesis using d by (simp add: synced_def)
qed

lemma block_base_gran: "gran_block a \<Longrightarrow> unat a mod 0x8000 = 0"
  by (simp add: gran_block_nat)

lemma base_le: "unat (a AND request_mask) \<le> unat a" "unat (a AND request_mask) mod 0x8000 = 0"
  by (simp_all add: block_base_nat)

lemma gran_mono:
  assumes "gran_block c" "unat a \<le> 0x4767fffff" "get_bitarray b c \<noteq> 0"
  shows "get_bitarray (set_bitarray a b) c \<noteq> 0"
  using client_bits.member_mono [OF usable_indexable [OF assms(2)]
      usable_indexable [OF gran_block_le [OF assms(1)]]] assms(3) by blast

lemma background_inv:
  assumes "mig_inv (s, v)" "32 \<le> room s" "postcopy_seq_task s = Some (t, False)"
  shows "mig_inv (t, deliver_new s t v)"
proof -
  have q: "start_ok s" "vmem_ok s" "link_ok s" "margin_batch s = 0"
    "cs_m_type (postcopy_state s) = NO_MARGIN" "requested_batch s = 0"
    and v: "receiving v" "smem_ok v" "synced s v" "swept s"
    using assms(1) by (auto simp: mig_inv_def quiet_def)
  obtain a ms where a: "start_ok t" "\<not> is_transmitting t" "\<not> seq_thread_is_transmitting t"
    "gran_block a" "next_start s \<le> a"
    "\<forall>c. gran_block c \<and> next_start s \<le> c \<and> c < a \<longrightarrow> get_bitarray (bits s) c \<noteq> 0"
    "outq (pcb t) = outq (pcb s) @ map (\<lambda>m. (msg_bytes m, size_of_msg)) ms"
    "carries_block (phys s) a (requested_addr s = a) ms"
    "bits t = set_bitarray a (bits s)" "\<forall>c. gran_block c \<and> a < c \<longrightarrow> next_start t \<le> c"
    "margin_batch t = 0" "link_ok t" "sent_cb (pcb t) = Some Margins_sent" "frame_of t = frame_of s"
    using postcopy_seq_task_sends [OF q(1-3) assms(2) q(4,5)] assms(3) by fastforce
  have fr: "phys t = phys s" "vmem_ok t" "cs_m_type (postcopy_state t) = NO_MARGIN" "requested_batch t = 0"
    using a(14) q(2,5,6) by (simp_all add: frame_of_def vmem_ok_def)
  have sy: "synced t (fold deliver ms v)" "receiving (fold deliver ms v)" "smem_ok (fold deliver ms v)"
    using synced_block [OF v(3,1,2) block_base_gran [OF a(4)] gran_block_le [OF a(4)] a(8,9) fr(1)]
    by simp_all
  have "get_bitarray (bits t) c \<noteq> 0" if c: "gran_block c" "c < next_start t" for c
  proof (cases "c = a")
    case True
    then show ?thesis
      using client_bits.member_self [OF usable_indexable [OF gran_block_le [OF a(4)]]]
      by (simp add: a(9))
  next
    case False
    then have "c < a" using c a(10) by (metis leD linorder_cases)
    then have "get_bitarray (bits s) c \<noteq> 0"
      using v(4) a(6) c(1) unfolding swept_def by (metis not_le)
    then show ?thesis unfolding a(9) by (rule gran_mono [OF c(1) gran_block_le [OF a(4)]])
  qed
  then have "swept t" by (simp add: swept_def)
  then show ?thesis
    using a fr sy deliver_new_msgs [OF a(7)] by (simp add: mig_inv_def quiet_def)
qed

lemma on_demand_inv:
  assumes "mig_inv (s, v)" "32 \<le> room s" "in_areas g Mem_Layout.usable_mem_list"
    and "t = fst (request_recv (s\<lparr>requested_addr := g\<rparr>))"
  shows "mig_inv (t, deliver_new s t v)"
proof -
  define s1 where "s1 = s\<lparr>requested_addr := g\<rparr>"
  have inv: "quiet s" "receiving v" "smem_ok v" "synced s v" "swept s"
    using assms(1) by (auto simp: mig_inv_def)
  show ?thesis
  proof (cases "get_bitarray (bits s) g = 0")
    case False
    then have "t = count_stat 2 s1" using assms(4) by (simp add: request_recv_def s1_def)
    then have "deliver_new s t v = v" "quiet t" "synced t v" "swept t"
      using inv
      by (simp_all add: deliver_new_def new_packets_def s1_def quiet_def synced_def swept_def
          link_ok_def vmem_ok_def start_ok_def)
    then show ?thesis using inv by (simp add: mig_inv_def)
  next
    case True
    have pre: "link_ok s1" "32 \<le> room s1" "requested_batch s1 = 0" "vmem_ok s1"
      "in_areas (requested_addr s1) Mem_Layout.usable_mem_list"
      "get_bitarray (bits s1) (requested_addr s1) = 0" "\<not> seq_thread_is_transmitting s1"
      using inv(1) assms(2,3) True
      by (simp_all add: s1_def quiet_def link_ok_def room_def vmem_ok_def)
    define a where "a = g AND request_mask"
    obtain ms where ms: "outq (pcb t) = outq (pcb s) @ map (\<lambda>m. (msg_bytes m, size_of_msg)) ms"
      "carries_block (phys s) a True ms" "bits t = set_bitarray a (bits s)" "requested_batch t = 0"
      "link_ok t" "rest_of t = rest_of s" "sent_cb (pcb t) = Some Postcopy_requested_sent"
      using request_recv_sends [OF pre] unfolding assms(4) s1_def a_def
      by (auto simp: rest_of_def)
    have fr: "phys t = phys s" "vmem_ok t" "cs_m_type (postcopy_state t) = NO_MARGIN" "start_ok t"
      "margin_batch t = 0" "\<not> is_transmitting t" "\<not> seq_thread_is_transmitting t"
      "next_start t = next_start s"
      using ms(6) inv(1) by (simp_all add: rest_of_def quiet_def vmem_ok_def start_ok_def)
    have al: "unat a \<le> 0x4767fffff"
      using order_trans [OF base_le(1) usable_le [OF assms(3)]] by (simp add: a_def)
    have sy: "synced t (fold deliver ms v)" "receiving (fold deliver ms v)" "smem_ok (fold deliver ms v)"
      using synced_block [OF inv(4,2,3) base_le(2) al [unfolded a_def] ms(2,3) [unfolded a_def] fr(1)]
      by simp_all
    have "swept t"
      using inv(5) gran_mono [OF _ al] by (simp add: swept_def ms(3) fr(8))
    then show ?thesis
      using fr ms sy deliver_new_msgs [OF ms(1)] by (simp add: mig_inv_def quiet_def)
  qed
qed

lemma acked_inv:
  assumes "mig_inv (s, v)" "client_acked n s = Some t" "link_ok t"
  shows "mig_inv (t, v)"
proof -
  have "sent_cb (pcb s) \<in> {None, Some Margins_sent, Some Postcopy_requested_sent}"
    using assms(1) by (simp add: mig_inv_def quiet_def)
  then have "t = on_pcb (tcp_acked n) s"
    using assms(2) by (auto simp: client_acked_def tcp_acked_def)
  then show ?thesis
    using assms(1,3)
    by (simp add: mig_inv_def quiet_def synced_def swept_def vmem_ok_def start_ok_def tcp_acked_def)
qed

lemma mig_step_inv: "mig_step y z \<Longrightarrow> mig_inv y \<Longrightarrow> mig_inv z"
  by (induction rule: mig_step.induct) (auto intro: background_inv on_demand_inv acked_inv)

lemma mig_reach_inv: "mig_step\<^sup>*\<^sup>* y z \<Longrightarrow> mig_inv y \<Longrightarrow> mig_inv z"
  by (induction rule: rtranclp_induct) (auto intro: mig_step_inv)

text \<open>Concrete starting states: the source after the margins, the destination waiting for blocks.\<close>

definition source_ready :: "physmem \<Rightarrow> client" where
  "source_ready mem = (client_start mem)
     \<lparr>postcopy_state := (postcopy_state (client_start mem))\<lparr>cs_m_type := NO_MARGIN\<rparr>\<rparr>"

lemma source_ready_quiet: "quiet (source_ready mem)"
proof -
  have "link_ok (source_ready mem)" using link_ok_start [of "source_ready mem"]
    by (simp add: source_ready_def)
  moreover have "vmem_ok (source_ready mem)"
    by (rule vmem_ok_start [where mem = mem]) (simp add: source_ready_def)
  ultimately show ?thesis
    by (simp add: quiet_def)
      (simp add: source_ready_def client_start_def echo_client_init_def client_statics_def start_ok_def
        gran_block_zero fresh_pcb_def Let_def)
qed

lemma source_ready_simps [simp]:
  "bits (source_ready mem) = bitarray_zero" "phys (source_ready mem) = mem"
  "next_start (source_ready mem) = 0" "room (source_ready mem) = 62"
  "requested_addr (source_ready mem) = no_addr"
  using link_ok_start [of "source_ready mem"]
  by (simp_all add: source_ready_def)
    (simp_all add: client_start_def echo_client_init_def client_statics_def Let_def)

lemma mig_inv_start: "mig_inv (source_ready mem, server_receiving mem')"
  by (simp add: mig_inv_def source_ready_quiet synced_def swept_def get_bitarray_zero)

section \<open>Properties\<close>

text \<open>
  C1: Along every sequence of background turns, on-demand requests and acknowledgements in which
  every transfer of a block starts with the source idle, its send buffer in step with the messages
  and room in it for the 32 messages of the block, and every message enqueued is delivered, a
  usable address whose block the source has marked as sent is marked as received on the
  destination and holds the source's byte there.  The condition is needed: the source sets the bit
  before it sends, so a block whose transfer a full buffer has cut short is marked and incomplete
  until the transfer is resumed; such transfers are not steps of \<open>mig_step\<close>.
\<close>

theorem migration_memory_in_step:
  assumes "mig_inv (s0, v0)" and "mig_step\<^sup>*\<^sup>* (s0, v0) (s, v)"
    and "in_areas x Mem_Layout.usable_mem_list" and "get_bitarray (bits s) x \<noteq> 0"
  shows "server_get_bitarray (sbits v) x \<noteq> 0 \<and> sphys v x = phys s x"
  using mig_reach_inv [OF assms(2,1)] assms(3,4) by (auto simp: mig_inv_def synced_def)

lemma migration_memory_in_step_witness:
  "let s = source_ready (\<lambda>_. 7); t = fst (request_recv (s\<lparr>requested_addr := 0x123456\<rparr>))
   in sphys (deliver_new s t (server_receiving (\<lambda>_. 0))) 0x123456 = phys t 0x123456"
proof -
  define s where "s = source_ready (\<lambda>_. 7)"
  define v where "v = server_receiving (\<lambda>_. 0)"
  define t where "t = fst (request_recv (s\<lparr>requested_addr := 0x123456\<rparr>))"
  have u: "in_areas 0x123456 Mem_Layout.usable_mem_list" by (simp add: in_usable_nat)
  have inv: "mig_inv (s, v)" by (simp add: s_def v_def mig_inv_start)
  have st: "mig_step (s, v) (t, deliver_new s t v)"
    by (rule mig_step.on_demand [OF _ u t_def]) (simp add: s_def)
  have pre: "link_ok (s\<lparr>requested_addr := 0x123456\<rparr>)" "32 \<le> room (s\<lparr>requested_addr := 0x123456\<rparr>)"
    "requested_batch (s\<lparr>requested_addr := 0x123456\<rparr>) = 0" "vmem_ok (s\<lparr>requested_addr := 0x123456\<rparr>)"
    "\<not> seq_thread_is_transmitting (s\<lparr>requested_addr := 0x123456\<rparr>)"
    using source_ready_quiet [of "\<lambda>_. 7"] source_ready_simps(4) [of "\<lambda>_. 7"]
    by (simp_all add: s_def quiet_def link_ok_def room_def vmem_ok_def)
  have "bits t = set_bitarray (0x123456 AND request_mask) bitarray_zero"
    using request_recv_sends [OF pre(1-4) _ _ pre(5)] u
    by (auto simp: t_def s_def get_bitarray_zero)
  then have "get_bitarray (bits t) 0x123456 \<noteq> 0"
    using client_member_insert [of "0x123456 AND request_mask" "0x123456" bitarray_zero]
    by (simp add: indexable_def block_num_base mig_word_consts block_num_def)
  then show ?thesis
    using migration_memory_in_step [OF inv r_into_rtranclp [where r = mig_step, OF st] u]
    by (simp add: Let_def s_def t_def v_def)
qed

text \<open>The block of an address of the table is a block of the walk.\<close>

lemma gran_base:
  assumes "in_areas x usable_mem_list_gran"
  shows "gran_block (x AND request_mask)"
proof -
  define q where "q = unat x div 0x8000"
  have b: "unat (x AND request_mask) = 0x8000 * q" "0x8000 * q \<le> unat x" "unat x < 0x8000 * q + 0x8000"
    unfolding block_base_nat q_def by (simp_all add: dividend_less_times_div)
  have "gran_num q"
    using assms b(2,3) unfolding in_gran_nat gran_num_def by (elim disjE conjE) simp_all
  with b(1) show ?thesis unfolding gran_block_num by blast
qed

lemma gran_usable: "in_areas x usable_mem_list_gran \<Longrightarrow> in_areas x Mem_Layout.usable_mem_list"
  unfolding in_usable_nat in_gran_nat by (elim disjE conjE) simp_all

text \<open>
  C2: When, after any sequence of background turns, on-demand requests and acknowledgements in
  which every transfer of a block started with the source idle, its send buffer in step with the
  messages and room in it for the 32 messages of the block, the background copy reports the end of
  the migration (again with room for 32 messages), every address of the block table holds the
  source's byte on the destination and is marked as received.
\<close>

theorem migration_complete:
  assumes "mig_inv (s0, v0)" and "mig_step\<^sup>*\<^sup>* (s0, v0) (s, v)"
    and "32 \<le> room s" and "postcopy_seq_task s = Some (t, True)"
    and "in_areas x usable_mem_list_gran"
  shows "sphys v x = phys s x \<and> server_get_bitarray (sbits v) x \<noteq> 0"
proof -
  have inv: "mig_inv (s, v)" by (rule mig_reach_inv [OF assms(2,1)])
  then have q: "start_ok s" "vmem_ok s" "link_ok s" "margin_batch s = 0"
    "cs_m_type (postcopy_state s) = NO_MARGIN" and sw: "synced s v" "swept s"
    by (auto simp: mig_inv_def quiet_def)
  have "\<forall>c. gran_block c \<and> next_start s \<le> c \<longrightarrow> get_bitarray (bits s) c \<noteq> 0"
    using postcopy_seq_task_sends [OF q(1-3) assms(3) q(4,5)] assms(4) by fastforce
  then have "get_bitarray (bits s) (x AND request_mask) \<noteq> 0"
    using gran_base [OF assms(5)] sw(2) unfolding swept_def by (metis not_le)
  then have "get_bitarray (bits s) x \<noteq> 0"
    unfolding get_bitarray_bit block_num_base .
  then show ?thesis using sw(1) gran_usable [OF assms(5)] by (auto simp: synced_def)
qed

text \<open>
  A last part of a migration: block 0 is the only one not sent.  A background turn sends it, the
  acknowledgement of its messages frees the send buffer, and the next turn reports the end.
\<close>

definition last_bits :: bitarray where
  "last_bits i = (if i = 0 then NOT 1 else - 1)"

lemma last_bits_bit: "bit (last_bits (n div 64)) (n mod 64) \<longleftrightarrow> n \<noteq> 0"
  by (cases "n div 64 = 0") (auto simp: last_bits_def bit_simps)

lemma last_turn_runs:
  assumes "mig_inv (s, v)" and "32 \<le> room s"
    and bits: "\<And>c. get_bitarray (bits s) c \<noteq> 0 \<longleftrightarrow> block_num c \<noteq> 0"
    and "next_start s = 0"
  shows "\<exists>t t' u. postcopy_seq_task s = Some (t, False)
     \<and> mig_step\<^sup>*\<^sup>* (s, v) (t', deliver_new s t v) \<and> 32 \<le> room t'
     \<and> postcopy_seq_task t' = Some (u, True) \<and> get_bitarray (bits t) 0 \<noteq> 0
     \<and> phys t' = phys s"
proof -
  have q: "start_ok s" "vmem_ok s" "link_ok s" "margin_batch s = 0"
    "cs_m_type (postcopy_state s) = NO_MARGIN"
    using assms(1) by (auto simp: mig_inv_def quiet_def)
  obtain t e where t: "postcopy_seq_task s = Some (t, e)"
    "e \<Longrightarrow> \<forall>c. gran_block c \<and> next_start s \<le> c \<longrightarrow> get_bitarray (bits s) c \<noteq> 0"
    "\<not> e \<Longrightarrow> \<exists>a. gran_block a \<and> get_bitarray (bits s) a = 0 \<and> bits t = set_bitarray a (bits s)
       \<and> link_ok t \<and> frame_of t = frame_of s \<and> sent_cb (pcb t) = Some Margins_sent"
    using postcopy_seq_task_sends [OF q(1-3) assms(2) q(4,5)] by (fastforce split: if_splits)
  have z: "get_bitarray (bits s) 0 = 0" using bits [of 0] by (simp add: block_num_def)
  then have e: "\<not> e" using t(2) gran_block_zero by (auto simp: assms(4))
  then obtain a where a: "gran_block a" "get_bitarray (bits s) a = 0" "bits t = set_bitarray a (bits s)"
    "link_ok t" "frame_of t = frame_of s" "sent_cb (pcb t) = Some Margins_sent"
    using t(3) by blast
  have b: "get_bitarray (bits t) c \<noteq> 0" if "gran_block c" for c
  proof -
    have ix: "indexable a" "indexable c"
      using usable_indexable gran_block_le a(1) that by blast+
    show ?thesis
      using client_bits.member_insert [OF ix, of "bits s"] bits [of a] bits [of c] a(2)
      by (auto simp: a(3))
  qed
  have st: "mig_step (s, v) (t, deliver_new s t v)"
    using t(1) e by (auto intro: mig_step.background [OF assms(2)])
  have it: "mig_inv (t, deliver_new s t v)" by (rule mig_step_inv [OF st assms(1)])
  define n where "n = 0xFFFF - snd_buf (pcb t)"
  define t' where "t' = on_pcb (tcp_acked n) t"
  have ack: "client_acked n t = Some t'"
    using a(6) by (simp add: client_acked_def t'_def tcp_acked_def)
  have p: "link_ok t'" "32 \<le> room t'"
    using a(4) by (simp_all add: t'_def n_def tcp_acked_def link_ok_def tcp_open_def in_step_def
        room_def msg_sizes)
  have st': "mig_step (t, deliver_new s t v) (t', deliver_new s t v)"
    by (rule mig_step.acked [OF ack p(1)])
  have "mig_inv (t', deliver_new s t v)" by (rule mig_step_inv [OF st' it])
  then have q': "start_ok t'" "vmem_ok t'" "link_ok t'" "margin_batch t' = 0"
    "cs_m_type (postcopy_state t') = NO_MARGIN"
    by (auto simp: mig_inv_def quiet_def)
  have same: "bits t' = bits t" "phys t' = phys s"
    using a(5) by (simp_all add: t'_def frame_of_def)
  obtain u where "postcopy_seq_task t' = Some (u, True)"
    using postcopy_seq_task_sends [OF q'(1-3) p(2) q'(4,5)] b
    by (fastforce simp: same(1) split: if_splits)
  moreover have "mig_step\<^sup>*\<^sup>* (s, v) (t', deliver_new s t v)"
    using st st' by (meson converse_rtranclp_into_rtranclp rtranclp.rtrancl_refl)
  moreover have "postcopy_seq_task s = Some (t, False)" using t(1) e by simp
  ultimately show ?thesis using p(2) b [OF gran_block_zero] same(2) by blast
qed

lemma migration_complete_witness:
  "\<exists>s v t' v' u. get_bitarray (bits s) 0x1234 = 0 \<and> sphys v 0x1234 = 0
     \<and> mig_step\<^sup>*\<^sup>* (s, v) (t', v') \<and> postcopy_seq_task t' = Some (u, True) \<and> sphys v' 0x1234 = 7"
proof -
  define s where "s = (source_ready (\<lambda>_. 7))\<lparr>bits := last_bits\<rparr>"
  define v where "v = (server_receiving (\<lambda>x. if unat x < 0x8000 then 0 else 7))\<lparr>sbits := last_bits\<rparr>"
  have bt: "get_bitarray (bits s) c \<noteq> 0 \<longleftrightarrow> block_num c \<noteq> 0" for c
    unfolding get_bitarray_bit by (simp add: s_def last_bits_bit)
  have "quiet s"
    using source_ready_quiet [of "\<lambda>_. 7"]
    by (simp add: s_def quiet_def link_ok_def vmem_ok_def start_ok_def)
  moreover have "synced s v"
    unfolding synced_def
  proof (intro allI impI)
    fix x
    assume x: "in_areas x Mem_Layout.usable_mem_list \<and> get_bitarray (bits s) x \<noteq> 0"
    then have nz: "block_num x \<noteq> 0" using bt by blast
    then have "\<not> unat x < 0x8000" by (simp add: block_num_def)
    then have "sphys v x = 7" by (simp add: v_def)
    moreover have "server_get_bitarray (sbits v) x \<noteq> 0"
      unfolding server_get_bitarray_bit [OF usable_indexable [OF usable_le [OF conjunct1 [OF x]]]]
      using nz by (simp add: v_def last_bits_bit)
    ultimately show "server_get_bitarray (sbits v) x \<noteq> 0 \<and> sphys v x = phys s x"
      by (simp add: s_def)
  qed
  moreover have "receiving v" "smem_ok v"
    using server_receiving_ok(1,2) [of "\<lambda>x. if unat x < 0x8000 then 0 else 7"]
    by (simp_all add: v_def receiving_def smem_ok_def)
  moreover have "swept s" by (simp add: swept_def s_def)
  ultimately have inv: "mig_inv (s, v)" by (simp add: mig_inv_def)
  have r: "32 \<le> room s" using source_ready_simps(4) [of "\<lambda>_. 7"] by (simp add: s_def room_def)
  have ns: "next_start s = 0" by (simp add: s_def)
  obtain t t' u where t: "mig_step\<^sup>*\<^sup>* (s, v) (t', deliver_new s t v)" "32 \<le> room t'"
    "postcopy_seq_task t' = Some (u, True)" "phys t' = phys s"
    using last_turn_runs [OF inv r bt ns] by blast
  have "in_areas 0x1234 usable_mem_list_gran" by (simp add: in_gran_nat)
  then have "sphys (deliver_new s t v) 0x1234 = 7"
    using migration_complete [OF inv t(1-3)] t(4) by (simp add: s_def)
  moreover have "get_bitarray (bits s) 0x1234 = 0" "sphys v 0x1234 = 0"
    using bt [of "0x1234"] by (simp_all add: block_num_def v_def)
  ultimately show ?thesis using t(1,3) by blast
qed

text \<open>
  C10: With room for a block, a turn of the background copy always returns, and either reports the
  end or leaves strictly fewer blocks ahead of it: the background copy comes to its end after at
  most as many turns as the table has blocks.
\<close>

theorem background_progress:
  assumes "mig_inv (s, v)" and "32 \<le> room s"
  shows "\<exists>t done. postcopy_seq_task s = Some (t, done) \<and> (done \<or>
     card {c. gran_block c \<and> next_start t \<le> c} < card {c. gran_block c \<and> next_start s \<le> c})"
proof -
  have q: "start_ok s" "vmem_ok s" "link_ok s" "margin_batch s = 0"
    "cs_m_type (postcopy_state s) = NO_MARGIN"
    using assms(1) by (auto simp: mig_inv_def quiet_def)
  obtain t e where t: "postcopy_seq_task s = Some (t, e)"
    "\<not> e \<Longrightarrow> \<exists>a. gran_block a \<and> next_start s \<le> a \<and> a < next_start t"
    using postcopy_seq_task_sends [OF q(1-3) assms(2) q(4,5)] by (fastforce split: if_splits)
  have "card {c. gran_block c \<and> next_start t \<le> c} < card {c. gran_block c \<and> next_start s \<le> c}"
    if "gran_block a" "next_start s \<le> a" "a < next_start t" for a
  proof (rule psubset_card_mono)
    have "a \<in> {c. gran_block c \<and> next_start s \<le> c}" "a \<notin> {c. gran_block c \<and> next_start t \<le> c}"
      using that by auto
    moreover have "{c. gran_block c \<and> next_start t \<le> c} \<subseteq> {c. gran_block c \<and> next_start s \<le> c}"
      using that by auto
    ultimately show "{c. gran_block c \<and> next_start t \<le> c} \<subset> {c. gran_block c \<and> next_start s \<le> c}"
      by blast
  qed simp
  then show ?thesis using t by blast
qed

lemma background_progress_witness:
  "\<exists>t done. postcopy_seq_task (source_ready (\<lambda>_. 7)) = Some (t, done)"
  using background_progress [of "source_ready (\<lambda>_. 7)" "server_receiving (\<lambda>_. 0)"] mig_inv_start
  by auto

text \<open>The requests and their effect, block by block.\<close>

lemma request_served:
  assumes "quiet s" "32 \<le> room s" "in_areas g Mem_Layout.usable_mem_list"
    and "get_bitarray (bits s) g = 0" "receiving v" "smem_ok v"
    and "t = fst (request_recv (s\<lparr>requested_addr := g\<rparr>))"
  shows "ept_recved (deliver_new s t v)"
proof -
  have pre: "link_ok (s\<lparr>requested_addr := g\<rparr>)" "32 \<le> room (s\<lparr>requested_addr := g\<rparr>)"
    "requested_batch (s\<lparr>requested_addr := g\<rparr>) = 0" "vmem_ok (s\<lparr>requested_addr := g\<rparr>)"
    "in_areas (requested_addr (s\<lparr>requested_addr := g\<rparr>)) Mem_Layout.usable_mem_list"
    "get_bitarray (bits (s\<lparr>requested_addr := g\<rparr>)) (requested_addr (s\<lparr>requested_addr := g\<rparr>)) = 0"
    "\<not> seq_thread_is_transmitting (s\<lparr>requested_addr := g\<rparr>)"
    using assms(1-4) by (simp_all add: quiet_def link_ok_def room_def vmem_ok_def)
  obtain ms where ms: "outq (pcb t) = outq (pcb s) @ map (\<lambda>m. (msg_bytes m, size_of_msg)) ms"
    "carries_block (phys s) (g AND request_mask) True ms"
    using request_recv_sends [OF pre] unfolding assms(7) by auto
  have "take 32 ms = ms" using ms(2) by (simp add: carries_block_def)
  then show ?thesis
    using deliver_packets [OF assms(5,6) aligned8_block_base ms(2), of 32] deliver_new_msgs [OF ms(1)]
    by (simp add: Let_def)
qed

lemma request_bit:
  assumes "quiet s" "32 \<le> room s" "in_areas g Mem_Layout.usable_mem_list"
    and "get_bitarray (bits s) g = 0" and "t = fst (request_recv (s\<lparr>requested_addr := g\<rparr>))"
  shows "get_bitarray (bits t) g \<noteq> 0 \<and> phys t = phys s"
proof -
  have pre: "link_ok (s\<lparr>requested_addr := g\<rparr>)" "32 \<le> room (s\<lparr>requested_addr := g\<rparr>)"
    "requested_batch (s\<lparr>requested_addr := g\<rparr>) = 0" "vmem_ok (s\<lparr>requested_addr := g\<rparr>)"
    "in_areas (requested_addr (s\<lparr>requested_addr := g\<rparr>)) Mem_Layout.usable_mem_list"
    "get_bitarray (bits (s\<lparr>requested_addr := g\<rparr>)) (requested_addr (s\<lparr>requested_addr := g\<rparr>)) = 0"
    "\<not> seq_thread_is_transmitting (s\<lparr>requested_addr := g\<rparr>)"
    using assms(1-4) by (simp_all add: quiet_def link_ok_def room_def vmem_ok_def)
  have b: "bits t = set_bitarray (g AND request_mask) (bits s)" "phys t = phys s"
    using request_recv_sends [OF pre] unfolding assms(5) by (auto simp: rest_of_def)
  have "unat (g AND request_mask) \<le> 0x4767fffff"
    using order_trans [OF base_le(1) usable_le [OF assms(3)]] .
  from client_bits.member_insert [OF usable_indexable [OF this] usable_indexable [OF usable_le [OF assms(3)]]]
  show ?thesis using b by (simp add: block_num_base)
qed

text \<open>
  C7: The destination's request for a usable address whose block has not been sent, received by
  a source that is between two transfers (idle, its send buffer in step with the messages) and has
  room for the 32 messages of a block, is served: after the reply is delivered the waiting guest
  is released, the block is marked as received and the address holds the source's byte.
\<close>

theorem on_demand_served:
  assumes "mig_inv (s, v)" and "32 \<le> room s" and "in_areas g Mem_Layout.usable_mem_list"
    and "get_bitarray (bits s) g = 0"
  shows "let t = fst (request_recv (s\<lparr>requested_addr := g\<rparr>)); v' = deliver_new s t v
     in ept_recved v' \<and> server_get_bitarray (sbits v') g \<noteq> 0 \<and> sphys v' g = phys s g
      \<and> get_bitarray (bits t) g \<noteq> 0"
proof -
  define t where "t = fst (request_recv (s\<lparr>requested_addr := g\<rparr>))"
  have inv: "quiet s" "receiving v" "smem_ok v" using assms(1) by (auto simp: mig_inv_def)
  have "synced t (deliver_new s t v)"
    using on_demand_inv [OF assms(1-3) t_def] by (simp add: mig_inv_def)
  then show ?thesis
    using request_bit [OF inv(1) assms(2-4) t_def] request_served [OF inv(1) assms(2-4) inv(2,3) t_def]
      assms(3)
    by (simp add: Let_def t_def [symmetric] synced_def)
qed

lemma on_demand_served_witness:
  "ept_recved (deliver_new (source_ready (\<lambda>_. 7))
     (fst (request_recv ((source_ready (\<lambda>_. 7))\<lparr>requested_addr := 0x123456\<rparr>))) (server_receiving (\<lambda>_. 0)))"
  using on_demand_served [OF mig_inv_start [of "\<lambda>_. 7" "\<lambda>_. 0"], of "0x123456"]
  by (simp add: Let_def in_usable_nat get_bitarray_zero)

text \<open>
  C23: A request that crosses the background copy of the same block is never answered.  In a turn
  of the background copy, taken with the source between two transfers and with room for the 32
  messages of a block, once a block is chosen every request for an address of it is ignored by the
  source; the arrival of the block marks it as received and brings its bytes, but releases the
  guest only when the last request before the turn happens to name exactly the block's first
  address, which is not the request that crossed.
\<close>

theorem crossing_request_unanswered:
  assumes "mig_inv (s, v)" and "32 \<le> room s" and "postcopy_seq_task s = Some (t, False)"
    and "\<not> ept_recved v"
  shows "\<exists>a. gran_block a \<and> get_bitarray (bits s) a = 0 \<and> (\<forall>g. g AND request_mask = a \<longrightarrow>
      (let t' = fst (request_recv (t\<lparr>requested_addr := g\<rparr>)); v' = deliver_new s t' v
       in outq (pcb t') = outq (pcb t) \<and> server_get_bitarray (sbits v') g \<noteq> 0
        \<and> sphys v' g = phys s g \<and> (ept_recved v' \<longleftrightarrow> requested_addr s = a)))"
proof -
  have q: "start_ok s" "vmem_ok s" "link_ok s" "margin_batch s = 0"
    "cs_m_type (postcopy_state s) = NO_MARGIN"
    and v: "receiving v" "smem_ok v"
    using assms(1) by (auto simp: mig_inv_def quiet_def)
  obtain a ms where a: "gran_block a" "get_bitarray (bits s) a = 0"
    "outq (pcb t) = outq (pcb s) @ map (\<lambda>m. (msg_bytes m, size_of_msg)) ms"
    "carries_block (phys s) a (requested_addr s = a) ms" "bits t = set_bitarray a (bits s)"
    using postcopy_seq_task_sends [OF q(1-3) assms(2) q(4,5)] assms(3) by fastforce
  have ix: "indexable a" using usable_indexable [OF gran_block_le [OF a(1)]] .
  have al: "aligned8 a"
  proof -
    obtain k where "unat a = 0x8000 * k" using block_base_gran [OF a(1)] by (metis mod_0_imp_dvd dvdE)
    then have "unat a = 8 * (0x1000 * k)" by simp
    then show ?thesis by (simp add: aligned8_def)
  qed
  have tk: "take 32 ms = ms" using a(4) by (simp add: carries_block_def)
  have d: "sbits (fold deliver ms v) = server_set_bitarray a (sbits v)"
    "ept_recved (fold deliver ms v) \<longleftrightarrow> requested_addr s = a"
    "sphys (fold deliver ms v) = (\<lambda>x. if unat (x - a) < 0x8000 then phys s x else sphys v x)"
    using deliver_packets [OF v al a(4), of 32] assms(4) by (simp_all add: tk Let_def)
  have "let t' = fst (request_recv (t\<lparr>requested_addr := g\<rparr>)); v' = deliver_new s t' v
       in outq (pcb t') = outq (pcb t) \<and> server_get_bitarray (sbits v') g \<noteq> 0
        \<and> sphys v' g = phys s g \<and> (ept_recved v' \<longleftrightarrow> requested_addr s = a)"
    if g: "g AND request_mask = a" for g
  proof -
    have bn: "block_num g = block_num a" using g block_num_base [of g] by simp
    then have "get_bitarray (bits t) g \<noteq> 0"
      using client_bits.member_self [OF ix, of "bits s"] a(5)
      unfolding get_bitarray_bit by simp
    have "unat g div 0x8000 = unat a div 0x8000" using bn by (simp add: block_num_def)
    then have "unat g < unat a + 0x8000"
      using dividend_less_times_div [of "0x8000" "unat g"]
        times_div_less_eq_dividend [of "0x8000" "unat a"] by linarith
    then have "indexable g"
      using gran_block_le [OF a(1)] by (simp add: indexable_def)
    have "fst (request_recv (t\<lparr>requested_addr := g\<rparr>)) = count_stat 2 (t\<lparr>requested_addr := g\<rparr>)"
      using \<open>get_bitarray (bits t) g \<noteq> 0\<close> by (simp add: request_recv_def)
    moreover have "deliver_new s (count_stat 2 (t\<lparr>requested_addr := g\<rparr>)) v = fold deliver ms v"
      using a(3) by (intro deliver_new_msgs) simp
    moreover have "server_get_bitarray (server_set_bitarray a (sbits v)) g \<noteq> 0"
      using server_bits.member_insert [OF ix \<open>indexable g\<close>, of "sbits v"] bn by simp
    moreover have "unat (g - a) < 0x8000"
      using in_block [OF block_base_gran [OF a(1)], of g] bn by simp
    ultimately show ?thesis using d by (simp add: Let_def)
  qed
  then show ?thesis using a(1,2) by blast
qed

lemma crossing_request_unanswered_witness:
  "\<exists>t a. postcopy_seq_task (source_ready (\<lambda>_. 7)) = Some (t, False) \<and> gran_block a
     \<and> (let t' = fst (request_recv (t\<lparr>requested_addr := a\<rparr>))
        in outq (pcb t') = outq (pcb t)
         \<and> \<not> ept_recved (deliver_new (source_ready (\<lambda>_. 7)) t' (server_receiving (\<lambda>_. 0))))"
proof -
  define s where "s = source_ready (\<lambda>_. 7)"
  define v where "v = server_receiving (\<lambda>_. 0)"
  have inv: "mig_inv (s, v)" by (simp add: s_def v_def mig_inv_start)
  have q: "start_ok s" "vmem_ok s" "link_ok s" "margin_batch s = 0"
    "cs_m_type (postcopy_state s) = NO_MARGIN"
    using inv by (auto simp: mig_inv_def quiet_def)
  have r: "32 \<le> room s" by (simp add: s_def)
  obtain t e where t: "postcopy_seq_task s = Some (t, e)"
    "e \<Longrightarrow> \<forall>c. gran_block c \<and> next_start s \<le> c \<longrightarrow> get_bitarray (bits s) c \<noteq> 0"
    using postcopy_seq_task_sends [OF q(1-3) r q(4,5)] by (fastforce split: if_splits)
  have "\<not> e" using t(2) gran_block_zero by (auto simp: s_def get_bitarray_zero)
  with t(1) have task: "postcopy_seq_task s = Some (t, False)" by simp
  have nr: "\<not> ept_recved v" by (simp add: v_def)
  from crossing_request_unanswered [OF inv r task nr] obtain a where a: "gran_block a"
    "\<And>g. g AND request_mask = a \<Longrightarrow>
       (let t' = fst (request_recv (t\<lparr>requested_addr := g\<rparr>))
        in outq (pcb t') = outq (pcb t)
         \<and> (ept_recved (deliver_new s t' v) \<longleftrightarrow> requested_addr s = a))"
    unfolding Let_def by blast
  have na: "requested_addr s \<noteq> a"
    using a(1) by (auto simp: s_def gran_block_def no_addr_def mig_word_consts)
  have "a AND request_mask = a"
    using block_base_gran [OF a(1)] block_base_nat [of a]
    by (intro unat_eqI) (metis dvd_div_mult_self mod_0_imp_dvd)
  with a na task show ?thesis unfolding s_def v_def Let_def by blast
qed

end
