(* ===== verification/Cache.thy ===== *)
theory Cache
  imports Bv_Prelude
begin

text \<open>
  Memory types, \<open>core/cache.c\<close>: the type the MTRRs give to a physical address, the guest's
  virtual PAT and MTRRs and the MSR accesses that reach them, the combination with the page
  attributes, and the attributes of the VMM's own PAT that realise a type.  The build has
  \<open>CPU_MMU_SPT_DISABLE\<close> off, so the emulating half of the file is the one modelled.  Arrays are
  functions from the index; a \<open>bool\<close> result that means \<open>#GP\<close> when true is \<open>None\<close> here.
\<close>

abbreviation CACHE_TYPE_UC :: u8 where "CACHE_TYPE_UC \<equiv> 0"
abbreviation CACHE_TYPE_WC :: u8 where "CACHE_TYPE_WC \<equiv> 1"
abbreviation CACHE_TYPE_WT :: u8 where "CACHE_TYPE_WT \<equiv> 4"
abbreviation CACHE_TYPE_WP :: u8 where "CACHE_TYPE_WP \<equiv> 5"
abbreviation CACHE_TYPE_WB :: u8 where "CACHE_TYPE_WB \<equiv> 6"
abbreviation CACHE_TYPE_UC_MINUS :: u8 where "CACHE_TYPE_UC_MINUS \<equiv> 7"

abbreviation MSR_IA32_MTRR_PHYSBASE0 :: u64 where "MSR_IA32_MTRR_PHYSBASE0 \<equiv> 0x200"
abbreviation MSR_IA32_MTRR_FIX64K_00000 :: u64 where "MSR_IA32_MTRR_FIX64K_00000 \<equiv> 0x250"
abbreviation MSR_IA32_MTRR_FIX4K_F8000 :: u64 where "MSR_IA32_MTRR_FIX4K_F8000 \<equiv> 0x26F"
abbreviation MSR_IA32_MTRR_DEF_TYPE :: u64 where "MSR_IA32_MTRR_DEF_TYPE \<equiv> 0x2FF"
abbreviation MSR_AMD_SYSCFG :: u64 where "MSR_AMD_SYSCFG \<equiv> 0xC0010010"
abbreviation MSR_AMD_TOP_MEM2 :: u64 where "MSR_AMD_TOP_MEM2 \<equiv> 0xC001001D"

abbreviation DEF_TYPE_E_BIT :: u64 where "DEF_TYPE_E_BIT \<equiv> 0x800"
abbreviation DEF_TYPE_FE_BIT :: u64 where "DEF_TYPE_FE_BIT \<equiv> 0x400"
abbreviation PHYSMASK0_V_BIT :: u64 where "PHYSMASK0_V_BIT \<equiv> 0x800"
abbreviation PHYSMASK_MASK :: u64 where "PHYSMASK_MASK \<equiv> 0xFFFFFFFFFF000"
abbreviation SYSCFG_TOM2FORCEMEMTYPEWB_BIT :: u64 where "SYSCFG_TOM2FORCEMEMTYPEWB_BIT \<equiv> 0x400000"
abbreviation SYSCFG_MTRRTOM2EN_BIT :: u64 where "SYSCFG_MTRRTOM2EN_BIT \<equiv> 0x200000"
abbreviation TOP_MEM2_ADDR_MASK :: u64 where "TOP_MEM2_ADDR_MASK \<equiv> 0xFFFFFFF800000"
abbreviation MTRRCAP_VCNT_MASK :: u64 where "MTRRCAP_VCNT_MASK \<equiv> 0xFF"
abbreviation MTRRCAP_FIX_BIT :: u64 where "MTRRCAP_FIX_BIT \<equiv> 0x100"
abbreviation MTRRCAP_WC_BIT :: u64 where "MTRRCAP_WC_BIT \<equiv> 0x400"

definition gmtrr_vcnt :: nat where "gmtrr_vcnt = 10"
definition num_mtrr_fix :: nat where "num_mtrr_fix = 11"

record cache_regs =
  pat_data :: "nat \<Rightarrow> u8"
  mtrr_def_type :: u64
  mtrr_physbase :: "nat \<Rightarrow> u64"
  mtrr_physmask :: "nat \<Rightarrow> u64"
  mtrr_fix :: "nat \<Rightarrow> u64"
  syscfg :: u64
  top_mem2 :: u64

record cache_pcpu_data =
  has_pat :: bool
  has_mtrr :: bool
  syscfg_exist :: bool
  mtrrcap :: u64
  pat_index_from_type :: "u8 \<Rightarrow> u8"
  h :: cache_regs

record cache_data =
  g :: cache_regs
  pass_mtrrfix :: bool

text \<open>The state the file works on: the processor's data, the virtual machine's, and the MSRs.\<close>

record cache_state =
  pcpu :: cache_pcpu_data
  vm :: cache_data
  hw_msr :: "u64 \<Rightarrow> u64"
  hw_msr_gp :: "u64 \<Rightarrow> bool" \<comment> \<open>an access raises an exception\<close>

abbreviation on_g :: "(cache_regs \<Rightarrow> cache_regs) \<Rightarrow> cache_state \<Rightarrow> cache_state" where
  "on_g f s \<equiv> s\<lparr>vm := (vm s)\<lparr>g := f (g (vm s))\<rparr>\<rparr>"

definition pat_default :: "nat \<Rightarrow> u8" where
  "pat_default i = [CACHE_TYPE_WB, CACHE_TYPE_WT, CACHE_TYPE_UC_MINUS, CACHE_TYPE_UC,
     CACHE_TYPE_WB, CACHE_TYPE_WT, CACHE_TYPE_UC_MINUS, CACHE_TYPE_UC] ! i"

definition mtrr_fix_msr :: "u64 list" where
  "mtrr_fix_msr = [0x268, 0x269, 0x26A, 0x26B, 0x26C, 0x26D, 0x26E, 0x26F, 0x258, 0x259, 0x250]"

text \<open>The byte view of the union \<open>mtrr_fix\<close>.\<close>

definition mtrr_fix_byte :: "cache_regs \<Rightarrow> nat \<Rightarrow> u8" where
  "mtrr_fix_byte c i = ucast (drop_bit (8 * (i mod 8)) (mtrr_fix c (i div 8)))"

section \<open>The type of an address\<close>

text \<open>The loop over the variable ranges: \<open>Inl\<close> is its early return.\<close>

fun mtrr_scan :: "cache_regs \<Rightarrow> u64 \<Rightarrow> nat list \<Rightarrow> u8 \<Rightarrow> u8 + u8" where
  "mtrr_scan c phys [] type = Inr type"
| "mtrr_scan c phys (i # is) type =
     (let mask = mtrr_physmask c i in
      if mask AND PHYSMASK0_V_BIT = 0 then mtrr_scan c phys is type
      else
        let base = mtrr_physbase c i;
            mask = mask AND PHYSMASK_MASK;
            maskbase = mask AND base;
            masktarget = mask AND phys;
            basetype = ucast (base AND 0xFF) :: u8
        in if maskbase = masktarget then
             (if basetype = CACHE_TYPE_UC then Inl CACHE_TYPE_UC
              else if basetype = CACHE_TYPE_WT then mtrr_scan c phys is CACHE_TYPE_WT
              else mtrr_scan c phys is (if type = CACHE_TYPE_UC_MINUS then basetype else type))
           else mtrr_scan c phys is type)"

definition mtrr_fix_index :: "u64 \<Rightarrow> nat" where
  "mtrr_fix_index phys =
     (if phys AND 0x80000 \<noteq> 0 then
        if phys AND 0x40000 \<noteq> 0 then unat (drop_bit 12 (phys AND 0x3F000))
        else 64 + unat (drop_bit 14 (phys AND 0x3C000))
      else 80 + unat (drop_bit 16 (phys AND 0x70000)))"

definition get_mtrr_type :: "u64 \<Rightarrow> cache_regs \<Rightarrow> bool \<Rightarrow> u8" where
  "get_mtrr_type phys c pass =
     (if mtrr_def_type c AND DEF_TYPE_E_BIT = 0 then CACHE_TYPE_UC
      else if mtrr_def_type c AND DEF_TYPE_FE_BIT \<noteq> 0 \<and> phys \<le> 0xFFFFF then
        if pass then CACHE_TYPE_WB else mtrr_fix_byte c (mtrr_fix_index phys)
      else case mtrr_scan c phys [0..<gmtrr_vcnt] CACHE_TYPE_UC_MINUS of
             Inl t \<Rightarrow> t
           | Inr t \<Rightarrow>
               if t \<noteq> CACHE_TYPE_UC_MINUS then t
               else if phys \<ge> 0x100000000 \<and> syscfg c AND SYSCFG_TOM2FORCEMEMTYPEWB_BIT \<noteq> 0
                  \<and> phys < top_mem2 c AND TOP_MEM2_ADDR_MASK then CACHE_TYPE_WB
               else ucast (mtrr_def_type c AND 0xFF))"

fun mtrr_equal_scan :: "cache_regs \<Rightarrow> u64 \<Rightarrow> u64 \<Rightarrow> nat list \<Rightarrow> u8 \<Rightarrow> bool + u8" where
  "mtrr_equal_scan c phys physmask [] type = Inr type"
| "mtrr_equal_scan c phys physmask (i # is) type =
     (let mask = mtrr_physmask c i in
      if mask AND PHYSMASK0_V_BIT = 0 then mtrr_equal_scan c phys physmask is type
      else
        let base = mtrr_physbase c i;
            mask = mask AND PHYSMASK_MASK;
            maskbase = mask AND base;
            masktarget = mask AND phys;
            basetype = ucast (base AND 0xFF) :: u8
        in if maskbase = masktarget then
             (if mask AND physmask \<noteq> 0 then Inl False
              else if basetype = CACHE_TYPE_UC then Inl True
              else if basetype = CACHE_TYPE_WT then mtrr_equal_scan c phys physmask is CACHE_TYPE_WT
              else mtrr_equal_scan c phys physmask is
                     (if type = CACHE_TYPE_UC_MINUS then basetype else type))
           else if mask AND physmask \<noteq> 0 then
             (if maskbase AND NOT physmask = phys AND NOT physmask then Inl False
              else mtrr_equal_scan c phys physmask is type)
           else mtrr_equal_scan c phys physmask is type)"

definition mtrr_type_equal :: "u64 \<Rightarrow> cache_regs \<Rightarrow> bool \<Rightarrow> u64 \<Rightarrow> bool" where
  "mtrr_type_equal phys c pass physmask =
     (if mtrr_def_type c AND DEF_TYPE_E_BIT = 0 then False
      else if mtrr_def_type c AND DEF_TYPE_FE_BIT \<noteq> 0 \<and> (phys \<le> 0xFFFFF \<or> phys \<le> physmask) then False
      else case mtrr_equal_scan c phys physmask [0..<gmtrr_vcnt] CACHE_TYPE_UC_MINUS of
             Inl b \<Rightarrow> b
           | Inr t \<Rightarrow>
               if t \<noteq> CACHE_TYPE_UC_MINUS then True
               else if phys \<ge> 0x100000000 \<and> syscfg c AND SYSCFG_TOM2FORCEMEMTYPEWB_BIT \<noteq> 0
                  \<and> phys < top_mem2 c AND TOP_MEM2_ADDR_MASK
               then phys OR physmask < top_mem2 c AND TOP_MEM2_ADDR_MASK
               else True)"

section \<open>The guest's PAT\<close>

definition is_type_ok :: "cache_state \<Rightarrow> u8 \<Rightarrow> bool" where
  "is_type_ok s type = list_ex (\<lambda>i. pat_data (h (pcpu s)) i = type) [0..<8]"

definition set_gpat :: "(nat \<Rightarrow> u8) \<Rightarrow> cache_state \<Rightarrow> cache_state option" where
  "set_gpat d s =
     (if list_ex (\<lambda>i. \<not> is_type_ok s (d i)) [0..<8] then None
      else Some (on_g (\<lambda>c. c\<lparr>pat_data := (\<lambda>i. if i < 8 then d i else pat_data c i)\<rparr>) s))"

definition cache_get_gpat :: "cache_state \<Rightarrow> u64 option" where
  "cache_get_gpat s =
     (if \<not> has_pat (pcpu s) then None
      else Some (fold (\<lambda>i ret. ret OR push_bit (i * 8) (ucast (pat_data (g (vm s)) i))) [0..<8] 0))"

definition cache_set_gpat :: "u64 \<Rightarrow> cache_state \<Rightarrow> cache_state option" where
  "cache_set_gpat pat s =
     (if \<not> has_pat (pcpu s) then None else set_gpat (\<lambda>i. ucast (drop_bit (i * 8) pat)) s)"

section \<open>The guest's MTRRs\<close>

definition cache_rdmsr :: "u64 \<Rightarrow> cache_state \<Rightarrow> u64 option" where
  "cache_rdmsr num s = (if hw_msr_gp s num then None else Some (hw_msr s num))"

definition cache_wrmsr :: "u64 \<Rightarrow> u64 \<Rightarrow> cache_state \<Rightarrow> cache_state option" where
  "cache_wrmsr num val s =
     (if hw_msr_gp s num then None else Some (s\<lparr>hw_msr := (hw_msr s)(num := val)\<rparr>))"

definition get_gmtrr_def_type :: "cache_state \<Rightarrow> u64 option" where
  "get_gmtrr_def_type s = Some (mtrr_def_type (g (vm s)))"

definition set_gmtrr_def_type :: "u64 \<Rightarrow> cache_state \<Rightarrow> cache_state option" where
  "set_gmtrr_def_type v s =
     (if v AND NOT (0xFF OR DEF_TYPE_FE_BIT OR DEF_TYPE_E_BIT) \<noteq> 0 then None
      else
        let type = ucast (v AND 0xFF) :: u8
        in if \<not> is_type_ok s type \<or> type = CACHE_TYPE_UC_MINUS then None
           else Some (on_g (\<lambda>c. c\<lparr>mtrr_def_type := v\<rparr>) s))"

definition get_gmtrr_range :: "u64 \<Rightarrow> cache_state \<Rightarrow> u64 option" where
  "get_gmtrr_range num s =
     (let index = unat (drop_bit 1 (num - MSR_IA32_MTRR_PHYSBASE0))
      in if index \<ge> gmtrr_vcnt then None
         else if num AND 1 \<noteq> 0 then Some (mtrr_physmask (g (vm s)) index)
         else Some (mtrr_physbase (g (vm s)) index))"

definition set_gmtrr_range :: "u64 \<Rightarrow> u64 \<Rightarrow> cache_state \<Rightarrow> cache_state option" where
  "set_gmtrr_range num v s =
     (let index = unat (drop_bit 1 (num - MSR_IA32_MTRR_PHYSBASE0))
      in if index \<ge> gmtrr_vcnt then None
         else if num AND 1 \<noteq> 0 then
           if v AND NOT (PHYSMASK_MASK OR PHYSMASK0_V_BIT) \<noteq> 0 then None
           else Some (on_g (\<lambda>c. c\<lparr>mtrr_physmask := (mtrr_physmask c)(index := v)\<rparr>) s)
         else
           if v AND NOT (PHYSMASK_MASK OR 0xFF) \<noteq> 0 then None
           else
             let type = ucast (v AND 0xFF) :: u8
             in if \<not> is_type_ok s type \<or> type = CACHE_TYPE_UC_MINUS then None
                else Some (on_g (\<lambda>c. c\<lparr>mtrr_physbase := (mtrr_physbase c)(index := v)\<rparr>) s))"

definition get_index_from_mtrr_fix_msr_num :: "u64 \<Rightarrow> nat option" where
  "get_index_from_mtrr_fix_msr_num num =
     (if num = 0x268 then Some 0 else if num = 0x269 then Some 1 else if num = 0x26A then Some 2
      else if num = 0x26B then Some 3 else if num = 0x26C then Some 4 else if num = 0x26D then Some 5
      else if num = 0x26E then Some 6 else if num = 0x26F then Some 7 else if num = 0x258 then Some 8
      else if num = 0x259 then Some 9 else if num = 0x250 then Some 10 else None)"

definition get_gmtrr_fix :: "u64 \<Rightarrow> cache_state \<Rightarrow> u64 option" where
  "get_gmtrr_fix num s =
     (if pass_mtrrfix (vm s) then cache_rdmsr num s
      else case get_index_from_mtrr_fix_msr_num num of
             None \<Rightarrow> None
           | Some i \<Rightarrow> Some (mtrr_fix (g (vm s)) i))"

definition set_gmtrr_fix :: "u64 \<Rightarrow> u64 \<Rightarrow> cache_state \<Rightarrow> cache_state option" where
  "set_gmtrr_fix num v s =
     (if pass_mtrrfix (vm s) then cache_wrmsr num v s
      else if list_ex (\<lambda>i. let type = ucast (drop_bit (i * 8) v) :: u8
                in \<not> is_type_ok s type \<or> type = CACHE_TYPE_UC_MINUS) [0..<8] then None
      else case get_index_from_mtrr_fix_msr_num num of
             None \<Rightarrow> None
           | Some i \<Rightarrow> Some (on_g (\<lambda>c. c\<lparr>mtrr_fix := (mtrr_fix c)(i := v)\<rparr>) s))"

definition cache_get_gmtrrcap :: "cache_state \<Rightarrow> u64" where
  "cache_get_gmtrrcap s =
     (if \<not> has_pat (pcpu s) then 0
      else (mtrrcap (pcpu s) AND MTRRCAP_WC_BIT) OR MTRRCAP_FIX_BIT OR of_nat gmtrr_vcnt)"

definition cache_get_gmtrr :: "u64 \<Rightarrow> cache_state \<Rightarrow> u64 option" where
  "cache_get_gmtrr num s =
     (if \<not> has_pat (pcpu s) then None
      else if num = MSR_IA32_MTRR_DEF_TYPE then get_gmtrr_def_type s
      else if num \<ge> MSR_IA32_MTRR_PHYSBASE0 \<and> num < MSR_IA32_MTRR_FIX64K_00000 then get_gmtrr_range num s
      else if num \<ge> MSR_IA32_MTRR_FIX64K_00000 \<and> num \<le> MSR_IA32_MTRR_FIX4K_F8000 then get_gmtrr_fix num s
      else None)"

definition cache_set_gmtrr :: "u64 \<Rightarrow> u64 \<Rightarrow> cache_state \<Rightarrow> cache_state option" where
  "cache_set_gmtrr num v s =
     (if \<not> has_pat (pcpu s) then None
      else if num = MSR_IA32_MTRR_DEF_TYPE then set_gmtrr_def_type v s
      else if num \<ge> MSR_IA32_MTRR_PHYSBASE0 \<and> num < MSR_IA32_MTRR_FIX64K_00000 then set_gmtrr_range num v s
      else if num \<ge> MSR_IA32_MTRR_FIX64K_00000 \<and> num \<le> MSR_IA32_MTRR_FIX4K_F8000 then set_gmtrr_fix num v s
      else None)"

section \<open>Types to page attributes\<close>

abbreviation PTE_PWT_BIT :: u32 where "PTE_PWT_BIT \<equiv> 0x8"
abbreviation PTE_PCD_BIT :: u32 where "PTE_PCD_BIT \<equiv> 0x10"
abbreviation PTE_PAT_BIT :: u32 where "PTE_PAT_BIT \<equiv> 0x80"

definition pat_mtrr_matrix :: "u8 list list" where
  "pat_mtrr_matrix =
     [[0, 0, 0, 0, 0, 0, 0, 0],
      [1, 1, 0, 0, 1, 1, 1, 0],
      [0, 0, 0, 0, 0, 0, 0, 0],
      [0, 0, 0, 0, 0, 0, 0, 0],
      [0, 0, 0, 0, 4, 4, 4, 0],
      [0, 0, 0, 0, 5, 5, 5, 0],
      [0, 1, 0, 0, 4, 5, 6, 0],
      [0, 1, 0, 0, 0, 1, 0, 0]]"

definition pat_index :: "u32 \<Rightarrow> nat" where
  "pat_index attr = (if attr AND PTE_PAT_BIT \<noteq> 0 then 4 else 0)
     + (if attr AND PTE_PCD_BIT \<noteq> 0 then 2 else 0) + (if attr AND PTE_PWT_BIT \<noteq> 0 then 1 else 0)"

text \<open>\<open>None\<close> when the assertion on the two types fails.\<close>

definition get_type :: "u64 \<Rightarrow> u32 \<Rightarrow> cache_state \<Rightarrow> u8 option" where
  "get_type gphys gattr s =
     (let gpat_type = pat_data (g (vm s)) (pat_index gattr)
      in if gpat_type = CACHE_TYPE_UC \<or> gpat_type = CACHE_TYPE_WC then Some gpat_type
         else
           let gmtrr_type = get_mtrr_type gphys (g (vm s)) (pass_mtrrfix (vm s))
           in if gpat_type < 8 \<and> gmtrr_type < 8
              then Some (pat_mtrr_matrix ! unat gpat_type ! unat gmtrr_type) else None)"

definition attr_from_type :: "u8 \<Rightarrow> cache_state \<Rightarrow> u32" where
  "attr_from_type type s =
     (let i = pat_index_from_type (pcpu s) type
      in (if i AND 4 \<noteq> 0 then PTE_PAT_BIT else 0) OR (if i AND 2 \<noteq> 0 then PTE_PCD_BIT else 0)
         OR (if i AND 1 \<noteq> 0 then PTE_PWT_BIT else 0))"

definition cache_get_attr :: "u64 \<Rightarrow> u32 \<Rightarrow> cache_state \<Rightarrow> u32 option" where
  "cache_get_attr gphys gattr s =
     (if \<not> has_pat (pcpu s) then Some gattr
      else map_option (\<lambda>t. attr_from_type t s) (get_type gphys gattr s))"

definition cache_get_gmtrr_type :: "u64 \<Rightarrow> cache_state \<Rightarrow> u8" where
  "cache_get_gmtrr_type gphys s = get_mtrr_type gphys (g (vm s)) False"

definition cache_gmtrr_type_equal :: "u64 \<Rightarrow> u64 \<Rightarrow> cache_state \<Rightarrow> bool" where
  "cache_gmtrr_type_equal gphys pmask s = mtrr_type_equal gphys (g (vm s)) False pmask"

definition cache_get_gmtrr_attr :: "u64 \<Rightarrow> cache_state \<Rightarrow> u32" where
  "cache_get_gmtrr_attr gphys s =
     attr_from_type (get_mtrr_type gphys (g (vm s)) (pass_mtrrfix (vm s))) s"

section \<open>The MSRs of AMD processors\<close>

definition copy_syscfg_mtrrfix :: "u64 \<Rightarrow> u64 \<Rightarrow> u64" where
  "copy_syscfg_mtrrfix dest src =
     (let m = 0x40000 OR 0x80000 in (dest AND NOT m) OR (src AND m))"

abbreviation set_h_syscfg :: "u64 \<Rightarrow> cache_state \<Rightarrow> cache_state" where
  "set_h_syscfg v s \<equiv> s\<lparr>pcpu := (pcpu s)\<lparr>h := (h (pcpu s))\<lparr>syscfg := v\<rparr>\<rparr>\<rparr>"

definition cache_get_gmsr_amd :: "u64 \<Rightarrow> cache_state \<Rightarrow> cache_state \<times> u64 option" where
  "cache_get_gmsr_amd num s =
     (if num = MSR_AMD_SYSCFG then
        let s = (if pass_mtrrfix (vm s) then
                   let s = set_h_syscfg (hw_msr s MSR_AMD_SYSCFG) s
                   in on_g (\<lambda>c. c\<lparr>syscfg := copy_syscfg_mtrrfix (syscfg c) (syscfg (h (pcpu s)))\<rparr>) s
                 else s)
        in (s, Some (syscfg (g (vm s))))
      else if num = MSR_AMD_TOP_MEM2 then (s, Some (top_mem2 (g (vm s))))
      else (s, None))"

definition cache_set_gmsr_amd :: "u64 \<Rightarrow> u64 \<Rightarrow> cache_state \<Rightarrow> cache_state option" where
  "cache_set_gmsr_amd num v s =
     (if num = MSR_AMD_SYSCFG then
        let s = on_g (\<lambda>c. c\<lparr>syscfg := v\<rparr>) s
        in if pass_mtrrfix (vm s) then
             let hs = copy_syscfg_mtrrfix (hw_msr s MSR_AMD_SYSCFG) v
             in Some ((set_h_syscfg hs s)\<lparr>hw_msr := (hw_msr s)(MSR_AMD_SYSCFG := hs)\<rparr>)
           else Some s
      else if num = MSR_AMD_TOP_MEM2 then Some (on_g (\<lambda>c. c\<lparr>top_mem2 := v\<rparr>) s)
      else None)"

section \<open>Initialisation\<close>

text \<open>The VMM's own PAT and the index of each type in it.\<close>

definition make_pat_value :: "cache_state \<Rightarrow> cache_state" where
  "make_pat_value s =
     (if \<not> has_pat (pcpu s) then s
      else
        let d = (\<lambda>i. if i < 4 then pat_default i else if i < 8 then CACHE_TYPE_UC
                      else pat_data (h (pcpu s)) i);
            d = d(4 := CACHE_TYPE_WB, 5 := CACHE_TYPE_WP);
            d = (if mtrrcap (pcpu s) AND MTRRCAP_WC_BIT \<noteq> 0 then d(6 := CACHE_TYPE_WC) else d);
            ix = (\<lambda>t. if t < 8 then (case find (\<lambda>j. t = d j) [0..<8] of
                                        Some j \<Rightarrow> of_nat j | None \<Rightarrow> 0)
                      else pat_index_from_type (pcpu s) t)
        in s\<lparr>pcpu := (pcpu s)\<lparr>h := (h (pcpu s))\<lparr>pat_data := d\<rparr>, pat_index_from_type := ix\<rparr>\<rparr>)"

definition try_set :: "(cache_state \<Rightarrow> cache_state option) \<Rightarrow> cache_state \<Rightarrow> cache_state" where
  "try_set f s = (case f s of None \<Rightarrow> s | Some t \<Rightarrow> t)"

definition cache_init_vcpu :: "cache_state \<Rightarrow> cache_state" where
  "cache_init_vcpu s =
     (let s = (if has_pat (pcpu s) then
                 let s = try_set (set_gpat pat_default) s;
                     s = try_set (set_gmtrr_def_type 0) s
                 in on_g (\<lambda>c. c\<lparr>syscfg := 0\<rparr>) s
               else s)
      in s\<lparr>vm := (vm s)\<lparr>pass_mtrrfix := False\<rparr>\<rparr>)"

text \<open>\<open>None\<close> is the panic when a value of the processor cannot be given to the guest.\<close>

fun run_all :: "(cache_state \<Rightarrow> cache_state option) list \<Rightarrow> cache_state \<Rightarrow> cache_state option" where
  "run_all [] s = Some s"
| "run_all (f # fs) s = (case f s of None \<Rightarrow> None | Some t \<Rightarrow> run_all fs t)"

definition cache_init_pass :: "cache_state \<Rightarrow> cache_state option" where
  "cache_init_pass s =
     (if \<not> has_pat (pcpu s) \<or> \<not> has_mtrr (pcpu s) then Some s
      else
        let s = (if syscfg_exist (pcpu s) then s\<lparr>vm := (vm s)\<lparr>pass_mtrrfix := True\<rparr>\<rparr> else s);
            s = fold (\<lambda>i. try_set (set_gmtrr_range (MSR_IA32_MTRR_PHYSBASE0 + of_nat i * 2 + 1) 0))
                  [0..<gmtrr_vcnt] s;
            hr = h (pcpu s);
            vcnt = unat (mtrrcap (pcpu s) AND MTRRCAP_VCNT_MASK)
        in case run_all
             (concat (map (\<lambda>i. [set_gmtrr_range (MSR_IA32_MTRR_PHYSBASE0 + of_nat i * 2) (mtrr_physbase hr i),
                                set_gmtrr_range (MSR_IA32_MTRR_PHYSBASE0 + 1 + of_nat i * 2) (mtrr_physmask hr i)])
                [0..<vcnt])
              @ (if mtrrcap (pcpu s) AND MTRRCAP_FIX_BIT \<noteq> 0 then
                   map (\<lambda>i. set_gmtrr_fix (mtrr_fix_msr ! i) (mtrr_fix hr i)) [0..<num_mtrr_fix] else [])
              @ [set_gmtrr_def_type (mtrr_def_type hr)]) s of
             None \<Rightarrow> None
           | Some s \<Rightarrow>
               let s = on_g (\<lambda>c. c\<lparr>syscfg := syscfg hr\<rparr>) s
               in Some (if syscfg (g (vm s)) AND SYSCFG_MTRRTOM2EN_BIT \<noteq> 0
                        then on_g (\<lambda>c. c\<lparr>top_mem2 := top_mem2 hr\<rparr>) s else s))"

end
