(* ===== verification/Mmio.thy ===== *)
theory Mmio
  imports Bv_Prelude
begin

text \<open>
  \<open>core/mmio.c\<close>: the registry of memory-mapped I/O handlers of a virtual machine.  A handle is in
  the list \<open>handle\<close> and in every one of the 17 buckets it touches: bucket \<open>i < 16\<close> holds the 256MB
  at \<open>i << 28\<close>, bucket 16 everything from 4GB.  The lists hold pointers; \<open>deref\<close> is what they point
  to and \<open>next_ptr\<close> the next pointer \<open>alloc\<close> returns.  An access to guest memory is a log of the
  calls it makes: to a handler, or to the memory itself.
\<close>

record mmio_handle =
  h_gphys :: u64
  h_len :: u32
  h_handler :: nat \<comment> \<open>the function and its \<open>data\<close>\<close>
  h_unregistered :: bool
  h_unlocked_handler :: bool

record mmio_data =
  mmio :: "nat \<Rightarrow> nat list"
  handle :: "nat list"
  unregister_flag :: bool
  lock_count :: nat
  deref :: "nat \<Rightarrow> mmio_handle"
  next_ptr :: nat

section \<open>Ranges\<close>

text \<open>
  \<open>None\<close> is the result 0; otherwise the two outputs \<open>gphys2\<close> and \<open>len2\<close> and the value of the
  assertion made when they are asked for.
\<close>

definition rangecheck :: "mmio_handle \<Rightarrow> u64 \<Rightarrow> u32 \<Rightarrow> (u64 \<times> u32 \<times> bool) option" where
  "rangecheck h gphys len =
     (if h_unregistered h then None
      else
        let a = gphys - h_gphys h;
            b = gphys + ucast len - 1 - h_gphys h;
            c = 0;
            d = h_gphys h + ucast (h_len h) - 1 - h_gphys h
        in if d < a \<and> a \<le> b then None
           else
             let a = (if d < a then c else a);
                 b = (if d < b then d else b)
             in Some (a + h_gphys h, ucast (b - a + 1), a \<le> b))"

definition in_range :: "mmio_handle \<Rightarrow> u64 \<Rightarrow> u32 \<Rightarrow> bool" where
  "in_range h gphys len = (rangecheck h gphys len \<noteq> None)"

text \<open>The bucket of an address.\<close>

definition bucket :: "u64 \<Rightarrow> nat" where
  "bucket a = (if a \<le> 0xFFFFFFFF then unat (drop_bit 28 a) else 16)"

section \<open>Accesses to memory\<close>

text \<open>
  One call an access makes: the handle, the address, the offset in the buffer and the number of
  bytes for a handler; the address, the offset and the number of bytes for the memory.
\<close>

datatype mmio_call = Handled nat u64 u64 u32 | Direct u64 u64 u32

definition mmio_gphys_access :: "u64 \<Rightarrow> u64 \<Rightarrow> u32 \<Rightarrow> mmio_call list" where
  "mmio_gphys_access gphys q len = (if len = 0 then [] else [Direct gphys q len])"

record access_state =
  a_gphys :: u64
  a_q :: u64
  a_len :: u32
  a_r :: bool
  a_unlocked :: "(nat \<times> u64 \<times> u64 \<times> u32) option"
  a_log :: "mmio_call list"

datatype flow = Out access_state | Go access_state | Panic

text \<open>
  \<open>accepts\<close> is the result of a handler: when it is 0 the access goes to the memory.
\<close>

definition call_handler :: "(nat \<Rightarrow> u64 \<Rightarrow> u32 \<Rightarrow> bool) \<Rightarrow> nat \<Rightarrow> u64 \<Rightarrow> u64 \<Rightarrow> u32 \<Rightarrow> mmio_call list" where
  "call_handler accepts p gphys q len =
     Handled p gphys q len # (if accepts p gphys len then [] else mmio_gphys_access gphys q len)"

definition access_handle ::
  "(nat \<Rightarrow> u64 \<Rightarrow> u32 \<Rightarrow> bool) \<Rightarrow> mmio_data \<Rightarrow> nat \<Rightarrow> access_state \<Rightarrow> flow" where
  "access_handle accepts m p s =
     (let h = deref m p in
      if h_gphys h \<ge> a_gphys s + ucast (a_len s) then Out s
      else case rangecheck h (a_gphys s) (a_len s) of
        None \<Rightarrow> Go s
      | Some (gphys2, len2, f) \<Rightarrow>
          if \<not> f then Panic
          else
            let tmp = ucast (gphys2 - a_gphys s) :: u32;
                s1 = s\<lparr>a_r := True, a_log := a_log s @ mmio_gphys_access (a_gphys s) (a_q s) tmp,
                       a_gphys := a_gphys s + ucast tmp, a_q := a_q s + ucast tmp,
                       a_len := a_len s - tmp\<rparr>
            in if h_unlocked_handler h \<and> a_unlocked s1 \<noteq> None then Panic
               else
                 let s2 = (if h_unlocked_handler h
                           then s1\<lparr>a_unlocked := Some (p, a_gphys s1, a_q s1, len2)\<rparr>
                           else s1\<lparr>a_log := a_log s1 @ call_handler accepts p (a_gphys s1) (a_q s1) len2\<rparr>);
                     s3 = s2\<lparr>a_gphys := a_gphys s2 + ucast len2, a_q := a_q s2 + ucast len2,
                             a_len := a_len s2 - len2\<rparr>
                 in if a_len s3 = 0 then Out s3 else Go s3)"

text \<open>The loop over one bucket, and over the buckets of the access.\<close>

fun access_list ::
  "(nat \<Rightarrow> u64 \<Rightarrow> u32 \<Rightarrow> bool) \<Rightarrow> mmio_data \<Rightarrow> nat list \<Rightarrow> access_state \<Rightarrow> flow" where
  "access_list accepts m [] s = Go s"
| "access_list accepts m (p # ps) s =
     (case access_handle accepts m p s of Go s' \<Rightarrow> access_list accepts m ps s' | other \<Rightarrow> other)"

fun access_buckets ::
  "(nat \<Rightarrow> u64 \<Rightarrow> u32 \<Rightarrow> bool) \<Rightarrow> mmio_data \<Rightarrow> nat list \<Rightarrow> access_state \<Rightarrow> flow" where
  "access_buckets accepts m [] s = Go s"
| "access_buckets accepts m (i # is) s =
     (case access_list accepts m (mmio m i) s of
        Go s' \<Rightarrow> access_buckets accepts m is s' | other \<Rightarrow> other)"

text \<open>\<open>None\<close> is a failed assertion or a panic; else the result and the calls made.\<close>

definition mmio_access_memory ::
  "(nat \<Rightarrow> u64 \<Rightarrow> u32 \<Rightarrow> bool) \<Rightarrow> mmio_data \<Rightarrow> u64 \<Rightarrow> u32 \<Rightarrow> (bool \<times> mmio_call list) option" where
  "mmio_access_memory accepts m gphys len =
     (let s0 = \<lparr>a_gphys = gphys, a_q = 0, a_len = len, a_r = False, a_unlocked = None, a_log = []\<rparr>;
          out = (\<lambda>s. Some (a_r s,
                   a_log s @ (if a_r s then mmio_gphys_access (a_gphys s) (a_q s) (a_len s) else [])
                   @ (case a_unlocked s of None \<Rightarrow> []
                      | Some (p, g, q, l) \<Rightarrow> call_handler accepts p g q l)))
      in if len = 0 then out s0
         else case access_buckets accepts m
                [bucket gphys ..< Suc (bucket (gphys + ucast len - 1))] s0 of
                Out s \<Rightarrow> out s | Go s \<Rightarrow> out s | Panic \<Rightarrow> None)"

section \<open>Page faults and ranges\<close>

text \<open>
  What \<open>mmio_access_page\<close> does: nothing (0), report an access without emulation (1), or run the
  instruction interpreter for the access.
\<close>

datatype page_result = Not_mmio | Is_mmio | Interpret

fun access_page_list :: "mmio_data \<Rightarrow> u64 \<Rightarrow> bool \<Rightarrow> nat list \<Rightarrow> page_result" where
  "access_page_list m gphys emulation [] = Not_mmio"
| "access_page_list m gphys emulation (p # ps) =
     (let h = deref m p in
      if h_gphys h \<ge> gphys + PAGESIZE then Not_mmio
      else if in_range h gphys 0x1000 then (if emulation then Interpret else Is_mmio)
      else access_page_list m gphys emulation ps)"

definition mmio_access_page :: "mmio_data \<Rightarrow> u64 \<Rightarrow> bool \<Rightarrow> page_result" where
  "mmio_access_page m gphys emulation =
     (let gphys = gphys AND NOT PAGESIZE_MASK
      in access_page_list m gphys emulation (mmio m (bucket gphys)))"

text \<open>\<open>Inl\<close> is the return from inside the loops.\<close>

fun range_list :: "mmio_data \<Rightarrow> u64 \<Rightarrow> u32 \<Rightarrow> nat list \<Rightarrow> u64 option" where
  "range_list m gphys len [] = None"
| "range_list m gphys len (p # ps) =
     (let h = deref m p in
      if h_gphys h \<ge> gphys + ucast len then Some 0
      else if in_range h gphys len then Some (h_gphys h + ucast (h_len h))
      else range_list m gphys len ps)"

fun range_buckets :: "mmio_data \<Rightarrow> u64 \<Rightarrow> u32 \<Rightarrow> nat list \<Rightarrow> u64" where
  "range_buckets m gphys len [] = 0"
| "range_buckets m gphys len (i # is) =
     (case range_list m gphys len (mmio m i) of Some r \<Rightarrow> r | None \<Rightarrow> range_buckets m gphys len is)"

definition mmio_range :: "mmio_data \<Rightarrow> u64 \<Rightarrow> u32 \<Rightarrow> u64" where
  "mmio_range m gphys len =
     (if len = 0 then 0
      else range_buckets m gphys len [bucket gphys ..< Suc (bucket (gphys + ucast len - 1))])"

section \<open>Registration\<close>

text \<open>The sorted insertion into a bucket, before the first handle that begins later.\<close>

definition add :: "nat \<Rightarrow> nat \<Rightarrow> mmio_data \<Rightarrow> mmio_data" where
  "add i p m =
     (let later = (\<lambda>d. h_gphys (deref m d) > h_gphys (deref m p))
      in m\<lparr>mmio := (mmio m)(i := takeWhile (\<lambda>d. \<not> later d) (mmio m i) @ p
                                 # dropWhile (\<lambda>d. \<not> later d) (mmio m i))\<rparr>)"

definition del :: "nat \<Rightarrow> nat \<Rightarrow> mmio_data \<Rightarrow> mmio_data" where
  "del i p m = m\<lparr>mmio := (mmio m)(i := remove1 p (mmio m i))\<rparr>"

definition scan :: "u64 \<Rightarrow> u32 \<Rightarrow> (nat \<Rightarrow> mmio_data \<Rightarrow> mmio_data) \<Rightarrow> mmio_data \<Rightarrow> mmio_data" where
  "scan gphys len f m =
     (let end = (gphys + ucast len - 1) OR 0x0FFFFFFF;
          gphys = gphys AND NOT 0x0FFFFFFF
      in fold f [bucket gphys ..< Suc (bucket end)] m)"

text \<open>
  The host ranges a guest range maps to, one call of \<open>flush_sub\<close> for each contiguous piece.
  \<open>flush_sub\<close> asks every virtual processor of the machine to drop its mappings of a host range
  and fails if one cannot.  The loop does not end on a range that reaches the last page of the
  address space, hence the partial function.
\<close>

partial_function (option) flush_tlb_loop ::
  "(u64 \<Rightarrow> u64) \<Rightarrow> (u64 \<Rightarrow> u64 \<Rightarrow> bool) \<Rightarrow> u64 \<Rightarrow> u64 \<Rightarrow> u64 \<Rightarrow> u64 \<Rightarrow> (u64 \<times> u64) list
     \<Rightarrow> (bool \<times> (u64 \<times> u64) list) option" where
  "flush_tlb_loop gp2hp fails gpend gp2 hp0 hp1 flushed =
     (if gp2 \<le> gpend then
        let hp2 = gp2hp gp2 in
        if hp1 + 1 \<noteq> hp2 then
          (if fails hp0 hp1 then Some (True, flushed @ [(hp0, hp1)])
           else flush_tlb_loop gp2hp fails gpend ((gp2 OR PAGESIZE_MASK) + 1) hp2
                  (hp2 OR PAGESIZE_MASK) (flushed @ [(hp0, hp1)]))
        else flush_tlb_loop gp2hp fails gpend ((gp2 OR PAGESIZE_MASK) + 1) hp0
               (hp2 OR PAGESIZE_MASK) flushed
      else Some (fails hp0 hp1, flushed @ [(hp0, hp1)]))"

definition flush_tlb_entry ::
  "(u64 \<Rightarrow> u64) \<Rightarrow> (u64 \<Rightarrow> u64 \<Rightarrow> bool) \<Rightarrow> u64 \<Rightarrow> u64 \<Rightarrow> (bool \<times> (u64 \<times> u64) list) option" where
  "flush_tlb_entry gp2hp fails gpst gpend =
     (let hp0 = gp2hp gpst
      in flush_tlb_loop gp2hp fails gpend ((gpst OR PAGESIZE_MASK) + 1) hp0 (hp0 OR PAGESIZE_MASK) [])"

text \<open>
  The result is the new handle (\<open>None\<close> for NULL) with the state; the outer \<open>None\<close> is a flush that
  does not return.
\<close>

definition mmio_register_internal ::
  "(u64 \<Rightarrow> u64) \<Rightarrow> (u64 \<Rightarrow> u64 \<Rightarrow> bool) \<Rightarrow> u64 \<Rightarrow> u32 \<Rightarrow> nat \<Rightarrow> bool \<Rightarrow> mmio_data
     \<Rightarrow> (nat option \<times> mmio_data) option" where
  "mmio_register_internal gp2hp fails gphys len handler unlocked m =
     (if list_ex (\<lambda>p. in_range (deref m p) gphys len) (handle m) then Some (None, m)
      else case flush_tlb_entry gp2hp fails gphys (gphys + ucast len - 1) of
        None \<Rightarrow> None
      | Some (failed, _) \<Rightarrow>
          if failed then Some (None, m)
          else
            let p = next_ptr m;
                h = \<lparr>h_gphys = gphys, h_len = len, h_handler = handler, h_unregistered = False,
                     h_unlocked_handler = unlocked\<rparr>;
                m = m\<lparr>deref := (deref m)(p := h), next_ptr := Suc p, handle := handle m @ [p]\<rparr>
            in Some (Some p, scan gphys len (\<lambda>i. add i p) m))"

definition mmio_register where
  "mmio_register gp2hp fails gphys len handler =
     mmio_register_internal gp2hp fails gphys len handler False"

definition mmio_register_unlocked where
  "mmio_register_unlocked gp2hp fails gphys len handler =
     mmio_register_internal gp2hp fails gphys len handler True"

text \<open>The removal of a handle from the list and the buckets.\<close>

definition remove_handle :: "nat \<Rightarrow> mmio_data \<Rightarrow> mmio_data" where
  "remove_handle p m =
     (let m = m\<lparr>handle := remove1 p (handle m)\<rparr>
      in scan (h_gphys (deref m p)) (h_len (deref m p)) (\<lambda>i. del i p) m)"

text \<open>\<open>busy\<close>: \<open>rw_spinlock_trylock_ex\<close> fails because an access is in progress.\<close>

definition mmio_unregister :: "bool \<Rightarrow> nat \<Rightarrow> mmio_data \<Rightarrow> mmio_data" where
  "mmio_unregister busy p m =
     (if busy then m\<lparr>deref := (deref m)(p := (deref m p)\<lparr>h_unregistered := True\<rparr>),
                     unregister_flag := True\<rparr>
      else remove_handle p m)"

definition mmio_lock :: "mmio_data \<Rightarrow> mmio_data" where
  "mmio_lock m = m\<lparr>lock_count := Suc (lock_count m)\<rparr>"

text \<open>
  The loop of \<open>mmio_unlock\<close> reads the \<open>next\<close> of each element after it has freed it; the model takes
  the list as it was before the loop, which is what the code does as long as \<open>free\<close> leaves the
  element's memory alone.
\<close>

definition mmio_unlock :: "bool \<Rightarrow> mmio_data \<Rightarrow> mmio_data" where
  "mmio_unlock busy m =
     (let m = m\<lparr>lock_count := lock_count m - 1\<rparr>
      in if unregister_flag m \<and> \<not> busy
         then fold (\<lambda>p m. if h_unregistered (deref m p) then remove_handle p m else m) (handle m)
                (m\<lparr>unregister_flag := False\<rparr>)
         else m)"

end
