(* ===== verification/Gmm_Pass.thy ===== *)
theory Gmm_Pass
  imports Bv_Prelude
begin

text \<open>
  \<open>core/gmm_pass.c\<close> and \<open>phys_in_vmm\<close> of \<open>core/mm.c\<close>: guest-physical addresses are host-physical
  addresses, except that the VMM's own 128MB read as one blank page.  The memory map of the
  firmware (\<open>uefi_mmio_space\<close>, present when the machine booted by UEFI) lists the ranges that are
  to be mapped at once; the entry with no pages ends it.
\<close>

record gmm_data =
  vmm_start_phys :: u32
  phys_blank :: u64
  uefi_mmio_space :: "(u64 \<times> u64) list option"

definition VMMSIZE_ALL :: u32 where "VMMSIZE_ALL = 128 * 1024 * 1024"

text \<open>The sum is one of 32-bit numbers, as \<open>vmm_start_phys\<close> is a \<open>u32\<close>.\<close>

definition phys_in_vmm :: "gmm_data \<Rightarrow> u64 \<Rightarrow> bool" where
  "phys_in_vmm m phys =
     (ucast (vmm_start_phys m) \<le> phys \<and> phys < ucast (vmm_start_phys m + VMMSIZE_ALL))"

text \<open>The address and \<open>fakerom\<close>.\<close>

definition gmm_pass_gp2hp :: "gmm_data \<Rightarrow> u64 \<Rightarrow> u64 \<times> bool" where
  "gmm_pass_gp2hp m gp = (if phys_in_vmm m gp then (phys_blank m, True) else (gp, False))"

definition GMM_GP2HP_2M_FAIL :: u64 where "GMM_GP2HP_2M_FAIL = 0xFFFFFFFFFFFFFFFF"

definition gmm_pass_gp2hp_2m :: "gmm_data \<Rightarrow> u64 \<Rightarrow> u64" where
  "gmm_pass_gp2hp_2m m gp =
     (if gp AND PAGESIZE2M_MASK \<noteq> 0 then GMM_GP2HP_2M_FAIL
      else if phys_in_vmm m gp then GMM_GP2HP_2M_FAIL
      else gp)"

text \<open>The next index (0 at the end), the base and the length of the range \<open>n\<close>.\<close>

definition gmm_pass_getforcemap :: "gmm_data \<Rightarrow> nat \<Rightarrow> nat \<times> u64 \<times> u64" where
  "gmm_pass_getforcemap m n =
     (case uefi_mmio_space m of
        None \<Rightarrow> (0, 0, 0)
      | Some sp \<Rightarrow>
          let base = fst (sp ! n); len = push_bit 12 (snd (sp ! n))
          in (if len > 0 then n + 1 else 0, base, len))"

text \<open>
  The mask of the address bits of a page table entry; \<open>ext0\<close> and \<open>ext8\<close> are the \<open>EAX\<close> the CPUID
  instruction returns for the functions \<open>0x80000000\<close> and \<open>0x80000008\<close>.
\<close>

definition get_pte_addr_mask :: "u32 \<Rightarrow> u32 \<Rightarrow> u64" where
  "get_pte_addr_mask ext0 ext8 =
     (if ext0 < 0x80000008 then 0x0000000FFFFFF000
      else
        let nbits = unat (ext8 AND 0xFF);
            nbits = (if nbits < 32 then 32 else nbits);
            nbits = (if nbits > 52 then 52 else nbits)
        in NOT (PAGESIZE_MASK OR push_bit nbits 0xFFFFFFFFFFFFFFFF))"

section \<open>What the guest can reach\<close>

text \<open>The VMM lies on a 4MB boundary and its end does not wrap; the blank page is one of its pages.\<close>

definition gmm_ok :: "gmm_data \<Rightarrow> bool" where
  "gmm_ok m = (vmm_start_phys m AND 0x3FFFFF = 0 \<and> unat (vmm_start_phys m) + 0x8000000 < 2 ^ 32
     \<and> phys_blank m AND PAGESIZE_MASK = 0)"

lemma phys_in_vmm_iff:
  assumes "gmm_ok m"
  shows "phys_in_vmm m p \<longleftrightarrow> unat (vmm_start_phys m) \<le> unat p \<and> unat p < unat (vmm_start_phys m) + 0x8000000"
proof -
  have "unat (vmm_start_phys m + VMMSIZE_ALL) = unat (vmm_start_phys m) + 0x8000000"
    using assms by (simp add: gmm_ok_def VMMSIZE_ALL_def unat_word_ariths)
  then show ?thesis by (simp add: phys_in_vmm_def word_le_nat_alt word_less_nat_alt unat_ucast_32_64)
qed

text \<open>A 4MB-aligned region contains a block of 2MB or of a page completely or not at all.\<close>

lemma phys_in_vmm_block:
  assumes "gmm_ok m" "n \<le> 21" "unat a div 2 ^ n = unat b div 2 ^ n"
  shows "phys_in_vmm m a = phys_in_vmm m b"
proof -
  define k where "k = unat (vmm_start_phys m) div 2 ^ 22"
  have "0x3FFFFF = (mask 22 :: u32)" by (simp add: mask_eq_decr_exp)
  then have "unat (vmm_start_phys m) mod 2 ^ 22 = 0"
    using assms(1) unat_and_mask [of "vmm_start_phys m" 22] by (simp add: gmm_ok_def)
  then have s: "unat (vmm_start_phys m) = k * 2 ^ 22" by (auto simp: k_def)
  have "\<And>x. (k * 2 ^ 22 \<le> x) = (k * 2 ^ (22 - n) \<le> x div 2 ^ n)"
    "\<And>x. (x < k * 2 ^ 22 + 0x8000000) = (x div 2 ^ n < (k + 32) * 2 ^ (22 - n))"
  proof -
    have e: "2 ^ 22 = 2 ^ (22 - n) * (2 ^ n :: nat)" using assms(2) by (simp flip: power_add)
    show "(k * 2 ^ 22 \<le> x) = (k * 2 ^ (22 - n) \<le> x div 2 ^ n)" for x
      unfolding e by (simp add: less_eq_div_iff_mult_less_eq mult.assoc)
    have "k * 2 ^ 22 + 0x8000000 = (k + 32) * 2 ^ (22 - n) * 2 ^ n" using e by (simp add: algebra_simps)
    then show "(x < k * 2 ^ 22 + 0x8000000) = (x div 2 ^ n < (k + 32) * 2 ^ (22 - n))" for x
      by (simp add: div_less_iff_less_mult)
  qed
  then show ?thesis unfolding phys_in_vmm_iff [OF assms(1)] s assms(3) by (simp add: assms(3))
qed

end
