(* ===== verification/Vt_Ept.thy ===== *)
theory Vt_Ept
  imports Cache Mmio Gmm_Pass
begin

text \<open>
  \<open>core/vt_ept.c\<close> of the destination: the extended page tables of the guest, built on demand from a
  pool of 1024 tables, and the wait of an EPT violation for the block it touches.  A pointer to a
  table entry is the entry's physical address; \<open>tables\<close> is the memory the tables lie in.
  \<open>flushes\<close> counts the calls of \<open>vt_paging_flush_guest_tlb\<close>.
\<close>

definition NUM_OF_EPTBL :: nat where "NUM_OF_EPTBL = 1024"
definition EPT_LEVELS :: nat where "EPT_LEVELS = 4"

abbreviation EPTE_READ :: u64 where "EPTE_READ \<equiv> 0x1"
abbreviation EPTE_READEXEC :: u64 where "EPTE_READEXEC \<equiv> 0x5"
abbreviation EPTE_WRITE :: u64 where "EPTE_WRITE \<equiv> 0x2"
abbreviation EPTE_LARGE :: u64 where "EPTE_LARGE \<equiv> 0x80"

definition ept_usable_mem_list :: "(u64 \<times> u64) list" where
  "ept_usable_mem_list = [(0x0000, 0x9ffff), (0xe0000, 0x3fffffff), (0x60000000, 0x7e7fffff),
     (0x86b35000, 0x879bffff), (0x87fcd000, 0x87ffffff), (0xff000000, 0xffffffff),
     (0x100000000, 0x4767fffff)]"

record vt_ept =
  cnt :: nat
  cleared :: bool
  ncr3tbl :: u64
  tbl :: "nat \<Rightarrow> u64"
  cur_level :: nat
  cur_gphys :: u64
  cur_entry :: "nat \<Rightarrow> u64"
  tables :: "u64 \<Rightarrow> u64"
  flushes :: nat

text \<open>What the file reads of the rest of the virtual machine.\<close>

record ept_env =
  gmm :: gmm_data
  cache :: cache_state
  registry :: mmio_data

text \<open>\<open>memset\<close> of a page of entries.\<close>

definition clear_page :: "u64 \<Rightarrow> (u64 \<Rightarrow> u64) \<Rightarrow> u64 \<Rightarrow> u64" where
  "clear_page p t = (\<lambda>a. if a AND NOT PAGESIZE_MASK = p then 0 else t a)"

text \<open>The pages \<open>root\<close> and \<open>pool\<close> are the ones \<open>alloc_page\<close> returned.\<close>

definition vt_ept_init :: "u64 \<Rightarrow> (nat \<Rightarrow> u64) \<Rightarrow> (u64 \<Rightarrow> u64) \<Rightarrow> vt_ept" where
  "vt_ept_init root pool t =
     \<lparr>cnt = 0, cleared = True, ncr3tbl = root, tbl = pool, cur_level = EPT_LEVELS, cur_gphys = 0,
      cur_entry = (\<lambda>i. 0), tables = clear_page root t, flushes = 0\<rparr>"

section \<open>The cached path\<close>

text \<open>The first loop of \<open>cur_move\<close>: up to the level at which both addresses agree.\<close>

function move_up :: "u64 \<Rightarrow> u64 \<Rightarrow> nat \<Rightarrow> u64 \<Rightarrow> nat" where
  "move_up gphys cgphys level m =
     (if level < EPT_LEVELS \<and> gphys AND m \<noteq> cgphys AND m
      then move_up gphys cgphys (Suc level) (push_bit 9 m) else level)"
  by pat_completeness auto
termination by (relation "measure (\<lambda>(g, c, l, m). EPT_LEVELS - l)") auto

declare move_up.simps [simp del]

text \<open>The second loop: down the tables until an entry is missing, large or of the last level.\<close>

fun move_down :: "u64 \<Rightarrow> nat \<Rightarrow> u64 \<Rightarrow> vt_ept \<Rightarrow> vt_ept" where
  "move_down gphys 0 p ept = ept"
| "move_down gphys (Suc level) p ept =
     (let e = tables ept p in
      if e AND EPTE_READ = 0 \<or> e AND EPTE_LARGE \<noteq> 0 then ept
      else
        let e = e AND NOT PAGESIZE_MASK;
            p = e OR (drop_bit (9 * Suc level) gphys AND 0xFF8)
        in move_down gphys level p
             (ept\<lparr>cur_level := level, cur_entry := (cur_entry ept)(level := p)\<rparr>))"

definition cur_move :: "u64 \<Rightarrow> vt_ept \<Rightarrow> vt_ept" where
  "cur_move gphys ept =
     (let mask = 0xFFFFFFFFFFFFF000;
          mask = (if cur_level ept > 0 then push_bit (9 * cur_level ept) mask else mask);
          ept = ept\<lparr>cur_level := move_up gphys (cur_gphys ept) (cur_level ept) mask, cur_gphys := gphys\<rparr>
      in if cur_level ept = 0 then ept
         else
           let ept = (if cur_level ept \<ge> EPT_LEVELS
                      then ept\<lparr>cur_entry := (cur_entry ept)(EPT_LEVELS - 1 :=
                                 ncr3tbl ept + (drop_bit (EPT_LEVELS * 9 + 3) gphys AND 0x1FF) * 8),
                               cur_level := EPT_LEVELS - 1\<rparr>
                      else ept)
           in move_down gphys (cur_level ept) (cur_entry ept (cur_level ept)) ept)"

text \<open>The loop of \<open>cur_fill\<close>: new tables down to \<open>level\<close>; the result is the last entry.\<close>

fun fill_tables :: "u64 \<Rightarrow> nat \<Rightarrow> nat \<Rightarrow> u64 \<Rightarrow> vt_ept \<Rightarrow> u64 \<times> vt_ept" where
  "fill_tables gphys level 0 p ept = (p, ept)"
| "fill_tables gphys level (Suc l) p ept =
     (if Suc l > level then
        let new = tbl ept (cnt ept);
            t = (tables ept)(p := new OR EPTE_READEXEC OR EPTE_WRITE);
            t = clear_page new t;
            p = new + (drop_bit (9 * Suc l + 3) gphys AND 0x1FF) * 8
        in fill_tables gphys level l p (ept\<lparr>tables := t, cnt := Suc (cnt ept)\<rparr>)
      else (p, ept))"

definition cur_fill :: "u64 \<Rightarrow> nat \<Rightarrow> vt_ept \<Rightarrow> u64 \<times> vt_ept" where
  "cur_fill gphys level ept =
     (let ept = (if int (cnt ept) + int (cur_level ept) - int level > int NUM_OF_EPTBL
                 then ept\<lparr>tables := clear_page (ncr3tbl ept) (tables ept), cleared := True, cnt := 0,
                          flushes := Suc (flushes ept), cur_level := EPT_LEVELS - 1\<rparr>
                 else ept)
      in fill_tables gphys level (cur_level ept) (cur_entry ept (cur_level ept)) ept)"

section \<open>Mapping\<close>

text \<open>\<open>None\<close> is a panic.\<close>

definition vt_ept_map_page_sub :: "ept_env \<Rightarrow> bool \<Rightarrow> u64 \<Rightarrow> vt_ept \<Rightarrow> vt_ept option" where
  "vt_ept_map_page_sub env write gphys ept =
     (let ept = cur_move gphys ept;
          (p, ept) = cur_fill gphys 0 ept;
          (hp, fakerom) = gmm_pass_gp2hp (gmm env) gphys;
          hphys = hp AND NOT PAGESIZE_MASK
      in if fakerom \<and> write then None
         else
           let hattr = push_bit 3 (ucast (cache_get_gmtrr_type gphys (cache env)) :: u32)
                         OR 0x5 OR 0x2;
               hattr = (if fakerom then hattr AND NOT 0x2 else hattr)
           in Some (ept\<lparr>tables := (tables ept)(p := hphys OR ucast hattr)\<rparr>))"

text \<open>The result \<open>True\<close>: the large page cannot be mapped.\<close>

definition vt_ept_map_2mpage :: "ept_env \<Rightarrow> u64 \<Rightarrow> vt_ept \<Rightarrow> bool \<times> vt_ept" where
  "vt_ept_map_2mpage env gphys ept =
     (let ept = cur_move gphys ept;
          base = gphys AND NOT PAGESIZE2M_MASK
      in if cur_level ept = 0 then (True, ept)
         else
           let hphys = gmm_pass_gp2hp_2m (gmm env) base
           in if hphys = GMM_GP2HP_2M_FAIL then (True, ept)
              else if \<not> cache_gmtrr_type_equal base PAGESIZE2M_MASK (cache env) then (True, ept)
              else
                let hattr = push_bit 3 (ucast (cache_get_gmtrr_type base (cache env)) :: u32)
                              OR 0x5 OR 0x2 OR 0x80;
                    (p, ept) = cur_fill gphys 1 ept
                in (False, ept\<lparr>tables := (tables ept)(p := hphys OR ucast hattr)\<rparr>))"

definition vt_ept_level :: "u64 \<Rightarrow> vt_ept \<Rightarrow> nat \<times> vt_ept" where
  "vt_ept_level gphys ept = (let ept = cur_move gphys ept in (cur_level ept, ept))"

text \<open>
  One range the firmware wants mapped, page by page or with a large page where nothing forbids it.
  The outer \<open>None\<close> is a loop that does not end, the inner one a panic.
\<close>

partial_function (option) map_range ::
  "ept_env \<Rightarrow> u64 \<Rightarrow> u64 \<Rightarrow> vt_ept \<Rightarrow> vt_ept option option" where
  "map_range env base len ept =
     (if len = 0 then Some (Some ept)
      else
        let (level, ept) = vt_ept_level base ept;
            (fail2m, ept) =
              (if level > 0 \<and> mmio_range (registry env) (base AND NOT PAGESIZE2M_MASK) 0x200000 = 0
               then vt_ept_map_2mpage env base ept else (True, ept));
            next_phys = mmio_range (registry env) base 0x1000;
            (size, r) =
              (if \<not> fail2m then ((base OR PAGESIZE2M_MASK) + 1 - base, Some ept)
               else if next_phys = 0 then (PAGESIZE, vt_ept_map_page_sub env True base ept)
               else ((next_phys - base + PAGESIZE - 1) AND NOT PAGESIZE_MASK, Some ept));
            size = (if size > len then len else size)
        in (case r of None \<Rightarrow> Some None | Some ept \<Rightarrow> map_range env (base + size) (len - size) ept))"

text \<open>
  The loop over the ranges; at most all entries of the firmware's list are visited, because the
  last one has no pages.
\<close>

fun map_ranges :: "ept_env \<Rightarrow> nat list \<Rightarrow> vt_ept \<Rightarrow> vt_ept option option" where
  "map_ranges env [] ept = Some (Some ept)"
| "map_ranges env (n # ns) ept =
     (let (nn, base, len) = gmm_pass_getforcemap (gmm env) n in
      case (if len = 0 then Some (Some ept)
            else map_range env (base AND NOT PAGESIZE_MASK) (len + (base AND PAGESIZE_MASK)) ept) of
        None \<Rightarrow> None
      | Some None \<Rightarrow> Some None
      | Some (Some ept) \<Rightarrow> if nn = 0 then Some (Some ept) else map_ranges env ns ept)"

definition force_count :: "ept_env \<Rightarrow> nat" where
  "force_count env = (case uefi_mmio_space (gmm env) of None \<Rightarrow> 1 | Some sp \<Rightarrow> length sp)"

definition vt_ept_map_page_clear_cleared :: "ept_env \<Rightarrow> vt_ept \<Rightarrow> vt_ept option option" where
  "vt_ept_map_page_clear_cleared env ept =
     (case map_ranges env [0..<force_count env] (ept\<lparr>cleared := False\<rparr>) of
        Some (Some ept) \<Rightarrow> Some (if cleared ept then None else Some ept)
      | r \<Rightarrow> r)"

definition vt_ept_map_page :: "ept_env \<Rightarrow> bool \<Rightarrow> u64 \<Rightarrow> vt_ept \<Rightarrow> vt_ept option option" where
  "vt_ept_map_page env write gphys ept =
     (case (if cleared ept then vt_ept_map_page_clear_cleared env ept else Some (Some ept)) of
        Some (Some ept) \<Rightarrow>
          (case vt_ept_map_page_sub env write gphys ept of
             None \<Rightarrow> Some None
           | Some ept \<Rightarrow> if cleared ept then vt_ept_map_page_clear_cleared env ept else Some (Some ept))
      | r \<Rightarrow> r)"

definition vt_ept_clear_all :: "vt_ept \<Rightarrow> vt_ept" where
  "vt_ept_clear_all ept =
     ept\<lparr>tables := clear_page (ncr3tbl ept) (tables ept), cleared := True, cnt := 0,
         cur_level := EPT_LEVELS, flushes := Suc (flushes ept)\<rparr>"

text \<open>
  Whether another processor maps part of a host range (then the result is \<open>True\<close>); the current
  one drops such entries.  \<open>is_current\<close> is \<open>p == current\<close>.
\<close>

fun mapsearch_entries ::
  "u64 \<Rightarrow> bool \<Rightarrow> u64 \<Rightarrow> u64 \<Rightarrow> u64 list \<Rightarrow> vt_ept \<Rightarrow> bool \<times> vt_ept" where
  "mapsearch_entries amask is_current start end [] ept = (False, ept)"
| "mapsearch_entries amask is_current start end (a # as) ept =
     (let e = tables ept a in
      if e AND EPTE_READ = 0 then mapsearch_entries amask is_current start end as ept
      else
        let tmp1 = e AND amask;
            tmp2 = tmp1 OR 0xFFF;
            tmp1 = (if e AND EPTE_LARGE \<noteq> 0 then tmp1 AND NOT 0x1FFFFF else tmp1);
            tmp2 = (if e AND EPTE_LARGE \<noteq> 0 then tmp2 OR 0x1FFFFF else tmp2)
        in if start \<le> tmp2 \<and> tmp1 \<le> end then
             (if \<not> is_current then (True, ept)
              else mapsearch_entries amask is_current start end as
                     (ept\<lparr>tables := (tables ept)(a := 0)\<rparr>))
           else mapsearch_entries amask is_current start end as ept)"

definition vt_ept_extern_mapsearch :: "u64 \<Rightarrow> bool \<Rightarrow> u64 \<Rightarrow> u64 \<Rightarrow> vt_ept \<Rightarrow> bool \<times> vt_ept" where
  "vt_ept_extern_mapsearch amask is_current start end ept =
     mapsearch_entries amask is_current start end
       (concat (map (\<lambda>i. map (\<lambda>j. tbl ept i + of_nat j * 8) [0..<512]) [0..<cnt ept])) ept"

fun map_pages :: "ept_env \<Rightarrow> u64 list \<Rightarrow> vt_ept \<Rightarrow> vt_ept option option" where
  "map_pages env [] ept = Some (Some ept)"
| "map_pages env (gp # gps) ept =
     (case (if mmio_access_page (registry env) gp False = Not_mmio
            then vt_ept_map_page env False gp ept else Some (Some ept)) of
        Some (Some ept) \<Rightarrow> map_pages env gps ept
      | r \<Rightarrow> r)"

definition vt_ept_map_1mb :: "ept_env \<Rightarrow> vt_ept \<Rightarrow> vt_ept option option" where
  "vt_ept_map_1mb env ept =
     map_pages env (map (\<lambda>i. of_nat i * PAGESIZE) [0..<256]) (vt_ept_clear_all ept)"

section \<open>Violations during a migration\<close>

definition vt_migration_range :: "u64 \<Rightarrow> bool" where
  "vt_migration_range gphys = list_ex (\<lambda>(s, e). gphys \<ge> s \<and> gphys \<le> e) ept_usable_mem_list"

text \<open>
  The message sent to \<open>echoctl\<close>: its type 4 and the address.  \<open>open\<close> is whether \<open>msgopen\<close> found the
  descriptor.
\<close>

definition send_msg_addr_req :: "bool \<Rightarrow> u64 \<Rightarrow> u64 list list" where
  "send_msg_addr_req found gphys = (if \<not> found then [] else [[4, gphys, 0]])"

text \<open>
  The wait: the list gives \<open>ept_recved\<close> and \<open>aft_mig_in_mmio = 0\<close> each time the loop looks, with a
  call of \<open>schedule\<close> in between; \<open>None\<close> while the loop has not ended.
\<close>

fun wait_recved :: "(bool \<times> bool) list \<Rightarrow> unit option" where
  "wait_recved [] = None"
| "wait_recved ((recved, ended) # obs) = (if recved \<or> ended then Some () else wait_recved obs)"

datatype violation = Interpreted | Waiting | Stuck | Panicked | Mapped vt_ept

text \<open>
  The outcome of a violation, the messages sent, and whether \<open>ept_recved\<close> is set to false at the
  end.  \<open>aft_mig\<close> is \<open>aft_mig_in_mmio = 1\<close> at its start.
\<close>

definition vt_ept_violation ::
  "ept_env \<Rightarrow> bool \<Rightarrow> bool \<Rightarrow> (bool \<times> bool) list \<Rightarrow> bool \<Rightarrow> u64 \<Rightarrow> vt_ept
     \<Rightarrow> violation \<times> u64 list list \<times> bool" where
  "vt_ept_violation env aft_mig found obs write gphys ept =
     (let outcome = (\<lambda>r. case r of None \<Rightarrow> Stuck | Some None \<Rightarrow> Panicked | Some (Some ept) \<Rightarrow> Mapped ept);
          r = vt_ept_map_page env write gphys ept
      in if mmio_access_page (registry env) gphys True \<noteq> Not_mmio then (Interpreted, [], False)
         else if aft_mig \<and> vt_migration_range gphys then
           (case wait_recved obs of
              None \<Rightarrow> (Waiting, send_msg_addr_req found gphys, False)
            | Some _ \<Rightarrow> (outcome r, send_msg_addr_req found gphys, case r of Some (Some _) \<Rightarrow> True | _ \<Rightarrow> False))
         else (outcome r, [], False))"

end
