(* ===== verification/Vt_Ept_Walk.thy ===== *)
theory Vt_Ept_Walk
  imports Vt_Ept
begin

text \<open>
  The extended page tables as the processor reads them, and the lemmas that relate the cached path
  and the table pool of \<open>core/vt_ept.c\<close> to that reading.
\<close>

section \<open>Entries\<close>

definition aligned :: "u64 \<Rightarrow> bool" where "aligned T = (T AND PAGESIZE_MASK = 0)"

definition is_table :: "u64 \<Rightarrow> bool" where
  "is_table e = (e AND EPTE_READ \<noteq> 0 \<and> e AND EPTE_LARGE = 0)"

text \<open>The entry of level \<open>l\<close> for an address in the table \<open>T\<close>.\<close>

definition entry_at :: "u64 \<Rightarrow> nat \<Rightarrow> u64 \<Rightarrow> u64" where
  "entry_at T l gphys = T OR (drop_bit (9 * Suc l) gphys AND 0xFF8)"

lemma mask_words: "0xFF8 = mask 12 AND NOT (mask 3 :: u64)" "0x1FF = (mask 9 :: u64)"
  by (simp_all add: mask_eq_decr_exp)

lemma aligned_bit: "aligned T \<Longrightarrow> bit T n \<Longrightarrow> 12 \<le> n"
proof (rule ccontr)
  assume "aligned T" "bit T n" "\<not> 12 \<le> n"
  then have "bit (T AND mask 12) n" by (simp add: bit_simps)
  then show False using \<open>aligned T\<close> by (simp add: aligned_def page_masks)
qed

lemma aligned_low: "aligned T \<Longrightarrow> n < 12 \<Longrightarrow> \<not> bit T n"
  using aligned_bit not_less by blast

lemma entry_at_plus:
  assumes "aligned T"
  shows "T + (drop_bit (9 * Suc l + 3) gp AND 0x1FF) * 8 = entry_at T l gp"
proof -
  have "push_bit 3 (drop_bit (9 * Suc l + 3) gp AND 0x1FF) = drop_bit (9 * Suc l) gp AND 0xFF8"
    unfolding mask_words by (rule bit_word_eqI) (auto simp: bit_simps algebra_simps)
  moreover have "(drop_bit (9 * Suc l + 3) gp AND 0x1FF) * 8 = push_bit 3 (drop_bit (9 * Suc l + 3) gp AND 0x1FF)"
    by (simp add: push_bit_eq_mult)
  ultimately have e: "(drop_bit (9 * Suc l + 3) gp AND 0x1FF) * 8 = drop_bit (9 * Suc l) gp AND 0xFF8"
    by (simp only:)
  show ?thesis unfolding e unfolding entry_at_def mask_words
    by (rule disjunctive_add_eq_or) (auto intro!: bit_word_eqI simp: bit_simps aligned_low [OF assms])
qed

lemma entry_at_page:
  assumes "aligned T"
  shows "entry_at T l gp AND NOT PAGESIZE_MASK = T"
  unfolding entry_at_def page_masks mask_words
  by (rule bit_word_eqI) (auto simp: bit_simps dest: aligned_bit [OF assms])

text \<open>The page number an entry of depth \<open>d\<close> stands for: the first \<open>d\<close> indices of the address.\<close>

definition rgn :: "nat \<Rightarrow> u64 \<Rightarrow> u64" where
  "rgn d gp = drop_bit (48 - 9 * d) gp AND mask (9 * d)"

lemma bit_rgn: "d \<le> 4 \<Longrightarrow> bit (rgn d gp) n \<longleftrightarrow> n < 9 * d \<and> bit gp (48 - 9 * d + n)"
  by (auto simp: rgn_def bit_simps dest: bit_imp_le_length)

lemma rgn_eq_iff:
  assumes "d \<le> 4"
  shows "rgn d gp = rgn d gp' \<longleftrightarrow> (\<forall>n. 48 - 9 * d \<le> n \<and> n < 48 \<longrightarrow> bit gp n = bit gp' n)"
proof
  assume e: "rgn d gp = rgn d gp'"
  show "\<forall>n. 48 - 9 * d \<le> n \<and> n < 48 \<longrightarrow> bit gp n = bit gp' n"
  proof (intro allI impI)
    fix n assume "48 - 9 * d \<le> n \<and> n < 48"
    then show "bit gp n = bit gp' n"
      using bit_rgn [OF assms, of gp "n - (48 - 9 * d)"] bit_rgn [OF assms, of gp' "n - (48 - 9 * d)"] e assms
      by auto
  qed
next
  assume h: "\<forall>n. 48 - 9 * d \<le> n \<and> n < 48 \<longrightarrow> bit gp n = bit gp' n"
  have "bit gp (48 - 9 * d + n) = bit gp' (48 - 9 * d + n)" if "n < 9 * d" for n
  proof -
    have "48 - 9 * d \<le> 48 - 9 * d + n \<and> 48 - 9 * d + n < 48" using assms that by auto
    with h show ?thesis by blast
  qed
  then show "rgn d gp = rgn d gp'" by (intro bit_word_eqI) (auto simp only: bit_rgn [OF assms])
qed

lemma rgn_mono: "rgn d gp = rgn d gp' \<Longrightarrow> k \<le> d \<Longrightarrow> d \<le> 4 \<Longrightarrow> rgn k gp = rgn k gp'"
  using rgn_eq_iff [of d gp gp'] rgn_eq_iff [of k gp gp'] by auto

lemma entry_off_eq_iff:
  assumes "l \<le> 3"
  shows "drop_bit (9 * Suc l) gp AND 0xFF8 = drop_bit (9 * Suc l) gp' AND (0xFF8 :: u64)
    \<longleftrightarrow> (\<forall>n. 9 * l + 12 \<le> n \<and> n < 9 * l + 21 \<longrightarrow> bit gp n = bit gp' n)"
proof
  assume e: "drop_bit (9 * Suc l) gp AND 0xFF8 = drop_bit (9 * Suc l) gp' AND (0xFF8 :: u64)"
  show "\<forall>n. 9 * l + 12 \<le> n \<and> n < 9 * l + 21 \<longrightarrow> bit gp n = bit gp' n"
  proof (intro allI impI)
    fix n assume n: "9 * l + 12 \<le> n \<and> n < 9 * l + 21"
    have "bit (drop_bit (9 * Suc l) gp AND 0xFF8) (n - 9 * Suc l) = bit (drop_bit (9 * Suc l) gp' AND 0xFF8) (n - 9 * Suc l)"
      by (simp only: e)
    then show "bit gp n = bit gp' n" using n unfolding mask_words by (auto simp: bit_simps)
  qed
next
  assume "\<forall>n. 9 * l + 12 \<le> n \<and> n < 9 * l + 21 \<longrightarrow> bit gp n = bit gp' n"
  then show "drop_bit (9 * Suc l) gp AND 0xFF8 = drop_bit (9 * Suc l) gp' AND (0xFF8 :: u64)"
    unfolding mask_words by (intro bit_word_eqI) (auto simp: bit_simps)
qed

lemma rgn_Suc_iff:
  assumes "d \<le> 3"
  shows "rgn (Suc d) gp = rgn (Suc d) gp' \<longleftrightarrow> rgn d gp = rgn d gp'
    \<and> drop_bit (9 * Suc (3 - d)) gp AND 0xFF8 = drop_bit (9 * Suc (3 - d)) gp' AND 0xFF8"
proof -
  define k where "k = 9 * (3 - d) + 12"
  have k: "48 - 9 * d = k + 9" "48 - 9 * Suc d = k" using assms by (auto simp: k_def)
  have A: "rgn (Suc d) gp = rgn (Suc d) gp' \<longleftrightarrow> (\<forall>n. k \<le> n \<and> n < 48 \<longrightarrow> bit gp n = bit gp' n)"
    using rgn_eq_iff [of "Suc d" gp gp'] assms unfolding k by simp
  have B: "rgn d gp = rgn d gp' \<longleftrightarrow> (\<forall>n. k + 9 \<le> n \<and> n < 48 \<longrightarrow> bit gp n = bit gp' n)"
    using rgn_eq_iff [of d gp gp'] assms unfolding k by simp
  have e: "9 * (3 - d) + 12 = k" "9 * (3 - d) + 21 = k + 9" by (simp_all add: k_def)
  have C: "drop_bit (9 * Suc (3 - d)) gp AND 0xFF8 = drop_bit (9 * Suc (3 - d)) gp' AND 0xFF8
      \<longleftrightarrow> (\<forall>n. k \<le> n \<and> n < k + 9 \<longrightarrow> bit gp n = bit gp' n)"
    by (rule entry_off_eq_iff [of "3 - d" gp gp', OF diff_le_self, unfolded e])
  have "k + 9 \<le> 48" unfolding k(1) [symmetric] by simp
  then show ?thesis unfolding A B C by (meson le_less_trans less_le_trans not_less add_leD1)
qed

lemma entry_at_inj:
  assumes "aligned T" "aligned T'" "entry_at T l gp = entry_at T' l' gp'"
  shows "T = T' \<and> drop_bit (9 * Suc l) gp AND 0xFF8 = drop_bit (9 * Suc l') gp' AND 0xFF8"
proof -
  have e: "T = T'" using entry_at_page [OF assms(1), of l gp] entry_at_page [OF assms(2), of l' gp'] assms(3) by simp
  have "bit (drop_bit (9 * Suc l) gp AND 0xFF8) n = bit (drop_bit (9 * Suc l') gp' AND 0xFF8) n" for n
  proof -
    have "bit (entry_at T l gp) n = bit (entry_at T' l' gp') n" by (simp only: assms(3))
    then show ?thesis using aligned_bit [OF assms(1), of n] unfolding entry_at_def e mask_words
      by (auto simp: bit_simps)
  qed
  then show ?thesis using e by (auto intro: bit_word_eqI)
qed

section \<open>The walk of the processor\<close>

text \<open>
  From the entry \<open>p\<close> of a level down to the first entry that is no pointer to a table: the level
  reached and the entry.
\<close>

fun walk :: "(u64 \<Rightarrow> u64) \<Rightarrow> u64 \<Rightarrow> nat \<Rightarrow> u64 \<Rightarrow> nat \<times> u64" where
  "walk t gphys 0 p = (0, p)"
| "walk t gphys (Suc l) p =
     (if is_table (t p) then walk t gphys l (entry_at (t p AND NOT PAGESIZE_MASK) l gphys) else (Suc l, p))"

definition ept_walk :: "vt_ept \<Rightarrow> u64 \<Rightarrow> nat \<times> u64" where
  "ept_walk e gphys = walk (tables e) gphys 3 (entry_at (ncr3tbl e) 3 gphys)"

text \<open>The mapping of a guest address: the level of the mapping (0 a page, 1 2MB) and its entry.\<close>

definition ept_lookup :: "vt_ept \<Rightarrow> u64 \<Rightarrow> (nat \<times> u64) option" where
  "ept_lookup e gphys =
     (let (l, p) = ept_walk e gphys
      in if tables e p AND EPTE_READ = 0 then None else Some (l, tables e p))"

text \<open>The entry of depth \<open>d\<close> the walk passes, if it gets there.\<close>

fun slot :: "vt_ept \<Rightarrow> u64 \<Rightarrow> nat \<Rightarrow> u64 option" where
  "slot e gphys 0 = Some (entry_at (ncr3tbl e) 3 gphys)"
| "slot e gphys (Suc d) =
     (case slot e gphys d of
        None \<Rightarrow> None
      | Some p \<Rightarrow> if is_table (tables e p)
                  then Some (entry_at (tables e p AND NOT PAGESIZE_MASK) (2 - d) gphys) else None)"

definition leaf :: "vt_ept \<Rightarrow> u64 \<Rightarrow> nat \<Rightarrow> u64 \<Rightarrow> bool" where
  "leaf e gphys d p = (d \<le> 3 \<and> slot e gphys d = Some p \<and> (d = 3 \<or> \<not> is_table (tables e p)))"

lemma walk_leaf:
  "slot e gphys d = Some p \<Longrightarrow> n + d = 3 \<Longrightarrow> \<exists>d' q. walk (tables e) gphys n p = (3 - d', q) \<and> leaf e gphys d' q"
proof (induction n arbitrary: d p)
  case 0
  then have "walk (tables e) gphys 0 p = (3 - 3, p) \<and> leaf e gphys 3 p" by (simp add: leaf_def)
  then show ?case by blast
next
  case (Suc n)
  show ?case
  proof (cases "is_table (tables e p)")
    case True
    have "2 - d = n" using Suc.prems(2) by simp
    then have "slot e gphys (Suc d) = Some (entry_at (tables e p AND NOT PAGESIZE_MASK) n gphys)"
      using Suc.prems(1) True by simp
    from Suc.IH [OF this] Suc.prems(2) True show ?thesis by simp
  next
    case False
    then have "walk (tables e) gphys (Suc n) p = (3 - d, p) \<and> leaf e gphys d p"
      using Suc.prems by (auto simp: leaf_def)
    then show ?thesis by blast
  qed
qed

lemma slot_prefix:
  "slot e gphys d = Some p \<Longrightarrow> k < d \<Longrightarrow> \<exists>q. slot e gphys k = Some q \<and> is_table (tables e q)"
proof (induction d arbitrary: p)
  case (Suc d)
  then show ?case by (cases "k = d") (auto split: option.splits if_splits)
qed simp

lemma leaf_unique:
  assumes "leaf e gphys d p" "leaf e gphys d' p'"
  shows "d = d' \<and> p = p'"
proof -
  have "\<not> d < d'" using slot_prefix [of e gphys d' p' d] assms by (auto simp: leaf_def)
  moreover have "\<not> d' < d" using slot_prefix [of e gphys d p d'] assms by (auto simp: leaf_def)
  ultimately show ?thesis using assms by (auto simp: leaf_def)
qed

lemma ept_walk_leaf:
  assumes "leaf e gphys d p"
  shows "ept_walk e gphys = (3 - d, p)"
proof -
  obtain d' q where "ept_walk e gphys = (3 - d', q)" "leaf e gphys d' q"
    using walk_leaf [of e gphys 0 _ 3] unfolding ept_walk_def by auto
  then show ?thesis using leaf_unique [OF assms] by auto
qed

lemma leaf_exists: "\<exists>d p. leaf e gphys d p"
  using walk_leaf [of e gphys 0 _ 3] by auto

lemma ept_lookup_leaf:
  "leaf e gphys d p \<Longrightarrow> ept_lookup e gphys
     = (if tables e p AND EPTE_READ = 0 then None else Some (3 - d, tables e p))"
  by (simp add: ept_lookup_def ept_walk_leaf)

lemma slot_cong:
  assumes "\<And>j q. j < d \<Longrightarrow> slot e gphys j = Some q \<Longrightarrow> tables e' q = tables e q"
    and "ncr3tbl e' = ncr3tbl e"
  shows "slot e' gphys d = slot e gphys d"
  using assms(1)
proof (induction d)
  case (Suc d)
  have "slot e' gphys d = slot e gphys d"
  proof (rule Suc.IH)
    fix j q assume "j < d" "slot e gphys j = Some q"
    then show "tables e' q = tables e q" using Suc.prems [of j q] by simp
  qed
  then show ?case using Suc.prems [of d] by (auto split: option.splits)
qed (simp add: assms(2))

lemma slot_region:
  "rgn (Suc d) gp = rgn (Suc d) gp' \<Longrightarrow> d \<le> 3 \<Longrightarrow> slot e gp d = slot e gp' d"
proof (induction d)
  case 0
  then show ?case using rgn_Suc_iff [of 0 gp gp'] by (simp add: entry_at_def)
next
  case (Suc d)
  have "rgn (Suc d) gp = rgn (Suc d) gp'" "3 - Suc d = 2 - d"
    "drop_bit (9 * Suc (3 - Suc d)) gp AND 0xFF8 = drop_bit (9 * Suc (3 - Suc d)) gp' AND 0xFF8"
    using rgn_Suc_iff [of "Suc d" gp gp'] Suc.prems by auto
  then show ?case using Suc.IH Suc.prems(2) by (auto simp: entry_at_def split: option.splits)
qed

section \<open>The tree of tables\<close>

text \<open>
  \<open>dp i\<close> and \<open>pf i\<close> are the depth of the table \<open>i\<close> of the pool and the region it stands for.  An entry
  of the tables in use, and what it may point to: a table of the next depth for its region.  No
  other entry points there, since two entries of one depth stand for different regions.
\<close>

definition node_entry :: "(nat \<Rightarrow> nat) \<Rightarrow> (nat \<Rightarrow> u64) \<Rightarrow> vt_ept \<Rightarrow> nat \<Rightarrow> u64 \<Rightarrow> u64 \<Rightarrow> bool" where
  "node_entry dp pf e d gphys p =
     ((d = 0 \<and> p = entry_at (ncr3tbl e) 3 gphys)
      \<or> (\<exists>i < cnt e. dp i = d \<and> pf i = rgn d gphys \<and> p = entry_at (tbl e i) (3 - d) gphys))"

definition pool_ok :: "vt_ept \<Rightarrow> bool" where
  "pool_ok e = (aligned (ncr3tbl e) \<and> (\<forall>i < NUM_OF_EPTBL. aligned (tbl e i) \<and> tbl e i \<noteq> ncr3tbl e)
     \<and> inj_on (tbl e) {..<NUM_OF_EPTBL} \<and> cnt e \<le> NUM_OF_EPTBL)"

definition ept_tree :: "(nat \<Rightarrow> nat) \<Rightarrow> (nat \<Rightarrow> u64) \<Rightarrow> vt_ept \<Rightarrow> bool" where
  "ept_tree dp pf e =
     (pool_ok e \<and> (\<forall>i < cnt e. 1 \<le> dp i \<and> dp i \<le> 3)
      \<and> (\<forall>d < 3. \<forall>gp p. node_entry dp pf e d gp p \<and> is_table (tables e p) \<longrightarrow>
           (\<exists>i < cnt e. tables e p AND NOT PAGESIZE_MASK = tbl e i \<and> dp i = Suc d \<and> pf i = rgn (Suc d) gp)))"

lemma node_page:
  assumes "pool_ok e" "node_entry dp pf e d gp p"
  shows "(d = 0 \<and> p AND NOT PAGESIZE_MASK = ncr3tbl e)
    \<or> (\<exists>i < cnt e. dp i = d \<and> pf i = rgn d gp \<and> p AND NOT PAGESIZE_MASK = tbl e i)"
  using assms entry_at_page unfolding node_entry_def pool_ok_def by fastforce

lemma node_inj:
  assumes t: "ept_tree dp pf e" and n: "node_entry dp pf e d gp p" "node_entry dp pf e d' gp' p"
    and d: "d \<le> 3" "d' \<le> 3"
  shows "d = d' \<and> rgn (Suc d) gp = rgn (Suc d) gp'"
proof -
  have po: "pool_ok e" and dp: "\<And>i. i < cnt e \<Longrightarrow> 1 \<le> dp i" using t by (auto simp: ept_tree_def)
  have al: "aligned (ncr3tbl e)" "\<And>i. i < cnt e \<Longrightarrow> aligned (tbl e i)" "\<And>i. i < cnt e \<Longrightarrow> tbl e i \<noteq> ncr3tbl e"
    "\<And>i j. i < cnt e \<Longrightarrow> j < cnt e \<Longrightarrow> tbl e i = tbl e j \<Longrightarrow> i = j"
    using po by (auto simp: pool_ok_def inj_on_def)
  from n(1) consider (root) "d = 0" "p = entry_at (ncr3tbl e) 3 gp"
    | (table) i where "i < cnt e" "dp i = d" "pf i = rgn d gp" "p = entry_at (tbl e i) (3 - d) gp"
    unfolding node_entry_def by blast
  then show ?thesis
  proof cases
    case root
    from n(2) have "d' = 0 \<and> p = entry_at (ncr3tbl e) 3 gp'"
      unfolding node_entry_def using root entry_at_inj [OF al(1,2)] al(3) by metis
    then show ?thesis
      using root entry_at_inj [OF al(1) al(1), of 3 gp 3 gp'] rgn_Suc_iff [of 0 gp gp'] by (simp add: rgn_def)
  next
    case table
    from n(2) have "\<exists>j < cnt e. dp j = d' \<and> pf j = rgn d' gp' \<and> p = entry_at (tbl e j) (3 - d') gp'"
      unfolding node_entry_def using table entry_at_inj [OF al(1,2)] al(3) by metis
    then obtain j where j: "j < cnt e" "dp j = d'" "pf j = rgn d' gp'" "p = entry_at (tbl e j) (3 - d') gp'" by blast
    have eq: "entry_at (tbl e i) (3 - d) gp = entry_at (tbl e j) (3 - d') gp'" using table(4) j(4) by simp
    have ei: "tbl e i = tbl e j \<and> drop_bit (9 * Suc (3 - d)) gp AND 0xFF8 = drop_bit (9 * Suc (3 - d')) gp' AND 0xFF8"
      by (rule entry_at_inj [OF al(2) [OF table(1)] al(2) [OF j(1)] eq])
    then have "i = j" using al(4) [OF table(1) j(1)] by blast
    then show ?thesis using table j ei rgn_Suc_iff [of d gp gp'] d by simp
  qed
qed

lemma slot_node:
  assumes "ept_tree dp pf e"
  shows "slot e gp d = Some p \<Longrightarrow> d \<le> 3 \<Longrightarrow> node_entry dp pf e d gp p"
proof (induction d arbitrary: p)
  case 0
  then show ?case by (simp add: node_entry_def)
next
  case (Suc d)
  then obtain q where q: "slot e gp d = Some q" "is_table (tables e q)"
    "p = entry_at (tables e q AND NOT PAGESIZE_MASK) (2 - d) gp" by (auto split: option.splits if_splits)
  have "node_entry dp pf e d gp q" using Suc.IH [OF q(1)] Suc.prems(2) by simp
  then obtain i where "i < cnt e" "tables e q AND NOT PAGESIZE_MASK = tbl e i" "dp i = Suc d" "pf i = rgn (Suc d) gp"
    using assms q(2) Suc.prems(2) unfolding ept_tree_def by (metis Suc_le_lessD eval_nat_numeral(3))
  moreover have "3 - Suc d = 2 - d" by simp
  ultimately show ?case unfolding node_entry_def q(3) by metis
qed

section \<open>A new table\<close>

lemma clear_page_in: "a AND NOT PAGESIZE_MASK = p \<Longrightarrow> clear_page p t a = 0"
  and clear_page_out: "a AND NOT PAGESIZE_MASK \<noteq> p \<Longrightarrow> clear_page p t a = t a"
  by (simp_all add: clear_page_def)

lemma table_entry:
  assumes "aligned T"
  shows "is_table (T OR EPTE_READEXEC OR EPTE_WRITE)"
    and "(T OR EPTE_READEXEC OR EPTE_WRITE) AND NOT PAGESIZE_MASK = T"
proof -
  have c: "EPTE_READEXEC OR EPTE_WRITE = mask 3" by (simp add: mask_eq_decr_exp)
  show "(T OR EPTE_READEXEC OR EPTE_WRITE) AND NOT PAGESIZE_MASK = T"
    unfolding or.assoc c page_masks by (rule bit_word_eqI) (auto simp: bit_simps aligned_low [OF assms] dest: aligned_bit [OF assms])
  have "(T OR mask 3) AND 2 ^ 0 \<noteq> 0" unfolding and_exp_eq_0_iff_not_bit by (simp add: bit_simps)
  moreover have "(T OR mask 3) AND 2 ^ 7 = 0"
    unfolding and_exp_eq_0_iff_not_bit by (simp add: bit_simps aligned_low [OF assms])
  ultimately show "is_table (T OR EPTE_READEXEC OR EPTE_WRITE)"
    unfolding is_table_def or.assoc c by simp
qed

definition add_table :: "u64 \<Rightarrow> vt_ept \<Rightarrow> vt_ept" where
  "add_table p e = e\<lparr>tables := clear_page (tbl e (cnt e)) ((tables e)(p := tbl e (cnt e) OR EPTE_READEXEC OR EPTE_WRITE)),
     cnt := Suc (cnt e)\<rparr>"

lemma add_table_fields [simp]:
  "ncr3tbl (add_table p e) = ncr3tbl e" "tbl (add_table p e) = tbl e" "cnt (add_table p e) = Suc (cnt e)"
  "cur_level (add_table p e) = cur_level e" "cur_entry (add_table p e) = cur_entry e"
  "cur_gphys (add_table p e) = cur_gphys e" "cleared (add_table p e) = cleared e" "flushes (add_table p e) = flushes e"
  by (simp_all add: add_table_def)

lemma add_table_tree:
  assumes t: "ept_tree dp pf e" and s: "slot e gp d = Some p" and d: "d < 3"
    and nt: "\<not> is_table (tables e p)" and c: "cnt e < NUM_OF_EPTBL"
  defines "dp1 \<equiv> dp(cnt e := Suc d)" and "pf1 \<equiv> pf(cnt e := rgn (Suc d) gp)"
  shows "ept_tree dp1 pf1 (add_table p e)"
    and "\<And>k gp' q. node_entry dp pf e k gp' q \<Longrightarrow> tables (add_table p e) q
        = (if q = p then tbl e (cnt e) OR EPTE_READEXEC OR EPTE_WRITE else tables e q)"
    and "\<And>l gp'. tables (add_table p e) (entry_at (tbl e (cnt e)) l gp') = 0"
proof -
  let ?n = "tbl e (cnt e)" and ?e = "add_table p e"
  have po: "pool_ok e" using t by (simp add: ept_tree_def)
  have al: "aligned ?n" "?n \<noteq> ncr3tbl e" using po c by (auto simp: pool_ok_def)
  have ne: "?n \<noteq> tbl e i" if "i < cnt e" for i
  proof
    assume "?n = tbl e i"
    moreover have "cnt e \<in> {..<NUM_OF_EPTBL}" "i \<in> {..<NUM_OF_EPTBL}" using that c by auto
    ultimately have "cnt e = i" using po unfolding pool_ok_def inj_on_def by blast
    then show False using that by simp
  qed
  note te = table_entry [OF al(1)]
  have p: "node_entry dp pf e d gp p" by (rule slot_node [OF t s]) (use d in simp)
  have ta: "tables ?e = clear_page ?n ((tables e)(p := ?n OR EPTE_READEXEC OR EPTE_WRITE))"
    by (simp add: add_table_def)
  show old: "tables ?e q = (if q = p then ?n OR EPTE_READEXEC OR EPTE_WRITE else tables e q)"
    if "node_entry dp pf e k gp' q" for k gp' q
  proof -
    have "q AND NOT PAGESIZE_MASK \<noteq> ?n" using node_page [OF po that] al(2) ne by metis
    then show ?thesis unfolding ta clear_page_out [OF \<open>q AND NOT PAGESIZE_MASK \<noteq> ?n\<close>] by simp
  qed
  show new: "tables ?e (entry_at ?n l gp') = 0" for l gp'
    unfolding ta by (rule clear_page_in [OF entry_at_page [OF al(1)]])
  have nodes: "node_entry dp1 pf1 ?e k gp' q \<longleftrightarrow> node_entry dp pf e k gp' q
      \<or> (k = Suc d \<and> rgn (Suc d) gp = rgn (Suc d) gp' \<and> q = entry_at ?n (3 - Suc d) gp')" for k gp' q
  proof -
    have A: "(\<exists>i < Suc (cnt e). dp1 i = k \<and> pf1 i = rgn k gp' \<and> q = entry_at (tbl e i) (3 - k) gp')
      \<longleftrightarrow> (\<exists>i < cnt e. dp1 i = k \<and> pf1 i = rgn k gp' \<and> q = entry_at (tbl e i) (3 - k) gp')
        \<or> (dp1 (cnt e) = k \<and> pf1 (cnt e) = rgn k gp' \<and> q = entry_at ?n (3 - k) gp')"
      unfolding less_Suc_eq by blast
    have B: "(\<exists>i < cnt e. dp1 i = k \<and> pf1 i = rgn k gp' \<and> q = entry_at (tbl e i) (3 - k) gp')
      \<longleftrightarrow> (\<exists>i < cnt e. dp i = k \<and> pf i = rgn k gp' \<and> q = entry_at (tbl e i) (3 - k) gp')"
      by (rule ex_cong1) (auto simp: dp1_def pf1_def)
    have C: "dp1 (cnt e) = Suc d" "pf1 (cnt e) = rgn (Suc d) gp" by (simp_all add: dp1_def pf1_def)
    show ?thesis unfolding node_entry_def add_table_fields A B C by blast
  qed
  show "ept_tree dp1 pf1 ?e"
    unfolding ept_tree_def
  proof (intro conjI allI impI)
    show "pool_ok ?e" using po c by (simp add: pool_ok_def)
  next
    fix i assume "i < cnt ?e"
    then show "1 \<le> dp1 i" "dp1 i \<le> 3" using t d by (auto simp: dp1_def ept_tree_def less_Suc_eq)
  next
    fix k gp' q assume k: "k < 3" and a: "node_entry dp1 pf1 ?e k gp' q \<and> is_table (tables ?e q)"
    then have n: "node_entry dp pf e k gp' q" using nodes new by (auto simp: is_table_def)
    show "\<exists>i < cnt ?e. tables ?e q AND NOT PAGESIZE_MASK = tbl ?e i \<and> dp1 i = Suc k \<and> pf1 i = rgn (Suc k) gp'"
    proof (cases "q = p")
      case True
      then have "k = d \<and> rgn (Suc d) gp = rgn (Suc d) gp'"
        using node_inj [OF t p n [unfolded True]] k d by auto
      then show ?thesis using old [OF n] True te(2) by (intro exI [of _ "cnt e"]) (simp add: dp1_def pf1_def)
    next
      case False
      then have "is_table (tables e q)" "tables ?e q = tables e q" using old [OF n] a by auto
      then obtain i where "i < cnt e" "tables e q AND NOT PAGESIZE_MASK = tbl e i" "dp i = Suc k" "pf i = rgn (Suc k) gp'"
        using t n k unfolding ept_tree_def by blast
      then show ?thesis using \<open>tables ?e q = tables e q\<close> by (intro exI [of _ i]) (simp add: dp1_def pf1_def)
    qed
  qed
qed

text \<open>
  What the new table does to the walks: those of other regions are as they were, those of the
  entry's region end in the empty table.
\<close>

lemma add_table_slots:
  assumes t: "ept_tree dp pf e" and s: "slot e gp d = Some p" and d: "d < 3"
    and nt: "\<not> is_table (tables e p)" and c: "cnt e < NUM_OF_EPTBL"
  shows "k \<le> 3 \<Longrightarrow> k \<le> d \<or> rgn (Suc d) gp' \<noteq> rgn (Suc d) gp \<Longrightarrow> slot (add_table p e) gp' k = slot e gp' k"
    and "rgn (Suc d) gp' = rgn (Suc d) gp \<Longrightarrow>
      leaf (add_table p e) gp' (Suc d) (entry_at (tbl e (cnt e)) (2 - d) gp')"
proof -
  note at = add_table_tree [OF assms]
  have p: "node_entry dp pf e d gp p" by (rule slot_node [OF t s]) (use d in simp)
  show keep: "slot (add_table p e) gp' k = slot e gp' k" if "k \<le> 3" "k \<le> d \<or> rgn (Suc d) gp' \<noteq> rgn (Suc d) gp" for k gp'
  proof (rule slot_cong)
    fix j q assume j: "j < k" "slot e gp' j = Some q"
    have n: "node_entry dp pf e j gp' q" by (rule slot_node [OF t j(2)]) (use j that in simp)
    have "q \<noteq> p"
    proof
      assume "q = p"
      then have "j = d \<and> rgn (Suc d) gp' = rgn (Suc d) gp" using node_inj [OF t n [unfolded \<open>q = p\<close>] p] j that d by auto
      then show False using j that by auto
    qed
    then show "tables (add_table p e) q = tables e q" using at(2) [OF n] by simp
  qed simp
  show "leaf (add_table p e) gp' (Suc d) (entry_at (tbl e (cnt e)) (2 - d) gp')"
    if r: "rgn (Suc d) gp' = rgn (Suc d) gp"
  proof -
    have "slot e gp' d = Some p" using slot_region [OF r] s d by simp
    then have "slot (add_table p e) gp' d = Some p" using keep [of d gp'] d by simp
    moreover have al: "aligned (tbl e (cnt e))" using t c by (simp add: ept_tree_def pool_ok_def)
    ultimately have "slot (add_table p e) gp' (Suc d) = Some (entry_at (tbl e (cnt e)) (2 - d) gp')"
      using at(2) [OF p] table_entry [OF al] by simp
    then show ?thesis using d at(3) by (simp add: leaf_def is_table_def)
  qed
qed

section \<open>The cached path\<close>

text \<open>The entries of the cached path are those of a walk for the cached address.\<close>

definition path_ok :: "vt_ept \<Rightarrow> bool" where
  "path_ok e = (cur_level e \<le> EPT_LEVELS
     \<and> (\<forall>d \<le> 3. cur_level e \<le> 3 - d \<longrightarrow> slot e (cur_gphys e) d = Some (cur_entry e (3 - d))))"

definition same_tables :: "vt_ept \<Rightarrow> vt_ept \<Rightarrow> bool" where
  "same_tables e e' = (tables e' = tables e \<and> ncr3tbl e' = ncr3tbl e \<and> tbl e' = tbl e \<and> cnt e' = cnt e
     \<and> cleared e' = cleared e \<and> flushes e' = flushes e)"

lemma same_tables_slot: "same_tables e e' \<Longrightarrow> slot e' gp d = slot e gp d"
  by (rule slot_cong) (auto simp: same_tables_def)

lemma same_tables_leaf: "same_tables e e' \<Longrightarrow> leaf e' gp d p = leaf e gp d p"
  by (simp add: leaf_def same_tables_slot) (simp add: same_tables_def)

lemma same_tables_lookup: "same_tables e e' \<Longrightarrow> ept_lookup e' gp = ept_lookup e gp"
  by (simp add: ept_lookup_def ept_walk_def same_tables_def split: prod.split)

lemma same_tables_tree: "same_tables e e' \<Longrightarrow> ept_tree dp pf e' = ept_tree dp pf e"
  by (simp add: ept_tree_def node_entry_def pool_ok_def same_tables_def)

lemma move_up_spec:
  "level \<le> EPT_LEVELS \<Longrightarrow> m = push_bit (9 * level) 0xFFFFFFFFFFFFF000 \<Longrightarrow>
   level \<le> move_up gp c level m \<and> move_up gp c level m \<le> EPT_LEVELS
   \<and> (move_up gp c level m < EPT_LEVELS \<longrightarrow>
      gp AND push_bit (9 * move_up gp c level m) 0xFFFFFFFFFFFFF000
        = c AND push_bit (9 * move_up gp c level m) 0xFFFFFFFFFFFFF000)"
proof (induction gp c level m rule: move_up.induct)
  case (1 gp c level m)
  show ?case
  proof (cases "level < EPT_LEVELS \<and> gp AND m \<noteq> c AND m")
    case True
    have "push_bit 9 m = push_bit (9 * Suc level) 0xFFFFFFFFFFFFF000" unfolding 1(3) by (simp add: push_bit_push_bit)
    from 1(1) [OF True _ this] True show ?thesis by (simp add: move_up.simps [of gp c level m])
  next
    case False
    then have "move_up gp c level m = level" by (subst move_up.simps) auto
    then show ?thesis using 1(2) False unfolding 1(3) [symmetric] by (auto simp flip: 1(3))
  qed
qed

lemma page_mask_agree:
  assumes "gp AND push_bit (9 * l) 0xFFFFFFFFFFFFF000 = c AND push_bit (9 * l) 0xFFFFFFFFFFFFF000" "l + d = 3"
  shows "rgn (Suc d) gp = rgn (Suc d) c"
proof -
  have m: "0xFFFFFFFFFFFFF000 = (NOT (mask 12) :: u64)" by (simp add: mask_eq_decr_exp)
  have "bit gp n = bit c n" if "9 * l + 12 \<le> n" "n < 48" for n
  proof -
    have "bit (gp AND push_bit (9 * l) 0xFFFFFFFFFFFFF000) n = bit (c AND push_bit (9 * l) 0xFFFFFFFFFFFFF000) n"
      by (simp only: assms(1))
    then show ?thesis unfolding m using that by (auto simp: bit_simps)
  qed
  moreover have "48 - 9 * Suc d = 9 * l + 12" using assms(2) by auto
  ultimately show ?thesis using rgn_eq_iff [of "Suc d" gp c] assms(2) by auto
qed

lemma move_down_path:
  "cur_level e = l \<Longrightarrow> l \<le> 3 \<Longrightarrow> path_ok e \<Longrightarrow> cur_gphys e = gp \<Longrightarrow> p = cur_entry e l \<Longrightarrow>
   same_tables e (move_down gp l p e) \<and> path_ok (move_down gp l p e) \<and> cur_gphys (move_down gp l p e) = gp
   \<and> cur_level (move_down gp l p e) \<le> 3
   \<and> leaf e gp (3 - cur_level (move_down gp l p e))
       (cur_entry (move_down gp l p e) (cur_level (move_down gp l p e)))"
proof (induction l arbitrary: e p)
  case 0
  then have "slot e gp 3 = Some (cur_entry e 0)" unfolding path_ok_def by force
  then show ?case using 0 by (simp add: same_tables_def leaf_def)
next
  case (Suc l)
  have s: "slot e gp (3 - Suc l) = Some p" using Suc.prems unfolding path_ok_def by force
  show ?case
  proof (cases "is_table (tables e p)")
    case False
    then have "move_down gp (Suc l) p e = e" by (auto simp: is_table_def)
    then show ?thesis using Suc.prems s False by (simp add: same_tables_def leaf_def)
  next
    case True
    define q where "q = entry_at (tables e p AND NOT PAGESIZE_MASK) l gp"
    define e1 where "e1 = e\<lparr>cur_level := l, cur_entry := (cur_entry e)(l := q)\<rparr>"
    have md: "move_down gp (Suc l) p e = move_down gp l q e1"
      using True unfolding is_table_def by (simp add: e1_def q_def entry_at_def Let_def)
    have st: "same_tables e e1" by (simp add: same_tables_def e1_def)
    have "2 - (3 - Suc l) = l" "Suc (3 - Suc l) = 3 - l" using Suc.prems(2) by auto
    then have sl: "slot e gp (3 - l) = Some q" using s True slot.simps(2) [of e gp "3 - Suc l"] by (simp add: q_def)
    have "slot e gp d = Some (cur_entry e1 (3 - d))" if "d \<le> 3" "l \<le> 3 - d" for d
    proof (cases "3 - d = l")
      case True
      then have "d = 3 - l" using that by simp
      then show ?thesis using sl True by (simp add: e1_def)
    next
      case False
      then have "Suc l \<le> 3 - d" using that by simp
      then show ?thesis using Suc.prems that False unfolding path_ok_def by (simp add: e1_def)
    qed
    then have po: "path_ok e1"
      using Suc.prems by (simp add: path_ok_def same_tables_slot [OF st]) (simp add: e1_def EPT_LEVELS_def)
    have "cur_level e1 = l" "cur_gphys e1 = gp" "q = cur_entry e1 l" using Suc.prems by (simp_all add: e1_def)
    note ih = Suc.IH [OF this(1) _ po this(2,3)]
    show ?thesis unfolding md
      using ih Suc.prems(2) st same_tables_leaf [OF st] by (simp add: same_tables_def)
  qed
qed

lemma cur_move_lemma:
  assumes "path_ok e" "aligned (ncr3tbl e)"
  shows "ept_walk e gphys = (cur_level (cur_move gphys e), cur_entry (cur_move gphys e) (cur_level (cur_move gphys e)))
    \<and> path_ok (cur_move gphys e) \<and> cur_gphys (cur_move gphys e) = gphys \<and> same_tables e (cur_move gphys e)"
proof -
  define l where "l = move_up gphys (cur_gphys e) (cur_level e) (push_bit (9 * cur_level e) 0xFFFFFFFFFFFFF000)"
  have l: "cur_level e \<le> l" "l \<le> EPT_LEVELS" "l < EPT_LEVELS \<longrightarrow>
      gphys AND push_bit (9 * l) 0xFFFFFFFFFFFFF000 = cur_gphys e AND push_bit (9 * l) 0xFFFFFFFFFFFFF000"
    using move_up_spec [of "cur_level e" _ gphys "cur_gphys e"] assms(1) unfolding l_def path_ok_def by blast+
  have e0: "(if cur_level e > 0 then push_bit (9 * cur_level e) 0xFFFFFFFFFFFFF000 else 0xFFFFFFFFFFFFF000)
      = push_bit (9 * cur_level e) (0xFFFFFFFFFFFFF000 :: u64)" by simp
  define e1 where "e1 = e\<lparr>cur_level := l, cur_gphys := gphys\<rparr>"
  define e2 where "e2 = (if l \<ge> EPT_LEVELS
      then e1\<lparr>cur_entry := (cur_entry e)(3 := entry_at (ncr3tbl e) 3 gphys), cur_level := 3\<rparr> else e1)"
  have root: "ncr3tbl e + (drop_bit (EPT_LEVELS * 9 + 3) gphys AND 0x1FF) * 8 = entry_at (ncr3tbl e) 3 gphys"
    using entry_at_plus [OF assms(2), of 3 gphys] by (simp add: EPT_LEVELS_def)
  have st: "same_tables e e2" by (simp add: same_tables_def e1_def e2_def)
  have l2: "cur_level e2 \<le> 3" "cur_gphys e2 = gphys" using l(2) by (auto simp: e2_def e1_def EPT_LEVELS_def)
  have po: "path_ok e2"
  proof (cases "l \<ge> EPT_LEVELS")
    case True
    then have c: "cur_level e2 = 3" "cur_entry e2 3 = entry_at (ncr3tbl e) 3 gphys" by (simp_all add: e2_def)
    have "slot e gphys d = Some (cur_entry e2 (3 - d))" if "d \<le> 3" "3 \<le> 3 - d" for d
    proof -
      have "d = 0" using that by simp
      then show ?thesis using c by simp
    qed
    then show ?thesis using c l2 by (simp add: path_ok_def same_tables_slot [OF st] EPT_LEVELS_def)
  next
    case False
    have "slot e gphys d = Some (cur_entry e (3 - d))" if "d \<le> 3" "l \<le> 3 - d" for d
    proof -
      have "slot e (cur_gphys e) d = Some (cur_entry e (3 - d))"
        using assms(1) that l(1) by (auto simp: path_ok_def)
      moreover have "rgn (Suc (3 - l)) gphys = rgn (Suc (3 - l)) (cur_gphys e)"
        by (rule page_mask_agree [of gphys l]) (use l False in \<open>auto simp: EPT_LEVELS_def\<close>)
      then have "rgn (Suc d) gphys = rgn (Suc d) (cur_gphys e)" by (rule rgn_mono) (use that in auto)
      ultimately show ?thesis using slot_region [of d gphys "cur_gphys e" e] that by simp
    qed
    moreover have "cur_level e2 = l" "cur_entry e2 = cur_entry e" using False by (simp_all add: e2_def e1_def)
    ultimately show ?thesis using l l2(2) by (simp add: path_ok_def same_tables_slot [OF st])
  qed
  note md = move_down_path [OF refl l2(1) po l2(2) refl]
  have "cur_move gphys e = move_down gphys (cur_level e2) (cur_entry e2 (cur_level e2)) e2"
  proof (cases "l = 0")
    case True
    then show ?thesis unfolding cur_move_def e0 Let_def l_def [symmetric]
      by (simp add: e2_def e1_def EPT_LEVELS_def)
  next
    case False
    then show ?thesis unfolding cur_move_def e0 Let_def l_def [symmetric]
      using root by (simp add: e2_def e1_def EPT_LEVELS_def)
  qed
  then show ?thesis
    using md st ept_walk_leaf [of e gphys] same_tables_leaf [OF st] by (auto simp: same_tables_def)
qed

text \<open>
  C9: From a cached path the search for a guest address ends at exactly the level and the entry at
  which the processor's own walk of the tables ends, and changes no table.
\<close>

theorem cur_move_walk:
  assumes "path_ok e" "aligned (ncr3tbl e)"
  shows "ept_walk e gphys = (cur_level (cur_move gphys e), cur_entry (cur_move gphys e) (cur_level (cur_move gphys e)))
    \<and> path_ok (cur_move gphys e) \<and> cur_gphys (cur_move gphys e) = gphys \<and> same_tables e (cur_move gphys e)"
  by (rule cur_move_lemma [OF assms])

end
