(* ===== verification/Vt_Ept_Map.thy ===== *)
theory Vt_Ept_Map
  imports Vt_Ept_Walk
begin

text \<open>
  What the operations of \<open>core/vt_ept.c\<close> do to the mappings the processor sees.
\<close>

definition ept_ok :: "vt_ept \<Rightarrow> bool" where
  "ept_ok e = ((\<exists>dp pf. ept_tree dp pf e) \<and> path_ok e)"

text \<open>The parts of the state that only some operations change.\<close>

definition same_frame :: "vt_ept \<Rightarrow> vt_ept \<Rightarrow> bool" where
  "same_frame e e' = (ncr3tbl e' = ncr3tbl e \<and> tbl e' = tbl e \<and> cur_level e' = cur_level e
     \<and> cur_entry e' = cur_entry e \<and> cur_gphys e' = cur_gphys e \<and> cleared e' = cleared e \<and> flushes e' = flushes e)"

lemma add_table_frame: "same_frame e (add_table p e)"
  by (simp add: same_frame_def)

section \<open>Filling in tables\<close>

lemma path_ok_slots:
  assumes "path_ok e" "3 - d \<le> cur_level e"
    and "\<And>k. k \<le> d \<Longrightarrow> k \<le> 3 \<Longrightarrow> slot e' (cur_gphys e) k = slot e (cur_gphys e) k"
    and "cur_level e' = cur_level e" "cur_gphys e' = cur_gphys e" "cur_entry e' = cur_entry e"
  shows "path_ok e'"
  unfolding path_ok_def assms(4-6)
proof (intro conjI allI impI)
  show "cur_level e \<le> EPT_LEVELS" using assms(1) by (simp add: path_ok_def)
next
  fix k assume k: "k \<le> 3" "cur_level e \<le> 3 - k"
  then have "k \<le> d" using assms(2) by simp
  then show "slot e' (cur_gphys e) k = Some (cur_entry e (3 - k))"
    using assms(1,3) k by (simp add: path_ok_def)
qed

lemma add_table_path:
  assumes "ept_tree dp pf e" "slot e gp d = Some p" "d < 3" "\<not> is_table (tables e p)" "cnt e < NUM_OF_EPTBL"
    and "path_ok e" "3 - d \<le> cur_level e"
  shows "path_ok (add_table p e)"
  by (rule path_ok_slots [OF assms(6,7)]) (use add_table_slots(1) [OF assms(1-5)] assms(3) in auto)

lemma add_table_lookup:
  assumes "ept_tree dp pf e" "slot e gp d = Some p" "d < 3" "\<not> is_table (tables e p)" "cnt e < NUM_OF_EPTBL"
  shows "ept_lookup (add_table p e) gp' = (if rgn (Suc d) gp' = rgn (Suc d) gp then None else ept_lookup e gp')"
proof (cases "rgn (Suc d) gp' = rgn (Suc d) gp")
  case True
  then show ?thesis
    using ept_lookup_leaf [OF add_table_slots(2) [OF assms True]] add_table_tree(3) [OF assms] by simp
next
  case False
  obtain k q where l: "leaf e gp' k q" using leaf_exists by blast
  then have k: "k \<le> 3" "slot e gp' k = Some q" by (auto simp: leaf_def)
  have p: "node_entry dp pf e d gp p" by (rule slot_node [OF assms(1,2)]) (use assms(3) in simp)
  have n: "node_entry dp pf e k gp' q" by (rule slot_node [OF assms(1) k(2,1)])
  have "q \<noteq> p" using node_inj [OF assms(1) n, of d gp] p k(1) assms(3) False by auto
  then have "tables (add_table p e) q = tables e q" using add_table_tree(2) [OF assms n] by simp
  moreover have "slot (add_table p e) gp' k = Some q" using add_table_slots(1) [OF assms k(1), of gp'] False k(2) by simp
  ultimately have "leaf (add_table p e) gp' k q" using l by (simp add: leaf_def)
  then show ?thesis using ept_lookup_leaf [OF l] ept_lookup_leaf False \<open>tables (add_table p e) q = tables e q\<close> by simp
qed

lemma fill_tables_spec:
  "ept_tree dp pf e \<Longrightarrow> leaf e gp d p \<Longrightarrow> l + d = 3 \<Longrightarrow> level \<le> l \<Longrightarrow> cnt e + (l - level) \<le> NUM_OF_EPTBL
   \<Longrightarrow> path_ok e \<Longrightarrow> l \<le> cur_level e \<Longrightarrow> fill_tables gp level l p e = (q, e')
   \<Longrightarrow> (\<exists>dp' pf'. ept_tree dp' pf' e') \<and> path_ok e' \<and> same_frame e e' \<and> leaf e' gp (3 - level) q
     \<and> (level < l \<longrightarrow> tables e' q = 0) \<and> (level = l \<longrightarrow> e' = e)
     \<and> (\<forall>gp'. ept_lookup e' gp'
          = (if level < l \<and> rgn (Suc d) gp' = rgn (Suc d) gp then None else ept_lookup e gp'))"
proof (induction l arbitrary: dp pf e d p)
  case 0
  then have "q = p" "e' = e" "level = 0" "d = 3" by auto
  then show ?case using 0 by (auto simp: same_frame_def)
next
  case (Suc l)
  show ?case
  proof (cases "level < Suc l")
    case False
    then have "q = p" "e' = e" "level = Suc l" "3 - level = d" using Suc.prems by auto
    then show ?thesis using Suc.prems by (auto simp: same_frame_def)
  next
    case True
    have d: "d < 3" using Suc.prems(3) by simp
    have s: "slot e gp d = Some p" "\<not> is_table (tables e p)" using Suc.prems(2) d by (auto simp: leaf_def)
    have c: "cnt e < NUM_OF_EPTBL" using Suc.prems(5) True by simp
    have al: "aligned (tbl e (cnt e))" using Suc.prems(1) c by (simp add: ept_tree_def pool_ok_def)
    let ?p = "entry_at (tbl e (cnt e)) l gp"
    have l2: "2 - d = l" using Suc.prems(3) by simp
    have f: "fill_tables gp level l ?p (add_table p e) = (q, e')"
      using Suc.prems(8) True entry_at_plus [OF al, of l gp]
      by (simp add: add_table_def entry_at_def Let_def)
    note t1 = add_table_tree(1) [OF Suc.prems(1) s(1) d s(2) c]
    note lk = add_table_lookup [OF Suc.prems(1) s(1) d s(2) c]
    have lf: "leaf (add_table p e) gp (Suc d) ?p"
      using add_table_slots(2) [OF Suc.prems(1) s(1) d s(2) c refl] unfolding l2 .
    have po: "path_ok (add_table p e)"
      by (rule add_table_path [OF Suc.prems(1) s(1) d s(2) c Suc.prems(6)]) (use Suc.prems(3,7) in simp)
    have z: "tables (add_table p e) ?p = 0" by (rule add_table_tree(3) [OF Suc.prems(1) s(1) d s(2) c])
    have r: "rgn (Suc (Suc d)) gp' = rgn (Suc (Suc d)) gp \<Longrightarrow> rgn (Suc d) gp' = rgn (Suc d) gp" for gp'
      by (rule rgn_mono) (use d in auto)
    have ih: "(\<exists>dp' pf'. ept_tree dp' pf' e') \<and> path_ok e' \<and> same_frame (add_table p e) e' \<and> leaf e' gp (3 - level) q
     \<and> (level < l \<longrightarrow> tables e' q = 0) \<and> (level = l \<longrightarrow> e' = add_table p e)
     \<and> (\<forall>gp'. ept_lookup e' gp'
          = (if level < l \<and> rgn (Suc (Suc d)) gp' = rgn (Suc (Suc d)) gp then None else ept_lookup (add_table p e) gp'))"
      by (rule Suc.IH [OF t1 lf _ _ _ po _ f]) (use Suc.prems(3,4,5,7) True in auto)
    have "tables e' q = 0"
    proof (cases "level < l")
      case False
      then have "level = l" using True by simp
      moreover have "3 - l = Suc d" using Suc.prems(3) by simp
      ultimately have "e' = add_table p e" "leaf e' gp (Suc d) q" using ih by auto
      then show ?thesis using leaf_unique [OF lf] z by auto
    qed (use ih in auto)
    moreover have "same_frame e e'" using ih by (auto simp: same_frame_def)
    moreover have "ept_lookup e' gp' = (if rgn (Suc d) gp' = rgn (Suc d) gp then None else ept_lookup e gp')" for gp'
    proof -
      have "ept_lookup e' gp' = (if level < l \<and> rgn (Suc (Suc d)) gp' = rgn (Suc (Suc d)) gp then None
          else ept_lookup (add_table p e) gp')" using ih by blast
      then show ?thesis using r [of gp'] unfolding lk by simp
    qed
    moreover have "\<exists>dp' pf'. ept_tree dp' pf' e'" "path_ok e'" "leaf e' gp (3 - level) q" using ih by blast+
    ultimately show ?thesis using True by simp
  qed
qed

section \<open>Writing the last entry\<close>

lemma write_entry:
  assumes t: "ept_tree dp pf e" and lf: "leaf e gp d p" and v: "d < 3 \<longrightarrow> \<not> is_table v"
    and po: "path_ok e" "3 - d \<le> cur_level e"
  defines "e' \<equiv> e\<lparr>tables := (tables e)(p := v)\<rparr>"
  shows "ept_tree dp pf e'" "path_ok e'"
    and "ept_lookup e' gp' = (if rgn (Suc d) gp' = rgn (Suc d) gp
      then if v AND EPTE_READ = 0 then None else Some (3 - d, v) else ept_lookup e gp')"
proof -
  have s: "d \<le> 3" "slot e gp d = Some p" using lf by (auto simp: leaf_def)
  have p: "node_entry dp pf e d gp p" by (rule slot_node [OF t s(2,1)])
  have ne: "node_entry dp pf e' k gp' q = node_entry dp pf e k gp' q" for k gp' q
    by (simp add: node_entry_def e'_def)
  show "ept_tree dp pf e'"
    unfolding ept_tree_def ne
  proof (intro conjI allI impI)
    show "pool_ok e'" using t by (simp add: ept_tree_def pool_ok_def e'_def)
  next
    fix i assume "i < cnt e'"
    then show "1 \<le> dp i" "dp i \<le> 3" using t by (auto simp: ept_tree_def e'_def)
  next
    fix k gp' q assume k: "k < 3" and a: "node_entry dp pf e k gp' q \<and> is_table (tables e' q)"
    have "q \<noteq> p"
    proof
      assume "q = p"
      then have "k = d" using node_inj [OF t _ p, of k gp'] a k s(1) by auto
      then show False using a k v \<open>q = p\<close> by (simp add: e'_def)
    qed
    then have "is_table (tables e q)" "tables e' q = tables e q" using a by (auto simp: e'_def)
    then show "\<exists>i < cnt e'. tables e' q AND NOT PAGESIZE_MASK = tbl e' i \<and> dp i = Suc k \<and> pf i = rgn (Suc k) gp'"
      using t a k unfolding ept_tree_def by (simp add: e'_def)
  qed
  have keep: "slot e' gp' k = slot e gp' k" if "k \<le> 3" "k \<le> d \<or> rgn (Suc d) gp' \<noteq> rgn (Suc d) gp" for k gp'
  proof (rule slot_cong)
    fix j q assume j: "j < k" "slot e gp' j = Some q"
    have n: "node_entry dp pf e j gp' q" by (rule slot_node [OF t j(2)]) (use j that in simp)
    have "q \<noteq> p" using node_inj [OF t n, of d gp] p j that s(1) by auto
    then show "tables e' q = tables e q" by (simp add: e'_def)
  qed (simp add: e'_def)
  show "path_ok e'" by (rule path_ok_slots [OF po]) (use keep in \<open>auto simp: e'_def\<close>)
  show "ept_lookup e' gp' = (if rgn (Suc d) gp' = rgn (Suc d) gp
      then if v AND EPTE_READ = 0 then None else Some (3 - d, v) else ept_lookup e gp')"
  proof (cases "rgn (Suc d) gp' = rgn (Suc d) gp")
    case True
    have "slot e' gp' d = Some p" using keep [OF s(1), of gp'] slot_region [OF True s(1), of e] s(2) by simp
    then have "leaf e' gp' d p" using s(1) v by (auto simp: leaf_def e'_def)
    then show ?thesis using True by (simp add: ept_lookup_leaf) (simp add: e'_def)
  next
    case False
    obtain k q where l: "leaf e gp' k q" using leaf_exists by blast
    then have k: "k \<le> 3" "slot e gp' k = Some q" by (auto simp: leaf_def)
    have n: "node_entry dp pf e k gp' q" by (rule slot_node [OF t k(2,1)])
    have "q \<noteq> p" using node_inj [OF t n, of d gp] p k(1) s(1) False by auto
    then have e: "tables e' q = tables e q" by (simp add: e'_def)
    have "slot e' gp' k = Some q" using keep [OF k(1), of gp'] False k(2) by simp
    then have "leaf e' gp' k q" using l by (simp add: leaf_def e)
    then show ?thesis using ept_lookup_leaf [OF l] False by (simp add: ept_lookup_leaf e)
  qed
qed

text \<open>When the pool is used up all mappings are dropped and the walk starts again at the root.\<close>

definition drop_tables :: "vt_ept \<Rightarrow> vt_ept" where
  "drop_tables e = e\<lparr>tables := clear_page (ncr3tbl e) (tables e), cleared := True, cnt := 0,
     flushes := Suc (flushes e), cur_level := EPT_LEVELS - 1\<rparr>"

lemma root_cleared:
  assumes "pool_ok e" "cnt e' = 0" "ncr3tbl e' = ncr3tbl e" "tbl e' = tbl e"
    "tables e' = clear_page (ncr3tbl e) (tables e)"
  shows "ept_tree dp pf e'" "leaf e' gp 0 (entry_at (ncr3tbl e) 3 gp)" "ept_lookup e' gp = None"
proof -
  have al: "aligned (ncr3tbl e)" using assms(1) by (simp add: pool_ok_def)
  have z: "tables e' (entry_at (ncr3tbl e) 3 gp) = 0" for gp
    unfolding assms(5) by (rule clear_page_in [OF entry_at_page [OF al]])
  show "leaf e' gp 0 (entry_at (ncr3tbl e) 3 gp)" using z by (simp add: leaf_def is_table_def assms(3))
  from ept_lookup_leaf [OF this] show "ept_lookup e' gp = None" using z by simp
  have "\<not> is_table (tables e' p)" if "node_entry dp pf e' d gp p" for d gp p
    using that z by (auto simp: node_entry_def assms(2,3) is_table_def)
  moreover have "pool_ok e'" using assms(1) by (simp add: pool_ok_def assms(2-4))
  ultimately show "ept_tree dp pf e'" by (auto simp: ept_tree_def assms(2))
qed

lemma cur_fill_spec:
  assumes t: "ept_tree dp pf e" and po: "path_ok e" and g: "cur_gphys e = gp" and l3: "cur_level e \<le> 3"
    and lf: "leaf e gp (3 - cur_level e) (cur_entry e (cur_level e))" and lv: "level \<le> cur_level e"
    and c: "cur_fill gp level e = (q, e')"
  shows "(\<exists>dp' pf'. ept_tree dp' pf' e') \<and> path_ok e' \<and> leaf e' gp (3 - level) q \<and> level \<le> cur_level e'
    \<and> tbl e' = tbl e \<and> ncr3tbl e' = ncr3tbl e
    \<and> (\<forall>gp'. ept_lookup e' gp' = ept_lookup e gp' \<or> ept_lookup e' gp' = None)
    \<and> (if flushes e' = flushes e
       then cleared e' = cleared e \<and> (\<forall>gp' v. ept_lookup e gp' = Some (0, v) \<longrightarrow> ept_lookup e' gp' = Some (0, v))
       else cleared e')
    \<and> (\<forall>gp'. if flushes e' = flushes e
         then ept_lookup e' gp' = ept_lookup e gp'
           \<or> ept_lookup e' gp' = None \<and> level < cur_level e \<and> ept_lookup e gp' = ept_lookup e gp
         else ept_lookup e' gp' = None)"
proof (cases "int (cnt e) + int (cur_level e) - int level > int NUM_OF_EPTBL")
  case True
  define e0 where "e0 = drop_tables e"
  have f: "fill_tables gp level 3 (cur_entry e 3) e0 = (q, e')"
    using c True by (simp add: cur_fill_def e0_def drop_tables_def EPT_LEVELS_def)
  have pool: "pool_ok e" using t by (simp add: ept_tree_def)
  have rc: "ept_tree dp pf e0" "\<And>gp. leaf e0 gp 0 (entry_at (ncr3tbl e) 3 gp)" "\<And>gp. ept_lookup e0 gp = None"
    by (rule root_cleared [OF pool]; simp add: e0_def drop_tables_def)+
  have "slot e gp 0 = Some (cur_entry e 3)" using po g l3 unfolding path_ok_def by force
  then have r: "cur_entry e 3 = entry_at (ncr3tbl e) 3 gp" by simp
  have po0: "path_ok e0"
  proof -
    have f: "cur_level e0 = 3" "cur_gphys e0 = gp" "ncr3tbl e0 = ncr3tbl e" "cur_entry e0 = cur_entry e"
      using g by (simp_all add: e0_def drop_tables_def EPT_LEVELS_def)
    have "slot e0 gp d = Some (cur_entry e0 (3 - d))" if "d \<le> 3" "3 \<le> 3 - d" for d
    proof -
      have "d = 0" using that by simp
      then show ?thesis using r f by simp
    qed
    then show ?thesis using f by (simp add: path_ok_def EPT_LEVELS_def)
  qed
  have "int level \<le> 3" using lv l3 by simp
  have "cnt e0 + (3 - level) \<le> NUM_OF_EPTBL" by (simp add: e0_def drop_tables_def NUM_OF_EPTBL_def)
  note fs = fill_tables_spec [OF rc(1) rc(2) [of gp, folded r] _ _ this po0 _ f]
  have fs': "(\<exists>dp' pf'. ept_tree dp' pf' e') \<and> path_ok e' \<and> same_frame e0 e' \<and> leaf e' gp (3 - level) q
     \<and> (\<forall>gp'. ept_lookup e' gp'
          = (if level < 3 \<and> rgn (Suc 0) gp' = rgn (Suc 0) gp then None else ept_lookup e0 gp'))"
    using fs lv l3 by (simp add: e0_def drop_tables_def EPT_LEVELS_def)
  then have "same_frame e0 e'" by blast
  then have "flushes e' = Suc (flushes e)" "cleared e'" "cur_level e' = 3" "tbl e' = tbl e" "ncr3tbl e' = ncr3tbl e"
    by (simp_all add: same_frame_def e0_def drop_tables_def EPT_LEVELS_def)
  moreover have "ept_lookup e' gp' = None" for gp' using fs' rc(3) by simp
  ultimately show ?thesis using fs' lv l3 by simp
next
  case False
  have f: "fill_tables gp level (cur_level e) (cur_entry e (cur_level e)) e = (q, e')"
    using c False by (simp add: cur_fill_def)
  have b: "cnt e + (cur_level e - level) \<le> NUM_OF_EPTBL" using False lv by linarith
  define d where "d = 3 - cur_level e"
  have d: "cur_level e + d = 3" using l3 by (simp add: d_def)
  have fs: "(\<exists>dp' pf'. ept_tree dp' pf' e') \<and> path_ok e' \<and> same_frame e e' \<and> leaf e' gp (3 - level) q
     \<and> (\<forall>gp'. ept_lookup e' gp'
          = (if level < cur_level e \<and> rgn (Suc d) gp' = rgn (Suc d) gp then None else ept_lookup e gp'))"
    using fill_tables_spec [OF t lf [folded d_def] d lv b po order_refl f] by blast
  have "ept_lookup e' gp' = Some (0, v)" if v: "ept_lookup e gp' = Some (0, v)" for gp' v
  proof (cases "level < cur_level e \<and> rgn (Suc d) gp' = rgn (Suc d) gp")
    case True
    have "leaf e gp' d (cur_entry e (cur_level e))"
      using lf slot_region [of d gp' gp e] True unfolding d_def [symmetric] by (auto simp: leaf_def)
    from ept_lookup_leaf [OF this] v True d show ?thesis by (auto split: if_splits)
  qed (use fs v in auto)
  moreover have "ept_lookup e' gp' = ept_lookup e gp'
      \<or> ept_lookup e' gp' = None \<and> level < cur_level e \<and> ept_lookup e gp' = ept_lookup e gp" for gp'
  proof (cases "level < cur_level e \<and> rgn (Suc d) gp' = rgn (Suc d) gp")
    case True
    have "leaf e gp' d (cur_entry e (cur_level e))"
      using lf slot_region [of d gp' gp e] True unfolding d_def [symmetric] by (auto simp: leaf_def)
    from ept_lookup_leaf [OF this] ept_lookup_leaf [OF lf [folded d_def]] True fs show ?thesis by simp
  qed (use fs in auto)
  ultimately show ?thesis using fs lv by (auto simp: same_frame_def)
qed

section \<open>Mappings of pages\<close>

definition page_entry :: "ept_env \<Rightarrow> u64 \<Rightarrow> u64" where
  "page_entry env gphys =
     (let (hp, fakerom) = gmm_pass_gp2hp (gmm env) gphys;
          attr = push_bit 3 (ucast (cache_get_gmtrr_type gphys (cache env)) :: u32) OR 0x5 OR 0x2;
          attr = (if fakerom then attr AND NOT 0x2 else attr)
      in (hp AND NOT PAGESIZE_MASK) OR ucast attr)"

definition large_entry :: "ept_env \<Rightarrow> u64 \<Rightarrow> u64" where
  "large_entry env gphys =
     (let base = gphys AND NOT PAGESIZE2M_MASK
      in gmm_pass_gp2hp_2m (gmm env) base
           OR ucast (push_bit 3 (ucast (cache_get_gmtrr_type base (cache env)) :: u32) OR 0x5 OR 0x2 OR 0x80))"

lemma page_entry_present: "page_entry env gphys AND EPTE_READ \<noteq> 0"
proof -
  have b: "bit (x OR 0x5 OR 0x2 :: u32) 0" "bit ((x OR 0x5 OR 0x2) AND NOT 0x2 :: u32) 0" for x
    by (simp_all add: bit_simps)
  have "page_entry env gphys AND 2 ^ 0 \<noteq> 0"
    unfolding and_exp_eq_0_iff_not_bit page_entry_def Let_def
    using b by (simp add: bit_simps split: prod.split)
  then show ?thesis by simp
qed

lemma large_entry_large: "large_entry env gphys AND EPTE_READ \<noteq> 0" "\<not> is_table (large_entry env gphys)"
proof -
  have "large_entry env gphys AND 2 ^ 0 \<noteq> 0" "large_entry env gphys AND 2 ^ 7 \<noteq> 0"
    unfolding and_exp_eq_0_iff_not_bit large_entry_def Let_def by (simp_all add: bit_simps)
  then show "large_entry env gphys AND EPTE_READ \<noteq> 0" "\<not> is_table (large_entry env gphys)"
    by (simp_all add: is_table_def)
qed

lemma cur_move_ok:
  assumes "ept_tree dp pf e" "path_ok e"
  shows "ept_tree dp pf (cur_move gp e)" "path_ok (cur_move gp e)" "cur_gphys (cur_move gp e) = gp"
    and "cur_level (cur_move gp e) \<le> 3" "same_tables e (cur_move gp e)"
    and "leaf (cur_move gp e) gp (3 - cur_level (cur_move gp e)) (cur_entry (cur_move gp e) (cur_level (cur_move gp e)))"
proof -
  have al: "aligned (ncr3tbl e)" using assms(1) by (simp add: ept_tree_def pool_ok_def)
  note cm = cur_move_lemma [OF assms(2) al, of gp]
  then show st: "same_tables e (cur_move gp e)" and "path_ok (cur_move gp e)" "cur_gphys (cur_move gp e) = gp"
    by blast+
  show "ept_tree dp pf (cur_move gp e)" using same_tables_tree [OF st] assms(1) by simp
  obtain d p where l: "leaf e gp d p" using leaf_exists by blast
  have "ept_walk e gp = (3 - d, p)" by (rule ept_walk_leaf [OF l])
  then have c: "cur_level (cur_move gp e) = 3 - d" "cur_entry (cur_move gp e) (cur_level (cur_move gp e)) = p"
    using cm by auto
  then show "cur_level (cur_move gp e) \<le> 3" by simp
  have "d \<le> 3" using l by (simp add: leaf_def)
  then show "leaf (cur_move gp e) gp (3 - cur_level (cur_move gp e)) (cur_entry (cur_move gp e) (cur_level (cur_move gp e)))"
    unfolding same_tables_leaf [OF st] c(2) unfolding c(1) using l by simp
qed

text \<open>An address whose page has the number of another one modulo the 48 bits the tables cover.\<close>

abbreviation same_page :: "u64 \<Rightarrow> u64 \<Rightarrow> bool" where "same_page a b \<equiv> rgn 4 a = rgn 4 b"

lemma map_entry_spec:
  assumes ok: "ept_ok e" and lv: "level \<le> cur_level (cur_move gp e)"
    and f: "cur_fill gp level (cur_move gp e) = (q, e1)" and v: "0 < level \<longrightarrow> \<not> is_table v"
  defines "e' \<equiv> e1\<lparr>tables := (tables e1)(q := v)\<rparr>"
  shows "ept_ok e'" "tbl e' = tbl e" "ncr3tbl e' = ncr3tbl e"
    and "ept_lookup e' gp' = (if rgn (4 - level) gp' = rgn (4 - level) gp
      then if v AND EPTE_READ = 0 then None else Some (level, v) else ept_lookup e1 gp')"
    and "ept_lookup e1 gp' = ept_lookup e gp' \<or> ept_lookup e1 gp' = None"
    and "if flushes e' = flushes e
       then cleared e' = cleared e \<and> (\<forall>gp' v. ept_lookup e gp' = Some (0, v) \<longrightarrow> ept_lookup e1 gp' = Some (0, v))
       else cleared e'"
    and "if flushes e' = flushes e
       then ept_lookup e1 gp' = ept_lookup e gp'
         \<or> ept_lookup e1 gp' = None \<and> level < cur_level (cur_move gp e) \<and> ept_lookup e gp' = ept_lookup e gp
       else ept_lookup e1 gp' = None"
proof -
  obtain dp pf where t: "ept_tree dp pf e" and po: "path_ok e" using ok by (auto simp: ept_ok_def)
  note cm = cur_move_ok [OF t po, of gp]
  have sf: "tbl (cur_move gp e) = tbl e" "ncr3tbl (cur_move gp e) = ncr3tbl e" "cleared (cur_move gp e) = cleared e"
    "flushes (cur_move gp e) = flushes e" using cm(5) by (simp_all add: same_tables_def)
  note cf = cur_fill_spec [OF cm(1-4,6) lv f, unfolded sf same_tables_lookup [OF cm(5)]]
  then obtain dp' pf' where t': "ept_tree dp' pf' e1" by blast
  have lf: "leaf e1 gp (3 - level) q" and po': "path_ok e1" "3 - (3 - level) \<le> cur_level e1"
    using cf cm(4) lv by auto
  have l3: "level \<le> 3" using lv cm(4) by simp
  then have s: "Suc (3 - level) = 4 - level" "3 - (3 - level) = level" by auto
  have v': "3 - level < 3 \<longrightarrow> \<not> is_table v" using v by auto
  note we = write_entry [OF t' lf v' po', folded e'_def, unfolded s]
  show "ept_ok e'" using we(1,2) by (auto simp: ept_ok_def)
  show "tbl e' = tbl e" "ncr3tbl e' = ncr3tbl e" using cf by (simp_all add: e'_def)
  show "ept_lookup e' gp' = (if rgn (4 - level) gp' = rgn (4 - level) gp
      then if v AND EPTE_READ = 0 then None else Some (level, v) else ept_lookup e1 gp')" by (rule we(3))
  show "ept_lookup e1 gp' = ept_lookup e gp' \<or> ept_lookup e1 gp' = None"
    using cf by (elim conjE) (erule spec)
  show "if flushes e' = flushes e
       then cleared e' = cleared e \<and> (\<forall>gp' v. ept_lookup e gp' = Some (0, v) \<longrightarrow> ept_lookup e1 gp' = Some (0, v))
       else cleared e'" using cf by (simp add: e'_def)
  show "if flushes e' = flushes e
       then ept_lookup e1 gp' = ept_lookup e gp'
         \<or> ept_lookup e1 gp' = None \<and> level < cur_level (cur_move gp e) \<and> ept_lookup e gp' = ept_lookup e gp
       else ept_lookup e1 gp' = None" using cf by (simp add: e'_def)
qed

text \<open>
  C32: Mapping a page makes the processor's walk of its address end in exactly the entry the code
  computed; every other page keeps its mapping or loses it, and as long as the pool lasts no page
  mapped by 4KB loses it.
\<close>

theorem map_page_sub_maps:
  assumes "ept_ok e" "vt_ept_map_page_sub env write gphys e = Some e'"
  shows "ept_ok e' \<and> ept_lookup e' gphys = Some (0, page_entry env gphys)
    \<and> (\<forall>gp. \<not> same_page gp gphys \<longrightarrow>
         (ept_lookup e' gp = ept_lookup e gp \<or> ept_lookup e' gp = None)
         \<and> (flushes e' = flushes e \<longrightarrow> (\<forall>v. ept_lookup e gp = Some (0, v) \<longrightarrow> ept_lookup e' gp = Some (0, v))))
    \<and> (if flushes e' = flushes e then cleared e' = cleared e else cleared e')"
proof -
  obtain q e1 where f: "cur_fill gphys 0 (cur_move gphys e) = (q, e1)" by (cases "cur_fill gphys 0 (cur_move gphys e)")
  have e': "e' = e1\<lparr>tables := (tables e1)(q := page_entry env gphys)\<rparr>"
    using assms(2) f unfolding vt_ept_map_page_sub_def page_entry_def
    by (cases "gmm_pass_gp2hp (gmm env) gphys") (simp add: Let_def split: if_splits)
  note me = map_entry_spec [OF assms(1) _ f, of "page_entry env gphys", folded e', simplified]
  have "ept_lookup e' gphys = Some (0, page_entry env gphys)" using me(4) [of gphys] page_entry_present by simp
  moreover have "ept_lookup e' gp = ept_lookup e1 gp" if "\<not> same_page gp gphys" for gp using me(4) [of gp] that by simp
  ultimately show ?thesis using me(1,5,6) by presburger
qed

section \<open>Soundness of all mappings\<close>

text \<open>
  Every mapping is one the code computed for an address of the page, or of the 2MB block after the
  checks for large mappings succeeded.
\<close>

definition large_allowed :: "ept_env \<Rightarrow> u64 \<Rightarrow> bool" where
  "large_allowed env gphys =
     (let base = gphys AND NOT PAGESIZE2M_MASK
      in gmm_pass_gp2hp_2m (gmm env) base \<noteq> GMM_GP2HP_2M_FAIL
         \<and> cache_gmtrr_type_equal base PAGESIZE2M_MASK (cache env))"

definition mapping_ok :: "ept_env \<Rightarrow> u64 \<Rightarrow> nat \<Rightarrow> u64 \<Rightarrow> bool" where
  "mapping_ok env gp l v =
     (\<exists>g0. unat g0 < 2 ^ 48 \<and>
       ((l = 0 \<and> same_page gp g0 \<and> v = page_entry env g0)
        \<or> (l = 1 \<and> rgn 3 gp = rgn 3 g0 \<and> v = large_entry env g0 \<and> large_allowed env g0)))"

definition ept_sound :: "ept_env \<Rightarrow> vt_ept \<Rightarrow> bool" where
  "ept_sound env e = (\<forall>gp l v. ept_lookup e gp = Some (l, v) \<longrightarrow> mapping_ok env gp l v)"

text \<open>The page of \<open>a\<close> is mapped by itself, unless the tables have been dropped.\<close>

definition keeps_page :: "ept_env \<Rightarrow> u64 \<Rightarrow> vt_ept \<Rightarrow> bool" where
  "keeps_page env a e = (cleared e
     \<or> (\<exists>g0. same_page a g0 \<and> unat g0 < 2 ^ 48 \<and> ept_lookup e a = Some (0, page_entry env g0)))"

definition kept :: "ept_env \<Rightarrow> (u64 \<Rightarrow> bool) \<Rightarrow> vt_ept \<Rightarrow> vt_ept \<Rightarrow> bool" where
  "kept env A e e' = (ept_ok e' \<and> ept_sound env e' \<and> tbl e' = tbl e \<and> ncr3tbl e' = ncr3tbl e
     \<and> (\<forall>a. A a \<longrightarrow> keeps_page env a e'))"

lemma map_page_sub_kept:
  assumes k: "ept_ok e" "ept_sound env e" "\<forall>a. A a \<longrightarrow> keeps_page env a e" and g: "unat gphys < 2 ^ 48"
    and r: "vt_ept_map_page_sub env write gphys e = Some e'"
  shows "kept env A e e'" "\<exists>g0. same_page gphys g0 \<and> unat g0 < 2 ^ 48 \<and> ept_lookup e' gphys = Some (0, page_entry env g0)"
proof -
  obtain q e1 where f: "cur_fill gphys 0 (cur_move gphys e) = (q, e1)" by (cases "cur_fill gphys 0 (cur_move gphys e)")
  have e': "e' = e1\<lparr>tables := (tables e1)(q := page_entry env gphys)\<rparr>"
    using r f unfolding vt_ept_map_page_sub_def page_entry_def
    by (cases "gmm_pass_gp2hp (gmm env) gphys") (simp add: Let_def split: if_splits)
  note me = map_entry_spec [OF k(1) _ f, of "page_entry env gphys", folded e', simplified]
  have lk: "ept_lookup e' gp' = (if same_page gp' gphys then Some (0, page_entry env gphys) else ept_lookup e1 gp')" for gp'
    using me(4) [of gp'] page_entry_present by simp
  show "\<exists>g0. same_page gphys g0 \<and> unat g0 < 2 ^ 48 \<and> ept_lookup e' gphys = Some (0, page_entry env g0)"
    using lk g by auto
  have "ept_sound env e'"
    unfolding ept_sound_def
  proof (intro allI impI)
    fix gp l v assume a: "ept_lookup e' gp = Some (l, v)"
    show "mapping_ok env gp l v"
    proof (cases "same_page gp gphys")
      case True
      then show ?thesis using a lk [of gp] g unfolding mapping_ok_def by auto
    next
      case False
      then have "ept_lookup e gp = Some (l, v)" using a lk [of gp] me(5) [of gp] by auto
      then show ?thesis using k(2) by (simp add: ept_sound_def)
    qed
  qed
  moreover have "keeps_page env a e'" if "A a" for a
  proof (cases "flushes e' = flushes e")
    case True
    then have c: "cleared e' = cleared e" "\<And>gp' v. ept_lookup e gp' = Some (0, v) \<Longrightarrow> ept_lookup e1 gp' = Some (0, v)"
      using me(6) by auto
    show ?thesis
    proof (cases "same_page a gphys")
      case same: True
      then show ?thesis using lk [of a] g unfolding keeps_page_def by auto
    next
      case False
      then show ?thesis using k(3) that c lk [of a] unfolding keeps_page_def by metis
    qed
  next
    case False
    then show ?thesis using me(6) by (simp add: keeps_page_def)
  qed
  ultimately show "kept env A e e'" using me(1-3) by (simp add: kept_def)
qed

lemma kept_trans: "kept env A e e1 \<Longrightarrow> kept env A e1 e2 \<Longrightarrow> kept env A e e2"
  by (auto simp: kept_def)

lemma keptD:
  assumes "kept env A e e'"
  shows "ept_ok e'" "ept_sound env e'" "\<forall>a. A a \<longrightarrow> keeps_page env a e'"
  using assms by (simp_all add: kept_def)

lemma same_tables_kept:
  assumes "same_tables e e'" "ept_ok e" "path_ok e'" "ept_sound env e" "\<forall>a. A a \<longrightarrow> keeps_page env a e"
  shows "kept env A e e'"
  using assms same_tables_tree [OF assms(1)] same_tables_lookup [OF assms(1)]
  by (simp add: kept_def ept_ok_def ept_sound_def keeps_page_def) (simp add: same_tables_def)

lemma map_2mpage_kept:
  assumes k: "ept_ok e" "ept_sound env e" "\<forall>a. A a \<longrightarrow> keeps_page env a e" and g: "unat gphys < 2 ^ 48"
    and r: "vt_ept_map_2mpage env gphys e = (failed, e')"
  shows "kept env A e e'"
proof -
  obtain dp pf where t: "ept_tree dp pf e" and po: "path_ok e" using k(1) by (auto simp: ept_ok_def)
  note cm = cur_move_ok [OF t po, of gphys]
  have same: "kept env A e (cur_move gphys e)" by (rule same_tables_kept [OF cm(5) k(1) cm(2) k(2,3)])
  show ?thesis
  proof (cases "cur_level (cur_move gphys e) = 0 \<or> \<not> large_allowed env gphys")
    case True
    then have "e' = cur_move gphys e"
      using r by (auto simp: vt_ept_map_2mpage_def large_allowed_def Let_def split: if_splits)
    then show ?thesis using same by simp
  next
    case False
    obtain q e1 where f: "cur_fill gphys 1 (cur_move gphys e) = (q, e1)" by (cases "cur_fill gphys 1 (cur_move gphys e)")
    have e': "e' = e1\<lparr>tables := (tables e1)(q := large_entry env gphys)\<rparr>"
      using r f False by (simp add: vt_ept_map_2mpage_def large_allowed_def large_entry_def Let_def)
    have l1: "1 \<le> cur_level (cur_move gphys e)" using False by simp
    have nt: "0 < (1 :: nat) \<longrightarrow> \<not> is_table (large_entry env gphys)" using large_entry_large(2) by simp
    note me = map_entry_spec [OF k(1) l1 f nt, folded e']
    have lk: "ept_lookup e' gp' = (if rgn 3 gp' = rgn 3 gphys then Some (1, large_entry env gphys) else ept_lookup e1 gp')" for gp'
      using me(4) [of gp'] large_entry_large(1) by simp
    have "ept_sound env e'"
      unfolding ept_sound_def
    proof (intro allI impI)
      fix gp l v assume a: "ept_lookup e' gp = Some (l, v)"
      show "mapping_ok env gp l v"
      proof (cases "rgn 3 gp = rgn 3 gphys")
        case True
        then show ?thesis using a lk [of gp] g False unfolding mapping_ok_def by auto
      next
        case ne: False
        then have "ept_lookup e gp = Some (l, v)" using a lk [of gp] me(5) [of gp] by auto
        then show ?thesis using k(2) by (simp add: ept_sound_def)
      qed
    qed
    moreover have "keeps_page env a e'" if "A a" for a
    proof (cases "flushes e' = flushes e")
      case True
      then have c: "cleared e' = cleared e" "\<And>gp' v. ept_lookup e gp' = Some (0, v) \<Longrightarrow> ept_lookup e1 gp' = Some (0, v)"
        using me(6) by auto
      have no: "rgn 3 a \<noteq> rgn 3 gphys" if v: "ept_lookup e a = Some (0, v)" for v
      proof
        assume e: "rgn 3 a = rgn 3 gphys"
        let ?c = "cur_move gphys e"
        define d where "d = 3 - cur_level ?c"
        have d: "d \<le> 2" "leaf ?c gphys d (cur_entry ?c (cur_level ?c))" using l1 cm(6) by (auto simp: d_def)
        have "rgn (Suc d) a = rgn (Suc d) gphys" by (rule rgn_mono [OF e]) (use d(1) in auto)
        then have "leaf ?c a d (cur_entry ?c (cur_level ?c))"
          using d slot_region [of d a gphys ?c] by (simp add: leaf_def)
        then have "ept_lookup ?c a \<noteq> Some (0, v)" using d(1) by (simp add: ept_lookup_leaf)
        then show False using v same_tables_lookup [OF cm(5)] by simp
      qed
      show ?thesis using k(3) that c lk [of a] no unfolding keeps_page_def by metis
    next
      case False
      then show ?thesis using me(6) by (simp add: keeps_page_def)
    qed
    ultimately show ?thesis using me(1-3) by (simp add: kept_def)
  qed
qed

section \<open>The ranges to be mapped at once\<close>

lemma map_range_kept:
  assumes "map_range env base len e = Some r" "unat base + unat len \<le> 2 ^ 48"
    and "ept_ok e" "ept_sound env e" "\<forall>a. A a \<longrightarrow> keeps_page env a e"
  shows "case r of None \<Rightarrow> True | Some e' \<Rightarrow> kept env A e e'"
  using assms
proof (induction rule: map_range.raw_induct [rotated, consumes 1, case_names step])
  case (step loop env base len e r)
  show ?case
  proof (cases "len = 0")
    case True
    then show ?thesis using step.prems step(2) by (auto simp: kept_def)
  next
    case False
    then have pos: "0 < unat len" by (simp add: unat_gt_0)
    then have b: "unat base < 2 ^ 48" using step.prems(1) by linarith
    obtain level e1 where l: "vt_ept_level base e = (level, e1)" by (cases "vt_ept_level base e")
    obtain dp pf where t: "ept_tree dp pf e" and po: "path_ok e" using step.prems(2) by (auto simp: ept_ok_def)
    have "e1 = cur_move base e" using l by (simp add: vt_ept_level_def Let_def)
    then have k1: "kept env A e e1"
      using same_tables_kept [OF _ step.prems(2) _ step.prems(3,4)] cur_move_ok [OF t po, of base] by simp
    define m where "m = (if level > 0 \<and> mmio_range (registry env) (base AND NOT PAGESIZE2M_MASK) 0x200000 = 0
               then vt_ept_map_2mpage env base e1 else (True, e1))"
    obtain failed e2 where m: "m = (failed, e2)" by (cases m)
    have k2: "kept env A e e2"
    proof (cases "level > 0 \<and> mmio_range (registry env) (base AND NOT PAGESIZE2M_MASK) 0x200000 = 0")
      case True
      then have "vt_ept_map_2mpage env base e1 = (failed, e2)" using m by (simp add: m_def)
      from map_2mpage_kept [OF keptD [OF k1] b this] show ?thesis by (rule kept_trans [OF k1])
    next
      case False
      then have "m = (True, e1)" unfolding m_def by (rule if_not_P)
      then show ?thesis using k1 m by simp
    qed
    define next_phys where "next_phys = mmio_range (registry env) base 0x1000"
    define sr where "sr = (if \<not> failed then ((base OR PAGESIZE2M_MASK) + 1 - base, Some e2)
               else if next_phys = 0 then (PAGESIZE, vt_ept_map_page_sub env True base e2)
               else ((next_phys - base + PAGESIZE - 1) AND NOT PAGESIZE_MASK, Some e2))"
    obtain size0 r3 where sr: "sr = (size0, r3)" by (cases sr)
    define size where "size = (if size0 > len then len else size0)"
    have st: "(case r3 of None \<Rightarrow> Some None | Some e3 \<Rightarrow> loop env (base + size) (len - size) e3) = Some r"
      using step(2) False l m sr
      unfolding m_def next_phys_def [symmetric] sr_def size_def by (simp add: Let_def)
    show ?thesis
    proof (cases r3)
      case None
      then show ?thesis using st by auto
    next
      case (Some e3)
      have k3: "kept env A e e3"
      proof (cases "failed \<and> next_phys = 0")
        case True
        then have "vt_ept_map_page_sub env True base e2 = Some e3" using sr Some by (simp add: sr_def)
        from map_page_sub_kept(1) [OF keptD [OF k2] b this] show ?thesis by (rule kept_trans [OF k2])
      next
        case False
        then have "e3 = e2" using sr Some unfolding sr_def by (auto split: if_splits)
        then show ?thesis using k2 by simp
      qed
      have sz: "size \<le> len" by (simp add: size_def not_less)
      then have "unat (len - size) = unat len - unat size" "unat size \<le> unat len"
        by (simp_all add: unat_sub word_le_nat_alt)
      moreover have "unat (base + size) = unat base + unat size"
        using calculation(2) step.prems(1) by (simp add: unat_add64)
      ultimately have lim: "unat (base + size) + unat (len - size) \<le> 2 ^ 48" using step.prems(1) by simp
      have "loop env (base + size) (len - size) e3 = Some r" using st Some by simp
      from step(1) [OF this lim keptD [OF k3]] show ?thesis
        using kept_trans [OF k3] by (cases r) simp_all
    qed
  qed
qed

text \<open>The firmware's ranges lie below \<open>2 ^ 48\<close>, which is what four levels of tables cover.\<close>

definition env_ok :: "ept_env \<Rightarrow> bool" where
  "env_ok env = (case uefi_mmio_space (gmm env) of None \<Rightarrow> True
     | Some sp \<Rightarrow> \<forall>n < length sp. unat (fst (sp ! n)) + unat (push_bit 12 (snd (sp ! n))) \<le> 2 ^ 48)"

lemma forced_end:
  assumes "env_ok env" "n < force_count env" "gmm_pass_getforcemap (gmm env) n = (nn, base, len)"
  shows "unat (base AND NOT PAGESIZE_MASK) + unat (len + (base AND PAGESIZE_MASK)) = unat base + unat len"
    and "unat base + unat len \<le> 2 ^ 48"
proof -
  show bl: "unat base + unat len \<le> 2 ^ 48"
    using assms by (auto simp: gmm_pass_getforcemap_def env_ok_def force_count_def Let_def split: option.splits)
  have "(base AND NOT PAGESIZE_MASK) + (base AND PAGESIZE_MASK) = base"
    unfolding page_masks by (subst disjunctive_add_eq_or) (auto intro!: bit_word_eqI simp: bit_simps)
  moreover have le: "unat (base AND PAGESIZE_MASK) \<le> unat base" "unat (base AND NOT PAGESIZE_MASK) \<le> unat base"
    unfolding page_masks by (simp_all add: unat_and_mask unat_and_not_mask)
  ultimately have s: "unat (base AND NOT PAGESIZE_MASK) + unat (base AND PAGESIZE_MASK) = unat base"
    unfolding page_masks by (simp add: unat_and_mask unat_and_not_mask)
  have "unat (len + (base AND PAGESIZE_MASK)) = unat len + unat (base AND PAGESIZE_MASK)"
    using bl le(1) by (simp add: unat_add64)
  then show "unat (base AND NOT PAGESIZE_MASK) + unat (len + (base AND PAGESIZE_MASK)) = unat base + unat len"
    using s by simp
qed

lemma forcemap_range:
  assumes "env_ok env" "n < force_count env" "gmm_pass_getforcemap (gmm env) n = (nn, base, len)"
  shows "unat (base AND NOT PAGESIZE_MASK) + unat (len + (base AND PAGESIZE_MASK)) \<le> 2 ^ 48"
  using forced_end [OF assms] by simp

lemma map_ranges_kept:
  "env_ok env \<Longrightarrow> \<forall>n \<in> set ns. n < force_count env \<Longrightarrow> map_ranges env ns e = Some (Some e')
    \<Longrightarrow> ept_ok e \<Longrightarrow> ept_sound env e \<Longrightarrow> \<forall>a. A a \<longrightarrow> keeps_page env a e \<Longrightarrow> kept env A e e'"
proof (induction ns arbitrary: e)
  case Nil
  then show ?case by (simp add: kept_def)
next
  case (Cons n ns)
  obtain nn base len where fm: "gmm_pass_getforcemap (gmm env) n = (nn, base, len)"
    by (cases "gmm_pass_getforcemap (gmm env) n")
  define r where "r = (if len = 0 then Some (Some e)
            else map_range env (base AND NOT PAGESIZE_MASK) (len + (base AND PAGESIZE_MASK)) e)"
  have m: "(case r of None \<Rightarrow> None | Some None \<Rightarrow> Some None
      | Some (Some e1) \<Rightarrow> if nn = 0 then Some (Some e1) else map_ranges env ns e1) = Some (Some e')"
    using Cons.prems(3) fm by (simp add: r_def)
  then obtain e1 where e1: "r = Some (Some e1)" by (auto split: option.splits)
  have k1: "kept env A e e1"
  proof (cases "len = 0")
    case True
    then show ?thesis using e1 Cons.prems by (simp add: r_def kept_def)
  next
    case False
    have n: "n < force_count env" using Cons.prems(2) by simp
    show ?thesis
      using map_range_kept [OF _ forcemap_range [OF Cons.prems(1) n fm] Cons.prems(4-6)] e1 False
      by (auto simp: r_def)
  qed
  show ?case
  proof (cases "nn = 0")
    case True
    then show ?thesis using m e1 k1 by simp
  next
    case False
    then have "map_ranges env ns e1 = Some (Some e')" using m e1 by simp
    from Cons.IH [OF Cons.prems(1) _ this keptD [OF k1]] Cons.prems(2) show ?thesis
      using kept_trans [OF k1] by simp
  qed
qed

lemma clear_cleared_kept:
  assumes "env_ok env" "ept_ok e" "ept_sound env e" "vt_ept_map_page_clear_cleared env e = Some (Some e')"
    and "\<forall>a. A a \<longrightarrow> keeps_page env a (e\<lparr>cleared := False\<rparr>)"
  shows "kept env A e e'" "\<not> cleared e'"
proof -
  define e0 where "e0 = e\<lparr>cleared := False\<rparr>"
  have slot0: "slot e0 gp d = slot e gp d" for gp d by (rule slot_cong) (simp_all add: e0_def)
  have lk: "ept_lookup e0 gp = ept_lookup e gp" for gp
    by (simp add: ept_lookup_def ept_walk_def e0_def split: prod.split)
  have "ept_tree dp pf e0 = ept_tree dp pf e" for dp pf
    by (simp add: ept_tree_def node_entry_def pool_ok_def e0_def)
  moreover have "path_ok e0 = path_ok e" unfolding path_ok_def slot0 by (simp add: e0_def)
  ultimately have ok0: "ept_ok e0" "ept_sound env e0" using assms(2,3) lk by (simp_all add: ept_ok_def ept_sound_def)
  have m: "map_ranges env [0..<force_count env] e0 = Some (Some e')" and c: "\<not> cleared e'"
    using assms(4) by (auto simp: vt_ept_map_page_clear_cleared_def e0_def split: option.splits if_splits)
  show "\<not> cleared e'" by (rule c)
  have "kept env A e0 e'"
    by (rule map_ranges_kept [OF assms(1) _ m ok0]) (use assms(5) in \<open>auto simp: e0_def\<close>)
  then show "kept env A e e'" by (simp add: kept_def e0_def)
qed

lemma map_page_kept:
  assumes "env_ok env" "ept_ok e" "ept_sound env e" "unat gphys < 2 ^ 48"
    and "vt_ept_map_page env write gphys e = Some (Some e')"
  shows "kept env (\<lambda>a. a = gphys) e e'" "\<not> cleared e'"
proof -
  define r1 where "r1 = (if cleared e then vt_ept_map_page_clear_cleared env e else Some (Some e))"
  obtain e1 e2 where e1: "r1 = Some (Some e1)" and e2: "vt_ept_map_page_sub env write gphys e1 = Some e2"
    and e': "(if cleared e2 then vt_ept_map_page_clear_cleared env e2 else Some (Some e2)) = Some (Some e')"
    using assms(5) unfolding vt_ept_map_page_def r1_def [symmetric] by (auto split: option.splits)
  have k1: "kept env (\<lambda>a. False) e e1"
    using e1 clear_cleared_kept [OF assms(1-3), of e1 "\<lambda>a. False"] assms(2,3)
    by (auto simp: r1_def kept_def split: if_splits)
  note k2 = map_page_sub_kept [OF keptD [OF k1] assms(4) e2]
  have k2': "kept env (\<lambda>a. a = gphys) e e2"
    using k1 k2 unfolding kept_def keeps_page_def by auto
  have "kept env (\<lambda>a. a = gphys) e e' \<and> \<not> cleared e'"
  proof (cases "cleared e2")
    case True
    have l0: "ept_lookup (e2\<lparr>cleared := False\<rparr>) gphys = ept_lookup e2 gphys"
      by (simp add: ept_lookup_def ept_walk_def split: prod.split)
    have "keeps_page env gphys (e2\<lparr>cleared := False\<rparr>)"
      using k2(2) l0 unfolding keeps_page_def by auto
    then have "kept env (\<lambda>a. a = gphys) e2 e'" "\<not> cleared e'"
      using clear_cleared_kept [OF assms(1) keptD(1,2) [OF k2'], of e' "\<lambda>a. a = gphys"] e' True by auto
    then show ?thesis using kept_trans [OF k2'] by blast
  next
    case False
    then have "e' = e2" using e' by simp
    then show ?thesis using k2' False by simp
  qed
  then show "kept env (\<lambda>a. a = gphys) e e'" "\<not> cleared e'" by blast+
qed

lemma map_page_lemma:
  assumes "env_ok env" "ept_ok e" "ept_sound env e" "unat gphys < 2 ^ 48"
    and "vt_ept_map_page env write gphys e = Some (Some e')"
  shows "ept_ok e' \<and> ept_sound env e' \<and> \<not> cleared e'
    \<and> (\<exists>g0. same_page gphys g0 \<and> unat g0 < 2 ^ 48 \<and> ept_lookup e' gphys = Some (0, page_entry env g0))"
  using map_page_kept [OF assms] by (auto simp: kept_def keeps_page_def)

end
