(* ===== verification/Mmio_Access.thy ===== *)
theory Mmio_Access
  imports Mmio
begin

text \<open>
  What the walks of \<open>core/mmio.c\<close> do on a registry in order: handles as intervals of numbers, the
  buckets in the order of the addresses, and the calls of an access byte by byte.
\<close>

declare unat_ucast_32_64 [simp]

definition h_start :: "mmio_handle \<Rightarrow> nat" where "h_start h = unat (h_gphys h)"
definition h_stop :: "mmio_handle \<Rightarrow> nat" where "h_stop h = unat (h_gphys h) + unat (h_len h)"

definition range_ok :: "u64 \<Rightarrow> u32 \<Rightarrow> bool" where
  "range_ok g len = (0 < len \<and> unat g + unat len \<le> 2 ^ 64)"

lemma last_of_range:
  assumes "range_ok g len"
  shows "unat (g + ucast len - 1) = unat g + unat len - 1"
proof -
  have "0 < unat len" "unat g + unat len \<le> 2 ^ 64" using assms by (auto simp: range_ok_def word_less_nat_alt)
  then show ?thesis unfolding unat_sub64 [of "g + ucast len"] unat_add64 [of g] by auto
qed

lemma rangecheck_iff:
  assumes "range_ok (h_gphys h) (h_len h)" "range_ok g len"
  shows "rangecheck h g len \<noteq> None
    \<longleftrightarrow> \<not> h_unregistered h \<and> unat g < h_stop h \<and> h_start h < unat g + unat len"
proof -
  have l: "0 < unat len" "0 < unat (h_len h)" "unat g + unat len \<le> 2 ^ 64"
    "unat (h_gphys h) + unat (h_len h) \<le> 2 ^ 64"
    using assms by (auto simp: range_ok_def word_less_nat_alt)
  have b: "unat (g + ucast len - 1 - h_gphys h)
      = (if unat (h_gphys h) \<le> unat g + unat len - 1 then unat g + unat len - 1 - unat (h_gphys h)
         else unat g + unat len - 1 + 2 ^ 64 - unat (h_gphys h))"
    unfolding unat_sub64 [of "g + ucast len - 1"] last_of_range [OF assms(2)] ..
  have d: "unat (h_gphys h + ucast (h_len h) - 1 - h_gphys h) = unat (h_len h) - 1"
    using l unfolding unat_sub64 [of "h_gphys h + ucast (h_len h) - 1"] last_of_range [OF assms(1)] by simp
  show ?thesis
    using l unat_lt_64 [of g] unat_lt_64 [of "h_gphys h"]
    unfolding rangecheck_def Let_def word_less_nat_alt word_le_nat_alt b d unat_sub64 [of g] h_start_def h_stop_def
    by (auto split: if_splits)
qed

lemma rangecheck_some:
  assumes "range_ok (h_gphys h) (h_len h)" "range_ok g len" "rangecheck h g len = Some (g2, l2, f)"
  shows "f" "unat g2 = max (unat g) (h_start h)"
    and "unat l2 = min (unat g + unat len) (h_stop h) - max (unat g) (h_start h)"
proof -
  have l: "0 < unat len" "0 < unat (h_len h)" "unat g + unat len \<le> 2 ^ 64"
    "unat (h_gphys h) + unat (h_len h) \<le> 2 ^ 64"
    using assms(1,2) by (auto simp: range_ok_def word_less_nat_alt)
  define a b d where "a = g - h_gphys h" and "b = g + ucast len - 1 - h_gphys h"
    and "d = h_gphys h + ucast (h_len h) - 1 - h_gphys h"
  have un: "unat a = (if unat (h_gphys h) \<le> unat g then unat g - unat (h_gphys h)
      else unat g + 2 ^ 64 - unat (h_gphys h))"
    "unat b = (if unat (h_gphys h) \<le> unat g + unat len - 1 then unat g + unat len - 1 - unat (h_gphys h)
         else unat g + unat len - 1 + 2 ^ 64 - unat (h_gphys h))"
    "unat d = unat (h_len h) - 1"
    using l unfolding a_def b_def d_def unat_sub64 [of g] unat_sub64 [of "g + ucast len - 1"]
      last_of_range [OF assms(2)] unat_sub64 [of "h_gphys h + ucast (h_len h) - 1"]
      last_of_range [OF assms(1)] by simp_all
  define a' where "a' = (if d < a then 0 else a)"
  define b' where "b' = (if d < b then d else b)"
  have nn: "\<not> (d < a \<and> a \<le> b)" and r: "g2 = a' + h_gphys h" "l2 = ucast (b' - a' + 1)" "f = (a' \<le> b')"
    using assms(3) unfolding rangecheck_def Let_def a_def [symmetric] b_def [symmetric] d_def [symmetric]
      a'_def [symmetric] b'_def [symmetric] by (auto split: if_splits)
  have b': "unat b' = min (unat b) (unat d)" unfolding b'_def by (auto simp: word_less_nat_alt)
  have nn': "\<not> (unat d < unat a \<and> unat a \<le> unat b)" using nn by (simp add: word_less_nat_alt word_le_nat_alt)
  have bounds: "unat g < 2 ^ 64" "unat (h_gphys h) < 2 ^ 64" "unat len < 2 ^ 32" "unat (h_len h) < 2 ^ 32"
    by simp_all
  have a': "unat a' = max (unat g) (h_start h) - h_start h"
    using nn' bounds l unfolding a'_def h_start_def word_less_nat_alt by (auto simp: un split: if_splits)
  have b'': "unat b' = min (unat g + unat len) (h_stop h) - 1 - h_start h"
    and ov: "max (unat g) (h_start h) < min (unat g + unat len) (h_stop h)"
    using nn' bounds l unfolding b' un h_start_def h_stop_def by (auto split: if_splits)
  show "f" using ov l unfolding r word_le_nat_alt a' b'' h_start_def h_stop_def by auto
  show g2: "unat g2 = max (unat g) (h_start h)"
    using a' ov l bounds unfolding r unat_add64 h_start_def h_stop_def by auto
  have d': "unat (b' - a' + 1) = min (unat g + unat len) (h_stop h) - max (unat g) (h_start h)"
  proof -
    define M N where "M = max (unat g) (h_start h)" and "N = min (unat g + unat len) (h_stop h)"
    have MN: "M < N" "h_start h \<le> M" "N \<le> M + unat len"
      using ov by (auto simp: M_def N_def)
    have "unat a' \<le> unat b'" using MN unfolding a' b'' M_def [symmetric] N_def [symmetric] by simp
    then have e: "unat (b' - a') = N - 1 - M"
      using MN unfolding unat_sub64 a' b'' M_def [symmetric] N_def [symmetric] by simp
    have "N - 1 - M + 1 < 18446744073709551616" using MN unat_lt_32 [of len] by linarith
    then show ?thesis using MN unfolding unat_add64 e M_def [symmetric] N_def [symmetric] by simp
  qed
  have "unat l2 = unat (b' - a' + 1) mod 2 ^ 32"
    unfolding r by (simp add: unsigned_ucast_eq take_bit_eq_mod)
  also have "\<dots> = unat (b' - a' + 1)"
  proof -
    have "min (unat g + unat len) (h_stop h) - max (unat g) (h_start h) \<le> unat len" by auto
    then have "unat (b' - a' + 1) < 4294967296" unfolding d' using unat_lt_32 [of len] by linarith
    then show ?thesis by simp
  qed
  finally show "unat l2 = min (unat g + unat len) (h_stop h) - max (unat g) (h_start h)" using d' by simp
qed

section \<open>The registry\<close>

definition handlers :: "mmio_data \<Rightarrow> nat set" where
  "handlers m = {p \<in> set (handle m). \<not> h_unregistered (deref m p)}"

abbreviation start_of :: "mmio_data \<Rightarrow> nat \<Rightarrow> nat" where "start_of m p \<equiv> h_start (deref m p)"
abbreviation stop_of :: "mmio_data \<Rightarrow> nat \<Rightarrow> nat" where "stop_of m p \<equiv> h_stop (deref m p)"

text \<open>A registered handle and an address range \<open>a..<b\<close>, given as numbers.\<close>

definition overlaps :: "mmio_data \<Rightarrow> nat \<Rightarrow> nat \<Rightarrow> nat \<Rightarrow> bool" where
  "overlaps m p a b = (p \<in> handlers m \<and> a < b \<and> a < stop_of m p \<and> start_of m p < b)"

definition touched :: "mmio_handle \<Rightarrow> nat set" where
  "touched h = {bucket (h_gphys h) .. bucket (h_gphys h + ucast (h_len h) - 1)}"

definition mmio_ok :: "mmio_data \<Rightarrow> bool" where
  "mmio_ok m =
     (distinct (handle m)
      \<and> (\<forall>p \<in> set (handle m). range_ok (h_gphys (deref m p)) (h_len (deref m p)) \<and> p < next_ptr m)
      \<and> (\<forall>p \<in> handlers m. \<forall>q \<in> handlers m. p \<noteq> q \<longrightarrow>
           stop_of m p \<le> start_of m q \<or> stop_of m q \<le> start_of m p)
      \<and> (\<forall>i. sorted (map (start_of m) (mmio m i)) \<and> distinct (mmio m i)
           \<and> set (mmio m i) = {p \<in> set (handle m). i \<in> touched (deref m p)}))"

lemma bucket_min: "bucket a = min 16 (unat a div 2 ^ 28)"
proof (cases "a \<le> 0xFFFFFFFF")
  case True
  then have "unat a \<le> 0xFFFFFFFF" by (simp add: word_le_nat_alt)
  then have "unat a div 2 ^ 28 \<le> 15" by (simp add: div_le_mono less_mult_imp_div_less Suc_le_eq flip: less_Suc_eq_le)
  then show ?thesis using True by (simp add: bucket_def unat_drop_bit)
next
  case False
  then have "16 \<le> unat a div 2 ^ 28" by (simp add: word_le_nat_alt less_eq_div_iff_mult_less_eq)
  then show ?thesis using False by (simp add: bucket_def)
qed

definition nbucket :: "nat \<Rightarrow> nat" where "nbucket n = min 16 (n div 2 ^ 28)"

lemma nbucket_mono: "a \<le> b \<Longrightarrow> nbucket a \<le> nbucket b"
  by (simp add: nbucket_def div_le_mono min.coboundedI2 min_le_iff_disj)

lemma bucket_nbucket: "bucket a = nbucket (unat a)"
  by (simp add: bucket_min nbucket_def)

lemma bucket_last: "range_ok g len \<Longrightarrow> bucket (g + ucast len - 1) = nbucket (unat g + unat len - 1)"
  by (simp add: bucket_nbucket last_of_range)

lemma touched_ok:
  assumes "range_ok (h_gphys h) (h_len h)"
  shows "touched h = {nbucket (h_start h) .. nbucket (h_stop h - 1)}"
  using bucket_last [OF assms] by (simp add: touched_def h_start_def h_stop_def bucket_nbucket)

lemma mmio_okD:
  assumes "mmio_ok m" "p \<in> set (handle m)"
  shows "range_ok (h_gphys (deref m p)) (h_len (deref m p))" "p < next_ptr m"
    and "start_of m p < stop_of m p" "stop_of m p \<le> 2 ^ 64"
    and "p \<in> set (mmio m i) \<longleftrightarrow> nbucket (start_of m p) \<le> i \<and> i \<le> nbucket (stop_of m p - 1)"
proof -
  show r: "range_ok (h_gphys (deref m p)) (h_len (deref m p))" and "p < next_ptr m"
    using assms by (auto simp: mmio_ok_def)
  then show "start_of m p < stop_of m p" "stop_of m p \<le> 2 ^ 64"
    by (auto simp: range_ok_def h_start_def h_stop_def word_less_nat_alt)
  show "p \<in> set (mmio m i) \<longleftrightarrow> nbucket (start_of m p) \<le> i \<and> i \<le> nbucket (stop_of m p - 1)"
    using assms touched_ok [OF r] by (auto simp: mmio_ok_def)
qed

lemma mmio_bucket_subset: "mmio_ok m \<Longrightarrow> p \<in> set (mmio m i) \<Longrightarrow> p \<in> set (handle m)"
  by (auto simp: mmio_ok_def)

lemma handlers_handle: "p \<in> handlers m \<Longrightarrow> p \<in> set (handle m)"
  by (simp add: handlers_def)

lemma in_range_overlaps:
  assumes "mmio_ok m" "p \<in> set (handle m)" "range_ok g len"
  shows "in_range (deref m p) g len \<longleftrightarrow> overlaps m p (unat g) (unat g + unat len)"
proof -
  have "0 < unat len" using assms(3) by (simp add: range_ok_def word_less_nat_alt)
  then show ?thesis
    using rangecheck_iff [OF mmio_okD(1) [OF assms(1,2)] assms(3)] assms(2)
    by (auto simp: in_range_def overlaps_def handlers_def)
qed

text \<open>A handle that overlaps a range is in one of the range's buckets.\<close>

lemma overlaps_bucket:
  assumes "mmio_ok m" "overlaps m p a b"
  shows "\<exists>i \<in> {nbucket a .. nbucket (b - 1)}. p \<in> set (mmio m i)"
proof -
  have p: "p \<in> set (handle m)" "a < b" "a < stop_of m p" "start_of m p < b"
    using assms(2) by (auto simp: overlaps_def handlers_def)
  define i where "i = nbucket (max a (start_of m p))"
  have "start_of m p < stop_of m p" using mmio_okD(3) [OF assms(1) p(1)] .
  then have "p \<in> set (mmio m i)" unfolding mmio_okD(5) [OF assms(1) p(1)] i_def
    using p by (auto intro!: nbucket_mono)
  moreover have "i \<in> {nbucket a .. nbucket (b - 1)}" unfolding i_def using p by (auto intro!: nbucket_mono)
  ultimately show ?thesis by blast
qed

text \<open>
  A walk over several buckets meets a handle again in the next bucket; apart from such repetitions
  it meets the handles in the order of their addresses.
\<close>

fun first_sorted :: "(nat \<Rightarrow> nat) \<Rightarrow> nat set \<Rightarrow> nat list \<Rightarrow> bool" where
  "first_sorted st D [] = True"
| "first_sorted st D (x # xs) = ((\<forall>y \<in> set xs. st x \<le> st y \<or> y \<in> D) \<and> first_sorted st (insert x D) xs)"

lemma first_sorted_append:
  assumes "sorted (map st xs)" "\<forall>x \<in> set xs. \<forall>y \<in> set ys. st x \<le> st y \<or> y \<in> set xs \<union> D"
    and "first_sorted st (D \<union> set xs) ys"
  shows "first_sorted st D (xs @ ys)"
  using assms
proof (induction xs arbitrary: D)
  case (Cons x xs)
  have "first_sorted st (insert x D) (xs @ ys)"
    using Cons.prems by (intro Cons.IH) auto
  moreover have "st x \<le> st y \<or> y \<in> D" if "y \<in> set (xs @ ys)" for y
    using Cons.prems(1,2) that by auto
  ultimately show ?case by simp
qed simp

lemma buckets_first_sorted:
  assumes "mmio_ok m"
  shows "\<forall>x \<in> D. x \<in> set (handle m) \<Longrightarrow> first_sorted (start_of m) D (concat (map (mmio m) [i..<i + n]))"
proof (induction n arbitrary: i D)
  case (Suc n)
  have e: "[i..<i + Suc n] = i # [Suc i..<Suc i + n]" by (simp add: upt_conv_Cons)
  have so: "sorted (map (start_of m) (mmio m i))" using assms by (simp add: mmio_ok_def)
  have "start_of m x \<le> start_of m y \<or> y \<in> set (mmio m i) \<union> D"
    if x: "x \<in> set (mmio m i)" and y: "y \<in> set (concat (map (mmio m) [Suc i..<Suc i + n]))" for x y
  proof -
    obtain k where "k \<in> set [Suc i..<Suc i + n]" and k2: "y \<in> set (mmio m k)"
      using y unfolding set_concat set_map by blast
    then have k: "i < k" "y \<in> set (mmio m k)" by auto
    have h: "x \<in> set (handle m)" "y \<in> set (handle m)" using mmio_bucket_subset [OF assms] x k by auto
    show ?thesis
    proof (cases "y \<in> set (mmio m i)")
      case False
      then have "i < nbucket (start_of m y)"
        using k unfolding mmio_okD(5) [OF assms h(2)] by auto
      moreover have "nbucket (start_of m x) \<le> i" using x unfolding mmio_okD(5) [OF assms h(1)] by simp
      ultimately show ?thesis using nbucket_mono [of "start_of m y" "start_of m x"] by linarith
    qed simp
  qed
  moreover have "first_sorted (start_of m) (D \<union> set (mmio m i)) (concat (map (mmio m) [Suc i..<Suc i + n]))"
    using Suc.prems mmio_bucket_subset [OF assms] by (intro Suc.IH) auto
  ultimately show ?case unfolding e using first_sorted_append [OF so] by simp
qed simp

section \<open>Accesses\<close>

fun call_covers :: "nat \<Rightarrow> mmio_call \<Rightarrow> bool" where
  "call_covers k (Handled p g q l) = (unat q \<le> k \<and> k < unat q + unat l)"
| "call_covers k (Direct g q l) = (unat q \<le> k \<and> k < unat q + unat l)"

definition at_byte :: "nat \<Rightarrow> mmio_call list \<Rightarrow> mmio_call list" where
  "at_byte k log = [c \<leftarrow> log. call_covers k c]"

lemma at_byte_simps [simp]:
  "at_byte k [] = []" "at_byte k (c # cs) = (if call_covers k c then c # at_byte k cs else at_byte k cs)"
  "at_byte k (cs @ ds) = at_byte k cs @ at_byte k ds"
  by (simp_all add: at_byte_def)

text \<open>What byte \<open>k\<close> of an access at \<open>gphys\<close> has to meet.\<close>

definition byte_served ::
  "(nat \<Rightarrow> u64 \<Rightarrow> u32 \<Rightarrow> bool) \<Rightarrow> mmio_data \<Rightarrow> u64 \<Rightarrow> nat \<Rightarrow> mmio_call list \<Rightarrow> bool" where
  "byte_served accepts m gphys k log =
     ((\<forall>p. overlaps m p (unat gphys + k) (unat gphys + k + 1) \<longrightarrow>
         (\<exists>q l. log = call_handler accepts p (gphys + q) q l))
      \<and> ((\<forall>p. \<not> overlaps m p (unat gphys + k) (unat gphys + k + 1)) \<longrightarrow>
           (\<exists>q l. log = [Direct (gphys + q) q l])))"

lemma at_byte_direct:
  "at_byte k (mmio_gphys_access g q l) = (if unat q \<le> k \<and> k < unat q + unat l then [Direct g q l] else [])"
  by (auto simp: mmio_gphys_access_def)

lemma at_byte_handler:
  "at_byte k (call_handler accepts p g q l)
     = (if unat q \<le> k \<and> k < unat q + unat l then call_handler accepts p g q l else [])"
  by (auto simp: call_handler_def at_byte_direct mmio_gphys_access_def)

definition pending :: "(nat \<Rightarrow> u64 \<Rightarrow> u32 \<Rightarrow> bool) \<Rightarrow> access_state \<Rightarrow> mmio_call list" where
  "pending accepts s = (case a_unlocked s of None \<Rightarrow> [] | Some (p, g, q, l) \<Rightarrow> call_handler accepts p g q l)"

abbreviation done_log where "done_log accepts s \<equiv> a_log s @ pending accepts s"

definition acc_inv where
  "acc_inv accepts m g len s =
     (a_gphys s = g + a_q s \<and> unat (a_gphys s) = unat g + unat (a_q s)
      \<and> unat (a_q s) + unat (a_len s) = unat (len :: u32)
      \<and> (\<forall>k < unat (a_q s). byte_served accepts m g k (at_byte k (done_log accepts s)))
      \<and> (\<forall>k \<ge> unat (a_q s). at_byte k (done_log accepts s) = [])
      \<and> (a_r s \<longrightarrow> (\<exists>p. overlaps m p (unat g) (unat g + unat len)))
      \<and> (\<not> a_r s \<longrightarrow> done_log accepts s = [] \<and> a_q s = 0)
      \<and> (\<forall>p t. a_unlocked s = Some (p, t) \<longrightarrow> h_unlocked_handler (deref m p)
           \<and> overlaps m p (unat g) (unat g + unat len)
           \<and> \<not> overlaps m p (unat (a_gphys s)) (unat g + unat len)))"

lemma disjoint_handlers:
  assumes "mmio_ok m" "overlaps m p a b" "overlaps m q a b" "b = Suc a"
  shows "p = q"
  using assms unfolding mmio_ok_def overlaps_def by fastforce

lemma overlaps_byte:
  assumes "overlaps m p a b" "k \<ge> a" "k \<ge> start_of m p" "k < b" "k < stop_of m p"
  shows "overlaps m p k (k + 1)"
  using assms by (simp add: overlaps_def)

lemma byte_served_handler:
  assumes "mmio_ok m" "overlaps m p (unat g + k) (unat g + k + 1)" "log = call_handler accepts p (g + q) q l"
  shows "byte_served accepts m g k log"
  unfolding byte_served_def
proof (intro conjI allI impI)
  fix p' assume "overlaps m p' (unat g + k) (unat g + k + 1)"
  then have "p' = p" using disjoint_handlers [OF assms(1) _ assms(2)] by simp
  then show "\<exists>q l. log = call_handler accepts p' (g + q) q l" using assms(3) by blast
qed (use assms(2) in blast)

lemma byte_served_direct:
  assumes "\<And>p. \<not> overlaps m p (unat g + k) (unat g + k + 1)"
  shows "byte_served accepts m g k [Direct (g + q) q l]"
  using assms by (auto simp: byte_served_def)

text \<open>The part of the registered handle \<open>x\<close> in the rest of the access, as numbers.\<close>

lemma access_split:
  fixes s :: access_state
  assumes ok: "mmio_ok m" and x: "x \<in> set (handle m)"
    and l: "0 < unat (a_len s)" "unat (a_gphys s) + unat (a_len s) < 2 ^ 64"
    and rc: "rangecheck (deref m x) (a_gphys s) (a_len s) = Some (g2, len2, f)"
  defines "P \<equiv> unat (a_gphys s)" and "M \<equiv> max (unat (a_gphys s)) (start_of m x)"
    and "N \<equiv> min (unat (a_gphys s) + unat (a_len s)) (stop_of m x)"
    and "tmp \<equiv> ucast (g2 - a_gphys s) :: u32"
  shows "f" "unat tmp = M - P" "P \<le> M" "M < N" "N \<le> P + unat (a_len s)" "unat len2 = N - M"
    and "unat (a_len s - tmp) = P + unat (a_len s) - M"
    and "unat (a_len s - tmp - len2) = P + unat (a_len s) - N"
    and "overlaps m x P (P + unat (a_len s))"
proof -
  have r: "range_ok (a_gphys s) (a_len s)" using l by (simp add: range_ok_def word_less_nat_alt)
  note h = mmio_okD [OF ok x]
  have ov: "overlaps m x P (P + unat (a_len s))"
    using in_range_overlaps [OF ok x r] rc by (simp add: in_range_def P_def)
  then show "overlaps m x P (P + unat (a_len s))" .
  note sm = rangecheck_some [OF h(1) r rc]
  show "f" by (rule sm)
  have g2: "unat g2 = M" using sm(2) by (simp add: M_def)
  show l2: "unat len2 = N - M" using sm(3) by (simp add: M_def N_def)
  show PM: "P \<le> M" by (simp add: P_def M_def)
  show MN: "M < N" using ov h(3) by (auto simp: overlaps_def M_def N_def P_def)
  show NE: "N \<le> P + unat (a_len s)" by (simp add: N_def P_def)
  have b: "M - P < 4294967296" using MN NE unat_lt_32 [of "a_len s"] by linarith
  have "unat (g2 - a_gphys s) = M - P" using PM g2 unfolding unat_sub64 P_def by simp
  then show t: "unat tmp = M - P"
    using b unfolding tmp_def by (simp add: unsigned_ucast_eq take_bit_eq_mod)
  have "tmp \<le> a_len s" unfolding word_le_nat_alt t using MN NE by linarith
  then show e: "unat (a_len s - tmp) = P + unat (a_len s) - M" using t PM by (simp add: unat_sub)
  have "len2 \<le> a_len s - tmp" unfolding word_le_nat_alt e l2 using MN NE by linarith
  then show "unat (a_len s - tmp - len2) = P + unat (a_len s) - N"
    using e l2 MN by (simp add: unat_sub)
qed

lemma access_handle_step:
  fixes g :: u64 and len :: u32
  defines "E \<equiv> unat g + unat len"
  assumes ok: "mmio_ok m" and inv: "acc_inv accepts m g len s" and l0: "0 < a_len s"
    and lim: "unat g + unat len < 2 ^ 64" and x: "x \<in> set (handle m)"
    and first: "\<And>y. overlaps m y (unat (a_gphys s)) E \<Longrightarrow> start_of m x \<le> start_of m y"
    and single: "\<And>p q. overlaps m p (unat g) E \<Longrightarrow> overlaps m q (unat g) E
      \<Longrightarrow> h_unlocked_handler (deref m p) \<Longrightarrow> h_unlocked_handler (deref m q) \<Longrightarrow> p = q"
  shows "case access_handle accepts m x s of
      Out s' \<Rightarrow> acc_inv accepts m g len s' \<and> (\<forall>y. \<not> overlaps m y (unat (a_gphys s')) E)
    | Go s' \<Rightarrow> acc_inv accepts m g len s' \<and> 0 < a_len s' \<and> unat (a_gphys s) \<le> unat (a_gphys s')
        \<and> \<not> overlaps m x (unat (a_gphys s')) E
    | Panic \<Rightarrow> False"
proof -
  define P where "P = unat (a_gphys s)"
  have i: "a_gphys s = g + a_q s" "P = unat g + unat (a_q s)" "unat (a_q s) + unat (a_len s) = unat len"
    "\<And>k. k < unat (a_q s) \<Longrightarrow> byte_served accepts m g k (at_byte k (done_log accepts s))"
    "\<And>k. k \<ge> unat (a_q s) \<Longrightarrow> at_byte k (done_log accepts s) = []"
    "\<And>p t. a_unlocked s = Some (p, t) \<Longrightarrow> h_unlocked_handler (deref m p)
           \<and> overlaps m p (unat g) E \<and> \<not> overlaps m p P E"
    using inv unfolding acc_inv_def P_def E_def by blast+
  have l: "0 < unat (a_len s)" using l0 by (simp add: word_less_nat_alt)
  have PE: "P + unat (a_len s) = E" using i by (simp add: E_def)
  have E64: "E < 2 ^ 64" using lim by (simp add: E_def)
  have E': "unat (a_gphys s + ucast (a_len s)) = E" using PE E64 by (simp add: unat_add64 P_def)
  have r: "range_ok (a_gphys s) (a_len s)" using l PE E64 by (simp add: range_ok_def word_less_nat_alt P_def)
  note ir = in_range_overlaps [OF ok x r, folded P_def, unfolded PE]
  show ?thesis
  proof (cases "h_gphys (deref m x) \<ge> a_gphys s + ucast (a_len s)")
    case True
    then have "E \<le> start_of m x" by (simp add: word_le_nat_alt E' h_start_def)
    then have "\<not> overlaps m y P E" for y using first [of y] by (auto simp: overlaps_def P_def)
    then show ?thesis using True inv by (simp add: access_handle_def P_def)
  next
    case False
    show ?thesis
    proof (cases "rangecheck (deref m x) (a_gphys s) (a_len s)")
      case None
      then have "\<not> overlaps m x P E" using ir by (simp add: in_range_def)
      then show ?thesis using False None inv l0 by (simp add: access_handle_def P_def)
    next
      case (Some t)
      obtain g2 len2 f where t: "t = (g2, len2, f)" by (cases t)
      define tmp where "tmp = (ucast (g2 - a_gphys s) :: u32)"
      define M N where "M = max P (start_of m x)" and "N = min E (stop_of m x)"
      have s64: "unat (a_gphys s) + unat (a_len s) < 2 ^ 64" using PE E64 by (simp add: P_def)
      note sp = access_split [OF ok x l s64 Some [unfolded t], folded P_def tmp_def, unfolded PE, folded M_def N_def]
      have ox: "overlaps m x (unat g) E" using sp(9) i(2) by (auto simp: overlaps_def)
      have nu: "a_unlocked s = None" if "h_unlocked_handler (deref m x)"
      proof (rule ccontr)
        assume "a_unlocked s \<noteq> None"
        then obtain p t where "a_unlocked s = Some (p, t)" by auto
        with i(6) single [OF _ ox _ that] sp(9) show False by blast
      qed
      define D where "D = mmio_gphys_access (a_gphys s) (a_q s) tmp"
      define H where "H = call_handler accepts x (a_gphys s + ucast tmp) (a_q s + ucast tmp) len2"
      define s3 where "s3 = s\<lparr>a_r := True, a_gphys := a_gphys s + ucast tmp + ucast len2,
        a_q := a_q s + ucast tmp + ucast len2, a_len := a_len s - tmp - len2,
        a_log := a_log s @ D @ (if h_unlocked_handler (deref m x) then [] else H),
        a_unlocked := if h_unlocked_handler (deref m x)
          then Some (x, a_gphys s + ucast tmp, a_q s + ucast tmp, len2) else a_unlocked s\<rparr>"
      have res: "access_handle accepts m x s = (if a_len s3 = 0 then Out s3 else Go s3)"
        using False nu sp(1)
        by (simp add: access_handle_def Some t tmp_def [symmetric] s3_def D_def H_def Let_def)
      have q1: "unat (a_q s + ucast tmp) = unat (a_q s) + (M - P)"
        using sp(2-5) i(2) E64 by (simp add: unat_add64)
      have g3: "unat (a_gphys s3) = N"
        using sp(2-6) E64 by (simp add: s3_def unat_add64 P_def)
      have q3: "unat (a_q s3) = unat (a_q s) + (N - P)"
        using sp(2-6) q1 i(2) E64 by (simp add: s3_def unat_add64 [of "a_q s + ucast tmp"])
      have l3: "unat (a_len s3) = E - N" using sp(8) by (simp add: s3_def)
      have log3: "at_byte k (done_log accepts s3)
          = at_byte k (a_log s) @ at_byte k D @ at_byte k H @ at_byte k (pending accepts s)" for k
        using nu by (cases "h_unlocked_handler (deref m x)") (simp_all add: s3_def pending_def H_def)
      have atD: "at_byte k D = (if unat (a_q s) \<le> k \<and> k < unat (a_q s) + (M - P)
          then [Direct (g + a_q s) (a_q s) tmp] else [])" for k
        by (simp add: D_def at_byte_direct sp(2) i(1))
      have atH: "at_byte k H = (if unat (a_q s) + (M - P) \<le> k \<and> k < unat (a_q s) + (N - P) then H else [])" for k
        using sp(3,4,6) by (auto simp: H_def at_byte_handler q1)
      have none: "\<not> overlaps m y P E" if "start_of m y < start_of m x" for y
        using first [of y] that by (auto simp: P_def)
      have served: "byte_served accepts m g k (at_byte k (done_log accepts s3))" if k: "k < unat (a_q s3)" for k
      proof (cases "k < unat (a_q s)")
        case True
        then show ?thesis using i(4) [OF True] unfolding log3 by (simp add: atD atH)
      next
        case ge: False
        then have z: "at_byte k (a_log s) = []" "at_byte k (pending accepts s) = []" using i(5) [of k] by simp_all
        show ?thesis
        proof (cases "k < unat (a_q s) + (M - P)")
          case True
          then have "unat g + k < start_of m x" using ge i(2) by (auto simp: M_def)
          moreover have "unat g + k < E" "P \<le> unat g + k" using True ge sp(4,5) i(2) by auto
          ultimately have "\<not> overlaps m y (unat g + k) (unat g + k + 1)" for y
            using none [of y] by (auto simp: overlaps_def)
          from byte_served_direct [OF this] show ?thesis using True ge sp(3) unfolding log3 by (simp add: z atD atH)
        next
          case False
          have "overlaps m x (unat g + k) (unat g + k + 1)"
            by (rule overlaps_byte [OF sp(9)]) (use False k sp(3-5) i(2) in \<open>auto simp: q3 M_def N_def\<close>)
          from byte_served_handler [OF ok this refl]
          have "byte_served accepts m g k H" unfolding H_def i(1) add.assoc .
          then show ?thesis using False k ge sp(3,4) unfolding log3 by (simp add: z atD atH q3)
        qed
      qed
      have rest: "at_byte k (done_log accepts s3) = []" if "k \<ge> unat (a_q s3)" for k
        using i(5) [of k] that sp(3-5) unfolding log3 atD atH q3 by auto
      have past: "\<not> overlaps m x N E" using sp(9) by (auto simp: overlaps_def N_def)
      have mono: "\<not> overlaps m p P E \<Longrightarrow> \<not> overlaps m p N E" for p
        using sp(3,4) by (auto simp: overlaps_def)
      have "acc_inv accepts m g len s3"
        unfolding acc_inv_def g3 E_def [symmetric]
      proof (intro conjI allI impI)
        show "a_gphys s3 = g + a_q s3" using i(1) by (simp add: s3_def add.assoc)
        show "N = unat g + unat (a_q s3)" using q3 i(2) sp(3,4) by simp
        show "unat (a_q s3) + unat (a_len s3) = unat len" using q3 l3 i(2) sp(3-5) by (simp add: E_def)
        show "\<exists>p. overlaps m p (unat g) E" using ox by blast
      next
        fix p t assume "a_unlocked s3 = Some (p, t)"
        then show "h_unlocked_handler (deref m p)" "overlaps m p (unat g) E" "\<not> overlaps m p N E"
          using i(6) [of p] ox past mono by (auto simp: s3_def split: if_splits)
      qed (use served rest in \<open>auto simp: s3_def\<close>)
      moreover have "\<not> overlaps m y N E" if "a_len s3 = 0" for y
        using l3 that sp(5) by (simp add: overlaps_def)
      moreover have "P \<le> N" using sp(3,4) by simp
      ultimately show ?thesis using past unfolding res by (simp add: g3 P_def word_gt_0)
    qed
  qed
qed

lemma access_list_append:
  "access_list accepts m (xs @ ys) s
     = (case access_list accepts m xs s of Go s' \<Rightarrow> access_list accepts m ys s' | other \<Rightarrow> other)"
  by (induction xs arbitrary: s) (auto split: flow.splits)

lemma access_buckets_concat:
  "access_buckets accepts m is s = access_list accepts m (concat (map (mmio m) is)) s"
  by (induction "is" arbitrary: s) (auto simp: access_list_append split: flow.splits)

text \<open>A walk that meets every handle of the rest of the access serves all of it.\<close>

lemma access_list_serves:
  fixes g :: u64 and len :: u32
  defines "E \<equiv> unat g + unat len"
  assumes ok: "mmio_ok m" and lim: "unat g + unat len < 2 ^ 64"
    and single: "\<And>p q. overlaps m p (unat g) E \<Longrightarrow> overlaps m q (unat g) E
      \<Longrightarrow> h_unlocked_handler (deref m p) \<Longrightarrow> h_unlocked_handler (deref m q) \<Longrightarrow> p = q"
  shows "set xs \<subseteq> set (handle m) \<Longrightarrow> first_sorted (start_of m) D xs \<Longrightarrow> acc_inv accepts m g len s
    \<Longrightarrow> 0 < a_len s \<Longrightarrow> \<forall>d \<in> D. \<not> overlaps m d (unat (a_gphys s)) E
    \<Longrightarrow> \<forall>y. overlaps m y (unat (a_gphys s)) E \<longrightarrow> y \<in> set xs
    \<Longrightarrow> \<exists>s'. (access_list accepts m xs s = Out s' \<or> access_list accepts m xs s = Go s')
          \<and> acc_inv accepts m g len s' \<and> (\<forall>y. \<not> overlaps m y (unat (a_gphys s')) E)"
proof (induction xs arbitrary: D s)
  case Nil
  then show ?case by auto
next
  case (Cons x xs)
  have first: "start_of m x \<le> start_of m y" if "overlaps m y (unat (a_gphys s)) E" for y
    using that Cons.prems(2,5,6) by auto
  have x: "x \<in> set (handle m)" using Cons.prems(1) by simp
  note st = access_handle_step [OF ok Cons.prems(3,4) lim x, folded E_def, OF first single]
  show ?case
  proof (cases "access_handle accepts m x s")
    case (Out s')
    then show ?thesis using st by auto
  next
    case Panic
    then show ?thesis using st by auto
  next
    case (Go s')
    then have s': "acc_inv accepts m g len s'" "0 < a_len s'"
      "unat (a_gphys s) \<le> unat (a_gphys s')" "\<not> overlaps m x (unat (a_gphys s')) E"
      using st by auto
    have mono: "overlaps m y (unat (a_gphys s')) E \<Longrightarrow> overlaps m y (unat (a_gphys s)) E" for y
      using s'(3) by (auto simp: overlaps_def)
    have "\<exists>s''. (access_list accepts m xs s' = Out s'' \<or> access_list accepts m xs s' = Go s'')
          \<and> acc_inv accepts m g len s'' \<and> (\<forall>y. \<not> overlaps m y (unat (a_gphys s'')) E)"
    proof (rule Cons.IH [of "insert x D"])
      show "set xs \<subseteq> set (handle m)" "first_sorted (start_of m) (insert x D) xs"
        using Cons.prems(1,2) by auto
      show "\<forall>d \<in> insert x D. \<not> overlaps m d (unat (a_gphys s')) E" using s'(4) mono Cons.prems(5) by auto
      show "\<forall>y. overlaps m y (unat (a_gphys s')) E \<longrightarrow> y \<in> set xs"
        using Cons.prems(6) mono s'(4) by auto
    qed (use s' in auto)
    then show ?thesis using Go by simp
  qed
qed

lemma buckets_of_access:
  assumes ok: "mmio_ok m" and r: "range_ok g len"
  defines "xs \<equiv> concat (map (mmio m) [bucket g ..< Suc (bucket (g + ucast len - 1))])"
  shows "set xs \<subseteq> set (handle m)" "first_sorted (start_of m) {} xs"
    and "overlaps m y (unat g) (unat g + unat len) \<Longrightarrow> y \<in> set xs"
proof -
  show "set xs \<subseteq> set (handle m)" using mmio_bucket_subset [OF ok] by (auto simp: xs_def)
  have b: "bucket g = nbucket (unat g)" "bucket (g + ucast len - 1) = nbucket (unat g + unat len - 1)"
    using bucket_last [OF r] by (simp_all add: bucket_nbucket)
  have "0 < unat len" using r by (simp add: range_ok_def word_less_nat_alt)
  then have le: "bucket g \<le> bucket (g + ucast len - 1)" unfolding b by (intro nbucket_mono) simp
  define n where "n = Suc (bucket (g + ucast len - 1)) - bucket g"
  have e: "Suc (bucket (g + ucast len - 1)) = bucket g + n" using le by (simp add: n_def)
  show "first_sorted (start_of m) {} xs"
    unfolding xs_def e by (rule buckets_first_sorted [OF ok]) simp
  assume o: "overlaps m y (unat g) (unat g + unat len)"
  obtain i where i: "i \<in> {bucket g .. bucket (g + ucast len - 1)}" "y \<in> set (mmio m i)"
    using overlaps_bucket [OF ok o] unfolding b by blast
  then have "i \<in> set [bucket g ..< Suc (bucket (g + ucast len - 1))]" unfolding set_upt by auto
  then show "y \<in> set xs" using i(2) unfolding xs_def set_concat set_map by blast
qed

text \<open>The state in which the loop over the buckets ends.\<close>

lemma access_memory_run:
  assumes "mmio_ok m" "0 < len" "unat gphys + unat len < 2 ^ 64"
    and "\<And>p q. overlaps m p (unat gphys) (unat gphys + unat len)
      \<Longrightarrow> overlaps m q (unat gphys) (unat gphys + unat len)
      \<Longrightarrow> h_unlocked_handler (deref m p) \<Longrightarrow> h_unlocked_handler (deref m q) \<Longrightarrow> p = q"
  obtains s where "acc_inv accepts m gphys len s"
    and "\<And>y. \<not> overlaps m y (unat (a_gphys s)) (unat gphys + unat len)"
    and "mmio_access_memory accepts m gphys len
      = Some (a_r s, a_log s @ (if a_r s then mmio_gphys_access (a_gphys s) (a_q s) (a_len s) else [])
          @ pending accepts s)"
proof -
  define s0 where "s0 = \<lparr>a_gphys = gphys, a_q = 0, a_len = len, a_r = False, a_unlocked = None, a_log = []\<rparr>"
  have r: "range_ok gphys len" using assms(2,3) by (simp add: range_ok_def)
  have i0: "acc_inv accepts m gphys len s0" by (simp add: acc_inv_def s0_def pending_def)
  define xs where "xs = concat (map (mmio m) [bucket gphys ..< Suc (bucket (gphys + ucast len - 1))])"
  note bk = buckets_of_access [OF assms(1) r, folded xs_def]
  obtain s where s: "access_list accepts m xs s0 = Out s \<or> access_list accepts m xs s0 = Go s"
    "acc_inv accepts m gphys len s" "\<And>y. \<not> overlaps m y (unat (a_gphys s)) (unat gphys + unat len)"
    using access_list_serves [OF assms(1,3,4) bk(1,2) i0] bk(3) assms(2)
    by (auto simp: s0_def)
  show ?thesis
  proof (rule that [OF s(2,3)])
    show "mmio_access_memory accepts m gphys len
        = Some (a_r s, a_log s @ (if a_r s then mmio_gphys_access (a_gphys s) (a_q s) (a_len s) else [])
            @ pending accepts s)"
      using s(1) assms(2) unfolding mmio_access_memory_def access_buckets_concat s0_def [symmetric]
        xs_def [symmetric] pending_def Let_def by (auto simp: word_gt_0)
  qed
qed

lemma acc_inv_served_nothing:
  assumes "acc_inv accepts m gphys len s" "\<not> a_r s"
  shows "a_q s = 0" "a_log s = []" "pending accepts s = []" "a_gphys s = gphys"
  using assms by (auto simp: acc_inv_def)

text \<open>An access that meets no registered range is left to the caller.\<close>

lemma access_memory_misses:
  assumes "mmio_ok m" "0 < len" "unat gphys + unat len < 2 ^ 64"
    and "\<And>p. \<not> overlaps m p (unat gphys) (unat gphys + unat len)"
  shows "mmio_access_memory accepts m gphys len = Some (False, [])"
proof -
  obtain s where s: "acc_inv accepts m gphys len s"
    "mmio_access_memory accepts m gphys len
      = Some (a_r s, a_log s @ (if a_r s then mmio_gphys_access (a_gphys s) (a_q s) (a_len s) else [])
          @ pending accepts s)"
    using access_memory_run [OF assms(1-3)] assms(4) by metis
  then have "\<not> a_r s" using assms(4) by (auto simp: acc_inv_def)
  then show ?thesis using s acc_inv_served_nothing [OF s(1)] by simp
qed

text \<open>
  C28: An access to guest memory that meets the MMIO registry is split exactly: every byte of the
  buffer that lies in a registered range goes to that range's handler, at the right address, and
  to the memory as well only if the handler does not accept it; every other byte goes to the
  memory once.  An access that meets no range makes no call and reports 0.
\<close>

theorem mmio_access_memory_splits:
  assumes "mmio_ok m" "0 < len" "unat gphys + unat len < 2 ^ 64"
    and "\<And>p q. overlaps m p (unat gphys) (unat gphys + unat len)
      \<Longrightarrow> overlaps m q (unat gphys) (unat gphys + unat len)
      \<Longrightarrow> h_unlocked_handler (deref m p) \<Longrightarrow> h_unlocked_handler (deref m q) \<Longrightarrow> p = q"
  shows "\<exists>log. mmio_access_memory accepts m gphys len
      = Some (\<exists>p. overlaps m p (unat gphys) (unat gphys + unat len), log)
    \<and> (if \<exists>p. overlaps m p (unat gphys) (unat gphys + unat len)
       then \<forall>k < unat len. byte_served accepts m gphys k (at_byte k log) else log = [])"
proof -
  define E where "E = unat gphys + unat len"
  obtain s where s: "acc_inv accepts m gphys len s" "\<And>y. \<not> overlaps m y (unat (a_gphys s)) E"
    and run: "mmio_access_memory accepts m gphys len
      = Some (a_r s, a_log s @ (if a_r s then mmio_gphys_access (a_gphys s) (a_q s) (a_len s) else [])
          @ pending accepts s)"
    by (rule access_memory_run [OF assms]) (auto simp: E_def)
  define log where "log = a_log s @ (if a_r s then mmio_gphys_access (a_gphys s) (a_q s) (a_len s) else [])
      @ pending accepts s"
  note res = run [folded log_def]
  have i: "unat (a_gphys s) = unat gphys + unat (a_q s)" "unat (a_q s) + unat (a_len s) = unat len"
    "a_gphys s = gphys + a_q s" using s(1) by (auto simp: acc_inv_def)
  show ?thesis
  proof (cases "a_r s")
    case True
    have ex: "\<exists>p. overlaps m p (unat gphys) E" using s(1) True by (auto simp: acc_inv_def E_def)
    have "byte_served accepts m gphys k (at_byte k log)" if "k < unat len" for k
    proof (cases "k < unat (a_q s)")
      case lt: True
      then have "at_byte k log = at_byte k (done_log accepts s)"
        by (simp add: log_def True at_byte_direct)
      then show ?thesis using s(1) lt by (simp add: acc_inv_def)
    next
      case False
      then have z: "at_byte k (done_log accepts s) = []" using s(1) by (simp add: acc_inv_def)
      have "\<not> overlaps m y (unat gphys + k) (unat gphys + k + 1)" for y
        using s(2) [of y] i False that by (auto simp: overlaps_def E_def)
      from byte_served_direct [OF this] show ?thesis
        using False z that i by (simp add: log_def True at_byte_direct)
    qed
    then show ?thesis using res True ex by (auto simp: E_def)
  next
    case False
    then have "a_q s = 0" "log = []" using acc_inv_served_nothing [OF s(1)] by (simp_all add: log_def)
    moreover have "\<not> overlaps m y (unat gphys) E" for y using s(2) [of y] i \<open>a_q s = 0\<close> by simp
    ultimately show ?thesis using res False by (simp add: E_def)
  qed
qed

section \<open>Pages and ranges\<close>

lemma range_list_append:
  "range_list m g len (xs @ ys) = (case range_list m g len xs of None \<Rightarrow> range_list m g len ys | r \<Rightarrow> r)"
  by (induction xs) (auto simp: Let_def)

lemma range_buckets_concat:
  "range_buckets m g len is = (case range_list m g len (concat (map (mmio m) is)) of None \<Rightarrow> 0 | Some r \<Rightarrow> r)"
  by (induction "is") (auto simp: range_list_append split: option.splits)

definition first_overlap :: "mmio_data \<Rightarrow> nat \<Rightarrow> nat \<Rightarrow> nat \<Rightarrow> bool" where
  "first_overlap m p a b = (overlaps m p a b \<and> (\<forall>y. overlaps m y a b \<longrightarrow> start_of m p \<le> start_of m y))"

lemma range_list_first:
  fixes g :: u64 and len :: u32
  defines "E \<equiv> unat g + unat len"
  assumes ok: "mmio_ok m" and len: "0 < len" and lim: "unat g + unat len < 2 ^ 64"
  shows "set xs \<subseteq> set (handle m) \<Longrightarrow> first_sorted (start_of m) D xs
    \<Longrightarrow> \<forall>d \<in> D. \<not> overlaps m d (unat g) E \<Longrightarrow> \<forall>y. overlaps m y (unat g) E \<longrightarrow> y \<in> set xs
    \<Longrightarrow> (if \<exists>p. overlaps m p (unat g) E
         then \<exists>p. first_overlap m p (unat g) E
              \<and> range_list m g len xs = Some (h_gphys (deref m p) + ucast (h_len (deref m p)))
         else range_list m g len xs \<in> {None, Some 0})"
proof (induction xs arbitrary: D)
  case Nil
  then show ?case by auto
next
  case (Cons x xs)
  have r: "range_ok g len" using len lim by (simp add: range_ok_def)
  have x: "x \<in> set (handle m)" using Cons.prems(1) by simp
  note ir = in_range_overlaps [OF ok x r, folded E_def]
  have first: "start_of m x \<le> start_of m y" if "overlaps m y (unat g) E" for y
    using that Cons.prems by auto
  have E': "unat (g + ucast len) = E" using lim by (simp add: unat_add64 E_def)
  show ?case
  proof (cases "h_gphys (deref m x) \<ge> g + ucast len")
    case True
    then have "E \<le> start_of m x" by (simp add: word_le_nat_alt E' h_start_def)
    then have "\<not> overlaps m y (unat g) E" for y using first [of y] by (auto simp: overlaps_def)
    then show ?thesis using True by simp
  next
    case False
    show ?thesis
    proof (cases "overlaps m x (unat g) E")
      case True
      then have "first_overlap m x (unat g) E" using first by (simp add: first_overlap_def)
      then show ?thesis using False True ir by (auto simp: Let_def)
    next
      case no: False
      then have "range_list m g len (x # xs) = range_list m g len xs" using False ir by simp
      moreover have "(if \<exists>p. overlaps m p (unat g) E
         then \<exists>p. first_overlap m p (unat g) E
              \<and> range_list m g len xs = Some (h_gphys (deref m p) + ucast (h_len (deref m p)))
         else range_list m g len xs \<in> {None, Some 0})"
        by (rule Cons.IH [of "insert x D"]) (use Cons.prems no in auto)
      ultimately show ?thesis by (simp only:)
    qed
  qed
qed

text \<open>
  \<open>mmio_range\<close> returns the end of the lowest registered range that meets the given one, and 0
  when there is none.
\<close>

theorem mmio_range_first:
  assumes "mmio_ok m" "0 < len" "unat gphys + unat len < 2 ^ 64"
  shows "if \<exists>p. overlaps m p (unat gphys) (unat gphys + unat len)
    then \<exists>p. first_overlap m p (unat gphys) (unat gphys + unat len)
         \<and> mmio_range m gphys len = h_gphys (deref m p) + ucast (h_len (deref m p))
    else mmio_range m gphys len = 0"
proof -
  have r: "range_ok gphys len" using assms(2,3) by (simp add: range_ok_def)
  note bk = buckets_of_access [OF assms(1) r]
  note fl = range_list_first [OF assms bk(1,2)]
  show ?thesis
    using fl bk(3) assms(2) unfolding mmio_range_def range_buckets_concat by (auto split: if_splits)
qed

lemma access_page_list_first:
  assumes ok: "mmio_ok m" and lim: "unat g + 0x1000 < 2 ^ 64"
  shows "set xs \<subseteq> set (handle m) \<Longrightarrow> sorted (map (start_of m) xs)
    \<Longrightarrow> access_page_list m g emulation xs
      = (if \<exists>p \<in> set xs. overlaps m p (unat g) (unat g + 0x1000)
         then if emulation then Interpret else Is_mmio else Not_mmio)"
proof (induction xs)
  case (Cons x xs)
  have r: "range_ok g 0x1000" using lim by (simp add: range_ok_def)
  have x: "x \<in> set (handle m)" using Cons.prems(1) by simp
  have ir: "in_range (deref m x) g 0x1000 \<longleftrightarrow> overlaps m x (unat g) (unat g + 0x1000)"
    using in_range_overlaps [OF ok x r] by simp
  have E': "unat (g + PAGESIZE) = unat g + 0x1000" using lim by (simp add: unat_add64)
  show ?case
  proof (cases "h_gphys (deref m x) \<ge> g + PAGESIZE")
    case True
    then have "unat g + 0x1000 \<le> start_of m x" by (simp only: word_le_nat_alt E' h_start_def)
    then have "\<not> overlaps m y (unat g) (unat g + 0x1000)" if "y \<in> set (x # xs)" for y
      using Cons.prems(2) that by (auto simp: overlaps_def)
    then show ?thesis using True by auto
  next
    case False
    then show ?thesis using ir Cons by (cases emulation) auto
  qed
qed simp

lemma page_one_bucket:
  assumes "mmio_ok m" "unat g mod 2 ^ 12 = 0" "overlaps m p (unat g) (unat g + 0x1000)"
  shows "p \<in> set (mmio m (bucket g))"
proof -
  obtain i where i: "i \<in> {nbucket (unat g) .. nbucket (unat g + 0x1000 - 1)}" "p \<in> set (mmio m i)"
    using overlaps_bucket [OF assms(1,3)] by blast
  define q where "q = unat g div 2 ^ 12"
  have g: "unat g = q * 4096" using assms(2) by (auto simp: q_def)
  have "(q * 4096 + 4095) div 4096 = q" by simp
  then have "(q * 4096 + 4095) div (4096 * 65536) = q * 4096 div (4096 * 65536)"
    by (simp add: div_mult2_eq)
  then have "nbucket (unat g + 0x1000 - 1) = nbucket (unat g)" by (simp add: nbucket_def g)
  then show ?thesis using i by (simp add: bucket_nbucket)
qed

lemma mmio_access_page_iff:
  assumes "mmio_ok m" and "unat (gphys AND NOT PAGESIZE_MASK) + 0x1000 < 2 ^ 64"
  defines "P \<equiv> unat (gphys AND NOT PAGESIZE_MASK)"
  shows "mmio_access_page m gphys emulation
    = (if \<exists>p. overlaps m p P (P + 0x1000) then if emulation then Interpret else Is_mmio else Not_mmio)"
proof -
  define g where "g = gphys AND NOT PAGESIZE_MASK"
  have al: "unat g mod 2 ^ 12 = 0" unfolding g_def page_masks unat_and_not_mask by simp
  have "set (mmio m (bucket g)) \<subseteq> set (handle m)" "sorted (map (start_of m) (mmio m (bucket g)))"
    using assms(1) by (auto simp: mmio_ok_def)
  note access_page_list_first [OF assms(1,2) this, folded g_def]
  moreover have "(\<exists>p \<in> set (mmio m (bucket g)). overlaps m p (unat g) (unat g + 0x1000))
      \<longleftrightarrow> (\<exists>p. overlaps m p (unat g) (unat g + 0x1000))"
    using page_one_bucket [OF assms(1) al] by blast
  ultimately show ?thesis by (simp add: mmio_access_page_def P_def g_def)
qed

text \<open>
  C29: A page fault is recognised as an MMIO access exactly when the page meets a registered range.
\<close>

theorem mmio_access_page_finds:
  assumes "mmio_ok m" and "unat (gphys AND NOT PAGESIZE_MASK) + 0x1000 < 2 ^ 64"
  defines "P \<equiv> unat (gphys AND NOT PAGESIZE_MASK)"
  shows "mmio_access_page m gphys emulation
    = (if \<exists>p. overlaps m p P (P + 0x1000) then if emulation then Interpret else Is_mmio else Not_mmio)"
  unfolding P_def by (rule mmio_access_page_iff [OF assms(1,2)])

end
