(* ===== verification/Mmio_Registry.thy ===== *)
theory Mmio_Registry
  imports Mmio_Access
begin

text \<open>
  Registration and removal of MMIO handles: the buckets stay sorted and complete and the registered
  ranges disjoint, whatever the order of the operations and of the locks.
\<close>

section \<open>The walk over the buckets of a handle\<close>

lemma bucket_and_not: "bucket (a AND NOT 0x0FFFFFFF) = bucket a"
proof -
  have m: "0x0FFFFFFF = (mask 28 :: u64)" by (simp add: mask_eq_decr_exp)
  have "unat (a AND NOT 0x0FFFFFFF) div 2 ^ 28 = unat a div 2 ^ 28"
    unfolding m unat_and_not_mask by simp
  then show ?thesis by (simp add: bucket_min)
qed

lemma bucket_or: "bucket (a OR 0x0FFFFFFF) = bucket a"
proof -
  have m: "0x0FFFFFFF = (mask 28 :: u64)" by (simp add: mask_eq_decr_exp)
  have "drop_bit 28 (a OR mask 28) = drop_bit 28 a" by (rule bit_word_eqI) (auto simp: bit_simps)
  then have "unat (a OR 0x0FFFFFFF) div 2 ^ 28 = unat a div 2 ^ 28"
    unfolding m by (metis unat_drop_bit)
  then show ?thesis by (simp add: bucket_min)
qed

lemma scan_fold:
  assumes "range_ok (h_gphys h) (h_len h)"
  shows "scan (h_gphys h) (h_len h) f m
    = fold f [nbucket (h_start h) ..< Suc (nbucket (h_stop h - 1))] m"
  unfolding scan_def Let_def bucket_and_not bucket_or bucket_last [OF assms]
  unfolding bucket_nbucket h_start_def h_stop_def ..

text \<open>What a step on one bucket does, and the fold of it over an interval of buckets.\<close>

lemma fold_buckets:
  assumes "\<And>i m. f i m = m\<lparr>mmio := (mmio m)(i := e (deref m) (mmio m i))\<rparr>" "distinct is"
  shows "fold f is m = m\<lparr>mmio := (\<lambda>i. if i \<in> set is then e (deref m) (mmio m i) else mmio m i)\<rparr>"
  using assms(2)
proof (induction "is" arbitrary: m)
  case (Cons i "is")
  have "fold f (i # is) m = fold f is (m\<lparr>mmio := (mmio m)(i := e (deref m) (mmio m i))\<rparr>)"
    by (simp add: assms(1))
  also have "\<dots> = m\<lparr>mmio := (\<lambda>j. if j \<in> set (i # is) then e (deref m) (mmio m j) else mmio m j)\<rparr>"
    using Cons by (auto simp: fun_eq_iff)
  finally show ?case .
qed simp

definition insert_sorted :: "(nat \<Rightarrow> nat) \<Rightarrow> nat \<Rightarrow> nat list \<Rightarrow> nat list" where
  "insert_sorted st p xs = takeWhile (\<lambda>d. st d \<le> st p) xs @ p # dropWhile (\<lambda>d. st d \<le> st p) xs"

lemma add_eq: "add i p m = m\<lparr>mmio := (mmio m)(i := insert_sorted (start_of m) p (mmio m i))\<rparr>"
  by (simp add: add_def insert_sorted_def h_start_def word_less_nat_alt not_less)

lemma insert_sorted_props:
  assumes "sorted (map st xs)"
  shows "sorted (map st (insert_sorted st p xs))" "set (insert_sorted st p xs) = insert p (set xs)"
    and "distinct (insert_sorted st p xs) \<longleftrightarrow> distinct xs \<and> p \<notin> set xs"
proof -
  define t d where "t = takeWhile (\<lambda>d. st d \<le> st p) xs" and "d = dropWhile (\<lambda>d. st d \<le> st p) xs"
  have e: "insert_sorted st p xs = t @ p # d" by (simp add: insert_sorted_def t_def d_def)
  have xs: "xs = t @ d" by (simp add: t_def d_def)
  have lo: "\<forall>x \<in> set t. st x \<le> st p" by (auto simp: t_def dest: set_takeWhileD)
  have hi: "\<forall>x \<in> set d. st p \<le> st x"
  proof (cases d)
    case (Cons y ys)
    then have "\<not> st y \<le> st p" unfolding d_def by (metis dropWhile_eq_Cons_conv)
    moreover have "sorted (st y # map st ys)"
      using assms unfolding xs map_append sorted_append Cons by simp
    ultimately show ?thesis unfolding Cons by force
  qed simp
  have so: "sorted (map st t)" "sorted (map st d)" using assms unfolding xs map_append sorted_append by auto
  show "sorted (map st (insert_sorted st p xs))"
    unfolding e map_append sorted_append using so lo hi by fastforce
  show "set (insert_sorted st p xs) = insert p (set xs)" unfolding e unfolding xs by auto
  show "distinct (insert_sorted st p xs) \<longleftrightarrow> distinct xs \<and> p \<notin> set xs" unfolding e unfolding xs by auto
qed

section \<open>Registration\<close>

lemma register_shape:
  assumes "mmio_register_internal gp2hp fails gphys len handler unlocked m = Some (Some p, m')"
    and "range_ok gphys len"
  defines "h \<equiv> \<lparr>h_gphys = gphys, h_len = len, h_handler = handler, h_unregistered = False,
                     h_unlocked_handler = unlocked\<rparr>"
  shows "p = next_ptr m" "\<forall>q \<in> set (handle m). \<not> in_range (deref m q) gphys len"
    and "m' = m\<lparr>deref := (deref m)(p := h), next_ptr := Suc p, handle := handle m @ [p],
        mmio := (\<lambda>i. if i \<in> touched h then insert_sorted (\<lambda>q. h_start (((deref m)(p := h)) q)) p (mmio m i)
                     else mmio m i)\<rparr>"
proof -
  have no: "\<not> list_ex (\<lambda>p. in_range (deref m p) gphys len) (handle m)"
    using assms(1) by (auto simp: mmio_register_internal_def split: if_splits)
  then show "\<forall>q \<in> set (handle m). \<not> in_range (deref m q) gphys len" by (simp add: list_ex_iff)
  have e: "p = next_ptr m" "m' = scan gphys len (\<lambda>i. add i p)
      (m\<lparr>deref := (deref m)(p := h), next_ptr := Suc p, handle := handle m @ [p]\<rparr>)"
    using assms(1) no unfolding mmio_register_internal_def h_def
    by (auto simp: Let_def split: if_splits option.splits)
  then show "p = next_ptr m" by simp
  define n where "n = m\<lparr>deref := (deref m)(p := h), next_ptr := Suc p, handle := handle m @ [p]\<rparr>"
  have r: "range_ok (h_gphys h) (h_len h)" using assms(2) by (simp add: h_def)
  have "m' = fold (\<lambda>i. add i p) [nbucket (h_start h) ..< Suc (nbucket (h_stop h - 1))] n"
    using scan_fold [OF r] e by (simp add: n_def h_def)
  also have "\<dots> = n\<lparr>mmio := (\<lambda>i. if i \<in> set [nbucket (h_start h) ..< Suc (nbucket (h_stop h - 1))]
      then insert_sorted (start_of n) p (mmio n i) else mmio n i)\<rparr>"
    by (rule fold_buckets [where e = "\<lambda>d. insert_sorted (\<lambda>q. h_start (d q)) p"]) (simp_all add: add_eq)
  also have "set [nbucket (h_start h) ..< Suc (nbucket (h_stop h - 1))] = touched h"
    unfolding touched_ok [OF r] set_upt by auto
  finally show "m' = m\<lparr>deref := (deref m)(p := h), next_ptr := Suc p, handle := handle m @ [p],
        mmio := (\<lambda>i. if i \<in> touched h then insert_sorted (\<lambda>q. h_start (((deref m)(p := h)) q)) p (mmio m i)
                     else mmio m i)\<rparr>"
    unfolding n_def by (simp cong: if_cong)
qed

lemma deref_upd_start: "h_start (((deref m)(p := h)) q) = (if q = p then h_start h else start_of m q)"
  by simp

lemma insert_sorted_cong:
  "(\<And>q. q \<in> insert p (set xs) \<Longrightarrow> f q = g q) \<Longrightarrow> insert_sorted f p xs = insert_sorted g p xs"
  unfolding insert_sorted_def by (intro arg_cong2 [where f = append] arg_cong2 [where f = Cons]
    takeWhile_cong dropWhile_cong refl) auto

lemma register_ok:
  assumes ok: "mmio_ok m" and r: "range_ok gphys len"
    and reg: "mmio_register_internal gp2hp fails gphys len handler unlocked m = Some (Some p, m')"
  shows "mmio_ok m'"
proof -
  define h where "h = \<lparr>h_gphys = gphys, h_len = len, h_handler = handler, h_unregistered = False,
                     h_unlocked_handler = unlocked\<rparr>"
  note sh = register_shape [OF reg r, folded h_def]
  have m': "deref m' = (deref m)(p := h)" "handle m' = handle m @ [p]" "next_ptr m' = Suc p"
    "mmio m' = (\<lambda>i. if i \<in> touched h then insert_sorted (start_of m') p (mmio m i) else mmio m i)"
    unfolding sh(3) by (simp_all cong: if_cong)
  have new: "p \<notin> set (handle m)" using mmio_okD(2) [OF ok] sh(1) by blast
  have old: "deref m' q = deref m q" if "q \<in> set (handle m)" for q using new that m' by auto
  have rh: "range_ok (h_gphys h) (h_len h)" using r by (simp add: h_def)
  have hs: "handlers m' = insert p (handlers m)"
    using old by (auto simp: handlers_def m'(2)) (simp_all add: m'(1) h_def)
  have disj: "h_stop h \<le> start_of m q \<or> stop_of m q \<le> h_start h" if "q \<in> handlers m" for q
  proof -
    have "\<not> overlaps m q (unat gphys) (unat gphys + unat len)"
      using sh(2) that in_range_overlaps [OF ok _ r] by (auto simp: handlers_def)
    then show ?thesis using that r unfolding overlaps_def range_ok_def
      by (auto simp: h_start_def h_stop_def h_def word_less_nat_alt)
  qed
  have bucket: "sorted (map (start_of m') (mmio m' i)) \<and> distinct (mmio m' i)
      \<and> set (mmio m' i) = {q \<in> set (handle m'). i \<in> touched (deref m' q)}" for i
  proof -
    have b: "sorted (map (start_of m) (mmio m i))" "distinct (mmio m i)"
      "set (mmio m i) = {q \<in> set (handle m). i \<in> touched (deref m q)}"
      using ok by (auto simp: mmio_ok_def)
    have eq: "map (start_of m') (mmio m i) = map (start_of m) (mmio m i)"
      using b(3) old by auto
    have b1: "sorted (map (start_of m') (mmio m i))" unfolding eq by (rule b(1))
    have np: "p \<notin> set (mmio m i)" using b(3) new by auto
    have sets: "{q \<in> set (handle m'). i \<in> touched (deref m' q)}
        = {q \<in> set (handle m). i \<in> touched (deref m q)} \<union> (if i \<in> touched h then {p} else {})"
      using old by (auto simp: m'(2)) (simp_all add: m'(1))
    show ?thesis
      using insert_sorted_props [OF b1, of p] b(2,3) b1 np unfolding sets m'(4) by auto
  qed
  show ?thesis unfolding mmio_ok_def
  proof (intro conjI ballI allI impI)
    show "distinct (handle m')" using ok new by (simp add: m'(2) mmio_ok_def)
  next
    fix q assume "q \<in> set (handle m')"
    then show "range_ok (h_gphys (deref m' q)) (h_len (deref m' q))" "q < next_ptr m'"
      using mmio_okD(1,2) [OF ok, of q] rh old [of q] sh(1) by (auto simp: m' less_Suc_eq)
  next
    fix a b assume ab: "a \<in> handlers m'" "b \<in> handlers m'" "a \<noteq> b"
    have dp: "deref m' p = h" by (simp add: m'(1))
    have o: "deref m' q = deref m q" if "q \<in> handlers m" for q using old that by (simp add: handlers_def)
    have mm: "\<forall>p \<in> handlers m. \<forall>q \<in> handlers m. p \<noteq> q \<longrightarrow>
           stop_of m p \<le> start_of m q \<or> stop_of m q \<le> start_of m p"
      using ok by (simp add: mmio_ok_def)
    show "stop_of m' a \<le> start_of m' b \<or> stop_of m' b \<le> start_of m' a"
      using ab disj mm o dp unfolding hs by (metis insert_iff)
  qed (use bucket in auto)
qed

text \<open>
  C30: A range is registered only if it is disjoint from all registered ones; the registry keeps its
  order and then holds exactly one handle more.
\<close>

theorem mmio_register_adds:
  assumes "mmio_ok m" "range_ok gphys len"
    and "mmio_register_internal gp2hp fails gphys len handler unlocked m = Some (Some p, m')"
  shows "mmio_ok m' \<and> handlers m' = insert p (handlers m) \<and> p \<notin> handlers m
    \<and> h_gphys (deref m' p) = gphys \<and> h_len (deref m' p) = len \<and> h_handler (deref m' p) = handler
    \<and> (\<forall>q \<in> handlers m. deref m' q = deref m q)
    \<and> (\<forall>q. \<not> overlaps m q (unat gphys) (unat gphys + unat len))"
proof -
  define h where "h = \<lparr>h_gphys = gphys, h_len = len, h_handler = handler, h_unregistered = False,
                     h_unlocked_handler = unlocked\<rparr>"
  note sh = register_shape [OF assms(3,2), folded h_def]
  have new: "p \<notin> set (handle m)" using mmio_okD(2) [OF assms(1)] sh(1) by blast
  then have "handlers m' = insert p (handlers m)" by (auto simp: handlers_def sh(3) h_def)
  moreover have "\<not> overlaps m q (unat gphys) (unat gphys + unat len)" for q
    using sh(2) in_range_overlaps [OF assms(1) _ assms(2)] by (auto simp: overlaps_def handlers_def)
  ultimately show ?thesis
    using register_ok [OF assms] new handlers_handle [of _ m] by (auto simp: sh(3) h_def)
qed

section \<open>Removal\<close>

lemma remove_shape:
  assumes "range_ok (h_gphys (deref m p)) (h_len (deref m p))"
  shows "remove_handle p m = m\<lparr>handle := remove1 p (handle m),
    mmio := (\<lambda>i. if i \<in> touched (deref m p) then remove1 p (mmio m i) else mmio m i)\<rparr>"
proof -
  define n where "n = m\<lparr>handle := remove1 p (handle m)\<rparr>"
  let ?h = "deref m p"
  have "remove_handle p m = fold (\<lambda>i. del i p) [nbucket (h_start ?h) ..< Suc (nbucket (h_stop ?h - 1))] n"
    using scan_fold [OF assms] by (simp add: remove_handle_def n_def)
  also have "\<dots> = n\<lparr>mmio := (\<lambda>i. if i \<in> set [nbucket (h_start ?h) ..< Suc (nbucket (h_stop ?h - 1))]
      then remove1 p (mmio n i) else mmio n i)\<rparr>"
    by (rule fold_buckets [where e = "\<lambda>d. remove1 p"]) (simp_all add: del_def)
  also have "set [nbucket (h_start ?h) ..< Suc (nbucket (h_stop ?h - 1))] = touched ?h"
    unfolding touched_ok [OF assms] set_upt by auto
  finally show ?thesis unfolding n_def by (simp cong: if_cong)
qed

lemma remove_ok:
  assumes ok: "mmio_ok m" and p: "p \<in> set (handle m)"
  shows "mmio_ok (remove_handle p m)" "handlers (remove_handle p m) = handlers m - {p}"
    and "set (handle (remove_handle p m)) = set (handle m) - {p}"
    and "deref (remove_handle p m) = deref m"
proof -
  note rs = remove_shape [OF mmio_okD(1) [OF ok p]]
  have d: "distinct (handle m)" using ok by (simp add: mmio_ok_def)
  show st: "set (handle (remove_handle p m)) = set (handle m) - {p}"
    using d by (simp add: rs set_remove1_eq)
  show de: "deref (remove_handle p m) = deref m" by (simp add: rs)
  show hs: "handlers (remove_handle p m) = handlers m - {p}" using st by (auto simp: handlers_def de)
  have "sorted (map (start_of m) (mmio (remove_handle p m) i)) \<and> distinct (mmio (remove_handle p m) i)
      \<and> set (mmio (remove_handle p m) i) = {q \<in> set (handle m) - {p}. i \<in> touched (deref m q)}" for i
  proof -
    have b: "sorted (map (start_of m) (mmio m i))" "distinct (mmio m i)"
      "set (mmio m i) = {q \<in> set (handle m). i \<in> touched (deref m q)}"
      using ok by (auto simp: mmio_ok_def)
    then show ?thesis using p by (auto simp: rs sorted_map_remove1 set_remove1_eq)
  qed
  moreover have "\<forall>p \<in> handlers m. \<forall>q \<in> handlers m. p \<noteq> q \<longrightarrow>
           stop_of m p \<le> start_of m q \<or> stop_of m q \<le> start_of m p"
    using ok by (simp add: mmio_ok_def)
  moreover have "distinct (handle (remove_handle p m))" using d by (simp add: rs)
  moreover have "next_ptr (remove_handle p m) = next_ptr m" by (simp add: rs)
  ultimately show "mmio_ok (remove_handle p m)"
    using mmio_okD(1,2) [OF ok] unfolding mmio_ok_def de hs st by auto
qed

lemma mark_ok:
  fixes p :: nat and b :: bool
  assumes "mmio_ok m"
  defines "m' \<equiv> m\<lparr>deref := (deref m)(p := (deref m p)\<lparr>h_unregistered := True\<rparr>), unregister_flag := b\<rparr>"
  shows "mmio_ok m'" "handlers m' = handlers m - {p}" "set (handle m') = set (handle m)"
proof -
  have s: "h_start (deref m' q) = start_of m q" "h_stop (deref m' q) = stop_of m q"
    "touched (deref m' q) = touched (deref m q)" "h_gphys (deref m' q) = h_gphys (deref m q)"
    "h_len (deref m' q) = h_len (deref m q)" for q
    by (auto simp: m'_def h_start_def h_stop_def touched_def)
  have o: "mmio m' = mmio m" "handle m' = handle m" "next_ptr m' = next_ptr m" by (simp_all add: m'_def)
  show hs: "handlers m' = handlers m - {p}" by (auto simp: m'_def handlers_def)
  show "set (handle m') = set (handle m)" by (simp add: o)
  show "mmio_ok m'"
    using assms(1) unfolding mmio_ok_def hs o s by blast
qed

lemma mmio_ok_cong:
  assumes "mmio_ok m" "mmio m' = mmio m" "handle m' = handle m" "deref m' = deref m" "next_ptr m' = next_ptr m"
  shows "mmio_ok m'" "handlers m' = handlers m"
proof -
  show "handlers m' = handlers m" by (simp add: handlers_def assms)
  then show "mmio_ok m'" using assms(1) by (simp add: mmio_ok_def assms)
qed

lemma fold_remove_unregistered:
  assumes "distinct xs"
  shows "mmio_ok m \<Longrightarrow> set xs \<subseteq> set (handle m)
    \<Longrightarrow> mmio_ok (fold (\<lambda>p m. if h_unregistered (deref m p) then remove_handle p m else m) xs m)
      \<and> handlers (fold (\<lambda>p m. if h_unregistered (deref m p) then remove_handle p m else m) xs m) = handlers m
      \<and> set (handle (fold (\<lambda>p m. if h_unregistered (deref m p) then remove_handle p m else m) xs m))
        = set (handle m) - {p \<in> set xs. h_unregistered (deref m p)}"
  using assms
proof (induction xs arbitrary: m)
  case (Cons p xs)
  show ?case
  proof (cases "h_unregistered (deref m p)")
    case True
    have p: "p \<in> set (handle m)" using Cons.prems(2) by simp
    note rm = remove_ok [OF Cons.prems(1) p]
    have "handlers m - {p} = handlers m" using True by (auto simp: handlers_def)
    then show ?thesis
      using Cons.IH [OF rm(1)] Cons.prems(2,3) rm(2-4) True by auto
  next
    case False
    then show ?thesis using Cons by auto
  qed
qed simp

text \<open>
  C31: A removal makes exactly one handle inactive at once, whether the registry is in use or not;
  releasing the last lock changes nothing the guest can reach and drops the handles removed
  meanwhile.
\<close>

theorem mmio_unregister_removes:
  assumes "mmio_ok m" "p \<in> set (handle m)"
  shows "mmio_ok (mmio_unregister busy p m) \<and> handlers (mmio_unregister busy p m) = handlers m - {p}
    \<and> mmio_ok (mmio_unlock busy' (mmio_unregister busy p m))
    \<and> handlers (mmio_unlock busy' (mmio_unregister busy p m)) = handlers m - {p}
    \<and> (busy \<longrightarrow> \<not> busy' \<longrightarrow> p \<notin> set (handle (mmio_unlock busy' (mmio_unregister busy p m))))"
proof -
  define n where "n = mmio_unregister busy p m"
  have n: "mmio_ok n" "handlers n = handlers m - {p}"
    using mark_ok [OF assms(1), where p = p and b = True] remove_ok [OF assms] by (auto simp: n_def mmio_unregister_def)
  have d: "distinct (handle n)" using n(1) by (simp add: mmio_ok_def)
  define n1 where "n1 = n\<lparr>lock_count := lock_count n - 1\<rparr>"
  define n2 where "n2 = n\<lparr>lock_count := lock_count n - 1, unregister_flag := False\<rparr>"
  have n1: "mmio_ok n1" "handlers n1 = handlers n" by (rule mmio_ok_cong [OF n(1)], simp_all add: n1_def)+
  have n2: "mmio_ok n2" "handlers n2 = handlers n" by (rule mmio_ok_cong [OF n(1)], simp_all add: n2_def)+
  note fr = fold_remove_unregistered [OF d n2(1)]
  have u: "mmio_unlock busy' n = (if unregister_flag n \<and> \<not> busy'
      then fold (\<lambda>p m. if h_unregistered (deref m p) then remove_handle p m else m) (handle n) n2 else n1)"
    by (simp add: mmio_unlock_def n1_def n2_def Let_def)
  have hn: "handle n2 = handle n" "deref n2 = deref n" by (simp_all add: n2_def)
  have "mmio_ok (mmio_unlock busy' n) \<and> handlers (mmio_unlock busy' n) = handlers n"
    using fr n1 n2(2) unfolding u hn by simp
  moreover have "p \<notin> set (handle (mmio_unlock busy' n))" if "busy" "\<not> busy'"
  proof -
    have "unregister_flag n" "h_unregistered (deref n p)" "p \<in> set (handle n)"
      using that assms(2) by (simp_all add: n_def mmio_unregister_def)
    then show ?thesis using fr that unfolding u hn by simp
  qed
  ultimately show ?thesis using n unfolding n_def by simp
qed

section \<open>An example\<close>

definition empty_registry :: mmio_data where
  "empty_registry = \<lparr>mmio = (\<lambda>i. []), handle = [], unregister_flag = False, lock_count = 0,
     deref = (\<lambda>p. \<lparr>h_gphys = 0, h_len = 0, h_handler = 0, h_unregistered = False,
       h_unlocked_handler = False\<rparr>), next_ptr = 1\<rparr>"

lemma empty_registry_ok: "mmio_ok empty_registry" "handlers empty_registry = {}"
  by (simp_all add: mmio_ok_def empty_registry_def handlers_def)

text \<open>The registry after a device has registered the page at \<open>0xFEC00000\<close>.\<close>

definition sample_registry :: mmio_data where
  "sample_registry = snd (the (mmio_register (\<lambda>g. g) (\<lambda>s e. False) 0xFEC00000 0x1000 7 empty_registry))"

lemma sample_flush:
  "flush_tlb_entry (\<lambda>g. g) (\<lambda>s e. False) 0xFEC00000 0xFEC00FFF = Some (False, [(0xFEC00000, 0xFEC00FFF)])"
  by (simp add: flush_tlb_entry_def flush_tlb_loop.simps)

lemma sample_register:
  "mmio_register_internal (\<lambda>g. g) (\<lambda>s e. False) 0xFEC00000 0x1000 7 False empty_registry
     = Some (Some 1, sample_registry)"
proof -
  have "\<exists>n. mmio_register_internal (\<lambda>g. g) (\<lambda>s e. False) 0xFEC00000 0x1000 7 False empty_registry = Some (Some 1, n)"
    unfolding mmio_register_internal_def using sample_flush by (simp add: empty_registry_def Let_def)
  then show ?thesis by (auto simp: sample_registry_def mmio_register_def)
qed

lemma sample_range: "range_ok 0xFEC00000 0x1000"
  by (simp add: range_ok_def)

lemma mmio_register_adds_witness:
  "mmio_ok sample_registry \<and> handlers sample_registry = {1} \<and> h_gphys (deref sample_registry 1) = 0xFEC00000
    \<and> h_len (deref sample_registry 1) = 0x1000"
  using mmio_register_adds [OF empty_registry_ok(1) sample_range sample_register] empty_registry_ok(2) by simp

lemma sample_registry_ok: "mmio_ok sample_registry"
  by (rule register_ok [OF empty_registry_ok(1) sample_range sample_register])

lemma sample_handle:
  "handle sample_registry = [1]"
  "deref sample_registry 1 = \<lparr>h_gphys = 0xFEC00000, h_len = 0x1000, h_handler = 7,
      h_unregistered = False, h_unlocked_handler = False\<rparr>"
  unfolding register_shape(3) [OF sample_register sample_range]
  by (simp_all add: register_shape(1) [OF sample_register sample_range] empty_registry_def)

lemma sample_overlaps:
  "overlaps sample_registry p a b \<longleftrightarrow> p = 1 \<and> a < b \<and> a < 0xFEC01000 \<and> 0xFEC00000 < b"
  by (auto simp: overlaps_def handlers_def sample_handle h_start_def h_stop_def simp del: One_nat_def)

lemma mmio_unregister_removes_witness:
  "handlers (mmio_unlock False (mmio_unregister True 1 sample_registry)) = {}"
  using mmio_unregister_removes [OF sample_registry_ok, where p = 1 and busy = True and busy' = False]
  by (auto simp: sample_handle handlers_def simp del: One_nat_def)

lemma mmio_access_page_finds_witness:
  "mmio_access_page sample_registry 0xFEC00ABC True = Interpret"
  using mmio_access_page_finds [OF sample_registry_ok, where gphys = "0xFEC00ABC" and emulation = True] by (auto simp: sample_overlaps)

lemma mmio_range_first_witness: "mmio_range sample_registry 0xFEBFF000 0x2000 = 0xFEC01000"
  using mmio_range_first [OF sample_registry_ok, where gphys = "0xFEBFF000" and len = "0x2000"]
  by (auto simp: sample_overlaps first_overlap_def sample_handle simp del: One_nat_def)

lemma mmio_access_memory_splits_witness:
  "\<exists>log. mmio_access_memory (\<lambda>p g l. True) sample_registry 0xFEBFFFFC 8 = Some (True, log)
    \<and> (\<forall>k < 8. byte_served (\<lambda>p g l. True) sample_registry 0xFEBFFFFC k (at_byte k log))"
  using mmio_access_memory_splits [OF sample_registry_ok, where gphys = "0xFEBFFFFC" and len = 8 and accepts = "\<lambda>p g l. True"]
  by (auto simp: sample_overlaps)

end
