(* ===== verification/Cache_Types.thy ===== *)
theory Cache_Types
  imports Cache
begin

text \<open>
  The memory types of \<open>core/cache.c\<close>: the check for large mappings against the type of every address,
  the types the guest's writes can select, and the type the attributes of an access give it.
\<close>

section \<open>Equal types on an aligned range\<close>

text \<open>
  The masks of the valid variable ranges have no holes: all bits from some bit up to the last of the
  processor's \<open>w\<close> address bits.
\<close>

definition mtrr_contiguous :: "nat \<Rightarrow> cache_regs \<Rightarrow> bool" where
  "mtrr_contiguous w c \<longleftrightarrow> (\<forall>i < gmtrr_vcnt. mtrr_physmask c i AND PHYSMASK0_V_BIT \<noteq> 0 \<longrightarrow>
     (\<exists>n. mtrr_physmask c i AND PHYSMASK_MASK = (PHYSMASK_MASK AND mask w) AND NOT (mask n)))"

definition in_block :: "nat \<Rightarrow> u64 \<Rightarrow> u64 \<Rightarrow> bool" where
  "in_block k phys x \<longleftrightarrow> phys AND mask k = 0 \<and> x AND NOT (mask k) = phys"

lemma and_mask_zero_bit: "a AND mask k = 0 \<Longrightarrow> j < k \<Longrightarrow> \<not> bit a j" for a :: "'a::len word"
proof
  assume "a AND mask k = 0" "j < k" "bit a j"
  then have "bit (a AND mask k) j"
    using bit_imp_le_length [of a j] unfolding bit_and_iff bit_mask_iff by simp
  with \<open>a AND mask k = 0\<close> show False by simp
qed

lemma nonzero_bit: "a \<noteq> 0 \<Longrightarrow> \<exists>j. bit a j" for a :: "'a::len word"
  by (auto simp: bit_eq_iff [of a 0])

lemma in_block_bit:
  assumes "in_block k phys x" and "k \<le> j"
  shows "bit x j = bit phys j"
proof (cases "j < 64")
  case True
  have "bit (x AND NOT (mask k)) j = bit x j" using assms(2) True by (simp add: bit_simps)
  with assms(1) show ?thesis by (simp add: in_block_def)
next
  case False
  then show ?thesis using bit_imp_le_length [of x j] bit_imp_le_length [of phys j] by auto
qed

lemma in_block_bit_low: "in_block k phys x \<Longrightarrow> j < k \<Longrightarrow> \<not> bit phys j"
  using and_mask_zero_bit by (auto simp: in_block_def)

lemma block_mask_same:
  assumes "in_block k phys x" and "m AND mask k = 0"
  shows "m AND x = m AND phys"
proof (rule bit_word_eqI)
  fix j assume "j < LENGTH(64)"
  show "bit (m AND x) j = bit (m AND phys) j"
    using in_block_bit [OF assms(1), of j] and_mask_zero_bit [OF assms(2), of j]
    by (cases "k \<le> j") (auto simp: bit_and_iff)
qed

lemma bit_physmask: "bit (PHYSMASK_MASK) j \<longleftrightarrow> 12 \<le> j \<and> j < 52"
proof -
  have eq: "PHYSMASK_MASK = push_bit 12 (mask 40)" by code_simp
  show ?thesis unfolding eq by (auto simp: bit_push_bit_iff bit_mask_iff)
qed

lemma not_in_range:
  assumes b: "in_block k phys x" and k: "12 \<le> k" and p: "unat phys < 2 ^ w"
    and w: "w \<le> 52" and m: "m = (PHYSMASK_MASK AND mask w) AND NOT (mask n)" and o: "m AND mask k \<noteq> 0"
    and ne: "(m AND base) AND NOT (mask k) \<noteq> phys AND NOT (mask k)"
  shows "m AND base \<noteq> m AND x"
proof
  assume eq: "m AND base = m AND x"
  obtain j where j: "bit (m AND mask k) j" using o nonzero_bit by blast
  then have nk: "n < k" by (auto simp: m bit_and_iff bit_not_iff bit_mask_iff)
  have hi: "\<not> bit phys i" if "w \<le> i" for i
  proof -
    have "drop_bit w phys = 0"
      using p by (intro unat_eqI) (simp add: unat_drop_bit)
    then have "\<not> bit (drop_bit w phys) (i - w)" by simp
    then show ?thesis using that by (simp add: bit_drop_bit_eq)
  qed
  have "(m AND x) AND NOT (mask k) = phys AND NOT (mask k)"
  proof (rule bit_word_eqI)
    fix i :: nat assume i: "i < LENGTH(64)"
    show "bit ((m AND x) AND NOT (mask k)) i = bit (phys AND NOT (mask k)) i"
    proof (cases "k \<le> i")
      case True
      then have "bit x i = bit phys i" by (rule in_block_bit [OF b])
      moreover have "bit m i \<longleftrightarrow> i < w" using True k nk i w bit_physmask [of i]
        by (auto simp: m bit_and_iff bit_not_iff bit_mask_iff)
      ultimately show ?thesis using hi [of i] by (auto simp: bit_simps)
    next
      case False
      then show ?thesis using i by (auto simp: bit_simps)
    qed
  qed
  with eq ne show False by simp
qed

lemma equal_scan_sound:
  assumes b: "in_block k phys x" and k: "12 \<le> k" and w: "w \<le> 52" and p: "unat phys < 2 ^ w" and c: "mtrr_contiguous w c"
    and idx: "\<forall>i \<in> set idx. i < gmtrr_vcnt"
  shows "mtrr_equal_scan c phys (mask k) idx t \<noteq> Inl False \<Longrightarrow>
     mtrr_scan c x idx t = mtrr_scan c phys idx t
     \<and> (mtrr_scan c phys idx t = Inl CACHE_TYPE_UC
          \<or> (\<exists>u. mtrr_equal_scan c phys (mask k) idx t = Inr u \<and> mtrr_scan c phys idx t = Inr u))"
  using idx
proof (induction idx arbitrary: t)
  case Nil
  then show ?case by simp
next
  case (Cons i idx)
  define m where "m = mtrr_physmask c i AND PHYSMASK_MASK"
  show ?case
  proof (cases "mtrr_physmask c i AND PHYSMASK0_V_BIT = 0")
    case True
    with Cons.prems Cons.IH [of t] show ?thesis by (simp add: Let_def split: sum.splits)
  next
    case v: False
    show ?thesis
    proof (cases "m AND mask k = 0")
      case True
      then have "m AND x = m AND phys" by (rule block_mask_same [OF b])
      with Cons v True show ?thesis
        by (auto simp: Let_def m_def [symmetric] split: if_splits)
    next
      case False
      obtain n where n: "m = (PHYSMASK_MASK AND mask w) AND NOT (mask n)"
        using c v Cons.prems(2) unfolding mtrr_contiguous_def m_def by auto
      have 1: "m AND mtrr_physbase c i \<noteq> m AND phys"
        and 2: "(m AND mtrr_physbase c i) AND NOT (mask k) \<noteq> phys AND NOT (mask k)"
        using Cons.prems(1) v False by (auto simp: Let_def m_def [symmetric] split: if_splits)
      have 3: "m AND mtrr_physbase c i \<noteq> m AND x"
        by (rule not_in_range [OF b k p w n False 2])
      show ?thesis
        using Cons.prems Cons.IH v False 1 2 3
        by (simp add: Let_def m_def [symmetric])
    qed
  qed
qed

lemma in_block_range:
  assumes "in_block k phys x"
  shows "phys \<le> x" and "x \<le> phys OR mask k"
proof -
  have "unat phys = unat x div 2 ^ k * 2 ^ k"
    using assms unat_and_not_mask [of x k] by (auto simp: in_block_def)
  then show "phys \<le> x" by (simp add: word_le_nat_alt)
  have "phys OR mask k = x OR mask k"
  proof (rule bit_word_eqI)
    fix j assume "j < LENGTH(64)"
    then show "bit (phys OR mask k) j = bit (x OR mask k) j"
      using in_block_bit [OF assms, of j] by (auto simp: bit_or_iff bit_mask_iff)
  qed
  then show "x \<le> phys OR mask k" using le_word_or2 [of x "mask k"] by simp
qed

lemma in_block_4g:
  assumes "in_block 21 phys x"
  shows "phys \<ge> 0x100000000 \<longleftrightarrow> x \<ge> 0x100000000"
proof -
  have "unat phys = unat x div 2 ^ 21 * 2 ^ 21"
    using assms unat_and_not_mask [of x 21] by (auto simp: in_block_def)
  moreover have "2048 \<le> unat x div 2 ^ 21 \<longleftrightarrow> 2048 * 2 ^ 21 \<le> unat x"
    by (rule less_eq_div_iff_mult_less_eq) simp
  ultimately show ?thesis unfolding word_le_nat_alt by simp
qed

text \<open>
  C27: When the check of the 2MB mappings says that the type is the same on an aligned range below the
  processor's limit of \<open>w\<close> address bits (at most 52), the MTRRs give every address of the range the
  type of its first one, provided the masks of the variable ranges have no holes: all bits from some
  bit up to \<open>w - 1\<close>.  \<open>mtrr_type_equal_gap\<close> shows that masks with holes have to be excluded.
\<close>

theorem mtrr_type_equal_sound:
  assumes "mtrr_contiguous w c" and "w \<le> 52" and "unat phys < 2 ^ w" and "phys AND PAGESIZE2M_MASK = 0"
    and "x AND NOT PAGESIZE2M_MASK = phys"
    and "mtrr_type_equal phys c False PAGESIZE2M_MASK"
  shows "get_mtrr_type x c pass = get_mtrr_type phys c pass"
proof -
  let ?is = "[0..<gmtrr_vcnt]"
  have b: "in_block 21 phys x" using assms(4,5) by (simp add: in_block_def page_masks)
  have eq: "mtrr_type_equal phys c False (mask 21)" using assms(6) by (simp only: page_masks)
  then have ns: "mtrr_equal_scan c phys (mask 21) ?is CACHE_TYPE_UC_MINUS \<noteq> Inl False"
    by (auto simp: mtrr_type_equal_def split: if_splits)
  have s: "mtrr_scan c x ?is CACHE_TYPE_UC_MINUS = mtrr_scan c phys ?is CACHE_TYPE_UC_MINUS"
    "mtrr_scan c phys ?is CACHE_TYPE_UC_MINUS = Inl CACHE_TYPE_UC
     \<or> (\<exists>u. mtrr_equal_scan c phys (mask 21) ?is CACHE_TYPE_UC_MINUS = Inr u
          \<and> mtrr_scan c phys ?is CACHE_TYPE_UC_MINUS = Inr u)"
    using equal_scan_sound [OF b _ assms(2,3,1) _ ns] by auto
  have le: "phys \<le> x" "x \<le> phys OR mask 21" using in_block_range [OF b] by auto
  show ?thesis
  proof (cases "mtrr_def_type c AND DEF_TYPE_E_BIT = 0
      \<or> (\<exists>t. mtrr_scan c phys ?is CACHE_TYPE_UC_MINUS = Inl t)")
    case True
    with eq s(1) le(1) show ?thesis
      by (auto simp: mtrr_type_equal_def get_mtrr_type_def split: if_splits)
  next
    case False
    then obtain u where u: "mtrr_scan c phys ?is CACHE_TYPE_UC_MINUS = Inr u"
      "mtrr_equal_scan c phys (mask 21) ?is CACHE_TYPE_UC_MINUS = Inr u"
      using s(2) by auto
    have nf: "\<not> (mtrr_def_type c AND DEF_TYPE_FE_BIT \<noteq> 0 \<and> phys \<le> 0xFFFFF)"
      "\<not> (mtrr_def_type c AND DEF_TYPE_FE_BIT \<noteq> 0 \<and> x \<le> 0xFFFFF)"
      using eq le(1) False by (auto simp: mtrr_type_equal_def split: if_splits)
    define tom where "tom = top_mem2 c AND TOP_MEM2_ADDR_MASK"
    have "(phys \<ge> 0x100000000 \<and> syscfg c AND SYSCFG_TOM2FORCEMEMTYPEWB_BIT \<noteq> 0 \<and> phys < tom)
        = (x \<ge> 0x100000000 \<and> syscfg c AND SYSCFG_TOM2FORCEMEMTYPEWB_BIT \<noteq> 0 \<and> x < tom)"
      if "u = CACHE_TYPE_UC_MINUS"
      using eq False u that le in_block_4g [OF b]
      by (auto simp: mtrr_type_equal_def tom_def [symmetric] split: if_splits)
    then show ?thesis
      using u(1) s(1)
      unfolding get_mtrr_type_def if_not_P [OF nf(1)] if_not_P [OF nf(2)] tom_def [symmetric]
      by (cases "u = CACHE_TYPE_UC_MINUS") auto
  qed
qed

text \<open>
  Write-back memory below 2GB but for an uncacheable 1MB hole, as a machine with addresses of 36 bits
  may have it.
\<close>

definition sample_regs :: cache_regs where
  "sample_regs = \<lparr>pat_data = pat_default, mtrr_def_type = 0x800,
     mtrr_physbase = (\<lambda>i. if i = 0 then 6 else if i = 1 then 0x40000000 else 0),
     mtrr_physmask = (\<lambda>i. if i = 0 then 0xF80000800 else if i = 1 then 0xFFFF00800 else 0),
     mtrr_fix = (\<lambda>_. 0), syscfg = 0, top_mem2 = 0\<rparr>"

lemma mtrr_type_equal_sound_witness:
  "mtrr_type_equal 0x200000 sample_regs False PAGESIZE2M_MASK
   \<and> get_mtrr_type 0x234567 sample_regs False = get_mtrr_type 0x200000 sample_regs False"
proof -
  have c: "mtrr_contiguous 36 sample_regs"
    unfolding mtrr_contiguous_def
  proof (intro allI impI)
    fix i
    assume "i < gmtrr_vcnt" "mtrr_physmask sample_regs i AND PHYSMASK0_V_BIT \<noteq> 0"
    then have "i = 0 \<or> i = 1" by (auto simp: sample_regs_def split: if_splits)
    then show "\<exists>n. mtrr_physmask sample_regs i AND PHYSMASK_MASK = (PHYSMASK_MASK AND mask 36) AND NOT (mask n)"
    proof
      assume "i = 0"
      then show ?thesis by (intro exI [of _ 31]) (simp add: sample_regs_def mask_eq_exp_minus_1)
    next
      assume "i = 1"
      then show ?thesis by (intro exI [of _ 20]) (simp add: sample_regs_def mask_eq_exp_minus_1)
    qed
  qed
  have e: "mtrr_type_equal 0x200000 sample_regs False PAGESIZE2M_MASK"
    by (simp add: mtrr_type_equal_def sample_regs_def gmtrr_vcnt_def upt_rec Let_def)
  with mtrr_type_equal_sound [OF c _ _ _ _ e, of "0x234567"] show ?thesis by simp
qed

text \<open>
  With a mask that has holes the check is wrong: for a variable range with mask bits 20 and
  32 but not 31 it declares the type equal on the 2MB range at 2GB, where the second megabyte is
  uncacheable and the first is not.
\<close>

theorem mtrr_type_equal_gap:
  assumes "mtrr_def_type c = 0x806" and "mtrr_physmask c 0 = 0xFFFFF7FF00800"
    and "mtrr_physbase c 0 = 0x100000" and "\<forall>i. 0 < i \<longrightarrow> mtrr_physmask c i = 0"
    and "syscfg c = 0"
  shows "mtrr_type_equal 0x80000000 c False PAGESIZE2M_MASK
     \<and> get_mtrr_type 0x80000000 c False = CACHE_TYPE_WB
     \<and> get_mtrr_type 0x80100000 c False = CACHE_TYPE_UC"
  using assms
  by (simp add: mtrr_type_equal_def get_mtrr_type_def gmtrr_vcnt_def upt_rec Let_def)

lemma mtrr_type_equal_gap_witness:
  "mtrr_type_equal 0x80000000 (sample_regs\<lparr>mtrr_def_type := 0x806, mtrr_physmask := (\<lambda>_. 0)(0 := 0xFFFFF7FF00800),
     mtrr_physbase := (\<lambda>_. 0x100000)\<rparr>) False PAGESIZE2M_MASK"
  by (rule conjunct1, rule mtrr_type_equal_gap) (simp_all add: sample_regs_def)

section \<open>The guest's types are supported\<close>

definition supported :: "bool \<Rightarrow> u8 set" where
  "supported wc = {CACHE_TYPE_UC, CACHE_TYPE_WT, CACHE_TYPE_WP, CACHE_TYPE_WB, CACHE_TYPE_UC_MINUS}
     \<union> (if wc then {CACHE_TYPE_WC} else {})"

abbreviation has_wc :: "cache_state \<Rightarrow> bool" where
  "has_wc s \<equiv> mtrrcap (pcpu s) AND MTRRCAP_WC_BIT \<noteq> 0"

text \<open>The processor's part of the state is as \<open>make_pat_value\<close> leaves it.\<close>

definition host_ready :: "cache_state \<Rightarrow> bool" where
  "host_ready s \<longleftrightarrow> has_pat (pcpu s) \<and> (\<exists>s0. has_pat (pcpu s0) \<and> mtrrcap (pcpu s0) = mtrrcap (pcpu s)
     \<and> pat_data (h (pcpu s)) = pat_data (h (pcpu (make_pat_value s0)))
     \<and> pat_index_from_type (pcpu s) = pat_index_from_type (pcpu (make_pat_value s0)))"

abbreviation mtrr_ok :: "cache_state \<Rightarrow> u8 \<Rightarrow> bool" where
  "mtrr_ok s t \<equiv> is_type_ok s t \<and> t \<noteq> CACHE_TYPE_UC_MINUS"

definition guest_types_ok :: "cache_state \<Rightarrow> bool" where
  "guest_types_ok s \<longleftrightarrow> (\<forall>i < 8. is_type_ok s (pat_data (g (vm s)) i))
     \<and> mtrr_ok s (ucast (mtrr_def_type (g (vm s)) AND 0xFF))
     \<and> (\<forall>i < gmtrr_vcnt. mtrr_ok s (ucast (mtrr_physbase (g (vm s)) i AND 0xFF)))
     \<and> (pass_mtrrfix (vm s) \<or> (\<forall>i < 88. mtrr_ok s (mtrr_fix_byte (g (vm s)) i)))"

definition cache_ok :: "cache_state \<Rightarrow> bool" where
  "cache_ok s \<longleftrightarrow> host_ready s \<and> guest_types_ok s"

lemma made_pat:
  assumes "has_pat (pcpu s0)"
  shows "map (pat_data (h (pcpu (make_pat_value s0)))) [0..<8]
     = [CACHE_TYPE_WB, CACHE_TYPE_WT, CACHE_TYPE_UC_MINUS, CACHE_TYPE_UC, CACHE_TYPE_WB, CACHE_TYPE_WP,
        if has_wc s0 then CACHE_TYPE_WC else CACHE_TYPE_UC, CACHE_TYPE_UC]"
  using assms by (simp add: make_pat_value_def upt_rec pat_default_def Let_def)

lemma is_type_ok_iff: "is_type_ok s t \<longleftrightarrow> t \<in> set (map (pat_data (h (pcpu s))) [0..<8])"
  by (auto simp: is_type_ok_def list_ex_iff)

lemma host_supported:
  assumes "host_ready s"
  shows "is_type_ok s t \<longleftrightarrow> t \<in> supported (has_wc s)"
proof -
  obtain s0 where "has_pat (pcpu s0)" "mtrrcap (pcpu s0) = mtrrcap (pcpu s)"
    "pat_data (h (pcpu s)) = pat_data (h (pcpu (make_pat_value s0)))"
    using assms by (auto simp: host_ready_def)
  with made_pat [of s0] show ?thesis by (auto simp: is_type_ok_iff supported_def)
qed

text \<open>The index of a supported type leads to it.\<close>

lemma made_index:
  assumes "has_pat (pcpu s0)"
  shows "map (pat_index_from_type (pcpu (make_pat_value s0))) [0, 4, 5, 6, 7] = [3, 1, 5, 0, 2]"
    and "has_wc s0 \<Longrightarrow> pat_index_from_type (pcpu (make_pat_value s0)) 1 = 6"
  using assms by (simp_all add: make_pat_value_def upt_rec pat_default_def Let_def)

lemma attr_index: "pat_index_from_type (pcpu s) t = i \<Longrightarrow> i \<in> {0, 1, 2, 3, 5, 6} \<Longrightarrow>
    pat_index (attr_from_type t s) = unat i"
  by (auto simp: attr_from_type_def pat_index_def)

lemma attr_selects:
  assumes "host_ready s" and "t \<in> supported (has_wc s)"
  shows "pat_data (h (pcpu s)) (pat_index (attr_from_type t s)) = t"
proof -
  obtain s0 where s0: "has_pat (pcpu s0)" "mtrrcap (pcpu s0) = mtrrcap (pcpu s)"
    "pat_data (h (pcpu s)) = pat_data (h (pcpu (make_pat_value s0)))"
    "pat_index_from_type (pcpu s) = pat_index_from_type (pcpu (make_pat_value s0))"
    using assms(1) by (auto simp: host_ready_def)
  have d: "map (pat_data (h (pcpu s))) [0..<8]
     = [CACHE_TYPE_WB, CACHE_TYPE_WT, CACHE_TYPE_UC_MINUS, CACHE_TYPE_UC, CACHE_TYPE_WB, CACHE_TYPE_WP,
        if has_wc s then CACHE_TYPE_WC else CACHE_TYPE_UC, CACHE_TYPE_UC]"
    using made_pat [OF s0(1)] s0(2,3) by simp
  have d: "pat_data (h (pcpu s)) 0 = 6 \<and> pat_data (h (pcpu s)) 1 = 4 \<and> pat_data (h (pcpu s)) 2 = 7
     \<and> pat_data (h (pcpu s)) 3 = 0 \<and> pat_data (h (pcpu s)) 5 = 5
     \<and> (has_wc s \<longrightarrow> pat_data (h (pcpu s)) 6 = 1)"
    using d by (simp add: upt_rec eval_nat_numeral)
  have i: "pat_index_from_type (pcpu s) 0 = 3" "pat_index_from_type (pcpu s) 4 = 1"
    "pat_index_from_type (pcpu s) 5 = 5" "pat_index_from_type (pcpu s) 6 = 0"
    "pat_index_from_type (pcpu s) 7 = 2" "has_wc s \<Longrightarrow> pat_index_from_type (pcpu s) 1 = 6"
    using made_index [OF s0(1)] s0(2,4) by simp_all
  have x: "pat_index (attr_from_type 0 s) = 3" "pat_index (attr_from_type 4 s) = 1"
    "pat_index (attr_from_type 5 s) = 5" "pat_index (attr_from_type 6 s) = 0"
    "pat_index (attr_from_type 7 s) = 2"
    "has_wc s \<Longrightarrow> pat_index (attr_from_type 1 s) = 6"
    using i(1-5) [THEN attr_index] i(6) [THEN attr_index] by simp_all
  from assms(2) x d show ?thesis by (auto simp: supported_def split: if_splits)
qed

lemma scan_types:
  assumes "\<forall>i \<in> set idx. mtrr_ok s (ucast (mtrr_physbase c i AND 0xFF))"
    and "is_type_ok s CACHE_TYPE_UC"
  shows "t = CACHE_TYPE_UC_MINUS \<or> mtrr_ok s t \<Longrightarrow>
     (case mtrr_scan c x idx t of Inl u \<Rightarrow> mtrr_ok s u | Inr u \<Rightarrow> u = CACHE_TYPE_UC_MINUS \<or> mtrr_ok s u)"
  using assms(1)
proof (induction idx arbitrary: t)
  case Nil
  then show ?case by simp
next
  case (Cons i idx)
  define b where "b = (ucast (mtrr_physbase c i AND 0xFF) :: u8)"
  have b: "mtrr_ok s b" using Cons.prems(2) by (simp add: b_def)
  have "is_type_ok s CACHE_TYPE_WT" if "b = CACHE_TYPE_WT" using b that by simp
  then show ?case
    using Cons.IH [of t] Cons.IH [of CACHE_TYPE_WT] Cons.IH [of b] Cons.prems assms(2) b
    by (simp add: Let_def b_def [symmetric])
qed

lemma word_and_le: "a AND b \<le> b" for a b :: "'a::len word"
  by (simp add: word_and_le1)

lemma fix_index_lt: "mtrr_fix_index x < 88"
proof -
  have "unat (x AND 0x3F000) \<le> 0x3F000" "unat (x AND 0x3C000) \<le> 0x3C000" "unat (x AND 0x70000) \<le> 0x70000"
    using word_and_le [of x "0x3F000"] word_and_le [of x "0x3C000"] word_and_le [of x "0x70000"]
    by (simp_all add: word_le_nat_alt)
  then have "unat (drop_bit 12 (x AND 0x3F000)) \<le> 0x3F000 div 2 ^ 12"
    "unat (drop_bit 14 (x AND 0x3C000)) \<le> 0x3C000 div 2 ^ 14"
    "unat (drop_bit 16 (x AND 0x70000)) \<le> 0x70000 div 2 ^ 16"
    unfolding unat_drop_bit by (auto intro!: div_le_mono)
  then show ?thesis by (auto simp: mtrr_fix_index_def)
qed

lemma get_mtrr_type_ok:
  assumes "host_ready s" and "guest_types_ok s"
  shows "mtrr_ok s (get_mtrr_type x (g (vm s)) (pass_mtrrfix (vm s)))"
proof -
  have uc: "mtrr_ok s CACHE_TYPE_UC" "mtrr_ok s CACHE_TYPE_WB"
    using host_supported [OF assms(1)] by (auto simp: supported_def)
  have "case mtrr_scan (g (vm s)) x [0..<gmtrr_vcnt] CACHE_TYPE_UC_MINUS of
      Inl u \<Rightarrow> mtrr_ok s u | Inr u \<Rightarrow> u = CACHE_TYPE_UC_MINUS \<or> mtrr_ok s u"
    using assms(2) uc by (intro scan_types) (auto simp: guest_types_ok_def)
  then show ?thesis
    using assms(2) uc fix_index_lt [of x]
    by (auto simp: get_mtrr_type_def guest_types_ok_def split: sum.splits)
qed

lemma matrix_supported:
  assumes "gt \<in> supported wc" and "gt \<noteq> CACHE_TYPE_UC" "gt \<noteq> CACHE_TYPE_WC"
    and "mt \<in> supported wc" and "mt \<noteq> CACHE_TYPE_UC_MINUS"
    and "wc \<or> \<not> (gt = CACHE_TYPE_UC_MINUS \<and> mt = CACHE_TYPE_WP)"
  shows "pat_mtrr_matrix ! unat gt ! unat mt \<in> supported wc" and "gt < 8" and "mt < 8"
  using assms by (auto simp: supported_def pat_mtrr_matrix_def split: if_splits)

lemma pat_index_lt: "pat_index a < 8"
  by (simp add: pat_index_def)

definition host_same :: "cache_state \<Rightarrow> cache_state \<Rightarrow> bool" where
  "host_same s t \<longleftrightarrow> has_pat (pcpu t) = has_pat (pcpu s) \<and> mtrrcap (pcpu t) = mtrrcap (pcpu s)
     \<and> pat_data (h (pcpu t)) = pat_data (h (pcpu s))
     \<and> pat_index_from_type (pcpu t) = pat_index_from_type (pcpu s)"

lemma host_same_ready: "host_same s t \<Longrightarrow> host_ready s \<Longrightarrow> host_ready t"
  by (simp add: host_same_def host_ready_def)

lemma host_same_ok: "host_same s t \<Longrightarrow> is_type_ok t u \<longleftrightarrow> is_type_ok s u"
  by (simp add: host_same_def is_type_ok_def)

lemma set_gpat_types:
  assumes "cache_set_gpat v s = Some t" and "guest_types_ok s"
  shows "host_same s t \<and> guest_types_ok t"
proof -
  obtain d where d: "t = on_g (\<lambda>c. c\<lparr>pat_data := (\<lambda>i. if i < 8 then d i else pat_data c i)\<rparr>) s"
    "\<forall>i < 8. is_type_ok s (d i)"
    using assms(1) by (auto simp: cache_set_gpat_def set_gpat_def list_ex_iff split: if_splits)
  have hs: "host_same s t" by (simp add: d(1) host_same_def)
  then show ?thesis
    using assms(2) d(2) unfolding guest_types_ok_def host_same_ok [OF hs]
    by (simp add: d(1) mtrr_fix_byte_def)
qed

lemma set_amd_types:
  assumes "cache_set_gmsr_amd n v s = Some t" and "guest_types_ok s"
  shows "host_same s t \<and> guest_types_ok t"
proof -
  have hs: "host_same s t" and e: "pass_mtrrfix (vm t) = pass_mtrrfix (vm s)"
    "pat_data (g (vm t)) = pat_data (g (vm s))" "mtrr_def_type (g (vm t)) = mtrr_def_type (g (vm s))"
    "mtrr_physbase (g (vm t)) = mtrr_physbase (g (vm s))" "mtrr_fix (g (vm t)) = mtrr_fix (g (vm s))"
    using assms(1) by (auto simp: cache_set_gmsr_amd_def host_same_def Let_def split: if_splits)
  then show ?thesis
    using assms(2) unfolding guest_types_ok_def host_same_ok [OF hs] mtrr_fix_byte_def by simp
qed

lemma set_def_type_types:
  assumes "set_gmtrr_def_type v s = Some t" and "guest_types_ok s"
  shows "host_same s t \<and> guest_types_ok t"
proof -
  have t: "t = on_g (\<lambda>c. c\<lparr>mtrr_def_type := v\<rparr>) s" "mtrr_ok s (ucast (v AND 0xFF))"
    using assms(1) by (auto simp: set_gmtrr_def_type_def Let_def split: if_splits)
  have hs: "host_same s t" by (simp add: t(1) host_same_def)
  then show ?thesis
    using assms(2) t(2) unfolding guest_types_ok_def host_same_ok [OF hs]
    by (simp add: t(1) mtrr_fix_byte_def)
qed

lemma set_range_types:
  assumes "set_gmtrr_range n v s = Some t" and "guest_types_ok s"
  shows "host_same s t \<and> guest_types_ok t"
proof -
  have "(\<exists>i. t = on_g (\<lambda>c. c\<lparr>mtrr_physmask := (mtrr_physmask c)(i := v)\<rparr>) s)
      \<or> (\<exists>i. t = on_g (\<lambda>c. c\<lparr>mtrr_physbase := (mtrr_physbase c)(i := v)\<rparr>) s
            \<and> mtrr_ok s (ucast (v AND 0xFF)))"
    using assms(1) by (auto simp: set_gmtrr_range_def Let_def split: if_splits)
  then show ?thesis
  proof (elim disjE exE conjE)
    fix i assume t: "t = on_g (\<lambda>c. c\<lparr>mtrr_physmask := (mtrr_physmask c)(i := v)\<rparr>) s"
    have hs: "host_same s t" by (simp add: t host_same_def)
    then show ?thesis
      using assms(2) unfolding guest_types_ok_def host_same_ok [OF hs] by (simp add: t mtrr_fix_byte_def)
  next
    fix i assume t: "t = on_g (\<lambda>c. c\<lparr>mtrr_physbase := (mtrr_physbase c)(i := v)\<rparr>) s"
      and v: "is_type_ok s (ucast (v AND 0xFF))" "(ucast (v AND 0xFF) :: u8) \<noteq> CACHE_TYPE_UC_MINUS"
    have hs: "host_same s t" by (simp add: t host_same_def)
    then show ?thesis
      using assms(2) v unfolding guest_types_ok_def host_same_ok [OF hs]
      by (simp add: t mtrr_fix_byte_def)
  qed
qed

lemma set_fix_types:
  assumes "set_gmtrr_fix n v s = Some t" and "guest_types_ok s"
  shows "host_same s t \<and> guest_types_ok t"
proof (cases "pass_mtrrfix (vm s)")
  case True
  then have t: "\<exists>m. t = s\<lparr>hw_msr := m\<rparr>"
    using assms(1) by (auto simp: set_gmtrr_fix_def cache_wrmsr_def split: if_splits)
  then have hs: "host_same s t" by (auto simp: host_same_def)
  then show ?thesis
    using assms(2) t unfolding guest_types_ok_def host_same_ok [OF hs] by auto
next
  case False
  then obtain i where t: "t = on_g (\<lambda>c. c\<lparr>mtrr_fix := (mtrr_fix c)(i := v)\<rparr>) s"
    and v: "\<forall>j < 8. mtrr_ok s (ucast (drop_bit (j * 8) v))"
    using assms(1) by (auto simp: set_gmtrr_fix_def list_ex_iff Let_def split: if_splits option.splits)
  have hs: "host_same s t" by (simp add: t host_same_def)
  have "mtrr_ok s (mtrr_fix_byte (g (vm t)) j)" if "j < 88" for j
    using assms(2) False v [rule_format, of "j mod 8"] that
    by (auto simp: t mtrr_fix_byte_def guest_types_ok_def mult.commute)
  then show ?thesis
    using hs assms(2) False unfolding guest_types_ok_def host_same_ok [OF hs] by (simp add: t)
qed

text \<open>
  C25: Every write the guest makes to its PAT, its MTRRs and the AMD memory type MSRs that is not
  answered with an exception keeps all types it can select within those the processor's PAT of
  the VMM realises, and no MTRR ever holds the type UC-.
\<close>

theorem guest_types_preserved:
  assumes "cache_ok s"
    and "cache_set_gpat v s = Some t \<or> cache_set_gmtrr n v s = Some t \<or> cache_set_gmsr_amd n v s = Some t"
  shows "cache_ok t"
proof -
  have g: "guest_types_ok s" using assms(1) by (simp add: cache_ok_def)
  have "host_same s t \<and> guest_types_ok t"
    using assms(2)
  proof (elim disjE)
    assume "cache_set_gmtrr n v s = Some t"
    then consider "set_gmtrr_def_type v s = Some t" | "set_gmtrr_range n v s = Some t"
      | "set_gmtrr_fix n v s = Some t"
      by (auto simp: cache_set_gmtrr_def split: if_splits)
    then show ?thesis
      using set_def_type_types [OF _ g] set_range_types [OF _ g] set_fix_types [OF _ g] by cases
  qed (simp_all add: set_gpat_types [OF _ g] set_amd_types [OF _ g])
  then show ?thesis using assms(1) host_same_ready by (auto simp: cache_ok_def)
qed

lemma get_type_supported:
  assumes "cache_ok s" and "has_wc s"
  shows "\<exists>t. get_type gphys gattr s = Some t \<and> t \<in> supported (has_wc s)"
proof -
  define gt where "gt = pat_data (g (vm s)) (pat_index gattr)"
  define mt where "mt = get_mtrr_type gphys (g (vm s)) (pass_mtrrfix (vm s))"
  have hr: "host_ready s" and ok: "guest_types_ok s" using assms(1) by (auto simp: cache_ok_def)
  have gt: "gt \<in> supported (has_wc s)"
    using ok pat_index_lt [of gattr] host_supported [OF hr] by (auto simp: guest_types_ok_def gt_def)
  have mt: "mt \<in> supported (has_wc s)" "mt \<noteq> CACHE_TYPE_UC_MINUS"
    using get_mtrr_type_ok [OF hr ok, of gphys] host_supported [OF hr] by (auto simp: mt_def)
  show ?thesis
  proof (cases "gt = CACHE_TYPE_UC \<or> gt = CACHE_TYPE_WC")
    case True
    with gt show ?thesis by (auto simp: get_type_def gt_def [symmetric])
  next
    case False
    then show ?thesis
      using matrix_supported [OF gt _ _ mt] assms(2)
      by (simp add: get_type_def gt_def [symmetric] mt_def [symmetric])
  qed
qed

text \<open>
  C26: On a processor whose MTRRs support write-combining, the memory type of every guest access
  is well defined (the assertion of \<open>get_type\<close> holds) and the page attributes computed for it
  select exactly that type in the PAT of the VMM.
\<close>

theorem cache_get_attr_selects:
  assumes "cache_ok s" and "has_wc s"
  shows "\<exists>t a. get_type gphys gattr s = Some t \<and> cache_get_attr gphys gattr s = Some a
     \<and> pat_data (h (pcpu s)) (pat_index a) = t"
proof -
  have hr: "host_ready s" using assms(1) by (simp add: cache_ok_def)
  obtain t where "get_type gphys gattr s = Some t" "t \<in> supported (has_wc s)"
    using get_type_supported [OF assms] by blast
  moreover have "has_pat (pcpu s)" using hr by (simp add: host_ready_def)
  ultimately show ?thesis using attr_selects [OF hr] by (simp add: cache_get_attr_def)
qed

text \<open>
  On a processor whose MTRRs lack write-combining the attributes can select the wrong type:
  an access the tables make write-combining (a UC- page of a write-protected range) gets the
  attributes of a write-back page.
\<close>

theorem attr_without_wc:
  assumes "cache_ok s" and "\<not> has_wc s" and "pat_data (g (vm s)) (pat_index gattr) = CACHE_TYPE_UC_MINUS"
    and "get_mtrr_type gphys (g (vm s)) (pass_mtrrfix (vm s)) = CACHE_TYPE_WP"
  shows "get_type gphys gattr s = Some CACHE_TYPE_WC
     \<and> (\<exists>a. cache_get_attr gphys gattr s = Some a \<and> pat_data (h (pcpu s)) (pat_index a) = CACHE_TYPE_WB)"
proof -
  have hr: "host_ready s" using assms(1) by (simp add: cache_ok_def)
  then obtain s0 where s0: "has_pat (pcpu s0)" "mtrrcap (pcpu s0) = mtrrcap (pcpu s)" "has_pat (pcpu s)"
    "pat_data (h (pcpu s)) = pat_data (h (pcpu (make_pat_value s0)))"
    "pat_index_from_type (pcpu s) = pat_index_from_type (pcpu (make_pat_value s0))"
    by (auto simp: host_ready_def)
  have "get_type gphys gattr s = Some CACHE_TYPE_WC"
    using assms(3,4) by (simp add: get_type_def pat_mtrr_matrix_def)
  moreover have "pat_index (attr_from_type CACHE_TYPE_WC s) = 0"
    using s0(1,2) assms(2)
    by (subst attr_index [where i = 0]) (simp_all add: s0(5) make_pat_value_def upt_rec pat_default_def Let_def)
  moreover have "pat_data (h (pcpu s)) 0 = CACHE_TYPE_WB"
    using made_pat [OF s0(1)] by (simp add: s0(4) upt_rec)
  ultimately show ?thesis using s0(3) by (simp add: cache_get_attr_def)
qed

section \<open>Reads after writes\<close>

lemma same_half_same_parity:
  fixes a b :: nat
  assumes "0x200 \<le> a" "0x200 \<le> b" "(a - 0x200) div 2 = (b - 0x200) div 2" "a mod 2 = b mod 2"
  shows "a = b"
proof -
  define k j where "k = a - 0x200" and "j = b - 0x200"
  then have a: "a = k + 0x200" and b: "b = j + 0x200" using assms(1,2) by simp_all
  have "k mod 2 = a mod 2" unfolding a by presburger
  moreover have "j mod 2 = b mod 2" unfolding b by presburger
  ultimately show ?thesis using assms(3,4) div_mult_mod_eq [of k 2] div_mult_mod_eq [of j 2]
    unfolding k_def [symmetric] j_def [symmetric] unfolding a b by simp
qed

lemma range_index_eq:
  assumes "0x200 \<le> n" "n < 0x250" "0x200 \<le> m" "m < (0x250 :: u64)"
    and "n AND 1 = 0 \<longleftrightarrow> m AND 1 = 0"
    and "unat (drop_bit 1 (n - 0x200)) = unat (drop_bit 1 (m - 0x200))"
  shows "n = m"
proof -
  have d: "unat (n - 0x200) = unat n - 0x200" "unat (m - 0x200) = unat m - 0x200"
    using assms(1,3) by (simp_all add: unat_sub)
  have b: "0x200 \<le> unat n" "0x200 \<le> unat m" using assms(1,3) by (simp_all add: word_le_nat_alt)
  have e: "x AND 1 = 0 \<longleftrightarrow> unat x mod 2 = 0" for x :: u64
  proof -
    have "unat (x AND 1) = unat x mod 2" unfolding and_one_eq by (simp add: unat_mod)
    then show ?thesis by (metis unsigned_eq_0_iff)
  qed
  have o: "unat n mod 2 = unat m mod 2" using assms(5) unfolding e by presburger
  have q: "(unat n - 0x200) div 2 = (unat m - 0x200) div 2"
    using assms(6) d by (simp add: unat_drop_bit)
  have "unat n = unat m" by (rule same_half_same_parity [OF b q o])
  then show ?thesis by (rule unat_eqI)
qed

lemma fix_index_inj:
  "get_index_from_mtrr_fix_msr_num n = Some i \<Longrightarrow> get_index_from_mtrr_fix_msr_num m = Some i \<Longrightarrow> n = m"
  by (simp add: get_index_from_mtrr_fix_msr_num_def split: if_splits)

lemma get_fix_cong:
  assumes "mtrr_fix (g (vm t)) = mtrr_fix (g (vm s))" and "pass_mtrrfix (vm t) = pass_mtrrfix (vm s)"
    and "hw_msr t = hw_msr s" and "hw_msr_gp t = hw_msr_gp s"
  shows "get_gmtrr_fix m t = get_gmtrr_fix m s"
  unfolding get_gmtrr_fix_def cache_rdmsr_def assms ..

lemma get_range_cong:
  assumes "mtrr_physmask (g (vm t)) = mtrr_physmask (g (vm s))"
    and "mtrr_physbase (g (vm t)) = mtrr_physbase (g (vm s))"
  shows "get_gmtrr_range m t = get_gmtrr_range m s"
  unfolding get_gmtrr_range_def assms ..

lemma set_range_get:
  assumes "set_gmtrr_range n v s = Some t" and "0x200 \<le> n" "n < 0x250" "0x200 \<le> m" "m < 0x250"
  shows "get_gmtrr_range m t = (if m = n then Some v else get_gmtrr_range m s)"
proof -
  define i where "i = unat (drop_bit 1 (n - MSR_IA32_MTRR_PHYSBASE0))"
  have i: "i < gmtrr_vcnt" and t: "t = (if n AND 1 \<noteq> 0
      then on_g (\<lambda>c. c\<lparr>mtrr_physmask := (mtrr_physmask c)(i := v)\<rparr>) s
      else on_g (\<lambda>c. c\<lparr>mtrr_physbase := (mtrr_physbase c)(i := v)\<rparr>) s)"
    using assms(1) by (auto simp: set_gmtrr_range_def i_def Let_def split: if_splits)
  show ?thesis
  proof (cases "unat (drop_bit 1 (m - 0x200)) = i \<and> (n AND 1 = 0 \<longleftrightarrow> m AND 1 = 0)")
    case True
    then have "m = n" using range_index_eq [of n m] assms by (simp add: i_def)
    then show ?thesis using i by (simp add: t i_def get_gmtrr_range_def Let_def)
  next
    case False
    then have "m \<noteq> n" by (auto simp: i_def)
    then show ?thesis
      using False by (cases "n AND 1 = 0") (auto simp: t get_gmtrr_range_def Let_def)
  qed
qed

lemma set_fix_get:
  assumes "set_gmtrr_fix n v s = Some t"
  shows "get_gmtrr_fix m t = (if m = n then Some v else get_gmtrr_fix m s)"
proof (cases "pass_mtrrfix (vm s)")
  case True
  then have "\<not> hw_msr_gp s n" "t = s\<lparr>hw_msr := (hw_msr s)(n := v)\<rparr>"
    using assms by (auto simp: set_gmtrr_fix_def cache_wrmsr_def split: if_splits)
  then show ?thesis using True by (simp add: get_gmtrr_fix_def cache_rdmsr_def)
next
  case False
  then obtain i where i: "get_index_from_mtrr_fix_msr_num n = Some i"
    and t: "t = on_g (\<lambda>c. c\<lparr>mtrr_fix := (mtrr_fix c)(i := v)\<rparr>) s"
    using assms by (auto simp: set_gmtrr_fix_def split: if_splits option.splits)
  have p: "pass_mtrrfix (vm t) = False" "mtrr_fix (g (vm t)) = (mtrr_fix (g (vm s)))(i := v)"
    using False by (simp_all add: t)
  show ?thesis
  proof (cases "m = n")
    case True
    then show ?thesis using i p by (simp add: get_gmtrr_fix_def)
  next
    case ne: False
    show ?thesis
    proof (cases "get_index_from_mtrr_fix_msr_num m")
      case None
      then show ?thesis using ne p False by (simp add: get_gmtrr_fix_def)
    next
      case (Some j)
      then have "j \<noteq> i" using fix_index_inj [OF i] ne by metis
      then show ?thesis using Some ne p False by (simp add: get_gmtrr_fix_def)
    qed
  qed
qed

lemma set_range_frame:
  assumes "set_gmtrr_range n v s = Some t"
  shows "pcpu t = pcpu s \<and> get_gmtrr_fix m t = get_gmtrr_fix m s
     \<and> get_gmtrr_def_type t = get_gmtrr_def_type s"
proof -
  have e: "pcpu t = pcpu s" "mtrr_fix (g (vm t)) = mtrr_fix (g (vm s))"
    "pass_mtrrfix (vm t) = pass_mtrrfix (vm s)" "hw_msr t = hw_msr s" "hw_msr_gp t = hw_msr_gp s"
    "mtrr_def_type (g (vm t)) = mtrr_def_type (g (vm s))"
    using assms by (auto simp: set_gmtrr_range_def Let_def split: if_splits)
  then show ?thesis using get_fix_cong [OF e(2-5)] by (simp add: get_gmtrr_def_type_def)
qed

lemma set_fix_frame:
  assumes "set_gmtrr_fix n v s = Some t"
  shows "pcpu t = pcpu s \<and> get_gmtrr_range m t = get_gmtrr_range m s
     \<and> get_gmtrr_def_type t = get_gmtrr_def_type s"
proof -
  have e: "pcpu t = pcpu s" "mtrr_physmask (g (vm t)) = mtrr_physmask (g (vm s))"
    "mtrr_physbase (g (vm t)) = mtrr_physbase (g (vm s))"
    "mtrr_def_type (g (vm t)) = mtrr_def_type (g (vm s))"
    using assms by (auto simp: set_gmtrr_fix_def cache_wrmsr_def split: if_splits option.splits)
  then show ?thesis using get_range_cong [OF e(2,3)] by (simp add: get_gmtrr_def_type_def)
qed

lemma set_def_type_frame:
  assumes "set_gmtrr_def_type v s = Some t"
  shows "pcpu t = pcpu s \<and> get_gmtrr_range m t = get_gmtrr_range m s
     \<and> get_gmtrr_fix m t = get_gmtrr_fix m s \<and> get_gmtrr_def_type t = Some v"
proof -
  have t: "t = on_g (\<lambda>c. c\<lparr>mtrr_def_type := v\<rparr>) s"
    using assms by (auto simp: set_gmtrr_def_type_def Let_def split: if_splits)
  have "get_gmtrr_range m t = get_gmtrr_range m s" by (rule get_range_cong) (simp_all add: t)
  moreover have "get_gmtrr_fix m t = get_gmtrr_fix m s" by (rule get_fix_cong) (simp_all add: t)
  ultimately show ?thesis by (simp add: t get_gmtrr_def_type_def)
qed

lemmas set_frames = set_range_frame set_fix_frame set_def_type_frame

text \<open>
  A write of a guest MTRR that succeeds is what the next read returns, and leaves what reads
  of the other MTRRs return as it was.
\<close>

theorem gmtrr_read_after_write:
  assumes "cache_set_gmtrr n v s = Some t"
  shows "cache_get_gmtrr m t = (if m = n then Some v else cache_get_gmtrr m s)"
proof -
  have hp: "has_pat (pcpu s)" using assms by (simp add: cache_set_gmtrr_def split: if_splits)
  consider (d) "n = MSR_IA32_MTRR_DEF_TYPE" "set_gmtrr_def_type v s = Some t"
    | (r) "n \<ge> 0x200" "n < 0x250" "set_gmtrr_range n v s = Some t"
    | (f) "n \<ge> 0x250" "n \<le> 0x26F" "set_gmtrr_fix n v s = Some t"
    using assms by (auto simp: cache_set_gmtrr_def split: if_splits)
  then show ?thesis
  proof cases
    case d
    then show ?thesis using hp set_frames(3) [OF d(2), of m] by (simp add: cache_get_gmtrr_def)
  next
    case r
    have n: "n \<noteq> MSR_IA32_MTRR_DEF_TYPE" using r by auto
    show ?thesis
    proof (cases "0x200 \<le> m \<and> m < 0x250")
      case True
      then have "m \<noteq> MSR_IA32_MTRR_DEF_TYPE" by auto
      with True n show ?thesis
        using hp set_frames(1) [OF r(3), of m] set_range_get [OF r(3,1,2), of m]
        by (simp add: cache_get_gmtrr_def)
    next
      case False
      then have "m \<noteq> n" using r by auto
      then show ?thesis
        using hp set_frames(1) [OF r(3), of m] unfolding cache_get_gmtrr_def if_not_P [OF False]
        by simp
    qed
  next
    case f
    have n: "n \<noteq> MSR_IA32_MTRR_DEF_TYPE" "\<not> n < 0x250" using f by auto
    have fr: "pcpu t = pcpu s" "get_gmtrr_range m t = get_gmtrr_range m s"
      "get_gmtrr_def_type t = get_gmtrr_def_type s"
      "get_gmtrr_fix m t = (if m = n then Some v else get_gmtrr_fix m s)"
      using set_frames(2) [OF f(3), of m] set_fix_get [OF f(3), of m] by auto
    show ?thesis
    proof (cases "m = n")
      case True
      then show ?thesis using fr n f(1,2) hp by (simp add: cache_get_gmtrr_def)
    next
      case False
      then show ?thesis using fr unfolding cache_get_gmtrr_def by simp
    qed
  qed
qed

section \<open>A guest just created\<close>

lemma init_vcpu_ok:
  assumes "host_ready s" and "\<forall>i. mtrr_physbase (g (vm s)) i = 0" and "\<forall>i. mtrr_fix (g (vm s)) i = 0"
  shows "cache_ok (cache_init_vcpu s)"
proof -
  have sup: "is_type_ok s t \<longleftrightarrow> t \<in> supported (has_wc s)" for t by (rule host_supported [OF assms(1)])
  have "\<forall>i \<in> {0..<8}. is_type_ok s (pat_default i)"
    by (auto simp: sup supported_def pat_default_def eval_nat_numeral less_Suc_eq)
  then have 1: "set_gpat pat_default s
      = Some (on_g (\<lambda>c. c\<lparr>pat_data := (\<lambda>i. if i < 8 then pat_default i else pat_data c i)\<rparr>) s)"
    by (auto simp: set_gpat_def list_ex_iff)
  have "is_type_ok s CACHE_TYPE_UC" by (simp add: sup supported_def)
  then have 2: "set_gmtrr_def_type 0 u = Some (on_g (\<lambda>c. c\<lparr>mtrr_def_type := 0\<rparr>) u)" if "host_same s u" for u
    using host_same_ok [OF that] by (simp add: set_gmtrr_def_type_def Let_def)
  define u where "u = cache_init_vcpu s"
  have hs: "host_same s u" and e: "\<forall>i < 8. pat_data (g (vm u)) i = pat_default i"
    "mtrr_def_type (g (vm u)) = 0" "\<forall>i. mtrr_physbase (g (vm u)) i = 0" "\<forall>i. mtrr_fix (g (vm u)) i = 0"
    using assms 1 by (simp_all add: u_def cache_init_vcpu_def try_set_def 2 host_same_def
        host_ready_def Let_def)
  have "guest_types_ok u"
    using e \<open>\<forall>i \<in> {0..<8}. is_type_ok s (pat_default i)\<close> \<open>is_type_ok s CACHE_TYPE_UC\<close>
    unfolding guest_types_ok_def host_same_ok [OF hs] by (simp add: mtrr_fix_byte_def)
  then show ?thesis using host_same_ready [OF hs assms(1)] by (simp add: cache_ok_def u_def)
qed

definition blank_state :: "bool \<Rightarrow> cache_state" where
  "blank_state wc = make_pat_value
     \<lparr>pcpu = \<lparr>has_pat = True, has_mtrr = True, syscfg_exist = False,
        mtrrcap = (if wc then 0x50A else 0x10A), pat_index_from_type = (\<lambda>_. 0), h = sample_regs\<rparr>,
      vm = \<lparr>g = \<lparr>pat_data = (\<lambda>_. 0), mtrr_def_type = 0, mtrr_physbase = (\<lambda>_. 0),
        mtrr_physmask = (\<lambda>_. 0), mtrr_fix = (\<lambda>_. 0), syscfg = 0, top_mem2 = 0\<rparr>, pass_mtrrfix = False\<rparr>,
      hw_msr = (\<lambda>_. 0), hw_msr_gp = (\<lambda>_. False)\<rparr>"

definition new_guest :: "bool \<Rightarrow> cache_state" where
  "new_guest wc = cache_init_vcpu (blank_state wc)"

lemma blank_ready: "host_ready (blank_state wc)"
  unfolding host_ready_def by (auto simp: blank_state_def make_pat_value_def Let_def intro!: exI)

lemma new_guest_ok: "cache_ok (new_guest wc)"
  unfolding new_guest_def
  by (rule init_vcpu_ok [OF blank_ready]) (simp_all add: blank_state_def make_pat_value_def Let_def)


lemma new_guest_pcpu: "pcpu (new_guest wc) = pcpu (blank_state wc)"
  by (simp add: new_guest_def cache_init_vcpu_def try_set_def set_gpat_def set_gmtrr_def_type_def Let_def)

lemma new_guest_cap: "has_wc (new_guest wc) \<longleftrightarrow> wc" "has_pat (pcpu (new_guest wc))"
  unfolding new_guest_pcpu by (simp_all add: blank_state_def make_pat_value_def Let_def)

lemma new_guest_type_ok: "is_type_ok (new_guest wc) t \<longleftrightarrow> t \<in> supported wc"
  using host_supported [of "new_guest wc"] new_guest_ok [of wc] new_guest_cap(1) [of wc]
  by (simp add: cache_ok_def)

lemma new_guest_set: "0x200 = n \<Longrightarrow> \<exists>t. cache_set_gmtrr n 6 (new_guest wc) = Some t"
  using new_guest_type_ok [of wc 6] new_guest_cap(2) [of wc]
  by (auto simp: cache_set_gmtrr_def set_gmtrr_range_def gmtrr_vcnt_def supported_def Let_def)

lemma guest_types_preserved_witness:
  "\<exists>t. cache_set_gmtrr 0x200 6 (new_guest True) = Some t \<and> cache_ok t"
  using new_guest_set [OF refl, of True] guest_types_preserved [OF new_guest_ok [of True]] by blast

lemma cache_get_attr_selects_witness:
  "\<exists>t a. get_type 0x123000 0x10 (new_guest True) = Some t
     \<and> cache_get_attr 0x123000 0x10 (new_guest True) = Some a
     \<and> pat_data (h (pcpu (new_guest True))) (pat_index a) = t"
  using new_guest_cap(1) [of True] by (intro cache_get_attr_selects [OF new_guest_ok]) simp

lemma gmtrr_read_after_write_witness:
  "\<exists>t. cache_set_gmtrr 0x200 6 (new_guest True) = Some t \<and> cache_get_gmtrr 0x200 t = Some 6
     \<and> cache_get_gmtrr 0x202 t = cache_get_gmtrr 0x202 (new_guest True)"
proof -
  obtain t where t: "cache_set_gmtrr 0x200 6 (new_guest True) = Some t" using new_guest_set [OF refl] by blast
  show ?thesis
    using gmtrr_read_after_write [OF t, of "0x200"] gmtrr_read_after_write [OF t, of "0x202"] t by simp
qed

text \<open>A guest without write-combining whose memory is write-protected by default.\<close>

definition wp_guest :: cache_state where
  "wp_guest = on_g (\<lambda>c. c\<lparr>mtrr_def_type := 0x805\<rparr>) (new_guest False)"

lemma wp_guest_ok: "cache_ok wp_guest"
proof -
  have "set_gmtrr_def_type 0x805 (new_guest False) = Some wp_guest"
    using new_guest_type_ok [of False 5]
    by (simp add: set_gmtrr_def_type_def wp_guest_def supported_def Let_def)
  then show ?thesis
    using set_def_type_types new_guest_ok [of False] host_same_ready unfolding cache_ok_def by blast
qed

lemma new_guest_regs:
  "pat_data (g (vm (new_guest wc))) 2 = CACHE_TYPE_UC_MINUS" "mtrr_physmask (g (vm (new_guest wc))) i = 0"
  "syscfg (g (vm (new_guest wc))) = 0" "pass_mtrrfix (vm (new_guest wc)) = False"
proof -
  have r: "host_ready (blank_state wc)" by (rule blank_ready)
  have "is_type_ok (blank_state wc) (pat_default j)" if "j < 8" for j
    using that unfolding host_supported [OF r]
    by (auto simp: supported_def pat_default_def eval_nat_numeral less_Suc_eq)
  then have "set_gpat pat_default (blank_state wc)
      = Some (on_g (\<lambda>c. c\<lparr>pat_data := (\<lambda>i. if i < 8 then pat_default i else pat_data c i)\<rparr>) (blank_state wc))"
    by (auto simp: set_gpat_def list_ex_iff)
  then show "pat_data (g (vm (new_guest wc))) 2 = CACHE_TYPE_UC_MINUS"
    "mtrr_physmask (g (vm (new_guest wc))) i = 0"
    "syscfg (g (vm (new_guest wc))) = 0" "pass_mtrrfix (vm (new_guest wc)) = False"
    by (simp_all add: new_guest_def cache_init_vcpu_def try_set_def set_gmtrr_def_type_def
        blank_state_def make_pat_value_def pat_default_def Let_def)
qed

lemma pat_index_0x10: "pat_index 0x10 = 2"
  unfolding pat_index_def numeral_2_eq_2 by simp

lemma attr_without_wc_witness: "get_type 0x123000 0x10 wp_guest = Some CACHE_TYPE_WC"
proof (rule conjunct1, rule attr_without_wc [OF wp_guest_ok])
  show "\<not> has_wc wp_guest" using new_guest_cap(1) [of False] by (simp add: wp_guest_def)
  show "pat_data (g (vm wp_guest)) (pat_index 0x10) = CACHE_TYPE_UC_MINUS"
    using new_guest_regs(1) [of False] by (simp add: wp_guest_def pat_index_0x10)
  show "get_mtrr_type 0x123000 (g (vm wp_guest)) (pass_mtrrfix (vm wp_guest)) = CACHE_TYPE_WP"
    using new_guest_regs(2-4) [of False]
    by (simp add: wp_guest_def get_mtrr_type_def gmtrr_vcnt_def upt_rec)
qed

end
