(* ===== verification/Vt_Ept_Safety.thy ===== *)
theory Vt_Ept_Safety
  imports Vt_Ept_Map Mmio_Registry Mem_Layout Cache_Types
begin

text \<open>
  The states the page tables reach, what the guest can reach through them, and how violations meet
  the MMIO registry and the migration.
\<close>

section \<open>The other operations\<close>

lemma clear_all_ok:
  assumes "ept_ok e"
  shows "ept_ok (vt_ept_clear_all e)" "ept_lookup (vt_ept_clear_all e) gp = None"
proof -
  obtain dp pf where t: "ept_tree dp pf e" using assms by (auto simp: ept_ok_def)
  then have pool: "pool_ok e" by (simp add: ept_tree_def)
  have f: "cnt (vt_ept_clear_all e) = 0" "ncr3tbl (vt_ept_clear_all e) = ncr3tbl e"
    "tbl (vt_ept_clear_all e) = tbl e" "tables (vt_ept_clear_all e) = clear_page (ncr3tbl e) (tables e)"
    "cur_level (vt_ept_clear_all e) = EPT_LEVELS"
    by (simp_all add: vt_ept_clear_all_def)
  note rc = root_cleared [OF pool f(1-4)]
  show "ept_lookup (vt_ept_clear_all e) gp = None" by (rule rc(3))
  have "path_ok (vt_ept_clear_all e)" by (auto simp: path_ok_def f(5) EPT_LEVELS_def)
  then show "ept_ok (vt_ept_clear_all e)" using rc(1) by (auto simp: ept_ok_def)
qed

lemma init_ok:
  assumes "pool_ok \<lparr>cnt = 0, cleared = True, ncr3tbl = root, tbl = pool, cur_level = EPT_LEVELS, cur_gphys = 0,
      cur_entry = (\<lambda>i. 0), tables = t, flushes = 0\<rparr>"
  shows "ept_ok (vt_ept_init root pool t)" "ept_lookup (vt_ept_init root pool t) gp = None"
proof -
  let ?e = "vt_ept_init root pool t"
  note rc = root_cleared [OF assms, of ?e, simplified, unfolded vt_ept_init_def, simplified, folded vt_ept_init_def]
  have f: "cnt ?e = 0" "cur_level ?e = EPT_LEVELS" by (simp_all add: vt_ept_init_def)
  show "ept_lookup ?e gp = None" by (rule root_cleared(3) [OF assms]) (simp_all add: vt_ept_init_def)
  have "ept_tree (\<lambda>i. 0) (\<lambda>i. 0) ?e" by (rule root_cleared(1) [OF assms]) (simp_all add: vt_ept_init_def)
  moreover have "path_ok ?e" by (auto simp: path_ok_def f(2) EPT_LEVELS_def)
  ultimately show "ept_ok ?e" by (auto simp: ept_ok_def)
qed

lemma map_pages_ok:
  "env_ok env \<Longrightarrow> ept_ok e \<Longrightarrow> ept_sound env e \<Longrightarrow> \<forall>gp \<in> set gps. unat gp < 2 ^ 48
    \<Longrightarrow> map_pages env gps e = Some (Some e') \<Longrightarrow> ept_ok e' \<and> ept_sound env e'"
proof (induction gps arbitrary: e)
  case (Cons gp gps)
  obtain e1 where e1: "(if mmio_access_page (registry env) gp False = Not_mmio
            then vt_ept_map_page env False gp e else Some (Some e)) = Some (Some e1)"
    "map_pages env gps e1 = Some (Some e')"
    using Cons.prems(5) by (auto split: option.splits)
  have "ept_ok e1 \<and> ept_sound env e1"
    using e1(1) map_page_lemma [OF Cons.prems(1-3), of gp False e1] Cons.prems(2-4)
    by (auto split: if_splits)
  then show ?case using Cons.IH [OF Cons.prems(1) _ _ _ e1(2)] Cons.prems(4) by simp
qed simp

section \<open>Dropping a host range\<close>

text \<open>The addresses an entry maps, as \<open>vt_ept_extern_mapsearch\<close> computes them.\<close>

definition entry_meets :: "u64 \<Rightarrow> u64 \<Rightarrow> u64 \<Rightarrow> u64 \<Rightarrow> bool" where
  "entry_meets amask start end v =
     (let lo = v AND amask; hi = lo OR 0xFFF
      in start \<le> (if v AND EPTE_LARGE \<noteq> 0 then hi OR 0x1FFFFF else hi)
         \<and> (if v AND EPTE_LARGE \<noteq> 0 then lo AND NOT 0x1FFFFF else lo) \<le> end)"

lemma mapsearch_Cons:
  "mapsearch_entries amask cur start end (a # as) e =
     (if tables e a AND EPTE_READ \<noteq> 0 \<and> entry_meets amask start end (tables e a) then
        if \<not> cur then (True, e)
        else mapsearch_entries amask cur start end as (e\<lparr>tables := (tables e)(a := 0)\<rparr>)
      else mapsearch_entries amask cur start end as e)"
  by (simp add: Let_def entry_meets_def)

lemma mapsearch_current:
  "mapsearch_entries amask True start end as e = (False, e') \<longleftrightarrow>
    e' = e\<lparr>tables := (\<lambda>a. if a \<in> set as \<and> tables e a AND EPTE_READ \<noteq> 0
        \<and> entry_meets amask start end (tables e a) then 0 else tables e a)\<rparr>"
proof (induction as arbitrary: e)
  case Nil
  then show ?case by auto
next
  case (Cons a as)
  define e1 where "e1 = (if tables e a AND EPTE_READ \<noteq> 0 \<and> entry_meets amask start end (tables e a)
    then e\<lparr>tables := (tables e)(a := 0)\<rparr> else e)"
  have m: "mapsearch_entries amask True start end (a # as) e = mapsearch_entries amask True start end as e1"
    unfolding mapsearch_Cons e1_def by simp
  have z: "0 AND EPTE_READ = 0" by simp
  have "(\<lambda>b. if b \<in> set as \<and> tables e1 b AND EPTE_READ \<noteq> 0 \<and> entry_meets amask start end (tables e1 b)
      then 0 else tables e1 b)
    = (\<lambda>b. if b \<in> set (a # as) \<and> tables e b AND EPTE_READ \<noteq> 0 \<and> entry_meets amask start end (tables e b)
      then 0 else tables e b)"
    by (auto simp: fun_eq_iff e1_def z)
  moreover have "e1\<lparr>tables := t\<rparr> = e\<lparr>tables := t\<rparr>" for t by (simp add: e1_def)
  ultimately show ?case unfolding m Cons.IH by simp
qed

lemma mapsearch_current_total: "fst (mapsearch_entries amask True start end as e) = False"
  by (induction as arbitrary: e) (simp_all add: Let_def)

definition pool_entries :: "vt_ept \<Rightarrow> u64 list" where
  "pool_entries e = concat (map (\<lambda>i. map (\<lambda>j. tbl e i + of_nat j * 8) [0..<512]) [0..<cnt e])"

lemma entry_in_pool:
  assumes "pool_ok e" "i < cnt e"
  shows "entry_at (tbl e i) l gp \<in> set (pool_entries e)"
proof -
  have "aligned (tbl e i)" using assms by (simp add: pool_ok_def)
  note ep = entry_at_plus [OF this, of l gp]
  define j where "j = unat (drop_bit (9 * Suc l + 3) gp AND 0x1FF)"
  have "j < 512" unfolding j_def mask_words unat_and_mask by simp
  moreover have "entry_at (tbl e i) l gp = tbl e i + of_nat j * 8" unfolding ep [symmetric] j_def by simp
  ultimately show ?thesis using assms(2)
    by (auto simp: pool_entries_def intro!: bexI [of _ i] image_eqI [of _ _ j])
qed

text \<open>Entries that point to no table of the pool can be dropped without harm to the walks.\<close>

lemma drop_entries:
  assumes ok: "ept_ok e" and t': "\<And>a. t' a = tables e a \<or> t' a = 0"
    and nt: "\<And>a i. t' a \<noteq> tables e a \<Longrightarrow> i < cnt e \<Longrightarrow> is_table (tables e a)
      \<Longrightarrow> tables e a AND NOT PAGESIZE_MASK \<noteq> tbl e i"
  defines "e' \<equiv> e\<lparr>tables := t'\<rparr>"
  shows "ept_ok e'" "leaf e gp d p \<Longrightarrow> leaf e' gp d p"
proof -
  obtain dp pf where t: "ept_tree dp pf e" and po: "path_ok e" using ok by (auto simp: ept_ok_def)
  have ne: "node_entry dp pf e' k gp' q = node_entry dp pf e k gp' q" for k gp' q
    by (simp add: node_entry_def e'_def)
  have z: "\<not> is_table 0" by (simp add: is_table_def)
  have tree: "ept_tree dp pf e'"
    unfolding ept_tree_def ne
  proof (intro conjI allI impI)
    show "pool_ok e'" using t by (simp add: ept_tree_def pool_ok_def e'_def)
  next
    fix i assume "i < cnt e'"
    then show "1 \<le> dp i" "dp i \<le> 3" using t by (auto simp: ept_tree_def e'_def)
  next
    fix k gp' q assume "k < 3" "node_entry dp pf e k gp' q \<and> is_table (tables e' q)"
    then show "\<exists>i < cnt e'. tables e' q AND NOT PAGESIZE_MASK = tbl e' i \<and> dp i = Suc k \<and> pf i = rgn (Suc k) gp'"
      using t t' [of q] z unfolding ept_tree_def e'_def by auto
  qed
  have slots: "slot e' gp d = slot e gp d" if "d \<le> 3" for gp d
    using that
  proof (induction d)
    case (Suc d)
    then have ih: "slot e' gp d = slot e gp d" by simp
    show ?case
    proof (cases "slot e gp d")
      case (Some p)
      have "is_table (t' p) = is_table (tables e p) \<and> (is_table (tables e p) \<longrightarrow> t' p = tables e p)"
      proof (cases "t' p = tables e p")
        case False
        then have "t' p = 0" using t' [of p] by simp
        moreover have "\<not> is_table (tables e p)"
        proof
          assume it: "is_table (tables e p)"
          have "node_entry dp pf e d gp p" by (rule slot_node [OF t Some]) (use Suc.prems in simp)
          then obtain i where "i < cnt e" "tables e p AND NOT PAGESIZE_MASK = tbl e i"
            using t it Suc.prems unfolding ept_tree_def by (metis Suc_le_lessD eval_nat_numeral(3))
          then show False using nt [OF False _ it] by blast
        qed
        ultimately show ?thesis using z by simp
      qed simp
      then show ?thesis using ih Some by (auto simp: e'_def)
    qed (use ih in simp)
  qed (simp add: e'_def)
  show "leaf e' gp d p" if l: "leaf e gp d p"
  proof -
    have "\<not> is_table (tables e' p)" if "\<not> is_table (tables e p)" using t' [of p] that z by (auto simp: e'_def)
    then show ?thesis using l slots [of d gp] by (auto simp: leaf_def)
  qed
  have "path_ok e'" using po slots unfolding path_ok_def by (auto simp: e'_def)
  then show "ept_ok e'" using tree by (auto simp: ept_ok_def)
qed

lemma entry_meets_table:
  assumes "amask AND PAGESIZE_MASK = 0" "is_table v"
  shows "entry_meets amask start end (v AND NOT PAGESIZE_MASK) = entry_meets amask start end v"
proof -
  have al: "aligned amask" using assms(1) by (simp add: aligned_def)
  have "(v AND NOT PAGESIZE_MASK) AND amask = v AND amask"
    unfolding page_masks by (rule bit_word_eqI) (auto simp: bit_simps dest: aligned_bit [OF al])
  moreover have "\<not> bit (v AND NOT (mask 12)) 7" by (simp add: bit_simps)
  then have "(v AND NOT PAGESIZE_MASK) AND 2 ^ 7 = 0" unfolding page_masks and_exp_eq_0_iff_not_bit .
  then have "(v AND NOT PAGESIZE_MASK) AND EPTE_LARGE = 0" by simp
  ultimately show ?thesis using assms(2) unfolding entry_meets_def is_table_def by simp
qed

text \<open>
  C34: After \<open>vt_ept_extern_mapsearch\<close> on the current processor no page or 2MB block of the host range
  is mapped any more, every other mapping is as it was, and the cached path is still one.
\<close>

theorem mapsearch_drops_range:
  assumes "ept_ok e" "ept_sound env e"
    and mask: "amask AND PAGESIZE_MASK = 0"
    and pool: "\<And>i. i < cnt e \<Longrightarrow> \<not> entry_meets amask start end (tbl e i)"
  shows "\<exists>e'. vt_ept_extern_mapsearch amask True start end e = (False, e') \<and> ept_ok e' \<and> ept_sound env e'
    \<and> (\<forall>gp. ept_lookup e' gp = (case ept_lookup e gp of
          None \<Rightarrow> None
        | Some (l, v) \<Rightarrow> if entry_meets amask start end v then None else Some (l, v)))"
proof -
  define t' where "t' = (\<lambda>a. if a \<in> set (pool_entries e) \<and> tables e a AND EPTE_READ \<noteq> 0
      \<and> entry_meets amask start end (tables e a) then 0 else tables e a)"
  define e' where "e' = e\<lparr>tables := t'\<rparr>"
  have m: "vt_ept_extern_mapsearch amask True start end e = (False, e')"
    unfolding vt_ept_extern_mapsearch_def pool_entries_def [symmetric] mapsearch_current e'_def t'_def ..
  have t: "t' a = tables e a \<or> t' a = 0" for a by (simp add: t'_def)
  have nt: "tables e a AND NOT PAGESIZE_MASK \<noteq> tbl e i"
    if "t' a \<noteq> tables e a" "i < cnt e" "is_table (tables e a)" for a i
  proof
    assume "tables e a AND NOT PAGESIZE_MASK = tbl e i"
    then have "entry_meets amask start end (tables e a) = entry_meets amask start end (tbl e i)"
      using entry_meets_table [OF mask that(3)] by simp
    then show False using pool [OF that(2)] that(1) by (auto simp: t'_def split: if_splits)
  qed
  have de: "ept_ok e'" "leaf e gp d p \<Longrightarrow> leaf e' gp d p" for gp d p
    unfolding e'_def by (rule drop_entries [OF assms(1) t]; use nt in blast)+
  obtain dp pf where tr: "ept_tree dp pf e" using assms(1) by (auto simp: ept_ok_def)
  have lk: "ept_lookup e' gp = (case ept_lookup e gp of None \<Rightarrow> None
      | Some (l, v) \<Rightarrow> if entry_meets amask start end v then None else Some (l, v))" for gp
  proof -
    obtain d p where l: "leaf e gp d p" using leaf_exists by blast
    note lk1 = ept_lookup_leaf [OF l] ept_lookup_leaf [OF de(2) [OF l]]
    show ?thesis
    proof (cases "tables e p AND EPTE_READ = 0")
      case True
      then have "t' p = tables e p" by (simp add: t'_def)
      then show ?thesis using lk1 True by (simp add: e'_def)
    next
      case False
      then have lv: "ept_lookup e gp = Some (3 - d, tables e p)" using lk1(1) by simp
      have "d \<le> 3" "slot e gp d = Some p" using l by (auto simp: leaf_def)
      then have n: "node_entry dp pf e d gp p" using slot_node [OF tr] by blast
      have "mapping_ok env gp (3 - d) (tables e p)" using assms(2) lv by (simp add: ept_sound_def)
      then have "d \<noteq> 0" unfolding mapping_ok_def by auto
      then have "p \<in> set (pool_entries e)"
        using n entry_in_pool [of e] tr unfolding node_entry_def ept_tree_def by auto
      then have "t' p = (if entry_meets amask start end (tables e p) then 0 else tables e p)"
        using False by (simp add: t'_def)
      then show ?thesis using lk1 False by (simp add: e'_def)
    qed
  qed
  have "ept_sound env e'"
    using assms(2) lk unfolding ept_sound_def by (auto split: option.splits if_splits)
  then show ?thesis using m de(1) lk by blast
qed

section \<open>Reachable tables\<close>

text \<open>
  The tables over the life of a virtual machine.  What the mappings depend on (the guest's MTRRs,
  the registered handlers) may change when all of them are dropped.
\<close>

inductive ept_reachable :: "ept_env \<Rightarrow> vt_ept \<Rightarrow> bool" where
  init: "env_ok env \<Longrightarrow> pool_ok (vt_ept_init root pool t) \<Longrightarrow> ept_reachable env (vt_ept_init root pool t)"
| clear: "ept_reachable env e \<Longrightarrow> env_ok env' \<Longrightarrow> ept_reachable env' (vt_ept_clear_all e)"
| violation: "ept_reachable env e \<Longrightarrow> unat gphys < 2 ^ 48
    \<Longrightarrow> vt_ept_violation env aft_mig found obs write gphys e = (Mapped e', msgs, reset)
    \<Longrightarrow> ept_reachable env e'"
| map_1mb: "ept_reachable env e \<Longrightarrow> vt_ept_map_1mb env e = Some (Some e') \<Longrightarrow> ept_reachable env e'"

inductive_cases ept_reachable_cases: "ept_reachable env e"

lemma violation_maps:
  assumes "vt_ept_violation env aft_mig found obs write gphys e = (Mapped e', msgs, reset)"
  shows "vt_ept_map_page env write gphys e = Some (Some e')"
  using assms by (auto simp: vt_ept_violation_def Let_def split: if_splits option.splits)

lemma reachable_sound:
  "ept_reachable env e \<Longrightarrow> env_ok env \<and> ept_ok e \<and> ept_sound env e"
proof (induction rule: ept_reachable.induct)
  case (init env root pool t)
  have "pool_ok \<lparr>cnt = 0, cleared = True, ncr3tbl = root, tbl = pool, cur_level = EPT_LEVELS, cur_gphys = 0,
      cur_entry = (\<lambda>i. 0), tables = t, flushes = 0\<rparr>"
    using init(2) by (simp add: pool_ok_def vt_ept_init_def)
  from init_ok [OF this] init(1) show ?case by (simp add: ept_sound_def)
next
  case (clear env e env')
  then show ?case using clear_all_ok [of e] by (simp add: ept_sound_def)
next
  case (violation env e gphys aft_mig found obs wr e' msgs reset)
  then show ?case using map_page_lemma [OF _ _ _ _ violation_maps] by blast
next
  case (map_1mb env e e')
  have "unat (of_nat i * PAGESIZE :: u64) < 2 ^ 48" if "i < 256" for i
  proof -
    have "unat (of_nat i * PAGESIZE :: u64) = i * 4096"
      using that by (simp add: unat_word_ariths unat_of_nat)
    then show ?thesis using that by simp
  qed
  then have "\<forall>gp \<in> set (map (\<lambda>i. of_nat i * PAGESIZE) [0..<256]). unat (gp :: u64) < 2 ^ 48" by auto
  from map_pages_ok [OF _ _ _ this, of env "vt_ept_clear_all e" e'] map_1mb clear_all_ok [of e]
  show ?case by (simp add: vt_ept_map_1mb_def ept_sound_def)
qed

lemma same_block:
  assumes "rgn d a = rgn d b" "d \<le> 4" "unat a < 2 ^ 48" "unat b < 2 ^ 48"
  shows "a AND NOT (mask (48 - 9 * d)) = b AND NOT (mask (48 - 9 * d))"
proof (rule bit_word_eqI)
  fix n
  have hi: "\<not> bit x n" if "unat x < 2 ^ 48" "48 \<le> n" for x :: u64
  proof -
    have "take_bit 48 (unat x) = unat x" using that(1) by (simp add: take_bit_nat_eq_self)
    then have "bit (unat x) n = bit (take_bit 48 (unat x)) n" by simp
    then show ?thesis using that(2) by (simp add: bit_take_bit_iff bit_unsigned_iff)
  qed
  have "bit a n = bit b n" if "48 - 9 * d \<le> n"
    using rgn_eq_iff [OF assms(2), of a b] assms(1) that hi [OF assms(3)] hi [OF assms(4)]
    by (cases "n < 48") auto
  then show "bit (a AND NOT (mask (48 - 9 * d))) n = bit (b AND NOT (mask (48 - 9 * d))) n"
    by (auto simp: bit_simps dest: bit_imp_le_length)
qed

lemma page_entry_parts:
  "page_entry env gp AND NOT PAGESIZE_MASK = fst (gmm_pass_gp2hp (gmm env) gp) AND NOT PAGESIZE_MASK"
  "snd (gmm_pass_gp2hp (gmm env) gp) \<Longrightarrow> page_entry env gp AND EPTE_WRITE = 0"
proof -
  obtain hp f where g: "gmm_pass_gp2hp (gmm env) gp = (hp, f)" by (cases "gmm_pass_gp2hp (gmm env) gp")
  define t where "t = cache_get_gmtrr_type gp (cache env)"
  define attr where "attr = (if f then (push_bit 3 (ucast t :: u32) OR 0x5 OR 0x2) AND NOT 0x2
    else push_bit 3 (ucast t :: u32) OR 0x5 OR 0x2)"
  have e: "page_entry env gp = (hp AND NOT PAGESIZE_MASK) OR ucast attr"
    unfolding page_entry_def g t_def attr_def by (simp only: Let_def prod.case)
  have m: "0x5 OR 0x2 = (mask 3 :: u32)" by (simp add: mask_eq_decr_exp)
  have small: "\<not> bit attr n" if "12 \<le> n" for n
  proof
    assume "bit attr n"
    then have "bit (push_bit 3 (ucast t :: u32)) n \<or> bit (0x5 OR 0x2 :: u32) n"
      unfolding attr_def by (cases f) (auto simp only: if_True if_False bit_or_iff bit_and_iff)
    moreover have "\<not> bit (0x5 OR 0x2 :: u32) n" unfolding m bit_mask_iff using that by simp
    ultimately show False using that by (auto simp: bit_simps dest: bit_imp_le_length)
  qed
  show "page_entry env gp AND NOT PAGESIZE_MASK = fst (gmm_pass_gp2hp (gmm env) gp) AND NOT PAGESIZE_MASK"
    unfolding e g page_masks
    by (rule bit_word_eqI) (auto simp: bit_simps small dest: bit_imp_le_length)
  assume "snd (gmm_pass_gp2hp (gmm env) gp)"
  then have f by (simp add: g)
  have "\<not> bit attr 1"
  proof -
    have "(0x2 :: u32) = 2 ^ 1" by simp
    then show ?thesis using \<open>f\<close> unfolding attr_def by (simp add: bit_simps del: power_one_right)
  qed
  then have "page_entry env gp AND 2 ^ 1 = 0"
    unfolding and_exp_eq_0_iff_not_bit e page_masks by (simp add: bit_simps)
  then show "page_entry env gp AND EPTE_WRITE = 0" by simp
qed

lemma large_entry_parts:
  assumes "large_allowed env gp"
  shows "large_entry env gp AND NOT PAGESIZE2M_MASK = gp AND NOT PAGESIZE2M_MASK"
    and "\<not> phys_in_vmm (gmm env) (gp AND NOT PAGESIZE2M_MASK)"
proof -
  define base where "base = gp AND NOT PAGESIZE2M_MASK"
  have hp: "gmm_pass_gp2hp_2m (gmm env) base = base" and v: "\<not> phys_in_vmm (gmm env) base"
    using assms by (auto simp: large_allowed_def gmm_pass_gp2hp_2m_def base_def Let_def split: if_splits)
  show "\<not> phys_in_vmm (gmm env) (gp AND NOT PAGESIZE2M_MASK)" using v by (simp add: base_def)
  define t where "t = cache_get_gmtrr_type base (cache env)"
  define attr where "attr = (push_bit 3 (ucast t :: u32) OR 0x5 OR 0x2 OR 0x80)"
  have e: "large_entry env gp = base OR ucast attr"
    using hp unfolding large_entry_def base_def [symmetric] t_def attr_def by (simp only: Let_def)
  have m: "0x5 OR 0x2 OR 0x80 = (mask 3 OR push_bit 7 (mask 1) :: u32)" by (simp add: mask_eq_decr_exp push_bit_eq_mult)
  have small: "\<not> bit attr n" if "12 \<le> n" for n
  proof
    assume "bit attr n"
    then have "bit (push_bit 3 (ucast t :: u32)) n \<or> bit (mask 3 :: u32) n \<or> bit (push_bit 7 (mask 1) :: u32) n"
      unfolding attr_def m by (simp only: bit_or_iff)
    then show False using that by (auto simp only: bit_push_bit_iff bit_mask_iff bit_ucast_iff dest!: bit_imp_le_length) auto
  qed
  show "large_entry env gp AND NOT PAGESIZE2M_MASK = gp AND NOT PAGESIZE2M_MASK"
    unfolding e base_def page_masks
    by (rule bit_word_eqI) (auto simp: bit_simps small dest: bit_imp_le_length)
qed

text \<open>
  C5: The guest never reaches the memory of the VMM: whatever faults it caused, a page of the VMM
  is mapped to the blank page and without write permission, every other 4KB mapping is the
  identity, and a 2MB mapping is the identity on a block that holds no page of the VMM.
\<close>

theorem vmm_memory_protected:
  assumes "ept_reachable env e" "gmm_ok (gmm env)" "unat gphys < 2 ^ 48"
    and "ept_lookup e gphys = Some (l, v)"
  shows "(l = 0 \<and> (if phys_in_vmm (gmm env) gphys
             then v AND NOT PAGESIZE_MASK = phys_blank (gmm env) \<and> v AND EPTE_WRITE = 0
             else v AND NOT PAGESIZE_MASK = gphys AND NOT PAGESIZE_MASK))
    \<or> (l = 1 \<and> v AND NOT PAGESIZE2M_MASK = gphys AND NOT PAGESIZE2M_MASK
        \<and> (\<forall>a. a AND NOT PAGESIZE2M_MASK = gphys AND NOT PAGESIZE2M_MASK \<longrightarrow> \<not> phys_in_vmm (gmm env) a))"
proof -
  have "mapping_ok env gphys l v"
    using reachable_sound [OF assms(1)] assms(4) by (simp add: ept_sound_def)
  then obtain g0 where g0: "unat g0 < 2 ^ 48" and
    "(l = 0 \<and> same_page gphys g0 \<and> v = page_entry env g0)
        \<or> (l = 1 \<and> rgn 3 gphys = rgn 3 g0 \<and> v = large_entry env g0 \<and> large_allowed env g0)"
    unfolding mapping_ok_def by blast
  then consider (page) "l = 0" "same_page gphys g0" "v = page_entry env g0"
    | (large) "l = 1" "rgn 3 gphys = rgn 3 g0" "v = large_entry env g0" "large_allowed env g0" by blast
  then show ?thesis
  proof cases
    case page
    have b: "gphys AND NOT PAGESIZE_MASK = g0 AND NOT PAGESIZE_MASK"
      using same_block [OF page(2) _ assms(3) g0] unfolding page_masks by simp
    have "unat gphys div 2 ^ 12 = unat g0 div 2 ^ 12"
      using arg_cong [OF b, of unat] unfolding page_masks unat_and_not_mask by simp
    then have pv: "phys_in_vmm (gmm env) g0 = phys_in_vmm (gmm env) gphys"
      by (intro phys_in_vmm_block [OF assms(2), of 12]) simp_all
    have bl: "phys_blank (gmm env) AND NOT PAGESIZE_MASK = phys_blank (gmm env)"
    proof -
      have "aligned (phys_blank (gmm env))" using assms(2) by (simp add: gmm_ok_def aligned_def)
      from entry_at_page [OF this, of 0 0] show ?thesis by (simp add: entry_at_def)
    qed
    show ?thesis
    proof (cases "phys_in_vmm (gmm env) gphys")
      case True
      then have "gmm_pass_gp2hp (gmm env) g0 = (phys_blank (gmm env), True)" using pv by (simp add: gmm_pass_gp2hp_def)
      then show ?thesis using page_entry_parts [of env g0] page bl True by simp
    next
      case False
      then have "gmm_pass_gp2hp (gmm env) g0 = (g0, False)" using pv by (simp add: gmm_pass_gp2hp_def)
      then show ?thesis using page_entry_parts(1) [of env g0] page b False by simp
    qed
  next
    case large
    have b: "gphys AND NOT PAGESIZE2M_MASK = g0 AND NOT PAGESIZE2M_MASK"
      using same_block [OF large(2) _ assms(3) g0] unfolding page_masks by simp
    have "\<not> phys_in_vmm (gmm env) a" if "a AND NOT PAGESIZE2M_MASK = gphys AND NOT PAGESIZE2M_MASK" for a
    proof -
      have "(g0 AND NOT PAGESIZE2M_MASK) AND NOT PAGESIZE2M_MASK = a AND NOT PAGESIZE2M_MASK"
        using that b by (simp add: and.assoc)
      from arg_cong [OF this, of unat]
      have "unat (g0 AND NOT PAGESIZE2M_MASK) div 2 ^ 21 = unat a div 2 ^ 21"
        unfolding page_masks unat_and_not_mask by simp
      then have "phys_in_vmm (gmm env) (g0 AND NOT PAGESIZE2M_MASK) = phys_in_vmm (gmm env) a"
        by (intro phys_in_vmm_block [OF assms(2), of 21]) simp_all
      then show ?thesis using large_entry_parts(2) [OF large(4)] by simp
    qed
    then show ?thesis using large_entry_parts(1) [OF large(4)] large b by auto
  qed
qed

section \<open>Violations\<close>

lemma wait_recved_iff: "wait_recved obs = (if list_ex (\<lambda>(r, ended). r \<or> ended) obs then Some () else None)"
  by (induction obs rule: wait_recved.induct) auto

text \<open>
  A violation on a page with registered I/O is left to the interpreter and maps nothing; during
  a migration a page of the migrated ranges is requested and stays unmapped until the loop sees the
  block's arrival or the end of the migration; any other page is mapped at once.
\<close>

lemma violation_behaviour:
  assumes "mmio_ok (registry env)" "unat (gphys AND NOT PAGESIZE_MASK) + 0x1000 < 2 ^ 64"
    and "vt_ept_map_page env write gphys e = Some (Some e')"
  shows "vt_ept_violation env aft_mig found obs write gphys e =
    (if \<exists>p. overlaps (registry env) p (unat (gphys AND NOT PAGESIZE_MASK)) (unat (gphys AND NOT PAGESIZE_MASK) + 0x1000)
     then (Interpreted, [], False)
     else if aft_mig \<and> vt_migration_range gphys
     then if list_ex (\<lambda>(r, ended). r \<or> ended) obs
          then (Mapped e', send_msg_addr_req found gphys, True) else (Waiting, send_msg_addr_req found gphys, False)
     else (Mapped e', [], False))"
  using mmio_access_page_iff [OF assms(1,2), of True]
  by (simp add: vt_ept_violation_def assms(3) wait_recved_iff Let_def split: if_splits)

text \<open>
  Every address of the memory that is migrated lies in the ranges a violation waits for, so no
  migrated page is mapped before its block is asked for.
\<close>

theorem migrated_memory_waits:
  assumes "in_areas a server_usable_mem_list"
  shows "vt_migration_range a"
  using assms by (auto simp: in_areas_def in_area_def server_usable_mem_list_def vt_migration_range_def
      ept_usable_mem_list_def word_le_nat_alt)

lemma migrated_memory_waits_witness: "vt_migration_range 0x86b50000"
  by (rule migrated_memory_waits) (simp add: in_areas_def in_area_def server_usable_mem_list_def)

text \<open>
  The converse fails: a violation at \<open>0xff000000\<close> waits for an address that is in no area of
  the source machine's table.
\<close>

theorem waits_outside_areas:
  "vt_migration_range 0xff000000 \<and> \<not> in_areas 0xff000000 usable_mem_list
   \<and> select_mem_area 0xff000000 = (5, 0xff000000, 0x77033000)"
  by (simp add: vt_migration_range_def ept_usable_mem_list_def in_areas_def in_area_def usable_mem_list_def
      select_mem_area_def area_num_def request_mask_def margin_offset_eq mask_eq_decr_exp Let_def)

section \<open>An example\<close>

text \<open>Without ranges of the firmware every page can be mapped that is not a written page of the VMM.\<close>

lemma clear_cleared_none:
  assumes "uefi_mmio_space (gmm env) = None"
  shows "vt_ept_map_page_clear_cleared env e = Some (Some (e\<lparr>cleared := False\<rparr>))"
  using assms by (simp add: vt_ept_map_page_clear_cleared_def force_count_def gmm_pass_getforcemap_def)

lemma map_page_total:
  assumes "uefi_mmio_space (gmm env) = None" "\<not> (snd (gmm_pass_gp2hp (gmm env) gphys) \<and> write)"
  shows "\<exists>e'. vt_ept_map_page env write gphys e = Some (Some e')"
proof -
  have "\<exists>e'. vt_ept_map_page_sub env write gphys e = Some e'" for e
    using assms(2) unfolding vt_ept_map_page_sub_def
    by (cases "gmm_pass_gp2hp (gmm env) gphys") (auto simp: Let_def split: prod.split)
  then obtain e2 where "vt_ept_map_page_sub env write gphys (if cleared e then e\<lparr>cleared := False\<rparr> else e) = Some e2"
    by blast
  then show ?thesis
    unfolding vt_ept_map_page_def clear_cleared_none [OF assms(1)] by (cases "cleared e"; cases "cleared e2") simp_all
qed

definition sample_env :: ept_env where
  "sample_env = \<lparr>gmm = \<lparr>vmm_start_phys = 0x70000000, phys_blank = 0x70001000, uefi_mmio_space = None\<rparr>,
     cache = blank_state False, registry = sample_registry\<rparr>"

definition sample_ept :: vt_ept where
  "sample_ept = vt_ept_init 0x70002000 (\<lambda>i. 0x70010000 + of_nat i * 0x1000) (\<lambda>a. 0)"

lemma sample_env_ok: "env_ok sample_env" "gmm_ok (gmm sample_env)" "uefi_mmio_space (gmm sample_env) = None"
  "registry sample_env = sample_registry"
  by (simp_all add: env_ok_def sample_env_def gmm_ok_def)

lemma sample_table: "i < NUM_OF_EPTBL \<Longrightarrow> unat (0x70010000 + of_nat i * 0x1000 :: u64) = 0x70010000 + i * 0x1000"
  by (simp add: NUM_OF_EPTBL_def unat_word_ariths unat_of_nat)

lemma sample_pool: "pool_ok sample_ept"
proof -
  have al: "aligned (0x70010000 + of_nat i * 0x1000)" if "i < NUM_OF_EPTBL" for i
  proof -
    have "unat ((0x70010000 + of_nat i * 0x1000 :: u64) AND mask 12) = (0x70010000 + i * 0x1000) mod 2 ^ 12"
      unfolding unat_and_mask sample_table [OF that] ..
    also have "0x70010000 + i * 0x1000 = (0x70010 + i) * 2 ^ 12" by simp
    also have "(0x70010 + i) * 2 ^ 12 mod 2 ^ 12 = 0" by (rule mod_mult_self2_is_0)
    finally show ?thesis unfolding aligned_def page_masks by (simp add: unat_eq_zero)
  qed
  have "0x70010000 + of_nat i * 0x1000 \<noteq> (0x70002000 :: u64)" if "i < NUM_OF_EPTBL" for i
  proof
    assume "0x70010000 + of_nat i * 0x1000 = (0x70002000 :: u64)"
    from arg_cong [OF this, of unat] show False unfolding sample_table [OF that] by simp
  qed
  moreover have "inj_on (\<lambda>i. 0x70010000 + of_nat i * 0x1000 :: u64) {..<NUM_OF_EPTBL}"
  proof (rule inj_onI)
    fix i j assume ij: "i \<in> {..<NUM_OF_EPTBL}" "j \<in> {..<NUM_OF_EPTBL}"
      and eq: "0x70010000 + of_nat i * 0x1000 = (0x70010000 + of_nat j * 0x1000 :: u64)"
    have "i < NUM_OF_EPTBL" "j < NUM_OF_EPTBL" using ij by auto
    note t = sample_table [OF this(1)] sample_table [OF this(2)]
    from arg_cong [OF eq, of unat] show "i = j" unfolding t by simp
  qed
  ultimately show ?thesis using al by (simp add: pool_ok_def sample_ept_def vt_ept_init_def aligned_def)
qed

lemma sample_reachable: "ept_reachable sample_env sample_ept"
  using ept_reachable.init [OF sample_env_ok(1)] sample_pool unfolding sample_ept_def by blast

lemma sample_ok: "ept_ok sample_ept" "ept_sound sample_env sample_ept"
  using reachable_sound [OF sample_reachable] by simp_all

lemma map_page_sub_maps_witness:
  "\<exists>e'. vt_ept_map_page_sub sample_env True 0x5000 sample_ept = Some e'
    \<and> ept_lookup e' 0x5000 = Some (0, page_entry sample_env 0x5000)"
proof -
  have "\<exists>e'. vt_ept_map_page_sub sample_env True 0x5000 sample_ept = Some e'"
    by (simp add: vt_ept_map_page_sub_def gmm_pass_gp2hp_def phys_in_vmm_def sample_env_def VMMSIZE_ALL_def
        Let_def split: prod.split)
  then obtain e' where e': "vt_ept_map_page_sub sample_env True 0x5000 sample_ept = Some e'" ..
  from map_page_sub_maps [OF sample_ok(1) this] e' show ?thesis by blast
qed

lemma sample_map:
  "\<exists>e'. vt_ept_map_page sample_env False gphys e = Some (Some e')"
  by (rule map_page_total [OF sample_env_ok(3)]) simp

lemma cur_move_walk_witness:
  "ept_walk sample_ept 0x5000 = (3, cur_entry (cur_move 0x5000 sample_ept) 3)"
proof -
  have al: "aligned (ncr3tbl sample_ept)" using sample_pool by (simp add: pool_ok_def)
  have po: "path_ok sample_ept" using sample_ok(1) by (simp add: ept_ok_def)
  have "tables sample_ept = (\<lambda>a. 0)" by (simp add: sample_ept_def vt_ept_init_def clear_page_def fun_eq_iff)
  then have "fst (ept_walk sample_ept 0x5000) = 3"
    by (simp add: ept_walk_def is_table_def numeral_3_eq_3)
  then show ?thesis using cur_move_walk [OF po al, of "0x5000"] by auto
qed

lemma sample_violation:
  assumes "unat gphys + 0x1000 < 0x70000000 \<or> gphys AND NOT PAGESIZE_MASK = 0x70003000"
  shows "mmio_access_page (registry sample_env) gphys True = Not_mmio"
proof -
  have "unat (gphys AND NOT PAGESIZE_MASK) \<le> unat gphys"
    unfolding page_masks unat_and_not_mask by simp
  then have b: "unat (gphys AND NOT PAGESIZE_MASK) + 0x1000 < 0xFEC00000" using assms by auto
  then show ?thesis
    unfolding sample_env_ok(4) by (subst mmio_access_page_iff [OF sample_registry_ok]) (auto simp: sample_overlaps)
qed

lemma vmm_memory_protected_witness:
  "\<exists>e v. ept_reachable sample_env e \<and> ept_lookup e 0x70003000 = Some (0, v)
    \<and> v AND NOT PAGESIZE_MASK = 0x70001000 \<and> v AND EPTE_WRITE = 0"
proof -
  obtain e where m: "vt_ept_map_page sample_env False 0x70003000 sample_ept = Some (Some e)" using sample_map by blast
  have v: "vt_ept_violation sample_env False True [] False 0x70003000 sample_ept = (Mapped e, [], False)"
    using sample_violation [of "0x70003000"] by (simp add: vt_ept_violation_def m)
  have r: "ept_reachable sample_env e" by (rule ept_reachable.violation [OF sample_reachable _ v]) simp
  obtain x where x: "ept_lookup e 0x70003000 = Some (0, x)"
    using map_page_lemma [OF sample_env_ok(1) sample_ok _ m] by auto
  have "phys_in_vmm (gmm sample_env) 0x70003000" by (simp add: phys_in_vmm_def sample_env_def VMMSIZE_ALL_def)
  moreover have "phys_blank (gmm sample_env) = 0x70001000" by (simp add: sample_env_def)
  ultimately show ?thesis
    using vmm_memory_protected [OF r sample_env_ok(2) _ x] r x by auto
qed

lemma violation_behaviour_witness:
  "\<exists>e'. vt_ept_violation sample_env True True [(False, False), (True, False)] False 0x5000 sample_ept
      = (Mapped e', [[4, 0x5000, 0]], True)"
proof -
  obtain e where m: "vt_ept_map_page sample_env False 0x5000 sample_ept = Some (Some e)" using sample_map by blast
  have "mmio_ok (registry sample_env)" unfolding sample_env_ok(4) by (rule sample_registry_ok)
  from violation_behaviour [OF this _ m, of True True "[(False, False), (True, False)]"]
  show ?thesis by (simp add: sample_env_ok(4) sample_overlaps vt_migration_range_def ept_usable_mem_list_def send_msg_addr_req_def)
qed

lemma mapsearch_drops_range_witness:
  "\<exists>e e'. ept_reachable sample_env e \<and> ept_lookup e 0x5000 \<noteq> None
    \<and> vt_ept_extern_mapsearch (NOT PAGESIZE_MASK) True 0x5000 0x5FFF e = (False, e') \<and> ept_lookup e' 0x5000 = None"
proof -
  obtain e where m: "vt_ept_map_page sample_env False 0x5000 sample_ept = Some (Some e)" using sample_map by blast
  have v: "vt_ept_violation sample_env False True [] False 0x5000 sample_ept = (Mapped e, [], False)"
    using sample_violation [of "0x5000"] by (simp add: vt_ept_violation_def m)
  have r: "ept_reachable sample_env e" by (rule ept_reachable.violation [OF sample_reachable _ v]) simp
  note rs = reachable_sound [OF r]
  obtain g0 where g0: "same_page 0x5000 g0" "unat g0 < 2 ^ 48" "ept_lookup e 0x5000 = Some (0, page_entry sample_env g0)"
    using map_page_lemma [OF sample_env_ok(1) sample_ok _ m] by auto
  have b: "g0 AND NOT PAGESIZE_MASK = 0x5000"
    using same_block [OF g0(1) _ _ g0(2)] by (simp add: page_masks(1) [symmetric])
  have nv: "\<not> phys_in_vmm (gmm sample_env) g0"
  proof -
    have "unat g0 div 2 ^ 12 = unat (0x5000 :: u64) div 2 ^ 12"
      using arg_cong [OF b, of unat] unfolding page_masks unat_and_not_mask by simp
    from phys_in_vmm_block [OF sample_env_ok(2) _ this] show ?thesis
      by (simp add: phys_in_vmm_def sample_env_def VMMSIZE_ALL_def)
  qed
  then have "page_entry sample_env g0 AND NOT PAGESIZE_MASK = 0x5000"
    using page_entry_parts(1) [of sample_env g0] b by (simp add: gmm_pass_gp2hp_def)
  then have meets: "entry_meets (NOT PAGESIZE_MASK) 0x5000 0x5FFF (page_entry sample_env g0)"
    unfolding entry_meets_def by (simp add: Let_def)
  have t: "tbl e = tbl sample_ept"
    using map_page_kept(1) [OF sample_env_ok(1) sample_ok _ m] by (simp add: kept_def)
  have "pool_ok e" using rs by (auto simp: ept_ok_def ept_tree_def)
  then have c: "cnt e \<le> NUM_OF_EPTBL" by (simp add: pool_ok_def)
  have pool: "\<not> entry_meets (NOT PAGESIZE_MASK) 0x5000 0x5FFF (tbl e i)" if "i < cnt e" for i
  proof -
    define T where "T = tbl e i"
    have al: "aligned T" using \<open>pool_ok e\<close> that c by (simp add: pool_ok_def T_def)
    have un: "unat T = 0x70010000 + i * 0x1000"
      using sample_table [of i] that c unfolding T_def t by (simp add: sample_ept_def vt_ept_init_def)
    have "T AND NOT PAGESIZE_MASK = T" using entry_at_page [OF al, of 0 0] by (simp add: entry_at_def)
    moreover have "unat (T AND NOT 0x1FFFFF) > 0x5FFF"
      unfolding page_masks unat_and_not_mask un by simp
    ultimately show ?thesis using un unfolding T_def [symmetric] entry_meets_def word_le_nat_alt
      by (simp add: Let_def)
  qed
  have mask0: "(NOT PAGESIZE_MASK :: u64) AND PAGESIZE_MASK = 0" by simp
  have ok: "ept_ok e" "ept_sound sample_env e" using rs by simp_all
  obtain e' where "vt_ept_extern_mapsearch (NOT PAGESIZE_MASK) True 0x5000 0x5FFF e = (False, e')"
    "ept_lookup e' 0x5000 = (case ept_lookup e 0x5000 of None \<Rightarrow> None
      | Some (l, v) \<Rightarrow> if entry_meets (NOT PAGESIZE_MASK) 0x5000 0x5FFF v then None else Some (l, v))"
    using mapsearch_drops_range [OF ok mask0 pool] by blast
  then show ?thesis using r g0(3) meets by auto
qed

end
