(* ===== verification/On_Demand.thy ===== *)
theory On_Demand
  imports Migration Vt_Ept_Safety
begin

text \<open>
  A page fault across the two machines: the violation of \<open>core/vt_ept.c\<close> on the destination sends a
  request, the source answers it (\<open>ip/echo-client.c\<close>), the packets arrive at the destination's receive
  callback (\<open>ip/echo-server.c\<close>), and the loop of the violation looks at \<open>ept_recved\<close> in between.
\<close>

section \<open>Arrivals\<close>

definition packets_of :: "bf_msg list \<Rightarrow> packet list" where
  "packets_of ms = map (\<lambda>m. (msg_bytes m, size_of_msg)) ms"

lemma fold_packets: "fold deliver_bytes (take k (packets_of ms)) v = fold deliver (take k ms) v"
  by (induction ms arbitrary: v k) (simp_all add: packets_of_def deliver_bytes_def deliver_def take_Cons split: nat.splits)

text \<open>Blocks of the background copy: the address of each and its 32 messages.\<close>

definition background_blocks :: "physmem \<Rightarrow> (u64 \<times> bf_msg list) list \<Rightarrow> bool" where
  "background_blocks mem bl \<longleftrightarrow> (\<forall>(a, ms) \<in> set bl. aligned8 a \<and> carries_block mem a False ms)"

abbreviation messages :: "(u64 \<times> bf_msg list) list \<Rightarrow> bf_msg list" where
  "messages bl \<equiv> concat (map snd bl)"

lemma background_silent:
  assumes "receiving v" "smem_ok v" "background_blocks mem bl"
  shows "let w = fold deliver (take k (messages bl)) v
     in receiving w \<and> smem_ok w \<and> ept_recved w = ept_recved v \<and> aft_mig_in_mmio w = aft_mig_in_mmio v"
  using assms
proof (induction bl arbitrary: v k)
  case Nil
  then show ?case by (simp add: Let_def)
next
  case (Cons x bl)
  obtain a ms where x: "x = (a, ms)" by (cases x)
  have c: "aligned8 a" "carries_block mem a False ms" "background_blocks mem bl"
    using Cons.prems(3) by (simp_all add: background_blocks_def x)
  have len: "length ms = 32" using c(2) by (simp add: carries_block_def)
  show ?case
  proof (cases "k \<le> 32")
    case True
    then show ?thesis
      using deliver_packets [OF Cons.prems(1,2) c(1,2) True] len by (simp add: x Let_def)
  next
    case False
    have t: "take k (messages (x # bl)) = take 32 ms @ take (k - 32) (messages bl)"
      using False len by (simp add: x)
    have d: "let w = fold deliver (take 32 ms) v
       in receiving w \<and> smem_ok w \<and> ept_recved w = ept_recved v \<and> aft_mig_in_mmio w = aft_mig_in_mmio v"
      using deliver_packets [OF Cons.prems(1,2) c(1,2), of 32] by (simp add: Let_def)
    then show ?thesis
      using Cons.IH [of "fold deliver (take 32 ms) v" "k - 32"] c(3) unfolding t by (simp add: Let_def)
  qed
qed

text \<open>The destination after the first \<open>k\<close> packets, and what the loop of a violation sees of it.\<close>

definition arrived :: "packet list \<Rightarrow> server \<Rightarrow> nat \<Rightarrow> server" where
  "arrived pks v k = fold deliver_bytes (take k pks) v"

definition look :: "server \<Rightarrow> bool \<times> bool" where
  "look v = (ept_recved v, \<not> aft_mig_in_mmio v)"

text \<open>The reply to a request, packet by packet, behind the blocks already on their way.\<close>

lemma reply_arrives:
  assumes inv: "quiet s" "receiving v" "smem_ok v" and r: "32 \<le> room s"
    and ga: "in_areas ga Mem_Layout.usable_mem_list" "get_bitarray (bits s) ga = 0"
    and bg: "background_blocks (phys s) bl" and v: "\<not> ept_recved v" "aft_mig_in_mmio v"
  defines "t \<equiv> fst (request_recv (s\<lparr>requested_addr := ga\<rparr>))"
  defines "pks \<equiv> packets_of (messages bl) @ new_packets s t"
  shows "length (new_packets s t) = 32"
    and "look (arrived pks v k) = (length pks \<le> k, False)"
    and "length pks \<le> k \<Longrightarrow> unat (x - (ga AND request_mask)) < 0x8000 \<Longrightarrow> sphys (arrived pks v k) x = phys s x"
proof -
  let ?s = "s\<lparr>requested_addr := ga\<rparr>"
  have pre: "link_ok ?s" "32 \<le> room ?s" "requested_batch ?s = 0" "vmem_ok ?s"
    "in_areas (requested_addr ?s) Mem_Layout.usable_mem_list"
    "get_bitarray (bits ?s) (requested_addr ?s) = 0" "\<not> seq_thread_is_transmitting ?s"
    using inv(1) r ga by (simp_all add: quiet_def link_ok_def room_def vmem_ok_def)
  obtain ms where ms: "outq (pcb t) = outq (pcb s) @ packets_of ms"
    "carries_block (phys s) (ga AND request_mask) True ms"
    using request_recv_sends [OF pre] unfolding t_def packets_of_def by auto
  have new: "new_packets s t = packets_of ms" by (simp add: new_packets_def ms(1))
  have len: "length ms = 32" using ms(2) by (simp add: carries_block_def)
  then show "length (new_packets s t) = 32" by (simp add: new packets_of_def)
  have pks: "pks = packets_of (messages bl @ ms)" by (simp add: pks_def new packets_of_def)
  define w where "w = fold deliver (messages bl) v"
  have w: "receiving w" "smem_ok w" "\<not> ept_recved w" "aft_mig_in_mmio w"
    using background_silent [OF inv(2,3) bg, of "length (messages bl)"] v by (simp_all add: w_def Let_def)
  have n: "length pks = length (messages bl) + 32" by (simp add: pks packets_of_def len)
  have early: "arrived pks v k = fold deliver (take k (messages bl)) v" if "k \<le> length (messages bl)"
    using that unfolding arrived_def pks fold_packets by simp
  have late: "arrived pks v k = fold deliver (take (k - length (messages bl)) ms) w" if "length (messages bl) \<le> k"
    using that unfolding arrived_def pks fold_packets w_def by simp
  have cut: "take j ms = take (min j 32) ms" for j using len by (simp add: min_def)
  note dp = deliver_packets [OF w(1,2) aligned8_block_base ms(2)]
  show "look (arrived pks v k) = (length pks \<le> k, False)"
  proof (cases "k < length (messages bl)")
    case True
    then show ?thesis
      using background_silent [OF inv(2,3) bg, of k] v early n by (simp add: look_def Let_def)
  next
    case False
    define j where "j = min (k - length (messages bl)) 32"
    have "arrived pks v k = fold deliver (take j ms) w" using late False cut by (simp add: j_def)
    moreover have "j = 32 \<longleftrightarrow> length pks \<le> k" using False by (auto simp: j_def n)
    ultimately show ?thesis using dp [of j] w(3,4) by (simp add: look_def Let_def j_def)
  qed
  show "sphys (arrived pks v k) x = phys s x" if "length pks \<le> k" "unat (x - (ga AND request_mask)) < 0x8000"
  proof -
    have "arrived pks v k = fold deliver (take 32 ms) w" using late that(1) cut [of "k - length (messages bl)"] n by simp
    then show ?thesis using dp [of 32] that(2) by (simp add: Let_def)
  qed
qed

text \<open>Every address of the source's migrated memory lies in the ranges a violation waits for.\<close>

lemma usable_waits: "in_areas a Mem_Layout.usable_mem_list \<Longrightarrow> vt_migration_range a"
  by (auto simp: in_areas_def in_area_def Mem_Layout.usable_mem_list_def vt_migration_range_def
      ept_usable_mem_list_def word_le_nat_alt)

text \<open>
  C33: On the destination, a violation for a migrated address with no registered I/O on its page whose
  block has not been sent asks for exactly that address and then waits: as long as the loop looks only
  at states before the last packet of the source's reply, it neither ends nor maps the page, however
  many blocks of the background copy arrive; once it has seen a state after the last packet, the page
  is mapped and the flag is reset, and in that state every byte of the block is the source's.  It is
  stated for one outstanding request (a single processor in a violation, with the flag \<open>ept_recved\<close>
  not left set by another one), a migration that has not ended, and a source between two transfers
  with room for the 32 messages of a block.
\<close>

theorem violation_waits_for_block:
  assumes "quiet s" and "receiving v" "smem_ok v" and "32 \<le> room s"
    and "in_areas ga Mem_Layout.usable_mem_list" and "get_bitarray (bits s) ga = 0"
    and "\<not> ept_recved v" and "aft_mig_in_mmio v"
    and "background_blocks (phys s) bl"
    and "mmio_ok (registry env)"
    and "\<forall>p. \<not> overlaps (registry env) p (unat (ga AND NOT PAGESIZE_MASK)) (unat (ga AND NOT PAGESIZE_MASK) + 0x1000)"
    and "vt_ept_map_page env write ga e = Some (Some e')"
  shows "let t = fst (request_recv (s\<lparr>requested_addr := ga\<rparr>));
      pks = packets_of (messages bl) @ new_packets s t;
      violate = (\<lambda>ks. vt_ept_violation env True True (map (\<lambda>k. look (arrived pks v k)) ks) write ga e)
    in length (new_packets s t) = 32
      \<and> (\<forall>ks. (\<forall>k\<in>set ks. k < length pks) \<longrightarrow> violate ks = (Waiting, [[4, ga, 0]], False))
      \<and> (\<forall>ks. \<not> (\<forall>k\<in>set ks. k < length pks) \<longrightarrow> violate ks = (Mapped e', [[4, ga, 0]], True))
      \<and> (\<forall>k x. length pks \<le> k \<and> block_num x = block_num ga \<longrightarrow> sphys (arrived pks v k) x = phys s x)"
proof -
  define t where "t = fst (request_recv (s\<lparr>requested_addr := ga\<rparr>))"
  define pks where "pks = packets_of (messages bl) @ new_packets s t"
  note ra = reply_arrives [OF assms(1-6,9,7,8), folded t_def, folded pks_def]
  have rng: "vt_migration_range ga" by (rule usable_waits [OF assms(5)])
  have small: "unat (ga AND NOT PAGESIZE_MASK) + 0x1000 < 2 ^ 64"
    using usable_le [OF assms(5)] unat_and_not_mask [of ga 12] by (simp add: page_masks) 
  have io: "mmio_access_page (registry env) ga True = Not_mmio"
    using mmio_access_page_iff [OF assms(10) small, of True] assms(11) by simp
  have obs: "list_ex (\<lambda>(r, ended). r \<or> ended) (map (\<lambda>k. look (arrived pks v k)) ks)
      \<longleftrightarrow> \<not> (\<forall>k\<in>set ks. k < length pks)" for ks
    by (auto simp: list_ex_iff ra(2) not_less)
  have viol: "vt_ept_violation env True True (map (\<lambda>k. look (arrived pks v k)) ks) write ga e
      = (if \<not> (\<forall>k\<in>set ks. k < length pks) then (Mapped e', [[4, ga, 0]], True) else (Waiting, [[4, ga, 0]], False))" for ks
    unfolding vt_ept_violation_def wait_recved_iff obs
    by (simp add: io rng assms(12) send_msg_addr_req_def Let_def)
  have mem: "sphys (arrived pks v k) x = phys s x" if "length pks \<le> k" "block_num x = block_num ga" for k x
  proof (rule ra(3) [OF that(1)])
    show "unat (x - (ga AND request_mask)) < 0x8000"
      using in_block [OF base_le(2), of x ga] that(2) by (simp add: block_num_base)
  qed
  show ?thesis
    unfolding Let_def t_def [symmetric] pks_def [symmetric] viol using ra(1) mem by simp
qed

text \<open>
  A source that has sent its first block and had its messages acknowledged; they are still on their
  way through the destination when the guest there touches a page of another block.
\<close>

lemma first_turn:
  obtains t ms where "quiet t" "32 \<le> room t" "phys t = (\<lambda>_. 7)" "bits t = set_bitarray 0 bitarray_zero"
    "carries_block (phys t) 0 False ms"
proof -
  define s where "s = source_ready (\<lambda>_. 7)"
  define v where "v = server_receiving (\<lambda>_. 0)"
  have inv: "mig_inv (s, v)" by (simp add: s_def v_def mig_inv_start)
  have q: "start_ok s" "vmem_ok s" "link_ok s" "margin_batch s = 0" "cs_m_type (postcopy_state s) = NO_MARGIN"
    using inv by (auto simp: mig_inv_def quiet_def)
  have r: "32 \<le> room s" by (simp add: s_def)
  obtain t e where t: "postcopy_seq_task s = Some (t, e)"
    "e \<Longrightarrow> \<forall>c. gran_block c \<and> next_start s \<le> c \<longrightarrow> get_bitarray (bits s) c \<noteq> 0"
    "\<not> e \<Longrightarrow> \<exists>a ms. gran_block a \<and> (\<forall>c. gran_block c \<and> next_start s \<le> c \<and> c < a \<longrightarrow> get_bitarray (bits s) c \<noteq> 0)
       \<and> carries_block (phys s) a (requested_addr s = a) ms \<and> bits t = set_bitarray a (bits s)
       \<and> link_ok t \<and> frame_of t = frame_of s \<and> sent_cb (pcb t) = Some Margins_sent"
    using postcopy_seq_task_sends [OF q(1-3) r q(4,5)] by (fastforce split: if_splits)
  have e: "\<not> e" using t(2) gran_block_zero by (auto simp: s_def get_bitarray_zero)
  then obtain a ms where a: "gran_block a" "\<forall>c. gran_block c \<and> next_start s \<le> c \<and> c < a \<longrightarrow> get_bitarray (bits s) c \<noteq> 0"
    "carries_block (phys s) a (requested_addr s = a) ms" "bits t = set_bitarray a (bits s)"
    "link_ok t" "frame_of t = frame_of s" "sent_cb (pcb t) = Some Margins_sent"
    using t(3) by blast
  have a0: "a = 0" using a(2) gran_block_zero by (auto simp: s_def get_bitarray_zero word_gt_0)
  define n where "n = 0xFFFF - snd_buf (pcb t)"
  define t' where "t' = on_pcb (tcp_acked n) t"
  have ack: "client_acked n t = Some t'" using a(7) by (simp add: client_acked_def t'_def tcp_acked_def)
  have p: "link_ok t'" "32 \<le> room t'"
    using a(5) by (simp_all add: t'_def n_def tcp_acked_def link_ok_def tcp_open_def in_step_def room_def msg_sizes)
  have "mig_inv (t, deliver_new s t v)"
    by (rule background_inv [OF inv r]) (use t(1) e in simp)
  from acked_inv [OF this ack p(1)] have "quiet t'" by (simp add: mig_inv_def)
  moreover have "phys t' = (\<lambda>_. 7)" using a(6) by (simp add: t'_def frame_of_def s_def)
  moreover have "bits t' = set_bitarray 0 bitarray_zero" using a(4) by (simp add: t'_def a0 s_def)
  moreover have "carries_block (phys t') 0 False ms"
    using a(3) calculation(2) by (simp add: s_def a0 no_addr_def)
  ultimately show ?thesis using that p(2) by blast
qed

lemma violation_waits_for_block_witness:
  "\<exists>v0 v1 v' e'. vt_ept_violation sample_env True True [look v0, look v1] False 0x123456 sample_ept
      = (Waiting, [[4, 0x123456, 0]], False)
    \<and> vt_ept_violation sample_env True True [look v0, look v'] False 0x123456 sample_ept
      = (Mapped e', [[4, 0x123456, 0]], True)
    \<and> sphys v' 0x123000 = 7"
proof -
  obtain s ms where s: "quiet s" "32 \<le> room s" "phys s = (\<lambda>_. 7)" "bits s = set_bitarray 0 bitarray_zero"
    "carries_block (phys s) 0 False ms"
    by (rule first_turn)
  define v where "v = (server_receiving (\<lambda>_. 0))\<lparr>aft_mig_in_mmio := True\<rparr>"
  have v: "receiving v" "smem_ok v" "\<not> ept_recved v" "aft_mig_in_mmio v"
    using server_receiving_ok(1,2) [of "\<lambda>_. 0"] by (simp_all add: v_def receiving_def smem_ok_def)
  have u: "in_areas 0x123456 Mem_Layout.usable_mem_list" by (simp add: in_usable_nat)
  have b: "get_bitarray (bits s) 0x123456 = 0"
    using client_bits.member_insert [OF usable_indexable usable_indexable, of 0 "0x123456" bitarray_zero]
    by (simp add: s(4) get_bitarray_zero block_num_def)
  have bg: "background_blocks (phys s) [(0, ms)]" using s(5) by (simp add: background_blocks_def aligned8_def)
  obtain e' where m: "vt_ept_map_page sample_env False 0x123456 sample_ept = Some (Some e')" using sample_map by blast
  have mo: "mmio_ok (registry sample_env)" unfolding sample_env_ok(4) by (rule sample_registry_ok)
  have io: "\<forall>p. \<not> overlaps (registry sample_env) p (unat (0x123456 AND NOT PAGESIZE_MASK :: u64))
      (unat (0x123456 AND NOT PAGESIZE_MASK :: u64) + 0x1000)"
    by (simp add: sample_env_ok(4) sample_overlaps)
  define t where "t = fst (request_recv (s\<lparr>requested_addr := 0x123456\<rparr>))"
  define pks where "pks = packets_of (messages [(0, ms)]) @ new_packets s t"
  note w = violation_waits_for_block [OF s(1) v(1,2) s(2) u b v(3,4) bg mo io m,
      folded t_def, unfolded Let_def, folded pks_def]
  have len: "length pks = 64" using w s(5) by (simp add: pks_def packets_of_def carries_block_def)
  have wait: "vt_ept_violation sample_env True True (map (\<lambda>k. look (arrived pks v k)) [0, 32]) False 0x123456 sample_ept
      = (Waiting, [[4, 0x123456, 0]], False)"
    by (rule w [THEN conjunct2, THEN conjunct1, rule_format]) (auto simp: len)
  have mapped: "vt_ept_violation sample_env True True (map (\<lambda>k. look (arrived pks v k)) [0, 64]) False 0x123456 sample_ept
      = (Mapped e', [[4, 0x123456, 0]], True)"
    by (rule w [THEN conjunct2, THEN conjunct2, THEN conjunct1, rule_format]) (simp add: len)
  have "sphys (arrived pks v 64) 0x123000 = phys s 0x123000"
    by (rule w [THEN conjunct2, THEN conjunct2, THEN conjunct2, rule_format]) (simp add: len block_num_def)
  then show ?thesis using wait mapped s(3) by (auto simp del: One_nat_def)
qed

end
