(* ===== verification/Forced_Maps.thy ===== *)
theory Forced_Maps
  imports Vt_Ept_Safety
begin

text \<open>
  The ranges of the firmware that \<open>core/vt_ept.c\<close> of the destination maps again whenever the tables
  have been emptied (\<open>vt_ept_map_page_clear_cleared\<close>): what is mapped once the loop over them has ended.
\<close>

section \<open>Regions\<close>

lemma rgn_div:
  assumes "unat a div 2 ^ (48 - 9 * d) = unat b div 2 ^ (48 - 9 * d)"
  shows "rgn d a = rgn d b"
proof -
  have "unat (drop_bit (48 - 9 * d) a) = unat (drop_bit (48 - 9 * d) b)"
    unfolding unat_drop_bit_eq using assms by (simp only: drop_bit_eq_div)
  then have "drop_bit (48 - 9 * d) a = drop_bit (48 - 9 * d) b" by (simp only: word_unat_eq_iff)
  then show ?thesis by (simp add: rgn_def)
qed

lemma same_large_block:
  "rgn 3 a = rgn 3 b \<Longrightarrow> unat a < 2 ^ 48 \<Longrightarrow> unat b < 2 ^ 48 \<Longrightarrow> a AND NOT PAGESIZE2M_MASK = b AND NOT PAGESIZE2M_MASK"
  using same_block [of 3 a b] by (simp add: page_masks)

lemma page_aligned_iff: "aligned a \<longleftrightarrow> unat a mod 0x1000 = 0"
proof -
  have "a AND PAGESIZE_MASK = 0 \<longleftrightarrow> unat (a AND mask 12) = 0" by (simp add: page_masks unat_eq_zero)
  then show ?thesis by (simp add: aligned_def unat_and_mask)
qed

section \<open>Mappings that are not lost\<close>

text \<open>No block with registered I/O is mapped by a large page.\<close>

definition large_free :: "ept_env \<Rightarrow> vt_ept \<Rightarrow> bool" where
  "large_free env e = (\<forall>gp v. unat gp < 2 ^ 48 \<longrightarrow> ept_lookup e gp = Some (1, v)
     \<longrightarrow> mmio_range (registry env) (gp AND NOT PAGESIZE2M_MASK) 0x200000 = 0)"

text \<open>Either the tables have been emptied, or every address that was mapped still is.\<close>

definition grown :: "ept_env \<Rightarrow> vt_ept \<Rightarrow> vt_ept \<Rightarrow> bool" where
  "grown env e e' = (cleared e' \<or> \<not> cleared e \<and> flushes e' = flushes e \<and> large_free env e'
     \<and> (\<forall>a. ept_lookup e a \<noteq> None \<longrightarrow> ept_lookup e' a \<noteq> None))"

lemma grown_trans: "grown env e e1 \<Longrightarrow> grown env e1 e2 \<Longrightarrow> grown env e e2"
  by (auto simp: grown_def)

lemma grown_refl: "\<not> cleared e \<longrightarrow> large_free env e \<Longrightarrow> grown env e e"
  by (auto simp: grown_def)

lemma grown_free: "grown env e e' \<Longrightarrow> \<not> cleared e' \<longrightarrow> large_free env e'"
  by (auto simp: grown_def)

lemma same_tables_grown:
  assumes "same_tables e e'" "\<not> cleared e \<longrightarrow> large_free env e"
  shows "grown env e e'"
  using assms(2) same_tables_lookup [OF assms(1)] assms(1)
  by (auto simp: grown_def large_free_def same_tables_def)

lemma map_sub_grown:
  assumes k: "ept_ok e" "ept_sound env e" "\<not> cleared e \<longrightarrow> large_free env e" and g: "unat gphys < 2 ^ 48"
    and r: "vt_ept_map_page_sub env write gphys e = Some e'"
    and small: "\<And>a v. \<not> cleared e \<Longrightarrow> ept_lookup e gphys = Some (1, v) \<Longrightarrow> False"
  shows "grown env e e'"
proof -
  obtain q e1 where f: "cur_fill gphys 0 (cur_move gphys e) = (q, e1)" by (cases "cur_fill gphys 0 (cur_move gphys e)")
  have e': "e' = e1\<lparr>tables := (tables e1)(q := page_entry env gphys)\<rparr>"
    using r f unfolding vt_ept_map_page_sub_def page_entry_def
    by (cases "gmm_pass_gp2hp (gmm env) gphys") (simp add: Let_def split: if_splits)
  note me = map_entry_spec [OF k(1) _ f, of "page_entry env gphys", folded e', simplified]
  have lk: "ept_lookup e' gp' = (if same_page gp' gphys then Some (0, page_entry env gphys) else ept_lookup e1 gp')" for gp'
    using me(4) [of gp'] page_entry_present by simp
  show ?thesis
  proof (cases "cleared e'")
    case False
    then have fl: "flushes e' = flushes e" "\<not> cleared e" using me(6) by (auto split: if_splits)
    obtain dp pf where t: "ept_tree dp pf e" and po: "path_ok e" using k(1) by (auto simp: ept_ok_def)
    note cm = cur_move_ok [OF t po, of gphys]
    have dead: "ept_lookup e gphys = None" if "0 < cur_level (cur_move gphys e)"
    proof (rule ccontr)
      assume "ept_lookup e gphys \<noteq> None"
      then obtain l v where lv: "ept_lookup e gphys = Some (l, v)" by auto
      have "l = cur_level (cur_move gphys e)"
        using lv ept_lookup_leaf [OF cm(6)] same_tables_lookup [OF cm(5)] cm(4) by (auto split: if_splits)
      moreover have "l \<le> 1" using k(2) lv by (auto simp: ept_sound_def mapping_ok_def)
      ultimately have "l = 1" using that by simp
      then show False using small [OF fl(2)] lv by simp
    qed
    have same: "ept_lookup e1 a = ept_lookup e a" if "ept_lookup e a \<noteq> None" for a
      using me(7) [of a] fl(1) dead that by auto
    have "large_free env e'"
      unfolding large_free_def
    proof (intro allI impI)
      fix gp v assume a: "unat gp < 2 ^ 48" "ept_lookup e' gp = Some (1, v)"
      then have "ept_lookup e gp = Some (1, v)" using lk [of gp] me(5) [of gp] by (auto split: if_splits)
      then show "mmio_range (registry env) (gp AND NOT PAGESIZE2M_MASK) 0x200000 = 0"
        using k(3) fl(2) a(1) by (simp add: large_free_def)
    qed
    moreover have "ept_lookup e' a \<noteq> None" if "ept_lookup e a \<noteq> None" for a
      using same [OF that] lk [of a] that by auto
    ultimately show ?thesis using fl by (simp add: grown_def)
  qed (simp add: grown_def)
qed

lemma map_2mpage_grown:
  assumes k: "ept_ok e" "ept_sound env e" "\<not> cleared e \<longrightarrow> large_free env e" and g: "unat gphys < 2 ^ 48"
    and io: "mmio_range (registry env) (gphys AND NOT PAGESIZE2M_MASK) 0x200000 = 0"
    and r: "vt_ept_map_2mpage env gphys e = (failed, e')"
  shows "grown env e e'" and "\<not> failed \<Longrightarrow> rgn 3 a = rgn 3 gphys \<Longrightarrow> ept_lookup e' a \<noteq> None"
    and "failed \<Longrightarrow> ept_lookup e gphys \<noteq> Some (1, v)"
    and "failed \<Longrightarrow> same_tables e e'"
proof -
  obtain dp pf where t: "ept_tree dp pf e" and po: "path_ok e" using k(1) by (auto simp: ept_ok_def)
  note cm = cur_move_ok [OF t po, of gphys]
  have "grown env e e' \<and> (\<not> failed \<longrightarrow> rgn 3 a = rgn 3 gphys \<longrightarrow> ept_lookup e' a \<noteq> None)
    \<and> (failed \<longrightarrow> ept_lookup e gphys \<noteq> Some (1, v) \<and> same_tables e e')"
  proof (cases "cur_level (cur_move gphys e) = 0 \<or> \<not> large_allowed env gphys")
    case True
    then have e': "e' = cur_move gphys e" "failed"
      using r by (auto simp: vt_ept_map_2mpage_def large_allowed_def Let_def split: if_splits)
    have "ept_lookup e gphys \<noteq> Some (1, v)"
    proof
      assume l: "ept_lookup e gphys = Some (1, v)"
      then have "mapping_ok env gphys 1 v" using k(2) unfolding ept_sound_def by blast
      then obtain g0 where "rgn 3 gphys = rgn 3 g0" "unat g0 < 2 ^ 48" "large_allowed env g0"
        unfolding mapping_ok_def by auto
      then have "large_allowed env gphys" using same_large_block [of gphys g0] g by (simp add: large_allowed_def)
      moreover have "cur_level (cur_move gphys e) = 1"
        using l ept_lookup_leaf [OF cm(6)] same_tables_lookup [OF cm(5)] cm(4) by (auto split: if_splits)
      ultimately show False using True by simp
    qed
    then show ?thesis using e' same_tables_grown [OF cm(5) k(3)] cm(5) by simp
  next
    case False
    obtain q e1 where f: "cur_fill gphys 1 (cur_move gphys e) = (q, e1)" by (cases "cur_fill gphys 1 (cur_move gphys e)")
    have e': "e' = e1\<lparr>tables := (tables e1)(q := large_entry env gphys)\<rparr>" "\<not> failed"
      using r f False by (simp_all add: vt_ept_map_2mpage_def large_allowed_def large_entry_def Let_def)
    have l1: "1 \<le> cur_level (cur_move gphys e)" using False by simp
    have nt: "0 < (1 :: nat) \<longrightarrow> \<not> is_table (large_entry env gphys)" using large_entry_large(2) by simp
    note me = map_entry_spec [OF k(1) l1 f nt, folded e'(1)]
    have lk: "ept_lookup e' gp' = (if rgn 3 gp' = rgn 3 gphys then Some (1, large_entry env gphys) else ept_lookup e1 gp')" for gp'
      using me(4) [of gp'] large_entry_large(1) by simp
    have "grown env e e'"
    proof (cases "cleared e'")
      case False
      then have fl: "flushes e' = flushes e" "\<not> cleared e" using me(6) by (auto split: if_splits)
      have dead: "ept_lookup e gphys = None" if "1 < cur_level (cur_move gphys e)"
      proof (rule ccontr)
        assume "ept_lookup e gphys \<noteq> None"
        then obtain l v where lv: "ept_lookup e gphys = Some (l, v)" by auto
        have "l = cur_level (cur_move gphys e)"
          using lv ept_lookup_leaf [OF cm(6)] same_tables_lookup [OF cm(5)] cm(4) by (auto split: if_splits)
        moreover have "l \<le> 1" using k(2) lv by (auto simp: ept_sound_def mapping_ok_def)
        ultimately show False using that by simp
      qed
      have same: "ept_lookup e1 a = ept_lookup e a" if "ept_lookup e a \<noteq> None" for a
        using me(7) [of a] fl(1) dead that by auto
      have "large_free env e'"
        unfolding large_free_def
      proof (intro allI impI)
        fix gp v assume a: "unat gp < 2 ^ 48" "ept_lookup e' gp = Some (1, v)"
        show "mmio_range (registry env) (gp AND NOT PAGESIZE2M_MASK) 0x200000 = 0"
        proof (cases "rgn 3 gp = rgn 3 gphys")
          case True
          from same_large_block [OF True a(1) g] show ?thesis using io by simp
        next
          case False
          then have "ept_lookup e gp = Some (1, v)" using a(2) lk [of gp] me(5) [of gp] by (auto split: if_splits)
          then show ?thesis using k(3) fl(2) a(1) by (simp add: large_free_def)
        qed
      qed
      moreover have "ept_lookup e' a \<noteq> None" if "ept_lookup e a \<noteq> None" for a
        using same [OF that] lk [of a] that by auto
      ultimately show ?thesis using fl by (simp add: grown_def)
    qed (simp add: grown_def)
    then show ?thesis using e'(2) lk [of a] by simp
  qed
  then show "grown env e e'" and "\<not> failed \<Longrightarrow> rgn 3 a = rgn 3 gphys \<Longrightarrow> ept_lookup e' a \<noteq> None"
    and "failed \<Longrightarrow> ept_lookup e gphys \<noteq> Some (1, v)" and "failed \<Longrightarrow> same_tables e e'" by blast+
qed


section \<open>One step of a range\<close>

text \<open>No device is registered on the page of the address.\<close>

definition plain_page :: "ept_env \<Rightarrow> u64 \<Rightarrow> bool" where
  "plain_page env a = (\<forall>p. \<not> overlaps (registry env) p (unat (a AND NOT PAGESIZE_MASK))
     (unat (a AND NOT PAGESIZE_MASK) + 0x1000))"

lemma page_start: "unat (a AND NOT PAGESIZE_MASK) = unat a div 0x1000 * 0x1000" for a :: u64
  unfolding page_masks unat_and_not_mask by simp

lemma large_end:
  assumes "unat base < 2 ^ 48"
  shows "unat ((base OR PAGESIZE2M_MASK) + 1 - base) = (unat base div 0x200000 + 1) * 0x200000 - unat base"
proof -
  have "base OR PAGESIZE2M_MASK = (base AND NOT (mask 21)) OR mask 21"
    unfolding page_masks by (rule bit_word_eqI) (auto simp: bit_simps)
  also have "\<dots> = (base AND NOT (mask 21)) + mask 21"
    by (rule disjunctive_add_eq_or [symmetric]) (rule bit_word_eqI, simp add: bit_simps)
  finally have e: "base OR PAGESIZE2M_MASK = (base AND NOT (mask 21)) + mask 21" .
  have m: "(base AND NOT (mask 21)) + mask 21 + 1 = (base AND NOT (mask 21)) + 0x200000"
    by (simp add: mask_eq_exp_minus_1)
  have le: "unat base div 0x200000 * 0x200000 \<le> unat base" by simp
  have "unat ((base AND NOT (mask 21)) + 0x200000) = unat base div 0x200000 * 0x200000 + 0x200000"
    using assms le unat_and_not_mask [of base 21] by (simp add: unat_add64)
  moreover have "unat base < unat base div 0x200000 * 0x200000 + 0x200000"
    using div_mult_mod_eq [of "unat base" "0x200000"] mod_less_divisor [of "0x200000" "unat base"] by linarith
  ultimately show ?thesis unfolding e m by (simp add: unat_sub64 algebra_simps)
qed

text \<open>The pages skipped at a device all have registered I/O on them.\<close>

lemma device_end:
  assumes mo: "mmio_ok (registry env)" and b: "unat base < 2 ^ 48" "aligned base"
    and n: "mmio_range (registry env) base 0x1000 \<noteq> 0"
  defines "step \<equiv> (mmio_range (registry env) base 0x1000 - base + PAGESIZE - 1) AND NOT PAGESIZE_MASK"
  shows "0 < unat step" "unat step < 2 ^ 34" "unat step mod 0x1000 = 0"
    and "unat base \<le> unat a \<Longrightarrow> unat a < unat base + unat step \<Longrightarrow> \<not> plain_page env a"
proof -
  define nx where "nx = mmio_range (registry env) base 0x1000"
  have lim: "unat base + unat (0x1000 :: u32) < 2 ^ 64" using b(1) by simp
  obtain p where p: "overlaps (registry env) p (unat base) (unat base + 0x1000)"
    "nx = h_gphys (deref (registry env) p) + ucast (h_len (deref (registry env) p))"
    using mmio_range_first [OF mo _ lim] n by (auto simp: first_overlap_def nx_def split: if_splits)
  have ph: "p \<in> set (handle (registry env))" using p(1) by (simp add: overlaps_def handlers_def)
  have st: "start_of (registry env) p < unat base + 0x1000" "unat base < stop_of (registry env) p"
    using p(1) by (simp_all add: overlaps_def)
  have stop: "stop_of (registry env) p < start_of (registry env) p + 2 ^ 32"
    by (simp add: h_start_def h_stop_def)
  have "stop_of (registry env) p < 2 ^ 64" using st(1) stop b(1) by simp
  then have ns: "unat nx = stop_of (registry env) p"
    unfolding p(2) by (simp add: unat_add64 unat_ucast_32_64 h_stop_def)
  define w where "w = stop_of (registry env) p - unat base"
  have w: "0 < w" "w < 2 ^ 33" using st stop b(1) by (simp_all add: w_def)
  have "unat (nx - base) = w" using ns st(2) by (simp add: unat_sub64 w_def)
  then have "unat (nx - base + PAGESIZE - 1) = w + 0xFFF" using w by (simp add: unat_add64 unat_sub64)
  then have sz: "unat step = (w + 0xFFF) div 0x1000 * 0x1000"
    unfolding step_def nx_def [symmetric] page_start by simp
  show "unat step mod 0x1000 = 0" unfolding sz by simp
  show "0 < unat step" unfolding sz using w(1) by (simp add: div_greater_zero_iff)
  have "(w + 0xFFF) div 0x1000 * 0x1000 \<le> w + 0xFFF" by simp
  then show "unat step < 2 ^ 34" unfolding sz using w(2) by simp
  assume a: "unat base \<le> unat a" "unat a < unat base + unat step"
  define k where "k = unat a div 0x1000"
  obtain B where B: "unat base = B * 0x1000" using b(2) by (metis page_aligned_iff mult.commute mod_0_imp_dvd dvdE)
  have "B \<le> k" using a(1) unfolding k_def B by (simp add: less_eq_div_iff_mult_less_eq)
  moreover have "k * 0x1000 < B * 0x1000 + w"
  proof -
    have "unat a div 0x1000 * 0x1000 \<le> unat a" by simp
    then have "k * 0x1000 < B * 0x1000 + (w + 0xFFF) div 0x1000 * 0x1000" using a(2) unfolding sz B k_def by linarith
    then have "k < B + (w + 0xFFF) div 0x1000" by simp
    then have "(k - B) * 0x1000 + 0x1000 \<le> (w + 0xFFF) div 0x1000 * 0x1000" using calculation by simp
    then have "(k - B) * 0x1000 + 0x1000 \<le> w + 0xFFF" using \<open>(w + 0xFFF) div 0x1000 * 0x1000 \<le> w + 0xFFF\<close> by linarith
    moreover have "k * 0x1000 = B * 0x1000 + (k - B) * 0x1000" using \<open>B \<le> k\<close> by simp
    ultimately show ?thesis by linarith
  qed
  moreover have "stop_of (registry env) p = B * 0x1000 + w" using st(2) by (simp add: w_def B)
  ultimately have "overlaps (registry env) p (k * 0x1000) (k * 0x1000 + 0x1000)"
    using st(1) p(1) unfolding overlaps_def B by auto
  then show "\<not> plain_page env a" unfolding plain_page_def page_start k_def by blast
qed


lemma lookup_page: "rgn 4 a = rgn 4 b \<Longrightarrow> ept_lookup e a = ept_lookup e b"
proof -
  assume r: "rgn 4 a = rgn 4 b"
  obtain d p where l: "leaf e b d p" using leaf_exists by blast
  then have d: "d \<le> 3" by (simp add: leaf_def)
  have "rgn (Suc d) a = rgn (Suc d) b" by (rule rgn_mono [OF r]) (use d in auto)
  then have "leaf e a d p" using l slot_region [of d a b e] d by (simp add: leaf_def)
  from ept_lookup_leaf [OF this] ept_lookup_leaf [OF l] show ?thesis by simp
qed

lemma range_step:
  assumes k: "ept_ok e" "ept_sound env e" "\<not> cleared e \<longrightarrow> large_free env e"
    and mo: "mmio_ok (registry env)" and b: "unat base < 2 ^ 48" "aligned base"
    and l: "vt_ept_level base e = (level, e1)"
    and m: "(if level > 0 \<and> mmio_range (registry env) (base AND NOT PAGESIZE2M_MASK) 0x200000 = 0
             then vt_ept_map_2mpage env base e1 else (True, e1)) = (failed, e2)"
    and sr: "(if \<not> failed then ((base OR PAGESIZE2M_MASK) + 1 - base, Some e2)
              else if mmio_range (registry env) base 0x1000 = 0 then (PAGESIZE, vt_ept_map_page_sub env True base e2)
              else ((mmio_range (registry env) base 0x1000 - base + PAGESIZE - 1) AND NOT PAGESIZE_MASK, Some e2))
             = (step, Some e3)"
  shows "ept_ok e3" "ept_sound env e3" "grown env e e3"
    and "0 < unat step" "unat step < 2 ^ 34" "(unat base + unat step) mod 0x1000 = 0"
    and "\<not> cleared e3 \<Longrightarrow> unat base \<le> unat a \<Longrightarrow> unat a < unat base + unat step \<Longrightarrow> plain_page env a
         \<Longrightarrow> ept_lookup e3 a \<noteq> None"
proof -
  obtain dp pf where t: "ept_tree dp pf e" and po: "path_ok e" using k(1) by (auto simp: ept_ok_def)
  note cm = cur_move_ok [OF t po, of base]
  have e1: "e1 = cur_move base e" "level = cur_level e1" using l by (auto simp: vt_ept_level_def Let_def)
  have st1: "same_tables e e1" unfolding e1(1) by (rule cm(5))
  have k1: "kept env (\<lambda>a. False) e e1"
    by (rule same_tables_kept [OF st1 k(1) _ k(2)]) (use cm(2) e1(1) in simp_all)
  have g1: "grown env e e1" by (rule same_tables_grown [OF st1 k(3)])
  note ok1 = keptD(1,2) [OF k1] grown_free [OF g1]
  have al: "unat base mod 0x1000 = 0" using b(2) by (simp add: page_aligned_iff)
  have two: "kept env (\<lambda>a. False) e e2 \<and> grown env e e2
    \<and> (failed \<longrightarrow> (\<forall>v. \<not> cleared e2 \<longrightarrow> ept_lookup e2 base \<noteq> Some (1, v)))
    \<and> (\<not> failed \<longrightarrow> (\<forall>a. rgn 3 a = rgn 3 base \<longrightarrow> ept_lookup e2 a \<noteq> None))"
  proof (cases "level > 0 \<and> mmio_range (registry env) (base AND NOT PAGESIZE2M_MASK) 0x200000 = 0")
    case True
    then have r: "vt_ept_map_2mpage env base e1 = (failed, e2)" using m by simp
    note mg = map_2mpage_grown [OF ok1 b(1) conjunct2 [OF True] r]
    have "kept env (\<lambda>a. False) e e2"
      by (rule kept_trans [OF k1 map_2mpage_kept [OF ok1(1,2) _ b(1) r]]) simp
    moreover have "ept_lookup e2 base \<noteq> Some (1, v)" if failed for v
      using mg(3) [OF that] same_tables_lookup [OF mg(4) [OF that]] by simp
    ultimately show ?thesis using grown_trans [OF g1 mg(1)] mg(2) by blast
  next
    case False
    then have f: "failed" "e2 = e1" using m by (auto split: if_splits)
    have "ept_lookup e1 base \<noteq> Some (1, v)" if c: "\<not> cleared e1" for v
    proof
      assume v: "ept_lookup e1 base = Some (1, v)"
      have "level = 1"
        using v ept_lookup_leaf [OF cm(6)] cm(4) by (auto simp: e1 split: if_splits)
      moreover have "mmio_range (registry env) (base AND NOT PAGESIZE2M_MASK) 0x200000 = 0"
        using ok1(3) c v b(1) by (simp add: large_free_def)
      ultimately show False using False by simp
    qed
    then show ?thesis using f k1 g1 by simp
  qed
  note ok2 = keptD(1,2) [OF conjunct1 [OF two]] grown_free [OF conjunct1 [OF conjunct2 [OF two]]]
  consider (large) "\<not> failed" | (small) "failed" "mmio_range (registry env) base 0x1000 = 0"
    | (device) "failed" "mmio_range (registry env) base 0x1000 \<noteq> 0" by blast
  then have "ept_ok e3 \<and> ept_sound env e3 \<and> grown env e e3
    \<and> 0 < unat step \<and> unat step < 2 ^ 34 \<and> (unat base + unat step) mod 0x1000 = 0
    \<and> (\<not> cleared e3 \<longrightarrow> unat base \<le> unat a \<longrightarrow> unat a < unat base + unat step \<longrightarrow> plain_page env a
         \<longrightarrow> ept_lookup e3 a \<noteq> None)"
  proof cases
    case large
    then have s: "step = (base OR PAGESIZE2M_MASK) + 1 - base" "e3 = e2" using sr by auto
    define B where "B = unat base div 0x200000"
    have B: "B * 0x200000 \<le> unat base" "unat base < B * 0x200000 + 0x200000"
      using div_mult_mod_eq [of "unat base" "0x200000"] mod_less_divisor [of "0x200000" "unat base"]
      unfolding B_def by linarith+
    have us: "unat base + unat step = (B + 1) * 0x200000" using large_end [OF b(1)] B(2) by (simp add: s(1) B_def)
    have "ept_lookup e3 a \<noteq> None" if a: "unat base \<le> unat a" "unat a < unat base + unat step"
    proof -
      have "unat a div 0x200000 = B" using a B us by (intro div_nat_eqI) simp_all
      then have "rgn 3 a = rgn 3 base" by (intro rgn_div) (simp add: B_def)
      then show ?thesis using two large s(2) by simp
    qed
    moreover have "(B + 1) * 0x200000 mod 0x1000 = 0" by (simp add: mod_eq_0_iff_dvd)
    ultimately show ?thesis using ok2 two B us unfolding s(2) by auto
  next
    case small
    then have s: "step = PAGESIZE" "vt_ept_map_page_sub env True base e2 = Some e3" using sr by auto
    have nl: "False" if "\<not> cleared e2" "ept_lookup e2 base = Some (1, v)" for v using two small(1) that by blast
    note kp = map_page_sub_kept [OF ok2(1,2) _ b(1) s(2), of "\<lambda>a. False"]
    have "grown env e e3"
      by (rule grown_trans [OF conjunct1 [OF conjunct2 [OF two]] map_sub_grown [OF ok2 b(1) s(2) nl]])
    moreover have "ept_lookup e3 a \<noteq> None" if a: "unat base \<le> unat a" "unat a < unat base + unat step"
    proof -
      have "unat a div 0x1000 = unat base div 0x1000"
        using a al s(1) by (intro div_nat_eqI) (simp_all add: mod_eq_0_iff_dvd dvd_div_mult_self)
      then have "rgn 4 a = rgn 4 base" by (intro rgn_div) simp
      moreover obtain x where "ept_lookup e3 base = Some x" using kp(2) by auto
      moreover have "ept_lookup e3 a = ept_lookup e3 base" by (rule lookup_page [OF calculation(1)])
      ultimately show ?thesis by simp
    qed
    ultimately show ?thesis using keptD(1,2) [OF kp(1)] s(1) al by simp
  next
    case device
    then have s: "step = (mmio_range (registry env) base 0x1000 - base + PAGESIZE - 1) AND NOT PAGESIZE_MASK" "e3 = e2"
      using sr by auto
    note de = device_end [OF mo b device(2), folded s(1)]
    have "(unat base + unat step) mod 0x1000 = 0" using de(3) al by (simp add: mod_add_eq [symmetric] mod_eq_0_iff_dvd)
    then show ?thesis using de ok2(1,2) two unfolding s(2) by blast
  qed
  then show "ept_ok e3" "ept_sound env e3" "grown env e e3"
    and "0 < unat step" "unat step < 2 ^ 34" "(unat base + unat step) mod 0x1000 = 0"
    and "\<not> cleared e3 \<Longrightarrow> unat base \<le> unat a \<Longrightarrow> unat a < unat base + unat step \<Longrightarrow> plain_page env a
         \<Longrightarrow> ept_lookup e3 a \<noteq> None" by blast+
qed


section \<open>The loops over the ranges\<close>

text \<open>The pages from \<open>base\<close> on without registered I/O are mapped, unless the tables have been emptied.\<close>

definition covers :: "ept_env \<Rightarrow> nat \<Rightarrow> nat \<Rightarrow> vt_ept \<Rightarrow> bool" where
  "covers env from to e = (\<not> cleared e \<longrightarrow>
     (\<forall>a. from \<le> unat a \<and> unat a < to \<and> plain_page env a \<longrightarrow> ept_lookup e a \<noteq> None))"

lemma covers_grown: "covers env from to e \<Longrightarrow> grown env e e' \<Longrightarrow> covers env from to e'"
  unfolding covers_def grown_def by blast

lemma covers_join: "covers env x y e \<Longrightarrow> covers env y z e \<Longrightarrow> covers env x z e"
  unfolding covers_def by (metis not_less)

lemma map_range_covers:
  assumes "map_range env base len e = Some r" "unat base + unat len \<le> 2 ^ 48" "len \<noteq> 0 \<longrightarrow> aligned base"
    and "mmio_ok (registry env)" "ept_ok e" "ept_sound env e" "\<not> cleared e \<longrightarrow> large_free env e"
  shows "case r of None \<Rightarrow> True | Some e' \<Rightarrow> ept_ok e' \<and> ept_sound env e' \<and> grown env e e'
    \<and> covers env (unat base) (unat base + unat len) e'"
  using assms
proof (induction rule: map_range.raw_induct [rotated, consumes 1, case_names step])
  case (step loop env base len e r)
  show ?case
  proof (cases "len = 0")
    case True
    then show ?thesis using step.prems step(2) by (auto simp: grown_def covers_def)
  next
    case False
    then have al: "aligned base" using step.prems(2) by simp
    have pos: "0 < unat len" using False by (simp add: unat_gt_0)
    then have b: "unat base < 2 ^ 48" using step.prems(1) by linarith
    obtain level e1 where l: "vt_ept_level base e = (level, e1)" by (cases "vt_ept_level base e")
    obtain failed e2 where m: "(if level > 0 \<and> mmio_range (registry env) (base AND NOT PAGESIZE2M_MASK) 0x200000 = 0
               then vt_ept_map_2mpage env base e1 else (True, e1)) = (failed, e2)" by fastforce
    obtain step0 r3 where sr: "(if \<not> failed then ((base OR PAGESIZE2M_MASK) + 1 - base, Some e2)
               else if mmio_range (registry env) base 0x1000 = 0 then (PAGESIZE, vt_ept_map_page_sub env True base e2)
               else ((mmio_range (registry env) base 0x1000 - base + PAGESIZE - 1) AND NOT PAGESIZE_MASK, Some e2))
               = (step0, r3)" by fastforce
    define size1 where "size1 = (if step0 > len then len else step0)"
    have st: "(case r3 of None \<Rightarrow> Some None | Some e3 \<Rightarrow> loop env (base + size1) (len - size1) e3) = Some r"
      using step(2) False l m sr unfolding size1_def by (simp add: Let_def)
    show ?thesis
    proof (cases r3)
      case None
      then show ?thesis using st by auto
    next
      case (Some e3)
      note rs = range_step [OF step.prems(4-6,3) b al l m sr [unfolded Some]]
      have sz: "unat size1 = min (unat step0) (unat len)" by (simp add: size1_def word_less_nat_alt min_def)
      then have rest: "unat (len - size1) = unat len - unat size1" "unat size1 \<le> unat len"
        by (simp_all add: unat_sub64)
      moreover have nx: "unat (base + size1) = unat base + unat size1"
        using rest(2) step.prems(1) by (simp add: unat_add64)
      ultimately have lim: "unat (base + size1) + unat (len - size1) \<le> 2 ^ 48" using step.prems(1) by simp
      have "aligned (base + size1)" if "len - size1 \<noteq> 0"
      proof -
        have "unat size1 = unat step0" using that sz by (auto simp: min_def unat_eq_zero [symmetric] rest(1) split: if_splits)
        then show ?thesis using rs(6) nx by (simp add: page_aligned_iff)
      qed
      then have al': "len - size1 \<noteq> 0 \<longrightarrow> aligned (base + size1)" by blast
      have lp: "loop env (base + size1) (len - size1) e3 = Some r" using st Some by simp
      note ih = step(1) [OF lp lim al' step.prems(3) rs(1,2) grown_free [OF rs(3)]]
      have c: "covers env (unat base) (unat base + unat size1) e3"
        using rs(7) sz unfolding covers_def by auto
      show ?thesis
      proof (cases r)
        case (Some e')
        then have "covers env (unat base + unat size1) (unat base + unat len) e'" "grown env e3 e'"
          using ih rest(1,2) nx by simp_all
        then show ?thesis
          using ih Some grown_trans [OF rs(3)] covers_join [OF covers_grown [OF c]] by simp
      qed simp
    qed
  qed
qed

text \<open>
  The addresses of the ranges: \<open>getforcemap\<close> is asked for 0, 1, ... until it answers 0.
\<close>

definition forced_addr :: "ept_env \<Rightarrow> u64 \<Rightarrow> bool" where
  "forced_addr env a =
     (\<exists>n \<in> set (takeWhile (\<lambda>n. fst (gmm_pass_getforcemap (gmm env) n) \<noteq> 0) [0..<force_count env]).
        let (nn, base, len) = gmm_pass_getforcemap (gmm env) n
        in base AND NOT PAGESIZE_MASK \<le> a \<and> unat a < unat base + unat len)"

lemma map_ranges_covers:
  "env_ok env \<Longrightarrow> mmio_ok (registry env) \<Longrightarrow> \<forall>n \<in> set ns. n < force_count env \<Longrightarrow> map_ranges env ns e = Some (Some e')
    \<Longrightarrow> ept_ok e \<Longrightarrow> ept_sound env e \<Longrightarrow> \<not> cleared e \<longrightarrow> large_free env e
    \<Longrightarrow> grown env e e' \<and> (\<forall>n \<in> set (takeWhile (\<lambda>n. fst (gmm_pass_getforcemap (gmm env) n) \<noteq> 0) ns).
          let (nn, base, len) = gmm_pass_getforcemap (gmm env) n
          in covers env (unat (base AND NOT PAGESIZE_MASK)) (unat base + unat len) e')"
proof (induction ns arbitrary: e)
  case Nil
  then show ?case by (auto simp: grown_def)
next
  case (Cons n ns)
  obtain nn base len where fm: "gmm_pass_getforcemap (gmm env) n = (nn, base, len)"
    by (cases "gmm_pass_getforcemap (gmm env) n")
  define b0 where "b0 = base AND NOT PAGESIZE_MASK"
  define l0 where "l0 = len + (base AND PAGESIZE_MASK)"
  define r where "r = (if len = 0 then Some (Some e) else map_range env b0 l0 e)"
  have m: "(case r of None \<Rightarrow> None | Some None \<Rightarrow> Some None
      | Some (Some e1) \<Rightarrow> if nn = 0 then Some (Some e1) else map_ranges env ns e1) = Some (Some e')"
    using Cons.prems(4) by (simp only: map_ranges.simps fm Let_def prod.case r_def b0_def l0_def)
  then obtain e1 where e1: "r = Some (Some e1)" by (auto split: option.splits)
  have n: "n < force_count env" using Cons.prems(3) by simp
  have end0: "unat b0 + unat l0 = unat base + unat len" and lim: "unat b0 + unat l0 \<le> 2 ^ 48"
    using forced_end [OF Cons.prems(1) n fm] unfolding b0_def l0_def by simp_all
  have al: "aligned b0" by (simp add: b0_def aligned_def and.assoc)
  have one: "ept_ok e1 \<and> ept_sound env e1 \<and> grown env e e1
    \<and> (nn \<noteq> 0 \<longrightarrow> covers env (unat b0) (unat base + unat len) e1)"
  proof (cases "len = 0")
    case True
    then have "nn = 0" using fm by (auto simp: gmm_pass_getforcemap_def Let_def split: option.splits if_splits)
    then show ?thesis using True e1 Cons.prems by (auto simp: r_def grown_def)
  next
    case False
    have al': "l0 \<noteq> 0 \<longrightarrow> aligned b0" using al by simp
    from map_range_covers [OF _ lim al' Cons.prems(2,5-7)] e1 False show ?thesis
      by (auto simp: r_def end0)
  qed
  show ?case
  proof (cases "nn = 0")
    case True
    then show ?thesis using m e1 one fm by simp
  next
    case False
    then have "map_ranges env ns e1 = Some (Some e')" using m e1 by simp
    note ih = Cons.IH [OF Cons.prems(1,2) _ this]
    have "grown env e1 e' \<and> (\<forall>n \<in> set (takeWhile (\<lambda>n. fst (gmm_pass_getforcemap (gmm env) n) \<noteq> 0) ns).
          let (nn, base, len) = gmm_pass_getforcemap (gmm env) n
          in covers env (unat (base AND NOT PAGESIZE_MASK)) (unat base + unat len) e')"
      by (rule ih) (use Cons.prems(3) one grown_free in auto)
    then show ?thesis
      using one False fm grown_trans covers_grown unfolding b0_def by auto
  qed
qed


lemma forced_range:
  assumes "forced_addr env a"
  obtains n nn base len
  where "n \<in> set (takeWhile (\<lambda>n. fst (gmm_pass_getforcemap (gmm env) n) \<noteq> 0) [0..<force_count env])"
    "n < force_count env" "gmm_pass_getforcemap (gmm env) n = (nn, base, len)"
    "base AND NOT PAGESIZE_MASK \<le> a" "unat a < unat base + unat len"
proof -
  obtain n where n: "n \<in> set (takeWhile (\<lambda>n. fst (gmm_pass_getforcemap (gmm env) n) \<noteq> 0) [0..<force_count env])"
    "let (nn, base, len) = gmm_pass_getforcemap (gmm env) n
        in base AND NOT PAGESIZE_MASK \<le> a \<and> unat a < unat base + unat len"
    using assms unfolding forced_addr_def by blast
  obtain nn base len where r: "gmm_pass_getforcemap (gmm env) n = (nn, base, len)"
    by (cases "gmm_pass_getforcemap (gmm env) n")
  have "n < force_count env" using set_takeWhileD [OF n(1)] by simp
  moreover have "base AND NOT PAGESIZE_MASK \<le> a \<and> unat a < unat base + unat len"
    using n(2) unfolding r Let_def prod.case .
  ultimately show ?thesis using that [OF n(1) _ r] by blast
qed

lemma covers_forced:
  assumes "env_ok env" "forced_addr env a" "plain_page env a" "\<not> cleared e"
    and "\<forall>n \<in> set (takeWhile (\<lambda>n. fst (gmm_pass_getforcemap (gmm env) n) \<noteq> 0) [0..<force_count env]).
          let (nn, base, len) = gmm_pass_getforcemap (gmm env) n
          in covers env (unat (base AND NOT PAGESIZE_MASK)) (unat base + unat len) e"
  shows "ept_lookup e a \<noteq> None"
proof -
  obtain n nn base len where n: "n \<in> set (takeWhile (\<lambda>n. fst (gmm_pass_getforcemap (gmm env) n) \<noteq> 0) [0..<force_count env])"
    "gmm_pass_getforcemap (gmm env) n = (nn, base, len)"
    "base AND NOT PAGESIZE_MASK \<le> a" "unat a < unat base + unat len"
    by (rule forced_range [OF assms(2)])
  have "covers env (unat (base AND NOT PAGESIZE_MASK)) (unat base + unat len) e"
    using bspec [OF assms(5) n(1)] unfolding n(2) Let_def prod.case .
  then show ?thesis using n(3,4) assms(3,4) by (simp add: covers_def word_le_nat_alt)
qed

lemma clear_cleared_covers:
  assumes "env_ok env" "mmio_ok (registry env)" "ept_ok e" "ept_sound env e" "\<forall>gp v. ept_lookup e gp \<noteq> Some (1, v)"
    and "vt_ept_map_page_clear_cleared env e = Some (Some e')"
  shows "\<not> cleared e'" "flushes e' = flushes e"
    and "forced_addr env a \<Longrightarrow> plain_page env a \<Longrightarrow> ept_lookup e' a \<noteq> None"
proof -
  define e0 where "e0 = e\<lparr>cleared := False\<rparr>"
  have slot0: "slot e0 gp d = slot e gp d" for gp d by (rule slot_cong) (simp_all add: e0_def)
  have lk: "ept_lookup e0 gp = ept_lookup e gp" for gp
    by (simp add: ept_lookup_def ept_walk_def e0_def split: prod.split)
  have "ept_tree dp pf e0 = ept_tree dp pf e" for dp pf
    by (simp add: ept_tree_def node_entry_def pool_ok_def e0_def)
  moreover have "path_ok e0 = path_ok e" unfolding path_ok_def slot0 by (simp add: e0_def)
  ultimately have ok0: "ept_ok e0" "ept_sound env e0" using assms(3,4) lk by (simp_all add: ept_ok_def ept_sound_def)
  have f0: "large_free env e0" using assms(5) lk by (simp add: large_free_def)
  have m: "map_ranges env [0..<force_count env] e0 = Some (Some e')" and c: "\<not> cleared e'"
    using assms(6) by (auto simp: vt_ept_map_page_clear_cleared_def e0_def split: option.splits if_splits)
  show "\<not> cleared e'" by (rule c)
  have mr: "grown env e0 e' \<and> (\<forall>n \<in> set (takeWhile (\<lambda>n. fst (gmm_pass_getforcemap (gmm env) n) \<noteq> 0) [0..<force_count env]).
          let (nn, base, len) = gmm_pass_getforcemap (gmm env) n
          in covers env (unat (base AND NOT PAGESIZE_MASK)) (unat base + unat len) e')"
    by (rule map_ranges_covers [OF assms(1,2) _ m ok0]) (use f0 in auto)
  then show "flushes e' = flushes e" using c by (simp add: grown_def) (simp add: e0_def)
  show "ept_lookup e' a \<noteq> None" if "forced_addr env a" "plain_page env a"
    using covers_forced [OF assms(1) that c] mr by blast
qed

lemma forced_48:
  assumes "env_ok env" "forced_addr env a"
  shows "unat a < 2 ^ 48"
proof -
  obtain n nn base len where "n < force_count env" "gmm_pass_getforcemap (gmm env) n = (nn, base, len)"
    "unat a < unat base + unat len"
    by (rule forced_range [OF assms(2)])
  from forced_end(2) [OF assms(1) this(1,2)] this(3) show ?thesis by simp
qed

text \<open>Mapping one page takes away at most the large mapping of its own 2MB block.\<close>

lemma map_sub_keeps_blocks:
  assumes k: "ept_ok e" "ept_sound env e" and g: "unat gphys < 2 ^ 48" "unat a < 2 ^ 48"
    and r: "vt_ept_map_page_sub env write gphys e = Some e'" and fl: "flushes e' = flushes e"
    and a: "ept_lookup e a \<noteq> None" "a AND NOT PAGESIZE2M_MASK \<noteq> gphys AND NOT PAGESIZE2M_MASK"
  shows "ept_lookup e' a \<noteq> None"
proof -
  obtain q e1 where f: "cur_fill gphys 0 (cur_move gphys e) = (q, e1)" by (cases "cur_fill gphys 0 (cur_move gphys e)")
  have e': "e' = e1\<lparr>tables := (tables e1)(q := page_entry env gphys)\<rparr>"
    using r f unfolding vt_ept_map_page_sub_def page_entry_def
    by (cases "gmm_pass_gp2hp (gmm env) gphys") (simp add: Let_def split: if_splits)
  note me = map_entry_spec [OF k(1) _ f, of "page_entry env gphys", folded e', simplified]
  obtain dp pf where t: "ept_tree dp pf e" and po: "path_ok e" using k(1) by (auto simp: ept_ok_def)
  note cm = cur_move_ok [OF t po, of gphys]
  have "ept_lookup e1 a \<noteq> None"
  proof
    assume "ept_lookup e1 a = None"
    then have l: "0 < cur_level (cur_move gphys e)" "ept_lookup e a = ept_lookup e gphys"
      using me(7) [of a] fl a(1) by auto
    obtain lv v where v: "ept_lookup e gphys = Some (lv, v)" using l(2) a(1) by auto
    have "lv = cur_level (cur_move gphys e)"
      using v ept_lookup_leaf [OF cm(6)] same_tables_lookup [OF cm(5)] cm(4) by (auto split: if_splits)
    then have "lv \<noteq> 0" using l(1) by simp
    have "mapping_ok env gphys lv v" "mapping_ok env a lv v"
      using k(2) v l(2) unfolding ept_sound_def by simp_all
    then obtain g0 g1 where
      "rgn 3 gphys = rgn 3 g0" "unat g0 < 2 ^ 48" "v = large_entry env g0" "large_allowed env g0"
      "rgn 3 a = rgn 3 g1" "unat g1 < 2 ^ 48" "v = large_entry env g1" "large_allowed env g1"
      using \<open>lv \<noteq> 0\<close> unfolding mapping_ok_def by auto
    then have "a AND NOT PAGESIZE2M_MASK = gphys AND NOT PAGESIZE2M_MASK"
      using large_entry_parts(1) [of env g0] large_entry_parts(1) [of env g1]
        same_large_block [of gphys g0] same_large_block [of a g1] g by simp
    then show False using a(2) by simp
  qed
  then show ?thesis using me(4) [of a] page_entry_present by auto
qed

lemma map_page_covers:
  assumes "env_ok env" "mmio_ok (registry env)" "ept_ok e" "ept_sound env e" "unat gphys < 2 ^ 48"
    and "cleared e \<longrightarrow> (\<forall>gp. ept_lookup e gp = None)"
    and "vt_ept_map_page env write gphys e = Some (Some e')"
    and "cleared e \<or> flushes e' \<noteq> flushes e"
    and "forced_addr env a" "plain_page env a" "a AND NOT PAGESIZE2M_MASK \<noteq> gphys AND NOT PAGESIZE2M_MASK"
  shows "ept_lookup e' a \<noteq> None"
proof -
  define r1 where "r1 = (if cleared e then vt_ept_map_page_clear_cleared env e else Some (Some e))"
  obtain e1 e2 where e1: "r1 = Some (Some e1)" and e2: "vt_ept_map_page_sub env write gphys e1 = Some e2"
    and e': "(if cleared e2 then vt_ept_map_page_clear_cleared env e2 else Some (Some e2)) = Some (Some e')"
    using assms(7) unfolding vt_ept_map_page_def r1_def [symmetric] by (auto split: option.splits)
  have k1: "kept env (\<lambda>a. False) e e1"
    using e1 clear_cleared_kept [OF assms(1,3,4), of e1 "\<lambda>a. False"] assms(3,4)
    by (auto simp: r1_def kept_def split: if_splits)
  have one: "\<not> cleared e1 \<and> (cleared e \<longrightarrow> ept_lookup e1 a \<noteq> None) \<and> (\<not> cleared e \<longrightarrow> e1 = e)"
  proof (cases "cleared e")
    case True
    then have "vt_ept_map_page_clear_cleared env e = Some (Some e1)" using e1 by (simp add: r1_def)
    note cc = clear_cleared_covers [OF assms(1-4) _ this]
    from True assms(6) have "\<forall>gp v. ept_lookup e gp \<noteq> Some (1, v)" by simp
    then show ?thesis using cc(1) cc(3) [OF _ assms(9,10)] True by blast
  qed (use e1 in \<open>simp add: r1_def\<close>)
  obtain q f1 where f: "cur_fill gphys 0 (cur_move gphys e1) = (q, f1)" by (cases "cur_fill gphys 0 (cur_move gphys e1)")
  have e2': "e2 = f1\<lparr>tables := (tables f1)(q := page_entry env gphys)\<rparr>"
    using e2 f unfolding vt_ept_map_page_sub_def page_entry_def
    by (cases "gmm_pass_gp2hp (gmm env) gphys") (simp add: Let_def split: if_splits)
  note me = map_entry_spec [OF keptD(1) [OF k1] _ f, of "page_entry env gphys", folded e2', simplified]
  have k2: "kept env (\<lambda>a. False) e1 e2"
    by (rule map_page_sub_kept(1) [OF keptD(1,2) [OF k1] _ assms(5) e2]) simp
  show ?thesis
  proof (cases "cleared e2")
    case True
    then have fl: "flushes e2 \<noteq> flushes e1" using me(6) one by (auto split: if_splits)
    have "ept_lookup e2 gp \<noteq> Some (1, v)" for gp v
      using me(4) [of gp] me(7) [of gp] fl by (simp split: if_splits)
    moreover have "vt_ept_map_page_clear_cleared env e2 = Some (Some e')" using e' True by simp
    ultimately show ?thesis
      using clear_cleared_covers(3) [OF assms(1,2) keptD(1,2) [OF k2] _ _ assms(9,10)] by blast
  next
    case False
    then have "e' = e2" "flushes e2 = flushes e1" using e' me(6) by (auto split: if_splits)
    moreover have "cleared e" using assms(8) one calculation by auto
    ultimately show ?thesis
      using map_sub_keeps_blocks [OF keptD(1,2) [OF k1] assms(5) forced_48 [OF assms(1,9)] e2 _ _ assms(11)] one by simp
  qed
qed

section \<open>Reachable states\<close>

text \<open>Tables marked as cleared map nothing.\<close>

lemma map_pages_empty:
  "env_ok env \<Longrightarrow> ept_ok e \<Longrightarrow> ept_sound env e \<Longrightarrow> \<forall>gp \<in> set gps. unat gp < 2 ^ 48
    \<Longrightarrow> map_pages env gps e = Some (Some e') \<Longrightarrow> cleared e \<longrightarrow> (\<forall>gp. ept_lookup e gp = None)
    \<Longrightarrow> cleared e' \<longrightarrow> (\<forall>gp. ept_lookup e' gp = None)"
proof (induction gps arbitrary: e)
  case (Cons gp gps)
  obtain e1 where e1: "(if mmio_access_page (registry env) gp False = Not_mmio
            then vt_ept_map_page env False gp e else Some (Some e)) = Some (Some e1)"
    "map_pages env gps e1 = Some (Some e')"
    using Cons.prems(5) by (auto split: option.splits)
  have "ept_ok e1 \<and> ept_sound env e1 \<and> (cleared e1 \<longrightarrow> (\<forall>gp. ept_lookup e1 gp = None))"
  proof (cases "mmio_access_page (registry env) gp False = Not_mmio")
    case True
    then have mp: "vt_ept_map_page env False gp e = Some (Some e1)" using e1(1) by simp
    show ?thesis using map_page_lemma [OF Cons.prems(1-3) _ mp] Cons.prems(4) by simp
  next
    case False
    then have "e1 = e" using e1(1) by simp
    then show ?thesis using Cons.prems by simp
  qed
  then show ?case using Cons.IH [OF Cons.prems(1) _ _ _ e1(2)] Cons.prems(4) by simp
qed simp

lemma reachable_empty:
  "ept_reachable env e \<Longrightarrow> cleared e \<longrightarrow> (\<forall>gp. ept_lookup e gp = None)"
proof (induction rule: ept_reachable.induct)
  case (init env root pool t)
  have "pool_ok \<lparr>cnt = 0, cleared = True, ncr3tbl = root, tbl = pool, cur_level = EPT_LEVELS, cur_gphys = 0,
      cur_entry = (\<lambda>i. 0), tables = t, flushes = 0\<rparr>"
    using init(2) by (simp add: pool_ok_def vt_ept_init_def)
  from init_ok [OF this] show ?case by simp
next
  case (clear env e env')
  then show ?case using clear_all_ok [of e] reachable_sound by simp
next
  case (violation env e gphys aft_mig found obs wr e' msgs reset)
  then show ?case using map_page_lemma [OF _ _ _ _ violation_maps] reachable_sound by blast
next
  case (map_1mb env e e')
  have ok: "env_ok env" "ept_ok e" using reachable_sound [OF map_1mb(1)] by simp_all
  have "\<forall>gp \<in> set (map (\<lambda>i. of_nat i * PAGESIZE) [0..<256]). unat (gp :: u64) < 2 ^ 48"
    by (auto simp: unat_word_ariths unat_of_nat)
  from map_pages_empty [OF ok(1) _ _ this] map_1mb(2) clear_all_ok [OF ok(2)]
  show ?case by (auto simp: vt_ept_map_1mb_def ept_sound_def)
qed


text \<open>
  C35: When the code has mapped a page for a violation, in any state the tables reach, the walk of
  the address ends in the entry computed for its page, every mapping is one the code computed for
  its own page or block, and the tables are not marked as cleared.  If they were cleared before, or
  the pool of tables ran out on the way, every page of the firmware's ranges is mapped again, other
  than the pages a device is registered on and those of the 2MB block of the violation, whose large
  mapping the new 4KB mapping may have replaced.
\<close>

theorem map_page_result:
  assumes "ept_reachable env e" "mmio_ok (registry env)" "unat gphys < 2 ^ 48"
    and "vt_ept_map_page env write gphys e = Some (Some e')"
  shows "ept_ok e' \<and> ept_sound env e' \<and> \<not> cleared e'
    \<and> (\<exists>g0. same_page gphys g0 \<and> unat g0 < 2 ^ 48 \<and> ept_lookup e' gphys = Some (0, page_entry env g0))
    \<and> (cleared e \<or> flushes e' \<noteq> flushes e \<longrightarrow>
        (\<forall>a. forced_addr env a \<and> plain_page env a \<and> a AND NOT PAGESIZE2M_MASK \<noteq> gphys AND NOT PAGESIZE2M_MASK
          \<longrightarrow> ept_lookup e' a \<noteq> None))"
proof -
  have ok: "env_ok env" "ept_ok e" "ept_sound env e" using reachable_sound [OF assms(1)] by simp_all
  from map_page_lemma [OF ok assms(3,4)]
    map_page_covers [OF ok(1) assms(2) ok(2,3) assms(3) reachable_empty [OF assms(1)] assms(4)]
  show ?thesis by blast
qed

section \<open>An example\<close>

text \<open>As long as the pool lasts no mapping fails.\<close>

lemma fill_tables_room: "fill_tables gp level l p e = (q, e') \<Longrightarrow> cnt e' \<le> cnt e + l \<and> cleared e' = cleared e"
proof (induction l arbitrary: p e)
  case (Suc l)
  show ?case
  proof (cases "level < Suc l")
    case True
    from Suc.prems have "\<exists>t p'. fill_tables gp level l p' (e\<lparr>tables := t, cnt := Suc (cnt e)\<rparr>) = (q, e')"
      unfolding fill_tables.simps Let_def if_P [OF True] by blast
    then show ?thesis using Suc.IH by fastforce
  qed (use Suc.prems in auto)
qed auto

definition with_room :: "vt_ept \<Rightarrow> vt_ept \<Rightarrow> bool" where
  "with_room e e' = (cnt e' \<le> cnt e + 3 \<and> cleared e' = cleared e)"

lemma move_fill_room:
  assumes "ept_ok e" "cnt e + 3 \<le> NUM_OF_EPTBL"
  shows "with_room e (cur_move gp e)"
    and "cur_fill gp level (cur_move gp e) = (q, e') \<Longrightarrow> with_room e e'"
proof -
  obtain dp pf where t: "ept_tree dp pf e" and po: "path_ok e" using assms(1) by (auto simp: ept_ok_def)
  note cm = cur_move_ok [OF t po, of gp]
  have s: "cnt (cur_move gp e) = cnt e" "cleared (cur_move gp e) = cleared e"
    using cm(5) by (simp_all add: same_tables_def)
  then show "with_room e (cur_move gp e)" by (simp add: with_room_def)
  assume f: "cur_fill gp level (cur_move gp e) = (q, e')"
  have "\<not> int (cnt (cur_move gp e)) + int (cur_level (cur_move gp e)) - int level > int NUM_OF_EPTBL"
    using assms(2) cm(4) by (simp add: s(1) NUM_OF_EPTBL_def)
  then have "fill_tables gp level (cur_level (cur_move gp e)) (cur_entry (cur_move gp e) (cur_level (cur_move gp e)))
      (cur_move gp e) = (q, e')"
    using f unfolding cur_fill_def by (simp only: if_False Let_def)
  from fill_tables_room [OF this] show "with_room e e'" using cm(4) s by (simp add: with_room_def)
qed

lemma map_sub_room:
  assumes "ept_ok e" "cnt e + 3 \<le> NUM_OF_EPTBL" "\<not> (snd (gmm_pass_gp2hp (gmm env) gphys) \<and> write)"
  shows "\<exists>e'. vt_ept_map_page_sub env write gphys e = Some e' \<and> with_room e e'"
proof -
  obtain q e1 where f: "cur_fill gphys 0 (cur_move gphys e) = (q, e1)" by (cases "cur_fill gphys 0 (cur_move gphys e)")
  obtain hp fr where g: "gmm_pass_gp2hp (gmm env) gphys = (hp, fr)" by (cases "gmm_pass_gp2hp (gmm env) gphys")
  show ?thesis
    using move_fill_room(2) [OF assms(1,2) f] assms(3)
    by (simp add: vt_ept_map_page_sub_def f g with_room_def Let_def)
qed

lemma map_2mpage_room:
  assumes "ept_ok e" "cnt e + 3 \<le> NUM_OF_EPTBL" "vt_ept_map_2mpage env gphys e = (failed, e')"
  shows "with_room e e'"
proof -
  obtain q e1 where f: "cur_fill gphys 1 (cur_move gphys e) = (q, e1)" by (cases "cur_fill gphys 1 (cur_move gphys e)")
  have "e' = cur_move gphys e \<or> (\<exists>v. e' = e1\<lparr>tables := (tables e1)(q := v)\<rparr>)"
    using assms(3) f by (auto simp: vt_ept_map_2mpage_def Let_def split: if_splits)
  then show ?thesis using move_fill_room [OF assms(1,2)] f by (auto simp: with_room_def)
qed


lemma map_range_room:
  assumes ok: "env_ok env" "ept_ok e" "ept_sound env e" and c: "cnt e + 6 \<le> NUM_OF_EPTBL"
    and b: "unat base < 2 ^ 48" "aligned base" "\<not> snd (gmm_pass_gp2hp (gmm env) base)"
    and io: "mmio_range (registry env) base 0x1000 = 0"
  shows "\<exists>e'. map_range env base 0x1000 e = Some (Some e') \<and> cnt e' \<le> cnt e + 6 \<and> cleared e' = cleared e"
proof -
  obtain dp pf where t: "ept_tree dp pf e" and po: "path_ok e" using ok(2) by (auto simp: ept_ok_def)
  note cm = cur_move_ok [OF t po, of base]
  obtain level e1 where l: "vt_ept_level base e = (level, e1)" by (cases "vt_ept_level base e")
  have e1: "e1 = cur_move base e" using l by (auto simp: vt_ept_level_def Let_def)
  have k1: "kept env (\<lambda>a. False) e e1"
    by (rule same_tables_kept [OF _ ok(2) _ ok(3)]) (use cm(2,5) e1 in simp_all)
  have s1: "cnt e1 = cnt e" "cleared e1 = cleared e" using cm(5) by (simp_all add: e1 same_tables_def)
  define m where "m = (if level > 0 \<and> mmio_range (registry env) (base AND NOT PAGESIZE2M_MASK) 0x200000 = 0
               then vt_ept_map_2mpage env base e1 else (True, e1))"
  obtain failed e2 where m: "m = (failed, e2)" by (cases m)
  have two: "ept_ok e2 \<and> with_room e e2"
  proof (cases "level > 0 \<and> mmio_range (registry env) (base AND NOT PAGESIZE2M_MASK) 0x200000 = 0")
    case True
    then have r: "vt_ept_map_2mpage env base e1 = (failed, e2)" using m by (simp add: m_def)
    have "cnt e1 + 3 \<le> NUM_OF_EPTBL" using c s1 by simp
    from map_2mpage_room [OF keptD(1) [OF k1] this r] keptD(1) [OF map_2mpage_kept [OF keptD(1,2) [OF k1] _ b(1) r]]
    show ?thesis using s1 by (auto simp: with_room_def)
  next
    case False
    then have "m = (True, e1)" unfolding m_def by (rule if_not_P)
    then show ?thesis using m keptD(1) [OF k1] s1 by (simp add: with_room_def)
  qed
  have c2: "cnt e2 + 3 \<le> NUM_OF_EPTBL" using two c by (simp add: with_room_def)
  obtain e3 where e3: "vt_ept_map_page_sub env True base e2 = Some e3" "with_room e2 e3"
    using map_sub_room [OF _ c2, of env base True] two b(3) by auto
  define e4 where "e4 = (if failed then e3 else e2)"
  define z where "z = (base OR PAGESIZE2M_MASK) + 1 - base"
  have big: "0x1000 \<le> z"
  proof -
    obtain B where B: "unat base = B * 0x1000" using b(2) by (metis page_aligned_iff mult.commute mod_0_imp_dvd dvdE)
    have "B * 0x1000 div 0x200000 = B div 512" by simp
    moreover have "B < (B div 512 + 1) * 512"
      using dividend_less_div_times [of 512 B] by simp
    ultimately have "B * 0x1000 + 0x1000 \<le> (B * 0x1000 div 0x200000 + 1) * 0x200000" by simp
    then show ?thesis using large_end [OF b(1)] unfolding z_def [symmetric] by (simp add: word_le_nat_alt B)
  qed
  have "map_range env base 0x1000 e = map_range env (base + 0x1000) 0 e4"
    by (subst map_range.simps, unfold l Let_def prod.case m_def [symmetric] z_def [symmetric] m io)
      (use big e3(1) in \<open>simp add: e4_def not_less order_antisym_conv\<close>)
  also have "\<dots> = Some (Some e4)" by (subst map_range.simps) simp
  finally show ?thesis using two e3(2) by (auto simp: e4_def with_room_def)
qed


text \<open>A firmware with one page to be mapped at once, next to the page of a device.\<close>

definition firmware_env :: ept_env where
  "firmware_env = sample_env\<lparr>gmm := (gmm sample_env)\<lparr>uefi_mmio_space := Some [(0xFEC01000, 1), (0, 0)]\<rparr>\<rparr>"

lemma firmware_parts:
  "env_ok firmware_env" "mmio_ok (registry firmware_env)" "force_count firmware_env = 2"
  "gmm_pass_getforcemap (gmm firmware_env) 0 = (1, 0xFEC01000, 0x1000)"
  "gmm_pass_getforcemap (gmm firmware_env) 1 = (0, 0, 0)"
  "\<not> snd (gmm_pass_gp2hp (gmm firmware_env) 0xFEC01000)" "\<not> snd (gmm_pass_gp2hp (gmm firmware_env) 0x5000)"
  "plain_page firmware_env 0xFEC01000" "forced_addr firmware_env 0xFEC01000"
proof -
  show r: "mmio_ok (registry firmware_env)" using sample_registry_ok by (simp add: firmware_env_def sample_env_ok(4))
  show "force_count firmware_env = 2" "gmm_pass_getforcemap (gmm firmware_env) 0 = (1, 0xFEC01000, 0x1000)"
    "gmm_pass_getforcemap (gmm firmware_env) 1 = (0, 0, 0)"
    by (simp_all add: firmware_env_def sample_env_def force_count_def gmm_pass_getforcemap_def)
  note parts = this
  have ns: "[0..<2] = [0, 1 :: nat]" by (simp add: upt_rec)
  show "forced_addr firmware_env 0xFEC01000"
    unfolding forced_addr_def parts(1) ns using parts(2,3) by simp
  show "env_ok firmware_env" by (auto simp: firmware_env_def sample_env_def env_ok_def less_Suc_eq nth_Cons')
  show "\<not> snd (gmm_pass_gp2hp (gmm firmware_env) 0xFEC01000)" "\<not> snd (gmm_pass_gp2hp (gmm firmware_env) 0x5000)"
    by (simp_all add: firmware_env_def sample_env_def gmm_pass_gp2hp_def phys_in_vmm_def VMMSIZE_ALL_def)
  show "plain_page firmware_env 0xFEC01000"
    by (simp add: plain_page_def firmware_env_def sample_env_ok(4) sample_overlaps)
qed

lemma firmware_map:
  "\<exists>e'. vt_ept_map_page firmware_env False 0x5000 sample_ept = Some (Some e')"
proof -
  have reach: "ept_reachable firmware_env sample_ept"
    unfolding sample_ept_def by (rule ept_reachable.init [OF firmware_parts(1)]) (use sample_pool in \<open>simp add: sample_ept_def\<close>)
  define e0 where "e0 = sample_ept\<lparr>cleared := False\<rparr>"
  have ok: "ept_ok sample_ept" "ept_sound firmware_env sample_ept" using reachable_sound [OF reach] by simp_all
  have slot0: "slot e0 gp d = slot sample_ept gp d" for gp d by (rule slot_cong) (simp_all add: e0_def)
  have lk: "ept_lookup e0 gp = ept_lookup sample_ept gp" for gp
    by (simp add: ept_lookup_def ept_walk_def e0_def split: prod.split)
  have "ept_tree dp pf e0 = ept_tree dp pf sample_ept" for dp pf
    by (simp add: ept_tree_def node_entry_def pool_ok_def e0_def)
  moreover have "path_ok e0 = path_ok sample_ept" unfolding path_ok_def slot0 by (simp add: e0_def)
  ultimately have ok0: "ept_ok e0" "ept_sound firmware_env e0" using ok lk by (simp_all add: ept_ok_def ept_sound_def)
  have c0: "cnt e0 = 0" "\<not> cleared e0" by (simp_all add: e0_def sample_ept_def vt_ept_init_def)
  have io: "mmio_range (registry firmware_env) 0xFEC01000 0x1000 = 0"
    using mmio_range_first [OF sample_registry_ok, of "0x1000" "0xFEC01000"]
    by (simp add: firmware_env_def sample_env_ok(4) sample_overlaps)
  obtain e1 where e1: "map_range firmware_env 0xFEC01000 0x1000 e0 = Some (Some e1)" "cnt e1 \<le> 6" "\<not> cleared e1"
    using map_range_room [OF firmware_parts(1) ok0 _ _ _ firmware_parts(6) io] c0
    by (auto simp: NUM_OF_EPTBL_def aligned_def)
  have ns: "[0..<2] = [0, 1 :: nat]" by (simp add: upt_rec)
  have "map_ranges firmware_env [0..<2] e0 = Some (Some e1)"
    unfolding ns map_ranges.simps firmware_parts(4,5) by (simp add: e1(1))
  then have cc: "vt_ept_map_page_clear_cleared firmware_env sample_ept = Some (Some e1)"
    by (simp add: vt_ept_map_page_clear_cleared_def firmware_parts(3) e0_def [symmetric] e1(3))
  have ok1: "ept_ok e1" using clear_cleared_kept [OF firmware_parts(1) ok cc, of "\<lambda>a. False"] by (simp add: kept_def)
  obtain e2 where e2: "vt_ept_map_page_sub firmware_env False 0x5000 e1 = Some e2" "with_room e1 e2"
    using map_sub_room [OF ok1, of firmware_env "0x5000" False] e1(2) by (auto simp: NUM_OF_EPTBL_def)
  have "cleared sample_ept" by (simp add: sample_ept_def vt_ept_init_def)
  then show ?thesis using e2 e1(3) by (simp add: vt_ept_map_page_def cc with_room_def)
qed

lemma map_page_result_witness:
  "\<exists>e'. vt_ept_map_page firmware_env False 0x5000 sample_ept = Some (Some e') \<and> ept_ok e' \<and> \<not> cleared e'
    \<and> ept_lookup e' 0x5000 \<noteq> None \<and> ept_lookup e' 0xFEC01000 \<noteq> None"
proof -
  obtain e' where e': "vt_ept_map_page firmware_env False 0x5000 sample_ept = Some (Some e')" using firmware_map by blast
  have r: "ept_reachable firmware_env sample_ept"
    unfolding sample_ept_def by (rule ept_reachable.init [OF firmware_parts(1)]) (use sample_pool in \<open>simp add: sample_ept_def\<close>)
  have c: "cleared sample_ept" by (simp add: sample_ept_def vt_ept_init_def)
  have b: "(0xFEC01000 :: u64) AND NOT PAGESIZE2M_MASK \<noteq> 0x5000 AND NOT PAGESIZE2M_MASK" by simp
  have s: "unat (0x5000 :: u64) < 2 ^ 48" by simp
  note mr = map_page_result [OF r firmware_parts(2) s e']
  have "ept_lookup e' 0xFEC01000 \<noteq> None" using mr c firmware_parts(8,9) b by blast
  then show ?thesis using mr e' by auto
qed

end
