(* ===== verification/Vmcs.thy ===== *)
theory Vmcs
  imports Vt_Ept
begin

text \<open>
  The virtual CPU of \<open>core/vt.h\<close> on an Intel processor: the VMCS with \<open>asm_vmread\<close> and
  \<open>asm_vmwrite\<close> (\<open>core/asm.h\<close>), the registers kept outside it (\<open>struct vt_vmentry_regs\<close>), the
  real-mode data, the MSR lists and the flags of \<open>struct vt\<close>.  The build is the 64-bit one, so
  \<open>ulong\<close> is \<open>u64\<close> and \<open>asm_vmread64\<close> is \<open>asm_vmread\<close>.

  Bits 14:13 of the encoding of a VMCS field give its width: the processor keeps that many bits of
  the value written.  The locale \<open>register_file\<close> is the contract of such a store: a register read
  after a write has the kept part of the value, the registers apart from it do not change.  It is
  interpreted on the VMCS, on the general registers here and on the page that carries the CPU state
  in \<open>Cpu_State\<close>.
\<close>

section \<open>Register files\<close>

locale register_file =
  fixes rd :: "'r \<Rightarrow> 's \<Rightarrow> 'v"
    and wr :: "'r \<Rightarrow> 'v \<Rightarrow> 's \<Rightarrow> 's"
    and kept :: "'r \<Rightarrow> 'v \<Rightarrow> 'v"
    and apart :: "'r \<Rightarrow> 'r \<Rightarrow> bool"
  assumes rd_same: "rd r (wr r v s) = kept r v"
    and rd_apart: "apart r q \<Longrightarrow> rd r (wr q v s) = rd r s"
begin

text \<open>A sequence of writes leaves what it does not meet, and the last write of a register counts.\<close>

lemma read_unwritten:
  assumes "list_all (\<lambda>(q, v). apart r q) ws"
  shows "rd r (fold (\<lambda>(q, v). wr q v) ws s) = rd r s"
  using assms by (induction ws arbitrary: s) (auto simp: rd_apart)

lemma read_written:
  assumes "list_all (\<lambda>(q, v). apart r q) after"
  shows "rd r (fold (\<lambda>(q, v). wr q v) (before @ (r, v) # after) s) = kept r v"
  using read_unwritten [OF assms] by (simp add: rd_same)

end

section \<open>VMCS fields\<close>

abbreviation VMCS_GUEST_LDTR_SEL :: u64 where "VMCS_GUEST_LDTR_SEL \<equiv> 0x80C"
abbreviation VMCS_GUEST_TR_SEL :: u64 where "VMCS_GUEST_TR_SEL \<equiv> 0x80E"
abbreviation VMCS_VMEXIT_MSRSTORE_ADDR :: u64 where "VMCS_VMEXIT_MSRSTORE_ADDR \<equiv> 0x2006"
abbreviation VMCS_VMEXIT_MSRLOAD_ADDR :: u64 where "VMCS_VMEXIT_MSRLOAD_ADDR \<equiv> 0x2008"
abbreviation VMCS_VMENTRY_MSRLOAD_ADDR :: u64 where "VMCS_VMENTRY_MSRLOAD_ADDR \<equiv> 0x200A"
abbreviation VMCS_GUEST_IA32_PAT :: u64 where "VMCS_GUEST_IA32_PAT \<equiv> 0x2804"
abbreviation VMCS_GUEST_IA32_EFER :: u64 where "VMCS_GUEST_IA32_EFER \<equiv> 0x2806"
abbreviation VMCS_GUEST_PDPTE0 :: u64 where "VMCS_GUEST_PDPTE0 \<equiv> 0x280A"
abbreviation VMCS_GUEST_PDPTE1 :: u64 where "VMCS_GUEST_PDPTE1 \<equiv> 0x280C"
abbreviation VMCS_GUEST_PDPTE2 :: u64 where "VMCS_GUEST_PDPTE2 \<equiv> 0x280E"
abbreviation VMCS_GUEST_PDPTE3 :: u64 where "VMCS_GUEST_PDPTE3 \<equiv> 0x2810"
abbreviation VMCS_HOST_IA32_PAT :: u64 where "VMCS_HOST_IA32_PAT \<equiv> 0x2C00"
abbreviation VMCS_PROC_BASED_VMEXEC_CTL :: u64 where "VMCS_PROC_BASED_VMEXEC_CTL \<equiv> 0x4002"
abbreviation VMCS_EXCEPTION_BMP :: u64 where "VMCS_EXCEPTION_BMP \<equiv> 0x4004"
abbreviation VMCS_VMEXIT_CTL :: u64 where "VMCS_VMEXIT_CTL \<equiv> 0x400C"
abbreviation VMCS_VMEXIT_MSR_STORE_COUNT :: u64 where "VMCS_VMEXIT_MSR_STORE_COUNT \<equiv> 0x400E"
abbreviation VMCS_VMEXIT_MSR_LOAD_COUNT :: u64 where "VMCS_VMEXIT_MSR_LOAD_COUNT \<equiv> 0x4010"
abbreviation VMCS_VMENTRY_CTL :: u64 where "VMCS_VMENTRY_CTL \<equiv> 0x4012"
abbreviation VMCS_VMENTRY_MSR_LOAD_COUNT :: u64 where "VMCS_VMENTRY_MSR_LOAD_COUNT \<equiv> 0x4014"
abbreviation VMCS_PROC_BASED_VMEXEC_CTL2 :: u64 where "VMCS_PROC_BASED_VMEXEC_CTL2 \<equiv> 0x401E"
abbreviation VMCS_GUEST_LDTR_LIMIT :: u64 where "VMCS_GUEST_LDTR_LIMIT \<equiv> 0x480C"
abbreviation VMCS_GUEST_TR_LIMIT :: u64 where "VMCS_GUEST_TR_LIMIT \<equiv> 0x480E"
abbreviation VMCS_GUEST_GDTR_LIMIT :: u64 where "VMCS_GUEST_GDTR_LIMIT \<equiv> 0x4810"
abbreviation VMCS_GUEST_IDTR_LIMIT :: u64 where "VMCS_GUEST_IDTR_LIMIT \<equiv> 0x4812"
abbreviation VMCS_GUEST_LDTR_ACCESS_RIGHTS :: u64 where "VMCS_GUEST_LDTR_ACCESS_RIGHTS \<equiv> 0x4820"
abbreviation VMCS_GUEST_TR_ACCESS_RIGHTS :: u64 where "VMCS_GUEST_TR_ACCESS_RIGHTS \<equiv> 0x4822"
abbreviation VMCS_GUEST_IA32_SYSENTER_CS :: u64 where "VMCS_GUEST_IA32_SYSENTER_CS \<equiv> 0x482A"
abbreviation VMCS_CR0_READ_SHADOW :: u64 where "VMCS_CR0_READ_SHADOW \<equiv> 0x6004"
abbreviation VMCS_CR4_READ_SHADOW :: u64 where "VMCS_CR4_READ_SHADOW \<equiv> 0x6006"
abbreviation VMCS_GUEST_CR0 :: u64 where "VMCS_GUEST_CR0 \<equiv> 0x6800"
abbreviation VMCS_GUEST_CR3 :: u64 where "VMCS_GUEST_CR3 \<equiv> 0x6802"
abbreviation VMCS_GUEST_CR4 :: u64 where "VMCS_GUEST_CR4 \<equiv> 0x6804"
abbreviation VMCS_GUEST_LDTR_BASE :: u64 where "VMCS_GUEST_LDTR_BASE \<equiv> 0x6812"
abbreviation VMCS_GUEST_TR_BASE :: u64 where "VMCS_GUEST_TR_BASE \<equiv> 0x6814"
abbreviation VMCS_GUEST_GDTR_BASE :: u64 where "VMCS_GUEST_GDTR_BASE \<equiv> 0x6816"
abbreviation VMCS_GUEST_IDTR_BASE :: u64 where "VMCS_GUEST_IDTR_BASE \<equiv> 0x6818"
abbreviation VMCS_GUEST_DR7 :: u64 where "VMCS_GUEST_DR7 \<equiv> 0x681A"
abbreviation VMCS_GUEST_RSP :: u64 where "VMCS_GUEST_RSP \<equiv> 0x681C"
abbreviation VMCS_GUEST_RIP :: u64 where "VMCS_GUEST_RIP \<equiv> 0x681E"
abbreviation VMCS_GUEST_RFLAGS :: u64 where "VMCS_GUEST_RFLAGS \<equiv> 0x6820"
abbreviation VMCS_GUEST_IA32_SYSENTER_ESP :: u64 where "VMCS_GUEST_IA32_SYSENTER_ESP \<equiv> 0x6824"
abbreviation VMCS_GUEST_IA32_SYSENTER_EIP :: u64 where "VMCS_GUEST_IA32_SYSENTER_EIP \<equiv> 0x6826"

text \<open>The segment registers and their four fields.\<close>

datatype sreg = SREG_ES | SREG_CS | SREG_SS | SREG_DS | SREG_FS | SREG_GS

fun VMCS_GUEST_SEL :: "sreg \<Rightarrow> u64" where
  "VMCS_GUEST_SEL SREG_ES = 0x800"
| "VMCS_GUEST_SEL SREG_CS = 0x802"
| "VMCS_GUEST_SEL SREG_SS = 0x804"
| "VMCS_GUEST_SEL SREG_DS = 0x806"
| "VMCS_GUEST_SEL SREG_FS = 0x808"
| "VMCS_GUEST_SEL SREG_GS = 0x80A"

fun VMCS_GUEST_LIMIT :: "sreg \<Rightarrow> u64" where
  "VMCS_GUEST_LIMIT SREG_ES = 0x4800"
| "VMCS_GUEST_LIMIT SREG_CS = 0x4802"
| "VMCS_GUEST_LIMIT SREG_SS = 0x4804"
| "VMCS_GUEST_LIMIT SREG_DS = 0x4806"
| "VMCS_GUEST_LIMIT SREG_FS = 0x4808"
| "VMCS_GUEST_LIMIT SREG_GS = 0x480A"

fun VMCS_GUEST_ACCESS_RIGHTS :: "sreg \<Rightarrow> u64" where
  "VMCS_GUEST_ACCESS_RIGHTS SREG_ES = 0x4814"
| "VMCS_GUEST_ACCESS_RIGHTS SREG_CS = 0x4816"
| "VMCS_GUEST_ACCESS_RIGHTS SREG_SS = 0x4818"
| "VMCS_GUEST_ACCESS_RIGHTS SREG_DS = 0x481A"
| "VMCS_GUEST_ACCESS_RIGHTS SREG_FS = 0x481C"
| "VMCS_GUEST_ACCESS_RIGHTS SREG_GS = 0x481E"

fun VMCS_GUEST_BASE :: "sreg \<Rightarrow> u64" where
  "VMCS_GUEST_BASE SREG_ES = 0x6806"
| "VMCS_GUEST_BASE SREG_CS = 0x6808"
| "VMCS_GUEST_BASE SREG_SS = 0x680A"
| "VMCS_GUEST_BASE SREG_DS = 0x680C"
| "VMCS_GUEST_BASE SREG_FS = 0x680E"
| "VMCS_GUEST_BASE SREG_GS = 0x6810"

fun SW_SREG_BIT :: "sreg \<Rightarrow> u32" where
  "SW_SREG_BIT SREG_ES = 0x1"
| "SW_SREG_BIT SREG_CS = 0x2"
| "SW_SREG_BIT SREG_SS = 0x4"
| "SW_SREG_BIT SREG_DS = 0x8"
| "SW_SREG_BIT SREG_FS = 0x10"
| "SW_SREG_BIT SREG_GS = 0x20"

text \<open>The order in which the code goes through the segment registers.\<close>

abbreviation sregs :: "sreg list" where
  "sregs \<equiv> [SREG_ES, SREG_CS, SREG_SS, SREG_DS, SREG_FS, SREG_GS]"

section \<open>The virtual CPU\<close>

datatype general_reg =
    GENERAL_REG_RAX | GENERAL_REG_RCX | GENERAL_REG_RDX | GENERAL_REG_RBX
  | GENERAL_REG_RSP | GENERAL_REG_RBP | GENERAL_REG_RSI | GENERAL_REG_RDI
  | GENERAL_REG_R8 | GENERAL_REG_R9 | GENERAL_REG_R10 | GENERAL_REG_R11
  | GENERAL_REG_R12 | GENERAL_REG_R13 | GENERAL_REG_R14 | GENERAL_REG_R15

record vt_msr_entry =
  me_index :: u32
  me_reserved :: u32
  me_data :: u64

text \<open>
  Who owns the MSRs of the 64-bit system calls: \<open>release_process64_msrs\<close> of the processor, which is
  null, the function of the processes, or the one of this virtual CPU.
\<close>

datatype msr_owner = No_owner | Process_owner | Vcpu_owner

text \<open>The invalidations of the translation caches, in order.\<close>

datatype tlb_op = Invvpid u16 | Invept

text \<open>The calls to \<open>core/localapic.c\<close>, in order.\<close>

datatype apic_op = Change_base_msr u64 | X2apic_icr u64

text \<open>
  \<open>struct vt\<close>, with the fields of \<open>vr\<close>, \<open>realmode\<close>, \<open>intr\<close> and \<open>msr\<close> that the model needs (\<open>first\<close>
  is \<open>first_run\<close>), and of \<open>struct vcpu\<close> the flag \<open>halt\<close> (\<open>halted\<close>).  \<open>gpr\<close> holds the
  general registers of \<open>vr\<close> (RSP is in the VMCS); the C flags that only take the values of a
  comparison are \<open>bool\<close>; \<open>nmi_cnt\<close> counts the NMIs that have come (\<open>core/nmi_pass.c\<close>).  The last
  fields are the rest of the machine: the data of the virtual machine the page tables use (with the
  caches and the processor's MSRs), the owner of the system call MSRs, the memory of the
  guest, the rule by which \<open>wrmsr\<close> refuses a value, the offset of the time stamp counter,
  the calls to the local APIC code, and the content of an uninitialised local variable.  \<open>spt_regs\<close>
  holds the registers for which the shadow page tables (\<open>core/cpu_mmu_spt.c\<close>) were built.
\<close>

record vcpu =
  vmcs :: "u64 \<Rightarrow> u64"
  gpr :: "general_reg \<Rightarrow> u64"
  cr2 :: u64
  vr_cr3 :: u64
  re :: bool
  pg :: bool
  sw_enable :: u32
  sw_num :: int
  sw_sel :: "sreg \<Rightarrow> u16"
  rm_idtr_base :: u64
  rm_idtr_limit :: u16
  rm_tr_limit :: u64
  rm_tr_acr :: u64
  rm_tr_base :: u64
  msr_vmm :: "vt_msr_entry list"
  msr_guest :: "vt_msr_entry list"
  msr_efer :: int
  msr_star :: u64
  msr_lstar :: u64
  msr_cstar :: u64
  msr_fmask :: u64
  msr_kerngs :: u64
  msrbmp :: "nat \<Rightarrow> u8"
  ept :: "vt_ept option"
  lme :: bool
  lma :: bool
  vpid :: u16
  spt_cr3 :: u64
  handle_pagefault :: bool
  invept_available :: bool
  unrestricted_guest :: bool
  save_load_efer_enable :: bool
  ept_available :: bool
  unrestricted_guest_available :: bool
  exint_pass :: bool
  exint_pending :: bool
  exint_update :: bool
  exint_re_pending :: bool
  cr3exit_controllable :: bool
  cr3exit_off :: bool
  updateip :: bool
  first_run :: bool
  halted :: bool
  intr_info :: u32
  intr_errcode :: u32
  intr_len :: u32
  nmi_cnt :: nat
  tlb_log :: "tlb_op list"
  spt_cr3tbl_phys :: u64
  spt_regs :: "u64 \<times> u64 \<times> u64 \<times> u64"
  head_phys :: u64
  menv :: ept_env
  msr_release :: msr_owner
  gmem :: physmem
  wrmsr_gp :: "u64 \<Rightarrow> u64 \<Rightarrow> bool"
  tsc_offset :: u64
  apic_log :: "apic_op list"
  uninit :: u64

text \<open>The number of bits the processor keeps of a field, from its encoding.\<close>

definition vmcs_width :: "u64 \<Rightarrow> nat" where
  "vmcs_width index =
     (let w = drop_bit 13 index AND 3
      in if w = 0 then 16 else if w = 2 then 32 else 64)"

definition vmcs_kept :: "u64 \<Rightarrow> u64 \<Rightarrow> u64" where
  "vmcs_kept index val = take_bit (vmcs_width index) val"

definition asm_vmread :: "u64 \<Rightarrow> vcpu \<Rightarrow> u64" where
  "asm_vmread index s = vmcs s index"

definition asm_vmwrite :: "u64 \<Rightarrow> u64 \<Rightarrow> vcpu \<Rightarrow> vcpu" where
  "asm_vmwrite index val s = s\<lparr>vmcs := (vmcs s)(index := vmcs_kept index val)\<rparr>"

abbreviation asm_vmread64 :: "u64 \<Rightarrow> vcpu \<Rightarrow> u64" where "asm_vmread64 \<equiv> asm_vmread"
abbreviation asm_vmwrite64 :: "u64 \<Rightarrow> u64 \<Rightarrow> vcpu \<Rightarrow> vcpu" where "asm_vmwrite64 \<equiv> asm_vmwrite"

text \<open>Changing a control field: read, change, write.\<close>

definition vmcs_change :: "u64 \<Rightarrow> (u64 \<Rightarrow> u64) \<Rightarrow> vcpu \<Rightarrow> vcpu" where
  "vmcs_change index f s = asm_vmwrite index (f (asm_vmread index s)) s"

text \<open>\<open>vt_read_general_reg\<close> and \<open>vt_write_general_reg\<close> of \<open>core/vt_regs.c\<close>.\<close>

definition vt_read_general_reg :: "general_reg \<Rightarrow> vcpu \<Rightarrow> u64" where
  "vt_read_general_reg reg s = (if reg = GENERAL_REG_RSP then asm_vmread VMCS_GUEST_RSP s else gpr s reg)"

definition vt_write_general_reg :: "general_reg \<Rightarrow> u64 \<Rightarrow> vcpu \<Rightarrow> vcpu" where
  "vt_write_general_reg reg val s =
     (if reg = GENERAL_REG_RSP then asm_vmwrite VMCS_GUEST_RSP val s else s\<lparr>gpr := (gpr s)(reg := val)\<rparr>)"

section \<open>Reads after writes\<close>

named_theorems vmcs_simps \<open>reads of the VMCS over its writes\<close>

lemma vmread_vmwrite [vmcs_simps]:
  "asm_vmread i (asm_vmwrite j v s) = (if i = j then vmcs_kept i v else asm_vmread i s)"
  by (simp add: asm_vmread_def asm_vmwrite_def)

lemma vmread_change [vmcs_simps]:
  "asm_vmread i (vmcs_change j f s) = (if i = j then vmcs_kept i (f (asm_vmread i s)) else asm_vmread i s)"
  by (simp add: vmcs_change_def vmread_vmwrite)

lemma vmcs_kept_width:
  "vmcs_width i = 64 \<Longrightarrow> vmcs_kept i v = v"
  "vmcs_kept i (vmcs_kept i v) = vmcs_kept i v"
  by (simp_all add: vmcs_kept_def take_bit_word_eq_self)

interpretation vmcs_file: register_file asm_vmread asm_vmwrite vmcs_kept "(\<noteq>)"
  by unfold_locales (simp_all add: vmread_vmwrite)

interpretation general_file: register_file vt_read_general_reg vt_write_general_reg "\<lambda>_ v. v" "(\<noteq>)"
  by unfold_locales
    (auto simp: vt_read_general_reg_def vt_write_general_reg_def vmread_vmwrite vmcs_kept_def vmcs_width_def
       take_bit_word_eq_self asm_vmread_def asm_vmwrite_def)

end
