(* ===== verification/Vt_Paging.thy ===== *)
theory Vt_Paging
  imports Vmcs
begin

text \<open>
  The choice between extended and shadow page tables (\<open>core/vt_paging.c\<close>), with the parts of other
  files it rests on: the reads of the control registers (\<open>core/vt_regs.h\<close>), \<open>vt_ept_updatecr3\<close>
  (\<open>core/vt_ept.c\<close>) and \<open>vt_update_exception_bmp\<close> (\<open>core/vt_main.c\<close>).  The configuration is the
  repository's: shadow page tables are not disabled and use PAE.  Of the shadow page tables
  (\<open>core/cpu_mmu_spt.c\<close>) only the root they put into the VMCS is modelled, and when they do it.
\<close>

abbreviation CR0_PE_BIT :: u64 where "CR0_PE_BIT \<equiv> 0x1"
abbreviation CR0_TS_BIT :: u64 where "CR0_TS_BIT \<equiv> 0x8"
abbreviation CR0_ET_BIT :: u64 where "CR0_ET_BIT \<equiv> 0x10"
abbreviation CR0_WP_BIT :: u64 where "CR0_WP_BIT \<equiv> 0x10000"
abbreviation CR0_PG_BIT :: u64 where "CR0_PG_BIT \<equiv> 0x80000000"
abbreviation CR4_PAE_BIT :: u64 where "CR4_PAE_BIT \<equiv> 0x20"
abbreviation MSR_IA32_PAT :: u64 where "MSR_IA32_PAT \<equiv> 0x277"
abbreviation CTL2_ENABLE_EPT_BIT :: u64 where "CTL2_ENABLE_EPT_BIT \<equiv> 0x2"
abbreviation CTL2_UNRESTRICTED_GUEST_BIT :: u64 where "CTL2_UNRESTRICTED_GUEST_BIT \<equiv> 0x80"
abbreviation VMEXIT_SAVE_LOAD_PAT :: u64 where "VMEXIT_SAVE_LOAD_PAT \<equiv> 0xC0000"
abbreviation VMENTRY_LOAD_PAT_BIT :: u64 where "VMENTRY_LOAD_PAT_BIT \<equiv> 0x4000"
abbreviation CTL_INVLPGEXIT_BIT :: u64 where "CTL_INVLPGEXIT_BIT \<equiv> 0x200"
abbreviation CTL_CR3LOADEXIT_BIT :: u64 where "CTL_CR3LOADEXIT_BIT \<equiv> 0x8000"
abbreviation CTL_CR3STOREEXIT_BIT :: u64 where "CTL_CR3STOREEXIT_BIT \<equiv> 0x10000"

text \<open>
  The bits of CR0 and CR4 the hypervisor owns: the complement in 32 bits of MP, EM, TS, NE and AM,
  and of VME, PVI, TSD, DE, MCE, PCE, OSFXSR and OSXMMEXCPT.
\<close>

definition VT_CR0_GUESTHOST_MASK :: u64 where
  "VT_CR0_GUESTHOST_MASK = 0xFFFFFFFF XOR 0x2 XOR 0x4 XOR 0x8 XOR 0x20 XOR 0x40000"

definition VT_CR4_GUESTHOST_MASK :: u64 where
  "VT_CR4_GUESTHOST_MASK = 0xFFFFFFFF XOR 0x1 XOR 0x2 XOR 0x4 XOR 0x8 XOR 0x40 XOR 0x100 XOR 0x200 XOR 0x400"

section \<open>Reading the control registers\<close>

definition vt_read_cr :: "u64 \<Rightarrow> u64 \<Rightarrow> u64 \<Rightarrow> vcpu \<Rightarrow> u64" where
  "vt_read_cr hmask index_1 index_0 s =
     (asm_vmread index_1 s AND hmask) OR (asm_vmread index_0 s AND NOT hmask)"

definition vt_read_cr0 :: "vcpu \<Rightarrow> u64" where
  "vt_read_cr0 s = vt_read_cr VT_CR0_GUESTHOST_MASK VMCS_CR0_READ_SHADOW VMCS_GUEST_CR0 s"

definition vt_read_cr4 :: "vcpu \<Rightarrow> u64" where
  "vt_read_cr4 s = vt_read_cr VT_CR4_GUESTHOST_MASK VMCS_CR4_READ_SHADOW VMCS_GUEST_CR4 s"

definition vt_read_cr3 :: "vcpu \<Rightarrow> u64" where
  "vt_read_cr3 s = (if cr3exit_off s then asm_vmread VMCS_GUEST_CR3 s else vr_cr3 s)"

definition vt_write_cr3 :: "u64 \<Rightarrow> vcpu \<Rightarrow> vcpu" where
  "vt_write_cr3 val s = (if cr3exit_off s then asm_vmwrite VMCS_GUEST_CR3 val s else s\<lparr>vr_cr3 := val\<rparr>)"

section \<open>Reading EFER\<close>

abbreviation EFER_LME_BIT :: u64 where "EFER_LME_BIT \<equiv> 0x100"
abbreviation EFER_LMA_BIT :: u64 where "EFER_LMA_BIT \<equiv> 0x400"

definition vt_read_guest_msr :: "int \<Rightarrow> vcpu \<Rightarrow> u64 option" where
  "vt_read_guest_msr i s = (if i \<ge> 0 then Some (me_data (msr_guest s ! nat i)) else None)"

definition read_guest_efer :: "vcpu \<Rightarrow> u64 option" where
  "read_guest_efer s =
     (if \<not> save_load_efer_enable s then vt_read_guest_msr (msr_efer s) s
      else Some (asm_vmread64 VMCS_GUEST_IA32_EFER s))"

text \<open>EFER as the guest sees it, the branch \<open>MSR_IA32_EFER\<close> of \<open>vt_read_msr\<close>; \<open>None\<close> is a fault.\<close>

definition vt_read_efer :: "vcpu \<Rightarrow> u64 option" where
  "vt_read_efer s =
     (case read_guest_efer s of
        None \<Rightarrow> None
      | Some val \<Rightarrow>
          let val = val AND NOT (EFER_LME_BIT OR EFER_LMA_BIT);
              val = (if lme s then val OR EFER_LME_BIT else val);
              val = (if lma s then val OR EFER_LMA_BIT else val)
          in Some val)"

section \<open>Extended or shadow page tables\<close>

definition ept_enabled :: "vcpu \<Rightarrow> bool" where
  "ept_enabled s = ((pg s \<or> unrestricted_guest s) \<and> ept s \<noteq> None)"

definition vt_paging_flush_guest_tlb :: "vcpu \<Rightarrow> vcpu" where
  "vt_paging_flush_guest_tlb s =
     (let s = (if vpid s \<noteq> 0 then s\<lparr>tlb_log := tlb_log s @ [Invvpid (vpid s)]\<rparr> else s)
      in if ept_enabled s \<and> invept_available s then s\<lparr>tlb_log := tlb_log s @ [Invept]\<rparr> else s)"

text \<open>\<open>vt_ept_clear_all\<close> on the tables of the virtual CPU, with its flush.\<close>

definition ept_clear_all :: "vcpu \<Rightarrow> vcpu" where
  "ept_clear_all s = vt_paging_flush_guest_tlb (s\<lparr>ept := map_option vt_ept_clear_all (ept s)\<rparr>)"

definition vt_update_exception_bmp :: "vcpu \<Rightarrow> vcpu" where
  "vt_update_exception_bmp s =
     (let newbmp = (if \<not> re s \<and> sw_enable s = 0
                    then (if handle_pagefault s then 0x4 OR 0x4000 else 0x4)
                    else 0xFFFFFFFF)
      in asm_vmwrite VMCS_EXCEPTION_BMP newbmp s)"

definition vt_update_vmcs_guest_cr3 :: "vcpu \<Rightarrow> vcpu" where
  "vt_update_vmcs_guest_cr3 s = (if \<not> cr3exit_off s then asm_vmwrite VMCS_GUEST_CR3 (vr_cr3 s) s else s)"

definition vt_paging_spt_setcr3 :: "u64 \<Rightarrow> vcpu \<Rightarrow> vcpu" where
  "vt_paging_spt_setcr3 cr3 s =
     (let s = s\<lparr>spt_cr3 := cr3\<rparr>
      in if \<not> ept_enabled s then asm_vmwrite VMCS_GUEST_CR3 cr3 s else s)"

text \<open>
  What the shadow page tables (\<open>CPU_MMU_SPT_3\<close>) do to the VMCS: their root.  An update builds them
  again only when a control register or EFER has changed since the last time; a failed read of EFER
  leaves its variable uninitialised.
\<close>

definition spt_init :: "u64 \<Rightarrow> vcpu \<Rightarrow> vcpu" where
  "spt_init page s = s\<lparr>spt_cr3tbl_phys := page, spt_regs := (NOT 0, 0, 0, 0)\<rparr>"

definition spt_clear_all :: "vcpu \<Rightarrow> vcpu" where
  "spt_clear_all s = vt_paging_spt_setcr3 (spt_cr3tbl_phys s) s"

definition spt_state :: "vcpu \<Rightarrow> u64 \<times> u64 \<times> u64 \<times> u64" where
  "spt_state s =
     (vt_read_cr0 s, vt_read_cr3 s, vt_read_cr4 s,
      case vt_read_efer s of None \<Rightarrow> uninit s | Some efer \<Rightarrow> efer)"

definition spt_update_cr3 :: "vcpu \<Rightarrow> vcpu" where
  "spt_update_cr3 s =
     (if spt_state s = spt_regs s then s
      else vt_paging_spt_setcr3 (spt_cr3tbl_phys s) (s\<lparr>spt_regs := spt_state s\<rparr>))"

definition spt_updatecr3 :: "vcpu \<Rightarrow> vcpu" where
  "spt_updatecr3 s = vt_paging_flush_guest_tlb (spt_update_cr3 s)"

text \<open>\<open>read_gphys_q\<close> where the guest's tables are: in its memory, outside the ranges of the MMIO handlers and of the VMM.\<close>

definition gphys_q :: "vcpu \<Rightarrow> u64 \<Rightarrow> u64" where
  "gphys_q s phys = load64 0 (read_phys phys 8 (gmem s) (\<lambda>_. 0))"

text \<open>
  \<open>vt_ept_updatecr3\<close>: with 32-bit PAE paging the processor needs the four PDPTEs, read from the
  guest's memory at CR3.
\<close>

definition vt_ept_updatecr3 :: "vcpu \<Rightarrow> vcpu" where
  "vt_ept_updatecr3 s =
     (let s = vt_paging_flush_guest_tlb s
      in if \<not> lma s \<and> pg s \<and> asm_vmread VMCS_CR4_READ_SHADOW s AND CR4_PAE_BIT \<noteq> 0 then
           let cr3 = asm_vmread VMCS_GUEST_CR3 s AND 0xFFFFFFE0;
               s = asm_vmwrite64 VMCS_GUEST_PDPTE0 (gphys_q s cr3) s;
               s = asm_vmwrite64 VMCS_GUEST_PDPTE1 (gphys_q s (cr3 + 0x8)) s;
               s = asm_vmwrite64 VMCS_GUEST_PDPTE2 (gphys_q s (cr3 + 0x10)) s
           in asm_vmwrite64 VMCS_GUEST_PDPTE3 (gphys_q s (cr3 + 0x18)) s
         else s)"

definition vt_paging_updatecr3 :: "vcpu \<Rightarrow> vcpu" where
  "vt_paging_updatecr3 s =
     (if ept_enabled s then vt_ept_updatecr3 (vt_update_vmcs_guest_cr3 s) else spt_updatecr3 s)"

definition vt_paging_clear_all :: "vcpu \<Rightarrow> vcpu" where
  "vt_paging_clear_all s =
     (let s = (if ept s \<noteq> None then ept_clear_all s else s)
      in if \<not> unrestricted_guest s then spt_clear_all s else s)"

text \<open>The exits: \<open>None\<close> is a panic.\<close>

definition vt_paging_pagefault :: "(vcpu \<Rightarrow> vcpu) \<Rightarrow> vcpu \<Rightarrow> vcpu option" where
  "vt_paging_pagefault spt_pagefault s = (if ept_enabled s then None else Some (spt_pagefault s))"

definition vt_paging_invalidate :: "(u64 \<Rightarrow> vcpu \<Rightarrow> vcpu) \<Rightarrow> u64 \<Rightarrow> vcpu \<Rightarrow> vcpu option" where
  "vt_paging_invalidate spt_invalidate addr s =
     (if ept_enabled s then None else Some (spt_invalidate addr s))"

definition vt_paging_npf ::
  "bool \<Rightarrow> bool \<Rightarrow> (bool \<times> bool) list \<Rightarrow> bool \<Rightarrow> u64 \<Rightarrow> vcpu \<Rightarrow> (violation \<times> u64 list list \<times> bool) option" where
  "vt_paging_npf aft_mig found obs write gphys s =
     (if ept_enabled s
      then map_option (vt_ept_violation (menv s) aft_mig found obs write gphys) (ept s)
      else None)"

text \<open>The PAT of the guest; the result \<open>True\<close> is a fault.\<close>

definition vt_paging_get_gpat :: "vcpu \<Rightarrow> u64 option" where
  "vt_paging_get_gpat s = cache_get_gpat (cache (menv s))"

definition vt_paging_set_gpat :: "u64 \<Rightarrow> vcpu \<Rightarrow> bool \<times> vcpu" where
  "vt_paging_set_gpat pat s =
     (let (r, s) = (case cache_set_gpat pat (cache (menv s)) of
                      None \<Rightarrow> (True, s)
                    | Some c \<Rightarrow> (False, s\<lparr>menv := (menv s)\<lparr>cache := c\<rparr>\<rparr>));
          s = (if \<not> unrestricted_guest s then spt_clear_all s else s)
      in (r, if \<not> r \<and> ept_enabled s then asm_vmwrite64 VMCS_GUEST_IA32_PAT pat s else s))"

section \<open>Fixed bits\<close>

abbreviation rdmsr :: "u64 \<Rightarrow> vcpu \<Rightarrow> u64" where
  "rdmsr index s \<equiv> hw_msr (cache (menv s)) index"

abbreviation MSR_IA32_VMX_CR0_FIXED0 :: u64 where "MSR_IA32_VMX_CR0_FIXED0 \<equiv> 0x486"
abbreviation MSR_IA32_VMX_CR0_FIXED1 :: u64 where "MSR_IA32_VMX_CR0_FIXED1 \<equiv> 0x487"
abbreviation MSR_IA32_VMX_CR4_FIXED0 :: u64 where "MSR_IA32_VMX_CR4_FIXED0 \<equiv> 0x488"
abbreviation MSR_IA32_VMX_CR4_FIXED1 :: u64 where "MSR_IA32_VMX_CR4_FIXED1 \<equiv> 0x489"

definition vt_paging_apply_fixed_cr0 :: "u64 \<Rightarrow> vcpu \<Rightarrow> u64" where
  "vt_paging_apply_fixed_cr0 val s =
     (let cr0_0 = rdmsr MSR_IA32_VMX_CR0_FIXED0 s;
          cr0_1 = rdmsr MSR_IA32_VMX_CR0_FIXED1 s;
          cr0_1 = (if unrestricted_guest s then cr0_1 OR (CR0_PG_BIT OR CR0_PE_BIT) else cr0_1);
          cr0_0 = (if unrestricted_guest s then cr0_0 AND NOT (CR0_PG_BIT OR CR0_PE_BIT) else cr0_0);
          val = val AND cr0_1 OR cr0_0
      in if \<not> ept_enabled s then val OR CR0_WP_BIT else val)"

definition vt_paging_apply_fixed_cr4 :: "u64 \<Rightarrow> vcpu \<Rightarrow> u64" where
  "vt_paging_apply_fixed_cr4 val s =
     (let val = val AND rdmsr MSR_IA32_VMX_CR4_FIXED1 s OR rdmsr MSR_IA32_VMX_CR4_FIXED0 s
      in if \<not> ept_enabled s then val OR CR4_PAE_BIT else val)"

section \<open>Switching between the two\<close>

text \<open>The controls of the extended page tables and of the guest's PAT.\<close>

definition pg_change_ept :: "bool \<Rightarrow> vcpu \<Rightarrow> vcpu" where
  "pg_change_ept enable s =
     (let s = vmcs_change VMCS_PROC_BASED_VMEXEC_CTL2
                (\<lambda>tmp. tmp AND NOT (CTL2_ENABLE_EPT_BIT OR CTL2_UNRESTRICTED_GUEST_BIT)
                   OR (if enable then CTL2_ENABLE_EPT_BIT
                         OR (if unrestricted_guest s then CTL2_UNRESTRICTED_GUEST_BIT else 0) else 0)) s;
          s = vmcs_change VMCS_VMEXIT_CTL
                (\<lambda>tmp. if enable then tmp OR VMEXIT_SAVE_LOAD_PAT else tmp AND NOT VMEXIT_SAVE_LOAD_PAT) s;
          s = vmcs_change VMCS_VMENTRY_CTL
                (\<lambda>tmp. if enable then tmp OR VMENTRY_LOAD_PAT_BIT else tmp AND NOT VMENTRY_LOAD_PAT_BIT) s
      in if enable then
           let s = asm_vmwrite64 VMCS_HOST_IA32_PAT (rdmsr MSR_IA32_PAT s) s;
               tmp64 = (case cache_get_gpat (cache (menv s)) of None \<Rightarrow> rdmsr MSR_IA32_PAT s | Some p \<Rightarrow> p)
           in asm_vmwrite64 VMCS_GUEST_IA32_PAT tmp64 s
         else s)"

text \<open>The exits on INVLPG and on the accesses to CR3; the first component is the control.\<close>

definition pg_change_cr3exit :: "bool \<Rightarrow> u64 \<Rightarrow> vcpu \<Rightarrow> u64 \<times> vcpu" where
  "pg_change_cr3exit use_spt tmp s =
     (if cr3exit_controllable s \<and> use_spt \<and> cr3exit_off s then
        let cr3 = vt_read_cr3 s
        in (tmp OR CTL_CR3LOADEXIT_BIT OR CTL_CR3STOREEXIT_BIT, vt_write_cr3 cr3 (s\<lparr>cr3exit_off := False\<rparr>))
      else if cr3exit_controllable s \<and> \<not> use_spt \<and> \<not> cr3exit_off s then
        let cr3 = vt_read_cr3 s
        in (tmp AND NOT CTL_CR3LOADEXIT_BIT AND NOT CTL_CR3STOREEXIT_BIT,
            vt_write_cr3 cr3 (s\<lparr>cr3exit_off := True\<rparr>))
      else (tmp, s))"

definition vt_paging_pg_change :: "vcpu \<Rightarrow> vcpu" where
  "vt_paging_pg_change s =
     (let ept_enable = ept_enabled s;
          use_spt = (\<not> ept_enable);
          s = (if ept s \<noteq> None then pg_change_ept ept_enable s else s);
          tmp = asm_vmread VMCS_PROC_BASED_VMEXEC_CTL s;
          tmp = (if use_spt then tmp OR CTL_INVLPGEXIT_BIT else tmp AND NOT CTL_INVLPGEXIT_BIT);
          (tmp, s) = pg_change_cr3exit use_spt tmp s;
          s = asm_vmwrite VMCS_PROC_BASED_VMEXEC_CTL tmp s;
          s = asm_vmwrite VMCS_GUEST_CR0 (vt_paging_apply_fixed_cr0 (vt_read_cr0 s) s) s;
          s = (if use_spt then asm_vmwrite VMCS_GUEST_CR3 (spt_cr3 s) s else vt_update_vmcs_guest_cr3 s);
          s = asm_vmwrite VMCS_GUEST_CR4 (vt_paging_apply_fixed_cr4 (vt_read_cr4 s) s) s;
          s = vt_update_exception_bmp (s\<lparr>handle_pagefault := use_spt\<rparr>)
      in if ept_enable then ept_clear_all s else s)"

end
