(* ===== verification/Vt_Msr.thy ===== *)
theory Vt_Msr
  imports Vt_Paging
begin

text \<open>
  The model-specific registers of the guest (\<open>core/vt_msr.c\<close>, \<open>core/msr_pass.c\<close>) and the ownership
  of the system call MSRs between the guest and the processes of the hypervisor
  (\<open>own_process64_msrs\<close> and \<open>set_process64_msrs\<close> of \<open>core/process.c\<close>).  An access of the hypervisor
  to an MSR goes through \<open>callfunc_and_getint\<close>, whose result is the number of the exception it raised
  or -1; \<open>rdmsr\<close> and \<open>wrmsr\<close> raise \<open>EXCEPTION_GP\<close>.  \<open>None\<close> is a panic.
\<close>

abbreviation MSR_IA32_TIME_STAMP_COUNTER :: u32 where "MSR_IA32_TIME_STAMP_COUNTER \<equiv> 0x10"
abbreviation MSR_IA32_APIC_BASE_MSR :: u32 where "MSR_IA32_APIC_BASE_MSR \<equiv> 0x1B"
abbreviation MSR_IA32_BIOS_UPDT_TRIG :: u32 where "MSR_IA32_BIOS_UPDT_TRIG \<equiv> 0x79"
abbreviation MSR_IA32_SYSENTER_CS :: u32 where "MSR_IA32_SYSENTER_CS \<equiv> 0x174"
abbreviation MSR_IA32_SYSENTER_ESP :: u32 where "MSR_IA32_SYSENTER_ESP \<equiv> 0x175"
abbreviation MSR_IA32_SYSENTER_EIP :: u32 where "MSR_IA32_SYSENTER_EIP \<equiv> 0x176"
abbreviation MSR_IA32_X2APIC_ICR :: u32 where "MSR_IA32_X2APIC_ICR \<equiv> 0x830"
abbreviation MSR_IA32_EFER :: u32 where "MSR_IA32_EFER \<equiv> 0xC0000080"
abbreviation MSR_IA32_STAR :: u32 where "MSR_IA32_STAR \<equiv> 0xC0000081"
abbreviation MSR_IA32_LSTAR :: u32 where "MSR_IA32_LSTAR \<equiv> 0xC0000082"
abbreviation MSR_AMD_CSTAR :: u32 where "MSR_AMD_CSTAR \<equiv> 0xC0000083"
abbreviation MSR_IA32_FMASK :: u32 where "MSR_IA32_FMASK \<equiv> 0xC0000084"
abbreviation MSR_IA32_FS_BASE :: u32 where "MSR_IA32_FS_BASE \<equiv> 0xC0000100"
abbreviation MSR_IA32_GS_BASE :: u32 where "MSR_IA32_GS_BASE \<equiv> 0xC0000101"
abbreviation MSR_IA32_KERNEL_GS_BASE :: u32 where "MSR_IA32_KERNEL_GS_BASE \<equiv> 0xC0000102"
abbreviation VMENTRY_64_GUEST_BIT :: u64 where "VMENTRY_64_GUEST_BIT \<equiv> 0x200"
abbreviation EXCEPTION_GP :: int where "EXCEPTION_GP \<equiv> 0xD"

definition MAXNUM_OF_VT_MSR :: nat where "MAXNUM_OF_VT_MSR = 512"

section \<open>Accesses of the hypervisor to the processor's MSRs\<close>

text \<open>The result is the exception number and, for a read, the value (kept when it failed).\<close>

definition do_read_msr :: "u32 \<Rightarrow> u64 \<Rightarrow> vcpu \<Rightarrow> int \<times> u64" where
  "do_read_msr index old s =
     (if hw_msr_gp (cache (menv s)) (ucast index) then (EXCEPTION_GP, old)
      else (- 1, rdmsr (ucast index) s))"

definition do_write_msr :: "u32 \<Rightarrow> u64 \<Rightarrow> vcpu \<Rightarrow> int \<times> vcpu" where
  "do_write_msr index val s =
     (let c = cache (menv s)
      in if hw_msr_gp c (ucast index) \<or> wrmsr_gp s (ucast index) val then (EXCEPTION_GP, s)
         else (- 1, s\<lparr>menv := (menv s)\<lparr>cache := c\<lparr>hw_msr := (hw_msr c)(ucast index := val)\<rparr>\<rparr>\<rparr>))"

section \<open>The list of MSRs switched at entries and exits\<close>

definition write_count :: "vcpu \<Rightarrow> vcpu" where
  "write_count s =
     (let c = of_nat (length (msr_guest s));
          s = asm_vmwrite VMCS_VMEXIT_MSR_STORE_COUNT c s;
          s = asm_vmwrite VMCS_VMEXIT_MSR_LOAD_COUNT c s
      in asm_vmwrite VMCS_VMENTRY_MSR_LOAD_COUNT c s)"

definition vt_write_guest_msr :: "int \<Rightarrow> u64 \<Rightarrow> vcpu \<Rightarrow> bool \<times> vcpu" where
  "vt_write_guest_msr i val s =
     (if i \<ge> 0
      then (False, s\<lparr>msr_guest := (msr_guest s)[nat i := (msr_guest s ! nat i)\<lparr>me_data := val\<rparr>]\<rparr>)
      else (True, s))"

text \<open>The index of the first entry for an MSR.\<close>

fun find_msr :: "u64 \<Rightarrow> vt_msr_entry list \<Rightarrow> nat \<Rightarrow> nat option" where
  "find_msr index [] i = None"
| "find_msr index (e # es) i = (if ucast (me_index e) = index then Some i else find_msr index es (Suc i))"

definition vt_add_guest_msr :: "u64 \<Rightarrow> vcpu \<Rightarrow> int \<times> vcpu" where
  "vt_add_guest_msr index s =
     (case find_msr index (msr_vmm s) 0 of
        Some i \<Rightarrow> (int i, s)
      | None \<Rightarrow>
          let i = length (msr_vmm s) in
          if i \<ge> MAXNUM_OF_VT_MSR then (- 1, s)
          else
            let (num, val) = do_read_msr (ucast index) 0 s;
                e = \<lparr>me_index = ucast index, me_reserved = 0, me_data = val\<rparr>
            in if num \<noteq> - 1 then (- 1, s)
               else (int i, write_count (s\<lparr>msr_vmm := msr_vmm s @ [e], msr_guest := msr_guest s @ [e]\<rparr>)))"

section \<open>EFER\<close>

definition write_guest_efer :: "u64 \<Rightarrow> vcpu \<Rightarrow> bool \<times> vcpu" where
  "write_guest_efer efer s =
     (if \<not> save_load_efer_enable s then vt_write_guest_msr (msr_efer s) efer s
      else (False, asm_vmwrite64 VMCS_GUEST_IA32_EFER efer s))"

text \<open>Read, change, write; without an EFER entry nothing is written.\<close>

definition change_efer :: "(u64 \<Rightarrow> u64) \<Rightarrow> vcpu \<Rightarrow> vcpu" where
  "change_efer f s = (case read_guest_efer s of
      None \<Rightarrow> s
    | Some efer \<Rightarrow> snd (write_guest_efer (f efer) s))"

definition vt_msr_update_lma :: "vcpu \<Rightarrow> vcpu" where
  "vt_msr_update_lma s =
     (if lme s \<and> pg s then
        if lma s then s
        else change_efer (\<lambda>efer. efer OR (EFER_LME_BIT OR EFER_LMA_BIT))
               (vmcs_change VMCS_VMENTRY_CTL (\<lambda>ctl. ctl OR VMENTRY_64_GUEST_BIT) (s\<lparr>lma := True\<rparr>))
      else
        if \<not> lma s then s
        else change_efer (\<lambda>efer. efer AND NOT (EFER_LME_BIT OR EFER_LMA_BIT))
               (vmcs_change VMCS_VMENTRY_CTL (\<lambda>ctl. ctl AND NOT VMENTRY_64_GUEST_BIT) (s\<lparr>lma := False\<rparr>)))"

section \<open>The system call MSRs\<close>

text \<open>A failed read keeps the old value, a failed write is ignored.\<close>

definition vt_msr_store_process64_msrs :: "vcpu \<Rightarrow> vcpu" where
  "vt_msr_store_process64_msrs s =
     (let s = s\<lparr>msr_star := snd (do_read_msr MSR_IA32_STAR (msr_star s) s)\<rparr>;
          s = s\<lparr>msr_lstar := snd (do_read_msr MSR_IA32_LSTAR (msr_lstar s) s)\<rparr>;
          s = s\<lparr>msr_cstar := snd (do_read_msr MSR_AMD_CSTAR (msr_cstar s) s)\<rparr>;
          s = s\<lparr>msr_fmask := snd (do_read_msr MSR_IA32_FMASK (msr_fmask s) s)\<rparr>
      in s\<lparr>msr_kerngs := snd (do_read_msr MSR_IA32_KERNEL_GS_BASE (msr_kerngs s) s)\<rparr>)"

definition vt_msr_load_process64_msrs :: "vcpu \<Rightarrow> vcpu" where
  "vt_msr_load_process64_msrs s =
     (let s = snd (do_write_msr MSR_IA32_STAR (msr_star s) s);
          s = snd (do_write_msr MSR_IA32_LSTAR (msr_lstar s) s);
          s = snd (do_write_msr MSR_AMD_CSTAR (msr_cstar s) s);
          s = snd (do_write_msr MSR_IA32_FMASK (msr_fmask s) s)
      in snd (do_write_msr MSR_IA32_KERNEL_GS_BASE (msr_kerngs s) s))"

text \<open>
  \<open>own_process64_msrs\<close>: whether the new owner has to load its values; the old owner's function runs
  first.  The function of the processes does nothing.
\<close>

definition own_process64_msrs :: "msr_owner \<Rightarrow> vcpu \<Rightarrow> bool \<times> vcpu" where
  "own_process64_msrs func s =
     (if msr_release s = func then (False, s)
      else
        let s = (if msr_release s = Vcpu_owner then vt_msr_store_process64_msrs s else s)
        in (True, s\<lparr>msr_release := func\<rparr>))"

definition vt_msr_own_process_msrs :: "vcpu \<Rightarrow> vcpu" where
  "vt_msr_own_process_msrs s =
     (let (new, s) = own_process64_msrs Vcpu_owner s
      in if new then vt_msr_load_process64_msrs s else s)"

text \<open>
  A process of the hypervisor runs: \<open>call_msgfunc0\<close> takes the MSRs and \<open>set_process64_msrs\<close> writes
  its own; \<open>entry\<close> is the address of \<open>syscall_entry_sysret64\<close>.
\<close>

abbreviation SEG_SEL_CODE32U :: u64 where "SEG_SEL_CODE32U \<equiv> 3 * 8 + 3"
abbreviation SEG_SEL_CODE64 :: u64 where "SEG_SEL_CODE64 \<equiv> 10 * 8"

definition set_process64_msrs :: "u64 \<Rightarrow> vcpu \<Rightarrow> vcpu" where
  "set_process64_msrs entry s =
     (let hi = push_bit 16 SEG_SEL_CODE32U OR SEG_SEL_CODE64;
          s = snd (do_write_msr MSR_IA32_STAR (push_bit 32 hi OR (entry AND 0xFFFFFFFF)) s);
          s = snd (do_write_msr MSR_IA32_LSTAR entry s);
          s = snd (do_write_msr MSR_AMD_CSTAR entry s)
      in snd (do_write_msr MSR_IA32_FMASK (0x20000 OR 0x200 OR 0x10000) s))"

definition process_own_msrs :: "u64 \<Rightarrow> vcpu \<Rightarrow> vcpu" where
  "process_own_msrs entry s =
     (let (new, s) = own_process64_msrs Process_owner s
      in if new then set_process64_msrs entry s else s)"

section \<open>Pass-through MSRs\<close>

text \<open>\<open>Some (None, s)\<close> is the result \<open>true\<close>, a fault.\<close>

definition msr_pass_read_msr :: "u32 \<Rightarrow> vcpu \<Rightarrow> u64 option option" where
  "msr_pass_read_msr msrindex s =
     (if msrindex = MSR_IA32_TIME_STAMP_COUNTER then
        Some (Some (rdmsr (ucast MSR_IA32_TIME_STAMP_COUNTER) s + tsc_offset s))
      else
        let (num, val) = do_read_msr msrindex 0 s
        in if num = - 1 then Some (Some val)
           else if num = EXCEPTION_GP then Some None
           else None)"

definition msr_pass_pass :: "u32 \<Rightarrow> u64 \<Rightarrow> vcpu \<Rightarrow> (bool \<times> vcpu) option" where
  "msr_pass_pass msrindex msrdata s =
     (let (num, s) = do_write_msr msrindex msrdata s
      in if num = - 1 then Some (False, s)
         else if num = EXCEPTION_GP then Some (True, s)
         else None)"

abbreviation VMCS_TSC_OFFSET :: u64 where "VMCS_TSC_OFFSET \<equiv> 0x2010"

definition msr_pass_write_msr :: "u32 \<Rightarrow> u64 \<Rightarrow> vcpu \<Rightarrow> (bool \<times> vcpu) option" where
  "msr_pass_write_msr msrindex msrdata s =
     (if msrindex = MSR_IA32_BIOS_UPDT_TRIG then Some (False, s)
      else if msrindex = MSR_IA32_TIME_STAMP_COUNTER then
        let tsc = msrdata - rdmsr (ucast MSR_IA32_TIME_STAMP_COUNTER) s
        in Some (False, asm_vmwrite64 VMCS_TSC_OFFSET tsc (s\<lparr>tsc_offset := tsc\<rparr>))
      else if msrindex = MSR_IA32_APIC_BASE_MSR then
        if msrdata AND 0x800 \<noteq> 0 \<and> phys_in_vmm (gmm (menv s)) (msrdata AND 0xFFFFFF000) then None
        else msr_pass_pass msrindex msrdata (s\<lparr>apic_log := apic_log s @ [Change_base_msr msrdata]\<rparr>)
      else if msrindex = MSR_IA32_X2APIC_ICR then
        msr_pass_pass msrindex msrdata (s\<lparr>apic_log := apic_log s @ [X2apic_icr msrdata]\<rparr>)
      else msr_pass_pass msrindex msrdata s)"

section \<open>The MSRs of the guest\<close>

abbreviation syscall_msrs :: "u32 list" where
  "syscall_msrs \<equiv>
     [MSR_IA32_STAR, MSR_IA32_LSTAR, MSR_AMD_CSTAR, MSR_IA32_FMASK, MSR_IA32_KERNEL_GS_BASE]"

definition is_mtrr :: "u32 \<Rightarrow> bool" where
  "is_mtrr msrindex =
     (msrindex \<in> set [0x268, 0x269, 0x26A, 0x26B, 0x26C, 0x26D, 0x26E, 0x26F, 0x258, 0x259, 0x250, 0x2FF]
      \<or> 0x200 \<le> msrindex \<and> msrindex \<le> 0x213)"

definition vt_read_msr :: "u32 \<Rightarrow> vcpu \<Rightarrow> (u64 option \<times> vcpu) option" where
  "vt_read_msr msrindex s =
     (if msrindex = MSR_IA32_SYSENTER_CS then Some (Some (asm_vmread VMCS_GUEST_IA32_SYSENTER_CS s), s)
      else if msrindex = MSR_IA32_SYSENTER_ESP then Some (Some (asm_vmread VMCS_GUEST_IA32_SYSENTER_ESP s), s)
      else if msrindex = MSR_IA32_SYSENTER_EIP then Some (Some (asm_vmread VMCS_GUEST_IA32_SYSENTER_EIP s), s)
      else if msrindex = MSR_IA32_EFER then
        Some (vt_read_efer s, s)
      else if msrindex = MSR_IA32_FS_BASE then Some (Some (asm_vmread (VMCS_GUEST_BASE SREG_FS) s), s)
      else if msrindex = MSR_IA32_GS_BASE then Some (Some (asm_vmread (VMCS_GUEST_BASE SREG_GS) s), s)
      else if msrindex \<in> set syscall_msrs then
        let s = vt_msr_own_process_msrs s;
            (num, val) = do_read_msr msrindex 0 s
        in if num = - 1 then Some (Some val, s) else None
      else if is_mtrr msrindex then Some (cache_get_gmtrr (ucast msrindex) (cache (menv s)), s)
      else if msrindex = 0xFE then Some (Some (cache_get_gmtrrcap (cache (menv s))), s)
      else if msrindex = 0x277 then Some (vt_paging_get_gpat s, s)
      else map_option (\<lambda>r. (r, s)) (msr_pass_read_msr msrindex s))"

definition vt_write_msr :: "u32 \<Rightarrow> u64 \<Rightarrow> vcpu \<Rightarrow> (bool \<times> vcpu) option" where
  "vt_write_msr msrindex msrdata s =
     (if msrindex = MSR_IA32_SYSENTER_CS then
        Some (False, asm_vmwrite VMCS_GUEST_IA32_SYSENTER_CS msrdata s)
      else if msrindex = MSR_IA32_SYSENTER_ESP then
        Some (False, asm_vmwrite VMCS_GUEST_IA32_SYSENTER_ESP msrdata s)
      else if msrindex = MSR_IA32_SYSENTER_EIP then
        Some (False, asm_vmwrite VMCS_GUEST_IA32_SYSENTER_EIP msrdata s)
      else if msrindex = MSR_IA32_EFER then
        (case read_guest_efer s of
           None \<Rightarrow> Some (True, s)
         | Some val \<Rightarrow>
             let s = s\<lparr>lme := msrdata AND EFER_LME_BIT \<noteq> 0\<rparr>;
                 val = val AND (EFER_LME_BIT OR EFER_LMA_BIT)
                         OR (msrdata AND NOT (EFER_LME_BIT OR EFER_LMA_BIT));
                 (r, s) = write_guest_efer val s;
                 s = vt_paging_updatecr3 (vt_msr_update_lma s)
             in Some (r, vt_paging_flush_guest_tlb s))
      else if msrindex = MSR_IA32_FS_BASE then Some (False, asm_vmwrite (VMCS_GUEST_BASE SREG_FS) msrdata s)
      else if msrindex = MSR_IA32_GS_BASE then Some (False, asm_vmwrite (VMCS_GUEST_BASE SREG_GS) msrdata s)
      else if msrindex \<in> set syscall_msrs then
        let (num, s) = do_write_msr msrindex msrdata (vt_msr_own_process_msrs s)
        in if num = - 1 then Some (False, s) else None
      else if is_mtrr msrindex then
        let (r, s) = (case cache_set_gmtrr (ucast msrindex) msrdata (cache (menv s)) of
                        None \<Rightarrow> (True, s)
                      | Some c \<Rightarrow> (False, s\<lparr>menv := (menv s)\<lparr>cache := c\<rparr>\<rparr>));
            s = vt_paging_clear_all s
        in Some (r, vt_paging_flush_guest_tlb s)
      else if msrindex = 0x277 then
        let (r, s) = vt_paging_set_gpat msrdata s
        in Some (r, vt_paging_flush_guest_tlb s)
      else msr_pass_write_msr msrindex msrdata s)"

section \<open>The MSR bitmap\<close>

definition vt_setmsrbmp :: "nat \<Rightarrow> u32 \<Rightarrow> bool \<Rightarrow> (nat \<Rightarrow> u8) \<Rightarrow> nat \<Rightarrow> u8" where
  "vt_setmsrbmp p bitoffset b bmp =
     (let i = p + unat (drop_bit 3 bitoffset); m = push_bit (unat (bitoffset AND 7)) 1
      in bmp(i := if b then bmp i OR m else bmp i AND NOT m))"

text \<open>The MSRs the guest may never touch directly; MTRRCAP may be written.\<close>

definition msr_never_pass :: "u32 \<Rightarrow> bool \<Rightarrow> bool" where
  "msr_never_pass msrindex wr =
     (msrindex = MSR_IA32_EFER \<or> is_mtrr msrindex \<or> msrindex = 0x277 \<or> msrindex = 0xFE \<and> \<not> wr)"

definition vt_msrpass :: "u32 \<Rightarrow> bool \<Rightarrow> bool \<Rightarrow> vcpu \<Rightarrow> vcpu" where
  "vt_msrpass msrindex wr pass s =
     (let pass = (if msr_never_pass msrindex wr then False else pass);
          p = (if wr then 0x800 else 0)
      in if msrindex \<le> 0x1FFF then s\<lparr>msrbmp := vt_setmsrbmp p msrindex (\<not> pass) (msrbmp s)\<rparr>
         else if 0xC0000000 \<le> msrindex \<and> msrindex \<le> 0xC0001FFF then
           s\<lparr>msrbmp := vt_setmsrbmp (p + 0x400) (msrindex - 0xC0000000) (\<not> pass) (msrbmp s)\<rparr>
         else s)"

text \<open>The start: \<open>pv\<close> and \<open>pgst\<close> are the physical addresses of the two lists.\<close>

definition vt_msr_init :: "u64 \<Rightarrow> u64 \<Rightarrow> vcpu \<Rightarrow> vcpu" where
  "vt_msr_init pv pgst s =
     (let s = write_count (s\<lparr>msr_vmm := [], msr_guest := []\<rparr>);
          s = asm_vmwrite64 VMCS_VMEXIT_MSRLOAD_ADDR pv s;
          s = asm_vmwrite64 VMCS_VMEXIT_MSRSTORE_ADDR pgst s;
          s = asm_vmwrite64 VMCS_VMENTRY_MSRLOAD_ADDR pgst s;
          s = (if \<not> save_load_efer_enable s
               then let (i, s) = vt_add_guest_msr (ucast MSR_IA32_EFER) s in s\<lparr>msr_efer := i\<rparr> else s);
          s = snd (write_guest_efer 0 s)
      in s\<lparr>msr_star := 0, msr_lstar := 0, msr_cstar := 0, msr_fmask := 0, msr_kerngs := 0\<rparr>)"

end
