(* ===== verification/Vt_Regs.thy ===== *)
theory Vt_Regs
  imports Vt_Msr
begin

text \<open>
  The guest's registers as the hypervisor reads and writes them (\<open>core/vt_regs.c\<close>): control
  registers, segment registers, instruction pointer, flags and descriptor tables, with the switch
  between real and protected mode on a processor without unrestricted guest, and the reset.  In real
  mode the guest runs in virtual 8086 mode: a segment register whose selector cannot be used there
  is emulated (\<open>sw_enable\<close>, \<open>sw_sel\<close>), and the IDT and the TSS are those of the hypervisor.
\<close>

datatype control_reg = CONTROL_REG_CR0 | CONTROL_REG_CR2 | CONTROL_REG_CR3 | CONTROL_REG_CR4

abbreviation RFLAGS_VM_BIT :: u64 where "RFLAGS_VM_BIT \<equiv> 0x20000"
abbreviation RFLAGS_ALWAYS1_BIT :: u64 where "RFLAGS_ALWAYS1_BIT \<equiv> 0x2"
abbreviation ACCESS_RIGHTS_L_BIT :: u64 where "ACCESS_RIGHTS_L_BIT \<equiv> 0x2000"
abbreviation REALMODE_TR_LIMIT :: u64 where "REALMODE_TR_LIMIT \<equiv> 65536 div 8 - 1"

section \<open>Descriptor tables, flags and instruction pointer\<close>

definition vt_read_ip :: "vcpu \<Rightarrow> u64" where
  "vt_read_ip s = asm_vmread VMCS_GUEST_RIP s"

definition vt_write_ip :: "u64 \<Rightarrow> vcpu \<Rightarrow> vcpu" where
  "vt_write_ip val s = (asm_vmwrite VMCS_GUEST_RIP val s)\<lparr>updateip := True\<rparr>"

definition vt_read_flags :: "vcpu \<Rightarrow> u64" where
  "vt_read_flags s =
     (let val = asm_vmread VMCS_GUEST_RFLAGS s in if re s then val AND NOT RFLAGS_VM_BIT else val)"

definition vt_write_flags :: "u64 \<Rightarrow> vcpu \<Rightarrow> vcpu" where
  "vt_write_flags val s =
     asm_vmwrite VMCS_GUEST_RFLAGS (if re s then val OR RFLAGS_VM_BIT else val) s"

definition vt_read_gdtr :: "vcpu \<Rightarrow> u64 \<times> u64" where
  "vt_read_gdtr s = (asm_vmread VMCS_GUEST_GDTR_BASE s, asm_vmread VMCS_GUEST_GDTR_LIMIT s)"

definition vt_write_gdtr :: "u64 \<Rightarrow> u64 \<Rightarrow> vcpu \<Rightarrow> vcpu" where
  "vt_write_gdtr base limit s =
     asm_vmwrite VMCS_GUEST_GDTR_LIMIT limit (asm_vmwrite VMCS_GUEST_GDTR_BASE base s)"

definition vt_read_idtr :: "vcpu \<Rightarrow> u64 \<times> u64" where
  "vt_read_idtr s =
     (if \<not> re s then (asm_vmread VMCS_GUEST_IDTR_BASE s, asm_vmread VMCS_GUEST_IDTR_LIMIT s)
      else (rm_idtr_base s, ucast (rm_idtr_limit s)))"

definition vt_write_idtr :: "u64 \<Rightarrow> u64 \<Rightarrow> vcpu \<Rightarrow> vcpu" where
  "vt_write_idtr base limit s =
     (if \<not> re s
      then asm_vmwrite VMCS_GUEST_IDTR_LIMIT limit (asm_vmwrite VMCS_GUEST_IDTR_BASE base s)
      else s\<lparr>rm_idtr_base := base, rm_idtr_limit := ucast limit\<rparr>)"

section \<open>Segment registers\<close>

definition vt_read_sreg_sel :: "sreg \<Rightarrow> vcpu \<Rightarrow> u16" where
  "vt_read_sreg_sel r s =
     (if sw_enable s AND SW_SREG_BIT r = 0 then ucast (asm_vmread (VMCS_GUEST_SEL r) s) else sw_sel s r)"

definition vt_read_sreg_acr :: "sreg \<Rightarrow> vcpu \<Rightarrow> u64" where
  "vt_read_sreg_acr r s = asm_vmread (VMCS_GUEST_ACCESS_RIGHTS r) s"

definition vt_read_sreg_base :: "sreg \<Rightarrow> vcpu \<Rightarrow> u64" where
  "vt_read_sreg_base r s =
     (if r \<in> {SREG_ES, SREG_CS, SREG_SS, SREG_DS} \<and> lma s
         \<and> vt_read_sreg_acr SREG_CS s AND ACCESS_RIGHTS_L_BIT \<noteq> 0
      then 0 else asm_vmread (VMCS_GUEST_BASE r) s)"

definition vt_read_sreg_limit :: "sreg \<Rightarrow> vcpu \<Rightarrow> u64" where
  "vt_read_sreg_limit r s =
     (if lma s \<and> vt_read_sreg_acr SREG_CS s AND ACCESS_RIGHTS_L_BIT \<noteq> 0 then NOT 0
      else asm_vmread (VMCS_GUEST_LIMIT r) s)"

text \<open>The register is no longer emulated.\<close>

definition sw_clear :: "sreg \<Rightarrow> vcpu \<Rightarrow> vcpu" where
  "sw_clear r s = s\<lparr>sw_enable := sw_enable s AND NOT (SW_SREG_BIT r)\<rparr>"

definition vt_write_realmode_seg :: "sreg \<Rightarrow> u16 \<Rightarrow> vcpu \<Rightarrow> vcpu" where
  "vt_write_realmode_seg r val s =
     vt_update_exception_bmp (sw_clear r
       (asm_vmwrite (VMCS_GUEST_BASE r) (push_bit 4 (ucast val)) (asm_vmwrite (VMCS_GUEST_SEL r) (ucast val) s)))"

definition vt_writing_sreg :: "sreg \<Rightarrow> vcpu \<Rightarrow> vcpu" where
  "vt_writing_sreg r s = vt_update_exception_bmp (sw_clear r s)"

section \<open>The switch between real and protected mode\<close>

definition pe_change_switch_tr :: "bool \<Rightarrow> vcpu \<Rightarrow> vcpu" where
  "pe_change_switch_tr pe s =
     (if pe then
        let s = asm_vmwrite VMCS_GUEST_TR_LIMIT (rm_tr_limit s) s;
            s = asm_vmwrite VMCS_GUEST_TR_ACCESS_RIGHTS (rm_tr_acr s) s
        in asm_vmwrite VMCS_GUEST_TR_BASE (rm_tr_base s) s
      else
        let s = s\<lparr>rm_tr_limit := asm_vmread VMCS_GUEST_TR_LIMIT s,
                  rm_tr_acr := asm_vmread VMCS_GUEST_TR_ACCESS_RIGHTS s,
                  rm_tr_base := asm_vmread VMCS_GUEST_TR_BASE s\<rparr>;
            s = asm_vmwrite VMCS_GUEST_TR_LIMIT REALMODE_TR_LIMIT s;
            s = asm_vmwrite VMCS_GUEST_TR_ACCESS_RIGHTS 0x8B s
        in asm_vmwrite VMCS_GUEST_TR_BASE (head_phys s) s)"

text \<open>The selectors of the registers that are not emulated already are kept.\<close>

definition save_sel :: "sreg \<Rightarrow> vcpu \<Rightarrow> vcpu" where
  "save_sel r s =
     (if sw_enable s AND SW_SREG_BIT r = 0
      then s\<lparr>sw_sel := (sw_sel s)(r := ucast (asm_vmread (VMCS_GUEST_SEL r) s))\<rparr> else s)"

text \<open>One field written for all six registers.\<close>

definition write_sregs :: "(sreg \<Rightarrow> u64) \<Rightarrow> (sreg \<Rightarrow> u64) \<Rightarrow> vcpu \<Rightarrow> vcpu" where
  "write_sregs field val s = fold (\<lambda>r. asm_vmwrite (field r) (val r)) sregs s"

definition use_sel :: "sreg \<Rightarrow> vcpu \<Rightarrow> vcpu" where
  "use_sel r s = sw_clear r (asm_vmwrite (VMCS_GUEST_SEL r) (ucast (sw_sel s r)) s)"

text \<open>To protected mode: CS and SS are used as they are when they are a multiple of 4.\<close>

definition enable_sw_protected :: "vcpu \<Rightarrow> vcpu" where
  "enable_sw_protected s =
     (let s = asm_vmwrite VMCS_GUEST_RFLAGS (asm_vmread VMCS_GUEST_RFLAGS s AND NOT RFLAGS_VM_BIT) s;
          s = write_sregs VMCS_GUEST_SEL (\<lambda>_. 8) s;
          s = write_sregs VMCS_GUEST_ACCESS_RIGHTS
                (\<lambda>r. if r = SREG_CS then 0x9B else if r = SREG_SS then 0x93 else 0xF3) s;
          s = use_sel SREG_ES s;
          s = (if sw_sel s SREG_CS AND 3 = 0 then use_sel SREG_CS s else s);
          s = (if sw_sel s SREG_SS AND 3 = 0 then use_sel SREG_SS s else s);
          s = use_sel SREG_DS s;
          s = use_sel SREG_FS s
      in use_sel SREG_GS s)"

text \<open>To real mode: the selector of virtual 8086 mode is the base divided by 16.\<close>

definition use_base :: "sreg \<Rightarrow> vcpu \<Rightarrow> vcpu" where
  "use_base r s =
     (let tmp = asm_vmread (VMCS_GUEST_BASE r) s;
          s = asm_vmwrite (VMCS_GUEST_SEL r) (drop_bit 4 tmp) s
      in if drop_bit 4 tmp = ucast (sw_sel s r) then sw_clear r s else s)"

definition enable_sw_real :: "vcpu \<Rightarrow> vcpu" where
  "enable_sw_real s =
     (let s = asm_vmwrite VMCS_GUEST_RFLAGS (asm_vmread VMCS_GUEST_RFLAGS s OR RFLAGS_VM_BIT) s;
          s = fold use_base sregs s;
          s = write_sregs VMCS_GUEST_ACCESS_RIGHTS (\<lambda>_. 0xF3) s
      in write_sregs VMCS_GUEST_LIMIT (\<lambda>_. 0xFFFF) s)"

definition pe_change_enable_sw :: "bool \<Rightarrow> vcpu \<Rightarrow> vcpu" where
  "pe_change_enable_sw pe s =
     (let s = fold save_sel sregs s;
          s = s\<lparr>sw_num := 0, sw_enable := 0x1 OR 0x2 OR 0x4 OR 0x8 OR 0x10 OR 0x20\<rparr>
      in vt_update_exception_bmp (if pe then enable_sw_protected s else enable_sw_real s))"

definition pe_change :: "bool \<Rightarrow> vcpu \<Rightarrow> vcpu" where
  "pe_change pe s =
     (let (idtr_base, idtr_limit) = vt_read_idtr s;
          s = vt_write_idtr 0 0 s;
          s = s\<lparr>re := \<not> pe\<rparr>;
          s = vt_write_idtr idtr_base idtr_limit s;
          s = pe_change_switch_tr pe s;
          s = pe_change_enable_sw pe s
      in s\<lparr>exint_re_pending := False, exint_update := True\<rparr>)"

section \<open>Control registers\<close>

definition vt_read_control_reg :: "control_reg \<Rightarrow> vcpu \<Rightarrow> u64" where
  "vt_read_control_reg r s =
     (case r of
        CONTROL_REG_CR0 \<Rightarrow> vt_read_cr0 s
      | CONTROL_REG_CR2 \<Rightarrow> cr2 s
      | CONTROL_REG_CR3 \<Rightarrow> vt_read_cr3 s
      | CONTROL_REG_CR4 \<Rightarrow> vt_read_cr4 s)"

text \<open>The write of CR0: the mode switches, then the fixed bits.\<close>

definition write_cr0 :: "u64 \<Rightarrow> vcpu \<Rightarrow> vcpu" where
  "write_cr0 val s =
     (let s = asm_vmwrite VMCS_CR0_READ_SHADOW val s;
          pe = (val AND CR0_PE_BIT \<noteq> 0);
          val = (if \<not> pe then val AND NOT CR0_PG_BIT else val);
          s = (if pe \<noteq> (\<not> re s) \<and> \<not> unrestricted_guest s then pe_change pe s else s);
          paging = (val AND CR0_PG_BIT \<noteq> 0);
          s = (if paging \<noteq> pg s then vt_paging_pg_change (s\<lparr>pg := paging\<rparr>) else s);
          s = vt_msr_update_lma s;
          s = asm_vmwrite VMCS_GUEST_CR0 (vt_paging_apply_fixed_cr0 val s) s
      in vt_paging_flush_guest_tlb (vt_paging_updatecr3 s))"

definition vt_write_control_reg :: "control_reg \<Rightarrow> u64 \<Rightarrow> vcpu \<Rightarrow> vcpu" where
  "vt_write_control_reg r val s =
     (case r of
        CONTROL_REG_CR0 \<Rightarrow> write_cr0 val s
      | CONTROL_REG_CR2 \<Rightarrow> s\<lparr>cr2 := val\<rparr>
      | CONTROL_REG_CR3 \<Rightarrow> vt_paging_flush_guest_tlb (vt_paging_updatecr3 (vt_write_cr3 val s))
      | CONTROL_REG_CR4 \<Rightarrow>
          let s = asm_vmwrite VMCS_CR4_READ_SHADOW val s;
              s = asm_vmwrite VMCS_GUEST_CR4 (vt_paging_apply_fixed_cr4 val s) s
          in vt_paging_flush_guest_tlb (vt_paging_updatecr3 s))"

section \<open>The registers in the VMCS\<close>

record regs_in_vmcs_sreg =
  rs_sel :: u16
  rs_limit :: u64
  rs_acr :: u64
  rs_base :: u64

record regs_in_vmcs_desc =
  rd_base :: u64
  rd_limit :: u64

record regs_in_vmcs =
  riv_seg :: "sreg \<Rightarrow> regs_in_vmcs_sreg"
  riv_ldtr :: regs_in_vmcs_sreg
  riv_tr :: regs_in_vmcs_sreg
  riv_gdtr :: regs_in_vmcs_desc
  riv_idtr :: regs_in_vmcs_desc
  riv_cr0 :: u64
  riv_cr3 :: u64
  riv_cr4 :: u64
  riv_dr7 :: u64
  riv_rflags :: u64

definition vt_get_vmcs_regs_in_vmcs :: "vcpu \<Rightarrow> regs_in_vmcs" where
  "vt_get_vmcs_regs_in_vmcs s =
     \<lparr>riv_seg = (\<lambda>r. \<lparr>rs_sel = ucast (asm_vmread (VMCS_GUEST_SEL r) s), rs_limit = asm_vmread (VMCS_GUEST_LIMIT r) s,
                    rs_acr = asm_vmread (VMCS_GUEST_ACCESS_RIGHTS r) s, rs_base = asm_vmread (VMCS_GUEST_BASE r) s\<rparr>),
      riv_ldtr = \<lparr>rs_sel = ucast (asm_vmread VMCS_GUEST_LDTR_SEL s), rs_limit = asm_vmread VMCS_GUEST_LDTR_LIMIT s,
                  rs_acr = asm_vmread VMCS_GUEST_LDTR_ACCESS_RIGHTS s, rs_base = asm_vmread VMCS_GUEST_LDTR_BASE s\<rparr>,
      riv_tr = \<lparr>rs_sel = ucast (asm_vmread VMCS_GUEST_TR_SEL s), rs_limit = asm_vmread VMCS_GUEST_TR_LIMIT s,
                rs_acr = asm_vmread VMCS_GUEST_TR_ACCESS_RIGHTS s, rs_base = asm_vmread VMCS_GUEST_TR_BASE s\<rparr>,
      riv_gdtr = \<lparr>rd_base = asm_vmread VMCS_GUEST_GDTR_BASE s, rd_limit = asm_vmread VMCS_GUEST_GDTR_LIMIT s\<rparr>,
      riv_idtr = \<lparr>rd_base = asm_vmread VMCS_GUEST_IDTR_BASE s, rd_limit = asm_vmread VMCS_GUEST_IDTR_LIMIT s\<rparr>,
      riv_cr0 = asm_vmread VMCS_GUEST_CR0 s, riv_cr3 = asm_vmread VMCS_GUEST_CR3 s,
      riv_cr4 = asm_vmread VMCS_GUEST_CR4 s, riv_dr7 = asm_vmread VMCS_GUEST_DR7 s,
      riv_rflags = asm_vmread VMCS_GUEST_RFLAGS s\<rparr>"

section \<open>Reset\<close>

text \<open>Flags, IDT and TSS: those of a reset, or those of the emulated real mode.\<close>

definition reset_mode :: "vcpu \<Rightarrow> vcpu" where
  "reset_mode s =
     (if unrestricted_guest s then
        let s = asm_vmwrite VMCS_GUEST_RFLAGS RFLAGS_ALWAYS1_BIT s;
            s = asm_vmwrite VMCS_GUEST_IDTR_BASE 0 s;
            s = asm_vmwrite VMCS_GUEST_IDTR_LIMIT 0xFFFF s;
            s = asm_vmwrite VMCS_GUEST_TR_LIMIT 0xFFFF s;
            s = asm_vmwrite VMCS_GUEST_TR_ACCESS_RIGHTS 0x8B s;
            s = asm_vmwrite VMCS_GUEST_TR_BASE 0 s
        in s\<lparr>re := False\<rparr>
      else
        let s = asm_vmwrite VMCS_GUEST_RFLAGS (RFLAGS_ALWAYS1_BIT OR RFLAGS_VM_BIT OR 0) s;
            s = asm_vmwrite VMCS_GUEST_IDTR_BASE 0 s;
            s = asm_vmwrite VMCS_GUEST_IDTR_LIMIT 0 s;
            s = asm_vmwrite VMCS_GUEST_TR_LIMIT REALMODE_TR_LIMIT s;
            s = asm_vmwrite VMCS_GUEST_TR_ACCESS_RIGHTS 0x8B s;
            s = asm_vmwrite VMCS_GUEST_TR_BASE (head_phys s) s
        in s\<lparr>re := True\<rparr>)"

definition vt_reset :: "vcpu \<Rightarrow> vcpu option" where
  "vt_reset s =
     (let s = asm_vmwrite VMCS_CR0_READ_SHADOW CR0_ET_BIT s;
          s = asm_vmwrite VMCS_GUEST_CR0 (vt_paging_apply_fixed_cr0 CR0_ET_BIT s) s;
          s = vt_write_cr3 0 (s\<lparr>cr2 := 0\<rparr>);
          s = asm_vmwrite VMCS_CR4_READ_SHADOW 0 s;
          s = asm_vmwrite VMCS_GUEST_CR4 (vt_paging_apply_fixed_cr4 0 s) s
      in case vt_write_msr MSR_IA32_EFER 0 s of
           None \<Rightarrow> None
         | Some (_, s) \<Rightarrow>
             let s = write_sregs VMCS_GUEST_SEL (\<lambda>_. 0) s;
                 s = write_sregs VMCS_GUEST_BASE (\<lambda>_. 0) s;
                 s = write_sregs VMCS_GUEST_ACCESS_RIGHTS (\<lambda>_. if unrestricted_guest s then 0x93 else 0xF3) s;
                 s = reset_mode (write_sregs VMCS_GUEST_LIMIT (\<lambda>_. 0xFFFF) s);
                 s = (if pg s then vt_paging_pg_change (s\<lparr>pg := False\<rparr>) else s);
                 s = s\<lparr>sw_enable := 0, lme := False, rm_tr_limit := 0xFFFF, rm_tr_acr := 0x8B, rm_tr_base := 0,
                       rm_idtr_base := 0, rm_idtr_limit := 0xFFFF, exint_re_pending := False, exint_update := True\<rparr>;
                 s = vt_paging_flush_guest_tlb (vt_paging_updatecr3 (vt_msr_update_lma s))
             in Some (vt_update_exception_bmp s))"

end
