(* ===== verification/Vt_Frame.thy ===== *)
theory Vt_Frame
  imports Vt_Regs
begin

unbundle bit_operations_syntax

text \<open>
  What the operations of \<open>Vt_Paging\<close> and \<open>Vt_Regs\<close> leave alone: the fields outside the VMCS (the
  collection \<open>vt_frame\<close>; the \<open>keeps\<close> abbreviations bundle the fields one lemma speaks about) and the
  fields of the VMCS (\<open>vmcs_simps\<close>); and what the switch of the paging mode does to the controls and
  to CR3.
\<close>

section \<open>What the operations leave alone\<close>

named_theorems vt_frame \<open>fields of the virtual CPU an operation does not change\<close>

abbreviation keeps_regs where
  "keeps_regs s \<equiv> (re s, pg s, lme s, sw_enable s, sw_sel s, cr2 s, gpr s, rm_idtr_base s, rm_idtr_limit s,
     rm_tr_limit s, rm_tr_acr s, rm_tr_base s, updateip s, exint_update s, exint_re_pending s)"

abbreviation keeps_machine where
  "keeps_machine s \<equiv> (unrestricted_guest s, save_load_efer_enable s, cr3exit_controllable s, msr_efer s,
     invept_available s, vpid s, gmem s, wrmsr_gp s, head_phys s, spt_cr3tbl_phys s, uninit s, msr_release s,
     msr_star s, msr_lstar s, msr_cstar s, msr_fmask s, msr_kerngs s)"

abbreviation keeps_spt where
  "keeps_spt s \<equiv> (spt_cr3 s, spt_regs s)"

abbreviation keeps_paging where
  "keeps_paging s \<equiv> (vr_cr3 s, cr3exit_off s, handle_pagefault s, lma s, msr_guest s, menv s)"

lemma frame_vmwrite:
  "keeps_regs (asm_vmwrite i v s) = keeps_regs s" "keeps_machine (asm_vmwrite i v s) = keeps_machine s"
  "keeps_paging (asm_vmwrite i v s) = keeps_paging s" "ept (asm_vmwrite i v s) = ept s"
  "keeps_spt (asm_vmwrite i v s) = keeps_spt s"
  by (simp_all add: asm_vmwrite_def)

lemmas frame_vmwrite_simps [vt_frame] = frame_vmwrite [unfolded prod.inject]

lemma frame_change:
  "keeps_regs (vmcs_change i f s) = keeps_regs s" "keeps_machine (vmcs_change i f s) = keeps_machine s"
  "keeps_paging (vmcs_change i f s) = keeps_paging s" "ept (vmcs_change i f s) = ept s"
  "keeps_spt (vmcs_change i f s) = keeps_spt s"
  by (simp_all add: vmcs_change_def vt_frame)

lemmas frame_change_simps [vt_frame] = frame_change [unfolded prod.inject]

lemma frame_flush:
  "keeps_regs (vt_paging_flush_guest_tlb s) = keeps_regs s"
  "keeps_machine (vt_paging_flush_guest_tlb s) = keeps_machine s"
  "keeps_paging (vt_paging_flush_guest_tlb s) = keeps_paging s" "ept (vt_paging_flush_guest_tlb s) = ept s"
  "keeps_spt (vt_paging_flush_guest_tlb s) = keeps_spt s" "vmcs (vt_paging_flush_guest_tlb s) = vmcs s"
  by (simp_all add: vt_paging_flush_guest_tlb_def Let_def)

lemmas frame_flush_simps [vt_frame] = frame_flush [unfolded prod.inject]

lemma vmread_flush [vmcs_simps]: "asm_vmread i (vt_paging_flush_guest_tlb s) = asm_vmread i s"
  by (simp add: asm_vmread_def frame_flush)

text \<open>Field updates outside the VMCS.\<close>

lemma vmread_upd [vmcs_simps]:
  "asm_vmread i (s\<lparr>pg := x0\<rparr>) = asm_vmread i s" "asm_vmread i (s\<lparr>re := x1\<rparr>) = asm_vmread i s"
  "asm_vmread i (s\<lparr>lma := x2\<rparr>) = asm_vmread i s" "asm_vmread i (s\<lparr>lme := x3\<rparr>) = asm_vmread i s"
  "asm_vmread i (s\<lparr>handle_pagefault := x4\<rparr>) = asm_vmread i s" "asm_vmread i (s\<lparr>cr3exit_off := x5\<rparr>) = asm_vmread i s"
  "asm_vmread i (s\<lparr>vr_cr3 := x6\<rparr>) = asm_vmread i s" "asm_vmread i (s\<lparr>spt_cr3 := x7\<rparr>) = asm_vmread i s"
  "asm_vmread i (s\<lparr>spt_regs := y7\<rparr>) = asm_vmread i s"
  "asm_vmread i (s\<lparr>ept := x8\<rparr>) = asm_vmread i s" "asm_vmread i (s\<lparr>sw_enable := x9\<rparr>) = asm_vmread i s"
  "asm_vmread i (s\<lparr>sw_num := x10\<rparr>) = asm_vmread i s" "asm_vmread i (s\<lparr>sw_sel := x11\<rparr>) = asm_vmread i s"
  "asm_vmread i (s\<lparr>cr2 := x12\<rparr>) = asm_vmread i s" "asm_vmread i (s\<lparr>gpr := x13\<rparr>) = asm_vmread i s"
  "asm_vmread i (s\<lparr>msr_guest := x14\<rparr>) = asm_vmread i s" "asm_vmread i (s\<lparr>msr_vmm := x15\<rparr>) = asm_vmread i s"
  "asm_vmread i (s\<lparr>menv := x16\<rparr>) = asm_vmread i s" "asm_vmread i (s\<lparr>rm_idtr_base := x17\<rparr>) = asm_vmread i s"
  "asm_vmread i (s\<lparr>rm_idtr_limit := x18\<rparr>) = asm_vmread i s" "asm_vmread i (s\<lparr>rm_tr_limit := x19\<rparr>) = asm_vmread i s"
  "asm_vmread i (s\<lparr>rm_tr_acr := x20\<rparr>) = asm_vmread i s" "asm_vmread i (s\<lparr>rm_tr_base := x21\<rparr>) = asm_vmread i s"
  "asm_vmread i (s\<lparr>updateip := x22\<rparr>) = asm_vmread i s" "asm_vmread i (s\<lparr>exint_re_pending := x23\<rparr>) = asm_vmread i s"
  "asm_vmread i (s\<lparr>exint_update := x24\<rparr>) = asm_vmread i s" "asm_vmread i (s\<lparr>msr_release := x25\<rparr>) = asm_vmread i s"
  "asm_vmread i (s\<lparr>msrbmp := x26\<rparr>) = asm_vmread i s" "asm_vmread i (s\<lparr>msr_efer := x27\<rparr>) = asm_vmread i s"
  "asm_vmread i (s\<lparr>tlb_log := x28\<rparr>) = asm_vmread i s"
  by (simp_all add: asm_vmread_def)

lemma frame_clear_all:
  "keeps_regs (ept_clear_all s) = keeps_regs s" "keeps_machine (ept_clear_all s) = keeps_machine s"
  "keeps_paging (ept_clear_all s) = keeps_paging s" "(ept (ept_clear_all s) = None) = (ept s = None)"
  "keeps_spt (ept_clear_all s) = keeps_spt s"
  by (simp_all add: ept_clear_all_def vt_frame)

lemmas frame_clear_all_simps [vt_frame] = frame_clear_all [unfolded prod.inject]

lemma vmread_clear_all [vmcs_simps]: "asm_vmread i (ept_clear_all s) = asm_vmread i s"
  by (simp add: ept_clear_all_def vmcs_simps)

lemma frame_bmp:
  "keeps_regs (vt_update_exception_bmp s) = keeps_regs s"
  "keeps_machine (vt_update_exception_bmp s) = keeps_machine s"
  "keeps_paging (vt_update_exception_bmp s) = keeps_paging s" "ept (vt_update_exception_bmp s) = ept s"
  "keeps_spt (vt_update_exception_bmp s) = keeps_spt s"
  by (simp_all add: vt_update_exception_bmp_def vt_frame)

lemmas frame_bmp_simps [vt_frame] = frame_bmp [unfolded prod.inject]

lemma vmread_bmp [vmcs_simps]:
  "i \<noteq> VMCS_EXCEPTION_BMP \<Longrightarrow> asm_vmread i (vt_update_exception_bmp s) = asm_vmread i s"
  by (simp add: vt_update_exception_bmp_def vmcs_simps)

lemma frame_guest_cr3:
  "keeps_regs (vt_update_vmcs_guest_cr3 s) = keeps_regs s"
  "keeps_machine (vt_update_vmcs_guest_cr3 s) = keeps_machine s"
  "keeps_paging (vt_update_vmcs_guest_cr3 s) = keeps_paging s" "ept (vt_update_vmcs_guest_cr3 s) = ept s"
  "keeps_spt (vt_update_vmcs_guest_cr3 s) = keeps_spt s"
  by (simp_all add: vt_update_vmcs_guest_cr3_def vt_frame)

lemmas frame_guest_cr3_simps [vt_frame] = frame_guest_cr3 [unfolded prod.inject]

lemma vmread_guest_cr3 [vmcs_simps]:
  "asm_vmread i (vt_update_vmcs_guest_cr3 s) =
     (if i = VMCS_GUEST_CR3 \<and> \<not> cr3exit_off s then vr_cr3 s else asm_vmread i s)"
  by (simp add: vt_update_vmcs_guest_cr3_def vmcs_simps vmcs_kept_def vmcs_width_def take_bit_word_eq_self)

lemma ept_enabled_cong:
  "pg t = pg s \<Longrightarrow> unrestricted_guest t = unrestricted_guest s \<Longrightarrow> (ept t = None) = (ept s = None)
     \<Longrightarrow> ept_enabled t = ept_enabled s"
  by (simp add: ept_enabled_def)

lemma frame_spt:
  "keeps_regs (spt_clear_all s) = keeps_regs s" "keeps_machine (spt_clear_all s) = keeps_machine s"
  "keeps_paging (spt_clear_all s) = keeps_paging s" "ept (spt_clear_all s) = ept s"
  "keeps_regs (spt_updatecr3 s) = keeps_regs s" "keeps_machine (spt_updatecr3 s) = keeps_machine s"
  "keeps_paging (spt_updatecr3 s) = keeps_paging s" "ept (spt_updatecr3 s) = ept s"
  by (simp_all add: spt_clear_all_def spt_updatecr3_def spt_update_cr3_def vt_paging_spt_setcr3_def Let_def vt_frame)

lemmas frame_spt_simps [vt_frame] = frame_spt [unfolded prod.inject]

lemma vmread_spt [vmcs_simps]:
  "i \<noteq> VMCS_GUEST_CR3 \<or> ept_enabled s \<Longrightarrow> asm_vmread i (spt_clear_all s) = asm_vmread i s"
  "i \<noteq> VMCS_GUEST_CR3 \<or> ept_enabled s \<Longrightarrow> asm_vmread i (spt_updatecr3 s) = asm_vmread i s"
  by (auto simp: spt_clear_all_def spt_updatecr3_def spt_update_cr3_def vt_paging_spt_setcr3_def Let_def vmcs_simps ept_enabled_def)

lemma frame_updatecr3:
  "keeps_regs (vt_paging_updatecr3 s) = keeps_regs s" "keeps_machine (vt_paging_updatecr3 s) = keeps_machine s"
  "keeps_paging (vt_paging_updatecr3 s) = keeps_paging s" "ept (vt_paging_updatecr3 s) = ept s"
  by (simp_all add: vt_paging_updatecr3_def vt_ept_updatecr3_def Let_def vt_frame)

lemmas frame_updatecr3_simps [vt_frame] = frame_updatecr3 [unfolded prod.inject]

abbreviation pdptes :: "u64 set" where
  "pdptes \<equiv> {VMCS_GUEST_PDPTE0, VMCS_GUEST_PDPTE1, VMCS_GUEST_PDPTE2, VMCS_GUEST_PDPTE3}"

lemma vmread_updatecr3 [vmcs_simps]:
  "i \<notin> pdptes \<Longrightarrow> i \<noteq> VMCS_GUEST_CR3 \<or> ept_enabled s \<and> cr3exit_off s
     \<Longrightarrow> asm_vmread i (vt_paging_updatecr3 s) = asm_vmread i s"
  by (auto simp: vt_paging_updatecr3_def vt_ept_updatecr3_def Let_def vmcs_simps)

lemma frame_paging_clear:
  "keeps_regs (vt_paging_clear_all s) = keeps_regs s" "keeps_machine (vt_paging_clear_all s) = keeps_machine s"
  "keeps_paging (vt_paging_clear_all s) = keeps_paging s" "(ept (vt_paging_clear_all s) = None) = (ept s = None)"
  by (simp_all add: vt_paging_clear_all_def Let_def vt_frame)

lemmas frame_paging_clear_simps [vt_frame] = frame_paging_clear [unfolded prod.inject]

lemma vmread_paging_clear [vmcs_simps]:
  "i \<noteq> VMCS_GUEST_CR3 \<Longrightarrow> asm_vmread i (vt_paging_clear_all s) = asm_vmread i s"
  by (auto simp: vt_paging_clear_all_def Let_def vmcs_simps)

lemma frame_sregs:
  "keeps_regs (write_sregs f v s) = keeps_regs s" "keeps_machine (write_sregs f v s) = keeps_machine s"
  "keeps_paging (write_sregs f v s) = keeps_paging s" "ept (write_sregs f v s) = ept s"
  "keeps_spt (write_sregs f v s) = keeps_spt s"
  by (simp_all add: write_sregs_def vt_frame)

lemmas frame_sregs_simps [vt_frame] = frame_sregs [unfolded prod.inject]

lemma vmread_sregs [vmcs_simps]:
  "i \<notin> range f \<Longrightarrow> asm_vmread i (write_sregs f v s) = asm_vmread i s"
  by (auto simp: write_sregs_def vmcs_simps image_iff)

section \<open>Switching the paging mode\<close>

abbreviation ctl :: "u64 \<Rightarrow> nat \<Rightarrow> vcpu \<Rightarrow> bool" where
  "ctl i n s \<equiv> bit (asm_vmread i s) n"

lemma kept64: "vmcs_width i = 64 \<Longrightarrow> vmcs_kept i v = v"
  by (rule vmcs_kept_width)

lemma bit_kept: "bit (vmcs_kept i v) n = (n < vmcs_width i \<and> bit v n)"
  by (auto simp: vmcs_kept_def bit_simps)

lemma widths [vmcs_simps]:
  "vmcs_width VMCS_PROC_BASED_VMEXEC_CTL = 32" "vmcs_width VMCS_PROC_BASED_VMEXEC_CTL2 = 32"
  "vmcs_width VMCS_VMEXIT_CTL = 32" "vmcs_width VMCS_VMENTRY_CTL = 32" "vmcs_width VMCS_EXCEPTION_BMP = 32"
  "vmcs_width VMCS_GUEST_CR0 = 64" "vmcs_width VMCS_GUEST_CR3 = 64" "vmcs_width VMCS_GUEST_CR4 = 64"
  "vmcs_width VMCS_CR0_READ_SHADOW = 64" "vmcs_width VMCS_CR4_READ_SHADOW = 64"
  "vmcs_width VMCS_GUEST_RFLAGS = 64" "vmcs_width VMCS_GUEST_IA32_EFER = 64"
  "vmcs_width VMCS_GUEST_IDTR_BASE = 64" "vmcs_width VMCS_GUEST_IDTR_LIMIT = 32"
  "vmcs_width VMCS_GUEST_GDTR_BASE = 64" "vmcs_width VMCS_GUEST_GDTR_LIMIT = 32"
  "vmcs_width VMCS_GUEST_RIP = 64" "vmcs_width VMCS_GUEST_RSP = 64" "vmcs_width VMCS_GUEST_DR7 = 64"
  "vmcs_width VMCS_GUEST_TR_SEL = 16" "vmcs_width VMCS_GUEST_TR_LIMIT = 32"
  "vmcs_width VMCS_GUEST_TR_ACCESS_RIGHTS = 32" "vmcs_width VMCS_GUEST_TR_BASE = 64"
  "vmcs_width VMCS_GUEST_IA32_SYSENTER_CS = 32" "vmcs_width VMCS_GUEST_IA32_SYSENTER_ESP = 64"
  "vmcs_width VMCS_GUEST_IA32_SYSENTER_EIP = 64"
  by (simp_all add: vmcs_width_def)

lemma sreg_widths [vmcs_simps]:
  "vmcs_width (VMCS_GUEST_SEL r) = 16" "vmcs_width (VMCS_GUEST_LIMIT r) = 32"
  "vmcs_width (VMCS_GUEST_ACCESS_RIGHTS r) = 32" "vmcs_width (VMCS_GUEST_BASE r) = 64"
  by (cases r; simp add: vmcs_width_def)+

lemma frame_change_ept:
  "keeps_regs (pg_change_ept e s) = keeps_regs s" "keeps_machine (pg_change_ept e s) = keeps_machine s"
  "keeps_paging (pg_change_ept e s) = keeps_paging s" "ept (pg_change_ept e s) = ept s"
  "keeps_spt (pg_change_ept e s) = keeps_spt s"
  by (simp_all add: pg_change_ept_def Let_def vt_frame)

lemmas frame_change_ept_simps [vt_frame] = frame_change_ept [unfolded prod.inject]

abbreviation ept_controls :: "u64 set" where
  "ept_controls \<equiv> {VMCS_PROC_BASED_VMEXEC_CTL2, VMCS_VMEXIT_CTL, VMCS_VMENTRY_CTL, VMCS_HOST_IA32_PAT, VMCS_GUEST_IA32_PAT}"

lemma vmread_change_ept [vmcs_simps]:
  "i \<notin> ept_controls \<Longrightarrow> asm_vmread i (pg_change_ept e s) = asm_vmread i s"
  by (simp add: pg_change_ept_def Let_def vmcs_simps)

lemma change_ept_controls:
  "ctl VMCS_PROC_BASED_VMEXEC_CTL2 (Suc 0) (pg_change_ept e s) = e"
  "ctl VMCS_PROC_BASED_VMEXEC_CTL2 7 (pg_change_ept e s) = (e \<and> unrestricted_guest s)"
  "ctl VMCS_VMEXIT_CTL 18 (pg_change_ept e s) = e" "ctl VMCS_VMEXIT_CTL 19 (pg_change_ept e s) = e"
  "ctl VMCS_VMENTRY_CTL 14 (pg_change_ept e s) = e"
  "ctl VMCS_VMENTRY_CTL 9 (pg_change_ept e s) = ctl VMCS_VMENTRY_CTL 9 s"
  by (simp_all add: pg_change_ept_def Let_def vmcs_simps bit_kept bit_simps)

lemma cr3exit_frame:
  "keeps_regs (snd (pg_change_cr3exit u t s)) = keeps_regs s"
  "keeps_machine (snd (pg_change_cr3exit u t s)) = keeps_machine s"
  "ept (snd (pg_change_cr3exit u t s)) = ept s" "keeps_spt (snd (pg_change_cr3exit u t s)) = keeps_spt s"
  "handle_pagefault (snd (pg_change_cr3exit u t s)) = handle_pagefault s"
  "lma (snd (pg_change_cr3exit u t s)) = lma s" "msr_guest (snd (pg_change_cr3exit u t s)) = msr_guest s"
  "menv (snd (pg_change_cr3exit u t s)) = menv s"
  "i \<noteq> VMCS_GUEST_CR3 \<Longrightarrow> asm_vmread i (snd (pg_change_cr3exit u t s)) = asm_vmread i s"
  by (simp_all add: pg_change_cr3exit_def Let_def vt_write_cr3_def vt_frame vmcs_simps)

lemmas cr3exit_frame_simps [vt_frame] = cr3exit_frame [unfolded prod.inject]

lemma cr3exit_result:
  "cr3exit_off (snd (pg_change_cr3exit u t s)) = (if cr3exit_controllable s then \<not> u else cr3exit_off s)"
  "vt_read_cr3 (snd (pg_change_cr3exit u t s)) = vt_read_cr3 s"
  "cr3exit_controllable s \<Longrightarrow> bit t 15 = (\<not> cr3exit_off s) \<Longrightarrow> bit (fst (pg_change_cr3exit u t s)) 15 = u"
  "cr3exit_controllable s \<Longrightarrow> bit t 16 = (\<not> cr3exit_off s) \<Longrightarrow> bit (fst (pg_change_cr3exit u t s)) 16 = u"
  "bit (fst (pg_change_cr3exit u t s)) 9 = bit t 9"
  by (simp_all add: pg_change_cr3exit_def Let_def vt_write_cr3_def vt_read_cr3_def vt_frame vmcs_simps
      vmcs_kept_width bit_simps)

text \<open>\<open>vt_paging_pg_change\<close> in its parts: the controls, the registers, the end.\<close>

definition pg_controls :: "vcpu \<Rightarrow> vcpu" where
  "pg_controls s =
     (let s' = (if ept s \<noteq> None then pg_change_ept (ept_enabled s) s else s);
          tmp = asm_vmread VMCS_PROC_BASED_VMEXEC_CTL s';
          tmp = (if \<not> ept_enabled s then tmp OR CTL_INVLPGEXIT_BIT else tmp AND NOT CTL_INVLPGEXIT_BIT);
          r = pg_change_cr3exit (\<not> ept_enabled s) tmp s'
      in asm_vmwrite VMCS_PROC_BASED_VMEXEC_CTL (fst r) (snd r))"

definition pg_registers :: "bool \<Rightarrow> vcpu \<Rightarrow> vcpu" where
  "pg_registers use_spt s =
     (let s = asm_vmwrite VMCS_GUEST_CR0 (vt_paging_apply_fixed_cr0 (vt_read_cr0 s) s) s;
          s = (if use_spt then asm_vmwrite VMCS_GUEST_CR3 (spt_cr3 s) s else vt_update_vmcs_guest_cr3 s)
      in asm_vmwrite VMCS_GUEST_CR4 (vt_paging_apply_fixed_cr4 (vt_read_cr4 s) s) s)"

lemma pg_change_parts:
  "vt_paging_pg_change s =
     (let t = vt_update_exception_bmp ((pg_registers (\<not> ept_enabled s) (pg_controls s))\<lparr>handle_pagefault := \<not> ept_enabled s\<rparr>)
      in if ept_enabled s then ept_clear_all t else t)"
  by (simp add: vt_paging_pg_change_def pg_controls_def pg_registers_def Let_def split_beta)

lemma frame_controls:
  "keeps_regs (pg_controls s) = keeps_regs s" "keeps_machine (pg_controls s) = keeps_machine s"
  "ept (pg_controls s) = ept s" "keeps_spt (pg_controls s) = keeps_spt s"
  "handle_pagefault (pg_controls s) = handle_pagefault s" "lma (pg_controls s) = lma s"
  "msr_guest (pg_controls s) = msr_guest s" "menv (pg_controls s) = menv s"
  "cr3exit_off (pg_controls s) = (if cr3exit_controllable s then ept_enabled s else cr3exit_off s)"
  by (simp_all add: pg_controls_def Let_def vt_frame cr3exit_result)

lemmas frame_controls_simps [vt_frame] = frame_controls [unfolded prod.inject]

lemma enabled_controls [vt_frame]: "ept_enabled (pg_controls s) = ept_enabled s"
  by (simp add: ept_enabled_def vt_frame)

lemma vmread_controls [vmcs_simps]:
  "i \<notin> ept_controls \<Longrightarrow> i \<noteq> VMCS_GUEST_CR3 \<Longrightarrow> i \<noteq> VMCS_PROC_BASED_VMEXEC_CTL
     \<Longrightarrow> asm_vmread i (pg_controls s) = asm_vmread i s"
  by (simp add: pg_controls_def Let_def vmcs_simps cr3exit_frame)

lemma controls_read_cr3: "vt_read_cr3 (pg_controls s) = vt_read_cr3 s"
proof -
  have "vt_read_cr3 (asm_vmwrite VMCS_PROC_BASED_VMEXEC_CTL v t) = vt_read_cr3 t" for v t
    by (simp add: vt_read_cr3_def vmcs_simps vt_frame)
  moreover have "vt_read_cr3 (pg_change_ept e s) = vt_read_cr3 s" for e
    by (simp add: vt_read_cr3_def vmcs_simps vt_frame)
  ultimately show ?thesis by (simp add: pg_controls_def Let_def cr3exit_result)
qed

lemma frame_registers:
  "keeps_regs (pg_registers u s) = keeps_regs s" "keeps_machine (pg_registers u s) = keeps_machine s"
  "keeps_paging (pg_registers u s) = keeps_paging s" "ept (pg_registers u s) = ept s"
  "keeps_spt (pg_registers u s) = keeps_spt s"
  by (simp_all add: pg_registers_def Let_def vt_frame)

lemmas frame_registers_simps [vt_frame] = frame_registers [unfolded prod.inject]

lemma vmread_registers [vmcs_simps]:
  "i \<noteq> VMCS_GUEST_CR0 \<Longrightarrow> i \<noteq> VMCS_GUEST_CR3 \<Longrightarrow> i \<noteq> VMCS_GUEST_CR4
     \<Longrightarrow> asm_vmread i (pg_registers u s) = asm_vmread i s"
  by (simp add: pg_registers_def Let_def vmcs_simps)

lemma registers_cr3:
  "asm_vmread VMCS_GUEST_CR3 (pg_registers u s) =
     (if u then spt_cr3 s else if cr3exit_off s then asm_vmread VMCS_GUEST_CR3 s else vr_cr3 s)"
  by (simp add: pg_registers_def Let_def vmcs_simps vmcs_kept_width vt_frame)

lemma frame_pg_change:
  "keeps_regs (vt_paging_pg_change s) = keeps_regs s" "keeps_machine (vt_paging_pg_change s) = keeps_machine s"
  "lma (vt_paging_pg_change s) = lma s" "msr_guest (vt_paging_pg_change s) = msr_guest s"
  "menv (vt_paging_pg_change s) = menv s" "(ept (vt_paging_pg_change s) = None) = (ept s = None)"
  "keeps_spt (vt_paging_pg_change s) = keeps_spt s" "handle_pagefault (vt_paging_pg_change s) = (\<not> ept_enabled s)"
  "cr3exit_off (vt_paging_pg_change s) = (if cr3exit_controllable s then ept_enabled s else cr3exit_off s)"
  by (simp_all add: pg_change_parts Let_def vt_frame)

lemmas frame_pg_change_simps [vt_frame] = frame_pg_change [unfolded prod.inject]

lemma enabled_pg_change [vt_frame]: "ept_enabled (vt_paging_pg_change s) = ept_enabled s"
  by (simp add: ept_enabled_def vt_frame)

lemma vmread_pg_change [vmcs_simps]:
  "i \<notin> ept_controls \<Longrightarrow> i \<noteq> VMCS_PROC_BASED_VMEXEC_CTL \<Longrightarrow> i \<noteq> VMCS_EXCEPTION_BMP
     \<Longrightarrow> i \<notin> {VMCS_GUEST_CR0, VMCS_GUEST_CR3, VMCS_GUEST_CR4}
     \<Longrightarrow> asm_vmread i (vt_paging_pg_change s) = asm_vmread i s"
  by (simp add: pg_change_parts Let_def vmcs_simps)

lemma pg_change_vmread_controls:
  "i \<notin> {VMCS_GUEST_CR0, VMCS_GUEST_CR3, VMCS_GUEST_CR4, VMCS_EXCEPTION_BMP}
     \<Longrightarrow> asm_vmread i (vt_paging_pg_change s) = asm_vmread i (pg_controls s)"
  by (simp add: pg_change_parts Let_def vmcs_simps)

lemma pg_change_read_cr3:
  assumes "\<not> cr3exit_controllable s \<Longrightarrow> \<not> cr3exit_off s"
  shows "vt_read_cr3 (vt_paging_pg_change s) = vt_read_cr3 s"
proof -
  have "vt_read_cr3 (vt_paging_pg_change s) = vt_read_cr3 (pg_registers (\<not> ept_enabled s) (pg_controls s))"
    by (simp add: pg_change_parts Let_def vt_read_cr3_def vt_frame vmcs_simps)
  also have "\<dots> = vt_read_cr3 (pg_controls s)"
    using assms by (auto simp: vt_read_cr3_def vt_frame registers_cr3)
  finally show ?thesis by (simp add: controls_read_cr3)
qed

end
