(* ===== verification/Vt_State.thy ===== *)
theory Vt_State
  imports Vt_Frame
begin

unbundle bit_operations_syntax

text \<open>
  The invariant \<open>vt_ok\<close> of the virtual CPU, which ties the copies of the guest's mode together: the
  paging mode and the VM execution controls, the root of the page tables, long mode and EFER, the
  exception bitmap, and the flags \<open>re\<close> and \<open>pg\<close> with the guest's CR0.  Every operation keeps it and
  the reset establishes it, so it holds whenever the guest runs (\<open>vt_step\<close>, \<open>vt_reach\<close>).
\<close>

section \<open>The invariant\<close>

text \<open>
  The execution controls follow the paging mode: shadow page tables need the exits on page faults,
  INVLPG and CR3 accesses, the extended page tables the guest's own PAT.
\<close>

definition controls_ok :: "vcpu \<Rightarrow> bool" where
  "controls_ok s =
     (ctl VMCS_PROC_BASED_VMEXEC_CTL 9 s = (\<not> ept_enabled s)
      \<and> (cr3exit_controllable s \<longrightarrow>
           ctl VMCS_PROC_BASED_VMEXEC_CTL 15 s = (\<not> cr3exit_off s)
           \<and> ctl VMCS_PROC_BASED_VMEXEC_CTL 16 s = (\<not> cr3exit_off s))
      \<and> (ept s \<noteq> None \<longrightarrow>
           ctl VMCS_PROC_BASED_VMEXEC_CTL2 1 s = ept_enabled s
           \<and> ctl VMCS_PROC_BASED_VMEXEC_CTL2 7 s = (ept_enabled s \<and> unrestricted_guest s)
           \<and> ctl VMCS_VMEXIT_CTL 18 s = ept_enabled s \<and> ctl VMCS_VMEXIT_CTL 19 s = ept_enabled s
           \<and> ctl VMCS_VMENTRY_CTL 14 s = ept_enabled s))"

definition paging_ok :: "vcpu \<Rightarrow> bool" where
  "paging_ok s =
     (controls_ok s \<and> handle_pagefault s = (\<not> ept_enabled s)
      \<and> cr3exit_off s = (ept_enabled s \<and> cr3exit_controllable s))"

text \<open>
  The processor walks the guest's own tables, or the shadow tables, whose root \<open>spt_cr3\<close> is known
  unless they are never used.
\<close>

definition spt_ok :: "vcpu \<Rightarrow> bool" where
  "spt_ok s = (unrestricted_guest s \<and> ept s \<noteq> None \<or> spt_cr3 s = spt_cr3tbl_phys s)"

definition root_ok :: "vcpu \<Rightarrow> bool" where
  "root_ok s =
     (asm_vmread VMCS_GUEST_CR3 s = (if ept_enabled s then vt_read_cr3 s else spt_cr3tbl_phys s) \<and> spt_ok s)"

text \<open>Long mode: the flag, the VM entry control and the guest's EFER agree.\<close>

definition long_ok :: "vcpu \<Rightarrow> bool" where
  "long_ok s =
     (lma s = (lme s \<and> pg s) \<and> ctl VMCS_VMENTRY_CTL 9 s = lma s
      \<and> (\<not> save_load_efer_enable s \<longrightarrow> msr_efer s < int (length (msr_guest s)))
      \<and> pred_option (\<lambda>e. bit e 8 = lma s \<and> bit e 10 = lma s) (read_guest_efer s))"

text \<open>The mode flags and the guest's CR0; real mode is emulated in virtual 8086 mode.\<close>

definition mode_ok :: "vcpu \<Rightarrow> bool" where
  "mode_ok s =
     (pg s = (ctl VMCS_CR0_READ_SHADOW 0 s \<and> ctl VMCS_CR0_READ_SHADOW 31 s)
      \<and> re s = (\<not> unrestricted_guest s \<and> \<not> ctl VMCS_CR0_READ_SHADOW 0 s)
      \<and> (re s \<longrightarrow> ctl VMCS_GUEST_RFLAGS 17 s))"

definition bmp_ok :: "vcpu \<Rightarrow> bool" where
  "bmp_ok s =
     (asm_vmread VMCS_EXCEPTION_BMP s =
        (if \<not> re s \<and> sw_enable s = 0 then (if handle_pagefault s then 0x4004 else 0x4) else 0xFFFFFFFF))"

definition vt_ok :: "vcpu \<Rightarrow> bool" where
  "vt_ok s = (paging_ok s \<and> root_ok s \<and> long_ok s \<and> mode_ok s \<and> bmp_ok s)"

lemmas vt_ok_parts = vt_ok_def paging_ok_def controls_ok_def root_ok_def spt_ok_def long_ok_def mode_ok_def bmp_ok_def

subsection \<open>Steps that establish a part\<close>

lemma bmp_established [simp]: "bmp_ok (vt_update_exception_bmp s)"
  by (simp add: bmp_ok_def vt_update_exception_bmp_def Let_def vt_frame vmcs_simps vmcs_kept_def take_bit_eq_mask
      mask_eq_exp_minus_1)

lemma pg_change_controls:
  assumes "cr3exit_controllable s \<Longrightarrow> ctl VMCS_PROC_BASED_VMEXEC_CTL 15 s = (\<not> cr3exit_off s)
    \<and> ctl VMCS_PROC_BASED_VMEXEC_CTL 16 s = (\<not> cr3exit_off s)"
  shows "controls_ok (vt_paging_pg_change s)"
proof -
  let ?t = "if ept s \<noteq> None then pg_change_ept (ept_enabled s) s else s"
  have t: "asm_vmread VMCS_PROC_BASED_VMEXEC_CTL ?t = asm_vmread VMCS_PROC_BASED_VMEXEC_CTL s"
    "cr3exit_controllable ?t = cr3exit_controllable s" "cr3exit_off ?t = cr3exit_off s"
    by (auto simp: vmcs_simps vt_frame)
  have "asm_vmread i (pg_controls s) = asm_vmread i ?t"
    if "i \<noteq> VMCS_PROC_BASED_VMEXEC_CTL" "i \<noteq> VMCS_GUEST_CR3" for i
    using that by (simp add: pg_controls_def Let_def vmcs_simps cr3exit_frame)
  then have e: "ept s \<noteq> None \<Longrightarrow> i \<in> {VMCS_PROC_BASED_VMEXEC_CTL2, VMCS_VMEXIT_CTL, VMCS_VMENTRY_CTL}
      \<Longrightarrow> asm_vmread i (vt_paging_pg_change s) = asm_vmread i (pg_change_ept (ept_enabled s) s)" for i
    by (subst pg_change_vmread_controls) auto
  have c: "asm_vmread VMCS_PROC_BASED_VMEXEC_CTL (vt_paging_pg_change s) =
      asm_vmread VMCS_PROC_BASED_VMEXEC_CTL (pg_controls s)"
    by (simp add: pg_change_vmread_controls)
  show ?thesis
    using assms t by (auto simp: controls_ok_def e change_ept_controls vt_frame c pg_controls_def Let_def vmcs_simps
        bit_kept cr3exit_result bit_simps)
qed

lemma pg_change_bmp [simp]: "bmp_ok (vt_paging_pg_change s)"
proof -
  have "bmp_ok t \<Longrightarrow> bmp_ok (ept_clear_all t)" for t
    by (simp add: bmp_ok_def vt_frame vmcs_simps)
  then show ?thesis by (simp add: pg_change_parts Let_def)
qed

lemma pg_change_paging:
  assumes "cr3exit_controllable s \<Longrightarrow> ctl VMCS_PROC_BASED_VMEXEC_CTL 15 s = (\<not> cr3exit_off s)
    \<and> ctl VMCS_PROC_BASED_VMEXEC_CTL 16 s = (\<not> cr3exit_off s)" "\<not> cr3exit_controllable s \<Longrightarrow> \<not> cr3exit_off s"
  shows "paging_ok (vt_paging_pg_change s)"
  using assms by (auto simp: paging_ok_def pg_change_controls vt_frame)

text \<open>
  The root is established when the shadow tables' root is in the VMCS already, or when their
  registers have changed, as at the first reset: then CR0 differs from the initial value.
\<close>

definition root_ready :: "vcpu \<Rightarrow> bool" where
  "root_ready s = (spt_ok s \<and> (ept_enabled s \<or> asm_vmread VMCS_GUEST_CR3 s = spt_cr3 s))"

definition root_fresh :: "vcpu \<Rightarrow> bool" where
  "root_fresh s = (\<not> ept_enabled s \<and> fst (spt_regs s) = NOT 0)"

lemma root_readyI: "root_ok s \<Longrightarrow> root_ready s"
  by (auto simp: root_ok_def root_ready_def spt_ok_def ept_enabled_def)

lemma root_cong:
  assumes "keeps_spt t = keeps_spt s" "unrestricted_guest t = unrestricted_guest s" "(ept t = None) = (ept s = None)"
    "spt_cr3tbl_phys t = spt_cr3tbl_phys s" "pg t = pg s"
  shows "spt_ok t = spt_ok s" "root_fresh t = root_fresh s"
    "asm_vmread VMCS_GUEST_CR3 t = asm_vmread VMCS_GUEST_CR3 s \<Longrightarrow> root_ready t = root_ready s"
proof -
  have e: "ept_enabled t = ept_enabled s" using assms by (simp add: ept_enabled_def)
  have o: "spt_ok t = spt_ok s" unfolding spt_ok_def using assms by (simp del: not_None_eq)
  show "spt_ok t = spt_ok s" by (rule o)
  show "root_fresh t = root_fresh s" unfolding root_fresh_def e using assms by simp
  show "root_ready t = root_ready s" if "asm_vmread VMCS_GUEST_CR3 t = asm_vmread VMCS_GUEST_CR3 s"
    unfolding root_ready_def e o that using assms by simp
qed

lemma fresh_state:
  assumes "root_fresh s" "\<not> ctl VMCS_CR0_READ_SHADOW 0 s"
  shows "spt_state s \<noteq> spt_regs s"
proof
  assume "spt_state s = spt_regs s"
  then have "vt_read_cr0 s = NOT 0" using assms(1) unfolding root_fresh_def spt_state_def by (metis fst_conv)
  then have "bit (vt_read_cr0 s) 0" by simp
  with assms(2) show False by (simp add: vt_read_cr0_def vt_read_cr_def VT_CR0_GUESTHOST_MASK_def bit_simps)
qed

lemma updatecr3_root:
  assumes "cr3exit_off s \<Longrightarrow> ept_enabled s" "root_ready s \<or> root_fresh s \<and> \<not> ctl VMCS_CR0_READ_SHADOW 0 s"
  shows "root_ok (vt_paging_updatecr3 s)"
proof (cases "ept_enabled s")
  case True
  then have "ept_enabled (vt_paging_updatecr3 s)"
    by (simp add: ept_enabled_def vt_frame)
  moreover have "asm_vmread VMCS_GUEST_CR3 (vt_paging_updatecr3 s) = vt_read_cr3 s"
    using True by (simp add: vt_paging_updatecr3_def vt_ept_updatecr3_def Let_def vmcs_simps vt_frame vt_read_cr3_def)
  moreover have "vt_read_cr3 (vt_paging_updatecr3 s) = vt_read_cr3 s"
    using True by (simp add: vt_read_cr3_def vt_frame vmcs_simps)
  moreover have "keeps_spt (vt_paging_updatecr3 s) = keeps_spt s"
    using True by (simp add: vt_paging_updatecr3_def vt_ept_updatecr3_def Let_def vt_frame)
  then have "spt_ok (vt_paging_updatecr3 s) = spt_ok s" by (rule root_cong) (simp_all add: vt_frame)
  moreover have "spt_ok s" using assms(2) True by (auto simp: root_ready_def root_fresh_def)
  ultimately show ?thesis by (simp add: root_ok_def)
next
  case False
  then have n: "\<not> ept_enabled (vt_paging_updatecr3 s)"
    by (simp add: ept_enabled_def vt_frame)
  have u: "vt_paging_updatecr3 s = spt_updatecr3 s" using False by (simp add: vt_paging_updatecr3_def)
  show ?thesis
  proof (cases "spt_state s = spt_regs s")
    case True
    then have "root_ready s" using assms(2) fresh_state by blast
    then have "asm_vmread VMCS_GUEST_CR3 s = spt_cr3tbl_phys s" "spt_ok s" "spt_cr3 s = spt_cr3tbl_phys s"
      using False by (auto simp: root_ready_def spt_ok_def ept_enabled_def)
    then show ?thesis
      using n True by (simp add: root_ok_def u spt_updatecr3_def spt_update_cr3_def vt_frame vmcs_simps spt_ok_def)
  next
    case f: False
    have "\<not> ept_enabled (s\<lparr>spt_regs := x, spt_cr3 := y\<rparr>)" for x y
      using False by (simp add: ept_enabled_def)
    then show ?thesis
      using n f by (simp add: root_ok_def u spt_updatecr3_def spt_update_cr3_def vt_paging_spt_setcr3_def Let_def
          vmcs_simps vt_frame vmcs_kept_width spt_ok_def)
  qed
qed

lemma pg_change_ready:
  "root_ready s \<Longrightarrow> root_ready (vt_paging_pg_change (s\<lparr>pg := b\<rparr>))"
  "root_fresh s \<Longrightarrow> \<not> b \<Longrightarrow> root_fresh (vt_paging_pg_change (s\<lparr>pg := b\<rparr>))"
proof -
  let ?s = "s\<lparr>pg := b\<rparr>"
  have "asm_vmread VMCS_GUEST_CR3 (vt_paging_pg_change ?s) = spt_cr3 ?s" if "\<not> ept_enabled ?s"
    using that by (simp add: pg_change_parts Let_def vmcs_simps registers_cr3 vt_frame)
  then show "root_ready s \<Longrightarrow> root_ready (vt_paging_pg_change ?s)"
    by (auto simp: root_ready_def spt_ok_def vt_frame)
  show "root_fresh s \<Longrightarrow> \<not> b \<Longrightarrow> root_fresh (vt_paging_pg_change ?s)"
    by (auto simp: root_fresh_def vt_frame ept_enabled_def)
qed

subsection \<open>What the parts depend on\<close>

abbreviation watched :: "u64 set" where
  "watched \<equiv> {VMCS_PROC_BASED_VMEXEC_CTL, VMCS_PROC_BASED_VMEXEC_CTL2, VMCS_VMEXIT_CTL, VMCS_VMENTRY_CTL,
     VMCS_GUEST_CR3, VMCS_GUEST_IA32_EFER, VMCS_CR0_READ_SHADOW, VMCS_GUEST_RFLAGS, VMCS_EXCEPTION_BMP}"

abbreviation keeps_state where
  "keeps_state s \<equiv> (re s, pg s, lme s, lma s, sw_enable s, handle_pagefault s, cr3exit_off s, vr_cr3 s,
     unrestricted_guest s, save_load_efer_enable s, cr3exit_controllable s, msr_efer s, msr_guest s,
     spt_cr3tbl_phys s, spt_cr3 s, ept s = None)"

lemma vt_ok_cong:
  assumes "keeps_state t = keeps_state s" "\<And>i. i \<in> watched \<Longrightarrow> asm_vmread i t = asm_vmread i s"
  shows "vt_ok t = vt_ok s"
proof -
  have "ept_enabled t = ept_enabled s" using assms(1) by (auto simp: ept_enabled_def)
  moreover have "vt_read_cr3 t = vt_read_cr3 s" using assms by (auto simp: vt_read_cr3_def)
  moreover have "read_guest_efer t = read_guest_efer s"
    using assms by (auto simp: read_guest_efer_def vt_read_guest_msr_def)
  ultimately show ?thesis
    using assms unfolding vt_ok_parts by (simp del: not_None_eq)
qed

lemma parts_vmwrite:
  assumes "i \<notin> watched - {VMCS_CR0_READ_SHADOW}"
  shows "paging_ok (asm_vmwrite i v s) = paging_ok s" "long_ok (asm_vmwrite i v s) = long_ok s"
    "bmp_ok (asm_vmwrite i v s) = bmp_ok s" "i \<noteq> VMCS_CR0_READ_SHADOW \<Longrightarrow> mode_ok (asm_vmwrite i v s) = mode_ok s"
proof -
  have e: "ept_enabled (asm_vmwrite i v s) = ept_enabled s" "read_guest_efer (asm_vmwrite i v s) = read_guest_efer s"
    using assms by (auto simp: ept_enabled_def read_guest_efer_def vt_read_guest_msr_def vt_frame vmcs_simps)
  have r: "asm_vmread j (asm_vmwrite i v s) = asm_vmread j s" if "j \<in> watched - {VMCS_CR0_READ_SHADOW}" for j
    using assms that by (auto simp: vmcs_simps)
  show "paging_ok (asm_vmwrite i v s) = paging_ok s" "long_ok (asm_vmwrite i v s) = long_ok s"
    "bmp_ok (asm_vmwrite i v s) = bmp_ok s"
    unfolding paging_ok_def controls_ok_def long_ok_def bmp_ok_def e by (simp_all add: r vt_frame)
  show "mode_ok (asm_vmwrite i v s) = mode_ok s" if "i \<noteq> VMCS_CR0_READ_SHADOW"
    unfolding mode_ok_def using that assms by (auto simp: vt_frame vmread_vmwrite)
qed

lemma vt_ok_vmwrite: "i \<notin> watched \<Longrightarrow> vt_ok (asm_vmwrite i v s) = vt_ok s"
  by (rule vt_ok_cong) (auto simp: vt_frame vmcs_simps)

lemma vt_ok_flush [simp]: "vt_ok (vt_paging_flush_guest_tlb s) = vt_ok s"
  by (rule vt_ok_cong) (auto simp: vt_frame vmcs_simps)

lemma vt_ok_clear_ept [simp]: "vt_ok (ept_clear_all s) = vt_ok s"
  by (rule vt_ok_cong) (auto simp: vt_frame vmcs_simps)

text \<open>A change of the cached CR3 and its new root keeps the rest.\<close>

lemma enabled_updatecr3 [vt_frame]: "ept_enabled (vt_paging_updatecr3 s) = ept_enabled s"
  by (simp add: ept_enabled_def vt_frame)

lemma updatecr3_others:
  "paging_ok (vt_paging_updatecr3 s) = paging_ok s" "mode_ok (vt_paging_updatecr3 s) = mode_ok s"
  "bmp_ok (vt_paging_updatecr3 s) = bmp_ok s" "long_ok (vt_paging_updatecr3 s) = long_ok s"
proof -
  have "read_guest_efer (vt_paging_updatecr3 s) = read_guest_efer s"
    by (simp add: read_guest_efer_def vt_read_guest_msr_def vt_frame vmcs_simps)
  then show "long_ok (vt_paging_updatecr3 s) = long_ok s"
    by (simp add: long_ok_def vt_frame vmcs_simps)
qed (simp_all add: paging_ok_def controls_ok_def mode_ok_def bmp_ok_def vt_frame vmcs_simps)

lemma updatecr3_ok:
  assumes "paging_ok s" "long_ok s" "mode_ok s" "bmp_ok s" "root_ready s"
  shows "vt_ok (vt_paging_updatecr3 s)"
proof -
  have "root_ok (vt_paging_updatecr3 s)"
    by (rule updatecr3_root) (use assms(1,5) in \<open>simp_all add: paging_ok_def\<close>)
  then show ?thesis using assms by (simp add: vt_ok_def updatecr3_others)
qed

subsection \<open>Long mode\<close>

text \<open>The part of \<open>long_ok\<close> that holds while \<open>lme\<close> or \<open>pg\<close> has just changed.\<close>

definition lma_ok :: "vcpu \<Rightarrow> bool" where
  "lma_ok s =
     (ctl VMCS_VMENTRY_CTL 9 s = lma s
      \<and> (\<not> save_load_efer_enable s \<longrightarrow> msr_efer s < int (length (msr_guest s)))
      \<and> pred_option (\<lambda>e. bit e 8 = lma s \<and> bit e 10 = lma s) (read_guest_efer s))"

lemma long_ok_iff: "long_ok s = (lma s = (lme s \<and> pg s) \<and> lma_ok s)"
  by (simp add: long_ok_def lma_ok_def)

lemma frame_change_efer:
  "keeps_regs (change_efer f s) = keeps_regs s" "keeps_machine (change_efer f s) = keeps_machine s"
  "vr_cr3 (change_efer f s) = vr_cr3 s" "cr3exit_off (change_efer f s) = cr3exit_off s"
  "handle_pagefault (change_efer f s) = handle_pagefault s" "lma (change_efer f s) = lma s"
  "menv (change_efer f s) = menv s" "ept (change_efer f s) = ept s" "keeps_spt (change_efer f s) = keeps_spt s"
  "length (msr_guest (change_efer f s)) = length (msr_guest s)"
  by (simp_all add: change_efer_def write_guest_efer_def vt_write_guest_msr_def vt_frame split: option.split)

lemmas frame_change_efer_simps [vt_frame] = frame_change_efer [unfolded prod.inject]

lemma vmread_change_efer [vmcs_simps]:
  "i \<noteq> VMCS_GUEST_IA32_EFER \<Longrightarrow> asm_vmread i (change_efer f s) = asm_vmread i s"
  by (simp add: change_efer_def write_guest_efer_def vt_write_guest_msr_def vmcs_simps split: option.split)

lemma read_change_efer:
  assumes "\<not> save_load_efer_enable s \<Longrightarrow> msr_efer s < int (length (msr_guest s))"
  shows "read_guest_efer (change_efer f s) = map_option f (read_guest_efer s)"
  using assms by (auto simp: change_efer_def write_guest_efer_def vt_write_guest_msr_def read_guest_efer_def
      vt_read_guest_msr_def vt_frame vmcs_simps vmcs_kept_width nat_less_iff)

lemma frame_update_lma:
  "keeps_regs (vt_msr_update_lma s) = keeps_regs s" "keeps_machine (vt_msr_update_lma s) = keeps_machine s"
  "vr_cr3 (vt_msr_update_lma s) = vr_cr3 s" "cr3exit_off (vt_msr_update_lma s) = cr3exit_off s"
  "handle_pagefault (vt_msr_update_lma s) = handle_pagefault s" "menv (vt_msr_update_lma s) = menv s"
  "ept (vt_msr_update_lma s) = ept s" "length (msr_guest (vt_msr_update_lma s)) = length (msr_guest s)"
  "lma (vt_msr_update_lma s) = (lme s \<and> pg s)" "keeps_spt (vt_msr_update_lma s) = keeps_spt s"
  by (auto simp: vt_msr_update_lma_def vt_frame)

lemmas frame_update_lma_simps [vt_frame] = frame_update_lma [unfolded prod.inject]

lemma vmread_update_lma [vmcs_simps]:
  "i \<noteq> VMCS_GUEST_IA32_EFER \<Longrightarrow> i \<noteq> VMCS_VMENTRY_CTL \<Longrightarrow> asm_vmread i (vt_msr_update_lma s) = asm_vmread i s"
  by (auto simp: vt_msr_update_lma_def vmcs_simps)

lemma update_lma_entry:
  "ctl VMCS_VMENTRY_CTL 14 (vt_msr_update_lma s) = ctl VMCS_VMENTRY_CTL 14 s"
  by (auto simp: vt_msr_update_lma_def vmcs_simps bit_kept bit_simps)

lemma enabled_update_lma [vt_frame]: "ept_enabled (vt_msr_update_lma s) = ept_enabled s"
  by (simp add: ept_enabled_def vt_frame)

lemma update_lma_long:
  assumes "lma_ok s"
  shows "long_ok (vt_msr_update_lma s)"
proof -
  let ?v = "\<lambda>f b. vmcs_change VMCS_VMENTRY_CTL f (s\<lparr>lma := b\<rparr>)"
  have r: "read_guest_efer (?v f b) = read_guest_efer s" for f b
    by (simp add: read_guest_efer_def vt_read_guest_msr_def vt_frame vmcs_simps)
  have c: "read_guest_efer (change_efer g (?v f b)) = map_option g (read_guest_efer s)" for f g b
    using assms by (subst read_change_efer) (auto simp: r lma_ok_def vt_frame)
  show ?thesis
    using assms by (auto simp: long_ok_def lma_ok_def vt_msr_update_lma_def c vt_frame vmcs_simps bit_kept bit_simps
        option.pred_map comp_def elim: option.pred_mono_strong)
qed

lemma update_lma_others:
  "paging_ok (vt_msr_update_lma s) = paging_ok s" "mode_ok (vt_msr_update_lma s) = mode_ok s"
  "bmp_ok (vt_msr_update_lma s) = bmp_ok s"
  by (simp_all add: paging_ok_def controls_ok_def mode_ok_def bmp_ok_def vt_frame vmcs_simps update_lma_entry)

subsection \<open>The switch between real and protected mode\<close>

abbreviation keeps_outer where
  "keeps_outer s \<equiv> (pg s, lme s, lma s, handle_pagefault s, cr3exit_off s, vr_cr3 s, unrestricted_guest s,
     save_load_efer_enable s, cr3exit_controllable s, msr_efer s, msr_guest s, spt_cr3tbl_phys s, ept s, menv s,
     cr2 s, gpr s, spt_cr3 s, spt_regs s, vpid s, invept_available s, gmem s, wrmsr_gp s, msr_release s, head_phys s)"

text \<open>The fields of the VMCS the switch writes.\<close>

definition pe_fields :: "u64 set" where
  "pe_fields = {VMCS_GUEST_TR_LIMIT, VMCS_GUEST_TR_ACCESS_RIGHTS, VMCS_GUEST_TR_BASE, VMCS_GUEST_IDTR_BASE,
     VMCS_GUEST_IDTR_LIMIT, VMCS_GUEST_RFLAGS, VMCS_EXCEPTION_BMP}
     \<union> range VMCS_GUEST_SEL \<union> range VMCS_GUEST_ACCESS_RIGHTS \<union> range VMCS_GUEST_LIMIT"

lemma UNIV_sreg: "(UNIV :: sreg set) = set sregs"
  by (auto intro: sreg.exhaust)

lemma sreg_ranges:
  "range VMCS_GUEST_SEL = {0x800, 0x802, 0x804, 0x806, 0x808, 0x80A}"
  "range VMCS_GUEST_LIMIT = {0x4800, 0x4802, 0x4804, 0x4806, 0x4808, 0x480A}"
  "range VMCS_GUEST_ACCESS_RIGHTS = {0x4814, 0x4816, 0x4818, 0x481A, 0x481C, 0x481E}"
  "range VMCS_GUEST_BASE = {0x6806, 0x6808, 0x680A, 0x680C, 0x680E, 0x6810}"
  by (simp_all add: UNIV_sreg)

lemma frame_pe_parts:
  "keeps_outer (vt_write_idtr b l s) = keeps_outer s" "keeps_outer (pe_change_switch_tr p s) = keeps_outer s"
  "keeps_outer (save_sel r s) = keeps_outer s" "keeps_outer (use_sel r s) = keeps_outer s"
  "keeps_outer (use_base r s) = keeps_outer s" "keeps_outer (sw_clear r s) = keeps_outer s"
  "keeps_outer (write_sregs f v s) = keeps_outer s" "keeps_outer (vt_update_exception_bmp s) = keeps_outer s"
  by (simp_all add: vt_write_idtr_def pe_change_switch_tr_def save_sel_def use_sel_def use_base_def sw_clear_def
      write_sregs_def vt_update_exception_bmp_def Let_def asm_vmwrite_def)

lemmas frame_pe_parts_simps = frame_pe_parts [unfolded prod.inject]

lemma vmread_pe_parts:
  "i \<notin> pe_fields \<Longrightarrow> asm_vmread i (vt_write_idtr b l s) = asm_vmread i s"
  "i \<notin> pe_fields \<Longrightarrow> asm_vmread i (pe_change_switch_tr p s) = asm_vmread i s"
  "asm_vmread i (save_sel r s) = asm_vmread i s" "asm_vmread i (sw_clear r s) = asm_vmread i s"
  "i \<notin> pe_fields \<Longrightarrow> asm_vmread i (use_sel r s) = asm_vmread i s"
  "i \<notin> pe_fields \<Longrightarrow> asm_vmread i (use_base r s) = asm_vmread i s"
  by (auto simp: vt_write_idtr_def pe_change_switch_tr_def save_sel_def use_sel_def use_base_def sw_clear_def
      Let_def vmcs_simps pe_fields_def)

lemma vmread_pe_sregs:
  "i \<notin> pe_fields \<Longrightarrow> asm_vmread i (write_sregs VMCS_GUEST_SEL v s) = asm_vmread i s"
  "i \<notin> pe_fields \<Longrightarrow> asm_vmread i (write_sregs VMCS_GUEST_ACCESS_RIGHTS v s) = asm_vmread i s"
  "i \<notin> pe_fields \<Longrightarrow> asm_vmread i (write_sregs VMCS_GUEST_LIMIT v s) = asm_vmread i s"
  by (auto simp: vmcs_simps pe_fields_def)

lemma frame_enable_sw:
  "keeps_outer (enable_sw_protected s) = keeps_outer s" "keeps_outer (enable_sw_real s) = keeps_outer s"
  by (simp_all add: enable_sw_protected_def enable_sw_real_def Let_def frame_pe_parts_simps vt_frame)

lemma vmread_enable_sw:
  "i \<notin> pe_fields \<Longrightarrow> asm_vmread i (enable_sw_protected s) = asm_vmread i s"
  "i \<notin> pe_fields \<Longrightarrow> asm_vmread i (enable_sw_real s) = asm_vmread i s"
proof -
  assume i: "i \<notin> pe_fields"
  then have "i \<noteq> VMCS_GUEST_RFLAGS" by (auto simp: pe_fields_def)
  then show "asm_vmread i (enable_sw_protected s) = asm_vmread i s" "asm_vmread i (enable_sw_real s) = asm_vmread i s"
    using i by (simp_all add: enable_sw_protected_def enable_sw_real_def Let_def vmread_pe_parts vmread_pe_sregs vmread_vmwrite)
qed

lemma frame_pe_re:
  "re (vt_write_idtr b l s) = re s" "re (pe_change_switch_tr p s) = re s" "re (save_sel r s) = re s"
  "re (use_sel r s) = re s" "re (use_base r s) = re s" "re (sw_clear r s) = re s"
  by (simp_all add: vt_write_idtr_def pe_change_switch_tr_def save_sel_def use_sel_def use_base_def sw_clear_def
      Let_def vt_frame)

lemma frame_pe_more:
  "re (enable_sw_protected s) = re s" "re (enable_sw_real s) = re s"
  by (simp_all add: enable_sw_protected_def enable_sw_real_def Let_def frame_pe_re vt_frame)

lemma frame_enable:
  "keeps_outer (pe_change_enable_sw pe s) = keeps_outer s" "re (pe_change_enable_sw pe s) = re s"
  by (simp_all add: pe_change_enable_sw_def Let_def frame_pe_parts_simps frame_pe_re frame_pe_more vt_frame
      frame_enable_sw [unfolded prod.inject])

lemma frame_pe_change: "keeps_outer (pe_change pe s) = keeps_outer s" "re (pe_change pe s) = (\<not> pe)"
  by (simp_all add: pe_change_def Let_def split_beta frame_pe_parts_simps frame_pe_re
        frame_enable [unfolded prod.inject])

lemmas frame_pe_change_simps [vt_frame] = frame_pe_change [unfolded prod.inject]

lemma vmread_pe_change [vmcs_simps]: "i \<notin> pe_fields \<Longrightarrow> asm_vmread i (pe_change pe s) = asm_vmread i s"
proof -
  assume i: "i \<notin> pe_fields"
  then have "i \<noteq> VMCS_EXCEPTION_BMP" by (auto simp: pe_fields_def)
  then show ?thesis
    using i by (simp add: pe_change_def pe_change_enable_sw_def Let_def split_beta vmread_pe_parts vmread_enable_sw
        vmread_bmp vmread_upd)
qed

lemma pg_change_entry: "ctl VMCS_VMENTRY_CTL 9 (vt_paging_pg_change s) = ctl VMCS_VMENTRY_CTL 9 s"
proof -
  have "asm_vmread VMCS_VMENTRY_CTL (vt_paging_pg_change s) =
      asm_vmread VMCS_VMENTRY_CTL (if ept s \<noteq> None then pg_change_ept (ept_enabled s) s else s)"
    by (subst pg_change_vmread_controls) (simp_all add: pg_controls_def Let_def vmcs_simps cr3exit_frame)
  then show ?thesis by (simp add: change_ept_controls)
qed

lemma pg_change_lma: "lma_ok (vt_paging_pg_change s) = lma_ok s" "lma_ok (s\<lparr>pg := b\<rparr>) = lma_ok s"
proof -
  have e: "read_guest_efer (vt_paging_pg_change s) = read_guest_efer s" "read_guest_efer (s\<lparr>pg := b\<rparr>) = read_guest_efer s"
    by (simp_all add: read_guest_efer_def vt_read_guest_msr_def vt_frame vmcs_simps)
  then show "lma_ok (vt_paging_pg_change s) = lma_ok s" "lma_ok (s\<lparr>pg := b\<rparr>) = lma_ok s"
    by (simp_all add: lma_ok_def vt_frame vmcs_simps pg_change_entry)
qed

lemma pe_change_parts_ok:
  "paging_ok (pe_change pe s) = paging_ok s" "lma_ok (pe_change pe s) = lma_ok s" "bmp_ok (pe_change pe s)"
proof -
  have e: "ept_enabled (pe_change pe s) = ept_enabled s" by (simp add: ept_enabled_def vt_frame)
  have w: "asm_vmread i (pe_change pe s) = asm_vmread i s"
    if "i \<in> {VMCS_PROC_BASED_VMEXEC_CTL, VMCS_PROC_BASED_VMEXEC_CTL2, VMCS_VMEXIT_CTL, VMCS_VMENTRY_CTL, VMCS_GUEST_IA32_EFER}" for i
    by (rule vmread_pe_change) (use that in \<open>auto simp: pe_fields_def sreg_ranges\<close>)
  show "paging_ok (pe_change pe s) = paging_ok s" by (simp add: paging_ok_def controls_ok_def e w vt_frame)
  have "read_guest_efer (pe_change pe s) = read_guest_efer s"
    by (simp add: read_guest_efer_def vt_read_guest_msr_def w vt_frame)
  then show "lma_ok (pe_change pe s) = lma_ok s" by (simp add: lma_ok_def w vt_frame)
  have "bmp_ok (t\<lparr>exint_re_pending := False, exint_update := True\<rparr>) = bmp_ok t" for t
    by (simp add: bmp_ok_def vmcs_simps)
  then show "bmp_ok (pe_change pe s)"
    by (simp add: pe_change_def pe_change_enable_sw_def Let_def split_beta)
qed

lemma pe_fields_out [simp]:
  "VMCS_CR0_READ_SHADOW \<notin> pe_fields" "VMCS_GUEST_CR3 \<notin> pe_fields" "VMCS_CR4_READ_SHADOW \<notin> pe_fields"
  "VMCS_GUEST_CR4 \<notin> pe_fields" "VMCS_GUEST_CR0 \<notin> pe_fields"
  by (simp_all add: pe_fields_def sreg_ranges)

lemma use_flags:
  "asm_vmread VMCS_GUEST_RFLAGS (use_sel r s) = asm_vmread VMCS_GUEST_RFLAGS s"
  "asm_vmread VMCS_GUEST_RFLAGS (use_base r s) = asm_vmread VMCS_GUEST_RFLAGS s"
  "asm_vmread VMCS_GUEST_RFLAGS (pe_change_switch_tr p s) = asm_vmread VMCS_GUEST_RFLAGS s"
  "asm_vmread VMCS_GUEST_RFLAGS (vt_write_idtr b l s) = asm_vmread VMCS_GUEST_RFLAGS s"
  by (cases r; simp add: use_sel_def use_base_def sw_clear_def pe_change_switch_tr_def vt_write_idtr_def Let_def vmcs_simps)+

lemma pe_change_flags:
  "asm_vmread VMCS_GUEST_RFLAGS (pe_change pe s) =
     (if pe then asm_vmread VMCS_GUEST_RFLAGS s AND NOT RFLAGS_VM_BIT
      else asm_vmread VMCS_GUEST_RFLAGS s OR RFLAGS_VM_BIT)"
  by (simp add: pe_change_def pe_change_enable_sw_def enable_sw_protected_def enable_sw_real_def Let_def split_beta
      use_flags vmread_sregs sreg_ranges vmread_pe_parts vmcs_simps vmcs_kept_width)

subsection \<open>Every operation keeps the invariant\<close>

lemma flag_bits:
  "(v AND CR0_PE_BIT \<noteq> 0) = bit v 0" "(v AND CR0_PG_BIT \<noteq> 0) = bit v 31" for v :: u64
  using and_exp_eq_0_iff_not_bit [of v 0] and_exp_eq_0_iff_not_bit [of v 31] by simp_all

lemma write_cr0_ok:
  assumes "vt_ok s"
  shows "vt_ok (write_cr0 v s)"
proof -
  define pe where "pe = bit v 0"
  define val where "val = (if \<not> pe then v AND NOT CR0_PG_BIT else v)"
  define s1 where "s1 = asm_vmwrite VMCS_CR0_READ_SHADOW v s"
  define s2 where "s2 = (if pe \<noteq> (\<not> re s1) \<and> \<not> unrestricted_guest s1 then pe_change pe s1 else s1)"
  define paging where "paging = bit val 31"
  define s3 where "s3 = (if paging \<noteq> pg s2 then vt_paging_pg_change (s2\<lparr>pg := paging\<rparr>) else s2)"
  note ok = assms [unfolded vt_ok_def]
  have paging: "paging = (pe \<and> bit v 31)" by (simp add: paging_def val_def bit_simps)
  have s1: "paging_ok s1" "lma_ok s1" "bmp_ok s1"
    using ok parts_vmwrite [of VMCS_CR0_READ_SHADOW v s] by (simp_all add: s1_def long_ok_iff)
  have s2: "paging_ok s2" "lma_ok s2" "bmp_ok s2" using s1 by (simp_all add: s2_def pe_change_parts_ok)
  have m1: "asm_vmread VMCS_CR0_READ_SHADOW s1 = v" "re s1 = re s" "unrestricted_guest s1 = unrestricted_guest s"
    "asm_vmread VMCS_GUEST_RFLAGS s1 = asm_vmread VMCS_GUEST_RFLAGS s"
    by (simp_all add: s1_def vmcs_simps vmcs_kept_width vt_frame)
  have sh2: "asm_vmread VMCS_CR0_READ_SHADOW s2 = v" using m1 by (simp add: s2_def vmcs_simps)
  have re2: "re s2 = (\<not> unrestricted_guest s2 \<and> \<not> pe)" "re s2 \<longrightarrow> ctl VMCS_GUEST_RFLAGS 17 s2"
    using ok m1 by (auto simp: s2_def vt_frame mode_ok_def pe_change_flags bit_simps)
  have l2: "\<not> save_load_efer_enable s2 \<longrightarrow> msr_efer s2 < int (length (msr_guest s2))" using s2 by (simp add: lma_ok_def)
  let ?p = "s2\<lparr>pg := paging\<rparr>"
  have "paging_ok (vt_paging_pg_change ?p)"
    by (rule pg_change_paging) (use s2(1) in \<open>simp_all add: paging_ok_def controls_ok_def vmread_upd\<close>)
  then have "paging_ok s3" unfolding s3_def using s2(1) by (intro if_split [THEN iffD2]) blast
  then have s3: "paging_ok s3" "bmp_ok s3" "pg s3 = paging"
    using s2 by (simp_all add: s3_def vt_frame)
  have m3: "asm_vmread VMCS_CR0_READ_SHADOW s3 = v" "re s3 = re s2" "unrestricted_guest s3 = unrestricted_guest s2"
    "asm_vmread VMCS_GUEST_RFLAGS s3 = asm_vmread VMCS_GUEST_RFLAGS s2"
    using sh2 by (simp_all add: s3_def vmcs_simps vt_frame)
  have "lma_ok s3" using s2 by (simp add: s3_def pg_change_lma)
  then have "long_ok (vt_msr_update_lma s3)" by (rule update_lma_long)
  moreover have "mode_ok s3" using re2 m3 s3 by (simp add: mode_ok_def paging pe_def)
  ultimately have s4: "paging_ok (vt_msr_update_lma s3)" "long_ok (vt_msr_update_lma s3)"
    "mode_ok (vt_msr_update_lma s3)" "bmp_ok (vt_msr_update_lma s3)"
    using s3 by (simp_all add: update_lma_others)
  define s5 where "s5 = asm_vmwrite VMCS_GUEST_CR0 (vt_paging_apply_fixed_cr0 val (vt_msr_update_lma s3)) (vt_msr_update_lma s3)"
  have "root_ready s" using ok by (simp add: root_readyI)
  moreover have "root_ready s1 = root_ready s" by (rule root_cong) (simp_all add: s1_def vt_frame vmcs_simps)
  moreover have "root_ready s2 = root_ready s1" by (rule root_cong) (simp_all add: s2_def vt_frame vmcs_simps)
  ultimately have "root_ready s3" unfolding s3_def by (simp add: pg_change_ready)
  moreover have "root_ready s5 = root_ready s3" by (rule root_cong) (simp_all add: s5_def vt_frame vmcs_simps)
  ultimately have "paging_ok s5 \<and> long_ok s5 \<and> mode_ok s5 \<and> bmp_ok s5 \<and> root_ready s5"
    using s4 by (simp add: s5_def parts_vmwrite)
  moreover have "write_cr0 v s = vt_paging_flush_guest_tlb (vt_paging_updatecr3 s5)"
    unfolding write_cr0_def Let_def flag_bits pe_def [symmetric] s1_def [symmetric] val_def [symmetric]
      s2_def [symmetric] paging_def [symmetric] s3_def [symmetric] s5_def [symmetric] by (rule refl)
  ultimately show ?thesis by (simp add: updatecr3_ok)
qed

lemma write_cr3_parts:
  "paging_ok (vt_write_cr3 v s) = paging_ok s" "long_ok (vt_write_cr3 v s) = long_ok s"
  "mode_ok (vt_write_cr3 v s) = mode_ok s" "bmp_ok (vt_write_cr3 v s) = bmp_ok s"
proof -
  have e: "ept_enabled (vt_write_cr3 v s) = ept_enabled s" "read_guest_efer (vt_write_cr3 v s) = read_guest_efer s"
    by (simp_all add: vt_write_cr3_def ept_enabled_def read_guest_efer_def vt_read_guest_msr_def vt_frame vmcs_simps)
  show "paging_ok (vt_write_cr3 v s) = paging_ok s" "long_ok (vt_write_cr3 v s) = long_ok s"
    "mode_ok (vt_write_cr3 v s) = mode_ok s" "bmp_ok (vt_write_cr3 v s) = bmp_ok s"
    unfolding paging_ok_def controls_ok_def long_ok_def mode_ok_def bmp_ok_def e
    by (simp_all add: vt_write_cr3_def vt_frame vmcs_simps)
qed

lemma write_cr3_ready:
  "paging_ok s \<Longrightarrow> root_ready (vt_write_cr3 v s) = root_ready s" "root_fresh (vt_write_cr3 v s) = root_fresh s"
proof -
  show "root_ready (vt_write_cr3 v s) = root_ready s" if "paging_ok s"
  proof (cases "cr3exit_off s")
    case True
    then have "ept_enabled s" using that by (simp add: paging_ok_def)
    with True show ?thesis by (auto simp: root_ready_def vt_write_cr3_def ept_enabled_def spt_ok_def vt_frame)
  next
    case False
    then show ?thesis by (intro root_cong) (simp_all add: vt_write_cr3_def vmcs_simps)
  qed
  show "root_fresh (vt_write_cr3 v s) = root_fresh s"
    by (rule root_cong) (simp_all add: vt_write_cr3_def vt_frame)
qed

lemma ready_vmwrite:
  "i \<noteq> VMCS_GUEST_CR3 \<Longrightarrow> root_ready (asm_vmwrite i v s) = root_ready s" "root_fresh (asm_vmwrite i v s) = root_fresh s"
  by (rule root_cong; simp add: vt_frame vmcs_simps)+

lemma write_control_reg_ok: "vt_ok s \<Longrightarrow> vt_ok (vt_write_control_reg r v s)"
proof (cases r)
  case CONTROL_REG_CR0
  then show "vt_ok s \<Longrightarrow> ?thesis" by (simp add: vt_write_control_reg_def write_cr0_ok)
next
  case CONTROL_REG_CR2
  moreover have "vt_ok (s\<lparr>cr2 := v\<rparr>) = vt_ok s" by (rule vt_ok_cong) (auto simp: vmcs_simps)
  ultimately show "vt_ok s \<Longrightarrow> ?thesis" by (simp add: vt_write_control_reg_def)
next
  case CONTROL_REG_CR3
  then show "vt_ok s \<Longrightarrow> ?thesis"
    by (simp add: vt_write_control_reg_def) (rule updatecr3_ok; simp add: write_cr3_parts vt_ok_def write_cr3_ready root_readyI)
next
  case CONTROL_REG_CR4
  then show "vt_ok s \<Longrightarrow> ?thesis"
    by (simp add: vt_write_control_reg_def Let_def) (rule updatecr3_ok; simp add: parts_vmwrite vt_ok_def ready_vmwrite root_readyI)
qed

lemma spt_clear_ok:
  assumes "vt_ok s"
  shows "vt_ok (spt_clear_all s)"
proof (cases "ept_enabled s")
  case True
  then have "spt_clear_all s = s\<lparr>spt_cr3 := spt_cr3tbl_phys s\<rparr>"
    by (auto simp: spt_clear_all_def vt_paging_spt_setcr3_def ept_enabled_def Let_def)
  moreover have "vt_ok (s\<lparr>spt_cr3 := spt_cr3tbl_phys s\<rparr>)"
  proof -
    let ?t = "s\<lparr>spt_cr3 := spt_cr3tbl_phys s\<rparr>"
    have e: "ept_enabled ?t = ept_enabled s" "read_guest_efer ?t = read_guest_efer s" "vt_read_cr3 ?t = vt_read_cr3 s"
      by (simp_all add: ept_enabled_def read_guest_efer_def vt_read_guest_msr_def vt_read_cr3_def vmcs_simps)
    have "paging_ok ?t = paging_ok s" "long_ok ?t = long_ok s" "mode_ok ?t = mode_ok s" "bmp_ok ?t = bmp_ok s"
      unfolding paging_ok_def controls_ok_def long_ok_def mode_ok_def bmp_ok_def e by (simp_all add: vmcs_simps)
    moreover have "root_ok s \<Longrightarrow> root_ok ?t" unfolding root_ok_def spt_ok_def e by (simp add: vmcs_simps)
    ultimately show ?thesis using assms by (simp add: vt_ok_def)
  qed
  ultimately show ?thesis by simp
next
  case False
  then have e: "spt_clear_all s = asm_vmwrite VMCS_GUEST_CR3 (spt_cr3tbl_phys s) (s\<lparr>spt_cr3 := spt_cr3tbl_phys s\<rparr>)"
    by (auto simp: spt_clear_all_def vt_paging_spt_setcr3_def ept_enabled_def Let_def)
  have r: "spt_cr3 s = spt_cr3tbl_phys s" "asm_vmread VMCS_GUEST_CR3 s = spt_cr3tbl_phys s"
    using assms False by (auto simp: vt_ok_def root_ok_def spt_ok_def ept_enabled_def)
  have "vt_ok (spt_clear_all s) = vt_ok s"
    by (rule vt_ok_cong) (use r in \<open>auto simp: e vt_frame vmcs_simps vmcs_kept_width\<close>)
  with assms show ?thesis by simp
qed

lemma paging_clear_ok: "vt_ok s \<Longrightarrow> vt_ok (vt_paging_clear_all s)"
  by (simp add: vt_paging_clear_all_def Let_def spt_clear_ok)

lemma set_cache_ok: "vt_ok (s\<lparr>menv := m\<rparr>) = vt_ok s"
  by (rule vt_ok_cong) (auto simp: vmcs_simps)

lemma set_gpat_ok: "vt_ok s \<Longrightarrow> vt_ok (snd (vt_paging_set_gpat p s))"
  by (auto simp: vt_paging_set_gpat_def Let_def split_beta vt_ok_vmwrite set_cache_ok spt_clear_ok split: option.splits)

text \<open>The accesses to the processor's MSRs change nothing the guest's mode depends on.\<close>

lemma do_write_ok: "vt_ok (snd (do_write_msr i v s)) = vt_ok s"
  by (simp add: do_write_msr_def Let_def set_cache_ok)

lemma own_msrs_ok: "vt_ok (vt_msr_own_process_msrs s) = vt_ok s"
proof -
  have "vt_ok (t\<lparr>msr_release := x\<rparr>) = vt_ok t" for t x by (rule vt_ok_cong) (auto simp: vmcs_simps)
  moreover have "vt_ok (vt_msr_store_process64_msrs t) = vt_ok t" for t
    by (rule vt_ok_cong) (simp_all add: vt_msr_store_process64_msrs_def Let_def asm_vmread_def)
  ultimately show ?thesis
    by (simp add: vt_msr_own_process_msrs_def own_process64_msrs_def vt_msr_load_process64_msrs_def Let_def do_write_ok)
qed

lemma process_msrs_ok: "vt_ok (process_own_msrs entry s) = vt_ok s"
proof -
  have "vt_ok (t\<lparr>msr_release := x\<rparr>) = vt_ok t" for t x by (rule vt_ok_cong) (auto simp: vmcs_simps)
  moreover have "vt_ok (vt_msr_store_process64_msrs t) = vt_ok t" for t
    by (rule vt_ok_cong) (simp_all add: vt_msr_store_process64_msrs_def Let_def asm_vmread_def)
  ultimately show ?thesis
    by (simp add: process_own_msrs_def own_process64_msrs_def set_process64_msrs_def Let_def do_write_ok)
qed

lemma pass_write_ok:
  assumes "vt_ok s" "msr_pass_write_msr i v s = Some (b, t)"
  shows "vt_ok t"
proof -
  have "vt_ok (u\<lparr>tsc_offset := x\<rparr>) = vt_ok u" for u x by (rule vt_ok_cong) (auto simp: asm_vmread_def)
  moreover have "vt_ok (u\<lparr>apic_log := x\<rparr>) = vt_ok u" for u x by (rule vt_ok_cong) (auto simp: asm_vmread_def)
  moreover have "msr_pass_pass i v u = Some (b, t) \<Longrightarrow> vt_ok u \<Longrightarrow> vt_ok t" for u
    using do_write_ok [of i v u] by (auto simp: msr_pass_pass_def split_beta Let_def split: if_splits)
  ultimately show ?thesis
    using assms by (auto simp: msr_pass_write_msr_def Let_def vt_ok_vmwrite split: if_splits)
qed

lemma parts_flush:
  "paging_ok (vt_paging_flush_guest_tlb u) = paging_ok u" "long_ok (vt_paging_flush_guest_tlb u) = long_ok u"
  "mode_ok (vt_paging_flush_guest_tlb u) = mode_ok u" "bmp_ok (vt_paging_flush_guest_tlb u) = bmp_ok u"
  "root_ok (vt_paging_flush_guest_tlb u) = root_ok u"
proof -
  have "ept_enabled (vt_paging_flush_guest_tlb u) = ept_enabled u"
    "read_guest_efer (vt_paging_flush_guest_tlb u) = read_guest_efer u"
    "vt_read_cr3 (vt_paging_flush_guest_tlb u) = vt_read_cr3 u"
    by (simp_all add: ept_enabled_def read_guest_efer_def vt_read_guest_msr_def vt_read_cr3_def vt_frame vmcs_simps)
  then show "paging_ok (vt_paging_flush_guest_tlb u) = paging_ok u" "long_ok (vt_paging_flush_guest_tlb u) = long_ok u"
    "mode_ok (vt_paging_flush_guest_tlb u) = mode_ok u" "bmp_ok (vt_paging_flush_guest_tlb u) = bmp_ok u"
    "root_ok (vt_paging_flush_guest_tlb u) = root_ok u"
    by (simp_all add: paging_ok_def controls_ok_def long_ok_def mode_ok_def bmp_ok_def root_ok_def spt_ok_def vt_frame
        vmcs_simps)
qed

text \<open>EFER: the write may only change \<open>lme\<close> and, through it, long mode.\<close>

lemma write_efer_parts:
  assumes "paging_ok s" "lma_ok s" "vt_write_msr MSR_IA32_EFER v s = Some (b, t)"
    "root_ready s \<or> root_fresh s \<and> \<not> ctl VMCS_CR0_READ_SHADOW 0 s"
  shows "paging_ok t" "lma_ok t" "bmp_ok t = bmp_ok s" "mode_ok t = mode_ok s"
    "read_guest_efer s \<noteq> None \<Longrightarrow> long_ok t \<and> root_ok t" "read_guest_efer s = None \<Longrightarrow> t = s"
    "keeps_machine t = keeps_machine s" "pg t = pg s" "re t = re s"
proof -
  define w where "w val = snd (write_guest_efer (val AND (EFER_LME_BIT OR EFER_LMA_BIT)
      OR (v AND NOT (EFER_LME_BIT OR EFER_LMA_BIT))) (s\<lparr>lme := v AND EFER_LME_BIT \<noteq> 0\<rparr>))" for val
  have frame: "keeps_machine (w val) = keeps_machine s" "keeps_spt (w val) = keeps_spt s" "pg (w val) = pg s" "re (w val) = re s" "sw_enable (w val) = sw_enable s"
    "handle_pagefault (w val) = handle_pagefault s" "cr3exit_off (w val) = cr3exit_off s" "ept (w val) = ept s"
    "lma (w val) = lma s" "length (msr_guest (w val)) = length (msr_guest s)" for val
    by (simp_all add: w_def write_guest_efer_def vt_write_guest_msr_def vt_frame)
  have r: "i \<noteq> VMCS_GUEST_IA32_EFER \<Longrightarrow> asm_vmread i (w val) = asm_vmread i s" for i val
    by (simp add: w_def write_guest_efer_def vt_write_guest_msr_def vmcs_simps)
  have e: "ept_enabled (w val) = ept_enabled s" for val using frame [of val] by (simp add: ept_enabled_def)
  have p: "paging_ok (w val) = paging_ok s" "mode_ok (w val) = mode_ok s" "bmp_ok (w val) = bmp_ok s" for val
    using frame [of val] by (simp_all add: paging_ok_def controls_ok_def mode_ok_def bmp_ok_def e r)
  have l: "lma_ok (w val)" if "read_guest_efer s = Some val" for val
  proof -
    have i: "\<not> save_load_efer_enable s \<longrightarrow> msr_efer s < int (length (msr_guest s))"
      and b: "bit val 8 = lma s \<and> bit val 10 = lma s" using assms(2) that by (simp_all add: lma_ok_def)
    have "read_guest_efer (w val) = Some (val AND (EFER_LME_BIT OR EFER_LMA_BIT) OR (v AND NOT (EFER_LME_BIT OR EFER_LMA_BIT)))"
      using that i by (auto simp: w_def write_guest_efer_def vt_write_guest_msr_def read_guest_efer_def
          vt_read_guest_msr_def vt_frame vmcs_simps vmcs_kept_width nat_less_iff split: if_splits)
    then show ?thesis
      using assms(2) b i frame [of val] by (simp add: lma_ok_def r bit_simps)
  qed
  have t: "(case read_guest_efer s of None \<Rightarrow> t = s
      | Some val \<Rightarrow> t = vt_paging_flush_guest_tlb (vt_paging_updatecr3 (vt_msr_update_lma (w val))))"
    using assms(3) by (auto simp: vt_write_msr_def w_def Let_def split_beta split: option.splits)
  show "read_guest_efer s = None \<Longrightarrow> t = s" using t by simp
  show long: "long_ok t \<and> root_ok t" if "read_guest_efer s \<noteq> None"
  proof -
    from that obtain val where val: "read_guest_efer s = Some val" by auto
    have "root_ok (vt_paging_updatecr3 (vt_msr_update_lma (w val)))"
    proof (rule updatecr3_root)
      show "cr3exit_off (vt_msr_update_lma (w val)) \<Longrightarrow> ept_enabled (vt_msr_update_lma (w val))"
        using assms(1) frame [of val] by (simp add: paging_ok_def vt_frame e)
      have "root_ready (vt_msr_update_lma (w val)) = root_ready s" "root_fresh (vt_msr_update_lma (w val)) = root_fresh s"
        using frame [of val] by (intro root_cong; simp add: vt_frame vmcs_simps r)+
      then show "root_ready (vt_msr_update_lma (w val)) \<or>
          root_fresh (vt_msr_update_lma (w val)) \<and> \<not> ctl VMCS_CR0_READ_SHADOW 0 (vt_msr_update_lma (w val))"
        using assms(4) by (simp add: vmcs_simps r)
    qed
    then show ?thesis using t val l [OF val] by (simp add: parts_flush updatecr3_others update_lma_long)
  qed
  show "paging_ok t" "bmp_ok t = bmp_ok s" "mode_ok t = mode_ok s" "keeps_machine t = keeps_machine s" "pg t = pg s"
    "re t = re s"
    using t assms(1) p frame by (auto simp: parts_flush updatecr3_others update_lma_others vt_frame split: option.splits)
  show "lma_ok t" using long t assms(2) by (cases "read_guest_efer s") (auto simp: long_ok_iff)
qed

lemma write_msr_ok:
  assumes "vt_ok s" "vt_write_msr i v s = Some (b, t)"
  shows "vt_ok t"
proof (cases "i = MSR_IA32_EFER")
  case True
  have "paging_ok s" "lma_ok s" "root_ready s" using assms(1) by (simp_all add: vt_ok_def long_ok_iff root_readyI)
  note w = write_efer_parts [OF this(1,2) assms(2) [unfolded True] disjI1 [OF this(3)]]
  show ?thesis using assms(1) w by (cases "read_guest_efer s") (auto simp: vt_ok_def)
next
  case False
  have "vt_ok (snd (do_write_msr i v (vt_msr_own_process_msrs s)))" using assms(1) by (simp add: do_write_ok own_msrs_ok)
  then show ?thesis
    using assms False pass_write_ok [OF assms(1)] set_gpat_ok [OF assms(1), of v]
    by (auto simp: vt_write_msr_def Let_def split_beta vt_ok_vmwrite paging_clear_ok set_cache_ok
        split: if_splits option.splits)
qed

lemma read_msr_ok: "vt_ok s \<Longrightarrow> vt_read_msr i s = Some (d, t) \<Longrightarrow> vt_ok t"
  by (auto simp: vt_read_msr_def Let_def own_msrs_ok split: if_splits option.splits prod.splits)

text \<open>The reset.\<close>

lemma parts_sregs:
  assumes "range f \<inter> watched = {}"
  shows "paging_ok (write_sregs f v s) = paging_ok s" "lma_ok (write_sregs f v s) = lma_ok s"
proof -
  have i: "i \<in> watched \<Longrightarrow> asm_vmread i (write_sregs f v s) = asm_vmread i s" for i
    using assms by (intro vmread_sregs) auto
  have "ept_enabled (write_sregs f v s) = ept_enabled s" "read_guest_efer (write_sregs f v s) = read_guest_efer s"
    by (simp_all add: ept_enabled_def read_guest_efer_def vt_read_guest_msr_def vt_frame i)
  then show "paging_ok (write_sregs f v s) = paging_ok s" "lma_ok (write_sregs f v s) = lma_ok s"
    by (simp_all add: paging_ok_def controls_ok_def lma_ok_def vt_frame i)
qed

lemma frame_reset_mode:
  "pg (reset_mode s) = pg s" "lme (reset_mode s) = lme s" "ept (reset_mode s) = ept s"
  "keeps_machine (reset_mode s) = keeps_machine s" "keeps_paging (reset_mode s) = keeps_paging s"
  "keeps_spt (reset_mode s) = keeps_spt s"
  "re (reset_mode s) = (\<not> unrestricted_guest s)"
  by (simp_all add: reset_mode_def Let_def vt_frame)

lemmas frame_reset_mode_simps = frame_reset_mode [unfolded prod.inject]

lemma reset_mode_parts:
  "paging_ok (reset_mode s) = paging_ok s" "lma_ok (reset_mode s) = lma_ok s"
  "asm_vmread VMCS_CR0_READ_SHADOW (reset_mode s) = asm_vmread VMCS_CR0_READ_SHADOW s"
  "\<not> unrestricted_guest s \<Longrightarrow> ctl VMCS_GUEST_RFLAGS 17 (reset_mode s)"
proof -
  have i: "i \<in> watched - {VMCS_GUEST_RFLAGS} \<Longrightarrow> asm_vmread i (reset_mode s) = asm_vmread i s" for i
    by (auto simp: reset_mode_def Let_def vmcs_simps)
  have "ept_enabled (reset_mode s) = ept_enabled s" "read_guest_efer (reset_mode s) = read_guest_efer s"
    by (simp_all add: ept_enabled_def read_guest_efer_def vt_read_guest_msr_def frame_reset_mode_simps i)
  then show "paging_ok (reset_mode s) = paging_ok s" "lma_ok (reset_mode s) = lma_ok s"
    by (simp_all add: paging_ok_def controls_ok_def lma_ok_def frame_reset_mode_simps i)
  show "asm_vmread VMCS_CR0_READ_SHADOW (reset_mode s) = asm_vmread VMCS_CR0_READ_SHADOW s" by (simp add: i)
  show "\<not> unrestricted_guest s \<Longrightarrow> ctl VMCS_GUEST_RFLAGS 17 (reset_mode s)"
    by (simp add: reset_mode_def Let_def vmcs_simps vmcs_kept_width)
qed

text \<open>The end of the reset, from a state whose paging controls and EFER are right.\<close>

definition reset_end :: "vcpu \<Rightarrow> vcpu" where
  "reset_end s =
     (let s = (if pg s then vt_paging_pg_change (s\<lparr>pg := False\<rparr>) else s);
          s = s\<lparr>sw_enable := 0, lme := False, rm_tr_limit := 0xFFFF, rm_tr_acr := 0x8B, rm_tr_base := 0,
                rm_idtr_base := 0, rm_idtr_limit := 0xFFFF, exint_re_pending := False, exint_update := True\<rparr>;
          s = vt_paging_flush_guest_tlb (vt_paging_updatecr3 (vt_msr_update_lma s))
      in vt_update_exception_bmp s)"

lemma bmp_others:
  "paging_ok (vt_update_exception_bmp s) = paging_ok s" "root_ok (vt_update_exception_bmp s) = root_ok s"
  "long_ok (vt_update_exception_bmp s) = long_ok s" "mode_ok (vt_update_exception_bmp s) = mode_ok s"
proof -
  have "ept_enabled (vt_update_exception_bmp s) = ept_enabled s"
    "read_guest_efer (vt_update_exception_bmp s) = read_guest_efer s"
    "vt_read_cr3 (vt_update_exception_bmp s) = vt_read_cr3 s"
    by (simp_all add: ept_enabled_def read_guest_efer_def vt_read_guest_msr_def vt_read_cr3_def vt_frame vmcs_simps)
  then show "paging_ok (vt_update_exception_bmp s) = paging_ok s" "root_ok (vt_update_exception_bmp s) = root_ok s"
    "long_ok (vt_update_exception_bmp s) = long_ok s" "mode_ok (vt_update_exception_bmp s) = mode_ok s"
    by (simp_all add: paging_ok_def controls_ok_def root_ok_def spt_ok_def long_ok_def mode_ok_def vt_frame vmcs_simps)
qed

lemma reset_end_ok:
  assumes "paging_ok s" "lma_ok s" "asm_vmread VMCS_CR0_READ_SHADOW s = CR0_ET_BIT"
    "re s = (\<not> unrestricted_guest s)" "re s \<Longrightarrow> ctl VMCS_GUEST_RFLAGS 17 s" "root_ready s \<or> root_fresh s"
  shows "vt_ok (reset_end s)"
proof -
  define a where "a = (if pg s then vt_paging_pg_change (s\<lparr>pg := False\<rparr>) else s)"
  define b where "b = a\<lparr>sw_enable := 0, lme := False, rm_tr_limit := 0xFFFF, rm_tr_acr := 0x8B, rm_tr_base := 0,
     rm_idtr_base := 0, rm_idtr_limit := 0xFFFF, exint_re_pending := False, exint_update := True\<rparr>"
  have "paging_ok (vt_paging_pg_change (s\<lparr>pg := False\<rparr>))"
    by (rule pg_change_paging) (use assms(1) in \<open>simp_all add: paging_ok_def controls_ok_def vmread_upd\<close>)
  then have a: "paging_ok a" "lma_ok a" "\<not> pg a" using assms(1,2) by (simp_all add: a_def pg_change_lma vt_frame)
  have m: "asm_vmread VMCS_CR0_READ_SHADOW a = CR0_ET_BIT" "re a = (\<not> unrestricted_guest a)"
    "re a \<Longrightarrow> ctl VMCS_GUEST_RFLAGS 17 a"
    using assms(3-5) by (auto simp: a_def vmcs_simps vt_frame split: if_splits)
  have r: "asm_vmread i b = asm_vmread i a" for i by (simp add: b_def asm_vmread_def)
  have f: "pg b = pg a" "re b = re a" "unrestricted_guest b = unrestricted_guest a" "lma b = lma a"
    "msr_guest b = msr_guest a" "msr_efer b = msr_efer a" "save_load_efer_enable b = save_load_efer_enable a"
    "cr3exit_off b = cr3exit_off a" "cr3exit_controllable b = cr3exit_controllable a" "ept b = ept a"
    "handle_pagefault b = handle_pagefault a"
    by (simp_all add: b_def)
  have "ept_enabled b = ept_enabled a" "read_guest_efer b = read_guest_efer a"
    by (simp_all add: ept_enabled_def read_guest_efer_def vt_read_guest_msr_def f r)
  then have b: "paging_ok b" "lma_ok b" using a by (simp_all add: paging_ok_def controls_ok_def lma_ok_def f r)
  have "mode_ok b" using a(3) m by (simp add: mode_ok_def f r)
  then have u: "paging_ok (vt_msr_update_lma b)" "long_ok (vt_msr_update_lma b)" "mode_ok (vt_msr_update_lma b)"
    using b by (simp_all add: update_lma_others update_lma_long)
  have "root_ok (vt_paging_updatecr3 (vt_msr_update_lma b))"
  proof (rule updatecr3_root)
    show "cr3exit_off (vt_msr_update_lma b) \<Longrightarrow> ept_enabled (vt_msr_update_lma b)" using u(1) by (simp add: paging_ok_def)
    have "root_ready a \<or> root_fresh a" using assms(6) by (auto simp: a_def pg_change_ready)
    moreover have "root_ready b = root_ready a" "root_fresh b = root_fresh a"
    proof -
      have "keeps_spt b = keeps_spt a" "spt_cr3tbl_phys b = spt_cr3tbl_phys a" by (simp_all add: b_def)
      then show "root_ready b = root_ready a" "root_fresh b = root_fresh a" by (intro root_cong; simp add: f r)+
    qed
    moreover have "root_ready (vt_msr_update_lma b) = root_ready b" "root_fresh (vt_msr_update_lma b) = root_fresh b"
      by (rule root_cong; simp add: vt_frame vmcs_simps)+
    ultimately show "root_ready (vt_msr_update_lma b) \<or>
        root_fresh (vt_msr_update_lma b) \<and> \<not> ctl VMCS_CR0_READ_SHADOW 0 (vt_msr_update_lma b)"
      using m(1) by (auto simp: vmcs_simps r)
  qed
  then show ?thesis
    using u unfolding reset_end_def Let_def a_def [symmetric] b_def [symmetric] vt_ok_def
    by (simp add: bmp_others parts_flush updatecr3_others)
qed

lemma reset_ok:
  assumes "paging_ok s" "long_ok s" "root_ready s \<or> root_fresh s" "vt_reset s = Some t"
  shows "vt_ok t"
proof -
  define s1 where "s1 = asm_vmwrite VMCS_CR0_READ_SHADOW CR0_ET_BIT s"
  define s2 where "s2 = asm_vmwrite VMCS_GUEST_CR0 (vt_paging_apply_fixed_cr0 CR0_ET_BIT s1) s1"
  define s3 where "s3 = asm_vmwrite VMCS_CR4_READ_SHADOW 0 (vt_write_cr3 0 (s2\<lparr>cr2 := 0\<rparr>))"
  define s4 where "s4 = asm_vmwrite VMCS_GUEST_CR4 (vt_paging_apply_fixed_cr4 0 s3) s3"
  obtain b e where e: "vt_write_msr MSR_IA32_EFER 0 s4 = Some (b, e)"
    and t: "t = reset_end (reset_mode (write_sregs VMCS_GUEST_LIMIT (\<lambda>_. 0xFFFF)
        (write_sregs VMCS_GUEST_ACCESS_RIGHTS (\<lambda>_. if unrestricted_guest e then 0x93 else 0xF3)
        (write_sregs VMCS_GUEST_BASE (\<lambda>_. 0) (write_sregs VMCS_GUEST_SEL (\<lambda>_. 0) e)))))"
    using assms(4) unfolding vt_reset_def Let_def s1_def [symmetric] s2_def [symmetric] s3_def [symmetric] s4_def [symmetric]
      reset_end_def by (auto simp: vt_frame split: option.splits prod.splits)
  have cr2: "paging_ok (u\<lparr>cr2 := x\<rparr>) = paging_ok u" "long_ok (u\<lparr>cr2 := x\<rparr>) = long_ok u" for u x
  proof -
    have "ept_enabled (u\<lparr>cr2 := x\<rparr>) = ept_enabled u" "read_guest_efer (u\<lparr>cr2 := x\<rparr>) = read_guest_efer u"
      by (simp_all add: ept_enabled_def read_guest_efer_def vt_read_guest_msr_def vmcs_simps)
    then show "paging_ok (u\<lparr>cr2 := x\<rparr>) = paging_ok u" "long_ok (u\<lparr>cr2 := x\<rparr>) = long_ok u"
      by (simp_all add: paging_ok_def controls_ok_def long_ok_def vmcs_simps)
  qed
  have "paging_ok s4" "long_ok s4"
    using assms(1,2) by (simp_all add: s4_def s3_def s2_def s1_def parts_vmwrite write_cr3_parts cr2)
  then have p4: "paging_ok s4" "lma_ok s4" by (simp_all add: long_ok_iff)
  have sh: "asm_vmread VMCS_CR0_READ_SHADOW s4 = CR0_ET_BIT"
    by (simp add: s4_def s3_def s2_def s1_def vt_write_cr3_def vmcs_simps vmcs_kept_width)
  have cr2r: "root_ready (u\<lparr>cr2 := x\<rparr>) = root_ready u" "root_fresh (u\<lparr>cr2 := x\<rparr>) = root_fresh u" for u x
    by (rule root_cong; simp add: vmcs_simps)+
  have "root_ready s4 \<or> root_fresh s4"
    using assms(1,3) by (simp add: s4_def s3_def s2_def s1_def ready_vmwrite write_cr3_ready cr2r cr2 parts_vmwrite)
  then have r4: "root_ready s4 \<or> root_fresh s4 \<and> \<not> ctl VMCS_CR0_READ_SHADOW 0 s4" by (simp add: sh)
  have re: "root_ready e \<or> root_fresh e"
    using write_efer_parts(5,6) [OF p4 e r4] r4 by (cases "read_guest_efer s4") (auto simp: root_readyI)
  have "asm_vmread VMCS_CR0_READ_SHADOW e = asm_vmread VMCS_CR0_READ_SHADOW s4"
    using e by (auto simp: vt_write_msr_def Let_def split_beta write_guest_efer_def vt_write_guest_msr_def vmcs_simps
        split: option.splits)
  then have e': "paging_ok e" "lma_ok e" "asm_vmread VMCS_CR0_READ_SHADOW e = CR0_ET_BIT"
    using write_efer_parts(1,2) [OF p4 e r4] sh by simp_all
  have sr: "root_ready (write_sregs f v u) = root_ready u" "root_fresh (write_sregs f v u) = root_fresh u"
    if "VMCS_GUEST_CR3 \<notin> range f" for f v u
    by (rule root_cong; simp add: vt_frame vmcs_simps that)+
  have rm: "root_ready (reset_mode u) = root_ready u" "root_fresh (reset_mode u) = root_fresh u" for u
  proof -
    have "asm_vmread VMCS_GUEST_CR3 (reset_mode u) = asm_vmread VMCS_GUEST_CR3 u"
      by (simp add: reset_mode_def Let_def vmcs_simps)
    then show "root_ready (reset_mode u) = root_ready u" "root_fresh (reset_mode u) = root_fresh u"
      by (intro root_cong; simp add: frame_reset_mode_simps)+
  qed
  show ?thesis
    unfolding t by (rule reset_end_ok)
      (use e' re in \<open>simp_all add: sr rm reset_mode_parts parts_sregs sreg_ranges frame_reset_mode_simps vt_frame vmread_sregs\<close>)
qed

text \<open>The remaining registers.\<close>

lemma sw_clear_bmp_ok: "vt_ok s \<Longrightarrow> vt_ok (vt_writing_sreg r s)"
proof -
  assume ok: "vt_ok s"
  have f: "keeps_outer (sw_clear r s) = keeps_outer s" "re (sw_clear r s) = re s"
    by (simp_all add: sw_clear_def)
  have e: "ept_enabled (sw_clear r s) = ept_enabled s" "read_guest_efer (sw_clear r s) = read_guest_efer s"
    "vt_read_cr3 (sw_clear r s) = vt_read_cr3 s"
    by (simp_all add: sw_clear_def ept_enabled_def read_guest_efer_def vt_read_guest_msr_def vt_read_cr3_def vmcs_simps)
  have "paging_ok (sw_clear r s) = paging_ok s" "root_ok (sw_clear r s) = root_ok s" "long_ok (sw_clear r s) = long_ok s"
    "mode_ok (sw_clear r s) = mode_ok s"
    unfolding paging_ok_def controls_ok_def root_ok_def spt_ok_def long_ok_def mode_ok_def e
    by (simp_all add: vmread_pe_parts f [unfolded prod.inject])
  then show ?thesis using ok by (simp add: vt_writing_sreg_def vt_ok_def bmp_others)
qed

lemma write_regs_ok:
  "vt_ok (vt_write_general_reg gr v s) = vt_ok s" "vt_ok (vt_write_ip v s) = vt_ok s"
  "vt_ok (vt_write_gdtr v l s) = vt_ok s" "vt_ok (vt_write_idtr v l s) = vt_ok s"
  "vt_ok s \<Longrightarrow> vt_ok (vt_write_flags v s)" "vt_ok s \<Longrightarrow> vt_ok (vt_write_realmode_seg r x s)"
proof -
  have "vt_ok (s\<lparr>gpr := y\<rparr>) = vt_ok s" for y by (rule vt_ok_cong) (auto simp: vmcs_simps)
  then show "vt_ok (vt_write_general_reg gr v s) = vt_ok s" by (simp add: vt_write_general_reg_def vt_ok_vmwrite)
  have "vt_ok (t\<lparr>updateip := y\<rparr>) = vt_ok t" for t y by (rule vt_ok_cong) (auto simp: vmcs_simps)
  then show "vt_ok (vt_write_ip v s) = vt_ok s" by (simp add: vt_write_ip_def vt_ok_vmwrite)
  show "vt_ok (vt_write_gdtr v l s) = vt_ok s" by (simp add: vt_write_gdtr_def vt_ok_vmwrite)
  have "vt_ok (s\<lparr>rm_idtr_base := y, rm_idtr_limit := z\<rparr>) = vt_ok s" for y z by (rule vt_ok_cong) (auto simp: vmcs_simps)
  then show "vt_ok (vt_write_idtr v l s) = vt_ok s" by (simp add: vt_write_idtr_def vt_ok_vmwrite)
  show "vt_ok s \<Longrightarrow> vt_ok (vt_write_flags v s)"
  proof -
    assume ok: "vt_ok s"
    let ?t = "asm_vmwrite VMCS_GUEST_RFLAGS (if re s then v OR RFLAGS_VM_BIT else v) s"
    have e: "ept_enabled ?t = ept_enabled s" "read_guest_efer ?t = read_guest_efer s" "vt_read_cr3 ?t = vt_read_cr3 s"
      by (simp_all add: ept_enabled_def read_guest_efer_def vt_read_guest_msr_def vt_read_cr3_def vt_frame vmcs_simps)
    have "paging_ok ?t = paging_ok s" "root_ok ?t = root_ok s" "long_ok ?t = long_ok s" "bmp_ok ?t = bmp_ok s"
      unfolding paging_ok_def controls_ok_def root_ok_def spt_ok_def long_ok_def bmp_ok_def e by (simp_all add: vt_frame vmcs_simps)
    moreover have "mode_ok ?t"
      using ok by (simp add: mode_ok_def vt_ok_def vt_frame vmcs_simps vmcs_kept_width bit_simps)
    ultimately show ?thesis using ok by (simp add: vt_write_flags_def vt_ok_def)
  qed
  have "vt_ok (asm_vmwrite (VMCS_GUEST_BASE r) a (asm_vmwrite (VMCS_GUEST_SEL r) b s)) = vt_ok s" for a b
    by (cases r) (simp_all add: vt_ok_vmwrite)
  then show "vt_ok s \<Longrightarrow> vt_ok (vt_write_realmode_seg r x s)"
    using sw_clear_bmp_ok by (simp add: vt_write_realmode_seg_def vt_writing_sreg_def)
qed

lemma add_msr_ok:
  assumes "vt_ok s" "vt_add_guest_msr i s = (n, t)"
  shows "vt_ok t"
proof -
  have "vt_ok (s\<lparr>msr_vmm := v, msr_guest := msr_guest s @ [e]\<rparr>)" for v e
  proof -
    let ?t = "s\<lparr>msr_vmm := v, msr_guest := msr_guest s @ [e]\<rparr>"
    have l: "long_ok s" using assms(1) by (simp add: vt_ok_def)
    then have e: "ept_enabled ?t = ept_enabled s" "read_guest_efer ?t = read_guest_efer s" "vt_read_cr3 ?t = vt_read_cr3 s"
      by (auto simp: ept_enabled_def read_guest_efer_def vt_read_guest_msr_def vt_read_cr3_def vmcs_simps
          long_ok_def nth_append nat_less_iff)
    have "\<not> save_load_efer_enable s \<Longrightarrow> msr_efer s < int (length (msr_guest s))" using l by (simp add: long_ok_def)
    then have "long_ok ?t = long_ok s"
      unfolding long_ok_def e by (cases "save_load_efer_enable s") (simp_all add: vmcs_simps)
    moreover have "paging_ok ?t = paging_ok s" "root_ok ?t = root_ok s" "mode_ok ?t = mode_ok s" "bmp_ok ?t = bmp_ok s"
      unfolding paging_ok_def controls_ok_def root_ok_def spt_ok_def mode_ok_def bmp_ok_def e by (simp_all add: vmcs_simps)
    ultimately show ?thesis using assms(1) l by (simp add: vt_ok_def)
  qed
  moreover have "vt_ok (write_count u) = vt_ok u" for u by (simp add: write_count_def Let_def vt_ok_vmwrite)
  ultimately show ?thesis
    using assms by (auto simp: vt_add_guest_msr_def Let_def split_beta split: option.splits if_splits)
qed

section \<open>The operations of the hypervisor\<close>

text \<open>
  Sequences of the operations the hypervisor has on the virtual CPU (\<open>current->vmctl\<close>), of its
  accesses to the guest's memory and of the changes of the pending event and of the interrupt flags.
\<close>

inductive vt_step :: "vcpu \<Rightarrow> vcpu \<Rightarrow> bool" where
  control: "vt_step s (vt_write_control_reg r v s)"
| write_msr: "vt_write_msr i v s = Some (b, t) \<Longrightarrow> vt_step s t"
| read_msr: "vt_read_msr i s = Some (d, t) \<Longrightarrow> vt_step s t"
| add_msr: "vt_add_guest_msr n s = (k, t) \<Longrightarrow> vt_step s t"
| general: "vt_step s (vt_write_general_reg gr v s)"
| ip: "vt_step s (vt_write_ip v s)"
| flags: "vt_step s (vt_write_flags v s)"
| gdtr: "vt_step s (vt_write_gdtr v l s)"
| idtr: "vt_step s (vt_write_idtr v l s)"
| realmode_seg: "vt_step s (vt_write_realmode_seg r x s)"
| writing_sreg: "vt_step s (vt_writing_sreg r s)"
| clear: "vt_step s (vt_paging_clear_all s)"
| flush: "vt_step s (vt_paging_flush_guest_tlb s)"
| process: "vt_step s (process_own_msrs entry s)"
| reset: "vt_reset s = Some t \<Longrightarrow> vt_step s t"
| memory: "vt_step s (s\<lparr>gmem := m\<rparr>)"
| event: "vt_step s (s\<lparr>intr_info := v, intr_errcode := e, intr_len := l\<rparr>)"
| exint: "vt_step s (s\<lparr>exint_pass := p, exint_pending := q, exint_update := u\<rparr>)"
| halt: "vt_step s (s\<lparr>halted := p\<rparr>)"

inductive vt_reach :: "vcpu \<Rightarrow> vcpu \<Rightarrow> bool" where
  start: "vt_reach s s"
| step: "vt_reach s t \<Longrightarrow> vt_step t u \<Longrightarrow> vt_reach s u"

lemma event_fields_ok:
  "vt_ok (s\<lparr>gmem := m\<rparr>) = vt_ok s" "vt_ok (s\<lparr>intr_info := v, intr_errcode := e, intr_len := l\<rparr>) = vt_ok s"
  "vt_ok (s\<lparr>exint_pass := p, exint_pending := q, exint_update := u\<rparr>) = vt_ok s" "vt_ok (s\<lparr>halted := p\<rparr>) = vt_ok s"
  by (rule vt_ok_cong; simp add: asm_vmread_def)+

lemma vt_step_ok:
  assumes "vt_step s t" "vt_ok s"
  shows "vt_ok t"
  using assms
proof (induction rule: vt_step.induct)
  case (write_msr i v s b t)
  then show ?case by (blast intro: write_msr_ok)
next
  case (read_msr i s d t)
  then show ?case by (blast intro: read_msr_ok)
next
  case (add_msr n s k t)
  then show ?case by (blast intro: add_msr_ok)
next
  case (reset s t)
  then have "paging_ok s" "long_ok s" "root_ready s \<or> root_fresh s" by (simp_all add: vt_ok_def root_readyI)
  then show ?case using reset.hyps by (rule reset_ok)
qed (simp_all add: write_control_reg_ok write_regs_ok sw_clear_bmp_ok paging_clear_ok process_msrs_ok event_fields_ok)

lemma vt_reach_ok: "vt_reach s t \<Longrightarrow> vt_ok s \<Longrightarrow> vt_ok t"
  by (induction rule: vt_reach.induct) (auto intro: vt_step_ok)

section \<open>A run of the guest\<close>

text \<open>
  The fields the guest changes while it runs: its segment registers, RSP, RIP, RFLAGS, the bits of
  CR0 and CR4 it owns, CR3 when its accesses do not exit, the SYSENTER MSRs, DR7, the PAT and the
  PDPTEs.
\<close>

definition guest_fields :: "vcpu \<Rightarrow> u64 set" where
  "guest_fields s =
     range VMCS_GUEST_SEL \<union> range VMCS_GUEST_LIMIT \<union> range VMCS_GUEST_ACCESS_RIGHTS \<union> range VMCS_GUEST_BASE
     \<union> pdptes \<union> {VMCS_GUEST_RSP, VMCS_GUEST_RIP, VMCS_GUEST_RFLAGS, VMCS_GUEST_CR0, VMCS_GUEST_CR4, VMCS_GUEST_DR7,
        VMCS_GUEST_IA32_PAT, VMCS_GUEST_IA32_SYSENTER_CS, VMCS_GUEST_IA32_SYSENTER_ESP, VMCS_GUEST_IA32_SYSENTER_EIP,
        VMCS_GUEST_GDTR_BASE, VMCS_GUEST_GDTR_LIMIT, VMCS_GUEST_IDTR_BASE, VMCS_GUEST_IDTR_LIMIT}
     \<union> (if cr3exit_off s then {VMCS_GUEST_CR3} else {})"

lemma guest_run_ok:
  assumes "vt_ok s" "\<And>i. i \<notin> guest_fields s \<Longrightarrow> f i = vmcs s i" "re s \<Longrightarrow> bit (f VMCS_GUEST_RFLAGS) 17"
  shows "vt_ok (s\<lparr>vmcs := f, gpr := regs, cr2 := c\<rparr>)"
proof -
  let ?t = "s\<lparr>vmcs := f, gpr := regs, cr2 := c\<rparr>"
  have r: "asm_vmread i ?t = asm_vmread i s" if "i \<in> watched - {VMCS_GUEST_RFLAGS, VMCS_GUEST_CR3}" for i
    using assms(2) [of i] that by (auto simp: asm_vmread_def guest_fields_def sreg_ranges)
  have c: "asm_vmread VMCS_GUEST_CR3 ?t = asm_vmread VMCS_GUEST_CR3 s" if "\<not> cr3exit_off s"
    using assms(2) [of VMCS_GUEST_CR3] that by (simp add: asm_vmread_def guest_fields_def sreg_ranges)
  have e: "ept_enabled ?t = ept_enabled s" "read_guest_efer ?t = read_guest_efer s"
    by (simp_all add: ept_enabled_def read_guest_efer_def vt_read_guest_msr_def r)
  have "root_ok ?t"
  proof (cases "cr3exit_off s")
    case True
    then have "ept_enabled s" using assms(1) by (simp add: vt_ok_def paging_ok_def)
    with True assms(1) show ?thesis unfolding root_ok_def spt_ok_def e vt_read_cr3_def by (simp add: vt_ok_def root_ok_def spt_ok_def)
  next
    case False
    then have "root_ok ?t = root_ok s" unfolding root_ok_def spt_ok_def e vt_read_cr3_def c [OF False] by simp
    then show ?thesis using assms(1) by (simp add: vt_ok_def)
  qed
  moreover have "paging_ok ?t = paging_ok s" "long_ok ?t = long_ok s" "bmp_ok ?t = bmp_ok s"
    unfolding paging_ok_def controls_ok_def long_ok_def bmp_ok_def e by (simp_all add: r)
  moreover have f: "asm_vmread VMCS_GUEST_RFLAGS ?t = f VMCS_GUEST_RFLAGS" by (simp add: asm_vmread_def)
  have "mode_ok s" using assms(1) by (simp add: vt_ok_def)
  then have "mode_ok ?t"
    unfolding mode_ok_def f using assms(3) by (simp add: r)
  ultimately show ?thesis using assms(1) by (simp add: vt_ok_def)
qed

end
