(* ===== verification/Vt_Init.thy ===== *)
theory Vt_Init
  imports Vt_State
begin

unbundle bit_operations_syntax

text \<open>
  The start of a virtual CPU (\<open>core/vt_init.c\<close>, \<open>vt_paging_init\<close> of \<open>core/vt_paging.c\<close>,
  \<open>load_new_vcpu\<close> of \<open>core/vcpu.c\<close>, \<open>initregs\<close> of \<open>core/main.c\<close>): the capabilities of the processor are
  read from its MSRs, the VMCS is filled from them and from the registers of the host, and the reset
  follows.  The lemmas show that the reset then establishes the invariant \<open>vt_ok\<close>.
\<close>

abbreviation VMCS_HOST_TR_SEL :: u64 where "VMCS_HOST_TR_SEL \<equiv> 0xC0C"
abbreviation VMCS_ADDR_IOBMP_A :: u64 where "VMCS_ADDR_IOBMP_A \<equiv> 0x2000"
abbreviation VMCS_ADDR_IOBMP_B :: u64 where "VMCS_ADDR_IOBMP_B \<equiv> 0x2002"
abbreviation VMCS_ADDR_MSRBMP :: u64 where "VMCS_ADDR_MSRBMP \<equiv> 0x2004"
abbreviation VMCS_EXEC_VMCS_POINTER :: u64 where "VMCS_EXEC_VMCS_POINTER \<equiv> 0x200C"
abbreviation VMCS_EPT_POINTER :: u64 where "VMCS_EPT_POINTER \<equiv> 0x201A"
abbreviation VMCS_VMCS_LINK_POINTER :: u64 where "VMCS_VMCS_LINK_POINTER \<equiv> 0x2800"
abbreviation VMCS_GUEST_IA32_DEBUGCTL :: u64 where "VMCS_GUEST_IA32_DEBUGCTL \<equiv> 0x2802"
abbreviation VMCS_HOST_IA32_EFER :: u64 where "VMCS_HOST_IA32_EFER \<equiv> 0x2C02"
abbreviation VMCS_PIN_BASED_VMEXEC_CTL :: u64 where "VMCS_PIN_BASED_VMEXEC_CTL \<equiv> 0x4000"
abbreviation VMCS_PAGEFAULT_ERRCODE_MASK :: u64 where "VMCS_PAGEFAULT_ERRCODE_MASK \<equiv> 0x4006"
abbreviation VMCS_PAGEFAULT_ERRCODE_MATCH :: u64 where "VMCS_PAGEFAULT_ERRCODE_MATCH \<equiv> 0x4008"
abbreviation VMCS_CR3_TARGET_COUNT :: u64 where "VMCS_CR3_TARGET_COUNT \<equiv> 0x400A"
abbreviation VMCS_VMENTRY_INTR_INFO_FIELD :: u64 where "VMCS_VMENTRY_INTR_INFO_FIELD \<equiv> 0x4016"
abbreviation VMCS_VMENTRY_EXCEPTION_ERRCODE :: u64 where "VMCS_VMENTRY_EXCEPTION_ERRCODE \<equiv> 0x4018"
abbreviation VMCS_VMENTRY_INSTRUCTION_LEN :: u64 where "VMCS_VMENTRY_INSTRUCTION_LEN \<equiv> 0x401A"
abbreviation VMCS_TPR_THRESHOLD :: u64 where "VMCS_TPR_THRESHOLD \<equiv> 0x401C"
abbreviation VMCS_GUEST_INTERRUPTIBILITY_STATE :: u64 where "VMCS_GUEST_INTERRUPTIBILITY_STATE \<equiv> 0x4824"
abbreviation VMCS_GUEST_ACTIVITY_STATE :: u64 where "VMCS_GUEST_ACTIVITY_STATE \<equiv> 0x4826"
abbreviation VMCS_HOST_IA32_SYSENTER_CS :: u64 where "VMCS_HOST_IA32_SYSENTER_CS \<equiv> 0x4C00"
abbreviation VMCS_CR0_GUESTHOST_MASK :: u64 where "VMCS_CR0_GUESTHOST_MASK \<equiv> 0x6000"
abbreviation VMCS_CR4_GUESTHOST_MASK :: u64 where "VMCS_CR4_GUESTHOST_MASK \<equiv> 0x6002"
abbreviation VMCS_GUEST_PENDING_DEBUG_EXCEPTIONS :: u64 where "VMCS_GUEST_PENDING_DEBUG_EXCEPTIONS \<equiv> 0x6822"

fun VMCS_HOST_SEL :: "sreg \<Rightarrow> u64" where
  "VMCS_HOST_SEL SREG_ES = 0xC00"
| "VMCS_HOST_SEL SREG_CS = 0xC02"
| "VMCS_HOST_SEL SREG_SS = 0xC04"
| "VMCS_HOST_SEL SREG_DS = 0xC06"
| "VMCS_HOST_SEL SREG_FS = 0xC08"
| "VMCS_HOST_SEL SREG_GS = 0xC0A"

section \<open>A new virtual CPU\<close>

text \<open>The memory of \<open>struct vcpu\<close> is cleared.  The VMCS and the rest of the machine are not part of it.\<close>

definition load_new_vcpu :: "vcpu \<Rightarrow> vcpu" where
  "load_new_vcpu s =
     s\<lparr>gpr := (\<lambda>_. 0), cr2 := 0, vr_cr3 := 0, re := False, pg := False, sw_enable := 0, sw_num := 0,
       sw_sel := (\<lambda>_. 0), rm_idtr_base := 0, rm_idtr_limit := 0, rm_tr_limit := 0, rm_tr_acr := 0, rm_tr_base := 0,
       msr_vmm := [], msr_guest := [], msr_efer := 0, msr_star := 0, msr_lstar := 0, msr_cstar := 0, msr_fmask := 0,
       msr_kerngs := 0, ept := None, lme := False, lma := False, vpid := 0, spt_cr3 := 0, handle_pagefault := False,
       ept_available := False, invept_available := False, unrestricted_guest_available := False,
       unrestricted_guest := False, save_load_efer_enable := False, exint_pass := False, exint_pending := False,
       exint_update := False, exint_re_pending := False, cr3exit_controllable := False, cr3exit_off := False,
       updateip := False, first_run := False, halted := False, intr_info := 0, intr_errcode := 0, intr_len := 0,
       spt_cr3tbl_phys := 0, spt_regs := (0, 0, 0, 0), tsc_offset := 0\<rparr>"

section \<open>The capabilities of the processor\<close>

text \<open>\<open>asm_rdmsr32\<close>: the settings that must be 1 and those that may be 1.\<close>

definition rdmsr32 :: "u64 \<Rightarrow> vcpu \<Rightarrow> u32 \<times> u32" where
  "rdmsr32 index s = (ucast (rdmsr index s), ucast (drop_bit 32 (rdmsr index s)))"

abbreviation MSR_IA32_VMX_BASIC :: u64 where "MSR_IA32_VMX_BASIC \<equiv> 0x480"
abbreviation MSR_IA32_VMX_PINBASED_CTLS :: u64 where "MSR_IA32_VMX_PINBASED_CTLS \<equiv> 0x481"
abbreviation MSR_IA32_VMX_PROCBASED_CTLS :: u64 where "MSR_IA32_VMX_PROCBASED_CTLS \<equiv> 0x482"
abbreviation MSR_IA32_VMX_EXIT_CTLS :: u64 where "MSR_IA32_VMX_EXIT_CTLS \<equiv> 0x483"
abbreviation MSR_IA32_VMX_ENTRY_CTLS :: u64 where "MSR_IA32_VMX_ENTRY_CTLS \<equiv> 0x484"
abbreviation MSR_IA32_VMX_PROCBASED_CTLS2 :: u64 where "MSR_IA32_VMX_PROCBASED_CTLS2 \<equiv> 0x48B"
abbreviation MSR_IA32_VMX_EPT_VPID_CAP :: u64 where "MSR_IA32_VMX_EPT_VPID_CAP \<equiv> 0x48C"
abbreviation MSR_IA32_VMX_TRUE_PROCBASED_CTLS :: u64 where "MSR_IA32_VMX_TRUE_PROCBASED_CTLS \<equiv> 0x48E"

definition vpid_init :: "vcpu \<Rightarrow> vcpu" where
  "vpid_init s =
     (let cap = rdmsr MSR_IA32_VMX_EPT_VPID_CAP s
      in if cap AND 0x100000000 = 0 then s
         else if cap AND 0x20000000000 = 0 then s
         else s\<lparr>vpid := 1\<rparr>)"

definition ept_init :: "vcpu \<Rightarrow> vcpu" where
  "ept_init s =
     (let cap = rdmsr MSR_IA32_VMX_EPT_VPID_CAP s
      in if cap AND 0x40 = 0 then s
         else if cap AND 0x4000 = 0 then s
         else
           let s = s\<lparr>ept_available := True\<rparr>
           in if cap AND 0x100000 = 0 then s
              else if cap AND 0x4000000 = 0 then s
              else s\<lparr>invept_available := True\<rparr>)"

definition vt_cr3exit_controllable :: "vcpu \<Rightarrow> bool" where
  "vt_cr3exit_controllable s =
     (if rdmsr MSR_IA32_VMX_BASIC s AND 0x80000000000000 = 0 then False
      else
        let (ctls_or, _) = rdmsr32 MSR_IA32_VMX_TRUE_PROCBASED_CTLS s
        in if ctls_or AND 0x8000 \<noteq> 0 then False
           else if ctls_or AND 0x10000 \<noteq> 0 then False
           else True)"

section \<open>Filling the VMCS\<close>

text \<open>
  What the start takes from outside: the registers of the host (\<open>vt_get_current_regs_in_vmcs\<close>), whether
  this is the first virtual CPU, and the pages \<open>alloc_page\<close> returned.
\<close>

record vt_start =
  host_riv :: regs_in_vmcs
  is_vcpu0 :: bool
  iobmpphys_a :: u64
  iobmpphys_b :: u64
  msrbmp_phys :: u64
  msr_vmm_phys :: u64
  msr_guest_phys :: u64
  spt_page :: u64
  ept_root :: u64
  ept_pool :: "nat \<Rightarrow> u64"
  ept_mem :: "u64 \<Rightarrow> u64"

definition vmcs_flags :: "vt_start \<Rightarrow> vcpu \<Rightarrow> vcpu" where
  "vmcs_flags p s =
     s\<lparr>first_run := True, msrbmp := (if is_vcpu0 p then \<lambda>_. 0xFF else msrbmp s), vpid := 0, ept := None,
       ept_available := False, invept_available := False, unrestricted_guest_available := False,
       unrestricted_guest := False, save_load_efer_enable := False, exint_pass := True, exint_pending := False,
       cr3exit_controllable := vt_cr3exit_controllable s, cr3exit_off := False,
       intr_info := intr_info s AND NOT 0x80000000\<rparr>"

text \<open>The secondary controls and the use of the EFER fields.\<close>

definition vmcs_ctls2 :: "vcpu \<Rightarrow> u32 \<times> u64 \<times> vcpu" where
  "vmcs_ctls2 s =
     (let (_, procbased_and) = rdmsr32 MSR_IA32_VMX_PROCBASED_CTLS s;
          (_, exit_and) = rdmsr32 MSR_IA32_VMX_EXIT_CTLS s;
          (_, entry_and) = rdmsr32 MSR_IA32_VMX_ENTRY_CTLS s
      in if procbased_and AND 0x80000000 \<noteq> 0 then
           let (_, ctls2_and) = rdmsr32 MSR_IA32_VMX_PROCBASED_CTLS2 s;
               s = (if ctls2_and AND 0x20 \<noteq> 0 then vpid_init s else s);
               ctls2 = (if vpid s \<noteq> 0 then 0x20 else 0);
               s = (if ctls2_and AND 0x2 \<noteq> 0 \<and> exit_and AND 0x40000 \<noteq> 0 \<and> exit_and AND 0x80000 \<noteq> 0
                       \<and> entry_and AND 0x4000 \<noteq> 0 then ept_init s else s);
               s = (if ctls2_and AND 0x80 \<noteq> 0 then s\<lparr>unrestricted_guest_available := True\<rparr> else s);
               ctls2 = (if ctls2_and AND 0x8 \<noteq> 0 then ctls2 OR 0x8 else ctls2);
               ctls2 = (if ctls2_and AND 0x100000 \<noteq> 0 then ctls2 OR 0x100000 else ctls2)
           in (ctls2_and, ctls2, s)
         else (0, 0, s))"

definition vmcs_efer :: "vcpu \<Rightarrow> vcpu" where
  "vmcs_efer s =
     (let (_, exit_and) = rdmsr32 MSR_IA32_VMX_EXIT_CTLS s;
          (_, entry_and) = rdmsr32 MSR_IA32_VMX_ENTRY_CTLS s
      in if exit_and AND 0x100000 \<noteq> 0 \<and> exit_and AND 0x200000 \<noteq> 0 \<and> entry_and AND 0x8000 \<noteq> 0
         then s\<lparr>save_load_efer_enable := True\<rparr> else s)"

definition vmwrites :: "(u64 \<times> u64) list \<Rightarrow> vcpu \<Rightarrow> vcpu" where
  "vmwrites ws s = fold (\<lambda>(i, v). asm_vmwrite i v) ws s"

text \<open>
  The selectors, limits, access rights and bases of the host are the first ones of the guest.  Field 0
  is \<open>VMCS_VPID\<close>; the fields given by number are the CR3 targets and the host's registers.
\<close>

definition sreg_writes :: "(sreg \<Rightarrow> u64) \<Rightarrow> (regs_in_vmcs_sreg \<Rightarrow> u64) \<Rightarrow> regs_in_vmcs \<Rightarrow> (u64 \<times> u64) list" where
  "sreg_writes field part r = map (\<lambda>x. (field x, part (riv_seg r x))) sregs"

definition vmcs_writes_16_64 :: "vt_start \<Rightarrow> vcpu \<Rightarrow> (u64 \<times> u64) list" where
  "vmcs_writes_16_64 p s =
     (let r = host_riv p
      in (if vpid s \<noteq> 0 then [(0x0, ucast (vpid s))] else [])
         @ sreg_writes VMCS_GUEST_SEL (ucast \<circ> rs_sel) r
         @ [(VMCS_GUEST_LDTR_SEL, ucast (rs_sel (riv_ldtr r))), (VMCS_GUEST_TR_SEL, ucast (rs_sel (riv_tr r)))]
         @ sreg_writes VMCS_HOST_SEL (ucast \<circ> rs_sel) r
         @ [(VMCS_HOST_TR_SEL, ucast (rs_sel (riv_tr r))),
            (VMCS_ADDR_IOBMP_A, iobmpphys_a p), (VMCS_ADDR_IOBMP_B, iobmpphys_b p),
            (VMCS_ADDR_MSRBMP, msrbmp_phys p), (VMCS_VMEXIT_MSRSTORE_ADDR, 0), (VMCS_VMEXIT_MSRLOAD_ADDR, 0),
            (VMCS_VMENTRY_MSRLOAD_ADDR, 0), (VMCS_EXEC_VMCS_POINTER, 0), (VMCS_TSC_OFFSET, 0),
            (VMCS_VMCS_LINK_POINTER, 0xFFFFFFFFFFFFFFFF), (VMCS_GUEST_IA32_DEBUGCTL, 0)]
         @ (if save_load_efer_enable s then [(VMCS_GUEST_IA32_EFER, 0)] else []))"

text \<open>The 32-bit fields: the controls with the capabilities applied, then the guest's.\<close>

definition vmcs_writes_ctl :: "u32 \<Rightarrow> u64 \<Rightarrow> vcpu \<Rightarrow> (u64 \<times> u64) list" where
  "vmcs_writes_ctl ctls2_and ctls2 s =
     (let (pin_or, pin_and) = rdmsr32 MSR_IA32_VMX_PINBASED_CTLS s;
          (proc_or, proc_and) = rdmsr32 MSR_IA32_VMX_PROCBASED_CTLS s;
          (exit_or, exit_and) = rdmsr32 MSR_IA32_VMX_EXIT_CTLS s;
          (entry_or, entry_and) = rdmsr32 MSR_IA32_VMX_ENTRY_CTLS s;
          activate2 = (if ctls2_and \<noteq> 0 then 0x80000000 else 0);
          exit_efer = (if save_load_efer_enable s then 0x100000 OR 0x200000 else 0);
          entry_efer = (if save_load_efer_enable s then 0x8000 else 0)
      in [(VMCS_PIN_BASED_VMEXEC_CTL, ucast ((0x8 OR 0x20 OR pin_or) AND pin_and)),
          (VMCS_PROC_BASED_VMEXEC_CTL,
           ucast ((0x200 OR 0x1000000 OR 0x8 OR 0x2000000 OR 0x10000000 OR activate2 OR proc_or) AND proc_and)),
          (VMCS_EXCEPTION_BMP, 0xFFFFFFFF), (VMCS_PAGEFAULT_ERRCODE_MASK, 0), (VMCS_PAGEFAULT_ERRCODE_MATCH, 0),
          (VMCS_CR3_TARGET_COUNT, 0),
          (VMCS_VMEXIT_CTL, ucast (exit_or AND exit_and) OR 0x200 OR exit_efer),
          (VMCS_VMEXIT_MSR_STORE_COUNT, 0), (VMCS_VMEXIT_MSR_LOAD_COUNT, 0),
          (VMCS_VMENTRY_CTL, ucast (entry_or AND entry_and) OR entry_efer),
          (VMCS_VMENTRY_MSR_LOAD_COUNT, 0), (VMCS_VMENTRY_INTR_INFO_FIELD, 0), (VMCS_VMENTRY_EXCEPTION_ERRCODE, 0),
          (VMCS_VMENTRY_INSTRUCTION_LEN, 0), (VMCS_TPR_THRESHOLD, 0)])"

definition vmcs_writes_32 :: "vt_start \<Rightarrow> u32 \<Rightarrow> u64 \<Rightarrow> vcpu \<Rightarrow> (u64 \<times> u64) list" where
  "vmcs_writes_32 p ctls2_and ctls2 s =
     (let r = host_riv p;
          sysenter_cs = rdmsr (ucast MSR_IA32_SYSENTER_CS) s
      in (if ctls2_and \<noteq> 0 then [(VMCS_PROC_BASED_VMEXEC_CTL2, ctls2)] else [])
         @ sreg_writes VMCS_GUEST_LIMIT rs_limit r
         @ [(VMCS_GUEST_LDTR_LIMIT, rs_limit (riv_ldtr r)), (VMCS_GUEST_TR_LIMIT, rs_limit (riv_tr r)),
            (VMCS_GUEST_GDTR_LIMIT, rd_limit (riv_gdtr r)), (VMCS_GUEST_IDTR_LIMIT, rd_limit (riv_idtr r))]
         @ sreg_writes VMCS_GUEST_ACCESS_RIGHTS rs_acr r
         @ [(VMCS_GUEST_LDTR_ACCESS_RIGHTS, rs_acr (riv_ldtr r)), (VMCS_GUEST_TR_ACCESS_RIGHTS, rs_acr (riv_tr r)),
            (VMCS_GUEST_INTERRUPTIBILITY_STATE, 0), (VMCS_GUEST_ACTIVITY_STATE, 0),
            (VMCS_GUEST_IA32_SYSENTER_CS, sysenter_cs), (VMCS_HOST_IA32_SYSENTER_CS, sysenter_cs)])"

text \<open>The natural-width fields: the masks and shadows of CR0 and CR4, the guest, the host.\<close>

definition vmcs_writes_natural :: "vt_start \<Rightarrow> vcpu \<Rightarrow> (u64 \<times> u64) list" where
  "vmcs_writes_natural p s =
     (let r = host_riv p;
          sysenter_esp = rdmsr (ucast MSR_IA32_SYSENTER_ESP) s;
          sysenter_eip = rdmsr (ucast MSR_IA32_SYSENTER_EIP) s
      in [(VMCS_CR0_GUESTHOST_MASK, VT_CR0_GUESTHOST_MASK), (VMCS_CR4_GUESTHOST_MASK, VT_CR4_GUESTHOST_MASK),
          (VMCS_CR0_READ_SHADOW, riv_cr0 r), (VMCS_CR4_READ_SHADOW, riv_cr4 r),
          (0x6008, 0), (0x600A, 0), (0x600C, 0), (0x600E, 0),
          (VMCS_GUEST_CR0, riv_cr0 r), (VMCS_GUEST_CR3, riv_cr3 r), (VMCS_GUEST_CR4, riv_cr4 r)]
         @ sreg_writes VMCS_GUEST_BASE rs_base r
         @ [(VMCS_GUEST_LDTR_BASE, rs_base (riv_ldtr r)), (VMCS_GUEST_TR_BASE, rs_base (riv_tr r)),
            (VMCS_GUEST_GDTR_BASE, rd_base (riv_gdtr r)), (VMCS_GUEST_IDTR_BASE, rd_base (riv_idtr r)),
            (VMCS_GUEST_DR7, riv_dr7 r), (VMCS_GUEST_RSP, 0xDEADBEEF), (VMCS_GUEST_RIP, 0xDEADBEEF),
            (VMCS_GUEST_RFLAGS, riv_rflags r), (VMCS_GUEST_PENDING_DEBUG_EXCEPTIONS, 0),
            (VMCS_GUEST_IA32_SYSENTER_ESP, sysenter_esp), (VMCS_GUEST_IA32_SYSENTER_EIP, sysenter_eip),
            (0x6C00, riv_cr0 r), (0x6C02, riv_cr3 r), (0x6C04, riv_cr4 r),
            (0x6C06, rs_base (riv_seg r SREG_FS)), (0x6C08, rs_base (riv_seg r SREG_GS)), (0x6C0A, rs_base (riv_tr r)),
            (0x6C0C, rd_base (riv_gdtr r)), (0x6C0E, rd_base (riv_idtr r)), (0x6C10, sysenter_esp),
            (0x6C12, sysenter_eip), (0x6C14, 0xDEADBEEF), (0x6C16, 0xDEADBEEF)]
         @ (if save_load_efer_enable s then [(VMCS_HOST_IA32_EFER, rdmsr (ucast MSR_IA32_EFER) s)] else []))"

definition vt__vmcs_init :: "vt_start \<Rightarrow> vcpu \<Rightarrow> vcpu" where
  "vt__vmcs_init p s =
     (let (ctls2_and, ctls2, s) = vmcs_ctls2 (vmcs_flags p s);
          s = vmcs_efer s
      in vmwrites (vmcs_writes_16_64 p s @ vmcs_writes_ctl ctls2_and ctls2 s
                   @ vmcs_writes_32 p ctls2_and ctls2 s @ vmcs_writes_natural p s) s)"

definition vt__realmode_data_init :: "vcpu \<Rightarrow> vcpu" where
  "vt__realmode_data_init s =
     s\<lparr>rm_idtr_base := 0, rm_idtr_limit := 0x3FF, rm_tr_limit := 0, rm_tr_acr := 0x8B, rm_tr_base := 0\<rparr>"

section \<open>The start\<close>

definition vt_paging_init :: "vt_start \<Rightarrow> vcpu \<Rightarrow> vcpu" where
  "vt_paging_init p s =
     (let s = (if ept_available s \<and> unrestricted_guest_available s then s\<lparr>unrestricted_guest := True\<rparr>
               else spt_init (spt_page p) s);
          s = (if ept_available s
               then asm_vmwrite64 VMCS_EPT_POINTER (ept_root p OR 0x6 OR 0x18)
                      (s\<lparr>ept := Some (vt_ept_init (ept_root p) (ept_pool p) (ept_mem p))\<rparr>)
               else s)
      in vt_paging_pg_change s)"

definition vt_vminit :: "vt_start \<Rightarrow> vcpu \<Rightarrow> vcpu" where
  "vt_vminit p s =
     vt_paging_init p (vt_msr_init (msr_vmm_phys p) (msr_guest_phys p)
       (vt__realmode_data_init (vt__vmcs_init p s)))"

abbreviation reset_regs :: "general_reg list" where
  "reset_regs \<equiv> [GENERAL_REG_RAX, GENERAL_REG_RCX, GENERAL_REG_RDX, GENERAL_REG_RBX,
     GENERAL_REG_RSP, GENERAL_REG_RBP, GENERAL_REG_RSI, GENERAL_REG_RDI]"

definition initregs :: "vcpu \<Rightarrow> vcpu option" where
  "initregs s =
     (case vt_reset s of
        None \<Rightarrow> None
      | Some s \<Rightarrow>
          let s = fold (\<lambda>r. vt_write_general_reg r 0) reset_regs s;
              s = vt_write_flags RFLAGS_ALWAYS1_BIT (vt_write_ip 0 s)
          in Some (vt_write_idtr 0 0x3FF s))"

section \<open>The invariant at the start\<close>

lemma vmread_vmwrites [vmcs_simps]:
  "asm_vmread i (vmwrites ws s) = (case map_of (rev ws) i of None \<Rightarrow> asm_vmread i s | Some v \<Rightarrow> vmcs_kept i v)"
  unfolding vmwrites_def
  by (induction ws rule: rev_induct) (auto simp: vmcs_simps split: prod.splits)

lemma frame_vmwrites:
  "keeps_regs (vmwrites ws s) = keeps_regs s" "keeps_machine (vmwrites ws s) = keeps_machine s"
  "keeps_paging (vmwrites ws s) = keeps_paging s" "ept (vmwrites ws s) = ept s"
  "keeps_spt (vmwrites ws s) = keeps_spt s"
  unfolding vmwrites_def by (induction ws arbitrary: s) (auto simp: vt_frame)

lemmas frame_vmwrites_simps [vt_frame] = frame_vmwrites [unfolded prod.inject]

text \<open>
  What the processor's manual says of its capabilities: the exits on the accesses to CR3 are on when
  nothing else is said, and an entry need not be one to 64-bit mode.
\<close>

definition vmx_capable :: "vcpu \<Rightarrow> bool" where
  "vmx_capable s =
     (let (proc_or, proc_and) = rdmsr32 MSR_IA32_VMX_PROCBASED_CTLS s;
          (entry_or, _) = rdmsr32 MSR_IA32_VMX_ENTRY_CTLS s
      in bit proc_or 15 \<and> bit proc_and 15 \<and> bit proc_or 16 \<and> bit proc_and 16 \<and> \<not> bit entry_or 9)"

lemma vmread_upd_init [vmcs_simps]:
  "asm_vmread i (s\<lparr>vpid := a\<rparr>) = asm_vmread i s" "asm_vmread i (s\<lparr>ept_available := b\<rparr>) = asm_vmread i s"
  "asm_vmread i (s\<lparr>invept_available := b\<rparr>) = asm_vmread i s"
  "asm_vmread i (s\<lparr>unrestricted_guest_available := b\<rparr>) = asm_vmread i s"
  "asm_vmread i (s\<lparr>unrestricted_guest := b\<rparr>) = asm_vmread i s"
  "asm_vmread i (s\<lparr>save_load_efer_enable := b\<rparr>) = asm_vmread i s"
  "asm_vmread i (s\<lparr>ept := e\<rparr>) = asm_vmread i s"
  "asm_vmread i (spt_init pg' s) = asm_vmread i s"
  by (simp_all add: asm_vmread_def spt_init_def)

abbreviation keeps_start where
  "keeps_start s \<equiv> (pg s, lme s, lma s, ept s, cr3exit_off s, cr3exit_controllable s, menv s, unrestricted_guest s)"

lemma start_ctls2: "keeps_start (snd (snd (vmcs_ctls2 s))) = keeps_start s"
proof -
  define K where "K t \<longleftrightarrow> keeps_start t = keeps_start s" for t :: vcpu
  have K: "K s" "\<And>c t u. K t \<Longrightarrow> K u \<Longrightarrow> K (if c then t else u)" "\<And>t. K t \<Longrightarrow> K (vpid_init t)"
    "\<And>t. K t \<Longrightarrow> K (ept_init t)" "\<And>t. K t \<Longrightarrow> K (t\<lparr>unrestricted_guest_available := True\<rparr>)"
    by (simp_all add: K_def vpid_init_def ept_init_def Let_def)
  have "K (snd (snd (vmcs_ctls2 s)))"
    unfolding vmcs_ctls2_def Let_def split_beta if_distrib [of snd] fst_conv snd_conv by (intro K)
  then show ?thesis by (simp add: K_def)
qed

lemma start_efer: "keeps_start (vmcs_efer s) = keeps_start s"
  by (simp add: vmcs_efer_def split_beta Let_def)

lemma start_flags:
  "pg (vmcs_flags p s) = pg s" "lme (vmcs_flags p s) = lme s" "lma (vmcs_flags p s) = lma s" "ept (vmcs_flags p s) = None"
  "cr3exit_off (vmcs_flags p s) = False" "unrestricted_guest (vmcs_flags p s) = False" "menv (vmcs_flags p s) = menv s"
  by (simp_all add: vmcs_flags_def)

lemma start_vmcs:
  "pg (vt__vmcs_init p s) = pg s" "lme (vt__vmcs_init p s) = lme s" "lma (vt__vmcs_init p s) = lma s"
  "ept (vt__vmcs_init p s) = None" "cr3exit_off (vt__vmcs_init p s) = False" "unrestricted_guest (vt__vmcs_init p s) = False"
  "menv (vt__vmcs_init p s) = menv s"
  by (simp_all add: vt__vmcs_init_def Let_def split_beta vt_frame start_efer [unfolded prod.inject]
      start_ctls2 [unfolded prod.inject] start_flags)

lemma writes_apart:
  "i \<in> {VMCS_PROC_BASED_VMEXEC_CTL, VMCS_VMENTRY_CTL} \<Longrightarrow> map_of (rev (vmcs_writes_32 p a b s)) i = None"
  "i \<in> {VMCS_PROC_BASED_VMEXEC_CTL, VMCS_VMENTRY_CTL} \<Longrightarrow> map_of (rev (vmcs_writes_natural p s)) i = None"
  unfolding map_of_eq_None_iff
  by (auto simp: vmcs_writes_32_def vmcs_writes_natural_def sreg_writes_def Let_def split: if_splits)

lemma start_controls:
  assumes "vmx_capable s"
  shows "ctl VMCS_PROC_BASED_VMEXEC_CTL 15 (vt__vmcs_init p s)" "ctl VMCS_PROC_BASED_VMEXEC_CTL 16 (vt__vmcs_init p s)"
    "\<not> ctl VMCS_VMENTRY_CTL 9 (vt__vmcs_init p s)"
proof -
  define u where "u = vmcs_efer (snd (snd (vmcs_ctls2 (vmcs_flags p s))))"
  define a where "a = fst (vmcs_ctls2 (vmcs_flags p s))"
  define b where "b = fst (snd (vmcs_ctls2 (vmcs_flags p s)))"
  have t: "vt__vmcs_init p s = vmwrites (vmcs_writes_16_64 p u @ vmcs_writes_ctl a b u
      @ vmcs_writes_32 p a b u @ vmcs_writes_natural p u) u"
    unfolding vt__vmcs_init_def Let_def split_beta u_def a_def b_def by simp
  have "menv u = menv s" using start_efer start_ctls2 by (simp add: u_def vmcs_flags_def)
  then have m: "rdmsr32 i u = rdmsr32 i s" for i by (simp add: rdmsr32_def)
  have c: "asm_vmread VMCS_PROC_BASED_VMEXEC_CTL (vt__vmcs_init p s) = vmcs_kept VMCS_PROC_BASED_VMEXEC_CTL
      (ucast ((0x200 OR 0x1000000 OR 0x8 OR 0x2000000 OR 0x10000000 OR (if a \<noteq> 0 then 0x80000000 else 0)
         OR fst (rdmsr32 MSR_IA32_VMX_PROCBASED_CTLS s)) AND snd (rdmsr32 MSR_IA32_VMX_PROCBASED_CTLS s)))"
    and e: "asm_vmread VMCS_VMENTRY_CTL (vt__vmcs_init p s) = vmcs_kept VMCS_VMENTRY_CTL
      (ucast (fst (rdmsr32 MSR_IA32_VMX_ENTRY_CTLS s) AND snd (rdmsr32 MSR_IA32_VMX_ENTRY_CTLS s))
         OR (if save_load_efer_enable u then 0x8000 else 0))"
    unfolding t vmread_vmwrites
    by (simp_all add: map_of_append map_add_def writes_apart vmcs_writes_ctl_def Let_def split_beta m)
  show "ctl VMCS_PROC_BASED_VMEXEC_CTL 15 (vt__vmcs_init p s)" "ctl VMCS_PROC_BASED_VMEXEC_CTL 16 (vt__vmcs_init p s)"
    "\<not> ctl VMCS_VMENTRY_CTL 9 (vt__vmcs_init p s)"
    using assms unfolding c e by (auto simp: vmx_capable_def split_beta bit_kept vmcs_simps bit_simps)
qed

text \<open>The MSR lists: EFER is 0, in its own field or in the first entry.\<close>

lemma frame_count [vt_frame]:
  "msr_vmm (write_count s) = msr_vmm s" "msr_guest (write_count s) = msr_guest s" "pg (write_count s) = pg s"
  "lme (write_count s) = lme s" "lma (write_count s) = lma s" "ept (write_count s) = ept s"
  "cr3exit_off (write_count s) = cr3exit_off s" "unrestricted_guest (write_count s) = unrestricted_guest s"
  "cr3exit_controllable (write_count s) = cr3exit_controllable s"
  "save_load_efer_enable (write_count s) = save_load_efer_enable s" "menv (write_count s) = menv s"
  by (simp_all add: write_count_def Let_def asm_vmwrite_def)

lemma vmread_count [vmcs_simps]:
  "i \<notin> {VMCS_VMEXIT_MSR_STORE_COUNT, VMCS_VMEXIT_MSR_LOAD_COUNT, VMCS_VMENTRY_MSR_LOAD_COUNT}
     \<Longrightarrow> asm_vmread i (write_count s) = asm_vmread i s"
  by (simp add: write_count_def Let_def vmcs_simps)

lemma vmread_msr_upd [vmcs_simps]:
  "asm_vmread i (s\<lparr>msr_vmm := v, msr_guest := g'\<rparr>) = asm_vmread i s"
  "asm_vmread i (s\<lparr>msr_guest := g'\<rparr>) = asm_vmread i s" "asm_vmread i (s\<lparr>msr_efer := n\<rparr>) = asm_vmread i s"
  "asm_vmread i (s\<lparr>msr_star := x0, msr_lstar := x1, msr_cstar := x2, msr_fmask := x3, msr_kerngs := x4\<rparr>) = asm_vmread i s"
  by (simp_all add: asm_vmread_def)

text \<open>With empty lists EFER becomes the first entry, or none when the processor refuses the read.\<close>

lemma add_first_msr:
  assumes "msr_vmm s = []" "msr_guest s = []" "vt_add_guest_msr n s = (i, t)"
  shows "i = - 1 \<and> t = s \<or> i = 0 \<and> (\<exists>e. t = write_count (s\<lparr>msr_vmm := [e], msr_guest := [e]\<rparr>))"
  using assms by (auto simp: vt_add_guest_msr_def Let_def split_beta MAXNUM_OF_VT_MSR_def split: if_splits)

lemma start_msr:
  fixes s a b
  defines "t \<equiv> vt_msr_init a b s"
  shows "pg t = pg s" "lme t = lme s" "lma t = lma s" "ept t = ept s" "cr3exit_off t = cr3exit_off s"
    "unrestricted_guest t = unrestricted_guest s" "cr3exit_controllable t = cr3exit_controllable s"
    "asm_vmread VMCS_PROC_BASED_VMEXEC_CTL t = asm_vmread VMCS_PROC_BASED_VMEXEC_CTL s"
    "asm_vmread VMCS_VMENTRY_CTL t = asm_vmread VMCS_VMENTRY_CTL s"
    "\<not> save_load_efer_enable t \<longrightarrow> msr_efer t < int (length (msr_guest t))"
    "pred_option (\<lambda>e. e = 0) (read_guest_efer t)"
proof -
  define u where "u = asm_vmwrite64 VMCS_VMENTRY_MSRLOAD_ADDR b (asm_vmwrite64 VMCS_VMEXIT_MSRSTORE_ADDR b
    (asm_vmwrite64 VMCS_VMEXIT_MSRLOAD_ADDR a (write_count (s\<lparr>msr_vmm := [], msr_guest := []\<rparr>))))"
  have m: "msr_vmm u = []" "msr_guest u = []"
    unfolding u_def by (simp_all add: vt_frame) (simp add: asm_vmwrite_def frame_count)
  have sl: "save_load_efer_enable u = save_load_efer_enable s" by (simp add: u_def vt_frame)
  obtain i v where iv: "vt_add_guest_msr (ucast MSR_IA32_EFER) u = (i, v)" by (cases "vt_add_guest_msr (ucast MSR_IA32_EFER) u")
  define w where "w = (if \<not> save_load_efer_enable s then v\<lparr>msr_efer := i\<rparr> else u)"
  have "t = (snd (write_guest_efer 0 w))\<lparr>msr_star := 0, msr_lstar := 0, msr_cstar := 0, msr_fmask := 0, msr_kerngs := 0\<rparr>"
    unfolding t_def vt_msr_init_def Let_def u_def [symmetric] using iv by (simp add: w_def sl)
  moreover have "pg w = pg s" "lme w = lme s" "lma w = lma s" "ept w = ept s" "cr3exit_off w = cr3exit_off s"
    "unrestricted_guest w = unrestricted_guest s" "cr3exit_controllable w = cr3exit_controllable s"
    "save_load_efer_enable w = save_load_efer_enable s"
    "asm_vmread VMCS_PROC_BASED_VMEXEC_CTL w = asm_vmread VMCS_PROC_BASED_VMEXEC_CTL s"
    "asm_vmread VMCS_VMENTRY_CTL w = asm_vmread VMCS_VMENTRY_CTL s"
    "\<not> save_load_efer_enable s \<longrightarrow> msr_efer w < int (length (msr_guest w))"
    using add_first_msr [OF m iv] by (auto simp: w_def vt_frame vmcs_simps) (auto simp: u_def vt_frame vmcs_simps)
  ultimately show "pg t = pg s" "lme t = lme s" "lma t = lma s" "ept t = ept s" "cr3exit_off t = cr3exit_off s"
    "unrestricted_guest t = unrestricted_guest s" "cr3exit_controllable t = cr3exit_controllable s"
    "asm_vmread VMCS_PROC_BASED_VMEXEC_CTL t = asm_vmread VMCS_PROC_BASED_VMEXEC_CTL s"
    "asm_vmread VMCS_VMENTRY_CTL t = asm_vmread VMCS_VMENTRY_CTL s"
    "\<not> save_load_efer_enable t \<longrightarrow> msr_efer t < int (length (msr_guest t))"
    "pred_option (\<lambda>e. e = 0) (read_guest_efer t)"
    by (auto simp: write_guest_efer_def vt_write_guest_msr_def read_guest_efer_def vt_read_guest_msr_def vt_frame vmcs_simps
        vmcs_kept_width nat_less_iff)
qed

text \<open>The start leaves a state from which the reset establishes the invariant.\<close>

lemma start_paging:
  assumes "\<not> pg s" "\<not> lme s" "\<not> lma s" "ept s = None" "\<not> cr3exit_off s" "\<not> unrestricted_guest s"
    "ctl VMCS_PROC_BASED_VMEXEC_CTL 15 s" "ctl VMCS_PROC_BASED_VMEXEC_CTL 16 s" "\<not> ctl VMCS_VMENTRY_CTL 9 s"
    "\<not> save_load_efer_enable s \<longrightarrow> msr_efer s < int (length (msr_guest s))" "pred_option (\<lambda>e. e = 0) (read_guest_efer s)"
  shows "paging_ok (vt_paging_init p s)" "long_ok (vt_paging_init p s)"
    "root_ready (vt_paging_init p s) \<or> root_fresh (vt_paging_init p s)"
proof -
  define a where "a = (if ept_available s \<and> unrestricted_guest_available s then s\<lparr>unrestricted_guest := True\<rparr>
    else spt_init (spt_page p) s)"
  define b where "b = (if ept_available s then asm_vmwrite64 VMCS_EPT_POINTER (ept_root p OR 0x6 OR 0x18)
    (a\<lparr>ept := Some (vt_ept_init (ept_root p) (ept_pool p) (ept_mem p))\<rparr>) else a)"
  have t: "vt_paging_init p s = vt_paging_pg_change b"
    unfolding vt_paging_init_def Let_def a_def [symmetric] by (simp add: b_def) (simp add: a_def spt_init_def)
  have f: "\<not> pg b" "\<not> lme b" "\<not> lma b" "\<not> cr3exit_off b" "save_load_efer_enable b = save_load_efer_enable s"
    "msr_efer b = msr_efer s" "msr_guest b = msr_guest s"
    using assms by (simp_all add: b_def a_def spt_init_def vt_frame)
  have r: "asm_vmread i b = asm_vmread i s" if "i \<noteq> VMCS_EPT_POINTER" for i
    using that by (simp add: b_def a_def vmcs_simps)
  have e: "read_guest_efer b = read_guest_efer s"
    by (simp add: read_guest_efer_def vt_read_guest_msr_def f r)
  show "paging_ok (vt_paging_init p s)"
    unfolding t by (rule pg_change_paging) (use assms f r in simp_all)
  have "pred_option (\<lambda>e. bit e 8 = False \<and> bit e 10 = False) (read_guest_efer s)"
    using assms(11) by (rule option.pred_mono_strong) simp
  then have "lma_ok b" using assms(9,10) f by (simp add: lma_ok_def r e)
  then show "long_ok (vt_paging_init p s)"
    unfolding t long_ok_iff using pg_change_lma(1) [of b] f by (simp add: vt_frame)
  have "root_ready b \<or> root_fresh b"
    using assms by (auto simp: root_ready_def root_fresh_def spt_ok_def ept_enabled_def b_def a_def vt_frame spt_init_def)
  moreover have "b\<lparr>pg := False\<rparr> = b" using f(1) by simp
  ultimately show "root_ready (vt_paging_init p s) \<or> root_fresh (vt_paging_init p s)"
    unfolding t using pg_change_ready [of b False] by auto
qed

lemma reset_some: "\<exists>t. vt_reset s = Some t"
proof -
  have w: "vt_write_msr MSR_IA32_EFER v u \<noteq> None" for v u
    by (cases "read_guest_efer u") (auto simp: vt_write_msr_def Let_def split_beta)
  have o: "x \<noteq> None \<Longrightarrow> \<exists>t. (case x of None \<Rightarrow> None | Some q \<Rightarrow> Some (f q)) = Some (t::vcpu)" for x and f :: "bool \<times> vcpu \<Rightarrow> vcpu"
    by auto
  show ?thesis unfolding vt_reset_def Let_def split_beta by (rule o) (rule w)
qed

lemma initregs_ok:
  assumes "vmx_capable s"
  shows "\<exists>t. initregs (vt_vminit p (load_new_vcpu s)) = Some t \<and> vt_ok t"
proof -
  let ?s = "load_new_vcpu s"
  have c: "vmx_capable ?s" using assms by (simp add: vmx_capable_def rdmsr32_def load_new_vcpu_def)
  have z: "\<not> pg ?s" "\<not> lme ?s" "\<not> lma ?s" by (simp_all add: load_new_vcpu_def)
  let ?a = "vt__realmode_data_init (vt__vmcs_init p ?s)"
  have a: "pg ?a = pg (vt__vmcs_init p ?s)" "lme ?a = lme (vt__vmcs_init p ?s)" "lma ?a = lma (vt__vmcs_init p ?s)"
    "ept ?a = ept (vt__vmcs_init p ?s)" "cr3exit_off ?a = cr3exit_off (vt__vmcs_init p ?s)"
    "unrestricted_guest ?a = unrestricted_guest (vt__vmcs_init p ?s)" "asm_vmread i ?a = asm_vmread i (vt__vmcs_init p ?s)" for i
    by (simp_all add: vt__realmode_data_init_def asm_vmread_def)
  note parts = start_paging [of "vt_msr_init (msr_vmm_phys p) (msr_guest_phys p) ?a" p]
  have "paging_ok (vt_vminit p ?s)" "long_ok (vt_vminit p ?s)" "root_ready (vt_vminit p ?s) \<or> root_fresh (vt_vminit p ?s)"
    unfolding vt_vminit_def by (rule parts; simp add: start_msr a start_vmcs start_controls [OF c] z)+
  note ok = reset_ok [OF this]
  obtain t where t: "vt_reset (vt_vminit p ?s) = Some t" using reset_some by blast
  have "vt_ok u \<Longrightarrow> vt_ok (fold (\<lambda>r. vt_write_general_reg r 0) rs u)" for u rs
    by (induction rs arbitrary: u) (simp_all add: write_regs_ok)
  then show ?thesis
    using ok [OF t] t by (simp add: initregs_def write_regs_ok Let_def del: fold_Cons)
qed

end
