(* ===== verification/Vt_Event.thy ===== *)
theory Vt_Event
  imports Vt_Init
begin

unbundle bit_operations_syntax

text \<open>
  Events for the guest: exceptions, NMIs and external interrupts (\<open>core/vt.c\<close>, \<open>core/exint_pass.c\<close>,
  the event part of \<open>core/vt_main.c\<close>).  The next event is \<open>intr_info\<close>, in the layout of \<open>struct
  intr_info\<close>: vector in bits 7:0, type in 10:8, bit 11 for an error code, bit 31 for valid.  Code that
  is not modelled, the emulation of an interrupt in real mode and the acceptance of a pending interrupt
  of the processor, is an argument.  \<open>None\<close> is a panic.
\<close>

abbreviation VMCS_VMEXIT_INTR_INFO :: u64 where "VMCS_VMEXIT_INTR_INFO \<equiv> 0x4404"
abbreviation VMCS_VMEXIT_INTR_ERRCODE :: u64 where "VMCS_VMEXIT_INTR_ERRCODE \<equiv> 0x4406"
abbreviation VMCS_IDT_VECTORING_INFO_FIELD :: u64 where "VMCS_IDT_VECTORING_INFO_FIELD \<equiv> 0x4408"
abbreviation VMCS_IDT_VECTORING_ERRCODE :: u64 where "VMCS_IDT_VECTORING_ERRCODE \<equiv> 0x440A"
abbreviation VMCS_VMEXIT_INSTRUCTION_LEN :: u64 where "VMCS_VMEXIT_INSTRUCTION_LEN \<equiv> 0x440C"
abbreviation RFLAGS_IF_BIT :: u64 where "RFLAGS_IF_BIT \<equiv> 0x200"

datatype vmmerr =
    VMMERR_SUCCESS | VMMERR_GUESTSEG_LOAD_FAILED | VMMERR_GUESTSEG_NOT_PRESENT | VMMERR_INVALID_GUESTSEG
  | VMMERR_PAGE_NOT_PRESENT | VMMERR_PAGE_NOT_ACCESSIBLE | VMMERR_PAGE_NOT_EXECUTABLE
  | VMMERR_PAGE_BAD_RESERVED_BIT | VMMERR_INSTRUCTION_TOO_LONG | VMMERR_UNIMPLEMENTED_OPCODE
  | VMMERR_UNSUPPORTED_OPCODE | VMMERR_EXCEPTION_UD | VMMERR_AVOID_COMPILER_WARNING | VMMERR_SW
  | VMMERR_NOMEM | VMMERR_MSR_FAULT

section \<open>The layout of an event\<close>

definition ii_vector :: "u32 \<Rightarrow> u32" where
  "ii_vector v = v AND 0xFF"

definition ii_type :: "u32 \<Rightarrow> u32" where
  "ii_type v = drop_bit 8 v AND 7"

definition ii_err :: "u32 \<Rightarrow> bool" where
  "ii_err v = bit v 11"

definition ii_valid :: "u32 \<Rightarrow> bool" where
  "ii_valid v = bit v 31"

text \<open>All fields set, with \<open>nmi\<close> and \<open>reserved\<close> zero.\<close>

definition ii_make :: "u32 \<Rightarrow> u32 \<Rightarrow> bool \<Rightarrow> u32" where
  "ii_make vector t err =
     (vector AND 0xFF) OR push_bit 8 (t AND 7) OR (if err then 0x800 else 0) OR 0x80000000"

abbreviation INTR_INFO_TYPE_EXTERNAL :: u32 where "INTR_INFO_TYPE_EXTERNAL \<equiv> 0"
abbreviation INTR_INFO_TYPE_NMI :: u32 where "INTR_INFO_TYPE_NMI \<equiv> 2"
abbreviation INTR_INFO_TYPE_HARD_EXCEPTION :: u32 where "INTR_INFO_TYPE_HARD_EXCEPTION \<equiv> 3"
abbreviation INTR_INFO_TYPE_SOFT_INTR :: u32 where "INTR_INFO_TYPE_SOFT_INTR \<equiv> 4"
abbreviation INTR_INFO_TYPE_SOFT_EXCEPTION :: u32 where "INTR_INFO_TYPE_SOFT_EXCEPTION \<equiv> 6"

section \<open>Making an event\<close>

definition make_gp_fault :: "u32 \<Rightarrow> vcpu \<Rightarrow> vcpu" where
  "make_gp_fault errcode s =
     s\<lparr>intr_info := ii_make 0xD INTR_INFO_TYPE_HARD_EXCEPTION True, intr_errcode := errcode, intr_len := 0\<rparr>"

text \<open>The same page fault again is a double fault.\<close>

definition vt_generate_pagefault :: "u64 \<Rightarrow> u64 \<Rightarrow> vcpu \<Rightarrow> vcpu option" where
  "vt_generate_pagefault err addr s =
     (let pf = ii_make 0xE INTR_INFO_TYPE_HARD_EXCEPTION True
      in if intr_info s = pf \<and> ucast (intr_errcode s) = err \<and> intr_len s = 0 \<and> cr2 s = addr then None
         else Some (s\<lparr>intr_info := pf, intr_errcode := ucast err, intr_len := 0, cr2 := addr\<rparr>))"

definition vt_generate_external_int :: "(u8 \<Rightarrow> vcpu \<Rightarrow> vmmerr \<times> vcpu) \<Rightarrow> u32 \<Rightarrow> vcpu \<Rightarrow> vcpu" where
  "vt_generate_external_int realmode_int num s =
     (if \<not> re s then s\<lparr>intr_info := ii_make num INTR_INFO_TYPE_EXTERNAL False, intr_len := 0\<rparr>
      else snd (realmode_int (ucast num) s))"

definition vt_generate_nmi :: "vcpu \<Rightarrow> vcpu option" where
  "vt_generate_nmi s =
     (if re s then None else Some (s\<lparr>intr_info := ii_make 2 INTR_INFO_TYPE_NMI False, intr_len := 0\<rparr>))"

section \<open>Non-maskable interrupts\<close>

abbreviation NMIWINEXIT_BIT :: u64 where "NMIWINEXIT_BIT \<equiv> 0x400000"
abbreviation BLOCKING_BY_STI_BIT :: u64 where "BLOCKING_BY_STI_BIT \<equiv> 0x1"
abbreviation BLOCKING_BY_MOV_SS_BIT :: u64 where "BLOCKING_BY_MOV_SS_BIT \<equiv> 0x2"
abbreviation BLOCKING_BY_NMI_BIT :: u64 where "BLOCKING_BY_NMI_BIT \<equiv> 0x8"

definition vt_nmi_has_come :: "vcpu \<Rightarrow> vcpu option" where
  "vt_nmi_has_come s =
     (let is = asm_vmread VMCS_GUEST_INTERRUPTIBILITY_STATE s;
          tmp = asm_vmread VMCS_PROC_BASED_VMEXEC_CTL s
      in if is AND BLOCKING_BY_NMI_BIT \<noteq> 0 then Some s
         else if tmp AND NMIWINEXIT_BIT \<noteq> 0 then Some s
         else if is AND BLOCKING_BY_STI_BIT = 0 \<and> is AND BLOCKING_BY_MOV_SS_BIT = 0 then vt_generate_nmi s
         else Some (asm_vmwrite VMCS_PROC_BASED_VMEXEC_CTL (tmp OR NMIWINEXIT_BIT) s))"

definition do_nmi_window :: "vcpu \<Rightarrow> vcpu option" where
  "do_nmi_window s =
     (if ii_valid (intr_info s) then Some s
      else vt_generate_nmi (vmcs_change VMCS_PROC_BASED_VMEXEC_CTL (\<lambda>tmp. tmp AND NOT NMIWINEXIT_BIT) s))"

text \<open>\<open>get_nmi_count\<close> exchanges the counter with zero.\<close>

definition vt__nmi :: "vcpu \<Rightarrow> vcpu option" where
  "vt__nmi s =
     (if ii_valid (intr_info s) then Some s
      else if nmi_cnt s = 0 then Some s
      else vt_nmi_has_come (s\<lparr>nmi_cnt := 0\<rparr>))"

definition clear_blocking_by_nmi :: "vcpu \<Rightarrow> vcpu" where
  "clear_blocking_by_nmi s = vmcs_change VMCS_GUEST_INTERRUPTIBILITY_STATE (\<lambda>is. is AND NOT BLOCKING_BY_NMI_BIT) s"

section \<open>Delivery\<close>

definition vt__event_delivery_setup :: "vcpu \<Rightarrow> vcpu" where
  "vt__event_delivery_setup s =
     (if ii_valid (intr_info s) then
        let s = asm_vmwrite VMCS_VMENTRY_INTR_INFO_FIELD (ucast (intr_info s)) s;
            s = (if ii_err (intr_info s) then asm_vmwrite VMCS_VMENTRY_EXCEPTION_ERRCODE (ucast (intr_errcode s)) s else s)
        in asm_vmwrite VMCS_VMENTRY_INSTRUCTION_LEN (ucast (intr_len s)) s
      else s)"

text \<open>After an exit: the event that was being delivered is the next one, unless it is a software interrupt.\<close>

definition vt__event_delivery_check :: "vcpu \<Rightarrow> vcpu" where
  "vt__event_delivery_check s =
     (let v = ucast (asm_vmread VMCS_IDT_VECTORING_INFO_FIELD s) :: u32;
          (v, s) = (if ii_valid v then
                      if ii_type v = INTR_INFO_TYPE_SOFT_INTR \<or> ii_type v = INTR_INFO_TYPE_SOFT_EXCEPTION
                      then (v AND NOT 0x80000000, s)
                      else if ii_err v
                      then (v, s\<lparr>intr_errcode := ucast (asm_vmread VMCS_IDT_VECTORING_ERRCODE s)\<rparr>)
                      else if ii_type v = INTR_INFO_TYPE_NMI then (v, clear_blocking_by_nmi s)
                      else (v, s)
                    else (v, s))
      in s\<lparr>intr_info := v\<rparr>)"

section \<open>External interrupts\<close>

abbreviation PIN_EXINTEXIT_BIT :: u64 where "PIN_EXINTEXIT_BIT \<equiv> 0x1"
abbreviation INTRWINEXIT_BIT :: u64 where "INTRWINEXIT_BIT \<equiv> 0x4"

definition vt_update_exint :: "vcpu \<Rightarrow> vcpu" where
  "vt_update_exint s =
     (let pass = exint_pass s;
          pending = exint_pending s;
          (pass, pending) = (if pass \<and> re s then
                               if exint_re_pending s then (pass, True) else (False, pending)
                             else (pass, pending));
          s = vmcs_change VMCS_PIN_BASED_VMEXEC_CTL
                (\<lambda>pin. if pass then pin AND NOT PIN_EXINTEXIT_BIT else pin OR PIN_EXINTEXIT_BIT) s;
          s = vmcs_change VMCS_PROC_BASED_VMEXEC_CTL
                (\<lambda>tmp. if pending then tmp OR INTRWINEXIT_BIT else tmp AND NOT INTRWINEXIT_BIT) s
      in s\<lparr>exint_update := False\<rparr>)"

definition vt_exint_pass :: "bool \<Rightarrow> vcpu \<Rightarrow> vcpu" where
  "vt_exint_pass enable s = s\<lparr>exint_pass := enable, exint_update := True\<rparr>"

definition vt_exint_pending :: "bool \<Rightarrow> vcpu \<Rightarrow> vcpu" where
  "vt_exint_pending pending s = s\<lparr>exint_pending := pending, exint_update := True\<rparr>"

text \<open>
  What the handlers of external interrupts need: \<open>config.vmm.no_intr_intercept\<close>, the emulation of an
  interrupt in real mode, and the interrupt \<open>do_externalint_enable\<close> accepts, -1 for none.
\<close>

record exint_env =
  no_intr_intercept :: bool
  realmode_int :: "u8 \<Rightarrow> vcpu \<Rightarrow> vmmerr \<times> vcpu"
  externalint :: int

definition exint_pass_int_enabled :: "exint_env \<Rightarrow> vcpu \<Rightarrow> vcpu" where
  "exint_pass_int_enabled env s = vt_exint_pass (no_intr_intercept env) (vt_exint_pending False s)"

definition exint_pass_default :: "exint_env \<Rightarrow> int \<Rightarrow> vcpu \<Rightarrow> vcpu" where
  "exint_pass_default env num s = vt_generate_external_int (realmode_int env) (of_int num) s"

definition do_exint_pass :: "exint_env \<Rightarrow> vcpu \<Rightarrow> vcpu" where
  "do_exint_pass env s =
     (if vt_read_flags s AND RFLAGS_IF_BIT \<noteq> 0 then
        let num = externalint env;
            s = (if num \<ge> 0 then exint_pass_default env num s else s)
        in vt_exint_pass (no_intr_intercept env) (vt_exint_pending False s)
      else vt_exint_pass True (vt_exint_pending True s))"

definition exint_pass_hlt :: "exint_env \<Rightarrow> vcpu \<Rightarrow> vcpu" where
  "exint_pass_hlt env s = do_exint_pass env s"

definition do_re_external_int :: "exint_env \<Rightarrow> vcpu \<Rightarrow> vcpu" where
  "do_re_external_int env s =
     (if vt_read_flags s AND RFLAGS_IF_BIT \<noteq> 0 then
        let num = externalint env;
            s = (if num \<ge> 0 then vt_generate_external_int (realmode_int env) (of_int num) s else s)
        in s\<lparr>exint_re_pending := False, exint_update := True\<rparr>
      else s\<lparr>exint_re_pending := True, exint_update := True\<rparr>)"

definition do_external_int :: "exint_env \<Rightarrow> vcpu \<Rightarrow> vcpu" where
  "do_external_int env s =
     (if re s \<and> exint_pass s then do_re_external_int env s else do_exint_pass env s)"

definition do_interrupt_window :: "exint_env \<Rightarrow> vcpu \<Rightarrow> vcpu" where
  "do_interrupt_window env s =
     (let s = (if exint_re_pending s \<and> re s \<and> exint_pass s then do_re_external_int env s else s)
      in if exint_pending s then exint_pass_hlt env s else s)"

section \<open>The invariant\<close>

text \<open>The events change no field the guest's mode depends on.\<close>

abbreviation mode_bits :: "u64 \<Rightarrow> bool \<times> bool \<times> bool" where
  "mode_bits tmp \<equiv> (bit tmp 9, bit tmp 15, bit tmp 16)"

lemma vt_ok_proc:
  assumes "\<And>tmp. mode_bits (f tmp) = mode_bits tmp"
  shows "vt_ok (vmcs_change VMCS_PROC_BASED_VMEXEC_CTL f s) = vt_ok s"
proof -
  let ?t = "vmcs_change VMCS_PROC_BASED_VMEXEC_CTL f s"
  have e: "ept_enabled ?t = ept_enabled s" "read_guest_efer ?t = read_guest_efer s" "vt_read_cr3 ?t = vt_read_cr3 s"
    by (simp_all add: ept_enabled_def read_guest_efer_def vt_read_guest_msr_def vt_read_cr3_def vt_frame vmcs_simps)
  show ?thesis
    unfolding vt_ok_parts e using assms by (simp add: vt_frame vmcs_simps bit_kept)
qed

lemma vt_ok_upd:
  "vt_ok (s\<lparr>intr_info := a, intr_len := b\<rparr>) = vt_ok s" "vt_ok (s\<lparr>intr_info := a\<rparr>) = vt_ok s"
  "vt_ok (s\<lparr>intr_info := a, intr_errcode := c, intr_len := b\<rparr>) = vt_ok s"
  "vt_ok (s\<lparr>intr_info := a, intr_errcode := c, intr_len := b, cr2 := d\<rparr>) = vt_ok s"
  "vt_ok (s\<lparr>intr_errcode := c\<rparr>) = vt_ok s" "vt_ok (s\<lparr>nmi_cnt := n\<rparr>) = vt_ok s"
  "vt_ok (s\<lparr>exint_pass := p, exint_update := q\<rparr>) = vt_ok s" "vt_ok (s\<lparr>exint_pending := p, exint_update := q\<rparr>) = vt_ok s"
  "vt_ok (s\<lparr>exint_pending := p, exint_pass := r\<rparr>) = vt_ok s" "vt_ok (s\<lparr>exint_pass := p\<rparr>) = vt_ok s"
  "vt_ok (s\<lparr>exint_pending := p, exint_pass := r, exint_update := q\<rparr>) = vt_ok s" "vt_ok (s\<lparr>exint_pending := p\<rparr>) = vt_ok s"
  "vt_ok (s\<lparr>exint_re_pending := p\<rparr>) = vt_ok s" "vt_ok (s\<lparr>exint_re_pending := p, exint_update := q\<rparr>) = vt_ok s" "vt_ok (s\<lparr>exint_update := q\<rparr>) = vt_ok s"
  "vt_ok (s\<lparr>halted := p\<rparr>) = vt_ok s" "vt_ok (s\<lparr>first_run := p\<rparr>) = vt_ok s" "vt_ok (s\<lparr>sw_num := i\<rparr>) = vt_ok s"
  by (rule vt_ok_cong; simp add: asm_vmread_def)+

lemma proc_bits:
  "mode_bits (tmp OR NMIWINEXIT_BIT) = mode_bits tmp" "mode_bits (tmp AND NOT NMIWINEXIT_BIT) = mode_bits tmp"
  "mode_bits (tmp OR INTRWINEXIT_BIT) = mode_bits tmp" "mode_bits (tmp AND NOT INTRWINEXIT_BIT) = mode_bits tmp"
  by (simp_all add: bit_simps)

lemma generate_nmi_ok: "vt_generate_nmi s = Some t \<Longrightarrow> vt_ok t = vt_ok s"
  by (auto simp: vt_generate_nmi_def vt_ok_upd split: if_splits)

lemma nmi_has_come_ok: "vt_nmi_has_come s = Some t \<Longrightarrow> vt_ok t = vt_ok s"
  using vt_ok_proc [of "\<lambda>tmp. tmp OR NMIWINEXIT_BIT" s]
  by (auto simp: vt_nmi_has_come_def Let_def proc_bits vmcs_change_def dest: generate_nmi_ok split: if_splits)

lemma nmi_window_ok: "do_nmi_window s = Some t \<Longrightarrow> vt_ok t = vt_ok s"
  using vt_ok_proc [of "\<lambda>tmp. tmp AND NOT NMIWINEXIT_BIT" s]
  by (auto simp: do_nmi_window_def bit_simps dest: generate_nmi_ok split: if_splits)

lemma nmi_ok: "vt__nmi s = Some t \<Longrightarrow> vt_ok t = vt_ok s"
  by (auto simp: vt__nmi_def vt_ok_upd dest: nmi_has_come_ok split: if_splits)

lemma delivery_ok: "vt_ok (vt__event_delivery_setup s) = vt_ok s" "vt_ok (vt__event_delivery_check s) = vt_ok s"
  by (simp_all add: vt__event_delivery_setup_def vt__event_delivery_check_def clear_blocking_by_nmi_def vmcs_change_def
      Let_def split_beta vt_ok_vmwrite vt_ok_upd)

lemma update_exint_ok: "vt_ok (vt_update_exint s) = vt_ok s"
proof -
  have "vt_ok (vmcs_change VMCS_PROC_BASED_VMEXEC_CTL
      (\<lambda>tmp. if p then tmp OR INTRWINEXIT_BIT else tmp AND NOT INTRWINEXIT_BIT) u) = vt_ok u" for p u
    by (rule vt_ok_proc) (simp add: bit_simps)
  then show ?thesis
    by (simp only: vt_update_exint_def Let_def split_beta vt_ok_upd vmcs_change_def [of VMCS_PIN_BASED_VMEXEC_CTL])
      (simp add: vt_ok_vmwrite)
qed

text \<open>The emulation of an interrupt in real mode is a sequence of operations of the virtual CPU.\<close>

definition exint_env_ok :: "exint_env \<Rightarrow> bool" where
  "exint_env_ok env = (\<forall>num s. vt_reach s (snd (realmode_int env num s)))"

lemma external_int_ok:
  assumes "exint_env_ok env" "vt_ok s"
  shows "vt_ok (do_external_int env s)" "vt_ok (do_interrupt_window env s)" "vt_ok (exint_pass_int_enabled env s)"
proof -
  have g: "vt_ok (vt_generate_external_int (realmode_int env) n t)" if "vt_ok t" for n t
    using assms(1) that by (auto simp: vt_generate_external_int_def exint_env_ok_def vt_ok_upd intro: vt_reach_ok)
  have p: "vt_ok (do_exint_pass env t)" "vt_ok (do_re_external_int env t)" if "vt_ok t" for t
    using that g by (simp_all add: do_exint_pass_def do_re_external_int_def exint_pass_default_def vt_exint_pass_def
        vt_exint_pending_def Let_def vt_ok_upd)
  show "vt_ok (do_external_int env s)" "vt_ok (do_interrupt_window env s)" "vt_ok (exint_pass_int_enabled env s)"
    using assms(2) p by (simp_all add: do_external_int_def do_interrupt_window_def exint_pass_hlt_def
        exint_pass_int_enabled_def vt_exint_pass_def vt_exint_pending_def vt_ok_upd Let_def)
qed

end
