(* ===== verification/Vt_Exit.thy ===== *)
theory Vt_Exit
  imports Vt_Event
begin

unbundle bit_operations_syntax

text \<open>
  The handlers of the exits of the guest (\<open>core/vt_main.c\<close>, \<open>core/vt_addip.h\<close>, the instructions of
  \<open>core/cpu_emul.c\<close>) and their dispatch.  Code that is not modelled is an argument, in \<open>exit_env\<close>: the
  instruction interpreter, the shadow page tables, the VMM calls, the I/O handlers, CPUID and XSETBV,
  the outcome of the wait for a migrated page and the accesses to linear addresses of a task switch.
  \<open>None\<close> is a panic, or a wait for a page that never comes.
\<close>

abbreviation VMCS_EXIT_REASON :: u64 where "VMCS_EXIT_REASON \<equiv> 0x4402"
abbreviation VMCS_EXIT_QUALIFICATION :: u64 where "VMCS_EXIT_QUALIFICATION \<equiv> 0x6400"
abbreviation VMCS_GUEST_PHYSICAL_ADDRESS :: u64 where "VMCS_GUEST_PHYSICAL_ADDRESS \<equiv> 0x2400"

record exit_env =
  exint_of :: exint_env
  interpreter :: "vcpu \<Rightarrow> vmmerr \<times> vcpu"
  spt_pagefault :: "u64 \<Rightarrow> u64 \<Rightarrow> vcpu \<Rightarrow> vcpu"
  spt_invalidate :: "u64 \<Rightarrow> vcpu \<Rightarrow> vcpu"
  spt_flush :: "vcpu \<Rightarrow> bool"
  vmmcall_fn :: "vcpu \<Rightarrow> vcpu"
  io_fn :: "vcpu \<Rightarrow> vcpu option"
  cpuid_fn :: "u32 \<Rightarrow> u32 \<Rightarrow> u32 \<times> u32 \<times> u32 \<times> u32"
  xsetbv_fn :: "u32 \<Rightarrow> u32 \<Rightarrow> u32 \<Rightarrow> bool"
  boot_cpu :: bool
  after_mig :: bool
  mig_found :: bool
  mig_obs :: "(bool \<times> bool) list"
  linear_q :: "u64 \<Rightarrow> vcpu \<Rightarrow> u64 option"
  set_linear_q :: "u64 \<Rightarrow> u64 \<Rightarrow> vcpu \<Rightarrow> vcpu option"
  linear_tss :: "u64 \<Rightarrow> vcpu \<Rightarrow> bytes option"
  set_linear_tss :: "u64 \<Rightarrow> bytes \<Rightarrow> vcpu \<Rightarrow> vcpu option"

section \<open>Instructions\<close>

definition add_ip :: "vcpu \<Rightarrow> vcpu" where
  "add_ip s = asm_vmwrite VMCS_GUEST_RIP (asm_vmread VMCS_GUEST_RIP s + asm_vmread VMCS_VMEXIT_INSTRUCTION_LEN s) s"

text \<open>The numbers of the registers in the exit qualification; another control register is a panic.\<close>

definition control_reg_of :: "u64 \<Rightarrow> control_reg option" where
  "control_reg_of n =
     (if n = 0 then Some CONTROL_REG_CR0 else if n = 2 then Some CONTROL_REG_CR2
      else if n = 3 then Some CONTROL_REG_CR3 else if n = 4 then Some CONTROL_REG_CR4 else None)"

definition general_reg_of :: "u64 \<Rightarrow> general_reg" where
  "general_reg_of n =
     [GENERAL_REG_RAX, GENERAL_REG_RCX, GENERAL_REG_RDX, GENERAL_REG_RBX, GENERAL_REG_RSP, GENERAL_REG_RBP,
      GENERAL_REG_RSI, GENERAL_REG_RDI, GENERAL_REG_R8, GENERAL_REG_R9, GENERAL_REG_R10, GENERAL_REG_R11,
      GENERAL_REG_R12, GENERAL_REG_R13, GENERAL_REG_R14, GENERAL_REG_R15] ! unat (n AND 0xF)"

text \<open>\<open>struct exit_qual_cr\<close>: register in bits 3:0, type in 5:4, general register in 11:8, LMSW data in 31:16.\<close>

definition do_mov_cr :: "vcpu \<Rightarrow> vcpu option" where
  "do_mov_cr s =
     (let eqc = asm_vmread VMCS_EXIT_QUALIFICATION s;
          num = control_reg_of (eqc AND 0xF);
          ty = drop_bit 4 eqc AND 3;
          reg = general_reg_of (drop_bit 8 eqc AND 0xF);
          cr0 = vt_read_control_reg CONTROL_REG_CR0 s
      in map_option add_ip
          (if ty = 0 then map_option (\<lambda>r. vt_write_control_reg r (vt_read_general_reg reg s) s) num
           else if ty = 1 then map_option (\<lambda>r. vt_write_general_reg reg (vt_read_control_reg r s) s) num
           else if ty = 2 then Some (vt_write_control_reg CONTROL_REG_CR0 (cr0 AND NOT CR0_TS_BIT) s)
           else Some (vt_write_control_reg CONTROL_REG_CR0
                       (cr0 AND NOT 0xFFFF OR (drop_bit 16 eqc AND 0xFFFF)) s)))"

definition cpu_emul_cpuid :: "exit_env \<Rightarrow> vcpu \<Rightarrow> vcpu" where
  "cpu_emul_cpuid env s =
     (let (oa, ob, oc, od) = cpuid_fn env (ucast (vt_read_general_reg GENERAL_REG_RAX s))
                               (ucast (vt_read_general_reg GENERAL_REG_RCX s));
          s = vt_write_general_reg GENERAL_REG_RAX (ucast oa) s;
          s = vt_write_general_reg GENERAL_REG_RBX (ucast ob) s;
          s = vt_write_general_reg GENERAL_REG_RCX (ucast oc) s
      in vt_write_general_reg GENERAL_REG_RDX (ucast od) s)"

definition do_cpuid :: "exit_env \<Rightarrow> vcpu \<Rightarrow> vcpu" where
  "do_cpuid env s = add_ip (cpu_emul_cpuid env s)"

text \<open>RAX and RDX are written even when the read failed, then with an uninitialised value.\<close>

definition cpu_emul_rdmsr :: "vcpu \<Rightarrow> (bool \<times> vcpu) option" where
  "cpu_emul_rdmsr s =
     map_option (\<lambda>(data, s).
       let msrdata = (case data of None \<Rightarrow> uninit s | Some d \<Rightarrow> d);
           s = vt_write_general_reg GENERAL_REG_RAX (msrdata AND 0xFFFFFFFF) s;
           s = vt_write_general_reg GENERAL_REG_RDX (drop_bit 32 msrdata) s
       in (data = None, s))
     (vt_read_msr (ucast (vt_read_general_reg GENERAL_REG_RCX s)) s)"

definition do_rdmsr :: "vcpu \<Rightarrow> vcpu option" where
  "do_rdmsr s = map_option (\<lambda>(err, s). if err then make_gp_fault 0 s else add_ip s) (cpu_emul_rdmsr s)"

definition cpu_emul_wrmsr :: "vcpu \<Rightarrow> (bool \<times> vcpu) option" where
  "cpu_emul_wrmsr s =
     (let msrdata = push_bit 32 (vt_read_general_reg GENERAL_REG_RDX s)
                      OR (vt_read_general_reg GENERAL_REG_RAX s AND 0xFFFFFFFF)
      in vt_write_msr (ucast (vt_read_general_reg GENERAL_REG_RCX s)) msrdata s)"

definition do_wrmsr :: "vcpu \<Rightarrow> vcpu option" where
  "do_wrmsr s = map_option (\<lambda>(err, s). if err then make_gp_fault 0 s else add_ip s) (cpu_emul_wrmsr s)"

definition do_invlpg :: "exit_env \<Rightarrow> vcpu \<Rightarrow> vcpu option" where
  "do_invlpg env s =
     map_option add_ip (vt_paging_invalidate (spt_invalidate env) (asm_vmread VMCS_EXIT_QUALIFICATION s) s)"

definition do_vmcall :: "exit_env \<Rightarrow> vcpu \<Rightarrow> vcpu" where
  "do_vmcall env s = vmmcall_fn env (add_ip s)"

definition do_hlt :: "vcpu \<Rightarrow> vcpu" where
  "do_hlt s = add_ip (s\<lparr>halted := True\<rparr>)"

definition do_xsetbv :: "exit_env \<Rightarrow> vcpu \<Rightarrow> vcpu" where
  "do_xsetbv env s =
     (if vt_read_sreg_sel SREG_CS s AND 3 \<noteq> 0
         \<or> xsetbv_fn env (ucast (vt_read_general_reg GENERAL_REG_RCX s)) (ucast (vt_read_general_reg GENERAL_REG_RAX s))
             (ucast (vt_read_general_reg GENERAL_REG_RDX s))
      then make_gp_fault 0 s else add_ip s)"

section \<open>Exceptions\<close>

definition do_exception_hard :: "exit_env \<Rightarrow> u32 \<Rightarrow> vcpu \<Rightarrow> vcpu option" where
  "do_exception_hard env v s =
     (if ii_vector v = 1 \<and> sw_enable s \<noteq> 0 then Some s
      else if ii_vector v = 0xE then
        vt_paging_pagefault (spt_pagefault env (asm_vmread VMCS_VMEXIT_INTR_ERRCODE s)
          (asm_vmread VMCS_EXIT_QUALIFICATION s)) s
      else if re s then
        if ii_vector v = 0xD then
          (case interpreter env s of (err, s) \<Rightarrow> if err = VMMERR_SUCCESS then Some s else None)
        else if ii_vector v = 1 then
          (case realmode_int (exint_of env) 1 s of (err, s) \<Rightarrow> if err = VMMERR_SUCCESS then Some s else None)
        else None
      else if intr_info s = v then None
      else
        let errc = asm_vmread VMCS_VMEXIT_INTR_ERRCODE s;
            s = s\<lparr>intr_info := v\<rparr>;
            s = (if ii_err v then s\<lparr>intr_errcode := ucast errc\<rparr> else s)
        in if ii_err v \<and> ii_vector v = 0xD \<and> errc = 0x6B then None
           else Some (s\<lparr>intr_len := 0\<rparr>))"

definition do_exception :: "exit_env \<Rightarrow> vcpu \<Rightarrow> vcpu option" where
  "do_exception env s =
     (let v = ucast (asm_vmread VMCS_VMEXIT_INTR_INFO s) :: u32
      in if \<not> ii_valid v then Some s
         else if ii_type v = INTR_INFO_TYPE_HARD_EXCEPTION then do_exception_hard env v s
         else if ii_type v = INTR_INFO_TYPE_SOFT_EXCEPTION then
           Some (s\<lparr>intr_info := v, intr_len := ucast (asm_vmread VMCS_VMEXIT_INSTRUCTION_LEN s)\<rparr>)
         else if ii_type v = INTR_INFO_TYPE_NMI then vt_nmi_has_come s
         else None)"

section \<open>INIT, startup IPI\<close>

abbreviation ACTIVITY_STATE_ACTIVE :: u64 where "ACTIVITY_STATE_ACTIVE \<equiv> 0"
abbreviation ACTIVITY_STATE_HLT :: u64 where "ACTIVITY_STATE_HLT \<equiv> 1"
abbreviation ACTIVITY_STATE_WAIT_FOR_SIPI :: u64 where "ACTIVITY_STATE_WAIT_FOR_SIPI \<equiv> 3"

definition do_init_signal :: "exit_env \<Rightarrow> vcpu \<Rightarrow> vcpu option" where
  "do_init_signal env s =
     (if boot_cpu env then None
      else Some (vt_update_exception_bmp
             ((asm_vmwrite VMCS_GUEST_ACTIVITY_STATE ACTIVITY_STATE_WAIT_FOR_SIPI s)\<lparr>halted := False, sw_enable := 0\<rparr>)))"

definition do_startup_ipi :: "vcpu \<Rightarrow> vcpu option" where
  "do_startup_ipi s =
     (let vector = asm_vmread VMCS_EXIT_QUALIFICATION s AND 0xFF
      in map_option (\<lambda>s.
           let s = vt_write_realmode_seg SREG_CS (ucast (push_bit 8 vector)) s;
               s = fold (\<lambda>r. vt_write_general_reg r 0) reset_regs s;
               s = vt_write_flags RFLAGS_ALWAYS1_BIT (vt_write_ip 0 s);
               s = vt_write_idtr 0 0x3FF s
           in vt_update_exception_bmp (asm_vmwrite VMCS_GUEST_ACTIVITY_STATE ACTIVITY_STATE_ACTIVE s))
         (vt_reset s))"

section \<open>EPT violations\<close>

definition do_ept_violation :: "exit_env \<Rightarrow> vcpu \<Rightarrow> vcpu option" where
  "do_ept_violation env s =
     (let eqe = asm_vmread VMCS_EXIT_QUALIFICATION s;
          gp = asm_vmread64 VMCS_GUEST_PHYSICAL_ADDRESS s
      in case vt_paging_npf (after_mig env) (mig_found env) (mig_obs env) (eqe AND 0x2 \<noteq> 0) gp s of
           Some (Mapped e, _) \<Rightarrow> Some (s\<lparr>ept := Some e\<rparr>)
         | Some (Interpreted, _) \<Rightarrow>
             (case interpreter env s of (err, s) \<Rightarrow> if err = VMMERR_SUCCESS then Some s else None)
         | _ \<Rightarrow> None)"

section \<open>The invariant\<close>

text \<open>What the code that is not modelled does to the virtual CPU is a sequence of its operations.\<close>

definition exit_env_ok :: "exit_env \<Rightarrow> bool" where
  "exit_env_ok env =
     (exint_env_ok (exint_of env)
      \<and> (\<forall>s. vt_reach s (snd (interpreter env s)) \<and> vt_reach s (vmmcall_fn env s) \<and> pred_option (vt_reach s) (io_fn env s))
      \<and> (\<forall>a b s. vt_reach s (spt_pagefault env a b s) \<and> vt_reach s (spt_invalidate env a s))
      \<and> (\<forall>a q s. pred_option (vt_reach s) (set_linear_q env a q s))
      \<and> (\<forall>a b s. pred_option (vt_reach s) (set_linear_tss env a b s)))"

lemma env_okD:
  assumes "exit_env_ok env" "vt_ok s"
  shows "vt_ok (snd (interpreter env s))" "vt_ok (vmmcall_fn env s)" "vt_ok (spt_pagefault env a b s)"
    "vt_ok (spt_invalidate env a s)" "io_fn env s = Some t \<Longrightarrow> vt_ok t"
    "set_linear_q env a q s = Some t \<Longrightarrow> vt_ok t" "set_linear_tss env a c s = Some t \<Longrightarrow> vt_ok t"
    "exint_env_ok (exint_of env)"
proof -
  have reach: "vt_ok u" if "vt_reach s u" for u using vt_reach_ok [OF that assms(2)] .
  show "vt_ok (snd (interpreter env s))" "vt_ok (vmmcall_fn env s)" "vt_ok (spt_pagefault env a b s)"
    "vt_ok (spt_invalidate env a s)" "exint_env_ok (exint_of env)"
    using assms(1) unfolding exit_env_ok_def by (blast intro: reach)+
  have "pred_option (vt_reach s) (io_fn env s)" "pred_option (vt_reach s) (set_linear_q env a q s)"
    "pred_option (vt_reach s) (set_linear_tss env a c s)"
    using assms(1) unfolding exit_env_ok_def by (blast+)
  then show "io_fn env s = Some t \<Longrightarrow> vt_ok t" "set_linear_q env a q s = Some t \<Longrightarrow> vt_ok t"
    "set_linear_tss env a c s = Some t \<Longrightarrow> vt_ok t"
    using reach by simp_all
qed

lemma add_ip_ok: "vt_ok (add_ip s) = vt_ok s"
  by (simp add: add_ip_def vt_ok_vmwrite)

lemma gp_fault_ok: "vt_ok (make_gp_fault e s) = vt_ok s"
  by (simp add: make_gp_fault_def vt_ok_upd)

lemma mov_cr_ok: "vt_ok s \<Longrightarrow> do_mov_cr s = Some t \<Longrightarrow> vt_ok t"
proof -
  assume "vt_ok s" "do_mov_cr s = Some t"
  then obtain u where t: "t = add_ip u"
    and u: "(\<exists>r v. u = vt_write_control_reg r v s) \<or> (\<exists>r v. u = vt_write_general_reg r v s)"
    unfolding do_mov_cr_def Let_def by (fastforce split: if_split_asm)
  show "vt_ok t" using u \<open>vt_ok s\<close> by (auto simp: t add_ip_ok write_control_reg_ok write_regs_ok)
qed

lemma cpuid_ok: "vt_ok (do_cpuid env s) = vt_ok s"
  by (simp add: do_cpuid_def cpu_emul_cpuid_def add_ip_ok write_regs_ok split_beta Let_def)

lemma rdmsr_ok: "vt_ok s \<Longrightarrow> do_rdmsr s = Some t \<Longrightarrow> vt_ok t"
  by (auto simp: do_rdmsr_def cpu_emul_rdmsr_def Let_def add_ip_ok gp_fault_ok write_regs_ok
      dest: read_msr_ok split: if_splits)

lemma wrmsr_ok: "vt_ok s \<Longrightarrow> do_wrmsr s = Some t \<Longrightarrow> vt_ok t"
  by (auto simp: do_wrmsr_def cpu_emul_wrmsr_def Let_def add_ip_ok gp_fault_ok
      dest: write_msr_ok split: if_splits)

lemma small_exits_ok:
  assumes "exit_env_ok env" "vt_ok s"
  shows "do_invlpg env s = Some t \<Longrightarrow> vt_ok t" "vt_ok (do_vmcall env s)" "vt_ok (do_hlt s)" "vt_ok (do_xsetbv env s)"
  using assms
  by (auto simp: do_invlpg_def vt_paging_invalidate_def do_vmcall_def do_hlt_def do_xsetbv_def add_ip_ok gp_fault_ok
      vt_ok_upd intro: env_okD split: if_splits)

lemma exception_hard_ok:
  assumes env: "exit_env_ok env" and ok: "vt_ok s" and t: "do_exception_hard env v s = Some t"
  shows "vt_ok t"
proof -
  have i: "vt_ok u" if "interpreter env s = (e, u)" for e u
    using env_okD(1) [OF env ok] that by simp
  have r: "vt_ok u" if "realmode_int (exint_of env) n s = (e, u)" for n e u
    using env_okD(8) [OF env ok] vt_reach_ok [OF _ ok] that unfolding exint_env_ok_def by (metis snd_conv)
  have p: "vt_ok u" if "vt_paging_pagefault (spt_pagefault env a b) s = Some u" for a b u
    using env_okD(3) [OF env ok] that by (auto simp: vt_paging_pagefault_def split: if_splits)
  show ?thesis
    using t ok by (auto simp: do_exception_hard_def vt_ok_upd Let_def dest: i r p split: if_splits prod.splits)
qed

lemma exception_ok:
  assumes "exit_env_ok env" "vt_ok s" "do_exception env s = Some t"
  shows "vt_ok t"
  using assms by (auto simp: do_exception_def Let_def vt_ok_upd dest: exception_hard_ok nmi_has_come_ok split: if_splits)

lemma exception_bmp_ok:
  assumes "paging_ok s" "root_ok s" "long_ok s" "mode_ok s"
  shows "vt_ok (vt_update_exception_bmp s)"
  using assms by (simp add: vt_ok_def bmp_others)

text \<open>INIT and the startup IPI: the emulation of segment registers stops or starts again.\<close>

lemma sw_enable_parts:
  "paging_ok (s\<lparr>halted := b, sw_enable := w\<rparr>) = paging_ok s" "root_ok (s\<lparr>halted := b, sw_enable := w\<rparr>) = root_ok s"
  "long_ok (s\<lparr>halted := b, sw_enable := w\<rparr>) = long_ok s" "mode_ok (s\<lparr>halted := b, sw_enable := w\<rparr>) = mode_ok s"
proof -
  let ?t = "s\<lparr>halted := b, sw_enable := w\<rparr>"
  have e: "ept_enabled ?t = ept_enabled s" "read_guest_efer ?t = read_guest_efer s" "vt_read_cr3 ?t = vt_read_cr3 s"
    by (simp_all add: ept_enabled_def read_guest_efer_def vt_read_guest_msr_def vt_read_cr3_def asm_vmread_def)
  show "paging_ok ?t = paging_ok s" "root_ok ?t = root_ok s" "long_ok ?t = long_ok s" "mode_ok ?t = mode_ok s"
    unfolding paging_ok_def controls_ok_def root_ok_def spt_ok_def long_ok_def mode_ok_def e by (simp_all add: asm_vmread_def)
qed

lemma init_signal_ok:
  assumes "vt_ok s" "do_init_signal env s = Some t"
  shows "vt_ok t"
proof -
  let ?u = "asm_vmwrite VMCS_GUEST_ACTIVITY_STATE ACTIVITY_STATE_WAIT_FOR_SIPI s"
  have "vt_ok ?u" using assms(1) by (simp add: vt_ok_vmwrite)
  moreover have "t = vt_update_exception_bmp (?u\<lparr>halted := False, sw_enable := 0\<rparr>)"
    using assms(2) by (simp add: do_init_signal_def split: if_splits)
  ultimately show ?thesis by (simp only:) (rule exception_bmp_ok; simp add: sw_enable_parts vt_ok_def)
qed

lemma startup_ipi_ok:
  assumes "vt_ok s" "do_startup_ipi s = Some t"
  shows "vt_ok t"
proof -
  obtain u where u: "vt_reset s = Some u" using assms(2) by (auto simp: do_startup_ipi_def Let_def)
  have "vt_ok u" by (rule reset_ok [OF _ _ _ u]) (use assms(1) in \<open>simp_all add: vt_ok_def root_readyI\<close>)
  moreover have "vt_ok (fold (\<lambda>r. vt_write_general_reg r v) rs x) = vt_ok x" for v rs x
    by (induction rs arbitrary: x) (simp_all add: write_regs_ok)
  moreover have "vt_ok x \<Longrightarrow> vt_ok (vt_update_exception_bmp (asm_vmwrite VMCS_GUEST_ACTIVITY_STATE v x))" for v x
    using vt_ok_vmwrite [of VMCS_GUEST_ACTIVITY_STATE v x] by (intro exception_bmp_ok) (simp_all add: vt_ok_def)
  ultimately show ?thesis
    using assms(2) u by (auto simp: do_startup_ipi_def Let_def write_regs_ok)
qed

lemma ept_violation_ok:
  assumes "exit_env_ok env" "vt_ok s" "do_ept_violation env s = Some t"
  shows "vt_ok t"
proof -
  have i: "vt_ok u" if "interpreter env s = (e, u)" for e u
    using env_okD(1) [OF assms(1,2)] that by simp
  have e: "vt_ok (s\<lparr>ept := Some x\<rparr>)" if "ept_enabled s" for x
    using that assms(2) vt_ok_cong [of "s\<lparr>ept := Some x\<rparr>" s] by (simp add: ept_enabled_def vmcs_simps)
  show ?thesis
    using assms(3) by (auto simp: do_ept_violation_def vt_paging_npf_def Let_def dest: i intro: e
        split: option.splits violation.splits prod.splits if_splits)
qed

end
