(* ===== verification/Vt_Task.thy ===== *)
theory Vt_Task
  imports Vt_Exit
begin

unbundle bit_operations_syntax

text \<open>
  The emulation of a hardware task switch (\<open>do_task_switch\<close> of \<open>core/vt_main.c\<close>).  A task state segment
  is its 104 bytes, accessed at the offsets of \<open>struct tss32\<close>; a segment descriptor is its 64 bits in the
  layout of \<open>struct segdesc\<close> (\<open>core/desc.h\<close>).  \<open>None\<close> is a panic.
\<close>

section \<open>Descriptors\<close>

definition sd_type :: "u64 \<Rightarrow> u64" where
  "sd_type d = drop_bit 40 d AND 0xF"

definition sd_set_type :: "u64 \<Rightarrow> u64 \<Rightarrow> u64" where
  "sd_set_type t d = d AND NOT (push_bit 40 0xF) OR push_bit 40 t"

text \<open>\<open>SEGDESC_BASE\<close>\<close>

definition sd_base :: "u64 \<Rightarrow> u64" where
  "sd_base d = push_bit 24 (drop_bit 56 d AND 0xFF) OR push_bit 16 (drop_bit 32 d AND 0xFF) OR (drop_bit 16 d AND 0xFFFF)"

definition sd_limit :: "u64 \<Rightarrow> u64" where
  "sd_limit d =
     (let l = (d AND 0xFFFF) OR push_bit 16 (drop_bit 48 d AND 0xF)
      in if bit d 55 then push_bit 12 l OR 0xFFF else l)"

abbreviation TSS_AVAILABLE_16 :: u64 where "TSS_AVAILABLE_16 \<equiv> 1"
abbreviation TSS_BUSY_16 :: u64 where "TSS_BUSY_16 \<equiv> 3"
abbreviation TSS_AVAILABLE_32 :: u64 where "TSS_AVAILABLE_32 \<equiv> 9"
abbreviation TSS_BUSY_32 :: u64 where "TSS_BUSY_32 \<equiv> 0xB"
abbreviation ACCESS_RIGHTS_MASK :: u64 where "ACCESS_RIGHTS_MASK \<equiv> 0xF0FF"
abbreviation ACCESS_RIGHTS_UNUSABLE_BIT :: u64 where "ACCESS_RIGHTS_UNUSABLE_BIT \<equiv> 0x10000"
abbreviation RFLAGS_NT_BIT :: u64 where "RFLAGS_NT_BIT \<equiv> 0x4000"

definition task_switch_load_segdesc ::
  "exit_env \<Rightarrow> u16 \<Rightarrow> u64 \<Rightarrow> u64 \<Rightarrow> u64 \<Rightarrow> u64 \<Rightarrow> u64 \<Rightarrow> vcpu \<Rightarrow> vcpu option" where
  "task_switch_load_segdesc env sel gdtr_base gdtr_limit base limit acr s =
     (let addr = ucast sel AND NOT 7;
          ldt = (sel AND 4 \<noteq> 0);
          desc_base = (if ldt then asm_vmread VMCS_GUEST_LDTR_BASE s else gdtr_base);
          desc_limit = (if ldt then asm_vmread VMCS_GUEST_LDTR_LIMIT s else gdtr_limit)
      in if sel = 0 then Some s
         else if ldt \<and> asm_vmread VMCS_GUEST_LDTR_ACCESS_RIGHTS s AND ACCESS_RIGHTS_UNUSABLE_BIT \<noteq> 0 then None
         else if addr OR 7 > desc_limit then None
         else case linear_q env (addr + desc_base) s of
             None \<Rightarrow> None
           | Some d \<Rightarrow>
               let d = (if bit d 44 then sd_set_type (sd_type d OR 1) d else d);
                   s = asm_vmwrite acr (drop_bit 40 d AND ACCESS_RIGHTS_MASK) s;
                   s = asm_vmwrite base (sd_base d) s
               in Some (asm_vmwrite limit (sd_limit d) s))"

section \<open>The task state segment\<close>

abbreviation tss_link :: nat where "tss_link \<equiv> 0"
abbreviation tss_cr3 :: nat where "tss_cr3 \<equiv> 28"
abbreviation tss_eip :: nat where "tss_eip \<equiv> 32"
abbreviation tss_eflags :: nat where "tss_eflags \<equiv> 36"
abbreviation tss_ldt :: nat where "tss_ldt \<equiv> 96"

text \<open>The general registers and the selectors, in the order of the code.\<close>

definition tss_regs :: "(general_reg \<times> nat) list" where
  "tss_regs =
     [(GENERAL_REG_RAX, 40), (GENERAL_REG_RCX, 44), (GENERAL_REG_RDX, 48), (GENERAL_REG_RBX, 52),
      (GENERAL_REG_RSP, 56), (GENERAL_REG_RBP, 60), (GENERAL_REG_RSI, 64), (GENERAL_REG_RDI, 68)]"

fun tss_sreg :: "sreg \<Rightarrow> nat" where
  "tss_sreg SREG_ES = 72"
| "tss_sreg SREG_CS = 76"
| "tss_sreg SREG_SS = 80"
| "tss_sreg SREG_DS = 84"
| "tss_sreg SREG_FS = 88"
| "tss_sreg SREG_GS = 92"

definition tss_save :: "u64 \<Rightarrow> vcpu \<Rightarrow> bytes \<Rightarrow> bytes" where
  "tss_save rflags s t =
     (let t = fold (\<lambda>(r, off). store32 off (ucast (vt_read_general_reg r s))) tss_regs t;
          t = fold (\<lambda>r. store16 (tss_sreg r) (vt_read_sreg_sel r s)) sregs t;
          t = store32 tss_eflags (ucast rflags) t
      in store32 tss_eip (ucast (vt_read_ip s)) t)"

definition tss_load :: "u16 \<Rightarrow> u64 \<Rightarrow> bytes \<Rightarrow> vcpu \<Rightarrow> vcpu" where
  "tss_load sel rflags t s =
     (let s = fold (\<lambda>(r, off). vt_write_general_reg r (ucast (load32 off t))) tss_regs s;
          s = write_sregs VMCS_GUEST_SEL (\<lambda>r. ucast (load16 (tss_sreg r) t)) s;
          s = asm_vmwrite VMCS_GUEST_TR_SEL (ucast sel) s;
          s = asm_vmwrite VMCS_GUEST_LDTR_SEL (ucast (load16 tss_ldt t)) s;
          s = write_sregs VMCS_GUEST_ACCESS_RIGHTS (\<lambda>_. ACCESS_RIGHTS_UNUSABLE_BIT) s;
          s = asm_vmwrite VMCS_GUEST_TR_ACCESS_RIGHTS ACCESS_RIGHTS_UNUSABLE_BIT s;
          s = asm_vmwrite VMCS_GUEST_LDTR_ACCESS_RIGHTS ACCESS_RIGHTS_UNUSABLE_BIT s;
          s = vt_write_ip (ucast (load32 tss_eip t)) (vt_write_flags rflags s)
      in vt_write_control_reg CONTROL_REG_CR3 (ucast (load32 tss_cr3 t)) s)"

text \<open>In virtual 8086 mode the bases are the selectors times 16.\<close>

definition tss_load_v86 :: "bytes \<Rightarrow> vcpu \<Rightarrow> vcpu" where
  "tss_load_v86 t s =
     (let s = write_sregs VMCS_GUEST_ACCESS_RIGHTS (\<lambda>_. 0xF3) s;
          s = write_sregs VMCS_GUEST_LIMIT (\<lambda>_. 0xFFFF) s
      in fold (\<lambda>r s. let sel = ucast (load16 (tss_sreg r) t)
                     in asm_vmwrite (VMCS_GUEST_BASE r) (push_bit 4 sel) (asm_vmwrite (VMCS_GUEST_SEL r) sel s))
           sregs s)"

fun tss_load_segs :: "exit_env \<Rightarrow> bytes \<Rightarrow> u64 \<Rightarrow> u64 \<Rightarrow> sreg list \<Rightarrow> vcpu \<Rightarrow> vcpu option" where
  "tss_load_segs env t gdtr_base gdtr_limit [] s = Some s"
| "tss_load_segs env t gdtr_base gdtr_limit (r # rs) s =
     (case task_switch_load_segdesc env (load16 (tss_sreg r) t) gdtr_base gdtr_limit
             (VMCS_GUEST_BASE r) (VMCS_GUEST_LIMIT r) (VMCS_GUEST_ACCESS_RIGHTS r) s of
        None \<Rightarrow> None
      | Some s \<Rightarrow> tss_load_segs env t gdtr_base gdtr_limit rs s)"

section \<open>The task switch\<close>

datatype ts_src = TS_SRC_CALL | TS_SRC_IRET | TS_SRC_JMP | TS_SRC_INTR

definition ts_src_of :: "u64 \<Rightarrow> ts_src" where
  "ts_src_of eqt = [TS_SRC_CALL, TS_SRC_IRET, TS_SRC_JMP, TS_SRC_INTR] ! unat (drop_bit 30 eqt AND 3)"

text \<open>The descriptors of the two tasks after the checks of their types.\<close>

definition ts_descs :: "ts_src \<Rightarrow> u64 \<Rightarrow> u64 \<Rightarrow> (u64 \<times> u64) option" where
  "ts_descs src d1 d2 =
     (if sd_type d1 = TSS_BUSY_16 then None
      else if sd_type d1 \<noteq> TSS_BUSY_32 then None
      else
        let d1 = (if src = TS_SRC_IRET \<or> src = TS_SRC_JMP then sd_set_type TSS_AVAILABLE_32 d1 else d1)
        in if src = TS_SRC_IRET then
             if sd_type d2 = TSS_BUSY_16 then None
             else if sd_type d2 \<noteq> TSS_BUSY_32 then None
             else Some (d1, d2)
           else
             if sd_type d2 = TSS_AVAILABLE_16 then None
             else if sd_type d2 \<noteq> TSS_AVAILABLE_32 then None
             else Some (d1, sd_set_type TSS_BUSY_32 d2))"

text \<open>The old task is saved; then the new one, with its back link, is loaded and marked busy.\<close>

definition ts_save :: "exit_env \<Rightarrow> ts_src \<Rightarrow> u64 \<Rightarrow> u64 \<Rightarrow> bytes \<Rightarrow> vcpu \<Rightarrow> vcpu option" where
  "ts_save env src addr1 d1 t1 s =
     (let rflags = vt_read_flags s;
          rflags = (if src = TS_SRC_IRET then rflags AND NOT RFLAGS_NT_BIT else rflags)
      in case set_linear_q env addr1 d1 s of
           None \<Rightarrow> None
         | Some s' \<Rightarrow> set_linear_tss env (sd_base d1) (tss_save rflags s t1) s')"

definition ts_load :: "exit_env \<Rightarrow> ts_src \<Rightarrow> u16 \<Rightarrow> u64 \<Rightarrow> u64 \<Rightarrow> u64 \<Rightarrow> u64 \<Rightarrow> bytes \<Rightarrow> vcpu \<Rightarrow> vcpu option" where
  "ts_load env src sel tr_sel gdtr_base gdtr_limit d2 t2 s =
     (let nest = (src = TS_SRC_CALL \<or> src = TS_SRC_INTR);
          rflags = ucast (load32 tss_eflags t2);
          rflags = (if nest then rflags OR RFLAGS_NT_BIT else rflags);
          t2 = (if nest then store16 tss_link (ucast tr_sel) t2 else t2);
          rflags = rflags OR RFLAGS_ALWAYS1_BIT;
          s = tss_load sel rflags t2 s
      in case set_linear_q env (gdtr_base + ucast sel) d2 s of
           None \<Rightarrow> None
         | Some s \<Rightarrow>
         case set_linear_tss env (sd_base d2) t2 s of
           None \<Rightarrow> None
         | Some s \<Rightarrow>
         case task_switch_load_segdesc env sel gdtr_base gdtr_limit
                VMCS_GUEST_TR_BASE VMCS_GUEST_TR_LIMIT VMCS_GUEST_TR_ACCESS_RIGHTS s of
           None \<Rightarrow> None
         | Some s \<Rightarrow>
         case task_switch_load_segdesc env (load16 tss_ldt t2) gdtr_base gdtr_limit
                VMCS_GUEST_LDTR_BASE VMCS_GUEST_LDTR_LIMIT VMCS_GUEST_LDTR_ACCESS_RIGHTS s of
           None \<Rightarrow> None
         | Some s \<Rightarrow>
         if rflags AND RFLAGS_VM_BIT \<noteq> 0 then Some (tss_load_v86 t2 s)
         else tss_load_segs env t2 gdtr_base gdtr_limit sregs s)"

definition do_task_switch :: "exit_env \<Rightarrow> vcpu \<Rightarrow> vcpu option" where
  "do_task_switch env s =
     (let eqt = asm_vmread VMCS_EXIT_QUALIFICATION s;
          sel = ucast eqt :: u16;
          src = ts_src_of eqt;
          tr_sel = asm_vmread VMCS_GUEST_TR_SEL s;
          (gdtr_base, gdtr_limit) = vt_read_gdtr s
      in case (linear_q env (gdtr_base + tr_sel) s, linear_q env (gdtr_base + ucast sel) s) of
           (Some d1, Some d2) \<Rightarrow>
             (case ts_descs src d1 d2 of
                None \<Rightarrow> None
              | Some (d1, d2) \<Rightarrow>
             case (linear_tss env (sd_base d1) s, linear_tss env (sd_base d2) s) of
               (Some t1, Some t2) \<Rightarrow>
                 (case ts_save env src (gdtr_base + tr_sel) d1 t1 s of
                    None \<Rightarrow> None
                  | Some s \<Rightarrow>
                 case ts_load env src sel tr_sel gdtr_base gdtr_limit d2 t2 s of
                    None \<Rightarrow> None
                  | Some s \<Rightarrow>
                      let cr0 = vt_read_control_reg CONTROL_REG_CR0 s
                      in Some ((vt_write_control_reg CONTROL_REG_CR0 (cr0 OR CR0_TS_BIT) s)\<lparr>intr_info := 0\<rparr>))
             | _ \<Rightarrow> None)
         | _ \<Rightarrow> None)"

section \<open>The invariant\<close>

lemma load_segdesc_ok:
  assumes "task_switch_load_segdesc env sel gb gl b l a s = Some t" "{b, l, a} \<inter> watched = {}"
  shows "vt_ok t = vt_ok s"
proof -
  have "vt_ok (asm_vmwrite l x (asm_vmwrite b y (asm_vmwrite a z s))) = vt_ok s" for x y z
    using assms(2) by (subst vt_ok_vmwrite, blast)+ (rule refl)
  then show ?thesis
    using assms(1) by (auto simp: task_switch_load_segdesc_def Let_def split: if_split_asm option.split_asm)
qed

lemma write_sregs_ok: "range f \<inter> watched = {} \<Longrightarrow> vt_ok (write_sregs f v s) = vt_ok s"
  by (rule vt_ok_cong) (auto simp: vt_frame vmcs_simps)

lemma fold_ok: "(\<And>x u. vt_ok (f x u) = vt_ok u) \<Longrightarrow> vt_ok (fold f xs s) = vt_ok s"
  by (induction xs arbitrary: s) simp_all

lemma load_segs_ok: "tss_load_segs env t gb gl rs s = Some u \<Longrightarrow> vt_ok u = vt_ok s"
proof (induction rs arbitrary: s)
  case (Cons r rs)
  have "{VMCS_GUEST_BASE r, VMCS_GUEST_LIMIT r, VMCS_GUEST_ACCESS_RIGHTS r} \<inter> watched = {}" by (cases r) simp_all
  with Cons show ?case by (auto dest: load_segdesc_ok split: option.split_asm)
qed simp

lemma tss_load_ok: "vt_ok s \<Longrightarrow> vt_ok (tss_load sel rflags t s)"
proof -
  have "vt_ok (fold (\<lambda>(r, off). vt_write_general_reg r (ucast (load32 off t))) tss_regs u) = vt_ok u" for u
    by (rule fold_ok) (simp add: write_regs_ok split_beta)
  then show "vt_ok s \<Longrightarrow> vt_ok (tss_load sel rflags t s)"
    unfolding tss_load_def Let_def
    by (intro write_control_reg_ok, unfold write_regs_ok(2), intro write_regs_ok(5))
      (simp add: vt_ok_vmwrite write_sregs_ok sreg_ranges)
qed

lemma load_v86_ok: "vt_ok (tss_load_v86 t s) = vt_ok s"
proof -
  have "vt_ok (asm_vmwrite (VMCS_GUEST_BASE r) x (asm_vmwrite (VMCS_GUEST_SEL r) y u)) = vt_ok u" for r x y u
    by (cases r) (simp_all add: vt_ok_vmwrite)
  then show ?thesis
    unfolding tss_load_v86_def Let_def by (subst fold_ok) (simp_all add: write_sregs_ok sreg_ranges)
qed

lemma ts_save_ok:
  assumes "exit_env_ok env" "vt_ok s" "ts_save env src a d b s = Some t"
  shows "vt_ok t"
proof -
  obtain u c where "set_linear_q env a d s = Some u" "set_linear_tss env (sd_base d) c u = Some t"
    using assms(3) by (auto simp: ts_save_def Let_def split: option.split_asm)
  then show ?thesis using env_okD(6,7) assms(1,2) by blast
qed

lemma ts_load_ok:
  assumes env: "exit_env_ok env" and "vt_ok s" "ts_load env src sel tr gb gl d b s = Some t"
  shows "vt_ok t"
proof -
  obtain rf c u v w x where
    u: "set_linear_q env (gb + ucast sel) d (tss_load sel rf c s) = Some u" and
    v: "set_linear_tss env (sd_base d) c u = Some v" and
    w: "task_switch_load_segdesc env sel gb gl VMCS_GUEST_TR_BASE VMCS_GUEST_TR_LIMIT VMCS_GUEST_TR_ACCESS_RIGHTS v = Some w" and
    x: "task_switch_load_segdesc env (load16 tss_ldt c) gb gl VMCS_GUEST_LDTR_BASE VMCS_GUEST_LDTR_LIMIT
          VMCS_GUEST_LDTR_ACCESS_RIGHTS w = Some x" and
    t: "t = tss_load_v86 c x \<or> tss_load_segs env c gb gl sregs x = Some t"
    using assms(3) unfolding ts_load_def Let_def by (auto split: option.split_asm if_split_asm)
  have "vt_ok u" using env_okD(6) [OF env tss_load_ok [OF assms(2)] u] .
  then have "vt_ok v" using env_okD(7) [OF env _ v] by blast
  then have "vt_ok x" using load_segdesc_ok [OF w] load_segdesc_ok [OF x] by simp
  then show ?thesis using t load_segs_ok [of env c gb gl sregs x t] load_v86_ok [of c x] by metis
qed

lemma task_switch_ok:
  assumes env: "exit_env_ok env" and "vt_ok s" "do_task_switch env s = Some t"
  shows "vt_ok t"
proof -
  obtain src a d1 b u sel tr gb gl d2 c v where
    u: "ts_save env src a d1 b s = Some u" and v: "ts_load env src sel tr gb gl d2 c u = Some v" and
    t: "t = (vt_write_control_reg CONTROL_REG_CR0 (vt_read_control_reg CONTROL_REG_CR0 v OR CR0_TS_BIT) v)\<lparr>intr_info := 0\<rparr>"
    using assms(3) unfolding do_task_switch_def Let_def by (auto split: option.split_asm prod.split_asm)
  show ?thesis
    unfolding t vt_ok_upd by (rule write_control_reg_ok) (rule ts_load_ok [OF env ts_save_ok [OF env assms(2) u] v])
qed

end
