(* ===== verification/Vt_Main.thy ===== *)
theory Vt_Main
  imports Vt_Task
begin

unbundle bit_operations_syntax

text \<open>
  The main loop (\<open>vt__exit_reason\<close>, \<open>vt__halt\<close> and \<open>vt_mainloop\<close> of \<open>core/vt_main.c\<close>): what happens
  between two runs of the guest.  A run itself is a relation on states, bounded by what the processor
  changes.  The invariant \<open>vt_ok\<close> holds after every turn of the loop.
\<close>

section \<open>Dispatch\<close>

definition vt__exit_reason :: "exit_env \<Rightarrow> vcpu \<Rightarrow> vcpu option" where
  "vt__exit_reason env s =
     (let exit_reason = asm_vmread VMCS_EXIT_REASON s;
          r = exit_reason AND 0xFFFF
      in if exit_reason AND 0x80000000 \<noteq> 0 then None
         else if r = 0x1C then do_mov_cr s
         else if r = 0xA then Some (do_cpuid env s)
         else if r = 0x1E then io_fn env s
         else if r = 0x1F then do_rdmsr s
         else if r = 0x20 then do_wrmsr s
         else if r = 0x0 then do_exception env s
         else if r = 0x1 then Some (do_external_int (exint_of env) s)
         else if r = 0x7 then Some (do_interrupt_window (exint_of env) s)
         else if r = 0xE then do_invlpg env s
         else if r = 0x12 then Some (do_vmcall env s)
         else if r = 0x3 then do_init_signal env s
         else if r = 0x4 then do_startup_ipi s
         else if r = 0xC then Some (do_hlt s)
         else if r = 0x9 then do_task_switch env s
         else if r = 0x37 then Some (do_xsetbv env s)
         else if r = 0x30 then do_ept_violation env s
         else if r = 0x8 then do_nmi_window s
         else None)"

section \<open>Running the guest\<close>

text \<open>\<open>vt__vm_run\<close> before the processor enters the guest, and the change of the trap flag around it.\<close>

definition vt__vm_run :: "vcpu \<Rightarrow> vcpu" where
  "vt__vm_run s =
     (if first_run s then s\<lparr>first_run := False\<rparr>
      else if exint_update s then vt_update_exint s else s)"

abbreviation RFLAGS_TF_BIT :: u64 where "RFLAGS_TF_BIT \<equiv> 0x100"

definition set_tf :: "vcpu \<Rightarrow> vcpu" where
  "set_tf s = vt_write_flags (vt_read_flags s OR RFLAGS_TF_BIT) s"

definition clear_tf :: "vcpu \<Rightarrow> vcpu" where
  "clear_tf s = vt_write_flags (vt_read_flags s AND NOT RFLAGS_TF_BIT) s"

text \<open>What is done for the guest before it runs, and after it has stopped.\<close>

definition vt_enter :: "bool \<Rightarrow> vcpu \<Rightarrow> vcpu option" where
  "vt_enter tf s =
     map_option (\<lambda>s.
       let s = vt_msr_own_process_msrs (vt__event_delivery_setup s);
           s = (if tf then set_tf s else s)
       in vt__vm_run s)
     (vt__nmi s)"

text \<open>\<open>spt_tlbflush\<close> tells whether the shadow page tables had anything to write back.\<close>

definition vt_paging_tlbflush :: "(vcpu \<Rightarrow> bool) \<Rightarrow> vcpu \<Rightarrow> vcpu" where
  "vt_paging_tlbflush spt_tlbflush s =
     (if ept_enabled s then s else if spt_tlbflush s then vt_paging_flush_guest_tlb s else s)"

definition vt_leave :: "exit_env \<Rightarrow> bool \<Rightarrow> vcpu \<Rightarrow> vcpu option" where
  "vt_leave env tf s =
     (let s = (if tf then clear_tf s else s);
          s = vt_paging_tlbflush (spt_flush env) s
      in vt__exit_reason env (vt__event_delivery_check s))"

section \<open>The halted guest\<close>

text \<open>
  \<open>vt__halt\<close>: the guest waits with flat segments and the interrupt flag it had; its registers are put
  back afterwards.
\<close>

record halt_saved =
  hs_sel :: "sreg \<Rightarrow> u64"
  hs_acr :: "sreg \<Rightarrow> u64"
  hs_limit :: "sreg \<Rightarrow> u64"
  hs_rflags :: u64

definition halt_save :: "vcpu \<Rightarrow> halt_saved" where
  "halt_save s =
     \<lparr>hs_sel = (\<lambda>r. asm_vmread (VMCS_GUEST_SEL r) s), hs_acr = (\<lambda>r. asm_vmread (VMCS_GUEST_ACCESS_RIGHTS r) s),
      hs_limit = (\<lambda>r. asm_vmread (VMCS_GUEST_LIMIT r) s), hs_rflags = asm_vmread VMCS_GUEST_RFLAGS s\<rparr>"

definition halt_enter :: "vcpu \<Rightarrow> vcpu" where
  "halt_enter s =
     (let rflags = asm_vmread VMCS_GUEST_RFLAGS s;
          s = write_sregs VMCS_GUEST_SEL (\<lambda>_. 8) s;
          s = write_sregs VMCS_GUEST_ACCESS_RIGHTS (\<lambda>r. if r = SREG_CS then 0xC09B else 0xC093) s;
          s = write_sregs VMCS_GUEST_LIMIT (\<lambda>_. 0xFFFFFFFF) s;
          s = asm_vmwrite VMCS_GUEST_RFLAGS (RFLAGS_ALWAYS1_BIT OR (rflags AND RFLAGS_IF_BIT)) s
      in vt__vm_run (asm_vmwrite VMCS_GUEST_ACTIVITY_STATE ACTIVITY_STATE_HLT s))"

definition halt_restore :: "halt_saved \<Rightarrow> vcpu \<Rightarrow> vcpu" where
  "halt_restore hs s =
     (let s = asm_vmwrite VMCS_GUEST_ACTIVITY_STATE ACTIVITY_STATE_ACTIVE s;
          s = write_sregs VMCS_GUEST_SEL (hs_sel hs) s;
          s = write_sregs VMCS_GUEST_ACCESS_RIGHTS (hs_acr hs) s;
          s = write_sregs VMCS_GUEST_LIMIT (hs_limit hs) s
      in asm_vmwrite VMCS_GUEST_RFLAGS (hs_rflags hs) s)"

definition halt_leave :: "exit_env \<Rightarrow> halt_saved \<Rightarrow> vcpu \<Rightarrow> vcpu option" where
  "halt_leave env hs s = vt__exit_reason env (vt__event_delivery_check (halt_restore hs s))"

section \<open>Emulation while the mode switches\<close>

text \<open>
  The head of the loop: the loop goes on (\<open>Again\<close>) or the guest runs (\<open>Enter\<close>, with the trap flag when
  registers are still emulated).
\<close>

datatype turn = Again vcpu | Enter bool vcpu

definition stop_switching :: "vcpu \<Rightarrow> vcpu" where
  "stop_switching s = vt_update_exception_bmp (s\<lparr>sw_enable := 0\<rparr>)"

definition switching_long :: "vcpu \<Rightarrow> bool" where
  "switching_long s =
     (vt_read_control_reg CONTROL_REG_CR0 s AND CR0_PG_BIT \<noteq> 0
      \<and> (case vt_read_efer s of None \<Rightarrow> uninit s | Some efer \<Rightarrow> efer) AND EFER_LME_BIT \<noteq> 0
      \<and> vt_read_sreg_acr SREG_CS s AND ACCESS_RIGHTS_L_BIT \<noteq> 0)"

definition vt_mainloop_head :: "exit_env \<Rightarrow> vcpu \<Rightarrow> turn option" where
  "vt_mainloop_head env s =
     (if sw_enable s = 0 then Some (Enter False s)
      else
        let s = s\<lparr>sw_num := sw_num s + 1\<rparr>
        in if sw_num s \<ge> 32 then Some (Again (stop_switching s))
           else if switching_long s then Some (Again (stop_switching s))
           else
             (case interpreter env s of (err, s) \<Rightarrow>
                if err = VMMERR_SUCCESS then Some (Again s)
                else if err = VMMERR_UNSUPPORTED_OPCODE \<or> err = VMMERR_SW then Some (Enter (sw_enable s \<noteq> 0) s)
                else None))"

section \<open>The processor\<close>

text \<open>
  What an exit reports, the fields of the VMCS outside the guest's state that a run changes, and the
  bounds of a run: the rest of the VMCS stays, and the guest does not leave virtual 8086 mode.
\<close>

definition exit_fields :: "u64 set" where
  "exit_fields =
     {VMCS_EXIT_REASON, VMCS_VMEXIT_INTR_INFO, VMCS_VMEXIT_INTR_ERRCODE, VMCS_IDT_VECTORING_INFO_FIELD,
      VMCS_IDT_VECTORING_ERRCODE, VMCS_VMEXIT_INSTRUCTION_LEN, 0x440E, VMCS_EXIT_QUALIFICATION, 0x6402, 0x6404, 0x6406,
      0x6408, 0x640A, VMCS_GUEST_PHYSICAL_ADDRESS, VMCS_VMENTRY_INTR_INFO_FIELD, VMCS_GUEST_INTERRUPTIBILITY_STATE,
      VMCS_GUEST_ACTIVITY_STATE, VMCS_GUEST_PENDING_DEBUG_EXCEPTIONS, VMCS_GUEST_IA32_DEBUGCTL,
      VMCS_GUEST_LDTR_SEL, VMCS_GUEST_LDTR_LIMIT, VMCS_GUEST_LDTR_ACCESS_RIGHTS, VMCS_GUEST_LDTR_BASE,
      VMCS_GUEST_TR_SEL, VMCS_GUEST_TR_LIMIT, VMCS_GUEST_TR_ACCESS_RIGHTS, VMCS_GUEST_TR_BASE}"

inductive guest_runs :: "vcpu \<Rightarrow> vcpu \<Rightarrow> bool" where
  "\<lbrakk>\<And>i. i \<notin> guest_fields s \<union> exit_fields \<Longrightarrow> f i = vmcs s i; re s \<Longrightarrow> bit (f VMCS_GUEST_RFLAGS) 17\<rbrakk>
     \<Longrightarrow> guest_runs s (s\<lparr>vmcs := f, gpr := regs, cr2 := c, gmem := m, nmi_cnt := n\<rparr>)"

text \<open>A halted guest executes no instruction.\<close>

inductive guest_waits :: "vcpu \<Rightarrow> vcpu \<Rightarrow> bool" where
  "(\<And>i. i \<notin> exit_fields \<Longrightarrow> f i = vmcs s i) \<Longrightarrow> guest_waits s (s\<lparr>vmcs := f, gmem := m, nmi_cnt := n\<rparr>)"

section \<open>The main loop\<close>

text \<open>One turn of \<open>vt_mainloop\<close>; in \<open>schedule\<close> a process of the hypervisor may have run.\<close>

inductive vt_turn :: "exit_env \<Rightarrow> vcpu \<Rightarrow> vcpu \<Rightarrow> bool" for env where
  process: "vt_turn env s (process_own_msrs entry s)"
| halted_pending: "halted s \<Longrightarrow> ii_valid (intr_info s) \<Longrightarrow> vt_turn env s (s\<lparr>halted := False\<rparr>)"
| halted: "\<lbrakk>halted s; \<not> ii_valid (intr_info s); guest_waits (halt_enter s) t; halt_leave env (halt_save s) t = Some u\<rbrakk>
     \<Longrightarrow> vt_turn env s (u\<lparr>halted := False\<rparr>)"
| again: "\<lbrakk>\<not> halted s; vt_mainloop_head env s = Some (Again t)\<rbrakk> \<Longrightarrow> vt_turn env s t"
| enter: "\<lbrakk>\<not> halted s; vt_mainloop_head env s = Some (Enter tf t); vt_enter tf t = Some u; guest_runs u v;
     vt_leave env tf v = Some w\<rbrakk> \<Longrightarrow> vt_turn env s w"

inductive vt_loop :: "exit_env \<Rightarrow> vcpu \<Rightarrow> vcpu \<Rightarrow> bool" for env where
  start: "vt_loop env s s"
| turn: "vt_loop env s t \<Longrightarrow> vt_turn env t u \<Longrightarrow> vt_loop env s u"

section \<open>The invariant\<close>

lemma pred_option_iff: "pred_option P x = (\<forall>u. x = Some u \<longrightarrow> P u)"
  by (cases x) simp_all

lemma pred_if: "P a \<Longrightarrow> P b \<Longrightarrow> P (if c then a else b)"
  by simp

lemma exit_reason_ok:
  assumes "exit_env_ok env" "vt_ok s" "vt__exit_reason env s = Some t"
  shows "vt_ok t"
proof -
  note ext = external_int_ok [OF env_okD(8) [OF assms(1,2)] assms(2)]
  have handlers: "pred_option vt_ok (do_mov_cr s)" "pred_option vt_ok (do_rdmsr s)" "pred_option vt_ok (do_wrmsr s)"
    "pred_option vt_ok (do_startup_ipi s)" "pred_option vt_ok (do_init_signal env s)"
    "pred_option vt_ok (do_nmi_window s)" "pred_option vt_ok (do_exception env s)" "pred_option vt_ok (do_invlpg env s)"
    "pred_option vt_ok (do_task_switch env s)" "pred_option vt_ok (do_ept_violation env s)" "pred_option vt_ok (io_fn env s)"
    using mov_cr_ok [OF assms(2)] rdmsr_ok [OF assms(2)] wrmsr_ok [OF assms(2)] startup_ipi_ok [OF assms(2)]
      init_signal_ok [OF assms(2)] exception_ok [OF assms(1,2)] small_exits_ok(1) [OF assms(1,2)]
      task_switch_ok [OF assms(1,2)] ept_violation_ok [OF assms(1,2)] env_okD(5) [OF assms(1,2)]
      nmi_window_ok [of s] assms(2)
    by (simp_all add: pred_option_iff)
  have "pred_option vt_ok (Some x) = vt_ok x" "pred_option vt_ok None" for x by simp_all
  moreover have "vt_ok (do_cpuid env s)" using assms(2) by (simp add: cpuid_ok)
  ultimately have "pred_option vt_ok (vt__exit_reason env s)"
    unfolding vt__exit_reason_def Let_def
    by (intro pred_if [where P = "pred_option vt_ok"] handlers) (simp_all only: ext small_exits_ok(2-4) [OF assms(1,2)])
  then show ?thesis using assms(3) by simp
qed

lemma vm_run_ok: "vt_ok (vt__vm_run s) = vt_ok s"
  by (simp add: vt__vm_run_def vt_ok_upd update_exint_ok)

lemma enter_ok: "vt_ok s \<Longrightarrow> vt_enter tf s = Some t \<Longrightarrow> vt_ok t"
  by (auto simp: vt_enter_def Let_def vm_run_ok set_tf_def write_regs_ok own_msrs_ok delivery_ok dest: nmi_ok)

lemma leave_ok:
  assumes "exit_env_ok env" "vt_ok s" "vt_leave env tf s = Some t"
  shows "vt_ok t"
proof -
  let ?u = "vt__event_delivery_check (vt_paging_tlbflush (spt_flush env) (if tf then clear_tf s else s))"
  have "vt_ok ?u"
    using assms(2) by (simp add: delivery_ok vt_paging_tlbflush_def clear_tf_def write_regs_ok)
  moreover have "vt__exit_reason env ?u = Some t" using assms(3) by (simp add: vt_leave_def Let_def)
  ultimately show ?thesis using assms(1) exit_reason_ok by blast
qed

lemma update_exint_vmwrite:
  assumes "i \<noteq> VMCS_PIN_BASED_VMEXEC_CTL" "i \<noteq> VMCS_PROC_BASED_VMEXEC_CTL"
  shows "vt_update_exint (asm_vmwrite i v s) = asm_vmwrite i v (vt_update_exint s)"
proof -
  have "vmcs_change j f (asm_vmwrite i v u) = asm_vmwrite i v (vmcs_change j f u)" if "i \<noteq> j" for j f u
    using that by (simp add: vmcs_change_def asm_vmwrite_def asm_vmread_def fun_upd_twist)
  moreover have "(asm_vmwrite i v u)\<lparr>exint_update := b\<rparr> = asm_vmwrite i v (u\<lparr>exint_update := b\<rparr>)" for b u
    by (simp add: asm_vmwrite_def)
  moreover have "exint_pass (asm_vmwrite i v s) = exint_pass s" "exint_pending (asm_vmwrite i v s) = exint_pending s"
    by (simp_all add: asm_vmwrite_def)
  ultimately show ?thesis
    using assms by (simp only: vt_update_exint_def Let_def split_beta vt_frame simp_thms)
qed

lemma vm_run_vmwrite:
  assumes "i \<noteq> VMCS_PIN_BASED_VMEXEC_CTL" "i \<noteq> VMCS_PROC_BASED_VMEXEC_CTL"
  shows "vt__vm_run (asm_vmwrite i v s) = asm_vmwrite i v (vt__vm_run s)"
proof -
  have "(asm_vmwrite i v u)\<lparr>first_run := b\<rparr> = asm_vmwrite i v (u\<lparr>first_run := b\<rparr>)" for b u
    by (simp add: asm_vmwrite_def)
  moreover have "first_run (asm_vmwrite i v s) = first_run s" "exint_update (asm_vmwrite i v s) = exint_update s"
    by (simp_all add: asm_vmwrite_def)
  ultimately show ?thesis using update_exint_vmwrite [OF assms] by (simp add: vt__vm_run_def)
qed

lemma halt_ok:
  assumes "exit_env_ok env" "vt_ok s" "guest_waits (halt_enter s) t" "halt_leave env (halt_save s) t = Some u"
  shows "vt_ok u"
proof -
  let ?R = "asm_vmwrite VMCS_GUEST_RFLAGS (asm_vmread VMCS_GUEST_RFLAGS s)"
  obtain f m n where t: "t = (halt_enter s)\<lparr>vmcs := f, gmem := m, nmi_cnt := n\<rparr>"
    and f: "\<And>i. i \<notin> exit_fields \<Longrightarrow> f i = vmcs (halt_enter s) i"
    using assms(3) by (auto elim: guest_waits.cases)
  obtain p where p: "halt_enter s = vt__vm_run p"
    and k: "keeps_state p = keeps_state s"
    and w: "\<And>i. i \<in> watched \<Longrightarrow> i \<noteq> VMCS_GUEST_RFLAGS \<Longrightarrow> asm_vmread i p = asm_vmread i s"
    by (rule that, unfold halt_enter_def Let_def, rule refl) (auto simp: vt_frame vmcs_simps sreg_ranges)
  have "vt_ok (halt_restore (halt_save s) t) = vt_ok (?R t)"
    by (rule vt_ok_cong) (auto simp: halt_restore_def halt_save_def Let_def vt_frame vmcs_simps sreg_ranges)
  also have "\<dots> = vt_ok (?R (halt_enter s))"
  proof (rule vt_ok_cong)
    show "keeps_state (?R t) = keeps_state (?R (halt_enter s))" by (simp add: t vt_frame)
    show "asm_vmread i (?R t) = asm_vmread i (?R (halt_enter s))" if "i \<in> watched" for i
    proof -
      have "asm_vmread i t = asm_vmread i (halt_enter s)"
        unfolding asm_vmread_def t using that f by (auto simp: exit_fields_def)
      then show ?thesis by (simp add: vmread_vmwrite)
    qed
  qed
  also have "\<dots> = vt_ok (vt__vm_run (?R p))"
    unfolding p
    by (simp add: vm_run_vmwrite)
  also have "\<dots> = vt_ok (?R p)" by (rule vm_run_ok)
  also have "\<dots> = vt_ok s"
  proof (rule vt_ok_cong)
    show "keeps_state (?R p) = keeps_state s" unfolding k [symmetric] by (simp add: vt_frame)
    show "asm_vmread i (?R p) = asm_vmread i s" if "i \<in> watched" for i
      using w [OF that] by (cases "i = VMCS_GUEST_RFLAGS") (simp_all add: vmread_vmwrite vmcs_kept_width widths)
  qed
  finally have "vt_ok (vt__event_delivery_check (halt_restore (halt_save s) t))"
    using assms(2) by (simp add: delivery_ok)
  then show ?thesis using exit_reason_ok [OF assms(1)] assms(4) by (simp add: halt_leave_def)
qed

lemma switching_ok:
  assumes "vt_ok s"
  shows "vt_ok (stop_switching s)"
  using exception_bmp_ok [of "s\<lparr>sw_enable := 0\<rparr>"] sw_enable_parts [where s = s and b = "halted s" and w = 0] assms
  by (simp add: stop_switching_def vt_ok_def)

lemma mainloop_head_ok:
  assumes "exit_env_ok env" "vt_ok s"
  shows "vt_mainloop_head env s = Some (Again t) \<Longrightarrow> vt_ok t" "vt_mainloop_head env s = Some (Enter tf t) \<Longrightarrow> vt_ok t"
proof -
  let ?n = "s\<lparr>sw_num := sw_num s + 1\<rparr>"
  have n: "vt_ok ?n" using assms(2) by (simp add: vt_ok_upd)
  obtain e u where i: "interpreter env ?n = (e, u)" by (cases "interpreter env ?n") (rule that)
  have u: "vt_ok u" using env_okD(1) [OF assms(1) n] i by simp
  have "vt_mainloop_head env s \<in> {Some (Enter False s), Some (Again (stop_switching ?n)), Some (Again u),
      Some (Enter (sw_enable u \<noteq> 0) u), None}"
    unfolding vt_mainloop_head_def Let_def i prod.case by simp
  then show "vt_mainloop_head env s = Some (Again t) \<Longrightarrow> vt_ok t" "vt_mainloop_head env s = Some (Enter tf t) \<Longrightarrow> vt_ok t"
    using assms(2) switching_ok [OF n] u by auto
qed

lemma guest_runs_ok:
  assumes "guest_runs s t" "vt_ok s"
  shows "vt_ok t"
proof -
  obtain f regs c m n where t: "t = s\<lparr>vmcs := f, gpr := regs, cr2 := c, gmem := m, nmi_cnt := n\<rparr>"
    and f: "\<And>i. i \<notin> guest_fields s \<union> exit_fields \<Longrightarrow> f i = vmcs s i" "re s \<Longrightarrow> bit (f VMCS_GUEST_RFLAGS) 17"
    using assms(1) by (auto elim: guest_runs.cases)
  define g where "g i = (if i \<in> exit_fields then vmcs s i else f i)" for i
  have "vt_ok (s\<lparr>vmcs := g, gpr := regs, cr2 := c\<rparr>)"
    by (rule guest_run_ok [OF assms(2)]) (use f in \<open>auto simp: g_def exit_fields_def\<close>)
  moreover have "vt_ok t = vt_ok (s\<lparr>vmcs := g, gpr := regs, cr2 := c\<rparr>)"
    unfolding t by (rule vt_ok_cong) (auto simp: asm_vmread_def g_def exit_fields_def)
  ultimately show ?thesis by simp
qed

lemma vt_turn_ok:
  assumes "exit_env_ok env" "vt_ok s" "vt_turn env s t"
  shows "vt_ok t"
  using assms(3)
proof cases
  case (halted u v)
  then show ?thesis using halt_ok [OF assms(1,2)] by (simp add: vt_ok_upd)
next
  case (enter tf u v w)
  then show ?thesis
    using mainloop_head_ok(2) [OF assms(1,2)] enter_ok guest_runs_ok leave_ok [OF assms(1)] by metis
qed (use assms(2) mainloop_head_ok(1) [OF assms(1,2)] in \<open>simp_all add: process_msrs_ok vt_ok_upd\<close>)

lemma vt_loop_ok: "vt_loop env s t \<Longrightarrow> exit_env_ok env \<Longrightarrow> vt_ok s \<Longrightarrow> vt_ok t"
  by (induction rule: vt_loop.induct) (auto intro: vt_turn_ok)

end
