(* ===== verification/Cpu_State.thy ===== *)
theory Cpu_State
  imports Vt_Main
begin

unbundle bit_operations_syntax

text \<open>
  The CPU state of the migrated guest: \<open>save_guest_cpu_state\<close> of the source
  (\<open>core/vmmcall_postcopy_migration.c\<close>) writes it into a page, \<open>load_guest_state_to_vmcs\<close> of the
  destination (\<open>core/vmmcall_postcopy_migration_ready.c\<close>) puts it into the virtual CPU of a guest that
  waits in a VMM call.  Between the two the page travels as the first message (\<open>Echo_Client\<close>,
  \<open>Echo_Server\<close>).
\<close>

section \<open>The page\<close>

text \<open>
  The places of \<open>core/constants.h\<close>, as indices for a \<open>long *\<close> or, for the limits of the descriptor
  tables, for a \<open>short *\<close>.
\<close>

datatype slot = Long nat | Short nat

abbreviation OFFSET_RSP where "OFFSET_RSP \<equiv> Long 0"
abbreviation OFFSET_RFLAGS where "OFFSET_RFLAGS \<equiv> Long 1"
abbreviation OFFSET_RIP where "OFFSET_RIP \<equiv> Long 2"
abbreviation OFFSET_CR0 where "OFFSET_CR0 \<equiv> Long 3"
abbreviation OFFSET_CR3 where "OFFSET_CR3 \<equiv> Long 4"
abbreviation OFFSET_CR4 where "OFFSET_CR4 \<equiv> Long 5"
abbreviation OFFSET_DR7 where "OFFSET_DR7 \<equiv> Long 6"
abbreviation OFFSET_EFER where "OFFSET_EFER \<equiv> Long 7"
abbreviation OFFSET_SYSENTER_CS where "OFFSET_SYSENTER_CS \<equiv> Long 8"
abbreviation OFFSET_SYSENTER_ESP where "OFFSET_SYSENTER_ESP \<equiv> Long 9"
abbreviation OFFSET_SYSENTER_EIP where "OFFSET_SYSENTER_EIP \<equiv> Long 10"
abbreviation OFFSET_FS_BASE where "OFFSET_FS_BASE \<equiv> Long 31"
abbreviation OFFSET_GS_BASE where "OFFSET_GS_BASE \<equiv> Long 35"
abbreviation OFFSET_GDTR_LIMIT where "OFFSET_GDTR_LIMIT \<equiv> Short 163"
abbreviation OFFSET_GDTR_BASE where "OFFSET_GDTR_BASE \<equiv> Long 41"
abbreviation OFFSET_IDTR_LIMIT where "OFFSET_IDTR_LIMIT \<equiv> Short 187"
abbreviation OFFSET_IDTR_BASE where "OFFSET_IDTR_BASE \<equiv> Long 47"
abbreviation OFFSET_TR_SEL where "OFFSET_TR_SEL \<equiv> Long 48"
abbreviation OFFSET_CR2 where "OFFSET_CR2 \<equiv> Long 67"
abbreviation OFFSET_STAR where "OFFSET_STAR \<equiv> Long 69"
abbreviation OFFSET_LSTAR where "OFFSET_LSTAR \<equiv> Long 70"
abbreviation OFFSET_FMASK where "OFFSET_FMASK \<equiv> Long 71"
abbreviation OFFSET_KERNEL_GSBASE where "OFFSET_KERNEL_GSBASE \<equiv> Long 72"
abbreviation OFFSET_T_SD_BASE where "OFFSET_T_SD_BASE \<equiv> Long 73"
abbreviation OFFSET_R_SD_BASE where "OFFSET_R_SD_BASE \<equiv> Long 74"
abbreviation OFFSET_VIRTIO_SEND_QUEUE where "OFFSET_VIRTIO_SEND_QUEUE \<equiv> Long 75"
abbreviation OFFSET_VIRTIO_RECV_QUEUE where "OFFSET_VIRTIO_RECV_QUEUE \<equiv> Long 76"

fun offset_sel :: "sreg \<Rightarrow> slot" where
  "offset_sel SREG_CS = Long 16"
| "offset_sel SREG_DS = Long 20"
| "offset_sel SREG_ES = Long 24"
| "offset_sel SREG_FS = Long 28"
| "offset_sel SREG_GS = Long 32"
| "offset_sel SREG_SS = Long 36"

definition saved_regs :: "(general_reg \<times> slot) list" where
  "saved_regs =
     [(GENERAL_REG_RAX, Long 52), (GENERAL_REG_RBX, Long 53), (GENERAL_REG_RCX, Long 54), (GENERAL_REG_RDX, Long 55),
      (GENERAL_REG_RDI, Long 56), (GENERAL_REG_RSI, Long 57), (GENERAL_REG_RBP, Long 58), (GENERAL_REG_R8, Long 59),
      (GENERAL_REG_R9, Long 60), (GENERAL_REG_R10, Long 61), (GENERAL_REG_R11, Long 62), (GENERAL_REG_R12, Long 63),
      (GENERAL_REG_R13, Long 64), (GENERAL_REG_R14, Long 65), (GENERAL_REG_R15, Long 66)]"

text \<open>Accesses through a \<open>long *\<close> and a \<open>short *\<close>.\<close>

fun slot_read :: "slot \<Rightarrow> bytes \<Rightarrow> u64" where
  "slot_read (Long n) mem = load64 (8 * n) mem"
| "slot_read (Short n) mem = ucast (load16 (2 * n) mem)"

fun slot_write :: "slot \<Rightarrow> u64 \<Rightarrow> bytes \<Rightarrow> bytes" where
  "slot_write (Long n) v mem = store64 (8 * n) v mem"
| "slot_write (Short n) v mem = store16 (2 * n) (ucast v) mem"

fun slot_kept :: "slot \<Rightarrow> u64 \<Rightarrow> u64" where
  "slot_kept (Long n) v = v"
| "slot_kept (Short n) v = v AND 0xFFFF"

fun slot_range :: "slot \<Rightarrow> nat \<times> nat" where
  "slot_range (Long n) = (8 * n, 8 * n + 8)"
| "slot_range (Short n) = (2 * n, 2 * n + 2)"

definition slot_apart :: "slot \<Rightarrow> slot \<Rightarrow> bool" where
  "slot_apart r q = (snd (slot_range r) \<le> fst (slot_range q) \<or> snd (slot_range q) \<le> fst (slot_range r))"

lemma ucast_and_16: "ucast (ucast (v :: u64) :: u16) = v AND 0xFFFF"
proof -
  have "ucast (ucast v :: u16) = take_bit 16 v" by (rule bit_word_eqI) (auto simp: bit_simps)
  then show ?thesis by (simp add: take_bit_eq_mask mask_eq_exp_minus_1)
qed

interpretation page: register_file slot_read slot_write slot_kept slot_apart
proof
  show "slot_read r (slot_write r v s) = slot_kept r v" for r v s
    by (cases r) (simp_all add: bytes_simps ucast_and_16)
  show "slot_read r (slot_write q v s) = slot_read r s" if "slot_apart r q" for r q v s
    using that by (cases r; cases q) (simp_all add: bytes_simps slot_apart_def)
qed

section \<open>The source\<close>

text \<open>The globals of the virtual network card that travel with the state.\<close>

record virtio_state =
  t_sd_base :: u32
  r_sd_base :: u32
  virtio_send_queue :: u32
  virtio_recv_queue :: u32

text \<open>What is written, in order; EFER is a constant, the system call MSRs are the cached ones.\<close>

definition saved_state :: "virtio_state \<Rightarrow> vcpu \<Rightarrow> (slot \<times> u64) list" where
  "saved_state d s =
     (let riv = vt_get_vmcs_regs_in_vmcs s
      in [(OFFSET_RSP, vt_read_general_reg GENERAL_REG_RSP s), (OFFSET_RFLAGS, riv_rflags riv), (OFFSET_RIP, vt_read_ip s),
          (OFFSET_CR0, riv_cr0 riv), (OFFSET_CR3, riv_cr3 riv), (OFFSET_CR4, riv_cr4 riv), (OFFSET_DR7, riv_dr7 riv),
          (OFFSET_EFER, 0xd01),
          (OFFSET_SYSENTER_CS, asm_vmread VMCS_GUEST_IA32_SYSENTER_CS s),
          (OFFSET_SYSENTER_ESP, asm_vmread VMCS_GUEST_IA32_SYSENTER_ESP s),
          (OFFSET_SYSENTER_EIP, asm_vmread VMCS_GUEST_IA32_SYSENTER_EIP s),
          (OFFSET_FS_BASE, asm_vmread (VMCS_GUEST_BASE SREG_FS) s),
          (OFFSET_GS_BASE, asm_vmread (VMCS_GUEST_BASE SREG_GS) s)]
         @ map (\<lambda>r. (offset_sel r, ucast (rs_sel (riv_seg riv r)))) [SREG_CS, SREG_DS, SREG_ES, SREG_FS, SREG_GS, SREG_SS]
         @ [(OFFSET_GDTR_LIMIT, rd_limit (riv_gdtr riv)), (OFFSET_GDTR_BASE, rd_base (riv_gdtr riv)),
            (OFFSET_IDTR_LIMIT, rd_limit (riv_idtr riv)), (OFFSET_IDTR_BASE, rd_base (riv_idtr riv)),
            (OFFSET_TR_SEL, ucast (rs_sel (riv_tr riv)))]
         @ map (\<lambda>(r, q). (q, vt_read_general_reg r s)) saved_regs
         @ [(OFFSET_CR2, vt_read_control_reg CONTROL_REG_CR2 s),
            (OFFSET_STAR, msr_star s), (OFFSET_LSTAR, msr_lstar s), (OFFSET_FMASK, msr_fmask s),
            (OFFSET_KERNEL_GSBASE, msr_kerngs s),
            (OFFSET_T_SD_BASE, ucast (t_sd_base d)), (OFFSET_R_SD_BASE, ucast (r_sd_base d)),
            (OFFSET_VIRTIO_SEND_QUEUE, ucast (virtio_send_queue d)),
            (OFFSET_VIRTIO_RECV_QUEUE, ucast (virtio_recv_queue d))])"

definition save_guest_cpu_state :: "virtio_state \<Rightarrow> vcpu \<Rightarrow> bytes \<Rightarrow> bytes" where
  "save_guest_cpu_state d s mem = fold (\<lambda>(q, v). slot_write q v) (saved_state d s) mem"

section \<open>The destination\<close>

text \<open>The results of \<open>vt_write_msr\<close> are ignored; a panic ends the sequence.\<close>

fun write_msrs :: "(u32 \<times> u64) list \<Rightarrow> vcpu \<Rightarrow> vcpu option" where
  "write_msrs [] s = Some s"
| "write_msrs ((i, v) # ws) s = (case vt_write_msr i v s of None \<Rightarrow> None | Some (_, s) \<Rightarrow> write_msrs ws s)"

text \<open>The system call MSRs are written from the cached copies.\<close>

definition write_cached_msrs :: "vcpu \<Rightarrow> vcpu option" where
  "write_cached_msrs s =
     write_msrs [(MSR_IA32_STAR, msr_star s), (MSR_IA32_LSTAR, msr_lstar s), (MSR_IA32_FMASK, msr_fmask s),
       (MSR_IA32_KERNEL_GS_BASE, msr_kerngs s)] s"

text \<open>The cached copies and the registers up to DR7.\<close>

definition load_control :: "bytes \<Rightarrow> vcpu \<Rightarrow> vcpu" where
  "load_control mem s =
     (let s = s\<lparr>msr_star := slot_read OFFSET_STAR mem, msr_lstar := slot_read OFFSET_LSTAR mem,
               msr_fmask := slot_read OFFSET_FMASK mem, msr_kerngs := slot_read OFFSET_KERNEL_GSBASE mem\<rparr>;
          s = vt_write_general_reg GENERAL_REG_RSP (slot_read OFFSET_RSP mem) s;
          s = vt_write_flags (slot_read OFFSET_RFLAGS mem) s;
          s = vt_write_ip (slot_read OFFSET_RIP mem) s;
          s = vt_write_control_reg CONTROL_REG_CR0 (slot_read OFFSET_CR0 mem) s;
          s = vt_write_control_reg CONTROL_REG_CR3 (slot_read OFFSET_CR3 mem) s;
          s = vt_write_control_reg CONTROL_REG_CR4 (slot_read OFFSET_CR4 mem) s
      in asm_vmwrite VMCS_GUEST_DR7 (slot_read OFFSET_DR7 mem) s)"

text \<open>The segment registers, the descriptor tables and the general registers.\<close>

definition load_sel :: "sreg \<Rightarrow> bytes \<Rightarrow> vcpu \<Rightarrow> vcpu" where
  "load_sel r mem s = asm_vmwrite (VMCS_GUEST_SEL r) (ucast (ucast (slot_read (offset_sel r) mem) :: u16)) s"

definition load_tables :: "bytes \<Rightarrow> vcpu \<Rightarrow> vcpu" where
  "load_tables mem s =
     (let s = load_sel SREG_SS mem s;
          s = vt_write_gdtr (slot_read OFFSET_GDTR_BASE mem) (slot_read OFFSET_GDTR_LIMIT mem) s;
          s = vt_write_idtr (slot_read OFFSET_IDTR_BASE mem) (slot_read OFFSET_IDTR_LIMIT mem) s;
          s = asm_vmwrite VMCS_GUEST_TR_SEL (ucast (ucast (slot_read OFFSET_TR_SEL mem) :: u16)) s;
          s = fold (\<lambda>(r, q). vt_write_general_reg r (slot_read q mem)) saved_regs s
      in vt_write_control_reg CONTROL_REG_CR2 (slot_read OFFSET_CR2 mem) s)"

text \<open>What the code adds: VMXE hidden in CR4, a 64-bit code segment and no stack segment.\<close>

definition load_fixes :: "bytes \<Rightarrow> vcpu \<Rightarrow> vcpu" where
  "load_fixes mem s =
     (let s = asm_vmwrite VMCS_CR4_READ_SHADOW (slot_read OFFSET_CR4 mem AND 0xFFFFFFFFFFFFDFFF) s;
          s = asm_vmwrite (VMCS_GUEST_ACCESS_RIGHTS SREG_CS) 0xA09B s;
          s = asm_vmwrite (VMCS_GUEST_ACCESS_RIGHTS SREG_SS) 0x1C000 s;
          s = asm_vmwrite (VMCS_GUEST_BASE SREG_FS) (slot_read OFFSET_FS_BASE mem) s
      in asm_vmwrite (VMCS_GUEST_BASE SREG_GS) (slot_read OFFSET_GS_BASE mem) s)"

definition load_guest_state_to_vmcs :: "bytes \<Rightarrow> vcpu \<Rightarrow> (vcpu \<times> virtio_state) option" where
  "load_guest_state_to_vmcs mem s =
     (case write_msrs [(MSR_IA32_EFER, slot_read OFFSET_EFER mem),
             (MSR_IA32_SYSENTER_CS, slot_read OFFSET_SYSENTER_CS mem),
             (MSR_IA32_SYSENTER_ESP, slot_read OFFSET_SYSENTER_ESP mem),
             (MSR_IA32_SYSENTER_EIP, slot_read OFFSET_SYSENTER_EIP mem)] (load_control mem s) of
        None \<Rightarrow> None
      | Some s \<Rightarrow>
      case write_msrs [(MSR_IA32_FS_BASE, slot_read OFFSET_FS_BASE mem)]
             (fold (\<lambda>r. load_sel r mem) [SREG_CS, SREG_DS, SREG_ES, SREG_FS] s) of
        None \<Rightarrow> None
      | Some s \<Rightarrow>
      case write_msrs [(MSR_IA32_GS_BASE, slot_read OFFSET_GS_BASE mem)] (load_sel SREG_GS mem s) of
        None \<Rightarrow> None
      | Some s \<Rightarrow>
      case write_cached_msrs (load_tables mem s) of
        None \<Rightarrow> None
      | Some s \<Rightarrow>
          Some (load_fixes mem s,
            \<lparr>t_sd_base = ucast (slot_read OFFSET_T_SD_BASE mem), r_sd_base = ucast (slot_read OFFSET_R_SD_BASE mem),
             virtio_send_queue = ucast (slot_read OFFSET_VIRTIO_SEND_QUEUE mem),
             virtio_recv_queue = ucast (slot_read OFFSET_VIRTIO_RECV_QUEUE mem)\<rparr>))"

text \<open>
  The end of \<open>postcopy_migration_ready_vmmcall\<close>: the state is loaded, the page tables of the hypervisor
  and the translation caches are dropped, and the violations wait for their blocks from now on (\<open>True\<close>,
  \<open>aft_mig_in_mmio\<close>).
\<close>

definition postcopy_migration_ready :: "(vcpu \<Rightarrow> bool) \<Rightarrow> bytes \<Rightarrow> vcpu \<Rightarrow> (vcpu \<times> virtio_state \<times> bool) option" where
  "postcopy_migration_ready spt_tlbflush mem s =
     map_option (\<lambda>(s, d).
       let s = vt_paging_tlbflush spt_tlbflush (vt_paging_clear_all s)
       in (vt_paging_flush_guest_tlb s, d, True))
     (load_guest_state_to_vmcs mem s)"

text \<open>
  The message that ends the wait: its command and the address of the page, if the length is that of
  two longs.  The result is the value returned, \<open>stop_value\<close> and the address.
\<close>

definition postcopy_migration_ready_sub :: "u64 \<Rightarrow> u64 \<Rightarrow> nat \<Rightarrow> int \<Rightarrow> u64 \<Rightarrow> int \<times> int \<times> u64" where
  "postcopy_migration_ready_sub cmd addr len stop vmem =
     (if len \<noteq> 16 then (- 1, stop, vmem)
      else if cmd = 1 then (0, 0, addr)
      else (- 1, stop, addr))"

section \<open>What arrives\<close>

text \<open>The last write of a place counts, if the others do not meet it.\<close>

fun find_last :: "slot \<Rightarrow> (slot \<times> u64) list \<Rightarrow> u64 option" where
  "find_last q [] = None"
| "find_last q ((r, v) # ws) = (case find_last q ws of Some x \<Rightarrow> Some x | None \<Rightarrow> if r = q then Some v else None)"

lemma saved_find:
  assumes "list_all (\<lambda>(r, v). r = q \<or> slot_apart q r) ws" "find_last q ws = Some v"
  shows "slot_read q (fold (\<lambda>(q, v). slot_write q v) ws mem) = slot_kept q v"
  using assms
proof (induction ws arbitrary: mem)
  case (Cons w ws)
  obtain r x where w: "w = (r, x)" by (cases w)
  show ?case
  proof (cases "find_last q ws")
    case None
    then have "list_all (\<lambda>(r, v). slot_apart q r) ws"
    proof -
      have "find_last q vs = None \<Longrightarrow> list_all (\<lambda>(r, v). r = q \<or> slot_apart q r) vs \<Longrightarrow> list_all (\<lambda>(r, v). slot_apart q r) vs" for vs
        by (induction vs) (auto split: option.splits if_splits)
      then show ?thesis using None Cons.prems(1) by simp
    qed
    then show ?thesis using None Cons.prems by (simp add: w page.read_unwritten page.rd_same split: if_splits)
  next
    case (Some y)
    then show ?thesis using Cons by (simp add: w)
  qed
qed simp

lemma saved_reads:
  fixes d s mem
  defines "page \<equiv> save_guest_cpu_state d s mem"
  shows "slot_read OFFSET_RSP page = vt_read_general_reg GENERAL_REG_RSP s"
    "slot_read OFFSET_RFLAGS page = asm_vmread VMCS_GUEST_RFLAGS s" "slot_read OFFSET_RIP page = vt_read_ip s"
    "slot_read OFFSET_CR0 page = asm_vmread VMCS_GUEST_CR0 s" "slot_read OFFSET_CR3 page = asm_vmread VMCS_GUEST_CR3 s"
    "slot_read OFFSET_CR4 page = asm_vmread VMCS_GUEST_CR4 s" "slot_read OFFSET_DR7 page = asm_vmread VMCS_GUEST_DR7 s"
    "slot_read OFFSET_EFER page = 0xd01"
    "slot_read OFFSET_SYSENTER_CS page = asm_vmread VMCS_GUEST_IA32_SYSENTER_CS s"
    "slot_read OFFSET_SYSENTER_ESP page = asm_vmread VMCS_GUEST_IA32_SYSENTER_ESP s"
    "slot_read OFFSET_SYSENTER_EIP page = asm_vmread VMCS_GUEST_IA32_SYSENTER_EIP s"
    "slot_read OFFSET_FS_BASE page = asm_vmread (VMCS_GUEST_BASE SREG_FS) s"
    "slot_read OFFSET_GS_BASE page = asm_vmread (VMCS_GUEST_BASE SREG_GS) s"
    "slot_read OFFSET_GDTR_LIMIT page = asm_vmread VMCS_GUEST_GDTR_LIMIT s AND 0xFFFF"
    "slot_read OFFSET_GDTR_BASE page = asm_vmread VMCS_GUEST_GDTR_BASE s"
    "slot_read OFFSET_IDTR_LIMIT page = asm_vmread VMCS_GUEST_IDTR_LIMIT s AND 0xFFFF"
    "slot_read OFFSET_IDTR_BASE page = asm_vmread VMCS_GUEST_IDTR_BASE s"
    "slot_read OFFSET_CR2 page = cr2 s"
    "slot_read OFFSET_STAR page = msr_star s" "slot_read OFFSET_LSTAR page = msr_lstar s"
    "slot_read OFFSET_FMASK page = msr_fmask s" "slot_read OFFSET_KERNEL_GSBASE page = msr_kerngs s"
    "slot_read OFFSET_T_SD_BASE page = ucast (t_sd_base d)" "slot_read OFFSET_R_SD_BASE page = ucast (r_sd_base d)"
    "slot_read OFFSET_VIRTIO_SEND_QUEUE page = ucast (virtio_send_queue d)"
    "slot_read OFFSET_VIRTIO_RECV_QUEUE page = ucast (virtio_recv_queue d)"
    "slot_read OFFSET_TR_SEL page = ucast (ucast (asm_vmread VMCS_GUEST_TR_SEL s) :: u16)"
  unfolding page_def save_guest_cpu_state_def
  by (subst saved_find; simp add: saved_state_def saved_regs_def vt_get_vmcs_regs_in_vmcs_def slot_apart_def Let_def
      vt_read_control_reg_def; fail)+

lemma saved_sel:
  "slot_read (offset_sel r) (save_guest_cpu_state d s mem) = ucast (ucast (asm_vmread (VMCS_GUEST_SEL r) s) :: u16)"
  unfolding save_guest_cpu_state_def
  by (cases r; subst saved_find; simp add: saved_state_def saved_regs_def vt_get_vmcs_regs_in_vmcs_def slot_apart_def Let_def)

lemma saved_general:
  fixes d s mem
  defines "page \<equiv> save_guest_cpu_state d s mem"
  shows "slot_read (Long 52) page = vt_read_general_reg GENERAL_REG_RAX s"
    "slot_read (Long 53) page = vt_read_general_reg GENERAL_REG_RBX s"
    "slot_read (Long 54) page = vt_read_general_reg GENERAL_REG_RCX s"
    "slot_read (Long 55) page = vt_read_general_reg GENERAL_REG_RDX s"
    "slot_read (Long 56) page = vt_read_general_reg GENERAL_REG_RDI s"
    "slot_read (Long 57) page = vt_read_general_reg GENERAL_REG_RSI s"
    "slot_read (Long 58) page = vt_read_general_reg GENERAL_REG_RBP s"
    "slot_read (Long 59) page = vt_read_general_reg GENERAL_REG_R8 s"
    "slot_read (Long 60) page = vt_read_general_reg GENERAL_REG_R9 s"
    "slot_read (Long 61) page = vt_read_general_reg GENERAL_REG_R10 s"
    "slot_read (Long 62) page = vt_read_general_reg GENERAL_REG_R11 s"
    "slot_read (Long 63) page = vt_read_general_reg GENERAL_REG_R12 s"
    "slot_read (Long 64) page = vt_read_general_reg GENERAL_REG_R13 s"
    "slot_read (Long 65) page = vt_read_general_reg GENERAL_REG_R14 s"
    "slot_read (Long 66) page = vt_read_general_reg GENERAL_REG_R15 s"
  unfolding page_def save_guest_cpu_state_def
  by (subst saved_find; simp add: saved_state_def saved_regs_def slot_apart_def Let_def; fail)+

end
