(* ===== verification/Vt_Switch.thy ===== *)
theory Vt_Switch
  imports Vt_Main
begin

unbundle bit_operations_syntax

text \<open>
  The switch between real and protected mode, as the guest sees it: nothing it can read changes.  A
  segment register whose selector cannot be used in the new mode is emulated from then on, and the
  IDT, the TSS and the flag of virtual 8086 mode are swapped behind its back.
\<close>

section \<open>Emulated segment registers\<close>

primrec sw_index :: "sreg \<Rightarrow> nat" where
  "sw_index SREG_ES = 0" | "sw_index SREG_CS = 1" | "sw_index SREG_SS = 2"
| "sw_index SREG_DS = 3" | "sw_index SREG_FS = 4" | "sw_index SREG_GS = 5"

lemma sw_index_eq: "(sw_index q = sw_index r) = (q = r)"
  by (cases q; cases r) simp_all

lemma sw_bit: "(x AND SW_SREG_BIT r = 0) = (\<not> bit x (sw_index r))" "bit (SW_SREG_BIT r) n = (n = sw_index r)"
proof -
  have p: "SW_SREG_BIT r = 2 ^ sw_index r" by (cases r) simp_all
  show "(x AND SW_SREG_BIT r = 0) = (\<not> bit x (sw_index r))" unfolding p by (rule and_exp_eq_0_iff_not_bit)
  have "sw_index r < 32" by (cases r) simp_all
  then show "bit (SW_SREG_BIT r) n = (n = sw_index r)" unfolding p by (auto simp: bit_exp_iff)
qed

lemma sel_inj: "(VMCS_GUEST_SEL q = VMCS_GUEST_SEL r) = (q = r)"
  by (cases q; cases r) simp_all

lemma sel_kept: "ucast (vmcs_kept (VMCS_GUEST_SEL r) v) = (ucast v :: u16)"
  by (rule bit_word_eqI) (auto simp: bit_simps bit_kept vmcs_simps)

lemma ucast_sel [simp]: "ucast (ucast x :: u64) = (x :: u16)"
  by (rule bit_word_eqI) (auto simp: bit_simps)

lemma sel_not_bmp: "VMCS_GUEST_SEL r \<noteq> VMCS_EXCEPTION_BMP"
  by (cases r) simp_all

text \<open>The selectors as the guest reads them are \<open>f\<close>, and so is the copy \<open>sw_sel\<close>.\<close>

definition sels :: "(sreg \<Rightarrow> u16) \<Rightarrow> vcpu \<Rightarrow> bool" where
  "sels f s \<longleftrightarrow> (\<forall>r. sw_sel s r = f r \<and> (bit (sw_enable s) (sw_index r) \<or> ucast (asm_vmread (VMCS_GUEST_SEL r) s) = f r))"

lemma read_sel:
  "vt_read_sreg_sel r s = (if bit (sw_enable s) (sw_index r) then sw_sel s r else ucast (asm_vmread (VMCS_GUEST_SEL r) s))"
  by (simp add: vt_read_sreg_sel_def sw_bit)

lemma sels_read: "sels f s \<Longrightarrow> vt_read_sreg_sel r s = f r"
  by (auto simp: sels_def read_sel)

lemma sels_cong:
  assumes "sw_enable t = sw_enable s" "sw_sel t = sw_sel s" "\<And>r. asm_vmread (VMCS_GUEST_SEL r) t = asm_vmread (VMCS_GUEST_SEL r) s"
  shows "sels f t = sels f s"
  using assms by (simp add: sels_def)

lemma sw_clear_bit: "bit (sw_enable (sw_clear r s)) (sw_index q) = (bit (sw_enable s) (sw_index q) \<and> q \<noteq> r)"
  by (auto simp: sw_clear_def bit_simps sw_bit sw_index_eq dest: bit_imp_le_length)

lemma sels_use_sel:
  assumes "sels f s"
  shows "sels f (use_sel r s)"
proof -
  have "sw_sel (use_sel r s) = sw_sel s" by (simp add: use_sel_def sw_clear_def vt_frame)
  moreover have "asm_vmread i (sw_clear r t) = asm_vmread i t" for i t by (simp add: sw_clear_def vmcs_simps)
  ultimately show ?thesis
    using assms by (auto simp: sels_def use_sel_def sw_clear_bit vmread_vmwrite sel_inj sel_kept vt_frame)
qed

lemma sels_use_base:
  assumes "sels f s" "bit (sw_enable s) (sw_index r)"
  shows "sels f (use_base r s)"
proof -
  have "sw_sel (use_base r s) = sw_sel s" by (simp add: use_base_def sw_clear_def vt_frame Let_def)
  moreover have "asm_vmread i (sw_clear r t) = asm_vmread i t" for i t by (simp add: sw_clear_def vmcs_simps)
  ultimately show ?thesis
    using assms by (auto simp: sels_def use_base_def Let_def sw_clear_bit vmread_vmwrite sel_inj sel_kept vt_frame)
qed

lemma use_base_bit:
  "q \<noteq> r \<Longrightarrow> bit (sw_enable (use_base r s)) (sw_index q) = bit (sw_enable s) (sw_index q)"
  by (simp add: use_base_def Let_def sw_clear_bit vt_frame)

lemma save_sel_steps:
  "sw_sel (save_sel q s) r = (if r = q then vt_read_sreg_sel r s else sw_sel s r)"
  "vt_read_sreg_sel r (save_sel q s) = vt_read_sreg_sel r s" "vmcs (save_sel q s) = vmcs s" "re (save_sel q s) = re s"
  "rm_idtr_base (save_sel q s) = rm_idtr_base s" "rm_idtr_limit (save_sel q s) = rm_idtr_limit s"
  by (auto simp: save_sel_def vt_read_sreg_sel_def asm_vmread_def)

section \<open>The selectors over the switch\<close>

abbreviation emulated :: "vcpu \<Rightarrow> sreg \<Rightarrow> bool" where
  "emulated s r \<equiv> bit (sw_enable s) (sw_index r)"

lemma sels_vmwrite:
  "(\<And>r. emulated s r \<or> i \<noteq> VMCS_GUEST_SEL r) \<Longrightarrow> sels f s \<Longrightarrow> sels f (asm_vmwrite i v s)"
  by (auto simp: sels_def vt_frame vmread_vmwrite)

lemma sels_sregs:
  "(\<And>r. emulated s r \<or> VMCS_GUEST_SEL r \<notin> range field) \<Longrightarrow> sels f s \<Longrightarrow> sels f (write_sregs field v s)"
  unfolding sels_def
proof (intro allI)
  fix r
  assume a: "\<And>r. emulated s r \<or> VMCS_GUEST_SEL r \<notin> range field"
    and b: "\<forall>r. sw_sel s r = f r \<and> (emulated s r \<or> ucast (asm_vmread (VMCS_GUEST_SEL r) s) = f r)"
  from a [of r] b show "sw_sel (write_sregs field v s) r = f r
      \<and> (emulated (write_sregs field v s) r \<or> ucast (asm_vmread (VMCS_GUEST_SEL r) (write_sregs field v s)) = f r)"
    using vmread_sregs [of "VMCS_GUEST_SEL r" field v s] by (auto simp: frame_sregs_simps)
qed

lemma sels_use_bases: "list_all (emulated s) rs \<Longrightarrow> distinct rs \<Longrightarrow> sels f s \<Longrightarrow> sels f (fold use_base rs s)"
proof (induction rs arbitrary: s)
  case (Cons r rs)
  then have "list_all (emulated (use_base r s)) rs" by (simp add: list_all_iff) (metis use_base_bit)
  then show ?case using Cons by (simp add: sels_use_base)
qed simp

lemma sels_enable_sw:
  assumes "sels f s" "\<And>r. emulated s r"
  shows "sels f (enable_sw_protected s)" "sels f (enable_sw_real s)"
proof -
  have out: "VMCS_GUEST_SEL r \<notin> range VMCS_GUEST_ACCESS_RIGHTS" "VMCS_GUEST_SEL r \<notin> range VMCS_GUEST_LIMIT" for r
    by (cases r; simp add: sreg_ranges)+
  have if_sels: "sels f (if c then use_sel r t else t)" if "sels f t" for c r t
    using that by (simp add: sels_use_sel)
  show "sels f (enable_sw_protected s)"
    unfolding enable_sw_protected_def Let_def
    by (intro sels_use_sel if_sels sels_sregs sels_vmwrite) (simp_all add: assms out vt_frame)
  have "sels f (fold use_base sregs (asm_vmwrite VMCS_GUEST_RFLAGS (asm_vmread VMCS_GUEST_RFLAGS s OR RFLAGS_VM_BIT) s))"
    by (rule sels_use_bases) (simp_all add: assms vt_frame sels_vmwrite)
  then show "sels f (enable_sw_real s)"
    unfolding enable_sw_real_def Let_def by (intro sels_sregs) (simp_all add: out)
qed

lemma pe_change_sels: "vt_read_sreg_sel r (pe_change pe s) = vt_read_sreg_sel r s"
proof -
  define f where "f r = vt_read_sreg_sel r s" for r
  obtain u where u: "pe_change pe s = (pe_change_enable_sw pe u)\<lparr>exint_re_pending := False, exint_update := True\<rparr>"
    and f: "\<And>q. vt_read_sreg_sel q u = f q"
  proof
    let ?u = "pe_change_switch_tr pe (vt_write_idtr (fst (vt_read_idtr s)) (snd (vt_read_idtr s))
        ((vt_write_idtr 0 0 s)\<lparr>re := \<not> pe\<rparr>))"
    show "pe_change pe s = (pe_change_enable_sw pe ?u)\<lparr>exint_re_pending := False, exint_update := True\<rparr>"
      by (simp add: pe_change_def Let_def split_beta)
    show "vt_read_sreg_sel q ?u = f q" for q
      unfolding f_def vt_read_sreg_sel_def
      by (cases q) (simp_all add: vt_write_idtr_def pe_change_switch_tr_def Let_def vt_frame vmcs_simps)
  qed
  define v where "v = (fold save_sel sregs u)\<lparr>sw_num := 0, sw_enable := 0x1 OR 0x2 OR 0x4 OR 0x8 OR 0x10 OR 0x20\<rparr>"
  have e: "emulated v q" for q by (cases q) (simp_all add: v_def del: fold_simps)
  have "sw_sel v q = f q" for q by (cases q) (simp_all add: v_def save_sel_steps f)
  then have "sels f v" by (simp add: sels_def e)
  then have "sels f (if pe then enable_sw_protected v else enable_sw_real v)" using sels_enable_sw e by simp
  then have "sels f (pe_change_enable_sw pe u)"
    unfolding pe_change_enable_sw_def Let_def v_def [symmetric]
    by (subst sels_cong) (auto simp: vt_frame vmread_bmp sel_not_bmp)
  then show ?thesis unfolding u f_def [symmetric] by (subst sels_read) (simp_all add: sels_def vmread_upd)
qed

section \<open>IDT, TSS and flags\<close>

abbreviation sw_fields :: "u64 set" where
  "sw_fields \<equiv> {VMCS_GUEST_RFLAGS, VMCS_EXCEPTION_BMP} \<union> range VMCS_GUEST_SEL \<union> range VMCS_GUEST_ACCESS_RIGHTS
     \<union> range VMCS_GUEST_LIMIT"

lemma enable_sw_keeps:
  "i \<notin> sw_fields \<Longrightarrow> asm_vmread i (pe_change_enable_sw pe s) = asm_vmread i s"
  "rm_idtr_base (pe_change_enable_sw pe s) = rm_idtr_base s" "rm_idtr_limit (pe_change_enable_sw pe s) = rm_idtr_limit s"
  "rm_tr_limit (pe_change_enable_sw pe s) = rm_tr_limit s" "rm_tr_acr (pe_change_enable_sw pe s) = rm_tr_acr s"
  "rm_tr_base (pe_change_enable_sw pe s) = rm_tr_base s" "re (pe_change_enable_sw pe s) = re s"
proof -
  define B where "B = sw_fields"
  define K where "K t \<longleftrightarrow> (\<forall>i. i \<notin> B \<longrightarrow> asm_vmread i t = asm_vmread i s) \<and> rm_idtr_base t = rm_idtr_base s
      \<and> rm_idtr_limit t = rm_idtr_limit s \<and> rm_tr_limit t = rm_tr_limit s \<and> rm_tr_acr t = rm_tr_acr s
      \<and> rm_tr_base t = rm_tr_base s \<and> re t = re s" for t
  have w: "K (asm_vmwrite i v t)" if "K t" "i \<in> B" for i v t
    using that unfolding K_def by (auto simp: vt_frame vmread_vmwrite)
  have c: "K (sw_clear r t)" "K (save_sel r t)" "K (t\<lparr>sw_num := m, sw_enable := n\<rparr>)" if "K t" for r t m n
    using that by (auto simp: K_def sw_clear_def save_sel_def vmcs_simps)
  have sel: "VMCS_GUEST_SEL r \<in> B" "VMCS_EXCEPTION_BMP \<in> B" "VMCS_GUEST_RFLAGS \<in> B" for r by (simp_all add: B_def)
  have K: "K (use_sel r t)" "K (use_base r t)" "K (vt_update_exception_bmp t)" if "K t" for r t
    using that c(1) w sel by (simp_all add: use_sel_def use_base_def vt_update_exception_bmp_def Let_def)
  have W: "K (write_sregs f v t)" if "K t" "range f \<subseteq> B" for f v t
  proof -
    have "asm_vmread i (write_sregs f v t) = asm_vmread i t" if "i \<notin> B" for i
      by (rule vmread_sregs) (use \<open>range f \<subseteq> B\<close> that in blast)
    then show ?thesis using that(1) unfolding K_def by (simp add: vt_frame)
  qed
  have F: "K (fold g rs t)" if "K t" "\<And>r t. K t \<Longrightarrow> K (g r t)" for g rs t
    using that(1) by (induction rs arbitrary: t) (simp_all add: that(2))
  have ranges: "range VMCS_GUEST_SEL \<subseteq> B" "range VMCS_GUEST_ACCESS_RIGHTS \<subseteq> B" "range VMCS_GUEST_LIMIT \<subseteq> B"
    by (auto simp: B_def)
  have I: "K (if b then use_sel r t else t)" if "K t" for b r t using that K(1) by simp
  have "K (enable_sw_protected t)" "K (enable_sw_real t)" if "K t" for t
    unfolding enable_sw_protected_def enable_sw_real_def Let_def
    by (intro K(1) I W w ranges sel(3) that) (intro W ranges F K(2) w sel(3) that; assumption?)
  moreover have Ks: "K s" by (simp add: K_def)
  ultimately have "K (pe_change_enable_sw pe s)"
    using Ks by (simp add: pe_change_enable_sw_def Let_def c K(3))
  then show "i \<notin> sw_fields \<Longrightarrow> asm_vmread i (pe_change_enable_sw pe s) = asm_vmread i s"
    "rm_idtr_base (pe_change_enable_sw pe s) = rm_idtr_base s" "rm_idtr_limit (pe_change_enable_sw pe s) = rm_idtr_limit s"
    "rm_tr_limit (pe_change_enable_sw pe s) = rm_tr_limit s" "rm_tr_acr (pe_change_enable_sw pe s) = rm_tr_acr s"
    "rm_tr_base (pe_change_enable_sw pe s) = rm_tr_base s" "re (pe_change_enable_sw pe s) = re s"
    unfolding K_def B_def by blast+
qed

lemma idtr_out: "VMCS_GUEST_IDTR_BASE \<notin> sw_fields" "VMCS_GUEST_IDTR_LIMIT \<notin> sw_fields"
  "VMCS_GUEST_TR_BASE \<notin> sw_fields" "VMCS_GUEST_TR_LIMIT \<notin> sw_fields" "VMCS_GUEST_TR_ACCESS_RIGHTS \<notin> sw_fields"
  by (simp_all add: sreg_ranges)

lemmas enable_sw_idtr = idtr_out [THEN enable_sw_keeps(1)]

lemma limit16: "x < 0x10000 \<Longrightarrow> ucast (ucast x :: u16) = (x :: u64)"
proof -
  assume "x < 0x10000"
  then have "take_bit 16 x = x" using less_mask_eq [of x 16] by (simp add: take_bit_eq_mask)
  moreover have "ucast (ucast x :: u16) = take_bit 16 x" by (rule bit_word_eqI) (auto simp: bit_simps)
  ultimately show ?thesis by simp
qed

lemma kept_idtr_limit: "vmcs_kept VMCS_GUEST_IDTR_LIMIT (ucast (l :: u16)) = ucast l"
  by (rule bit_word_eqI) (auto simp: bit_kept vmcs_simps bit_simps dest: bit_imp_le_length)

lemma take_64 [simp]: "take_bit 64 x = (x :: u64)"
  by (rule bit_word_eqI) (simp add: bit_simps)

lemma pe_change_idtr:
  assumes "re s = pe" "\<not> pe \<Longrightarrow> asm_vmread VMCS_GUEST_IDTR_LIMIT s < 0x10000"
  shows "vt_read_idtr (pe_change pe s) = vt_read_idtr s"
  using assms
  by (cases pe) (simp_all add: pe_change_def vt_read_idtr_def vt_write_idtr_def pe_change_switch_tr_def enable_sw_keeps(2-)
      enable_sw_idtr Let_def split_beta vt_frame vmcs_simps vmcs_kept_width limit16 kept_idtr_limit)

lemma pe_change_tr:
  "rm_tr_limit (pe_change False s) = asm_vmread VMCS_GUEST_TR_LIMIT s"
  "rm_tr_acr (pe_change False s) = asm_vmread VMCS_GUEST_TR_ACCESS_RIGHTS s"
  "rm_tr_base (pe_change False s) = asm_vmread VMCS_GUEST_TR_BASE s"
  "asm_vmread VMCS_GUEST_TR_LIMIT (pe_change True s) = take_bit 32 (rm_tr_limit s)"
  "asm_vmread VMCS_GUEST_TR_ACCESS_RIGHTS (pe_change True s) = take_bit 32 (rm_tr_acr s)"
  "asm_vmread VMCS_GUEST_TR_BASE (pe_change True s) = rm_tr_base s"
  by (simp_all add: pe_change_def vt_read_idtr_def vt_write_idtr_def pe_change_switch_tr_def enable_sw_keeps(2-)
      enable_sw_idtr Let_def split_beta vt_frame vmcs_simps vmcs_kept_def)

lemma pe_change_guest_flags:
  assumes "re s = pe" "\<not> pe \<Longrightarrow> \<not> bit (asm_vmread VMCS_GUEST_RFLAGS s) 17"
  shows "vt_read_flags (pe_change pe s) = vt_read_flags s"
proof -
  have vm: "(v OR RFLAGS_VM_BIT) AND NOT RFLAGS_VM_BIT = v" if "\<not> bit v 17" for v :: u64
  proof (rule bit_word_eqI)
    fix n :: nat
    have b: "bit RFLAGS_VM_BIT n = (n = 17)" using bit_exp_iff [of 17 n, where 'a = "64 word"] by auto
    show "bit ((v OR RFLAGS_VM_BIT) AND NOT RFLAGS_VM_BIT) n = bit v n"
      using that unfolding bit_and_iff bit_or_iff bit_not_iff b by (auto dest: bit_imp_le_length)
  qed
  then show ?thesis
    using assms vm [of "asm_vmread VMCS_GUEST_RFLAGS s"]
    by (cases pe) (simp_all add: vt_read_flags_def pe_change_flags vt_frame)
qed

end
