(* ===== verification/Vt_Guest.thy ===== *)
theory Vt_Guest
  imports Vt_Switch Vt_Ept_Safety
begin

unbundle bit_operations_syntax

text \<open>
  What holds of the virtual CPU as a whole: the invariant of the main loop, the registers the guest
  reads back, the switch between real and protected mode, the delivery of events and the MSRs of the
  system calls.
\<close>

section \<open>An example\<close>

text \<open>
  A processor with extended page tables and without unrestricted guest, a virtual CPU whose memory
  has not been cleared yet, and outside code that does nothing.
\<close>

definition sample_msr :: "u64 \<Rightarrow> u64" where
  "sample_msr i =
     (if i = 0x482 then 0xFFFFFFFF00018000 else if i = 0x483 then 0xFFFFFFFF00000000
      else if i = 0x484 then 0xFFFF00000000 else if i = 0x486 then 0x80000021 else if i = 0x487 then 0xFFFFFFFF
      else if i = 0x488 then 0x2000 else if i = 0x489 then 0x7FFFFF else if i = 0x48B then 0x2200000000
      else if i = 0x48C then 0x4040 else 0)"

definition sample_vcpu :: vcpu where
  "sample_vcpu =
     \<lparr>vmcs = (\<lambda>_. 0), gpr = (\<lambda>_. 1), cr2 = 1, vr_cr3 = 1, re = False, pg = True, sw_enable = 1, sw_num = 1,
      sw_sel = (\<lambda>_. 1), rm_idtr_base = 1, rm_idtr_limit = 1, rm_tr_limit = 1, rm_tr_acr = 1, rm_tr_base = 1,
      msr_vmm = [], msr_guest = [], msr_efer = 0, msr_star = 1, msr_lstar = 1, msr_cstar = 1, msr_fmask = 1,
      msr_kerngs = 1, msrbmp = (\<lambda>_. 0), ept = None, lme = True, lma = True, vpid = 1, spt_cr3 = 1,
      handle_pagefault = True, invept_available = True, unrestricted_guest = True, save_load_efer_enable = True,
      ept_available = True, unrestricted_guest_available = True, exint_pass = True, exint_pending = True,
      exint_update = True, exint_re_pending = True, cr3exit_controllable = True, cr3exit_off = True,
      updateip = True, first_run = False, halted = False, intr_info = 1, intr_errcode = 1, intr_len = 1,
      nmi_cnt = 0, tlb_log = [], spt_cr3tbl_phys = 1, spt_regs = (0, 0, 0, 0), head_phys = 0x70000000,
      menv = sample_env\<lparr>cache := (cache sample_env)\<lparr>hw_msr := sample_msr, hw_msr_gp := (\<lambda>_. False)\<rparr>\<rparr>,
      msr_release = No_owner, gmem = (\<lambda>_. 0), wrmsr_gp = (\<lambda>_ _. False), tsc_offset = 1, apic_log = [], uninit = 0\<rparr>"

definition sample_start :: vt_start where
  "sample_start =
     \<lparr>host_riv = vt_get_vmcs_regs_in_vmcs sample_vcpu, is_vcpu0 = True, iobmpphys_a = 0x1000, iobmpphys_b = 0x2000,
      msrbmp_phys = 0x3000, msr_vmm_phys = 0x4000, msr_guest_phys = 0x5000, spt_page = 0x6000, ept_root = 0x70002000,
      ept_pool = (\<lambda>i. 0x70010000 + of_nat i * 0x1000), ept_mem = (\<lambda>_. 0)\<rparr>"

definition sample_exit_env :: exit_env where
  "sample_exit_env =
     \<lparr>exint_of = \<lparr>no_intr_intercept = True, realmode_int = (\<lambda>_ s. (VMMERR_SUCCESS, s)), externalint = 0x20\<rparr>,
      interpreter = (\<lambda>s. (VMMERR_SUCCESS, s)), spt_pagefault = (\<lambda>_ _ s. s), spt_invalidate = (\<lambda>_ s. s), spt_flush = (\<lambda>_. True),
      vmmcall_fn = (\<lambda>s. s), io_fn = Some, cpuid_fn = (\<lambda>a c. (a, 0, c, 0)), xsetbv_fn = (\<lambda>_ _ _. False),
      boot_cpu = False, after_mig = True, mig_found = True, mig_obs = [], linear_q = (\<lambda>_ _. None),
      set_linear_q = (\<lambda>_ _. Some), linear_tss = (\<lambda>_ _. None), set_linear_tss = (\<lambda>_ _. Some)\<rparr>"

lemma sample_exit_env_ok: "exit_env_ok sample_exit_env"
  by (simp add: exit_env_ok_def exint_env_ok_def sample_exit_env_def vt_reach.start)

lemma sample_capable: "vmx_capable sample_vcpu"
  by (simp add: vmx_capable_def rdmsr32_def sample_vcpu_def sample_msr_def bit_simps)

section \<open>The main loop\<close>

text \<open>
  C4: The start of the guest's virtual CPU does not panic, and from then on the state is consistent
  after every turn of the main loop, whatever the guest does between two exits: the execution controls
  fit the paging mode, the processor walks the guest's tables or the shadow tables, long mode and the
  mode flags agree with the control registers, real mode is emulated in virtual 8086 mode, and the
  exceptions intercepted are those the mode needs.
\<close>

theorem vt_loop_invariant:
  assumes "vmx_capable s" "exit_env_ok env"
  shows "\<exists>t. initregs (vt_vminit p (load_new_vcpu s)) = Some t \<and> {u. vt_loop env t u} \<subseteq> {u. vt_ok u}"
proof -
  obtain t where t: "initregs (vt_vminit p (load_new_vcpu s)) = Some t" "vt_ok t"
    using initregs_ok [OF assms(1)] by blast
  then show ?thesis using vt_loop_ok [OF _ assms(2)] by blast
qed

lemma vt_loop_invariant_witness:
  "\<exists>t. initregs (vt_vminit sample_start (load_new_vcpu sample_vcpu)) = Some t
       \<and> {u. vt_loop sample_exit_env t u} \<subseteq> {u. vt_ok u}"
  by (rule vt_loop_invariant [OF sample_capable sample_exit_env_ok])

section \<open>Control registers\<close>

text \<open>The steps of \<open>write_cr0\<close>, with what the guest reads: CR3 stays readable at the same place.\<close>

abbreviation cr3_ok :: "vcpu \<Rightarrow> bool" where
  "cr3_ok s \<equiv> cr3exit_off s \<longrightarrow> ept_enabled s \<and> cr3exit_controllable s"

lemma read_cr3_vmwrite: "i \<noteq> VMCS_GUEST_CR3 \<Longrightarrow> vt_read_cr3 (asm_vmwrite i v s) = vt_read_cr3 s"
  by (simp add: vt_read_cr3_def vt_frame vmcs_simps)

lemma read_cr3_steps:
  "vt_read_cr3 (pe_change pe s) = vt_read_cr3 s" "ept_enabled (pe_change pe s) = ept_enabled s"
  "vt_read_cr3 (vt_msr_update_lma s) = vt_read_cr3 s" "vt_read_cr3 (s\<lparr>pg := b\<rparr>) = vt_read_cr3 s"
  by (simp_all add: vt_read_cr3_def ept_enabled_def vt_frame vmcs_simps)

lemma read_cr3_updatecr3: "cr3_ok s \<Longrightarrow> vt_read_cr3 (vt_paging_flush_guest_tlb (vt_paging_updatecr3 s)) = vt_read_cr3 s"
  by (simp add: vt_read_cr3_def vt_frame vmcs_simps)

lemma write_cr0_reads:
  assumes "cr3_ok s"
  shows "vt_read_cr3 (write_cr0 v s) = vt_read_cr3 s" "cr2 (write_cr0 v s) = cr2 s"
    "asm_vmread VMCS_CR4_READ_SHADOW (write_cr0 v s) = asm_vmread VMCS_CR4_READ_SHADOW s"
    "asm_vmread VMCS_CR0_READ_SHADOW (write_cr0 v s) = v" "menv (write_cr0 v s) = menv s"
    "\<exists>e t. asm_vmread VMCS_GUEST_CR0 (write_cr0 v s) = vt_paging_apply_fixed_cr0 (v AND NOT e) t
       \<and> (e = 0 \<or> e = CR0_PG_BIT) \<and> menv t = menv s"
proof -
  define pe where "pe = bit v 0"
  define val where "val = (if \<not> pe then v AND NOT CR0_PG_BIT else v)"
  define s1 where "s1 = asm_vmwrite VMCS_CR0_READ_SHADOW v s"
  define s2 where "s2 = (if pe \<noteq> (\<not> re s1) \<and> \<not> unrestricted_guest s1 then pe_change pe s1 else s1)"
  define paging where "paging = bit val 31"
  define s3 where "s3 = (if paging \<noteq> pg s2 then vt_paging_pg_change (s2\<lparr>pg := paging\<rparr>) else s2)"
  define s4 where "s4 = vt_msr_update_lma s3"
  define s5 where "s5 = asm_vmwrite VMCS_GUEST_CR0 (vt_paging_apply_fixed_cr0 val s4) s4"
  have w: "write_cr0 v s = vt_paging_flush_guest_tlb (vt_paging_updatecr3 s5)"
    unfolding write_cr0_def Let_def flag_bits pe_def [symmetric] s1_def [symmetric] val_def [symmetric]
      s2_def [symmetric] paging_def [symmetric] s3_def [symmetric] s4_def [symmetric] s5_def [symmetric] by (rule refl)
  define K where "K t \<longleftrightarrow> vt_read_cr3 t = vt_read_cr3 s \<and> cr2 t = cr2 s \<and> menv t = menv s
      \<and> asm_vmread VMCS_CR4_READ_SHADOW t = asm_vmread VMCS_CR4_READ_SHADOW s \<and> asm_vmread VMCS_CR0_READ_SHADOW t = v
      \<and> cr3_ok t" for t
  have e: "ept_enabled s1 = ept_enabled s" by (simp add: s1_def ept_enabled_def vt_frame)
  have "K s1"
    using assms unfolding K_def e by (simp add: s1_def read_cr3_vmwrite vt_frame vmcs_simps vmcs_kept_width)
  moreover have "K (pe_change pe s1)" if "K s1"
    using that by (simp add: K_def read_cr3_steps vt_frame vmcs_simps)
  ultimately have "K s2" unfolding s2_def by (simp only: split: if_split) blast
  then have "K s3"
    using pg_change_read_cr3 [of "s2\<lparr>pg := paging\<rparr>"]
    by (auto simp: s3_def K_def vt_frame vmcs_simps read_cr3_steps)
  then have "K s4" by (simp add: s4_def K_def read_cr3_steps vt_frame vmcs_simps)
  moreover have "ept_enabled s5 = ept_enabled s4" by (simp add: s5_def ept_enabled_def vt_frame)
  ultimately have "K s5" by (simp add: s5_def K_def read_cr3_vmwrite vt_frame vmcs_simps)
  then show "vt_read_cr3 (write_cr0 v s) = vt_read_cr3 s" "cr2 (write_cr0 v s) = cr2 s" "menv (write_cr0 v s) = menv s"
    "asm_vmread VMCS_CR4_READ_SHADOW (write_cr0 v s) = asm_vmread VMCS_CR4_READ_SHADOW s"
    "asm_vmread VMCS_CR0_READ_SHADOW (write_cr0 v s) = v"
    unfolding w by (simp_all add: K_def read_cr3_updatecr3 vt_frame vmcs_simps)
  have "asm_vmread VMCS_GUEST_CR0 (write_cr0 v s) = vt_paging_apply_fixed_cr0 val s4"
    unfolding w by (simp add: s5_def vmcs_simps vmcs_kept_width)
  moreover have "menv s4 = menv s" using \<open>K s4\<close> by (simp add: K_def)
  moreover have "val = v AND NOT (if pe then 0 else CR0_PG_BIT)" by (simp add: val_def)
  ultimately show "\<exists>e t. asm_vmread VMCS_GUEST_CR0 (write_cr0 v s) = vt_paging_apply_fixed_cr0 (v AND NOT e) t
       \<and> (e = 0 \<or> e = CR0_PG_BIT) \<and> menv t = menv s"
    by (intro exI [of _ "if pe then 0 else CR0_PG_BIT"] exI [of _ s4]) simp
qed

lemma fixed_guest_bits:
  "e = 0 \<or> e = CR0_PG_BIT \<Longrightarrow> vt_paging_apply_fixed_cr0 (v AND NOT e) s AND NOT VT_CR0_GUESTHOST_MASK
     = (v AND rdmsr MSR_IA32_VMX_CR0_FIXED1 s OR rdmsr MSR_IA32_VMX_CR0_FIXED0 s) AND NOT VT_CR0_GUESTHOST_MASK"
  "vt_paging_apply_fixed_cr4 v s AND NOT VT_CR4_GUESTHOST_MASK
     = (v AND rdmsr MSR_IA32_VMX_CR4_FIXED1 s OR rdmsr MSR_IA32_VMX_CR4_FIXED0 s) AND NOT VT_CR4_GUESTHOST_MASK"
proof -
  have sub: "bit c n \<Longrightarrow> bit m n" if "c AND m = c" for c m :: u64 and n
    using arg_cong [OF that, of "\<lambda>x. bit x n"] by (simp add: bit_simps)
  have m0: "bit CR0_PG_BIT n \<Longrightarrow> bit VT_CR0_GUESTHOST_MASK n" "bit (CR0_PG_BIT OR CR0_PE_BIT) n \<Longrightarrow> bit VT_CR0_GUESTHOST_MASK n"
    "bit CR0_WP_BIT n \<Longrightarrow> bit VT_CR0_GUESTHOST_MASK n" for n
    by (rule sub [of CR0_PG_BIT] sub [of "CR0_PG_BIT OR CR0_PE_BIT"] sub [of CR0_WP_BIT],
        simp add: VT_CR0_GUESTHOST_MASK_def, assumption)+
  have m4: "bit CR4_PAE_BIT n \<Longrightarrow> bit VT_CR4_GUESTHOST_MASK n" for n
    by (rule sub [of CR4_PAE_BIT], simp add: VT_CR4_GUESTHOST_MASK_def, assumption)
  show "vt_paging_apply_fixed_cr0 (v AND NOT e) s AND NOT VT_CR0_GUESTHOST_MASK
     = (v AND rdmsr MSR_IA32_VMX_CR0_FIXED1 s OR rdmsr MSR_IA32_VMX_CR0_FIXED0 s) AND NOT VT_CR0_GUESTHOST_MASK"
    if "e = 0 \<or> e = CR0_PG_BIT"
  proof (rule bit_word_eqI)
    fix n :: nat
    have "bit e n \<Longrightarrow> bit VT_CR0_GUESTHOST_MASK n" using that m0(1) by auto
    then show "bit (vt_paging_apply_fixed_cr0 (v AND NOT e) s AND NOT VT_CR0_GUESTHOST_MASK) n =
        bit ((v AND rdmsr MSR_IA32_VMX_CR0_FIXED1 s OR rdmsr MSR_IA32_VMX_CR0_FIXED0 s) AND NOT VT_CR0_GUESTHOST_MASK) n"
      using m0(2,3) [of n] unfolding vt_paging_apply_fixed_cr0_def Let_def
      by (simp only: bit_and_iff bit_or_iff bit_not_iff if_distrib [of "\<lambda>x. bit x n"]) (auto simp: bit_simps)
  qed
  show "vt_paging_apply_fixed_cr4 v s AND NOT VT_CR4_GUESTHOST_MASK
     = (v AND rdmsr MSR_IA32_VMX_CR4_FIXED1 s OR rdmsr MSR_IA32_VMX_CR4_FIXED0 s) AND NOT VT_CR4_GUESTHOST_MASK"
  proof (rule bit_word_eqI)
    fix n :: nat
    show "bit (vt_paging_apply_fixed_cr4 v s AND NOT VT_CR4_GUESTHOST_MASK) n =
        bit ((v AND rdmsr MSR_IA32_VMX_CR4_FIXED1 s OR rdmsr MSR_IA32_VMX_CR4_FIXED0 s) AND NOT VT_CR4_GUESTHOST_MASK) n"
      using m4 [of n] unfolding vt_paging_apply_fixed_cr4_def Let_def
      by (simp only: bit_and_iff bit_or_iff bit_not_iff if_distrib [of "\<lambda>x. bit x n"]) (auto simp: bit_simps)
  qed
qed

text \<open>The fields after a write.\<close>

lemma write_control_reads:
  assumes "vt_ok s"
  shows "asm_vmread VMCS_CR0_READ_SHADOW (vt_write_control_reg CONTROL_REG_CR0 v s) = v"
    "asm_vmread VMCS_GUEST_CR0 (vt_write_control_reg CONTROL_REG_CR0 v s) AND NOT VT_CR0_GUESTHOST_MASK =
      (v AND rdmsr MSR_IA32_VMX_CR0_FIXED1 s OR rdmsr MSR_IA32_VMX_CR0_FIXED0 s) AND NOT VT_CR0_GUESTHOST_MASK"
    "asm_vmread VMCS_CR4_READ_SHADOW (vt_write_control_reg CONTROL_REG_CR4 v s) = v"
    "asm_vmread VMCS_GUEST_CR4 (vt_write_control_reg CONTROL_REG_CR4 v s) AND NOT VT_CR4_GUESTHOST_MASK =
      (v AND rdmsr MSR_IA32_VMX_CR4_FIXED1 s OR rdmsr MSR_IA32_VMX_CR4_FIXED0 s) AND NOT VT_CR4_GUESTHOST_MASK"
    "cr2 (vt_write_control_reg r v s) = (if r = CONTROL_REG_CR2 then v else cr2 s)"
    "vt_read_cr3 (vt_write_control_reg r v s) = (if r = CONTROL_REG_CR3 then v else vt_read_cr3 s)"
proof -
  have ok: "cr3_ok s" using assms by (simp add: vt_ok_def paging_ok_def)
  note w0 = write_cr0_reads [OF ok, of v]
  obtain e t where t: "asm_vmread VMCS_GUEST_CR0 (write_cr0 v s) = vt_paging_apply_fixed_cr0 (v AND NOT e) t"
    "e = 0 \<or> e = CR0_PG_BIT" "menv t = menv s"
    using w0(6) by blast
  show "asm_vmread VMCS_CR0_READ_SHADOW (vt_write_control_reg CONTROL_REG_CR0 v s) = v"
    using w0(4) by (simp add: vt_write_control_reg_def)
  show "asm_vmread VMCS_GUEST_CR0 (vt_write_control_reg CONTROL_REG_CR0 v s) AND NOT VT_CR0_GUESTHOST_MASK =
      (v AND rdmsr MSR_IA32_VMX_CR0_FIXED1 s OR rdmsr MSR_IA32_VMX_CR0_FIXED0 s) AND NOT VT_CR0_GUESTHOST_MASK"
    unfolding vt_write_control_reg_def by (simp only: control_reg.case t(1,3) fixed_guest_bits(1) [OF t(2)])
  define u where "u = asm_vmwrite VMCS_CR4_READ_SHADOW v s"
  define w where "w = asm_vmwrite VMCS_GUEST_CR4 (vt_paging_apply_fixed_cr4 v u) u"
  have w4: "vt_write_control_reg CONTROL_REG_CR4 v s = vt_paging_flush_guest_tlb (vt_paging_updatecr3 w)"
    by (simp add: vt_write_control_reg_def Let_def w_def u_def)
  have m: "menv u = menv s" by (simp add: u_def vt_frame)
  show "asm_vmread VMCS_CR4_READ_SHADOW (vt_write_control_reg CONTROL_REG_CR4 v s) = v"
    unfolding w4 by (simp add: w_def u_def vmcs_simps vmcs_kept_width)
  have "asm_vmread VMCS_GUEST_CR4 (vt_paging_flush_guest_tlb (vt_paging_updatecr3 w)) = vt_paging_apply_fixed_cr4 v u"
    by (simp add: w_def u_def vmcs_simps vmcs_kept_width)
  then show "asm_vmread VMCS_GUEST_CR4 (vt_write_control_reg CONTROL_REG_CR4 v s) AND NOT VT_CR4_GUESTHOST_MASK =
      (v AND rdmsr MSR_IA32_VMX_CR4_FIXED1 s OR rdmsr MSR_IA32_VMX_CR4_FIXED0 s) AND NOT VT_CR4_GUESTHOST_MASK"
    unfolding w4 by (simp add: fixed_guest_bits(2) m)
  have "cr3_ok w" using ok by (simp add: w_def u_def ept_enabled_def vt_frame)
  then have w43: "vt_read_cr3 (vt_write_control_reg CONTROL_REG_CR4 v s) = vt_read_cr3 s"
    unfolding w4 by (simp add: read_cr3_updatecr3) (simp add: w_def u_def read_cr3_vmwrite)
  have "cr3_ok (vt_write_cr3 v s)" using ok by (simp add: vt_write_cr3_def ept_enabled_def vt_frame)
  moreover have "vt_read_cr3 (vt_write_cr3 v s) = v"
    by (simp add: vt_read_cr3_def vt_write_cr3_def vt_frame vmcs_simps vmcs_kept_width)
  ultimately have c3: "vt_read_cr3 (vt_write_control_reg CONTROL_REG_CR3 v s) = v"
    by (simp add: vt_write_control_reg_def read_cr3_updatecr3)
  show "cr2 (vt_write_control_reg r v s) = (if r = CONTROL_REG_CR2 then v else cr2 s)"
    using w0(2) by (cases r) (simp_all add: vt_write_control_reg_def Let_def vt_write_cr3_def vt_frame)
  show "vt_read_cr3 (vt_write_control_reg r v s) = (if r = CONTROL_REG_CR3 then v else vt_read_cr3 s)"
    using w0(1) w43 c3 by (cases r) (simp_all add: vt_write_control_reg_def vt_read_cr3_def vmcs_simps)
qed

text \<open>
  C11: A control register reads back what the guest wrote.  CR2 and CR3 do exactly, in every paging
  mode; in CR0 and CR4 the bits the hypervisor owns do, and the others have the value the processor
  allows them.  A write of CR0, with all the changes of mode it can make, or of CR4 does not change
  CR2 and CR3.
\<close>

theorem control_register_readback:
  assumes "vt_ok s"
  shows "vt_read_control_reg CONTROL_REG_CR0 (vt_write_control_reg CONTROL_REG_CR0 v s) =
           (v AND VT_CR0_GUESTHOST_MASK)
           OR ((v AND rdmsr MSR_IA32_VMX_CR0_FIXED1 s OR rdmsr MSR_IA32_VMX_CR0_FIXED0 s) AND NOT VT_CR0_GUESTHOST_MASK)
         \<and> vt_read_control_reg CONTROL_REG_CR4 (vt_write_control_reg CONTROL_REG_CR4 v s) =
           (v AND VT_CR4_GUESTHOST_MASK)
           OR ((v AND rdmsr MSR_IA32_VMX_CR4_FIXED1 s OR rdmsr MSR_IA32_VMX_CR4_FIXED0 s) AND NOT VT_CR4_GUESTHOST_MASK)
         \<and> vt_read_control_reg CONTROL_REG_CR3 (vt_write_control_reg CONTROL_REG_CR3 v s) = v
         \<and> vt_read_control_reg CONTROL_REG_CR2 (vt_write_control_reg CONTROL_REG_CR2 v s) = v
         \<and> (\<forall>r. vt_read_control_reg CONTROL_REG_CR2 (vt_write_control_reg r v s) = (if r = CONTROL_REG_CR2 then v else cr2 s))
         \<and> (\<forall>r. vt_read_control_reg CONTROL_REG_CR3 (vt_write_control_reg r v s) =
               (if r = CONTROL_REG_CR3 then v else vt_read_control_reg CONTROL_REG_CR3 s))"
  using write_control_reads [OF assms] unfolding vt_read_control_reg_def vt_read_cr0_def vt_read_cr4_def vt_read_cr_def
  by simp

lemma control_register_readback_witness:
  "\<exists>t. initregs (vt_vminit sample_start (load_new_vcpu sample_vcpu)) = Some t \<and> vt_ok t
     \<and> vt_read_control_reg CONTROL_REG_CR3 (vt_write_control_reg CONTROL_REG_CR3 0x5000 t) = 0x5000
     \<and> vt_read_control_reg CONTROL_REG_CR3 (vt_write_control_reg CONTROL_REG_CR0 0x80000031 t) =
         vt_read_control_reg CONTROL_REG_CR3 t"
  using initregs_ok [OF sample_capable, of sample_start] control_register_readback [of _ "0x5000"]
    control_register_readback [of _ "0x80000031"] by fastforce

section \<open>The switch between real and protected mode\<close>

text \<open>
  C12: The switch of the mode is invisible to the guest: the selectors, the flags and the IDTR it reads
  stay as they were, whatever it had loaded, in both directions.  To real mode and back, the task
  register has the limit, the access rights and the base it had.
\<close>

theorem mode_switch_invisible:
  assumes "re s = pe"
    and "\<not> pe \<Longrightarrow> \<not> bit (asm_vmread VMCS_GUEST_RFLAGS s) 17 \<and> asm_vmread VMCS_GUEST_IDTR_LIMIT s < 0x10000"
  shows "(\<forall>r. vt_read_sreg_sel r (pe_change pe s) = vt_read_sreg_sel r s)
         \<and> vt_read_flags (pe_change pe s) = vt_read_flags s \<and> vt_read_idtr (pe_change pe s) = vt_read_idtr s
         \<and> asm_vmread VMCS_GUEST_TR_LIMIT (pe_change True (pe_change False s)) = take_bit 32 (asm_vmread VMCS_GUEST_TR_LIMIT s)
         \<and> asm_vmread VMCS_GUEST_TR_ACCESS_RIGHTS (pe_change True (pe_change False s)) =
             take_bit 32 (asm_vmread VMCS_GUEST_TR_ACCESS_RIGHTS s)
         \<and> asm_vmread VMCS_GUEST_TR_BASE (pe_change True (pe_change False s)) = asm_vmread VMCS_GUEST_TR_BASE s"
  using assms by (simp add: pe_change_sels pe_change_guest_flags pe_change_idtr pe_change_tr)

text \<open>A guest with a selector of privilege 3 in CS, which protected mode cannot use.\<close>

definition sample_real :: vcpu where
  "sample_real =
     sample_vcpu\<lparr>re := True, sw_enable := 0, vmcs := (\<lambda>i. if i = VMCS_GUEST_SEL SREG_CS then 0xF003
        else if i = VMCS_GUEST_RFLAGS then 0x20202 else 0)\<rparr>"

lemma mode_switch_invisible_witness:
  "vt_read_sreg_sel SREG_CS (pe_change True sample_real) = 0xF003 \<and> vt_read_flags (pe_change True sample_real) = 0x202"
proof -
  have "vt_read_sreg_sel SREG_CS sample_real = 0xF003" "vt_read_flags sample_real = 0x202" "re sample_real"
    by (simp_all add: sample_real_def sample_vcpu_def vt_read_sreg_sel_def vt_read_flags_def asm_vmread_def)
  then show ?thesis using mode_switch_invisible [of sample_real True] by simp
qed

section \<open>Events\<close>

text \<open>The event an exit interrupted, from the check after the exit to the setup before the next entry.\<close>

lemma setup_after_check:
  assumes "ucast (asm_vmread VMCS_IDT_VECTORING_INFO_FIELD s) = v" "ii_valid v"
    and "t = vt__event_delivery_setup (vt__event_delivery_check s)"
  shows "if ii_type v = INTR_INFO_TYPE_SOFT_INTR \<or> ii_type v = INTR_INFO_TYPE_SOFT_EXCEPTION
         then \<not> ii_valid (intr_info t) \<and> vmcs t = vmcs s
         else asm_vmread VMCS_VMENTRY_INTR_INFO_FIELD t = ucast v
           \<and> asm_vmread VMCS_VMENTRY_EXCEPTION_ERRCODE t =
               (if ii_err v then take_bit 32 (asm_vmread VMCS_IDT_VECTORING_ERRCODE s)
                else asm_vmread VMCS_VMENTRY_EXCEPTION_ERRCODE s)
           \<and> (bit (asm_vmread VMCS_GUEST_INTERRUPTIBILITY_STATE t) 3 =
               (bit (asm_vmread VMCS_GUEST_INTERRUPTIBILITY_STATE s) 3 \<and> (ii_type v \<noteq> INTR_INFO_TYPE_NMI \<or> ii_err v)))"
proof (cases "ii_type v = INTR_INFO_TYPE_SOFT_INTR \<or> ii_type v = INTR_INFO_TYPE_SOFT_EXCEPTION")
  case True
  then have "vt__event_delivery_check s = s\<lparr>intr_info := v AND NOT 0x80000000\<rparr>"
    using assms(1,2) by (simp add: vt__event_delivery_check_def Let_def)
  moreover have "\<not> ii_valid (v AND NOT 0x80000000)" by (simp add: ii_valid_def bit_simps)
  ultimately show ?thesis using True by (simp add: assms(3) vt__event_delivery_setup_def)
next
  case False
  define c where "c = (if ii_err v then s\<lparr>intr_errcode := ucast (asm_vmread VMCS_IDT_VECTORING_ERRCODE s)\<rparr>
      else if ii_type v = INTR_INFO_TYPE_NMI then clear_blocking_by_nmi s else s)"
  have c: "vt__event_delivery_check s = c\<lparr>intr_info := v\<rparr>"
    using False assms(1,2) by (simp add: vt__event_delivery_check_def Let_def c_def)
  have w: "vmcs_kept VMCS_VMENTRY_INTR_INFO_FIELD (ucast x) = ucast x" "vmcs_kept VMCS_VMENTRY_EXCEPTION_ERRCODE (ucast x) = ucast x"
    "vmcs_kept VMCS_VMENTRY_EXCEPTION_ERRCODE (take_bit 32 y) = take_bit 32 y" for x :: u32 and y :: u64
    by (rule bit_word_eqI; auto simp: vmcs_kept_def vmcs_width_def bit_simps dest: bit_imp_le_length)+
  have e: "ucast (ucast x :: u32) = take_bit 32 x" for x :: u64 by (rule bit_word_eqI) (auto simp: bit_simps)
  have i: "asm_vmread j (u\<lparr>intr_info := x\<rparr>) = asm_vmread j u" "asm_vmread j (u\<lparr>intr_errcode := x\<rparr>) = asm_vmread j u"
    "intr_info (asm_vmwrite k y u) = intr_info u" "intr_errcode (asm_vmwrite k y u) = intr_errcode u" for j k u x y
    by (simp_all add: asm_vmread_def asm_vmwrite_def)
  have n: "asm_vmread VMCS_VMENTRY_EXCEPTION_ERRCODE c = asm_vmread VMCS_VMENTRY_EXCEPTION_ERRCODE s"
    "bit (asm_vmread VMCS_GUEST_INTERRUPTIBILITY_STATE c) 3 =
      (bit (asm_vmread VMCS_GUEST_INTERRUPTIBILITY_STATE s) 3 \<and> (ii_type v \<noteq> INTR_INFO_TYPE_NMI \<or> ii_err v))"
    by (auto simp: c_def clear_blocking_by_nmi_def vmcs_simps i bit_kept bit_simps vmcs_width_def)
  have "ii_err v \<Longrightarrow> intr_errcode c = ucast (asm_vmread VMCS_IDT_VECTORING_ERRCODE s)" by (simp add: c_def)
  then show ?thesis
    using False assms(2) n by (auto simp: assms(3) c vt__event_delivery_setup_def Let_def vmread_vmwrite w e i)
qed

text \<open>What is done between two runs apart from these two leaves the fields of the event alone.\<close>

lemma own_vmcs: "asm_vmread i (vt_msr_own_process_msrs s) = asm_vmread i s"
proof -
  have w: "vmcs (snd (do_write_msr i v s)) = vmcs s" for i v s
    by (simp add: do_write_msr_def Let_def)
  have "vmcs (vt_msr_own_process_msrs s) = vmcs s"
    by (simp add: vt_msr_own_process_msrs_def own_process64_msrs_def vt_msr_load_process64_msrs_def Let_def w)
  then show ?thesis by (simp only: asm_vmread_def)
qed

lemma check_frame:
  "pg (vt__event_delivery_check s) = pg s" "unrestricted_guest (vt__event_delivery_check s) = unrestricted_guest s"
  "ept (vt__event_delivery_check s) = ept s" "menv (vt__event_delivery_check s) = menv s"
  "nmi_cnt (vt__event_delivery_check s) = nmi_cnt s"
  "k \<noteq> VMCS_GUEST_INTERRUPTIBILITY_STATE \<Longrightarrow> asm_vmread k (vt__event_delivery_check s) = asm_vmread k s"
proof -
  have u: "asm_vmread k (x\<lparr>intr_info := a\<rparr>) = asm_vmread k x" "asm_vmread k (x\<lparr>intr_errcode := b\<rparr>) = asm_vmread k x" for x a b
    by (simp_all add: asm_vmread_def)
  show "k \<noteq> VMCS_GUEST_INTERRUPTIBILITY_STATE \<Longrightarrow> asm_vmread k (vt__event_delivery_check s) = asm_vmread k s"
    by (simp add: vt__event_delivery_check_def clear_blocking_by_nmi_def Let_def split_beta u vmcs_simps)
qed (simp_all add: vt__event_delivery_check_def clear_blocking_by_nmi_def vmcs_change_def asm_vmwrite_def Let_def split_beta)

lemma run_vmcs:
  "i \<noteq> VMCS_PIN_BASED_VMEXEC_CTL \<Longrightarrow> i \<noteq> VMCS_PROC_BASED_VMEXEC_CTL \<Longrightarrow> asm_vmread i (vt__vm_run s) = asm_vmread i s"
  by (simp add: vt__vm_run_def vt_update_exint_def Let_def split_beta vmcs_simps) (simp add: asm_vmread_def)

definition event_fields :: "u64 set" where
  "event_fields = {VMCS_VMENTRY_INTR_INFO_FIELD, VMCS_VMENTRY_EXCEPTION_ERRCODE, VMCS_GUEST_INTERRUPTIBILITY_STATE,
     VMCS_IDT_VECTORING_INFO_FIELD, VMCS_IDT_VECTORING_ERRCODE}"

lemma tf_fields:
  "i \<in> event_fields \<Longrightarrow> asm_vmread i (if tf then clear_tf s else s) = asm_vmread i s"
  "i \<in> event_fields \<Longrightarrow> asm_vmread i (if tf then set_tf s else s) = asm_vmread i s"
  by (auto simp: event_fields_def clear_tf_def set_tf_def vt_write_flags_def vmcs_simps)

lemma enter_fields:
  assumes "vt_enter tf s = Some u" and "i \<in> event_fields" and "ii_valid (intr_info s) \<or> nmi_cnt s = 0"
  shows "asm_vmread i u = asm_vmread i (vt__event_delivery_setup s)"
proof -
  have "vt__nmi s = Some s" using assms(3) by (auto simp: vt__nmi_def)
  then have u: "u = vt__vm_run (if tf then set_tf (vt_msr_own_process_msrs (vt__event_delivery_setup s))
      else vt_msr_own_process_msrs (vt__event_delivery_setup s))"
    using assms(1) by (simp add: vt_enter_def Let_def)
  have n: "i \<noteq> VMCS_PIN_BASED_VMEXEC_CTL" "i \<noteq> VMCS_PROC_BASED_VMEXEC_CTL" using assms(2) by (auto simp: event_fields_def)
  show ?thesis
    unfolding u run_vmcs [OF n]
    using tf_fields(2) [OF assms(2), of True] by (simp add: own_vmcs)
qed

text \<open>An exit by an EPT violation that is answered with a mapping.\<close>

definition mapped_violation :: "exit_env \<Rightarrow> vcpu \<Rightarrow> bool" where
  "mapped_violation env v =
     (asm_vmread VMCS_EXIT_REASON v = 0x30
      \<and> (\<exists>e l. vt_paging_npf (after_mig env) (mig_found env) (mig_obs env)
            (asm_vmread VMCS_EXIT_QUALIFICATION v AND 0x2 \<noteq> 0) (asm_vmread64 VMCS_GUEST_PHYSICAL_ADDRESS v) v
          = Some (Mapped e, l)))"

lemma leave_mapped:
  assumes "mapped_violation env v"
  shows "\<exists>e. vt_leave env tf v = Some ((vt__event_delivery_check (if tf then clear_tf v else v))\<lparr>ept := Some e\<rparr>)"
proof -
  let ?t = "if tf then clear_tf v else v"
  let ?c = "vt__event_delivery_check ?t"
  obtain e l where n: "vt_paging_npf (after_mig env) (mig_found env) (mig_obs env)
      (asm_vmread VMCS_EXIT_QUALIFICATION v AND 0x2 \<noteq> 0) (asm_vmread64 VMCS_GUEST_PHYSICAL_ADDRESS v) v = Some (Mapped e, l)"
    and r: "asm_vmread VMCS_EXIT_REASON v = 0x30"
    using assms by (auto simp: mapped_violation_def)
  have keep: "pg ?t = pg v" "unrestricted_guest ?t = unrestricted_guest v" "ept ?t = ept v" "menv ?t = menv v"
    by (simp_all add: clear_tf_def vt_write_flags_def vt_frame)
  note ck = check_frame(1-4) [of ?t]
  have rd: "asm_vmread i ?c = asm_vmread i v"
    if "i = VMCS_EXIT_REASON \<or> i = VMCS_EXIT_QUALIFICATION \<or> i = VMCS_GUEST_PHYSICAL_ADDRESS" for i
  proof -
    have "asm_vmread i ?t = asm_vmread i v" using that by (auto simp: clear_tf_def vt_write_flags_def vmcs_simps)
    moreover have "asm_vmread i ?c = asm_vmread i ?t" by (rule check_frame(6)) (use that in auto)
    ultimately show ?thesis by simp
  qed
  have en: "ept_enabled v" using n by (auto simp: vt_paging_npf_def split: if_splits)
  have "ept_enabled ?t" using en unfolding ept_enabled_def keep .
  then have w: "vt_leave env tf v = vt__exit_reason env ?c"
    by (simp add: vt_leave_def vt_paging_tlbflush_def Let_def)
  have "vt_paging_npf (after_mig env) (mig_found env) (mig_obs env)
      (asm_vmread VMCS_EXIT_QUALIFICATION ?c AND 0x2 \<noteq> 0) (asm_vmread64 VMCS_GUEST_PHYSICAL_ADDRESS ?c) ?c = Some (Mapped e, l)"
    using n by (simp only: rd vt_paging_npf_def ept_enabled_def ck keep simp_thms)
  then have "do_ept_violation env ?c = Some (?c\<lparr>ept := Some e\<rparr>)"
    by (simp add: do_ept_violation_def Let_def)
  moreover have "asm_vmread VMCS_EXIT_REASON ?c = 0x30" using r by (simp only: rd simp_thms)
  ultimately have "vt__exit_reason env ?c = Some (?c\<lparr>ept := Some e\<rparr>)"
    by (simp add: vt__exit_reason_def)
  with w show ?thesis by (intro exI [of _ e]) (simp only:)
qed

text \<open>
  C36: An event (an external interrupt, an NMI or a hardware exception) whose delivery was interrupted
  by an EPT violation is not lost in the main loop, when the violation is answered by mapping the page:
  after the exit and its handler, the next entry of the guest, with the trap flag or without, injects
  the same event with its error code, and an NMI no longer blocks NMIs.  Software interrupts and
  software exceptions are not injected again: the guest executes their instruction anew.  Nothing is
  said of other exits, whose handlers may make an event of their own in its place.
\<close>

theorem event_redelivered:
  assumes "mapped_violation env v" and "vt_leave env tf v = Some w" and "vt_enter tf' w = Some u"
    and "ucast (asm_vmread VMCS_IDT_VECTORING_INFO_FIELD v) = i" "ii_valid i"
  shows "if ii_type i = INTR_INFO_TYPE_SOFT_INTR \<or> ii_type i = INTR_INFO_TYPE_SOFT_EXCEPTION
         then \<not> ii_valid (intr_info w)
           \<and> (nmi_cnt v = 0 \<longrightarrow> asm_vmread VMCS_VMENTRY_INTR_INFO_FIELD u = asm_vmread VMCS_VMENTRY_INTR_INFO_FIELD v)
         else asm_vmread VMCS_VMENTRY_INTR_INFO_FIELD u = ucast i
           \<and> asm_vmread VMCS_VMENTRY_EXCEPTION_ERRCODE u =
               (if ii_err i then take_bit 32 (asm_vmread VMCS_IDT_VECTORING_ERRCODE v)
                else asm_vmread VMCS_VMENTRY_EXCEPTION_ERRCODE v)
           \<and> (bit (asm_vmread VMCS_GUEST_INTERRUPTIBILITY_STATE u) 3 =
               (bit (asm_vmread VMCS_GUEST_INTERRUPTIBILITY_STATE v) 3 \<and> (ii_type i \<noteq> INTR_INFO_TYPE_NMI \<or> ii_err i)))"
proof -
  define t where "t = (if tf then clear_tf v else v)"
  define c where "c = vt__event_delivery_check t"
  obtain e where w: "w = c\<lparr>ept := Some e\<rparr>" using leave_mapped [OF assms(1), of tf] assms(2) by (auto simp: c_def t_def)
  have in_fields: "VMCS_VMENTRY_INTR_INFO_FIELD \<in> event_fields" "VMCS_VMENTRY_EXCEPTION_ERRCODE \<in> event_fields"
    "VMCS_GUEST_INTERRUPTIBILITY_STATE \<in> event_fields" "VMCS_IDT_VECTORING_INFO_FIELD \<in> event_fields"
    "VMCS_IDT_VECTORING_ERRCODE \<in> event_fields"
    by (simp_all add: event_fields_def)
  have rt: "asm_vmread k t = asm_vmread k v" if "k \<in> event_fields" for k
    using that by (simp only: t_def tf_fields(1))
  note rt = in_fields [THEN rt]
  define z where "z = vt__event_delivery_setup c"
  have i: "ucast (asm_vmread VMCS_IDT_VECTORING_INFO_FIELD t) = i" using assms(4) by (simp only: rt)
  have su: "vt__event_delivery_setup w = z\<lparr>ept := Some e\<rparr>"
    by (simp add: w z_def vt__event_delivery_setup_def asm_vmwrite_def Let_def)
  have ru: "asm_vmread k (vt__event_delivery_setup w) = asm_vmread k z" for k
    by (simp add: su asm_vmread_def)
  note S = setup_after_check [OF i assms(5) z_def [unfolded c_def]]
  have nc: "nmi_cnt w = nmi_cnt v"
  proof -
    have "nmi_cnt t = nmi_cnt v" by (simp add: t_def clear_tf_def vt_write_flags_def asm_vmwrite_def)
    then show ?thesis by (simp add: w c_def check_frame(5))
  qed
  have iw: "intr_info w = intr_info c" "intr_info z = intr_info c"
    by (simp_all add: w z_def vt__event_delivery_setup_def asm_vmwrite_def Let_def)
  show ?thesis
  proof (cases "ii_type i = INTR_INFO_TYPE_SOFT_INTR \<or> ii_type i = INTR_INFO_TYPE_SOFT_EXCEPTION")
    case True
    then have s: "\<not> ii_valid (intr_info z)" "vmcs z = vmcs t" using S by simp_all
    have "asm_vmread VMCS_VMENTRY_INTR_INFO_FIELD u = asm_vmread VMCS_VMENTRY_INTR_INFO_FIELD v" if "nmi_cnt v = 0"
    proof -
      have "asm_vmread VMCS_VMENTRY_INTR_INFO_FIELD u = asm_vmread VMCS_VMENTRY_INTR_INFO_FIELD z"
        using enter_fields [OF assms(3) in_fields(1)] that nc by (simp add: ru)
      also have "\<dots> = asm_vmread VMCS_VMENTRY_INTR_INFO_FIELD t" using s(2) by (simp add: asm_vmread_def)
      finally show ?thesis by (simp only: rt)
    qed
    then show ?thesis using True s(1) by (simp add: iw)
  next
    case False
    have "intr_info c = i"
      using False i assms(5) by (simp add: c_def vt__event_delivery_check_def Let_def)
    then have "ii_valid (intr_info w)" using assms(5) by (simp add: iw)
    then have "asm_vmread k u = asm_vmread k z" if "k \<in> event_fields" for k
      using enter_fields [OF assms(3) that] by (simp add: ru)
    note zu = in_fields(1-3) [THEN this]
    show ?thesis using S False unfolding zu rt by (simp only: if_False simp_thms)
  qed
qed

text \<open>
  The delivery of a page fault with error code 4 was interrupted by an EPT violation for a page of
  ordinary memory, before a migration; the violation is answered by a mapping.
\<close>

definition sample_fault :: vcpu where
  "sample_fault =
     sample_vcpu\<lparr>vmcs := (\<lambda>i. if i = VMCS_IDT_VECTORING_INFO_FIELD then 0x80000B0E
        else if i = VMCS_IDT_VECTORING_ERRCODE then 4 else if i = VMCS_EXIT_REASON then 0x30
        else if i = VMCS_GUEST_PHYSICAL_ADDRESS then 0x5000 else 0),
        ept := Some sample_ept, exint_update := False\<rparr>"

definition fault_env :: exit_env where
  "fault_env = sample_exit_env\<lparr>after_mig := False\<rparr>"

lemma fault_mapped: "mapped_violation fault_env sample_fault"
proof -
  have r: "registry (menv sample_fault) = registry sample_env" "gmm (menv sample_fault) = gmm sample_env"
    by (simp_all add: sample_fault_def sample_vcpu_def)
  obtain m where m: "vt_ept_map_page (menv sample_fault) False 0x5000 sample_ept = Some (Some m)"
    using map_page_total [of "menv sample_fault" "0x5000" False sample_ept] sample_env_ok(3) r(2) by auto
  have "mmio_access_page (registry (menv sample_fault)) 0x5000 True = Not_mmio"
    using sample_violation [of "0x5000"] by (simp add: r(1))
  then have "vt_ept_violation (menv sample_fault) False True [] False 0x5000 sample_ept = (Mapped m, [], False)"
    by (simp add: vt_ept_violation_def m)
  then show ?thesis
    by (simp add: mapped_violation_def vt_paging_npf_def ept_enabled_def fault_env_def sample_exit_env_def)
      (simp add: sample_fault_def sample_vcpu_def asm_vmread_def ex_bool_eq)
qed

lemma event_redelivered_witness:
  "\<exists>w u. vt_leave fault_env True sample_fault = Some w \<and> vt_enter False w = Some u
     \<and> asm_vmread VMCS_VMENTRY_INTR_INFO_FIELD u = 0x80000B0E \<and> asm_vmread VMCS_VMENTRY_EXCEPTION_ERRCODE u = 4"
proof -
  let ?c = "vt__event_delivery_check (clear_tf sample_fault)"
  obtain e where w: "vt_leave fault_env True sample_fault = Some (?c\<lparr>ept := Some e\<rparr>)"
    using leave_mapped [OF fault_mapped, of True] by auto
  let ?w = "?c\<lparr>ept := Some e\<rparr>"
  have "nmi_cnt ?w = 0"
    by (simp add: check_frame(5)) (simp add: clear_tf_def vt_write_flags_def asm_vmwrite_def sample_fault_def sample_vcpu_def)
  then have "vt__nmi ?w = Some ?w" by (simp add: vt__nmi_def)
  then obtain u where u: "vt_enter False ?w = Some u" by (simp add: vt_enter_def)
  have f: "ucast (asm_vmread VMCS_IDT_VECTORING_INFO_FIELD sample_fault) = (0x80000B0E :: u32)" "ii_valid 0x80000B0E"
    "ii_type 0x80000B0E = 3" "ii_err 0x80000B0E"
    by (simp_all add: sample_fault_def asm_vmread_def ii_valid_def ii_type_def ii_err_def)
  moreover have "take_bit 32 (asm_vmread VMCS_IDT_VECTORING_ERRCODE sample_fault) = 4"
    by (simp add: sample_fault_def asm_vmread_def)
  ultimately have "asm_vmread VMCS_VMENTRY_INTR_INFO_FIELD u = 0x80000B0E" "asm_vmread VMCS_VMENTRY_EXCEPTION_ERRCODE u = 4"
    using event_redelivered [OF fault_mapped w u f(1,2)] by simp_all
  with w u show ?thesis by blast
qed

end
