(* ===== verification/Cpu_View.thy ===== *)
theory Cpu_View
  imports Cpu_State Vt_Guest
begin

unbundle bit_operations_syntax

text \<open>
  What the guest can read of its virtual CPU (\<open>guest_view\<close>), and what the writes of control registers,
  of EFER and of the system call MSRs leave of it.  \<open>Cpu_Load\<close> shows with it that the guest does
  not notice the migration.
\<close>

section \<open>What the guest reads\<close>

record guest_view =
  gv_general :: "general_reg \<Rightarrow> u64"
  gv_ip :: u64
  gv_flags :: u64
  gv_control :: "control_reg \<Rightarrow> u64"
  gv_dr7 :: u64
  gv_efer :: "u64 option"
  gv_sel :: "sreg \<Rightarrow> u16"
  gv_fs_gs_base :: "u64 \<times> u64"
  gv_gdtr :: "u64 \<times> u64"
  gv_idtr :: "u64 \<times> u64"
  gv_tr_sel :: u16
  gv_sysenter :: "u64 \<times> u64 \<times> u64"
  gv_syscall :: "u64 option list"

definition guest_msr :: "u32 \<Rightarrow> vcpu \<Rightarrow> u64 option" where
  "guest_msr i s = (case vt_read_msr i s of None \<Rightarrow> None | Some (v, _) \<Rightarrow> v)"

definition guest_view :: "vcpu \<Rightarrow> guest_view" where
  "guest_view s =
     \<lparr>gv_general = (\<lambda>r. vt_read_general_reg r s), gv_ip = vt_read_ip s, gv_flags = vt_read_flags s,
      gv_control = (\<lambda>r. vt_read_control_reg r s), gv_dr7 = asm_vmread VMCS_GUEST_DR7 s, gv_efer = guest_msr MSR_IA32_EFER s,
      gv_sel = (\<lambda>r. vt_read_sreg_sel r s),
      gv_fs_gs_base = (asm_vmread (VMCS_GUEST_BASE SREG_FS) s, asm_vmread (VMCS_GUEST_BASE SREG_GS) s),
      gv_gdtr = vt_read_gdtr s, gv_idtr = vt_read_idtr s, gv_tr_sel = ucast (asm_vmread VMCS_GUEST_TR_SEL s),
      gv_sysenter = (asm_vmread VMCS_GUEST_IA32_SYSENTER_CS s, asm_vmread VMCS_GUEST_IA32_SYSENTER_ESP s,
        asm_vmread VMCS_GUEST_IA32_SYSENTER_EIP s),
      gv_syscall = map (\<lambda>i. guest_msr i s) [MSR_IA32_STAR, MSR_IA32_LSTAR, MSR_IA32_FMASK, MSR_IA32_KERNEL_GS_BASE]\<rparr>"

declare slot_read.simps [simp del]

section \<open>What the operations of the load leave\<close>

definition sys_fields :: "u64 set" where
  "sys_fields = ept_controls \<union> pdptes \<union> {VMCS_PROC_BASED_VMEXEC_CTL, VMCS_EXCEPTION_BMP, VMCS_CR0_READ_SHADOW,
     VMCS_CR4_READ_SHADOW, VMCS_GUEST_CR0, VMCS_GUEST_CR3, VMCS_GUEST_CR4, VMCS_GUEST_IA32_EFER}"

definition keeps_rest :: "vcpu \<Rightarrow> vcpu \<Rightarrow> bool" where
  "keeps_rest s t \<longleftrightarrow>
     (\<forall>i. i \<notin> sys_fields \<longrightarrow> asm_vmread i t = asm_vmread i s)
     \<and> (gpr t, re t, sw_enable t, menv t, msr_release t, wrmsr_gp t, unrestricted_guest t, save_load_efer_enable t, msr_efer t,
        msr_star t, msr_lstar t, msr_cstar t, msr_fmask t, msr_kerngs t)
       = (gpr s, re s, sw_enable s, menv s, msr_release s, wrmsr_gp s, unrestricted_guest s, save_load_efer_enable s, msr_efer s,
        msr_star s, msr_lstar s, msr_cstar s, msr_fmask s, msr_kerngs s)"

lemma keeps_restD:
  "keeps_rest s t \<Longrightarrow> i \<notin> sys_fields \<Longrightarrow> asm_vmread i t = asm_vmread i s"
  "keeps_rest s t \<Longrightarrow> gpr t = gpr s" "keeps_rest s t \<Longrightarrow> re t = re s" "keeps_rest s t \<Longrightarrow> sw_enable t = sw_enable s"
  "keeps_rest s t \<Longrightarrow> menv t = menv s" "keeps_rest s t \<Longrightarrow> msr_release t = msr_release s"
  "keeps_rest s t \<Longrightarrow> wrmsr_gp t = wrmsr_gp s" "keeps_rest s t \<Longrightarrow> unrestricted_guest t = unrestricted_guest s"
  "keeps_rest s t \<Longrightarrow> save_load_efer_enable t = save_load_efer_enable s" "keeps_rest s t \<Longrightarrow> msr_efer t = msr_efer s"
  "keeps_rest s t \<Longrightarrow> msr_star t = msr_star s" "keeps_rest s t \<Longrightarrow> msr_lstar t = msr_lstar s"
  "keeps_rest s t \<Longrightarrow> msr_fmask t = msr_fmask s" "keeps_rest s t \<Longrightarrow> msr_kerngs t = msr_kerngs s"
  by (simp_all add: keeps_rest_def)

lemma keeps_rest_trans: "keeps_rest s t \<Longrightarrow> keeps_rest t u \<Longrightarrow> keeps_rest s u"
  by (simp add: keeps_rest_def)

lemma keeps_rest_vmwrite: "i \<in> sys_fields \<Longrightarrow> keeps_rest s (asm_vmwrite i v s)"
  by (auto simp: keeps_rest_def vmread_vmwrite asm_vmwrite_def [of i] asm_vmread_def)

lemma keeps_rest_ops:
  "keeps_rest s (vt_paging_pg_change s)" "keeps_rest s (vt_msr_update_lma s)" "keeps_rest s (vt_paging_updatecr3 s)"
  "keeps_rest s (vt_paging_flush_guest_tlb s)" "keeps_rest s (s\<lparr>pg := b\<rparr>)" "keeps_rest s (s\<lparr>lme := b\<rparr>)"
  "keeps_rest s (vt_write_cr3 v s)" "keeps_rest s (vt_paging_clear_all s)"
  by (auto simp: keeps_rest_def vt_frame vmcs_simps sys_fields_def vt_write_cr3_def)

text \<open>CR0 with the mode the virtual CPU is in.\<close>

lemma write_cr0_steps:
  assumes "bit v 0" "\<not> re s"
  defines "s1 \<equiv> asm_vmwrite VMCS_CR0_READ_SHADOW v s"
  defines "s3 \<equiv> (if bit v 31 \<noteq> pg s then vt_paging_pg_change (s1\<lparr>pg := bit v 31\<rparr>) else s1)"
  defines "s4 \<equiv> vt_msr_update_lma s3"
  shows "write_cr0 v s = vt_paging_flush_guest_tlb (vt_paging_updatecr3
      (asm_vmwrite VMCS_GUEST_CR0 (vt_paging_apply_fixed_cr0 v s4) s4))"
  unfolding write_cr0_def Let_def flag_bits s4_def s3_def s1_def
  using assms(1,2) by (simp add: vt_frame)

lemma keeps_rest_cr0:
  assumes "bit v 0" "\<not> re s"
  shows "keeps_rest s (write_cr0 v s)" "pg (write_cr0 v s) = bit v 31"
proof -
  have k: "keeps_rest t u \<Longrightarrow> keeps_rest s t \<Longrightarrow> keeps_rest s u" for t u by (rule keeps_rest_trans)
  have s1: "keeps_rest s (asm_vmwrite VMCS_CR0_READ_SHADOW v s)" by (rule keeps_rest_vmwrite) (simp add: sys_fields_def)
  have s3: "keeps_rest s (vt_paging_pg_change ((asm_vmwrite VMCS_CR0_READ_SHADOW v s)\<lparr>pg := b\<rparr>))" for b
    by (rule k [OF keeps_rest_ops(1)], rule k [OF keeps_rest_ops(5)], rule s1)
  show "keeps_rest s (write_cr0 v s)"
    unfolding write_cr0_steps [OF assms]
    by (rule k [OF keeps_rest_ops(4)], rule k [OF keeps_rest_ops(3)], rule k [OF keeps_rest_vmwrite], simp add: sys_fields_def,
        rule k [OF keeps_rest_ops(2)])
      (simp add: s1 s3)
  show "pg (write_cr0 v s) = bit v 31"
    unfolding write_cr0_steps [OF assms] by (simp add: vt_frame)
qed

lemma keeps_rest_control:
  "keeps_rest s (vt_write_control_reg CONTROL_REG_CR3 v s)" "keeps_rest s (vt_write_control_reg CONTROL_REG_CR4 v s)"
proof -
  have k: "keeps_rest t u \<Longrightarrow> keeps_rest s t \<Longrightarrow> keeps_rest s u" for t u by (rule keeps_rest_trans)
  show "keeps_rest s (vt_write_control_reg CONTROL_REG_CR3 v s)"
    unfolding vt_write_control_reg_def control_reg.case
    by (rule k [OF keeps_rest_ops(4)], rule k [OF keeps_rest_ops(3)], rule keeps_rest_ops(7))
  show "keeps_rest s (vt_write_control_reg CONTROL_REG_CR4 v s)"
    unfolding vt_write_control_reg_def control_reg.case Let_def
    by (rule k [OF keeps_rest_ops(4)], rule k [OF keeps_rest_ops(3)], rule k [OF keeps_rest_vmwrite], simp add: sys_fields_def,
        rule keeps_rest_vmwrite, simp add: sys_fields_def)
qed

text \<open>The write of EFER.\<close>

lemma write_efer_steps:
  assumes "read_guest_efer s = Some e" "vt_write_msr MSR_IA32_EFER v s = Some (b, t)"
  shows "t = vt_paging_flush_guest_tlb (vt_paging_updatecr3 (vt_msr_update_lma
      (snd (write_guest_efer (e AND (EFER_LME_BIT OR EFER_LMA_BIT) OR (v AND NOT (EFER_LME_BIT OR EFER_LMA_BIT)))
        (s\<lparr>lme := v AND EFER_LME_BIT \<noteq> 0\<rparr>)))))"
  using assms by (auto simp: vt_write_msr_def split_beta Let_def)

lemma keeps_rest_efer:
  assumes "read_guest_efer s = Some e" "vt_write_msr MSR_IA32_EFER v s = Some (b, t)"
  shows "keeps_rest s t" "pg t = pg s" "lme t = (v AND EFER_LME_BIT \<noteq> 0)" "cr2 t = cr2 s"
    "vt_read_cr3 s = c \<Longrightarrow> cr3_ok s \<Longrightarrow> vt_read_cr3 t = c"
    "i \<in> {VMCS_CR0_READ_SHADOW, VMCS_GUEST_CR0, VMCS_GUEST_CR4} \<Longrightarrow> asm_vmread i t = asm_vmread i s"
proof -
  have k: "keeps_rest t u \<Longrightarrow> keeps_rest s t \<Longrightarrow> keeps_rest s u" for t u by (rule keeps_rest_trans)
  have w: "keeps_rest u (snd (write_guest_efer x u))" for x u
    by (auto simp: write_guest_efer_def vt_write_guest_msr_def keeps_rest_vmwrite sys_fields_def)
      (auto simp: keeps_rest_def vmcs_simps)
  have f: "pg (snd (write_guest_efer x u)) = pg u" "lme (snd (write_guest_efer x u)) = lme u" "cr2 (snd (write_guest_efer x u)) = cr2 u"
    "vt_read_cr3 (snd (write_guest_efer x u)) = vt_read_cr3 u" "ept_enabled (snd (write_guest_efer x u)) = ept_enabled u"
    "cr3exit_off (snd (write_guest_efer x u)) = cr3exit_off u" "cr3exit_controllable (snd (write_guest_efer x u)) = cr3exit_controllable u"
    for x u
    by (auto simp: write_guest_efer_def vt_write_guest_msr_def vt_read_cr3_def ept_enabled_def vt_frame vmcs_simps)
  have l: "vt_read_cr3 (u\<lparr>lme := y\<rparr>) = vt_read_cr3 u" "ept_enabled (u\<lparr>lme := y\<rparr>) = ept_enabled u" for u y
    by (simp_all add: vt_read_cr3_def ept_enabled_def vmcs_simps)
  note t = write_efer_steps [OF assms]
  show "keeps_rest s t"
    unfolding t by (rule k [OF keeps_rest_ops(4)], rule k [OF keeps_rest_ops(3)], rule k [OF keeps_rest_ops(2)], rule k [OF w],
        rule keeps_rest_ops(6))
  show "pg t = pg s" "lme t = (v AND EFER_LME_BIT \<noteq> 0)" "cr2 t = cr2 s" unfolding t by (simp_all add: vt_frame f)
  show "vt_read_cr3 t = c" if "vt_read_cr3 s = c" "cr3_ok s"
    unfolding t using that by (subst read_cr3_updatecr3) (simp_all add: vt_frame f l read_cr3_steps)
  show "asm_vmread i t = asm_vmread i s" if "i \<in> {VMCS_CR0_READ_SHADOW, VMCS_GUEST_CR0, VMCS_GUEST_CR4}"
    unfolding t using that by (auto simp: vmcs_simps write_guest_efer_def vt_write_guest_msr_def)
qed

text \<open>EFER as the guest reads it back.\<close>

abbreviation efer_rest :: "vcpu \<Rightarrow> u64 option" where
  "efer_rest s \<equiv> map_option (\<lambda>e. e AND NOT (EFER_LME_BIT OR EFER_LMA_BIT)) (read_guest_efer s)"

lemma efer_rest_kept:
  "efer_rest (vt_paging_updatecr3 s) = efer_rest s" "efer_rest (vt_paging_flush_guest_tlb s) = efer_rest s"
  "\<not> save_load_efer_enable s \<Longrightarrow> msr_efer s < int (length (msr_guest s)) \<Longrightarrow> efer_rest (vt_msr_update_lma s) = efer_rest s"
  "save_load_efer_enable s \<Longrightarrow> efer_rest (vt_msr_update_lma s) = efer_rest s"
proof -
  have "read_guest_efer (vt_paging_updatecr3 s) = read_guest_efer s" "read_guest_efer (vt_paging_flush_guest_tlb s) = read_guest_efer s"
    by (simp_all add: read_guest_efer_def vt_read_guest_msr_def vt_frame vmcs_simps)
  then show "efer_rest (vt_paging_updatecr3 s) = efer_rest s" "efer_rest (vt_paging_flush_guest_tlb s) = efer_rest s" by simp_all
  have u: "read_guest_efer (vmcs_change VMCS_VMENTRY_CTL f (s\<lparr>lma := b\<rparr>)) = read_guest_efer s" for f b
    by (simp add: read_guest_efer_def vt_read_guest_msr_def vt_frame vmcs_simps)
  have m: "((x OR m) AND NOT m) = x AND NOT m" "((x AND NOT m) AND NOT m) = x AND NOT m" for x m :: u64
    by (rule bit_word_eqI; auto simp: bit_simps)+
  have "efer_rest (vt_msr_update_lma s) = efer_rest s"
    if i: "\<not> save_load_efer_enable s \<Longrightarrow> msr_efer s < int (length (msr_guest s))"
  proof -
    have c: "read_guest_efer (change_efer h' (vmcs_change VMCS_VMENTRY_CTL f (s\<lparr>lma := b\<rparr>))) = map_option h' (read_guest_efer s)"
      for h' f b
      by (subst read_change_efer) (use i in \<open>auto simp: vt_frame u\<close>)
    show ?thesis
      unfolding vt_msr_update_lma_def by (simp only: if_distrib [of read_guest_efer] c option.map_comp comp_def m split: if_split) simp
  qed
  then show "\<not> save_load_efer_enable s \<Longrightarrow> msr_efer s < int (length (msr_guest s)) \<Longrightarrow> efer_rest (vt_msr_update_lma s) = efer_rest s"
    "save_load_efer_enable s \<Longrightarrow> efer_rest (vt_msr_update_lma s) = efer_rest s" by simp_all
qed

lemma efer_readback:
  assumes "lma_ok s" "vt_write_msr MSR_IA32_EFER v s = Some (b, t)" "read_guest_efer s = Some e" "vt_ok t" "pg s"
  shows "vt_read_efer t = Some (v AND NOT EFER_LMA_BIT OR (if bit v 8 then EFER_LMA_BIT else 0))"
proof -
  let ?m = "EFER_LME_BIT OR EFER_LMA_BIT"
  define val where "val = (e AND ?m OR (v AND NOT ?m))"
  define u where "u = s\<lparr>lme := v AND EFER_LME_BIT \<noteq> 0\<rparr>"
  define x where "x = snd (write_guest_efer val u)"
  have range: "\<not> save_load_efer_enable s \<Longrightarrow> msr_efer s < int (length (msr_guest s))" "\<not> save_load_efer_enable s \<Longrightarrow> msr_efer s \<ge> 0"
    using assms(1,3) by (auto simp: lma_ok_def read_guest_efer_def vt_read_guest_msr_def split: if_splits)
  have x: "save_load_efer_enable x = save_load_efer_enable s" "msr_efer x = msr_efer s" "length (msr_guest x) = length (msr_guest s)"
    by (auto simp: x_def u_def write_guest_efer_def vt_write_guest_msr_def vt_frame)
  have "read_guest_efer x = Some val"
    using range by (auto simp: x_def u_def write_guest_efer_def vt_write_guest_msr_def read_guest_efer_def
        vt_read_guest_msr_def vmcs_simps vmcs_kept_width vt_frame nat_less_iff)
  moreover have "val AND NOT ?m = v AND NOT ?m" unfolding val_def by (rule bit_word_eqI) (auto simp: bit_simps)
  moreover have t: "t = vt_paging_flush_guest_tlb (vt_paging_updatecr3 (vt_msr_update_lma x))"
    using write_efer_steps [OF assms(3,2)] by (simp add: x_def u_def val_def)
  have "efer_rest t = efer_rest x"
    unfolding t efer_rest_kept(1,2) using efer_rest_kept(3,4) [of x] range(1) x by (cases "save_load_efer_enable x") auto
  ultimately obtain r where r: "read_guest_efer t = Some r" "r AND NOT ?m = v AND NOT ?m" by auto
  have "pg t" "lme t = bit v 8"
    using keeps_rest_efer(2,3) [OF assms(3,2)] assms(5) and_exp_eq_0_iff_not_bit [of v 8] by simp_all
  moreover have "lma t = (lme t \<and> pg t)" using assms(4) by (simp add: vt_ok_def long_ok_def)
  ultimately have l: "lme t = bit v 8" "lma t = bit v 8" by simp_all
  have b: "bit EFER_LME_BIT n = (n = 8)" "bit EFER_LMA_BIT n = (n = 10)" for n
    using bit_exp_iff [of 8 n, where 'a = "64 word"] bit_exp_iff [of 10 n, where 'a = "64 word"] by auto
  have "vt_read_efer t = Some ((if bit v 8 then ((v AND NOT ?m) OR EFER_LME_BIT) OR EFER_LMA_BIT else v AND NOT ?m))"
    unfolding vt_read_efer_def r(1) option.case Let_def r(2) l by simp
  also have "(if bit v 8 then ((v AND NOT ?m) OR EFER_LME_BIT) OR EFER_LMA_BIT else v AND NOT ?m) =
      v AND NOT EFER_LMA_BIT OR (if bit v 8 then EFER_LMA_BIT else 0)"
  proof (rule bit_word_eqI)
    fix n assume "n < LENGTH(64)"
    then show "bit (if bit v 8 then ((v AND NOT ?m) OR EFER_LME_BIT) OR EFER_LMA_BIT else v AND NOT ?m) n =
        bit (v AND NOT EFER_LMA_BIT OR (if bit v 8 then EFER_LMA_BIT else 0)) n"
      unfolding if_distrib [of "\<lambda>x. bit x n"] bit_or_iff bit_and_iff bit_not_iff b by (cases "n = 8") auto
  qed
  finally show ?thesis .
qed

section \<open>The system call MSRs\<close>

text \<open>Taking the MSRs for the virtual CPU loads its values; later it does nothing.\<close>

abbreviation set_hw :: "(u64 \<Rightarrow> u64) \<Rightarrow> vcpu \<Rightarrow> vcpu" where
  "set_hw m s \<equiv> s\<lparr>menv := (menv s)\<lparr>cache := (cache (menv s))\<lparr>hw_msr := m\<rparr>\<rparr>\<rparr>"

lemma do_write_hw: "\<exists>m. snd (do_write_msr i v s) = set_hw m s"
proof (cases "hw_msr_gp (cache (menv s)) (ucast i) \<or> wrmsr_gp s (ucast i) v")
  case True
  then show ?thesis by (intro exI [of _ "hw_msr (cache (menv s))"]) (simp add: do_write_msr_def)
next
  case False
  then show ?thesis
    by (intro exI [of _ "(hw_msr (cache (menv s)))(ucast i := v)"]) (simp add: do_write_msr_def Let_def)
qed

lemma own_hw: "msr_release s \<noteq> Vcpu_owner \<Longrightarrow> \<exists>m. vt_msr_own_process_msrs s = (set_hw m s)\<lparr>msr_release := Vcpu_owner\<rparr>"
proof -
  assume r: "msr_release s \<noteq> Vcpu_owner"
  let ?s = "s\<lparr>msr_release := Vcpu_owner\<rparr>"
  have w: "\<exists>m. snd (do_write_msr i v u) = set_hw m ?s" if "\<exists>m. u = set_hw m ?s" for i v u
    using do_write_hw [of i v u] that by auto
  have "\<exists>m. vt_msr_load_process64_msrs ?s = set_hw m ?s"
    unfolding vt_msr_load_process64_msrs_def Let_def by (intro w exI [of _ "hw_msr (cache (menv s))"]) simp
  then obtain m where m: "vt_msr_load_process64_msrs ?s = set_hw m ?s" by blast
  show ?thesis
    by (rule exI [of _ m]) (use r in \<open>simp add: vt_msr_own_process_msrs_def own_process64_msrs_def m\<close>)
qed

lemma own_again: "msr_release s = Vcpu_owner \<Longrightarrow> vt_msr_own_process_msrs s = s"
  by (simp add: vt_msr_own_process_msrs_def own_process64_msrs_def)

text \<open>The four writes of the load, when the processor accepts them.\<close>

definition accepts :: "vcpu \<Rightarrow> u32 \<Rightarrow> u64 \<Rightarrow> bool" where
  "accepts s i v = (\<not> hw_msr_gp (cache (menv s)) (ucast i) \<and> \<not> wrmsr_gp s (ucast i) v)"

lemma write_syscall:
  assumes "i \<in> set syscall_msrs" "accepts s i v" "msr_release s = Vcpu_owner"
  shows "vt_write_msr i v s = Some (False, set_hw ((hw_msr (cache (menv s)))(ucast i := v)) s)"
proof -
  have "i \<notin> {MSR_IA32_SYSENTER_CS, MSR_IA32_SYSENTER_ESP, MSR_IA32_SYSENTER_EIP, MSR_IA32_EFER, MSR_IA32_FS_BASE, MSR_IA32_GS_BASE}"
    using assms(1) by auto
  then show ?thesis
    using assms by (auto simp: vt_write_msr_def do_write_msr_def Let_def accepts_def own_again)
qed

lemma write_msr_owned:
  assumes "i \<in> set syscall_msrs" "msr_release s \<noteq> Vcpu_owner"
  shows "\<exists>m. vt_write_msr i v s = vt_write_msr i v ((set_hw m s)\<lparr>msr_release := Vcpu_owner\<rparr>)"
proof -
  obtain m where m: "vt_msr_own_process_msrs s = (set_hw m s)\<lparr>msr_release := Vcpu_owner\<rparr>" using own_hw assms(2) by blast
  have "i \<notin> {MSR_IA32_SYSENTER_CS, MSR_IA32_SYSENTER_ESP, MSR_IA32_SYSENTER_EIP, MSR_IA32_EFER, MSR_IA32_FS_BASE, MSR_IA32_GS_BASE}"
    using assms(1) by auto
  then have "vt_write_msr i v s = vt_write_msr i v ((set_hw m s)\<lparr>msr_release := Vcpu_owner\<rparr>)"
    using assms(1) by (simp add: vt_write_msr_def m own_again)
  then show ?thesis by blast
qed

lemma write_syscalls:
  assumes "accepts s MSR_IA32_STAR a" "accepts s MSR_IA32_LSTAR b" "accepts s MSR_IA32_FMASK c" "accepts s MSR_IA32_KERNEL_GS_BASE d"
  shows "\<exists>m. write_msrs [(MSR_IA32_STAR, a), (MSR_IA32_LSTAR, b), (MSR_IA32_FMASK, c), (MSR_IA32_KERNEL_GS_BASE, d)] s =
      Some ((set_hw (m(0xC0000081 := a, 0xC0000082 := b, 0xC0000084 := c, 0xC0000102 := d)) s)\<lparr>msr_release := Vcpu_owner\<rparr>)"
proof -
  have own: "\<exists>m. write_msrs [(MSR_IA32_STAR, a), (MSR_IA32_LSTAR, b), (MSR_IA32_FMASK, c), (MSR_IA32_KERNEL_GS_BASE, d)] u =
      Some (set_hw ((hw_msr (cache (menv u)))(0xC0000081 := a, 0xC0000082 := b, 0xC0000084 := c, 0xC0000102 := d)) u)"
    if "msr_release u = Vcpu_owner" "wrmsr_gp u = wrmsr_gp s" "hw_msr_gp (cache (menv u)) = hw_msr_gp (cache (menv s))" for u
  proof -
    have acc: "accepts (set_hw m u) i v = accepts s i v" "accepts u i v = accepts s i v" for m i v
      using that by (simp_all add: accepts_def)
    show ?thesis
      using assms that(1) by (simp add: write_syscall acc)
  qed
  show ?thesis
  proof (cases "msr_release s = Vcpu_owner")
    case True
    then have e: "(set_hw m s)\<lparr>msr_release := Vcpu_owner\<rparr> = set_hw m s" for m by (simp flip: True)
    show ?thesis unfolding e using own [OF True] by auto
  next
    case False
    obtain m where m: "vt_write_msr MSR_IA32_STAR a s = vt_write_msr MSR_IA32_STAR a ((set_hw m s)\<lparr>msr_release := Vcpu_owner\<rparr>)"
      using write_msr_owned [OF _ False, of MSR_IA32_STAR] by auto
    show ?thesis
      using own [of "(set_hw m s)\<lparr>msr_release := Vcpu_owner\<rparr>"] by (intro exI [of _ m]) (simp add: m)
  qed
qed

end
