(* ===== verification/Cpu_Load.thy ===== *)
theory Cpu_Load
  imports Cpu_View
begin

unbundle bit_operations_syntax

text \<open>
  The load of the CPU state into the virtual CPU of the destination, part by part (control registers,
  EFER, segments and tables, system call MSRs, end), and the theorem that, under the conditions
  \<open>migratable\<close> and \<open>receivable\<close>, the guest's view is the one
  it had on the source.
\<close>

section \<open>The load, part by part\<close>

lemma sys_out:
  "VMCS_GUEST_RSP \<notin> sys_fields" "VMCS_GUEST_RIP \<notin> sys_fields" "VMCS_GUEST_RFLAGS \<notin> sys_fields" "VMCS_GUEST_DR7 \<notin> sys_fields"
  by (simp_all add: sys_fields_def)

lemma load_control_facts:
  fixes mem t
  defines "a \<equiv> load_control mem t"
  assumes ok: "vt_ok t" and re: "\<not> re t" and pe: "bit (slot_read OFFSET_CR0 mem) 0"
  shows "vt_ok a" "\<not> re a" "sw_enable a = sw_enable t" "pg a = bit (slot_read OFFSET_CR0 mem) 31"
    "asm_vmread VMCS_GUEST_RSP a = slot_read OFFSET_RSP mem" "asm_vmread VMCS_GUEST_RFLAGS a = slot_read OFFSET_RFLAGS mem"
    "asm_vmread VMCS_GUEST_RIP a = slot_read OFFSET_RIP mem" "asm_vmread VMCS_GUEST_DR7 a = slot_read OFFSET_DR7 mem"
    "vt_read_cr3 a = slot_read OFFSET_CR3 mem" "asm_vmread VMCS_CR0_READ_SHADOW a = slot_read OFFSET_CR0 mem"
    "asm_vmread VMCS_GUEST_CR0 a AND NOT VT_CR0_GUESTHOST_MASK =
      (slot_read OFFSET_CR0 mem AND rdmsr MSR_IA32_VMX_CR0_FIXED1 t OR rdmsr MSR_IA32_VMX_CR0_FIXED0 t) AND NOT VT_CR0_GUESTHOST_MASK"
    "asm_vmread VMCS_GUEST_CR4 a AND NOT VT_CR4_GUESTHOST_MASK =
      (slot_read OFFSET_CR4 mem AND rdmsr MSR_IA32_VMX_CR4_FIXED1 t OR rdmsr MSR_IA32_VMX_CR4_FIXED0 t) AND NOT VT_CR4_GUESTHOST_MASK"
    "(read_guest_efer a = None) = (read_guest_efer t = None)"
    "hw_msr_gp (cache (menv a)) = hw_msr_gp (cache (menv t))" "wrmsr_gp a = wrmsr_gp t"
    "(msr_star a, msr_lstar a, msr_fmask a, msr_kerngs a) =
      (slot_read OFFSET_STAR mem, slot_read OFFSET_LSTAR mem, slot_read OFFSET_FMASK mem, slot_read OFFSET_KERNEL_GSBASE mem)"
proof -
  define t1 where "t1 = t\<lparr>msr_star := slot_read OFFSET_STAR mem, msr_lstar := slot_read OFFSET_LSTAR mem,
      msr_fmask := slot_read OFFSET_FMASK mem, msr_kerngs := slot_read OFFSET_KERNEL_GSBASE mem\<rparr>"
  define t2 where "t2 = vt_write_ip (slot_read OFFSET_RIP mem) (vt_write_flags (slot_read OFFSET_RFLAGS mem)
      (vt_write_general_reg GENERAL_REG_RSP (slot_read OFFSET_RSP mem) t1))"
  define v0 where "v0 = slot_read OFFSET_CR0 mem"
  define v4 where "v4 = slot_read OFFSET_CR4 mem"
  define c0 where "c0 = write_cr0 v0 t2"
  define c3 where "c3 = vt_write_control_reg CONTROL_REG_CR3 (slot_read OFFSET_CR3 mem) c0"
  define c4 where "c4 = vt_write_control_reg CONTROL_REG_CR4 v4 c3"
  have a: "a = asm_vmwrite VMCS_GUEST_DR7 (slot_read OFFSET_DR7 mem) c4"
    unfolding a_def load_control_def Let_def c4_def c3_def c0_def t2_def t1_def v0_def v4_def
      vt_write_control_reg_def control_reg.case ..
  have "vt_ok t1" unfolding t1_def by (subst vt_ok_cong [of _ t]) (simp_all add: asm_vmread_def ok)
  then have ok2: "vt_ok t2" by (simp add: t2_def write_regs_ok)
  then have ok0: "vt_ok c0" by (simp add: c0_def write_cr0_ok)
  then have ok3: "vt_ok c3" by (simp add: c3_def write_control_reg_ok)
  then have ok4: "vt_ok c4" by (simp add: c4_def write_control_reg_ok)
  then show "vt_ok a" by (simp add: a vt_ok_vmwrite)
  have re2: "\<not> re t2" using re by (simp add: t2_def t1_def vt_write_ip_def vt_write_flags_def vt_write_general_reg_def vt_frame)
  have pe0: "bit v0 0" using pe by (simp add: v0_def)
  note k0 = keeps_rest_cr0 [OF pe0 re2, folded c0_def]
  have k3: "keeps_rest c0 c3" by (simp add: c3_def keeps_rest_control)
  have k4: "keeps_rest c3 c4" by (simp add: c4_def keeps_rest_control)
  have k: "keeps_rest t2 c4" using k0(1) k3 k4 by (blast intro: keeps_rest_trans)
  have t2: "re t2 = re t" "sw_enable t2 = sw_enable t" "menv t2 = menv t" "wrmsr_gp t2 = wrmsr_gp t"
    "save_load_efer_enable t2 = save_load_efer_enable t" "msr_efer t2 = msr_efer t"
    by (simp_all add: t2_def t1_def vt_write_ip_def vt_write_flags_def vt_write_general_reg_def vt_frame)
  have r2: "asm_vmread VMCS_GUEST_RSP t2 = slot_read OFFSET_RSP mem" "asm_vmread VMCS_GUEST_RFLAGS t2 = slot_read OFFSET_RFLAGS mem"
    "asm_vmread VMCS_GUEST_RIP t2 = slot_read OFFSET_RIP mem"
    using re by (simp_all add: t2_def t1_def vt_write_ip_def vt_write_flags_def vt_write_general_reg_def vmcs_simps vt_frame vmcs_kept_width)
  show "\<not> re a" "sw_enable a = sw_enable t" "hw_msr_gp (cache (menv a)) = hw_msr_gp (cache (menv t))" "wrmsr_gp a = wrmsr_gp t"
    using re by (simp_all add: a vt_frame keeps_restD(3,4,5,7) [OF k] t2)
  show "(msr_star a, msr_lstar a, msr_fmask a, msr_kerngs a) =
      (slot_read OFFSET_STAR mem, slot_read OFFSET_LSTAR mem, slot_read OFFSET_FMASK mem, slot_read OFFSET_KERNEL_GSBASE mem)"
    by (simp add: a vt_frame keeps_restD(11-14) [OF k])
      (simp add: t2_def t1_def vt_write_ip_def vt_write_flags_def vt_write_general_reg_def vt_frame)
  show "(read_guest_efer a = None) = (read_guest_efer t = None)"
    by (simp add: a read_guest_efer_def vt_read_guest_msr_def vt_frame keeps_restD(9,10) [OF k] t2)
  show "asm_vmread VMCS_GUEST_RSP a = slot_read OFFSET_RSP mem" "asm_vmread VMCS_GUEST_RFLAGS a = slot_read OFFSET_RFLAGS mem"
    "asm_vmread VMCS_GUEST_RIP a = slot_read OFFSET_RIP mem" "asm_vmread VMCS_GUEST_DR7 a = slot_read OFFSET_DR7 mem"
    using r2 by (simp_all add: a vmread_vmwrite keeps_restD(1) [OF k] sys_out vmcs_kept_width widths)
  have pg: "pg c3 = pg c0" "pg c4 = pg c3"
    by (simp_all add: c3_def c4_def vt_write_control_reg_def Let_def vt_write_cr3_def vt_frame)
  then show "pg a = bit (slot_read OFFSET_CR0 mem) 31" using k0(2) by (simp add: a vt_frame v0_def)
  have "vt_read_cr3 c4 = slot_read OFFSET_CR3 mem"
    using write_control_reads(6) [OF ok0] write_control_reads(6) [OF ok3] by (simp add: c3_def c4_def)
  then show "vt_read_cr3 a = slot_read OFFSET_CR3 mem" by (simp add: a read_cr3_vmwrite)
  have cr0: "asm_vmread i c4 = asm_vmread i c0" if "i \<in> {VMCS_CR0_READ_SHADOW, VMCS_GUEST_CR0}" for i
    using that by (auto simp: c3_def c4_def vt_write_control_reg_def Let_def vt_write_cr3_def vmcs_simps)
  show "asm_vmread VMCS_CR0_READ_SHADOW a = slot_read OFFSET_CR0 mem"
    using write_cr0_reads(4) ok2 by (simp add: a vmread_vmwrite cr0 c0_def v0_def vt_ok_def paging_ok_def)
  show "asm_vmread VMCS_GUEST_CR0 a AND NOT VT_CR0_GUESTHOST_MASK =
      (slot_read OFFSET_CR0 mem AND rdmsr MSR_IA32_VMX_CR0_FIXED1 t OR rdmsr MSR_IA32_VMX_CR0_FIXED0 t) AND NOT VT_CR0_GUESTHOST_MASK"
    using write_control_reads(2) [OF ok2, of v0] t2(3)
    by (simp add: a vmread_vmwrite cr0 c0_def v0_def vt_write_control_reg_def)
  show "asm_vmread VMCS_GUEST_CR4 a AND NOT VT_CR4_GUESTHOST_MASK =
      (slot_read OFFSET_CR4 mem AND rdmsr MSR_IA32_VMX_CR4_FIXED1 t OR rdmsr MSR_IA32_VMX_CR4_FIXED0 t) AND NOT VT_CR4_GUESTHOST_MASK"
    using write_control_reads(4) [OF ok3, of v4] keeps_restD(5) [OF keeps_rest_trans [OF k0(1) k3]] t2(3)
    by (simp add: a vmread_vmwrite c4_def v4_def)
qed


text \<open>EFER and the SYSENTER registers.\<close>

definition load_efer_sysenter :: "bytes \<Rightarrow> vcpu \<Rightarrow> vcpu option" where
  "load_efer_sysenter mem s = write_msrs [(MSR_IA32_EFER, slot_read OFFSET_EFER mem),
     (MSR_IA32_SYSENTER_CS, slot_read OFFSET_SYSENTER_CS mem), (MSR_IA32_SYSENTER_ESP, slot_read OFFSET_SYSENTER_ESP mem),
     (MSR_IA32_SYSENTER_EIP, slot_read OFFSET_SYSENTER_EIP mem)] s"

lemma write_msrs_ok: "vt_ok s \<Longrightarrow> write_msrs ws s = Some t \<Longrightarrow> vt_ok t"
  by (induction ws s rule: write_msrs.induct) (auto split: option.splits dest: write_msr_ok)

lemma efer_vmwrite: "i \<noteq> VMCS_GUEST_IA32_EFER \<Longrightarrow> vt_read_efer (asm_vmwrite i v s) = vt_read_efer s"
  by (simp add: vt_read_efer_def read_guest_efer_def vt_read_guest_msr_def vt_frame vmcs_simps)

lemma load_efer_facts:
  assumes ok: "vt_ok a" and e: "read_guest_efer a = Some e" and pg: "pg a"
  shows "\<exists>b t. vt_write_msr MSR_IA32_EFER (slot_read OFFSET_EFER mem) a = Some (b, t) \<and> keeps_rest a t \<and>
      load_efer_sysenter mem a = Some (asm_vmwrite VMCS_GUEST_IA32_SYSENTER_EIP (slot_read OFFSET_SYSENTER_EIP mem)
        (asm_vmwrite VMCS_GUEST_IA32_SYSENTER_ESP (slot_read OFFSET_SYSENTER_ESP mem)
          (asm_vmwrite VMCS_GUEST_IA32_SYSENTER_CS (slot_read OFFSET_SYSENTER_CS mem) t)))
      \<and> vt_ok t \<and> vt_read_efer t = Some (slot_read OFFSET_EFER mem AND NOT EFER_LMA_BIT
          OR (if bit (slot_read OFFSET_EFER mem) 8 then EFER_LMA_BIT else 0))
      \<and> pg t \<and> vt_read_cr3 t = vt_read_cr3 a
      \<and> (\<forall>i\<in>{VMCS_CR0_READ_SHADOW, VMCS_GUEST_CR0, VMCS_GUEST_CR4}. asm_vmread i t = asm_vmread i a)"
proof -
  let ?v = "slot_read OFFSET_EFER mem"
  obtain b t where w: "vt_write_msr MSR_IA32_EFER ?v a = Some (b, t)" using e by (simp add: vt_write_msr_def split_beta Let_def)
  have "lma_ok a" "cr3_ok a" using ok by (simp_all add: vt_ok_def long_ok_iff paging_ok_def)
  then have "vt_read_cr3 t = vt_read_cr3 a" using keeps_rest_efer(5) [OF e w] by blast
  moreover have "vt_ok t" using ok w by (rule write_msr_ok)
  moreover have "load_efer_sysenter mem a = Some (asm_vmwrite VMCS_GUEST_IA32_SYSENTER_EIP (slot_read OFFSET_SYSENTER_EIP mem)
        (asm_vmwrite VMCS_GUEST_IA32_SYSENTER_ESP (slot_read OFFSET_SYSENTER_ESP mem)
          (asm_vmwrite VMCS_GUEST_IA32_SYSENTER_CS (slot_read OFFSET_SYSENTER_CS mem) t)))"
    unfolding load_efer_sysenter_def write_msrs.simps w option.case prod.case by (simp add: vt_write_msr_def)
  ultimately show ?thesis
    using w keeps_rest_efer(1,2,6) [OF e w] pg efer_readback [OF \<open>lma_ok a\<close> w e \<open>vt_ok t\<close> pg] by blast
qed

text \<open>Segments, tables and general registers.\<close>

definition load_segments :: "bytes \<Rightarrow> vcpu \<Rightarrow> vcpu" where
  "load_segments mem s = load_tables mem (asm_vmwrite (VMCS_GUEST_BASE SREG_GS) (slot_read OFFSET_GS_BASE mem)
     (load_sel SREG_GS mem (asm_vmwrite (VMCS_GUEST_BASE SREG_FS) (slot_read OFFSET_FS_BASE mem)
       (fold (\<lambda>r. load_sel r mem) [SREG_CS, SREG_DS, SREG_ES, SREG_FS] s))))"

lemma load_steps:
  "load_guest_state_to_vmcs mem s =
     (case load_efer_sysenter mem (load_control mem s) of None \<Rightarrow> None | Some s \<Rightarrow>
      case write_cached_msrs (load_segments mem s) of None \<Rightarrow> None | Some s \<Rightarrow>
      Some (load_fixes mem s,
            \<lparr>t_sd_base = ucast (slot_read OFFSET_T_SD_BASE mem), r_sd_base = ucast (slot_read OFFSET_R_SD_BASE mem),
             virtio_send_queue = ucast (slot_read OFFSET_VIRTIO_SEND_QUEUE mem),
             virtio_recv_queue = ucast (slot_read OFFSET_VIRTIO_RECV_QUEUE mem)\<rparr>))"
proof -
  have "write_msrs [(MSR_IA32_FS_BASE, v)] u = Some (asm_vmwrite (VMCS_GUEST_BASE SREG_FS) v u)"
    "write_msrs [(MSR_IA32_GS_BASE, v)] u = Some (asm_vmwrite (VMCS_GUEST_BASE SREG_GS) v u)" for v u
    by (simp_all add: vt_write_msr_def)
  then show ?thesis
    unfolding load_guest_state_to_vmcs_def load_efer_sysenter_def load_segments_def
    by (simp only: option.case)
qed

lemma fold_regs:
  "fold (\<lambda>(r, q). vt_write_general_reg r (slot_read q mem)) saved_regs s = s\<lparr>gpr := (gpr s)(
     GENERAL_REG_RAX := slot_read (Long 52) mem, GENERAL_REG_RBX := slot_read (Long 53) mem,
     GENERAL_REG_RCX := slot_read (Long 54) mem, GENERAL_REG_RDX := slot_read (Long 55) mem,
     GENERAL_REG_RDI := slot_read (Long 56) mem, GENERAL_REG_RSI := slot_read (Long 57) mem,
     GENERAL_REG_RBP := slot_read (Long 58) mem, GENERAL_REG_R8 := slot_read (Long 59) mem,
     GENERAL_REG_R9 := slot_read (Long 60) mem, GENERAL_REG_R10 := slot_read (Long 61) mem,
     GENERAL_REG_R11 := slot_read (Long 62) mem, GENERAL_REG_R12 := slot_read (Long 63) mem,
     GENERAL_REG_R13 := slot_read (Long 64) mem, GENERAL_REG_R14 := slot_read (Long 65) mem,
     GENERAL_REG_R15 := slot_read (Long 66) mem)\<rparr>"
  by (simp add: saved_regs_def vt_write_general_reg_def)


abbreviation segment_fields :: "u64 set" where
  "segment_fields \<equiv> range VMCS_GUEST_SEL \<union> {VMCS_GUEST_BASE SREG_FS, VMCS_GUEST_BASE SREG_GS, VMCS_GUEST_GDTR_BASE,
     VMCS_GUEST_GDTR_LIMIT, VMCS_GUEST_IDTR_BASE, VMCS_GUEST_IDTR_LIMIT, VMCS_GUEST_TR_SEL}"

lemma load_segments_flat:
  assumes "\<not> re s"
  shows "load_segments mem s = (let m = asm_vmwrite VMCS_GUEST_TR_SEL (ucast (ucast (slot_read OFFSET_TR_SEL mem) :: u16))
     (asm_vmwrite VMCS_GUEST_IDTR_LIMIT (slot_read OFFSET_IDTR_LIMIT mem) (asm_vmwrite VMCS_GUEST_IDTR_BASE (slot_read OFFSET_IDTR_BASE mem)
     (asm_vmwrite VMCS_GUEST_GDTR_LIMIT (slot_read OFFSET_GDTR_LIMIT mem) (asm_vmwrite VMCS_GUEST_GDTR_BASE (slot_read OFFSET_GDTR_BASE mem)
     (load_sel SREG_SS mem (asm_vmwrite (VMCS_GUEST_BASE SREG_GS) (slot_read OFFSET_GS_BASE mem)
     (load_sel SREG_GS mem (asm_vmwrite (VMCS_GUEST_BASE SREG_FS) (slot_read OFFSET_FS_BASE mem)
     (load_sel SREG_FS mem (load_sel SREG_ES mem (load_sel SREG_DS mem (load_sel SREG_CS mem s))))))))))))
     in (fold (\<lambda>(r, q). vt_write_general_reg r (slot_read q mem)) saved_regs m)\<lparr>cr2 := slot_read OFFSET_CR2 mem\<rparr>)"
  using assms by (simp add: load_segments_def load_tables_def load_sel_def vt_write_gdtr_def vt_write_idtr_def vt_frame Let_def
      vt_write_control_reg_def)

lemma load_segments_facts:
  fixes mem s
  assumes "\<not> re s"
  defines "w \<equiv> load_segments mem s"
  shows "vt_ok w = vt_ok s" "keeps_machine w = keeps_machine s" "keeps_paging w = keeps_paging s"
    "(re w, pg w, lme w, sw_enable w) = (re s, pg s, lme s, sw_enable s)"
    "i \<notin> segment_fields \<Longrightarrow> asm_vmread i w = asm_vmread i s"
    "asm_vmread (VMCS_GUEST_SEL r) w = ucast (ucast (slot_read (offset_sel r) mem) :: u16)"
    "asm_vmread (VMCS_GUEST_BASE SREG_FS) w = slot_read OFFSET_FS_BASE mem"
    "asm_vmread (VMCS_GUEST_BASE SREG_GS) w = slot_read OFFSET_GS_BASE mem"
    "asm_vmread VMCS_GUEST_GDTR_BASE w = slot_read OFFSET_GDTR_BASE mem"
    "asm_vmread VMCS_GUEST_GDTR_LIMIT w = vmcs_kept VMCS_GUEST_GDTR_LIMIT (slot_read OFFSET_GDTR_LIMIT mem)"
    "asm_vmread VMCS_GUEST_IDTR_BASE w = slot_read OFFSET_IDTR_BASE mem"
    "asm_vmread VMCS_GUEST_IDTR_LIMIT w = vmcs_kept VMCS_GUEST_IDTR_LIMIT (slot_read OFFSET_IDTR_LIMIT mem)"
    "asm_vmread VMCS_GUEST_TR_SEL w = ucast (ucast (slot_read OFFSET_TR_SEL mem) :: u16)"
    "cr2 w = slot_read OFFSET_CR2 mem" "gpr w = gpr (fold (\<lambda>(r, q). vt_write_general_reg r (slot_read q mem)) saved_regs s)"
proof -
  have k16: "vmcs_width j = 16 \<Longrightarrow> vmcs_kept j (ucast (x :: u16)) = ucast x" for j x
    by (rule bit_word_eqI) (auto simp: vmcs_kept_def bit_simps dest: bit_imp_le_length)
  note flat = w_def load_segments_flat [OF assms(1)] Let_def fold_regs load_sel_def
  have c: "vt_ok (u\<lparr>gpr := x\<rparr>) = vt_ok u" "vt_ok (u\<lparr>cr2 := y\<rparr>) = vt_ok u" for u x y
    by (rule vt_ok_cong; simp add: asm_vmread_def)+
  show "vt_ok w = vt_ok s" by (simp add: flat c vt_ok_vmwrite)
  show "keeps_machine w = keeps_machine s" "keeps_paging w = keeps_paging s"
    "(re w, pg w, lme w, sw_enable w) = (re s, pg s, lme s, sw_enable s)"
    by (simp_all add: flat vt_frame)
  show "i \<notin> segment_fields \<Longrightarrow> asm_vmread i w = asm_vmread i s" by (auto simp: flat vmcs_simps sreg_ranges)
  show "asm_vmread (VMCS_GUEST_SEL r) w = ucast (ucast (slot_read (offset_sel r) mem) :: u16)"
    by (cases r; simp add: flat vmcs_simps k16 vmcs_width_def)
  show "asm_vmread (VMCS_GUEST_BASE SREG_FS) w = slot_read OFFSET_FS_BASE mem"
    "asm_vmread (VMCS_GUEST_BASE SREG_GS) w = slot_read OFFSET_GS_BASE mem"
    "asm_vmread VMCS_GUEST_GDTR_BASE w = slot_read OFFSET_GDTR_BASE mem"
    "asm_vmread VMCS_GUEST_IDTR_BASE w = slot_read OFFSET_IDTR_BASE mem"
    by (simp_all add: flat vmcs_simps vmcs_kept_width vmcs_width_def)
  show "asm_vmread VMCS_GUEST_GDTR_LIMIT w = vmcs_kept VMCS_GUEST_GDTR_LIMIT (slot_read OFFSET_GDTR_LIMIT mem)"
    "asm_vmread VMCS_GUEST_IDTR_LIMIT w = vmcs_kept VMCS_GUEST_IDTR_LIMIT (slot_read OFFSET_IDTR_LIMIT mem)"
    by (simp_all add: flat vmcs_simps)
  show "asm_vmread VMCS_GUEST_TR_SEL w = ucast (ucast (slot_read OFFSET_TR_SEL mem) :: u16)"
    by (simp add: flat vmcs_simps k16)
  show "cr2 w = slot_read OFFSET_CR2 mem" "gpr w = gpr (fold (\<lambda>(r, q). vt_write_general_reg r (slot_read q mem)) saved_regs s)"
    by (simp_all add: flat vt_frame)
qed


text \<open>The end: what the code adds and the translation caches.\<close>

definition load_end :: "(vcpu \<Rightarrow> bool) \<Rightarrow> bytes \<Rightarrow> vcpu \<Rightarrow> vcpu" where
  "load_end f mem s = vt_paging_flush_guest_tlb (vt_paging_tlbflush f (vt_paging_clear_all (load_fixes mem s)))"

lemma read_cr3_clear: "vt_ok s \<Longrightarrow> vt_read_cr3 (vt_paging_clear_all s) = vt_read_cr3 s"
proof -
  assume "vt_ok s"
  then have "cr3exit_off s \<Longrightarrow> ept_enabled s" by (simp add: vt_ok_def paging_ok_def)
  moreover have "ept_enabled (if ept s \<noteq> None then ept_clear_all s else s) = ept_enabled s"
    by (rule ept_enabled_cong) (simp_all add: vt_frame)
  ultimately show ?thesis
    by (simp add: vt_read_cr3_def vt_paging_clear_all_def Let_def vt_frame vmcs_simps)
qed

lemma load_end_facts:
  fixes f mem s
  defines "w \<equiv> load_end f mem s"
  assumes ok: "vt_ok s"
  shows "vt_ok w" "keeps_rest (load_fixes mem s) w"
    "(cr2 w, lme w, lma w, msr_release w) = (cr2 s, lme s, lma s, msr_release s)" "vt_read_cr3 w = vt_read_cr3 s"
    "vt_read_efer w = vt_read_efer s"
    "asm_vmread VMCS_CR4_READ_SHADOW w = slot_read OFFSET_CR4 mem AND 0xFFFFFFFFFFFFDFFF"
    "asm_vmread (VMCS_GUEST_BASE SREG_FS) w = slot_read OFFSET_FS_BASE mem"
    "asm_vmread (VMCS_GUEST_BASE SREG_GS) w = slot_read OFFSET_GS_BASE mem"
    "i \<in> {VMCS_CR0_READ_SHADOW, VMCS_GUEST_CR0, VMCS_GUEST_CR4} \<Longrightarrow> asm_vmread i w = asm_vmread i s"
    "i \<notin> sys_fields \<union> {VMCS_GUEST_ACCESS_RIGHTS SREG_CS, VMCS_GUEST_ACCESS_RIGHTS SREG_SS, VMCS_GUEST_BASE SREG_FS,
       VMCS_GUEST_BASE SREG_GS} \<Longrightarrow> asm_vmread i w = asm_vmread i s"
proof -
  let ?x = "load_fixes mem s"
  have x: "vt_ok ?x" using ok by (simp add: load_fixes_def vt_ok_vmwrite)
  show "vt_ok w" using paging_clear_ok [OF x] by (simp add: w_def load_end_def vt_paging_tlbflush_def)
  have t: "keeps_rest u (vt_paging_tlbflush f u)" for u
    by (simp add: vt_paging_tlbflush_def keeps_rest_ops(4)) (simp add: keeps_rest_def)
  show kr: "keeps_rest ?x w"
    unfolding w_def load_end_def
    by (rule keeps_rest_trans [OF _ keeps_rest_ops(4)], rule keeps_rest_trans [OF _ t], rule keeps_rest_ops(8))
  have v: "vt_read_cr3 (vt_paging_flush_guest_tlb u) = vt_read_cr3 u" "vt_read_efer (vt_paging_flush_guest_tlb u) = vt_read_efer u"
    "vt_read_efer (vt_paging_clear_all u) = vt_read_efer u" for u
    by (simp_all add: vt_read_cr3_def vt_read_efer_def read_guest_efer_def vt_read_guest_msr_def vt_frame vmcs_simps)
  show "(cr2 w, lme w, lma w, msr_release w) = (cr2 s, lme s, lma s, msr_release s)"
    by (simp add: w_def load_end_def load_fixes_def vt_paging_tlbflush_def vt_frame)
  show "vt_read_cr3 w = vt_read_cr3 s"
    using read_cr3_clear [OF x] by (simp add: w_def load_end_def vt_paging_tlbflush_def v)
      (simp add: load_fixes_def read_cr3_vmwrite)
  show "vt_read_efer w = vt_read_efer s"
    by (simp add: w_def load_end_def vt_paging_tlbflush_def v) (simp add: load_fixes_def efer_vmwrite)
  have r: "i \<noteq> VMCS_GUEST_CR3 \<Longrightarrow> asm_vmread i w = asm_vmread i ?x" for i
    by (simp add: w_def load_end_def vt_paging_tlbflush_def vmcs_simps)
  show "asm_vmread VMCS_CR4_READ_SHADOW w = slot_read OFFSET_CR4 mem AND 0xFFFFFFFFFFFFDFFF"
    "asm_vmread (VMCS_GUEST_BASE SREG_FS) w = slot_read OFFSET_FS_BASE mem"
    "asm_vmread (VMCS_GUEST_BASE SREG_GS) w = slot_read OFFSET_GS_BASE mem"
    "i \<in> {VMCS_CR0_READ_SHADOW, VMCS_GUEST_CR0, VMCS_GUEST_CR4} \<Longrightarrow> asm_vmread i w = asm_vmread i s"
    by (auto simp: r load_fixes_def vmcs_simps vmcs_kept_width vmcs_width_def)
  show "asm_vmread i w = asm_vmread i s" if "i \<notin> sys_fields \<union> {VMCS_GUEST_ACCESS_RIGHTS SREG_CS,
      VMCS_GUEST_ACCESS_RIGHTS SREG_SS, VMCS_GUEST_BASE SREG_FS, VMCS_GUEST_BASE SREG_GS}"
    using that by (simp add: r load_fixes_def vmcs_simps sys_fields_def)
qed


section \<open>The two virtual CPUs\<close>

text \<open>
  A guest in 64-bit mode on a source with extended page tables, whose EFER is the constant that is
  sent, whose system call MSRs are in the cached copies, and whose owned bits of CR0 and CR4 are
  what it reads (VMXE apart).
\<close>

definition migratable :: "vcpu \<Rightarrow> bool" where
  "migratable s =
     (vt_ok s \<and> ept_enabled s \<and> \<not> re s \<and> sw_enable s = 0 \<and> pg s \<and> vt_read_efer s = Some 0xd01
      \<and> asm_vmread VMCS_GUEST_CR0 s AND VT_CR0_GUESTHOST_MASK = asm_vmread VMCS_CR0_READ_SHADOW s AND VT_CR0_GUESTHOST_MASK
      \<and> (asm_vmread VMCS_GUEST_CR4 s AND 0xFFFFFFFFFFFFDFFF) AND VT_CR4_GUESTHOST_MASK
          = asm_vmread VMCS_CR4_READ_SHADOW s AND VT_CR4_GUESTHOST_MASK
      \<and> asm_vmread VMCS_GUEST_GDTR_LIMIT s \<le> 0xFFFF \<and> asm_vmread VMCS_GUEST_IDTR_LIMIT s \<le> 0xFFFF
      \<and> asm_vmread VMCS_GUEST_IA32_SYSENTER_CS s \<le> 0xFFFFFFFF
      \<and> map (\<lambda>i. guest_msr i s) [MSR_IA32_STAR, MSR_IA32_LSTAR, MSR_IA32_FMASK, MSR_IA32_KERNEL_GS_BASE]
          = map Some [msr_star s, msr_lstar s, msr_fmask s, msr_kerngs s])"

text \<open>
  A virtual CPU in protected mode, on a processor that needs no other bits of CR0 and CR4 and accepts the
  system call MSRs.
\<close>

definition receivable :: "vcpu \<Rightarrow> vcpu \<Rightarrow> bool" where
  "receivable s t =
     (vt_ok t \<and> \<not> re t \<and> sw_enable t = 0 \<and> read_guest_efer t \<noteq> None
      \<and> (asm_vmread VMCS_GUEST_CR0 s AND rdmsr MSR_IA32_VMX_CR0_FIXED1 t OR rdmsr MSR_IA32_VMX_CR0_FIXED0 t)
          AND NOT VT_CR0_GUESTHOST_MASK = asm_vmread VMCS_GUEST_CR0 s AND NOT VT_CR0_GUESTHOST_MASK
      \<and> (asm_vmread VMCS_GUEST_CR4 s AND rdmsr MSR_IA32_VMX_CR4_FIXED1 t OR rdmsr MSR_IA32_VMX_CR4_FIXED0 t)
          AND NOT VT_CR4_GUESTHOST_MASK = asm_vmread VMCS_GUEST_CR4 s AND NOT VT_CR4_GUESTHOST_MASK
      \<and> accepts t MSR_IA32_STAR (msr_star s) \<and> accepts t MSR_IA32_LSTAR (msr_lstar s)
      \<and> accepts t MSR_IA32_FMASK (msr_fmask s) \<and> accepts t MSR_IA32_KERNEL_GS_BASE (msr_kerngs s))"

lemma sys_out_more:
  "VMCS_GUEST_SEL r \<notin> sys_fields" "VMCS_GUEST_BASE r \<notin> sys_fields" "VMCS_GUEST_GDTR_BASE \<notin> sys_fields"
  "VMCS_GUEST_GDTR_LIMIT \<notin> sys_fields" "VMCS_GUEST_IDTR_BASE \<notin> sys_fields" "VMCS_GUEST_IDTR_LIMIT \<notin> sys_fields"
  "VMCS_GUEST_TR_SEL \<notin> sys_fields" "VMCS_GUEST_IA32_SYSENTER_CS \<notin> sys_fields"
  "VMCS_GUEST_IA32_SYSENTER_ESP \<notin> sys_fields" "VMCS_GUEST_IA32_SYSENTER_EIP \<notin> sys_fields"
  "VMCS_CR4_READ_SHADOW \<in> sys_fields"
  by (cases r; simp add: sys_fields_def)+

lemma syscalls_kept:
  "vt_ok ((set_hw m s)\<lparr>msr_release := x\<rparr>) = vt_ok s" "asm_vmread i ((set_hw m s)\<lparr>msr_release := x\<rparr>) = asm_vmread i s"
  "vt_read_cr3 ((set_hw m s)\<lparr>msr_release := x\<rparr>) = vt_read_cr3 s" "vt_read_efer ((set_hw m s)\<lparr>msr_release := x\<rparr>) = vt_read_efer s"
proof -
  show r: "asm_vmread i ((set_hw m s)\<lparr>msr_release := x\<rparr>) = asm_vmread i s" for i by (simp add: asm_vmread_def)
  show "vt_ok ((set_hw m s)\<lparr>msr_release := x\<rparr>) = vt_ok s" by (rule vt_ok_cong) (simp_all add: r)
  show "vt_read_cr3 ((set_hw m s)\<lparr>msr_release := x\<rparr>) = vt_read_cr3 s" by (simp add: vt_read_cr3_def r)
  show "vt_read_efer ((set_hw m s)\<lparr>msr_release := x\<rparr>) = vt_read_efer s"
    by (simp add: vt_read_efer_def read_guest_efer_def vt_read_guest_msr_def r)
qed


section \<open>The whole load\<close>

text \<open>What the virtual CPU holds after the load, in terms of the page.\<close>

definition loaded :: "bytes \<Rightarrow> vcpu \<Rightarrow> vcpu \<Rightarrow> bool" where
  "loaded mem t u =
     (\<not> re u \<and> sw_enable u = sw_enable t \<and> gpr u = gpr (fold (\<lambda>(r, q). vt_write_general_reg r (slot_read q mem)) saved_regs u)
      \<and> asm_vmread VMCS_GUEST_RSP u = slot_read OFFSET_RSP mem \<and> asm_vmread VMCS_GUEST_RFLAGS u = slot_read OFFSET_RFLAGS mem
      \<and> asm_vmread VMCS_GUEST_RIP u = slot_read OFFSET_RIP mem \<and> asm_vmread VMCS_GUEST_DR7 u = slot_read OFFSET_DR7 mem
      \<and> vt_read_cr3 u = slot_read OFFSET_CR3 mem \<and> cr2 u = slot_read OFFSET_CR2 mem
      \<and> asm_vmread VMCS_CR0_READ_SHADOW u = slot_read OFFSET_CR0 mem
      \<and> asm_vmread VMCS_CR4_READ_SHADOW u = slot_read OFFSET_CR4 mem AND 0xFFFFFFFFFFFFDFFF
      \<and> asm_vmread VMCS_GUEST_CR0 u AND NOT VT_CR0_GUESTHOST_MASK =
          (slot_read OFFSET_CR0 mem AND rdmsr MSR_IA32_VMX_CR0_FIXED1 t OR rdmsr MSR_IA32_VMX_CR0_FIXED0 t) AND NOT VT_CR0_GUESTHOST_MASK
      \<and> asm_vmread VMCS_GUEST_CR4 u AND NOT VT_CR4_GUESTHOST_MASK =
          (slot_read OFFSET_CR4 mem AND rdmsr MSR_IA32_VMX_CR4_FIXED1 t OR rdmsr MSR_IA32_VMX_CR4_FIXED0 t) AND NOT VT_CR4_GUESTHOST_MASK
      \<and> vt_read_efer u = Some (slot_read OFFSET_EFER mem AND NOT EFER_LMA_BIT
          OR (if bit (slot_read OFFSET_EFER mem) 8 then EFER_LMA_BIT else 0)))"

definition loaded_segments :: "bytes \<Rightarrow> vcpu \<Rightarrow> bool" where
  "loaded_segments mem u =
     ((\<forall>r. asm_vmread (VMCS_GUEST_SEL r) u = ucast (ucast (slot_read (offset_sel r) mem) :: u16))
      \<and> asm_vmread (VMCS_GUEST_BASE SREG_FS) u = slot_read OFFSET_FS_BASE mem
      \<and> asm_vmread (VMCS_GUEST_BASE SREG_GS) u = slot_read OFFSET_GS_BASE mem
      \<and> asm_vmread VMCS_GUEST_GDTR_BASE u = slot_read OFFSET_GDTR_BASE mem
      \<and> asm_vmread VMCS_GUEST_GDTR_LIMIT u = vmcs_kept VMCS_GUEST_GDTR_LIMIT (slot_read OFFSET_GDTR_LIMIT mem)
      \<and> asm_vmread VMCS_GUEST_IDTR_BASE u = slot_read OFFSET_IDTR_BASE mem
      \<and> asm_vmread VMCS_GUEST_IDTR_LIMIT u = vmcs_kept VMCS_GUEST_IDTR_LIMIT (slot_read OFFSET_IDTR_LIMIT mem)
      \<and> asm_vmread VMCS_GUEST_TR_SEL u = ucast (ucast (slot_read OFFSET_TR_SEL mem) :: u16)
      \<and> asm_vmread VMCS_GUEST_IA32_SYSENTER_CS u = vmcs_kept VMCS_GUEST_IA32_SYSENTER_CS (slot_read OFFSET_SYSENTER_CS mem)
      \<and> asm_vmread VMCS_GUEST_IA32_SYSENTER_ESP u = slot_read OFFSET_SYSENTER_ESP mem
      \<and> asm_vmread VMCS_GUEST_IA32_SYSENTER_EIP u = slot_read OFFSET_SYSENTER_EIP mem)"

lemma loaded_parts:
  fixes mem t c m f
  defines "a2 \<equiv> asm_vmwrite VMCS_GUEST_IA32_SYSENTER_EIP (slot_read OFFSET_SYSENTER_EIP mem)
        (asm_vmwrite VMCS_GUEST_IA32_SYSENTER_ESP (slot_read OFFSET_SYSENTER_ESP mem)
          (asm_vmwrite VMCS_GUEST_IA32_SYSENTER_CS (slot_read OFFSET_SYSENTER_CS mem) c))"
  defines "x \<equiv> (set_hw m (load_segments mem a2))\<lparr>msr_release := Vcpu_owner\<rparr>"
  defines "u \<equiv> load_end f mem x"
  assumes ok: "vt_ok c" and re: "\<not> re c"
  shows "vt_ok u" "loaded_segments mem u" "\<not> re u" "sw_enable u = sw_enable c" "cr2 u = slot_read OFFSET_CR2 mem"
    "vt_read_cr3 u = vt_read_cr3 c" "vt_read_efer u = vt_read_efer c"
    "asm_vmread VMCS_CR4_READ_SHADOW u = slot_read OFFSET_CR4 mem AND 0xFFFFFFFFFFFFDFFF"
    "i \<in> {VMCS_CR0_READ_SHADOW, VMCS_GUEST_CR0, VMCS_GUEST_CR4, VMCS_GUEST_RSP, VMCS_GUEST_RFLAGS, VMCS_GUEST_RIP, VMCS_GUEST_DR7}
       \<Longrightarrow> asm_vmread i u = asm_vmread i c"
    "gpr u = gpr (fold (\<lambda>(r, q). vt_write_general_reg r (slot_read q mem)) saved_regs u)"
    "msr_release u = Vcpu_owner" "hw_msr (cache (menv u)) = m" "hw_msr_gp (cache (menv u)) = hw_msr_gp (cache (menv c))"
proof -
  define w where "w = load_segments mem a2"
  have re2: "\<not> re a2" using re by (simp add: a2_def vt_frame)
  note seg = load_segments_facts [OF re2, where mem = mem, folded w_def]
  have okx: "vt_ok x" using seg(1) ok by (simp add: x_def syscalls_kept flip: w_def) (simp add: a2_def vt_ok_vmwrite)
  note e = load_end_facts [OF okx, where f = f and mem = mem, folded u_def]
  show "vt_ok u" by (rule e(1))
  note kr = keeps_restD [OF e(2)]
  have x: "asm_vmread j x = asm_vmread j w" for j unfolding x_def w_def by (rule syscalls_kept)
  have far: "asm_vmread j u = asm_vmread j w"
    if "j \<notin> sys_fields \<union> {VMCS_GUEST_ACCESS_RIGHTS SREG_CS, VMCS_GUEST_ACCESS_RIGHTS SREG_SS, VMCS_GUEST_BASE SREG_FS, VMCS_GUEST_BASE SREG_GS}"
    for j using e(10) [OF that] by (simp add: x)
  have far2: "asm_vmread j u = asm_vmread j a2" if "j \<in> {VMCS_GUEST_RSP, VMCS_GUEST_RFLAGS, VMCS_GUEST_RIP, VMCS_GUEST_DR7,
      VMCS_GUEST_IA32_SYSENTER_CS, VMCS_GUEST_IA32_SYSENTER_ESP, VMCS_GUEST_IA32_SYSENTER_EIP}" for j
    using that far [of j] seg(5) [of j] by (auto simp: sys_out sys_out_more sreg_ranges)
  have sel: "asm_vmread (VMCS_GUEST_SEL r) u = asm_vmread (VMCS_GUEST_SEL r) w" for r
    using far [of "VMCS_GUEST_SEL r"] by (cases r) (simp_all add: sys_fields_def)
  have sys: "asm_vmread VMCS_GUEST_IA32_SYSENTER_CS u = vmcs_kept VMCS_GUEST_IA32_SYSENTER_CS (slot_read OFFSET_SYSENTER_CS mem)"
    "asm_vmread VMCS_GUEST_IA32_SYSENTER_ESP u = slot_read OFFSET_SYSENTER_ESP mem"
    "asm_vmread VMCS_GUEST_IA32_SYSENTER_EIP u = slot_read OFFSET_SYSENTER_EIP mem"
    using far2 by (simp_all add: a2_def vmread_vmwrite vmcs_kept_width widths)
  show "loaded_segments mem u"
    unfolding loaded_segments_def sys sel
    using e(7,8) seg(6,9-13) by (simp add: far sys_out_more)
  have f: "(re x, sw_enable x, menv x, gpr x, cr2 x, msr_release x) =
      (re w, sw_enable w, menv (set_hw m w), gpr w, cr2 w, Vcpu_owner)" by (simp add: x_def w_def)
  have lf: "(re (load_fixes mem x), sw_enable (load_fixes mem x), menv (load_fixes mem x), gpr (load_fixes mem x)) =
      (re x, sw_enable x, menv x, gpr x)" by (simp add: load_fixes_def vt_frame)
  show "\<not> re u" "sw_enable u = sw_enable c" using kr(3,4) lf f seg(4) re by (simp_all add: a2_def vt_frame)
  show "cr2 u = slot_read OFFSET_CR2 mem" "msr_release u = Vcpu_owner" using e(3) f seg(14) by simp_all
  show "hw_msr (cache (menv u)) = m" "hw_msr_gp (cache (menv u)) = hw_msr_gp (cache (menv c))"
    using kr(5) lf f seg(3) by (simp_all add: a2_def vt_frame)
  have "gpr u = gpr w" using kr(2) lf f by simp
  then show "gpr u = gpr (fold (\<lambda>(r, q). vt_write_general_reg r (slot_read q mem)) saved_regs u)"
    unfolding seg(15) fold_regs by (simp add: fun_eq_iff)
  have "vt_read_cr3 w = vt_read_cr3 a2" using seg(3) seg(5) [of VMCS_GUEST_CR3] by (simp add: vt_read_cr3_def sreg_ranges)
  then show "vt_read_cr3 u = vt_read_cr3 c" using e(4) by (simp add: x_def syscalls_kept flip: w_def) (simp add: a2_def read_cr3_vmwrite)
  have "vt_read_efer w = vt_read_efer a2"
    using seg(2-4) seg(5) [of VMCS_GUEST_IA32_EFER]
    by (simp add: vt_read_efer_def read_guest_efer_def vt_read_guest_msr_def sreg_ranges)
  then show "vt_read_efer u = vt_read_efer c" using e(5) by (simp add: x_def syscalls_kept flip: w_def) (simp add: a2_def efer_vmwrite)
  show "asm_vmread VMCS_CR4_READ_SHADOW u = slot_read OFFSET_CR4 mem AND 0xFFFFFFFFFFFFDFFF" by (rule e(6))
  show "asm_vmread i u = asm_vmread i c"
    if "i \<in> {VMCS_CR0_READ_SHADOW, VMCS_GUEST_CR0, VMCS_GUEST_CR4, VMCS_GUEST_RSP, VMCS_GUEST_RFLAGS, VMCS_GUEST_RIP, VMCS_GUEST_DR7}"
    using that e(9) [of i] seg(5) [of i] far2 [of i] by (auto simp: x a2_def vmread_vmwrite sreg_ranges)
qed


abbreviation loaded_syscalls :: "bytes \<Rightarrow> (u64 \<Rightarrow> u64) \<Rightarrow> u64 \<Rightarrow> u64" where
  "loaded_syscalls mem m \<equiv> m(0xC0000081 := slot_read OFFSET_STAR mem, 0xC0000082 := slot_read OFFSET_LSTAR mem,
     0xC0000084 := slot_read OFFSET_FMASK mem, 0xC0000102 := slot_read OFFSET_KERNEL_GSBASE mem)"

lemma postcopy_loads:
  assumes t: "vt_ok t" "\<not> re t" "read_guest_efer t \<noteq> None"
    and cr0: "bit (slot_read OFFSET_CR0 mem) 0" "bit (slot_read OFFSET_CR0 mem) 31"
    and acc: "accepts t MSR_IA32_STAR (slot_read OFFSET_STAR mem)" "accepts t MSR_IA32_LSTAR (slot_read OFFSET_LSTAR mem)"
      "accepts t MSR_IA32_FMASK (slot_read OFFSET_FMASK mem)" "accepts t MSR_IA32_KERNEL_GS_BASE (slot_read OFFSET_KERNEL_GSBASE mem)"
  shows "\<exists>u m. postcopy_migration_ready f mem t = Some (u,
         \<lparr>t_sd_base = ucast (slot_read OFFSET_T_SD_BASE mem), r_sd_base = ucast (slot_read OFFSET_R_SD_BASE mem),
          virtio_send_queue = ucast (slot_read OFFSET_VIRTIO_SEND_QUEUE mem),
          virtio_recv_queue = ucast (slot_read OFFSET_VIRTIO_RECV_QUEUE mem)\<rparr>, True)
       \<and> vt_ok u \<and> loaded mem t u \<and> loaded_segments mem u \<and> msr_release u = Vcpu_owner
       \<and> hw_msr (cache (menv u)) = loaded_syscalls mem m \<and> hw_msr_gp (cache (menv u)) = hw_msr_gp (cache (menv t))"
proof -
  note a = load_control_facts [OF t(1,2) cr0(1)]
  obtain e where e: "read_guest_efer (load_control mem t) = Some e" using a(13) t(3) by auto
  obtain c where c: "keeps_rest (load_control mem t) c" "vt_ok c" "vt_read_cr3 c = vt_read_cr3 (load_control mem t)"
      "load_efer_sysenter mem (load_control mem t) = Some (asm_vmwrite VMCS_GUEST_IA32_SYSENTER_EIP (slot_read OFFSET_SYSENTER_EIP mem)
        (asm_vmwrite VMCS_GUEST_IA32_SYSENTER_ESP (slot_read OFFSET_SYSENTER_ESP mem)
          (asm_vmwrite VMCS_GUEST_IA32_SYSENTER_CS (slot_read OFFSET_SYSENTER_CS mem) c)))"
      "vt_read_efer c = Some (slot_read OFFSET_EFER mem AND NOT EFER_LMA_BIT
          OR (if bit (slot_read OFFSET_EFER mem) 8 then EFER_LMA_BIT else 0))"
      "\<forall>i\<in>{VMCS_CR0_READ_SHADOW, VMCS_GUEST_CR0, VMCS_GUEST_CR4}. asm_vmread i c = asm_vmread i (load_control mem t)"
    using load_efer_facts [OF a(1) e] a(4) cr0(2) by blast
  define w where "w = load_segments mem (asm_vmwrite VMCS_GUEST_IA32_SYSENTER_EIP (slot_read OFFSET_SYSENTER_EIP mem)
        (asm_vmwrite VMCS_GUEST_IA32_SYSENTER_ESP (slot_read OFFSET_SYSENTER_ESP mem)
          (asm_vmwrite VMCS_GUEST_IA32_SYSENTER_CS (slot_read OFFSET_SYSENTER_CS mem) c)))"
  note kr = keeps_restD [OF c(1)]
  have re: "\<not> re c" using kr(3) a(2) by simp
  have aw: "accepts w = accepts t"
    using load_segments_facts(2,3) re kr(5,7) a(14,15) by (simp add: w_def accepts_def fun_eq_iff vt_frame)
  have cw: "msr_star w = slot_read OFFSET_STAR mem" "msr_lstar w = slot_read OFFSET_LSTAR mem"
    "msr_fmask w = slot_read OFFSET_FMASK mem" "msr_kerngs w = slot_read OFFSET_KERNEL_GSBASE mem"
    using load_segments_facts(2) re kr(11-14) a(16) by (simp_all add: w_def vt_frame)
  obtain m where m: "write_cached_msrs w = Some ((set_hw (loaded_syscalls mem m) w)\<lparr>msr_release := Vcpu_owner\<rparr>)"
    using write_syscalls [OF acc [folded aw]] unfolding write_cached_msrs_def cw by blast
  define u where "u = load_end f mem ((set_hw (loaded_syscalls mem m) w)\<lparr>msr_release := Vcpu_owner\<rparr>)"
  note p = loaded_parts [OF c(2) re, where mem = mem and m = "loaded_syscalls mem m" and f = f, folded w_def, folded u_def]
  have "loaded mem t u"
    unfolding loaded_def
    using p c(3,5,6) a(3,5-12) kr(1,4) by (simp add: sys_out)
  moreover have "postcopy_migration_ready f mem t = Some (u,
         \<lparr>t_sd_base = ucast (slot_read OFFSET_T_SD_BASE mem), r_sd_base = ucast (slot_read OFFSET_R_SD_BASE mem),
          virtio_send_queue = ucast (slot_read OFFSET_VIRTIO_SEND_QUEUE mem),
          virtio_recv_queue = ucast (slot_read OFFSET_VIRTIO_RECV_QUEUE mem)\<rparr>, True)"
    unfolding postcopy_migration_ready_def load_steps c(4) option.case w_def [symmetric] m
    by (simp add: u_def load_end_def Let_def)
  ultimately show ?thesis
    using p(1,2,11,12,13) kr(5) a(14) by auto
qed


section \<open>The guest's view\<close>

lemma saved_regs_view:
  assumes "gpr u = gpr (fold (\<lambda>(r, q). vt_write_general_reg r (slot_read q (save_guest_cpu_state d s p))) saved_regs u)"
    "asm_vmread VMCS_GUEST_RSP u = vt_read_general_reg GENERAL_REG_RSP s"
  shows "vt_read_general_reg r u = vt_read_general_reg r s"
proof (cases "r = GENERAL_REG_RSP")
  case True
  then show ?thesis using assms(2) by (simp add: vt_read_general_reg_def)
next
  case False
  have "vt_read_general_reg r u = gpr (fold (\<lambda>(r, q). vt_write_general_reg r (slot_read q (save_guest_cpu_state d s p))) saved_regs u) r"
    using False assms(1) by (simp add: vt_read_general_reg_def)
  also have "\<dots> = vt_read_general_reg r s"
    unfolding fold_regs saved_general using False by (cases r) simp_all
  finally show ?thesis .
qed

lemma guest_cr_bits:
  assumes "migratable s"
  shows "bit (asm_vmread VMCS_GUEST_CR0 s) 0" "bit (asm_vmread VMCS_GUEST_CR0 s) 31"
proof -
  let ?c = "asm_vmread VMCS_GUEST_CR0 s" and ?h = "asm_vmread VMCS_CR0_READ_SHADOW s"
  have "?c AND VT_CR0_GUESTHOST_MASK = ?h AND VT_CR0_GUESTHOST_MASK" "bit ?h 0" "bit ?h 31"
    using assms by (auto simp: migratable_def vt_ok_def mode_ok_def)
  then have "bit (?c AND VT_CR0_GUESTHOST_MASK) n = bit (?h AND VT_CR0_GUESTHOST_MASK) n" for n by simp
  from this [of 0] this [of 31] \<open>bit ?h 0\<close> \<open>bit ?h 31\<close> show "bit ?c 0" "bit ?c 31"
    by (simp_all add: bit_and_iff VT_CR0_GUESTHOST_MASK_def bit_simps)
qed

lemma source_cr3: "migratable s \<Longrightarrow> asm_vmread VMCS_GUEST_CR3 s = vt_read_cr3 s"
  by (simp add: migratable_def vt_ok_def root_ok_def)

lemma ucast_32_64: "ucast (ucast (x :: u32) :: u64) = x"
  by (rule bit_word_eqI) (auto simp: bit_simps)

lemma take_small: "(x :: u64) \<le> c \<Longrightarrow> unat c < 2 ^ n \<Longrightarrow> take_bit n x = x"
  by (rule word_unat_eq_iff [THEN iffD2]) (simp add: unat_take_bit word_le_nat_alt)

lemma small_kept: "(x :: u64) \<le> c \<Longrightarrow> unat c < 2 ^ vmcs_width i \<Longrightarrow> vmcs_kept i x = x"
  by (simp add: vmcs_kept_def take_small)

lemma limit_kept:
  assumes "(x :: u64) \<le> 0xFFFF" "vmcs_width i = 32"
  shows "vmcs_kept i (x AND 0xFFFF) = x"
proof -
  have "x AND 0xFFFF = take_bit 16 x" by (simp add: take_bit_eq_mask mask_eq_exp_minus_1)
  moreover have "take_bit 16 x = x" using assms(1) by (rule take_small) simp
  moreover have "vmcs_kept i x = x" using assms(1) by (rule small_kept) (simp add: assms(2))
  ultimately show ?thesis by simp
qed

lemma read_syscall:
  assumes "msr_release u = Vcpu_owner" "i \<in> set syscall_msrs" "\<not> hw_msr_gp (cache (menv u)) (ucast i)"
  shows "guest_msr i u = Some (hw_msr (cache (menv u)) (ucast i))"
proof -
  have "i \<notin> {MSR_IA32_SYSENTER_CS, MSR_IA32_SYSENTER_ESP, MSR_IA32_SYSENTER_EIP, MSR_IA32_EFER, MSR_IA32_FS_BASE, MSR_IA32_GS_BASE}"
    using assms(2) by auto
  then show ?thesis
    using assms by (auto simp: guest_msr_def vt_read_msr_def own_again do_read_msr_def)
qed

lemma loaded_view:
  fixes d s p t u m
  defines "mem \<equiv> save_guest_cpu_state d s p"
  assumes s: "migratable s" and t: "receivable s t" and l: "loaded mem t u" "loaded_segments mem u"
    and o: "msr_release u = Vcpu_owner" "hw_msr (cache (menv u)) = loaded_syscalls mem m"
      "hw_msr_gp (cache (menv u)) = hw_msr_gp (cache (menv t))"
  shows "guest_view u = guest_view s"
proof -
  note p = saved_reads [of d s p, folded mem_def]
  note s' = s [unfolded migratable_def] and l' = l(1) [unfolded loaded_def] and g' = l(2) [unfolded loaded_segments_def]
  have general: "vt_read_general_reg r u = vt_read_general_reg r s" for r
    by (rule saved_regs_view [where d = d and p = p]) (use l' p(1) in \<open>simp_all flip: mem_def\<close>)
  have sw: "sw_enable u = 0" "\<not> re u" "\<not> re s" "sw_enable s = 0" using l' s' t by (simp_all add: receivable_def)
  have mix: "(x AND k) OR (y AND NOT k) = (x' AND k) OR (y' AND NOT k)"
    if "x AND k = x' AND k" "y AND NOT k = y' AND NOT k" for x x' y y' k :: u64 using that by simp
  have cr0: "vt_read_cr0 u = vt_read_cr0 s"
    unfolding vt_read_cr0_def vt_read_cr_def by (rule mix) (use s' t l' p(4) in \<open>simp_all add: receivable_def\<close>)
  have cr4: "vt_read_cr4 u = vt_read_cr4 s"
    unfolding vt_read_cr4_def vt_read_cr_def by (rule mix) (use s' t l' p(6) in \<open>simp_all add: receivable_def\<close>)
  have control: "vt_read_control_reg r u = vt_read_control_reg r s" for r
    using cr0 cr4 l' p(5,18) source_cr3 [OF s] by (cases r) (simp_all add: vt_read_control_reg_def)
  have efer: "guest_msr MSR_IA32_EFER u = guest_msr MSR_IA32_EFER s"
    using l' s' p(8) by (simp add: guest_msr_def vt_read_msr_def)
  have sel: "vt_read_sreg_sel r u = vt_read_sreg_sel r s" for r
    using g' sw by (simp add: vt_read_sreg_sel_def saved_sel mem_def)
  have tables: "vt_read_gdtr u = vt_read_gdtr s" "vt_read_idtr u = vt_read_idtr s"
    using g' sw s' p(14-17) by (simp_all add: vt_read_gdtr_def vt_read_idtr_def limit_kept widths)
  have sysenter: "vmcs_kept VMCS_GUEST_IA32_SYSENTER_CS (asm_vmread VMCS_GUEST_IA32_SYSENTER_CS s) = asm_vmread VMCS_GUEST_IA32_SYSENTER_CS s"
    by (rule small_kept [where c = "0xFFFFFFFF"]) (use s' in \<open>simp_all add: widths\<close>)
  have "accepts u i v \<Longrightarrow> \<not> hw_msr_gp (cache (menv u)) (ucast i)" for i v by (simp add: accepts_def)
  then have syscall: "guest_msr i u = Some (loaded_syscalls mem m (ucast i))"
    if "i \<in> {MSR_IA32_STAR, MSR_IA32_LSTAR, MSR_IA32_FMASK, MSR_IA32_KERNEL_GS_BASE}" for i
    using read_syscall [OF o(1), of i] that t o(2,3) by (auto simp: receivable_def accepts_def)
  show ?thesis
    unfolding guest_view_def
    using general control efer sel tables sysenter syscall sw l' g' s' p
    by (simp add: vt_read_ip_def vt_read_flags_def fun_eq_iff)
qed


text \<open>
  C3: For a guest in 64-bit mode under extended page tables, whose EFER is 0xd01, whose live STAR,
  LSTAR, FMASK and KERNEL_GS_BASE equal the cached copies, and whose CR0 and CR4 agree with their read
  shadows in the bits the hypervisor owns (\<open>migratable\<close>), and a destination whose processor needs no
  other bits of CR0 and CR4 and accepts those MSRs (\<open>receivable\<close>): after \<open>save_guest_cpu_state\<close> on the
  source and \<open>postcopy_migration_ready_vmmcall\<close> on the destination the guest reads the same general
  registers, instruction pointer, flags, CR0, CR2, CR3, CR4, DR7, EFER, selectors, FS and GS base,
  GDTR, IDTR, selector of TR, SYSENTER MSRs and those four system call MSRs as before, the state of the
  virtual CPU is consistent, and the globals of the network card are those of the source.  CSTAR,
  LDTR and the limits, access rights and remaining bases of the segments and of TR are not part of this
  view: the code does not transfer them.
\<close>

theorem cpu_state_migrates:
  assumes "migratable s" "receivable s t"
  shows "\<exists>u. postcopy_migration_ready f (save_guest_cpu_state d s p) t = Some (u, d, True)
     \<and> vt_ok u \<and> guest_view u = guest_view s"
proof -
  let ?mem = "save_guest_cpu_state d s p"
  note p = saved_reads [of d s p]
  have c: "bit (slot_read OFFSET_CR0 ?mem) 0" "bit (slot_read OFFSET_CR0 ?mem) 31"
    using guest_cr_bits [OF assms(1)] p by simp_all
  have "\<exists>u m. postcopy_migration_ready f ?mem t = Some (u,
         \<lparr>t_sd_base = ucast (slot_read OFFSET_T_SD_BASE ?mem), r_sd_base = ucast (slot_read OFFSET_R_SD_BASE ?mem),
          virtio_send_queue = ucast (slot_read OFFSET_VIRTIO_SEND_QUEUE ?mem),
          virtio_recv_queue = ucast (slot_read OFFSET_VIRTIO_RECV_QUEUE ?mem)\<rparr>, True)
       \<and> vt_ok u \<and> loaded ?mem t u \<and> loaded_segments ?mem u \<and> msr_release u = Vcpu_owner
       \<and> hw_msr (cache (menv u)) = loaded_syscalls ?mem m \<and> hw_msr_gp (cache (menv u)) = hw_msr_gp (cache (menv t))"
    by (rule postcopy_loads) (use assms(2) c p in \<open>simp_all add: receivable_def\<close>)
  then obtain u m where u: "postcopy_migration_ready f ?mem t = Some (u,
         \<lparr>t_sd_base = ucast (slot_read OFFSET_T_SD_BASE ?mem), r_sd_base = ucast (slot_read OFFSET_R_SD_BASE ?mem),
          virtio_send_queue = ucast (slot_read OFFSET_VIRTIO_SEND_QUEUE ?mem),
          virtio_recv_queue = ucast (slot_read OFFSET_VIRTIO_RECV_QUEUE ?mem)\<rparr>, True)" "vt_ok u"
      "loaded ?mem t u" "loaded_segments ?mem u" "msr_release u = Vcpu_owner"
      "hw_msr (cache (menv u)) = loaded_syscalls ?mem m" "hw_msr_gp (cache (menv u)) = hw_msr_gp (cache (menv t))"
    by blast
  have "guest_view u = guest_view s" by (rule loaded_view [OF assms u(3-7)])
  moreover have "\<lparr>t_sd_base = ucast (slot_read OFFSET_T_SD_BASE ?mem), r_sd_base = ucast (slot_read OFFSET_R_SD_BASE ?mem),
      virtio_send_queue = ucast (slot_read OFFSET_VIRTIO_SEND_QUEUE ?mem),
      virtio_recv_queue = ucast (slot_read OFFSET_VIRTIO_RECV_QUEUE ?mem)\<rparr> = d"
    by (rule virtio_state.equality) (simp_all add: p ucast_32_64)
  ultimately show ?thesis using u(1,2) by simp
qed

definition sample_running :: vcpu where
  "sample_running =
     sample_vcpu\<lparr>ept := Some sample_ept, handle_pagefault := False, sw_enable := 0, msr_release := Vcpu_owner,
       msr_star := 0, msr_lstar := 0, msr_fmask := 0, msr_kerngs := 0,
       vmcs := (\<lambda>i. if i = VMCS_PROC_BASED_VMEXEC_CTL2 then 0x82 else if i = VMCS_VMEXIT_CTL then 0xC0000
         else if i = VMCS_VMENTRY_CTL then 0x4200 else if i = VMCS_GUEST_IA32_EFER then 0xD01
         else if i = VMCS_CR0_READ_SHADOW \<or> i = VMCS_GUEST_CR0 then 0x80050033
         else if i = VMCS_CR4_READ_SHADOW then 0x6F0 else if i = VMCS_GUEST_CR4 then 0x26F0
         else if i = VMCS_EXCEPTION_BMP then 4 else if i = VMCS_GUEST_RIP then 0xFFFFFFFF81000000 else 0x33)\<rparr>"


definition sample_waiting :: vcpu where
  "sample_waiting = sample_running\<lparr>gpr := (\<lambda>_. 7), cr2 := 9, msr_release := Process_owner\<rparr>"

lemma sample_running_reads:
  "asm_vmread i sample_running =
     (if i = VMCS_PROC_BASED_VMEXEC_CTL2 then 0x82 else if i = VMCS_VMEXIT_CTL then 0xC0000
      else if i = VMCS_VMENTRY_CTL then 0x4200 else if i = VMCS_GUEST_IA32_EFER then 0xD01
      else if i = VMCS_CR0_READ_SHADOW \<or> i = VMCS_GUEST_CR0 then 0x80050033
      else if i = VMCS_CR4_READ_SHADOW then 0x6F0 else if i = VMCS_GUEST_CR4 then 0x26F0
      else if i = VMCS_EXCEPTION_BMP then 4 else if i = VMCS_GUEST_RIP then 0xFFFFFFFF81000000 else 0x33)"
  "asm_vmread i sample_waiting = asm_vmread i sample_running"
  by (simp_all add: asm_vmread_def sample_running_def sample_waiting_def)

lemma sample_running_fields:
  "(re sample_running, sw_enable sample_running, pg sample_running, lme sample_running, lma sample_running) = (False, 0, True, True, True)"
  "(unrestricted_guest sample_running, save_load_efer_enable sample_running) = (True, True)"
  "(cr3exit_controllable sample_running, cr3exit_off sample_running, handle_pagefault sample_running) = (True, True, False)"
  "ept sample_running \<noteq> None"
  by (simp_all add: sample_running_def sample_vcpu_def)

lemma sample_running_ok: "vt_ok sample_running"
  using sample_running_fields
  by (simp add: vt_ok_parts ept_enabled_def vt_read_cr3_def read_guest_efer_def sample_running_reads bit_simps)

lemma sample_waiting_ok: "vt_ok sample_waiting"
proof -
  have "vt_ok sample_waiting = vt_ok sample_running"
    by (rule vt_ok_cong) (simp_all add: sample_waiting_def asm_vmread_def)
  then show ?thesis using sample_running_ok by simp
qed

lemma sample_running_syscalls:
  "map (\<lambda>i. guest_msr i sample_running) [MSR_IA32_STAR, MSR_IA32_LSTAR, MSR_IA32_FMASK, MSR_IA32_KERNEL_GS_BASE]
     = map Some [msr_star sample_running, msr_lstar sample_running, msr_fmask sample_running, msr_kerngs sample_running]"
proof -
  have "msr_release sample_running = Vcpu_owner" "hw_msr (cache (menv sample_running)) = sample_msr"
    "hw_msr_gp (cache (menv sample_running)) = (\<lambda>_. False)" "msr_star sample_running = 0" "msr_lstar sample_running = 0"
    "msr_fmask sample_running = 0" "msr_kerngs sample_running = 0"
    by (simp_all add: sample_running_def sample_vcpu_def)
  then show ?thesis by (simp add: read_syscall sample_msr_def)
qed

lemma sample_migratable: "migratable sample_running"
  unfolding migratable_def sample_running_syscalls using sample_running_ok sample_running_fields
  by (simp add: ept_enabled_def vt_read_efer_def read_guest_efer_def sample_running_reads VT_CR4_GUESTHOST_MASK_def)

lemma sample_receivable: "receivable sample_running sample_waiting"
  using sample_waiting_ok
  by (simp add: receivable_def sample_running_reads VT_CR0_GUESTHOST_MASK_def VT_CR4_GUESTHOST_MASK_def)
    (simp add: accepts_def read_guest_efer_def sample_waiting_def sample_running_def sample_vcpu_def sample_msr_def)

lemma cpu_state_migrates_witness:
  "\<exists>u. postcopy_migration_ready (\<lambda>_. True)
         (save_guest_cpu_state \<lparr>t_sd_base = 1, r_sd_base = 2, virtio_send_queue = 3, virtio_recv_queue = 4\<rparr> sample_running (\<lambda>_. 0))
         sample_waiting
       = Some (u, \<lparr>t_sd_base = 1, r_sd_base = 2, virtio_send_queue = 3, virtio_recv_queue = 4\<rparr>, True)
     \<and> vt_read_general_reg GENERAL_REG_RAX u = 1 \<and> vt_read_ip u = 0xFFFFFFFF81000000"
proof -
  obtain u where u: "postcopy_migration_ready (\<lambda>_. True)
         (save_guest_cpu_state \<lparr>t_sd_base = 1, r_sd_base = 2, virtio_send_queue = 3, virtio_recv_queue = 4\<rparr> sample_running (\<lambda>_. 0))
         sample_waiting
       = Some (u, \<lparr>t_sd_base = 1, r_sd_base = 2, virtio_send_queue = 3, virtio_recv_queue = 4\<rparr>, True)"
      and v: "guest_view u = guest_view sample_running"
    using cpu_state_migrates [OF sample_migratable sample_receivable] by blast
  from v have "gv_general (guest_view u) GENERAL_REG_RAX = gv_general (guest_view sample_running) GENERAL_REG_RAX"
    "gv_ip (guest_view u) = gv_ip (guest_view sample_running)" by simp_all
  then have "vt_read_general_reg GENERAL_REG_RAX u = 1" "vt_read_ip u = 0xFFFFFFFF81000000"
    by (simp_all add: guest_view_def vt_read_ip_def sample_running_reads vt_read_general_reg_def)
      (simp_all add: sample_running_def sample_vcpu_def)
  with u show ?thesis by blast
qed

end
