(* ===== verification/Page_Alloc.thy ===== *)
theory Page_Alloc
  imports Bv_Prelude
begin



text \<open>
  The page allocator of \<open>core/mm.c\<close>: a binary buddy system over the \<open>NUM_OF_PAGES\<close> pages of the
  VMM, with one list of free blocks per size.  \<open>pagestruct\<close> is a function from the index of a
  page; a \<open>struct page *\<close> is such an index and a list of \<open>LIST1\<close> elements the list of their
  indices, head first (\<open>LIST1_ADD\<close> appends, \<open>LIST1_PUSH\<close> prepends, \<open>LIST1_POP\<close> takes the head).
  A failed \<open>ASSERT\<close> or a \<open>panic\<close> is \<open>None\<close>.
\<close>

datatype page_type = PAGE_TYPE_FREE | PAGE_TYPE_NOT_HEAD | PAGE_TYPE_ALLOCATED | PAGE_TYPE_RESERVED

record page =
  pg_type :: page_type
  pg_allocsize :: nat
  pg_phys :: u64
  pg_virt :: u64

record mm_state =
  list1_freepage :: "nat \<Rightarrow> nat list"
  pagestruct :: "nat \<Rightarrow> page"
  mm_start_phys :: u32
  panicmem_start_page :: nat

definition NUM_OF_PAGES :: nat where "NUM_OF_PAGES = 32768"
definition NUM_OF_ALLOCSIZE :: nat where "NUM_OF_ALLOCSIZE = 13"
definition NUM_OF_PANICMEM_PAGES :: nat where "NUM_OF_PANICMEM_PAGES = 256"
definition VMM_START_VIRT :: u64 where "VMM_START_VIRT = 0x40000000"

text \<open>\<open>allocsize[i] = 4096 << i\<close>, filled in by \<open>mm_init_global\<close> and never changed.\<close>

definition allocsize :: "nat \<Rightarrow> u64" where "allocsize n = push_bit n 4096"

section \<open>Addresses and pages\<close>

definition virt_to_page :: "u64 \<Rightarrow> nat option" where
  "virt_to_page virt =
     (let i = unat (drop_bit 12 (virt - VMM_START_VIRT) AND 0xFFFFFFFF)
      in if i < NUM_OF_PAGES then Some i else None)"

definition phys_to_virt :: "mm_state \<Rightarrow> u64 \<Rightarrow> u64" where
  "phys_to_virt s phys = phys - ucast (mm_start_phys s) + VMM_START_VIRT"

definition phys_to_page :: "mm_state \<Rightarrow> u64 \<Rightarrow> nat option" where
  "phys_to_page s phys = virt_to_page (phys_to_virt s phys)"

definition page_to_virt :: "mm_state \<Rightarrow> nat \<Rightarrow> u64" where
  "page_to_virt s p = pg_virt (pagestruct s p)"

definition page_to_phys :: "mm_state \<Rightarrow> nat \<Rightarrow> u64" where
  "page_to_phys s p = pg_phys (pagestruct s p)"

section \<open>Assignments to the structures\<close>

definition set_type :: "nat \<Rightarrow> page_type \<Rightarrow> mm_state \<Rightarrow> mm_state" where
  "set_type p t s = s\<lparr>pagestruct := (pagestruct s)(p := (pagestruct s p)\<lparr>pg_type := t\<rparr>)\<rparr>"

definition set_allocsize :: "nat \<Rightarrow> nat \<Rightarrow> mm_state \<Rightarrow> mm_state" where
  "set_allocsize p n s = s\<lparr>pagestruct := (pagestruct s)(p := (pagestruct s p)\<lparr>pg_allocsize := n\<rparr>)\<rparr>"

definition list1_add :: "nat \<Rightarrow> nat \<Rightarrow> mm_state \<Rightarrow> mm_state" where
  "list1_add n p s = s\<lparr>list1_freepage := (list1_freepage s)(n := list1_freepage s n @ [p])\<rparr>"

definition list1_del :: "nat \<Rightarrow> nat \<Rightarrow> mm_state \<Rightarrow> mm_state" where
  "list1_del n p s = s\<lparr>list1_freepage := (list1_freepage s)(n := remove1 p (list1_freepage s n))\<rparr>"

definition list1_pop :: "nat \<Rightarrow> mm_state \<Rightarrow> nat option \<times> mm_state" where
  "list1_pop n s =
     (case list1_freepage s n of
        [] \<Rightarrow> (None, s)
      | p # ps \<Rightarrow> (Some p, s\<lparr>list1_freepage := (list1_freepage s)(n := ps)\<rparr>))"

section \<open>Allocation\<close>

text \<open>
  The end of \<open>mm_page_alloc\<close>: the type is set under the lock and the old one checked after it.
\<close>

definition alloc_done :: "nat \<Rightarrow> mm_state \<Rightarrow> (nat \<times> mm_state) option" where
  "alloc_done p s =
     (if pg_type (pagestruct s p) = PAGE_TYPE_FREE then Some (p, set_type p PAGE_TYPE_ALLOCATED s)
      else None)"

text \<open>The body of the loop: the block \<open>p\<close> of twice the size becomes two free ones.\<close>

definition split_block :: "nat \<Rightarrow> nat \<Rightarrow> mm_state \<Rightarrow> mm_state option" where
  "split_block n p s =
     (case virt_to_page (page_to_virt s p XOR allocsize n) of
        None \<Rightarrow> None
      | Some q \<Rightarrow>
          Some (list1_add n q (list1_add n p
            (set_type q PAGE_TYPE_FREE (set_type p PAGE_TYPE_FREE (set_allocsize p n s))))))"

text \<open>
  The list is not empty after the body, which has added two blocks to it, so the second test of
  the loop is its last one.  The recursion ends at the assertion that \<open>n\<close> is a size.
\<close>

function mm_page_alloc :: "nat \<Rightarrow> mm_state \<Rightarrow> (nat \<times> mm_state) option" where
  "mm_page_alloc n s =
     (if \<not> n < NUM_OF_ALLOCSIZE then None
      else case list1_pop n s of
          (Some p, s1) \<Rightarrow> alloc_done p s1
        | (None, _) \<Rightarrow>
            (case mm_page_alloc (n + 1) s of
               None \<Rightarrow> None
             | Some (p, s1) \<Rightarrow>
                 (case split_block n p s1 of
                    None \<Rightarrow> None
                  | Some s2 \<Rightarrow>
                      (case list1_pop n s2 of
                         (Some p', s3) \<Rightarrow> alloc_done p' s3
                       | (None, _) \<Rightarrow> None))))"
  by pat_completeness auto
termination by (relation "measure (\<lambda>(n, s). NUM_OF_ALLOCSIZE - n)") auto

declare mm_page_alloc.simps [simp del]

section \<open>Release\<close>

text \<open>
  The loop of \<open>mm_page_free\<close>: as long as the buddy is free and of the same size, the two become
  one block whose head is the lower one.
\<close>

function merge_blocks :: "nat \<Rightarrow> nat \<Rightarrow> mm_state \<Rightarrow> mm_state option" where
  "merge_blocks n p s =
     (if n < NUM_OF_ALLOCSIZE - 1 then
        (let virt = page_to_virt s p; sz = allocsize n
         in case virt_to_page (virt XOR sz) of
              None \<Rightarrow> None
            | Some q \<Rightarrow>
                if pg_type (pagestruct s q) = PAGE_TYPE_FREE \<and> pg_allocsize (pagestruct s q) = n then
                  (let (lo, hi) = (if virt AND sz \<noteq> 0 then (q, p) else (p, q));
                       s = list1_del n hi (list1_del n lo s);
                       s = set_type hi PAGE_TYPE_NOT_HEAD s;
                       s = set_allocsize lo (n + 1) s
                   in merge_blocks (n + 1) lo (list1_add (n + 1) lo s))
                else Some s)
      else Some s)"
  by pat_completeness auto
termination by (relation "measure (\<lambda>(n, p, s). NUM_OF_ALLOCSIZE - n)") auto

declare merge_blocks.simps [simp del]

definition mm_page_free :: "nat \<Rightarrow> mm_state \<Rightarrow> mm_state option" where
  "mm_page_free p s =
     (let n = pg_allocsize (pagestruct s p)
      in merge_blocks n p (list1_add n p (set_type p PAGE_TYPE_FREE s)))"

section \<open>The entry points\<close>

text \<open>The first size that holds \<open>n\<close> pages; \<open>n * PAGESIZE\<close> is a product of signed 32-bit integers.\<close>

definition alloc_order :: "nat \<Rightarrow> nat option" where
  "alloc_order n =
     (let sz = sint (of_nat n * 4096 :: 32 word)
      in List.find (\<lambda>i. sz \<le> uint (allocsize i)) [0..<NUM_OF_ALLOCSIZE])"

definition alloc_pages :: "nat \<Rightarrow> mm_state \<Rightarrow> (nat \<times> u64 \<times> u64 \<times> mm_state) option" where
  "alloc_pages n s =
     (case alloc_order n of
        None \<Rightarrow> None
      | Some i \<Rightarrow>
          (case mm_page_alloc i s of
             None \<Rightarrow> None
           | Some (p, s) \<Rightarrow> Some (p, page_to_virt s p, page_to_phys s p, s)))"

definition alloc_page :: "mm_state \<Rightarrow> (nat \<times> u64 \<times> u64 \<times> mm_state) option" where
  "alloc_page s = alloc_pages 1 s"

definition free_page :: "u64 \<Rightarrow> mm_state \<Rightarrow> mm_state option" where
  "free_page virt s = (case virt_to_page virt of None \<Rightarrow> None | Some p \<Rightarrow> mm_page_free p s)"

definition free_page_phys :: "u64 \<Rightarrow> mm_state \<Rightarrow> mm_state option" where
  "free_page_phys phys s = (case phys_to_page s phys of None \<Rightarrow> None | Some p \<Rightarrow> mm_page_free p s)"

definition num_of_available_pages :: "mm_state \<Rightarrow> nat" where
  "num_of_available_pages s =
     (\<Sum>i\<leftarrow>[0..<NUM_OF_ALLOCSIZE]. length (list1_freepage s i) * unat (drop_bit 12 (allocsize i)))"

section \<open>The start\<close>

text \<open>
  The part of \<open>mm_init_global\<close> that fills in the structures.  \<open>first\<close> and \<open>en\<close> are the addresses of
  the symbols \<open>head\<close> and \<open>end\<close> of the linker script; the pages of the image and the
  \<open>NUM_OF_PANICMEM_PAGES\<close> pages behind it stay reserved, every other page is released in turn.
\<close>

definition mm_init_pages :: "u32 \<Rightarrow> u64 \<Rightarrow> mm_state" where
  "mm_init_pages start en =
     \<lparr>list1_freepage = \<lambda>_. [],
      pagestruct = \<lambda>i. \<lparr>pg_type = PAGE_TYPE_RESERVED, pg_allocsize = 0,
                        pg_phys = ucast (start + of_nat (4096 * i)),
                        pg_virt = VMM_START_VIRT + of_nat (4096 * i)\<rparr>,
      mm_start_phys = start,
      panicmem_start_page = unat (drop_bit 12 (en + 4096 - 1 - VMM_START_VIRT))\<rparr>"

definition page_kept :: "u64 \<Rightarrow> u64 \<Rightarrow> mm_state \<Rightarrow> nat \<Rightarrow> bool" where
  "page_kept first en s i =
     (first \<le> page_to_virt s i \<and> page_to_virt s i < en
      \<or> i < panicmem_start_page s + NUM_OF_PANICMEM_PAGES)"

fun free_each :: "nat list \<Rightarrow> mm_state \<Rightarrow> mm_state option" where
  "free_each [] s = Some s"
| "free_each (p # ps) s = (case mm_page_free p s of None \<Rightarrow> None | Some s \<Rightarrow> free_each ps s)"

definition mm_init_free :: "u32 \<Rightarrow> u64 \<Rightarrow> u64 \<Rightarrow> mm_state option" where
  "mm_init_free start first en =
     (let s = mm_init_pages start en
      in free_each (filter (\<lambda>i. \<not> page_kept first en s i) [0..<NUM_OF_PAGES]) s)"

text \<open>The address and the length of the memory a panic may use; \<open>None\<close> is \<open>NULL\<close>.\<close>

definition mm_get_panicmem :: "mm_state \<Rightarrow> (u64 \<times> nat) option" where
  "mm_get_panicmem s =
     (if panicmem_start_page s = 0 then None
      else Some (page_to_virt s (panicmem_start_page s), NUM_OF_PANICMEM_PAGES * 4096))"

definition mm_free_panicmem :: "mm_state \<Rightarrow> mm_state option" where
  "mm_free_panicmem s =
     (let st = panicmem_start_page s
      in if st = 0 then Some s
         else free_each [st..<st + NUM_OF_PANICMEM_PAGES] (s\<lparr>panicmem_start_page := 0\<rparr>))"

end
