(* ===== verification/Page_Blocks.thy ===== *)
theory Page_Blocks
  imports Page_Alloc
begin

text \<open>
  The invariant of the page allocator: the pages are divided into blocks, each with a head that
  carries its size and is aligned to it, and inside a block of order \<open>n + 1\<close> the head of its upper
  half is marked \<open>PAGE_TYPE_NOT_HEAD\<close> and still carries the order \<open>n\<close>, on which the split relies.
\<close>

section \<open>Addresses, sizes and buddies\<close>

definition page_virt :: "nat \<Rightarrow> u64" where
  "page_virt i = VMM_START_VIRT + of_nat (4096 * i)"

lemma page_virt_of_nat: "page_virt i = of_nat (2 ^ 30 + 4096 * i)"
  by (simp add: page_virt_def VMM_START_VIRT_def)

lemma unat_page_virt:
  assumes "i \<le> NUM_OF_PAGES"
  shows "unat (page_virt i) = 2 ^ 30 + 4096 * i"
  unfolding page_virt_of_nat by (rule unat_of_nat64) (use assms in \<open>simp add: NUM_OF_PAGES_def\<close>)

lemma virt_to_page_in:
  assumes "i < NUM_OF_PAGES" and "off < 4096"
  shows "virt_to_page (page_virt i + of_nat off) = Some i"
proof -
  have i: "i < 32768" using assms(1) by (simp add: NUM_OF_PAGES_def)
  have "unat (page_virt i + of_nat off - VMM_START_VIRT) = 4096 * i + off"
  proof -
    have "page_virt i + of_nat off - VMM_START_VIRT = of_nat (4096 * i + off)"
      by (simp add: page_virt_def)
    then show ?thesis using i assms(2) by (simp add: unat_of_nat64 del: of_nat_add of_nat_mult)
  qed
  moreover have "unat (x AND 0xFFFFFFFF) = unat x mod 2 ^ 32" for x :: u64
    using unat_and_mask [of x 32] by (simp add: mask_eq_exp_minus_1)
  ultimately show ?thesis
    using i assms(2) by (simp add: virt_to_page_def unat_drop_bit NUM_OF_PAGES_def Let_def)
qed

lemma virt_to_page_virt: "i < NUM_OF_PAGES \<Longrightarrow> virt_to_page (page_virt i) = Some i"
  using virt_to_page_in [of i 0] by simp

lemma allocsize_exp: "allocsize n = push_bit (12 + n) 1"
  by (simp add: allocsize_def push_bit_eq_mult power_add)

lemma bit_page_virt:
  assumes "i < NUM_OF_PAGES" and "n \<le> 12"
  shows "bit (page_virt i) (12 + n) \<longleftrightarrow> odd (i div 2 ^ n)"
proof -
  have e: "(2::nat) ^ 18 = 2 ^ (18 - n) * 2 ^ n" using assms(2) by (simp flip: power_add)
  have "bit (page_virt i) (12 + n) \<longleftrightarrow> bit (2 ^ 30 + 4096 * i :: nat) (12 + n)"
    using assms(2) unfolding page_virt_of_nat by (subst bit_of_nat_iff) auto
  also have "\<dots> \<longleftrightarrow> odd ((2 ^ 30 + 4096 * i) div 2 ^ (12 + n) :: nat)" by (simp add: bit_iff_odd)
  also have "(2 ^ 30 + 4096 * i) div 2 ^ (12 + n) = (4096 * (2 ^ 18 + i)) div 4096 div (2 ^ n :: nat)"
    by (simp add: power_add div_mult2_eq)
  also have "\<dots> = (2 ^ 18 + i) div 2 ^ n" by simp
  also have "\<dots> = 2 ^ (18 - n) + i div 2 ^ n" unfolding e by (subst div_add1_eq) simp
  finally show ?thesis using assms(2) by simp
qed

definition buddy :: "nat \<Rightarrow> nat \<Rightarrow> nat" where
  "buddy n i = (if even (i div 2 ^ n) then i + 2 ^ n else i - 2 ^ n)"

lemma page_virt_xor:
  assumes "i < NUM_OF_PAGES" and "n \<le> 12" and "2 ^ n dvd i"
  shows "page_virt i XOR allocsize n = page_virt (buddy n i)"
proof -
  have "page_virt i XOR allocsize n = flip_bit (12 + n) (page_virt i)"
    by (simp add: allocsize_exp flip_bit_def)
  also have "\<dots> = page_virt (buddy n i)"
  proof (cases "even (i div 2 ^ n)")
    case True
    then show ?thesis
      using bit_page_virt [OF assms(1,2)]
      by (simp add: flip_bit_eq_if set_bit_eq buddy_def page_virt_def power_add algebra_simps)
  next
    case False
    then have "2 ^ n \<le> i" using assms(3) by (metis dvd_imp_le gr0I div_0 even_zero)
    then show ?thesis
      using False bit_page_virt [OF assms(1,2)]
      by (simp add: flip_bit_eq_if unset_bit_eq buddy_def page_virt_def power_add of_nat_diff
          algebra_simps)
  qed
  finally show ?thesis .
qed

lemma page_virt_and:
  assumes "i < NUM_OF_PAGES" and "n \<le> 12"
  shows "page_virt i AND allocsize n \<noteq> 0 \<longleftrightarrow> odd (i div 2 ^ n)"
proof -
  have "page_virt i AND allocsize n \<noteq> 0 \<longleftrightarrow> bit (page_virt i) (12 + n)"
    by (simp add: allocsize_exp push_bit_of_1 and_exp_eq_0_iff_not_bit)
  then show ?thesis using bit_page_virt [OF assms] by simp
qed

lemma dvd_add_le: "d dvd i \<Longrightarrow> d dvd m \<Longrightarrow> i < m \<Longrightarrow> i + d \<le> m" for d i m :: nat
  using dvd_imp_le [of d "m - i"] by (simp add: dvd_diff_nat)

lemma order_dvd: "n \<le> 15 \<Longrightarrow> 2 ^ n dvd NUM_OF_PAGES"
  using le_imp_power_dvd [of n 15 "2 :: nat"] by (simp add: NUM_OF_PAGES_def)

lemma even_div_dvd: "2 ^ n dvd i \<Longrightarrow> even (i div 2 ^ n) \<longleftrightarrow> 2 ^ Suc n dvd i" for i :: nat
  by (auto elim!: evenE dvdE simp: ac_simps)

lemma buddy_lt:
  assumes "i < NUM_OF_PAGES" and "n < 12" and "2 ^ n dvd i"
  shows "buddy n i < NUM_OF_PAGES"
proof (cases "even (i div 2 ^ n)")
  case True
  then have "i + 2 ^ Suc n \<le> NUM_OF_PAGES"
    using assms order_dvd [of "Suc n"] by (intro dvd_add_le) (simp_all add: even_div_dvd del: power_Suc)
  moreover have "(2 :: nat) ^ n < 2 ^ Suc n" by simp
  ultimately have "i + 2 ^ n < NUM_OF_PAGES" by linarith
  then show ?thesis using True by (simp add: buddy_def)
qed (use assms(1) in \<open>simp add: buddy_def\<close>)

abbreviation ptype :: "mm_state \<Rightarrow> nat \<Rightarrow> page_type" where "ptype s i \<equiv> pg_type (pagestruct s i)"
abbreviation porder :: "mm_state \<Rightarrow> nat \<Rightarrow> nat" where "porder s i \<equiv> pg_allocsize (pagestruct s i)"

fun inner :: "mm_state \<Rightarrow> nat \<Rightarrow> nat \<Rightarrow> bool" where
  "inner s 0 i = True"
| "inner s (Suc n) i =
     (inner s n i \<and> ptype s (i + 2 ^ n) = PAGE_TYPE_NOT_HEAD \<and> porder s (i + 2 ^ n) = n
      \<and> inner s n (i + 2 ^ n))"

definition is_head :: "mm_state \<Rightarrow> nat \<Rightarrow> bool" where
  "is_head s i = (i < NUM_OF_PAGES \<and> ptype s i \<noteq> PAGE_TYPE_NOT_HEAD)"

definition pages_of :: "nat \<Rightarrow> nat \<Rightarrow> nat set" where
  "pages_of n i = {i..<i + 2 ^ n}"

abbreviation block :: "mm_state \<Rightarrow> nat \<Rightarrow> nat set" where
  "block s i \<equiv> pages_of (porder s i) i"

definition blocks_ok :: "mm_state \<Rightarrow> bool" where
  "blocks_ok s =
     ((\<forall>i. is_head s i \<longrightarrow> porder s i < NUM_OF_ALLOCSIZE \<and> 2 ^ porder s i dvd i \<and> inner s (porder s i) i)
      \<and> (\<forall>i<NUM_OF_PAGES. \<exists>p. is_head s p \<and> i \<in> block s p))"

definition lists_ok :: "mm_state \<Rightarrow> bool" where
  "lists_ok s =
     (\<forall>n<NUM_OF_ALLOCSIZE. distinct (list1_freepage s n)
        \<and> set (list1_freepage s n) = {i. i < NUM_OF_PAGES \<and> ptype s i = PAGE_TYPE_FREE \<and> porder s i = n})"

definition addrs_ok :: "mm_state \<Rightarrow> bool" where
  "addrs_ok s = (\<forall>i<NUM_OF_PAGES. pg_virt (pagestruct s i) = page_virt i
                    \<and> pg_phys (pagestruct s i) = ucast (mm_start_phys s + of_nat (4096 * i)))"

definition mergeable :: "mm_state \<Rightarrow> nat \<Rightarrow> bool" where
  "mergeable s i =
     (ptype s i = PAGE_TYPE_FREE \<and> porder s i < NUM_OF_ALLOCSIZE - 1
      \<and> ptype s (buddy (porder s i) i) = PAGE_TYPE_FREE
      \<and> porder s (buddy (porder s i) i) = porder s i)"

definition core_ok :: "mm_state \<Rightarrow> bool" where
  "core_ok s = (blocks_ok s \<and> lists_ok s \<and> addrs_ok s)"

definition mm_ok :: "mm_state \<Rightarrow> bool" where
  "mm_ok s = (core_ok s \<and> (\<forall>i<NUM_OF_PAGES. \<not> mergeable s i))"

text \<open>What the allocator hands out and what it has left.\<close>

definition used_blocks :: "mm_state \<Rightarrow> (nat \<times> nat) set" where
  "used_blocks s = {(i, n). i < NUM_OF_PAGES \<and> porder s i = n
                     \<and> (ptype s i = PAGE_TYPE_ALLOCATED \<or> ptype s i = PAGE_TYPE_RESERVED)}"

definition free_pages :: "mm_state \<Rightarrow> nat set" where
  "free_pages s = (\<Union>i \<in> {i. i < NUM_OF_PAGES \<and> ptype s i = PAGE_TYPE_FREE}. block s i)"

section \<open>Blocks\<close>

lemma inner_not_head:
  "inner s n i \<Longrightarrow> i < j \<Longrightarrow> j < i + 2 ^ n \<Longrightarrow> ptype s j = PAGE_TYPE_NOT_HEAD"
proof (induction n arbitrary: i)
  case (Suc n)
  then show ?case
    by (cases "j < i + 2 ^ n"; cases "j = i + 2 ^ n") (auto simp: not_less)
qed simp

lemma inner_cong:
  "(\<And>j. i < j \<Longrightarrow> j < i + 2 ^ n \<Longrightarrow> pagestruct s j = pagestruct s' j) \<Longrightarrow> inner s n i = inner s' n i"
proof (induction n arbitrary: i)
  case (Suc n)
  have "inner s n i = inner s' n i" by (rule Suc.IH) (rule Suc.prems, auto)
  moreover have "inner s n (i + 2 ^ n) = inner s' n (i + 2 ^ n)" by (rule Suc.IH) (rule Suc.prems, auto)
  moreover have "pagestruct s (i + 2 ^ n) = pagestruct s' (i + 2 ^ n)" by (rule Suc.prems) auto
  ultimately show ?case by simp
qed simp

lemma head_props:
  assumes "blocks_ok s" and "is_head s i"
  shows "porder s i < NUM_OF_ALLOCSIZE" and "2 ^ porder s i dvd i" and "inner s (porder s i) i"
    and "i \<in> block s i"
  using assms by (auto simp: blocks_ok_def pages_of_def)

lemma block_not_head:
  assumes "blocks_ok s" and "is_head s i" and "j \<in> block s i" and "j \<noteq> i"
  shows "ptype s j = PAGE_TYPE_NOT_HEAD"
  using inner_not_head [OF head_props(3) [OF assms(1,2)], of j] assms(3,4) by (auto simp: pages_of_def)

lemma block_unique:
  assumes "blocks_ok s" and "is_head s i" and "is_head s i'" and "j \<in> block s i" and "j \<in> block s i'"
  shows "i = i'"
proof (rule ccontr)
  assume "i \<noteq> i'"
  then have "i' \<in> block s i \<or> i \<in> block s i'" using assms(4,5) by (auto simp: pages_of_def)
  then show False
    using block_not_head [OF assms(1,2), of i'] block_not_head [OF assms(1,3), of i] \<open>i \<noteq> i'\<close> assms(2,3)
    by (auto simp: is_head_def)
qed

lemma block_disjoint:
  assumes "blocks_ok s" and "is_head s i" and "is_head s i'" and "i \<noteq> i'"
  shows "block s i \<inter> block s i' = {}"
  using block_unique [OF assms(1-3)] assms(4) by blast

lemma order_fits:
  assumes "n < NUM_OF_ALLOCSIZE" and "2 ^ n dvd i" and "i < NUM_OF_PAGES"
  shows "i + 2 ^ n \<le> NUM_OF_PAGES"
  by (rule dvd_add_le [OF assms(2) order_dvd assms(3)]) (use assms(1) in \<open>simp add: NUM_OF_ALLOCSIZE_def\<close>)

lemma block_in_range: "blocks_ok s \<Longrightarrow> is_head s i \<Longrightarrow> j \<in> block s i \<Longrightarrow> j < NUM_OF_PAGES"
  using order_fits [of "porder s i" i] head_props [of s i] by (auto simp: pages_of_def is_head_def)

lemma pages_of_Suc: "pages_of (Suc n) i = pages_of n i \<union> pages_of n (i + 2 ^ n)"
  by (auto simp: pages_of_def)


section \<open>Changes of the blocks\<close>

named_theorems mm_simps \<open>fields of the allocator's state after an assignment\<close>

lemma pagestruct_upd [mm_simps]:
  "pagestruct (set_type p t s) i = (if i = p then (pagestruct s p)\<lparr>pg_type := t\<rparr> else pagestruct s i)"
  "pagestruct (set_allocsize p n s) i = (if i = p then (pagestruct s p)\<lparr>pg_allocsize := n\<rparr> else pagestruct s i)"
  "pagestruct (list1_add n p s) = pagestruct s"
  "pagestruct (list1_del n p s) = pagestruct s"
  by (auto simp: set_type_def set_allocsize_def list1_add_def list1_del_def)

lemma freepage_upd [mm_simps]:
  "list1_freepage (set_type p t s) = list1_freepage s"
  "list1_freepage (set_allocsize p n s) = list1_freepage s"
  "list1_freepage (list1_add n p s) k = (if k = n then list1_freepage s n @ [p] else list1_freepage s k)"
  "list1_freepage (list1_del n p s) k = (if k = n then remove1 p (list1_freepage s n) else list1_freepage s k)"
  by (auto simp: set_type_def set_allocsize_def list1_add_def list1_del_def)

lemma start_upd [mm_simps]:
  "mm_start_phys (set_type p t s) = mm_start_phys s"
  "mm_start_phys (set_allocsize p n s) = mm_start_phys s"
  "mm_start_phys (list1_add n p s) = mm_start_phys s"
  "mm_start_phys (list1_del n p s) = mm_start_phys s"
  by (auto simp: set_type_def set_allocsize_def list1_add_def list1_del_def)

text \<open>A change of the type of a head among the types of heads.\<close>

lemma blocks_retype:
  assumes "blocks_ok s" and "is_head s p"
    and "\<And>i. i \<noteq> p \<Longrightarrow> pagestruct s' i = pagestruct s i"
    and "porder s' p = porder s p" and "ptype s' p \<noteq> PAGE_TYPE_NOT_HEAD"
  shows "blocks_ok s'" and "is_head s' i = is_head s i"
proof -
  have same: "pagestruct s' i = pagestruct s i" if "i \<noteq> p" for i using assms(3) that .
  have head: "is_head s' i = is_head s i" for i
    using assms(2,5) same [of i] by (cases "i = p") (simp_all add: is_head_def)
  then show "is_head s' i = is_head s i" .
  have ord: "porder s' i = porder s i" for i using assms(4) same [of i] by (cases "i = p") simp_all
  have inner: "inner s' (porder s i) i" if i: "is_head s i" for i
  proof -
    have "j \<noteq> p" if "i < j" "j < i + 2 ^ porder s i" for j
      using block_not_head [OF assms(1) i, of j] that assms(2) by (auto simp: is_head_def pages_of_def)
    then have "inner s' (porder s i) i = inner s (porder s i) i"
      using same by (intro inner_cong) blast
    then show ?thesis using head_props(3) [OF assms(1) i] by simp
  qed
  show "blocks_ok s'" unfolding blocks_ok_def head ord using inner assms(1) unfolding blocks_ok_def by blast
qed

lemma blocks_split:
  assumes ok: "blocks_ok s" and p: "is_head s p" and n: "porder s p = Suc n"
    and same: "\<And>i. i \<noteq> p \<Longrightarrow> i \<noteq> p + 2 ^ n \<Longrightarrow> pagestruct s' i = pagestruct s i"
    and p': "porder s' p = n" "ptype s' p \<noteq> PAGE_TYPE_NOT_HEAD"
    and q': "porder s' (p + 2 ^ n) = n" "ptype s' (p + 2 ^ n) \<noteq> PAGE_TYPE_NOT_HEAD"
  shows "blocks_ok s'" and "is_head s' i \<longleftrightarrow> is_head s i \<or> i = p + 2 ^ n"
proof -
  let ?q = "p + 2 ^ n"
  have q: "?q < NUM_OF_PAGES" using block_in_range [OF ok p, of ?q] n by (simp add: pages_of_def)
  have hd: "is_head s' i \<longleftrightarrow> is_head s i \<or> i = ?q" for i
    using same [of i] p p' q q' by (cases "i = p"; cases "i = ?q") (auto simp: is_head_def)
  then show "is_head s' i \<longleftrightarrow> is_head s i \<or> i = p + 2 ^ n" .
  have qh: "\<not> is_head s ?q"
    using block_not_head [OF ok p, of ?q] n by (auto simp: pages_of_def is_head_def)
  note P = head_props [OF ok p, unfolded n]
  have in_p: "inner s' n p"
  proof -
    have "inner s' n p = inner s n p" by (rule inner_cong) (use same in auto)
    then show ?thesis using P(3) by simp
  qed
  have in_q: "inner s' n ?q"
  proof -
    have "inner s' n ?q = inner s n ?q" by (rule inner_cong) (use same in auto)
    then show ?thesis using P(3) by simp
  qed
  have dv: "2 ^ n dvd p" using P(2) by (rule power_le_dvd) simp
  have each: "porder s' i < NUM_OF_ALLOCSIZE \<and> 2 ^ porder s' i dvd i \<and> inner s' (porder s' i) i"
    if i: "is_head s' i" for i
  proof -
    consider "i = p" | "i = ?q" | "i \<noteq> p" "i \<noteq> ?q" "is_head s i" using i hd by blast
    then show ?thesis
    proof cases
      case 1
      then show ?thesis using p' P(1) in_p dv by simp
    next
      case 2
      then show ?thesis using q' P(1) in_q dv by simp
    next
      case 3
      have "j \<noteq> p \<and> j \<noteq> ?q" if "i < j" "j < i + 2 ^ porder s i" for j
      proof -
        have "j \<in> block s i" using that by (simp add: pages_of_def)
        then have "j \<notin> block s p" using block_unique [OF ok 3(3) p, of j] 3(1) by blast
        then show ?thesis using n by (auto simp: pages_of_def)
      qed
      then have "inner s' (porder s i) i = inner s (porder s i) i" using same by (intro inner_cong) blast
      then show ?thesis using head_props [OF ok 3(3)] same [OF 3(1,2)] by simp
    qed
  qed
  have cover: "\<exists>k. is_head s' k \<and> i \<in> block s' k" if i: "i < NUM_OF_PAGES" for i
  proof -
    obtain k where k: "is_head s k" "i \<in> block s k" using ok i by (auto simp: blocks_ok_def)
    show ?thesis
    proof (cases "k = p")
      case True
      then have "i \<in> block s' p \<or> i \<in> block s' ?q" using k(2) n p' q' by (auto simp: pages_of_def)
      then show ?thesis using hd p by blast
    next
      case False
      moreover have "k \<noteq> ?q" using k(1) qh by blast
      ultimately have "i \<in> block s' k" using k(2) same [of k] by simp
      then show ?thesis using k(1) hd by blast
    qed
  qed
  show "blocks_ok s'" unfolding blocks_ok_def using each cover by blast
qed

lemma blocks_merge:
  assumes ok: "blocks_ok s" and p: "is_head s p" "porder s p = n" and q: "is_head s (p + 2 ^ n)" "porder s (p + 2 ^ n) = n"
    and n: "Suc n < NUM_OF_ALLOCSIZE" and dv: "2 ^ Suc n dvd p"
    and same: "\<And>i. i \<noteq> p \<Longrightarrow> i \<noteq> p + 2 ^ n \<Longrightarrow> pagestruct s' i = pagestruct s i"
    and p': "porder s' p = Suc n" "ptype s' p \<noteq> PAGE_TYPE_NOT_HEAD"
    and q': "porder s' (p + 2 ^ n) = n" "ptype s' (p + 2 ^ n) = PAGE_TYPE_NOT_HEAD"
  shows "blocks_ok s'" and "is_head s' i \<longleftrightarrow> is_head s i \<and> i \<noteq> p + 2 ^ n"
proof -
  let ?q = "p + 2 ^ n"
  have hd: "is_head s' i \<longleftrightarrow> is_head s i \<and> i \<noteq> ?q" for i
    using same [of i] p p' q q' by (cases "i = p"; cases "i = ?q") (auto simp: is_head_def)
  then show "is_head s' i \<longleftrightarrow> is_head s i \<and> i \<noteq> p + 2 ^ n" .
  have fr: "inner s' (porder s i) i" if i: "is_head s i" for i
  proof -
    have "j \<noteq> p \<and> j \<noteq> ?q" if "i < j" "j < i + 2 ^ porder s i" for j
      using block_not_head [OF ok i, of j] p(1) q(1) that by (auto simp: is_head_def pages_of_def)
    then have "inner s' (porder s i) i = inner s (porder s i) i" using same by (intro inner_cong) blast
    then show ?thesis using head_props(3) [OF ok i] by simp
  qed
  have each: "porder s' i < NUM_OF_ALLOCSIZE \<and> 2 ^ porder s' i dvd i \<and> inner s' (porder s' i) i"
    if i: "is_head s' i" for i
  proof (cases "i = p")
    case True
    then show ?thesis using p' q' n dv fr [OF p(1)] fr [OF q(1)] p(2) q(2) by simp
  next
    case False
    then show ?thesis using i hd fr [of i] head_props [OF ok, of i] same [of i] by auto
  qed
  have cover: "\<exists>k. is_head s' k \<and> i \<in> block s' k" if i: "i < NUM_OF_PAGES" for i
  proof -
    obtain k where k: "is_head s k" "i \<in> block s k" using ok i by (auto simp: blocks_ok_def)
    show ?thesis
    proof (cases "k = p \<or> k = ?q")
      case True
      then have "i \<in> block s' p" using k(2) p' p(2) q(2) by (auto simp: pages_of_def)
      then show ?thesis using hd p(1) by auto
    next
      case False
      then show ?thesis using k same [of k] hd by auto
    qed
  qed
  show "blocks_ok s'" unfolding blocks_ok_def using each cover by blast
qed

end
