(* ===== verification/Page_Alloc_Ok.thy ===== *)
theory Page_Alloc_Ok
  imports Page_Blocks
begin

text \<open>
  What \<open>mm_page_alloc\<close> and \<open>mm_page_free\<close> do to a state that satisfies the invariant.
\<close>

lemma free_pagesI: "i < NUM_OF_PAGES \<Longrightarrow> ptype s i = PAGE_TYPE_FREE \<Longrightarrow> x \<in> block s i \<Longrightarrow> x \<in> free_pages s"
  by (auto simp: free_pages_def)

lemma free_pagesE:
  assumes "x \<in> free_pages s"
  obtains i where "is_head s i" and "ptype s i = PAGE_TYPE_FREE" and "x \<in> block s i"
  using assms by (auto simp: free_pages_def is_head_def)

section \<open>Taking a free block\<close>

lemma retype_used:
  assumes "is_head s p" and "ptype s p = PAGE_TYPE_FREE"
    and same: "\<And>i. i \<noteq> p \<Longrightarrow> pagestruct s' i = pagestruct s i"
    and "porder s' p = porder s p" and "ptype s' p = PAGE_TYPE_ALLOCATED"
  shows "used_blocks s' = insert (p, porder s p) (used_blocks s)" and "(p, porder s p) \<notin> used_blocks s"
proof -
  have "(i, n) \<in> used_blocks s' \<longleftrightarrow> (i, n) \<in> insert (p, porder s p) (used_blocks s)" for i n
    using assms same [of i] by (cases "i = p") (auto simp: used_blocks_def is_head_def)
  then show "used_blocks s' = insert (p, porder s p) (used_blocks s)" by auto
  show "(p, porder s p) \<notin> used_blocks s" using assms(2) by (simp add: used_blocks_def)
qed

lemma retype_free:
  assumes ok: "blocks_ok s" and p: "is_head s p" "ptype s p = PAGE_TYPE_FREE"
    and same: "\<And>i. i \<noteq> p \<Longrightarrow> pagestruct s' i = pagestruct s i"
    and p': "porder s' p = porder s p" "ptype s' p = PAGE_TYPE_ALLOCATED"
  shows "free_pages s' = free_pages s - block s p" and "block s p \<subseteq> free_pages s"
proof -
  show sub: "block s p \<subseteq> free_pages s" using p by (auto simp: is_head_def intro: free_pagesI)
  show "free_pages s' = free_pages s - block s p"
  proof (intro equalityI subsetI)
    fix x assume "x \<in> free_pages s'"
    then obtain i where i: "is_head s' i" "ptype s' i = PAGE_TYPE_FREE" "x \<in> block s' i" by (rule free_pagesE)
    have "i \<noteq> p" using i(2) p'(2) by auto
    then have i': "is_head s i" "ptype s i = PAGE_TYPE_FREE" "x \<in> block s i"
      using i same [of i] by (simp_all add: is_head_def)
    have "x \<notin> block s p" using block_unique [OF ok i'(1) p(1) i'(3)] \<open>i \<noteq> p\<close> by blast
    then show "x \<in> free_pages s - block s p" using i' by (auto simp: is_head_def intro: free_pagesI)
  next
    fix x assume "x \<in> free_pages s - block s p"
    then obtain i where i: "is_head s i" "ptype s i = PAGE_TYPE_FREE" "x \<in> block s i" "x \<notin> block s p"
      by (auto elim: free_pagesE)
    then have "i \<noteq> p" by blast
    then show "x \<in> free_pages s'" using i same [of i] by (intro free_pagesI [of i]) (simp_all add: is_head_def)
  qed
qed

definition take_block :: "nat \<Rightarrow> nat \<Rightarrow> mm_state \<Rightarrow> mm_state" where
  "take_block n p s =
     set_type p PAGE_TYPE_ALLOCATED (s\<lparr>list1_freepage := (list1_freepage s)(n := tl (list1_freepage s n))\<rparr>)"

lemma take_block_fields [mm_simps]:
  "pagestruct (take_block n p s) i = (if i = p then (pagestruct s p)\<lparr>pg_type := PAGE_TYPE_ALLOCATED\<rparr> else pagestruct s i)"
  "list1_freepage (take_block n p s) k = (if k = n then tl (list1_freepage s n) else list1_freepage s k)"
  "mm_start_phys (take_block n p s) = mm_start_phys s"
  "panicmem_start_page (take_block n p s) = panicmem_start_page s"
  by (auto simp: take_block_def set_type_def)

lemma list_page:
  assumes "lists_ok s" and "n < NUM_OF_ALLOCSIZE" and "p \<in> set (list1_freepage s n)"
  shows "is_head s p" and "ptype s p = PAGE_TYPE_FREE" and "porder s p = n"
  using assms by (auto simp: lists_ok_def is_head_def)

lemma pop_done:
  assumes "lists_ok s" and "n < NUM_OF_ALLOCSIZE" and "list1_freepage s n = p # ps"
  shows "list1_pop n s = (Some p, s\<lparr>list1_freepage := (list1_freepage s)(n := ps)\<rparr>)"
    and "alloc_done p (s\<lparr>list1_freepage := (list1_freepage s)(n := ps)\<rparr>) = Some (p, take_block n p s)"
  using list_page(2) [OF assms(1,2), of p] assms(3)
  by (simp_all add: list1_pop_def alloc_done_def take_block_def)

lemma take_block_ok:
  assumes core: "core_ok s" and n: "n < NUM_OF_ALLOCSIZE" and l: "list1_freepage s n = p # ps"
  shows "core_ok (take_block n p s)"
    and "used_blocks (take_block n p s) = insert (p, n) (used_blocks s)" and "(p, n) \<notin> used_blocks s"
    and "free_pages (take_block n p s) = free_pages s - pages_of n p" and "pages_of n p \<subseteq> free_pages s"
    and "2 ^ n dvd p" and "p < NUM_OF_PAGES"
proof -
  let ?s = "take_block n p s"
  have ok: "blocks_ok s" "lists_ok s" "addrs_ok s" using core by (simp_all add: core_ok_def)
  have p: "is_head s p" "ptype s p = PAGE_TYPE_FREE" "porder s p = n"
    by (rule list_page [OF ok(2) n, of p], simp add: l)+
  have same: "pagestruct ?s i = pagestruct s i" if "i \<noteq> p" for i using that by (simp add: mm_simps)
  have p': "porder ?s p = porder s p" "ptype ?s p = PAGE_TYPE_ALLOCATED" by (simp_all add: mm_simps)
  have "blocks_ok ?s" by (rule blocks_retype [OF ok(1) p(1) same p'(1)]) (simp_all add: p')
  moreover have "lists_ok ?s"
    unfolding lists_ok_def
  proof (intro allI impI)
    fix k assume k: "k < NUM_OF_ALLOCSIZE"
    have dk: "distinct (list1_freepage s k)"
      and sk: "set (list1_freepage s k) = {i. i < NUM_OF_PAGES \<and> ptype s i = PAGE_TYPE_FREE \<and> porder s i = k}"
      using ok(2) k by (simp_all add: lists_ok_def)
    show "distinct (list1_freepage ?s k) \<and> set (list1_freepage ?s k) =
        {i. i < NUM_OF_PAGES \<and> ptype ?s i = PAGE_TYPE_FREE \<and> porder ?s i = k}"
    proof (cases "k = n")
      case True
      then have "set ps = set (list1_freepage s k) - {p}" using dk l by auto
      then show ?thesis using True dk l sk by (auto simp: mm_simps)
    next
      case False
      then show ?thesis using dk sk p(3) by (auto simp: mm_simps)
    qed
  qed
  moreover have "addrs_ok ?s" using ok(3) by (simp add: addrs_ok_def mm_simps)
  ultimately show "core_ok ?s" by (simp add: core_ok_def)
  show "used_blocks ?s = insert (p, n) (used_blocks s)" "(p, n) \<notin> used_blocks s"
    using retype_used [OF p(1,2) same p'] p(3) by simp_all
  show "free_pages ?s = free_pages s - pages_of n p" "pages_of n p \<subseteq> free_pages s"
    using retype_free [OF ok(1) p(1,2) same p'] p(3) by simp_all
  show "2 ^ n dvd p" using head_props(2) [OF ok(1) p(1)] p(3) by simp
  show "p < NUM_OF_PAGES" using p(1) by (simp add: is_head_def)
qed

lemma take_block_mergeable:
  assumes "\<not> mergeable s i" shows "\<not> mergeable (take_block n p s) i"
  using assms by (auto simp: mergeable_def mm_simps split: if_splits)

section \<open>Splitting a block\<close>

definition split_take :: "nat \<Rightarrow> nat \<Rightarrow> mm_state \<Rightarrow> mm_state" where
  "split_take n p s =
     s\<lparr>list1_freepage := (list1_freepage s)(n := [p + 2 ^ n]),
       pagestruct := (pagestruct s)
         (p := (pagestruct s p)\<lparr>pg_allocsize := n, pg_type := PAGE_TYPE_ALLOCATED\<rparr>,
          p + 2 ^ n := (pagestruct s (p + 2 ^ n))\<lparr>pg_type := PAGE_TYPE_FREE\<rparr>)\<rparr>"

lemma even_split: "2 ^ Suc n dvd p \<Longrightarrow> even (p div 2 ^ n)" for p :: nat
  by (auto elim!: dvdE simp: ac_simps)

lemma split_block_take:
  assumes ad: "addrs_ok s" and p: "p + 2 ^ n < NUM_OF_PAGES" "2 ^ Suc n dvd p" and n: "n \<le> 12"
    and l: "list1_freepage s n = []"
  shows "\<exists>s2 s3. split_block n p s = Some s2 \<and> list1_pop n s2 = (Some p, s3)
           \<and> alloc_done p s3 = Some (p, split_take n p s)"
proof -
  have dv: "2 ^ n dvd p" using p(2) by (rule power_le_dvd) simp
  have "page_to_virt s p = page_virt p" using ad p(1) by (simp add: addrs_ok_def page_to_virt_def)
  then have "page_to_virt s p XOR allocsize n = page_virt (p + 2 ^ n)"
    using page_virt_xor [of p n] p n dv even_split [OF p(2)] by (simp add: buddy_def)
  then have "virt_to_page (page_to_virt s p XOR allocsize n) = Some (p + 2 ^ n)"
    using virt_to_page_virt p(1) by simp
  then show ?thesis
    using l by (simp add: split_block_def list1_pop_def alloc_done_def mm_simps split_take_def
        list1_add_def set_type_def set_allocsize_def fun_eq_iff)
qed

lemma split_take_fields [mm_simps]:
  "pagestruct (split_take n p s) i =
     (if i = p then (pagestruct s p)\<lparr>pg_allocsize := n, pg_type := PAGE_TYPE_ALLOCATED\<rparr>
      else if i = p + 2 ^ n then (pagestruct s (p + 2 ^ n))\<lparr>pg_type := PAGE_TYPE_FREE\<rparr>
      else pagestruct s i)"
  "list1_freepage (split_take n p s) k = (if k = n then [p + 2 ^ n] else list1_freepage s k)"
  "mm_start_phys (split_take n p s) = mm_start_phys s"
  "panicmem_start_page (split_take n p s) = panicmem_start_page s"
  by (auto simp: split_take_def)

lemma buddy_invol:
  assumes "2 ^ n dvd i" shows "buddy n (buddy n i) = i"
proof -
  obtain k where k: "i = 2 ^ n * k" using assms by (rule dvdE)
  have "(2 ^ n * k - 2 ^ n) div 2 ^ n = k - 1" for k :: nat
    using nonzero_mult_div_cancel_left [of "2 ^ n :: nat" "k - 1"] by (simp add: diff_mult_distrib2)
  moreover have "(2 ^ n * k + 2 ^ n) div 2 ^ n = k + 1" for k :: nat
    using nonzero_mult_div_cancel_left [of "2 ^ n :: nat" "k + 1"] by simp
  ultimately show ?thesis by (cases k) (auto simp: buddy_def k)
qed

text \<open>A block \<open>p\<close> of order \<open>n + 1\<close> that has just been taken, when there is none of order \<open>n\<close>.\<close>

definition to_split :: "mm_state \<Rightarrow> nat \<Rightarrow> nat \<Rightarrow> bool" where
  "to_split s p n =
     (core_ok s \<and> (p, Suc n) \<in> used_blocks s \<and> ptype s p = PAGE_TYPE_ALLOCATED \<and> list1_freepage s n = []
      \<and> Suc n < NUM_OF_ALLOCSIZE)"

lemma to_splitD:
  assumes "to_split s p n"
  shows "ptype s p = PAGE_TYPE_ALLOCATED" and "list1_freepage s n = []"
  using assms by (simp_all add: to_split_def)

lemma st_p:
  assumes "to_split s p n" shows "is_head s p" "porder s p = Suc n" "p < NUM_OF_PAGES"
  using assms by (auto simp: to_split_def used_blocks_def is_head_def)

lemma st_ok:
  assumes "to_split s p n" shows "blocks_ok s" "lists_ok s" "addrs_ok s"
  using assms by (simp_all add: to_split_def core_ok_def)

lemma st_dvd:
  assumes sp: "to_split s p n" shows "2 ^ Suc n dvd p" "2 ^ n dvd p" "2 ^ n dvd p + 2 ^ n"
proof -
  note st_p = st_p [OF sp] and st_ok = st_ok [OF sp]
  show d: "2 ^ Suc n dvd p" using head_props(2) [OF st_ok(1) st_p(1)] st_p(2) by simp
  show "2 ^ n dvd p" using d by (rule power_le_dvd) simp
  then show "2 ^ n dvd p + 2 ^ n" by simp
qed

lemma st_q:
  assumes sp: "to_split s p n"
  shows "p + 2 ^ n < NUM_OF_PAGES" "ptype s (p + 2 ^ n) = PAGE_TYPE_NOT_HEAD" "porder s (p + 2 ^ n) = n"
  using block_in_range [OF st_ok(1) [OF sp] st_p(1) [OF sp], of "p + 2 ^ n"]
    head_props(3) [OF st_ok(1) [OF sp] st_p(1) [OF sp]] st_p(2) [OF sp]
  by (auto simp: pages_of_def)

lemma split_take_core:
  assumes sp: "to_split s p n" shows "core_ok (split_take n p s)"
proof -
  note al = to_splitD(1) [OF sp] and l = to_splitD(2) [OF sp] and st_p = st_p [OF sp] and st_ok = st_ok [OF sp]
    and st_dvd = st_dvd [OF sp] and st_q = st_q [OF sp]
  let ?s = "split_take n p s"
  have "blocks_ok ?s"
    by (rule blocks_split(1) [OF st_ok(1) st_p(1,2)]) (simp_all add: mm_simps st_q)
  moreover have "lists_ok ?s"
    unfolding lists_ok_def
  proof (intro allI impI)
    fix k assume k: "k < NUM_OF_ALLOCSIZE"
    have dk: "distinct (list1_freepage s k)"
      and sk: "set (list1_freepage s k) = {i. i < NUM_OF_PAGES \<and> ptype s i = PAGE_TYPE_FREE \<and> porder s i = k}"
      using st_ok(2) k by (simp_all add: lists_ok_def)
    show "distinct (list1_freepage ?s k) \<and> set (list1_freepage ?s k) =
        {i. i < NUM_OF_PAGES \<and> ptype ?s i = PAGE_TYPE_FREE \<and> porder ?s i = k}"
    proof (cases "k = n")
      case True
      have "{i. i < NUM_OF_PAGES \<and> ptype s i = PAGE_TYPE_FREE \<and> porder s i = n} = {}" using sk l True by simp
      then show ?thesis using True st_q by (auto simp: mm_simps)
    next
      case False
      have "ptype ?s i = PAGE_TYPE_FREE \<and> porder ?s i = k \<longleftrightarrow> ptype s i = PAGE_TYPE_FREE \<and> porder s i = k" for i
        using False al st_q by (cases "i = p"; cases "i = p + 2 ^ n") (simp_all add: mm_simps)
      then show ?thesis using dk sk False by (simp add: mm_simps)
    qed
  qed
  moreover have "addrs_ok ?s" using st_ok(3) by (simp add: addrs_ok_def mm_simps)
  ultimately show ?thesis by (simp add: core_ok_def)
qed

lemma split_take_used:
  assumes sp: "to_split s p n"
  shows "used_blocks (split_take n p s) = insert (p, n) (used_blocks s - {(p, Suc n)})"
proof -
  note al = to_splitD(1) [OF sp] and l = to_splitD(2) [OF sp] and st_p = st_p [OF sp] and st_ok = st_ok [OF sp]
    and st_dvd = st_dvd [OF sp] and st_q = st_q [OF sp]
  have "(i, k) \<in> used_blocks (split_take n p s) \<longleftrightarrow> (i, k) \<in> insert (p, n) (used_blocks s - {(p, Suc n)})" for i k
  proof -
    consider "i = p" | "i = p + 2 ^ n" | "i \<noteq> p" "i \<noteq> p + 2 ^ n" by blast
    then show ?thesis
    proof cases
      case 1
      then show ?thesis using st_p al by (auto simp add: used_blocks_def mm_simps)
    next
      case 2
      then show ?thesis using st_q by (simp add: used_blocks_def mm_simps)
    qed (simp add: used_blocks_def mm_simps)
  qed
  then show ?thesis by auto
qed

lemma split_take_free:
  assumes sp: "to_split s p n"
  shows "free_pages (split_take n p s) = free_pages s \<union> pages_of n (p + 2 ^ n)"
proof (intro equalityI subsetI)
  note al = to_splitD(1) [OF sp] and l = to_splitD(2) [OF sp] and st_p = st_p [OF sp] and st_ok = st_ok [OF sp]
    and st_dvd = st_dvd [OF sp] and st_q = st_q [OF sp]
  let ?s = "split_take n p s"
  fix x assume "x \<in> free_pages ?s"
  then obtain i where i: "is_head ?s i" "ptype ?s i = PAGE_TYPE_FREE" "x \<in> block ?s i" by (rule free_pagesE)
  then show "x \<in> free_pages s \<union> pages_of n (p + 2 ^ n)"
    using st_q by (cases "i = p + 2 ^ n") (auto simp: mm_simps is_head_def intro: free_pagesI split: if_splits)
next
  note al = to_splitD(1) [OF sp] and l = to_splitD(2) [OF sp] and st_p = st_p [OF sp] and st_ok = st_ok [OF sp]
    and st_dvd = st_dvd [OF sp] and st_q = st_q [OF sp]
  let ?s = "split_take n p s"
  fix x assume "x \<in> free_pages s \<union> pages_of n (p + 2 ^ n)"
  then show "x \<in> free_pages ?s"
  proof
    assume "x \<in> free_pages s"
    then obtain i where i: "is_head s i" "ptype s i = PAGE_TYPE_FREE" "x \<in> block s i" by (rule free_pagesE)
    then have "i \<noteq> p" "i \<noteq> p + 2 ^ n" using al st_q by auto
    then show ?thesis using i by (intro free_pagesI [of i]) (auto simp: mm_simps is_head_def)
  next
    assume "x \<in> pages_of n (p + 2 ^ n)"
    then show ?thesis using st_q by (intro free_pagesI [of "p + 2 ^ n"]) (auto simp: mm_simps)
  qed
qed

lemma split_take_mergeable:
  assumes sp: "to_split s p n" and nm: "\<forall>i<NUM_OF_PAGES. \<not> mergeable s i" and i: "i < NUM_OF_PAGES"
  shows "\<not> mergeable (split_take n p s) i"
proof
  note al = to_splitD(1) [OF sp] and l = to_splitD(2) [OF sp] and st_p = st_p [OF sp] and st_ok = st_ok [OF sp]
    and st_dvd = st_dvd [OF sp] and st_q = st_q [OF sp]
  let ?s = "split_take n p s" and ?q = "p + 2 ^ n"
  assume m: "mergeable ?s i"
  have bq: "buddy n ?q = p" using buddy_invol [OF st_dvd(2)] even_split [OF st_dvd(1)] by (simp add: buddy_def)
  have ip: "i \<noteq> p" using m by (auto simp: mergeable_def mm_simps)
  show False
  proof (cases "i = ?q")
    case True
    then show False using m bq st_q by (auto simp: mergeable_def mm_simps)
  next
    case False
    then have same: "pagestruct ?s i = pagestruct s i" using ip by (simp add: mm_simps)
    have "is_head s i" using m same i by (simp add: is_head_def mergeable_def)
    then have dv: "2 ^ porder s i dvd i" by (rule head_props(2) [OF st_ok(1)])
    let ?b = "buddy (porder s i) i"
    have "?b \<noteq> p" using m same by (auto simp: mergeable_def mm_simps)
    moreover have "?b \<noteq> ?q"
    proof
      assume b: "?b = ?q"
      then have "porder s i = n" using m same st_q by (auto simp: mergeable_def mm_simps)
      then show False using b bq buddy_invol [OF dv] ip by simp
    qed
    ultimately have "mergeable s i" using m same by (simp add: mergeable_def mm_simps)
    then show False using nm i by blast
  qed
qed

section \<open>The allocation of a block\<close>

definition alloc_spec :: "nat \<Rightarrow> mm_state \<Rightarrow> nat \<Rightarrow> mm_state \<Rightarrow> bool" where
  "alloc_spec n s p s' =
     (mm_ok s' \<and> p < NUM_OF_PAGES \<and> 2 ^ n dvd p \<and> ptype s' p = PAGE_TYPE_ALLOCATED
      \<and> pages_of n p \<subseteq> free_pages s \<and> free_pages s' = free_pages s - pages_of n p
      \<and> (p, n) \<notin> used_blocks s \<and> used_blocks s' = insert (p, n) (used_blocks s)
      \<and> mm_start_phys s' = mm_start_phys s \<and> panicmem_start_page s' = panicmem_start_page s)"

lemma take_block_spec:
  assumes ok: "mm_ok s" and n: "n < NUM_OF_ALLOCSIZE" and l: "list1_freepage s n = p # ps"
  shows "alloc_spec n s p (take_block n p s)"
  using take_block_ok [OF _ n l] take_block_mergeable ok
  by (simp add: alloc_spec_def mm_ok_def mm_simps)

lemma split_take_spec:
  assumes n: "Suc n < NUM_OF_ALLOCSIZE" and sp: "alloc_spec (Suc n) s p s1" and l: "list1_freepage s1 n = []"
    and ok: "mm_ok s"
  shows "alloc_spec n s p (split_take n p s1)"
proof -
  have h: "to_split s1 p n"
    using sp l n by (simp add: to_split_def alloc_spec_def mm_ok_def)
  note S = split_take_core [OF h] split_take_used [OF h] split_take_free [OF h]
    split_take_mergeable [OF h] st_dvd [OF h]
  have fr: "pages_of (Suc n) p \<subseteq> free_pages s" "free_pages s1 = free_pages s - pages_of (Suc n) p"
    using sp by (simp_all add: alloc_spec_def)
  have us: "(p, Suc n) \<notin> used_blocks s" "used_blocks s1 = insert (p, Suc n) (used_blocks s)"
    using sp by (simp_all add: alloc_spec_def)
  have dis: "pages_of n p \<inter> pages_of n (p + 2 ^ n) = {}" by (auto simp: pages_of_def)
  have "free_pages (split_take n p s1) = free_pages s - pages_of n p"
    using S(3) fr dis unfolding pages_of_Suc by blast
  moreover have "pages_of n p \<subseteq> free_pages s" using fr(1) unfolding pages_of_Suc by blast
  moreover have "used_blocks (split_take n p s1) = insert (p, n) (used_blocks s)" using S(2) us by simp
  moreover have "(p, n) \<notin> used_blocks s"
  proof
    assume "(p, n) \<in> used_blocks s"
    then have "(p, n) \<in> used_blocks s1" using us by simp
    then show False using h by (simp add: to_split_def used_blocks_def)
  qed
  moreover have "mm_ok (split_take n p s1)" using S(1,4) sp by (simp add: alloc_spec_def mm_ok_def)
  ultimately show ?thesis using sp S(6) by (simp add: alloc_spec_def mm_simps)
qed

lemma mm_page_alloc_cases:
  "\<not> n < NUM_OF_ALLOCSIZE \<Longrightarrow> mm_page_alloc n s = None"
  "n < NUM_OF_ALLOCSIZE \<Longrightarrow> list1_pop n s = (Some p, s1) \<Longrightarrow> mm_page_alloc n s = alloc_done p s1"
  "n < NUM_OF_ALLOCSIZE \<Longrightarrow> list1_pop n s = (None, s1) \<Longrightarrow> mm_page_alloc (Suc n) s = None \<Longrightarrow>
     mm_page_alloc n s = None"
  "n < NUM_OF_ALLOCSIZE \<Longrightarrow> list1_pop n s = (None, s1) \<Longrightarrow> mm_page_alloc (Suc n) s = Some (q, s2) \<Longrightarrow>
     split_block n q s2 = Some s3 \<Longrightarrow> list1_pop n s3 = (Some p', s4) \<Longrightarrow>
     mm_page_alloc n s = alloc_done p' s4"
  using mm_page_alloc.simps [of n s] by simp_all

lemma mm_page_alloc_result:
  assumes "mm_ok s"
  shows "(\<exists>p s'. mm_page_alloc n s = Some (p, s') \<and> alloc_spec n s p s'
             \<and> (\<forall>k<n. list1_freepage s' k = list1_freepage s k)
             \<and> (\<exists>k. n \<le> k \<and> k < NUM_OF_ALLOCSIZE \<and> list1_freepage s k \<noteq> []))
         \<or> (mm_page_alloc n s = None \<and> (\<forall>k. n \<le> k \<and> k < NUM_OF_ALLOCSIZE \<longrightarrow> list1_freepage s k = []))"
proof (induction "NUM_OF_ALLOCSIZE - n" arbitrary: n)
  case 0
  then show ?case using mm_page_alloc_cases(1) [of n s] by auto
next
  case (Suc d)
  have lo: "lists_ok s" using assms by (simp add: mm_ok_def core_ok_def)
  have n: "n < NUM_OF_ALLOCSIZE" using Suc.hyps(2) by simp
  show ?case
  proof (cases "list1_freepage s n")
    case (Cons q ps)
    then have "mm_page_alloc n s = Some (q, take_block n q s)"
      using mm_page_alloc_cases(2) [OF n] pop_done [OF lo n Cons] by simp
    moreover have "\<exists>k\<ge>n. k < NUM_OF_ALLOCSIZE \<and> list1_freepage s k \<noteq> []" using n Cons by auto
    ultimately show ?thesis using take_block_spec [OF assms n Cons] by (simp add: mm_simps)
  next
    case Nil
    then have pop: "list1_pop n s = (None, s)" by (simp add: list1_pop_def)
    have IH: "(\<exists>p s'. mm_page_alloc (Suc n) s = Some (p, s') \<and> alloc_spec (Suc n) s p s'
             \<and> (\<forall>k<Suc n. list1_freepage s' k = list1_freepage s k)
             \<and> (\<exists>k. Suc n \<le> k \<and> k < NUM_OF_ALLOCSIZE \<and> list1_freepage s k \<noteq> []))
         \<or> (mm_page_alloc (Suc n) s = None \<and> (\<forall>k. Suc n \<le> k \<and> k < NUM_OF_ALLOCSIZE \<longrightarrow> list1_freepage s k = []))"
      using Suc.hyps(2) by (intro Suc.hyps(1)) simp
    show ?thesis
    proof (cases "mm_page_alloc (Suc n) s")
      case None
      then have "\<forall>k. n \<le> k \<and> k < NUM_OF_ALLOCSIZE \<longrightarrow> list1_freepage s k = []"
        using IH Nil by (metis Suc_leI le_neq_implies_less option.distinct(1))
      then show ?thesis using mm_page_alloc_cases(3) [OF n pop None] by simp
    next
      case (Some a)
      obtain q s1 where a: "a = (q, s1)" by (cases a)
      have r: "mm_page_alloc (Suc n) s = Some (q, s1)" using Some a by simp
      have sp: "alloc_spec (Suc n) s q s1" and fr: "\<forall>k<Suc n. list1_freepage s1 k = list1_freepage s k"
        and ex: "\<exists>k. Suc n \<le> k \<and> k < NUM_OF_ALLOCSIZE \<and> list1_freepage s k \<noteq> []"
        using IH r by simp_all
      then have n1: "Suc n < NUM_OF_ALLOCSIZE" and l1: "list1_freepage s1 n = []" using Nil by auto
      have h: "to_split s1 q n" using sp l1 n1 by (simp add: to_split_def alloc_spec_def mm_ok_def)
      have "n \<le> 12" using n by (simp add: NUM_OF_ALLOCSIZE_def)
      from split_block_take [OF st_ok(3) [OF h] st_q(1) [OF h] st_dvd(1) [OF h] this l1]
      obtain s2 s3 where "split_block n q s1 = Some s2" "list1_pop n s2 = (Some q, s3)"
        "alloc_done q s3 = Some (q, split_take n q s1)" by blast
      then have "mm_page_alloc n s = Some (q, split_take n q s1)"
        using mm_page_alloc_cases(4) [OF n pop r] by simp
      moreover have "\<exists>k\<ge>n. k < NUM_OF_ALLOCSIZE \<and> list1_freepage s k \<noteq> []"
        using ex by (meson Suc_leD)
      ultimately show ?thesis using split_take_spec [OF n1 sp l1 assms] fr by (simp add: mm_simps)
    qed
  qed
qed

lemma mm_page_alloc_some: "mm_ok s \<Longrightarrow> mm_page_alloc n s = Some (p, s') \<Longrightarrow> alloc_spec n s p s'"
  using mm_page_alloc_result [of s n] by auto

lemma mm_page_alloc_none:
  "mm_ok s \<Longrightarrow> mm_page_alloc n s = None \<longleftrightarrow> (\<forall>k. n \<le> k \<and> k < NUM_OF_ALLOCSIZE \<longrightarrow> list1_freepage s k = [])"
  using mm_page_alloc_result [of s n] by auto

section \<open>The release of a block\<close>

lemma without_two:
  "\<not> R \<Longrightarrow> {i. P i \<and> (if i = a then R else if i = b then False else Q i)} = {i. P i \<and> Q i} - {a, b}"
  by auto

lemma with_one:
  "R \<Longrightarrow> P a \<Longrightarrow> \<not> Q b \<Longrightarrow>
     {i. P i \<and> (if i = a then R else if i = b then False else Q i)} = insert a {i. P i \<and> Q i}"
  "\<not> R \<Longrightarrow> \<not> Q a \<Longrightarrow> \<not> Q b \<Longrightarrow>
     {i. P i \<and> (if i = a then R else if i = b then False else Q i)} = {i. P i \<and> Q i}"
  by auto

lemma merge_free_step:
  assumes core: "core_ok s" and lo: "is_head s lo" "ptype s lo = PAGE_TYPE_FREE" "porder s lo = n"
    and hi: "is_head s (lo + 2 ^ n)" "ptype s (lo + 2 ^ n) = PAGE_TYPE_FREE" "porder s (lo + 2 ^ n) = n"
    and n: "Suc n < NUM_OF_ALLOCSIZE" and dv: "2 ^ Suc n dvd lo"
    and s': "s' = list1_add (Suc n) lo (set_allocsize lo (Suc n) (set_type (lo + 2 ^ n) PAGE_TYPE_NOT_HEAD
               (list1_del n (lo + 2 ^ n) (list1_del n lo s))))"
  shows "core_ok s'" and "free_pages s' = free_pages s" and "used_blocks s' = used_blocks s"
    and "is_head s' lo" and "ptype s' lo = PAGE_TYPE_FREE" and "porder s' lo = Suc n"
    and "ptype s' (lo + 2 ^ n) = PAGE_TYPE_NOT_HEAD"
    and "i \<noteq> lo \<Longrightarrow> i \<noteq> lo + 2 ^ n \<Longrightarrow> pagestruct s' i = pagestruct s i"
proof -
  let ?hi = "lo + 2 ^ n"
  have ok: "blocks_ok s" "lists_ok s" "addrs_ok s" using core by (simp_all add: core_ok_def)
  have same: "pagestruct s' i = pagestruct s i" if "i \<noteq> lo" "i \<noteq> ?hi" for i
    using that by (simp add: s' mm_simps)
  then show "i \<noteq> lo \<Longrightarrow> i \<noteq> lo + 2 ^ n \<Longrightarrow> pagestruct s' i = pagestruct s i" .
  have l': "porder s' lo = Suc n" "ptype s' lo = PAGE_TYPE_FREE" using lo by (simp_all add: s' mm_simps)
  have h': "porder s' ?hi = n" "ptype s' ?hi = PAGE_TYPE_NOT_HEAD" using hi by (simp_all add: s' mm_simps)
  show "ptype s' lo = PAGE_TYPE_FREE" "porder s' lo = Suc n" "ptype s' ?hi = PAGE_TYPE_NOT_HEAD"
    using l' h' by simp_all
  note M = blocks_merge [OF ok(1) lo(1,3) hi(1,3) n dv same l'(1) _ h']
  have bl: "blocks_ok s'" by (rule M(1)) (simp_all add: l')
  have hd: "is_head s' i \<longleftrightarrow> is_head s i \<and> i \<noteq> ?hi" for i by (rule M(2)) (simp_all add: l')
  show "is_head s' lo" using hd lo(1) by simp
  have ph: "ptype s' i = PAGE_TYPE_FREE \<and> porder s' i = k \<longleftrightarrow>
      (if i = lo then k = Suc n else if i = ?hi then False else ptype s i = PAGE_TYPE_FREE \<and> porder s i = k)" for i k
    using l' h' same [of i] by (cases "i = lo"; cases "i = ?hi") auto
  have "lists_ok s'"
    unfolding lists_ok_def
  proof (intro allI impI)
    fix k assume k: "k < NUM_OF_ALLOCSIZE"
    have dk: "distinct (list1_freepage s k)"
      and sk: "set (list1_freepage s k) = {i. i < NUM_OF_PAGES \<and> ptype s i = PAGE_TYPE_FREE \<and> porder s i = k}"
      using ok(2) k by (simp_all add: lists_ok_def)
    have lh: "lo < NUM_OF_PAGES" "?hi < NUM_OF_PAGES" using lo(1) hi(1) by (simp_all add: is_head_def)
    consider "k = n" | "k = Suc n" | "k \<noteq> n" "k \<noteq> Suc n" by blast
    then show "distinct (list1_freepage s' k) \<and> set (list1_freepage s' k) =
        {i. i < NUM_OF_PAGES \<and> ptype s' i = PAGE_TYPE_FREE \<and> porder s' i = k}"
    proof cases
      case 1
      have "list1_freepage s' k = remove1 ?hi (remove1 lo (list1_freepage s k))" using 1 by (simp add: s' mm_simps)
      moreover have "set (remove1 ?hi (remove1 lo (list1_freepage s k))) = set (list1_freepage s k) - {lo, ?hi}"
        using dk by (auto simp: set_remove1_eq)
      moreover have "{i. i < NUM_OF_PAGES \<and> ptype s' i = PAGE_TYPE_FREE \<and> porder s' i = k}
          = set (list1_freepage s k) - {lo, ?hi}"
        unfolding sk ph by (rule without_two) (simp add: 1)
      ultimately show ?thesis using dk by (simp add: distinct_remove1)
    next
      case 2
      have "list1_freepage s' k = list1_freepage s k @ [lo]" using 2 by (simp add: s' mm_simps)
      moreover have "lo \<notin> set (list1_freepage s k)" "?hi \<notin> set (list1_freepage s k)" using sk 2 lo(3) hi(3) by auto
      moreover have "{i. i < NUM_OF_PAGES \<and> ptype s' i = PAGE_TYPE_FREE \<and> porder s' i = k}
          = insert lo (set (list1_freepage s k))"
        unfolding sk ph by (rule with_one(1)) (simp_all add: 2 lh hi(3))
      ultimately show ?thesis using dk by simp
    next
      case 3
      have "list1_freepage s' k = list1_freepage s k" using 3 by (simp add: s' mm_simps)
      moreover have "lo \<notin> set (list1_freepage s k)" "?hi \<notin> set (list1_freepage s k)" using sk 3 lo(3) hi(3) by auto
      moreover have "{i. i < NUM_OF_PAGES \<and> ptype s' i = PAGE_TYPE_FREE \<and> porder s' i = k}
          = set (list1_freepage s k)"
        unfolding sk ph by (rule with_one(2)) (use 3 lo(3) hi(3) in simp_all)
      ultimately show ?thesis using dk by simp
    qed
  qed
  moreover have "addrs_ok s'" using ok(3) by (simp add: addrs_ok_def s' mm_simps)
  ultimately show "core_ok s'" using bl by (simp add: core_ok_def)
  have "(i, k) \<in> used_blocks s' \<longleftrightarrow> (i, k) \<in> used_blocks s" for i k
    using l' h' lo(2) hi(2) same [of i] by (cases "i = lo"; cases "i = ?hi") (auto simp: used_blocks_def)
  then show "used_blocks s' = used_blocks s" by auto
  show "free_pages s' = free_pages s"
  proof (intro equalityI subsetI)
    fix x assume "x \<in> free_pages s'"
    then obtain i where i: "is_head s' i" "ptype s' i = PAGE_TYPE_FREE" "x \<in> block s' i" by (rule free_pagesE)
    show "x \<in> free_pages s"
    proof (cases "i = lo")
      case True
      then have "x \<in> block s lo \<or> x \<in> block s ?hi" using i(3) l' lo(3) hi(3) by (auto simp: pages_of_def)
      then show ?thesis
        using free_pagesI [of lo s x] free_pagesI [of ?hi s x] lo(1,2) hi(1,2) by (auto simp: is_head_def)
    next
      case False
      moreover have "is_head s i" "i \<noteq> ?hi" using i(1) hd by blast+
      ultimately show ?thesis
        using i(2,3) same [of i] by (intro free_pagesI [of i]) (simp_all add: is_head_def)
    qed
  next
    fix x assume "x \<in> free_pages s"
    then obtain i where i: "is_head s i" "ptype s i = PAGE_TYPE_FREE" "x \<in> block s i" by (rule free_pagesE)
    show "x \<in> free_pages s'"
    proof (cases "i = lo \<or> i = ?hi")
      case True
      then have "x \<in> block s' lo" using i(3) l' lo(3) hi(3) by (auto simp: pages_of_def)
      then show ?thesis using lo(1) l' by (auto simp: is_head_def intro: free_pagesI)
    next
      case False
      then show ?thesis using i same [of i] by (intro free_pagesI [of i]) (simp_all add: is_head_def)
    qed
  qed
qed

definition only_mergeable :: "nat \<Rightarrow> mm_state \<Rightarrow> bool" where
  "only_mergeable p s = (\<forall>i<NUM_OF_PAGES. mergeable s i \<longrightarrow> i = p \<or> buddy (porder s i) i = p)"

lemma buddy_cases:
  assumes "2 ^ n dvd p"
  obtains (lo) "2 ^ Suc n dvd p" "buddy n p = p + 2 ^ n" "even (p div 2 ^ n)"
  | (hi) "2 ^ Suc n dvd buddy n p" "p = buddy n p + 2 ^ n" "odd (p div 2 ^ n)"
proof (cases "even (p div 2 ^ n)")
  case True
  then show ?thesis using lo assms even_div_dvd [OF assms] by (simp add: buddy_def)
next
  case False
  obtain k where k: "p = 2 ^ n * k" using assms by (rule dvdE)
  have ok: "odd k" using False k by simp
  then obtain m where m: "k = 2 * m + 1" by (rule oddE)
  have "buddy n p = p - 2 ^ n" using False by (simp add: buddy_def)
  also have "\<dots> = 2 ^ Suc n * m" unfolding k m by (simp add: algebra_simps)
  finally have b: "buddy n p = 2 ^ Suc n * m" .
  have "p = 2 ^ Suc n * m + 2 ^ n" unfolding k m by (simp add: algebra_simps)
  then have "p = buddy n p + 2 ^ n" using b by simp
  then show ?thesis using hi b False by simp
qed

lemma merge_blocks_stop:
  assumes core: "core_ok s" and p: "is_head s p" "ptype s p = PAGE_TYPE_FREE" "porder s p = n"
    and om: "only_mergeable p s" and no: "\<not> mergeable s p"
  shows "mm_ok s"
proof -
  have ok: "blocks_ok s" using core by (simp add: core_ok_def)
  have "\<not> mergeable s i" if i: "i < NUM_OF_PAGES" for i
  proof
    assume m: "mergeable s i"
    have "is_head s i" using m i by (simp add: mergeable_def is_head_def)
    then have dv: "2 ^ porder s i dvd i" by (rule head_props(2) [OF ok])
    have "buddy (porder s i) i = p" using om m i no by (auto simp: only_mergeable_def)
    then have "buddy (porder s i) p = i" and "porder s i = porder s p"
      using buddy_invol [OF dv] m by (auto simp: mergeable_def)
    then have "mergeable s p" using m p by (auto simp: mergeable_def)
    then show False using no by blast
  qed
  then show ?thesis using core by (simp add: mm_ok_def)
qed

lemma merge_blocks_ok:
  assumes "core_ok s" and "is_head s p" and "ptype s p = PAGE_TYPE_FREE" and "porder s p = n"
    and "only_mergeable p s"
  shows "\<exists>s'. merge_blocks n p s = Some s' \<and> mm_ok s' \<and> free_pages s' = free_pages s
           \<and> used_blocks s' = used_blocks s \<and> mm_start_phys s' = mm_start_phys s
           \<and> panicmem_start_page s' = panicmem_start_page s"
  using assms
proof (induction "NUM_OF_ALLOCSIZE - n" arbitrary: n p s)
  case 0
  then have "blocks_ok s" by (simp add: core_ok_def)
  then show ?case using head_props(1) [of s p] 0 by simp
next
  case (Suc d)
  note core = Suc.prems(1) and p = Suc.prems(2-4) and om = Suc.prems(5)
  have ok: "blocks_ok s" "addrs_ok s" using core by (simp_all add: core_ok_def)
  have pN: "p < NUM_OF_PAGES" using p(1) by (simp add: is_head_def)
  have dv: "2 ^ n dvd p" and n: "n \<le> 12"
    using head_props(1,2) [OF ok(1) p(1)] p(3) by (simp_all add: NUM_OF_ALLOCSIZE_def)
  have pv: "page_to_virt s p = page_virt p" using ok(2) pN by (simp add: addrs_ok_def page_to_virt_def)
  show ?case
  proof (cases "mergeable s p")
    case False
    have "merge_blocks n p s = Some s"
    proof (cases "n < NUM_OF_ALLOCSIZE - 1")
      case True
      then have "virt_to_page (page_virt p XOR allocsize n) = Some (buddy n p)"
        using page_virt_xor [OF pN n dv] virt_to_page_virt buddy_lt [OF pN _ dv] by (simp add: NUM_OF_ALLOCSIZE_def)
      then show ?thesis
        using False True p pv by (auto simp: merge_blocks.simps [of n p s] mergeable_def)
    next
      case False
      then show ?thesis by (simp add: merge_blocks.simps [of n p s])
    qed
    then show ?thesis using merge_blocks_stop [OF core p om False] by simp
  next
    case True
    then have n1: "n < NUM_OF_ALLOCSIZE - 1" "Suc n < NUM_OF_ALLOCSIZE"
      and q: "ptype s (buddy n p) = PAGE_TYPE_FREE" "porder s (buddy n p) = n"
      using p by (auto simp: mergeable_def NUM_OF_ALLOCSIZE_def)
    have qN: "buddy n p < NUM_OF_PAGES" using buddy_lt [OF pN _ dv] n1 by (simp add: NUM_OF_ALLOCSIZE_def)
    then have qh: "is_head s (buddy n p)" using q by (simp add: is_head_def)
    have vp: "virt_to_page (page_virt p XOR allocsize n) = Some (buddy n p)"
      using page_virt_xor [OF pN n dv] virt_to_page_virt [OF qN] by simp
    define lo where "lo = (if even (p div 2 ^ n) then p else buddy n p)"
    have lo_hi: "{p, buddy n p} = {lo, lo + 2 ^ n}" "2 ^ Suc n dvd lo"
      "(if page_virt p AND allocsize n \<noteq> 0 then (buddy n p, p) else (p, buddy n p)) = (lo, lo + 2 ^ n)"
      using page_virt_and [OF pN n] by (cases rule: buddy_cases [OF dv]; auto simp: lo_def)+
    have lh: "is_head s lo" "ptype s lo = PAGE_TYPE_FREE" "porder s lo = n"
      "is_head s (lo + 2 ^ n)" "ptype s (lo + 2 ^ n) = PAGE_TYPE_FREE" "porder s (lo + 2 ^ n) = n"
      using lo_hi(1) p q qh by (auto simp: doubleton_eq_iff)
    define s' where "s' = list1_add (Suc n) lo (set_allocsize lo (Suc n) (set_type (lo + 2 ^ n) PAGE_TYPE_NOT_HEAD
               (list1_del n (lo + 2 ^ n) (list1_del n lo s))))"
    note S = merge_free_step [OF core lh n1(2) lo_hi(2) s'_def]
    have step: "merge_blocks n p s = merge_blocks (Suc n) lo s'"
      using n1 q lo_hi(3) by (simp add: merge_blocks.simps [of n p s] pv vp s'_def Let_def)
    have "only_mergeable lo s'"
      unfolding only_mergeable_def
    proof (intro allI impI)
      fix i assume i: "i < NUM_OF_PAGES" and m: "mergeable s' i"
      let ?b = "buddy (porder s' i) i"
      show "i = lo \<or> ?b = lo"
      proof (rule ccontr)
        assume no: "\<not> (i = lo \<or> ?b = lo)"
        have "i \<noteq> lo + 2 ^ n" "?b \<noteq> lo + 2 ^ n" using m S(7) by (auto simp: mergeable_def)
        then have same: "pagestruct s' i = pagestruct s i" "pagestruct s' ?b = pagestruct s ?b"
          using no S(8) by blast+
        then have "mergeable s i" using m by (simp add: mergeable_def)
        then have "i = p \<or> ?b = p" using om i same by (auto simp: only_mergeable_def)
        then show False using no lo_hi(1) \<open>i \<noteq> lo + 2 ^ n\<close> \<open>?b \<noteq> lo + 2 ^ n\<close> by blast
      qed
    qed
    moreover have "d = NUM_OF_ALLOCSIZE - Suc n" using Suc.hyps(2) by simp
    ultimately obtain s2 where "merge_blocks (Suc n) lo s' = Some s2" "mm_ok s2" "free_pages s2 = free_pages s'"
      "used_blocks s2 = used_blocks s'" "mm_start_phys s2 = mm_start_phys s'"
      "panicmem_start_page s2 = panicmem_start_page s'"
      using Suc.hyps(1) [of "Suc n" s' lo] S(1,4-6) by auto
    then show ?thesis using step S(2,3)
      by (simp add: s'_def mm_simps list1_add_def list1_del_def set_type_def set_allocsize_def)
  qed
qed

definition free_spec :: "nat \<Rightarrow> mm_state \<Rightarrow> mm_state \<Rightarrow> bool" where
  "free_spec p s s' =
     (mm_ok s' \<and> free_pages s' = free_pages s \<union> block s p
      \<and> used_blocks s' = used_blocks s - {(p, porder s p)}
      \<and> mm_start_phys s' = mm_start_phys s \<and> panicmem_start_page s' = panicmem_start_page s)"

lemma mm_page_free_result:
  assumes ok: "mm_ok s" and u: "(p, n) \<in> used_blocks s"
  shows "\<exists>s'. mm_page_free p s = Some s' \<and> free_spec p s s'"
proof -
  have oks: "blocks_ok s" "lists_ok s" "addrs_ok s" using ok by (simp_all add: mm_ok_def core_ok_def)
  have p: "is_head s p" "porder s p = n" "ptype s p \<noteq> PAGE_TYPE_FREE" "p < NUM_OF_PAGES"
    using u by (auto simp: used_blocks_def is_head_def)
  let ?s = "list1_add n p (set_type p PAGE_TYPE_FREE s)"
  have same: "pagestruct ?s i = pagestruct s i" if "i \<noteq> p" for i using that by (simp add: mm_simps)
  have p': "porder ?s p = porder s p" "ptype ?s p = PAGE_TYPE_FREE" by (simp_all add: mm_simps)
  have bl: "blocks_ok ?s" by (rule blocks_retype(1) [OF oks(1) p(1) same p'(1)]) (simp_all add: p')
  moreover have "lists_ok ?s"
    unfolding lists_ok_def
  proof (intro allI impI)
    fix k assume k: "k < NUM_OF_ALLOCSIZE"
    have dk: "distinct (list1_freepage s k)"
      and sk: "set (list1_freepage s k) = {i. i < NUM_OF_PAGES \<and> ptype s i = PAGE_TYPE_FREE \<and> porder s i = k}"
      using oks(2) k by (simp_all add: lists_ok_def)
    have "p \<notin> set (list1_freepage s k)" using sk p(3) by simp
    moreover have "ptype ?s i = PAGE_TYPE_FREE \<and> porder ?s i = k \<longleftrightarrow>
        (if i = p then k = n else ptype s i = PAGE_TYPE_FREE \<and> porder s i = k)" for i
      using p by (simp add: mm_simps) blast
    moreover have "list1_freepage ?s k = (if k = n then list1_freepage s k @ [p] else list1_freepage s k)"
      by (simp add: mm_simps)
    ultimately show "distinct (list1_freepage ?s k) \<and> set (list1_freepage ?s k) =
        {i. i < NUM_OF_PAGES \<and> ptype ?s i = PAGE_TYPE_FREE \<and> porder ?s i = k}"
      using dk sk p(4) by (auto split: if_splits)
  qed
  moreover have "addrs_ok ?s" using oks(3) by (simp add: addrs_ok_def mm_simps)
  ultimately have core: "core_ok ?s" by (simp add: core_ok_def)
  have om: "only_mergeable p ?s"
    unfolding only_mergeable_def
  proof (intro allI impI)
    fix i assume i: "i < NUM_OF_PAGES" and m: "mergeable ?s i"
    show "i = p \<or> buddy (porder ?s i) i = p"
    proof (rule ccontr)
      assume no: "\<not> (i = p \<or> buddy (porder ?s i) i = p)"
      then have "mergeable s i" using m same [of i] same [of "buddy (porder s i) i"] by (simp add: mergeable_def)
      then show False using ok i by (simp add: mm_ok_def)
    qed
  qed
  have hp: "is_head ?s p" using p by (simp add: is_head_def p')
  have used: "used_blocks ?s = used_blocks s - {(p, n)}"
  proof -
    have "(i, k) \<in> used_blocks ?s \<longleftrightarrow> (i, k) \<in> used_blocks s - {(p, n)}" for i k
      using p same [of i] p' by (cases "i = p") (auto simp: used_blocks_def)
    then show ?thesis by auto
  qed
  have free: "free_pages ?s = free_pages s \<union> block s p"
  proof (intro equalityI subsetI)
    fix x assume "x \<in> free_pages ?s"
    then obtain i where i: "is_head ?s i" "ptype ?s i = PAGE_TYPE_FREE" "x \<in> block ?s i" by (rule free_pagesE)
    then show "x \<in> free_pages s \<union> block s p"
      using same [of i] p' by (cases "i = p") (auto simp: is_head_def intro: free_pagesI)
  next
    fix x assume "x \<in> free_pages s \<union> block s p"
    then show "x \<in> free_pages ?s"
    proof
      assume "x \<in> free_pages s"
      then obtain i where i: "is_head s i" "ptype s i = PAGE_TYPE_FREE" "x \<in> block s i" by (rule free_pagesE)
      then have "i \<noteq> p" using p(3) by auto
      then show ?thesis using i same [of i] by (intro free_pagesI [of i]) (simp_all add: is_head_def)
    next
      assume "x \<in> block s p"
      then show ?thesis using p p' by (intro free_pagesI [of p]) simp_all
    qed
  qed
  have "mm_page_free p s = merge_blocks n p ?s" by (simp add: mm_page_free_def p(2))
  moreover obtain s' where "merge_blocks n p ?s = Some s'" "mm_ok s'" "free_pages s' = free_pages ?s"
    "used_blocks s' = used_blocks ?s" "mm_start_phys s' = mm_start_phys ?s"
    "panicmem_start_page s' = panicmem_start_page ?s"
    using merge_blocks_ok [OF core hp p'(2) _ om, of n] p(2) by (auto simp: mm_simps)
  ultimately show ?thesis using used free p(2)
    by (simp add: free_spec_def mm_simps list1_add_def set_type_def)
qed

end
