(* ===== verification/Page_Pool.thy ===== *)
theory Page_Pool
  imports Page_Alloc_Ok
begin

text \<open>
  The page allocator as its callers see it: when an allocation fails, what the start leaves free,
  the contract of the two operations, and the states the entry points reach.
\<close>

section \<open>An allocation fails only when no block of its size is free\<close>

lemma aligned_inside:
  assumes "2 ^ j dvd lo" and "j \<le> k" and "2 ^ k dvd g" and "x \<in> pages_of j lo" and "x \<in> pages_of k g"
  shows "pages_of j lo \<subseteq> pages_of k g"
proof -
  have d: "2 ^ j dvd g" "(2 :: nat) ^ j dvd 2 ^ k"
    using assms(2,3) by (auto intro: power_le_dvd le_imp_power_dvd)
  have x: "lo \<le> x" "x < lo + 2 ^ j" "g \<le> x" "x < g + 2 ^ k" using assms(4,5) by (simp_all add: pages_of_def)
  have "g < lo + 2 ^ j" using x by linarith
  then have "g + 2 ^ j \<le> lo + 2 ^ j" using d(1) assms(1) by (intro dvd_add_le) simp_all
  moreover have "lo < g + 2 ^ k" using x by linarith
  then have "lo + 2 ^ j \<le> g + 2 ^ k" using d assms(1) by (intro dvd_add_le) simp_all
  ultimately show ?thesis by (auto simp: pages_of_def)
qed

lemma buddies_inside:
  assumes "2 ^ m dvd h"
  obtains lo where "2 ^ Suc m dvd lo" and "h \<in> pages_of (Suc m) lo" and "buddy m h \<in> pages_of (Suc m) lo"
proof -
  have "(2 :: nat) ^ m < 2 ^ Suc m" by simp
  then show ?thesis
    by (cases rule: buddy_cases [OF assms])
       (rule that [of h], auto simp: pages_of_def, rule that [of "buddy m h"], auto simp: pages_of_def)
qed

lemma same_head: "2 ^ m dvd b \<Longrightarrow> 2 ^ m dvd g \<Longrightarrow> b \<in> pages_of m g \<Longrightarrow> g = b"
  using dvd_add_le [of "2 ^ m" g b] by (cases "g < b") (auto simp: pages_of_def)

lemma free_region_block:
  assumes ok: "mm_ok s" and n: "n < NUM_OF_ALLOCSIZE" and dv: "2 ^ n dvd p" and R: "pages_of n p \<subseteq> free_pages s"
  shows "\<exists>i. is_head s i \<and> ptype s i = PAGE_TYPE_FREE \<and> n \<le> porder s i"
proof (rule ccontr)
  assume "\<not> ?thesis"
  then have small: "porder s i < n" if "is_head s i" "ptype s i = PAGE_TYPE_FREE" for i
    using that by (meson not_le)
  have bl: "blocks_ok s" using ok by (simp add: mm_ok_def core_ok_def)
  let ?H = "\<lambda>i. is_head s i \<and> ptype s i = PAGE_TYPE_FREE \<and> i \<in> pages_of n p"
  have covered: "\<exists>i. ?H i \<and> x \<in> block s i" if x: "x \<in> pages_of n p" for x
  proof -
    obtain i where i: "is_head s i" "ptype s i = PAGE_TYPE_FREE" "x \<in> block s i"
      using R x by (auto elim: free_pagesE)
    have "block s i \<subseteq> pages_of n p"
      by (rule aligned_inside [OF head_props(2) [OF bl i(1)] _ dv i(3) x]) (use small [OF i(1,2)] in simp)
    then show ?thesis using i head_props(4) [OF bl i(1)] by blast
  qed
  have "p \<in> pages_of n p" by (simp add: pages_of_def)
  then obtain h0 where "?H h0" using covered by blast
  then obtain h where h: "?H h" and least: "\<And>g. ?H g \<Longrightarrow> porder s h \<le> porder s g"
    using exists_least_iff [of "\<lambda>m. \<exists>i. ?H i \<and> porder s i = m"] by (metis (mono_tags, lifting) not_le_imp_less)
  let ?m = "porder s h" and ?b = "buddy (porder s h) h"
  have hd: "2 ^ ?m dvd h" using h head_props(2) [OF bl] by blast
  have mn: "?m < n" using small h by blast
  obtain lo where lo: "2 ^ Suc ?m dvd lo" "h \<in> pages_of (Suc ?m) lo" "?b \<in> pages_of (Suc ?m) lo"
    using buddies_inside [OF hd] by blast
  have "pages_of (Suc ?m) lo \<subseteq> pages_of n p"
    by (rule aligned_inside [OF lo(1) _ dv lo(2)]) (use mn h in auto)
  then obtain g where g: "?H g" "?b \<in> block s g" using covered lo(3) by blast
  have gd: "2 ^ porder s g dvd g" using g(1) head_props(2) [OF bl] by blast
  show False
  proof (cases "porder s g = ?m")
    case True
    have "2 ^ ?m dvd ?b" using hd by (auto simp: buddy_def dvd_diff_nat)
    then have "g = ?b" using same_head [of ?m ?b g] True g(2) gd by simp
    then have "mergeable s h" using h g True mn n by (simp add: mergeable_def)
    moreover have "h < NUM_OF_PAGES" using h by (simp add: is_head_def)
    ultimately show False using ok by (simp add: mm_ok_def)
  next
    case False
    then have "Suc ?m \<le> porder s g" using least [OF g(1)] by simp
    then have "pages_of (Suc ?m) lo \<subseteq> block s g" using aligned_inside [OF lo(1) _ gd lo(3) g(2)] by blast
    then have "h \<in> block s g" using lo(2) by blast
    then have "g = h" using block_unique [OF bl _ _ _ head_props(4) [OF bl]] g(1) h by blast
    then show False using False by simp
  qed
qed

lemma list_nonempty_iff:
  assumes "lists_ok s" and "k < NUM_OF_ALLOCSIZE"
  shows "list1_freepage s k \<noteq> [] \<longleftrightarrow> (\<exists>i. is_head s i \<and> ptype s i = PAGE_TYPE_FREE \<and> porder s i = k)"
proof -
  have "set (list1_freepage s k) = {i. i < NUM_OF_PAGES \<and> ptype s i = PAGE_TYPE_FREE \<and> porder s i = k}"
    using assms by (simp add: lists_ok_def)
  then show ?thesis by (auto simp: is_head_def simp flip: set_empty)
qed

lemma mm_page_alloc_fails:
  assumes ok: "mm_ok s" and n: "n < NUM_OF_ALLOCSIZE"
  shows "mm_page_alloc n s = None \<longleftrightarrow> \<not> (\<exists>p. 2 ^ n dvd p \<and> pages_of n p \<subseteq> free_pages s)"
proof
  assume "mm_page_alloc n s = None"
  then have empty: "list1_freepage s k = []" if "n \<le> k" "k < NUM_OF_ALLOCSIZE" for k
    using mm_page_alloc_none [OF ok] that by blast
  show "\<not> (\<exists>p. 2 ^ n dvd p \<and> pages_of n p \<subseteq> free_pages s)"
  proof clarify
    fix p assume "2 ^ n dvd p" "pages_of n p \<subseteq> free_pages s"
    then obtain i where i: "is_head s i" "ptype s i = PAGE_TYPE_FREE" "n \<le> porder s i"
      using free_region_block [OF ok n] by blast
    have "porder s i < NUM_OF_ALLOCSIZE" using head_props(1) [OF _ i(1)] ok by (simp add: mm_ok_def core_ok_def)
    then show False
      using empty [OF i(3)] list_nonempty_iff [of s "porder s i"] i ok by (auto simp: mm_ok_def core_ok_def)
  qed
next
  assume no: "\<not> (\<exists>p. 2 ^ n dvd p \<and> pages_of n p \<subseteq> free_pages s)"
  show "mm_page_alloc n s = None"
  proof (cases "mm_page_alloc n s")
    case (Some a)
    then have "alloc_spec n s (fst a) (snd a)" using mm_page_alloc_some [OF ok, of n "fst a" "snd a"] by simp
    then show ?thesis using no by (auto simp: alloc_spec_def)
  qed
qed

section \<open>The pages of the VMM\<close>

lemma used_is_head: "(p, n) \<in> used_blocks s \<Longrightarrow> is_head s p \<and> porder s p = n \<and> ptype s p \<noteq> PAGE_TYPE_FREE"
  by (auto simp: used_blocks_def is_head_def)

lemma used_disjoint:
  assumes ok: "blocks_ok s" and u: "(p, n) \<in> used_blocks s"
  shows "pages_of n p \<inter> free_pages s = {}"
    and "(q, m) \<in> used_blocks s \<Longrightarrow> q \<noteq> p \<Longrightarrow> pages_of n p \<inter> pages_of m q = {}"
proof -
  note p = used_is_head [OF u]
  show "pages_of n p \<inter> free_pages s = {}"
  proof (rule ccontr)
    assume "pages_of n p \<inter> free_pages s \<noteq> {}"
    then obtain x where x: "x \<in> block s p" "x \<in> free_pages s" using p by blast
    from x(2) obtain i where "is_head s i" "ptype s i = PAGE_TYPE_FREE" "x \<in> block s i" by (rule free_pagesE)
    then show False using block_unique [OF ok, of p i x] p x(1) by auto
  qed
  show "pages_of n p \<inter> pages_of m q = {}" if "(q, m) \<in> used_blocks s" "q \<noteq> p"
    using block_disjoint [OF ok, of p q] p used_is_head [OF that(1)] that(2) by auto
qed

lemma pages_partition:
  assumes ok: "blocks_ok s"
  shows "free_pages s \<union> (\<Union>(p, n) \<in> used_blocks s. pages_of n p) = {..<NUM_OF_PAGES}"
proof (intro equalityI subsetI)
  fix x assume "x \<in> free_pages s \<union> (\<Union>(p, n) \<in> used_blocks s. pages_of n p)"
  then show "x \<in> {..<NUM_OF_PAGES}"
    using used_is_head block_in_range [OF ok] by (fastforce elim: free_pagesE)
next
  fix x assume "x \<in> {..<NUM_OF_PAGES}"
  then obtain i where i: "is_head s i" "x \<in> block s i" using ok by (auto simp: blocks_ok_def)
  show "x \<in> free_pages s \<union> (\<Union>(p, n) \<in> used_blocks s. pages_of n p)"
  proof (cases "ptype s i")
    case PAGE_TYPE_FREE
    then show ?thesis using i by (auto simp: is_head_def intro: free_pagesI)
  next
    case PAGE_TYPE_NOT_HEAD
    then show ?thesis using i by (simp add: is_head_def)
  qed (use i in \<open>auto simp: used_blocks_def is_head_def\<close>)
qed

lemma unat_allocsize:
  assumes "n < NUM_OF_ALLOCSIZE" shows "unat (allocsize n) = 4096 * 2 ^ n"
proof -
  have "(2 :: nat) ^ n \<le> 2 ^ 12" using assms by (intro power_increasing) (simp_all add: NUM_OF_ALLOCSIZE_def)
  moreover have "allocsize n = of_nat (4096 * 2 ^ n)" by (simp add: allocsize_def push_bit_eq_mult)
  ultimately show ?thesis by (simp add: unat_of_nat64 del: of_nat_mult of_nat_power)
qed

lemma card_free_pages:
  assumes bl: "blocks_ok s"
  shows "card (free_pages s) = (\<Sum>n<NUM_OF_ALLOCSIZE.
           card {i. i < NUM_OF_PAGES \<and> ptype s i = PAGE_TYPE_FREE \<and> porder s i = n} * 2 ^ n)"
proof -
  let ?I = "{i. i < NUM_OF_PAGES \<and> ptype s i = PAGE_TYPE_FREE}"
  have hd: "is_head s i" if "i \<in> ?I" for i using that by (simp add: is_head_def)
  have "card (free_pages s) = (\<Sum>i\<in>?I. card (block s i))"
    unfolding free_pages_def
    by (rule card_UN_disjoint) (use block_disjoint [OF bl hd hd] in \<open>auto simp: pages_of_def\<close>)
  also have "\<dots> = (\<Sum>i\<in>?I. 2 ^ porder s i)" by (simp add: pages_of_def)
  also have "\<dots> = (\<Sum>n<NUM_OF_ALLOCSIZE. \<Sum>i | i \<in> ?I \<and> porder s i = n. 2 ^ porder s i)"
    by (rule sum.group [symmetric]) (use head_props(1) [OF bl hd] in auto)
  also have "\<dots> = (\<Sum>n<NUM_OF_ALLOCSIZE. card {i. i < NUM_OF_PAGES \<and> ptype s i = PAGE_TYPE_FREE \<and> porder s i = n} * 2 ^ n)"
    by (rule sum.cong) simp_all
  finally show ?thesis .
qed

lemma num_of_available_pages_card:
  assumes ok: "mm_ok s"
  shows "num_of_available_pages s = card (free_pages s)"
proof -
  let ?F = "\<lambda>n. {i. i < NUM_OF_PAGES \<and> ptype s i = PAGE_TYPE_FREE \<and> porder s i = n}"
  have bl: "blocks_ok s" and lo: "lists_ok s" using ok by (simp_all add: mm_ok_def core_ok_def)
  have len: "length (list1_freepage s n) = card (?F n)" if "n < NUM_OF_ALLOCSIZE" for n
    using lo that by (metis (no_types, lifting) distinct_card lists_ok_def)
  have "num_of_available_pages s = (\<Sum>n<NUM_OF_ALLOCSIZE. length (list1_freepage s n) * unat (drop_bit 12 (allocsize n)))"
    by (simp add: num_of_available_pages_def interv_sum_list_conv_sum_set_nat atLeast0LessThan)
  also have "\<dots> = (\<Sum>n<NUM_OF_ALLOCSIZE. card (?F n) * 2 ^ n)"
    by (rule sum.cong) (simp_all add: len unat_drop_bit unat_allocsize)
  finally show ?thesis using card_free_pages [OF bl] by simp
qed

section \<open>The start and the calls that follow\<close>

lemma mm_init_pages_ok:
  "mm_ok (mm_init_pages start en)" (is "mm_ok ?s")
  "used_blocks (mm_init_pages start en) = {..<NUM_OF_PAGES} \<times> {0}"
  "free_pages (mm_init_pages start en) = {}"
proof -
  have "blocks_ok ?s"
    unfolding blocks_ok_def
  proof (intro conjI allI impI)
    fix i assume "i < NUM_OF_PAGES"
    then have "is_head ?s i \<and> i \<in> block ?s i" by (simp add: is_head_def mm_init_pages_def pages_of_def)
    then show "\<exists>p. is_head ?s p \<and> i \<in> block ?s p" by blast
  qed (simp_all add: mm_init_pages_def NUM_OF_ALLOCSIZE_def)
  then show "mm_ok ?s"
    by (simp add: mm_ok_def core_ok_def lists_ok_def addrs_ok_def mergeable_def mm_init_pages_def page_virt_def)
  show "used_blocks ?s = {..<NUM_OF_PAGES} \<times> {0}" "free_pages ?s = {}"
    by (auto simp: used_blocks_def free_pages_def mm_init_pages_def)
qed

lemma free_each_ok:
  assumes "mm_ok s" and "distinct ps" and "\<forall>p\<in>set ps. (p, 0) \<in> used_blocks s"
  shows "\<exists>s'. free_each ps s = Some s' \<and> mm_ok s' \<and> free_pages s' = free_pages s \<union> set ps
           \<and> used_blocks s' = used_blocks s - set ps \<times> {0} \<and> mm_start_phys s' = mm_start_phys s
           \<and> panicmem_start_page s' = panicmem_start_page s"
  using assms
proof (induction ps arbitrary: s)
  case Nil
  then show ?case by simp
next
  case (Cons p ps)
  have u: "(p, 0) \<in> used_blocks s" using Cons.prems(3) by simp
  obtain s1 where s1: "mm_page_free p s = Some s1" "free_spec p s s1"
    using mm_page_free_result [OF Cons.prems(1) u] by blast
  have o: "porder s p = 0" using used_is_head [OF u] by simp
  have "\<forall>q\<in>set ps. (q, 0) \<in> used_blocks s1" using s1(2) Cons.prems(2,3) by (auto simp: free_spec_def)
  then obtain s' where "free_each ps s1 = Some s'" "mm_ok s'" "free_pages s' = free_pages s1 \<union> set ps"
    "used_blocks s' = used_blocks s1 - set ps \<times> {0}" "mm_start_phys s' = mm_start_phys s1"
    "panicmem_start_page s' = panicmem_start_page s1"
    using Cons.IH [of s1] s1(2) Cons.prems(2) by (auto simp: free_spec_def)
  then show ?case using s1 o by (auto simp: free_spec_def pages_of_def)
qed

lemma mm_init_free_ok:
  "\<exists>s. mm_init_free start first en = Some s \<and> mm_ok s \<and> mm_start_phys s = start
     \<and> free_pages s = {i. i < NUM_OF_PAGES \<and> \<not> page_kept first en (mm_init_pages start en) i}"
proof -
  let ?ps = "filter (\<lambda>i. \<not> page_kept first en (mm_init_pages start en) i) [0..<NUM_OF_PAGES]"
  have "\<forall>p\<in>set ?ps. (p, 0) \<in> used_blocks (mm_init_pages start en)" by (auto simp: mm_init_pages_ok(2))
  then obtain s where s: "free_each ?ps (mm_init_pages start en) = Some s" "mm_ok s"
    "free_pages s = free_pages (mm_init_pages start en) \<union> set ?ps" "mm_start_phys s = mm_start_phys (mm_init_pages start en)"
    using free_each_ok [OF mm_init_pages_ok(1), of ?ps start en] by auto
  have "mm_start_phys (mm_init_pages start en) = start" by (simp add: mm_init_pages_def)
  moreover have "mm_init_free start first en = Some s" using s(1) by (simp add: mm_init_free_def)
  ultimately show ?thesis using s(2-4) by (auto simp: mm_init_pages_ok(3))
qed

lemma mm_free_panicmem_ok:
  assumes ok: "mm_ok s" and u: "\<forall>i. panicmem_start_page s \<le> i \<and> i < panicmem_start_page s + NUM_OF_PANICMEM_PAGES
                \<longrightarrow> (i, 0) \<in> used_blocks s" and st: "panicmem_start_page s \<noteq> 0"
  shows "\<exists>s'. mm_free_panicmem s = Some s' \<and> mm_ok s' \<and> mm_get_panicmem s' = None
           \<and> free_pages s' = free_pages s \<union> {panicmem_start_page s..<panicmem_start_page s + NUM_OF_PANICMEM_PAGES}"
proof -
  let ?s = "s\<lparr>panicmem_start_page := 0\<rparr>" and ?l = "[panicmem_start_page s..<panicmem_start_page s + NUM_OF_PANICMEM_PAGES]"
  have cg: "inner ?s n i = inner s n i" for n i by (rule inner_cong) simp
  have "mm_ok ?s" using ok
    by (simp add: mm_ok_def core_ok_def blocks_ok_def lists_ok_def addrs_ok_def mergeable_def is_head_def cg)
  moreover have "used_blocks ?s = used_blocks s" "free_pages ?s = free_pages s"
    by (simp_all add: used_blocks_def free_pages_def)
  ultimately obtain s' where "free_each ?l ?s = Some s'" "mm_ok s'" "free_pages s' = free_pages s \<union> set ?l"
    "panicmem_start_page s' = 0"
    using free_each_ok [of ?s ?l] u by auto
  then show ?thesis using st by (simp add: mm_free_panicmem_def mm_get_panicmem_def Let_def)
qed

lemma alloc_order_eq:
  assumes "n \<le> 4096"
  shows "alloc_order n = Some (LEAST i. n \<le> 2 ^ i)" and "(LEAST i. n \<le> 2 ^ i) < NUM_OF_ALLOCSIZE"
    and "n \<le> 2 ^ (LEAST i. n \<le> 2 ^ i)"
proof -
  let ?i = "LEAST i. n \<le> 2 ^ i"
  have i12: "n \<le> 2 ^ 12" using assms by simp
  show le: "n \<le> 2 ^ ?i" by (rule LeastI [of "\<lambda>i. n \<le> 2 ^ i"], rule i12)
  have "?i \<le> 12" by (rule Least_le, rule i12)
  then show lt: "?i < NUM_OF_ALLOCSIZE" by (simp add: NUM_OF_ALLOCSIZE_def)
  have w: "of_nat n * 4096 = (of_nat (n * 4096) :: 32 word)" by simp
  have "uint (of_nat (n * 4096) :: 32 word) = int (n * 4096)"
    using assms by (simp add: uint_nat unat_of_nat32 del: of_nat_mult)
  then have sz: "sint (of_nat n * 4096 :: 32 word) = int (n * 4096)"
    using assms unfolding w sint_uint by (subst signed_take_bit_int_eq_self) simp_all
  have cond: "sint (of_nat n * 4096 :: 32 word) \<le> uint (allocsize i) \<longleftrightarrow> n \<le> 2 ^ i" if "i < NUM_OF_ALLOCSIZE" for i
    unfolding sz uint_nat using unat_allocsize [OF that] by simp
  show "alloc_order n = Some ?i"
    unfolding alloc_order_def Let_def find_Some_iff
  proof (intro exI conjI allI impI)
    show "?i < length [0..<NUM_OF_ALLOCSIZE]" using lt by simp
    show "sint (of_nat n * 4096 :: 32 word) \<le> uint (allocsize ([0..<NUM_OF_ALLOCSIZE] ! ?i))"
      using cond [OF lt] lt le by simp
    show "?i = [0..<NUM_OF_ALLOCSIZE] ! ?i" using lt by simp
    fix j assume j: "j < ?i"
    then have "\<not> n \<le> 2 ^ j" by (rule not_less_Least)
    then show "\<not> sint (of_nat n * 4096 :: 32 word) \<le> uint (allocsize ([0..<NUM_OF_ALLOCSIZE] ! j))"
      using cond [of j] j lt by simp
  qed
qed

section \<open>The contract of a pool of pages\<close>

text \<open>
  What the callers of the allocator rely on: \<open>take n\<close> hands out a block of \<open>2 ^ n\<close> spare pages, and
  \<open>give\<close> takes a used one back.
\<close>

locale page_pool =
  fixes ok :: "'s \<Rightarrow> bool" and used :: "'s \<Rightarrow> (nat \<times> nat) set" and spare :: "'s \<Rightarrow> nat set"
    and take :: "nat \<Rightarrow> 's \<Rightarrow> (nat \<times> 's) option" and give :: "nat \<Rightarrow> 's \<Rightarrow> 's option"
  assumes take_some: "ok s \<Longrightarrow> take n s = Some (p, s') \<Longrightarrow>
      ok s' \<and> used s' = insert (p, n) (used s) \<and> pages_of n p \<subseteq> spare s \<and> spare s' = spare s - pages_of n p"
    and give_used: "ok s \<Longrightarrow> (p, n) \<in> used s \<Longrightarrow>
      \<exists>s'. give p s = Some s' \<and> ok s' \<and> used s' = used s - {(p, n)} \<and> spare s' = spare s \<union> pages_of n p"
    and used_spare: "ok s \<Longrightarrow> (p, n) \<in> used s \<Longrightarrow> pages_of n p \<inter> spare s = {}"
begin

lemma fresh:
  assumes "ok s" and "take n s = Some (p, s')"
  shows "(p, m) \<notin> used s"
proof
  assume "(p, m) \<in> used s"
  moreover have "p \<in> spare s" using take_some [OF assms] by (auto simp: pages_of_def)
  moreover have "p \<in> pages_of m p" by (simp add: pages_of_def)
  ultimately show False using used_spare [OF assms(1), of p m] by auto
qed

lemma take_give:
  assumes "ok s" and "take n s = Some (p, s')"
  shows "\<exists>s2. give p s' = Some s2 \<and> ok s2 \<and> used s2 = used s \<and> spare s2 = spare s"
proof -
  note T = take_some [OF assms]
  obtain s2 where s2: "give p s' = Some s2" "ok s2" "used s2 = used s' - {(p, n)}" "spare s2 = spare s' \<union> pages_of n p"
    using give_used [of s' p n] T by auto
  have "used s2 = used s" using s2(3) T fresh [OF assms] by auto
  moreover have "spare s2 = spare s" using s2(4) T by auto
  ultimately show ?thesis using s2(1,2) by blast
qed

end

interpretation pages: page_pool mm_ok used_blocks free_pages mm_page_alloc mm_page_free
proof
  fix s n p s' assume "mm_ok s" "mm_page_alloc n s = Some (p, s')"
  then show "mm_ok s' \<and> used_blocks s' = insert (p, n) (used_blocks s) \<and> pages_of n p \<subseteq> free_pages s
      \<and> free_pages s' = free_pages s - pages_of n p"
    using mm_page_alloc_some [of s n p s'] by (simp add: alloc_spec_def)
next
  fix s p n assume a: "mm_ok s" "(p, n) \<in> used_blocks s"
  then show "\<exists>s'. mm_page_free p s = Some s' \<and> mm_ok s' \<and> used_blocks s' = used_blocks s - {(p, n)}
      \<and> free_pages s' = free_pages s \<union> pages_of n p"
    using mm_page_free_result [OF a] used_is_head [OF a(2)] by (auto simp: free_spec_def)
  show "pages_of n p \<inter> free_pages s = {}"
    using used_disjoint(1) a by (simp add: mm_ok_def core_ok_def)
qed

section \<open>The allocator from the start on\<close>

inductive page_reachable :: "u32 \<Rightarrow> u64 \<Rightarrow> u64 \<Rightarrow> mm_state \<Rightarrow> bool" for start first en where
  page_start: "mm_init_free start first en = Some s \<Longrightarrow> page_reachable start first en s"
| page_alloc: "page_reachable start first en s \<Longrightarrow> alloc_pages n s = Some (p, virt, phys, s') \<Longrightarrow>
     page_reachable start first en s'"
| page_free: "page_reachable start first en s \<Longrightarrow> p < NUM_OF_PAGES \<Longrightarrow> ptype s p = PAGE_TYPE_ALLOCATED \<Longrightarrow>
     free_page (page_to_virt s p) s = Some s' \<Longrightarrow> page_reachable start first en s'"

lemma page_virt_ok: "mm_ok s \<Longrightarrow> p < NUM_OF_PAGES \<Longrightarrow>
    page_to_virt s p = page_virt p \<and> page_to_phys s p = ucast (mm_start_phys s + of_nat (4096 * p))"
  by (simp add: mm_ok_def core_ok_def addrs_ok_def page_to_virt_def page_to_phys_def)

lemma free_page_allocated:
  assumes ok: "mm_ok s" and p: "p < NUM_OF_PAGES" "ptype s p = PAGE_TYPE_ALLOCATED"
  shows "\<exists>s'. free_page (page_to_virt s p) s = Some s' \<and> free_spec p s s'"
proof -
  have "(p, porder s p) \<in> used_blocks s" using p by (simp add: used_blocks_def)
  from mm_page_free_result [OF ok this] show ?thesis
    using page_virt_ok [OF ok p(1)] virt_to_page_virt [OF p(1)] by (simp add: free_page_def)
qed

lemma alloc_pages_some:
  assumes "mm_ok s" and "alloc_pages n s = Some (p, virt, phys, s')"
  shows "\<exists>k. alloc_order n = Some k \<and> mm_page_alloc k s = Some (p, s') \<and> alloc_spec k s p s'
           \<and> virt = page_virt p \<and> phys = ucast (mm_start_phys s + of_nat (4096 * p))"
proof -
  obtain k where k: "alloc_order n = Some k" "mm_page_alloc k s = Some (p, s')"
    "virt = page_to_virt s' p" "phys = page_to_phys s' p"
    using assms(2) by (auto simp: alloc_pages_def split: option.splits prod.splits)
  have sp: "alloc_spec k s p s'" by (rule mm_page_alloc_some [OF assms(1) k(2)])
  then show ?thesis using k page_virt_ok [of s' p] by (auto simp: alloc_spec_def)
qed

lemma page_reachable_ok: "page_reachable start first en s \<Longrightarrow> mm_ok s \<and> mm_start_phys s = start"
proof (induction rule: page_reachable.induct)
  case (page_start s)
  then show ?case using mm_init_free_ok [of start first en] by auto
next
  case (page_alloc s n p virt phys s')
  then show ?case using alloc_pages_some [of s n p virt phys s'] by (auto simp: alloc_spec_def)
next
  case (page_free s p s')
  then show ?case using free_page_allocated [of s p] by (auto simp: free_spec_def)
qed

text \<open>
  C15: An allocation of up to 4096 pages returns the first size that holds them as a block that was
  free, aligned to its size, with the virtual and the physical address of its first page, and
  changes nothing else; it panics only if no aligned block of this size is free.
\<close>

theorem page_alloc_correct:
  assumes "page_reachable start first en s" and "n \<le> 4096" and "n \<le> 2 ^ k" and "\<And>j. j < k \<Longrightarrow> 2 ^ j < n"
  shows "(\<exists>p s'. alloc_pages n s = Some (p, page_virt p, ucast (start + of_nat (4096 * p)), s') \<and> alloc_spec k s p s')
       \<or> (alloc_pages n s = None \<and> \<not> (\<exists>p. 2 ^ k dvd p \<and> pages_of k p \<subseteq> free_pages s))"
proof -
  have ok: "mm_ok s" "mm_start_phys s = start" using page_reachable_ok [OF assms(1)] by simp_all
  have k: "(LEAST i. n \<le> 2 ^ i) = k"
  proof (rule Least_equality)
    show "n \<le> 2 ^ k" by (rule assms(3))
    show "k \<le> j" if "n \<le> 2 ^ j" for j using assms(4) [of j] that by (meson not_le)
  qed
  note O = alloc_order_eq [OF assms(2), unfolded k]
  show ?thesis
  proof (cases "alloc_pages n s")
    case None
    then have "mm_page_alloc k s = None" using O(1) by (simp add: alloc_pages_def split: option.splits prod.splits)
    then show ?thesis using None mm_page_alloc_fails [OF ok(1) O(2)] by simp
  next
    case (Some a)
    obtain p virt phys s' where a: "a = (p, virt, phys, s')" by (cases a)
    from alloc_pages_some [OF ok(1) Some [unfolded a]] O(1) ok(2)
    have "alloc_spec k s p s'" "virt = page_virt p" "phys = ucast (start + of_nat (4096 * p))" by simp_all
    then show ?thesis using Some a by simp
  qed
qed

text \<open>
  C13: The release of an allocated block never panics and gives exactly its pages back: the pages
  of the VMM are at any time the free ones and those of the disjoint blocks in use, and no two
  free blocks are the halves of a larger one.
\<close>

theorem page_free_correct:
  assumes "page_reachable start first en s" and "p < NUM_OF_PAGES" and "ptype s p = PAGE_TYPE_ALLOCATED"
  shows "\<exists>s'. free_page (page_to_virt s p) s = Some s' \<and> page_reachable start first en s'
      \<and> used_blocks s' = used_blocks s - {(p, porder s p)} \<and> free_pages s' = free_pages s \<union> block s p
      \<and> free_pages s' \<union> (\<Union>(q, n) \<in> used_blocks s'. pages_of n q) = {..<NUM_OF_PAGES}
      \<and> (\<forall>(q, n) \<in> used_blocks s'. pages_of n q \<inter> free_pages s' = {}
           \<and> (\<forall>(r, m) \<in> used_blocks s'. r \<noteq> q \<longrightarrow> pages_of n q \<inter> pages_of m r = {}))
      \<and> (\<forall>q<NUM_OF_PAGES. \<not> mergeable s' q)
      \<and> num_of_available_pages s' = card (free_pages s')"
proof -
  have ok: "mm_ok s" using page_reachable_ok [OF assms(1)] by simp
  obtain s' where s': "free_page (page_to_virt s p) s = Some s'" "free_spec p s s'"
    using free_page_allocated [OF ok assms(2,3)] by blast
  have ok': "mm_ok s'" and bl: "blocks_ok s'" using s'(2) by (simp_all add: free_spec_def mm_ok_def core_ok_def)
  have "page_reachable start first en s'" by (rule page_free [OF assms s'(1)])
  moreover have "\<forall>(q, n) \<in> used_blocks s'. pages_of n q \<inter> free_pages s' = {}
           \<and> (\<forall>(r, m) \<in> used_blocks s'. r \<noteq> q \<longrightarrow> pages_of n q \<inter> pages_of m r = {})"
    using used_disjoint [OF bl] by blast
  moreover have "\<forall>q<NUM_OF_PAGES. \<not> mergeable s' q" using ok' by (simp add: mm_ok_def)
  ultimately show ?thesis
    using s' pages_partition [OF bl] num_of_available_pages_card [OF ok'] by (auto simp: free_spec_def)
qed

section \<open>A machine whose image ends at 8MB\<close>

lemma kept_example:
  assumes "2304 \<le> i" and "i < NUM_OF_PAGES"
  shows "\<not> page_kept 0x40000000 0x40800000 (mm_init_pages 0x1000000 0x40800000) i"
proof -
  let ?s = "mm_init_pages 0x1000000 0x40800000"
  have "page_to_virt ?s i = page_virt i" using page_virt_ok [OF mm_init_pages_ok(1) assms(2)] by simp
  then have "unat (page_to_virt ?s i) = 2 ^ 30 + 4096 * i" using unat_page_virt [of i] assms(2) by simp
  then have "\<not> page_to_virt ?s i < 0x40800000" using assms(1) by (simp add: word_less_nat_alt)
  moreover have "panicmem_start_page ?s = 2048" by (simp add: mm_init_pages_def VMM_START_VIRT_def)
  ultimately show ?thesis using assms(1) by (simp add: page_kept_def NUM_OF_PANICMEM_PAGES_def)
qed

lemma start_example:
  obtains s where "page_reachable 0x1000000 0x40000000 0x40800000 s" and "mm_init_free 0x1000000 0x40000000 0x40800000 = Some s"
    and "pages_of 2 2304 \<subseteq> free_pages s"
proof -
  obtain s where s: "mm_init_free 0x1000000 0x40000000 0x40800000 = Some s"
    "free_pages s = {i. i < NUM_OF_PAGES \<and> \<not> page_kept 0x40000000 0x40800000 (mm_init_pages 0x1000000 0x40800000) i}"
    using mm_init_free_ok [where start = "0x1000000" and first = "0x40000000" and en = "0x40800000"] by blast
  have "pages_of 2 2304 \<subseteq> free_pages s"
    unfolding s(2) using kept_example by (auto simp: pages_of_def NUM_OF_PAGES_def)
  then show ?thesis using that page_start [OF s(1)] s(1) by blast
qed

lemma alloc_example:
  obtains s p virt phys s' where "page_reachable 0x1000000 0x40000000 0x40800000 s" and "alloc_pages 3 s = Some (p, virt, phys, s')"
    and "pages_of 2 2304 \<subseteq> free_pages s"
proof -
  obtain s where s: "page_reachable 0x1000000 0x40000000 0x40800000 s" "pages_of 2 2304 \<subseteq> free_pages s"
    by (rule start_example)
  have l: "(LEAST i. (3 :: nat) \<le> 2 ^ i) = 2"
  proof (rule Least_equality)
    fix i assume i: "(3 :: nat) \<le> 2 ^ i"
    show "2 \<le> i"
    proof (rule ccontr)
      assume "\<not> 2 \<le> i"
      then have "i = 0 \<or> i = 1" by linarith
      then show False using i by auto
    qed
  qed simp
  have "mm_page_alloc 2 s \<noteq> None"
    using mm_page_alloc_fails [of s 2] page_reachable_ok [OF s(1)] s(2)
    by (auto simp: NUM_OF_ALLOCSIZE_def intro: exI [of _ 2304])
  then obtain p s' where "mm_page_alloc 2 s = Some (p, s')" by auto
  then have "alloc_pages 3 s = Some (p, page_to_virt s' p, page_to_phys s' p, s')"
    using alloc_order_eq(1) [of 3] l by (simp add: alloc_pages_def)
  then show ?thesis using that s by blast
qed

lemma page_alloc_correct_witness:
  "\<exists>s p s'. page_reachable 0x1000000 0x40000000 0x40800000 s
      \<and> alloc_pages 3 s = Some (p, page_virt p, ucast (0x1000000 + of_nat (4096 * p) :: u32), s') \<and> alloc_spec 2 s p s'"
proof -
  obtain s where s: "page_reachable 0x1000000 0x40000000 0x40800000 s" "pages_of 2 2304 \<subseteq> free_pages s"
    by (rule start_example)
  have "\<exists>p. 2 ^ 2 dvd p \<and> pages_of 2 p \<subseteq> free_pages s" using s(2) by (intro exI [of _ 2304]) simp
  moreover have "2 ^ j < (3 :: nat)" if "j < 2" for j using that by (auto simp: less_2_cases_iff)
  ultimately show ?thesis using page_alloc_correct [OF s(1), of 3 2] s(1) by auto
qed

lemma page_free_correct_witness:
  "\<exists>s p s'. page_reachable 0x1000000 0x40000000 0x40800000 s \<and> ptype s p = PAGE_TYPE_ALLOCATED
      \<and> free_page (page_to_virt s p) s = Some s' \<and> free_pages s' = free_pages s \<union> block s p"
proof -
  obtain s p virt phys s' where s: "page_reachable 0x1000000 0x40000000 0x40800000 s" "alloc_pages 3 s = Some (p, virt, phys, s')"
    by (rule alloc_example)
  have r: "page_reachable 0x1000000 0x40000000 0x40800000 s'" by (rule page_alloc [OF s])
  have "mm_ok s" using page_reachable_ok [OF s(1)] by simp
  then obtain k where "alloc_spec k s p s'" using alloc_pages_some [OF _ s(2)] by blast
  then have p: "p < NUM_OF_PAGES" "ptype s' p = PAGE_TYPE_ALLOCATED" by (simp_all add: alloc_spec_def)
  obtain s2 where f: "free_page (page_to_virt s' p) s' = Some s2" "free_pages s2 = free_pages s' \<union> block s' p"
    using page_free_correct [OF r p] by (elim exE conjE) (rule that)
  show ?thesis
    by (rule exI [of _ s'], rule exI [of _ p], rule exI [of _ s2]) (simp add: r p f)
qed

end
