(* ===== verification/Small_Alloc.thy ===== *)
theory Small_Alloc
  imports Page_Pool
begin



text \<open>
  \<open>alloc\<close>, \<open>free\<close> and \<open>realloc\<close> of \<open>core/mm.c\<close>.  A request of up to 1024 bytes gets a chunk of one of
  seven sizes from a page that starts with a \<open>struct allocdata\<close>: the number of its size and a bitmap
  of the chunks in use, in which the chunks under the header itself are marked.  A larger one gets
  whole pages.  The headers are kept apart from the memory \<open>heap\<close> the callers see: \<open>adata\<close> maps
  the index of a page to the header at its start.
\<close>

record allocdata =
  a_n :: u8
  a_data :: "nat \<Rightarrow> u8"

record heap_state =
  hmm :: mm_state
  alloclist :: "nat \<Rightarrow> nat list"
  adata :: "nat \<Rightarrow> allocdata"
  heap :: "u64 \<Rightarrow> u8"

definition NUM_OF_ALLOCLIST :: nat where "NUM_OF_ALLOCLIST = 7"
definition ALLOCLIST_SIZE :: "nat \<Rightarrow> nat" where "ALLOCLIST_SIZE n = 2 ^ n * 16"
definition ALLOCLIST_DATABIT :: "nat \<Rightarrow> nat" where "ALLOCLIST_DATABIT n = 4096 div ALLOCLIST_SIZE n"
definition ALLOCLIST_DATASIZE :: "nat \<Rightarrow> nat" where "ALLOCLIST_DATASIZE n = (ALLOCLIST_DATABIT n + 7) div 8"

text \<open>\<open>sizeof (struct allocdata)\<close>: two pointers, two bytes and the padding to 24.\<close>

definition ALLOCLIST_HEADERSIZE :: "nat \<Rightarrow> nat" where
  "ALLOCLIST_HEADERSIZE n = 24 + ALLOCLIST_DATASIZE n - 1"

text \<open>The flag \<open>0x80\<close> of \<open>n\<close> and the number of the size.\<close>

definition n_flag :: "u8 \<Rightarrow> bool" where "n_flag a = (a AND 0x80 \<noteq> 0)"
definition n_low :: "u8 \<Rightarrow> u8" where "n_low a = a AND NOT 0x80"

text \<open>\<open>data[b / 8] |= 1 << (b % 8)\<close> and \<open>data[b / 8] &= ~(1 << (b % 8))\<close>.\<close>

definition set_abit :: "nat \<Rightarrow> (nat \<Rightarrow> u8) \<Rightarrow> nat \<Rightarrow> u8" where
  "set_abit b d = d(b div 8 := d (b div 8) OR push_bit (b mod 8) 1)"

definition clear_abit :: "nat \<Rightarrow> (nat \<Rightarrow> u8) \<Rightarrow> nat \<Rightarrow> u8" where
  "clear_abit b d = d(b div 8 := d (b div 8) AND NOT (push_bit (b mod 8) 1))"

text \<open>
  The header of a new page: cleared up to its length, then one bit per chunk it lies in; the loop
  runs as long as \<open>i * ALLOCLIST_SIZE (n) < headlen\<close>.
\<close>

definition new_data :: "nat \<Rightarrow> (nat \<Rightarrow> u8) \<Rightarrow> nat \<Rightarrow> u8" where
  "new_data n d =
     (let headlen = ALLOCLIST_HEADERSIZE n
      in fold set_abit [i \<leftarrow> [0..<headlen]. i * ALLOCLIST_SIZE n < headlen]
           (\<lambda>i. if 17 + i < headlen then 0 else d i))"

definition alloclist_new :: "nat \<Rightarrow> heap_state \<Rightarrow> (nat \<times> heap_state) option" where
  "alloclist_new n s =
     (case alloc_page (hmm s) of
        None \<Rightarrow> None
      | Some (p, _, _, m) \<Rightarrow>
          Some (p, s\<lparr>hmm := m,
                    adata := (adata s)(p := \<lparr>a_n = of_nat n, a_data = new_data n (a_data (adata s p))\<rparr>)\<rparr>))"

text \<open>
  The number of the chunk found and the header with its bit set; \<open>Inl ()\<close> is the return of false,
  \<open>None\<close> a failed assertion.
\<close>

definition alloclist_alloc :: "(nat \<Rightarrow> u8) \<Rightarrow> nat \<Rightarrow> (unit + nat \<times> (nat \<Rightarrow> u8)) option" where
  "alloclist_alloc d n =
     (case List.find (\<lambda>i. d i \<noteq> 0xFF) [0..<ALLOCLIST_DATASIZE n] of
        None \<Rightarrow> Some (Inl ())
      | Some i \<Rightarrow>
          let j = (case List.find (\<lambda>j. \<not> bit (d i) j) [0..<8] of None \<Rightarrow> 8 | Some j \<Rightarrow> j);
              b = i * 8 + j
          in if b \<ge> ALLOCLIST_DATABIT n then Some (Inl ())
             else let offset = b * ALLOCLIST_SIZE n
                  in if offset \<noteq> 0 \<and> offset < 4096 then Some (Inr (offset, d(i := d i OR push_bit j 1)))
                     else None)"

definition set_adata :: "nat \<Rightarrow> allocdata \<Rightarrow> heap_state \<Rightarrow> heap_state" where
  "set_adata p a s = s\<lparr>adata := (adata s)(p := a)\<rparr>"

text \<open>The body of the loop of \<open>alloc\<close> for a page \<open>p\<close> taken from the list or new; \<open>None\<close> goes on.\<close>

definition pop_page :: "nat \<Rightarrow> heap_state \<Rightarrow> (nat \<times> heap_state) option" where
  "pop_page i s =
     (case alloclist s i of
        [] \<Rightarrow> alloclist_new i s
      | p # ps \<Rightarrow> Some (p, s\<lparr>alloclist := (alloclist s)(i := ps)\<rparr>))"

text \<open>\<open>None\<close> is a panic or a loop that does not end.\<close>

partial_function (option) alloc_loop :: "nat \<Rightarrow> heap_state \<Rightarrow> (u64 \<times> heap_state) option" where
  "alloc_loop i s =
     (case pop_page i s of
        None \<Rightarrow> None
      | Some (p, s) \<Rightarrow>
          (case alloclist_alloc (a_data (adata s p)) i of
             None \<Rightarrow> None
           | Some (Inr (off, d)) \<Rightarrow>
               Some (page_to_virt (hmm s) p + of_nat off,
                     (set_adata p ((adata s p)\<lparr>a_data := d\<rparr>) s)
                       \<lparr>alloclist := (alloclist s)(i := p # alloclist s i)\<rparr>)
           | Some (Inl _) \<Rightarrow>
               alloc_loop i (set_adata p ((adata s p)\<lparr>a_n := a_n (adata s p) OR 0x80\<rparr>) s)))"

definition size_class :: "u32 \<Rightarrow> nat option" where
  "size_class len = List.find (\<lambda>i. unat len \<le> ALLOCLIST_SIZE i) [0..<NUM_OF_ALLOCLIST]"

definition alloc :: "u32 \<Rightarrow> heap_state \<Rightarrow> (u64 \<times> heap_state) option" where
  "alloc len s =
     (case size_class len of
        None \<Rightarrow>
          (case alloc_pages (unat ((len + 4095) div 4096)) (hmm s) of
             None \<Rightarrow> None
           | Some (p, virt, phys, m) \<Rightarrow> Some (virt, s\<lparr>hmm := m\<rparr>))
      | Some i \<Rightarrow> alloc_loop i s)"

definition alloc2 :: "u32 \<Rightarrow> heap_state \<Rightarrow> (u64 \<times> u64 \<times> heap_state) option" where
  "alloc2 len s =
     (case alloc len s of
        None \<Rightarrow> None
      | Some (r, s) \<Rightarrow>
          (case virt_to_page r of
             None \<Rightarrow> None
           | Some p \<Rightarrow> Some (r, page_to_phys (hmm s) p + (r AND PAGESIZE_MASK), s)))"

definition alloclist_free :: "(nat \<Rightarrow> u8) \<Rightarrow> nat \<Rightarrow> nat \<Rightarrow> (nat \<Rightarrow> u8) option" where
  "alloclist_free d n offset =
     (let b = offset div ALLOCLIST_SIZE n
      in if bit (d (b div 8)) (b mod 8) then Some (clear_abit b d) else None)"

text \<open>A page that had left its list because it was full returns to it.\<close>

definition relist :: "nat \<Rightarrow> heap_state \<Rightarrow> heap_state" where
  "relist p s =
     (if n_flag (a_n (adata s p)) then
        (let n = n_low (a_n (adata s p))
         in (set_adata p ((adata s p)\<lparr>a_n := n\<rparr>) s)
              \<lparr>alloclist := (alloclist s)(unat n := p # alloclist s (unat n))\<rparr>)
      else s)"

definition hfree :: "u64 \<Rightarrow> heap_state \<Rightarrow> heap_state option" where
  "hfree virt s =
     (let offset = unat (virt AND PAGESIZE_MASK)
      in if offset = 0 then
           (case virt_to_page virt of
              None \<Rightarrow> None
            | Some p \<Rightarrow> (case mm_page_free p (hmm s) of None \<Rightarrow> None | Some m \<Rightarrow> Some (s\<lparr>hmm := m\<rparr>)))
         else
           (case virt_to_page (virt AND NOT PAGESIZE_MASK) of
              None \<Rightarrow> None
            | Some p \<Rightarrow>
                let s = relist p s
                in (case alloclist_free (a_data (adata s p)) (unat (a_n (adata s p))) offset of
                      None \<Rightarrow> None
                    | Some d \<Rightarrow> Some (set_adata p ((adata s p)\<lparr>a_data := d\<rparr>) s))))"

text \<open>Whether the object consists of pages, its length, and the number of its size.\<close>

definition get_alloc_len :: "u64 \<Rightarrow> heap_state \<Rightarrow> (bool \<times> nat \<times> nat) option" where
  "get_alloc_len virt s =
     (if virt AND PAGESIZE_MASK = 0 then
        (case virt_to_page virt of
           None \<Rightarrow> None
         | Some p \<Rightarrow> let n = pg_allocsize (pagestruct (hmm s) p) in Some (True, unat (allocsize n), n))
      else
        (case virt_to_page (virt AND NOT PAGESIZE_MASK) of
           None \<Rightarrow> None
         | Some p \<Rightarrow> let n = unat (n_low (a_n (adata s p))) in Some (False, ALLOCLIST_SIZE n, n)))"

definition copy_heap :: "u64 \<Rightarrow> u64 \<Rightarrow> nat \<Rightarrow> heap_state \<Rightarrow> heap_state" where
  "copy_heap dst src n s =
     s\<lparr>heap := \<lambda>a. if unat (a - dst) < n then heap s (src + (a - dst)) else heap s a\<rparr>"

text \<open>\<open>alloc\<close> the new object, copy and \<open>free\<close> the old one.\<close>

definition move_object :: "u64 \<Rightarrow> u32 \<Rightarrow> nat \<Rightarrow> heap_state \<Rightarrow> (u64 \<times> heap_state) option" where
  "move_object virt len n s =
     (case alloc len s of
        None \<Rightarrow> None
      | Some (p, s) \<Rightarrow>
          (case hfree virt (copy_heap p virt n s) of None \<Rightarrow> None | Some s \<Rightarrow> Some (p, s)))"

text \<open>The result 0 is \<open>NULL\<close>.\<close>

definition hrealloc :: "u64 \<Rightarrow> u32 \<Rightarrow> heap_state \<Rightarrow> (u64 \<times> heap_state) option" where
  "hrealloc virt len s =
     (if virt = 0 \<and> len = 0 then Some (0, s)
      else if virt = 0 then alloc len s
      else if len = 0 then (case hfree virt s of None \<Rightarrow> None | Some s \<Rightarrow> Some (0, s))
      else
        (case get_alloc_len virt s of
           None \<Rightarrow> None
         | Some (pagemode, oldlen, n) \<Rightarrow>
             if oldlen = unat len then Some (virt, s)
             else if oldlen < unat len then move_object virt len oldlen s
             else
               let smaller = (if pagemode then
                                (if n > 0 then unat (allocsize (n - 1)) else ALLOCLIST_SIZE (NUM_OF_ALLOCLIST - 1))
                              else (if n > 0 then ALLOCLIST_SIZE (n - 1) else ALLOCLIST_SIZE 0))
               in if smaller < unat len then Some (virt, s)
                  else move_object virt len (unat len) s))"

end
