(* ===== verification/Small_Objects.thy ===== *)
theory Small_Objects
  imports Small_Alloc
begin

text \<open>
  The chunks of a page: the bitmap, the pages and their lists, and the loop of \<open>alloc\<close>.
\<close>

section \<open>The bitmap of a page\<close>

definition abit :: "(nat \<Rightarrow> u8) \<Rightarrow> nat \<Rightarrow> bool" where "abit d b = bit (d (b div 8)) (b mod 8)"

definition under_header :: "nat \<Rightarrow> nat \<Rightarrow> bool" where
  "under_header n b = (b * ALLOCLIST_SIZE n < ALLOCLIST_HEADERSIZE n)"

lemma bit_u8_or: "j < 8 \<Longrightarrow> bit ((w :: u8) OR push_bit i 1) j \<longleftrightarrow> bit w j \<or> j = i"
  by (auto simp: bit_simps)

lemma abit_set: "abit (set_abit b d) c \<longleftrightarrow> abit d c \<or> c = b"
proof -
  have "c = b \<longleftrightarrow> c div 8 = b div 8 \<and> c mod 8 = b mod 8" by (metis div_mult_mod_eq)
  then show ?thesis using bit_u8_or [of "c mod 8" "d (b div 8)" "b mod 8"] by (auto simp: abit_def set_abit_def)
qed

lemma abit_clear: "abit (clear_abit b d) c \<longleftrightarrow> abit d c \<and> c \<noteq> b"
proof -
  have "c = b \<longleftrightarrow> c div 8 = b div 8 \<and> c mod 8 = b mod 8" by (metis div_mult_mod_eq)
  moreover have "bit ((w :: u8) AND NOT (push_bit i 1)) j \<longleftrightarrow> bit w j \<and> j \<noteq> i" if "j < 8" for w i j
    using that by (auto simp: bit_simps)
  ultimately show ?thesis by (auto simp: abit_def clear_abit_def)
qed

lemma abit_fold_set: "abit (fold set_abit bs d) c \<longleftrightarrow> abit d c \<or> c \<in> set bs"
  by (induction bs arbitrary: d) (auto simp: abit_set)

lemma class_cases:
  assumes "n < NUM_OF_ALLOCLIST"
  obtains "n = 0" | "n = 1" | "n = 2" | "n = 3" | "n = 4" | "n = 5" | "n = 6"
  using assms by (auto simp: NUM_OF_ALLOCLIST_def numeral_eq_Suc less_Suc_eq)

lemma class_sizes:
  assumes "n < NUM_OF_ALLOCLIST"
  shows "0 < ALLOCLIST_SIZE n" and "ALLOCLIST_DATABIT n * ALLOCLIST_SIZE n = 4096"
    and "ALLOCLIST_DATABIT n \<le> 8 * ALLOCLIST_DATASIZE n"
  using assms by (cases n rule: class_cases, auto simp: ALLOCLIST_SIZE_def ALLOCLIST_DATABIT_def ALLOCLIST_DATASIZE_def)+

lemma under_header_0: "under_header n 0"
  by (simp add: under_header_def ALLOCLIST_HEADERSIZE_def)

lemma new_data_bits:
  assumes n: "n < NUM_OF_ALLOCLIST" and b: "b < ALLOCLIST_DATABIT n"
  shows "abit (new_data n d) b \<longleftrightarrow> under_header n b"
proof -
  let ?h = "ALLOCLIST_HEADERSIZE n"
  have "b div 8 < ALLOCLIST_DATASIZE n" using class_sizes(3) [OF n] b by linarith
  then have "17 + b div 8 < ?h" by (simp add: ALLOCLIST_HEADERSIZE_def)
  then have "\<not> abit (\<lambda>i. if 17 + i < ?h then 0 else d i) b" by (simp add: abit_def)
  moreover have "under_header n b \<longleftrightarrow> b \<in> set [i \<leftarrow> [0..<?h]. i * ALLOCLIST_SIZE n < ?h]"
  proof -
    have "b \<le> b * ALLOCLIST_SIZE n" using class_sizes(1) [OF n] by simp
    then have "b < ?h" if "b * ALLOCLIST_SIZE n < ?h" using that by (rule le_less_trans)
    then show ?thesis by (auto simp: under_header_def)
  qed
  ultimately show ?thesis by (simp add: new_data_def Let_def abit_fold_set)
qed

lemma byte_full: "(w :: u8) = 0xFF \<longleftrightarrow> (\<forall>j<8. bit w j)"
proof -
  have "(0xFF :: u8) = mask 8" by (simp add: mask_eq_exp_minus_1)
  then show ?thesis by (auto simp: bit_eq_iff bit_mask_iff)
qed

lemma find_first:
  "List.find P [0..<n] = Some i \<longleftrightarrow> i < n \<and> P i \<and> (\<forall>j<i. \<not> P j)"
  by (auto simp: find_Some_iff)

lemma less_block:
  fixes c i j :: nat
  assumes "c < i * 8 + j" and "j < 8"
  shows "c div 8 < i \<or> (c div 8 = i \<and> c mod 8 < j)"
proof -
  have c: "8 * (c div 8) + c mod 8 = c" by simp
  then have "\<not> i < c div 8" using assms by linarith
  moreover have "c mod 8 < j" if "c div 8 = i" using c assms(1) unfolding that by linarith
  ultimately show ?thesis by linarith
qed

lemma alloclist_alloc_cases:
  assumes n: "n < NUM_OF_ALLOCLIST" and h: "abit d 0"
  shows "(alloclist_alloc d n = Some (Inl ()) \<and> (\<forall>b<ALLOCLIST_DATABIT n. abit d b))
    \<or> (\<exists>b. b < ALLOCLIST_DATABIT n \<and> \<not> abit d b
          \<and> alloclist_alloc d n = Some (Inr (b * ALLOCLIST_SIZE n, set_abit b d)))"
proof (cases "List.find (\<lambda>i. d i \<noteq> 0xFF) [0..<ALLOCLIST_DATASIZE n]")
  case None
  have "abit d b" if b: "b < ALLOCLIST_DATABIT n" for b
  proof -
    have "b div 8 < ALLOCLIST_DATASIZE n" using class_sizes(3) [OF n] b by linarith
    then have "d (b div 8) = 0xFF" using None by (auto simp: find_None_iff)
    then show ?thesis using byte_full [of "d (b div 8)"] by (simp add: abit_def)
  qed
  then show ?thesis using None by (simp add: alloclist_alloc_def)
next
  case (Some i)
  then have i: "i < ALLOCLIST_DATASIZE n" "d i \<noteq> 0xFF" "\<And>k. k < i \<Longrightarrow> d k = 0xFF"
    by (auto simp: find_first)
  obtain j where j: "List.find (\<lambda>j. \<not> bit (d i) j) [0..<8] = Some j"
  proof (cases "List.find (\<lambda>j. \<not> bit (d i) j) [0..<8]")
    case None
    then have "d i = 0xFF" unfolding byte_full by (auto simp: find_None_iff)
    then show ?thesis using i(2) by simp
  qed
  then have jb: "j < 8" "\<not> bit (d i) j" "\<And>k. k < j \<Longrightarrow> bit (d i) k" by (auto simp: find_first)
  let ?b = "i * 8 + j"
  have bd: "?b div 8 = i" "?b mod 8 = j" using jb(1) by simp_all
  have free: "\<not> abit d ?b" using jb(2) unfolding abit_def bd .
  show ?thesis
  proof (cases "?b \<ge> ALLOCLIST_DATABIT n")
    case True
    have "abit d c" if c: "c < ALLOCLIST_DATABIT n" for c
    proof -
      have "c < ?b" using c True by simp
      then have "c div 8 < i \<or> (c div 8 = i \<and> c mod 8 < j)" using jb(1) by (rule less_block)
      then show ?thesis using i(3) jb(3) byte_full [of "d (c div 8)"] by (auto simp: abit_def)
    qed
    then show ?thesis using Some j True by (simp add: alloclist_alloc_def Let_def)
  next
    case False
    have "?b \<noteq> 0" using free h by metis
    then have o: "?b * ALLOCLIST_SIZE n \<noteq> 0" using class_sizes(1) [OF n] by simp
    have "?b * ALLOCLIST_SIZE n < ALLOCLIST_DATABIT n * ALLOCLIST_SIZE n"
      using False class_sizes(1) [OF n] by (intro mult_strict_right_mono) simp_all
    then have "?b * ALLOCLIST_SIZE n < 4096" using class_sizes(2) [OF n] by simp
    then have "alloclist_alloc d n = Some (Inr (?b * ALLOCLIST_SIZE n, set_abit ?b d))"
      using Some j False o by (simp add: alloclist_alloc_def Let_def set_abit_def bd mod_less [OF jb(1)] del: mult_eq_0_iff)
    then show ?thesis using False free by (auto simp: not_le)
  qed
qed

section \<open>Live objects\<close>

abbreviation cls :: "heap_state \<Rightarrow> nat \<Rightarrow> nat" where "cls s p \<equiv> unat (n_low (a_n (adata s p)))"
abbreviation delisted :: "heap_state \<Rightarrow> nat \<Rightarrow> bool" where "delisted s p \<equiv> n_flag (a_n (adata s p))"

text \<open>\<open>P\<close> is the set of the pages that have been divided into chunks.\<close>

definition heap_ok :: "nat set \<Rightarrow> heap_state \<Rightarrow> bool" where
  "heap_ok P s =
     (mm_ok (hmm s)
      \<and> (\<forall>p\<in>P. (p, 0) \<in> used_blocks (hmm s) \<and> cls s p < NUM_OF_ALLOCLIST
            \<and> (\<forall>b<ALLOCLIST_DATABIT (cls s p). under_header (cls s p) b \<longrightarrow> abit (a_data (adata s p)) b))
      \<and> (\<forall>k<NUM_OF_ALLOCLIST. distinct (alloclist s k)
            \<and> set (alloclist s k) = {p \<in> P. cls s p = k \<and> \<not> delisted s p}))"

definition chunks :: "nat set \<Rightarrow> heap_state \<Rightarrow> (nat \<times> nat) set" where
  "chunks P s = {(p, b). p \<in> P \<and> b < ALLOCLIST_DATABIT (cls s p) \<and> \<not> under_header (cls s p) b
                   \<and> abit (a_data (adata s p)) b}"

definition page_addr :: "nat \<Rightarrow> nat" where "page_addr p = 2 ^ 30 + 4096 * p"

definition small_objects :: "nat set \<Rightarrow> heap_state \<Rightarrow> (nat \<times> nat) set" where
  "small_objects P s = (\<lambda>(p, b). (page_addr p + b * ALLOCLIST_SIZE (cls s p), ALLOCLIST_SIZE (cls s p))) ` chunks P s"

definition page_objects :: "nat set \<Rightarrow> heap_state \<Rightarrow> (nat \<times> nat) set" where
  "page_objects P s = (\<lambda>(p, n). (page_addr p, 4096 * 2 ^ n)) ` {(p, n) \<in> used_blocks (hmm s). p \<notin> P}"

text \<open>The address and the length of everything that has been handed out.\<close>

definition objects :: "nat set \<Rightarrow> heap_state \<Rightarrow> (nat \<times> nat) set" where
  "objects P s = small_objects P s \<union> page_objects P s"

lemma chunk_flag_bits:
  fixes a :: u8
  shows "(a OR 0x80) AND NOT 0x80 = a AND NOT 0x80" and "(a OR 0x80) AND 0x80 \<noteq> 0"
    and "(a AND NOT 0x80) AND NOT 0x80 = a AND NOT 0x80" and "(a AND NOT 0x80) AND 0x80 = 0"
    and "a AND 0x80 = 0 \<Longrightarrow> a AND NOT 0x80 = a"
proof -
  have e: "(0x80 :: u8) = push_bit 7 1" by simp
  show "(a OR 0x80) AND NOT 0x80 = a AND NOT 0x80" "(a AND NOT 0x80) AND NOT 0x80 = a AND NOT 0x80"
    "(a AND NOT 0x80) AND 0x80 = 0"
    by (auto intro!: bit_word_eqI simp: bit_simps dest: bit_imp_le_length)
  have "bit ((a OR 0x80) AND 0x80) 7" by (simp add: e bit_simps del: push_bit_of_1 push_bit_numeral)
  then show "(a OR 0x80) AND 0x80 \<noteq> 0" by auto
  show "a AND NOT 0x80 = a" if z: "a AND 0x80 = 0"
  proof (rule bit_word_eqI)
    fix i assume i: "i < LENGTH(8)"
    have "bit (a AND 0x80) i = bit (0 :: u8) i" using z by simp
    then show "bit (a AND NOT 0x80) i = bit a i" using i by (auto simp: bit_simps)
  qed
qed

lemma n_low_simps [simp]:
  "n_low (a OR 0x80) = n_low a" "n_low (n_low a) = n_low a" "n_flag (a OR 0x80)" "\<not> n_flag (n_low a)"
  unfolding n_low_def n_flag_def chunk_flag_bits(1,3,4) by (rule refl, rule refl, rule chunk_flag_bits(2), blast)

lemma n_low_unflagged: "\<not> n_flag a \<Longrightarrow> n_low a = a"
  unfolding n_low_def n_flag_def using chunk_flag_bits(5) by blast

lemma class_number: "i < NUM_OF_ALLOCLIST \<Longrightarrow> unat (n_low (of_nat i)) = i \<and> \<not> n_flag (of_nat i)"
  by (cases i rule: class_cases) (simp_all add: n_low_def n_flag_def)

section \<open>The loop\<close>

definition new_page_spec :: "nat \<Rightarrow> heap_state \<Rightarrow> nat \<Rightarrow> heap_state \<Rightarrow> bool" where
  "new_page_spec i s p s' =
     (alloc_spec 0 (hmm s) p (hmm s') \<and> alloclist s' = alloclist s \<and> heap s' = heap s
      \<and> adata s' = (adata s)(p := \<lparr>a_n = of_nat i, a_data = new_data i (a_data (adata s p))\<rparr>))"

lemma page_to_virt_eq: "mm_ok m \<Longrightarrow> p < NUM_OF_PAGES \<Longrightarrow> page_to_virt m p = page_virt p"
  by (simp add: mm_ok_def core_ok_def addrs_ok_def page_to_virt_def)

lemma alloc_order_1: "alloc_order (Suc 0) = Some 0"
proof -
  have "(LEAST i. (1 :: nat) \<le> 2 ^ i) = 0" by (rule Least_equality) simp_all
  then show ?thesis using alloc_order_eq(1) [of 1] by simp
qed

lemma alloclist_new_cases:
  assumes ok: "mm_ok (hmm s)"
  shows "(alloclist_new i s = None \<and> free_pages (hmm s) = {})
    \<or> (\<exists>p s'. alloclist_new i s = Some (p, s') \<and> new_page_spec i s p s')"
proof (cases "mm_page_alloc 0 (hmm s)")
  case None
  then have "\<not> (\<exists>p. pages_of 0 p \<subseteq> free_pages (hmm s))"
    using mm_page_alloc_fails [OF ok, of 0] by (simp add: NUM_OF_ALLOCSIZE_def)
  then have "free_pages (hmm s) = {}" by (auto simp: pages_of_def)
  then show ?thesis using None by (simp add: alloclist_new_def alloc_page_def alloc_pages_def alloc_order_1)
next
  case (Some a)
  obtain p m where a: "a = (p, m)" by (cases a)
  have "alloc_spec 0 (hmm s) p m" using mm_page_alloc_some [OF ok] Some a by blast
  then show ?thesis
    using Some a by (auto simp: alloclist_new_def alloc_page_def alloc_pages_def alloc_order_1 new_page_spec_def)
qed

lemma used_unique: "(p, n) \<in> used_blocks s \<Longrightarrow> (p, m) \<in> used_blocks s \<Longrightarrow> n = m"
  by (auto simp: used_blocks_def)

lemma fresh_page:
  assumes "mm_ok s" and "alloc_spec n s p s'"
  shows "(p, m) \<notin> used_blocks s"
proof
  assume "(p, m) \<in> used_blocks s"
  moreover have "p \<in> free_pages s" using assms(2) by (auto simp: alloc_spec_def pages_of_def)
  moreover have "p \<in> pages_of m p" by (simp add: pages_of_def)
  ultimately show False using pages.used_spare [OF assms(1), of p m] by auto
qed

text \<open>The page the loop works on, off its list: a listed one, or a new one.\<close>

definition popped :: "nat \<Rightarrow> nat set \<Rightarrow> heap_state \<Rightarrow> nat \<Rightarrow> heap_state \<Rightarrow> bool" where
  "popped i P s p s' =
     (heap_ok P (s'\<lparr>alloclist := (alloclist s')(i := p # alloclist s' i)\<rparr>) \<and> p \<in> P \<and> cls s' p = i \<and> \<not> delisted s' p
      \<and> p \<notin> set (alloclist s' i) \<and> heap s' = heap s)"

lemma heap_okD:
  assumes "heap_ok P s"
  shows "mm_ok (hmm s)" and "p \<in> P \<Longrightarrow> (p, 0) \<in> used_blocks (hmm s)" and "p \<in> P \<Longrightarrow> cls s p < NUM_OF_ALLOCLIST"
    and "p \<in> P \<Longrightarrow> b < ALLOCLIST_DATABIT (cls s p) \<Longrightarrow> under_header (cls s p) b \<Longrightarrow> abit (a_data (adata s p)) b"
    and "k < NUM_OF_ALLOCLIST \<Longrightarrow> distinct (alloclist s k)"
    and "k < NUM_OF_ALLOCLIST \<Longrightarrow> set (alloclist s k) = {p \<in> P. cls s p = k \<and> \<not> delisted s p}"
  using assms by (auto simp: heap_ok_def)

lemma pop_listed:
  assumes ok: "heap_ok P s" and i: "i < NUM_OF_ALLOCLIST" and l: "alloclist s i = p # ps"
  shows "pop_page i s = Some (p, s\<lparr>alloclist := (alloclist s)(i := ps)\<rparr>)"
    and "popped i P s p (s\<lparr>alloclist := (alloclist s)(i := ps)\<rparr>)"
proof -
  have "p \<in> set (alloclist s i)" "distinct (alloclist s i)" using l heap_okD(5) [OF ok i] by simp_all
  then have "p \<in> P" "cls s p = i" "\<not> delisted s p" "p \<notin> set ps" using heap_okD(6) [OF ok i] l by auto
  moreover have "s\<lparr>alloclist := (alloclist s)(i := ps, i := p # ps)\<rparr> = s" using l by (simp add: fun_upd_idem)
  ultimately show "popped i P s p (s\<lparr>alloclist := (alloclist s)(i := ps)\<rparr>)"
    using ok by (simp add: popped_def)
qed (simp add: pop_page_def l)

lemma pop_new:
  assumes ok: "heap_ok P s" and i: "i < NUM_OF_ALLOCLIST" and l: "alloclist s i = []"
    and new: "new_page_spec i s p s'"
  shows "popped i (insert p P) s p s'" and "p \<notin> P" and "chunks (insert p P) s' = chunks P s"
    and "\<forall>q\<in>P. adata s' q = adata s q" and "used_blocks (hmm s') = insert (p, 0) (used_blocks (hmm s))"
proof -
  note mm = heap_okD(1) [OF ok]
  have sp: "alloc_spec 0 (hmm s) p (hmm s')" and al: "alloclist s' = alloclist s" and hp: "heap s' = heap s"
    and ad: "adata s' = (adata s)(p := \<lparr>a_n = of_nat i, a_data = new_data i (a_data (adata s p))\<rparr>)"
    using new by (simp_all add: new_page_spec_def)
  show used: "used_blocks (hmm s') = insert (p, 0) (used_blocks (hmm s))" using sp by (simp add: alloc_spec_def)
  show pP: "p \<notin> P" using fresh_page [OF mm sp] heap_okD(2) [OF ok] by blast
  show old: "\<forall>q\<in>P. adata s' q = adata s q" using pP ad by auto
  have c: "cls s' p = i" "\<not> delisted s' p" using class_number [OF i] by (simp_all add: ad)
  have nb: "abit (a_data (adata s' p)) b \<longleftrightarrow> under_header i b" if "b < ALLOCLIST_DATABIT i" for b
    using new_data_bits [OF i that] by (simp add: ad)
  have "heap_ok (insert p P) (s'\<lparr>alloclist := (alloclist s')(i := p # alloclist s' i)\<rparr>)"
    unfolding heap_ok_def
  proof (intro conjI ballI allI impI)
    show "mm_ok (hmm (s'\<lparr>alloclist := (alloclist s')(i := p # alloclist s' i)\<rparr>))" using sp by (simp add: alloc_spec_def)
  next
    fix k assume k: "k < NUM_OF_ALLOCLIST"
    note lk = heap_okD(5,6) [OF ok k]
    show "distinct (alloclist (s'\<lparr>alloclist := (alloclist s')(i := p # alloclist s' i)\<rparr>) k)"
      using lk l by (simp add: al)
    have "p \<notin> set (alloclist s k)" using lk(2) pP by simp
    then show "set (alloclist (s'\<lparr>alloclist := (alloclist s')(i := p # alloclist s' i)\<rparr>) k) =
        {q \<in> insert p P. cls (s'\<lparr>alloclist := (alloclist s')(i := p # alloclist s' i)\<rparr>) q = k
           \<and> \<not> delisted (s'\<lparr>alloclist := (alloclist s')(i := p # alloclist s' i)\<rparr>) q}"
      using lk(2) l c old pP by (cases "k = i") (auto simp: al)
  next
    fix q assume q: "q \<in> insert p P"
    let ?s = "s'\<lparr>alloclist := (alloclist s')(i := p # alloclist s' i)\<rparr>"
    show "(q, 0) \<in> used_blocks (hmm ?s)" using q used heap_okD(2) [OF ok] by auto
    show "cls ?s q < NUM_OF_ALLOCLIST" using q c i old heap_okD(3) [OF ok] pP by auto
    fix b assume b: "b < ALLOCLIST_DATABIT (cls ?s q)" "under_header (cls ?s q) b"
    show "abit (a_data (adata ?s q)) b"
      using q b nb c old heap_okD(4) [OF ok] by (cases "q = p") auto
  qed
  then show "popped i (insert p P) s p s'" using c l pP al hp heap_okD(6) [OF ok i] by (simp add: popped_def)
  have "(q, b) \<in> chunks (insert p P) s' \<longleftrightarrow> (q, b) \<in> chunks P s" for q b
    using nb [of b] c old pP by (cases "q = p") (auto simp: chunks_def)
  then show "chunks (insert p P) s' = chunks P s" by auto
qed

lemma last_chunk: "n < NUM_OF_ALLOCLIST \<Longrightarrow> \<not> under_header n (ALLOCLIST_DATABIT n - 1) \<and> 0 < ALLOCLIST_DATABIT n"
  by (cases n rule: class_cases)
     (simp_all add: under_header_def ALLOCLIST_SIZE_def ALLOCLIST_DATABIT_def ALLOCLIST_HEADERSIZE_def ALLOCLIST_DATASIZE_def)

lemma set_adata_fields [simp]:
  "adata (set_adata p a s) q = (if q = p then a else adata s q)"
  "alloclist (set_adata p a s) = alloclist s" "hmm (set_adata p a s) = hmm s" "heap (set_adata p a s) = heap s"
  by (auto simp: set_adata_def)

lemma heap_okI:
  assumes "mm_ok (hmm s)"
    and "\<And>p. p \<in> P \<Longrightarrow> (p, 0) \<in> used_blocks (hmm s)" and "\<And>p. p \<in> P \<Longrightarrow> cls s p < NUM_OF_ALLOCLIST"
    and "\<And>p b. p \<in> P \<Longrightarrow> b < ALLOCLIST_DATABIT (cls s p) \<Longrightarrow> under_header (cls s p) b \<Longrightarrow> abit (a_data (adata s p)) b"
    and "\<And>k. k < NUM_OF_ALLOCLIST \<Longrightarrow> distinct (alloclist s k)"
    and "\<And>k. k < NUM_OF_ALLOCLIST \<Longrightarrow> set (alloclist s k) = {p \<in> P. cls s p = k \<and> \<not> delisted s p}"
  shows "heap_ok P s"
  using assms by (simp add: heap_ok_def)

text \<open>A full page leaves its list.\<close>

lemma iter_full:
  assumes pp: "popped i P s p s1" and i: "i < NUM_OF_ALLOCLIST"
    and s2: "s2 = set_adata p ((adata s1 p)\<lparr>a_n := a_n (adata s1 p) OR 0x80\<rparr>) s1"
  shows "heap_ok P s2" and "chunks P s2 = chunks P s1" and "cls s2 q = cls s1 q"
proof -
  let ?o = "s1\<lparr>alloclist := (alloclist s1)(i := p # alloclist s1 i)\<rparr>"
  have ok: "heap_ok P ?o" and p: "p \<in> P" "cls s1 p = i" "\<not> delisted s1 p" "p \<notin> set (alloclist s1 i)"
    using pp by (simp_all add: popped_def)
  have c: "cls s2 q = cls s1 q" for q by (simp add: s2)
  then show "cls s2 q = cls s1 q" .
  have d: "a_data (adata s2 q) = a_data (adata s1 q)" for q by (simp add: s2)
  have f: "delisted s2 q \<longleftrightarrow> q = p \<or> delisted s1 q" for q by (simp add: s2)
  show "heap_ok P s2"
  proof (rule heap_okI)
    fix k assume k: "k < NUM_OF_ALLOCLIST"
    show "distinct (alloclist s2 k)" using heap_okD(5) [OF ok k] by (cases "k = i") (simp_all add: s2)
    have "set (alloclist ?o k) = {q \<in> P. cls s1 q = k \<and> \<not> delisted s1 q}" using heap_okD(6) [OF ok k] by simp
    then show "set (alloclist s2 k) = {q \<in> P. cls s2 q = k \<and> \<not> delisted s2 q}"
      unfolding c f using p(2,4) by (cases "k = i") (auto simp: s2)
  qed (use heap_okD(1-4) [OF ok] in \<open>simp_all add: c d\<close>, simp_all add: s2)
  show "chunks P s2 = chunks P s1" by (auto simp: chunks_def c d)
qed

text \<open>A free chunk is taken and the page goes to the front of its list.\<close>

lemma iter_take:
  assumes pp: "popped i P s p s1" and i: "i < NUM_OF_ALLOCLIST"
    and b: "b < ALLOCLIST_DATABIT i" "\<not> abit (a_data (adata s1 p)) b"
    and s2: "s2 = (set_adata p ((adata s1 p)\<lparr>a_data := set_abit b (a_data (adata s1 p))\<rparr>) s1)
                    \<lparr>alloclist := (alloclist s1)(i := p # alloclist s1 i)\<rparr>"
  shows "heap_ok P s2" and "chunks P s2 = insert (p, b) (chunks P s1)" and "cls s2 q = cls s1 q"
    and "\<not> under_header i b" and "(p, b) \<notin> chunks P s1"
proof -
  let ?o = "s1\<lparr>alloclist := (alloclist s1)(i := p # alloclist s1 i)\<rparr>"
  have ok: "heap_ok P ?o" and p: "p \<in> P" "cls s1 p = i" using pp by (simp_all add: popped_def)
  have n: "a_n (adata s2 q) = a_n (adata s1 q)" for q by (simp add: s2)
  then show "cls s2 q = cls s1 q" by simp
  have d: "abit (a_data (adata s2 q)) c \<longleftrightarrow> abit (a_data (adata s1 q)) c \<or> (q = p \<and> c = b)" for q c
    by (simp add: s2 abit_set)
  show u: "\<not> under_header i b" using heap_okD(4) [OF ok p(1), of b] p(2) b by auto
  show "heap_ok P s2"
    by (rule heap_okI) (use heap_okD [OF ok] in \<open>simp_all add: n d\<close>, simp_all add: s2)
  show "(p, b) \<notin> chunks P s1" using b(2) by (simp add: chunks_def)
  have "(q, c) \<in> chunks P s2 \<longleftrightarrow> (q, c) \<in> insert (p, b) (chunks P s1)" for q c
    using p b u by (auto simp: chunks_def n d)
  then show "chunks P s2 = insert (p, b) (chunks P s1)" by auto
qed

definition taken :: "nat \<Rightarrow> nat set \<Rightarrow> heap_state \<Rightarrow> nat set \<Rightarrow> heap_state \<Rightarrow> nat \<Rightarrow> nat \<Rightarrow> bool" where
  "taken i P s P' s' p b =
     (heap_ok P' s' \<and> P \<subseteq> P' \<and> p \<in> P' \<and> cls s' p = i \<and> b < ALLOCLIST_DATABIT i \<and> \<not> under_header i b
      \<and> (p, b) \<notin> chunks P s \<and> chunks P' s' = insert (p, b) (chunks P s)
      \<and> (\<forall>q\<in>P. cls s' q = cls s q) \<and> heap s' = heap s
      \<and> used_blocks (hmm s') = used_blocks (hmm s) \<union> (P' - P) \<times> {0}
      \<and> (\<forall>q\<in>P' - P. \<forall>m. (q, m) \<notin> used_blocks (hmm s)))"

lemma popped_virt:
  assumes "popped i P s p s1" shows "page_to_virt (hmm s1) p = page_virt p"
proof -
  let ?o = "s1\<lparr>alloclist := (alloclist s1)(i := p # alloclist s1 i)\<rparr>"
  have "heap_ok P ?o" "p \<in> P" using assms by (simp_all add: popped_def)
  then have "mm_ok (hmm s1)" "(p, 0) \<in> used_blocks (hmm s1)" using heap_okD(1,2) [of P ?o] by simp_all
  then show ?thesis using page_to_virt_eq by (simp add: used_blocks_def)
qed

lemma popped_cases:
  assumes pp: "popped i P s p s1" and i: "i < NUM_OF_ALLOCLIST" and pop: "pop_page i s0 = Some (p, s1)"
  obtains (full) "\<forall>b<ALLOCLIST_DATABIT i. abit (a_data (adata s1 p)) b"
      "alloc_loop i s0 = alloc_loop i (set_adata p ((adata s1 p)\<lparr>a_n := a_n (adata s1 p) OR 0x80\<rparr>) s1)"
  | (take) b where "b < ALLOCLIST_DATABIT i" "\<not> abit (a_data (adata s1 p)) b"
      "alloc_loop i s0 = Some (page_virt p + of_nat (b * ALLOCLIST_SIZE i),
         (set_adata p ((adata s1 p)\<lparr>a_data := set_abit b (a_data (adata s1 p))\<rparr>) s1)
           \<lparr>alloclist := (alloclist s1)(i := p # alloclist s1 i)\<rparr>)"
proof -
  let ?o = "s1\<lparr>alloclist := (alloclist s1)(i := p # alloclist s1 i)\<rparr>"
  have ok: "heap_ok P ?o" and p: "p \<in> P" "cls s1 p = i" using pp by (simp_all add: popped_def)
  have "abit (a_data (adata s1 p)) 0"
    using heap_okD(4) [OF ok p(1), of 0] last_chunk [OF i] under_header_0 p(2) by simp
  from alloclist_alloc_cases [OF i this] show ?thesis
  proof (elim disjE conjE exE)
    assume a: "alloclist_alloc (a_data (adata s1 p)) i = Some (Inl ())" "\<forall>b<ALLOCLIST_DATABIT i. abit (a_data (adata s1 p)) b"
    show ?thesis by (rule full [OF a(2)]) (subst alloc_loop.simps, simp add: pop a(1))
  next
    fix b assume a: "b < ALLOCLIST_DATABIT i" "\<not> abit (a_data (adata s1 p)) b"
      "alloclist_alloc (a_data (adata s1 p)) i = Some (Inr (b * ALLOCLIST_SIZE i, set_abit b (a_data (adata s1 p))))"
    show ?thesis by (rule take [OF a(1,2)]) (subst alloc_loop.simps, simp add: pop a(3) popped_virt [OF pp])
  qed
qed

lemma alloc_loop_result:
  assumes "heap_ok P s" and i: "i < NUM_OF_ALLOCLIST"
  shows "(alloc_loop i s = None \<and> free_pages (hmm s) = {})
    \<or> (\<exists>P' p b s'. alloc_loop i s = Some (page_virt p + of_nat (b * ALLOCLIST_SIZE i), s') \<and> taken i P s P' s' p b)"
  using assms(1)
proof (induction "alloclist s i" arbitrary: s)
  case Nil
  note ok = Nil.prems and l = Nil.hyps [symmetric]
  from alloclist_new_cases [OF heap_okD(1) [OF ok], of i] show ?case
  proof (elim disjE conjE exE)
    assume "alloclist_new i s = None" "free_pages (hmm s) = {}"
    then show ?thesis by (subst alloc_loop.simps) (simp add: pop_page_def l)
  next
    fix p s1 assume n: "alloclist_new i s = Some (p, s1)" "new_page_spec i s p s1"
    note N = pop_new [OF ok i l n(2)]
    have pop: "pop_page i s = Some (p, s1)" using n(1) l by (simp add: pop_page_def)
    have fr: "(p, m) \<notin> used_blocks (hmm s)" for m
      using fresh_page [OF heap_okD(1) [OF ok]] n(2) by (auto simp: new_page_spec_def)
    from N(1) i pop show ?thesis
    proof (cases rule: popped_cases)
      case full
      let ?b = "ALLOCLIST_DATABIT i - 1"
      have "abit (a_data (adata s1 p)) ?b" using full(1) last_chunk [OF i] by simp
      then have "abit (new_data i (a_data (adata s p))) ?b" using n(2) by (simp add: new_page_spec_def)
      then show ?thesis using new_data_bits [OF i, of ?b] last_chunk [OF i] by simp
    next
      case (take b)
      let ?s2 = "(set_adata p ((adata s1 p)\<lparr>a_data := set_abit b (a_data (adata s1 p))\<rparr>) s1)
                    \<lparr>alloclist := (alloclist s1)(i := p # alloclist s1 i)\<rparr>"
      note T = iter_take [OF N(1) i take(1,2) refl]
      have "taken i P s (insert p P) ?s2 p b"
        unfolding taken_def
      proof (intro conjI)
        show "cls ?s2 p = i" using T(3) N(1) by (simp add: popped_def)
        show "(p, b) \<notin> chunks P s" "chunks (insert p P) ?s2 = insert (p, b) (chunks P s)" using T(2,5) N(3) by simp_all
        show "\<forall>q\<in>P. cls ?s2 q = cls s q" using T(3) N(4) by simp
        show "heap ?s2 = heap s" using n(2) by (simp add: new_page_spec_def)
        show "used_blocks (hmm ?s2) = used_blocks (hmm s) \<union> (insert p P - P) \<times> {0}" using N(2,5) by auto
        show "\<forall>q\<in>insert p P - P. \<forall>m. (q, m) \<notin> used_blocks (hmm s)" using fr by auto
      qed (use T take in auto)
      then show ?thesis using take(3) by blast
    qed
  qed
next
  case (Cons p ps)
  note ok = Cons.prems and l = Cons.hyps(2) [symmetric]
  note L = pop_listed [OF ok i l]
  let ?s1 = "s\<lparr>alloclist := (alloclist s)(i := ps)\<rparr>"
  have ch: "chunks P ?s1 = chunks P s" by (simp add: chunks_def)
  from L(2) i L(1) show ?case
  proof (cases rule: popped_cases)
    case full
    let ?s2 = "set_adata p ((adata ?s1 p)\<lparr>a_n := a_n (adata ?s1 p) OR 0x80\<rparr>) ?s1"
    note F = iter_full [OF L(2) i refl]
    have "(alloc_loop i ?s2 = None \<and> free_pages (hmm ?s2) = {})
      \<or> (\<exists>P' p b s'. alloc_loop i ?s2 = Some (page_virt p + of_nat (b * ALLOCLIST_SIZE i), s') \<and> taken i P ?s2 P' s' p b)"
      by (rule Cons.hyps(1) [OF _ F(1)]) simp
    moreover have "taken i P s P' s' p' b" if "taken i P ?s2 P' s' p' b" for P' s' p' b
      using that F(2,3) ch unfolding taken_def by simp
    ultimately show ?thesis using full(2) by simp blast
  next
    case (take b)
    let ?s2 = "(set_adata p ((adata ?s1 p)\<lparr>a_data := set_abit b (a_data (adata ?s1 p))\<rparr>) ?s1)
                    \<lparr>alloclist := (alloclist ?s1)(i := p # alloclist ?s1 i)\<rparr>"
    note T = iter_take [OF L(2) i take(1,2) refl]
    have "taken i P s P ?s2 p b"
      unfolding taken_def
    proof (intro conjI)
      show "p \<in> P" "cls ?s2 p = i" using T(3) L(2) by (simp_all add: popped_def)
      show "(p, b) \<notin> chunks P s" "chunks P ?s2 = insert (p, b) (chunks P s)" using T(2,5) ch by simp_all
      show "\<forall>q\<in>P. cls ?s2 q = cls s q" using T(3) by simp
    qed (use T take in simp_all)
    then show ?thesis using take(3) by blast
  qed
qed

end
