(* ===== verification/Heap_Objects.thy ===== *)
theory Heap_Objects
  imports Small_Objects
begin

text \<open>
  The objects \<open>alloc\<close>, \<open>free\<close> and \<open>realloc\<close> hand out and take back, chunks and blocks of pages alike, as
  address ranges.
\<close>

section \<open>The objects do not overlap\<close>

definition span :: "nat \<times> nat \<Rightarrow> nat set" where "span ob = {fst ob..<fst ob + snd ob}"

lemma small_span:
  assumes n: "n < NUM_OF_ALLOCLIST" and b: "b < ALLOCLIST_DATABIT n"
    and x: "x \<in> span (page_addr p + b * ALLOCLIST_SIZE n, ALLOCLIST_SIZE n)"
  shows "(x - 2 ^ 30) div 4096 = p" and "((x - 2 ^ 30) mod 4096) div ALLOCLIST_SIZE n = b"
proof -
  let ?S = "ALLOCLIST_SIZE n"
  have lim: "(b + 1) * ?S \<le> 4096"
    using mult_le_mono1 [of "b + 1" "ALLOCLIST_DATABIT n" ?S] b class_sizes(2) [OF n] by simp
  obtain r where r: "x = page_addr p + b * ?S + r" "r < ?S"
    using x by (auto simp: span_def intro!: that [of "x - (page_addr p + b * ?S)"])
  then have e: "x - 2 ^ 30 = 4096 * p + (b * ?S + r)" by (simp add: page_addr_def)
  have small: "b * ?S + r < 4096" using r(2) lim by (simp add: algebra_simps)
  show "(x - 2 ^ 30) div 4096 = p" unfolding e using small by simp
  have "(x - 2 ^ 30) mod 4096 = b * ?S + r" unfolding e using small by simp
  then show "((x - 2 ^ 30) mod 4096) div ?S = b" using r(2) class_sizes(1) [OF n] by simp
qed

lemma page_span: "x \<in> span (page_addr p, 4096 * 2 ^ n) \<Longrightarrow> (x - 2 ^ 30) div 4096 \<in> pages_of n p"
  by (auto simp: span_def page_addr_def pages_of_def less_mult_imp_div_less div_less_iff_less_mult
      less_eq_div_iff_mult_less_eq)

lemma objects_cases:
  assumes "ob \<in> objects P s"
  obtains (small) p b where "(p, b) \<in> chunks P s" "ob = (page_addr p + b * ALLOCLIST_SIZE (cls s p), ALLOCLIST_SIZE (cls s p))"
  | (pages) p n where "(p, n) \<in> used_blocks (hmm s)" "p \<notin> P" "ob = (page_addr p, 4096 * 2 ^ n)"
  using assms by (auto simp: objects_def small_objects_def page_objects_def)

lemma objects_disjoint:
  assumes ok: "heap_ok P s" and o: "ob \<in> objects P s" "ob' \<in> objects P s" and x: "x \<in> span ob" "x \<in> span ob'"
  shows "ob = ob'"
proof -
  let ?q = "(x - 2 ^ 30) div 4096"
  have bl: "blocks_ok (hmm s)" using heap_okD(1) [OF ok] by (simp add: mm_ok_def core_ok_def)
  have sm: "?q = p \<and> ((x - 2 ^ 30) mod 4096) div ALLOCLIST_SIZE (cls s p) = b \<and> p \<in> P \<and> (p, 0) \<in> used_blocks (hmm s)"
    if "(p, b) \<in> chunks P s" "x \<in> span (page_addr p + b * ALLOCLIST_SIZE (cls s p), ALLOCLIST_SIZE (cls s p))" for p b
    using small_span [OF heap_okD(3) [OF ok], of p b x] heap_okD(2) [OF ok] that by (auto simp: chunks_def)
  have mix: False if "p \<in> P" "(p, 0) \<in> used_blocks (hmm s)" "(q, n) \<in> used_blocks (hmm s)" "q \<notin> P" "p \<in> pages_of n q" for p q n
    using used_disjoint(2) [OF bl that(2,3)] that by (auto simp: pages_of_def)
  from o(1) show ?thesis
  proof (cases rule: objects_cases)
    case a: (small p b)
    then have A: "?q = p" "((x - 2 ^ 30) mod 4096) div ALLOCLIST_SIZE (cls s p) = b" "p \<in> P" "(p, 0) \<in> used_blocks (hmm s)"
      using sm x(1) by auto
    from o(2) show ?thesis
    proof (cases rule: objects_cases)
      case c: (small p' b')
      then have "?q = p'" "((x - 2 ^ 30) mod 4096) div ALLOCLIST_SIZE (cls s p') = b'" using sm x(2) by auto
      then show ?thesis using A a c by auto
    next
      case c: (pages p' n)
      then show ?thesis using mix [OF A(3,4) c(1,2)] page_span [of x p' n] x(2) A(1) by simp
    qed
  next
    case a: (pages p n)
    then have A: "?q \<in> pages_of n p" using page_span x(1) by simp
    from o(2) show ?thesis
    proof (cases rule: objects_cases)
      case c: (small p' b')
      then have "?q = p'" "p' \<in> P" "(p', 0) \<in> used_blocks (hmm s)" using sm x(2) by auto
      then show ?thesis using mix a A by blast
    next
      case c: (pages p' m)
      then have "?q \<in> pages_of m p'" using page_span x(2) by simp
      then have "p = p'" using used_disjoint(2) [OF bl a(1) c(1)] A by auto
      then show ?thesis using used_unique a c by blast
    qed
  qed
qed

section \<open>\<open>alloc\<close>\<close>

lemma unat_object:
  assumes "p < NUM_OF_PAGES" and "off < 4096"
  shows "unat (page_virt p + of_nat off) = page_addr p + off"
proof -
  have p: "p < 32768" using assms(1) by (simp add: NUM_OF_PAGES_def)
  have "page_virt p + of_nat off = of_nat (page_addr p + off)"
    by (simp add: page_virt_of_nat page_addr_def)
  then show ?thesis using p assms(2) by (simp add: unat_of_nat64 page_addr_def del: of_nat_add of_nat_mult)
qed

lemma chunk_offset:
  "n < NUM_OF_ALLOCLIST \<Longrightarrow> b < ALLOCLIST_DATABIT n \<Longrightarrow> b * ALLOCLIST_SIZE n < 4096"
  using mult_strict_right_mono [of b "ALLOCLIST_DATABIT n" "ALLOCLIST_SIZE n"] class_sizes(1,2) [of n] by simp

lemma taken_objects:
  assumes ok: "heap_ok P s" and i: "i < NUM_OF_ALLOCLIST" and t: "taken i P s P' s' p b"
  shows "objects P' s' = insert (page_addr p + b * ALLOCLIST_SIZE i, ALLOCLIST_SIZE i) (objects P s)"
    and "(page_addr p + b * ALLOCLIST_SIZE i, ALLOCLIST_SIZE i) \<notin> objects P s"
    and "unat (page_virt p + of_nat (b * ALLOCLIST_SIZE i)) = page_addr p + b * ALLOCLIST_SIZE i"
proof -
  have T: "heap_ok P' s'" "P \<subseteq> P'" "p \<in> P'" "cls s' p = i" "b < ALLOCLIST_DATABIT i" "(p, b) \<notin> chunks P s"
    "chunks P' s' = insert (p, b) (chunks P s)" "\<forall>q\<in>P. cls s' q = cls s q"
    "used_blocks (hmm s') = used_blocks (hmm s) \<union> (P' - P) \<times> {0}"
    "\<forall>q\<in>P' - P. \<forall>m. (q, m) \<notin> used_blocks (hmm s)"
    using t by (simp_all add: taken_def)
  let ?n = "(page_addr p + b * ALLOCLIST_SIZE i, ALLOCLIST_SIZE i)"
  have cl: "cls s' q = cls s q" if "(q, c) \<in> chunks P s" for q c using that T(8) by (auto simp: chunks_def)
  have "(\<lambda>(q, c). (page_addr q + c * ALLOCLIST_SIZE (cls s' q), ALLOCLIST_SIZE (cls s' q))) ` chunks P s
      = (\<lambda>(q, c). (page_addr q + c * ALLOCLIST_SIZE (cls s q), ALLOCLIST_SIZE (cls s q))) ` chunks P s"
    by (rule image_cong) (auto simp: cl)
  then have "small_objects P' s' = insert ?n (small_objects P s)"
    unfolding small_objects_def T(7) image_insert using T(4) by simp
  moreover have "{(q, n) \<in> used_blocks (hmm s'). q \<notin> P'} = {(q, n) \<in> used_blocks (hmm s). q \<notin> P}"
    unfolding T(9) using T(2,10) by auto
  then have "page_objects P' s' = page_objects P s" by (simp add: page_objects_def)
  ultimately show obj: "objects P' s' = insert ?n (objects P s)" by (simp add: objects_def)
  have "(p, 0) \<in> used_blocks (hmm s')" using heap_okD(2) [OF T(1,3)] .
  then show "unat (page_virt p + of_nat (b * ALLOCLIST_SIZE i)) = page_addr p + b * ALLOCLIST_SIZE i"
    using unat_object [OF _ chunk_offset [OF i T(5)], of p] by (simp add: used_blocks_def del: of_nat_mult)
  show "?n \<notin> objects P s"
  proof
    assume n: "?n \<in> objects P s"
    have bl: "blocks_ok (hmm s')" using heap_okD(1) [OF T(1)] by (simp add: mm_ok_def core_ok_def)
    have x: "fst ?n \<in> span ?n" using class_sizes(1) [OF i] by (simp add: span_def)
    from n show False
    proof (cases rule: objects_cases)
      case (small q c)
      have "(fst ?n - 2 ^ 30) div 4096 = p" using small_span(1) [OF i T(5) x] .
      moreover have "(fst ?n - 2 ^ 30) div 4096 = q" and "((fst ?n - 2 ^ 30) mod 4096) div ALLOCLIST_SIZE (cls s q) = c"
        using small_span [OF heap_okD(3) [OF ok], of q c "fst ?n"] small x by (auto simp: chunks_def)
      moreover have "((fst ?n - 2 ^ 30) mod 4096) div ALLOCLIST_SIZE i = b" using small_span(2) [OF i T(5) x] .
      moreover have "cls s q = cls s' q" using cl [OF small(1)] by simp
      ultimately show False using T(4,6) small(1) by simp
    next
      case (pages q n)
      have "(fst ?n - 2 ^ 30) div 4096 \<in> pages_of n q" by (rule page_span) (use x in \<open>simp only: pages(3)\<close>)
      then have "p \<in> pages_of n q" using small_span(1) [OF i T(5) x] by simp
      moreover have "(q, n) \<in> used_blocks (hmm s')" "q \<notin> P'" using pages(1,2) T(9,10) by auto
      ultimately show False
        using used_disjoint(2) [OF bl \<open>(p, 0) \<in> used_blocks (hmm s')\<close>, of q n] T(3) by (auto simp: pages_of_def)
    qed
  qed
qed

definition object_order :: "u32 \<Rightarrow> nat" where
  "object_order len = (LEAST i. unat ((len + 4095) div 4096) \<le> 2 ^ i)"

text \<open>
  The requests \<open>alloc\<close> can tell apart: \<open>alloc_pages\<close> multiplies the number of pages in an \<open>int\<close>, and
  the product is right up to 2GB less a page.  The largest block has 16MB.
\<close>

definition max_request :: nat where "max_request = 0x7FFFF000"

definition max_block :: nat where "max_block = 0x1000000"

definition no_room :: "u32 \<Rightarrow> heap_state \<Rightarrow> bool" where
  "no_room len s =
     (if unat len \<le> 1024 then free_pages (hmm s) = {}
      else max_block < unat len
        \<or> \<not> (\<exists>p. 2 ^ object_order len dvd p \<and> pages_of (object_order len) p \<subseteq> free_pages (hmm s)))"

definition alloc_result :: "nat \<Rightarrow> nat set \<Rightarrow> heap_state \<Rightarrow> u64 \<Rightarrow> heap_state \<Rightarrow> bool" where
  "alloc_result n P s r s' =
     (\<exists>P' l. heap_ok P' s' \<and> n \<le> l \<and> (unat r, l) \<notin> objects P s
        \<and> objects P' s' = insert (unat r, l) (objects P s) \<and> heap s' = heap s)"

lemma size_class_cases:
  obtains (none) "size_class len = None" "1024 < unat len"
  | (some) i where "size_class len = Some i" "i < NUM_OF_ALLOCLIST" "unat len \<le> ALLOCLIST_SIZE i" "unat len \<le> 1024"
proof (cases "size_class len")
  case None
  then have "\<not> unat len \<le> ALLOCLIST_SIZE 6" by (auto simp: size_class_def find_None_iff NUM_OF_ALLOCLIST_def)
  then show ?thesis using none None by (simp add: ALLOCLIST_SIZE_def)
next
  case (Some i)
  then have i: "i < NUM_OF_ALLOCLIST" "unat len \<le> ALLOCLIST_SIZE i" by (auto simp: size_class_def find_first)
  have "ALLOCLIST_SIZE i \<le> 1024" using i(1) by (cases i rule: class_cases) (simp_all add: ALLOCLIST_SIZE_def)
  then show ?thesis using some Some i by simp
qed

lemma page_count:
  assumes "unat len \<le> max_request"
  shows "unat ((len + 4095 :: u32) div 4096) = (unat len + 4095) div 4096"
proof -
  have "unat (len + 4095) = unat len + 4095" using assms by (simp add: unat_word_ariths max_request_def)
  then show ?thesis by (simp add: unat_div)
qed

lemma alloc_order_large:
  assumes "4096 < n" and "n \<le> 0x7FFFF" shows "alloc_order n = None"
proof -
  have w: "of_nat n * 4096 = (of_nat (n * 4096) :: 32 word)" by simp
  have "uint (of_nat (n * 4096) :: 32 word) = int (n * 4096)"
    using assms by (simp add: uint_nat unat_of_nat32 del: of_nat_mult)
  then have sz: "sint (of_nat n * 4096 :: 32 word) = int (n * 4096)"
    using assms unfolding w sint_uint by (subst signed_take_bit_int_eq_self) simp_all
  have "\<not> int (n * 4096) \<le> uint (allocsize i)" if "i < NUM_OF_ALLOCSIZE" for i
  proof -
    have "(2 :: nat) ^ i \<le> 2 ^ 12" using that by (intro power_increasing) (simp_all add: NUM_OF_ALLOCSIZE_def)
    then show ?thesis using assms(1) unat_allocsize [OF that] by (simp add: uint_nat)
  qed
  then show ?thesis by (auto simp: alloc_order_def Let_def sz find_None_iff)
qed

lemma alloc_cases:
  assumes ok: "heap_ok P s" and len: "unat len \<le> max_request"
  shows "(alloc len s = None \<and> no_room len s) \<or> (\<exists>r s'. alloc len s = Some (r, s') \<and> alloc_result (unat len) P s r s')"
proof (cases rule: size_class_cases [of len])
  case (some i)
  from alloc_loop_result [OF ok some(2)] show ?thesis
  proof (elim disjE conjE exE)
    assume "alloc_loop i s = None" "free_pages (hmm s) = {}"
    then show ?thesis using some by (simp add: alloc_def no_room_def)
  next
    fix P' p b s' assume a: "alloc_loop i s = Some (page_virt p + of_nat (b * ALLOCLIST_SIZE i), s')" "taken i P s P' s' p b"
    have "alloc_result (unat len) P s (page_virt p + of_nat (b * ALLOCLIST_SIZE i)) s'"
      unfolding alloc_result_def taken_objects(3) [OF ok some(2) a(2)]
      using taken_objects(1,2) [OF ok some(2) a(2)] some(3) a(2) unfolding taken_def by blast
    then show ?thesis using a(1) some(1) by (simp add: alloc_def)
  qed
next
  case none
  let ?n = "unat ((len + 4095) div 4096)" and ?i = "object_order len"
  show ?thesis
  proof (cases "unat len \<le> max_block")
    case False
    have n: "?n = (unat len + 4095) div 4096" by (rule page_count [OF len])
    have "alloc_order ?n = None"
      unfolding n by (rule alloc_order_large)
        (use False len div_le_mono [of "unat len + 4095" "max_request + 4095" 4096]
           div_le_mono [of "4097 * 4096" "unat len + 4095" 4096] in \<open>simp_all add: max_block_def max_request_def\<close>)
    then show ?thesis using none False by (simp add: alloc_def alloc_pages_def no_room_def)
  next
  case len: True
  have n: "?n = (unat len + 4095) div 4096" "?n \<le> 4096"
    using page_count [of len] len by (simp_all add: max_block_def max_request_def)
  note O = alloc_order_eq [OF n(2), folded object_order_def]
  have mm: "mm_ok (hmm s)" by (rule heap_okD(1) [OF ok])
  show ?thesis
  proof (cases "mm_page_alloc ?i (hmm s)")
    case None
    then have "no_room len s" using none mm_page_alloc_fails [OF mm O(2)] by (simp add: no_room_def)
    then show ?thesis using None none O(1) by (simp add: alloc_def alloc_pages_def)
  next
    case (Some a)
    obtain p m where a: "a = (p, m)" by (cases a)
    have sp: "alloc_spec ?i (hmm s) p m" using mm_page_alloc_some [OF mm] Some a by blast
    then have pN: "p < NUM_OF_PAGES" and mo: "mm_ok m" and us: "used_blocks m = insert (p, ?i) (used_blocks (hmm s))"
      by (simp_all add: alloc_spec_def)
    let ?s = "s\<lparr>hmm := m\<rparr>"
    have fr: "(p, k) \<notin> used_blocks (hmm s)" for k using fresh_page [OF mm sp] .
    then have pP: "p \<notin> P" using heap_okD(2) [OF ok] by blast
    have ok': "heap_ok P ?s"
      by (rule heap_okI) (use heap_okD [OF ok] mo us in simp_all)
    have so: "small_objects P ?s = small_objects P s" by (simp add: small_objects_def chunks_def)
    have "{(q, n) \<in> used_blocks (hmm ?s). q \<notin> P} = insert (p, ?i) {(q, n) \<in> used_blocks (hmm s). q \<notin> P}"
      using us pP by auto
    then have "page_objects P ?s = insert (page_addr p, 4096 * 2 ^ ?i) (page_objects P s)"
      by (simp add: page_objects_def)
    then have obj: "objects P ?s = insert (page_addr p, 4096 * 2 ^ ?i) (objects P s)" using so by (simp add: objects_def)
    have "(page_addr p, 4096 * 2 ^ ?i) \<notin> objects P s"
    proof
      assume n: "(page_addr p, 4096 * 2 ^ ?i) \<in> objects P s"
      from n show False
      proof (cases rule: objects_cases)
        case (small q c)
        have "ALLOCLIST_SIZE (cls s q) < 4096"
          using heap_okD(3) [OF ok, of q] small(1)
          by (cases "cls s q" rule: class_cases) (auto simp: ALLOCLIST_SIZE_def chunks_def)
        moreover have "ALLOCLIST_SIZE (cls s q) = 4096 * 2 ^ ?i" using small(2) by simp
        ultimately have "(4096 * 2 ^ ?i :: nat) < 4096" by linarith
        then show False by simp
      next
        case (pages q n)
        then show False using fr by (auto simp: page_addr_def)
      qed
    qed
    moreover have "unat (page_virt p) = page_addr p" using unat_object [OF pN, of 0] by simp
    moreover have "unat len \<le> 4096 * 2 ^ ?i" using O(3) n(1) by simp
    ultimately have "alloc_result (unat len) P s (page_virt p) ?s"
      unfolding alloc_result_def using ok' obj by auto
    moreover have "alloc len s = Some (page_virt p, ?s)"
      using none Some a O(1) page_to_virt_eq [OF mo pN] by (simp add: alloc_def alloc_pages_def)
    ultimately show ?thesis by blast
  qed
  qed
qed

section \<open>\<open>free\<close>\<close>

lemma object_parts:
  assumes "p < NUM_OF_PAGES" and "off < 4096"
  shows "unat (of_nat (page_addr p + off) AND PAGESIZE_MASK :: u64) = off"
    and "virt_to_page (of_nat (page_addr p + off)) = Some p"
    and "virt_to_page (of_nat (page_addr p + off) AND NOT PAGESIZE_MASK) = Some p"
    and "of_nat (page_addr p + off) AND PAGESIZE_MASK = (0 :: u64) \<longleftrightarrow> off = 0"
proof -
  have v: "of_nat (page_addr p + off) = page_virt p + of_nat off"
    by (simp add: page_virt_of_nat page_addr_def)
  then have u: "unat (of_nat (page_addr p + off) :: u64) = page_addr p + off" using unat_object [OF assms] by simp
  have m: "(page_addr p + off) mod 4096 = off" using assms(2) by (simp add: page_addr_def mod_add_left_eq [symmetric])
  show a: "unat (of_nat (page_addr p + off) AND PAGESIZE_MASK :: u64) = off"
    unfolding page_masks unat_and_mask u using m by simp
  show "of_nat (page_addr p + off) AND PAGESIZE_MASK = (0 :: u64) \<longleftrightarrow> off = 0"
    using a by (metis unat_0 unat_eq_zero)
  show "virt_to_page (of_nat (page_addr p + off)) = Some p"
    unfolding v by (rule virt_to_page_in [OF assms])
  have "unat (of_nat (page_addr p + off) AND NOT PAGESIZE_MASK :: u64) = page_addr p"
    unfolding page_masks unat_and_not_mask u
    using div_mult_mod_eq [of "page_addr p + off" 4096] m by simp
  moreover have "unat (page_virt p) = page_addr p" using unat_object [OF assms(1), of 0] by simp
  ultimately have "of_nat (page_addr p + off) AND NOT PAGESIZE_MASK = page_virt p" by (metis unat_eqI)
  then show "virt_to_page (of_nat (page_addr p + off) AND NOT PAGESIZE_MASK) = Some p"
    using virt_to_page_virt [OF assms(1)] by simp
qed

lemma relist_ok:
  assumes ok: "heap_ok P s" and p: "p \<in> P"
  shows "heap_ok P (relist p s)" and "objects P (relist p s) = objects P s" and "heap (relist p s) = heap s"
    and "unat (a_n (adata (relist p s) p)) = cls s p" and "cls (relist p s) q = cls s q"
    and "a_data (adata (relist p s) q) = a_data (adata s q)" and "hmm (relist p s) = hmm s"
proof -
  let ?s = "relist p s"
  have c: "cls ?s q = cls s q" for q by (simp add: relist_def Let_def)
  then show "cls ?s q = cls s q" .
  have d: "a_data (adata ?s q) = a_data (adata s q)" for q by (simp add: relist_def Let_def)
  then show "a_data (adata ?s q) = a_data (adata s q)" .
  show h: "heap ?s = heap s" "hmm ?s = hmm s" by (simp_all add: relist_def Let_def)
  have f: "delisted ?s q \<longleftrightarrow> q \<noteq> p \<and> delisted s q" for q by (simp add: relist_def Let_def)
  have n: "unat (a_n (adata ?s p)) = cls s p" by (simp add: relist_def Let_def n_low_unflagged)
  then show "unat (a_n (adata ?s p)) = cls s p" .
  show "heap_ok P ?s"
  proof (rule heap_okI)
    fix k assume k: "k < NUM_OF_ALLOCLIST"
    note lk = heap_okD(5,6) [OF ok k]
    have al: "alloclist ?s k = (if delisted s p \<and> k = cls s p then p # alloclist s k else alloclist s k)"
      by (simp add: relist_def Let_def)
    have "delisted s p \<Longrightarrow> p \<notin> set (alloclist s k)" using lk(2) by simp
    then show "distinct (alloclist ?s k)" using lk(1) unfolding al by (metis distinct.simps(2))
    show "set (alloclist ?s k) = {q \<in> P. cls ?s q = k \<and> \<not> delisted ?s q}"
      unfolding c f al using lk(2) p by auto
  qed (use heap_okD(1-4) [OF ok] in \<open>simp_all add: c d h\<close>)
  have "chunks P ?s = chunks P s" by (auto simp: chunks_def c d)
  then show "objects P ?s = objects P s" by (simp add: objects_def small_objects_def page_objects_def c h)
qed

lemma hfree_relist:
  "unat (virt AND PAGESIZE_MASK) \<noteq> 0 \<Longrightarrow> virt_to_page (virt AND NOT PAGESIZE_MASK) = Some p \<Longrightarrow>
   hfree virt s =
     (case alloclist_free (a_data (adata (relist p s) p)) (unat (a_n (adata (relist p s) p))) (unat (virt AND PAGESIZE_MASK)) of
        None \<Rightarrow> None
      | Some d \<Rightarrow> Some (set_adata p ((adata (relist p s) p)\<lparr>a_data := d\<rparr>) (relist p s)))"
  unfolding hfree_def Let_def by simp

definition free_result :: "nat set \<Rightarrow> heap_state \<Rightarrow> nat \<times> nat \<Rightarrow> heap_state \<Rightarrow> bool" where
  "free_result P s ob s' = (heap_ok P s' \<and> objects P s' = objects P s - {ob} \<and> heap s' = heap s)"

lemma hfree_small:
  assumes ok: "heap_ok P s" and pb: "(p, b) \<in> chunks P s"
  shows "\<exists>s'. hfree (of_nat (page_addr p + b * ALLOCLIST_SIZE (cls s p))) s = Some s'
           \<and> free_result P s (page_addr p + b * ALLOCLIST_SIZE (cls s p), ALLOCLIST_SIZE (cls s p)) s'"
proof -
  let ?S = "ALLOCLIST_SIZE (cls s p)"
  let ?v = "of_nat (page_addr p + b * ?S) :: u64"
  let ?ob = "(page_addr p + b * ?S, ?S)"
  have p: "p \<in> P" "b < ALLOCLIST_DATABIT (cls s p)" "\<not> under_header (cls s p) b" "abit (a_data (adata s p)) b"
    using pb by (simp_all add: chunks_def)
  have k: "cls s p < NUM_OF_ALLOCLIST" by (rule heap_okD(3) [OF ok p(1)])
  have pN: "p < NUM_OF_PAGES" using heap_okD(2) [OF ok p(1)] by (simp add: used_blocks_def)
  have off: "b * ?S < 4096" by (rule chunk_offset [OF k p(2)])
  have "b \<noteq> 0" using p(3) under_header_0 by metis
  then have off0: "b * ?S \<noteq> 0" using class_sizes(1) [OF k] by simp
  note V = object_parts [OF pN off]
  note R = relist_ok [OF ok p(1)]
  let ?r = "relist p s"
  have bd: "b * ?S div ?S = b" using class_sizes(1) [OF k] by simp
  have "alloclist_free (a_data (adata ?r p)) (cls s p) (b * ?S) = Some (clear_abit b (a_data (adata s p)))"
    using p(4) unfolding alloclist_free_def bd Let_def R(6) by (simp add: abit_def)
  moreover have ne: "unat (?v AND PAGESIZE_MASK) \<noteq> 0" using off0 unfolding V(1) .
  ultimately have fr: "hfree ?v s =
      Some (set_adata p ((adata ?r p)\<lparr>a_data := clear_abit b (a_data (adata s p))\<rparr>) ?r)"
    unfolding hfree_relist [OF ne V(3)] V(1) R(4) by simp
  let ?t = "set_adata p ((adata ?r p)\<lparr>a_data := clear_abit b (a_data (adata s p))\<rparr>) ?r"
  have n: "a_n (adata ?t q) = a_n (adata ?r q)" for q by simp
  have d: "abit (a_data (adata ?t q)) c \<longleftrightarrow> abit (a_data (adata s q)) c \<and> \<not> (q = p \<and> c = b)" for q c
    by (simp add: abit_clear R(6))
  have ok': "heap_ok P ?t"
  proof (rule heap_okI)
    fix q c assume q: "q \<in> P" "c < ALLOCLIST_DATABIT (cls ?t q)" "under_header (cls ?t q) c"
    then show "abit (a_data (adata ?t q)) c"
      unfolding d n R(5) using heap_okD(4) [OF ok q(1)] p(3) by auto
  next
    fix k assume "k < NUM_OF_ALLOCLIST"
    then show "set (alloclist ?t k) = {q \<in> P. cls ?t q = k \<and> \<not> delisted ?t q}"
      unfolding n using heap_okD(6) [OF R(1)] by simp
  next
    show "cls ?t q < NUM_OF_ALLOCLIST" if "q \<in> P" for q unfolding n using heap_okD(3) [OF R(1) that] .
  qed (use heap_okD(1,2,5) [OF R(1)] in simp_all)
  have "chunks P ?t = chunks P s - {(p, b)}"
  proof -
    have "(q, c) \<in> chunks P ?t \<longleftrightarrow> (q, c) \<in> chunks P s - {(p, b)}" for q c
      unfolding chunks_def mem_Collect_eq prod.case d n R(5) by (auto simp: chunks_def)
    then show ?thesis by auto
  qed
  moreover have cl: "cls ?t q = cls s q" for q unfolding n R(5) ..
  ultimately have "small_objects P ?t = (\<lambda>(q, c). (page_addr q + c * ALLOCLIST_SIZE (cls s q), ALLOCLIST_SIZE (cls s q))) ` (chunks P s - {(p, b)})"
    by (simp only: small_objects_def)
  also have "\<dots> = small_objects P s - {?ob}"
  proof -
    have "(q, c) = (p, b)" if "(q, c) \<in> chunks P s"
      "(page_addr q + c * ALLOCLIST_SIZE (cls s q), ALLOCLIST_SIZE (cls s q)) = ?ob" for q c
    proof -
      have x: "page_addr p + b * ?S \<in> span ?ob" using class_sizes(1) [OF k] by (simp add: span_def)
      have "(page_addr p + b * ?S - 2 ^ 30) div 4096 = q"
        and c: "((page_addr p + b * ?S - 2 ^ 30) mod 4096) div ALLOCLIST_SIZE (cls s q) = c"
        using small_span [of "cls s q" c _ q] heap_okD(3) [OF ok, of q] x that by (auto simp: chunks_def)
      moreover have "(page_addr p + b * ?S - 2 ^ 30) div 4096 = p"
        "((page_addr p + b * ?S - 2 ^ 30) mod 4096) div ?S = b" using small_span [OF k p(2) x] by simp_all
      ultimately show ?thesis by auto
    qed
    then show ?thesis using pb by (auto simp: small_objects_def)
  qed
  finally have so: "small_objects P ?t = small_objects P s - {?ob}" .
  have po: "page_objects P ?t = page_objects P s" by (simp add: page_objects_def R(7))
  have "?ob \<notin> page_objects P s"
  proof
    assume "?ob \<in> page_objects P s"
    then obtain q n where "?S = 4096 * 2 ^ n" by (auto simp: page_objects_def)
    moreover have "?S < 4096" using k by (cases "cls s p" rule: class_cases) (auto simp: ALLOCLIST_SIZE_def)
    ultimately have "(4096 * 2 ^ n :: nat) < 4096" by linarith
    then show False by simp
  qed
  then have "objects P ?t = objects P s - {?ob}" using so po by (auto simp: objects_def)
  then show ?thesis using fr ok' R(3) by (simp add: free_result_def)
qed

lemma hfree_pages:
  assumes ok: "heap_ok P s" and u: "(p, n) \<in> used_blocks (hmm s)" and pP: "p \<notin> P"
  shows "\<exists>s'. hfree (of_nat (page_addr p)) s = Some s' \<and> free_result P s (page_addr p, 4096 * 2 ^ n) s'"
proof -
  have pN: "p < NUM_OF_PAGES" using u by (simp add: used_blocks_def)
  have V: "unat (of_nat (page_addr p) AND PAGESIZE_MASK :: u64) = 0" "virt_to_page (of_nat (page_addr p)) = Some p"
    using object_parts(1,2) [OF pN, of 0] by simp_all
  obtain m where m: "mm_page_free p (hmm s) = Some m" "free_spec p (hmm s) m"
    using mm_page_free_result [OF heap_okD(1) [OF ok] u] by blast
  have us: "used_blocks m = used_blocks (hmm s) - {(p, n)}" and mo: "mm_ok m"
    using m(2) used_is_head [OF u] by (simp_all add: free_spec_def)
  let ?s = "s\<lparr>hmm := m\<rparr>"
  have fr: "hfree (of_nat (page_addr p)) s = Some ?s" using V m(1) by (simp add: hfree_def Let_def)
  have ok': "heap_ok P ?s" by (rule heap_okI) (use heap_okD [OF ok] mo us pP in auto)
  have so: "small_objects P ?s = small_objects P s" by (simp add: small_objects_def chunks_def)
  have "{(q, k) \<in> used_blocks (hmm ?s). q \<notin> P} = {(q, k) \<in> used_blocks (hmm s). q \<notin> P} - {(p, n)}"
    using us by auto
  then have po: "page_objects P ?s = page_objects P s - {(page_addr p, 4096 * 2 ^ n)}"
    using u pP by (auto simp: page_objects_def page_addr_def dest: used_unique)
  have "(page_addr p, 4096 * 2 ^ n) \<notin> small_objects P s"
  proof
    assume "(page_addr p, 4096 * 2 ^ n) \<in> small_objects P s"
    then obtain q c where q: "(q, c) \<in> chunks P s" "ALLOCLIST_SIZE (cls s q) = 4096 * 2 ^ n"
      by (auto simp: small_objects_def)
    have "ALLOCLIST_SIZE (cls s q) < 4096"
      using heap_okD(3) [OF ok, of q] q(1)
      by (cases "cls s q" rule: class_cases) (auto simp: ALLOCLIST_SIZE_def chunks_def)
    then have "(4096 * 2 ^ n :: nat) < 4096" using q(2) by linarith
    then show False by simp
  qed
  then have "objects P ?s = objects P s - {(page_addr p, 4096 * 2 ^ n)}" using so po by (auto simp: objects_def)
  then show ?thesis using fr ok' by (simp add: free_result_def)
qed

lemma hfree_ok:
  assumes ok: "heap_ok P s" and o: "ob \<in> objects P s"
  shows "\<exists>s'. hfree (of_nat (fst ob)) s = Some s' \<and> free_result P s ob s'"
  using o
proof (cases rule: objects_cases)
  case (small p b)
  then show ?thesis using hfree_small [OF ok small(1)] by simp
next
  case (pages p n)
  then show ?thesis using hfree_pages [OF ok pages(1,2)] by simp
qed

section \<open>\<open>realloc\<close>\<close>

lemma object_range:
  assumes ok: "heap_ok P s" and o: "(a, l) \<in> objects P s"
  shows "2 ^ 30 \<le> a" and "a + l \<le> 2 ^ 30 + 2 ^ 27" and "0 < l"
proof -
  have "2 ^ 30 \<le> a \<and> a + l \<le> 2 ^ 30 + 2 ^ 27 \<and> 0 < l"
    using o
  proof (cases rule: objects_cases)
    case (small p b)
    then have p: "p \<in> P" "b < ALLOCLIST_DATABIT (cls s p)" by (simp_all add: chunks_def)
    have "p < NUM_OF_PAGES" using heap_okD(2) [OF ok p(1)] by (simp add: used_blocks_def)
    moreover have "(b + 1) * ALLOCLIST_SIZE (cls s p) \<le> 4096"
      using mult_le_mono1 [of "b + 1" "ALLOCLIST_DATABIT (cls s p)" "ALLOCLIST_SIZE (cls s p)"] p(2)
        class_sizes(2) [OF heap_okD(3) [OF ok p(1)]] by simp
    ultimately show ?thesis
      using small(2) class_sizes(1) [OF heap_okD(3) [OF ok p(1)]] by (simp add: page_addr_def NUM_OF_PAGES_def)
  next
    case (pages p n)
    have bl: "blocks_ok (hmm s)" using heap_okD(1) [OF ok] by (simp add: mm_ok_def core_ok_def)
    have "p + 2 ^ n \<le> NUM_OF_PAGES"
      using used_is_head [OF pages(1)] head_props(1,2) [OF bl, of p] order_fits [of n p] by (auto simp: is_head_def)
    then show ?thesis using pages(3) by (simp add: page_addr_def NUM_OF_PAGES_def)
  qed
  then show "2 ^ 30 \<le> a" "a + l \<le> 2 ^ 30 + 2 ^ 27" "0 < l" by simp_all
qed

lemma unat_of_addr: "a < 2 ^ 31 \<Longrightarrow> unat (of_nat a :: u64) = a"
  by (rule unat_of_nat64) simp

lemma get_alloc_len_object:
  assumes ok: "heap_ok P s" and o: "(a, l) \<in> objects P s"
  shows "\<exists>m n. get_alloc_len (of_nat a) s = Some (m, l, n)"
  using o
proof (cases rule: objects_cases)
  case (small p b)
  then have p: "p \<in> P" "b < ALLOCLIST_DATABIT (cls s p)" "\<not> under_header (cls s p) b" by (simp_all add: chunks_def)
  have k: "cls s p < NUM_OF_ALLOCLIST" by (rule heap_okD(3) [OF ok p(1)])
  have pN: "p < NUM_OF_PAGES" using heap_okD(2) [OF ok p(1)] by (simp add: used_blocks_def)
  have "b \<noteq> 0" using p(3) under_header_0 by metis
  then have off0: "b * ALLOCLIST_SIZE (cls s p) \<noteq> 0" using class_sizes(1) [OF k] by simp
  have a: "a = page_addr p + b * ALLOCLIST_SIZE (cls s p)" "l = ALLOCLIST_SIZE (cls s p)" using small(2) by simp_all
  have "get_alloc_len (of_nat a) s = Some (False, l, cls s p)"
    unfolding get_alloc_len_def a(1) object_parts(3,4) [OF pN chunk_offset [OF k p(2)]] using off0 a(2)
    by (simp add: Let_def del: mult_eq_0_iff)
  then show ?thesis by blast
next
  case (pages p n)
  have pN: "p < NUM_OF_PAGES" "porder (hmm s) p = n" using pages(1) by (simp_all add: used_blocks_def)
  have "n < NUM_OF_ALLOCSIZE"
    using heap_okD(1) [OF ok] used_is_head [OF pages(1)] head_props(1) [of "hmm s" p] by (simp add: mm_ok_def core_ok_def)
  then have "get_alloc_len (of_nat a) s = Some (True, l, n)"
    using object_parts(2,4) [OF pN(1), of 0] pages(3) pN(2) unat_allocsize [of n]
    by (simp add: get_alloc_len_def Let_def)
  then show ?thesis by blast
qed

definition realloc_result :: "nat \<Rightarrow> nat set \<Rightarrow> heap_state \<Rightarrow> nat \<times> nat \<Rightarrow> u64 \<Rightarrow> heap_state \<Rightarrow> bool" where
  "realloc_result n P s ob r s' =
     (\<exists>P' l. heap_ok P' s' \<and> n \<le> l \<and> objects P' s' = insert (unat r, l) (objects P s - {ob})
        \<and> (unat r, l) \<notin> objects P s - {ob}
        \<and> (\<forall>i<min (snd ob) n. heap s' (r + of_nat i) = heap s (of_nat (fst ob) + of_nat i))
        \<and> (\<forall>o'\<in>objects P s - {ob}. \<forall>x\<in>span o'. heap s' (of_nat x) = heap s (of_nat x)))"

lemma move_object_ok:
  assumes ok: "heap_ok P s" and o: "(a, l) \<in> objects P s" and len: "unat len \<le> max_request"
    and m: "m = min l (unat len)"
  shows "(move_object (of_nat a) len m s = None \<and> no_room len s)
    \<or> (\<exists>r s'. move_object (of_nat a) len m s = Some (r, s') \<and> realloc_result (unat len) P s (a, l) r s')"
  using alloc_cases [OF ok len]
proof (elim disjE conjE exE)
  assume "alloc len s = None" "no_room len s"
  then show ?thesis by (simp add: move_object_def)
next
  fix r s1 assume a1: "alloc len s = Some (r, s1)" and ar: "alloc_result (unat len) P s r s1"
  obtain P' l' where n: "heap_ok P' s1" "unat len \<le> l'" "(unat r, l') \<notin> objects P s"
    "objects P' s1 = insert (unat r, l') (objects P s)" "heap s1 = heap s"
    using ar by (auto simp: alloc_result_def)
  let ?s2 = "copy_heap r (of_nat a) m s1"
  have obj2: "objects P' ?s2 = objects P' s1"
    by (simp add: objects_def small_objects_def page_objects_def chunks_def copy_heap_def)
  have ok2: "heap_ok P' ?s2" by (rule heap_okI) (use heap_okD [OF n(1)] in \<open>simp_all add: copy_heap_def\<close>)
  have "(a, l) \<in> objects P' ?s2" using o n(4) obj2 by simp
  from hfree_ok [OF ok2 this] obtain s3 where s3: "hfree (of_nat a) ?s2 = Some s3" "free_result P' ?s2 (a, l) s3" by auto
  have obj3: "objects P' s3 = insert (unat r, l') (objects P s - {(a, l)})"
    using s3(2) obj2 n(3,4) o by (auto simp: free_result_def)
  have h3: "heap s3 = heap ?s2" "heap_ok P' s3" using s3(2) by (simp_all add: free_result_def)
  have rng: "unat r + l' \<le> 2 ^ 30 + 2 ^ 27" using object_range(2) [OF n(1), of "unat r" l'] n(4) by simp
  have cp: "heap s3 (r + of_nat i) = heap s (of_nat a + of_nat i)" if i: "i < m" for i
  proof -
    have "unat (of_nat i :: u64) = i" using i m rng n(2) by (intro unat_of_addr) simp
    then show ?thesis using i by (simp add: h3 copy_heap_def n(5))
  qed
  have keep: "heap s3 (of_nat x) = heap s (of_nat x)" if o': "o' \<in> objects P s - {(a, l)}" and x: "x \<in> span o'" for o' x
  proof -
    have "\<not> unat (of_nat x - r) < m"
    proof
      assume lt: "unat (of_nat x - r) < m"
      have "x < 2 ^ 31" using x object_range(2) [OF ok, of "fst o'" "snd o'"] o' by (auto simp: span_def)
      then have ux: "unat (of_nat x :: u64) = x" by (rule unat_of_addr)
      have "unat r \<le> x"
        using lt rng m n(2) unfolding unat_sub64 ux by (cases "unat r \<le> x") (auto simp: min_def split: if_splits)
      then have "x \<in> span (unat r, l')" using lt m n(2) unfolding unat_sub64 ux by (auto simp: span_def)
      then have "o' = (unat r, l')" using objects_disjoint [OF n(1) _ _ x] n(4) o' by auto
      then show False using n(3) o' by simp
    qed
    then show ?thesis by (simp add: h3 copy_heap_def n(5))
  qed
  have "realloc_result (unat len) P s (a, l) r s3"
    unfolding realloc_result_def using h3(2) n(2,3) obj3 cp keep m by auto
  then show ?thesis using a1 s3(1) by (simp add: move_object_def)
qed

lemma hrealloc_ok:
  assumes ok: "heap_ok P s" and o: "(a, l) \<in> objects P s" and len: "len \<noteq> 0" "unat len \<le> max_request"
  shows "(hrealloc (of_nat a) len s = None \<and> no_room len s)
    \<or> (\<exists>r s'. hrealloc (of_nat a) len s = Some (r, s') \<and> realloc_result (unat len) P s (a, l) r s')"
proof -
  have a: "2 ^ 30 \<le> a" "a < 2 ^ 31" using object_range [OF ok o] by simp_all
  then have ua: "unat (of_nat a :: u64) = a" by (intro unat_of_addr)
  then have nz: "(of_nat a :: u64) \<noteq> 0" using a(1) by (metis not_one_le_zero one_le_numeral one_le_power order_trans unat_0)
  obtain md n where gl: "get_alloc_len (of_nat a) s = Some (md, l, n)" using get_alloc_len_object [OF ok o] by blast
  have stay: "realloc_result (unat len) P s (a, l) (of_nat a) s" if "unat len \<le> l"
    unfolding realloc_result_def
    by (rule exI [of _ P], rule exI [of _ l]) (use that ok o ua in auto)
  consider "l = unat len" | "l < unat len" | "unat len < l" by linarith
  then show ?thesis
  proof cases
    case 1
    then have "hrealloc (of_nat a) len s = Some (of_nat a, s)" using gl nz len(1) by (simp add: hrealloc_def)
    then show ?thesis using stay 1 by simp
  next
    case 2
    then have "hrealloc (of_nat a) len s = move_object (of_nat a) len l s"
      using gl nz len(1) by (simp add: hrealloc_def)
    then show ?thesis using move_object_ok [OF ok o len(2), of l] 2 by simp
  next
    case 3
    then have "hrealloc (of_nat a) len s \<in> {Some (of_nat a, s), move_object (of_nat a) len (unat len) s}"
      using gl nz len(1) by (simp add: hrealloc_def Let_def)
    then consider "hrealloc (of_nat a) len s = Some (of_nat a, s)"
      | "hrealloc (of_nat a) len s = move_object (of_nat a) len (unat len) s" by blast
    then show ?thesis
    proof cases
      case 1
      then show ?thesis using stay 3 by simp
    next
      case 2
      then show ?thesis using move_object_ok [OF ok o len(2), of "unat len"] 3 by simp
    qed
  qed
qed

section \<open>Reachable states\<close>

text \<open>\<open>L\<close> is what the callers hold: the address of every live object and the length they asked for.\<close>

inductive heap_reachable :: "u32 \<Rightarrow> u64 \<Rightarrow> u64 \<Rightarrow> (nat \<times> nat) set \<Rightarrow> heap_state \<Rightarrow> bool" for start first en where
  heap_start: "mm_init_free start first en = Some m \<Longrightarrow>
     heap_reachable start first en {} \<lparr>hmm = m, alloclist = \<lambda>_. [], adata = ad, heap = h\<rparr>"
| heap_alloc: "heap_reachable start first en L s \<Longrightarrow> unat len \<le> max_request \<Longrightarrow> alloc len s = Some (r, s') \<Longrightarrow>
     heap_reachable start first en (insert (unat r, unat len) L) s'"
| heap_free: "heap_reachable start first en L s \<Longrightarrow> (unat r, n) \<in> L \<Longrightarrow> hfree r s = Some s' \<Longrightarrow>
     heap_reachable start first en (L - {(unat r, n)}) s'"
| heap_realloc: "heap_reachable start first en L s \<Longrightarrow> (unat r, n) \<in> L \<Longrightarrow> len \<noteq> 0 \<Longrightarrow> unat len \<le> max_request \<Longrightarrow>
     hrealloc r len s = Some (r', s') \<Longrightarrow>
     heap_reachable start first en (insert (unat r', unat len) (L - {(unat r, n)})) s'"
| heap_realloc_null: "heap_reachable start first en L s \<Longrightarrow> len \<noteq> 0 \<Longrightarrow> unat len \<le> max_request \<Longrightarrow>
     hrealloc 0 len s = Some (r', s') \<Longrightarrow> heap_reachable start first en (insert (unat r', unat len) L) s'"
| heap_realloc_0: "heap_reachable start first en L s \<Longrightarrow> (unat r, n) \<in> L \<Longrightarrow> hrealloc r 0 s = Some (r', s') \<Longrightarrow>
     heap_reachable start first en (L - {(unat r, n)}) s'"
| heap_store: "heap_reachable start first en L s \<Longrightarrow> heap_reachable start first en L (s\<lparr>heap := h\<rparr>)"

definition live_ok :: "(nat \<times> nat) set \<Rightarrow> nat set \<Rightarrow> heap_state \<Rightarrow> bool" where
  "live_ok L P s = (heap_ok P s \<and> (\<forall>(a, n)\<in>L. \<exists>l. n \<le> l \<and> (a, l) \<in> objects P s)
                     \<and> (\<forall>a n m. (a, n) \<in> L \<longrightarrow> (a, m) \<in> L \<longrightarrow> n = m))"

lemma object_start_unique:
  assumes "heap_ok P s" and "(a, l) \<in> objects P s" and "(a, m) \<in> objects P s" shows "l = m"
  using objects_disjoint [OF assms, of a] object_range(3) [OF assms(1,2)] object_range(3) [OF assms(1,3)]
  by (simp add: span_def)

lemma live_remove:
  assumes lv: "live_ok L P s" and r: "(a, n) \<in> L" "(a, l) \<in> objects P s"
  shows "\<forall>(b, k)\<in>L - {(a, n)}. \<exists>m. k \<le> m \<and> (b, m) \<in> objects P s - {(a, l)}"
    and "(b, k) \<in> L - {(a, n)} \<Longrightarrow> b \<noteq> a"
  using lv r by (auto simp: live_ok_def)

lemma live_insert:
  assumes L: "\<forall>(b, k)\<in>L. \<exists>m. k \<le> m \<and> (b, m) \<in> obs" and u: "\<forall>a n m. (a, n) \<in> L \<longrightarrow> (a, m) \<in> L \<longrightarrow> n = m"
    and ok: "heap_ok P s" and ob: "objects P s = insert (a, l) obs" and fr: "(a, l) \<notin> obs" and nl: "n \<le> l"
  shows "live_ok (insert (a, n) L) P s"
proof -
  have "b \<noteq> a" if bk: "(b, k) \<in> L" for b k
  proof
    assume "b = a"
    then obtain m where m: "(a, m) \<in> obs" using L bk by blast
    then have "l = m" using object_start_unique [OF ok, of a l m] ob by simp
    then show False using m fr by simp
  qed
  then show ?thesis using L u ok ob nl unfolding live_ok_def by auto
qed

lemma live_alloc:
  assumes P: "live_ok L P s" and len: "unat len \<le> max_request" and a: "alloc len s = Some (r, s')"
  shows "\<exists>P'. live_ok (insert (unat r, unat len) L) P' s'"
proof -
  have ok: "heap_ok P s" using P by (simp add: live_ok_def)
  obtain P' l where n: "heap_ok P' s'" "unat len \<le> l" "(unat r, l) \<notin> objects P s"
    "objects P' s' = insert (unat r, l) (objects P s)"
    using alloc_cases [OF ok len] a by (auto simp: alloc_result_def)
  have "live_ok (insert (unat r, unat len) L) P' s'"
    by (rule live_insert [OF _ _ n(1,4,3,2)]) (use P in \<open>auto simp: live_ok_def\<close>)
  then show ?thesis by blast
qed

lemma live_free:
  assumes P: "live_ok L P s" and r: "(unat r, n) \<in> L" and f: "hfree r s = Some s'"
  shows "live_ok (L - {(unat r, n)}) P s'"
proof -
  have ok: "heap_ok P s" using P by (simp add: live_ok_def)
  obtain l where l: "(unat r, l) \<in> objects P s" using P r by (auto simp: live_ok_def)
  have "free_result P s (unat r, l) s'" using hfree_ok [OF ok l] f by simp
  then show ?thesis using live_remove(1) [OF P r l] P unfolding live_ok_def free_result_def by auto
qed

lemma live_nonzero:
  assumes "live_ok L P s" and "(unat r, n) \<in> L" shows "(r :: u64) \<noteq> 0"
proof -
  obtain l where l: "(unat r, l) \<in> objects P s" using assms by (auto simp: live_ok_def)
  have ok: "heap_ok P s" using assms(1) by (simp add: live_ok_def)
  have "2 ^ 30 \<le> unat r" by (rule object_range(1) [OF ok l])
  then show ?thesis by auto
qed

lemma heap_reachable_live: "heap_reachable start first en L s \<Longrightarrow> \<exists>P. live_ok L P s"
proof (induction rule: heap_reachable.induct)
  case (heap_start m ad h)
  have "mm_ok m" using mm_init_free_ok [of start first en] heap_start by auto
  then have "live_ok {} {} \<lparr>hmm = m, alloclist = \<lambda>_. [], adata = ad, heap = h\<rparr>"
    by (simp add: live_ok_def heap_ok_def)
  then show ?case by blast
next
  case (heap_alloc L s len r s')
  then show ?case using live_alloc by blast
next
  case (heap_free L s r n s')
  then show ?case using live_free by blast
next
  case (heap_realloc L s r n len r' s')
  then obtain P where P: "live_ok L P s" by blast
  then have ok: "heap_ok P s" by (simp add: live_ok_def)
  obtain l where l: "(unat r, l) \<in> objects P s" using P heap_realloc.hyps(2) by (auto simp: live_ok_def)
  have "realloc_result (unat len) P s (unat r, l) r' s'"
    using hrealloc_ok [OF ok l heap_realloc.hyps(3,4)] heap_realloc.hyps(5) by simp
  then obtain P' l' where n: "heap_ok P' s'" "unat len \<le> l'" "(unat r', l') \<notin> objects P s - {(unat r, l)}"
    "objects P' s' = insert (unat r', l') (objects P s - {(unat r, l)})"
    by (auto simp: realloc_result_def)
  have "live_ok (insert (unat r', unat len) (L - {(unat r, n)})) P' s'"
    by (rule live_insert [OF live_remove(1) [OF P heap_realloc.hyps(2) l] _ n(1,4,3,2)])
       (use P in \<open>auto simp: live_ok_def\<close>)
  then show ?case by blast
next
  case (heap_realloc_null L s len r' s')
  then have "alloc len s = Some (r', s')" by (simp add: hrealloc_def)
  then show ?case using heap_realloc_null.IH heap_realloc_null.hyps(3) live_alloc by blast
next
  case (heap_realloc_0 L s r n r' s')
  then obtain P where P: "live_ok L P s" by blast
  then have "hfree r s = Some s'"
    using heap_realloc_0.hyps(3) live_nonzero [OF P heap_realloc_0.hyps(2)]
    by (simp add: hrealloc_def split: option.splits)
  then show ?case using live_free [OF P heap_realloc_0.hyps(2)] by blast
next
  case (heap_store L s h)
  then obtain P where P: "live_ok L P s" by blast
  have "objects P (s\<lparr>heap := h\<rparr>) = objects P s"
    by (simp add: objects_def small_objects_def page_objects_def chunks_def)
  moreover have "heap_ok P (s\<lparr>heap := h\<rparr>)"
    by (rule heap_okI) (use heap_okD [of P s] P in \<open>simp_all add: live_ok_def\<close>)
  ultimately have "live_ok L P (s\<lparr>heap := h\<rparr>)" using P unfolding live_ok_def by simp
  then show ?case by blast
qed

section \<open>What the callers of the heap rely on\<close>

lemma object_page:
  assumes ok: "heap_ok P s" and o: "ob \<in> objects P s" and x: "x \<in> span ob"
  shows "2 ^ 30 \<le> x" and "(x - 2 ^ 30) div 4096 < NUM_OF_PAGES" and "(x - 2 ^ 30) div 4096 \<notin> free_pages (hmm s)"
proof -
  let ?q = "(x - 2 ^ 30) div 4096"
  have bl: "blocks_ok (hmm s)" using heap_okD(1) [OF ok] by (simp add: mm_ok_def core_ok_def)
  obtain p n where p: "(p, n) \<in> used_blocks (hmm s)" "?q \<in> pages_of n p"
    using o
  proof (cases rule: objects_cases)
    case (small p b)
    then have "p \<in> P" "b < ALLOCLIST_DATABIT (cls s p)" by (simp_all add: chunks_def)
    then show ?thesis
      using that [of p 0] small_span(1) [OF heap_okD(3) [OF ok], of p b x] heap_okD(2) [OF ok] small(2) x
      by (simp add: pages_of_def)
  next
    case (pages p n)
    then show ?thesis using that [of p n] page_span x by simp
  qed
  show "?q \<notin> free_pages (hmm s)" using used_disjoint(1) [OF bl p(1)] p(2) by blast
  show "?q < NUM_OF_PAGES" using block_in_range [OF bl, of p ?q] used_is_head [OF p(1)] p(2) by simp
  show "2 ^ 30 \<le> x" using object_range(1) [OF ok, of "fst ob" "snd ob"] o x by (simp add: span_def)
qed

lemma live_object:
  assumes "live_ok L P s" and "(a, n) \<in> L"
  obtains l where "n \<le> l" and "(a, l) \<in> objects P s" and "span (a, n) \<subseteq> span (a, l)"
  using assms by (fastforce simp: live_ok_def span_def)

lemma live_disjoint:
  assumes lv: "live_ok L P s" and o: "ob \<in> L" "ob' \<in> L" "ob \<noteq> ob'" shows "span ob \<inter> span ob' = {}"
proof (rule ccontr)
  assume "span ob \<inter> span ob' \<noteq> {}"
  then obtain x where x: "x \<in> span ob" "x \<in> span ob'" by blast
  obtain a n a' n' where e: "ob = (a, n)" "ob' = (a', n')" by (cases ob; cases ob')
  obtain l where l: "(a, l) \<in> objects P s" "x \<in> span (a, l)" using live_object [OF lv] o(1) x(1) e by blast
  obtain l' where l': "(a', l') \<in> objects P s" "x \<in> span (a', l')" using live_object [OF lv] o(2) x(2) e by blast
  have "a = a'" using objects_disjoint [OF _ l(1) l'(1) l(2) l'(2)] lv by (simp add: live_ok_def)
  then show False using lv o e by (auto simp: live_ok_def)
qed

text \<open>
  C14: Whatever sequence of \<open>alloc\<close>, \<open>free\<close> and \<open>realloc\<close> has run, with requests of at most
  0x7FFFF000 bytes (2GB less a page) and only live objects released or reallocated, the live objects
  are pairwise disjoint and lie in pages of the VMM the page allocator does not count as free; each
  of them can be released without a panic; and \<open>alloc\<close> returns unless the request exceeds the largest
  block of 16MB or the pages it needs are not there.  Beyond the bound it is false:
  \<open>alloc_pages_overflow\<close> shows that a request of 2GB is given a single page.
\<close>

theorem heap_objects_safe:
  assumes "heap_reachable start first en L s"
  shows "(\<forall>ob\<in>L. \<forall>ob'\<in>L. ob \<noteq> ob' \<longrightarrow> span ob \<inter> span ob' = {})
      \<and> (\<forall>ob\<in>L. \<forall>x\<in>span ob. 2 ^ 30 \<le> x \<and> (x - 2 ^ 30) div 4096 < NUM_OF_PAGES
            \<and> (x - 2 ^ 30) div 4096 \<notin> free_pages (hmm s))
      \<and> (\<forall>(a, n)\<in>L. \<exists>s'. hfree (of_nat a) s = Some s' \<and> heap_reachable start first en (L - {(a, n)}) s')
      \<and> (\<forall>len. unat len \<le> max_request \<longrightarrow> \<not> no_room len s \<longrightarrow> alloc len s \<noteq> None)"
proof -
  obtain P where lv: "live_ok L P s" using heap_reachable_live [OF assms] by blast
  then have ok: "heap_ok P s" by (simp add: live_ok_def)
  have "\<exists>s'. hfree (of_nat a) s = Some s' \<and> heap_reachable start first en (L - {(a, n)}) s'" if an: "(a, n) \<in> L" for a n
  proof -
    obtain l where l: "(a, l) \<in> objects P s" using live_object [OF lv an] by blast
    obtain s' where s': "hfree (of_nat a) s = Some s'" using hfree_ok [OF ok l] by auto
    have "unat (of_nat a :: u64) = a" using object_range(2) [OF ok l] by (intro unat_of_addr) simp
    then show ?thesis using heap_free [OF assms, of "of_nat a" n s'] an s' by simp
  qed
  moreover have "2 ^ 30 \<le> x \<and> (x - 2 ^ 30) div 4096 < NUM_OF_PAGES \<and> (x - 2 ^ 30) div 4096 \<notin> free_pages (hmm s)"
    if ob: "ob \<in> L" and x: "x \<in> span ob" for ob x
  proof -
    obtain l where l: "(fst ob, l) \<in> objects P s" "x \<in> span (fst ob, l)"
      using live_object [OF lv, of "fst ob" "snd ob"] ob x by auto
    show ?thesis using object_page [OF ok l] by simp
  qed
  moreover have "alloc len s \<noteq> None" if "unat len \<le> max_request" "\<not> no_room len s" for len
    using alloc_cases [OF ok that(1)] that(2) by auto
  ultimately show ?thesis using live_disjoint [OF lv] by blast
qed

text \<open>
  C37: \<open>realloc\<close> of a live object to a length of 1 to 0x7FFFF000 bytes stops only when \<open>alloc\<close> has no
  block for the length.  Otherwise it replaces the object by one of at least the asked length, leaves
  the set of all others as it was, and the returned bytes lie in pages in use and apart from every
  other live object; the contents are those of the old object up to the smaller of the two lengths,
  and the contents of every other live object are unchanged.
\<close>

theorem realloc_keeps_contents:
  assumes "heap_reachable start first en L s" and "(unat r, n) \<in> L" and "len \<noteq> 0" and "unat len \<le> max_request"
  shows "(hrealloc r len s = None \<and> no_room len s)
    \<or> (\<exists>r' s'. hrealloc r len s = Some (r', s')
      \<and> (\<exists>P P' l l'. heap_ok P s \<and> heap_ok P' s' \<and> (unat r, l) \<in> objects P s \<and> n \<le> l \<and> unat len \<le> l'
           \<and> objects P' s' = insert (unat r', l') (objects P s - {(unat r, l)}))
      \<and> (\<forall>x\<in>span (unat r', unat len). 2 ^ 30 \<le> x \<and> (x - 2 ^ 30) div 4096 < NUM_OF_PAGES
           \<and> (x - 2 ^ 30) div 4096 \<notin> free_pages (hmm s'))
      \<and> (\<forall>ob\<in>L - {(unat r, n)}. span ob \<inter> span (unat r', unat len) = {})
      \<and> (\<forall>i<min n (unat len). heap s' (r' + of_nat i) = heap s (r + of_nat i))
      \<and> (\<forall>ob\<in>L - {(unat r, n)}. \<forall>x\<in>span ob. heap s' (of_nat x) = heap s (of_nat x)))"
proof -
  obtain P where lv: "live_ok L P s" using heap_reachable_live [OF assms(1)] by blast
  then have ok: "heap_ok P s" by (simp add: live_ok_def)
  obtain l where l: "n \<le> l" "(unat r, l) \<in> objects P s" using live_object [OF lv assms(2)] by blast
  show ?thesis
  proof (cases "hrealloc r len s")
    case None
    then show ?thesis using hrealloc_ok [OF ok l(2) assms(3,4)] by simp
  next
    case (Some q)
    obtain r' s' where h: "hrealloc r len s = Some (r', s')" using Some by (cases q) simp
    obtain P' l' where n: "heap_ok P' s'" "unat len \<le> l'"
      "objects P' s' = insert (unat r', l') (objects P s - {(unat r, l)})" "(unat r', l') \<notin> objects P s - {(unat r, l)}"
      and a: "\<forall>i<min l (unat len). heap s' (r' + of_nat i) = heap s (r + of_nat i)"
      and b: "\<forall>o'\<in>objects P s - {(unat r, l)}. \<forall>x\<in>span o'. heap s' (of_nat x) = heap s (of_nat x)"
      using hrealloc_ok [OF ok l(2) assms(3,4)] h by (auto simp: realloc_result_def)
    have big: "span (unat r', unat len) \<subseteq> span (unat r', l')" using n(2) by (auto simp: span_def)
    have new: "(unat r', l') \<in> objects P' s'" using n(3) by simp
    have keep: "\<exists>m. (fst ob, m) \<in> objects P s - {(unat r, l)} \<and> span ob \<subseteq> span (fst ob, m)"
      if ob: "ob \<in> L - {(unat r, n)}" for ob
    proof -
      obtain m where m: "(fst ob, m) \<in> objects P s" "span ob \<subseteq> span (fst ob, m)"
        using live_object [OF lv, of "fst ob" "snd ob"] ob by auto
      have "fst ob \<noteq> unat r" using live_remove(2) [OF lv assms(2) l(2), of "fst ob" "snd ob"] ob by simp
      then show ?thesis using m by auto
    qed
    have dis: "span ob \<inter> span (unat r', unat len) = {}" if ob: "ob \<in> L - {(unat r, n)}" for ob
    proof (rule ccontr)
      obtain m where m: "(fst ob, m) \<in> objects P s - {(unat r, l)}" "span ob \<subseteq> span (fst ob, m)"
        using keep [OF ob] by blast
      assume "span ob \<inter> span (unat r', unat len) \<noteq> {}"
      then obtain x where x: "x \<in> span (fst ob, m)" "x \<in> span (unat r', l')" using m(2) big by blast
      have "(fst ob, m) \<in> objects P' s'" using n(3) m(1) by simp
      then have "(fst ob, m) = (unat r', l')" using objects_disjoint [OF n(1) _ new x] by blast
      then show False using m(1) n(4) by simp
    qed
    have pg: "2 ^ 30 \<le> x \<and> (x - 2 ^ 30) div 4096 < NUM_OF_PAGES \<and> (x - 2 ^ 30) div 4096 \<notin> free_pages (hmm s')"
      if "x \<in> span (unat r', unat len)" for x
      using object_page [OF n(1) new, of x] big that by blast
    have oth: "heap s' (of_nat x) = heap s (of_nat x)" if ob: "ob \<in> L - {(unat r, n)}" and x: "x \<in> span ob" for ob x
      using keep [OF ob] b x by blast
    have cont: "\<forall>i<min n (unat len). heap s' (r' + of_nat i) = heap s (r + of_nat i)" using a l(1) by auto
    have rep: "\<exists>P P' l l'. heap_ok P s \<and> heap_ok P' s' \<and> (unat r, l) \<in> objects P s \<and> n \<le> l \<and> unat len \<le> l'
        \<and> objects P' s' = insert (unat r', l') (objects P s - {(unat r, l)})"
      using ok n(1-3) l by blast
    show ?thesis
      by (rule disjI2, rule exI [of _ r'], rule exI [of _ s']) (intro conjI ballI h rep pg dis oth cont; assumption)
  qed
qed

lemma first_chunk:
  assumes ok: "heap_ok {} s" and l: "alloclist s 0 = []" and fr: "q \<in> free_pages (hmm s)"
  obtains p b s' where "alloc_loop 0 s = Some (page_virt p + of_nat (b * ALLOCLIST_SIZE 0), s')"
    and "free_pages (hmm s') = free_pages (hmm s) - {p}"
proof -
  have z: "0 < NUM_OF_ALLOCLIST" by (simp add: NUM_OF_ALLOCLIST_def)
  obtain p s1 where n: "alloclist_new 0 s = Some (p, s1)" "new_page_spec 0 s p s1"
    using alloclist_new_cases [OF heap_okD(1) [OF ok], of 0] fr by auto
  have pop: "pop_page 0 s = Some (p, s1)" using n(1) l by (simp add: pop_page_def)
  have f1: "free_pages (hmm s1) = free_pages (hmm s) - {p}"
    using n(2) by (simp add: new_page_spec_def alloc_spec_def pages_of_def)
  from pop_new(1) [OF ok z l n(2)] z pop show ?thesis
  proof (cases rule: popped_cases)
    case full
    have "\<not> abit (new_data 0 (a_data (adata s p))) (ALLOCLIST_DATABIT 0 - 1)"
      using new_data_bits [OF z] last_chunk [OF z] by simp
    then show ?thesis using full(1) last_chunk [OF z] n(2) by (simp add: new_page_spec_def)
  next
    case (take b)
    show ?thesis by (rule that [OF take(3)]) (simp add: f1)
  qed
qed

lemma alloc_example_16:
  obtains r :: u64 and s where "heap_reachable 0x1000000 0x40000000 0x40800000 {(unat r, 16)} s" and "free_pages (hmm s) \<noteq> {}"
proof -
  obtain s where s: "heap_reachable 0x1000000 0x40000000 0x40800000 {} s" "pages_of 2 2304 \<subseteq> free_pages (hmm s)"
    "heap_ok {} s" "alloclist s 0 = []"
  proof -
    obtain m where m: "mm_init_free 0x1000000 0x40000000 0x40800000 = Some m" "pages_of 2 2304 \<subseteq> free_pages m"
      by (rule start_example)
    have mo: "mm_ok m"
      using mm_init_free_ok [where start = "0x1000000" and first = "0x40000000" and en = "0x40800000"] m(1) by auto
    show ?thesis
      by (rule that [OF heap_start [OF m(1), of "\<lambda>_. \<lparr>a_n = 0, a_data = \<lambda>_. 0\<rparr>" "\<lambda>_. 0"]])
         (use m mo in \<open>simp_all add: heap_ok_def\<close>)
  qed
  have "2304 \<in> free_pages (hmm s)" using s(2) by (auto simp: pages_of_def)
  from first_chunk [OF s(3,4) this] obtain p b s' where
    c: "alloc_loop 0 s = Some (page_virt p + of_nat (b * ALLOCLIST_SIZE 0), s')" "free_pages (hmm s') = free_pages (hmm s) - {p}" .
  have "size_class 16 = Some 0" by (simp add: size_class_def NUM_OF_ALLOCLIST_def ALLOCLIST_SIZE_def upt_rec)
  then have a: "alloc 16 s = Some (page_virt p + of_nat (b * ALLOCLIST_SIZE 0), s')" using c(1) by (simp add: alloc_def)
  have "2304 \<in> free_pages (hmm s)" "2305 \<in> free_pages (hmm s)" using s(2) by (auto simp: pages_of_def)
  then have "2304 \<in> free_pages (hmm s') \<or> 2305 \<in> free_pages (hmm s')"
    unfolding c(2) by (cases "p = 2304") auto
  then have "free_pages (hmm s') \<noteq> {}" by blast
  then show ?thesis using that heap_alloc [OF s(1) _ a] by (simp add: max_request_def)
qed

lemma heap_objects_safe_witness:
  "\<exists>r s. heap_reachable 0x1000000 0x40000000 0x40800000 {(r, 16)} s \<and> (r - 2 ^ 30) div 4096 \<notin> free_pages (hmm s)
      \<and> hfree (of_nat r) s \<noteq> None"
proof -
  obtain r :: u64 and s where s: "heap_reachable 0x1000000 0x40000000 0x40800000 {(unat r, 16)} s"
    using alloc_example_16 by blast
  note H = heap_objects_safe [OF s]
  have "unat r \<in> span (unat r, 16)" by (simp add: span_def)
  then have "(unat r - 2 ^ 30) div 4096 \<notin> free_pages (hmm s)" using conjunct1 [OF conjunct2 [OF H]] by simp
  moreover have "hfree (of_nat (unat r)) s \<noteq> None"
    using conjunct1 [OF conjunct2 [OF conjunct2 [OF H]]] by auto
  ultimately show ?thesis using s by blast
qed

lemma realloc_keeps_contents_witness:
  "\<exists>r s r' s'. heap_reachable 0x1000000 0x40000000 0x40800000 {(unat r, 16)} s \<and> hrealloc r 500 s = Some (r', s')
      \<and> (unat r' + 499 - 2 ^ 30) div 4096 \<notin> free_pages (hmm s')
      \<and> heap s' (r' + of_nat 15) = heap s (r + of_nat 15)"
proof -
  obtain r :: u64 and s where s: "heap_reachable 0x1000000 0x40000000 0x40800000 {(unat r, 16)} s" "free_pages (hmm s) \<noteq> {}"
    using alloc_example_16 by blast
  have nr: "\<not> no_room 500 s" using s(2) by (simp add: no_room_def)
  have rr: "(hrealloc r 500 s = None \<and> no_room 500 s)
    \<or> (\<exists>r' s'. hrealloc r 500 s = Some (r', s')
      \<and> (\<exists>P P' l l'. heap_ok P s \<and> heap_ok P' s' \<and> (unat r, l) \<in> objects P s \<and> 16 \<le> l \<and> unat (500 :: u32) \<le> l'
           \<and> objects P' s' = insert (unat r', l') (objects P s - {(unat r, l)}))
      \<and> (\<forall>x\<in>span (unat r', unat (500 :: u32)). 2 ^ 30 \<le> x \<and> (x - 2 ^ 30) div 4096 < NUM_OF_PAGES
           \<and> (x - 2 ^ 30) div 4096 \<notin> free_pages (hmm s'))
      \<and> (\<forall>ob\<in>{(unat r, 16)} - {(unat r, 16)}. span ob \<inter> span (unat r', unat (500 :: u32)) = {})
      \<and> (\<forall>i<min 16 (unat (500 :: u32)). heap s' (r' + of_nat i) = heap s (r + of_nat i))
      \<and> (\<forall>ob\<in>{(unat r, 16)} - {(unat r, 16)}. \<forall>x\<in>span ob. heap s' (of_nat x) = heap s (of_nat x)))"
    by (rule realloc_keeps_contents [OF s(1), of r 16 500]) (simp_all add: max_request_def)
  then obtain r' s' where h: "hrealloc r 500 s = Some (r', s')"
    and p: "\<And>x. x \<in> span (unat r', 500) \<Longrightarrow> (x - 2 ^ 30) div 4096 \<notin> free_pages (hmm s')"
    and c: "\<And>i. i < 16 \<Longrightarrow> heap s' (r' + of_nat i) = heap s (r + of_nat i)"
    using nr by auto
  have "unat r' + 499 \<in> span (unat r', 500)" by (simp add: span_def)
  note q = p [OF this]
  have "heap s' (r' + of_nat 15) = heap s (r + of_nat 15)" by (rule c) simp
  with s(1) h q show ?thesis by (intro exI conjI)
qed

text \<open>
  Beyond that bound the product of \<open>alloc_pages\<close> overflows: a request of 2GB is one of a negative
  number of bytes, which the smallest block satisfies.
\<close>

lemma alloc_pages_overflow: "alloc_order (unat ((0x80000000 + 4095 :: u32) div 4096)) = Some 0"
  by (simp add: alloc_order_def NUM_OF_ALLOCSIZE_def allocsize_def upt_rec)

end
