(* ===== verification/Guest_Access.thy ===== *)
theory Guest_Access
  imports Mmio_Registry Cache_Types Gmm_Pass
begin

text \<open>
  \<open>core/gmm_access.c\<close> and the accesses to physical memory of \<open>core/mm.c\<close> under it.  A buffer is the
  list of its bytes, the lowest address first; a value of 16, 32 or 64 bits is the buffer of its
  bytes.  An access asks the MMIO registry first and goes to the memory of the machine through
  \<open>gmm_pass_gp2hp\<close> otherwise.  The handlers are parameters: \<open>accepts\<close> says whether a handler takes an
  access, \<open>handler\<close> is what it does to the buffer and to the state \<open>dev\<close> of the devices.  A failed
  assertion or a panic is \<open>None\<close>.
\<close>

record 'd guest_env =
  accepts :: "nat \<Rightarrow> u64 \<Rightarrow> u32 \<Rightarrow> bool"
  handler :: "nat \<Rightarrow> bool \<Rightarrow> u64 \<Rightarrow> u32 \<Rightarrow> u8 list \<Rightarrow> 'd \<Rightarrow> u8 list \<times> 'd"
  lock_busy :: bool \<comment> \<open>\<open>rw_spinlock_trylock_ex\<close> fails in \<open>mmio_unlock\<close>\<close>
  env_gmm :: gmm_data
  env_cache :: cache_state
  hphys_len :: u64
  env_addr_mask :: u64 \<comment> \<open>\<open>current->pte_addr_mask\<close>\<close>

record 'd guest_state =
  ram :: physmem \<comment> \<open>the memory of the machine, by host-physical address\<close>
  mreg :: mmio_data
  dev :: 'd

section \<open>Host-physical memory\<close>

definition read_mem :: "nat \<Rightarrow> u64 \<Rightarrow> physmem \<Rightarrow> u8 list" where
  "read_mem n a mem = map (\<lambda>i. mem (a + of_nat i)) [0..<n]"

definition write_mem :: "u64 \<Rightarrow> u8 list \<Rightarrow> physmem \<Rightarrow> physmem" where
  "write_mem a bs mem = (\<lambda>x. if unat (x - a) < length bs then bs ! unat (x - a) else mem x)"

text \<open>\<open>read_hphys_b\<close> to \<open>_q\<close> and \<open>write_hphys_b\<close> to \<open>_q\<close>; the attributes only select the mapping.\<close>

definition read_hphys :: "nat \<Rightarrow> u64 \<Rightarrow> 'd guest_state \<Rightarrow> u8 list" where
  "read_hphys n phys s = read_mem n phys (ram s)"

definition write_hphys :: "u64 \<Rightarrow> u8 list \<Rightarrow> 'd guest_state \<Rightarrow> 'd guest_state" where
  "write_hphys phys bs s = s\<lparr>ram := write_mem phys bs (ram s)\<rparr>"

text \<open>
  \<open>lock cmpxchg\<close>: the result is true when the memory differs from the old data, and the old data
  becomes what the memory holds.
\<close>

definition cmpxchg_hphys :: "u64 \<Rightarrow> u8 list \<Rightarrow> u8 list \<Rightarrow> 'd guest_state \<Rightarrow> bool \<times> u8 list \<times> 'd guest_state" where
  "cmpxchg_hphys phys old new s =
     (let m = read_hphys (length old) phys s
      in if m = old then (False, m, write_hphys phys new s) else (True, m, s))"

section \<open>Mappings of guest-physical memory\<close>

text \<open>\<open>HPHYS_ADDR\<close> plus the address is where the VMM has mapped the memory; \<open>None\<close> is \<open>NULL\<close>.\<close>

definition mapped_hphys_addr :: "'d guest_env \<Rightarrow> u64 \<Rightarrow> u32 \<Rightarrow> u64 option" where
  "mapped_hphys_addr e hphys len =
     (if hphys_len e \<le> hphys then None
      else if hphys_len e \<le> hphys + ucast len - 1 then None
      else Some hphys)"

fun mapped_pages :: "'d guest_env \<Rightarrow> bool \<Rightarrow> nat \<Rightarrow> u64 \<Rightarrow> u64 \<Rightarrow> bool" where
  "mapped_pages e wr 0 p1 hphys1 = True"
| "mapped_pages e wr (Suc k) p1 hphys1 =
     (let p1 = p1 + PAGESIZE; hphys1 = hphys1 + PAGESIZE; (hp, rom) = gmm_pass_gp2hp (env_gmm e) p1
      in hphys1 = hp \<and> \<not> (wr \<and> rom) \<and> mapped_pages e wr k p1 hphys1)"

text \<open>The loop runs until \<open>p1\<close> is the page of the last byte.\<close>

definition mapped_gphys_addr :: "'d guest_env \<Rightarrow> bool \<Rightarrow> u64 \<Rightarrow> u32 \<Rightarrow> u64 option" where
  "mapped_gphys_addr e wr gphys len =
     (let (hphys, rom) = gmm_pass_gp2hp (env_gmm e) gphys
      in if wr \<and> rom then None
         else
           let p1 = gphys AND NOT PAGESIZE_MASK;
               p2 = (gphys + ucast len - 1) AND NOT PAGESIZE_MASK
           in if mapped_pages e wr (unat (drop_bit 12 (p2 - p1))) p1 (hphys AND NOT PAGESIZE_MASK)
              then mapped_hphys_addr e hphys len else None)"

text \<open>
  \<open>mapmem_domap\<close>: page by page; the mapping is the host-physical address of each of its bytes.  It
  fails for a page of the VMM that is to be written.
\<close>

definition mapmem_domap :: "'d guest_env \<Rightarrow> bool \<Rightarrow> u64 \<Rightarrow> u32 \<Rightarrow> (nat \<Rightarrow> u64) option" where
  "mapmem_domap e wr gphys len =
     (let offset = unat (gphys AND PAGESIZE_MASK);
          n = (offset + unat len + 4095) div 4096;
          p = gphys AND NOT PAGESIZE_MASK;
          page = (\<lambda>i. gmm_pass_gp2hp (env_gmm e) (p + of_nat (i * 4096)))
      in if wr \<and> list_ex (\<lambda>i. snd (page i)) [0..<n] then None
         else Some (\<lambda>k. (fst (page ((offset + k) div 4096)) AND NOT PAGESIZE_MASK) + of_nat ((offset + k) mod 4096)))"

definition mapmem_gphys :: "'d guest_env \<Rightarrow> bool \<Rightarrow> u64 \<Rightarrow> u32 \<Rightarrow> (nat \<Rightarrow> u64) option" where
  "mapmem_gphys e wr gphys len =
     (case mapped_gphys_addr e wr gphys len of
        Some hp0 \<Rightarrow> Some (\<lambda>k. hp0 + of_nat k)
      | None \<Rightarrow> mapmem_domap e wr gphys len)"

text \<open>\<open>memcpy\<close> from and to a mapping.\<close>

definition copy_from :: "(nat \<Rightarrow> u64) \<Rightarrow> nat \<Rightarrow> physmem \<Rightarrow> u8 list" where
  "copy_from mp n mem = map (\<lambda>k. mem (mp k)) [0..<n]"

definition copy_to :: "(nat \<Rightarrow> u64) \<Rightarrow> u8 list \<Rightarrow> physmem \<Rightarrow> physmem" where
  "copy_to mp bs mem = fold (\<lambda>k m. m(mp k := bs ! k)) [0..<length bs] mem"

section \<open>The calls of an access\<close>

text \<open>\<open>n\<close> bytes of the buffer from the offset \<open>q\<close> on, and the buffer with them replaced.\<close>

definition part :: "nat \<Rightarrow> nat \<Rightarrow> u8 list \<Rightarrow> u8 list" where "part q n buf = take n (drop q buf)"

definition put_part :: "nat \<Rightarrow> u8 list \<Rightarrow> u8 list \<Rightarrow> u8 list" where
  "put_part q bs buf = take q buf @ bs @ drop (q + length bs) buf"

fun run_call :: "'d guest_env \<Rightarrow> bool \<Rightarrow> u32 \<Rightarrow> mmio_call \<Rightarrow> u8 list \<times> 'd guest_state \<Rightarrow> (u8 list \<times> 'd guest_state) option" where
  "run_call e wr f (Handled p gphys q len) (buf, s) =
     (let (bs, d) = handler e p wr gphys f (part (unat q) (unat len) buf) (dev s)
      in Some (if wr then buf else put_part (unat q) bs buf, s\<lparr>dev := d\<rparr>))"
| "run_call e wr f (Direct gphys q len) (buf, s) =
     (case mapmem_gphys e wr gphys len of
        None \<Rightarrow> None
      | Some mp \<Rightarrow>
          if wr then Some (buf, s\<lparr>ram := copy_to mp (part (unat q) (unat len) buf) (ram s)\<rparr>)
          else Some (put_part (unat q) (copy_from mp (unat len) (ram s)) buf, s))"

fun run_calls :: "'d guest_env \<Rightarrow> bool \<Rightarrow> u32 \<Rightarrow> mmio_call list \<Rightarrow> u8 list \<times> 'd guest_state \<Rightarrow> (u8 list \<times> 'd guest_state) option" where
  "run_calls e wr f [] bs = Some bs"
| "run_calls e wr f (c # cs) bs = (case run_call e wr f c bs of None \<Rightarrow> None | Some bs \<Rightarrow> run_calls e wr f cs bs)"

text \<open>The result, the buffer after a read, and the state.\<close>

definition access_memory ::
  "'d guest_env \<Rightarrow> u64 \<Rightarrow> bool \<Rightarrow> u8 list \<Rightarrow> u32 \<Rightarrow> 'd guest_state \<Rightarrow> (bool \<times> u8 list \<times> 'd guest_state) option" where
  "access_memory e phys wr buf f s =
     (case mmio_access_memory (accepts e) (mreg s) phys (of_nat (length buf)) of
        None \<Rightarrow> None
      | Some (r, log) \<Rightarrow> map_option (\<lambda>(buf, s). (r, buf, s)) (run_calls e wr f log (buf, s)))"

section \<open>Accesses by guest-physical address\<close>

abbreviation locked :: "'d guest_state \<Rightarrow> 'd guest_state" where
  "locked s \<equiv> s\<lparr>mreg := mmio_lock (mreg s)\<rparr>"

abbreviation unlocked :: "'d guest_env \<Rightarrow> 'd guest_state \<Rightarrow> 'd guest_state" where
  "unlocked e s \<equiv> s\<lparr>mreg := mmio_unlock (lock_busy e) (mreg s)\<rparr>"

text \<open>The common body of the four reads.\<close>

definition read_gphys_body ::
  "'d guest_env \<Rightarrow> nat \<Rightarrow> u64 \<Rightarrow> u32 \<Rightarrow> 'd guest_state \<Rightarrow> (u8 list \<times> 'd guest_state) option" where
  "read_gphys_body e n phys attr s =
     (case cache_get_attr phys attr (env_cache e) of
        None \<Rightarrow> None
      | Some attr \<Rightarrow>
          (case access_memory e phys False (replicate n 0) attr (locked s) of
             None \<Rightarrow> None
           | Some (True, buf, s) \<Rightarrow> Some (buf, unlocked e s)
           | Some (False, _, s) \<Rightarrow>
               Some (read_hphys n (fst (gmm_pass_gp2hp (env_gmm e) phys)) s, unlocked e s)))"

text \<open>The common body of the four writes; \<open>rom_panic\<close>: memory of the VMM is a panic.\<close>

definition write_gphys_body ::
  "'d guest_env \<Rightarrow> bool \<Rightarrow> u64 \<Rightarrow> u8 list \<Rightarrow> u32 \<Rightarrow> 'd guest_state \<Rightarrow> 'd guest_state option" where
  "write_gphys_body e rom_panic phys data attr s =
     (case cache_get_attr phys attr (env_cache e) of
        None \<Rightarrow> None
      | Some attr \<Rightarrow>
          (case access_memory e phys True data attr (locked s) of
             None \<Rightarrow> None
           | Some (True, _, s) \<Rightarrow> Some (unlocked e s)
           | Some (False, _, s) \<Rightarrow>
               let (hphys, fakerom) = gmm_pass_gp2hp (env_gmm e) phys
               in if fakerom \<and> rom_panic then None
                  else Some (unlocked e (write_hphys hphys data s))))"

text \<open>Two accesses of half the size, and the concatenation of what they read.\<close>

definition read_twice ::
  "(u64 \<Rightarrow> 'd guest_state \<Rightarrow> (u8 list \<times> 'd guest_state) option) \<Rightarrow> u64 \<Rightarrow> u64 \<Rightarrow> 'd guest_state
     \<Rightarrow> (u8 list \<times> 'd guest_state) option" where
  "read_twice rd a b s =
     (case rd a s of
        None \<Rightarrow> None
      | Some (lo, s) \<Rightarrow> (case rd b s of None \<Rightarrow> None | Some (hi, s) \<Rightarrow> Some (lo @ hi, s)))"

definition write_twice ::
  "(u64 \<Rightarrow> u8 list \<Rightarrow> 'd guest_state \<Rightarrow> 'd guest_state option) \<Rightarrow> u64 \<Rightarrow> u64 \<Rightarrow> nat \<Rightarrow> u8 list \<Rightarrow> 'd guest_state
     \<Rightarrow> 'd guest_state option" where
  "write_twice wr a b n data s =
     (case wr a (take n data) s of None \<Rightarrow> None | Some s \<Rightarrow> wr b (drop n data) s)"

definition read_gphys_b :: "'d guest_env \<Rightarrow> u32 \<Rightarrow> u64 \<Rightarrow> 'd guest_state \<Rightarrow> (u8 list \<times> 'd guest_state) option" where
  "read_gphys_b e attr phys s = read_gphys_body e 1 phys attr s"

definition write_gphys_b :: "'d guest_env \<Rightarrow> u32 \<Rightarrow> u64 \<Rightarrow> u8 list \<Rightarrow> 'd guest_state \<Rightarrow> 'd guest_state option" where
  "write_gphys_b e attr phys data s = write_gphys_body e True phys data attr s"

definition read_gphys_w :: "'d guest_env \<Rightarrow> u32 \<Rightarrow> u64 \<Rightarrow> 'd guest_state \<Rightarrow> (u8 list \<times> 'd guest_state) option" where
  "read_gphys_w e attr phys s =
     (if phys AND 0xFFF = 0xFFF then read_twice (read_gphys_b e attr) phys (phys + 1) s
      else read_gphys_body e 2 phys attr s)"

definition write_gphys_w :: "'d guest_env \<Rightarrow> u32 \<Rightarrow> u64 \<Rightarrow> u8 list \<Rightarrow> 'd guest_state \<Rightarrow> 'd guest_state option" where
  "write_gphys_w e attr phys data s =
     (if phys AND 0xFFF = 0xFFF then write_twice (write_gphys_b e attr) phys (phys + 1) 1 data s
      else write_gphys_body e True phys data attr s)"

definition read_gphys_l :: "'d guest_env \<Rightarrow> u32 \<Rightarrow> u64 \<Rightarrow> 'd guest_state \<Rightarrow> (u8 list \<times> 'd guest_state) option" where
  "read_gphys_l e attr phys s =
     (if phys AND 0xFFF \<ge> 0xFFD then read_twice (read_gphys_w e attr) phys (phys + 2) s
      else read_gphys_body e 4 phys attr s)"

text \<open>Here a write to memory of the VMM is only reported.\<close>

definition write_gphys_l :: "'d guest_env \<Rightarrow> u32 \<Rightarrow> u64 \<Rightarrow> u8 list \<Rightarrow> 'd guest_state \<Rightarrow> 'd guest_state option" where
  "write_gphys_l e attr phys data s =
     (if phys AND 0xFFF \<ge> 0xFFD then write_twice (write_gphys_w e attr) phys (phys + 2) 2 data s
      else write_gphys_body e False phys data attr s)"

definition read_gphys_q :: "'d guest_env \<Rightarrow> u32 \<Rightarrow> u64 \<Rightarrow> 'd guest_state \<Rightarrow> (u8 list \<times> 'd guest_state) option" where
  "read_gphys_q e attr phys s =
     (if phys AND 0xFFF \<ge> 0xFF9 then read_twice (read_gphys_l e attr) phys (phys + 4) s
      else read_gphys_body e 8 phys attr s)"

definition write_gphys_q :: "'d guest_env \<Rightarrow> u32 \<Rightarrow> u64 \<Rightarrow> u8 list \<Rightarrow> 'd guest_state \<Rightarrow> 'd guest_state option" where
  "write_gphys_q e attr phys data s =
     (if phys AND 0xFFF \<ge> 0xFF9 then write_twice (write_gphys_l e attr) phys (phys + 4) 4 data s
      else write_gphys_body e True phys data attr s)"

text \<open>\<open>cmpxchg_gphys_l\<close> and \<open>_q\<close>; \<open>old\<close> has 4 or 8 bytes.\<close>

definition cmpxchg_gphys ::
  "'d guest_env \<Rightarrow> u32 \<Rightarrow> u64 \<Rightarrow> u8 list \<Rightarrow> u8 list \<Rightarrow> 'd guest_state \<Rightarrow> (bool \<times> u8 list \<times> 'd guest_state) option" where
  "cmpxchg_gphys e attr phys old new s =
     (if (phys AND 0xFFF) \<ge> (if length old = 4 then 0xFFD else 0xFF9) then None
      else case cache_get_attr phys attr (env_cache e) of
        None \<Rightarrow> None
      | Some attr \<Rightarrow>
          (case access_memory e phys False old attr (locked s) of
             None \<Rightarrow> None
           | Some (True, _, _) \<Rightarrow> None
           | Some (False, _, s) \<Rightarrow>
               let s = unlocked e s; (hphys, fakerom) = gmm_pass_gp2hp (env_gmm e) phys
               in if fakerom then None else Some (cmpxchg_hphys hphys old new s)))"

end
