(* ===== verification/Pmap.thy ===== *)
theory Pmap
  imports Guest_Access Vt_Event
begin

text \<open>
  The walk of page tables of \<open>core/mm.c\<close> (\<open>pmap_*\<close>) and the guest's address translation of
  \<open>core/cpu_mmu.c\<close> on top of it.  A level is a number from 1; the entry the model calls \<open>k\<close> is the
  one of level \<open>k + 1\<close>, and the entry \<open>levels\<close> is made from \<open>CR3\<close>.  No other processor changes the
  tables in between; a failed assertion or a panic is \<open>None\<close>.
\<close>

abbreviation PDE_P_BIT :: u64 where "PDE_P_BIT \<equiv> 0x1"
abbreviation PDE_RW_BIT :: u64 where "PDE_RW_BIT \<equiv> 0x2"
abbreviation PDE_US_BIT :: u64 where "PDE_US_BIT \<equiv> 0x4"
abbreviation PDE_A_BIT :: u64 where "PDE_A_BIT \<equiv> 0x20"
abbreviation PDE_D_BIT :: u64 where "PDE_D_BIT \<equiv> 0x40"
abbreviation PDE_PS_BIT :: u64 where "PDE_PS_BIT \<equiv> 0x80"
abbreviation PDE_4M_PAT_BIT :: u64 where "PDE_4M_PAT_BIT \<equiv> 0x1000"
abbreviation PDE_NX_BIT :: u64 where "PDE_NX_BIT \<equiv> 0x8000000000000000"
abbreviation PDE_CACHE_BITS :: u64 where "PDE_CACHE_BITS \<equiv> 0x18" \<comment> \<open>\<open>PDE_PWT_BIT | PDE_PCD_BIT\<close>\<close>

section \<open>Numbers and their bytes\<close>

fun of_bytes :: "u8 list \<Rightarrow> u64" where
  "of_bytes [] = 0"
| "of_bytes (b # bs) = ucast b OR push_bit 8 (of_bytes bs)"

fun to_bytes :: "nat \<Rightarrow> u64 \<Rightarrow> u8 list" where
  "to_bytes 0 w = []"
| "to_bytes (Suc n) w = ucast w # to_bytes n (drop_bit 8 w)"

section \<open>The state of a walk\<close>

datatype pmap_type = PMAP_TYPE_VMM | PMAP_TYPE_GUEST | PMAP_TYPE_GUEST_ATOMIC

record pmap =
  pm_entry :: "nat \<Rightarrow> u64"
  pm_entryaddr :: "nat \<Rightarrow> u64"
  pm_curaddr :: u64
  pm_curlevel :: nat
  pm_readlevel :: nat
  pm_levels :: nat
  pm_type :: pmap_type

definition pmap_open_vmm :: "pmap \<Rightarrow> u64 \<Rightarrow> nat \<Rightarrow> pmap" where
  "pmap_open_vmm m pcr3 levels =
     m\<lparr>pm_levels := levels, pm_readlevel := levels, pm_curlevel := levels - 1,
       pm_entry := (pm_entry m)(levels := (pcr3 AND NOT PAGESIZE_MASK) OR PDE_P_BIT),
       pm_type := PMAP_TYPE_VMM\<rparr>"

definition pmap_open_guest :: "pmap \<Rightarrow> u64 \<Rightarrow> nat \<Rightarrow> bool \<Rightarrow> pmap" where
  "pmap_open_guest m pcr3 levels atomic =
     m\<lparr>pm_levels := levels, pm_readlevel := levels, pm_curlevel := levels - 1,
       pm_entry := (pm_entry m)(levels :=
         (pcr3 AND ((if levels = 3 then NOT 0x1F else NOT PAGESIZE_MASK) OR PDE_CACHE_BITS)) OR PDE_P_BIT),
       pm_type := (if atomic then PMAP_TYPE_GUEST_ATOMIC else PMAP_TYPE_GUEST)\<rparr>"

definition pmap_getreadlevel :: "pmap \<Rightarrow> nat" where
  "pmap_getreadlevel m = pm_readlevel m + 1"

definition pmap_setlevel :: "nat \<Rightarrow> pmap \<Rightarrow> pmap" where
  "pmap_setlevel level m = m\<lparr>pm_curlevel := level - 1\<rparr>"

definition seek_masks :: "u64 list list" where
  "seek_masks =
     [[0xFFFFF000, 0xFFC00000, 0x00000000, 0x00000000],
      [0xFFFFF000, 0xFFE00000, 0xC0000000, 0x00000000],
      [0x0000FFFFFFFFF000, 0x0000FFFFFFE00000, 0x0000FFFFC0000000, 0x0000FF8000000000]]"

text \<open>The entries read for the last address are kept as far as they are the same for the new one.\<close>

definition pmap_seek :: "u64 \<Rightarrow> nat \<Rightarrow> pmap \<Rightarrow> pmap" where
  "pmap_seek virtaddr level m =
     (let m = pmap_setlevel level m;
          same = (\<lambda>r. let mask = seek_masks ! (pm_levels m - 2) ! r in pm_curaddr m AND mask = virtaddr AND mask);
          r = (case find same [pm_readlevel m ..< pm_levels m] of
                 Some r \<Rightarrow> r | None \<Rightarrow> max (pm_readlevel m) (pm_levels m))
      in m\<lparr>pm_readlevel := r, pm_curaddr := virtaddr\<rparr>)"

section \<open>Reading and writing one entry\<close>

text \<open>\<open>pmap_rd32\<close> and \<open>pmap_rd64\<close>, for entries of \<open>n\<close> bytes.\<close>

definition pmap_rd :: "'d guest_env \<Rightarrow> nat \<Rightarrow> pmap \<Rightarrow> u64 \<Rightarrow> u32 \<Rightarrow> 'd guest_state \<Rightarrow> (u64 \<times> 'd guest_state) option" where
  "pmap_rd e n m phys attr s =
     (case pm_type m of
        PMAP_TYPE_VMM \<Rightarrow> Some (of_bytes (read_mem n phys (ram s)), s)
      | PMAP_TYPE_GUEST \<Rightarrow>
          map_option (\<lambda>(bs, s). (of_bytes bs, s)) ((if n = 4 then read_gphys_l else read_gphys_q) e attr phys s)
      | PMAP_TYPE_GUEST_ATOMIC \<Rightarrow>
          map_option (\<lambda>(_, bs, s). (of_bytes bs, s))
            (cmpxchg_gphys e attr phys (replicate n 0) (replicate n 0) s))"

text \<open>\<open>pmap_wr32\<close> and \<open>pmap_wr64\<close>: the result, the entry after the call and the state.\<close>

definition pmap_wr ::
  "'d guest_env \<Rightarrow> nat \<Rightarrow> pmap \<Rightarrow> u64 \<Rightarrow> u32 \<Rightarrow> u64 \<Rightarrow> u64 \<Rightarrow> 'd guest_state \<Rightarrow> (bool \<times> u64 \<times> 'd guest_state) option" where
  "pmap_wr e n m phys attr oldentry entry s =
     (case pm_type m of
        PMAP_TYPE_VMM \<Rightarrow> Some (False, entry, s\<lparr>ram := write_mem phys (to_bytes n entry) (ram s)\<rparr>)
      | PMAP_TYPE_GUEST \<Rightarrow>
          map_option (\<lambda>s. (False, entry, s))
            ((if n = 4 then write_gphys_l else write_gphys_q) e attr phys (to_bytes n entry) s)
      | PMAP_TYPE_GUEST_ATOMIC \<Rightarrow>
          map_option (\<lambda>(r, bs, s). (r, if r then of_bytes bs else entry, s))
            (cmpxchg_gphys e attr phys (to_bytes n oldentry) (to_bytes n entry) s))"

text \<open>The number of bytes of an entry, and the address of the entry \<open>k\<close> in a table.\<close>

abbreviation entry_size :: "nat \<Rightarrow> nat" where "entry_size levels \<equiv> if levels = 2 then 4 else 8"

definition entry_addr :: "nat \<Rightarrow> nat \<Rightarrow> u64 \<Rightarrow> u64 \<Rightarrow> u64" where
  "entry_addr levels k table virt =
     (table AND (if levels = 3 \<and> k = 2 then 0xFFFFFFE0 else 0x0000FFFFFFFFF000))
     OR (if levels = 2 then drop_bit (10 + 10 * k) virt AND 0xFFC else drop_bit (9 + 9 * k) virt AND 0xFF8)"

text \<open>The entry of a page of 2MB within one of 1GB, and of a page of 4KB within a larger one.\<close>

definition split_1g :: "u64 \<Rightarrow> u64 \<Rightarrow> u64" where
  "split_1g virt tmp = (tmp AND NOT 0x3FE00000) OR (virt AND 0x3FE00000)"

definition split_large :: "nat \<Rightarrow> u64 \<Rightarrow> u64 \<Rightarrow> u64" where
  "split_large levels virt tmp =
     (let tmp = tmp AND NOT PDE_PS_BIT;
          tmp = (if tmp AND PDE_4M_PAT_BIT \<noteq> 0 then (tmp OR PDE_PS_BIT) AND NOT PDE_4M_PAT_BIT else tmp)
      in if levels = 2
         then let tmp = tmp OR push_bit 32 (drop_bit 13 (tmp AND 0x1FE000))
              in (tmp AND NOT 0x3FF000) OR (virt AND 0x3FF000)
         else (tmp AND NOT 0x1FF000) OR (virt AND 0x1FF000))"

text \<open>The loop of \<open>pmap_read\<close>; the first argument is \<open>readlevel\<close>, which falls with every round.\<close>

fun pmap_read_loop :: "'d guest_env \<Rightarrow> nat \<Rightarrow> pmap \<Rightarrow> 'd guest_state \<Rightarrow> (u64 \<times> pmap \<times> 'd guest_state) option" where
  "pmap_read_loop e 0 m s = Some (pm_entry m (pm_curlevel m), m, s)"
| "pmap_read_loop e (Suc k) m s =
     (let tmp = pm_entry m (Suc k) in
      if Suc k \<le> pm_curlevel m then Some (pm_entry m (pm_curlevel m), m, s)
      else if tmp AND PDE_P_BIT = 0 then Some (0, m, s)
      else if k = 1 \<and> tmp AND PDE_PS_BIT \<noteq> 0 then
        let tmp = split_1g (pm_curaddr m) tmp
        in Some (if pm_curlevel m = 0 then split_large (pm_levels m) (pm_curaddr m) tmp else tmp, m, s)
      else if k = 0 \<and> tmp AND PDE_PS_BIT \<noteq> 0 then Some (split_large (pm_levels m) (pm_curaddr m) tmp, m, s)
      else
        let a = entry_addr (pm_levels m) k tmp (pm_curaddr m)
        in case pmap_rd e (entry_size (pm_levels m)) m a (ucast (tmp AND PDE_CACHE_BITS)) s of
             None \<Rightarrow> None
           | Some (v, s) \<Rightarrow>
               pmap_read_loop e k (m\<lparr>pm_readlevel := k, pm_entryaddr := (pm_entryaddr m)(k := a),
                                     pm_entry := (pm_entry m)(k := v)\<rparr>) s)"

definition pmap_read :: "'d guest_env \<Rightarrow> pmap \<Rightarrow> 'd guest_state \<Rightarrow> (u64 \<times> pmap \<times> 'd guest_state) option" where
  "pmap_read e m s = pmap_read_loop e (pm_readlevel m) m s"

definition pmap_write :: "'d guest_env \<Rightarrow> pmap \<Rightarrow> u64 \<Rightarrow> u64 \<Rightarrow> 'd guest_state \<Rightarrow> (bool \<times> pmap \<times> 'd guest_state) option" where
  "pmap_write e m v attrmask s =
     (let k = pm_curlevel m;
          attrdef = (if pm_levels m = 3 \<and> k = 2 then 0
                     else (PDE_RW_BIT OR PDE_US_BIT OR PDE_A_BIT) OR (if k = 0 then PDE_D_BIT else 0));
          v = (v AND (NOT 0xFFF OR attrmask)) OR (attrdef AND NOT attrmask)
      in if \<not> pm_readlevel m \<le> k then None
         else case pmap_wr e (entry_size (pm_levels m)) m (pm_entryaddr m k)
                (ucast (pm_entry m (Suc k) AND PDE_CACHE_BITS)) (pm_entry m k) v s of
           None \<Rightarrow> None
         | Some (fail, v, s) \<Rightarrow>
             Some (fail, m\<lparr>pm_entry := (pm_entry m)(k := v),
                          pm_readlevel := (if fail then k else pm_readlevel m)\<rparr>, s))"

text \<open>\<open>None\<close> is a failed assertion.\<close>

definition pmap_pointer :: "pmap \<Rightarrow> u64 option" where
  "pmap_pointer m =
     (if pm_readlevel m \<le> pm_curlevel m \<and> pm_type m = PMAP_TYPE_VMM then Some (pm_entryaddr m (pm_curlevel m))
      else None)"

definition pmap_clear :: "pmap \<Rightarrow> 'd guest_state \<Rightarrow> (pmap \<times> 'd guest_state) option" where
  "pmap_clear m s =
     (let k = pm_curlevel m; table = pm_entry m (Suc k)
      in if pm_readlevel m \<le> Suc k \<and> table AND PDE_P_BIT \<noteq> 0 \<and> \<not> (k = 0 \<and> pm_entry m 1 AND PDE_PS_BIT \<noteq> 0)
            \<and> pm_type m = PMAP_TYPE_VMM
         then Some (m\<lparr>pm_readlevel := Suc k\<rparr>,
           s\<lparr>ram := write_mem (table AND NOT 0xFFF)
                (replicate (if pm_levels m = 3 \<and> k = 2 then 8 * 4 else 4096) 0) (ram s)\<rparr>)
         else None)"

end
