(* ===== verification/Guest_Mmu.thy ===== *)
theory Guest_Mmu
  imports Pmap Vt_Paging
begin

text \<open>
  \<open>core/cpu_mmu.c\<close>: the translation of the guest's linear addresses by its page tables, with the
  accessed and dirty bits set as a processor sets them, and the accesses by linear address.
\<close>

abbreviation CR4_PSE_BIT :: u64 where "CR4_PSE_BIT \<equiv> 0x10"
abbreviation EFER_NXE_BIT :: u64 where "EFER_NXE_BIT \<equiv> 0x800"

record get_pte_data =
  d_pg :: bool
  d_wp :: bool
  d_pse :: bool
  d_pae :: bool
  d_lme :: bool
  d_nxe :: bool
  d_write :: bool
  d_user :: bool
  d_exec :: bool

definition reserved_bit_table :: "u64 list list list" where
  "reserved_bit_table =
     [[[0x0000000000200000, 0x0000000000000000, 0x0000000000000000,
        0xFFFFFFFFFFFFFFFF, 0xFFFFFFFFFFFFFFFF, 0xFFFFFFFFFFFFFFFF],
       [0xFFFFFFF0001FE000, 0xFFFFFFF000000000, 0xFFFFFFF000000000,
        0xFFFFFFF0000001E6, 0xFFFFFFFFFFFFFFFF, 0xFFFFFFFFFFFFFFFF],
       [0x800FFFF0001FE000, 0x800FFFF000000000, 0x800FFFF000000000,
        0x800FFFF000000100, 0x800FFFF000000180, 0x800FFFF03FFFE000]],
      [[0x0000000000200000, 0x0000000000000000, 0x0000000000000000,
        0xFFFFFFFFFFFFFFFF, 0xFFFFFFFFFFFFFFFF, 0xFFFFFFFFFFFFFFFF],
       [0x7FFFFFF0001FE000, 0x7FFFFFF000000000, 0x7FFFFFF000000000,
        0xFFFFFFF0000001E6, 0xFFFFFFFFFFFFFFFF, 0xFFFFFFFFFFFFFFFF],
       [0x000FFFF0001FE000, 0x000FFFF000000000, 0x000FFFF000000000,
        0x000FFFF000000100, 0x000FFFF000000180, 0x000FFFF03FFFE000]]]"

abbreviation PTE_ADDR_MASK64 :: u64 where "PTE_ADDR_MASK64 \<equiv> 0x0000000FFFFFF000"

text \<open>\<open>None\<close> is a failed assertion.\<close>

definition test_pmap_entry_reserved_bit :: "'d guest_env \<Rightarrow> u64 \<Rightarrow> nat \<Rightarrow> nat \<Rightarrow> get_pte_data \<Rightarrow> bool option" where
  "test_pmap_entry_reserved_bit e entry level levels d =
     (if \<not> d_pae d \<and> \<not> d_pse d then Some False
      else
        let level = (if level = 2 \<and> entry AND PDE_PS_BIT \<noteq> 0 then 0 else level);
            level = (if level = 3 \<and> levels = 4 \<and> entry AND PDE_PS_BIT \<noteq> 0 then 5 else level);
            mask = reserved_bit_table ! (if d_nxe d then 1 else 0) ! (levels - 2) ! level;
            mask = mask XOR (env_addr_mask e XOR PTE_ADDR_MASK64)
        in if mask = 0xFFFFFFFFFFFFFFFF then None else Some (entry AND mask \<noteq> 0))"

text \<open>The result, the entry with the bits, and the walk.\<close>

definition set_ad_bit ::
  "'d guest_env \<Rightarrow> pmap \<Rightarrow> u64 \<Rightarrow> bool \<Rightarrow> bool \<Rightarrow> 'd guest_state \<Rightarrow> (bool \<times> u64 \<times> pmap \<times> 'd guest_state) option" where
  "set_ad_bit e m entry seta setd s =
     (let seta = (seta \<and> entry AND PDE_A_BIT = 0); setd = (setd \<and> entry AND PDE_D_BIT = 0)
      in if seta \<or> setd then
           let entry = (if seta then entry OR PDE_A_BIT else entry);
               entry = (if setd then entry OR PDE_D_BIT else entry)
           in map_option (\<lambda>(r, m, s). (r, entry, m, s)) (pmap_write e m entry 0xFFF s)
         else Some (False, entry, m, s))"

definition entry_error :: "get_pte_data \<Rightarrow> u64 \<Rightarrow> vmmerr" where
  "entry_error d entry =
     (if entry AND PDE_US_BIT = 0 \<and> d_user d then VMMERR_PAGE_NOT_ACCESSIBLE
      else if entry AND PDE_RW_BIT = 0 \<and> d_write d \<and> (d_wp d \<or> d_user d) then VMMERR_PAGE_NOT_ACCESSIBLE
      else if entry AND PDE_NX_BIT \<noteq> 0 \<and> d_exec d \<and> d_nxe d then VMMERR_PAGE_NOT_EXECUTABLE
      else VMMERR_SUCCESS)"

text \<open>
  One level of the loop of \<open>get_pte_sub\<close> from the label \<open>retry\<close> on: whether to try again, the result,
  the entry of the level, the walk and the state.
\<close>

definition get_pte_try ::
  "'d guest_env \<Rightarrow> get_pte_data \<Rightarrow> nat \<Rightarrow> nat \<Rightarrow> pmap \<Rightarrow> 'd guest_state \<Rightarrow> (bool \<times> vmmerr \<times> u64 \<times> pmap \<times> 'd guest_state) option" where
  "get_pte_try e d levels i m s =
     (case pmap_read e m s of
        None \<Rightarrow> None
      | Some (entry, m, s) \<Rightarrow>
          if entry AND PDE_P_BIT = 0 then Some (False, VMMERR_PAGE_NOT_PRESENT, entry, m, s)
          else case test_pmap_entry_reserved_bit e entry i levels d of
            None \<Rightarrow> None
          | Some True \<Rightarrow> Some (False, VMMERR_PAGE_BAD_RESERVED_BIT, entry, m, s)
          | Some False \<Rightarrow>
              let entry = (if levels = 3 \<and> i = 3 then entry OR PDE_RW_BIT OR PDE_US_BIT OR PDE_A_BIT else entry)
              in if entry_error d entry \<noteq> VMMERR_SUCCESS then Some (False, entry_error d entry, entry, m, s)
                 else
                   let entry = (if i = 2 \<and> \<not> d_pse d then entry AND NOT PDE_PS_BIT else entry);
                       setd = ((i = 2 \<and> entry AND PDE_PS_BIT \<noteq> 0 \<or> i = 1 \<or> i = 3 \<and> entry AND PDE_PS_BIT \<noteq> 0)
                               \<and> d_write d)
                   in map_option (\<lambda>(retry, entry, m, s). (retry, VMMERR_SUCCESS, entry, m, s))
                        (set_ad_bit e m entry True setd s))"

text \<open>It is tried again as long as another processor changes the entry in between.\<close>

partial_function (option) get_pte_level ::
  "'d guest_env \<Rightarrow> get_pte_data \<Rightarrow> nat \<Rightarrow> nat \<Rightarrow> pmap \<Rightarrow> 'd guest_state \<Rightarrow> (vmmerr \<times> u64 \<times> pmap \<times> 'd guest_state) option" where
  "get_pte_level e d levels i m s =
     Option.bind (get_pte_try e d levels i m s)
       (\<lambda>(retry, r, entry, m, s). if retry then get_pte_level e d levels i m s else Some (r, entry, m, s))"

fun get_pte_loop ::
  "'d guest_env \<Rightarrow> get_pte_data \<Rightarrow> nat \<Rightarrow> nat \<Rightarrow> pmap \<Rightarrow> (nat \<Rightarrow> u64) \<Rightarrow> 'd guest_state \<Rightarrow> (vmmerr \<times> (nat \<Rightarrow> u64) \<times> 'd guest_state) option" where
  "get_pte_loop e d levels 0 m entries s = Some (VMMERR_SUCCESS, entries, s)"
| "get_pte_loop e d levels (Suc i) m entries s =
     (case get_pte_level e d levels (Suc i) (pmap_setlevel (Suc i) m) s of
        None \<Rightarrow> None
      | Some (r, entry, m, s) \<Rightarrow>
          if r \<noteq> VMMERR_SUCCESS then Some (r, entries, s)
          else get_pte_loop e d levels i m (entries(i := entry)) s)"

text \<open>
  \<open>m\<close> and \<open>entries\<close> are the contents of the uninitialised variables.  The result, the entries, the
  levels and the state.
\<close>

definition get_pte_sub ::
  "'d guest_env \<Rightarrow> pmap \<Rightarrow> u64 \<Rightarrow> u64 \<Rightarrow> get_pte_data \<Rightarrow> (nat \<Rightarrow> u64) \<Rightarrow> 'd guest_state
     \<Rightarrow> (vmmerr \<times> (nat \<Rightarrow> u64) \<times> nat \<times> 'd guest_state) option" where
  "get_pte_sub e m virt pcr3 d entries s =
     (if \<not> d_pg d then
        Some (VMMERR_SUCCESS,
          entries(0 := (virt AND env_addr_mask e) OR PDE_P_BIT OR PDE_RW_BIT OR PDE_US_BIT OR PDE_A_BIT OR PDE_D_BIT,
                  1 := PDE_P_BIT OR PDE_RW_BIT OR PDE_US_BIT OR PDE_A_BIT OR PDE_D_BIT OR PDE_PS_BIT), 1, s)
      else
        let (d, levels) = (if d_lme d then (d\<lparr>d_pae := True, d_pse := True\<rparr>, 4)
                           else if d_pae d then (d\<lparr>d_pse := True\<rparr>, 3) else (d, 2));
            m = pmap_seek virt (levels + 1) (pmap_open_guest m pcr3 levels True)
        in case pmap_read e m s of
             None \<Rightarrow> None
           | Some (entry, m, s) \<Rightarrow>
               let entries = entries(levels := entry OR PDE_RW_BIT OR PDE_US_BIT OR PDE_A_BIT)
               in map_option (\<lambda>(r, entries, s). (r, entries, levels, s)) (get_pte_loop e d levels levels m entries s))"

definition cpu_mmu_get_pte ::
  "'d guest_env \<Rightarrow> pmap \<Rightarrow> u64 \<Rightarrow> u64 \<Rightarrow> u64 \<Rightarrow> u64 \<Rightarrow> u64 \<Rightarrow> bool \<Rightarrow> bool \<Rightarrow> bool \<Rightarrow> (nat \<Rightarrow> u64) \<Rightarrow> 'd guest_state
     \<Rightarrow> (vmmerr \<times> (nat \<Rightarrow> u64) \<times> nat \<times> 'd guest_state) option" where
  "cpu_mmu_get_pte e m virt pcr0 pcr3 pcr4 pefer write user exec entries s =
     get_pte_sub e m virt pcr3
       \<lparr>d_pg = pcr0 AND CR0_PG_BIT \<noteq> 0, d_wp = pcr0 AND CR0_WP_BIT \<noteq> 0, d_pse = pcr4 AND CR4_PSE_BIT \<noteq> 0,
        d_pae = pcr4 AND CR4_PAE_BIT \<noteq> 0, d_lme = pefer AND EFER_LME_BIT \<noteq> 0,
        d_nxe = pefer AND EFER_NXE_BIT \<noteq> 0, d_write = write, d_user = user, d_exec = exec\<rparr> entries s"

section \<open>Accesses by linear address\<close>

record guest_regs =
  r_cr0 :: u64
  r_cr3 :: u64
  r_cr4 :: u64
  r_efer :: u64

text \<open>The uninitialised walk of \<open>get_pte_sub\<close>; nothing of it is ever read.\<close>

definition stack_pmap :: pmap where
  "stack_pmap = \<lparr>pm_entry = (\<lambda>_. 0), pm_entryaddr = (\<lambda>_. 0), pm_curaddr = 0, pm_curlevel = 0,
     pm_readlevel = 0, pm_levels = 0, pm_type = PMAP_TYPE_VMM\<rparr>"

text \<open>The entry counts only when the result is \<open>VMMERR_SUCCESS\<close>.\<close>

definition get_pte ::
  "'d guest_env \<Rightarrow> guest_regs \<Rightarrow> u64 \<Rightarrow> bool \<Rightarrow> bool \<Rightarrow> bool \<Rightarrow> 'd guest_state \<Rightarrow> (vmmerr \<times> u64 \<times> 'd guest_state) option" where
  "get_pte e r virt wr us ex s =
     map_option (\<lambda>(err, entries, _, s). (err, entries 0, s))
       (cpu_mmu_get_pte e stack_pmap virt (r_cr0 r) (r_cr3 r) (r_cr4 r) (r_efer r) wr us ex (\<lambda>_. 0) s)"

definition pte_gphys :: "'d guest_env \<Rightarrow> u64 \<Rightarrow> u64 \<Rightarrow> u64" where
  "pte_gphys e pte linear = (pte AND env_addr_mask e) OR (linear AND 0xFFF)"

definition pte_attr :: "u64 \<Rightarrow> u32" where "pte_attr pte = ucast (pte AND 0x98)" \<comment> \<open>PWT, PCD and PAT\<close>

definition write_linearaddr_ok_b :: "'d guest_env \<Rightarrow> guest_regs \<Rightarrow> u64 \<Rightarrow> 'd guest_state \<Rightarrow> (vmmerr \<times> 'd guest_state) option" where
  "write_linearaddr_ok_b e r linear s =
     map_option (\<lambda>(err, _, s). (err, s)) (get_pte e r linear True False False s)"

text \<open>\<open>RET_IF_ERR\<close>: the second call is made only if the first one succeeds.\<close>

definition ok_then ::
  "(vmmerr \<times> 'd guest_state) option \<Rightarrow> ('d guest_state \<Rightarrow> (vmmerr \<times> 'd guest_state) option) \<Rightarrow> (vmmerr \<times> 'd guest_state) option" where
  "ok_then a b = (case a of None \<Rightarrow> None | Some (err, s) \<Rightarrow> if err \<noteq> VMMERR_SUCCESS then Some (err, s) else b s)"

definition write_linearaddr_ok_w :: "'d guest_env \<Rightarrow> guest_regs \<Rightarrow> u64 \<Rightarrow> 'd guest_state \<Rightarrow> (vmmerr \<times> 'd guest_state) option" where
  "write_linearaddr_ok_w e r linear s =
     (if linear AND 0xFFE \<le> 0xFFE then write_linearaddr_ok_b e r linear s
      else ok_then (write_linearaddr_ok_b e r linear s) (write_linearaddr_ok_b e r (linear + 1)))"

definition write_linearaddr_ok_l :: "'d guest_env \<Rightarrow> guest_regs \<Rightarrow> u64 \<Rightarrow> 'd guest_state \<Rightarrow> (vmmerr \<times> 'd guest_state) option" where
  "write_linearaddr_ok_l e r linear s =
     (if linear AND 0xFFC \<le> 0xFFC then write_linearaddr_ok_w e r linear s
      else ok_then (write_linearaddr_ok_w e r linear s) (write_linearaddr_ok_w e r (linear + 2)))"

text \<open>The part of the eight functions that is inside a page; \<open>wr\<close> and \<open>rd\<close> are the accesses to guest memory.\<close>

definition write_linear_page ::
  "('d guest_env \<Rightarrow> u32 \<Rightarrow> u64 \<Rightarrow> u8 list \<Rightarrow> 'd guest_state \<Rightarrow> 'd guest_state option) \<Rightarrow> 'd guest_env \<Rightarrow> guest_regs \<Rightarrow> u64
     \<Rightarrow> u8 list \<Rightarrow> 'd guest_state \<Rightarrow> (vmmerr \<times> 'd guest_state) option" where
  "write_linear_page wr e r linear data s =
     (case get_pte e r linear True False False s of
        None \<Rightarrow> None
      | Some (err, pte, s) \<Rightarrow>
          if err \<noteq> VMMERR_SUCCESS then Some (err, s)
          else map_option (\<lambda>s. (VMMERR_SUCCESS, s)) (wr e (pte_attr pte) (pte_gphys e pte linear) data s))"

definition read_linear_page ::
  "('d guest_env \<Rightarrow> u32 \<Rightarrow> u64 \<Rightarrow> 'd guest_state \<Rightarrow> (u8 list \<times> 'd guest_state) option) \<Rightarrow> 'd guest_env \<Rightarrow> guest_regs \<Rightarrow> u64
     \<Rightarrow> 'd guest_state \<Rightarrow> (vmmerr \<times> u8 list \<times> 'd guest_state) option" where
  "read_linear_page rd e r linear s =
     (case get_pte e r linear False False False s of
        None \<Rightarrow> None
      | Some (err, pte, s) \<Rightarrow>
          if err \<noteq> VMMERR_SUCCESS then Some (err, [], s)
          else map_option (\<lambda>(bs, s). (VMMERR_SUCCESS, bs, s)) (rd e (pte_attr pte) (pte_gphys e pte linear) s))"

text \<open>Two reads of half the size; what they have read so far is in the buffer.\<close>

definition read_linear_twice ::
  "(u64 \<Rightarrow> 'd guest_state \<Rightarrow> (vmmerr \<times> u8 list \<times> 'd guest_state) option) \<Rightarrow> u64 \<Rightarrow> u64 \<Rightarrow> 'd guest_state
     \<Rightarrow> (vmmerr \<times> u8 list \<times> 'd guest_state) option" where
  "read_linear_twice rd a b s =
     (case rd a s of
        None \<Rightarrow> None
      | Some (err, lo, s) \<Rightarrow>
          if err \<noteq> VMMERR_SUCCESS then Some (err, lo, s)
          else map_option (\<lambda>(err, hi, s). (err, lo @ hi, s)) (rd b s))"

definition write_linearaddr_b where
  "write_linearaddr_b e r linear data s = write_linear_page write_gphys_b e r linear data s"

definition write_linearaddr_w where
  "write_linearaddr_w e r linear data s =
     (if linear AND 0xFFF = 0xFFF
      then ok_then (write_linearaddr_b e r linear (take 1 data) s) (write_linearaddr_b e r (linear + 1) (drop 1 data))
      else write_linear_page write_gphys_w e r linear data s)"

definition write_linearaddr_l where
  "write_linearaddr_l e r linear data s =
     (if linear AND 0xFFF \<ge> 0xFFD
      then ok_then (write_linearaddr_w e r linear (take 2 data) s) (write_linearaddr_w e r (linear + 2) (drop 2 data))
      else write_linear_page write_gphys_l e r linear data s)"

definition write_linearaddr_q where
  "write_linearaddr_q e r linear data s =
     (if linear AND 0xFFF \<ge> 0xFF9
      then ok_then (write_linearaddr_l e r linear (take 4 data) s) (write_linearaddr_l e r (linear + 4) (drop 4 data))
      else write_linear_page write_gphys_q e r linear data s)"

definition read_linearaddr_b where
  "read_linearaddr_b e r linear s = read_linear_page read_gphys_b e r linear s"

definition read_linearaddr_w where
  "read_linearaddr_w e r linear s =
     (if linear AND 0xFFF = 0xFFF then read_linear_twice (read_linearaddr_b e r) linear (linear + 1) s
      else read_linear_page read_gphys_w e r linear s)"

definition read_linearaddr_l where
  "read_linearaddr_l e r linear s =
     (if linear AND 0xFFF \<ge> 0xFFD then read_linear_twice (read_linearaddr_w e r) linear (linear + 2) s
      else read_linear_page read_gphys_l e r linear s)"

definition read_linearaddr_q where
  "read_linearaddr_q e r linear s =
     (if linear AND 0xFFF \<ge> 0xFF9 then read_linear_twice (read_linearaddr_l e r) linear (linear + 4) s
      else read_linear_page read_gphys_q e r linear s)"

text \<open>The segment of a task is copied through a mapping of contiguous guest-physical memory.\<close>

definition read_linearaddr_tss ::
  "'d guest_env \<Rightarrow> guest_regs \<Rightarrow> u64 \<Rightarrow> u32 \<Rightarrow> 'd guest_state \<Rightarrow> (vmmerr \<times> u8 list \<times> 'd guest_state) option" where
  "read_linearaddr_tss e r linear len s =
     (case get_pte e r linear False False False s of
        None \<Rightarrow> None
      | Some (err, pte, s) \<Rightarrow>
          if err \<noteq> VMMERR_SUCCESS then Some (err, [], s)
          else case mapmem_gphys e False (pte_gphys e pte linear) len of
            None \<Rightarrow> Some (VMMERR_NOMEM, [], s)
          | Some mp \<Rightarrow> Some (VMMERR_SUCCESS, copy_from mp (unat len) (ram s), s))"

definition write_linearaddr_tss ::
  "'d guest_env \<Rightarrow> guest_regs \<Rightarrow> u64 \<Rightarrow> u8 list \<Rightarrow> 'd guest_state \<Rightarrow> (vmmerr \<times> 'd guest_state) option" where
  "write_linearaddr_tss e r linear tss s =
     (case get_pte e r linear True False False s of
        None \<Rightarrow> None
      | Some (err, pte, s) \<Rightarrow>
          if err \<noteq> VMMERR_SUCCESS then Some (err, s)
          else case mapmem_gphys e True (pte_gphys e pte linear) (of_nat (length tss)) of
            None \<Rightarrow> Some (VMMERR_NOMEM, s)
          | Some mp \<Rightarrow> Some (VMMERR_SUCCESS, s\<lparr>ram := copy_to mp tss (ram s)\<rparr>))"

end
