(* ===== verification/Guest_Writes.thy ===== *)
theory Guest_Writes
  imports Guest_Access
begin

text \<open>
  Writes by guest-physical address and the memory of the VMM: the mappings and the direct accesses
  only ever reach bytes the guest may write, and the blank page.
\<close>

section \<open>Pages\<close>

lemma page_split: "a = (a AND NOT PAGESIZE_MASK) + (a AND PAGESIZE_MASK)" for a :: u64
  unfolding page_masks and_not_mask_sub take_bit_eq_mask [symmetric] by simp

lemma page_offset_lt: "unat (a AND PAGESIZE_MASK) < 4096" for a :: u64
  unfolding page_masks unat_and_mask by simp

lemma offset_add: "unat ((a + b) AND PAGESIZE_MASK) = (unat (a AND PAGESIZE_MASK) + unat b) mod 4096" for a b :: u64
proof -
  have "unat (a + b) mod 4096 = (unat a + unat b) mod 4096"
    by (simp add: unat_word_ariths mod_mod_cancel)
  then show ?thesis unfolding page_masks unat_and_mask by (simp add: mod_add_left_eq)
qed

lemma offset_of_nat: "unat (of_nat n :: u64) mod 4096 = n mod 4096"
  by (simp add: unat_of_nat take_bit_nat_def mod_mod_cancel)

lemma page_add:
  fixes p :: u64
  assumes "p AND PAGESIZE_MASK = 0" and "r < 4096"
  shows "(p + of_nat r) AND NOT PAGESIZE_MASK = p" and "(p + of_nat r) AND PAGESIZE_MASK = of_nat r"
proof -
  have u: "unat (of_nat r :: u64) = r" using assms(2) by (intro unat_of_nat64) simp
  have "unat ((p + of_nat r) AND PAGESIZE_MASK) = r" unfolding offset_add u using assms by simp
  then show m: "(p + of_nat r) AND PAGESIZE_MASK = of_nat r" using u by (metis unat_eqI)
  show "(p + of_nat r) AND NOT PAGESIZE_MASK = p"
    using page_split [of "p + of_nat r"] unfolding m by simp
qed

lemma page_multiple:
  fixes p :: u64
  assumes "p AND PAGESIZE_MASK = 0" shows "(p + of_nat (i * 4096)) AND PAGESIZE_MASK = 0"
proof -
  have "unat ((p + of_nat (i * 4096)) AND PAGESIZE_MASK) = 0"
    unfolding offset_add using assms offset_of_nat [of "i * 4096"] by (simp del: of_nat_mult)
  then show ?thesis by (simp add: unat_eq_zero)
qed

lemma page_of_page: "(a AND NOT PAGESIZE_MASK) AND PAGESIZE_MASK = 0" for a :: u64
  by (auto intro!: bit_word_eqI simp: bit_simps)

text \<open>The byte \<open>k\<close> behind an address, by the page it is in.\<close>

lemma byte_page:
  fixes gp :: u64
  defines "off \<equiv> unat (gp AND PAGESIZE_MASK)"
  shows "gp + of_nat k = (gp AND NOT PAGESIZE_MASK) + of_nat ((off + k) div 4096 * 4096) + of_nat ((off + k) mod 4096)"
    and "(gp + of_nat k) AND NOT PAGESIZE_MASK = (gp AND NOT PAGESIZE_MASK) + of_nat ((off + k) div 4096 * 4096)"
proof -
  have "of_nat ((off + k) div 4096 * 4096) + of_nat ((off + k) mod 4096) = (of_nat (off + k) :: u64)"
    by (simp only: of_nat_add [symmetric] div_mult_mod_eq)
  then have "(gp AND NOT PAGESIZE_MASK) + of_nat ((off + k) div 4096 * 4096) + of_nat ((off + k) mod 4096)
      = (gp AND NOT PAGESIZE_MASK) + of_nat (off + k)" by (simp add: add.assoc)
  also have "\<dots> = (gp AND NOT PAGESIZE_MASK) + (gp AND PAGESIZE_MASK) + of_nat k" by (simp add: off_def)
  also have "\<dots> = gp + of_nat k" using page_split [of gp] by simp
  finally show eq: "gp + of_nat k = (gp AND NOT PAGESIZE_MASK) + of_nat ((off + k) div 4096 * 4096) + of_nat ((off + k) mod 4096)" ..
  show "(gp + of_nat k) AND NOT PAGESIZE_MASK = (gp AND NOT PAGESIZE_MASK) + of_nat ((off + k) div 4096 * 4096)"
    unfolding eq by (rule page_add(1) [OF page_multiple [OF page_of_page]]) simp
qed

lemma in_vmm_page:
  assumes "gmm_ok m" shows "phys_in_vmm m a = phys_in_vmm m (a AND NOT PAGESIZE_MASK)"
proof (rule phys_in_vmm_block [OF assms, of 12])
  show "unat a div 2 ^ 12 = unat (a AND NOT PAGESIZE_MASK) div 2 ^ 12"
    unfolding page_masks unat_and_not_mask by simp
qed simp

lemma same_page_in_vmm:
  assumes "gmm_ok m" and "unat (a AND PAGESIZE_MASK) + i < 4096"
  shows "phys_in_vmm m (a + of_nat i) = phys_in_vmm m a"
  using byte_page(2) [of a i] assms in_vmm_page [OF assms(1), of "a + of_nat i"] in_vmm_page [OF assms(1), of a]
  by simp

section \<open>A mapping for writing stays out of the VMM\<close>

definition writable :: "'d guest_env \<Rightarrow> u64 \<Rightarrow> bool" where
  "writable e a = (\<not> phys_in_vmm (env_gmm e) a)"

lemma gp2hp_writable: "writable e a \<Longrightarrow> gmm_pass_gp2hp (env_gmm e) a = (a, False)"
  by (simp add: gmm_pass_gp2hp_def writable_def)

lemma gp2hp_rom: "snd (gmm_pass_gp2hp (env_gmm e) a) \<longleftrightarrow> \<not> writable e a"
  by (simp add: gmm_pass_gp2hp_def writable_def)

lemma mapped_pages_writable:
  "mapped_pages e True n p1 hp1 \<Longrightarrow> 0 < i \<Longrightarrow> i \<le> n \<Longrightarrow> writable e (p1 + of_nat (i * 4096))"
proof (induction n arbitrary: p1 hp1 i)
  case (Suc n)
  obtain hp rom where gp: "gmm_pass_gp2hp (env_gmm e) (p1 + 4096) = (hp, rom)" by (cases "gmm_pass_gp2hp (env_gmm e) (p1 + 4096)")
  have st: "\<not> rom" "mapped_pages e True n (p1 + 4096) (hp1 + 4096)" using Suc.prems(1) gp by (auto simp: Let_def)
  show ?case
  proof (cases "i = 1")
    case True
    then show ?thesis using gp st(1) gp2hp_rom [of e "p1 + 4096"] by simp
  next
    case False
    then obtain j where j: "i = Suc j" "0 < j" "j \<le> n" using Suc.prems(2,3) by (cases i) auto
    have "writable e (p1 + 4096 + of_nat (j * 4096))" by (rule Suc.IH [OF st(2) j(2,3)])
    then show ?thesis by (simp add: j(1) algebra_simps)
  qed
qed simp

lemma mapmem_write:
  assumes gm: "gmm_ok (env_gmm e)" and mp: "mapmem_gphys e True gp len = Some mp" and k: "k < unat len"
  shows "mp k = gp + of_nat k" and "writable e (gp + of_nat k)"
proof -
  let ?off = "unat (gp AND PAGESIZE_MASK)" and ?p = "gp AND NOT PAGESIZE_MASK"
  let ?i = "(?off + k) div 4096" and ?n = "(?off + unat len - 1) div 4096"
  have le: "?i \<le> ?n" using k by (intro div_le_mono) simp
  have wr: "writable e (gp + of_nat k) \<longleftrightarrow> writable e (?p + of_nat (?i * 4096))"
    using in_vmm_page [OF gm, of "gp + of_nat k"] byte_page(2) [of gp k] by (simp add: writable_def)
  have "mp k = gp + of_nat k \<and> writable e (gp + of_nat k)"
  proof (cases "mapped_gphys_addr e True gp len")
    case None
    then have d: "mapmem_domap e True gp len = Some mp" using mp by (simp add: mapmem_gphys_def)
    have "?off + k < ?off + unat len" using k by simp
    then have "?i < (?off + unat len + 4095) div 4096" by (simp add: div_less_iff_less_mult)
    then have w: "writable e (?p + of_nat (?i * 4096))"
      using d by (auto simp: mapmem_domap_def Let_def list_ex_iff gp2hp_rom split: if_splits)
    have "mp k = ((?p + of_nat (?i * 4096)) AND NOT PAGESIZE_MASK) + of_nat ((?off + k) mod 4096)"
      using d gp2hp_writable [OF w] by (auto simp: mapmem_domap_def Let_def split: if_splits)
    then have "mp k = gp + of_nat k" using byte_page(1) [of gp k] page_add(1) [OF page_multiple [OF page_of_page], of 0 gp ?i] by simp
    then show ?thesis using w wr by simp
  next
    case (Some a)
    have mpk: "mp k = a + of_nat k" using mp Some by (auto simp: mapmem_gphys_def)
    have g0: "writable e gp"
    proof (rule ccontr)
      assume "\<not> writable e gp"
      then have "snd (gmm_pass_gp2hp (env_gmm e) gp)" by (simp add: gp2hp_rom)
      then show False using Some by (simp add: mapped_gphys_addr_def split: prod.splits if_splits)
    qed
    have a: "a = gp" using Some gp2hp_writable [OF g0] by (auto simp: mapped_gphys_addr_def mapped_hphys_addr_def Let_def split: if_splits)
    let ?p2 = "(gp + ucast len - 1) AND NOT PAGESIZE_MASK"
    have pages: "mapped_pages e True (unat (drop_bit 12 (?p2 - ?p))) ?p ?p"
      using Some gp2hp_writable [OF g0] by (auto simp: mapped_gphys_addr_def Let_def split: if_splits)
    have len: "0 < unat len" using k by simp
    have "unat len < 2 ^ 64" by (rule less_trans [OF unat_lt_32]) simp
    then have "ucast len = (of_nat (unat len) :: u64)"
      by (intro unat_eqI) (simp add: unat_ucast_32_64 unat_of_nat64 del: of_nat_unat)
    then have "gp + ucast len - 1 = gp + of_nat (unat len - 1)" using len by (simp only: of_nat_diff) simp
    then have "?p2 - ?p = of_nat (?n * 4096)" using byte_page(2) [of gp "unat len - 1"] len by (simp add: add_diff_eq)
    moreover have "unat (of_nat (?n * 4096) :: u64) = ?n * 4096"
    proof (rule unat_of_nat64)
      have "?n * 4096 \<le> ?off + unat len - 1" by simp
      also have "\<dots> < 4096 + 4294967296" using page_offset_lt [of gp] unat_lt_32 [of len] by linarith
      finally show "?n * 4096 < 2 ^ 64" by simp
    qed
    ultimately have cnt: "unat (drop_bit 12 (?p2 - ?p)) = ?n" by (simp add: unat_drop_bit del: of_nat_mult)
    have "writable e (?p + of_nat (?i * 4096))"
    proof (cases "?i = 0")
      case True
      then show ?thesis using g0 in_vmm_page [OF gm, of gp] by (simp add: writable_def)
    next
      case False
      then show ?thesis using mapped_pages_writable [OF pages [unfolded cnt], of ?i] le by simp
    qed
    then show ?thesis using mpk a wr by simp
  qed
  then show "mp k = gp + of_nat k" "writable e (gp + of_nat k)" by simp_all
qed

lemma copy_to_other: "(\<forall>k<length bs. mp k \<noteq> x) \<Longrightarrow> copy_to mp bs mem x = mem x"
proof -
  have "(\<forall>k\<in>set ks. mp k \<noteq> x) \<Longrightarrow> fold (\<lambda>k m. m(mp k := bs ! k)) ks mem x = mem x" for ks mem
    by (induction ks arbitrary: mem) auto
  then show "(\<forall>k<length bs. mp k \<noteq> x) \<Longrightarrow> copy_to mp bs mem x = mem x" by (simp add: copy_to_def)
qed

lemma run_call_safe:
  assumes "gmm_ok (env_gmm e)" and "run_call e wr f c (buf, s) = Some (buf', s')" and "\<not> writable e x"
  shows "ram s' x = ram s x"
proof (cases c)
  case (Handled p gp q len)
  then show ?thesis using assms(2) by (auto simp: Let_def split: prod.splits)
next
  case (Direct gp q len)
  then obtain mp where mp: "mapmem_gphys e wr gp len = Some mp" using assms(2) by (auto split: option.splits)
  show ?thesis
  proof (cases wr)
    case True
    then have "mapmem_gphys e True gp len = Some mp" using mp by simp
    note M = mapmem_write [OF assms(1) this]
    have "mp k \<noteq> x" if "k < length (part (unat q) (unat len) buf)" for k
      using M [of k] assms(3) that by (auto simp: part_def)
    then show ?thesis using assms(2) Direct mp True by (auto simp: copy_to_other)
  next
    case False
    then show ?thesis using assms(2) Direct mp by auto
  qed
qed

lemma run_calls_safe:
  "gmm_ok (env_gmm e) \<Longrightarrow> run_calls e wr f cs (buf, s) = Some (buf', s') \<Longrightarrow> \<not> writable e x \<Longrightarrow> ram s' x = ram s x"
proof (induction cs arbitrary: buf s)
  case (Cons c cs)
  then obtain buf1 s1 where "run_call e wr f c (buf, s) = Some (buf1, s1)" "run_calls e wr f cs (buf1, s1) = Some (buf', s')"
    by (auto split: option.splits)
  then show ?case using Cons.IH [of buf1 s1] run_call_safe [of e wr f c buf s buf1 s1 x] Cons.prems by simp
qed simp

lemma access_memory_safe:
  assumes "gmm_ok (env_gmm e)" and "access_memory e phys wr buf f s = Some (r, buf', s')" and "\<not> writable e x"
  shows "ram s' x = ram s x"
proof -
  obtain log where "run_calls e wr f log (buf, s) = Some (buf', s')"
    using assms(2) by (auto simp: access_memory_def split: option.splits prod.splits)
  then show ?thesis using run_calls_safe [OF assms(1) _ assms(3)] by blast
qed

section \<open>Writes\<close>

lemma write_mem_other: "(\<And>i. i < length bs \<Longrightarrow> x \<noteq> a + of_nat i) \<Longrightarrow> write_mem a bs mem x = mem x"
proof -
  assume other: "\<And>i. i < length bs \<Longrightarrow> x \<noteq> a + of_nat i"
  have "x = a + of_nat (unat (x - a))" by simp
  then have "\<not> unat (x - a) < length bs" using other by blast
  then show ?thesis by (simp add: write_mem_def)
qed

lemma write_body_safe:
  assumes gm: "gmm_ok (env_gmm e)" and wr: "write_gphys_body e rom_panic gp data attr s = Some s'"
    and page: "unat (gp AND PAGESIZE_MASK) + length data \<le> 4096" and x: "\<not> writable e x"
    and blank: "rom_panic \<or> x AND NOT PAGESIZE_MASK \<noteq> phys_blank (env_gmm e)"
  shows "ram s' x = ram s x"
proof -
  obtain f r buf s1 where acc: "access_memory e gp True data f (locked s) = Some (r, buf, s1)"
    and rest: "if r then s' = unlocked e s1
      else \<exists>hp0 rom. gmm_pass_gp2hp (env_gmm e) gp = (hp0, rom) \<and> \<not> (rom \<and> rom_panic)
        \<and> s' = unlocked e (write_hphys hp0 data s1)"
    using wr by (auto simp: write_gphys_body_def Let_def split: option.splits bool.splits prod.splits if_splits)
  have keep: "ram s1 x = ram s x" using access_memory_safe [OF gm acc x] by simp
  show ?thesis
  proof (cases r)
    case False
    then obtain hp0 rom where gp: "gmm_pass_gp2hp (env_gmm e) gp = (hp0, rom)" "\<not> (rom \<and> rom_panic)"
      and s': "s' = unlocked e (write_hphys hp0 data s1)" using rest by auto
    have "x \<noteq> hp0 + of_nat i" if i: "i < length data" for i
    proof
      assume xi: "x = hp0 + of_nat i"
      show False
      proof (cases rom)
        case True
        then have hp0: "hp0 = phys_blank (env_gmm e)" using gp by (simp add: gmm_pass_gp2hp_def split: if_splits)
        have "hp0 AND PAGESIZE_MASK = 0" "i < 4096" using gm page i unfolding hp0 by (simp_all add: gmm_ok_def)
        then have "x AND NOT PAGESIZE_MASK = hp0" unfolding xi by (rule page_add(1))
        then show False using blank gp(2) True hp0 by simp
      next
        case False
        then have "hp0 = gp" "writable e gp" using gp gp2hp_rom [of e gp] gp2hp_writable [of e gp] by auto
        then show False using same_page_in_vmm [OF gm, of gp i] page i x xi by (simp add: writable_def)
      qed
    qed
    then show ?thesis using keep by (simp add: s' write_hphys_def write_mem_other)
  qed (use rest keep in simp)
qed

lemma write_twice_some:
  "write_twice w a b n data s = Some s' \<longleftrightarrow> (\<exists>s1. w a (take n data) s = Some s1 \<and> w b (drop n data) s1 = Some s')"
  by (auto simp: write_twice_def split: option.splits)

lemma page_room:
  fixes gp :: u64
  shows "unat (gp AND PAGESIZE_MASK) + 1 \<le> 4096"
    and "gp AND 0xFFF \<noteq> 0xFFF \<Longrightarrow> unat (gp AND PAGESIZE_MASK) + 2 \<le> 4096"
    and "\<not> 0xFFD \<le> gp AND 0xFFF \<Longrightarrow> unat (gp AND PAGESIZE_MASK) + 4 \<le> 4096"
    and "\<not> 0xFF9 \<le> gp AND 0xFFF \<Longrightarrow> unat (gp AND PAGESIZE_MASK) + 8 \<le> 4096"
proof -
  have lt: "unat (gp AND 0xFFF) < 4096" using page_offset_lt [of gp] by simp
  show "unat (gp AND PAGESIZE_MASK) + 1 \<le> 4096" using lt by simp
  show "unat (gp AND PAGESIZE_MASK) + 2 \<le> 4096" if "gp AND 0xFFF \<noteq> 0xFFF"
  proof -
    have "unat (gp AND 0xFFF) \<noteq> unat (0xFFF :: u64)" using that by (rule contrapos_nn) (rule unat_eqI)
    then have "unat (gp AND 0xFFF) \<noteq> 4095" by simp
    then show ?thesis using lt by linarith
  qed
  show "\<not> 0xFFD \<le> gp AND 0xFFF \<Longrightarrow> unat (gp AND PAGESIZE_MASK) + 4 \<le> 4096"
    "\<not> 0xFF9 \<le> gp AND 0xFFF \<Longrightarrow> unat (gp AND PAGESIZE_MASK) + 8 \<le> 4096"
    by (simp_all add: word_le_nat_alt)
qed

lemma write_b_safe:
  "gmm_ok (env_gmm e) \<Longrightarrow> write_gphys_b e attr gp data s = Some s' \<Longrightarrow> length data = 1 \<Longrightarrow> \<not> writable e x
    \<Longrightarrow> ram s' x = ram s x"
  using write_body_safe [of e True gp data attr s s' x] page_room(1) by (simp add: write_gphys_b_def)

lemma write_w_safe:
  assumes "gmm_ok (env_gmm e)" "write_gphys_w e attr gp data s = Some s'" "length data = 2" "\<not> writable e x"
  shows "ram s' x = ram s x"
proof (cases "gp AND 0xFFF = 0xFFF")
  case True
  then obtain s1 where "write_gphys_b e attr gp (take 1 data) s = Some s1"
    "write_gphys_b e attr (gp + 1) (drop 1 data) s1 = Some s'"
    using assms(2) by (auto simp: write_gphys_w_def write_twice_some)
  then show ?thesis
    using write_b_safe [of e attr gp "take 1 data" s s1 x] write_b_safe [of e attr "gp + 1" "drop 1 data" s1 s' x] assms
    by simp
next
  case False
  then show ?thesis
    using write_body_safe [of e True gp data attr s s' x] page_room(2) assms by (simp add: write_gphys_w_def)
qed

lemma write_l_safe:
  assumes "gmm_ok (env_gmm e)" "write_gphys_l e attr gp data s = Some s'" "length data = 4" "\<not> writable e x"
    "x AND NOT PAGESIZE_MASK \<noteq> phys_blank (env_gmm e)"
  shows "ram s' x = ram s x"
proof (cases "0xFFD \<le> gp AND 0xFFF")
  case True
  then obtain s1 where s1: "write_gphys_w e attr gp (take 2 data) s = Some s1"
    "write_gphys_w e attr (gp + 2) (drop 2 data) s1 = Some s'"
    using assms(2) by (auto simp: write_gphys_l_def write_twice_some)
  show ?thesis using write_w_safe [OF assms(1) s1(1) _ assms(4)] write_w_safe [OF assms(1) s1(2) _ assms(4)] assms(3) by simp
next
  case False
  then show ?thesis
    using write_body_safe [of e False gp data attr s s' x] page_room(3) assms by (simp add: write_gphys_l_def)
qed

lemma write_q_safe:
  assumes "gmm_ok (env_gmm e)" "write_gphys_q e attr gp data s = Some s'" "length data = 8" "\<not> writable e x"
    "x AND NOT PAGESIZE_MASK \<noteq> phys_blank (env_gmm e)"
  shows "ram s' x = ram s x"
proof (cases "0xFF9 \<le> gp AND 0xFFF")
  case True
  then obtain s1 where s1: "write_gphys_l e attr gp (take 4 data) s = Some s1"
    "write_gphys_l e attr (gp + 4) (drop 4 data) s1 = Some s'"
    using assms(2) by (auto simp: write_gphys_q_def write_twice_some)
  show ?thesis
    using write_l_safe [OF assms(1) s1(1) _ assms(4,5)] write_l_safe [OF assms(1) s1(2) _ assms(4,5)] assms(3) by simp
next
  case False
  then show ?thesis
    using write_body_safe [of e True gp data attr s s' x] page_room(4) assms by (simp add: write_gphys_q_def)
qed

end
