(* ===== verification/Guest_Bytes.thy ===== *)
theory Guest_Bytes
  imports Guest_Writes
begin

text \<open>
  The accesses of \<open>core/gmm_access.c\<close> byte by byte: what a read returns, what a write changes, and
  the compare-and-exchange, away from the devices; and that no write reaches the VMM, with any
  device.
\<close>

section \<open>Accesses away from the devices\<close>

text \<open>
  The bytes of an access inside a page: those of the memory, or, where the page is one of the VMM's,
  the first bytes of the blank page, whatever the offset in the page.
\<close>

definition guest_bytes :: "'d guest_env \<Rightarrow> 'd guest_state \<Rightarrow> u64 \<Rightarrow> nat \<Rightarrow> u8 list" where
  "guest_bytes e s gp n =
     read_mem n (if phys_in_vmm (env_gmm e) gp then phys_blank (env_gmm e) else gp) (ram s)"

text \<open>
  The bytes of an access that may cross a page: each one is the memory's, or, at an address of the
  VMM, one of the first \<open>n\<close> bytes of the blank page.
\<close>

definition seen :: "'d guest_env \<Rightarrow> 'd guest_state \<Rightarrow> nat \<Rightarrow> u64 \<Rightarrow> u8 list \<Rightarrow> bool" where
  "seen e s n gp bs =
     (\<forall>i<length bs. if phys_in_vmm (env_gmm e) (gp + of_nat i)
        then bs ! i \<in> set (read_mem n (phys_blank (env_gmm e)) (ram s)) else bs ! i = ram s (gp + of_nat i))"

lemma seen_append:
  assumes "seen e s n gp as" and "seen e s n (gp + of_nat (length as)) bs"
  shows "seen e s n gp (as @ bs)"
  unfolding seen_def
proof (intro allI impI)
  fix i assume i: "i < length (as @ bs)"
  show "if phys_in_vmm (env_gmm e) (gp + of_nat i)
        then (as @ bs) ! i \<in> set (read_mem n (phys_blank (env_gmm e)) (ram s)) else (as @ bs) ! i = ram s (gp + of_nat i)"
  proof (cases "i < length as")
    case True
    then show ?thesis using assms(1) by (simp add: seen_def nth_append)
  next
    case False
    then have "i - length as < length bs" "gp + of_nat (length as) + of_nat (i - length as) = gp + of_nat i"
      using i by (simp_all add: add.assoc flip: of_nat_add)
    with assms(2) False show ?thesis unfolding seen_def nth_append by metis
  qed
qed

lemma seen_more: "seen e s m gp bs \<Longrightarrow> m \<le> n \<Longrightarrow> seen e s n gp bs"
  unfolding seen_def read_mem_def by (auto split: if_splits intro: order_less_le_trans)

text \<open>No handler waits for its removal, and every attribute is defined.\<close>

definition quiet :: "'d guest_env \<Rightarrow> u32 \<Rightarrow> 'd guest_state \<Rightarrow> bool" where
  "quiet e attr s =
     (gmm_ok (env_gmm e) \<and> mmio_ok (mreg s) \<and> \<not> unregister_flag (mreg s)
      \<and> (\<forall>a. cache_get_attr a attr (env_cache e) \<noteq> None))"

lemma quiet_ram [simp]: "quiet e attr (s\<lparr>ram := mem\<rparr>) = quiet e attr s"
  by (simp add: quiet_def)

definition no_mmio :: "'d guest_state \<Rightarrow> u64 \<Rightarrow> nat \<Rightarrow> bool" where
  "no_mmio s gp n = (unat gp + n < 2 ^ 64 \<and> (\<forall>p. \<not> overlaps (mreg s) p (unat gp) (unat gp + n)))"

lemma no_mmio_split:
  assumes "no_mmio s gp (a + b)" shows "no_mmio s gp a" and "no_mmio s (gp + of_nat a) b"
proof -
  have "unat gp + a < 2 ^ 64" using assms by (simp add: no_mmio_def)
  moreover from this have "unat (of_nat a :: u64) = a" by (intro unat_of_nat64) simp
  ultimately have u: "unat (gp + of_nat a) = unat gp + a" by (simp add: unat_add64)
  have no: "\<not> overlaps (mreg s) p c d" if "unat gp \<le> c" "d \<le> unat gp + (a + b)" for p c d
  proof
    assume "overlaps (mreg s) p c d"
    then have "overlaps (mreg s) p (unat gp) (unat gp + (a + b))" using that unfolding overlaps_def by linarith
    then show False using assms by (simp add: no_mmio_def)
  qed
  show "no_mmio s gp a" using no [of "unat gp" "unat gp + a"] assms by (simp add: no_mmio_def)
  show "no_mmio s (gp + of_nat a) b"
    using no [of "unat gp + a" "unat gp + a + b"] assms unfolding no_mmio_def u by simp
qed

lemma unlock_lock: "\<not> unregister_flag m \<Longrightarrow> mmio_unlock busy (mmio_lock m) = m"
  by (simp add: mmio_unlock_def mmio_lock_def Let_def)

lemma lock_registry: "mmio_ok (mmio_lock m) = mmio_ok m" "overlaps (mmio_lock m) p a b = overlaps m p a b"
  by (simp_all add: mmio_ok_def overlaps_def handlers_def mmio_lock_def)

lemma access_memory_plain:
  assumes "mmio_ok (mreg s)" and "no_mmio s gp (length buf)" and "length buf \<in> {1..8}"
  shows "access_memory e gp wr buf f (locked s) = Some (False, buf, locked s)"
proof -
  have len: "unat (of_nat (length buf) :: u32) = length buf" using assms(3) by (simp add: unat_of_nat take_bit_nat_eq_self)
  have "mmio_access_memory (accepts e) (mmio_lock (mreg s)) gp (of_nat (length buf)) = Some (False, [])"
    by (rule access_memory_misses)
      (use assms len in \<open>auto simp: lock_registry no_mmio_def word_less_nat_alt\<close>)
  then show ?thesis by (simp add: access_memory_def)
qed

lemma read_body_bytes:
  assumes q: "quiet e attr s" and m: "no_mmio s gp n" and n: "n \<in> {1..8}"
  shows "read_gphys_body e n gp attr s = Some (guest_bytes e s gp n, s)"
proof -
  obtain f where f: "cache_get_attr gp attr (env_cache e) = Some f" using q by (auto simp: quiet_def)
  have ok: "mmio_ok (mreg s)" "\<not> unregister_flag (mreg s)" using q by (simp_all add: quiet_def)
  have "read_hphys n (fst (gmm_pass_gp2hp (env_gmm e) gp)) (locked s) = guest_bytes e s gp n"
    by (simp add: read_hphys_def guest_bytes_def gmm_pass_gp2hp_def)
  moreover have "unlocked e (locked s) = s" using unlock_lock [OF ok(2)] by simp
  ultimately show ?thesis
    using access_memory_plain [OF ok(1), of gp "replicate n 0" e False f] m n f by (simp add: read_gphys_body_def)
qed

lemma guest_bytes_length [simp]: "length (guest_bytes e s gp n) = n"
  by (simp add: guest_bytes_def read_mem_def)

lemma guest_bytes_seen:
  assumes gm: "gmm_ok (env_gmm e)" and page: "unat (gp AND PAGESIZE_MASK) + n \<le> 4096"
  shows "seen e s n gp (guest_bytes e s gp n)"
proof -
  have "phys_in_vmm (env_gmm e) (gp + of_nat i) = phys_in_vmm (env_gmm e) gp" if "i < n" for i
    using same_page_in_vmm [OF gm, of gp i] page that by simp
  then show ?thesis by (auto simp: seen_def guest_bytes_def read_mem_def)
qed

text \<open>The reads: what they return inside a page, and what they return anywhere.\<close>

lemma read_inside_bytes:
  assumes "quiet e attr s" "no_mmio s gp n" "unat (gp AND PAGESIZE_MASK) + n \<le> 4096"
    and "(n, rd) \<in> {(1, read_gphys_b), (2, read_gphys_w), (4, read_gphys_l), (8, read_gphys_q)}"
  shows "rd e attr gp s = Some (guest_bytes e s gp n, s)"
  using assms read_body_bytes [OF assms(1,2)]
  by (auto simp: word_le_nat_alt read_gphys_b_def read_gphys_w_def read_gphys_l_def read_gphys_q_def)

definition reads_seen ::
  "'d guest_env \<Rightarrow> nat \<Rightarrow> (u64 \<Rightarrow> 'd guest_state \<Rightarrow> (u8 list \<times> 'd guest_state) option) \<Rightarrow> u64 \<Rightarrow> 'd guest_state \<Rightarrow> bool" where
  "reads_seen e n rd gp s = (\<exists>bs. rd gp s = Some (bs, s) \<and> length bs = n \<and> seen e s n gp bs)"

lemma read_twice_seen:
  assumes "reads_seen e n rd gp s" "reads_seen e n rd (gp + of_nat n) s"
  shows "\<exists>bs. read_twice rd gp (gp + of_nat n) s = Some (bs, s) \<and> length bs = n + n \<and> seen e s (n + n) gp bs"
proof -
  obtain as bs where r: "rd gp s = Some (as, s)" "rd (gp + of_nat n) s = Some (bs, s)"
    and l: "length as = n" "length bs = n" and v: "seen e s n gp as" "seen e s n (gp + of_nat n) bs"
    using assms by (auto simp: reads_seen_def)
  have "seen e s (n + n) gp (as @ bs)"
    by (rule seen_append) (use v l in \<open>auto intro: seen_more\<close>)
  then show ?thesis using r l by (simp add: read_twice_def)
qed

lemma read_in_page:
  assumes "quiet e attr s" "no_mmio s gp n" "unat (gp AND PAGESIZE_MASK) + n \<le> 4096"
    and "(n, rd) \<in> {(1, read_gphys_b), (2, read_gphys_w), (4, read_gphys_l), (8, read_gphys_q)}"
  shows "reads_seen e n (rd e attr) gp s"
  using read_inside_bytes [OF assms] guest_bytes_seen [of e gp n s, OF _ assms(3)] assms(1)
  by (simp add: reads_seen_def quiet_def)

lemma read_b_seen: "quiet e attr s \<Longrightarrow> no_mmio s gp 1 \<Longrightarrow> reads_seen e 1 (read_gphys_b e attr) gp s"
  by (rule read_in_page [OF _ _ page_room(1)]) simp_all

lemma read_w_seen:
  assumes q: "quiet e attr s" and m: "no_mmio s gp 2"
  shows "reads_seen e 2 (read_gphys_w e attr) gp s"
proof (cases "gp AND 0xFFF = 0xFFF")
  case True
  have "no_mmio s gp (1 + 1)" using m by (simp add: numeral_2_eq_2)
  note h = no_mmio_split [OF this]
  from read_twice_seen [OF read_b_seen [OF q h(1)] read_b_seen [OF q h(2)]] True
  show ?thesis by (simp add: reads_seen_def read_gphys_w_def numeral_2_eq_2)
qed (rule read_in_page [OF q m page_room(2)], simp_all)

lemma read_l_seen:
  assumes q: "quiet e attr s" and m: "no_mmio s gp 4"
  shows "reads_seen e 4 (read_gphys_l e attr) gp s"
proof (cases "0xFFD \<le> gp AND 0xFFF")
  case True
  have "no_mmio s gp (2 + 2)" using m by simp
  note h = no_mmio_split [OF this]
  from read_twice_seen [OF read_w_seen [OF q h(1)] read_w_seen [OF q h(2)]] True
  show ?thesis by (simp add: reads_seen_def read_gphys_l_def)
qed (rule read_in_page [OF q m page_room(3)], simp_all)

lemma read_q_seen:
  assumes q: "quiet e attr s" and m: "no_mmio s gp 8"
  shows "reads_seen e 8 (read_gphys_q e attr) gp s"
proof (cases "0xFF9 \<le> gp AND 0xFFF")
  case True
  have "no_mmio s gp (4 + 4)" using m by simp
  note h = no_mmio_split [OF this]
  from read_twice_seen [OF read_l_seen [OF q h(1)] read_l_seen [OF q h(2)]] True
  show ?thesis by (simp add: reads_seen_def read_gphys_q_def)
qed (rule read_in_page [OF q m page_room(4)], simp_all)

lemma read_seen:
  assumes "quiet e attr s" "no_mmio s gp n"
    and "(n, rd) \<in> {(1, read_gphys_b), (2, read_gphys_w), (4, read_gphys_l), (8, read_gphys_q)}"
  shows "reads_seen e n (rd e attr) gp s"
  using assms(3) read_b_seen [OF assms(1)] read_w_seen [OF assms(1)] read_l_seen [OF assms(1)]
    read_q_seen [OF assms(1)] assms(2) by (elim insertE emptyE) simp_all

lemma write_mem_at: "i < length bs \<Longrightarrow> length bs < 2 ^ 64 \<Longrightarrow> write_mem a bs mem (a + of_nat i) = bs ! i"
  by (simp add: write_mem_def unat_of_nat64)

text \<open>A part in front and the rest behind it.\<close>

lemma write_mem_append:
  assumes "length (bs @ cs) < 2 ^ 64"
  shows "write_mem (a + of_nat (length bs)) cs (write_mem a bs mem) = write_mem a (bs @ cs) mem" (is "?l = ?r")
proof
  fix x
  define i where "i = unat (x - a)"
  have x: "x = a + of_nat i" by (simp add: i_def)
  show "?l x = ?r x"
  proof (cases "i < length bs")
    case True
    have "x \<noteq> a + of_nat (length bs) + of_nat j" if "j < length cs" for j
    proof
      assume "x = a + of_nat (length bs) + of_nat j"
      then have "(of_nat i :: u64) = of_nat (length bs + j)" unfolding x by simp
      then have "unat (of_nat i :: u64) = unat (of_nat (length bs + j) :: u64)" by simp
      then show False using True that assms by (simp only: unat_of_nat64 length_append)
    qed
    then have "?l x = write_mem a bs mem x" by (rule write_mem_other)
    then show ?thesis using True by (simp add: write_mem_def i_def [symmetric] nth_append)
  next
    case ge: False
    show ?thesis
    proof (cases "i < length bs + length cs")
      case True
      define j where "j = i - length bs"
      have xj: "x = (a + of_nat (length bs)) + of_nat j" using ge by (simp add: x j_def)
      have "?l x = cs ! j" unfolding xj by (rule write_mem_at) (use True ge assms in \<open>auto simp: j_def\<close>)
      moreover have "?r x = cs ! j" using True ge by (simp add: write_mem_def i_def [symmetric] nth_append j_def)
      ultimately show ?thesis by simp
    next
      case False
      have "x \<noteq> a + of_nat (length bs) + of_nat j" if "j < length cs" for j
      proof
        assume "x = a + of_nat (length bs) + of_nat j"
        then have "(of_nat i :: u64) = of_nat (length bs + j)" unfolding x by simp
        then have "unat (of_nat i :: u64) = unat (of_nat (length bs + j) :: u64)" by simp
        moreover have "i < 2 ^ 64" using unsigned_less [of "x - a"] by (simp add: i_def)
        ultimately show False using False that assms by (simp only: unat_of_nat64 length_append)
      qed
      then have "?l x = write_mem a bs mem x" by (rule write_mem_other)
      then show ?thesis using ge False by (simp add: write_mem_def i_def [symmetric])
    qed
  qed
qed

definition all_writable :: "'d guest_env \<Rightarrow> u64 \<Rightarrow> nat \<Rightarrow> bool" where
  "all_writable e gp n = (\<forall>i<n. writable e (gp + of_nat i))"

lemma all_writable_split:
  assumes "all_writable e gp (a + b)"
  shows "all_writable e gp a" and "all_writable e (gp + of_nat a) b"
proof -
  have "writable e (gp + of_nat a + of_nat i)" if "i < b" for i
    using assms that unfolding all_writable_def by (metis add.assoc nat_add_left_cancel_less of_nat_add)
  then show "all_writable e gp a" "all_writable e (gp + of_nat a) b"
    using assms by (simp_all add: all_writable_def)
qed

abbreviation stored :: "u64 \<Rightarrow> u8 list \<Rightarrow> 'd guest_state \<Rightarrow> 'd guest_state" where
  "stored gp data s \<equiv> s\<lparr>ram := write_mem gp data (ram s)\<rparr>"

lemma write_body_bytes:
  assumes q: "quiet e attr s" and m: "no_mmio s gp (length data)" and n: "length data \<in> {1..8}"
    and w: "all_writable e gp (length data)"
  shows "write_gphys_body e rom_panic gp data attr s = Some (stored gp data s)"
proof -
  obtain f where f: "cache_get_attr gp attr (env_cache e) = Some f" using q by (auto simp: quiet_def)
  have ok: "mmio_ok (mreg s)" "\<not> unregister_flag (mreg s)" using q by (simp_all add: quiet_def)
  have "writable e (gp + of_nat 0)" using w n unfolding all_writable_def by (metis atLeastAtMost_iff less_le_trans zero_less_one)
  then have "gmm_pass_gp2hp (env_gmm e) gp = (gp, False)" using gp2hp_writable by simp
  then show ?thesis
    using access_memory_plain [OF ok(1) m n, of e True f] f unlock_lock [OF ok(2)]
    by (simp add: write_gphys_body_def write_hphys_def)
qed

text \<open>Both halves of an access that crosses a page.\<close>

lemma write_twice_bytes:
  assumes wr: "\<And>gp data s. quiet e attr s \<Longrightarrow> no_mmio s gp (length data) \<Longrightarrow> length data = n
      \<Longrightarrow> all_writable e gp (length data) \<Longrightarrow> wr gp data s = Some (stored gp data s)"
    and q: "quiet e attr s" and m: "no_mmio s gp (length data)" and w: "all_writable e gp (length data)"
    and len: "length data = n + n" "n \<le> 4"
  shows "write_twice wr gp (gp + of_nat n) n data s = Some (stored gp data s)"
proof -
  let ?a = "take n data" and ?b = "drop n data"
  have l: "length ?a = n" "length ?b = n" using len by simp_all
  note ws = all_writable_split [OF w [unfolded len]] and ms = no_mmio_split [OF m [unfolded len]]
  have 1: "wr gp ?a s = Some (stored gp ?a s)" by (rule wr) (simp_all only: l q ms(1) ws(1))
  have "wr (gp + of_nat n) ?b (stored gp ?a s) = Some (stored (gp + of_nat n) ?b (stored gp ?a s))"
  proof (rule wr)
    show "quiet e attr (stored gp ?a s)" using q by simp
    show "no_mmio (stored gp ?a s) (gp + of_nat n) (length ?b)" using ms(2) l by (simp add: no_mmio_def)
  qed (simp_all only: l ws(2))
  moreover have "stored (gp + of_nat n) ?b (stored gp ?a s) = stored gp data s"
    using write_mem_append [of ?a ?b gp "ram s"] len by simp
  ultimately show ?thesis using 1 by (simp add: write_twice_def)
qed

lemma write_b_bytes:
  "quiet e attr s \<Longrightarrow> no_mmio s gp (length data) \<Longrightarrow> length data = 1 \<Longrightarrow> all_writable e gp (length data)
    \<Longrightarrow> write_gphys_b e attr gp data s = Some (stored gp data s)"
  unfolding write_gphys_b_def by (rule write_body_bytes) simp_all

lemma write_w_bytes:
  assumes "quiet e attr s" "no_mmio s gp (length data)" "length data = 2" "all_writable e gp (length data)"
  shows "write_gphys_w e attr gp data s = Some (stored gp data s)"
proof (cases "gp AND 0xFFF = 0xFFF")
  case True
  have "write_twice (write_gphys_b e attr) gp (gp + of_nat 1) 1 data s = Some (stored gp data s)"
    by (rule write_twice_bytes [OF write_b_bytes assms(1,2,4)]) (use assms(3) in simp_all)
  then show ?thesis using True by (simp add: write_gphys_w_def)
qed (use write_body_bytes [OF assms(1,2) _ assms(4)] assms(3) in \<open>simp add: write_gphys_w_def\<close>)

lemma write_l_bytes:
  assumes "quiet e attr s" "no_mmio s gp (length data)" "length data = 4" "all_writable e gp (length data)"
  shows "write_gphys_l e attr gp data s = Some (stored gp data s)"
proof (cases "0xFFD \<le> gp AND 0xFFF")
  case True
  have "write_twice (write_gphys_w e attr) gp (gp + of_nat 2) 2 data s = Some (stored gp data s)"
    by (rule write_twice_bytes [OF write_w_bytes assms(1,2,4)]) (use assms(3) in simp_all)
  then show ?thesis using True by (simp add: write_gphys_l_def)
qed (use write_body_bytes [OF assms(1,2) _ assms(4)] assms(3) in \<open>simp add: write_gphys_l_def\<close>)

lemma write_q_bytes:
  assumes "quiet e attr s" "no_mmio s gp (length data)" "length data = 8" "all_writable e gp (length data)"
  shows "write_gphys_q e attr gp data s = Some (stored gp data s)"
proof (cases "0xFF9 \<le> gp AND 0xFFF")
  case True
  have "write_twice (write_gphys_l e attr) gp (gp + of_nat 4) 4 data s = Some (stored gp data s)"
    by (rule write_twice_bytes [OF write_l_bytes assms(1,2,4)]) (use assms(3) in simp_all)
  then show ?thesis using True by (simp add: write_gphys_q_def)
qed (use write_body_bytes [OF assms(1,2) _ assms(4)] assms(3) in \<open>simp add: write_gphys_q_def\<close>)

lemma stored_seen:
  assumes "all_writable e gp (length data)" "length data < 2 ^ 64" "length bs = length data"
    and "seen e (stored gp data s) n gp bs"
  shows "bs = data"
  by (rule nth_equalityI)
    (use assms in \<open>auto simp: seen_def all_writable_def writable_def write_mem_at\<close>)

section \<open>The accesses\<close>

text \<open>
  A write by guest-physical address never changes a byte of the VMM's memory, whatever the MMIO
  registry and its handlers do: it goes to a device, changes memory of the guest, or stops in a
  panic.  The writes of 32 and 64 bits can change the blank page the guest sees there, and nothing
  else.
\<close>

theorem guest_write_safe:
  assumes "gmm_ok (env_gmm e)" and "phys_in_vmm (env_gmm e) x"
    and "(n, wr) \<in> {(1, write_gphys_b), (2, write_gphys_w)}
      \<or> (n, wr) \<in> {(4, write_gphys_l), (8, write_gphys_q)} \<and> x AND NOT PAGESIZE_MASK \<noteq> phys_blank (env_gmm e)"
    and "length data = n" and "wr e attr gp data s = Some s'"
  shows "ram s' x = ram s x"
proof -
  have "\<not> writable e x" using assms(2) by (simp add: writable_def)
  then show ?thesis
    using assms write_b_safe write_w_safe write_l_safe write_q_safe by auto
qed

text \<open>
  C38: Away from the devices a read by guest-physical address, of every size and also across a page
  boundary, never fails, changes nothing, and returns at each address outside the VMM the memory's
  byte; at an address of the VMM it returns a byte of the blank page, one of its first \<open>n\<close>, and
  never one of the VMM's other pages.  Inside a page of the VMM the bytes are the first \<open>n\<close> of the
  blank page.  What the blank page holds is not promised: \<open>write_gphys_l\<close> can change it.
\<close>

theorem guest_read_bytes:
  assumes "quiet e attr s" and "no_mmio s gp n"
    and "(n, rd) \<in> {(1, read_gphys_b), (2, read_gphys_w), (4, read_gphys_l), (8, read_gphys_q)}"
  shows "\<exists>bs. rd e attr gp s = Some (bs, s) \<and> length bs = n
    \<and> (\<forall>i<n. if phys_in_vmm (env_gmm e) (gp + of_nat i)
         then \<exists>j<n. bs ! i = ram s (phys_blank (env_gmm e) + of_nat j) else bs ! i = ram s (gp + of_nat i))
    \<and> (phys_in_vmm (env_gmm e) gp \<and> unat (gp AND PAGESIZE_MASK) + n \<le> 4096
       \<longrightarrow> bs = read_mem n (phys_blank (env_gmm e)) (ram s))"
proof -
  obtain bs where bs: "rd e attr gp s = Some (bs, s)" "length bs = n" "seen e s n gp bs"
    using read_seen [OF assms] by (auto simp: reads_seen_def)
  have "bs = read_mem n (phys_blank (env_gmm e)) (ram s)"
    if "phys_in_vmm (env_gmm e) gp" "unat (gp AND PAGESIZE_MASK) + n \<le> 4096"
    using read_inside_bytes [OF assms(1,2) that(2) assms(3)] bs(1) that(1) by (simp add: guest_bytes_def)
  moreover have "if phys_in_vmm (env_gmm e) (gp + of_nat i)
         then \<exists>j<n. bs ! i = ram s (phys_blank (env_gmm e) + of_nat j) else bs ! i = ram s (gp + of_nat i)"
    if "i < n" for i
  proof -
    have "set (read_mem n b mem) = {mem (b + of_nat j) | j. j < n}" for b mem
      by (auto simp: read_mem_def)
    then show ?thesis using bs(2,3) that by (auto simp: seen_def split: if_splits)
  qed
  ultimately show ?thesis using bs(1,2) by blast
qed

text \<open>
  C39: A write by guest-physical address to memory of the guest, away from the devices, never fails,
  changes nothing but the bytes written, and the read of the same size that follows returns them.
\<close>

theorem guest_write_read:
  assumes "quiet e attr s" and "no_mmio s gp n" and "all_writable e gp n" and "length data = n"
    and "(n, wr, rd) \<in> {(1, write_gphys_b, read_gphys_b), (2, write_gphys_w, read_gphys_w),
      (4, write_gphys_l, read_gphys_l), (8, write_gphys_q, read_gphys_q)}"
  shows "\<exists>s'. wr e attr gp data s = Some s' \<and> rd e attr gp s' = Some (data, s')
    \<and> s' = s\<lparr>ram := ram s'\<rparr> \<and> (\<forall>x. (\<forall>i<n. x \<noteq> gp + of_nat i) \<longrightarrow> ram s' x = ram s x)"
proof -
  let ?s = "stored gp data s"
  have len: "length data < 2 ^ 64" using assms(4,5) by auto
  have q: "quiet e attr ?s" using assms(1) by simp
  have m: "no_mmio ?s gp n" using assms(2) by (simp add: no_mmio_def)
  have "(n, rd) \<in> {(1, read_gphys_b), (2, read_gphys_w), (4, read_gphys_l), (8, read_gphys_q)}"
    using assms(5) by auto
  then obtain bs where "rd e attr gp ?s = Some (bs, ?s)" "length bs = n" "seen e ?s n gp bs"
    using read_seen [OF q m] by (auto simp: reads_seen_def)
  moreover from this have "bs = data" using stored_seen [of e gp data bs s n] assms(3,4) len by simp
  ultimately have "rd e attr gp ?s = Some (data, ?s)" by simp
  moreover have "wr e attr gp data s = Some ?s"
    using assms(2-5) write_b_bytes [OF assms(1)] write_w_bytes [OF assms(1)] write_l_bytes [OF assms(1)]
      write_q_bytes [OF assms(1)] by (elim insertE emptyE) simp_all
  moreover have "ram ?s x = ram s x" if "\<forall>i<n. x \<noteq> gp + of_nat i" for x
    using write_mem_other [of data x gp "ram s"] that assms(4) by simp
  ultimately show ?thesis by (intro exI [of _ ?s]) simp
qed

text \<open>
  \<open>write_gphys_l\<close> only reports a write to the VMM's memory, and stores the data in the blank page,
  which stands for all the pages of the VMM.
\<close>

lemma guest_write_l_blank:
  assumes "quiet e attr s" "no_mmio s gp 4" "length data = 4"
    and "phys_in_vmm (env_gmm e) gp" "\<not> 0xFFD \<le> gp AND 0xFFF"
  shows "write_gphys_l e attr gp data s = Some (stored (phys_blank (env_gmm e)) data s)"
proof -
  obtain f where f: "cache_get_attr gp attr (env_cache e) = Some f" using assms(1) by (auto simp: quiet_def)
  have ok: "mmio_ok (mreg s)" "\<not> unregister_flag (mreg s)" using assms(1) by (simp_all add: quiet_def)
  show ?thesis
    using access_memory_plain [OF ok(1), of gp data e True f] assms f unlock_lock [OF ok(2)]
    by (simp add: write_gphys_l_def write_gphys_body_def write_hphys_def gmm_pass_gp2hp_def)
qed

text \<open>The compare-and-exchange of 4 or 8 bytes inside a page.\<close>

lemma guest_cmpxchg:
  assumes q: "quiet e attr s" and m: "no_mmio s gp (length old)" and len: "length old \<in> {4, 8}" "length new = length old"
    and page: "\<not> (if length old = 4 then 0xFFD else 0xFF9) \<le> gp AND 0xFFF"
  shows "cmpxchg_gphys e attr gp old new s =
    (if phys_in_vmm (env_gmm e) gp then None
     else if guest_bytes e s gp (length old) = old then Some (False, old, stored gp new s)
     else Some (True, guest_bytes e s gp (length old), s))"
proof -
  obtain f where f: "cache_get_attr gp attr (env_cache e) = Some f" using q by (auto simp: quiet_def)
  have ok: "mmio_ok (mreg s)" "\<not> unregister_flag (mreg s)" using q by (simp_all add: quiet_def)
  have acc: "access_memory e gp False old f (locked s) = Some (False, old, locked s)"
    by (rule access_memory_plain [OF ok(1) m]) (use len in auto)
  have "read_mem (length old) gp (ram s) = guest_bytes e s gp (length old)" if "\<not> phys_in_vmm (env_gmm e) gp"
    using that by (simp add: guest_bytes_def)
  then show ?thesis
    using acc f page unlock_lock [OF ok(2)] unfolding cmpxchg_gphys_def
    by (auto simp: gmm_pass_gp2hp_def cmpxchg_hphys_def read_hphys_def write_hphys_def)
qed

section \<open>An example\<close>

text \<open>The VMM at 1GB with the blank page behind its first megabyte, one device, empty memory.\<close>

definition sample_env :: "unit guest_env" where
  "sample_env = \<lparr>accepts = (\<lambda>_ _ _. True), handler = (\<lambda>_ _ _ _ buf d. (buf, d)), lock_busy = False,
     env_gmm = \<lparr>vmm_start_phys = 0x40000000, phys_blank = 0x40100000, uefi_mmio_space = None\<rparr>,
     env_cache = new_guest True, hphys_len = 0x100000000, env_addr_mask = 0xFFFFFFF000\<rparr>"

definition sample_guest :: "unit guest_state" where
  "sample_guest = \<lparr>ram = (\<lambda>_. 0), mreg = sample_registry, dev = ()\<rparr>"

lemma sample_in_vmm: "phys_in_vmm (env_gmm sample_env) a \<longleftrightarrow> 0x40000000 \<le> a \<and> a < 0x48000000"
  by (simp add: phys_in_vmm_def sample_env_def VMMSIZE_ALL_def)

lemma sample_no_mmio: "unat gp + n \<le> 0xFEC00000 \<Longrightarrow> no_mmio sample_guest gp n"
  by (auto simp: no_mmio_def sample_guest_def sample_overlaps)

lemma sample_writable: "unat gp + n \<le> 0x40000000 \<Longrightarrow> all_writable sample_env gp n"
proof -
  assume "unat gp + n \<le> 0x40000000"
  then have "unat (gp + of_nat i) < 0x40000000" if "i < n" for i
    using that by (simp add: unat_add64 unat_of_nat64)
  then show ?thesis by (force simp: all_writable_def writable_def sample_in_vmm word_le_nat_alt)
qed

lemma sample_quiet: "quiet sample_env attr sample_guest"
proof -
  have gm: "gmm_ok (env_gmm sample_env)" by (simp add: gmm_ok_def sample_env_def)
  have "cache_get_attr a attr (new_guest True) \<noteq> None" for a
    using get_type_supported [OF new_guest_ok [of True]] new_guest_cap(1) [of True] by (auto simp: cache_get_attr_def)
  moreover have "\<not> unregister_flag sample_registry"
    unfolding register_shape(3) [OF sample_register sample_range] by (simp add: empty_registry_def)
  ultimately show ?thesis
    unfolding quiet_def using gm
    by (simp add: sample_guest_def sample_registry_ok) (simp add: sample_env_def)
qed

text \<open>Eight bytes at the end of the VMM's memory: four of the blank page, four of the guest's.\<close>

lemma guest_read_bytes_witness:
  "\<exists>bs. read_gphys_q sample_env 0x10 0x47FFFFFC (sample_guest\<lparr>ram := \<lambda>a. if a < 0x48000000 then 1 else 2\<rparr>)
     = Some (bs, sample_guest\<lparr>ram := \<lambda>a. if a < 0x48000000 then 1 else 2\<rparr>)
     \<and> length bs = 8 \<and> bs ! 0 = 1 \<and> bs ! 4 = 2 \<and> bs ! 7 = 2"
proof -
  let ?s = "sample_guest\<lparr>ram := \<lambda>a. if a < 0x48000000 then 1 else 2\<rparr>"
  have b: "phys_blank (env_gmm sample_env) = 0x40100000" by (simp add: sample_env_def)
  have q: "quiet sample_env 0x10 ?s" using sample_quiet by simp
  have m: "no_mmio ?s 0x47FFFFFC 8" using sample_no_mmio [of "0x47FFFFFC" 8] by (simp add: no_mmio_def)
  obtain bs where bs: "read_gphys_q sample_env 0x10 0x47FFFFFC ?s = Some (bs, ?s)" "length bs = 8"
    and v: "\<And>i. i < 8 \<Longrightarrow> if phys_in_vmm (env_gmm sample_env) (0x47FFFFFC + of_nat i)
         then \<exists>j<8. bs ! i = ram ?s (0x40100000 + of_nat j) else bs ! i = ram ?s (0x47FFFFFC + of_nat i)"
    using guest_read_bytes [OF q m, where rd = read_gphys_q] unfolding b by auto
  have "ram ?s (0x40100000 + of_nat j) = 1" if "j < 8" for j
    using that by (simp add: word_less_nat_alt unat_add64 unat_of_nat64)
  then have "bs ! 0 = 1" using v [of 0] by (auto simp: sample_in_vmm)
  moreover have "bs ! 4 = 2" "bs ! 7 = 2" using v [of 4] v [of 7] by (simp_all add: sample_in_vmm)
  ultimately show ?thesis using bs by blast
qed

lemma guest_write_read_witness:
  "\<exists>s'. write_gphys_l sample_env 0x10 0x1FFE [1, 2, 3, 4] sample_guest = Some s'
     \<and> read_gphys_l sample_env 0x10 0x1FFE s' = Some ([1, 2, 3, 4], s')"
proof -
  have "all_writable sample_env 0x1FFE 4" by (rule sample_writable) simp
  then show ?thesis
    using guest_write_read [OF sample_quiet sample_no_mmio, where gp = "0x1FFE" and n = 4
        and data = "[1, 2, 3, 4]" and wr = write_gphys_l and rd = read_gphys_l] by auto
qed

lemma guest_write_safe_witness:
  "\<exists>s'. write_gphys_l sample_env 0x10 0x40000000 [1, 2, 3, 4] sample_guest = Some s' \<and> ram s' 0x40000000 = 0"
proof -
  have v: "phys_in_vmm (env_gmm sample_env) 0x40000000" by (simp add: sample_in_vmm)
  have b: "phys_blank (env_gmm sample_env) = 0x40100000" by (simp add: sample_env_def)
  have gm: "gmm_ok (env_gmm sample_env)" using sample_quiet by (simp add: quiet_def)
  have w: "write_gphys_l sample_env 0x10 0x40000000 [1, 2, 3, 4] sample_guest
      = Some (stored 0x40100000 [1, 2, 3, 4] sample_guest)"
    using guest_write_l_blank [OF sample_quiet sample_no_mmio _ v, where data = "[1, 2, 3, 4]"] by (simp add: b)
  have "ram (stored 0x40100000 [1, 2, 3, 4] sample_guest) 0x40000000 = ram sample_guest 0x40000000"
    using guest_write_safe [where n = 4 and wr = write_gphys_l and data = "[1, 2, 3, 4]", OF gm v _ _ w] by (simp add: b)
  then show ?thesis using w by (simp add: sample_guest_def)
qed

end
