(* ===== verification/Guest_Tables.thy ===== *)
theory Guest_Tables
  imports Guest_Mmu Guest_Bytes
begin

text \<open>
  What the walk of \<open>core/cpu_mmu.c\<close> rests on: the walk as a function of a memory of entries, the table of
  reserved bits, entries as bytes of the guest's memory, and the bits that the changes of an entry
  leave alone.
\<close>

section \<open>The walk over a memory of entries\<close>

definition beyond :: "nat \<Rightarrow> u64" where "beyond n = mask 52 AND NOT (mask n)"

text \<open>
  What a processor reserves in the entry of level \<open>k + 1\<close> for addresses of \<open>n\<close> bits: the address
  bits from \<open>n\<close> on, \<open>NX\<close> unless it is enabled, and what the level does not have.  In long mode bit 8
  of an entry of level 4, and of an entry of level 3 that refers to a table, is reserved on AMD's
  processors (\<open>amd\<close>) and ignored on Intel's.  The processor has pages of 1GB.
\<close>

definition arch_reserved :: "bool \<Rightarrow> nat \<Rightarrow> bool \<Rightarrow> nat \<Rightarrow> nat \<Rightarrow> u64 \<Rightarrow> bool" where
  "arch_reserved amd n nxe levels k v =
     (v AND beyond n \<noteq> 0
      \<or> (\<not> nxe \<and> v AND PDE_NX_BIT \<noteq> 0)
      \<or> (if levels = 4 then
           (if k = 3 then v AND (if amd then 0x180 else 0x80) \<noteq> 0
            else if k = 2 then v AND (if v AND PDE_PS_BIT \<noteq> 0 then 0x3FFFE000 else if amd then 0x100 else 0) \<noteq> 0
            else if k = 1 then v AND PDE_PS_BIT \<noteq> 0 \<and> v AND 0x1FE000 \<noteq> 0 else False)
         else
           v AND 0x7FF0000000000000 \<noteq> 0
           \<or> (if k = 2 then v AND 0x80000000000001E6 \<noteq> 0
              else if k = 1 then v AND PDE_PS_BIT \<noteq> 0 \<and> v AND 0x1FE000 \<noteq> 0 else False)))"

text \<open>
  The walk in the order of the code, which tests what AMD's processors reserve: the addresses of the entries it reads, and the first error or the
  entry of the page, made from a large page's where there is one.
\<close>

fun ref_walk ::
  "(u64 \<Rightarrow> u64) \<Rightarrow> nat \<Rightarrow> get_pte_data \<Rightarrow> nat \<Rightarrow> u64 \<Rightarrow> nat \<Rightarrow> u64 \<Rightarrow> u64 list \<times> (vmmerr + u64)" where
  "ref_walk rd n d levels virt 0 table = ([], Inr table)"
| "ref_walk rd n d levels virt (Suc k) table =
     (let a = entry_addr levels k table virt;
          v = rd a;
          pdpte = (levels = 3 \<and> k = 2);
          err = entry_error d (if pdpte then v OR PDE_RW_BIT OR PDE_US_BIT else v)
      in if v AND PDE_P_BIT = 0 then ([a], Inl VMMERR_PAGE_NOT_PRESENT)
         else if arch_reserved True n (d_nxe d) levels k v then ([a], Inl VMMERR_PAGE_BAD_RESERVED_BIT)
         else if err \<noteq> VMMERR_SUCCESS then ([a], Inl err)
         else if v AND PDE_PS_BIT \<noteq> 0 \<and> k = 2 then ([a], Inr (split_large levels virt (split_1g virt v)))
         else if v AND PDE_PS_BIT \<noteq> 0 \<and> k = 1 then ([a], Inr (split_large levels virt v))
         else let (path, r) = ref_walk rd n d levels virt k v in (a # path, r))"

section \<open>Reserved bits\<close>

definition addr_mask :: "nat \<Rightarrow> u64" where "addr_mask n = mask n AND NOT PAGESIZE_MASK"

text \<open>The mask the VMM computes from CPUID is one of these.\<close>

lemma pte_addr_mask_width: "\<exists>n. 32 \<le> n \<and> n \<le> 52 \<and> get_pte_addr_mask ext0 ext8 = addr_mask n"
proof (cases "ext0 < 0x80000008")
  case True
  then show ?thesis
    by (intro exI [of _ 36]) (simp add: get_pte_addr_mask_def addr_mask_def mask_eq_exp_minus_1)
next
  case False
  define n where "n = min 52 (max 32 (unat (ext8 AND 0xFF)))"
  have "get_pte_addr_mask ext0 ext8 = NOT (PAGESIZE_MASK OR push_bit n 0xFFFFFFFFFFFFFFFF)"
    using False by (auto simp: get_pte_addr_mask_def n_def Let_def min_def max_def)
  also have "\<dots> = addr_mask n"
  proof -
    have ones: "(0xFFFFFFFFFFFFFFFF :: u64) = - 1" by simp
    show ?thesis unfolding addr_mask_def ones by (rule bit_word_eqI) (auto simp: bit_simps)
  qed
  finally show ?thesis by (intro exI [of _ n]) (simp add: n_def)
qed

text \<open>The mask of the table, turned for an address width, is what the architecture reserves.\<close>

definition turned :: "nat \<Rightarrow> u64 \<Rightarrow> u64" where "turned n t = t XOR (addr_mask n XOR PTE_ADDR_MASK64)"

lemma and_or_zero: "v AND (a OR b) = 0 \<longleftrightarrow> v AND a = 0 \<and> v AND b = 0" for v a b :: u64
  by (auto simp: bit_eq_iff bit_simps)

lemma mask_widths:
  assumes "32 \<le> n" "n \<le> 52"
  shows "n \<in> set [32..<53]"
  unfolding set_upt using assms by simp

lemma turned_4:
  assumes "32 \<le> n" "n \<le> 52"
  shows "turned n 0x000FFFF000000000 = beyond n"
    and "(addr_mask n XOR PTE_ADDR_MASK64) AND NOT 0x000FFFFF00000000 = 0"
proof -
  have "\<forall>n\<in>set [32..<53]. turned n 0x000FFFF000000000 = beyond n"
    "\<forall>n\<in>set [32..<53]. (addr_mask n XOR PTE_ADDR_MASK64) AND NOT 0x000FFFFF00000000 = 0"
    by (simp_all add: turned_def beyond_def addr_mask_def upt_rec mask_eq_exp_minus_1)
  then show "turned n 0x000FFFF000000000 = beyond n"
    "(addr_mask n XOR PTE_ADDR_MASK64) AND NOT 0x000FFFFF00000000 = 0"
    using mask_widths [OF assms] by blast+
qed

lemma xor_or: "x AND c = 0 \<Longrightarrow> x AND y = 0 \<Longrightarrow> (c OR x) XOR y = (c XOR y) OR x" for x c y :: u64
  by (auto simp: bit_eq_iff bit_simps)

lemma disjoint_sub: "x AND m = 0 \<Longrightarrow> y AND NOT m = 0 \<Longrightarrow> x AND y = 0" for x y m :: u64
  by (auto simp: bit_eq_iff bit_simps)

lemma turned_or:
  assumes "32 \<le> n" "n \<le> 52" and "x AND 0x000FFFFF00000000 = 0"
  shows "turned n (0x000FFFF000000000 OR x) = beyond n OR x"
proof -
  have "(0x000FFFF000000000 :: u64) AND NOT 0x000FFFFF00000000 = 0" by simp
  with assms(3) have "x AND 0x000FFFF000000000 = 0" by (rule disjoint_sub)
  moreover have "x AND (addr_mask n XOR PTE_ADDR_MASK64) = 0"
    by (rule disjoint_sub [OF assms(3) turned_4(2) [OF assms(1,2)]])
  ultimately show ?thesis unfolding turned_def
    by (subst xor_or) (simp_all add: turned_4(1) [OF assms(1,2), unfolded turned_def])
qed

definition check :: "nat \<Rightarrow> u64 \<Rightarrow> u64 \<Rightarrow> bool option" where
  "check n v t = (if turned n t = 0xFFFFFFFFFFFFFFFF then None else Some (v AND turned n t \<noteq> 0))"

lemma check_or:
  assumes n: "32 \<le> n" "n \<le> 52" and x: "x AND 0x000FFFFF00000000 = 0" "x AND 8 = 0" and t: "t = 0x000FFFF000000000 OR x"
  shows "check n v t = Some (v AND beyond n \<noteq> 0 \<or> v AND x \<noteq> 0)"
proof -
  note e = turned_or [OF n x(1), folded t]
  have "bit (beyond n) 3 = False" using n by (simp add: beyond_def bit_simps)
  moreover have "bit x 3 = False"
  proof -
    have "x AND 2 ^ 3 = 0" using x(2) by simp
    then show ?thesis by (simp only: and_exp_eq_0_iff_not_bit) 
  qed
  moreover have "bit (0xFFFFFFFFFFFFFFFF :: u64) 3" by simp
  ultimately have "turned n t \<noteq> 0xFFFFFFFFFFFFFFFF" unfolding e by (metis bit_or_iff)
  then show ?thesis by (simp add: check_def e and_or_zero)
qed

lemma test_check:
  assumes "env_addr_mask e = addr_mask n" "d_pae d"
  shows "test_pmap_entry_reserved_bit e v i levels d =
    check n v (reserved_bit_table ! (if d_nxe d then 1 else 0) ! (levels - 2) !
      (if i = 3 \<and> levels = 4 \<and> v AND PDE_PS_BIT \<noteq> 0 then 5 else if i = 2 \<and> v AND PDE_PS_BIT \<noteq> 0 then 0 else i))"
  using assms by (simp add: test_pmap_entry_reserved_bit_def check_def turned_def Let_def)

text \<open>The test of the code, for the tables of PAE and of long mode.\<close>

lemma reserved_test:
  assumes n: "32 \<le> n" "n \<le> 52" and am: "env_addr_mask e = addr_mask n" and p: "d_pae d"
    and k: "levels = 4 \<and> k < 4 \<or> levels = 3 \<and> k < 3"
  shows "test_pmap_entry_reserved_bit e v (Suc k) levels d = Some (arch_reserved True n (d_nxe d) levels k v)"
proof -
  have c: "check n v t = Some (v AND beyond n \<noteq> 0 \<or> v AND a \<noteq> 0 \<or> v AND b \<noteq> 0 \<or> v AND c' \<noteq> 0)"
    if "(a OR b OR c') AND 0x000FFFFF00000000 = 0" "(a OR b OR c') AND 8 = 0" "t = 0x000FFFF000000000 OR (a OR b OR c')"
    for t a b c'
    using check_or [OF n that] by (simp add: and_or_zero)
  have "levels = 4 \<and> k \<in> {0, 1, 2, 3} \<or> levels = 3 \<and> k \<in> {0, 1, 2}" using k by auto
  moreover have split: "v AND 0x80000000000001E6 = 0 \<longleftrightarrow> v AND PDE_NX_BIT = 0 \<and> v AND 0x1E6 = 0"
    by (simp flip: and_or_zero)
  moreover have
    "check n v 0x800FFFF0001FE000 = Some (v AND beyond n \<noteq> 0 \<or> v AND PDE_NX_BIT \<noteq> 0 \<or> v AND 0x1FE000 \<noteq> 0)"
    "check n v 0x800FFFF000000000 = Some (v AND beyond n \<noteq> 0 \<or> v AND PDE_NX_BIT \<noteq> 0)"
    "check n v 0x800FFFF000000100 = Some (v AND beyond n \<noteq> 0 \<or> v AND PDE_NX_BIT \<noteq> 0 \<or> v AND 0x100 \<noteq> 0)"
    "check n v 0x800FFFF000000180 = Some (v AND beyond n \<noteq> 0 \<or> v AND PDE_NX_BIT \<noteq> 0 \<or> v AND 0x180 \<noteq> 0)"
    "check n v 0x800FFFF03FFFE000 = Some (v AND beyond n \<noteq> 0 \<or> v AND PDE_NX_BIT \<noteq> 0 \<or> v AND 0x3FFFE000 \<noteq> 0)"
    "check n v 0xFFFF0001FE000 = Some (v AND beyond n \<noteq> 0 \<or> v AND 0x1FE000 \<noteq> 0)"
    "check n v 0xFFFF000000000 = Some (v AND beyond n \<noteq> 0)"
    "check n v 0xFFFF000000100 = Some (v AND beyond n \<noteq> 0 \<or> v AND 0x100 \<noteq> 0)"
    "check n v 0xFFFF000000180 = Some (v AND beyond n \<noteq> 0 \<or> v AND 0x180 \<noteq> 0)"
    "check n v 0xFFFF03FFFE000 = Some (v AND beyond n \<noteq> 0 \<or> v AND 0x3FFFE000 \<noteq> 0)"
    "check n v 0xFFFFFFF0001FE000 = Some (v AND beyond n \<noteq> 0 \<or> v AND PDE_NX_BIT \<noteq> 0 \<or> v AND 0x7FF0000000000000 \<noteq> 0 \<or> v AND 0x1FE000 \<noteq> 0)"
    "check n v 0xFFFFFFF000000000 = Some (v AND beyond n \<noteq> 0 \<or> v AND PDE_NX_BIT \<noteq> 0 \<or> v AND 0x7FF0000000000000 \<noteq> 0)"
    "check n v 0x7FFFFFF0001FE000 = Some (v AND beyond n \<noteq> 0 \<or> v AND 0x7FF0000000000000 \<noteq> 0 \<or> v AND 0x1FE000 \<noteq> 0)"
    "check n v 0x7FFFFFF000000000 = Some (v AND beyond n \<noteq> 0 \<or> v AND 0x7FF0000000000000 \<noteq> 0)"
    "check n v 0xFFFFFFF0000001E6 = Some (v AND beyond n \<noteq> 0 \<or> v AND PDE_NX_BIT \<noteq> 0 \<or> v AND 0x7FF0000000000000 \<noteq> 0 \<or> v AND 0x1E6 \<noteq> 0)"
    by (simp_all add: c [of "0x8000000000000000" "0x0" "0x1FE000" "0x800FFFF0001FE000"]
      c [of "0x8000000000000000" "0x0" "0x0" "0x800FFFF000000000"]
      c [of "0x8000000000000000" "0x0" "0x100" "0x800FFFF000000100"]
      c [of "0x8000000000000000" "0x0" "0x180" "0x800FFFF000000180"]
      c [of "0x8000000000000000" "0x0" "0x3FFFE000" "0x800FFFF03FFFE000"]
      c [of "0x0" "0x0" "0x1FE000" "0xFFFF0001FE000"]
      c [of "0x0" "0x0" "0x0" "0xFFFF000000000"]
      c [of "0x0" "0x0" "0x100" "0xFFFF000000100"]
      c [of "0x0" "0x0" "0x180" "0xFFFF000000180"]
      c [of "0x0" "0x0" "0x3FFFE000" "0xFFFF03FFFE000"]
      c [of "0x8000000000000000" "0x7FF0000000000000" "0x1FE000" "0xFFFFFFF0001FE000"]
      c [of "0x8000000000000000" "0x7FF0000000000000" "0x0" "0xFFFFFFF000000000"]
      c [of "0x0" "0x7FF0000000000000" "0x1FE000" "0x7FFFFFF0001FE000"]
      c [of "0x0" "0x7FF0000000000000" "0x0" "0x7FFFFFF000000000"]
      c [of "0x8000000000000000" "0x7FF0000000000000" "0x1E6" "0xFFFFFFF0000001E6"])
  ultimately show ?thesis
    unfolding test_check [OF am p] arch_reserved_def
    by (elim disjE conjE insertE emptyE) (auto simp: reserved_bit_table_def)
qed

section \<open>Entries in memory\<close>

lemma to_bytes_length [simp]: "length (to_bytes n w) = n"
  by (induction n arbitrary: w) simp_all

lemma of_bytes_bit: "bit (of_bytes bs) i \<longleftrightarrow> i < 64 \<and> i div 8 < length bs \<and> bit (bs ! (i div 8)) (i mod 8)"
proof (induction bs arbitrary: i)
  case (Cons b bs)
  show ?case
  proof (cases "i < 8")
    case True
    then show ?thesis by (simp add: bit_simps)
  next
    case False
    then have "i div 8 = Suc ((i - 8) div 8)" "i mod 8 = (i - 8) mod 8" by (simp_all add: le_div_geq le_mod_geq)
    then show ?thesis using False by (auto simp: bit_simps Cons.IH dest: bit_imp_le_length)
  qed
qed simp

lemma to_bytes_nth: "i < n \<Longrightarrow> to_bytes n w ! i = ucast (drop_bit (8 * i) w)"
  by (induction n arbitrary: i w) (auto simp: nth_Cons drop_bit_drop_bit add.commute split: nat.splits)

lemma of_to_bytes: "of_bytes (to_bytes 8 w) = w"
proof (rule bit_word_eqI)
  fix i assume "i < LENGTH(64)"
  then have "i div 8 < 8" "8 * (i div 8) + i mod 8 = i" by simp_all
  then show "bit (of_bytes (to_bytes 8 w)) i = bit w i"
    using \<open>i < LENGTH(64)\<close> by (simp add: of_bytes_bit to_bytes_nth bit_simps)
qed

lemma to_of_bytes: "length bs = 8 \<Longrightarrow> to_bytes 8 (of_bytes bs) = bs"
proof (rule nth_equalityI)
  fix i assume bs: "length bs = 8" and "i < length (to_bytes 8 (of_bytes bs))"
  then have i: "i < 8" by simp
  have "bit (ucast (drop_bit (8 * i) (of_bytes bs)) :: u8) j = bit (bs ! i) j" if "j < 8" for j
    using that i bs by (simp add: bit_simps of_bytes_bit div_add1_eq mod_add_eq)
  then show "to_bytes 8 (of_bytes bs) ! i = bs ! i" using i by (simp add: to_bytes_nth) (auto intro: bit_word_eqI)
qed simp

definition entry_at :: "physmem \<Rightarrow> u64 \<Rightarrow> u64" where "entry_at mem a = of_bytes (read_mem 8 a mem)"

lemma read_mem_length [simp]: "length (read_mem n a mem) = n" by (simp add: read_mem_def)

lemma entry_bytes: "to_bytes 8 (entry_at mem a) = read_mem 8 a mem"
  by (simp add: entry_at_def to_of_bytes)

lemma aligned_byte:
  fixes a :: u64
  assumes "a AND 7 = 0" "0 < i" "i < 8" shows "(a + of_nat i) AND 7 \<noteq> 0"
proof
  assume z: "(a + of_nat i) AND 7 = 0"
  have m: "(7 :: u64) = mask 3" by (simp add: mask_eq_exp_minus_1)
  have "unat (of_nat i :: u64) = i" using assms(3) by (intro unat_of_nat64) simp
  moreover have "unat a mod 8 = 0" using assms(1) unat_and_mask [of a 3] by (simp add: m)
  moreover have "unat (a + of_nat i) mod 8 = 0" using z unat_and_mask [of "a + of_nat i" 3] by (simp add: m)
  moreover have "unat (a + of_nat i) mod 8 = (unat a + unat (of_nat i :: u64)) mod 8"
    by (simp add: unat_word_ariths mod_mod_cancel)
  ultimately have "i mod 8 = 0" by presburger
  then show False using assms by simp
qed

text \<open>Memory that differs in the accessed and dirty bits of some entries.\<close>

definition ad_only :: "u64 set \<Rightarrow> physmem \<Rightarrow> physmem \<Rightarrow> bool" where
  "ad_only P mem0 mem = (\<forall>x. mem x = mem0 x \<or> x \<in> P \<and> mem x OR 0x60 = mem0 x OR 0x60)"

lemma ad_only_entry:
  assumes "ad_only P mem0 mem" "\<forall>x\<in>P. x AND 7 = 0" "a AND 7 = 0"
  shows "entry_at mem a OR 0x60 = entry_at mem0 a OR 0x60"
proof (rule bit_word_eqI)
  fix i assume i: "i < LENGTH(64)"
  have same: "mem (a + of_nat j) = mem0 (a + of_nat j)" if "0 < j" "j < 8" for j
    using aligned_byte [OF assms(3) that] assms(1,2) unfolding ad_only_def by blast
  have zero: "mem a OR 0x60 = mem0 a OR 0x60" using assms(1) unfolding ad_only_def by metis
  show "bit (entry_at mem a OR 0x60) i = bit (entry_at mem0 a OR 0x60) i"
  proof (cases "i < 8")
    case True
    have "bit (mem a OR 0x60) i = bit (mem0 a OR 0x60) i" using zero by simp
    moreover have "bit (0x60 :: u8) i = bit (0x60 :: u64) i" using True
      by (auto simp: less_Suc_eq eval_nat_numeral bit_numeral_rec)
    ultimately show ?thesis using True by (simp add: entry_at_def of_bytes_bit read_mem_def bit_simps)
  next
    case False
    have "i div 8 < 8" "0 < i div 8" using False i by (simp_all add: div_greater_zero_iff)
    then show ?thesis using same [of "i div 8"] i by (simp add: entry_at_def of_bytes_bit read_mem_def bit_simps)
  qed
qed

text \<open>Setting accessed and dirty bits of an entry changes its first byte.\<close>

lemma store_ad:
  assumes c: "c AND NOT 0x60 = 0"
  shows "write_mem a (to_bytes 8 (entry_at mem a OR c)) mem = mem(a := mem a OR ucast c)"
proof
  fix x
  define i where "i = unat (x - a)"
  have x: "x = a + of_nat i" by (simp add: i_def)
  have b: "(to_bytes 8 (entry_at mem a OR c)) ! i = (if i = 0 then mem a OR ucast c else mem x)" if "i < 8"
  proof -
    have "to_bytes 8 (entry_at mem a OR c) ! i = (to_bytes 8 (entry_at mem a) ! i) OR ucast (drop_bit (8 * i) c)"
      using that by (simp only: to_bytes_nth) (auto intro!: bit_word_eqI simp: bit_simps)
    also have "to_bytes 8 (entry_at mem a) ! i = mem x" unfolding entry_bytes using that by (simp add: read_mem_def x)
    also have "ucast (drop_bit (8 * i) c) = (if i = 0 then ucast c else (0 :: u8))"
    proof (cases "i = 0")
      case False
      have "drop_bit 8 c = 0"
      proof (rule bit_word_eqI)
        fix j assume "j < LENGTH(64)"
        have "\<not> bit c (8 + j)"
        proof
          assume bc: "bit c (8 + j)"
          then have l: "8 + j < 64" by (rule bit_imp_le_length [where 'a = 64, simplified])
          have "bit (c AND NOT 0x60) (8 + j) = False" using c by simp
          then have "bit (0x60 :: u64) (8 + j)" using bc l by (simp add: bit_simps)
          moreover have "(0x60 :: u64) = 0x60 AND mask 8" by (simp add: mask_eq_exp_minus_1)
          ultimately have "bit (mask 8 :: u64) (8 + j)" by (metis bit_and_iff)
          then show False by (simp add: bit_simps)
        qed
        then show "bit (drop_bit 8 c) j = bit 0 j" by (simp add: bit_simps)
      qed
      moreover have "drop_bit (8 * i) c = drop_bit (8 * (i - 1)) (drop_bit 8 c)"
        using False by (cases i) (simp_all add: drop_bit_drop_bit add.commute)
      ultimately have "drop_bit (8 * i) c = 0" by simp
      then show ?thesis using False by simp
    qed simp
    finally show ?thesis by (auto simp: x)
  qed
  show "write_mem a (to_bytes 8 (entry_at mem a OR c)) mem x = (mem(a := mem a OR ucast c)) x"
  proof (cases "i < 8")
    case True
    have "x = a \<longleftrightarrow> i = 0" by (auto simp: i_def unat_eq_zero)
    then show ?thesis using b [OF True] True by (simp add: write_mem_def i_def [symmetric])
  next
    case False
    then have "x \<noteq> a" by (auto simp: i_def)
    then show ?thesis using False by (simp add: write_mem_def i_def [symmetric])
  qed
qed

section \<open>One entry in the guest's memory\<close>

text \<open>An entry that the walk can read and change: aligned, in the guest's memory, no device.\<close>

definition walkable :: "'d guest_env \<Rightarrow> 'd guest_state \<Rightarrow> u64 \<Rightarrow> bool" where
  "walkable e s a = (a AND 7 = 0 \<and> \<not> phys_in_vmm (env_gmm e) a \<and> no_mmio s a 8)"

lemma aligned_page:
  fixes a :: u64
  assumes "a AND 7 = 0" shows "\<not> 0xFF9 \<le> a AND 0xFFF"
proof -
  have "unat (a AND mask 12) mod 8 = unat (a AND mask 3)" unfolding unat_and_mask by (simp add: mod_mod_cancel)
  also have "\<dots> = 0" using assms by (simp add: mask_eq_exp_minus_1)
  finally have "unat (a AND 0xFFF) mod 8 = 0" by (simp add: mask_eq_exp_minus_1)
  moreover have "unat (a AND 0xFFF) < 4096" by (rule page_offset_lt)
  ultimately have "unat (a AND 0xFFF) \<le> 0xFF8" by presburger
  then show ?thesis by (simp add: word_le_nat_alt)
qed

lemma walkable_bytes:
  assumes "quiet e attr s" "walkable e s a"
  shows "guest_bytes e s a 8 = read_mem 8 a (ram s)"
  using assms(2) by (simp add: guest_bytes_def walkable_def)

lemma write_same: "write_mem a (read_mem n a mem) mem = mem"
proof
  fix x
  have "a + of_nat (unat (x - a)) = x" by simp
  then show "write_mem a (read_mem n a mem) mem x = mem x"
    by (simp add: write_mem_def read_mem_def del: of_nat_unat)
qed

lemma entry_cmpxchg:
  assumes q: "quiet e attr s" and w: "walkable e s a" and l: "length old = 8" "length new = 8"
  shows "cmpxchg_gphys e attr a old new s =
    (if read_mem 8 a (ram s) = old then Some (False, old, stored a new s) else Some (True, read_mem 8 a (ram s), s))"
  using guest_cmpxchg [OF q, of a old new] w l aligned_page [of a] walkable_bytes [OF q w] by (simp add: walkable_def)

lemma rd_entry:
  assumes q: "quiet e attr s" and w: "walkable e s a" and m: "pm_type m = PMAP_TYPE_GUEST_ATOMIC"
  shows "pmap_rd e 8 m a attr s = Some (entry_at (ram s) a, s)"
  using entry_cmpxchg [OF q w, of "replicate 8 0" "replicate 8 0"] write_same [of a 8 "ram s"] m
  by (auto simp: pmap_rd_def entry_at_def)

lemma wr_entry:
  assumes q: "quiet e attr s" and w: "walkable e s a" and m: "pm_type m = PMAP_TYPE_GUEST_ATOMIC"
  shows "pmap_wr e 8 m a attr (entry_at (ram s) a) v s = Some (False, v, stored a (to_bytes 8 v) s)"
  using entry_cmpxchg [OF q w, of "to_bytes 8 (entry_at (ram s) a)" "to_bytes 8 v"] m
  by (simp add: pmap_wr_def entry_bytes)

text \<open>What one level of a walk needs: the walk \<open>m\<close> has read the entry \<open>k\<close> from \<open>a\<close>.\<close>

definition at_entry :: "pmap \<Rightarrow> nat \<Rightarrow> nat \<Rightarrow> u64 \<Rightarrow> 'd guest_state \<Rightarrow> bool" where
  "at_entry m levels k a s =
     (pm_curlevel m = k \<and> pm_readlevel m \<le> k \<and> pm_levels m = levels \<and> pm_type m = PMAP_TYPE_GUEST_ATOMIC
      \<and> pm_entryaddr m k = a \<and> pm_entry m k = entry_at (ram s) a)"

lemma store_entry:
  assumes "\<And>attr. quiet e attr s" "walkable e s a" "at_entry m levels k a s" "levels \<noteq> 2"
  shows "pmap_write e m v 0xFFF s
    = Some (False, m\<lparr>pm_entry := (pm_entry m)(k := v)\<rparr>, stored a (to_bytes 8 v) s)"
  using assms(3,4) wr_entry [OF assms(1,2), of m] by (simp add: pmap_write_def at_entry_def Let_def and_or_zero)

lemma set_ad:
  assumes q: "\<And>attr. quiet e attr s" and w: "walkable e s a" and m: "at_entry m levels k a s" "levels \<noteq> 2"
    and v: "v = entry_at (ram s) a"
  shows "\<exists>c. c AND NOT 0x60 = 0
    \<and> set_ad_bit e m v True setd s
        = Some (False, v OR c, m\<lparr>pm_entry := (pm_entry m)(k := v OR c)\<rparr>, s\<lparr>ram := (ram s)(a := ram s a OR ucast c)\<rparr>)
    \<and> (v OR c) AND PDE_A_BIT \<noteq> 0 \<and> (setd \<longrightarrow> (v OR c) AND PDE_D_BIT \<noteq> 0)"
proof -
  let ?d = "setd \<and> v AND PDE_D_BIT = 0"
  define c where "c = (if v AND PDE_A_BIT = 0 then PDE_A_BIT else 0) OR (if ?d then PDE_D_BIT else 0)"
  have c60: "c AND NOT 0x60 = 0" by (simp add: c_def)
  have st: "stored a (to_bytes 8 (v OR c)) s = s\<lparr>ram := (ram s)(a := ram s a OR ucast c)\<rparr>"
    using store_ad [OF c60, of a "ram s"] by (simp add: v)
  have ad: "(x OR y) AND y = y" for x y :: u64 by (auto simp: bit_eq_iff bit_simps)
  have A: "(v OR c) AND PDE_A_BIT \<noteq> 0"
    using ad [of v PDE_A_BIT] by (auto simp: c_def and_or_zero word_bw_comms(1) [of "v OR _"] word_bw_comms(1) [of v])
  have D: "setd \<Longrightarrow> (v OR c) AND PDE_D_BIT \<noteq> 0"
    by (auto simp: c_def and_or_zero word_bw_comms(1) [of "v OR _"] word_bw_comms(1) [of v])
  show ?thesis
  proof (cases "v AND PDE_A_BIT = 0 \<or> ?d")
    case True
    then have "set_ad_bit e m v True setd s = map_option (\<lambda>(r, m, s). (r, v OR c, m, s)) (pmap_write e m (v OR c) 0xFFF s)"
      by (auto simp: set_ad_bit_def c_def or.assoc Let_def)
    then show ?thesis using store_entry [OF q w m, of "v OR c"] c60 A D st by (intro exI [of _ c]) simp
  next
    case False
    then have "c = 0" by (auto simp: c_def)
    moreover have "(pm_entry m)(k := v) = pm_entry m" by (rule fun_upd_idem) (use m(1) v in \<open>simp add: at_entry_def\<close>)
    then have "m\<lparr>pm_entry := (pm_entry m)(k := v)\<rparr> = m" by simp
    moreover have "set_ad_bit e m v True setd s = Some (False, v, m, s)" using False by (auto simp: set_ad_bit_def Let_def)
    ultimately show ?thesis using A D by (intro exI [of _ 0]) simp
  qed
qed

section \<open>Bits that a change leaves alone\<close>

lemma and_keeps:
  fixes w c a :: u64
  assumes "c AND a = 0"
  shows "(w AND NOT a) AND c = w AND c" "(w OR a) AND c = w AND c" "(x AND a) AND c = 0"
    "((w AND NOT a) OR (x AND a)) AND c = w AND c"
  using assms by (auto simp: bit_eq_iff bit_simps)

text \<open>\<open>a\<close> and \<open>b\<close> differ at most in the accessed and dirty bits.\<close>

definition ad_eq :: "u64 \<Rightarrow> u64 \<Rightarrow> bool" where "ad_eq a b \<longleftrightarrow> a OR 0x60 = b OR 0x60"

lemma ad_eq_refl [simp]: "ad_eq a a" by (simp add: ad_eq_def)

lemma ad_eq_and: "ad_eq a b \<Longrightarrow> c AND 0x60 = 0 \<Longrightarrow> a AND c = b AND c"
  unfolding ad_eq_def by (metis and_keeps(2))

lemma ad_eq_ops:
  assumes "ad_eq a b" shows "ad_eq (a AND c) (b AND c)" "ad_eq (a OR c) (b OR c)" "ad_eq (a AND NOT c) (b AND NOT c)"
  using assms unfolding ad_eq_def
  by (auto simp: bit_eq_iff bit_simps)

lemma ad_eq_or: "c AND NOT 0x60 = 0 \<Longrightarrow> ad_eq (a OR c) a"
  unfolding ad_eq_def by (auto simp: bit_eq_iff bit_simps)

lemma ad_eq_trans: "ad_eq a b \<Longrightarrow> ad_eq b c \<Longrightarrow> ad_eq a c"
  by (simp add: ad_eq_def)

lemma split_large_keeps:
  assumes l: "levels \<noteq> 2" and c: "c AND 0x1FF080 = 0"
  shows "split_large levels virt w AND c = w AND c"
proof -
  have s: "c AND PDE_PS_BIT = 0" "c AND PDE_4M_PAT_BIT = 0" "c AND 0x1FF000 = 0"
    by (rule disjoint_sub [OF c], simp)+
  show ?thesis
    by (auto simp only: split_large_def Let_def l if_False and_keeps [OF s(1)] and_keeps [OF s(2)] and_keeps [OF s(3)] split: if_split)
qed

lemma split_1g_keeps: "c AND 0x3FE00000 = 0 \<Longrightarrow> split_1g virt w AND c = w AND c"
  unfolding split_1g_def by (rule and_keeps(4))

lemma split_ad_eq:
  assumes "ad_eq a b"
  shows "ad_eq (split_1g virt a) (split_1g virt b)" "levels \<noteq> 2 \<Longrightarrow> ad_eq (split_large levels virt a) (split_large levels virt b)"
proof -
  show "ad_eq (split_1g virt a) (split_1g virt b)" unfolding split_1g_def by (intro ad_eq_ops assms)
  have p: "(a AND NOT PDE_PS_BIT) AND PDE_4M_PAT_BIT = (b AND NOT PDE_PS_BIT) AND PDE_4M_PAT_BIT"
    by (rule ad_eq_and [OF ad_eq_ops(3) [OF assms]]) simp
  have or2: "ad_eq (x OR z) (y OR z)" if "ad_eq x y" for x y z by (rule ad_eq_ops(2) [OF that])
  show "ad_eq (split_large levels virt a) (split_large levels virt b)" if "levels \<noteq> 2"
    using that unfolding split_large_def Let_def p by (auto simp only: if_False split: if_split intro!: ad_eq_ops or2 assms)
qed

text \<open>The checks do not depend on them, but for the entries of level 3 of PAE.\<close>

lemma and_sub: "v AND m = w AND m \<Longrightarrow> c AND m = c \<Longrightarrow> v AND c = w AND c" for v w c m :: u64
proof -
  assume e: "v AND m = w AND m" and c: "c AND m = c"
  have x: "x AND c = (x AND m) AND c" for x by (subst c [symmetric]) (simp add: ac_simps)
  from this [of v] have "v AND c = (w AND m) AND c" unfolding e .
  also have "\<dots> = w AND c" by (rule x [symmetric])
  finally show ?thesis .
qed

lemma entry_error_keeps: "v AND 0x8000000000000006 = w AND 0x8000000000000006 \<Longrightarrow> entry_error d v = entry_error d w"
  using and_sub [of v "0x8000000000000006" w PDE_US_BIT] and_sub [of v "0x8000000000000006" w PDE_RW_BIT]
    and_sub [of v "0x8000000000000006" w PDE_NX_BIT]
  by (simp add: entry_error_def)

lemma arch_reserved_ad:
  assumes "ad_eq v w" "levels \<noteq> 4 \<Longrightarrow> k \<noteq> 2" "32 \<le> n"
  shows "arch_reserved True n nxe levels k v = arch_reserved True n nxe levels k w"
proof -
  have "beyond n AND 0x60 = 0"
  proof -
    have "(0x60 :: u64) = 0x60 AND mask 8" by (simp add: mask_eq_exp_minus_1)
    then show ?thesis using assms(3) by (auto simp: beyond_def bit_eq_iff bit_simps)
  qed
  note c = ad_eq_and [OF assms(1)] this
  show ?thesis using assms(2) c(1) [OF c(2)]
    by (simp add: arch_reserved_def c(1) [of PDE_NX_BIT] c(1) [of PDE_PS_BIT] c(1) [of "0x180"] c(1) [of "0x100"]
        c(1) [of "0x3FFFE000"] c(1) [of "0x1FE000"] c(1) [of "0x7FF0000000000000"])
qed

end
