(* ===== verification/Proc_Walk.thy ===== *)
theory Proc_Walk
  imports Guest_Tables
begin

text \<open>
  The walk of page tables a processor makes, stated on its own from the manuals: which entry a level
  uses, the page a large entry maps, the rights along the way.  The walk that \<open>core/cpu_mmu.c\<close> makes
  is related to it.
\<close>

section \<open>The reference\<close>

text \<open>
  The entry of level \<open>k + 1\<close>: the table's address in the bits \<open>n - 1..12\<close> of the entry above or of
  \<open>CR3\<close>, and nine bits of the linear address; with PAE the four entries of level 3 are at the 32-byte
  boundary in \<open>CR3\<close>.
\<close>

definition proc_entry :: "nat \<Rightarrow> nat \<Rightarrow> nat \<Rightarrow> u64 \<Rightarrow> u64 \<Rightarrow> u64" where
  "proc_entry n levels k table virt =
     (if levels = 3 \<and> k = 2 then (table AND 0xFFFFFFE0) OR push_bit 3 (drop_bit 30 virt AND mask 2)
      else (table AND (mask n AND NOT (mask 12))) OR push_bit 3 (drop_bit (12 + 9 * k) virt AND mask 9))"

text \<open>
  The entry of the 4KB page at \<open>virt\<close> in a large page of level \<open>k + 1\<close>: the offset comes from the
  address, the PAT bit moves from bit 12 to bit 7.
\<close>

definition proc_leaf :: "nat \<Rightarrow> u64 \<Rightarrow> u64 \<Rightarrow> u64" where
  "proc_leaf k virt v =
     (v AND NOT (mask (12 + 9 * k) AND NOT (mask 12)) AND NOT PDE_PS_BIT)
     OR (virt AND (mask (12 + 9 * k) AND NOT (mask 12))) OR (if bit v 12 then PDE_PS_BIT else 0)"

text \<open>Whether the rights of an entry forbid the access; the entries of level 3 of PAE have none.\<close>

definition proc_denies :: "get_pte_data \<Rightarrow> nat \<Rightarrow> nat \<Rightarrow> u64 \<Rightarrow> bool" where
  "proc_denies d levels k v =
     (\<not> (levels = 3 \<and> k = 2) \<and>
      (d_user d \<and> \<not> bit v 2
       \<or> d_write d \<and> \<not> bit v 1 \<and> (d_user d \<or> d_wp d)
       \<or> d_exec d \<and> d_nxe d \<and> bit v 63))"

text \<open>
  The addresses of the entries used, whether one of them denies the access, and where the walk ends:
  at an entry that is not present or has reserved bits set, or with the entry of the page.
\<close>

fun proc_walk ::
  "bool \<Rightarrow> (u64 \<Rightarrow> u64) \<Rightarrow> nat \<Rightarrow> get_pte_data \<Rightarrow> nat \<Rightarrow> u64 \<Rightarrow> nat \<Rightarrow> u64 \<Rightarrow> u64 list \<times> bool \<times> (vmmerr + u64)" where
  "proc_walk amd rd n d levels virt 0 table = ([], False, Inr table)"
| "proc_walk amd rd n d levels virt (Suc k) table =
     (let a = proc_entry n levels k table virt; v = rd a
      in if \<not> bit v 0 then ([a], False, Inl VMMERR_PAGE_NOT_PRESENT)
         else if arch_reserved amd n (d_nxe d) levels k v then ([a], False, Inl VMMERR_PAGE_BAD_RESERVED_BIT)
         else if bit v 7 \<and> (k = 1 \<or> k = 2) then ([a], proc_denies d levels k v, Inr (proc_leaf k virt v))
         else let (path, denied, r) = proc_walk amd rd n d levels virt k v
              in (a # path, proc_denies d levels k v \<or> denied, r))"

section \<open>The walk of the code\<close>

lemma bit_tests:
  "v AND PDE_P_BIT = 0 \<longleftrightarrow> \<not> bit v 0" "v AND PDE_RW_BIT = 0 \<longleftrightarrow> \<not> bit v 1" "v AND PDE_US_BIT = 0 \<longleftrightarrow> \<not> bit v 2"
  "v AND PDE_PS_BIT = 0 \<longleftrightarrow> \<not> bit v 7" "v AND PDE_4M_PAT_BIT = 0 \<longleftrightarrow> \<not> bit v 12" "v AND PDE_NX_BIT = 0 \<longleftrightarrow> \<not> bit v 63"
  for v :: u64
  using and_exp_eq_0_iff_not_bit [of v 0] and_exp_eq_0_iff_not_bit [of v 1] and_exp_eq_0_iff_not_bit [of v 2]
    and_exp_eq_0_iff_not_bit [of v 7] and_exp_eq_0_iff_not_bit [of v 12] and_exp_eq_0_iff_not_bit [of v 63]
  by simp_all

lemma as_masks:
  "(0x0000FFFFFFFFF000 :: u64) = mask 48 AND NOT (mask 12)" "(0xFF8 :: u64) = push_bit 3 (mask 9)"
  "(0x1FF000 :: u64) = mask 21 AND NOT (mask 12)" "(0x3FE00000 :: u64) = mask 30 AND NOT (mask 21)"
  by (simp_all add: mask_eq_exp_minus_1)

lemma beyond_bit: "v AND beyond n = 0 \<Longrightarrow> n \<le> j \<Longrightarrow> j < 52 \<Longrightarrow> \<not> bit v j" for v :: u64
proof -
  assume v: "v AND beyond n = 0" and j: "n \<le> j" "j < 52"
  have "bit (v AND beyond n) j \<longleftrightarrow> bit v j" using j by (simp add: beyond_def bit_simps)
  then show "\<not> bit v j" unfolding v by simp
qed

lemma low_bit: "v \<le> 0xFFFFFFFF \<Longrightarrow> bit v j \<Longrightarrow> j < 32" for v :: u64
proof (rule ccontr)
  assume v: "v \<le> 0xFFFFFFFF" "bit v j" "\<not> j < 32"
  have "unat v < 2 ^ 32" using v(1) by (simp add: word_le_nat_alt)
  then have "take_bit 32 (unat v) = unat v" by (simp add: take_bit_nat_eq_self_iff)
  then have "take_bit 32 v = v" by (intro unat_eqI) (simp add: unsigned_take_bit_eq)
  then show False using v(2,3) by (metis bit_take_bit_iff)
qed

lemma entry_addr_proc:
  assumes l: "levels = 3 \<or> levels = 4" and t: "table AND beyond n = 0 \<or> levels = 3 \<and> k = 2" and n: "n \<le> 48"
    and v: "levels = 3 \<Longrightarrow> virt \<le> 0xFFFFFFFF"
  shows "entry_addr levels k table virt = proc_entry n levels k table virt"
proof (cases "levels = 3 \<and> k = 2")
  case True
  have "drop_bit 27 virt AND 0xFF8 = push_bit 3 (drop_bit 30 virt AND mask 2)"
    unfolding as_masks
    by (rule bit_word_eqI) (use low_bit [OF v] True in \<open>force simp: bit_simps\<close>)
  then show ?thesis using True by (simp add: entry_addr_def proc_entry_def)
next
  case False
  have "table AND 0x0000FFFFFFFFF000 = table AND (mask n AND NOT (mask 12))"
    unfolding as_masks
    by (rule bit_word_eqI) (use beyond_bit [of table n] t False n in \<open>fastforce simp: bit_simps not_le\<close>)
  moreover have "drop_bit (9 + 9 * k) virt AND 0xFF8 = push_bit 3 (drop_bit (12 + 9 * k) virt AND mask 9)"
    unfolding as_masks by (rule bit_word_eqI) (auto simp: bit_simps ac_simps)
  ultimately show ?thesis using False l by (auto simp: entry_addr_def proc_entry_def)
qed

lemma bit_flags: "bit PDE_PS_BIT j \<longleftrightarrow> j = 7" "bit PDE_4M_PAT_BIT j \<longleftrightarrow> j = 12"
  using bit_exp_iff [where 'a = u64, of 7 j] bit_exp_iff [where 'a = u64, of 12 j] by auto

lemma bit_spans: "bit (0x1FF000 :: u64) j \<longleftrightarrow> 12 \<le> j \<and> j < 21" "bit (0x3FE00000 :: u64) j \<longleftrightarrow> 21 \<le> j \<and> j < 30"
  unfolding as_masks by (auto simp: bit_simps)

lemma split_large_proc:
  assumes "levels \<noteq> 2" shows "split_large levels virt v = proc_leaf 1 virt v"
proof (rule bit_word_eqI)
  fix j assume j: "j < LENGTH(64)"
  have N: "bit (NOT w) j \<longleftrightarrow> \<not> bit w j" for w :: u64 using j by (simp add: bit_simps)
  note bit_at = bit_and_iff bit_or_iff N bit_flags bit_spans bit_0_eq bot_apply
  have m: "bit (mask i :: u64) j \<longleftrightarrow> j < i" for i using j by (auto simp: bit_simps)
  have p: "(v AND NOT PDE_PS_BIT) AND PDE_4M_PAT_BIT \<noteq> 0 \<longleftrightarrow> bit v 12"
    by (simp add: bit_tests bit_simps bit_flags)
  show "bit (split_large levels virt v) j = bit (proc_leaf 1 virt v) j"
    using assms unfolding split_large_def proc_leaf_def Let_def p
    by (cases "bit v 12")
      (simp_all only: bit_at m if_False if_True mult_1_right arith_simps, auto)
qed

lemma split_1g_proc:
  assumes "levels \<noteq> 2" shows "split_large levels virt (split_1g virt v) = proc_leaf 2 virt v"
proof (rule bit_word_eqI)
  fix j assume j: "j < LENGTH(64)"
  have N: "bit (NOT w) j \<longleftrightarrow> \<not> bit w j" for w :: u64 using j by (simp add: bit_simps)
  note bit_at = bit_and_iff bit_or_iff N bit_flags bit_spans bit_0_eq bot_apply
  have m: "bit (mask i :: u64) j \<longleftrightarrow> j < i" for i using j by (auto simp: bit_simps)
  have p: "bit (split_1g virt v) 12 \<longleftrightarrow> bit v 12" by (simp add: split_1g_def bit_simps bit_spans)
  show "bit (split_large levels virt (split_1g virt v)) j = bit (proc_leaf 2 virt v) j"
    unfolding split_large_proc [OF assms] unfolding proc_leaf_def p unfolding split_1g_def
    by (cases "bit v 12")
      (simp_all only: bit_at m if_False if_True mult_1_right arith_simps, auto)
qed

text \<open>The rights of one entry.\<close>

abbreviation rights_fault :: "vmmerr \<Rightarrow> bool" where
  "rights_fault err \<equiv> err = VMMERR_PAGE_NOT_ACCESSIBLE \<or> err = VMMERR_PAGE_NOT_EXECUTABLE"

abbreviation checked :: "nat \<Rightarrow> nat \<Rightarrow> u64 \<Rightarrow> u64" where
  "checked levels k v \<equiv> if levels = 3 \<and> k = 2 then v OR PDE_RW_BIT OR PDE_US_BIT else v"

lemma entry_error_proc:
  assumes "\<not> arch_reserved True n (d_nxe d) levels k v" and l: "levels = 3 \<or> levels = 4"
  shows "if proc_denies d levels k v then rights_fault (entry_error d (checked levels k v))
    else entry_error d (checked levels k v) = VMMERR_SUCCESS"
proof (cases "levels = 3 \<and> k = 2")
  case True
  then have r: "v AND 0x80000000000001E6 = 0" using assms(1) by (simp add: arch_reserved_def)
  have "bit (v OR PDE_RW_BIT OR PDE_US_BIT) 1" "bit (v OR PDE_RW_BIT OR PDE_US_BIT) 2" by (simp_all add: bit_simps)
  moreover have "\<not> bit (v OR PDE_RW_BIT OR PDE_US_BIT) 63"
    using bit_tests(6) [of v] disjoint_sub [OF r, of PDE_NX_BIT] by (simp add: bit_simps)
  ultimately show ?thesis using True unfolding entry_error_def bit_tests by (simp add: proc_denies_def)
next
  case False
  then show ?thesis unfolding entry_error_def bit_tests by (auto simp: proc_denies_def)
qed

text \<open>
  The code checks the rights of each entry before it reads the next one, a processor those of the
  whole path when it has reached the page.
\<close>

lemma walk_proc:
  assumes l: "levels = 3 \<or> levels = 4" and n: "n \<le> 48" and v: "levels = 3 \<Longrightarrow> virt \<le> 0xFFFFFFFF"
    and t: "table AND beyond n = 0 \<or> levels = 3 \<and> k = 3"
    and r: "ref_walk rd n d levels virt k table = (p, r)" "proc_walk True rd n d levels virt k table = (path, denied, out)"
  shows "set p \<subseteq> set path \<and> (if denied then \<exists>err. r = Inl err \<and> rights_fault err else r = out)"
  using t r
proof (induction k arbitrary: table p r path denied out)
  case (Suc k)
  define a where "a = proc_entry n levels k table virt"
  define w where "w = rd a"
  have a: "entry_addr levels k table virt = a"
    unfolding a_def by (rule entry_addr_proc [OF l _ n v]) (use Suc.prems(1) in auto)
  let ?err = "entry_error d (checked levels k w)"
  note ref = Suc.prems(2) [unfolded ref_walk.simps Let_def a, folded w_def]
  note proc = Suc.prems(3) [unfolded proc_walk.simps Let_def, folded a_def, folded w_def]
  show ?case
  proof (cases "bit w 0 \<and> \<not> arch_reserved True n (d_nxe d) levels k w")
    case False
    then show ?thesis using ref proc by (cases "bit w 0") (auto simp: bit_tests simp del: bit_0)
  next
    case True
    note e = entry_error_proc [OF conjunct2 [OF True] l]
    have b: "w AND beyond n = 0" using True by (simp add: arch_reserved_def)
    obtain p' r' where rw: "ref_walk rd n d levels virt k w = (p', r')" by fastforce
    obtain P' den' out' where pw: "proc_walk True rd n d levels virt k w = (P', den', out')" by (metis prod_cases3)
    have IH: "set p' \<subseteq> set P' \<and> (if den' then \<exists>err. r' = Inl err \<and> rights_fault err else r' = out')"
      by (rule Suc.IH [OF _ rw pw]) (use b in simp)
    have l2: "levels \<noteq> 2" using l by auto
    have sl: "split_large levels virt (split_1g virt w) = proc_leaf 2 virt w" "split_large levels virt w = proc_leaf 1 virt w"
      by (rule split_1g_proc [OF l2], rule split_large_proc [OF l2])
    obtain err where err: "entry_error d (checked levels k w) = err" by simp
    let ?den = "proc_denies d levels k w"
    have p: "(p, r) = (if err \<noteq> VMMERR_SUCCESS then ([a], Inl err) else if bit w 7 \<and> k = 2 then ([a], Inr (proc_leaf 2 virt w))
        else if bit w 7 \<and> k = 1 then ([a], Inr (proc_leaf 1 virt w)) else (a # p', r'))"
      using ref True unfolding bit_tests err rw sl by (simp only: if_True if_False simp_thms split_conv)
    have P: "(path, denied, out) = (if bit w 7 \<and> (k = 1 \<or> k = 2) then ([a], ?den, Inr (proc_leaf k virt w))
        else (a # P', ?den \<or> den', out'))"
      using proc True unfolding pw by (simp only: if_True if_False simp_thms split_conv)
    show ?thesis
    proof (cases ?den)
      case den: True
      then have "rights_fault err" using e by (simp only: err if_True)
      moreover have "p = [a]" "r = Inl err" using p calculation by auto
      moreover have "denied" "a \<in> set path" using P den by (auto split: if_splits)
      ultimately show ?thesis by auto
    next
      case den: False
      then have ok: "err = VMMERR_SUCCESS" using e by (simp only: err if_False)
      show ?thesis
      proof (cases "bit w 7 \<and> (k = 1 \<or> k = 2)")
        case True
        then show ?thesis using p P ok den by auto
      next
        case False
        then have "p = a # p'" "r = r'" "path = a # P'" "denied = den'" "out = out'" using p P ok den by auto
        then show ?thesis using IH by auto
      qed
    qed
  qed
qed simp

section \<open>The processors\<close>

text \<open>
  A present entry on the path of a walk in long mode that AMD's processors reserve and Intel's do not:
  bit 8 set in the entry of level 4, or in one of level 3 that refers to a table.
\<close>

definition upper_bit8 :: "(u64 \<Rightarrow> u64) \<Rightarrow> u64 list \<Rightarrow> bool" where
  "upper_bit8 rd path =
     (case path of
        [] \<Rightarrow> False
      | a # path \<Rightarrow> bit (rd a) 0 \<and> bit (rd a) 8
          \<or> (case path of [] \<Rightarrow> False | b # _ \<Rightarrow> bit (rd b) 0 \<and> \<not> bit (rd b) 7 \<and> bit (rd b) 8))"

lemma arch_reserved_vendor:
  "\<not> (levels = 4 \<and> (k = 2 \<or> k = 3)) \<Longrightarrow> arch_reserved True n nxe levels k v = arch_reserved False n nxe levels k v"
  "\<not> bit v 8 \<Longrightarrow> arch_reserved True n nxe levels k v = arch_reserved False n nxe levels k v"
  "bit v 8 \<Longrightarrow> arch_reserved True n nxe 4 3 v"
  "bit v 8 \<Longrightarrow> \<not> bit v 7 \<Longrightarrow> arch_reserved True n nxe 4 2 v"
  "bit v 7 \<Longrightarrow> arch_reserved True n nxe 4 2 v = arch_reserved False n nxe 4 2 v"
proof -
  have b: "v AND 0x100 = 0 \<longleftrightarrow> \<not> bit v 8" using and_exp_eq_0_iff_not_bit [of v 8] by simp
  moreover have "v AND 0x180 = 0 \<longleftrightarrow> v AND 0x80 = 0 \<and> v AND 0x100 = 0" by (simp flip: and_or_zero)
  ultimately show "\<not> (levels = 4 \<and> (k = 2 \<or> k = 3)) \<Longrightarrow> arch_reserved True n nxe levels k v = arch_reserved False n nxe levels k v"
    "\<not> bit v 8 \<Longrightarrow> arch_reserved True n nxe levels k v = arch_reserved False n nxe levels k v"
    "bit v 8 \<Longrightarrow> arch_reserved True n nxe 4 3 v"
    "bit v 8 \<Longrightarrow> \<not> bit v 7 \<Longrightarrow> arch_reserved True n nxe 4 2 v"
    "bit v 7 \<Longrightarrow> arch_reserved True n nxe 4 2 v = arch_reserved False n nxe 4 2 v"
    by (auto simp: arch_reserved_def bit_tests simp del: bit_0)
qed

text \<open>The two walks are the same below level 3, and with PAE.\<close>

lemma proc_walk_vendor:
  "levels = 4 \<longrightarrow> k \<le> 2 \<Longrightarrow> proc_walk True rd n d levels virt k table = proc_walk False rd n d levels virt k table"
proof (induction k arbitrary: table)
  case (Suc k)
  have "arch_reserved True n (d_nxe d) levels k v = arch_reserved False n (d_nxe d) levels k v" for v
    by (rule arch_reserved_vendor(1)) (use Suc.prems in auto)
  moreover have "proc_walk True rd n d levels virt k v = proc_walk False rd n d levels virt k v" for v
    by (rule Suc.IH) (use Suc.prems in auto)
  ultimately show ?case by (simp only: proc_walk.simps)
qed simp

text \<open>Where an entry of the upper levels has bit 8 set, the walk of AMD's processors ends there.\<close>

lemma vendor_3:
  assumes "proc_walk False rd n d 4 virt 3 table = (path, denied, out)"
  obtains p dn r where "proc_walk True rd n d 4 virt 3 table = (p, dn, r)" "set p \<subseteq> set path"
    "path \<noteq> []" "hd path = proc_entry n 4 2 table virt"
    "if bit (rd (hd path)) 0 \<and> \<not> bit (rd (hd path)) 7 \<and> bit (rd (hd path)) 8
     then r = Inl VMMERR_PAGE_BAD_RESERVED_BIT else (p, dn, r) = (path, denied, out)"
proof -
  have 3: "(3 :: nat) = Suc 2" by simp
  define a where "a = proc_entry n 4 2 table virt"
  have same: "proc_walk True rd n d 4 virt 2 v = proc_walk False rd n d 4 virt 2 v" for v
    by (rule proc_walk_vendor) simp
  note w = assms [unfolded 3 proc_walk.simps Let_def, folded a_def]
  have hd: "path \<noteq> [] \<and> hd path = a" using w by (auto split: if_splits prod.splits)
  obtain p dn r where t: "proc_walk True rd n d 4 virt 3 table = (p, dn, r)" by (metis prod_cases3)
  note u = t [unfolded 3 proc_walk.simps Let_def same, folded a_def]
  have "set p \<subseteq> set path \<and> (if bit (rd a) 0 \<and> \<not> bit (rd a) 7 \<and> bit (rd a) 8
     then r = Inl VMMERR_PAGE_BAD_RESERVED_BIT else (p, dn, r) = (path, denied, out))"
  proof (cases "bit (rd a) 0 \<and> \<not> bit (rd a) 7 \<and> bit (rd a) 8")
    case True
    then have "arch_reserved True n (d_nxe d) 4 2 (rd a)" using arch_reserved_vendor(4) by blast
    then have "p = [a] \<and> r = Inl VMMERR_PAGE_BAD_RESERVED_BIT" using u True by (simp del: bit_0)
    then show ?thesis using True hd by (cases path) (simp_all del: bit_0)
  next
    case False
    have "arch_reserved True n (d_nxe d) 4 2 (rd a) = arch_reserved False n (d_nxe d) 4 2 (rd a) \<or> \<not> bit (rd a) 0"
      using False arch_reserved_vendor(2,5) by blast
    then have pr: "(p, dn, r) = (path, denied, out)" unfolding u [symmetric] w [symmetric] by (auto simp del: bit_0)
    then have "set p \<subseteq> set path" by simp
    then show ?thesis unfolding if_not_P [OF False] using pr by (rule conjI)
  qed
  then show ?thesis using that [OF t] hd by (simp add: a_def)
qed

lemma vendor_4:
  assumes "proc_walk False rd n d 4 virt 4 table = (path, denied, out)"
  obtains p dn r where "proc_walk True rd n d 4 virt 4 table = (p, dn, r)" "set p \<subseteq> set path"
    "if upper_bit8 rd path then r = Inl VMMERR_PAGE_BAD_RESERVED_BIT else (p, dn, r) = (path, denied, out)"
proof -
  have four: "(Suc 3 :: nat) = 4" by simp
  define a where "a = proc_entry n 4 3 table virt"
  obtain P D R where f: "proc_walk False rd n d 4 virt 3 (rd a) = (P, D, R)" by (metis prod_cases3)
  obtain p dn r where t: "proc_walk True rd n d 4 virt 3 (rd a) = (p, dn, r)" "set p \<subseteq> set P" "P \<noteq> []"
    "if bit (rd (hd P)) 0 \<and> \<not> bit (rd (hd P)) 7 \<and> bit (rd (hd P)) 8
     then r = Inl VMMERR_PAGE_BAD_RESERVED_BIT else (p, dn, r) = (P, D, R)"
    by (rule vendor_3 [OF f])
  have n3: "(3 :: nat) \<noteq> 1" "(3 :: nat) \<noteq> 2" by simp_all
  have st: "proc_walk amd rd n d 4 virt 4 table = (if \<not> bit (rd a) 0 then ([a], False, Inl VMMERR_PAGE_NOT_PRESENT)
      else if arch_reserved amd n (d_nxe d) 4 3 (rd a) then ([a], False, Inl VMMERR_PAGE_BAD_RESERVED_BIT)
      else (case proc_walk amd rd n d 4 virt 3 (rd a) of (P, D, R) \<Rightarrow> (a # P, proc_denies d 4 3 (rd a) \<or> D, R)))" for amd
    using proc_walk.simps(2) [of amd rd n d 4 virt 3 table]
    by (simp only: four Let_def a_def [symmetric] n3 simp_thms if_False)
  have w: "(path, denied, out) = (if \<not> bit (rd a) 0 then ([a], False, Inl VMMERR_PAGE_NOT_PRESENT)
      else if arch_reserved False n (d_nxe d) 4 3 (rd a) then ([a], False, Inl VMMERR_PAGE_BAD_RESERVED_BIT)
      else (a # P, proc_denies d 4 3 (rd a) \<or> D, R))"
    using assms unfolding st f by (simp only: split_conv)
  have u: "proc_walk True rd n d 4 virt 4 table = (if \<not> bit (rd a) 0 then ([a], False, Inl VMMERR_PAGE_NOT_PRESENT)
      else if arch_reserved True n (d_nxe d) 4 3 (rd a) then ([a], False, Inl VMMERR_PAGE_BAD_RESERVED_BIT)
      else (a # p, proc_denies d 4 3 (rd a) \<or> dn, r))"
    unfolding st t(1) by (simp only: split_conv)
  have up: "upper_bit8 rd (a # P) \<longleftrightarrow> bit (rd a) 0 \<and> bit (rd a) 8
      \<or> bit (rd (hd P)) 0 \<and> \<not> bit (rd (hd P)) 7 \<and> bit (rd (hd P)) 8"
    using t(3) by (cases P) (simp_all add: upper_bit8_def del: bit_0)
  have up1: "upper_bit8 rd [a] \<longleftrightarrow> bit (rd a) 0 \<and> bit (rd a) 8" by (simp add: upper_bit8_def del: bit_0)
  consider (np) "\<not> bit (rd a) 0" | (b8) "bit (rd a) 0" "bit (rd a) 8" | (go) "bit (rd a) 0" "\<not> bit (rd a) 8" by blast
  then show ?thesis
  proof cases
    case np
    then show ?thesis using that u w up1 by auto
  next
    case b8
    then have "arch_reserved True n (d_nxe d) 4 3 (rd a)" using arch_reserved_vendor(3) by blast
    then have "proc_walk True rd n d 4 virt 4 table = ([a], False, Inl VMMERR_PAGE_BAD_RESERVED_BIT)" using u b8 by simp
    moreover have "a \<in> set path" using w by (auto split: if_splits)
    moreover have "upper_bit8 rd path" using w b8 up up1 by (auto split: if_splits)
    ultimately show ?thesis by (intro that [of "[a]" False]) simp_all
  next
    case go
    note e = arch_reserved_vendor(2) [OF go(2), of n "d_nxe d" 4 3]
    show ?thesis
    proof (cases "arch_reserved False n (d_nxe d) 4 3 (rd a)")
      case True
      then show ?thesis using that u w up1 go e by simp
    next
      case False
      then have o: "path = a # P" "denied = (proc_denies d 4 3 (rd a) \<or> D)" "out = R" using w go by simp_all
      have pw: "proc_walk True rd n d 4 virt 4 table = (a # p, proc_denies d 4 3 (rd a) \<or> dn, r)"
        using u go e False by simp
      have "set (a # p) \<subseteq> set path" using t(2) o(1) by auto
      then show ?thesis
      proof (rule that [OF pw])
        show "if upper_bit8 rd path then r = Inl VMMERR_PAGE_BAD_RESERVED_BIT
          else (a # p, proc_denies d 4 3 (rd a) \<or> dn, r) = (path, denied, out)"
          using t(4) go(2) unfolding o up by (cases "bit (rd (hd P)) 0 \<and> \<not> bit (rd (hd P)) 7 \<and> bit (rd (hd P)) 8")
            (auto simp del: bit_0)
      qed
    qed
  qed
qed

end
