(* ===== verification/Guest_Walk.thy ===== *)
theory Guest_Walk
  imports Proc_Walk
begin

text \<open>
  The translation of \<open>get_pte_sub\<close> agrees with the walk of a processor: one level, the levels below a
  large page, and the whole loop.  The one difference is bit 8 of the upper entries of long mode, which
  only AMD processors reserve.
\<close>

section \<open>One level of the walk\<close>

definition walk_env :: "'d guest_env \<Rightarrow> nat \<Rightarrow> get_pte_data \<Rightarrow> nat \<Rightarrow> bool" where
  "walk_env e n d levels = (32 \<le> n \<and> n \<le> 52 \<and> env_addr_mask e = addr_mask n \<and> d_pae d \<and> d_pse d
     \<and> (levels = 3 \<or> levels = 4))"

text \<open>The walk \<open>m\<close> has read down to the entry \<open>k\<close>.\<close>

definition walk_at :: "pmap \<Rightarrow> nat \<Rightarrow> u64 \<Rightarrow> nat \<Rightarrow> bool" where
  "walk_at m levels virt k =
     (pm_readlevel m = k \<and> pm_levels m = levels \<and> pm_type m = PMAP_TYPE_GUEST_ATOMIC \<and> pm_curaddr m = virt)"

lemma walk_reserved:
  "walk_env e n d levels \<Longrightarrow> k < levels
    \<Longrightarrow> test_pmap_entry_reserved_bit e v (Suc k) levels d = Some (arch_reserved True n (d_nxe d) levels k v)"
  by (rule reserved_test) (auto simp: walk_env_def)

definition next_entry :: "pmap \<Rightarrow> nat \<Rightarrow> u64 \<Rightarrow> u64 \<Rightarrow> pmap" where
  "next_entry m k a v =
     m\<lparr>pm_curlevel := k, pm_readlevel := k, pm_entryaddr := (pm_entryaddr m)(k := a), pm_entry := (pm_entry m)(k := v)\<rparr>"

lemma read_level:
  assumes q: "\<And>attr. quiet e attr s" and m: "walk_at m levels virt (Suc k)" and l: "levels \<noteq> 2"
    and p: "pm_entry m (Suc k) AND PDE_P_BIT \<noteq> 0" "k \<le> 1 \<Longrightarrow> pm_entry m (Suc k) AND PDE_PS_BIT = 0"
    and a: "a = entry_addr levels k (pm_entry m (Suc k)) virt" and w: "walkable e s a"
  shows "pmap_read e (pmap_setlevel (Suc k) m) s = Some (entry_at (ram s) a, next_entry m k a (entry_at (ram s) a), s)"
proof -
  have "pmap_read_loop e k m' s = Some (pm_entry m' k, m', s)" if "pm_curlevel m' = k" for m'
    using that by (cases k) auto
  then show ?thesis
    using m p l rd_entry [OF q w, of "pmap_setlevel (Suc k) m"]
    by (auto simp: pmap_read_def pmap_setlevel_def walk_at_def a next_entry_def Let_def)
qed

lemma get_pte_level_done:
  "get_pte_try e d levels i m s = Some (False, r, x, m', s') \<Longrightarrow> get_pte_level e d levels i m s = Some (r, x, m', s')"
  by (simp add: get_pte_level.simps)

lemma checked_error:
  "entry_error d (if levels = 3 \<and> Suc k = 3 then v OR PDE_RW_BIT OR PDE_US_BIT OR PDE_A_BIT else v)
    = entry_error d (checked levels k v)"
proof -
  have "entry_error d ((v OR PDE_RW_BIT OR PDE_US_BIT) OR PDE_A_BIT) = entry_error d (v OR PDE_RW_BIT OR PDE_US_BIT)"
    by (rule entry_error_keeps, rule and_keeps(2)) simp
  then show ?thesis by (simp add: or.assoc)
qed

lemma level_error:
  assumes env: "walk_env e n d levels" and k: "k < levels"
    and rd: "pmap_read e m s = Some (v, m1, s)"
    and err: "r = (if v AND PDE_P_BIT = 0 then VMMERR_PAGE_NOT_PRESENT
      else if arch_reserved True n (d_nxe d) levels k v then VMMERR_PAGE_BAD_RESERVED_BIT
      else entry_error d (checked levels k v))" "r \<noteq> VMMERR_SUCCESS"
  shows "\<exists>x. get_pte_level e d levels (Suc k) m s = Some (r, x, m1, s)"
proof -
  note ce = checked_error [of d levels k v]
  have "\<exists>x. get_pte_try e d levels (Suc k) m s = Some (False, r, x, m1, s)"
  proof (cases "v AND PDE_P_BIT = 0 \<or> arch_reserved True n (d_nxe d) levels k v")
    case True
    then show ?thesis using err(1) by (auto simp: get_pte_try_def rd walk_reserved [OF env k])
  next
    case False
    then have "r = entry_error d (if levels = 3 \<and> Suc k = 3 then v OR PDE_RW_BIT OR PDE_US_BIT OR PDE_A_BIT else v)"
      using err(1) by (simp only: ce) simp
    then show ?thesis using False err(2)
      unfolding get_pte_try_def rd walk_reserved [OF env k] Let_def by simp
  qed
  then show ?thesis using get_pte_level_done by blast
qed

lemma level_ok:
  assumes env: "walk_env e n d levels" and k: "k < levels" and q: "\<And>attr. quiet e attr s"
    and rd: "pmap_read e m s = Some (v, m1, s)" and v: "v = entry_at (ram s) a" and w: "walkable e s a"
    and m1: "at_entry m1 levels k a s"
    and ok: "v AND PDE_P_BIT \<noteq> 0" "\<not> arch_reserved True n (d_nxe d) levels k v"
      "entry_error d (checked levels k v) = VMMERR_SUCCESS"
  shows "\<exists>c x. c AND NOT 0x60 = 0
    \<and> get_pte_level e d levels (Suc k) m s
        = Some (VMMERR_SUCCESS, x, m1\<lparr>pm_entry := (pm_entry m1)(k := v OR c)\<rparr>, s\<lparr>ram := (ram s)(a := ram s a OR ucast c)\<rparr>)
    \<and> (\<not> (levels = 3 \<and> k = 2) \<longrightarrow> x = v OR c)
    \<and> (v AND PDE_PS_BIT \<noteq> 0 \<and> (k = 1 \<or> k = 2) \<longrightarrow>
         (v OR c) AND PDE_A_BIT \<noteq> 0 \<and> (d_write d \<longrightarrow> (v OR c) AND PDE_D_BIT \<noteq> 0))"
proof -
  have l: "levels \<noteq> 2" and pse: "d_pse d" using env by (auto simp: walk_env_def)
  note ce = checked_error [of d levels k v]
  show ?thesis
  proof (cases "levels = 3 \<and> k = 2")
    case True
    then have "v AND 0x80000000000001E6 = 0" using ok(2) by (simp add: arch_reserved_def)
    then have ps: "v AND PDE_PS_BIT = 0" using and_sub [of v "0x80000000000001E6" 0 PDE_PS_BIT] by simp
    have A: "(v OR PDE_RW_BIT OR PDE_US_BIT OR PDE_A_BIT) AND PDE_A_BIT \<noteq> 0"
      by (auto simp: bit_eq_iff bit_simps intro!: exI [of _ 5])
    have PS: "(v OR PDE_RW_BIT OR PDE_US_BIT OR PDE_A_BIT) AND PDE_PS_BIT = 0"
      using ps and_keeps(2) [where c = PDE_PS_BIT and a = "0x26" and w = v] by (simp add: or.assoc)
    have "get_pte_try e d levels (Suc k) m s
        = Some (False, VMMERR_SUCCESS, v OR PDE_RW_BIT OR PDE_US_BIT OR PDE_A_BIT, m1, s)"
      using ok True A PS ce pse unfolding get_pte_try_def rd walk_reserved [OF env k]
      by (simp add: set_ad_bit_def Let_def or.assoc)
    moreover have "(pm_entry m1)(k := v) = pm_entry m1" by (rule fun_upd_idem) (use m1 v in \<open>simp add: at_entry_def\<close>)
    then have "m1\<lparr>pm_entry := (pm_entry m1)(k := v OR 0)\<rparr> = m1" by simp
    moreover have "s\<lparr>ram := (ram s)(a := ram s a OR ucast (0 :: u64))\<rparr> = s" by simp
    ultimately show ?thesis using get_pte_level_done True ps
      by (intro exI [of _ 0] exI [of _ "v OR PDE_RW_BIT OR PDE_US_BIT OR PDE_A_BIT"]) simp
  next
    case False
    define setd where "setd = ((Suc k = 2 \<and> v AND PDE_PS_BIT \<noteq> 0 \<or> Suc k = 1 \<or> Suc k = 3 \<and> v AND PDE_PS_BIT \<noteq> 0) \<and> d_write d)"
    obtain c where c: "c AND NOT 0x60 = 0"
      "set_ad_bit e m1 v True setd s
        = Some (False, v OR c, m1\<lparr>pm_entry := (pm_entry m1)(k := v OR c)\<rparr>, s\<lparr>ram := (ram s)(a := ram s a OR ucast c)\<rparr>)"
      "(v OR c) AND PDE_A_BIT \<noteq> 0" "setd \<longrightarrow> (v OR c) AND PDE_D_BIT \<noteq> 0"
      using set_ad [OF q w m1 l v, of setd] by blast
    have "get_pte_try e d levels (Suc k) m s = Some (False, VMMERR_SUCCESS, v OR c,
        m1\<lparr>pm_entry := (pm_entry m1)(k := v OR c)\<rparr>, s\<lparr>ram := (ram s)(a := ram s a OR ucast c)\<rparr>)"
      using ok False pse c(2) unfolding get_pte_try_def rd walk_reserved [OF env k] setd_def by (auto simp: Let_def)
    note lv = get_pte_level_done [OF this]
    have "v AND PDE_PS_BIT \<noteq> 0 \<and> (k = 1 \<or> k = 2) \<Longrightarrow> d_write d \<Longrightarrow> setd" by (auto simp: setd_def)
    then show ?thesis using lv c by (intro exI [of _ c] exI [of _ "v OR c"]) blast
  qed
qed

section \<open>Below a large page\<close>

text \<open>The entry the walk makes at the level \<open>k + 1\<close> from the large page's entry \<open>w\<close> of level \<open>r + 1\<close>.\<close>

definition below :: "nat \<Rightarrow> nat \<Rightarrow> u64 \<Rightarrow> nat \<Rightarrow> u64 \<Rightarrow> u64" where
  "below levels r virt k w =
     (let w = (if r = 2 then split_1g virt w else w) in if k = 0 then split_large levels virt w else w)"

lemma below_keeps:
  assumes "levels \<noteq> 2" "c AND 0x1FF080 = 0" "c AND 0x3FE00000 = 0"
  shows "below levels r virt k w AND c = w AND c"
  using assms by (simp add: below_def split_large_keeps split_1g_keeps)

lemma below_1_keeps: "c AND 0x3FE00000 = 0 \<Longrightarrow> below levels 2 virt (Suc k) w AND c = w AND c"
  by (simp add: below_def split_1g_keeps)

lemma beyond_high:
  assumes "32 \<le> n" "c AND NOT (mask 32) = 0" shows "beyond n AND c = 0"
proof (rule bit_word_eqI)
  fix i assume "i < LENGTH(64)"
  have "\<not> (bit c i \<and> 32 \<le> i)"
  proof
    assume "bit c i \<and> 32 \<le> i"
    then have "bit (c AND NOT (mask 32)) i" using \<open>i < LENGTH(64)\<close> by (simp add: bit_simps)
    then show False by (simp add: assms(2))
  qed
  then show "bit (beyond n AND c) i = bit 0 i" using assms(1) by (auto simp: beyond_def bit_simps)
qed

lemma large_level:
  assumes env: "walk_env e n d levels" and m: "walk_at m levels virt r"
    and r: "r = 1 \<or> r = 2 \<and> levels = 4" "k < r"
    and w: "w = pm_entry m r" "w AND PDE_P_BIT \<noteq> 0" "w AND PDE_PS_BIT \<noteq> 0" "w AND PDE_A_BIT \<noteq> 0"
      "d_write d \<Longrightarrow> w AND PDE_D_BIT \<noteq> 0" "\<not> arch_reserved True n (d_nxe d) levels r w" "entry_error d w = VMMERR_SUCCESS"
  shows "get_pte_level e d levels (Suc k) (pmap_setlevel (Suc k) m) s
    = Some (VMMERR_SUCCESS, below levels r virt k w, pmap_setlevel (Suc k) m, s)"
proof -
  define g where "g = below levels r virt k w"
  have l: "levels \<noteq> 2" and pse: "d_pse d" and n: "32 \<le> n" using env by (auto simp: walk_env_def)
  note keep = below_keeps [OF l, of _ r virt k w, folded g_def]
  have rd: "pmap_read e (pmap_setlevel (Suc k) m) s = Some (g, pmap_setlevel (Suc k) m, s)"
    using m r w by (auto simp: pmap_read_def pmap_setlevel_def walk_at_def g_def below_def numeral_2_eq_2 less_Suc_eq)
  have bits: "g AND PDE_P_BIT \<noteq> 0" "g AND PDE_A_BIT \<noteq> 0" "d_write d \<Longrightarrow> g AND PDE_D_BIT \<noteq> 0"
    using w keep [of PDE_P_BIT] keep [of PDE_A_BIT] keep [of PDE_D_BIT] by simp_all
  have err: "entry_error d g = VMMERR_SUCCESS"
    using entry_error_keeps [of g w d] keep [of "0x8000000000000006"] w(7) by simp
  have high: "g AND beyond n = w AND beyond n" by (rule keep; rule beyond_high [OF n]) (simp_all add: mask_eq_exp_minus_1)
  have res: "\<not> arch_reserved True n (d_nxe d) levels k g"
  proof (cases "k = 0")
    case True
    then show ?thesis using w(6) high keep [of PDE_NX_BIT] keep [of "0x7FF0000000000000"]
      by (auto simp: arch_reserved_def split: if_splits)
  next
    case False
    then have k1: "k = 1" "r = 2" "levels = 4" using r by auto
    have z: "w AND 0x3FFFE000 = 0" using w(3,6) k1 by (simp add: arch_reserved_def)
    have "g AND 0x1FE000 = w AND 0x1FE000" using k1 below_1_keeps [of "0x1FE000" levels virt 0 w] by (simp add: g_def)
    also have "\<dots> = 0" using and_sub [of w "0x3FFFE000" 0 "0x1FE000"] z by simp
    finally show ?thesis using w(6) high keep [of PDE_NX_BIT] k1 by (auto simp: arch_reserved_def split: if_splits)
  qed
  have k3: "k \<noteq> 2" using r by auto
  have "k < levels" using r env by (auto simp: walk_env_def)
  note tr = walk_reserved [OF env this, of g]
  have "get_pte_try e d levels (Suc k) (pmap_setlevel (Suc k) m) s
      = Some (False, VMMERR_SUCCESS, g, pmap_setlevel (Suc k) m, s)"
    using bits err res k3 pse unfolding get_pte_try_def rd
    by (auto simp: tr set_ad_bit_def Let_def)
  then show ?thesis unfolding g_def by (rule get_pte_level_done)
qed

text \<open>The rest of the loop below a large page.\<close>

lemma large_loop:
  assumes env: "walk_env e n d levels" and m: "walk_at m levels virt r"
    and r: "r = 1 \<or> r = 2 \<and> levels = 4"
    and w: "w = pm_entry m r" "w AND PDE_P_BIT \<noteq> 0" "w AND PDE_PS_BIT \<noteq> 0" "w AND PDE_A_BIT \<noteq> 0"
      "d_write d \<Longrightarrow> w AND PDE_D_BIT \<noteq> 0" "\<not> arch_reserved True n (d_nxe d) levels r w" "entry_error d w = VMMERR_SUCCESS"
  shows "0 < k \<Longrightarrow> k \<le> r \<Longrightarrow> \<exists>entries'. get_pte_loop e d levels k m entries s = Some (VMMERR_SUCCESS, entries', s)
    \<and> entries' 0 = below levels r virt 0 w"
  using m w(1)
proof (induction k arbitrary: m entries)
  case (Suc k)
  have m': "walk_at (pmap_setlevel (Suc k) m) levels virt r" "w = pm_entry (pmap_setlevel (Suc k) m) r"
    using Suc.prems by (simp_all add: walk_at_def pmap_setlevel_def)
  have "k < r" using Suc.prems by simp
  note st = large_level [OF env Suc.prems(3) r this Suc.prems(4) w(2-7), where s = s]
  show ?case
  proof (cases "k = 0")
    case True
    then show ?thesis using st by simp
  next
    case False
    then show ?thesis using st Suc.IH [OF _ _ m'] Suc.prems(2) by simp
  qed
qed simp

section \<open>The whole walk\<close>

lemma walkable_ram: "walkable e (s\<lparr>ram := mem\<rparr>) a = walkable e s a"
  by (simp add: walkable_def no_mmio_def)

lemma ad_only_set:
  fixes c :: u64
  assumes "ad_only P mem0 mem" "a \<in> P" "c AND NOT 0x60 = 0"
  shows "ad_only P mem0 (mem(a := mem a OR ucast c))"
proof -
  have "ucast c OR (0x60 :: u8) = 0x60"
  proof -
    have "c OR 0x60 = 0x60" using assms(3) by (auto simp: bit_eq_iff bit_simps)
    then have "ucast (c OR 0x60) = (ucast (0x60 :: u64) :: u8)" by simp
    then show ?thesis by (simp add: unsigned_or_eq)
  qed
  then have "(mem a OR ucast c) OR 0x60 = mem a OR 0x60" by (simp add: or.assoc)
  moreover have "mem a OR 0x60 = mem0 a OR 0x60" using assms(1) unfolding ad_only_def by metis
  ultimately show ?thesis using assms by (auto simp: ad_only_def)
qed

lemma entry_addr_ad: "ad_eq t u \<Longrightarrow> \<not> (levels = 3 \<and> k = 2) \<Longrightarrow> entry_addr levels k t virt = entry_addr levels k u virt"
  using ad_eq_and [of t u "0x0000FFFFFFFFF000"] by (auto simp: entry_addr_def)

lemma below_ad_eq: "levels \<noteq> 2 \<Longrightarrow> ad_eq v w \<Longrightarrow> ad_eq (below levels r virt k v) (below levels r virt k w)"
  by (simp add: below_def Let_def split_ad_eq)

lemma loop_walk:
  assumes env: "walk_env e n d levels" and q: "\<And>attr. quiet e attr s0" and P: "\<forall>a\<in>P. walkable e s0 a"
  shows "k \<le> levels \<Longrightarrow> walk_at m levels virt k \<Longrightarrow> ad_eq (pm_entry m k) table \<Longrightarrow> (k = levels \<longrightarrow> pm_entry m k = table)
    \<Longrightarrow> (k = 0 \<longrightarrow> ad_eq (entries 0) table) \<Longrightarrow> pm_entry m k AND PDE_P_BIT \<noteq> 0
    \<Longrightarrow> (k = 1 \<or> k = 2 \<longrightarrow> pm_entry m k AND PDE_PS_BIT = 0)
    \<Longrightarrow> ad_only P (ram s0) mem \<Longrightarrow> (k = levels \<longrightarrow> mem = ram s0)
    \<Longrightarrow> set (fst (ref_walk (entry_at (ram s0)) n d levels virt k table)) \<subseteq> P
    \<Longrightarrow> \<exists>r entries' mem'. get_pte_loop e d levels k m entries (s0\<lparr>ram := mem\<rparr>) = Some (r, entries', s0\<lparr>ram := mem'\<rparr>)
      \<and> ad_only P (ram s0) mem'
      \<and> (case snd (ref_walk (entry_at (ram s0)) n d levels virt k table) of
           Inl err \<Rightarrow> r = err | Inr pte \<Rightarrow> r = VMMERR_SUCCESS \<and> ad_eq (entries' 0) pte)"
proof (induction k arbitrary: m table entries mem)
  case (Suc k)
  let ?s = "s0\<lparr>ram := mem\<rparr>" and ?T = "pm_entry m (Suc k)" and ?m = "pmap_setlevel (Suc k) m"
  define a where "a = entry_addr levels k table virt"
  define v v0 where "v = entry_at mem a" and "v0 = entry_at (ram s0) a"
  have l: "levels \<noteq> 2" "levels = 3 \<or> levels = 4" and n: "32 \<le> n" and k: "k < levels"
    using env Suc.prems(1) by (auto simp: walk_env_def)
  have top: "levels = 3 \<and> k = 2 \<Longrightarrow> ?T = table \<and> mem = ram s0" using Suc.prems(4,9) by simp
  have a': "a = entry_addr levels k ?T virt"
    using top entry_addr_ad [OF Suc.prems(3)] by (cases "levels = 3 \<and> k = 2") (auto simp: a_def)
  let ?ref = "ref_walk (entry_at (ram s0)) n d levels virt (Suc k) table"
  have aP: "a \<in> P" using Suc.prems(10) by (auto simp: Let_def a_def split: if_splits prod.splits)
  have w: "walkable e ?s a" using P aP by (simp add: walkable_ram)
  have "\<forall>a\<in>P. \<not> phys_in_vmm (env_gmm e) a" using P by (simp add: walkable_def)
  have q': "quiet e attr (s0\<lparr>ram := mem\<rparr>)" for attr using q by simp
  have rd: "pmap_read e ?m ?s = Some (v, next_entry m k a v, ?s)"
  proof -
    have "Suc k = 1 \<or> Suc k = 2" if "k \<le> 1" using that by auto
    then have "k \<le> 1 \<Longrightarrow> ?T AND PDE_PS_BIT = 0" using Suc.prems(7) by blast
    from read_level [OF q' Suc.prems(2) l(1) Suc.prems(6) this a' w] show ?thesis by (simp add: v_def)
  qed
  have vv: "ad_eq v v0" using ad_only_entry [OF Suc.prems(8), of a] P aP by (simp add: ad_eq_def v_def v0_def walkable_def)
  have veq: "levels = 3 \<and> k = 2 \<Longrightarrow> v = v0" using top by (simp add: v_def v0_def)
  have bits: "v AND PDE_P_BIT = v0 AND PDE_P_BIT" "v AND PDE_PS_BIT = v0 AND PDE_PS_BIT"
    by (rule ad_eq_and [OF vv], simp)+
  have res: "arch_reserved True n (d_nxe d) levels k v = arch_reserved True n (d_nxe d) levels k v0"
    using arch_reserved_ad [OF vv _ n] veq l(2) by (cases "levels = 3 \<and> k = 2") auto
  have err: "entry_error d (checked levels k v) = entry_error d (checked levels k v0)"
    using entry_error_keeps [OF ad_eq_and [OF vv]] veq by (cases "levels = 3 \<and> k = 2") auto
  show ?case
  proof (cases "v AND PDE_P_BIT = 0 \<or> arch_reserved True n (d_nxe d) levels k v \<or> entry_error d (checked levels k v) \<noteq> VMMERR_SUCCESS")
    case True
    define r where "r = (if v AND PDE_P_BIT = 0 then VMMERR_PAGE_NOT_PRESENT
      else if arch_reserved True n (d_nxe d) levels k v then VMMERR_PAGE_BAD_RESERVED_BIT
      else entry_error d (checked levels k v))"
    have rs: "r \<noteq> VMMERR_SUCCESS" using True by (auto simp: r_def)
    obtain x where "get_pte_level e d levels (Suc k) ?m ?s = Some (r, x, next_entry m k a v, ?s)"
      using level_error [OF env k rd r_def rs] by blast
    moreover have "snd ?ref = Inl r"
      using True bits(1) res err by (auto simp: Let_def a_def [symmetric] v0_def [symmetric] r_def)
    ultimately show ?thesis using rs Suc.prems(8) by (intro exI [of _ r] exI [of _ entries] exI [of _ mem]) simp
  next
    case ok: False
    have at: "at_entry (next_entry m k a v) levels k a ?s"
      using Suc.prems(2) by (simp add: at_entry_def next_entry_def walk_at_def v_def)
    have vs: "v = entry_at (ram ?s) a" by (simp add: v_def)
    define m2 where "m2 = (\<lambda>c. next_entry m k a v\<lparr>pm_entry := (pm_entry (next_entry m k a v))(k := v OR c)\<rparr>)"
    obtain c x where c: "c AND NOT 0x60 = 0"
      and lv: "get_pte_level e d levels (Suc k) ?m ?s = Some (VMMERR_SUCCESS, x, m2 c, s0\<lparr>ram := mem(a := mem a OR ucast c)\<rparr>)"
      and x: "\<not> (levels = 3 \<and> k = 2) \<longrightarrow> x = v OR c"
      and AD: "v AND PDE_PS_BIT \<noteq> 0 \<and> (k = 1 \<or> k = 2) \<longrightarrow>
         (v OR c) AND PDE_A_BIT \<noteq> 0 \<and> (d_write d \<longrightarrow> (v OR c) AND PDE_D_BIT \<noteq> 0)"
      using level_ok [OF env k q' rd vs w at] ok by (auto simp: m2_def)
    define mem2 where "mem2 = mem(a := mem a OR ucast c)"
    have ad2: "ad_only P (ram s0) mem2" unfolding mem2_def by (rule ad_only_set [OF Suc.prems(8) aP c])
    have e2: "pm_entry (m2 c) k = v OR c" "walk_at (m2 c) levels virt k"
      using Suc.prems(2) by (simp_all add: m2_def next_entry_def walk_at_def)
    have vc: "ad_eq (v OR c) v" "ad_eq (v OR c) v0" using ad_eq_or [OF c] vv ad_eq_trans by blast+
    have bits2: "(v OR c) AND PDE_P_BIT \<noteq> 0" "(v OR c) AND PDE_PS_BIT = v AND PDE_PS_BIT"
      using ad_eq_and [OF vc(1), of PDE_P_BIT] ad_eq_and [OF vc(1), of PDE_PS_BIT] ok by simp_all
    let ?loop = "get_pte_loop e d levels (Suc k) m entries ?s"
    have step: "?loop = get_pte_loop e d levels k (m2 c) (entries(k := x)) (s0\<lparr>ram := mem2\<rparr>)"
      using lv by (simp add: mem2_def)
    show ?thesis
    proof (cases "v AND PDE_PS_BIT \<noteq> 0 \<and> (k = 1 \<or> k = 2)")
      case True
      have r: "k = 1 \<or> k = 2 \<and> levels = 4"
      proof (rule ccontr)
        assume "\<not> ?thesis"
        then have "v AND 0x80000000000001E6 = 0" using True ok l(2) by (auto simp: arch_reserved_def)
        then show False using and_sub [of v "0x80000000000001E6" 0 PDE_PS_BIT] True by simp
      qed
      have "\<not> arch_reserved True n (d_nxe d) levels k (v OR c)" using arch_reserved_ad [OF vc(1) _ n] r ok by auto
      moreover have "entry_error d (v OR c) = VMMERR_SUCCESS"
        using entry_error_keeps [OF ad_eq_and [OF vc(1)], of d] ok r l(2) by (auto split: if_splits)
      ultimately obtain entries' where "get_pte_loop e d levels k (m2 c) (entries(k := x)) (s0\<lparr>ram := mem2\<rparr>)
          = Some (VMMERR_SUCCESS, entries', s0\<lparr>ram := mem2\<rparr>)" "entries' 0 = below levels k virt 0 (v OR c)"
        using large_loop [OF env e2(2) r e2(1) [symmetric] bits2(1), of k] bits2(2) True AD by fastforce
      moreover have "ad_eq (below levels k virt 0 (v OR c)) (below levels k virt 0 v0)" by (rule below_ad_eq [OF l(1) vc(2)])
      moreover have "snd ?ref = Inr (below levels k virt 0 v0)"
        using ok bits res err True r by (auto simp: Let_def a_def [symmetric] v0_def [symmetric] below_def)
      ultimately show ?thesis using step ad2 by (intro exI [of _ VMMERR_SUCCESS] exI [of _ entries'] exI [of _ mem2]) simp
    next
      case False
      have ref: "?ref = (a # fst (ref_walk (entry_at (ram s0)) n d levels virt k v0), snd (ref_walk (entry_at (ram s0)) n d levels virt k v0))"
        using ok bits res err False by (auto simp: Let_def a_def [symmetric] v0_def [symmetric] split: prod.splits)
      have "\<exists>r entries' mem'. get_pte_loop e d levels k (m2 c) (entries(k := x)) (s0\<lparr>ram := mem2\<rparr>)
          = Some (r, entries', s0\<lparr>ram := mem'\<rparr>) \<and> ad_only P (ram s0) mem'
        \<and> (case snd (ref_walk (entry_at (ram s0)) n d levels virt k v0) of
           Inl err \<Rightarrow> r = err | Inr pte \<Rightarrow> r = VMMERR_SUCCESS \<and> ad_eq (entries' 0) pte)"
        by (rule Suc.IH) (use k e2 vc(2) bits2 x False ad2 Suc.prems(10) ref in auto)
      then show ?thesis unfolding step ref by simp
    qed
  qed
qed auto

section \<open>The translation\<close>

text \<open>
  The walk of the code with PAE (3 levels) or in long mode (4 levels), and that of a processor of AMD
  (\<open>amd\<close>) or Intel.
\<close>

definition code_walk ::
  "physmem \<Rightarrow> nat \<Rightarrow> get_pte_data \<Rightarrow> u64 \<Rightarrow> u64 \<Rightarrow> u64 list \<times> (vmmerr + u64)" where
  "code_walk mem n d virt pcr3 =
     (let levels = (if d_lme d then 4 else 3) in ref_walk (entry_at mem) n d levels virt levels pcr3)"

definition arch_walk ::
  "bool \<Rightarrow> physmem \<Rightarrow> nat \<Rightarrow> get_pte_data \<Rightarrow> u64 \<Rightarrow> u64 \<Rightarrow> u64 list \<times> bool \<times> (vmmerr + u64)" where
  "arch_walk amd mem n d virt pcr3 =
     (let levels = (if d_lme d then 4 else 3) in proc_walk amd (entry_at mem) n d levels virt levels pcr3)"

text \<open>The entries on the path that only AMD's processors take for malformed.\<close>

definition amd_only_fault :: "physmem \<Rightarrow> get_pte_data \<Rightarrow> u64 list \<Rightarrow> bool" where
  "amd_only_fault mem d path = (d_lme d \<and> upper_bit8 (entry_at mem) path)"

lemma arch_walk_vendor:
  assumes "arch_walk False mem n d virt pcr3 = (path, denied, out)"
  obtains p dn r where "arch_walk True mem n d virt pcr3 = (p, dn, r)" "set p \<subseteq> set path"
    "if amd_only_fault mem d path then r = Inl VMMERR_PAGE_BAD_RESERVED_BIT else (p, dn, r) = (path, denied, out)"
proof (cases "d_lme d")
  case True
  have "proc_walk False (entry_at mem) n d 4 virt 4 pcr3 = (path, denied, out)"
    using assms True by (simp add: arch_walk_def del: proc_walk.simps)
  then obtain p dn r where "proc_walk True (entry_at mem) n d 4 virt 4 pcr3 = (p, dn, r)" "set p \<subseteq> set path"
    "if upper_bit8 (entry_at mem) path then r = Inl VMMERR_PAGE_BAD_RESERVED_BIT else (p, dn, r) = (path, denied, out)"
    by (rule vendor_4)
  then show ?thesis using that True by (simp add: arch_walk_def amd_only_fault_def del: proc_walk.simps)
next
  case False
  then have "arch_walk True mem n d virt pcr3 = arch_walk False mem n d virt pcr3"
    using proc_walk_vendor [of 3 3] by (simp add: arch_walk_def del: proc_walk.simps)
  then show ?thesis using that [of path denied out] assms False by (simp add: amd_only_fault_def)
qed

text \<open>What the registers hold: in long mode no address bits beyond the width, with PAE 32-bit addresses.\<close>

definition walk_regs :: "nat \<Rightarrow> get_pte_data \<Rightarrow> u64 \<Rightarrow> u64 \<Rightarrow> bool" where
  "walk_regs n d virt pcr3 =
     (d_pg d \<and> (if d_lme d then pcr3 AND beyond n = 0 else d_pae d \<and> virt \<le> 0xFFFFFFFF))"

lemma code_walk_arch:
  assumes "n \<le> 48" "walk_regs n d virt pcr3" and "arch_walk True mem n d virt pcr3 = (path, denied, out)"
  obtains p r where "code_walk mem n d virt pcr3 = (p, r)" "set p \<subseteq> set path"
    "if denied then \<exists>err. r = Inl err \<and> rights_fault err else r = out"
proof -
  obtain p r where c: "code_walk mem n d virt pcr3 = (p, r)" by fastforce
  have "set p \<subseteq> set path \<and> (if denied then \<exists>err. r = Inl err \<and> rights_fault err else r = out)"
    by (rule walk_proc [OF _ assms(1) _ _ c [unfolded code_walk_def Let_def] assms(3) [unfolded arch_walk_def Let_def]])
      (use assms(2) in \<open>auto simp: walk_regs_def split: if_splits\<close>)
  then show ?thesis using c that by blast
qed

lemma ref_walk_cong:
  assumes "\<And>v. entry_error d' v = entry_error d v" "d_nxe d' = d_nxe d"
  shows "ref_walk rd n d' levels virt k table = ref_walk rd n d levels virt k table"
proof (induction k arbitrary: table)
  case (Suc k)
  show ?case unfolding ref_walk.simps assms Suc ..
qed simp

lemma ref_walk_table:
  "entry_addr levels k t virt = entry_addr levels k u virt
    \<Longrightarrow> ref_walk rd n d levels virt (Suc k) t = ref_walk rd n d levels virt (Suc k) u"
  by simp

lemma open_guest:
  fixes virt root :: u64 and m :: pmap
  assumes "levels = 3 \<or> levels = 4"
  defines "m' \<equiv> pmap_seek virt (levels + 1) (pmap_open_guest m root levels True)"
  shows "pmap_read e m' s = Some (pm_entry m' levels, m', s)"
    and "walk_at m' levels virt levels"
    and "pm_entry m' levels AND PDE_P_BIT \<noteq> 0"
    and "entry_addr levels (levels - 1) (pm_entry m' levels) virt = entry_addr levels (levels - 1) root virt"
proof -
  have "m' = m\<lparr>pm_levels := levels, pm_readlevel := levels, pm_curlevel := levels, pm_curaddr := virt,
      pm_entry := (pm_entry m)(levels := (root AND ((if levels = 3 then NOT 0x1F else NOT PAGESIZE_MASK) OR PDE_CACHE_BITS)) OR PDE_P_BIT),
      pm_type := PMAP_TYPE_GUEST_ATOMIC\<rparr>"
    by (simp add: m'_def pmap_seek_def pmap_open_guest_def pmap_setlevel_def Let_def)
  moreover have "((root AND a) OR PDE_P_BIT) AND c = root AND c" if "a AND c = c" "PDE_P_BIT AND c = 0" for a c :: u64
    using that by (auto simp: bit_eq_iff bit_simps)
  note this [of "NOT 0x1F OR PDE_CACHE_BITS" "0xFFFFFFE0"] this [of "NOT PAGESIZE_MASK OR PDE_CACHE_BITS" "0x0000FFFFFFFFF000"]
  ultimately show "pmap_read e m' s = Some (pm_entry m' levels, m', s)" "walk_at m' levels virt levels"
    "pm_entry m' levels AND PDE_P_BIT \<noteq> 0"
    "entry_addr levels (levels - 1) (pm_entry m' levels) virt = entry_addr levels (levels - 1) root virt"
    using assms(1)
    by (auto simp: pmap_read_def walk_at_def eval_nat_numeral entry_addr_def simp del: pmap_read_loop.simps) (simp_all add: and_or_zero)
qed

lemma walk_result:
  assumes "\<And>attr. quiet e attr s" and "env_addr_mask e = addr_mask n" "32 \<le> n" "n \<le> 52"
    and "d_pg d" "d_lme d \<or> d_pae d"
    and "code_walk (ram s) n d virt pcr3 = (path, res)" "\<forall>a\<in>set path. walkable e s a"
  shows "\<exists>r entries' levels mem. get_pte_sub e m virt pcr3 d entries s = Some (r, entries', levels, s\<lparr>ram := mem\<rparr>)
    \<and> (case res of Inl err \<Rightarrow> r = err | Inr pte \<Rightarrow> r = VMMERR_SUCCESS \<and> ad_eq (entries' 0) pte)
    \<and> (\<forall>x. mem x = ram s x \<or> x \<in> set path \<and> mem x OR 0x60 = ram s x OR 0x60)"
proof -
  define levels where "levels = (if d_lme d then 4 else 3 :: nat)"
  define d' where "d' = (if d_lme d then d\<lparr>d_pae := True, d_pse := True\<rparr> else d\<lparr>d_pse := True\<rparr>)"
  have l: "levels = 3 \<or> levels = 4" by (simp add: levels_def)
  define m' where "m' = pmap_seek virt (levels + 1) (pmap_open_guest m pcr3 levels True)"
  note o = open_guest [OF l, where virt = virt and m = m and root = pcr3, folded m'_def]
  have env: "walk_env e n d' levels" using assms by (auto simp: walk_env_def d'_def levels_def)
  have lk: "levels = Suc (levels - 1)" using l by auto
  have walk: "ref_walk (entry_at (ram s)) n d' levels virt levels (pm_entry m' levels) = (path, res)"
  proof -
    have "ref_walk (entry_at (ram s)) n d' levels virt levels (pm_entry m' levels)
        = ref_walk (entry_at (ram s)) n d' levels virt levels pcr3"
      by (subst lk, subst (2) lk) (rule ref_walk_table [OF o(4)])
    also have "\<dots> = ref_walk (entry_at (ram s)) n d levels virt levels pcr3"
    proof (rule ref_walk_cong)
      have "d_user d' = d_user d" "d_write d' = d_write d" "d_wp d' = d_wp d" "d_exec d' = d_exec d" "d_nxe d' = d_nxe d"
        by (simp_all add: d'_def)
      then show "entry_error d' v = entry_error d v" "d_nxe d' = d_nxe d" for v by (simp_all add: entry_error_def)
    qed
    finally show ?thesis using assms(7) by (simp only: code_walk_def levels_def Let_def)
  qed
  define entries1 where "entries1 = entries(levels := pm_entry m' levels OR PDE_RW_BIT OR PDE_US_BIT OR PDE_A_BIT)"
  have sub: "get_pte_sub e m virt pcr3 d entries s
      = map_option (\<lambda>(r, entries, s). (r, entries, levels, s)) (get_pte_loop e d' levels levels m' entries1 s)"
    using assms(5,6) o(1) [of e s] by (auto simp: get_pte_sub_def levels_def d'_def m'_def entries1_def Let_def)
  have loop: "\<exists>r entries' mem'. get_pte_loop e d' levels levels m' entries1 (s\<lparr>ram := ram s\<rparr>) = Some (r, entries', s\<lparr>ram := mem'\<rparr>)
      \<and> ad_only (set path) (ram s) mem'
      \<and> (case snd (ref_walk (entry_at (ram s)) n d' levels virt levels (pm_entry m' levels)) of
           Inl err \<Rightarrow> r = err | Inr pte \<Rightarrow> r = VMMERR_SUCCESS \<and> ad_eq (entries' 0) pte)"
    by (rule loop_walk [OF env assms(1,8)]) (use o l walk in \<open>auto simp: ad_only_def\<close>)
  obtain r entries' mem' where "get_pte_loop e d' levels levels m' entries1 s = Some (r, entries', s\<lparr>ram := mem'\<rparr>)"
    "ad_only (set path) (ram s) mem'"
    "case res of Inl err \<Rightarrow> r = err | Inr pte \<Rightarrow> r = VMMERR_SUCCESS \<and> ad_eq (entries' 0) pte"
    using loop unfolding walk by auto
  then show ?thesis unfolding sub
    by (intro exI [of _ r] exI [of _ entries'] exI [of _ levels] exI [of _ mem']) (auto simp: ad_only_def)
qed

lemma walk_amd_result:
  assumes q: "\<And>attr. quiet e attr s" and m: "env_addr_mask e = addr_mask n" "32 \<le> n" "n \<le> 48"
    and rg: "walk_regs n d virt pcr3"
    and w: "arch_walk True (ram s) n d virt pcr3 = (path, denied, res)" "\<forall>a\<in>set path. walkable e s a"
  shows "\<exists>r entries' levels mem. get_pte_sub e m virt pcr3 d entries s = Some (r, entries', levels, s\<lparr>ram := mem\<rparr>)
    \<and> (if denied then rights_fault r
       else case res of Inl err \<Rightarrow> r = err | Inr pte \<Rightarrow> r = VMMERR_SUCCESS \<and> ad_eq (entries' 0) pte)
    \<and> (\<forall>x. mem x = ram s x \<or> x \<in> set path \<and> mem x OR 0x60 = ram s x OR 0x60)"
proof -
  obtain p r where c: "code_walk (ram s) n d virt pcr3 = (p, r)" "set p \<subseteq> set path"
    "if denied then \<exists>err. r = Inl err \<and> rights_fault err else r = res"
    by (rule code_walk_arch [OF m(3) rg w(1)])
  have p: "\<forall>a\<in>set p. walkable e s a" using w(2) c(2) by blast
  have "n \<le> 52" using m(3) by simp
  from walk_result [OF q m(1,2) this _ _ c(1) p, of m entries] rg
  obtain x entries' levels mem where g: "get_pte_sub e m virt pcr3 d entries s = Some (x, entries', levels, s\<lparr>ram := mem\<rparr>)"
    "case r of Inl err \<Rightarrow> x = err | Inr pte \<Rightarrow> x = VMMERR_SUCCESS \<and> ad_eq (entries' 0) pte"
    "\<forall>x. mem x = ram s x \<or> x \<in> set p \<and> mem x OR 0x60 = ram s x OR 0x60"
    by (auto simp: walk_regs_def split: if_splits)
  moreover have "if denied then rights_fault x
      else case res of Inl err \<Rightarrow> x = err | Inr pte \<Rightarrow> x = VMMERR_SUCCESS \<and> ad_eq (entries' 0) pte"
    using g(2) c(3) by (cases denied) auto
  ultimately show ?thesis using c(2) by blast
qed

lemma proc_walk_error: "proc_walk amd rd n d levels virt k table = (path, denied, Inl err) \<Longrightarrow> err \<noteq> VMMERR_SUCCESS"
proof (induction k arbitrary: table path denied)
  case (Suc k)
  then show ?case by (auto simp: Let_def simp del: bit_0 split: if_splits prod.splits)
qed simp

lemma proc_walk_allowed:
  "\<not> d_user d \<Longrightarrow> \<not> d_write d \<Longrightarrow> \<not> d_exec d \<Longrightarrow> proc_walk amd rd n d levels virt k table = (path, denied, out) \<Longrightarrow> \<not> denied"
proof (induction k arbitrary: table path denied)
  case (Suc k)
  then show ?case by (auto simp: Let_def proc_denies_def simp del: bit_0 split: if_splits prod.splits)
qed simp

text \<open>
  The same for both: where a processor of Intel ignores a bit that the code takes for reserved, the
  code reports it, unless the rights of an entry above fail before.
\<close>

lemma walk_arch_result:
  assumes q: "\<And>attr. quiet e attr s" and m: "env_addr_mask e = addr_mask n" "32 \<le> n" "n \<le> 48"
    and rg: "walk_regs n d virt pcr3"
    and w: "arch_walk amd (ram s) n d virt pcr3 = (path, denied, res)" "\<forall>a\<in>set path. walkable e s a"
  shows "\<exists>r entries' levels mem. get_pte_sub e m virt pcr3 d entries s = Some (r, entries', levels, s\<lparr>ram := mem\<rparr>)
    \<and> (if \<not> amd \<and> amd_only_fault (ram s) d path
       then r = VMMERR_PAGE_BAD_RESERVED_BIT \<or> (d_user d \<or> d_write d \<or> d_exec d) \<and> rights_fault r
       else if denied then rights_fault r
       else case res of Inl err \<Rightarrow> r = err | Inr pte \<Rightarrow> r = VMMERR_SUCCESS \<and> ad_eq (entries' 0) pte)
    \<and> (\<forall>x. mem x = ram s x \<or> x \<in> set path \<and> mem x OR 0x60 = ram s x OR 0x60)"
proof (cases amd)
  case True
  then show ?thesis using walk_amd_result [OF q m rg, of path denied res m entries] w by simp
next
  case False
  obtain p dn oc where t: "arch_walk True (ram s) n d virt pcr3 = (p, dn, oc)" "set p \<subseteq> set path"
    "if amd_only_fault (ram s) d path then oc = Inl VMMERR_PAGE_BAD_RESERVED_BIT else (p, dn, oc) = (path, denied, res)"
    using w(1) False by (auto elim: arch_walk_vendor)
  have al: "dn \<Longrightarrow> d_user d \<or> d_write d \<or> d_exec d"
    using proc_walk_allowed [OF _ _ _ t(1) [unfolded arch_walk_def Let_def]] by blast
  have "\<forall>a\<in>set p. walkable e s a" using t(2) w(2) by blast
  from walk_amd_result [OF q m rg t(1) this, of m entries]
  obtain r entries' levels mem where r: "get_pte_sub e m virt pcr3 d entries s = Some (r, entries', levels, s\<lparr>ram := mem\<rparr>)"
    "if dn then rights_fault r
     else case oc of Inl err \<Rightarrow> r = err | Inr pte \<Rightarrow> r = VMMERR_SUCCESS \<and> ad_eq (entries' 0) pte"
    "\<forall>x. mem x = ram s x \<or> x \<in> set p \<and> mem x OR 0x60 = ram s x OR 0x60"
    by blast
  have "if \<not> amd \<and> amd_only_fault (ram s) d path
       then r = VMMERR_PAGE_BAD_RESERVED_BIT \<or> (d_user d \<or> d_write d \<or> d_exec d) \<and> rights_fault r
       else if denied then rights_fault r
       else case res of Inl err \<Rightarrow> r = err | Inr pte \<Rightarrow> r = VMMERR_SUCCESS \<and> ad_eq (entries' 0) pte"
    using r(2) t(3) al False by (cases "amd_only_fault (ram s) d path"; cases dn) auto
  then show ?thesis using r(1,3) t(2) by blast
qed

text \<open>
  C8: The translation of a guest's linear address in PAE or long mode agrees with the walk a processor
  with pages of 1GB makes over the same tables, for physical addresses of 32 to 48 bits, when every
  table entry on the way lies in ordinary memory of the guest (outside the VMM and registered I/O) and
  no I/O handler waits for its removal: it always comes to an end; it fails exactly where the
  processor raises a page fault, and with the same cause unless an entry forbids the access, which the
  code reports before it looks further down; it yields the processor's entry otherwise, also where
  large pages of 2MB or 1GB are split; and of the guest's memory it changes only accessed and dirty
  bits of the entries on the way.  There is one exception: the code takes bit 8 of the upper
  entries of long mode for reserved, as AMD's processors do; on Intel's, which ignore it, the
  translation fails with a reserved bit (or with the rights of an entry above) where the processor's
  walk goes on.
\<close>

theorem guest_walk_correct:
  assumes "\<And>attr. quiet e attr s" and "env_addr_mask e = addr_mask n" "32 \<le> n" "n \<le> 48"
    and "walk_regs n d virt pcr3"
    and "arch_walk amd (ram s) n d virt pcr3 = (path, denied, res)" "\<forall>a\<in>set path. walkable e s a"
  shows "\<exists>r entries' levels mem. get_pte_sub e m virt pcr3 d entries s = Some (r, entries', levels, s\<lparr>ram := mem\<rparr>)
    \<and> (if \<not> amd \<and> amd_only_fault (ram s) d path
       then r = VMMERR_PAGE_BAD_RESERVED_BIT \<or> r = VMMERR_PAGE_NOT_ACCESSIBLE \<or> r = VMMERR_PAGE_NOT_EXECUTABLE
       else if denied then r = VMMERR_PAGE_NOT_ACCESSIBLE \<or> r = VMMERR_PAGE_NOT_EXECUTABLE
       else case res of Inl err \<Rightarrow> r = err | Inr pte \<Rightarrow> r = VMMERR_SUCCESS \<and> entries' 0 OR 0x60 = pte OR 0x60)
    \<and> (\<forall>x. mem x = ram s x \<or> x \<in> set path \<and> mem x OR 0x60 = ram s x OR 0x60)"
proof -
  from walk_arch_result [OF assms, of m entries]
  obtain r entries' levels mem where r: "get_pte_sub e m virt pcr3 d entries s = Some (r, entries', levels, s\<lparr>ram := mem\<rparr>)"
    "if \<not> amd \<and> amd_only_fault (ram s) d path
     then r = VMMERR_PAGE_BAD_RESERVED_BIT \<or> (d_user d \<or> d_write d \<or> d_exec d) \<and> rights_fault r
     else if denied then rights_fault r
     else case res of Inl err \<Rightarrow> r = err | Inr pte \<Rightarrow> r = VMMERR_SUCCESS \<and> ad_eq (entries' 0) pte"
    "\<forall>x. mem x = ram s x \<or> x \<in> set path \<and> mem x OR 0x60 = ram s x OR 0x60"
    by blast
  from r(2) have "if \<not> amd \<and> amd_only_fault (ram s) d path
       then r = VMMERR_PAGE_BAD_RESERVED_BIT \<or> r = VMMERR_PAGE_NOT_ACCESSIBLE \<or> r = VMMERR_PAGE_NOT_EXECUTABLE
       else if denied then r = VMMERR_PAGE_NOT_ACCESSIBLE \<or> r = VMMERR_PAGE_NOT_EXECUTABLE
       else case res of Inl err \<Rightarrow> r = err | Inr pte \<Rightarrow> r = VMMERR_SUCCESS \<and> entries' 0 OR 0x60 = pte OR 0x60"
    unfolding ad_eq_def by (auto split: if_splits)
  with r(1,3) show ?thesis by blast
qed

section \<open>An example\<close>

text \<open>Tables of long mode at 4KB, 8KB and 12KB that map the first 2MB to the second ones.\<close>

definition sample_tables :: physmem where
  "sample_tables = (\<lambda>_. 0)(0x1000 := 0x03, 0x1001 := 0x20, 0x2000 := 0x03, 0x2001 := 0x30, 0x3000 := 0x83, 0x3002 := 0x20)"

definition sample_walk :: get_pte_data where
  "sample_walk = \<lparr>d_pg = True, d_wp = True, d_pse = True, d_pae = True, d_lme = True, d_nxe = True,
     d_write = True, d_user = False, d_exec = False\<rparr>"

lemma sample_entries:
  "entry_at sample_tables 0x1000 = 0x2003" "entry_at sample_tables 0x2000 = 0x3003" "entry_at sample_tables 0x3000 = 0x200083"
  by (simp_all add: entry_at_def read_mem_def sample_tables_def upt_rec)

lemma sample_arch_walk:
  assumes "d_lme d" "d_nxe d" "\<not> d_user d" "\<not> d_exec d"
  shows "arch_walk amd sample_tables 40 d 0x12345 0x1000 = ([0x1000, 0x2000, 0x3000], False, Inr 0x212003)"
    and "\<not> amd_only_fault sample_tables d [0x1000, 0x2000, 0x3000]"
proof -
  let ?walk = "proc_walk amd (entry_at sample_tables) 40 d 4 0x12345"
  have "?walk (Suc (Suc (Suc (Suc 0)))) 0x1000 = ([0x1000, 0x2000, 0x3000], False, Inr 0x212003)"
    by (simp add: proc_entry_def sample_entries proc_denies_def proc_leaf_def arch_reserved_def beyond_def mask_eq_exp_minus_1 assms)
  then have "?walk 4 0x1000 = ([0x1000, 0x2000, 0x3000], False, Inr 0x212003)"
    by (simp only: numeral_eq_Suc pred_numeral_simps BitM.simps arith_simps)
  then show "arch_walk amd sample_tables 40 d 0x12345 0x1000 = ([0x1000, 0x2000, 0x3000], False, Inr 0x212003)"
    by (simp add: arch_walk_def assms)
  show "\<not> amd_only_fault sample_tables d [0x1000, 0x2000, 0x3000]"
    by (simp add: amd_only_fault_def upper_bit8_def sample_entries)
qed

definition sample_paging :: "unit guest_state" where
  "sample_paging = sample_guest\<lparr>ram := sample_tables\<rparr>"

lemma sample_paging_ok: "quiet sample_env attr sample_paging" "a \<in> {0x1000, 0x2000, 0x3000} \<Longrightarrow> walkable sample_env sample_paging a"
proof -
  show "quiet sample_env attr sample_paging"
    unfolding sample_paging_def by (simp add: sample_quiet)
  show "walkable sample_env sample_paging a" if "a \<in> {0x1000, 0x2000, 0x3000}"
    using that sample_no_mmio [of a 8] by (auto simp: walkable_def sample_in_vmm sample_paging_def no_mmio_def)
qed

lemma guest_walk_correct_witness:
  "\<exists>r entries' levels mem. get_pte_sub sample_env stack_pmap 0x12345 0x1000 sample_walk (\<lambda>_. 0) sample_paging
      = Some (r, entries', levels, sample_paging\<lparr>ram := mem\<rparr>)
    \<and> r = VMMERR_SUCCESS \<and> entries' 0 OR 0x60 = 0x212063"
proof -
  have "env_addr_mask sample_env = addr_mask 40" by (simp add: sample_env_def addr_mask_def mask_eq_exp_minus_1)
  moreover have "arch_walk False (ram sample_paging) 40 sample_walk 0x12345 0x1000 = ([0x1000, 0x2000, 0x3000], False, Inr 0x212003)"
    by (simp add: sample_paging_def) (rule sample_arch_walk, simp_all add: sample_walk_def)
  moreover have "\<not> amd_only_fault (ram sample_paging) sample_walk [0x1000, 0x2000, 0x3000]"
    by (simp add: sample_paging_def) (rule sample_arch_walk(2), simp_all add: sample_walk_def)
  moreover have "\<forall>a\<in>set [0x1000, 0x2000, 0x3000]. walkable sample_env sample_paging a" using sample_paging_ok(2) by simp
  moreover have "walk_regs 40 sample_walk 0x12345 0x1000"
    by (simp add: walk_regs_def sample_walk_def beyond_def mask_eq_exp_minus_1)
  ultimately show ?thesis
    using guest_walk_correct [OF sample_paging_ok(1), of 40 sample_walk "0x12345" "0x1000" False "[0x1000, 0x2000, 0x3000]"
        False "Inr 0x212003" stack_pmap "\<lambda>_. 0"]
    by fastforce
qed

end
