(* ===== verification/Guest_Linear.thy ===== *)
theory Guest_Linear
  imports Guest_Walk
begin

text \<open>
  The accesses by linear address of \<open>core/cpu_mmu.c\<close> on top of the translation, and what becomes of
  32-bit paging without large pages.
\<close>

section \<open>Reads by linear address\<close>

text \<open>The read access of the VMM with the guest's registers.\<close>

definition regs_data :: "guest_regs \<Rightarrow> bool \<Rightarrow> get_pte_data" where
  "regs_data r wr =
     \<lparr>d_pg = r_cr0 r AND CR0_PG_BIT \<noteq> 0, d_wp = r_cr0 r AND CR0_WP_BIT \<noteq> 0, d_pse = r_cr4 r AND CR4_PSE_BIT \<noteq> 0,
      d_pae = r_cr4 r AND CR4_PAE_BIT \<noteq> 0, d_lme = r_efer r AND EFER_LME_BIT \<noteq> 0,
      d_nxe = r_efer r AND EFER_NXE_BIT \<noteq> 0, d_write = wr, d_user = False, d_exec = False\<rparr>"

lemma get_pte_sub_regs:
  "get_pte e r virt wr False False s
    = map_option (\<lambda>(err, entries, _, s). (err, entries 0, s)) (get_pte_sub e stack_pmap virt (r_cr3 r) (regs_data r wr) (\<lambda>_. 0) s)"
  by (simp add: get_pte_def cpu_mmu_get_pte_def regs_data_def)

lemma gphys_ad: "ad_eq v w \<Longrightarrow> env_addr_mask e = addr_mask n \<Longrightarrow> pte_gphys e v linear = pte_gphys e w linear"
proof -
  assume v: "ad_eq v w" and m: "env_addr_mask e = addr_mask n"
  have "addr_mask n AND 0x60 = addr_mask n AND (PAGESIZE_MASK AND 0x60)" by simp
  also have "\<dots> = (mask n AND (NOT PAGESIZE_MASK AND PAGESIZE_MASK)) AND 0x60"
    unfolding addr_mask_def by (simp only: ac_simps)
  also have "\<dots> = 0" by simp
  finally show ?thesis using ad_eq_and [OF v] by (simp add: pte_gphys_def m)
qed

lemma gphys_offset:
  assumes "env_addr_mask e = addr_mask n"
  shows "pte_gphys e pte linear AND 0xFFF = linear AND 0xFFF"
proof -
  have "((pte AND (a AND NOT b)) OR (linear AND b)) AND b = linear AND b" for a b :: u64
    by (auto simp: bit_eq_iff bit_simps)
  then show ?thesis unfolding pte_gphys_def assms addr_mask_def .
qed

text \<open>The reads of a size that stay inside a page.\<close>

lemma read_inside:
  assumes "(n, rd, rg) \<in> {(1, read_linearaddr_b, read_gphys_b), (2, read_linearaddr_w, read_gphys_w),
      (4, read_linearaddr_l, read_gphys_l), (8, read_linearaddr_q, read_gphys_q)}"
    and "unat (linear AND 0xFFF) + n \<le> 4096"
  shows "rd e r linear s = read_linear_page rg e r linear s"
  using assms
  by (auto simp: read_linearaddr_b_def read_linearaddr_w_def read_linearaddr_l_def read_linearaddr_q_def word_le_nat_alt)

text \<open>
  C40: In PAE or long mode, with physical addresses of 32 to 48 bits, the table entries on the way in
  ordinary memory of the guest, no registered I/O at the translated address and no handler waiting
  for its removal, a read by linear address that stays inside a page returns the bytes the guest has
  behind the translation of a processor with pages of 1GB (those of the memory, or of the blank page
  where the VMM is), or fails with the processor's page fault; and it changes only accessed and dirty
  bits of the tables.  Where an upper entry of long mode has bit 8 set, which AMD's processors reserve
  and Intel's ignore, the read fails with a reserved bit on both.
\<close>

theorem linear_read_correct:
  fixes e :: "'d guest_env"
  assumes "\<And>attr. quiet e attr s" and "env_addr_mask e = addr_mask w" "32 \<le> w" "w \<le> 48"
    and "walk_regs w (regs_data r False) linear (r_cr3 r)"
    and "arch_walk amd (ram s) w (regs_data r False) linear (r_cr3 r) = (path, denied, res)" "\<forall>a\<in>set path. walkable e s a"
    and "(n, rd) \<in> {(1, read_linearaddr_b), (2, read_linearaddr_w), (4, read_linearaddr_l), (8, read_linearaddr_q)}"
    and "unat (linear AND 0xFFF) + n \<le> 4096" and "\<And>pte. res = Inr pte \<Longrightarrow> no_mmio s (pte_gphys e pte linear) n"
  shows "\<exists>mem. rd e r linear s = Some
      (if \<not> amd \<and> amd_only_fault (ram s) (regs_data r False) path
       then (VMMERR_PAGE_BAD_RESERVED_BIT, [], s\<lparr>ram := mem\<rparr>)
       else case res of Inl err \<Rightarrow> (err, [], s\<lparr>ram := mem\<rparr>)
         | Inr pte \<Rightarrow> (VMMERR_SUCCESS, guest_bytes e (s\<lparr>ram := mem\<rparr>) (pte_gphys e pte linear) n, s\<lparr>ram := mem\<rparr>))
    \<and> (\<forall>x. mem x = ram s x \<or> x \<in> set path \<and> mem x OR 0x60 = ram s x OR 0x60)"
proof -
  let ?bad = "\<not> amd \<and> amd_only_fault (ram s) (regs_data r False) path"
  have ns: "\<not> (d_user (regs_data r False) \<or> d_write (regs_data r False) \<or> d_exec (regs_data r False))"
    by (simp add: regs_data_def)
  have al: "\<not> denied"
    by (rule proc_walk_allowed [OF _ _ _ assms(6) [unfolded arch_walk_def Let_def]]) (use ns in auto)
  obtain x entries' levels mem where
    sub: "get_pte_sub e stack_pmap linear (r_cr3 r) (regs_data r False) (\<lambda>_. 0) s = Some (x, entries', levels, s\<lparr>ram := mem\<rparr>)"
    and r0: "if ?bad then x = VMMERR_PAGE_BAD_RESERVED_BIT
        \<or> (d_user (regs_data r False) \<or> d_write (regs_data r False) \<or> d_exec (regs_data r False)) \<and> rights_fault x
      else if denied then rights_fault x
      else case res of Inl err \<Rightarrow> x = err | Inr p \<Rightarrow> x = VMMERR_SUCCESS \<and> ad_eq (entries' 0) p"
    and mem: "\<forall>x. mem x = ram s x \<or> x \<in> set path \<and> mem x OR 0x60 = ram s x OR 0x60"
    using walk_arch_result [OF assms(1-7), of stack_pmap "\<lambda>_. 0"] by blast
  define pte where "pte = entries' 0"
  have pte: "get_pte e r linear False False False s = Some (x, pte, s\<lparr>ram := mem\<rparr>)"
    by (simp add: get_pte_sub_regs sub pte_def)
  have res: "if ?bad then x = VMMERR_PAGE_BAD_RESERVED_BIT
      else case res of Inl err \<Rightarrow> x = err | Inr p \<Rightarrow> x = VMMERR_SUCCESS \<and> ad_eq pte p"
    using r0 al ns unfolding pte_def by (cases ?bad) (simp_all only: if_True if_False simp_thms)
  obtain rg :: "'d guest_env \<Rightarrow> u32 \<Rightarrow> u64 \<Rightarrow> 'd guest_state \<Rightarrow> (u8 list \<times> 'd guest_state) option"
    where rg: "(n, rd, rg) \<in> {(1, read_linearaddr_b, read_gphys_b), (2, read_linearaddr_w, read_gphys_w),
      (4, read_linearaddr_l, read_gphys_l), (8, read_linearaddr_q, read_gphys_q)}"
    using assms(8) by auto
  have rd: "rd e r linear s = read_linear_page rg e r linear s" by (rule read_inside [OF rg assms(9)])
  have bad: "rd e r linear s = Some (VMMERR_PAGE_BAD_RESERVED_BIT, [], s\<lparr>ram := mem\<rparr>)" if ?bad
    using res that by (simp add: rd read_linear_page_def pte)
  have inl: "rd e r linear s = Some (err, [], s\<lparr>ram := mem\<rparr>)" if "res = Inl err" "\<not> ?bad" for err
    using proc_walk_error [OF assms(6) [unfolded arch_walk_def Let_def that(1)]] that res
    by (auto simp: rd read_linear_page_def pte)
  have q: "quiet e attr (s\<lparr>ram := mem\<rparr>)" for attr using assms(1) by simp
  have inr: "rd e r linear s = Some (VMMERR_SUCCESS, guest_bytes e (s\<lparr>ram := mem\<rparr>) (pte_gphys e p linear) n, s\<lparr>ram := mem\<rparr>)"
    if "res = Inr p" "\<not> ?bad" for p
  proof -
    have "no_mmio (s\<lparr>ram := mem\<rparr>) (pte_gphys e p linear) n" using assms(10) [OF that(1)] by (simp add: no_mmio_def)
    moreover have "unat (pte_gphys e p linear AND PAGESIZE_MASK) + n \<le> 4096"
      using assms(9) gphys_offset [OF assms(2), of p linear] by simp
    moreover have "(n, rg) \<in> {(1, read_gphys_b), (2, read_gphys_w), (4, read_gphys_l), (8, read_gphys_q)}"
      using rg by auto
    ultimately have "rg e attr (pte_gphys e p linear) (s\<lparr>ram := mem\<rparr>)
        = Some (guest_bytes e (s\<lparr>ram := mem\<rparr>) (pte_gphys e p linear) n, s\<lparr>ram := mem\<rparr>)" for attr
      by (rule read_inside_bytes [OF q])
    moreover have "x = VMMERR_SUCCESS \<and> ad_eq pte p" using res that by (cases ?bad) auto
    moreover from this have "pte_gphys e pte linear = pte_gphys e p linear" using gphys_ad [OF _ assms(2)] by blast
    ultimately show ?thesis unfolding rd read_linear_page_def pte by simp
  qed
  have "rd e r linear s = Some
      (if ?bad then (VMMERR_PAGE_BAD_RESERVED_BIT, [], s\<lparr>ram := mem\<rparr>)
       else case res of Inl err \<Rightarrow> (err, [], s\<lparr>ram := mem\<rparr>)
         | Inr pte \<Rightarrow> (VMMERR_SUCCESS, guest_bytes e (s\<lparr>ram := mem\<rparr>) (pte_gphys e pte linear) n, s\<lparr>ram := mem\<rparr>))"
  proof (cases ?bad)
    case True
    then show ?thesis using bad by (simp only: if_True simp_thms)
  next
    case False
    show ?thesis unfolding if_not_P [OF False]
      by (cases res) (simp_all only: sum.case inl [OF _ False] inr [OF _ False])
  qed
  with mem show ?thesis by blast
qed

definition sample_regs_long :: guest_regs where
  "sample_regs_long = \<lparr>r_cr0 = 0x80010001, r_cr3 = 0x1000, r_cr4 = 0x20, r_efer = 0xD00\<rparr>"

lemma linear_read_correct_witness:
  "\<exists>mem. read_linearaddr_l sample_env sample_regs_long 0x12345 sample_paging
    = Some (VMMERR_SUCCESS, guest_bytes sample_env (sample_paging\<lparr>ram := mem\<rparr>) 0x212345 4, sample_paging\<lparr>ram := mem\<rparr>)"
proof -
  have "env_addr_mask sample_env = addr_mask 40" by (simp add: sample_env_def addr_mask_def mask_eq_exp_minus_1)
  moreover have "walk_regs 40 (regs_data sample_regs_long False) 0x12345 (r_cr3 sample_regs_long)"
    by (simp add: walk_regs_def regs_data_def sample_regs_long_def beyond_def mask_eq_exp_minus_1)
  moreover have "d_lme (regs_data sample_regs_long False)" "d_nxe (regs_data sample_regs_long False)"
      "\<not> d_user (regs_data sample_regs_long False)" "\<not> d_exec (regs_data sample_regs_long False)"
    by (simp_all add: regs_data_def sample_regs_long_def)
  note w = sample_arch_walk [OF this]
  have "arch_walk False (ram sample_paging) 40 (regs_data sample_regs_long False) 0x12345 (r_cr3 sample_regs_long)
      = ([0x1000, 0x2000, 0x3000], False, Inr 0x212003)"
    "\<not> amd_only_fault (ram sample_paging) (regs_data sample_regs_long False) [0x1000, 0x2000, 0x3000]"
    using w by (simp_all add: sample_regs_long_def sample_paging_def)
  moreover have "\<forall>a\<in>set [0x1000, 0x2000, 0x3000]. walkable sample_env sample_paging a" using sample_paging_ok(2) by simp
  moreover have g: "pte_gphys sample_env 0x212003 0x12345 = 0x212345" by (simp add: pte_gphys_def sample_env_def)
  moreover have "no_mmio sample_paging 0x212345 4" using sample_no_mmio [of "0x212345" 4] by (simp add: sample_paging_def no_mmio_def)
  ultimately show ?thesis
    using linear_read_correct [OF sample_paging_ok(1), of 40 sample_regs_long "0x12345" False "[0x1000, 0x2000, 0x3000]"
        False "Inr 0x212003" 4 read_linearaddr_l]
    by auto
qed

section \<open>32-bit paging without large pages\<close>

text \<open>
  When \<open>CR4.PSE\<close> is 0 the bit \<open>PS\<close> of a page directory entry means nothing.  \<open>get_pte_sub\<close> clears
  it in its own copy, but the walk still has it when the accessed bit needs no update, and makes a
  page of 4MB from the entry: below, the linear address 0 is not at \<open>0x5000\<close>, where the page table
  puts it, but at \<open>0x100000000\<close>.
\<close>

definition pse_tables :: physmem where
  "pse_tables = (\<lambda>_. 0)(0x1000 := 0xA3, 0x1001 := 0x20, 0x2000 := 0x03, 0x2001 := 0x50)"

definition pse_walk :: get_pte_data where
  "pse_walk = \<lparr>d_pg = True, d_wp = True, d_pse = False, d_pae = False, d_lme = False, d_nxe = False,
     d_write = False, d_user = False, d_exec = False\<rparr>"

lemma loop_step:
  "get_pte_level e d levels i (pmap_setlevel i m) s = Some (VMMERR_SUCCESS, x, m', s') \<Longrightarrow> i = Suc j
    \<Longrightarrow> get_pte_loop e d levels i m entries s = get_pte_loop e d levels j m' (entries(j := x)) s'"
  by simp

lemma pse_off_large_page:
  "\<exists>entries'. get_pte_sub sample_env stack_pmap 0 0x1000 pse_walk (\<lambda>_. 0) (sample_guest\<lparr>ram := pse_tables\<rparr>)
     = Some (VMMERR_SUCCESS, entries', 2, sample_guest\<lparr>ram := pse_tables\<rparr>) \<and> entries' 0 = 0x100000023"
proof -
  let ?s = "sample_guest\<lparr>ram := pse_tables\<rparr>"
  have q: "quiet sample_env attr ?s" for attr by (simp add: sample_quiet)
  have m: "no_mmio ?s 0x1000 4" using sample_no_mmio [of "0x1000" 4] by (simp add: no_mmio_def)
  have v: "\<not> phys_in_vmm (env_gmm sample_env) (0x1000 + of_nat i)" if "i < 4" for i
    using that by (auto simp: sample_in_vmm word_le_nat_alt unat_add64 unat_of_nat64)
  have b: "guest_bytes sample_env ?s 0x1000 4 = [0xA3, 0x20, 0, 0]"
    using v [of 0] by (simp add: guest_bytes_def read_mem_def upt_rec pse_tables_def)
  have ne: "[0xA3, 0x20, 0, 0] \<noteq> replicate 4 (0 :: u8)" by (simp add: list_eq_iff_nth_eq) (rule exI [of _ 0], simp)
  have rd: "pmap_rd sample_env 4 mm 0x1000 attr ?s = Some (0x20A3, ?s)" if "pm_type mm = PMAP_TYPE_GUEST_ATOMIC" for mm attr
    using guest_cmpxchg [OF q, of "0x1000" "replicate 4 0" "replicate 4 0" attr] m b v [of 0] that
    by (simp add: pmap_rd_def ne)
  define m0 where "m0 = pmap_seek 0 3 (pmap_open_guest stack_pmap 0x1000 2 True)"
  have m0: "m0 = stack_pmap\<lparr>pm_levels := 2, pm_readlevel := 2, pm_curlevel := 2, pm_curaddr := 0,
      pm_entry := (\<lambda>_. 0)(2 := 0x1001), pm_type := PMAP_TYPE_GUEST_ATOMIC\<rparr>"
    by (simp add: m0_def pmap_seek_def pmap_open_guest_def pmap_setlevel_def stack_pmap_def)
  define m1 where "m1 = m0\<lparr>pm_curlevel := 1, pm_readlevel := 1, pm_entryaddr := (\<lambda>_. 0)(1 := 0x1000),
      pm_entry := (\<lambda>_. 0)(2 := 0x1001, 1 := 0x20A3)\<rparr>"
  have r2: "pmap_read sample_env m0 ?s = Some (0x1001, m0, ?s)"
    by (simp add: pmap_read_def m0 numeral_2_eq_2)
  have r1: "pmap_read sample_env (pmap_setlevel 2 m0) ?s = Some (0x20A3, m1, ?s)"
    using rd by (simp add: pmap_read_def m0 m1_def pmap_setlevel_def numeral_2_eq_2 entry_addr_def stack_pmap_def)
  have r0: "pmap_read sample_env (pmap_setlevel 1 m1) ?s = Some (0x100000023, pmap_setlevel 1 m1, ?s)"
    by (simp add: pmap_read_def m0 m1_def pmap_setlevel_def split_large_def Let_def)
  have l1: "get_pte_level sample_env pse_walk 2 2 (pmap_setlevel 2 m0) ?s = Some (VMMERR_SUCCESS, 0x2023, m1, ?s)"
    by (rule get_pte_level_done)
      (simp add: get_pte_try_def r1 test_pmap_entry_reserved_bit_def pse_walk_def entry_error_def set_ad_bit_def)
  have l0: "get_pte_level sample_env pse_walk 2 1 (pmap_setlevel 1 m1) ?s = Some (VMMERR_SUCCESS, 0x100000023, pmap_setlevel 1 m1, ?s)"
    by (rule get_pte_level_done)
      (simp add: get_pte_try_def r0 [simplified] test_pmap_entry_reserved_bit_def pse_walk_def entry_error_def set_ad_bit_def)
  have loop: "\<exists>en. get_pte_loop sample_env pse_walk 2 2 m0 entries ?s = Some (VMMERR_SUCCESS, en, ?s) \<and> en 0 = 0x100000023" for entries
    using loop_step [OF l1, of 1] loop_step [OF l0, of 0] by simp
  have "d_pg pse_walk" "\<not> d_lme pse_walk" "\<not> d_pae pse_walk" by (simp_all add: pse_walk_def)
  then have "get_pte_sub sample_env stack_pmap 0 0x1000 pse_walk (\<lambda>_. 0) ?s
      = map_option (\<lambda>(r, entries, s). (r, entries, 2, s))
          (get_pte_loop sample_env pse_walk 2 2 m0 ((\<lambda>_. 0)(2 := 0x1001 OR PDE_RW_BIT OR PDE_US_BIT OR PDE_A_BIT)) ?s)"
    using r2 by (simp add: get_pte_sub_def m0_def)
  then show ?thesis using loop [of "(\<lambda>_. 0)(2 := 0x1001 OR PDE_RW_BIT OR PDE_US_BIT OR PDE_A_BIT)"] by auto
qed

end
