(* ===== verification/Guest_Confined.thy ===== *)
theory Guest_Confined
  imports Guest_Linear
begin

text \<open>
  The accesses by linear address of a guest with arbitrary page tables: they stay out of the memory
  of the VMM.
\<close>

section \<open>Hostile page tables\<close>

text \<open>Whatever the page tables hold, no step of the walk changes a byte of the VMM.\<close>

definition vmm_same :: "'d guest_env \<Rightarrow> 'd guest_state \<Rightarrow> 'd guest_state \<Rightarrow> bool" where
  "vmm_same e s t = (\<forall>x. phys_in_vmm (env_gmm e) x \<longrightarrow> ram t x = ram s x)"

lemma vmm_same_refl [simp]: "vmm_same e s s" by (simp add: vmm_same_def)

lemma vmm_same_trans: "vmm_same e s t \<Longrightarrow> vmm_same e t u \<Longrightarrow> vmm_same e s u"
  by (simp add: vmm_same_def)

lemma cmpxchg_safe:
  assumes gm: "gmm_ok (env_gmm e)" and c: "cmpxchg_gphys e attr phys old new s = Some (r, bs, t)"
    and len: "length old = 4 \<or> length old = 8" "length new = length old"
  shows "vmm_same e s t"
  unfolding vmm_same_def
proof (intro allI impI)
  fix x assume "phys_in_vmm (env_gmm e) x"
  then have x: "\<not> writable e x" by (simp add: writable_def)
  have page: "\<not> (if length old = 4 then 0xFFD else 0xFF9) \<le> phys AND 0xFFF"
    using c by (auto simp: cmpxchg_gphys_def split: if_splits)
  obtain f buf s1 where acc: "access_memory e phys False old f (locked s) = Some (False, buf, s1)"
    and rest: "\<not> snd (gmm_pass_gp2hp (env_gmm e) phys)"
      "cmpxchg_hphys (fst (gmm_pass_gp2hp (env_gmm e) phys)) old new (unlocked e s1) = (r, bs, t)"
    using c page by (auto simp: cmpxchg_gphys_def Let_def split: option.splits bool.splits prod.splits if_splits)
  have keep: "ram s1 x = ram s x" using access_memory_safe [OF gm acc x] by simp
  have w: "writable e phys" "fst (gmm_pass_gp2hp (env_gmm e) phys) = phys"
    using rest(1) gp2hp_rom [of e phys] gp2hp_writable [of e phys] by auto
  have p: "unat (phys AND PAGESIZE_MASK) + length new \<le> 4096"
    using page page_room(3,4) [of phys] len by (auto split: if_splits)
  have "x \<noteq> phys + of_nat i" if "i < length new" for i
    using same_page_in_vmm [OF gm, of phys i] p that w x by (auto simp: writable_def)
  then show "ram t x = ram s x"
    using rest(2) keep unfolding w(2) by (auto simp: cmpxchg_hphys_def write_hphys_def write_mem_other Let_def split: if_splits)
qed

lemma pmap_rd_safe:
  assumes "gmm_ok (env_gmm e)" "pm_type m = PMAP_TYPE_GUEST_ATOMIC" "n = 4 \<or> n = 8"
    and "pmap_rd e n m phys attr s = Some (v, t)"
  shows "vmm_same e s t"
  using assms(2-4) cmpxchg_safe [OF assms(1), of attr phys "replicate n 0" "replicate n 0" s] by (auto simp: pmap_rd_def)

lemma pmap_wr_safe:
  assumes "gmm_ok (env_gmm e)" "pm_type m = PMAP_TYPE_GUEST_ATOMIC" "n = 4 \<or> n = 8"
    and "pmap_wr e n m phys attr old new s = Some (r, v, t)"
  shows "vmm_same e s t"
  using assms(2-4) cmpxchg_safe [OF assms(1), of attr phys "to_bytes n old" "to_bytes n new" s] by (auto simp: pmap_wr_def)

lemma entry_size_cases: "entry_size l = 4 \<or> entry_size l = 8" by simp

lemma read_loop_safe:
  assumes "gmm_ok (env_gmm e)"
  shows "pmap_read_loop e k m s = Some (v, m', t) \<Longrightarrow> pm_type m = PMAP_TYPE_GUEST_ATOMIC
    \<Longrightarrow> vmm_same e s t \<and> pm_type m' = PMAP_TYPE_GUEST_ATOMIC"
proof (induction k arbitrary: m s)
  case (Suc k)
  show ?case
  proof (cases "Suc k \<le> pm_curlevel m \<or> pm_entry m (Suc k) AND PDE_P_BIT = 0
      \<or> (k = 1 \<or> k = 0) \<and> pm_entry m (Suc k) AND PDE_PS_BIT \<noteq> 0")
    case True
    then have "t = s \<and> m' = m" using Suc.prems(1) by (auto simp: Let_def split: if_splits)
    then show ?thesis using Suc.prems(2) by simp
  next
    case False
    then obtain w s1 where rd: "pmap_rd e (entry_size (pm_levels m)) m (entry_addr (pm_levels m) k (pm_entry m (Suc k)) (pm_curaddr m))
        (ucast (pm_entry m (Suc k) AND PDE_CACHE_BITS)) s = Some (w, s1)"
      and loop: "pmap_read_loop e k (m\<lparr>pm_readlevel := k, pm_entryaddr := (pm_entryaddr m)(k :=
          entry_addr (pm_levels m) k (pm_entry m (Suc k)) (pm_curaddr m)), pm_entry := (pm_entry m)(k := w)\<rparr>) s1 = Some (v, m', t)"
      using Suc.prems(1) by (auto simp: Let_def split: option.splits prod.splits)
    have "vmm_same e s1 t \<and> pm_type m' = PMAP_TYPE_GUEST_ATOMIC" using Suc.IH [OF loop] Suc.prems(2) by simp
    then show ?thesis using pmap_rd_safe [OF assms Suc.prems(2) entry_size_cases rd] vmm_same_trans by blast
  qed
qed simp

lemma pmap_write_safe:
  assumes "gmm_ok (env_gmm e)" "pmap_write e m v am s = Some (r, m', t)" "pm_type m = PMAP_TYPE_GUEST_ATOMIC"
  shows "vmm_same e s t \<and> pm_type m' = PMAP_TYPE_GUEST_ATOMIC"
proof -
  have "pm_readlevel m \<le> pm_curlevel m" using assms(2) by (rule contrapos_pp) (simp add: pmap_write_def Let_def)
  then obtain w u where "pmap_wr e (entry_size (pm_levels m)) m (pm_entryaddr m (pm_curlevel m))
      (ucast (pm_entry m (Suc (pm_curlevel m)) AND PDE_CACHE_BITS)) (pm_entry m (pm_curlevel m)) w s = Some (r, u, t)"
    "pm_type m' = pm_type m"
    using assms(2) unfolding pmap_write_def Let_def by (auto split: option.splits simp del: if_split simp: if_P)
  then show ?thesis using pmap_wr_safe [OF assms(1,3) entry_size_cases] assms(3) by simp
qed

lemma set_ad_safe:
  assumes "gmm_ok (env_gmm e)" "set_ad_bit e m v seta setd s = Some (r, x, m', t)" "pm_type m = PMAP_TYPE_GUEST_ATOMIC"
  shows "vmm_same e s t \<and> pm_type m' = PMAP_TYPE_GUEST_ATOMIC"
  using assms(2) pmap_write_safe [OF assms(1) _ assms(3)] assms(3)
  by (auto simp: set_ad_bit_def Let_def split: if_splits)

lemma try_safe:
  assumes gm: "gmm_ok (env_gmm e)" and tr: "get_pte_try e d levels i m s = Some (retry, r, x, m', t)"
    and m: "pm_type m = PMAP_TYPE_GUEST_ATOMIC"
  shows "vmm_same e s t \<and> pm_type m' = PMAP_TYPE_GUEST_ATOMIC"
proof -
  obtain v m1 s1 where rd: "pmap_read e m s = Some (v, m1, s1)" using tr by (auto simp: get_pte_try_def split: option.splits)
  have 1: "vmm_same e s s1 \<and> pm_type m1 = PMAP_TYPE_GUEST_ATOMIC"
    using read_loop_safe [OF gm rd [unfolded pmap_read_def] m] .
  have "m' = m1 \<and> t = s1 \<or> (\<exists>w setd x'. set_ad_bit e m1 w True setd s1 = Some (retry, x', m', t))"
    using tr unfolding get_pte_try_def rd Let_def
    by (auto split: if_split_asm option.splits bool.splits)
  then show ?thesis using 1 set_ad_safe [OF gm] vmm_same_trans by blast
qed

lemma level_safe:
  assumes "get_pte_level e d levels i m s = Some y"
  shows "gmm_ok (env_gmm e) \<Longrightarrow> pm_type m = PMAP_TYPE_GUEST_ATOMIC
    \<Longrightarrow> vmm_same e s (snd (snd (snd y))) \<and> pm_type (fst (snd (snd y))) = PMAP_TYPE_GUEST_ATOMIC"
  using assms
proof (induction e d levels i m s y rule: get_pte_level.raw_induct [rotated, consumes 1, case_names step])
  case (step f e d levels i m s y)
  obtain retry r x m1 s1 where tr: "get_pte_try e d levels i m s = Some (retry, r, x, m1, s1)"
    and y: "if retry then f e d levels i m1 s1 = Some y else y = (r, x, m1, s1)"
    using step(2) by (auto simp: bind_eq_Some_conv split: if_splits)
  note st = try_safe [OF step(3) tr step(4)]
  show ?case
  proof (cases retry)
    case True
    have "vmm_same e s1 (snd (snd (snd y))) \<and> pm_type (fst (snd (snd y))) = PMAP_TYPE_GUEST_ATOMIC"
      by (rule step(1)) (use y True step(3) st in auto)
    then show ?thesis using vmm_same_trans [OF conjunct1 [OF st]] by simp
  qed (use y st in simp)
qed

lemma loop_safe:
  assumes gm: "gmm_ok (env_gmm e)"
  shows "get_pte_loop e d levels k m entries s = Some (r, en, t) \<Longrightarrow> pm_type m = PMAP_TYPE_GUEST_ATOMIC \<Longrightarrow> vmm_same e s t"
proof (induction k arbitrary: m entries s)
  case (Suc k)
  obtain r1 x m1 s1 where lv: "get_pte_level e d levels (Suc k) (pmap_setlevel (Suc k) m) s = Some (r1, x, m1, s1)"
    and rest: "if r1 \<noteq> VMMERR_SUCCESS then t = s1 else get_pte_loop e d levels k m1 (entries(k := x)) s1 = Some (r, en, t)"
    using Suc.prems(1) by (auto split: option.splits if_splits)
  have "vmm_same e s s1" "pm_type m1 = PMAP_TYPE_GUEST_ATOMIC"
    using level_safe [OF lv gm] Suc.prems(2) by (simp_all add: pmap_setlevel_def)
  moreover have "r1 = VMMERR_SUCCESS \<Longrightarrow> vmm_same e s1 t" using rest calculation Suc.IH by simp
  ultimately show ?case using rest vmm_same_trans by (cases "r1 = VMMERR_SUCCESS") (blast, simp)
qed simp

lemma get_pte_safe:
  assumes gm: "gmm_ok (env_gmm e)" and g: "get_pte e r virt wr us ex s = Some (err, pte, t)"
  shows "vmm_same e s t"
proof -
  obtain d en levels where sub: "get_pte_sub e stack_pmap virt (r_cr3 r) d (\<lambda>_. 0) s = Some (err, en, levels, t)"
    using g by (auto simp: get_pte_def cpu_mmu_get_pte_def)
  show ?thesis
  proof (cases "d_pg d")
    case True
    define l :: nat where "l = (if d_lme d then 4 else if d_pae d then 3 else 2)"
    define d' where "d' = (if d_lme d then d\<lparr>d_pae := True, d_pse := True\<rparr> else if d_pae d then d\<lparr>d_pse := True\<rparr> else d)"
    define m0 where "m0 = pmap_seek virt (l + 1) (pmap_open_guest stack_pmap (r_cr3 r) l True)"
    have eq: "get_pte_sub e stack_pmap virt (r_cr3 r) d (\<lambda>_. 0) s
        = (case pmap_read e m0 s of None \<Rightarrow> None | Some (x, m1, s1) \<Rightarrow>
            map_option (\<lambda>(r, en, s). (r, en, l, s)) (get_pte_loop e d' l l m1 ((\<lambda>_. 0)(l := x OR PDE_RW_BIT OR PDE_US_BIT OR PDE_A_BIT)) s1))"
      using True unfolding l_def d'_def m0_def by (auto simp: get_pte_sub_def Let_def split: option.splits)
    obtain x m1 s1 en' where rd: "pmap_read e m0 s = Some (x, m1, s1)"
      and loop: "get_pte_loop e d' l l m1 en' s1 = Some (err, en, t)"
      using sub unfolding eq by (auto split: option.splits)
    have "pm_type m0 = PMAP_TYPE_GUEST_ATOMIC"
      by (simp add: m0_def pmap_seek_def pmap_open_guest_def pmap_setlevel_def Let_def)
    from read_loop_safe [OF gm rd [unfolded pmap_read_def] this] show ?thesis
      using loop_safe [OF gm loop] vmm_same_trans by blast
  next
    case False
    then show ?thesis using sub by (auto simp: get_pte_sub_def)
  qed
qed

text \<open>Only \<open>write_gphys_l\<close> can reach the blank page.\<close>

definition off_blank :: "'d guest_env \<Rightarrow> u64 \<Rightarrow> bool" where
  "off_blank e x = (phys_in_vmm (env_gmm e) x \<and> x AND NOT PAGESIZE_MASK \<noteq> phys_blank (env_gmm e))"

lemma page_write_safe:
  assumes gm: "gmm_ok (env_gmm e)" and x: "off_blank e x"
    and w: "(n, wr) \<in> {(1, write_gphys_b), (2, write_gphys_w), (4, write_gphys_l), (8, write_gphys_q)}"
    and d: "length data = n" and r: "write_linear_page wr e r linear data s = Some (err, t)"
  shows "ram t x = ram s x"
proof -
  obtain err1 pte s1 where g: "get_pte e r linear True False False s = Some (err1, pte, s1)"
    and rest: "if err1 \<noteq> VMMERR_SUCCESS then t = s1 else wr e (pte_attr pte) (pte_gphys e pte linear) data s1 = Some t"
    using r by (auto simp: write_linear_page_def split: option.splits if_splits)
  have 1: "ram s1 x = ram s x" using get_pte_safe [OF gm g] x by (simp add: vmm_same_def off_blank_def)
  have "\<not> writable e x" using x by (simp add: writable_def off_blank_def)
  note ws = write_b_safe [OF gm _ _ this] write_w_safe [OF gm _ _ this] write_l_safe [OF gm _ _ this] write_q_safe [OF gm _ _ this]
  have "ram t x = ram s1 x" if "wr e (pte_attr pte) (pte_gphys e pte linear) data s1 = Some t"
    using w that d x ws by (elim insertE emptyE) (auto simp: off_blank_def)
  then show ?thesis using rest 1 by (auto split: if_splits)
qed

lemma ok_then_some:
  "ok_then a b = Some (err, t) \<longleftrightarrow>
     (\<exists>err1 s1. a = Some (err1, s1) \<and> (if err1 \<noteq> VMMERR_SUCCESS then err = err1 \<and> t = s1 else b s1 = Some (err, t)))"
  by (auto simp: ok_then_def split: option.splits if_splits)

lemma linear_b_safe:
  assumes "gmm_ok (env_gmm e)" "off_blank e x" "length data = 1" "write_linearaddr_b e r linear data s = Some (err, t)"
  shows "ram t x = ram s x"
  using page_write_safe [OF assms(1,2) _ assms(3), of write_gphys_b] assms(4) by (simp add: write_linearaddr_b_def)

lemma linear_twice_safe:
  assumes ot: "ok_then (wr a (take n data) s) (wr b (drop n data)) = Some (err, t)" and len: "length data = n + n"
    and wr: "\<And>linear data s err t. length data = n \<Longrightarrow> wr linear data s = Some (err, t) \<Longrightarrow> ram t x = ram s x"
  shows "ram t x = ram s x"
proof -
  obtain err1 s1 where 1: "wr a (take n data) s = Some (err1, s1)"
    and rest: "if err1 \<noteq> VMMERR_SUCCESS then err = err1 \<and> t = s1 else wr b (drop n data) s1 = Some (err, t)"
    using ot by (auto simp: ok_then_some)
  have "ram s1 x = ram s x" by (rule wr [OF _ 1]) (simp add: len)
  moreover have "ram t x = ram s1 x" if "wr b (drop n data) s1 = Some (err, t)" by (rule wr [OF _ that]) (simp add: len)
  ultimately show ?thesis using rest by (cases "err1 = VMMERR_SUCCESS") simp_all
qed

lemma linear_w_safe:
  assumes "gmm_ok (env_gmm e)" "off_blank e x" "length data = 2" "write_linearaddr_w e r linear data s = Some (err, t)"
  shows "ram t x = ram s x"
proof (cases "linear AND 0xFFF = 0xFFF")
  case True
  show ?thesis
    by (rule linear_twice_safe [where wr = "\<lambda>l d s. write_linearaddr_b e r l d s" and n = 1])
      (use assms True linear_b_safe [OF assms(1,2)] in \<open>simp_all add: write_linearaddr_w_def numeral_2_eq_2\<close>)
next
  case False
  then show ?thesis using page_write_safe [OF assms(1,2) _ assms(3), of write_gphys_w] assms(4) by (simp add: write_linearaddr_w_def)
qed

lemma linear_l_safe:
  assumes "gmm_ok (env_gmm e)" "off_blank e x" "length data = 4" "write_linearaddr_l e r linear data s = Some (err, t)"
  shows "ram t x = ram s x"
proof (cases "0xFFD \<le> linear AND 0xFFF")
  case True
  show ?thesis
    by (rule linear_twice_safe [where wr = "\<lambda>l d s. write_linearaddr_w e r l d s" and n = 2])
      (use assms True linear_w_safe [OF assms(1,2)] in \<open>simp_all add: write_linearaddr_l_def\<close>)
next
  case False
  then show ?thesis using page_write_safe [OF assms(1,2) _ assms(3), of write_gphys_l] assms(4) by (simp add: write_linearaddr_l_def)
qed

lemma linear_q_safe:
  assumes "gmm_ok (env_gmm e)" "off_blank e x" "length data = 8" "write_linearaddr_q e r linear data s = Some (err, t)"
  shows "ram t x = ram s x"
proof (cases "0xFF9 \<le> linear AND 0xFFF")
  case True
  show ?thesis
    by (rule linear_twice_safe [where wr = "\<lambda>l d s. write_linearaddr_l e r l d s" and n = 4])
      (use assms True linear_l_safe [OF assms(1,2)] in \<open>simp_all add: write_linearaddr_q_def\<close>)
next
  case False
  then show ?thesis using page_write_safe [OF assms(1,2) _ assms(3), of write_gphys_q] assms(4) by (simp add: write_linearaddr_q_def)
qed

lemma linear_tss_safe:
  assumes gm: "gmm_ok (env_gmm e)" and x: "off_blank e x" and w: "write_linearaddr_tss e r linear tss s = Some (err, t)"
    and len: "length tss < 2 ^ 32"
  shows "ram t x = ram s x"
proof -
  obtain err1 pte s1 where g: "get_pte e r linear True False False s = Some (err1, pte, s1)"
    and rest: "t = s1 \<or> (\<exists>mp. mapmem_gphys e True (pte_gphys e pte linear) (of_nat (length tss)) = Some mp
      \<and> t = s1\<lparr>ram := copy_to mp tss (ram s1)\<rparr>)"
    using w by (auto simp: write_linearaddr_tss_def split: option.splits if_splits)
  have 1: "ram s1 x = ram s x" using get_pte_safe [OF gm g] x by (simp add: vmm_same_def off_blank_def)
  have nw: "\<not> writable e x" using x by (simp add: writable_def off_blank_def)
  have "unat (of_nat (length tss) :: u32) = length tss" using len by (simp add: unat_of_nat take_bit_nat_eq_self)
  then have "copy_to mp tss (ram s1) x = ram s1 x"
    if "mapmem_gphys e True (pte_gphys e pte linear) (of_nat (length tss)) = Some mp" for mp
    using mapmem_write [OF gm that] nw by (intro copy_to_other) auto
  then show ?thesis using rest 1 by auto
qed

text \<open>
  C6: Whatever page tables a guest builds, also in the memory of the VMM, over a device or in loops,
  a write by linear address never changes the memory of the VMM, except for the blank page that the
  guest sees in its place: neither by the data nor by the accessed and dirty bits of the walk.
\<close>

theorem linear_write_safe:
  assumes "gmm_ok (env_gmm e)" and "phys_in_vmm (env_gmm e) x" "x AND NOT PAGESIZE_MASK \<noteq> phys_blank (env_gmm e)"
    and "(n, wr) \<in> {(1, write_linearaddr_b), (2, write_linearaddr_w), (4, write_linearaddr_l), (8, write_linearaddr_q)}"
    and "length data = n" and "wr e r linear data s = Some (err, t)"
  shows "ram t x = ram s x"
proof -
  have "off_blank e x" using assms(2,3) by (simp add: off_blank_def)
  note safe = linear_b_safe [OF assms(1) this] linear_w_safe [OF assms(1) this] linear_l_safe [OF assms(1) this]
    linear_q_safe [OF assms(1) this]
  show ?thesis using assms(4-6) safe by (elim insertE emptyE) auto
qed

text \<open>With paging off the linear address is the physical one: here in the memory of the VMM.\<close>

lemma linear_write_safe_witness:
  "\<exists>t. write_linearaddr_l sample_env \<lparr>r_cr0 = 1, r_cr3 = 0, r_cr4 = 0, r_efer = 0\<rparr> 0x40000000 [1, 2, 3, 4] sample_guest
     = Some (VMMERR_SUCCESS, t) \<and> ram t 0x40000000 = 0"
proof -
  let ?r = "\<lparr>r_cr0 = 1, r_cr3 = 0, r_cr4 = 0, r_efer = 0\<rparr>" and ?s = "stored 0x40100000 [1, 2, 3, 4] sample_guest"
  have v: "phys_in_vmm (env_gmm sample_env) 0x40000000" by (simp add: sample_in_vmm)
  have b: "phys_blank (env_gmm sample_env) = 0x40100000" by (simp add: sample_env_def)
  have gm: "gmm_ok (env_gmm sample_env)" using sample_quiet [of 0] by (simp add: quiet_def)
  have g: "get_pte sample_env ?r 0x40000000 True False False sample_guest = Some (VMMERR_SUCCESS, 0x40000067, sample_guest)"
    by (simp add: get_pte_def cpu_mmu_get_pte_def get_pte_sub_def sample_env_def)
  have "write_gphys_l sample_env 0 0x40000000 [1, 2, 3, 4] sample_guest = Some ?s"
    using guest_write_l_blank [OF sample_quiet [of 0] sample_no_mmio _ v, where data = "[1, 2, 3, 4]"] by (simp add: b)
  then have w: "write_linearaddr_l sample_env ?r 0x40000000 [1, 2, 3, 4] sample_guest = Some (VMMERR_SUCCESS, ?s)"
    by (simp add: write_linearaddr_l_def write_linear_page_def g pte_attr_def pte_gphys_def) (simp add: sample_env_def)
  have "ram ?s 0x40000000 = ram sample_guest 0x40000000"
    using linear_write_safe [where n = 4 and wr = write_linearaddr_l and data = "[1, 2, 3, 4]", OF gm v _ _ _ w] by (simp add: b)
  then show ?thesis using w by (simp add: sample_guest_def)
qed

end
