(* ===== verification/Spec2Isabelle.thy ===== *)
theory Spec2Isabelle
  imports On_Demand Forced_Maps Cache_Types Cpu_Load Heap_Objects Guest_Confined
begin

text \<open>
  On-demand virtualization with BitVisor: post-copy migration of a running guest between two
  machines, each under a thin hypervisor with an lwIP stack.

  The source machine (\<open>bitvisor_client\<close>) connects to the destination (\<open>bitvisor_server\<close>), sends the
  CPU state and the parts of memory that do not fill 32KB blocks (the margins), and then copies
  the rest block by block in the background while it answers requests for single blocks.  The
  destination starts the guest as soon as the margins are in, stores what arrives, and asks for a
  block when the guest touches an address whose block is missing.

  Theories, from the bottom up:

  \<^item> \<open>Bv_Prelude\<close>: integer widths, byte stores, physical memory, the lemmas on words shared by all.
  \<^item> \<open>Mem_Layout\<close>: the tables \<open>usable_mem_list\<close>, \<open>usable_mem_list_gran\<close>, \<open>margin_list\<close>, the area
    selection and \<open>get_next_addr\<close> (\<open>ip/echo-client.c\<close>, \<open>ip/echo-server.c\<close>).
  \<^item> \<open>Bit_Array\<close>: the block bitmaps of both machines; the locale \<open>block_set\<close> is their contract, a
    set of block numbers, interpreted on both.
  \<^item> \<open>Msg_Protocol\<close>: \<open>ip/include/biform-net-protocol/msg_protocol.h\<close>, the packed metadata union as
    its 24 bytes, and the bytes on the wire.
  \<^item> \<open>Tcp_Pcb\<close>: the send side of an lwIP connection as the migration code sees it.
  \<^item> \<open>Echo_Client\<close>: \<open>ip/echo-client.c\<close>, one definition per function, the static variables as the
    record \<open>client\<close>.
  \<^item> \<open>Batched_Send\<close>: the locale of a sender that writes packets until the buffer is full and goes on
    when called again; \<open>Client_Reply\<close> and \<open>Client_Margins\<close> interpret it on \<open>postcopy_requested\<close>,
    \<open>postcopy_requested_disrupted\<close> and \<open>send_margin\<close>.
  \<^item> \<open>Echo_Server\<close>: \<open>ip/echo-server.c\<close>, the TCP callbacks and the requests, its statics as the record
    \<open>server\<close>; \<open>Server_Memory\<close>: what delivered blocks do to the memory.
  \<^item> \<open>Migration\<close>: both machines together as a step relation, the invariant that memory marked as
    sent agrees, completion, progress and service of requests.
  \<^item> \<open>Cache\<close>: \<open>core/cache.c\<close>, the PAT and the MTRRs the guest sees, and the memory type and page
    attributes of a guest access; \<open>Cache_Types\<close>: every guest write keeps the types within those the
    VMM's PAT has, the attributes select the type of the access, and the check for large mappings
    against the type of single addresses.
  \<^item> \<open>Mmio\<close>: \<open>core/mmio.c\<close>, the registry of I/O handlers with its lists as lists of pointers into a
    heap; \<open>Mmio_Access\<close>: how accesses are split between handlers and memory, byte by byte, and that
    the search of one bucket is enough; \<open>Mmio_Registry\<close>: registration and removal keep the registry
    in order.
  \<^item> \<open>Gmm_Pass\<close>: \<open>core/gmm_pass.c\<close>; \<open>Vt_Ept\<close>: \<open>core/vt_ept.c\<close>, the extended page tables in a memory
    of entries, with the cached path and the pool of tables, and the wait of a violation for its
    block; \<open>Vt_Ept_Walk\<close> relates both to the walk the processor makes, \<open>Vt_Ept_Map\<close> shows what
    each operation does to the mappings, \<open>Vt_Ept_Safety\<close> that the guest never reaches the VMM, and
    \<open>Forced_Maps\<close> that the ranges of the firmware are mapped again whenever the tables were emptied.
  \<^item> \<open>On_Demand\<close> puts the two halves together: a violation on the destination, the source's answer, the
    packets as they arrive, and the loop of the violation that looks at the arrival flag in between.

  \<^item> \<open>Page_Alloc\<close>: the page allocator of \<open>core/mm.c\<close>, a binary buddy system; \<open>Page_Blocks\<close> says how the
    structures tile the memory by blocks, \<open>Page_Alloc_Ok\<close> shows what an allocation and a release do to
    that tiling, and \<open>Page_Pool\<close> concludes for every reachable state of the allocator; the locale
    \<open>page_pool\<close> is its contract, blocks that leave a set of free pages and come back to it.
  \<^item> \<open>Small_Alloc\<close>: \<open>alloc\<close>, \<open>free\<close> and \<open>realloc\<close> of \<open>core/mm.c\<close> with the bitmaps of their pages;
    \<open>Small_Objects\<close> and \<open>Heap_Objects\<close>: the objects never overlap, can always be released, and keep
    their contents.
  \<^item> \<open>Guest_Access\<close>: \<open>core/gmm_access.c\<close> and the accesses to physical memory and the mappings of
    \<open>core/mm.c\<close>; \<open>Guest_Writes\<close> shows that they leave the memory of the VMM alone, \<open>Guest_Bytes\<close> that
    they read and write the guest's bytes.
  \<^item> \<open>Pmap\<close>: the walk of page tables of \<open>core/mm.c\<close> (\<open>pmap_*\<close>); \<open>Guest_Mmu\<close>: \<open>core/cpu_mmu.c\<close>, the
    guest's address translation and the accesses by linear address.  \<open>Proc_Walk\<close> states the walk a
    processor makes (\<open>proc_walk\<close>) independently of the code, for AMD's processors, which reserve bit 8 of
    the upper entries of long mode, and for Intel's, which ignore it; \<open>Guest_Tables\<close> says what the bits
    of an entry and the table of reserved bits amount to, \<open>Guest_Walk\<close> that the code agrees with the processor,
    \<open>Guest_Linear\<close> what a read returns, and \<open>Guest_Confined\<close> that no page tables make the walk
    or the access behind it change the memory of the VMM.

  \<^item> \<open>Vmcs\<close>: the virtual CPU, \<open>struct vt\<close> of \<open>core/vt.h\<close> with the VMCS as a map from field encodings to
    values of the field's width, the general registers and the rest of the machine; the locale
    \<open>register_file\<close> is the contract of a store of registers, interpreted on the VMCS, on the general
    registers and on the page that carries the CPU state.
  \<^item> \<open>Vt_Paging\<close>: \<open>core/vt_paging.c\<close>, the choice between extended and shadow page tables and the
    controls that go with it; \<open>Vt_Msr\<close>: \<open>core/vt_msr.c\<close> and \<open>core/msr_pass.c\<close>; \<open>Vt_Regs\<close>:
    \<open>core/vt_regs.c\<close>, control and segment registers, the switch between real and protected mode, the
    reset.
  \<^item> \<open>Vt_Frame\<close> collects what these operations leave alone; \<open>Vt_State\<close> is the invariant \<open>vt_ok\<close> of the
    virtual CPU (controls, paging root, long mode, mode flags, exception bitmap), kept by every
    operation of the hypervisor (the relation \<open>vt_step\<close>); \<open>Vt_Init\<close>: \<open>core/vt_init.c\<close>, the start from
    the capabilities of the processor.
  \<^item> \<open>Vt_Event\<close>, \<open>Vt_Exit\<close>, \<open>Vt_Task\<close>, \<open>Vt_Main\<close>: \<open>core/vt_main.c\<close> (with \<open>core/vt.c\<close>,
    \<open>core/exint_pass.c\<close>, \<open>core/cpu_emul.c\<close>), the events and interrupts, one definition per exit
    handler, the task switch, and the main loop as a step relation.
  \<^item> \<open>Vt_Switch\<close> and \<open>Vt_Guest\<close>: what the guest notices of this: the invariant over the main loop, the
    control registers it reads back, the mode switch, the events that are delivered again after an EPT
    violation.
  \<^item> \<open>Cpu_State\<close>: \<open>core/vmmcall_postcopy_migration.c\<close> of the source and
    \<open>core/vmmcall_postcopy_migration_ready.c\<close> of the destination; \<open>Cpu_View\<close> and \<open>Cpu_Load\<close>: a guest in
    64-bit mode with EFER 0xd01 and up-to-date copies of its system call MSRs reads after the migration
    the registers of \<open>guest_view\<close> it read before; CSTAR, LDTR and the attributes of the segments are not
    among them, since the code does not transfer them.

  Loops.  \<open>postcopy_requested\<close> ends because the batch counter reaches 32 (a \<open>function\<close> with its
  measure); \<open>send_margin\<close> and \<open>get_start_addr\<close> may run forever in states the code does not reach, they
  are partial functions with \<open>None\<close> for that, and lemmas show that they return in the states that
  occur.  The loops of \<open>flush_tlb_entry\<close> and of the forced mappings of \<open>vt_ept.c\<close> are partial functions
  as well, since they do not end on ranges that reach the end of the address space.  So are the search
  of \<open>alloc\<close> for a page with room (\<open>alloc_loop\<close>) and the retry of \<open>get_pte_sub\<close> (\<open>get_pte_level\<close>), which are
  shown to end: the first unless no page is left, the second on tables in memory of the guest.  No
  fuel is used.

  Bounds.  The steps of \<open>Migration\<close> start with the source between two transfers, its send buffer in step
  with the messages (\<open>quiet\<close>) and room in it for the 32 messages of a block; a transfer cut short by a
  full buffer is the subject of \<open>Client_Reply\<close>, and its block is marked before it is complete.
  \<open>On_Demand\<close> has one request outstanding at a time.  The allocator has 32768 pages and blocks of up to
  2^12 of them (16MB); the objects of \<open>Heap_Objects\<close> come from requests of at most 0x7FFFF000 bytes, and
  \<open>alloc_pages_overflow\<close> shows what happens to one of 2GB.  The blank page that stands for the VMM holds
  whatever 32-bit writes have left there.  The check for large mappings is sound for masks of variable
  MTRRs without holes up to the address width of the processor.  The theorems
  on the guest's page tables cover PAE and long mode with 32 to 48 address bits (the code drops the bits
  48 to 51 of a table's address), without SMEP, SMAP and protection keys; what goes wrong in the 2-level
  mode without PSE is the lemma \<open>pse_off_large_page\<close>.  Page tables are read and written by
  one processor at a time.

  Inputs of the model.  Whether lwIP can queue one more segment is the list \<open>queue_ok\<close> of the
  connection; the outcome of an allocation or of the message to the handler that starts the guest
  is a parameter or a field.  The exit handlers take the code they call outside the model as the
  record \<open>exit_env\<close> (instruction interpreter, shadow page faults, VMM calls, I/O, CPUID, XSETBV,
  linear memory); \<open>exit_env_ok\<close> says that it acts on the virtual CPU by the operations of \<open>vt_step\<close>.  The
  accesses of \<open>Guest_Access\<close> take the MMIO handlers, the translation of \<open>Gmm_Pass\<close>, the memory types of
  \<open>Cache\<close> and the address mask as the record \<open>guest_env\<close>; \<open>quiet\<close> says that these are well-formed.  The
  values of the processor's MSRs and which of their accesses fault are fields of the state, the
  registers of the host and the pages allocated are the record \<open>vt_start\<close>; \<open>vmx_capable\<close> is what the
  processor's manual says of its capability MSRs.  The build is the 64-bit one with
  \<open>CPU_MMU_SPT_DISABLE\<close> off.  Locks, output to the console, time stamps and statistics have no state.

  Not modelled: the network bandwidth tests of \<open>echo-client.c\<close> (\<open>test_send\<close>), the message interface
  that starts client and server (\<open>ip/echoctl.c\<close>), the shadow page tables except for their root
  (\<open>core/cpu_mmu_spt.c\<close>), the instruction interpreter, the SVM half of the hypervisor, devirtualization,
  the memory pools and the virtual addresses of mappings in \<open>core/mm.c\<close>, scheduling and processes, the
  rest of lwIP, the device drivers, the cryptographic, VPN and storage
  code, and the boot loaders.
\<close>

end
